(* ===== verification/Prelude.thy ===== *)
theory Prelude
  imports Main
begin

text \<open>
  Generic material shared by every component of the development.

  Machine integers.  The Rust code is built with \<open>overflow-checks = true\<close> (\<open>Cargo.toml\<close>,
  \<open>[profile.release]\<close>), so a plain \<open>+\<close>, \<open>-\<close>, \<open>*\<close> that leaves the range of its type panics instead
  of wrapping.  An \<open>i128\<close> is therefore modelled as an \<open>int\<close>, a \<open>u64\<close> or \<open>u32\<close> as a \<open>nat\<close>, and every
  arithmetic operation of the code goes through one of the checked operations below, whose result
  is \<open>None\<close> exactly when the mathematical result is out of range: \<open>checked_add\<close> and its siblings
  of the Rust standard library.  The saturating operations and the truncating division are the
  ones of Rust.

  Maps.  Soroban storage is modelled by partial maps; \<open>total_over\<close> adds a weight over the entries of
  a finite map, and its update lemma is what the accounting invariants of the contracts rest on.
\<close>

named_theorems arith_defs "definitions of the checked machine arithmetic"

section \<open>Machine integers\<close>

abbreviation (input) u32_max :: nat where "u32_max \<equiv> 4294967295"
abbreviation (input) u64_max :: nat where "u64_max \<equiv> 18446744073709551615"
abbreviation (input) i128_max :: int where "i128_max \<equiv> 170141183460469231731687303715884105727"
abbreviation (input) i128_min :: int where "i128_min \<equiv> - 170141183460469231731687303715884105728"

lemma machine_bounds:
  "u32_max = 2 ^ 32 - 1" "u64_max = 2 ^ 64 - 1" "i128_max = 2 ^ 127 - 1" "i128_min = - (2 ^ 127)"
  by simp_all

definition in_i128 :: "int \<Rightarrow> bool" where
  "in_i128 x \<longleftrightarrow> i128_min \<le> x \<and> x \<le> i128_max"

definition in_u64 :: "nat \<Rightarrow> bool" where
  "in_u64 n \<longleftrightarrow> n \<le> u64_max"

definition in_u32 :: "nat \<Rightarrow> bool" where
  "in_u32 n \<longleftrightarrow> n \<le> u32_max"

subsection \<open>Checked operations on i128\<close>

definition checked_add :: "int \<Rightarrow> int \<Rightarrow> int option" where
  "checked_add a b = (if in_i128 (a + b) then Some (a + b) else None)"

definition checked_sub :: "int \<Rightarrow> int \<Rightarrow> int option" where
  "checked_sub a b = (if in_i128 (a - b) then Some (a - b) else None)"

definition checked_mul :: "int \<Rightarrow> int \<Rightarrow> int option" where
  "checked_mul a b = (if in_i128 (a * b) then Some (a * b) else None)"

text \<open>Rust's \<open>/\<close> truncates towards zero; \<open>checked_div\<close> is \<open>None\<close> on a zero divisor and on
  \<open>i128::MIN / -1\<close>.\<close>

definition quot :: "int \<Rightarrow> int \<Rightarrow> int" where
  "quot a b = sgn a * sgn b * (\<bar>a\<bar> div \<bar>b\<bar>)"

definition checked_div :: "int \<Rightarrow> int \<Rightarrow> int option" where
  "checked_div a b = (if b \<noteq> 0 \<and> in_i128 (quot a b) then Some (quot a b) else None)"

definition saturating_sub :: "int \<Rightarrow> int \<Rightarrow> int" where
  "saturating_sub a b = max i128_min (min i128_max (a - b))"

definition saturating_add :: "int \<Rightarrow> int \<Rightarrow> int" where
  "saturating_add a b = max i128_min (min i128_max (a + b))"

text \<open>The cast \<open>as u32\<close> of a wider integer keeps the low 32 bits.\<close>

definition as_u32 :: "int \<Rightarrow> nat" where
  "as_u32 x = nat (x mod 4294967296)"

subsection \<open>Checked operations on u64\<close>

definition u64_add :: "nat \<Rightarrow> nat \<Rightarrow> nat option" where
  "u64_add a b = (if in_u64 (a + b) then Some (a + b) else None)"

definition u64_sub :: "nat \<Rightarrow> nat \<Rightarrow> nat option" where
  "u64_sub a b = (if b \<le> a then Some (a - b) else None)"

definition u64_mul :: "nat \<Rightarrow> nat \<Rightarrow> nat option" where
  "u64_mul a b = (if in_u64 (a * b) then Some (a * b) else None)"

definition u64_saturating_add :: "nat \<Rightarrow> nat \<Rightarrow> nat" where
  "u64_saturating_add a b = min u64_max (a + b)"

definition u32_add :: "nat \<Rightarrow> nat \<Rightarrow> nat option" where
  "u32_add a b = (if in_u32 (a + b) then Some (a + b) else None)"

lemmas [arith_defs] =
  in_i128_def in_u64_def in_u32_def checked_add_def checked_sub_def checked_mul_def checked_div_def
  quot_def saturating_sub_def saturating_add_def u64_add_def u64_sub_def u64_mul_def u64_saturating_add_def
  u32_add_def

lemma checked_add_Some [simp]: "checked_add a b = Some c \<longleftrightarrow> c = a + b \<and> in_i128 (a + b)"
  by (auto simp: checked_add_def)

lemma checked_sub_Some [simp]: "checked_sub a b = Some c \<longleftrightarrow> c = a - b \<and> in_i128 (a - b)"
  by (auto simp: checked_sub_def)

lemma checked_mul_Some [simp]: "checked_mul a b = Some c \<longleftrightarrow> c = a * b \<and> in_i128 (a * b)"
  by (auto simp: checked_mul_def)

lemma u64_add_Some [simp]: "u64_add a b = Some c \<longleftrightarrow> c = a + b \<and> in_u64 (a + b)"
  by (auto simp: u64_add_def)

lemma u64_sub_Some [simp]: "u64_sub a b = Some c \<longleftrightarrow> c = a - b \<and> b \<le> a"
  by (auto simp: u64_sub_def)

lemma u64_mul_Some [simp]: "u64_mul a b = Some c \<longleftrightarrow> c = a * b \<and> in_u64 (a * b)"
  by (auto simp: u64_mul_def)

lemma quot_pos: "0 \<le> a \<Longrightarrow> 0 < b \<Longrightarrow> quot a b = a div b"
  by (cases "a = 0") (auto simp: quot_def sgn_if)

lemma in_i128_between: "in_i128 a \<Longrightarrow> in_i128 c \<Longrightarrow> a \<le> b \<Longrightarrow> b \<le> c \<Longrightarrow> in_i128 b"
  by (auto simp: in_i128_def)

lemma saturating_in_range [simp]:
  "in_i128 (a + b) \<Longrightarrow> saturating_add a b = a + b" "in_i128 (a - b) \<Longrightarrow> saturating_sub a b = a - b"
  by (auto simp: saturating_add_def saturating_sub_def in_i128_def)

lemma as_u32_small: "0 \<le> x \<Longrightarrow> x < 4294967296 \<Longrightarrow> as_u32 x = nat x"
  by (simp add: as_u32_def)

lemma in_i128_0 [simp]: "in_i128 0"
  by (simp add: in_i128_def)

text \<open>A running sum of checked additions returns exactly when every partial sum fits.\<close>

fun sums_fit :: "int \<Rightarrow> int list \<Rightarrow> bool" where
  "sums_fit acc [] \<longleftrightarrow> True"
| "sums_fit acc (n # ns) \<longleftrightarrow> in_i128 (acc + n) \<and> sums_fit (acc + n) ns"

section \<open>Options\<close>

text \<open>\<open>unwrap_or\<close> is the default read of Soroban storage: \<open>get(key).unwrap_or(d)\<close>.\<close>

definition unwrap_or :: "'a option \<Rightarrow> 'a \<Rightarrow> 'a" where
  "unwrap_or m d = (case m of None \<Rightarrow> d | Some x \<Rightarrow> x)"

lemma unwrap_or_simps [simp]: "unwrap_or None d = d" "unwrap_or (Some x) d = x"
  by (simp_all add: unwrap_or_def)

section \<open>Sums over finite maps\<close>

definition total_over :: "('v \<Rightarrow> int) \<Rightarrow> ('k \<rightharpoonup> 'v) \<Rightarrow> int" where
  "total_over f m = (\<Sum>k\<in>dom m. f (the (m k)))"

definition opt_weight :: "('v \<Rightarrow> int) \<Rightarrow> 'v option \<Rightarrow> int" where
  "opt_weight f x = (case x of None \<Rightarrow> 0 | Some v \<Rightarrow> f v)"

lemma opt_weight_simps [simp]: "opt_weight f None = 0" "opt_weight f (Some v) = f v"
  by (simp_all add: opt_weight_def)

lemma total_over_empty [simp]: "total_over f Map.empty = 0"
  by (simp add: total_over_def)

lemma total_over_remove:
  assumes "finite (dom m)"
  shows "total_over f m = opt_weight f (m k) + total_over f (m(k := None))"
proof -
  have eq: "(\<Sum>j\<in>dom m - {k}. f (the ((m(k := None)) j))) = (\<Sum>j\<in>dom m - {k}. f (the (m j)))"
    by (rule sum.cong) auto
  show ?thesis
  proof (cases "m k")
    case None
    then have "m(k := None) = m" by auto
    with None show ?thesis by simp
  next
    case (Some v)
    then have "k \<in> dom m" by auto
    with assms have "total_over f m = f (the (m k)) + (\<Sum>j\<in>dom m - {k}. f (the (m j)))"
      unfolding total_over_def by (rule sum.remove)
    with Some eq show ?thesis by (simp add: total_over_def)
  qed
qed

lemma total_over_update:
  assumes "finite (dom m)"
  shows "total_over f (m(k \<mapsto> v)) = total_over f m - opt_weight f (m k) + f v"
proof -
  have "total_over f (m(k \<mapsto> v)) = f v + total_over f (m(k := None))"
    using total_over_remove [of "m(k \<mapsto> v)" f k] assms by simp
  then show ?thesis
    using total_over_remove [OF assms, of f k] by simp
qed

lemma total_over_delete:
  assumes "finite (dom m)"
  shows "total_over f (m(k := None)) = total_over f m - opt_weight f (m k)"
  using total_over_remove [OF assms, of f k] by simp

lemma total_over_nonneg: "(\<And>k v. m k = Some v \<Longrightarrow> 0 \<le> f v) \<Longrightarrow> 0 \<le> total_over f m"
  unfolding total_over_def by (rule sum_nonneg) auto

lemma total_over_mono:
  "(\<And>k v. m k = Some v \<Longrightarrow> f v \<le> g v) \<Longrightarrow> total_over f m \<le> total_over g m"
  unfolding total_over_def by (rule sum_mono) auto

lemma total_over_member_le:
  assumes "finite (dom m)" and "\<And>k v. m k = Some v \<Longrightarrow> 0 \<le> f v" and "m k = Some v"
  shows "f v \<le> total_over f m"
proof -
  have "0 \<le> total_over f (m(k := None))"
    by (rule total_over_nonneg) (use assms(2) in \<open>auto split: if_splits\<close>)
  with total_over_remove [OF assms(1), of f k] assms(3) show ?thesis by simp
qed

section \<open>Lists\<close>

lemma length_filter_partition: "length (filter P xs) + length (filter (\<lambda>x. \<not> P x) xs) = length xs"
  by (rule sum_length_filter_compl)

lemma map_filter_total: "(\<And>x. x \<in> set xs \<Longrightarrow> f x \<noteq> None) \<Longrightarrow> List.map_filter f xs = map (\<lambda>x. the (f x)) xs"
  by (induction xs) (force simp: List.map_filter_simps)+

lemma sorted_wrt_snoc_fresh:
  "sorted_wrt (<) xs \<Longrightarrow> (\<And>x. x \<in> set xs \<Longrightarrow> x < (y::nat)) \<Longrightarrow> sorted_wrt (<) (xs @ [y])"
  by (simp add: sorted_wrt_append)

end
