(* ===== verification/Host.thy ===== *)
theory Host
  imports Prelude
begin

text \<open>
  The Soroban host, as far as the contracts use it.

  \<^item> \<open>address\<close> models \<open>soroban_sdk::Address\<close>: opaque, with equality and the SDK's total order.
  \<^item> \<open>env\<close> is what an invocation reads of the host: which addresses authorise it
    (\<open>require_auth\<close> traps for the others), the ledger sequence number and timestamp and the
    address of the running contract.  The contract's storage is not in it: each component has a
    record of its own, with one field per storage key.
  \<^item> \<open>trap\<close> is how an invocation can fail: \<open>panic_with_error!\<close> with an error of the contract, a
    failed \<open>require_auth\<close>, \<open>panic!\<close>/\<open>expect\<close>/\<open>unwrap\<close>, an arithmetic overflow, and a trap of a called
    contract.
  \<^item> An entry point is a function from the state to \<open>trap + (result * state)\<close>.  The host rolls a
    trapped invocation back, so \<open>Inl\<close> carries no state and \<open>run\<close> continues from the old one.

  The two locales state once what an invariant and a monotone relation of a contract are; each
  component interprets them on its own dispatcher.  Time-to-live and archival of storage entries
  are not modelled: entries live until they are removed.
\<close>

section \<open>Addresses, environments, traps\<close>

datatype address = Addr nat

instantiation address :: linorder
begin

fun less_eq_address :: "address \<Rightarrow> address \<Rightarrow> bool" where
  "less_eq_address (Addr a) (Addr b) \<longleftrightarrow> a \<le> b"

fun less_address :: "address \<Rightarrow> address \<Rightarrow> bool" where
  "less_address (Addr a) (Addr b) \<longleftrightarrow> a < b"

instance
proof
  fix x y z :: address
  show "(x < y) = (x \<le> y \<and> \<not> y \<le> x)" by (cases x; cases y) auto
  show "x \<le> x" by (cases x) simp
  show "x \<le> y \<Longrightarrow> y \<le> z \<Longrightarrow> x \<le> z" by (cases x; cases y; cases z) simp
  show "x \<le> y \<Longrightarrow> y \<le> x \<Longrightarrow> x = y" by (cases x; cases y) simp
  show "x \<le> y \<or> y \<le> x" by (cases x; cases y) auto
qed

end

type_synonym symbol = string

record env =
  env_auth :: "address \<Rightarrow> bool"
  env_sequence :: nat
  env_timestamp :: nat
  env_self :: address

text \<open>The environment of an invocation signed by the listed addresses.\<close>

definition signed_env :: "address list \<Rightarrow> nat \<Rightarrow> nat \<Rightarrow> address \<Rightarrow> env" where
  "signed_env signers seq ts this =
     \<lparr>env_auth = (\<lambda>a. a \<in> set signers), env_sequence = seq, env_timestamp = ts, env_self = this\<rparr>"

lemma signed_env_simps [simp]:
  "env_auth (signed_env signers seq ts this) a \<longleftrightarrow> a \<in> set signers"
  "env_sequence (signed_env signers seq ts this) = seq"
  "env_timestamp (signed_env signers seq ts this) = ts"
  "env_self (signed_env signers seq ts this) = this"
  by (simp_all add: signed_env_def)

definition env_ok :: "env \<Rightarrow> bool" where
  "env_ok e \<longleftrightarrow> in_u32 (env_sequence e) \<and> in_u64 (env_timestamp e)"

datatype 'e trap =
    ContractError 'e
  | AuthTrap
  | PanicTrap
  | ArithTrap
  | CallTrap

type_synonym ('s, 'e, 'a) outcome = "'e trap + ('a \<times> 's)"

section \<open>Sequences of invocations\<close>

text \<open>One invocation as a transaction: a trap rolls the state back.\<close>

definition commit :: "'s \<Rightarrow> 'e trap + 's \<Rightarrow> 's" where
  "commit s r = (case r of Inl _ \<Rightarrow> s | Inr s' \<Rightarrow> s')"

lemma commit_simps [simp]: "commit s (Inl t) = s" "commit s (Inr s') = s'"
  by (simp_all add: commit_def)

fun run :: "('c \<Rightarrow> 's \<Rightarrow> 'e trap + 's) \<Rightarrow> 'c list \<Rightarrow> 's \<Rightarrow> 's" where
  "run exec [] s = s"
| "run exec (c # cs) s = run exec cs (commit s (exec c s))"

lemma run_append: "run exec (cs @ ds) s = run exec ds (run exec cs s)"
  by (induction cs arbitrary: s) auto

text \<open>A call that succeeds, for evaluating a run step by step.\<close>

lemma run_Inr: "exec c s = Inr s1 \<Longrightarrow> run exec cs s1 = r \<Longrightarrow> run exec (c # cs) s = r"
  by simp

text \<open>The state part of an entry point's outcome, for the dispatchers.\<close>

definition final :: "('s, 'e, 'a) outcome \<Rightarrow> 'e trap + 's" where
  "final r = (case r of Inl t \<Rightarrow> Inl t | Inr (_, s) \<Rightarrow> Inr s)"

lemma final_Inr [simp]: "final r = Inr s' \<longleftrightarrow> (\<exists>a. r = Inr (a, s'))"
  by (auto simp: final_def split: sum.splits)

lemma final_simps [simp]: "final (Inl t) = Inl t" "final (Inr (a, s)) = Inr s"
  by (simp_all add: final_def)

text \<open>A loop whose body may trap.\<close>

fun fold_trap :: "('x \<Rightarrow> 'u \<Rightarrow> 'e trap + 'u) \<Rightarrow> 'x list \<Rightarrow> 'u \<Rightarrow> 'e trap + 'u" where
  "fold_trap f [] u = Inr u"
| "fold_trap f (x # xs) u = (case f x u of Inl t \<Rightarrow> Inl t | Inr u1 \<Rightarrow> fold_trap f xs u1)"

lemma fold_trap_inv:
  assumes "fold_trap f xs u = Inr u'" and "P u" and "\<And>x u u'. x \<in> set xs \<Longrightarrow> P u \<Longrightarrow> f x u = Inr u' \<Longrightarrow> P u'"
  shows "P u'"
  using assms
proof (induction xs arbitrary: u)
  case (Cons x xs)
  from Cons.prems(1) obtain u1 where f: "f x u = Inr u1" and fold: "fold_trap f xs u1 = Inr u'"
    by (auto split: sum.splits)
  have "P u1" by (rule Cons.prems(3) [OF _ Cons.prems(2) f]) simp
  then show ?case by (rule Cons.IH [OF fold]) (rule Cons.prems(3), simp_all)
qed simp

locale contract_invariant =
  fixes exec :: "'c \<Rightarrow> 's \<Rightarrow> 'e trap + 's"
    and inv :: "'s \<Rightarrow> bool"
    and admissible :: "'c \<Rightarrow> bool"
  assumes step_inv: "inv s \<Longrightarrow> admissible c \<Longrightarrow> exec c s = Inr s' \<Longrightarrow> inv s'"
begin

lemma commit_inv: "inv s \<Longrightarrow> admissible c \<Longrightarrow> inv (commit s (exec c s))"
  by (cases "exec c s") (auto dest: step_inv)

lemma run_inv: "inv s \<Longrightarrow> (\<And>c. c \<in> set cs \<Longrightarrow> admissible c) \<Longrightarrow> inv (run exec cs s)"
  by (induction cs arbitrary: s) (auto intro: commit_inv)

end

locale contract_relation =
  fixes exec :: "'c \<Rightarrow> 's \<Rightarrow> 'e trap + 's"
    and rel :: "'s \<Rightarrow> 's \<Rightarrow> bool"
    and admissible :: "'c \<Rightarrow> bool"
  assumes rel_refl: "rel s s"
    and rel_trans: "rel s t \<Longrightarrow> rel t u \<Longrightarrow> rel s u"
    and step_rel: "admissible c \<Longrightarrow> exec c s = Inr s' \<Longrightarrow> rel s s'"
begin

lemma commit_rel: "admissible c \<Longrightarrow> rel s (commit s (exec c s))"
  by (cases "exec c s") (auto intro: rel_refl step_rel)

lemma run_rel: "(\<And>c. c \<in> set cs \<Longrightarrow> admissible c) \<Longrightarrow> rel s (run exec cs s)"
proof (induction cs arbitrary: s)
  case Nil
  show ?case by (simp add: rel_refl)
next
  case (Cons c cs)
  have "rel s (commit s (exec c s))" by (rule commit_rel) (simp add: Cons.prems)
  moreover have "rel (commit s (exec c s)) (run exec cs (commit s (exec c s)))"
    by (rule Cons.IH) (simp add: Cons.prems)
  ultimately show ?case by (auto intro: rel_trans)
qed

end

section \<open>Admin-gated entry points\<close>

text \<open>
  Most contracts share one gate: \<open>caller.require_auth()\<close> followed by \<open>require_admin\<close>.  The locale
  names what such an operation promises; a component interprets it on each of its gated operations.
\<close>

locale admin_gated =
  fixes admin_of :: "'s \<Rightarrow> address option"
    and oper :: "env \<Rightarrow> address \<Rightarrow> 's \<Rightarrow> ('s, 'e, 'a) outcome"
  assumes gate: "oper e a s = Inr x \<Longrightarrow> env_auth e a \<and> admin_of s = Some a"
begin

lemma not_admin_traps: "admin_of s \<noteq> Some a \<Longrightarrow> \<exists>t. oper e a s = Inl t"
  by (cases "oper e a s") (auto dest: gate)

lemma not_signed_traps: "\<not> env_auth e a \<Longrightarrow> \<exists>t. oper e a s = Inl t"
  by (cases "oper e a s") (auto dest: gate)

lemma gate_final: "final (oper e a s) = Inr s' \<Longrightarrow> env_auth e a \<and> admin_of s = Some a"
  by (auto dest: gate)

end

end
