(* ===== verification/Token_Interface.thy ===== *)
theory Token_Interface
  imports Host
begin

text \<open>
  What the contracts rely on when they call a token contract through \<open>soroban_sdk::token::Client\<close>.
  The token contract is not part of a client's crate, so it is a parameter of the client's model:
  \<open>xfer e t a b n l\<close> is the ledger after \<open>token::Client::new(t).transfer(a, b, n)\<close>, called from the
  invocation \<open>e\<close> in ledger \<open>l\<close>, or \<open>None\<close> when the token traps, and \<open>bal l t a\<close> is \<open>balance(a)\<close> of
  token \<open>t\<close>.

  The laws of \<open>token_client\<close> are the documented behaviour of the Stellar token interface (SEP-41)
  between two different accounts: a transfer that succeeds is covered by the sender's balance, moves
  exactly the amount and touches no other balance.  Nothing is promised for a transfer of an account
  to itself.  The repository's own token (\<open>contracts/token.rs\<close>, theory \<open>Token\<close>) satisfies the laws.
  The host forbids re-entrancy, so a transfer leaves the calling contract's storage alone.
\<close>

type_synonym 'led xfer = "env \<Rightarrow> address \<Rightarrow> address \<Rightarrow> address \<Rightarrow> int \<Rightarrow> 'led \<Rightarrow> 'led option"

locale token_client =
  fixes xfer :: "'led xfer"
    and bal :: "'led \<Rightarrow> address \<Rightarrow> address \<Rightarrow> int"
  assumes xfer_covered: "xfer e t a b n l = Some l' \<Longrightarrow> 0 \<le> n \<and> n \<le> bal l t a"
    and xfer_debit: "xfer e t a b n l = Some l' \<Longrightarrow> a \<noteq> b \<Longrightarrow> bal l' t a = bal l t a - n"
    and xfer_credit: "xfer e t a b n l = Some l' \<Longrightarrow> a \<noteq> b \<Longrightarrow> bal l' t b = bal l t b + n"
    and xfer_frame: "xfer e t a b n l = Some l' \<Longrightarrow> a \<noteq> b \<Longrightarrow> t' \<noteq> t \<or> c \<noteq> a \<and> c \<noteq> b
          \<Longrightarrow> bal l' t' c = bal l t' c"
begin

lemma xfer_overdraft: "bal l t a < n \<Longrightarrow> xfer e t a b n l = None"
  by (cases "xfer e t a b n l") (auto dest: xfer_covered)

lemma xfer_balance:
  assumes "xfer e t a b n l = Some l'" and "a \<noteq> b"
  shows "bal l' t' c =
    bal l t' c - (if t' = t \<and> c = a then n else 0) + (if t' = t \<and> c = b then n else 0)"
  using assms xfer_debit [OF assms] xfer_credit [OF assms] xfer_frame [OF assms, of t' c]
  by (cases "t' = t") auto

lemma xfer_conserves_pair:
  "xfer e t a b n l = Some l' \<Longrightarrow> a \<noteq> b \<Longrightarrow> bal l' t a + bal l' t b = bal l t a + bal l t b"
  by (simp add: xfer_debit xfer_credit)

end

text \<open>A token that can also be burned from: \<open>burn e t a n l\<close> is the ledger after \<open>burn(a, n)\<close>.\<close>

type_synonym 'led burner = "env \<Rightarrow> address \<Rightarrow> address \<Rightarrow> int \<Rightarrow> 'led \<Rightarrow> 'led option"

locale burning_token = token_client xfer bal
  for xfer :: "'led xfer" and bal :: "'led \<Rightarrow> address \<Rightarrow> address \<Rightarrow> int" +
  fixes burn :: "'led burner"
  assumes burn_covered: "burn e t a n l = Some l' \<Longrightarrow> 0 \<le> n \<and> n \<le> bal l t a"
    and burn_debit: "burn e t a n l = Some l' \<Longrightarrow> bal l' t a = bal l t a - n"
    and burn_frame: "burn e t a n l = Some l' \<Longrightarrow> t' \<noteq> t \<or> c \<noteq> a \<Longrightarrow> bal l' t' c = bal l t' c"
begin

lemma burn_balance:
  assumes "burn e t a n l = Some l'"
  shows "bal l' t' c = bal l t' c - (if t' = t \<and> c = a then n else 0)"
  using burn_debit [OF assms] burn_frame [OF assms, of t' c] by auto

end

end
