(* ===== verification/Token.thy ===== *)
theory Token
  imports Token_Interface
begin

text \<open>
  \<open>contracts/token.rs\<close>: a mintable and burnable token with caps, allowances and a pause switch.
  One definition per function of the file; the \<open>#[contractimpl]\<close> wrappers only forward to them and
  are the cases of \<open>token_exec\<close>.  The queries are the field reads with their defaults.
\<close>

section \<open>Data\<close>

record mint_record =
  mr_to :: address
  mr_amount :: int
  mr_minter :: address
  mr_timestamp :: nat
  mr_transaction_id :: nat

record burn_record =
  br_from :: address
  br_amount :: int
  br_timestamp :: nat
  br_transaction_id :: nat
  br_burner :: address

record token_metrics =
  tm_total_supply :: int
  tm_total_minted :: int
  tm_total_burned :: int
  tm_holders_count :: nat
  tm_last_mint_time :: "nat option"
  tm_last_burn_time :: "nat option"

datatype token_error =
    NotInitialized
  | AlreadyInitialized
  | Unauthorized
  | InsufficientBalance
  | InsufficientAllowance
  | InvalidAmount
  | MintCapExceeded
  | BurnCapExceeded
  | Overflow
  | Underflow
  | Paused
  | InvalidRecipient
  | ZeroAddress
  | InvalidMinter

text \<open>The events of \<open>TokenEvents\<close>, one constructor per emitter, with the published data.  The two
  \<open>cap_reached\<close> events are always followed by a panic, so they are never part of a committed state.\<close>

datatype token_event =
    EvMint address int address nat
  | EvBurn address int address nat
  | EvTransfer address address int nat
  | EvApproval address address int nat
  | EvSupplyChanged int int string nat
  | EvMinterAdded address address nat
  | EvMinterRemoved address address nat

record token_state =
  tk_admin :: "address option"
  tk_supply :: "int option"
  tk_balance :: "address \<rightharpoonup> int"
  tk_allowance :: "address \<times> address \<rightharpoonup> int"
  tk_mint_cap :: "int option"
  tk_burn_cap :: "int option"
  tk_total_minted :: "int option"
  tk_total_burned :: "int option"
  tk_mint_history :: "nat \<rightharpoonup> mint_record"
  tk_burn_history :: "nat \<rightharpoonup> burn_record"
  tk_paused :: "bool option"
  tk_minters :: "address \<rightharpoonup> bool"
  tk_events :: "token_event list"

definition token_fresh :: token_state where
  "token_fresh = \<lparr>tk_admin = None, tk_supply = None, tk_balance = Map.empty,
     tk_allowance = Map.empty, tk_mint_cap = None, tk_burn_cap = None, tk_total_minted = None,
     tk_total_burned = None, tk_mint_history = Map.empty, tk_burn_history = Map.empty,
     tk_paused = None, tk_minters = Map.empty, tk_events = []\<rparr>"

definition emit :: "token_event \<Rightarrow> token_state \<Rightarrow> token_state" where
  "emit ev s = s\<lparr>tk_events := tk_events s @ [ev]\<rparr>"

section \<open>Queries\<close>

definition get_balance :: "token_state \<Rightarrow> address \<Rightarrow> int" where
  "get_balance s a = unwrap_or (tk_balance s a) 0"

definition get_total_supply :: "token_state \<Rightarrow> int" where
  "get_total_supply s = unwrap_or (tk_supply s) 0"

definition get_allowance :: "token_state \<Rightarrow> address \<Rightarrow> address \<Rightarrow> int" where
  "get_allowance s owner spender = unwrap_or (tk_allowance s (owner, spender)) 0"

definition get_total_minted :: "token_state \<Rightarrow> int" where
  "get_total_minted s = unwrap_or (tk_total_minted s) 0"

definition get_total_burned :: "token_state \<Rightarrow> int" where
  "get_total_burned s = unwrap_or (tk_total_burned s) 0"

definition is_paused :: "token_state \<Rightarrow> bool" where
  "is_paused s = unwrap_or (tk_paused s) False"

definition is_minter :: "token_state \<Rightarrow> address \<Rightarrow> bool" where
  "is_minter s a = unwrap_or (tk_minters s a) False"

definition get_token_metrics :: "token_state \<Rightarrow> token_metrics" where
  "get_token_metrics s = \<lparr>tm_total_supply = get_total_supply s, tm_total_minted = get_total_minted s,
     tm_total_burned = get_total_burned s, tm_holders_count = 0, tm_last_mint_time = None,
     tm_last_burn_time = None\<rparr>"

section \<open>Transaction ids\<close>

text \<open>\<open>generate_transaction_id\<close>: eight big-endian bytes of the timestamp, four of the ledger
  sequence, twenty zero bytes, read as a 256-bit big-endian number.\<close>

fun be_bytes :: "nat \<Rightarrow> nat \<Rightarrow> nat list" where
  "be_bytes 0 x = []"
| "be_bytes (Suc n) x = be_bytes n (x div 256) @ [x mod 256]"

definition from_be_bytes :: "nat list \<Rightarrow> nat" where
  "from_be_bytes bs = foldl (\<lambda>acc b. 256 * acc + b) 0 bs"

definition generate_transaction_id :: "env \<Rightarrow> nat" where
  "generate_transaction_id e =
     from_be_bytes (be_bytes 8 (env_timestamp e) @ be_bytes 4 (env_sequence e) @ replicate 20 0)"

section \<open>Initialisation and roles\<close>

definition initialize_token ::
  "env \<Rightarrow> address \<Rightarrow> string \<Rightarrow> string \<Rightarrow> nat \<Rightarrow> int option \<Rightarrow> int option \<Rightarrow> token_state
    \<Rightarrow> (token_state, token_error, unit) outcome" where
  "initialize_token e admin name symb decimals mint_cap burn_cap s =
    (if tk_admin s \<noteq> None then Inl (ContractError AlreadyInitialized) else
     if name = [] then Inl (ContractError InvalidRecipient) else
     if symb = [] then Inl (ContractError InvalidRecipient) else
     if 18 < decimals then Inl (ContractError InvalidAmount) else
     let s1 = s\<lparr>tk_admin := Some admin, tk_supply := Some 0, tk_total_minted := Some 0,
                tk_total_burned := Some 0, tk_paused := Some False,
                tk_minters := (tk_minters s)(admin \<mapsto> True)\<rparr> in
     if (case mint_cap of None \<Rightarrow> False | Some cap \<Rightarrow> cap \<le> 0) then Inl (ContractError InvalidAmount) else
     let s2 = (case mint_cap of None \<Rightarrow> s1 | Some cap \<Rightarrow> s1\<lparr>tk_mint_cap := Some cap\<rparr>) in
     if (case burn_cap of None \<Rightarrow> False | Some cap \<Rightarrow> cap \<le> 0) then Inl (ContractError InvalidAmount) else
     let s3 = (case burn_cap of None \<Rightarrow> s2 | Some cap \<Rightarrow> s2\<lparr>tk_burn_cap := Some cap\<rparr>) in
     Inr ((), s3\<lparr>tk_supply := Some 0\<rparr>))"

definition get_admin :: "token_state \<Rightarrow> token_error trap + address" where
  "get_admin s = (case tk_admin s of None \<Rightarrow> Inl (ContractError NotInitialized) | Some a \<Rightarrow> Inr a)"

definition require_admin :: "env \<Rightarrow> address \<Rightarrow> token_state \<Rightarrow> token_error trap + unit" where
  "require_admin e caller s =
    (if \<not> env_auth e caller then Inl AuthTrap else
     case get_admin s of Inl t \<Rightarrow> Inl t | Inr admin \<Rightarrow>
     if admin \<noteq> caller then Inl (ContractError Unauthorized) else Inr ())"

definition require_minter :: "env \<Rightarrow> address \<Rightarrow> token_state \<Rightarrow> token_error trap + unit" where
  "require_minter e caller s =
    (if \<not> env_auth e caller then Inl AuthTrap else
     if \<not> is_minter s caller then Inl (ContractError InvalidMinter) else Inr ())"

definition add_minter :: "env \<Rightarrow> address \<Rightarrow> address \<Rightarrow> token_state
    \<Rightarrow> (token_state, token_error, unit) outcome" where
  "add_minter e admin minter s =
    (case require_admin e admin s of Inl t \<Rightarrow> Inl t | Inr _ \<Rightarrow>
     if \<not> is_minter s minter
     then Inr ((), emit (EvMinterAdded admin minter (env_timestamp e))
                     (s\<lparr>tk_minters := (tk_minters s)(minter \<mapsto> True)\<rparr>))
     else Inr ((), s))"

definition remove_minter :: "env \<Rightarrow> address \<Rightarrow> address \<Rightarrow> token_state
    \<Rightarrow> (token_state, token_error, unit) outcome" where
  "remove_minter e admin minter s =
    (case require_admin e admin s of Inl t \<Rightarrow> Inl t | Inr _ \<Rightarrow>
     case get_admin s of Inl t \<Rightarrow> Inl t | Inr admin_addr \<Rightarrow>
     if minter = admin_addr then Inl (ContractError Unauthorized) else
     if is_minter s minter
     then Inr ((), emit (EvMinterRemoved admin minter (env_timestamp e))
                     (s\<lparr>tk_minters := (tk_minters s)(minter := None)\<rparr>))
     else Inr ((), s))"

section \<open>Minting and burning\<close>

definition mint :: "env \<Rightarrow> address \<Rightarrow> address \<Rightarrow> int \<Rightarrow> token_state
    \<Rightarrow> (token_state, token_error, nat) outcome" where
  "mint e minter to amount s =
    (case require_minter e minter s of Inl t \<Rightarrow> Inl t | Inr _ \<Rightarrow>
     if amount \<le> 0 then Inl (ContractError InvalidAmount) else
     if to = env_self e then Inl (ContractError ZeroAddress) else
     if is_paused s then Inl (ContractError Paused) else
     case checked_add (get_total_supply s) amount of None \<Rightarrow> Inl (ContractError Overflow) | Some new_supply \<Rightarrow>
     if (case tk_mint_cap s of None \<Rightarrow> False | Some cap \<Rightarrow> cap < new_supply)
     then Inl (ContractError MintCapExceeded) else
     case checked_add (get_balance s to) amount of None \<Rightarrow> Inl (ContractError Overflow) | Some new_balance \<Rightarrow>
     case checked_add (get_total_minted s) amount of None \<Rightarrow> Inl (ContractError Overflow) | Some new_minted \<Rightarrow>
     let tid = generate_transaction_id e;
         rec = \<lparr>mr_to = to, mr_amount = amount, mr_minter = minter,
                mr_timestamp = env_timestamp e, mr_transaction_id = tid\<rparr>;
         s1 = s\<lparr>tk_balance := (tk_balance s)(to \<mapsto> new_balance), tk_supply := Some new_supply,
                tk_total_minted := Some new_minted,
                tk_mint_history := (tk_mint_history s)(env_timestamp e \<mapsto> rec)\<rparr>;
         s2 = emit (EvMint to amount minter (env_timestamp e)) s1
     in Inr (tid, emit (EvSupplyChanged new_supply amount ''mint'' (env_timestamp e)) s2))"

definition burn :: "env \<Rightarrow> address \<Rightarrow> int \<Rightarrow> token_state
    \<Rightarrow> (token_state, token_error, nat) outcome" where
  "burn e frm amount s =
    (if \<not> env_auth e frm then Inl AuthTrap else
     if amount \<le> 0 then Inl (ContractError InvalidAmount) else
     if is_paused s then Inl (ContractError Paused) else
     if get_balance s frm < amount then Inl (ContractError InsufficientBalance) else
     case checked_add (get_total_burned s) amount of None \<Rightarrow> Inl (ContractError Overflow) | Some new_burned \<Rightarrow>
     if (case tk_burn_cap s of None \<Rightarrow> False | Some cap \<Rightarrow> cap < new_burned)
     then Inl (ContractError BurnCapExceeded) else
     case checked_sub (get_balance s frm) amount of None \<Rightarrow> Inl (ContractError Underflow) | Some new_balance \<Rightarrow>
     case checked_sub (get_total_supply s) amount of None \<Rightarrow> Inl (ContractError Underflow) | Some new_supply \<Rightarrow>
     let b1 = (tk_balance s)(frm \<mapsto> new_balance);
         b2 = (if new_balance = 0 then b1(frm := None) else b1);
         tid = generate_transaction_id e;
         rec = \<lparr>br_from = frm, br_amount = amount, br_timestamp = env_timestamp e,
                br_transaction_id = tid, br_burner = frm\<rparr>;
         s1 = s\<lparr>tk_balance := b2, tk_supply := Some new_supply, tk_total_burned := Some new_burned,
                tk_burn_history := (tk_burn_history s)(env_timestamp e \<mapsto> rec)\<rparr>;
         s2 = emit (EvBurn frm amount frm (env_timestamp e)) s1
     in Inr (tid, emit (EvSupplyChanged new_supply (- amount) ''burn'' (env_timestamp e)) s2))"

section \<open>Transfers and allowances\<close>

text \<open>The balance update that \<open>transfer\<close> and \<open>transfer_from\<close> share, in the code's order: both
  balances are read before either is written, the sender's is written first, and a sender's balance
  of zero is removed after the receiver's has been written.\<close>

definition move_balance :: "address \<Rightarrow> address \<Rightarrow> int \<Rightarrow> token_state
    \<Rightarrow> token_error trap + token_state" where
  "move_balance frm to amount s =
    (let from_balance = get_balance s frm in
     if from_balance < amount then Inl (ContractError InsufficientBalance) else
     case checked_sub from_balance amount of None \<Rightarrow> Inl (ContractError Underflow) | Some new_from \<Rightarrow>
     case checked_add (get_balance s to) amount of None \<Rightarrow> Inl (ContractError Overflow) | Some new_to \<Rightarrow>
     let b1 = (tk_balance s)(frm \<mapsto> new_from);
         b2 = b1(to \<mapsto> new_to);
         b3 = (if new_from = 0 then b2(frm := None) else b2)
     in Inr (s\<lparr>tk_balance := b3\<rparr>))"

definition transfer :: "env \<Rightarrow> address \<Rightarrow> address \<Rightarrow> int \<Rightarrow> token_state
    \<Rightarrow> (token_state, token_error, unit) outcome" where
  "transfer e frm to amount s =
    (if \<not> env_auth e frm then Inl AuthTrap else
     if amount \<le> 0 then Inl (ContractError InvalidAmount) else
     if to = env_self e then Inl (ContractError ZeroAddress) else
     if is_paused s then Inl (ContractError Paused) else
     case move_balance frm to amount s of Inl t \<Rightarrow> Inl t | Inr s1 \<Rightarrow>
     Inr ((), emit (EvTransfer frm to amount (env_timestamp e)) s1))"

definition approve :: "env \<Rightarrow> address \<Rightarrow> address \<Rightarrow> int \<Rightarrow> token_state
    \<Rightarrow> (token_state, token_error, unit) outcome" where
  "approve e owner spender amount s =
    (if \<not> env_auth e owner then Inl AuthTrap else
     if amount < 0 then Inl (ContractError InvalidAmount) else
     if spender = env_self e then Inl (ContractError ZeroAddress) else
     if is_paused s then Inl (ContractError Paused) else
     Inr ((), emit (EvApproval owner spender amount (env_timestamp e))
                (s\<lparr>tk_allowance := (tk_allowance s)((owner, spender) \<mapsto> amount)\<rparr>)))"

definition transfer_from :: "env \<Rightarrow> address \<Rightarrow> address \<Rightarrow> address \<Rightarrow> int \<Rightarrow> token_state
    \<Rightarrow> (token_state, token_error, unit) outcome" where
  "transfer_from e spender frm to amount s =
    (if \<not> env_auth e spender then Inl AuthTrap else
     if amount \<le> 0 then Inl (ContractError InvalidAmount) else
     if to = env_self e then Inl (ContractError ZeroAddress) else
     if is_paused s then Inl (ContractError Paused) else
     let allowance = get_allowance s frm spender in
     if allowance < amount then Inl (ContractError InsufficientAllowance) else
     case move_balance frm to amount s of Inl t \<Rightarrow> Inl t | Inr s1 \<Rightarrow>
     case checked_sub allowance amount of None \<Rightarrow> Inl (ContractError Underflow) | Some new_allowance \<Rightarrow>
     let s2 = (if new_allowance = 0
               then s1\<lparr>tk_allowance := (tk_allowance s1)((frm, spender) := None)\<rparr>
               else s1\<lparr>tk_allowance := (tk_allowance s1)((frm, spender) \<mapsto> new_allowance)\<rparr>);
         s3 = emit (EvTransfer frm to amount (env_timestamp e)) s2
     in Inr ((), emit (EvApproval frm spender new_allowance (env_timestamp e)) s3))"

definition pause :: "env \<Rightarrow> address \<Rightarrow> token_state \<Rightarrow> (token_state, token_error, unit) outcome" where
  "pause e admin s =
    (case require_admin e admin s of Inl t \<Rightarrow> Inl t | Inr _ \<Rightarrow> Inr ((), s\<lparr>tk_paused := Some True\<rparr>))"

definition unpause :: "env \<Rightarrow> address \<Rightarrow> token_state \<Rightarrow> (token_state, token_error, unit) outcome" where
  "unpause e admin s =
    (case require_admin e admin s of Inl t \<Rightarrow> Inl t | Inr _ \<Rightarrow> Inr ((), s\<lparr>tk_paused := Some False\<rparr>))"

section \<open>The contract\<close>

datatype token_call =
    CInitialize address string string nat "int option" "int option"
  | CMint address address int
  | CBurn address int
  | CTransfer address address int
  | CApprove address address int
  | CTransferFrom address address address int
  | CAddMinter address address
  | CRemoveMinter address address
  | CPause address
  | CUnpause address

fun token_exec :: "env \<times> token_call \<Rightarrow> token_state \<Rightarrow> token_error trap + token_state" where
  "token_exec (e, CInitialize a n y d mc bc) s = final (initialize_token e a n y d mc bc s)"
| "token_exec (e, CMint m a n) s = final (mint e m a n s)"
| "token_exec (e, CBurn a n) s = final (burn e a n s)"
| "token_exec (e, CTransfer a b n) s = final (transfer e a b n s)"
| "token_exec (e, CApprove a b n) s = final (approve e a b n s)"
| "token_exec (e, CTransferFrom p a b n) s = final (transfer_from e p a b n s)"
| "token_exec (e, CAddMinter a m) s = final (add_minter e a m s)"
| "token_exec (e, CRemoveMinter a m) s = final (remove_minter e a m s)"
| "token_exec (e, CPause a) s = final (pause e a s)"
| "token_exec (e, CUnpause a) s = final (unpause e a s)"

section \<open>Basic facts\<close>

lemmas token_query_defs = get_balance_def get_total_supply_def get_allowance_def
  get_total_minted_def get_total_burned_def is_paused_def is_minter_def

lemmas token_gate_defs = get_admin_def require_admin_def require_minter_def

lemma emit_fields [simp]:
  "tk_admin (emit ev s) = tk_admin s" "tk_supply (emit ev s) = tk_supply s"
  "tk_balance (emit ev s) = tk_balance s" "tk_allowance (emit ev s) = tk_allowance s"
  "tk_mint_cap (emit ev s) = tk_mint_cap s" "tk_burn_cap (emit ev s) = tk_burn_cap s"
  "tk_total_minted (emit ev s) = tk_total_minted s" "tk_total_burned (emit ev s) = tk_total_burned s"
  "tk_paused (emit ev s) = tk_paused s" "tk_minters (emit ev s) = tk_minters s"
  "tk_mint_history (emit ev s) = tk_mint_history s" "tk_burn_history (emit ev s) = tk_burn_history s"
  "tk_events (emit ev s) = tk_events s @ [ev]"
  by (simp_all add: emit_def)

lemma get_balance_emit [simp]: "get_balance (emit ev s) a = get_balance s a"
  by (simp add: get_balance_def)

section \<open>Transaction ids\<close>

lemma foldl_be_bytes:
  "foldl (\<lambda>acc b. 256 * acc + b) acc (be_bytes n x) = acc * 256 ^ n + x mod 256 ^ n"
proof (induction n arbitrary: x acc)
  case 0
  show ?case by simp
next
  case (Suc n)
  have "x mod 256 ^ Suc n = 256 * (x div 256 mod 256 ^ n) + x mod 256"
    using mod_mult2_eq [of x 256 "256 ^ n"] by simp
  then show ?case by (simp add: Suc.IH distrib_left mult.assoc mult.left_commute)
qed

lemma foldl_zero_bytes: "foldl (\<lambda>acc b. 256 * acc + b) acc (replicate n 0) = acc * (256::nat) ^ n"
  by (induction n arbitrary: acc) (auto simp: algebra_simps)

lemma transaction_id_value:
  assumes "env_ok e"
  shows "generate_transaction_id e = env_timestamp e * 2 ^ 192 + env_sequence e * 2 ^ 160"
  using assms
  by (simp add: generate_transaction_id_def from_be_bytes_def foldl_be_bytes foldl_zero_bytes
      env_ok_def in_u64_def in_u32_def mod_less)

section \<open>Balances\<close>

lemma move_balance_distinct:
  assumes "move_balance a b n s = Inr s'" and "a \<noteq> b"
  shows "get_balance s' c =
    get_balance s c - (if c = a then n else 0) + (if c = b then n else 0)"
  using assms
  by (auto simp: move_balance_def get_balance_def Let_def split: if_splits option.splits)

lemma move_balance_covered: "move_balance a b n s = Inr s' \<Longrightarrow> n \<le> get_balance s a"
  by (auto simp: move_balance_def Let_def split: if_splits)

lemma move_balance_self:
  assumes "move_balance a a n s = Inr s'"
  shows "get_balance s' a = (if get_balance s a = n then 0 else get_balance s a + n)"
  using assms
  by (auto simp: move_balance_def get_balance_def Let_def split: if_splits option.splits)

lemma move_balance_frame:
  assumes "move_balance a b n s = Inr s'"
  shows "s' = s\<lparr>tk_balance := tk_balance s'\<rparr>"
  using assms by (auto simp: move_balance_def Let_def split: if_splits option.splits)

definition balances_ok :: "token_state \<Rightarrow> bool" where
  "balances_ok s \<longleftrightarrow> finite (dom (tk_balance s)) \<and> (\<forall>a n. tk_balance s a = Some n \<longrightarrow> 0 \<le> n)"

lemma balances_ok_nonneg: "balances_ok s \<Longrightarrow> 0 \<le> get_balance s a"
  by (cases "tk_balance s a") (auto simp: balances_ok_def get_balance_def)

lemma opt_weight_balance: "opt_weight id (tk_balance s a) = get_balance s a"
  by (cases "tk_balance s a") (auto simp: get_balance_def)

lemma move_balance_sum:
  assumes mv: "move_balance a b n s = Inr s'" and ne: "a \<noteq> b" and ok: "balances_ok s" and n: "0 < n"
  shows "balances_ok s' \<and> total_over id (tk_balance s') = total_over id (tk_balance s)"
proof -
  define b2 where "b2 = (tk_balance s)(a \<mapsto> get_balance s a - n, b \<mapsto> get_balance s b + n)"
  have s': "tk_balance s' = (if get_balance s a - n = 0 then b2(a := None) else b2)"
    using mv by (auto simp: move_balance_def b2_def Let_def split: if_splits option.splits)
  have fin: "finite (dom b2)" and nn: "\<forall>c m. b2 c = Some m \<longrightarrow> 0 \<le> m"
    using ok n balances_ok_nonneg [OF ok, of b] move_balance_covered [OF mv]
    by (auto simp: b2_def balances_ok_def)
  have at_a: "b2 a = Some (get_balance s a - n)" using ne by (simp add: b2_def)
  have "total_over id b2 = total_over id (tk_balance s)"
    using ok ne by (simp add: b2_def balances_ok_def total_over_update opt_weight_balance)
  moreover have "total_over id (tk_balance s') = total_over id b2"
    using s' at_a by (auto simp: total_over_delete [OF fin])
  moreover have "balances_ok s'"
    using s' fin nn by (auto simp: balances_ok_def split: if_splits)
  ultimately show ?thesis by simp
qed

lemma transfer_balances:
  assumes "transfer e a b n s = Inr ((), s')" and "a \<noteq> b"
  shows "get_balance s' = (get_balance s)(a := get_balance s a - n, b := get_balance s b + n)"
proof -
  from assms(1) obtain s1 where mv: "move_balance a b n s = Inr s1"
    and s': "s' = emit (EvTransfer a b n (env_timestamp e)) s1"
    by (auto simp: transfer_def split: if_splits sum.splits)
  show ?thesis
    using move_balance_distinct [OF mv assms(2)] assms(2) by (auto simp: s' fun_eq_iff)
qed

lemma transfer_frame:
  assumes "transfer e a b n s = Inr (r, s')"
  shows "tk_allowance s' = tk_allowance s \<and> get_total_supply s' = get_total_supply s"
proof -
  from assms obtain s1 where mv: "move_balance a b n s = Inr s1"
    and s': "s' = emit (EvTransfer a b n (env_timestamp e)) s1"
    by (auto simp: transfer_def split: if_splits sum.splits)
  show ?thesis
    unfolding s' by (subst (1 2) move_balance_frame [OF mv]) (simp add: get_total_supply_def)
qed

lemma transfer_from_frame:
  assumes "transfer_from e p a b n s = Inr (r, s')"
  shows "get_total_supply s' = get_total_supply s"
proof -
  from assms obtain s1 where mv: "move_balance a b n s = Inr s1" and s': "tk_supply s' = tk_supply s1"
    by (auto simp: transfer_from_def Let_def split: if_splits sum.splits option.splits)
  have "tk_supply s1 = tk_supply s" by (subst move_balance_frame [OF mv]) simp
  with s' show ?thesis by (simp add: get_total_supply_def)
qed

section \<open>The supply invariant\<close>

text \<open>
  \<open>token_inv\<close>: the recorded supply is the sum of the balances and the difference of the mint and
  burn totals, no balance is negative, both caps are respected, and nothing exists before
  initialisation.  It is kept by every call in which no account transfers to itself.
\<close>

definition within_cap :: "int option \<Rightarrow> int \<Rightarrow> bool" where
  "within_cap cap n \<longleftrightarrow> (case cap of None \<Rightarrow> True | Some c \<Rightarrow> n \<le> c)"

definition token_inv :: "token_state \<Rightarrow> bool" where
  "token_inv s \<longleftrightarrow> balances_ok s
     \<and> total_over id (tk_balance s) = get_total_supply s
     \<and> get_total_minted s - get_total_burned s = get_total_supply s
     \<and> within_cap (tk_mint_cap s) (get_total_supply s)
     \<and> within_cap (tk_burn_cap s) (get_total_burned s)
     \<and> (tk_admin s = None \<longrightarrow> tk_balance s = Map.empty \<and> get_total_burned s = 0
          \<and> tk_minters s = Map.empty \<and> tk_mint_cap s = None \<and> tk_burn_cap s = None)"

definition no_self_transfer :: "env \<times> token_call \<Rightarrow> bool" where
  "no_self_transfer c = (case snd c of
      CTransfer a b n \<Rightarrow> a \<noteq> b
    | CTransferFrom p a b n \<Rightarrow> a \<noteq> b
    | _ \<Rightarrow> True)"

lemma token_inv_emit [simp]: "token_inv (emit ev s) \<longleftrightarrow> token_inv s"
  by (simp add: token_inv_def balances_ok_def token_query_defs)

lemma token_inv_fresh: "token_inv token_fresh"
  by (simp add: token_inv_def token_fresh_def balances_ok_def token_query_defs within_cap_def)

lemma initialize_token_inv:
  "initialize_token e a n y d mc bc s = Inr (r, s') \<Longrightarrow> token_inv s \<Longrightarrow> token_inv s'"
  by (auto simp: initialize_token_def token_inv_def balances_ok_def token_query_defs within_cap_def
      Let_def split: if_splits option.splits)

lemma mint_inv:
  assumes "mint e m a n s = Inr (r, s')" and inv: "token_inv s"
  shows "token_inv s'"
proof -
  from inv have fin: "finite (dom (tk_balance s))" by (simp add: token_inv_def balances_ok_def)
  have "is_minter s m \<Longrightarrow> tk_admin s \<noteq> None"
    using inv by (auto simp: token_inv_def is_minter_def)
  with assms show ?thesis
    using balances_ok_nonneg [of s a]
    by (auto simp: mint_def token_inv_def balances_ok_def require_minter_def Let_def
        get_total_supply_def get_total_minted_def get_total_burned_def within_cap_def
        total_over_update [OF fin] opt_weight_balance
        split: if_splits option.splits sum.splits)
qed

lemma burn_inv:
  assumes b: "burn e a n s = Inr (r, s')" and inv: "token_inv s"
  shows "token_inv s'"
proof -
  from inv have fin: "finite (dom (tk_balance s))" by (simp add: token_inv_def balances_ok_def)
  have pos: "0 < n" "n \<le> get_balance s a"
    using b by (auto simp: burn_def split: if_splits)
  then have "tk_admin s \<noteq> None"
    using inv by (auto simp: token_inv_def get_balance_def)
  with b inv show ?thesis
    by (auto simp: burn_def token_inv_def balances_ok_def Let_def
        get_total_supply_def get_total_minted_def get_total_burned_def within_cap_def
        total_over_update [OF fin] total_over_delete fin opt_weight_balance
        split: if_splits option.splits)
qed

lemma move_balance_inv:
  assumes mv: "move_balance a b n s = Inr s'" and "a \<noteq> b" "0 < n" and inv: "token_inv s"
  shows "token_inv s'"
proof -
  have "n \<le> get_balance s a" by (rule move_balance_covered [OF mv])
  with assms(3) inv have "tk_admin s \<noteq> None" by (auto simp: token_inv_def get_balance_def)
  moreover have "balances_ok s' \<and> total_over id (tk_balance s') = total_over id (tk_balance s)"
    using move_balance_sum [OF mv assms(2)] inv assms(3) by (simp add: token_inv_def)
  moreover have "get_total_supply s' = get_total_supply s" "get_total_minted s' = get_total_minted s"
    "get_total_burned s' = get_total_burned s" "tk_mint_cap s' = tk_mint_cap s"
    "tk_burn_cap s' = tk_burn_cap s" "tk_admin s' = tk_admin s"
    by (subst move_balance_frame [OF mv], simp add: token_query_defs)+
  ultimately show ?thesis using inv by (auto simp: token_inv_def)
qed

lemma token_inv_allowance: "token_inv (s\<lparr>tk_allowance := m\<rparr>) \<longleftrightarrow> token_inv s"
  by (simp add: token_inv_def balances_ok_def token_query_defs)

lemma transfer_inv:
  "transfer e a b n s = Inr (r, s') \<Longrightarrow> a \<noteq> b \<Longrightarrow> token_inv s \<Longrightarrow> token_inv s'"
  by (auto simp: transfer_def split: if_splits sum.splits dest: move_balance_inv)

lemma transfer_from_inv:
  "transfer_from e p a b n s = Inr (r, s') \<Longrightarrow> a \<noteq> b \<Longrightarrow> token_inv s \<Longrightarrow> token_inv s'"
  by (auto simp: transfer_from_def Let_def token_inv_allowance
      split: if_splits sum.splits option.splits dest: move_balance_inv)

lemma token_admin_ops_inv:
  "approve e a b n s = Inr (r, s') \<Longrightarrow> token_inv s \<Longrightarrow> token_inv s'"
  "add_minter e a b s = Inr (r, s') \<Longrightarrow> token_inv s \<Longrightarrow> token_inv s'"
  "remove_minter e a b s = Inr (r, s') \<Longrightarrow> token_inv s \<Longrightarrow> token_inv s'"
  "pause e a s = Inr (r, s') \<Longrightarrow> token_inv s \<Longrightarrow> token_inv s'"
  "unpause e a s = Inr (r, s') \<Longrightarrow> token_inv s \<Longrightarrow> token_inv s'"
  by (auto simp: approve_def add_minter_def remove_minter_def pause_def unpause_def token_gate_defs
      token_inv_allowance token_inv_def balances_ok_def token_query_defs
      split: if_splits option.splits sum.splits)

lemmas token_op_inv = initialize_token_inv mint_inv burn_inv transfer_inv transfer_from_inv
  token_admin_ops_inv

lemma token_exec_inv:
  assumes "token_inv s" and "no_self_transfer c" and "token_exec c s = Inr s'"
  shows "token_inv s'"
proof -
  obtain e call where c: "c = (e, call)" by (cases c)
  show ?thesis
    using assms unfolding c
    by (cases call) (auto simp: no_self_transfer_def intro: token_op_inv)
qed

interpretation token_machine: contract_invariant token_exec token_inv no_self_transfer
  by unfold_locales (rule token_exec_inv)

section \<open>The token as a token client's ledger\<close>

text \<open>A ledger holds the state of every token contract; a client calls \<open>transfer\<close> of one of them.
  The calling contract authorises its own transfers, the other authorisations are passed on.\<close>

definition callee_env :: "env \<Rightarrow> address \<Rightarrow> env" where
  "callee_env e t = e\<lparr>env_self := t, env_auth := (\<lambda>a. env_auth e a \<or> a = env_self e)\<rparr>"

definition token_xfer :: "(address \<Rightarrow> token_state) xfer" where
  "token_xfer e t a b n l =
    (case transfer (callee_env e t) a b n (l t) of Inl _ \<Rightarrow> None | Inr (_, s') \<Rightarrow> Some (l(t := s')))"

definition token_bal :: "(address \<Rightarrow> token_state) \<Rightarrow> address \<Rightarrow> address \<Rightarrow> int" where
  "token_bal l t a = get_balance (l t) a"

lemma token_xfer_SomeE:
  assumes "token_xfer e t a b n l = Some l'"
  obtains s' where "move_balance a b n (l t) = Inr s'" and "0 < n"
    and "\<forall>t' c. token_bal l' t' c = (if t' = t then get_balance s' c else token_bal l t' c)"
proof -
  from assms obtain s' where mv: "move_balance a b n (l t) = Inr s'" and n: "0 < n"
    and l': "l' = l(t := emit (EvTransfer a b n (env_timestamp (callee_env e t))) s')"
    by (auto simp: token_xfer_def transfer_def split: sum.splits if_splits)
  show thesis
    by (rule that [OF mv n]) (simp add: l' token_bal_def)
qed

interpretation token_ledger: token_client token_xfer token_bal
proof unfold_locales
  fix e t a b n l l' t' c
  assume x: "token_xfer e t a b n l = Some l'"
  then obtain s' where mv: "move_balance a b n (l t) = Inr s'" and n: "0 < n"
    and bal: "\<forall>t' c. token_bal l' t' c = (if t' = t then get_balance s' c else token_bal l t' c)"
    by (rule token_xfer_SomeE)
  show "0 \<le> n \<and> n \<le> token_bal l t a"
    using n move_balance_covered [OF mv] by (simp add: token_bal_def)
  show "a \<noteq> b \<Longrightarrow> token_bal l' t a = token_bal l t a - n"
    and "a \<noteq> b \<Longrightarrow> token_bal l' t b = token_bal l t b + n"
    and "a \<noteq> b \<Longrightarrow> t' \<noteq> t \<or> c \<noteq> a \<and> c \<noteq> b \<Longrightarrow> token_bal l' t' c = token_bal l t' c"
    using move_balance_distinct [OF mv] bal by (simp_all add: token_bal_def)
qed

definition token_burn :: "(address \<Rightarrow> token_state) burner" where
  "token_burn e t a n l =
    (case burn (callee_env e t) a n (l t) of Inl _ \<Rightarrow> None | Inr (_, s') \<Rightarrow> Some (l(t := s')))"

interpretation burning_ledger: burning_token token_xfer token_bal token_burn
proof unfold_locales
  fix e t a n l l' t' c
  assume x: "token_burn e t a n l = Some l'"
  then obtain i s' where b: "burn (callee_env e t) a n (l t) = Inr (i, s')" and l': "l' = l(t := s')"
    by (auto simp: token_burn_def split: sum.splits)
  from b have n: "0 < n" "n \<le> get_balance (l t) a"
    and bal: "get_balance s' = (get_balance (l t))(a := get_balance (l t) a - n)"
    by (auto simp: burn_def get_balance_def Let_def fun_eq_iff split: if_splits option.splits)
  show "0 \<le> n \<and> n \<le> token_bal l t a" using n by (simp add: token_bal_def)
  show "token_bal l' t a = token_bal l t a - n" using bal by (simp add: token_bal_def l')
  show "t' \<noteq> t \<or> c \<noteq> a \<Longrightarrow> token_bal l' t' c = token_bal l t' c" using bal by (auto simp: token_bal_def l')
qed

text \<open>\<open>transfer_from\<close> of the repository's token, called by a contract for itself.\<close>

definition token_pull :: "(address \<Rightarrow> token_state) xfer" where
  "token_pull e t a b n l =
    (case transfer_from (callee_env e t) (env_self e) a b n (l t) of Inl _ \<Rightarrow> None | Inr (_, s') \<Rightarrow> Some (l(t := s')))"

interpretation pulled_ledger: token_client token_pull token_bal
proof unfold_locales
  fix e t a b n l l' t' c
  assume x: "token_pull e t a b n l = Some l'"
  then obtain s' s1 where mv: "move_balance a b n (l t) = Inr s1" and n: "0 < n" and l': "l' = l(t := s')"
    and bal: "get_balance s' = get_balance s1"
    by (auto simp: token_pull_def transfer_from_def get_balance_def Let_def fun_eq_iff split: sum.splits if_splits option.splits)
  show "0 \<le> n \<and> n \<le> token_bal l t a" using n move_balance_covered [OF mv] by (simp add: token_bal_def)
  show "a \<noteq> b \<Longrightarrow> token_bal l' t a = token_bal l t a - n"
    and "a \<noteq> b \<Longrightarrow> token_bal l' t b = token_bal l t b + n"
    and "a \<noteq> b \<Longrightarrow> t' \<noteq> t \<or> c \<noteq> a \<and> c \<noteq> b \<Longrightarrow> token_bal l' t' c = token_bal l t' c"
    using move_balance_distinct [OF mv] bal by (simp_all add: token_bal_def l')
qed

section \<open>Properties\<close>

text \<open>C7: After any sequence of calls to a fresh token contract in which no account transfers to
  itself, the recorded total supply is the sum of all balances and the minted minus the burned
  total, no balance is negative, and the mint and burn caps hold.\<close>

theorem token_run_supply:
  assumes "\<And>c. c \<in> set cs \<Longrightarrow> no_self_transfer c"
  shows "let s = run token_exec cs token_fresh in
      total_over id (tk_balance s) = get_total_supply s
      \<and> get_total_minted s - get_total_burned s = get_total_supply s
      \<and> (\<forall>a. 0 \<le> get_balance s a)
      \<and> within_cap (tk_mint_cap s) (get_total_supply s)
      \<and> within_cap (tk_burn_cap s) (get_total_burned s)"
  using token_machine.run_inv [OF token_inv_fresh assms]
  by (auto simp: Let_def token_inv_def balances_ok_nonneg)

definition token_demo :: "(env \<times> token_call) list" where
  "token_demo =
    [(signed_env [Addr 1] 7 100 (Addr 9), CInitialize (Addr 1) ''Spend'' ''SPD'' 7 (Some 5000) None),
     (signed_env [Addr 1] 8 101 (Addr 9), CMint (Addr 1) (Addr 2) 1000),
     (signed_env [Addr 2] 9 102 (Addr 9), CTransfer (Addr 2) (Addr 3) 300),
     (signed_env [Addr 3] 9 103 (Addr 9), CBurn (Addr 3) 100)]"

lemmas token_eval = token_demo_def token_fresh_def initialize_token_def mint_def burn_def
  transfer_def transfer_from_def move_balance_def token_gate_defs token_query_defs arith_defs
  no_self_transfer_def Let_def

theorem token_run_supply_witness:
  "get_total_supply (run token_exec token_demo token_fresh) = 900
   \<and> total_over id (tk_balance (run token_exec token_demo token_fresh)) = 900"
proof -
  have ok: "\<And>c. c \<in> set token_demo \<Longrightarrow> no_self_transfer c"
    by (auto simp: token_demo_def no_self_transfer_def)
  have "get_total_supply (run token_exec token_demo token_fresh) = 900"
    by (simp add: token_eval)
  with token_run_supply [of token_demo, OF ok] show ?thesis by (simp add: Let_def)
qed

text \<open>Between two different accounts \<open>transfer\<close> succeeds exactly when the sender signed, the
  amount is positive and covered by the sender's balance, the receiver is not the token contract,
  the token is not paused and the receiver's balance does not overflow; it then moves exactly the
  amount and changes no other balance, no allowance and not the supply.\<close>

theorem token_transfer_spec:
  assumes "a \<noteq> b" and "in_i128 (get_balance s a)"
  shows "((\<exists>s'. transfer e a b n s = Inr ((), s')) \<longleftrightarrow>
        env_auth e a \<and> 0 < n \<and> b \<noteq> env_self e \<and> \<not> is_paused s \<and> n \<le> get_balance s a
        \<and> in_i128 (get_balance s b + n))
    \<and> (\<forall>s'. transfer e a b n s = Inr ((), s') \<longrightarrow>
        get_balance s' = (get_balance s)(a := get_balance s a - n, b := get_balance s b + n)
        \<and> tk_allowance s' = tk_allowance s \<and> get_total_supply s' = get_total_supply s)"
proof (intro conjI allI impI)
  have range: "0 < n \<Longrightarrow> n \<le> get_balance s a \<Longrightarrow> in_i128 (get_balance s a - n)"
    using assms(2) by (auto simp: in_i128_def)
  show "(\<exists>s'. transfer e a b n s = Inr ((), s')) \<longleftrightarrow>
      env_auth e a \<and> 0 < n \<and> b \<noteq> env_self e \<and> \<not> is_paused s \<and> n \<le> get_balance s a
      \<and> in_i128 (get_balance s b + n)"
    using range
    by (auto simp: transfer_def move_balance_def Let_def checked_sub_def checked_add_def
        split: option.splits if_splits)
next
  fix s'
  assume "transfer e a b n s = Inr ((), s')"
  then have t: "transfer e a b n s = Inr ((), s')" .
  show "get_balance s' = (get_balance s)(a := get_balance s a - n, b := get_balance s b + n)"
    using transfer_balances [OF t assms(1)] .
  show "tk_allowance s' = tk_allowance s" "get_total_supply s' = get_total_supply s"
    using transfer_frame [OF t] by simp_all
qed

theorem token_transfer_spec_witness:
  "\<exists>s'. transfer (signed_env [Addr 2] 1 1 (Addr 9)) (Addr 2) (Addr 3) 30
          (token_fresh\<lparr>tk_balance := [Addr 2 \<mapsto> 100]\<rparr>) = Inr ((), s')
      \<and> get_balance s' (Addr 2) = 70 \<and> get_balance s' (Addr 3) = 30"
proof -
  let ?s = "token_fresh\<lparr>tk_balance := [Addr 2 \<mapsto> 100]\<rparr>"
  have pre: "Addr 2 \<noteq> Addr 3" "in_i128 (get_balance ?s (Addr 2))"
    by (simp_all add: token_eval)
  have "\<exists>s'. transfer (signed_env [Addr 2] 1 1 (Addr 9)) (Addr 2) (Addr 3) 30 ?s = Inr ((), s')"
    using token_transfer_spec [OF pre, of "signed_env [Addr 2] 1 1 (Addr 9)" 30]
    by (simp add: token_eval)
  then obtain s' where "transfer (signed_env [Addr 2] 1 1 (Addr 9)) (Addr 2) (Addr 3) 30 ?s = Inr ((), s')"
    by blast
  with token_transfer_spec [OF pre, of "signed_env [Addr 2] 1 1 (Addr 9)" 30] show ?thesis
    by (auto simp: token_eval)
qed

text \<open>C40: A transfer of an account to itself is not neutral.  Both balances are read before either is
  written, so the account is credited on top of its old balance: it ends with \<open>amount\<close> more tokens
  (or with none, when it sends its whole balance), while the recorded supply does not change.\<close>

theorem token_self_transfer_breaks_supply:
  assumes "transfer e a a n s = Inr ((), s')"
  shows "get_balance s' a = (if get_balance s a = n then 0 else get_balance s a + n)
    \<and> get_total_supply s' = get_total_supply s \<and> 0 < n"
proof -
  from assms obtain s1 where mv: "move_balance a a n s = Inr s1" and "0 < n"
    and s': "s' = emit (EvTransfer a a n (env_timestamp e)) s1"
    by (auto simp: transfer_def split: if_splits sum.splits)
  then show ?thesis
    using move_balance_self [OF mv] transfer_frame [OF assms] by simp
qed

theorem token_self_transfer_breaks_supply_witness:
  "\<exists>s'. transfer (signed_env [Addr 2] 1 1 (Addr 9)) (Addr 2) (Addr 2) 30
          (token_fresh\<lparr>tk_supply := Some 100, tk_balance := [Addr 2 \<mapsto> 100]\<rparr>) = Inr ((), s')
      \<and> get_balance s' (Addr 2) = 130 \<and> get_total_supply s' = 100"
proof -
  let ?s = "token_fresh\<lparr>tk_supply := Some 100, tk_balance := [Addr 2 \<mapsto> 100]\<rparr>"
  obtain s' where t: "transfer (signed_env [Addr 2] 1 1 (Addr 9)) (Addr 2) (Addr 2) 30 ?s = Inr ((), s')"
    by (simp add: token_eval)
  with token_self_transfer_breaks_supply [OF t] show ?thesis
    by (auto simp: token_eval)
qed

text \<open>\<open>transfer_from\<close> spends at most the allowance: when it succeeds the spender signed, the amount
  was covered by both the allowance and the owner's balance, the allowance falls by exactly the
  amount, and every other allowance is unchanged.\<close>

theorem token_transfer_from_allowance:
  assumes "transfer_from e p a b n s = Inr ((), s')"
  shows "env_auth e p \<and> 0 < n \<and> n \<le> get_allowance s a p \<and> n \<le> get_balance s a
    \<and> get_allowance s' a p = get_allowance s a p - n
    \<and> (\<forall>o' p'. (o', p') \<noteq> (a, p) \<longrightarrow> get_allowance s' o' p' = get_allowance s o' p')
    \<and> (a \<noteq> b \<longrightarrow> get_balance s' = (get_balance s)(a := get_balance s a - n, b := get_balance s b + n))"
proof -
  from assms obtain s1 where mv: "move_balance a b n s = Inr s1"
    and c: "env_auth e p" "0 < n" "n \<le> get_allowance s a p"
    and s': "tk_balance s' = tk_balance s1"
      "tk_allowance s' = (if get_allowance s a p - n = 0 then (tk_allowance s1)((a, p) := None)
         else (tk_allowance s1)((a, p) \<mapsto> get_allowance s a p - n))"
    by (auto simp: transfer_from_def Let_def split: if_splits sum.splits option.splits)
  have al: "tk_allowance s1 = tk_allowance s" by (subst move_balance_frame [OF mv]) simp
  have "a \<noteq> b \<Longrightarrow> get_balance s1 = (get_balance s)(a := get_balance s a - n, b := get_balance s b + n)"
    using move_balance_distinct [OF mv] by (auto simp: fun_eq_iff)
  then show ?thesis
    using c move_balance_covered [OF mv] s' by (auto simp: get_allowance_def get_balance_def al fun_eq_iff)
qed

theorem token_transfer_from_allowance_witness:
  "\<exists>s'. transfer_from (signed_env [Addr 5] 1 1 (Addr 9)) (Addr 5) (Addr 2) (Addr 3) 30
          (token_fresh\<lparr>tk_balance := [Addr 2 \<mapsto> 100], tk_allowance := [(Addr 2, Addr 5) \<mapsto> 40]\<rparr>) = Inr ((), s')
      \<and> get_allowance s' (Addr 2) (Addr 5) = 10 \<and> get_balance s' (Addr 3) = 30"
proof -
  let ?s = "token_fresh\<lparr>tk_balance := [Addr 2 \<mapsto> 100], tk_allowance := [(Addr 2, Addr 5) \<mapsto> 40]\<rparr>"
  obtain s' where t: "transfer_from (signed_env [Addr 5] 1 1 (Addr 9)) (Addr 5) (Addr 2) (Addr 3) 30 ?s = Inr ((), s')"
    by (simp add: token_eval)
  with token_transfer_from_allowance [OF t] show ?thesis
    by (auto simp: token_eval)
qed

text \<open>Only a mint by an authorised minter and a burn signed by the holder change the recorded
  supply (initialisation only sets it to zero, once).\<close>

theorem token_supply_changes:
  assumes "token_exec (e, call) s = Inr s'" and "get_total_supply s' \<noteq> get_total_supply s"
  shows "(\<exists>m a n. call = CMint m a n \<and> env_auth e m \<and> is_minter s m \<and> 0 < n
            \<and> get_total_supply s' = get_total_supply s + n)
       \<or> (\<exists>a n. call = CBurn a n \<and> env_auth e a \<and> 0 < n \<and> n \<le> get_balance s a
            \<and> get_total_supply s' = get_total_supply s - n)
       \<or> tk_admin s = None \<and> get_total_supply s' = 0"
proof (cases call)
  case (CTransfer a b n)
  with assms show ?thesis by (auto dest: transfer_frame)
next
  case (CTransferFrom p a b n)
  with assms show ?thesis by (auto dest: transfer_from_frame)
qed (use assms in \<open>auto simp: initialize_token_def mint_def burn_def approve_def add_minter_def
      remove_minter_def pause_def unpause_def token_gate_defs Let_def get_total_supply_def
      split: if_splits option.splits sum.splits\<close>)

theorem token_supply_changes_witness:
  "\<exists>s'. token_exec (signed_env [Addr 1] 1 1 (Addr 9), CMint (Addr 1) (Addr 2) 50)
          (token_fresh\<lparr>tk_admin := Some (Addr 1), tk_minters := [Addr 1 \<mapsto> True]\<rparr>) = Inr s'
      \<and> get_total_supply s' = 50"
proof -
  let ?s = "token_fresh\<lparr>tk_admin := Some (Addr 1), tk_minters := [Addr 1 \<mapsto> True]\<rparr>"
  obtain s' where t: "token_exec (signed_env [Addr 1] 1 1 (Addr 9), CMint (Addr 1) (Addr 2) 50) ?s = Inr s'"
    and d: "get_total_supply s' \<noteq> get_total_supply ?s"
    by (simp add: token_eval)
  from token_supply_changes [OF t d] t show ?thesis
    by (auto simp: token_eval)
qed

end
