(* ===== verification/Escrow.thy ===== *)
theory Escrow
  imports Token
begin

text \<open>
  \<open>contracts/escrow/src\<close>: the standalone escrow contract (\<open>lib.rs\<close>, \<open>types.rs\<close>, \<open>validation.rs\<close>).  The
  state has one field per \<open>DataKey\<close>; an entry point works on the pair of this state and the ledger of
  the token contracts, which it reaches through the parameter \<open>xfer\<close> of \<open>Token_Interface\<close>.
\<close>

section \<open>Data (types.rs)\<close>

definition MAX_BATCH_SIZE :: nat where "MAX_BATCH_SIZE = 100"

datatype escrow_status = Active | Released | Reversed

record escrow =
  esc_id :: nat
  esc_depositor :: address
  esc_recipient :: address
  esc_arbiter :: "address option"
  esc_token :: address
  esc_amount :: int
  esc_status :: escrow_status
  esc_created_at :: nat
  esc_deadline :: nat

record reversal_request = rvq_escrow_id :: nat

record release_request = rlq_escrow_id :: nat

datatype reversal_result =
    ReversalSuccess nat address int
  | ReversalFailure nat nat

record batch_reversal_result =
  brv_batch_id :: nat
  brv_total_requests :: nat
  brv_successful :: nat
  brv_failed :: nat
  brv_total_reversed :: int
  brv_results :: "reversal_result list"

datatype release_result =
    ReleaseSuccess nat address int
  | ReleaseFailure nat nat

record batch_release_result =
  brl_batch_id :: nat
  brl_total_requests :: nat
  brl_successful :: nat
  brl_failed :: nat
  brl_total_released :: int
  brl_results :: "release_result list"

text \<open>The emitters of \<open>EscrowEvents\<close>, one constructor each, with topic data and payload.\<close>

datatype escrow_event =
    EscrowCreated nat address address "address option" int
  | BatchReversalStarted nat nat
  | ReversalSucceeded nat nat address int
  | ReversalFailed nat nat nat
  | BatchReversalCompleted nat nat nat int
  | EscrowReleased nat address int
  | BatchReleaseStarted nat nat
  | ReleaseSucceeded nat nat address int
  | ReleaseFailed nat nat nat
  | BatchReleaseCompleted nat nat nat int

datatype escrow_error =
    NotInitialized
  | Unauthorized
  | EmptyBatch
  | BatchTooLarge
  | InvalidAmount
  | EscrowNotFound
  | AlreadyInitialized

record escrow_state =
  es_admin :: "address option"
  es_token :: "address option"
  es_escrows :: "nat \<rightharpoonup> escrow"
  es_user_escrows :: "address \<rightharpoonup> nat list"
  es_counter :: "nat option"
  es_reversal_batches :: "nat option"
  es_escrows_reversed :: "nat option"
  es_amount_reversed :: "int option"
  es_release_batches :: "nat option"
  es_escrows_released :: "nat option"
  es_amount_released :: "int option"
  es_events :: "escrow_event list"

definition escrow_fresh :: escrow_state where
  "escrow_fresh = \<lparr>es_admin = None, es_token = None, es_escrows = Map.empty,
     es_user_escrows = Map.empty, es_counter = None, es_reversal_batches = None,
     es_escrows_reversed = None, es_amount_reversed = None, es_release_batches = None,
     es_escrows_released = None, es_amount_released = None, es_events = []\<rparr>"

definition emit :: "escrow_event \<Rightarrow> escrow_state \<Rightarrow> escrow_state" where
  "emit ev s = s\<lparr>es_events := es_events s @ [ev]\<rparr>"

section \<open>Validation (validation.rs)\<close>

datatype validation_error =
    VEscrowNotFound
  | VAlreadyReleased
  | VAlreadyReversed
  | VUnauthorized
  | VDeadlineNotReached

fun to_error_code :: "validation_error \<Rightarrow> nat" where
  "to_error_code VEscrowNotFound = 0"
| "to_error_code VAlreadyReleased = 1"
| "to_error_code VAlreadyReversed = 2"
| "to_error_code VUnauthorized = 3"
| "to_error_code VDeadlineNotReached = 4"

definition validate_reversal ::
  "escrow option \<Rightarrow> address \<Rightarrow> address \<Rightarrow> bool \<Rightarrow> nat \<Rightarrow> validation_error + unit" where
  "validate_reversal escrow_opt caller admin check_deadline current_ledger =
    (case escrow_opt of None \<Rightarrow> Inl VEscrowNotFound | Some esc \<Rightarrow>
     case esc_status esc of Released \<Rightarrow> Inl VAlreadyReleased | Reversed \<Rightarrow> Inl VAlreadyReversed | Active \<Rightarrow>
     let is_admin = (caller = admin);
         is_depositor = (caller = esc_depositor esc);
         is_arbiter = (case esc_arbiter esc of Some arb \<Rightarrow> caller = arb | None \<Rightarrow> False) in
     if \<not> is_admin \<and> \<not> is_depositor \<and> \<not> is_arbiter then Inl VUnauthorized else
     if check_deadline \<and> \<not> is_admin \<and> \<not> is_arbiter \<and> current_ledger < esc_deadline esc
     then Inl VDeadlineNotReached else Inr ())"

definition validate_release ::
  "escrow option \<Rightarrow> address \<Rightarrow> address \<Rightarrow> validation_error + unit" where
  "validate_release escrow_opt caller admin =
    (case escrow_opt of None \<Rightarrow> Inl VEscrowNotFound | Some esc \<Rightarrow>
     case esc_status esc of Released \<Rightarrow> Inl VAlreadyReleased | Reversed \<Rightarrow> Inl VAlreadyReversed | Active \<Rightarrow>
     let is_admin = (caller = admin);
         is_depositor = (caller = esc_depositor esc);
         is_arbiter = (case esc_arbiter esc of Some arb \<Rightarrow> caller = arb | None \<Rightarrow> False) in
     if \<not> is_admin \<and> \<not> is_depositor \<and> \<not> is_arbiter then Inl VUnauthorized else Inr ())"

section \<open>Entry points (lib.rs)\<close>

definition initialize :: "env \<Rightarrow> address \<Rightarrow> address \<Rightarrow> escrow_state \<times> 'led
    \<Rightarrow> (escrow_state \<times> 'led, escrow_error, unit) outcome" where
  "initialize e admin token w = (case w of (s, l) \<Rightarrow>
     if es_admin s \<noteq> None then Inl (ContractError AlreadyInitialized) else
     Inr ((), s\<lparr>es_admin := Some admin, es_token := Some token, es_counter := Some 0,
                es_reversal_batches := Some 0, es_escrows_reversed := Some 0,
                es_amount_reversed := Some 0, es_release_batches := Some 0,
                es_escrows_released := Some 0, es_amount_released := Some 0\<rparr>, l))"

definition require_admin :: "address \<Rightarrow> escrow_state \<Rightarrow> escrow_error trap + unit" where
  "require_admin caller s =
    (case es_admin s of None \<Rightarrow> Inl PanicTrap | Some admin \<Rightarrow>
     if caller \<noteq> admin then Inl (ContractError Unauthorized) else Inr ())"

definition create_escrow :: "'led xfer \<Rightarrow> env \<Rightarrow> address \<Rightarrow> address \<Rightarrow> address option \<Rightarrow> int \<Rightarrow> nat
    \<Rightarrow> escrow_state \<times> 'led \<Rightarrow> (escrow_state \<times> 'led, escrow_error, nat) outcome" where
  "create_escrow xfer e depositor recipient arbiter amount deadline w = (case w of (s, l) \<Rightarrow>
     if \<not> env_auth e depositor then Inl AuthTrap else
     if amount \<le> 0 then Inl (ContractError InvalidAmount) else
     case es_token s of None \<Rightarrow> Inl (ContractError NotInitialized) | Some token \<Rightarrow>
     case xfer e token depositor (env_self e) amount l of None \<Rightarrow> Inl CallTrap | Some l1 \<Rightarrow>
     case u64_add (unwrap_or (es_counter s) 0) 1 of None \<Rightarrow> Inl (ContractError InvalidAmount) | Some escrow_id \<Rightarrow>
     let esc = \<lparr>esc_id = escrow_id, esc_depositor = depositor, esc_recipient = recipient,
                esc_arbiter = arbiter, esc_token = token, esc_amount = amount, esc_status = Active,
                esc_created_at = env_sequence e, esc_deadline = deadline\<rparr>;
         user_escrows = unwrap_or (es_user_escrows s depositor) [] @ [escrow_id];
         s1 = s\<lparr>es_counter := Some escrow_id, es_escrows := (es_escrows s)(escrow_id \<mapsto> esc),
                es_user_escrows := (es_user_escrows s)(depositor \<mapsto> user_escrows)\<rparr>
     in Inr (escrow_id, emit (EscrowCreated escrow_id depositor recipient arbiter amount) s1, l1))"

subsection \<open>Batches\<close>

text \<open>A batch runs in two passes.  The first reads the store and validates every request; the second
  pays the valid ones from the records read in the first.  \<open>pass\<close> holds the local variables of the
  second loop together with the state and the ledger it updates.\<close>

record ('led, 'r) pass =
  ps_state :: escrow_state
  ps_ledger :: 'led
  ps_results :: "'r list"
  ps_ok :: nat
  ps_failed :: nat
  ps_total :: int

definition pass_start :: "escrow_state \<Rightarrow> 'led \<Rightarrow> ('led, 'r) pass" where
  "pass_start s l = \<lparr>ps_state = s, ps_ledger = l, ps_results = [], ps_ok = 0, ps_failed = 0, ps_total = 0\<rparr>"

type_synonym item = "nat \<times> escrow option \<times> bool \<times> nat"

definition reversal_item :: "address \<Rightarrow> address \<Rightarrow> nat \<Rightarrow> escrow_state \<Rightarrow> reversal_request \<Rightarrow> item" where
  "reversal_item caller admin current_ledger s request =
    (let escrow_opt = es_escrows s (rvq_escrow_id request) in
     case validate_reversal escrow_opt caller admin True current_ledger of
       Inr _ \<Rightarrow> (rvq_escrow_id request, escrow_opt, True, 0)
     | Inl err \<Rightarrow> (rvq_escrow_id request, escrow_opt, False, to_error_code err))"

definition release_item :: "address \<Rightarrow> address \<Rightarrow> escrow_state \<Rightarrow> release_request \<Rightarrow> item" where
  "release_item caller admin s request =
    (let escrow_opt = es_escrows s (rlq_escrow_id request) in
     case validate_release escrow_opt caller admin of
       Inr _ \<Rightarrow> (rlq_escrow_id request, escrow_opt, True, 0)
     | Inl err \<Rightarrow> (rlq_escrow_id request, escrow_opt, False, to_error_code err))"

fun reverse_pass :: "'led xfer \<Rightarrow> env \<Rightarrow> nat \<Rightarrow> address \<Rightarrow> item list
    \<Rightarrow> ('led, reversal_result) pass \<Rightarrow> escrow_error trap + ('led, reversal_result) pass" where
  "reverse_pass xfer e batch_id token [] st = Inr st"
| "reverse_pass xfer e batch_id token ((request_id, escrow_opt, is_valid, error_code) # items) st =
    (if \<not> is_valid
     then reverse_pass xfer e batch_id token items
       (st\<lparr>ps_results := ps_results st @ [ReversalFailure request_id error_code],
           ps_failed := ps_failed st + 1,
           ps_state := emit (ReversalFailed batch_id request_id error_code) (ps_state st)\<rparr>)
     else case escrow_opt of None \<Rightarrow> Inl PanicTrap | Some esc \<Rightarrow>
     case xfer e token (env_self e) (esc_depositor esc) (esc_amount esc) (ps_ledger st) of
       None \<Rightarrow> Inl CallTrap
     | Some l1 \<Rightarrow>
       let esc' = esc\<lparr>esc_status := Reversed\<rparr>;
           s1 = (ps_state st)\<lparr>es_escrows := (es_escrows (ps_state st))(esc_id esc \<mapsto> esc')\<rparr>
       in reverse_pass xfer e batch_id token items
         (st\<lparr>ps_ledger := l1,
             ps_results := ps_results st @ [ReversalSuccess (esc_id esc) (esc_depositor esc) (esc_amount esc)],
             ps_ok := ps_ok st + 1,
             ps_total := unwrap_or (checked_add (ps_total st) (esc_amount esc)) (ps_total st),
             ps_state := emit (ReversalSucceeded batch_id (esc_id esc) (esc_depositor esc) (esc_amount esc)) s1\<rparr>))"

definition batch_reverse_escrows :: "'led xfer \<Rightarrow> env \<Rightarrow> address \<Rightarrow> reversal_request list
    \<Rightarrow> escrow_state \<times> 'led \<Rightarrow> (escrow_state \<times> 'led, escrow_error, batch_reversal_result) outcome" where
  "batch_reverse_escrows xfer e caller requests w = (case w of (s, l) \<Rightarrow>
     if \<not> env_auth e caller then Inl AuthTrap else
     case require_admin caller s of Inl t \<Rightarrow> Inl t | Inr _ \<Rightarrow>
     let request_count = length requests in
     if request_count = 0 then Inl (ContractError EmptyBatch) else
     if MAX_BATCH_SIZE < request_count then Inl (ContractError BatchTooLarge) else
     case u64_add (unwrap_or (es_reversal_batches s) 0) 1 of None \<Rightarrow> Inl ArithTrap | Some batch_id \<Rightarrow>
     case es_admin s of None \<Rightarrow> Inl (ContractError NotInitialized) | Some admin \<Rightarrow>
     case es_token s of None \<Rightarrow> Inl (ContractError NotInitialized) | Some token \<Rightarrow>
     let s1 = emit (BatchReversalStarted batch_id request_count) s;
         items = map (reversal_item caller admin (env_sequence e) s1) requests in
     case reverse_pass xfer e batch_id token items (pass_start s1 l) of Inl t \<Rightarrow> Inl t | Inr st \<Rightarrow>
     let s2 = ps_state st in
     case u64_add (unwrap_or (es_reversal_batches s2) 0) 1 of None \<Rightarrow> Inl ArithTrap | Some total_batches \<Rightarrow>
     case u64_add (unwrap_or (es_escrows_reversed s2) 0) (ps_ok st) of None \<Rightarrow> Inl ArithTrap | Some total_reversed \<Rightarrow>
     let amount_reversed =
           unwrap_or (checked_add (unwrap_or (es_amount_reversed s2) 0) (ps_total st)) i128_max;
         s3 = s2\<lparr>es_reversal_batches := Some total_batches, es_escrows_reversed := Some total_reversed,
                 es_amount_reversed := Some amount_reversed\<rparr>;
         s4 = emit (BatchReversalCompleted batch_id (ps_ok st) (ps_failed st) (ps_total st)) s3
     in Inr (\<lparr>brv_batch_id = batch_id, brv_total_requests = request_count,
               brv_successful = ps_ok st, brv_failed = ps_failed st,
               brv_total_reversed = ps_total st, brv_results = ps_results st\<rparr>,
             s4, ps_ledger st))"

fun release_pass :: "'led xfer \<Rightarrow> env \<Rightarrow> nat \<Rightarrow> address \<Rightarrow> item list
    \<Rightarrow> ('led, release_result) pass \<Rightarrow> escrow_error trap + ('led, release_result) pass" where
  "release_pass xfer e batch_id token [] st = Inr st"
| "release_pass xfer e batch_id token ((request_id, escrow_opt, is_valid, error_code) # items) st =
    (if \<not> is_valid
     then release_pass xfer e batch_id token items
       (st\<lparr>ps_results := ps_results st @ [ReleaseFailure request_id error_code],
           ps_failed := ps_failed st + 1,
           ps_state := emit (ReleaseFailed batch_id request_id error_code) (ps_state st)\<rparr>)
     else case escrow_opt of None \<Rightarrow> Inl PanicTrap | Some esc \<Rightarrow>
     case xfer e token (env_self e) (esc_recipient esc) (esc_amount esc) (ps_ledger st) of
       None \<Rightarrow> Inl CallTrap
     | Some l1 \<Rightarrow>
       let esc' = esc\<lparr>esc_status := Released\<rparr>;
           s1 = (ps_state st)\<lparr>es_escrows := (es_escrows (ps_state st))(esc_id esc \<mapsto> esc')\<rparr>
       in release_pass xfer e batch_id token items
         (st\<lparr>ps_ledger := l1,
             ps_results := ps_results st @ [ReleaseSuccess (esc_id esc) (esc_recipient esc) (esc_amount esc)],
             ps_ok := ps_ok st + 1,
             ps_total := unwrap_or (checked_add (ps_total st) (esc_amount esc)) (ps_total st),
             ps_state := emit (ReleaseSucceeded batch_id (esc_id esc) (esc_recipient esc) (esc_amount esc)) s1\<rparr>))"

definition batch_release_escrows :: "'led xfer \<Rightarrow> env \<Rightarrow> address \<Rightarrow> release_request list
    \<Rightarrow> escrow_state \<times> 'led \<Rightarrow> (escrow_state \<times> 'led, escrow_error, batch_release_result) outcome" where
  "batch_release_escrows xfer e caller requests w = (case w of (s, l) \<Rightarrow>
     if \<not> env_auth e caller then Inl AuthTrap else
     let request_count = length requests in
     if request_count = 0 then Inl (ContractError EmptyBatch) else
     if MAX_BATCH_SIZE < request_count then Inl (ContractError BatchTooLarge) else
     case u64_add (unwrap_or (es_release_batches s) 0) 1 of None \<Rightarrow> Inl ArithTrap | Some batch_id \<Rightarrow>
     case es_admin s of None \<Rightarrow> Inl (ContractError NotInitialized) | Some admin \<Rightarrow>
     case es_token s of None \<Rightarrow> Inl (ContractError NotInitialized) | Some token \<Rightarrow>
     let s1 = emit (BatchReleaseStarted batch_id request_count) s;
         items = map (release_item caller admin s1) requests in
     case release_pass xfer e batch_id token items (pass_start s1 l) of Inl t \<Rightarrow> Inl t | Inr st \<Rightarrow>
     let s2 = ps_state st in
     case u64_add (unwrap_or (es_release_batches s2) 0) 1 of None \<Rightarrow> Inl ArithTrap | Some total_batches \<Rightarrow>
     case u64_add (unwrap_or (es_escrows_released s2) 0) (ps_ok st) of None \<Rightarrow> Inl ArithTrap | Some total_released \<Rightarrow>
     let amount_released =
           unwrap_or (checked_add (unwrap_or (es_amount_released s2) 0) (ps_total st)) i128_max;
         s3 = s2\<lparr>es_release_batches := Some total_batches, es_escrows_released := Some total_released,
                 es_amount_released := Some amount_released\<rparr>;
         s4 = emit (BatchReleaseCompleted batch_id (ps_ok st) (ps_failed st) (ps_total st)) s3
     in Inr (\<lparr>brl_batch_id = batch_id, brl_total_requests = request_count,
               brl_successful = ps_ok st, brl_failed = ps_failed st,
               brl_total_released = ps_total st, brl_results = ps_results st\<rparr>,
             s4, ps_ledger st))"

subsection \<open>Single release, administration, queries\<close>

definition release_escrow :: "'led xfer \<Rightarrow> env \<Rightarrow> address \<Rightarrow> nat
    \<Rightarrow> escrow_state \<times> 'led \<Rightarrow> (escrow_state \<times> 'led, escrow_error, unit) outcome" where
  "release_escrow xfer e caller escrow_id w = (case w of (s, l) \<Rightarrow>
     if \<not> env_auth e caller then Inl AuthTrap else
     case es_admin s of None \<Rightarrow> Inl (ContractError NotInitialized) | Some admin \<Rightarrow>
     case es_escrows s escrow_id of None \<Rightarrow> Inl (ContractError EscrowNotFound) | Some esc \<Rightarrow>
     let is_admin = (caller = admin);
         is_depositor = (caller = esc_depositor esc);
         is_arbiter = (case esc_arbiter esc of Some arb \<Rightarrow> caller = arb | None \<Rightarrow> False) in
     if \<not> is_admin \<and> \<not> is_depositor \<and> \<not> is_arbiter then Inl (ContractError Unauthorized) else
     if esc_status esc \<noteq> Active then Inl (ContractError Unauthorized) else
     case xfer e (esc_token esc) (env_self e) (esc_recipient esc) (esc_amount esc) l of
       None \<Rightarrow> Inl CallTrap
     | Some l1 \<Rightarrow>
       let s1 = s\<lparr>es_escrows := (es_escrows s)(escrow_id \<mapsto> esc\<lparr>esc_status := Released\<rparr>)\<rparr>
       in Inr ((), emit (EscrowReleased escrow_id (esc_recipient esc) (esc_amount esc)) s1, l1))"

definition set_admin :: "env \<Rightarrow> address \<Rightarrow> address \<Rightarrow> escrow_state \<times> 'led
    \<Rightarrow> (escrow_state \<times> 'led, escrow_error, unit) outcome" where
  "set_admin e current_admin new_admin w = (case w of (s, l) \<Rightarrow>
     if \<not> env_auth e current_admin then Inl AuthTrap else
     case require_admin current_admin s of Inl t \<Rightarrow> Inl t | Inr _ \<Rightarrow>
     Inr ((), s\<lparr>es_admin := Some new_admin\<rparr>, l))"

definition get_escrow :: "escrow_state \<Rightarrow> nat \<Rightarrow> escrow option" where
  "get_escrow s escrow_id = es_escrows s escrow_id"

definition get_user_escrows :: "escrow_state \<Rightarrow> address \<Rightarrow> nat list" where
  "get_user_escrows s user = unwrap_or (es_user_escrows s user) []"

definition get_admin :: "escrow_state \<Rightarrow> escrow_error trap + address" where
  "get_admin s = (case es_admin s of None \<Rightarrow> Inl (ContractError NotInitialized) | Some a \<Rightarrow> Inr a)"

definition get_total_reversal_batches :: "escrow_state \<Rightarrow> nat" where
  "get_total_reversal_batches s = unwrap_or (es_reversal_batches s) 0"

definition get_total_escrows_reversed :: "escrow_state \<Rightarrow> nat" where
  "get_total_escrows_reversed s = unwrap_or (es_escrows_reversed s) 0"

definition get_total_amount_reversed :: "escrow_state \<Rightarrow> int" where
  "get_total_amount_reversed s = unwrap_or (es_amount_reversed s) 0"

definition get_total_release_batches :: "escrow_state \<Rightarrow> nat" where
  "get_total_release_batches s = unwrap_or (es_release_batches s) 0"

definition get_total_escrows_released :: "escrow_state \<Rightarrow> nat" where
  "get_total_escrows_released s = unwrap_or (es_escrows_released s) 0"

definition get_total_amount_released :: "escrow_state \<Rightarrow> int" where
  "get_total_amount_released s = unwrap_or (es_amount_released s) 0"

definition get_escrow_counter :: "escrow_state \<Rightarrow> nat" where
  "get_escrow_counter s = unwrap_or (es_counter s) 0"

section \<open>The contract\<close>

datatype escrow_call =
    CInitialize address address
  | CCreate address address "address option" int nat
  | CReverse address "reversal_request list"
  | CReleaseBatch address "release_request list"
  | CRelease address nat
  | CSetAdmin address address

fun escrow_exec :: "'led xfer \<Rightarrow> env \<times> escrow_call \<Rightarrow> escrow_state \<times> 'led
    \<Rightarrow> escrow_error trap + (escrow_state \<times> 'led)" where
  "escrow_exec xfer (e, CInitialize a t) w = final (initialize e a t w)"
| "escrow_exec xfer (e, CCreate d r arb n dl) w = final (create_escrow xfer e d r arb n dl w)"
| "escrow_exec xfer (e, CReverse c rs) w = final (batch_reverse_escrows xfer e c rs w)"
| "escrow_exec xfer (e, CReleaseBatch c rs) w = final (batch_release_escrows xfer e c rs w)"
| "escrow_exec xfer (e, CRelease c i) w = final (release_escrow xfer e c i w)"
| "escrow_exec xfer (e, CSetAdmin a b) w = final (set_admin e a b w)"

section \<open>Well-formed states\<close>

definition ids_of :: "(nat \<rightharpoonup> escrow) \<Rightarrow> nat \<Rightarrow> address \<Rightarrow> nat list" where
  "ids_of m n d = filter (\<lambda>i. \<exists>x. m i = Some x \<and> esc_depositor x = d) [1..<Suc n]"

text \<open>The well-formedness every call keeps: the ids are the numbers from 1 to the counter, a record
  carries its own key, was created in the configured token with a positive amount, the index of a
  user lists the ids of the escrows of that depositor in order, and before initialisation there is
  nothing.\<close>

definition escrow_wf :: "escrow_state \<Rightarrow> bool" where
  "escrow_wf s \<longleftrightarrow>
     dom (es_escrows s) = {1..get_escrow_counter s}
   \<and> (\<forall>i x. es_escrows s i = Some x \<longrightarrow> esc_id x = i \<and> 0 < esc_amount x \<and> es_token s = Some (esc_token x))
   \<and> (\<forall>d. get_user_escrows s d = ids_of (es_escrows s) (get_escrow_counter s) d)
   \<and> (es_admin s = None \<longrightarrow> es_token s = None)"

text \<open>What a call may do to the escrows: records stay, all fields but the status are immutable, and
  a status other than \<open>Active\<close> is final.\<close>

definition evolves :: "escrow_state \<Rightarrow> escrow_state \<Rightarrow> bool" where
  "evolves s s' \<longleftrightarrow> (\<forall>i x. es_escrows s i = Some x \<longrightarrow>
     (\<exists>st. es_escrows s' i = Some (x\<lparr>esc_status := st\<rparr>) \<and> (esc_status x \<noteq> Active \<longrightarrow> st = esc_status x)))"

lemma evolves_refl [simp]: "evolves s s"
  by (auto simp: evolves_def intro!: exI [of _ "esc_status x" for x])

lemma evolves_trans: "evolves s t \<Longrightarrow> evolves t u \<Longrightarrow> evolves s u"
  unfolding evolves_def by fastforce

lemma evolves_same: "es_escrows s' = es_escrows s \<Longrightarrow> evolves s s'"
  using evolves_refl [of s] unfolding evolves_def by (simp only:)

lemma evolvesD:
  "evolves s s' \<Longrightarrow> es_escrows s i = Some x \<Longrightarrow>
   \<exists>st. es_escrows s' i = Some (x\<lparr>esc_status := st\<rparr>) \<and> (esc_status x \<noteq> Active \<longrightarrow> st = esc_status x)"
  by (simp add: evolves_def)

definition same_books :: "escrow_state \<Rightarrow> escrow_state \<Rightarrow> bool" where
  "same_books s s' \<longleftrightarrow> es_token s' = es_token s \<and> es_counter s' = es_counter s
     \<and> es_user_escrows s' = es_user_escrows s \<and> (es_admin s' = None \<longleftrightarrow> es_admin s = None)"

lemma same_books_simps [simp]: "same_books s s"
  by (simp add: same_books_def)

lemma same_books_trans: "same_books s t \<Longrightarrow> same_books t u \<Longrightarrow> same_books s u"
  by (simp add: same_books_def)

lemma escrow_emit_frame [simp]:
  "es_admin (emit ev s) = es_admin s" "es_token (emit ev s) = es_token s"
  "es_escrows (emit ev s) = es_escrows s" "es_user_escrows (emit ev s) = es_user_escrows s"
  "es_counter (emit ev s) = es_counter s" "es_reversal_batches (emit ev s) = es_reversal_batches s"
  "es_escrows_reversed (emit ev s) = es_escrows_reversed s"
  "es_amount_reversed (emit ev s) = es_amount_reversed s"
  "es_release_batches (emit ev s) = es_release_batches s"
  "es_escrows_released (emit ev s) = es_escrows_released s"
  "es_amount_released (emit ev s) = es_amount_released s"
  by (simp_all add: emit_def)

text \<open>What the contract has paid out, by its own events: the id and the amount of every payment.  \<open>repeated\<close> is what
  was paid for escrows that had been paid before.\<close>

fun payment :: "escrow_event \<Rightarrow> (nat \<times> int) list" where
  "payment (EscrowReleased i r n) = [(i, n)]"
| "payment (ReleaseSucceeded b i r n) = [(i, n)]"
| "payment (ReversalSucceeded b i d n) = [(i, n)]"
| "payment _ = []"

definition payments :: "escrow_state \<Rightarrow> (nat \<times> int) list" where
  "payments s = concat (map payment (es_events s))"

fun repeated_after :: "nat set \<Rightarrow> (nat \<times> int) list \<Rightarrow> int" where
  "repeated_after seen [] = 0"
| "repeated_after seen (p # ps) = (if fst p \<in> seen then snd p else 0) + repeated_after (insert (fst p) seen) ps"

definition repeated :: "(nat \<times> int) list \<Rightarrow> int" where
  "repeated ps = repeated_after {} ps"

lemma repeated_snoc: "repeated (ps @ [p]) = repeated ps + (if fst p \<in> fst ` set ps then snd p else 0)"
proof -
  have "repeated_after seen (ps @ [p]) = repeated_after seen ps + (if fst p \<in> seen \<union> fst ` set ps then snd p else 0)" for seen
    by (induction ps arbitrary: seen) auto
  then show ?thesis by (simp add: repeated_def)
qed

lemma repeated_distinct: "distinct (map fst ps) \<Longrightarrow> repeated ps = 0"
proof -
  have "distinct (map fst ps) \<Longrightarrow> seen \<inter> fst ` set ps = {} \<Longrightarrow> repeated_after seen ps = 0" for seen
    by (induction ps arbitrary: seen) auto
  then show "distinct (map fst ps) \<Longrightarrow> repeated ps = 0" by (simp add: repeated_def)
qed

lemma payments_emit [simp]: "payments (emit ev s) = payments s @ payment ev"
  by (simp add: payments_def emit_def)

lemma payments_update [simp]:
  "payments (s\<lparr>es_escrows := m\<rparr>) = payments s"
  "payments (s\<lparr>es_reversal_batches := a, es_escrows_reversed := b, es_amount_reversed := c\<rparr>) = payments s"
  "payments (s\<lparr>es_release_batches := a, es_escrows_released := b, es_amount_released := c\<rparr>) = payments s"
  by (simp_all add: payments_def)

lemma evolves_dom: "evolves s s' \<Longrightarrow> dom (es_escrows s) \<subseteq> dom (es_escrows s')"
  by (auto simp: evolves_def)

text \<open>Changing only the status of existing escrows keeps the state well-formed.\<close>

lemma wf_settled:
  assumes wf: "escrow_wf s" and ev: "evolves s s'" and books: "same_books s s'"
    and dom: "dom (es_escrows s') = dom (es_escrows s)"
  shows "escrow_wf s'"
proof -
  have rec: "\<exists>x st. es_escrows s i = Some x \<and> x' = x\<lparr>esc_status := st\<rparr>"
    if "es_escrows s' i = Some x'" for i x'
  proof -
    from that dom obtain x where x: "es_escrows s i = Some x" by blast
    from evolvesD [OF ev this] that x show ?thesis by auto
  qed
  have dep: "(\<exists>x. es_escrows s' i = Some x \<and> esc_depositor x = d)
      \<longleftrightarrow> (\<exists>x. es_escrows s i = Some x \<and> esc_depositor x = d)" for i d
  proof
    assume "\<exists>x. es_escrows s' i = Some x \<and> esc_depositor x = d"
    then show "\<exists>x. es_escrows s i = Some x \<and> esc_depositor x = d" by (auto dest: rec)
  next
    assume "\<exists>x. es_escrows s i = Some x \<and> esc_depositor x = d"
    then show "\<exists>x. es_escrows s' i = Some x \<and> esc_depositor x = d"
      by (auto dest!: evolvesD [OF ev])
  qed
  have "\<forall>i x. es_escrows s' i = Some x \<longrightarrow> esc_id x = i \<and> 0 < esc_amount x \<and> es_token s' = Some (esc_token x)"
    using wf books by (auto simp: escrow_wf_def same_books_def dest!: rec)
  moreover have "ids_of (es_escrows s') n d = ids_of (es_escrows s) n d" for n d
    by (simp only: ids_of_def dep)
  ultimately show ?thesis
    using wf books dom
    by (simp add: escrow_wf_def same_books_def get_escrow_counter_def get_user_escrows_def)
qed

lemma wf_fresh: "escrow_wf escrow_fresh"
  by (simp add: escrow_wf_def escrow_fresh_def get_escrow_counter_def get_user_escrows_def ids_of_def)

lemma wf_record:
  "escrow_wf s \<Longrightarrow> es_escrows s i = Some x \<Longrightarrow> esc_id x = i \<and> 0 < esc_amount x \<and> es_token s = Some (esc_token x)"
  by (simp add: escrow_wf_def)

lemma wf_finite: "escrow_wf s \<Longrightarrow> finite (dom (es_escrows s))"
  by (simp add: escrow_wf_def)

section \<open>The two passes as one interface\<close>

definition skipped :: "('led, 'r) pass \<Rightarrow> ('led, 'r) pass \<Rightarrow> bool" where
  "skipped st st1 \<longleftrightarrow> es_escrows (ps_state st1) = es_escrows (ps_state st) \<and> payments (ps_state st1) = payments (ps_state st)
     \<and> same_books (ps_state st) (ps_state st1) \<and> ps_ledger st1 = ps_ledger st
     \<and> length (ps_results st1) = Suc (length (ps_results st))
     \<and> ps_ok st1 = ps_ok st \<and> ps_failed st1 = Suc (ps_failed st) \<and> ps_total st1 = ps_total st"

definition paid :: "escrow_status \<Rightarrow> escrow \<Rightarrow> ('led, 'r) pass \<Rightarrow> ('led, 'r) pass \<Rightarrow> bool" where
  "paid target x st st1 \<longleftrightarrow>
     es_escrows (ps_state st1) = (es_escrows (ps_state st))(esc_id x \<mapsto> x\<lparr>esc_status := target\<rparr>)
     \<and> payments (ps_state st1) = payments (ps_state st) @ [(esc_id x, esc_amount x)]
     \<and> same_books (ps_state st) (ps_state st1)
     \<and> length (ps_results st1) = Suc (length (ps_results st))
     \<and> ps_ok st1 = Suc (ps_ok st) \<and> ps_failed st1 = ps_failed st
     \<and> ps_total st1 = unwrap_or (checked_add (ps_total st) (esc_amount x)) (ps_total st)"

definition valid_item :: "item \<Rightarrow> bool" where
  "valid_item it = fst (snd (snd it))"

definition active_amount :: "escrow \<Rightarrow> int" where
  "active_amount x = (if esc_status x = Active then esc_amount x else 0)"

text \<open>A valid item carries the record of its id as the first pass read it; \<open>ready\<close> says that the
  store still has this record, up to a status that the batch itself may have written.\<close>

definition ready :: "escrow_status \<Rightarrow> escrow_state \<Rightarrow> item \<Rightarrow> bool" where
  "ready target s it \<longleftrightarrow> (case it of (i, eo, v, _) \<Rightarrow> v \<longrightarrow>
     (\<exists>x st. eo = Some x \<and> esc_id x = i \<and> esc_status x = Active
        \<and> es_escrows s i = Some (x\<lparr>esc_status := st\<rparr>) \<and> (st = Active \<or> st = target)))"

definition untouched :: "escrow_state \<Rightarrow> item \<Rightarrow> bool" where
  "untouched s it \<longleftrightarrow> (case it of (i, eo, v, _) \<Rightarrow> v \<longrightarrow>
     (\<exists>x. eo = Some x \<and> esc_id x = i \<and> esc_status x = Active \<and> es_escrows s i = Some x))"

text \<open>The contract has paid for exactly the escrows that are no longer active.\<close>

definition paid_settled :: "escrow_state \<Rightarrow> bool" where
  "paid_settled s \<longleftrightarrow> (\<forall>i. i \<in> fst ` set (payments s) \<longleftrightarrow> (\<exists>x. es_escrows s i = Some x \<and> esc_status x \<noteq> Active))"

lemma ready_paid:
  assumes "ready target (ps_state p) (i, Some x, True, c)" and "paid target x p p1" and "ready target (ps_state p) it"
  shows "ready target (ps_state p1) it"
proof -
  from assms(1) obtain st0 where i: "esc_id x = i" and act: "esc_status x = Active"
    and cur: "es_escrows (ps_state p) i = Some (x\<lparr>esc_status := st0\<rparr>)"
    by (auto simp: ready_def)
  from assms(2) i have upd: "es_escrows (ps_state p1) = (es_escrows (ps_state p))(i \<mapsto> x\<lparr>esc_status := target\<rparr>)"
    by (simp add: paid_def)
  obtain j eo v c' where it: "it = (j, eo, v, c')" by (cases it)
  show ?thesis
  proof (cases "j = i \<and> v")
    case True
    with assms(3) it obtain x' st1 where x': "eo = Some x'" "esc_id x' = i" "esc_status x' = Active"
      "es_escrows (ps_state p) i = Some (x'\<lparr>esc_status := st1\<rparr>)"
      by (auto simp: ready_def)
    with cur have "x\<lparr>esc_status := target\<rparr> = x'\<lparr>esc_status := target\<rparr>"
      by (cases x; cases x') simp
    with x' it True show ?thesis by (auto simp: ready_def upd)
  next
    case False
    with assms(3) it show ?thesis by (auto simp: ready_def upd)
  qed
qed

lemma untouched_ready: "untouched s it \<Longrightarrow> ready target s it"
  by (force simp: untouched_def ready_def)

locale batch_pass =
  fixes xfer :: "'led xfer"
    and settle :: "env \<Rightarrow> nat \<Rightarrow> address \<Rightarrow> item list \<Rightarrow> ('led, 'r) pass
      \<Rightarrow> escrow_error trap + ('led, 'r) pass"
    and payee :: "escrow \<Rightarrow> address"
    and target :: escrow_status
  assumes settle_nil: "settle e b t [] st = Inr st"
    and settle_skip: "settle e b t ((i, eo, False, c) # items) st = Inr st2 \<Longrightarrow>
          \<exists>st1. skipped st st1 \<and> settle e b t items st1 = Inr st2"
    and settle_pay: "settle e b t ((i, eo, True, c) # items) st = Inr st2 \<Longrightarrow>
          \<exists>x st1. eo = Some x \<and> paid target x st st1
            \<and> xfer e t (env_self e) (payee x) (esc_amount x) (ps_ledger st) = Some (ps_ledger st1)
            \<and> settle e b t items st1 = Inr st2"
    and target_final: "target \<noteq> Active"
begin

lemma settle_induct:
  assumes "settle e b t items st = Inr st'" and "P items st"
    and skip: "\<And>i eo c items st st1. P ((i, eo, False, c) # items) st \<Longrightarrow> skipped st st1 \<Longrightarrow> P items st1"
    and pay: "\<And>i x c items st st1. P ((i, Some x, True, c) # items) st \<Longrightarrow> paid target x st st1 \<Longrightarrow>
       xfer e t (env_self e) (payee x) (esc_amount x) (ps_ledger st) = Some (ps_ledger st1) \<Longrightarrow> P items st1"
  shows "P [] st'"
  using assms(1,2)
proof (induction items arbitrary: st)
  case Nil
  then show ?case by (simp add: settle_nil)
next
  case (Cons it items)
  obtain i eo v c where it: "it = (i, eo, v, c)" by (cases it)
  show ?case
  proof (cases v)
    case False
    with Cons.prems it obtain st1 where "skipped st st1" "settle e b t items st1 = Inr st'"
      by (auto dest: settle_skip)
    moreover have "P items st1"
      by (rule skip [of i eo c items st]) (use Cons.prems(2) it False \<open>skipped st st1\<close> in simp_all)
    ultimately show ?thesis by (simp add: Cons.IH)
  next
    case True
    with Cons.prems it obtain x st1 where "eo = Some x" "paid target x st st1"
      "xfer e t (env_self e) (payee x) (esc_amount x) (ps_ledger st) = Some (ps_ledger st1)"
      "settle e b t items st1 = Inr st'"
      using settle_pay [of e b t i eo c items st st'] by auto
    moreover have "P items st1"
      by (rule pay [of i x c items st]) (use Cons.prems(2) it True calculation in simp_all)
    ultimately show ?thesis by (simp add: Cons.IH)
  qed
qed

lemma settle_counts:
  assumes "settle e b t items st = Inr st'"
  shows "ps_ok st' = ps_ok st + length (filter valid_item items)
    \<and> ps_failed st' + length (filter valid_item items) = ps_failed st + length items
    \<and> length (ps_results st') = length (ps_results st) + length items"
proof -
  let ?P = "\<lambda>(its :: item list) s. ps_ok s + length (filter valid_item its) = ps_ok st + length (filter valid_item items)
    \<and> ps_failed s + length (filter (\<lambda>x. \<not> valid_item x) its)
        = ps_failed st + length (filter (\<lambda>x. \<not> valid_item x) items)
    \<and> length (ps_results s) + length its = length (ps_results st) + length items"
  have "?P [] st'"
    by (rule settle_induct [OF assms, of ?P]) (auto simp: skipped_def paid_def valid_item_def)
  then show ?thesis using length_filter_partition [of valid_item items] by simp
qed

lemma settle_evolves:
  assumes "settle e b t items st = Inr st'" and "\<And>it. it \<in> set items \<Longrightarrow> ready target (ps_state st) it"
  shows "evolves (ps_state st) (ps_state st') \<and> same_books (ps_state st) (ps_state st')
    \<and> dom (es_escrows (ps_state st')) = dom (es_escrows (ps_state st))"
proof -
  let ?s = "ps_state st"
  let ?P = "\<lambda>(its :: item list) p. evolves ?s (ps_state p) \<and> same_books ?s (ps_state p)
    \<and> dom (es_escrows (ps_state p)) = dom (es_escrows ?s) \<and> (\<forall>it \<in> set its. ready target (ps_state p) it)"
  have "?P [] st'"
  proof (rule settle_induct [OF assms(1), of ?P])
    show "?P items st" using assms(2) by simp
  next
    fix i eo c its p p1
    assume "?P ((i, eo, False, c) # its) p" "skipped p p1"
    then show "?P its p1"
      by (auto simp: skipped_def ready_def intro: evolves_trans [OF _ evolves_same] dest: same_books_trans)
  next
    fix i x c its p p1
    assume P: "?P ((i, Some x, True, c) # its) p" and pd: "paid target x p p1"
    from P obtain st0 where i: "esc_id x = i" and act: "esc_status x = Active"
      and cur: "es_escrows (ps_state p) i = Some (x\<lparr>esc_status := st0\<rparr>)" and st0: "st0 = Active \<or> st0 = target"
      by (auto simp: ready_def)
    from pd i have upd: "es_escrows (ps_state p1) = (es_escrows (ps_state p))(i \<mapsto> x\<lparr>esc_status := target\<rparr>)"
      by (simp add: paid_def)
    have ev: "evolves (ps_state p) (ps_state p1)"
      unfolding evolves_def upd
    proof (intro allI impI)
      fix j y assume y: "es_escrows (ps_state p) j = Some y"
      show "\<exists>st. ((es_escrows (ps_state p))(i \<mapsto> x\<lparr>esc_status := target\<rparr>)) j = Some (y\<lparr>esc_status := st\<rparr>)
          \<and> (esc_status y \<noteq> Active \<longrightarrow> st = esc_status y)"
      proof (cases "j = i")
        case True
        with y cur st0 show ?thesis by (intro exI [of _ target]) auto
      next
        case False
        with y show ?thesis by (intro exI [of _ "esc_status y"]) simp
      qed
    qed
    have "ready target (ps_state p1) it" if "it \<in> set its" for it
      using ready_paid [OF _ pd, of i c it] P that by simp
    moreover have "dom (es_escrows (ps_state p1)) = dom (es_escrows (ps_state p))"
      using upd cur by auto
    ultimately show "?P its p1"
      using P ev pd by (auto simp: paid_def dest: evolves_trans same_books_trans)
  qed
  then show ?thesis by simp
qed

text \<open>A batch that lists every escrow once pays for none twice.\<close>

lemma settle_once:
  assumes "settle e b t items st = Inr st'" and "distinct (map fst items)"
    and "\<And>it. it \<in> set items \<Longrightarrow> untouched (ps_state st) it"
    and "paid_settled (ps_state st)" and "distinct (map fst (payments (ps_state st)))"
  shows "distinct (map fst (payments (ps_state st')))"
proof -
  let ?P = "\<lambda>(its :: item list) p. distinct (map fst its) \<and> (\<forall>it \<in> set its. untouched (ps_state p) it)
    \<and> paid_settled (ps_state p) \<and> distinct (map fst (payments (ps_state p)))"
  have "?P [] st'"
  proof (rule settle_induct [OF assms(1), of ?P])
    show "?P items st" using assms(2-5) by simp
  next
    fix i eo c its p p1
    assume "?P ((i, eo, False, c) # its) p" "skipped p p1"
    then show "?P its p1" by (auto simp: skipped_def untouched_def paid_settled_def)
  next
    fix i x c its p p1
    assume P: "?P ((i, Some x, True, c) # its) p" and pd: "paid target x p p1"
    from P have i: "esc_id x = i" and act: "esc_status x = Active" and cur: "es_escrows (ps_state p) i = Some x"
      by (auto simp: untouched_def)
    from pd i have upd: "es_escrows (ps_state p1) = (es_escrows (ps_state p))(i \<mapsto> x\<lparr>esc_status := target\<rparr>)"
      and pay: "payments (ps_state p1) = payments (ps_state p) @ [(i, esc_amount x)]"
      by (simp_all add: paid_def)
    have "i \<notin> fst ` set (payments (ps_state p))" using P cur act by (simp add: paid_settled_def)
    moreover have "untouched (ps_state p1) it" if "it \<in> set its" for it
      using P that by (cases it) (auto simp: untouched_def upd image_iff)
    ultimately show "?P its p1" using P target_final by (auto simp: paid_settled_def pay upd image_Un)
  qed
  then show ?thesis by simp
qed

end

text \<open>A pass over a token that keeps the interface's laws: what the batch pays out is what the
  contract's balance loses, and escrows listed once are paid out of their own backing.\<close>

locale settlement = batch_pass xfer settle payee target + token_client xfer bal
  for xfer :: "'led xfer" and settle :: "env \<Rightarrow> nat \<Rightarrow> address \<Rightarrow> item list \<Rightarrow> ('led, 'r) pass
      \<Rightarrow> escrow_error trap + ('led, 'r) pass" and payee target
    and bal :: "'led \<Rightarrow> address \<Rightarrow> address \<Rightarrow> int"
begin

lemma settle_other_tokens:
  assumes run: "settle e b t items st = Inr st'" and other: "t' \<noteq> t"
    and payees: "\<And>i x v c. (i, Some x, v, c) \<in> set items \<Longrightarrow> payee x \<noteq> env_self e"
  shows "bal (ps_ledger st') t' (env_self e) = bal (ps_ledger st) t' (env_self e)"
proof -
  let ?P = "\<lambda>(its :: item list) p. bal (ps_ledger p) t' (env_self e) = bal (ps_ledger st) t' (env_self e)
    \<and> (\<forall>i x v c. (i, Some x, v, c) \<in> set its \<longrightarrow> payee x \<noteq> env_self e)"
  have "?P [] st'"
  proof (rule settle_induct [OF run, of ?P])
    show "?P items st" using payees by simp
  next
    fix i eo c its and p p1 :: "('led, 'r) pass"
    assume "?P ((i, eo, False, c) # its) p" "skipped p p1"
    then show "?P its p1" by (auto simp: skipped_def)
  next
    fix i x c its and p p1 :: "('led, 'r) pass"
    assume P: "?P ((i, Some x, True, c) # its) p"
      and tr: "xfer e t (env_self e) (payee x) (esc_amount x) (ps_ledger p) = Some (ps_ledger p1)"
    from P have ne: "env_self e \<noteq> payee x" by (metis list.set_intros(1))
    show "?P its p1"
      using P xfer_frame [OF tr ne, of t' "env_self e"] other by (auto dest: list.set_intros(2))
  qed
  then show ?thesis by simp
qed

lemma settle_payout:
  assumes run: "settle e b t items st = Inr st'"
    and payees: "\<And>i x v c. (i, Some x, v, c) \<in> set items \<Longrightarrow> payee x \<noteq> env_self e"
    and range: "0 \<le> ps_total st" "ps_total st + bal (ps_ledger st) t (env_self e) \<le> i128_max"
  shows "ps_total st' + bal (ps_ledger st') t (env_self e) = ps_total st + bal (ps_ledger st) t (env_self e)"
proof -
  let ?c = "env_self e"
  let ?P = "\<lambda>(its :: item list) p. ps_total p + bal (ps_ledger p) t ?c = ps_total st + bal (ps_ledger st) t ?c
    \<and> ps_total st \<le> ps_total p
    \<and> (\<forall>i x v c. (i, Some x, v, c) \<in> set its \<longrightarrow> payee x \<noteq> ?c)"
  have "?P [] st'"
  proof (rule settle_induct [OF run, of ?P])
    show "?P items st" using payees by simp
  next
    fix i eo c its and p p1 :: "('led, 'r) pass"
    assume "?P ((i, eo, False, c) # its) p" "skipped p p1"
    then show "?P its p1" by (auto simp: skipped_def)
  next
    fix i x c its and p p1 :: "('led, 'r) pass"
    assume P: "?P ((i, Some x, True, c) # its) p" and pd: "paid target x p p1"
      and tr: "xfer e t ?c (payee x) (esc_amount x) (ps_ledger p) = Some (ps_ledger p1)"
    from P have ne: "?c \<noteq> payee x" by (metis list.set_intros(1))
    have cov: "0 \<le> esc_amount x" "esc_amount x \<le> bal (ps_ledger p) t ?c"
      using xfer_covered [OF tr] by simp_all
    have "in_i128 (ps_total p + esc_amount x)"
      using cov P range by (simp add: in_i128_def)
    then have tot: "ps_total p1 = ps_total p + esc_amount x"
      using pd by (simp add: paid_def checked_add_def)
    have "ps_total p1 + bal (ps_ledger p1) t ?c = ps_total st + bal (ps_ledger st) t ?c"
      using P tot xfer_debit [OF tr ne] by simp
    moreover have "ps_total st \<le> ps_total p1" using P tot cov by simp
    moreover have "\<forall>i x v c. (i, Some x, v, c) \<in> set its \<longrightarrow> payee x \<noteq> ?c"
      using P by (meson list.set_intros(2))
    ultimately show "?P its p1" by blast
  qed
  then show ?thesis by simp
qed

lemma settle_backing:
  assumes run: "settle e b t items st = Inr st'"
    and fin: "finite (dom (es_escrows (ps_state st)))" and link: "paid_settled (ps_state st)"
    and fresh: "\<And>it. it \<in> set items \<Longrightarrow> ready target (ps_state st) it"
    and payees: "\<And>i x v c. (i, Some x, v, c) \<in> set items \<Longrightarrow> payee x \<noteq> env_self e"
    and nonneg: "0 \<le> bal (ps_ledger st) t (env_self e)"
  shows "bal (ps_ledger st') t (env_self e) + repeated (payments (ps_state st')) - total_over active_amount (es_escrows (ps_state st'))
    = bal (ps_ledger st) t (env_self e) + repeated (payments (ps_state st)) - total_over active_amount (es_escrows (ps_state st))
    \<and> paid_settled (ps_state st') \<and> 0 \<le> bal (ps_ledger st') t (env_self e)"
proof -
  let ?c = "env_self e"
  let ?D = "\<lambda>p. bal (ps_ledger p) t ?c + repeated (payments (ps_state p)) - total_over active_amount (es_escrows (ps_state p))"
  let ?P = "\<lambda>(its :: item list) p. ?D p = ?D st \<and> finite (dom (es_escrows (ps_state p))) \<and> paid_settled (ps_state p)
    \<and> (\<forall>it \<in> set its. ready target (ps_state p) it)
    \<and> (\<forall>i x v c. (i, Some x, v, c) \<in> set its \<longrightarrow> payee x \<noteq> ?c) \<and> 0 \<le> bal (ps_ledger p) t ?c"
  have "?P [] st'"
  proof (rule settle_induct [OF run, of ?P])
    show "?P items st" using fin link fresh payees nonneg by simp
  next
    fix i eo c its and p p1 :: "('led, 'r) pass"
    assume "?P ((i, eo, False, c) # its) p" "skipped p p1"
    then show "?P its p1" by (auto simp: skipped_def ready_def paid_settled_def)
  next
    fix i x c its and p p1 :: "('led, 'r) pass"
    assume P: "?P ((i, Some x, True, c) # its) p" and pd: "paid target x p p1"
      and tr: "xfer e t ?c (payee x) (esc_amount x) (ps_ledger p) = Some (ps_ledger p1)"
    from P have ne: "?c \<noteq> payee x" by (metis list.set_intros(1))
    from P obtain st0 where i: "esc_id x = i" and act: "esc_status x = Active"
      and cur: "es_escrows (ps_state p) i = Some (x\<lparr>esc_status := st0\<rparr>)"
      by (auto simp: ready_def)
    from pd i have upd: "es_escrows (ps_state p1) = (es_escrows (ps_state p))(i \<mapsto> x\<lparr>esc_status := target\<rparr>)"
      and pay: "payments (ps_state p1) = payments (ps_state p) @ [(i, esc_amount x)]"
      by (simp_all add: paid_def)
    have again: "i \<in> fst ` set (payments (ps_state p)) \<longleftrightarrow> st0 \<noteq> Active" using P cur by (simp add: paid_settled_def)
    have "?D p1 = ?D p"
      using xfer_debit [OF tr ne] P target_final cur again
      by (simp add: upd pay repeated_snoc total_over_update active_amount_def)
    moreover have "ready target (ps_state p1) it" if "it \<in> set its" for it
      using ready_paid [OF _ pd, of i c it] P that by simp
    moreover have "paid_settled (ps_state p1)"
      using P target_final by (auto simp: paid_settled_def pay upd image_Un)
    moreover have "0 \<le> bal (ps_ledger p1) t ?c" using xfer_debit [OF tr ne] xfer_covered [OF tr] by simp
    moreover have "finite (dom (es_escrows (ps_state p1)))" using P by (simp add: upd)
    ultimately show "?P its p1" using P by (metis list.set_intros(2))
  qed
  then show ?thesis by simp
qed

end

section \<open>The two passes provide the interface\<close>

lemma reverse_batch_pass: "batch_pass xfer (reverse_pass xfer) esc_depositor Reversed"
proof unfold_locales
  fix e b t i eo c items st st2
  assume "reverse_pass xfer e b t ((i, eo, False, c) # items) st = Inr st2"
  then show "\<exists>st1. skipped st st1 \<and> reverse_pass xfer e b t items st1 = Inr st2"
    by (intro exI conjI) (auto simp: skipped_def same_books_def)
next
  fix e b t i eo c items st st2
  assume run: "reverse_pass xfer e b t ((i, eo, True, c) # items) st = Inr st2"
  then obtain x l1 where "eo = Some x"
    "xfer e t (env_self e) (esc_depositor x) (esc_amount x) (ps_ledger st) = Some l1"
    by (auto split: option.splits)
  with run show "\<exists>x st1. eo = Some x \<and> paid Reversed x st st1
      \<and> xfer e t (env_self e) (esc_depositor x) (esc_amount x) (ps_ledger st) = Some (ps_ledger st1)
      \<and> reverse_pass xfer e b t items st1 = Inr st2"
    by (intro exI conjI) (auto simp: paid_def same_books_def Let_def)
qed simp_all

lemma release_batch_pass: "batch_pass xfer (release_pass xfer) esc_recipient Released"
proof unfold_locales
  fix e b t i eo c items st st2
  assume "release_pass xfer e b t ((i, eo, False, c) # items) st = Inr st2"
  then show "\<exists>st1. skipped st st1 \<and> release_pass xfer e b t items st1 = Inr st2"
    by (intro exI conjI) (auto simp: skipped_def same_books_def)
next
  fix e b t i eo c items st st2
  assume run: "release_pass xfer e b t ((i, eo, True, c) # items) st = Inr st2"
  then obtain x l1 where "eo = Some x"
    "xfer e t (env_self e) (esc_recipient x) (esc_amount x) (ps_ledger st) = Some l1"
    by (auto split: option.splits)
  with run show "\<exists>x st1. eo = Some x \<and> paid Released x st st1
      \<and> xfer e t (env_self e) (esc_recipient x) (esc_amount x) (ps_ledger st) = Some (ps_ledger st1)
      \<and> release_pass xfer e b t items st1 = Inr st2"
    by (intro exI conjI) (auto simp: paid_def same_books_def Let_def)
qed simp_all

interpretation reversal: batch_pass xfer "reverse_pass xfer" esc_depositor Reversed for xfer
  by (rule reverse_batch_pass)

interpretation release: batch_pass xfer "release_pass xfer" esc_recipient Released for xfer
  by (rule release_batch_pass)

lemma reverse_settlement:
  "token_client xfer bal \<Longrightarrow> settlement xfer (reverse_pass xfer) esc_depositor Reversed bal"
  by (intro settlement.intro reverse_batch_pass)

lemma release_settlement:
  "token_client xfer bal \<Longrightarrow> settlement xfer (release_pass xfer) esc_recipient Released bal"
  by (intro settlement.intro release_batch_pass)

interpretation reversal_on_token:
  settlement token_xfer "reverse_pass token_xfer" esc_depositor Reversed token_bal
  by (rule reverse_settlement) (rule token_ledger.token_client_axioms)

interpretation release_on_token:
  settlement token_xfer "release_pass token_xfer" esc_recipient Released token_bal
  by (rule release_settlement) (rule token_ledger.token_client_axioms)

lemma item_fst [simp]:
  "fst (release_item caller admin s rq) = rlq_escrow_id rq"
  "fst (reversal_item caller admin n s rv) = rvq_escrow_id rv"
  by (simp_all add: release_item_def reversal_item_def Let_def split: sum.splits)

lemma item_emit [simp]:
  "release_item caller admin (emit ev s) = release_item caller admin s"
  "reversal_item caller admin n (emit ev s) = reversal_item caller admin n s"
  by (simp_all add: release_item_def reversal_item_def fun_eq_iff)

lemma item_record:
  "(i, Some x, v, c) = release_item caller admin s rq \<Longrightarrow> es_escrows s i = Some x"
  "(i, Some x, v, c) = reversal_item caller admin n s rv \<Longrightarrow> es_escrows s i = Some x"
  by (auto simp: release_item_def reversal_item_def Let_def split: sum.splits)

lemma validate_release_Inr:
  "validate_release eo caller admin = Inr u \<longleftrightarrow>
    (\<exists>x. eo = Some x \<and> esc_status x = Active
      \<and> (caller = admin \<or> caller = esc_depositor x \<or> esc_arbiter x = Some caller))"
  by (auto simp: validate_release_def Let_def split: option.splits escrow_status.splits)

lemma validate_reversal_Inr:
  "validate_reversal eo caller admin chk n = Inr u \<longleftrightarrow>
    (\<exists>x. eo = Some x \<and> esc_status x = Active
      \<and> (caller = admin \<or> caller = esc_depositor x \<or> esc_arbiter x = Some caller)
      \<and> (chk \<and> caller \<noteq> admin \<and> esc_arbiter x \<noteq> Some caller \<longrightarrow> esc_deadline x \<le> n))"
  by (auto simp: validate_reversal_def Let_def split: option.splits escrow_status.splits)

lemma items_untouched:
  assumes "escrow_wf s"
  shows "untouched s (release_item caller admin s rq)"
    and "untouched s (reversal_item caller admin n s rv)"
  using assms
  by (auto simp: untouched_def release_item_def reversal_item_def Let_def validate_release_Inr
      validate_reversal_Inr wf_record split: sum.splits)

section \<open>What a successful call did\<close>

lemma pass_start_simps [simp]:
  "ps_state (pass_start s l) = s" "ps_ledger (pass_start s l) = l" "ps_results (pass_start s l) = []"
  "ps_ok (pass_start s l) = 0" "ps_failed (pass_start s l) = 0" "ps_total (pass_start s l) = 0"
  by (simp_all add: pass_start_def)

lemma batch_releaseE:
  assumes "batch_release_escrows xfer e caller rs (s, l) = Inr (r, s', l')"
  obtains b admin token st where "env_auth e caller" "es_admin s = Some admin" "es_token s = Some token"
    "release_pass xfer e b token (map (release_item caller admin s) rs)
       (pass_start (emit (BatchReleaseStarted b (length rs)) s) l) = Inr st"
    "ps_ledger st = l'" "es_escrows s' = es_escrows (ps_state st)" "same_books (ps_state st) s'"
    "payments s' = payments (ps_state st)"
    "r = \<lparr>brl_batch_id = b, brl_total_requests = length rs, brl_successful = ps_ok st,
          brl_failed = ps_failed st, brl_total_released = ps_total st, brl_results = ps_results st\<rparr>"
    "0 < length rs" "length rs \<le> MAX_BATCH_SIZE"
proof -
  obtain admin token where a: "es_admin s = Some admin" and t: "es_token s = Some token"
    using assms by (auto simp: batch_release_escrows_def Let_def split: if_splits option.splits)
  let ?b = "unwrap_or (es_release_batches s) 0 + 1"
  let ?go = "release_pass xfer e ?b token (map (release_item caller admin s) rs)
       (pass_start (emit (BatchReleaseStarted ?b (length rs)) s) l)"
  obtain st where p: "?go = Inr st"
    using assms a t by (cases ?go) (auto simp: batch_release_escrows_def Let_def split: if_splits option.splits)
  show thesis
    by (rule that [OF _ a t p]; use assms a t p in
        \<open>auto simp: batch_release_escrows_def Let_def same_books_def split: if_splits option.splits\<close>)
qed

lemma batch_reverseE:
  assumes "batch_reverse_escrows xfer e caller rs (s, l) = Inr (r, s', l')"
  obtains b token st where "env_auth e caller" "es_admin s = Some caller" "es_token s = Some token"
    "reverse_pass xfer e b token (map (reversal_item caller caller (env_sequence e) s) rs)
       (pass_start (emit (BatchReversalStarted b (length rs)) s) l) = Inr st"
    "ps_ledger st = l'" "es_escrows s' = es_escrows (ps_state st)" "same_books (ps_state st) s'"
    "payments s' = payments (ps_state st)"
    "r = \<lparr>brv_batch_id = b, brv_total_requests = length rs, brv_successful = ps_ok st,
          brv_failed = ps_failed st, brv_total_reversed = ps_total st, brv_results = ps_results st\<rparr>"
    "0 < length rs" "length rs \<le> MAX_BATCH_SIZE"
proof -
  obtain token where a: "es_admin s = Some caller" and t: "es_token s = Some token"
    using assms by (auto simp: batch_reverse_escrows_def require_admin_def Let_def split: if_splits option.splits)
  let ?b = "unwrap_or (es_reversal_batches s) 0 + 1"
  let ?go = "reverse_pass xfer e ?b token (map (reversal_item caller caller (env_sequence e) s) rs)
       (pass_start (emit (BatchReversalStarted ?b (length rs)) s) l)"
  obtain st where p: "?go = Inr st"
    using assms a t by (cases ?go)
      (auto simp: batch_reverse_escrows_def require_admin_def Let_def split: if_splits option.splits)
  show thesis
    by (rule that [OF _ a t p]; use assms a t p in
        \<open>auto simp: batch_reverse_escrows_def require_admin_def Let_def same_books_def
          split: if_splits option.splits\<close>)
qed

lemma release_escrowE:
  assumes "release_escrow xfer e caller i (s, l) = Inr (u, s', l')"
  obtains admin x where "env_auth e caller" "es_admin s = Some admin" "es_escrows s i = Some x"
    "caller = admin \<or> caller = esc_depositor x \<or> esc_arbiter x = Some caller"
    "esc_status x = Active"
    "xfer e (esc_token x) (env_self e) (esc_recipient x) (esc_amount x) l = Some l'"
    "s' = emit (EscrowReleased i (esc_recipient x) (esc_amount x))
       (s\<lparr>es_escrows := (es_escrows s)(i \<mapsto> x\<lparr>esc_status := Released\<rparr>)\<rparr>)"
  using assms by (auto simp: release_escrow_def Let_def split: if_splits option.splits)

lemma create_escrowE:
  assumes "create_escrow xfer e d rcp arb n dl (s, l) = Inr (i, s', l')"
  obtains token where "env_auth e d" "0 < n" "es_token s = Some token"
    "xfer e token d (env_self e) n l = Some l'" "i = Suc (get_escrow_counter s)" "in_u64 i"
    "es_counter s' = Some i" "es_token s' = es_token s" "es_admin s' = es_admin s"
    "es_escrows s' = (es_escrows s)(i \<mapsto> \<lparr>esc_id = i, esc_depositor = d, esc_recipient = rcp,
        esc_arbiter = arb, esc_token = token, esc_amount = n, esc_status = Active,
        esc_created_at = env_sequence e, esc_deadline = dl\<rparr>)"
    "es_user_escrows s' = (es_user_escrows s)(d \<mapsto> get_user_escrows s d @ [i])" "payments s' = payments s"
  using assms
  by (auto simp: create_escrow_def Let_def get_escrow_counter_def get_user_escrows_def payments_def emit_def
      split: if_splits option.splits)

section \<open>History of the escrows\<close>

definition books_step :: "escrow_state \<Rightarrow> escrow_state \<Rightarrow> bool" where
  "books_step s s' \<longleftrightarrow> (escrow_wf s \<longrightarrow> escrow_wf s' \<and> evolves s s')"

lemma books_step_settled:
  "(escrow_wf s \<Longrightarrow> evolves s s' \<and> same_books s s' \<and> dom (es_escrows s') = dom (es_escrows s))
    \<Longrightarrow> books_step s s'"
  by (auto simp: books_step_def dest: wf_settled)

lemma status_self [simp]: "\<exists>st. x = x\<lparr>esc_status := st\<rparr> \<and> (esc_status x \<noteq> Active \<longrightarrow> st = esc_status x)"
  by (rule exI [of _ "esc_status x"]) simp

lemma emit_books [simp]:
  "evolves (emit ev s) s' \<longleftrightarrow> evolves s s'" "same_books (emit ev s) s' \<longleftrightarrow> same_books s s'"
  "ready target (emit ev s) it \<longleftrightarrow> ready target s it" "untouched (emit ev s) it \<longleftrightarrow> untouched s it"
  by (simp_all add: evolves_def same_books_def ready_def untouched_def)

lemma initialize_books: "initialize e a t (s, l) = Inr (u, s', l') \<Longrightarrow> books_step s s'"
  by (auto simp: initialize_def books_step_def escrow_wf_def get_escrow_counter_def
      get_user_escrows_def ids_of_def evolves_def split: if_splits)

lemma set_admin_books: "set_admin e a b (s, l) = Inr (u, s', l') \<Longrightarrow> books_step s s'"
  by (rule books_step_settled)
    (auto simp: set_admin_def require_admin_def same_books_def intro!: evolves_same split: if_splits option.splits)

lemma release_escrow_books:
  assumes "release_escrow xfer e c i (s, l) = Inr (u, s', l')"
  shows "books_step s s'"
proof (rule books_step_settled)
  from assms obtain x where x: "es_escrows s i = Some x" "esc_status x = Active"
    and s': "es_escrows s' = (es_escrows s)(i \<mapsto> x\<lparr>esc_status := Released\<rparr>)" "same_books s s'"
    by (rule release_escrowE) (simp add: same_books_def)
  from x have "evolves s s'"
    unfolding evolves_def s' by auto
  with x s' show "evolves s s' \<and> same_books s s' \<and> dom (es_escrows s') = dom (es_escrows s)"
    by auto
qed

lemma batch_release_books:
  assumes "batch_release_escrows xfer e c rs (s, l) = Inr (r, s', l')"
  shows "books_step s s'"
proof (rule books_step_settled)
  assume wf: "escrow_wf s"
  from assms obtain b admin token st where
    p: "release_pass xfer e b token (map (release_item c admin s) rs)
       (pass_start (emit (BatchReleaseStarted b (length rs)) s) l) = Inr st"
    and s': "es_escrows s' = es_escrows (ps_state st)" "same_books (ps_state st) s'"
    by (rule batch_releaseE)
  have "evolves s (ps_state st) \<and> same_books s (ps_state st) \<and> dom (es_escrows (ps_state st)) = dom (es_escrows s)"
    using release.settle_evolves [OF p] untouched_ready [OF items_untouched(1) [OF wf]] by fastforce
  with s' show "evolves s s' \<and> same_books s s' \<and> dom (es_escrows s') = dom (es_escrows s)"
    by (auto intro: evolves_trans [OF _ evolves_same] dest: same_books_trans)
qed

lemma batch_reverse_books:
  assumes "batch_reverse_escrows xfer e c rs (s, l) = Inr (r, s', l')"
  shows "books_step s s'"
proof (rule books_step_settled)
  assume wf: "escrow_wf s"
  from assms obtain b token st where
    p: "reverse_pass xfer e b token (map (reversal_item c c (env_sequence e) s) rs)
       (pass_start (emit (BatchReversalStarted b (length rs)) s) l) = Inr st"
    and s': "es_escrows s' = es_escrows (ps_state st)" "same_books (ps_state st) s'"
    by (rule batch_reverseE)
  have "evolves s (ps_state st) \<and> same_books s (ps_state st) \<and> dom (es_escrows (ps_state st)) = dom (es_escrows s)"
    using reversal.settle_evolves [OF p] untouched_ready [OF items_untouched(2) [OF wf]] by fastforce
  with s' show "evolves s s' \<and> same_books s s' \<and> dom (es_escrows s') = dom (es_escrows s)"
    by (auto intro: evolves_trans [OF _ evolves_same] dest: same_books_trans)
qed

lemma create_escrow_books:
  assumes "create_escrow xfer e d rcp arb n dl (s, l) = Inr (i, s', l')"
  shows "books_step s s'"
  unfolding books_step_def
proof
  assume wf: "escrow_wf s"
  from assms obtain token where
    c: "0 < n" "es_token s = Some token" "i = Suc (get_escrow_counter s)"
      "es_counter s' = Some i" "es_token s' = es_token s" "es_admin s' = es_admin s"
    and m: "es_escrows s' = (es_escrows s)(i \<mapsto> \<lparr>esc_id = i, esc_depositor = d, esc_recipient = rcp,
        esc_arbiter = arb, esc_token = token, esc_amount = n, esc_status = Active,
        esc_created_at = env_sequence e, esc_deadline = dl\<rparr>)"
    and u: "es_user_escrows s' = (es_user_escrows s)(d \<mapsto> get_user_escrows s d @ [i])"
    by (rule create_escrowE)
  have dom: "dom (es_escrows s) = {1..get_escrow_counter s}"
    using wf by (simp add: escrow_wf_def)
  then have fresh: "es_escrows s i = None" using c(3) domIff [of i "es_escrows s"] by simp
  have cnt: "get_escrow_counter s' = i" by (simp add: get_escrow_counter_def c(4))
  have ids: "ids_of (es_escrows s') i d' = ids_of (es_escrows s) (get_escrow_counter s) d' @ (if d' = d then [i] else [])" for d'
  proof -
    have "[1..<Suc i] = [1..<i] @ [i]" using c(3) by simp
    moreover have "filter (\<lambda>j. \<exists>x. es_escrows s' j = Some x \<and> esc_depositor x = d') [1..<i]
        = filter (\<lambda>j. \<exists>x. es_escrows s j = Some x \<and> esc_depositor x = d') [1..<i]"
      by (rule filter_cong) (auto simp: m)
    ultimately show ?thesis using c(3) by (simp add: ids_of_def m)
  qed
  have "escrow_wf s'"
    unfolding escrow_wf_def
  proof (intro conjI)
    show "dom (es_escrows s') = {1..get_escrow_counter s'}"
      using dom c(3) by (auto simp: cnt m)
    show "\<forall>j x. es_escrows s' j = Some x \<longrightarrow> esc_id x = j \<and> 0 < esc_amount x \<and> es_token s' = Some (esc_token x)"
      using c(1,2,5) wf_record [OF wf] by (auto simp: m)
    show "\<forall>d'. get_user_escrows s' d' = ids_of (es_escrows s') (get_escrow_counter s') d'"
      using wf ids by (auto simp: cnt get_user_escrows_def u escrow_wf_def)
    show "es_admin s' = None \<longrightarrow> es_token s' = None"
      using wf c(5,6) by (simp add: escrow_wf_def)
  qed
  moreover have "evolves s s'"
    unfolding evolves_def m using fresh by auto
  ultimately show "escrow_wf s' \<and> evolves s s'" by simp
qed

lemma escrow_exec_books:
  assumes "escrow_exec xfer (e, call) (s, l) = Inr (s', l')"
  shows "books_step s s'"
  using assms
  by (cases call) (auto dest: initialize_books create_escrow_books batch_reverse_books
      batch_release_books release_escrow_books set_admin_books)

interpretation escrow_history:
  contract_relation "escrow_exec xfer" "\<lambda>w w'. books_step (fst w) (fst w')" "\<lambda>_. True"
  for xfer :: "'led xfer"
proof unfold_locales
  fix w w' w'' :: "escrow_state \<times> 'led"
  show "books_step (fst w) (fst w)" by (simp add: books_step_def)
  show "books_step (fst w) (fst w') \<Longrightarrow> books_step (fst w') (fst w'') \<Longrightarrow> books_step (fst w) (fst w'')"
    by (auto simp: books_step_def dest: evolves_trans)
next
  fix c and w w' :: "escrow_state \<times> 'led"
  show "escrow_exec xfer c w = Inr w' \<Longrightarrow> books_step (fst w) (fst w')"
    by (cases c; cases w; cases w') (auto dest: escrow_exec_books)
qed

section \<open>Solvency\<close>

text \<open>\<open>escrow_sound\<close>: the contract at address \<open>c\<close> holds at least the sum of its active escrows in the
  configured token, short of at most what it paid for escrows that had been paid before, and no party of an escrow is the
  contract itself.\<close>

definition escrow_sound ::
  "('led \<Rightarrow> address \<Rightarrow> address \<Rightarrow> int) \<Rightarrow> address \<Rightarrow> escrow_state \<times> 'led \<Rightarrow> bool" where
  "escrow_sound bal c w \<longleftrightarrow> escrow_wf (fst w) \<and> (\<forall>t. 0 \<le> bal (snd w) t c)
    \<and> (\<forall>i x. es_escrows (fst w) i = Some x \<longrightarrow> esc_depositor x \<noteq> c \<and> esc_recipient x \<noteq> c)
    \<and> paid_settled (fst w)
    \<and> (\<forall>t. es_token (fst w) = Some t \<longrightarrow>
         total_over active_amount (es_escrows (fst w)) \<le> bal (snd w) t c + repeated (payments (fst w)))"

text \<open>The calls considered name no party of an escrow as the contract itself: of a transfer of an account to itself the
  token interface promises nothing.\<close>

definition careful :: "address \<Rightarrow> env \<times> escrow_call \<Rightarrow> bool" where
  "careful c ec \<longleftrightarrow> env_self (fst ec) = c \<and> (case snd ec of CCreate d r _ _ _ \<Rightarrow> d \<noteq> c \<and> r \<noteq> c | _ \<Rightarrow> True)"

text \<open>No batch lists an id twice.\<close>

definition lists_once :: "escrow_call \<Rightarrow> bool" where
  "lists_once call = (case call of CReverse _ rs \<Rightarrow> distinct (map rvq_escrow_id rs)
     | CReleaseBatch _ rs \<Rightarrow> distinct (map rlq_escrow_id rs) | _ \<Rightarrow> True)"

text \<open>Reachable states: calls to the contract, batches that list an id twice among them unless \<open>once\<close>, and anything other
  accounts do with the token that does not take tokens from the contract.\<close>

inductive escrow_reach :: "'led xfer \<Rightarrow> ('led \<Rightarrow> address \<Rightarrow> address \<Rightarrow> int) \<Rightarrow> address \<Rightarrow> bool
    \<Rightarrow> escrow_state \<times> 'led \<Rightarrow> bool" for xfer bal c once where
  start: "(\<And>t. 0 \<le> bal l t c) \<Longrightarrow> escrow_reach xfer bal c once (escrow_fresh, l)"
| invoke: "escrow_reach xfer bal c once w \<Longrightarrow> careful c ec \<Longrightarrow> (once \<Longrightarrow> lists_once (snd ec))
    \<Longrightarrow> escrow_exec xfer ec w = Inr w' \<Longrightarrow> escrow_reach xfer bal c once w'"
| outside: "escrow_reach xfer bal c once (s, l) \<Longrightarrow> (\<And>t. bal l t c \<le> bal l' t c)
    \<Longrightarrow> escrow_reach xfer bal c once (s, l')"

lemma sound_books:
  assumes "escrow_sound bal c (s, l)" and "books_step s s'" and "same_books s s'"
    and "dom (es_escrows s') = dom (es_escrows s)" and "\<And>t. 0 \<le> bal l' t c"
    and "paid_settled s'"
    and "\<And>t. es_token s = Some t \<Longrightarrow> total_over active_amount (es_escrows s') \<le> bal l' t c + repeated (payments s')"
  shows "escrow_sound bal c (s', l')"
proof -
  have "evolves s s'" and "escrow_wf s'" using assms(1,2) by (auto simp: escrow_sound_def books_step_def)
  moreover have "esc_depositor x \<noteq> c \<and> esc_recipient x \<noteq> c" if x: "es_escrows s' i = Some x" for i x
  proof -
    from x assms(4) obtain y where y: "es_escrows s i = Some y" by blast
    from evolvesD [OF \<open>evolves s s'\<close> y] x have "esc_depositor x = esc_depositor y" "esc_recipient x = esc_recipient y"
      by auto
    with y assms(1) show ?thesis by (auto simp: escrow_sound_def)
  qed
  ultimately show ?thesis
    using assms(3,5-7) by (auto simp: escrow_sound_def same_books_def)
qed

subsection \<open>Every careful call keeps the contract solvent\<close>

lemma sound_parties:
  "escrow_sound bal c (s, l) \<Longrightarrow> es_escrows s i = Some x \<Longrightarrow> esc_depositor x \<noteq> c \<and> esc_recipient x \<noteq> c"
  by (simp add: escrow_sound_def)

lemma active_total_nonneg: "escrow_wf s \<Longrightarrow> 0 \<le> total_over active_amount (es_escrows s)"
  by (rule total_over_nonneg) (auto simp: active_amount_def dest: wf_record)

lemma release_escrow_sound:
  assumes client: "token_client xfer bal" and sound: "escrow_sound bal (env_self e) (s, l)"
    and rel: "release_escrow xfer e caller i (s, l) = Inr (u, s', l')"
  shows "escrow_sound bal (env_self e) (s', l')"
proof -
  from rel obtain x where x: "es_escrows s i = Some x" "esc_status x = Active"
    and tr: "xfer e (esc_token x) (env_self e) (esc_recipient x) (esc_amount x) l = Some l'"
    and s': "es_escrows s' = (es_escrows s)(i \<mapsto> x\<lparr>esc_status := Released\<rparr>)" "same_books s s'"
      "payments s' = payments s @ [(i, esc_amount x)]"
    by (rule release_escrowE) (simp add: same_books_def)
  have link: "paid_settled s" using sound by (simp add: escrow_sound_def)
  then have new: "i \<notin> fst ` set (payments s)" using x by (simp add: paid_settled_def)
  have ne: "env_self e \<noteq> esc_recipient x" using sound_parties [OF sound x(1)] by metis
  have wf: "escrow_wf s" using sound by (simp add: escrow_sound_def)
  have tok: "es_token s = Some (esc_token x)" using wf_record [OF wf x(1)] by simp
  have bal': "bal l' t (env_self e) = bal l t (env_self e) - (if t = esc_token x then esc_amount x else 0)" for t
    using token_client.xfer_balance [OF client tr ne, of t "env_self e"] ne by simp
  have tot: "total_over active_amount (es_escrows s') = total_over active_amount (es_escrows s) - esc_amount x"
    using wf_finite [OF wf] x by (simp add: s' total_over_update active_amount_def)
  have cov: "esc_amount x \<le> bal l (esc_token x) (env_self e)"
    using token_client.xfer_covered [OF client tr] by simp
  show ?thesis
  proof (rule sound_books [OF sound release_escrow_books [OF rel] s'(2)])
    show "dom (es_escrows s') = dom (es_escrows s)" using s' x by auto
    show "0 \<le> bal l' t (env_self e)" for t
      using bal' [of t] cov sound by (simp add: escrow_sound_def)
    show "paid_settled s'" using link by (auto simp: paid_settled_def s' image_Un)
    show "total_over active_amount (es_escrows s') \<le> bal l' t (env_self e) + repeated (payments s')" if "es_token s = Some t" for t
      using that tok tot bal' [of t] sound new by (simp add: escrow_sound_def s'(3) repeated_snoc)
  qed
qed

text \<open>Both batches: the pass keeps the difference between active escrows, balance and what was paid again.\<close>

lemma settled_sound:
  assumes S: "settlement xfer settle payee target bal"
    and sound: "escrow_sound bal (env_self e) (s, l)" and tok: "es_token s = Some t"
    and run: "settle e b t items (pass_start (emit ev s) l) = Inr st"
    and s': "es_escrows s' = es_escrows (ps_state st)" "same_books (ps_state st) s'" "payments s' = payments (ps_state st)"
    and books: "books_step s s'" and l': "ps_ledger st = l'" and ev: "payment ev = []"
    and fresh: "\<And>it. it \<in> set items \<Longrightarrow> untouched s it"
    and payees: "\<And>i x v c. (i, Some x, v, c) \<in> set items \<Longrightarrow> payee x \<noteq> env_self e"
  shows "escrow_sound bal (env_self e) (s', l')"
proof -
  have wf: "escrow_wf s" using sound by (simp add: escrow_sound_def)
  then have wf': "escrow_wf s'" using books by (simp add: books_step_def)
  have B: "batch_pass xfer settle payee target" using S by (simp add: settlement_def)
  have same: "same_books s (ps_state st) \<and> dom (es_escrows (ps_state st)) = dom (es_escrows s)"
    using batch_pass.settle_evolves [OF B run] untouched_ready fresh by fastforce
  have "paid_settled s" using sound by (simp add: escrow_sound_def)
  then have start: "paid_settled (ps_state (pass_start (emit ev s) l))" using ev by (simp add: paid_settled_def)
  have backing: "bal l' t (env_self e) + repeated (payments s') - total_over active_amount (es_escrows s')
      = bal l t (env_self e) + repeated (payments s) - total_over active_amount (es_escrows s)"
    and link: "paid_settled s'" and nonneg: "0 \<le> bal l' t (env_self e)"
    using settlement.settle_backing [OF S run _ start] fresh untouched_ready payees wf_finite [OF wf] sound ev
    by (auto simp: s' l' escrow_sound_def paid_settled_def)
  have le: "total_over active_amount (es_escrows s) \<le> bal l t (env_self e) + repeated (payments s)"
    using sound tok by (simp add: escrow_sound_def)
  show ?thesis
  proof (rule sound_books [OF sound books])
    show "same_books s s'" using same s'(2) by (auto dest: same_books_trans)
    show "dom (es_escrows s') = dom (es_escrows s)" using same s'(1) by simp
    show "paid_settled s'" by (rule link)
    show "0 \<le> bal l' t' (env_self e)" for t'
    proof (cases "t' = t")
      case True
      with nonneg show ?thesis by simp
    next
      case False
      with settlement.settle_other_tokens [OF S run False] payees sound show ?thesis
        by (simp add: l' escrow_sound_def)
    qed
    show "total_over active_amount (es_escrows s') \<le> bal l' t' (env_self e) + repeated (payments s')" if "es_token s = Some t'" for t'
      using that tok backing le by simp
  qed
qed

lemma batch_release_sound:
  assumes client: "token_client xfer bal" and sound: "escrow_sound bal (env_self e) (s, l)"
    and call: "batch_release_escrows xfer e c rs (s, l) = Inr (r, s', l')"
  shows "escrow_sound bal (env_self e) (s', l')"
proof -
  from call obtain b admin token st where tok: "es_token s = Some token"
    and run: "release_pass xfer e b token (map (release_item c admin s) rs)
       (pass_start (emit (BatchReleaseStarted b (length rs)) s) l) = Inr st"
    and l': "ps_ledger st = l'" and s': "es_escrows s' = es_escrows (ps_state st)" "same_books (ps_state st) s'"
      "payments s' = payments (ps_state st)"
    by (rule batch_releaseE)
  have wf: "escrow_wf s" using sound by (simp add: escrow_sound_def)
  show ?thesis
  proof (rule settled_sound [OF release_settlement [OF client] sound tok run s' batch_release_books [OF call] l'])
    show "payment (BatchReleaseStarted b (length rs)) = []" by simp
    show "\<And>it. it \<in> set (map (release_item c admin s) rs) \<Longrightarrow> untouched s it"
      using items_untouched(1) [OF wf] by auto
    show "\<And>i x v d. (i, Some x, v, d) \<in> set (map (release_item c admin s) rs) \<Longrightarrow> esc_recipient x \<noteq> env_self e"
      by (auto dest!: item_record(1) sound_parties [OF sound])
  qed
qed

lemma batch_reverse_sound:
  assumes client: "token_client xfer bal" and sound: "escrow_sound bal (env_self e) (s, l)"
    and call: "batch_reverse_escrows xfer e c rs (s, l) = Inr (r, s', l')"
  shows "escrow_sound bal (env_self e) (s', l')"
proof -
  from call obtain b token st where tok: "es_token s = Some token"
    and run: "reverse_pass xfer e b token (map (reversal_item c c (env_sequence e) s) rs)
       (pass_start (emit (BatchReversalStarted b (length rs)) s) l) = Inr st"
    and l': "ps_ledger st = l'" and s': "es_escrows s' = es_escrows (ps_state st)" "same_books (ps_state st) s'"
      "payments s' = payments (ps_state st)"
    by (rule batch_reverseE)
  have wf: "escrow_wf s" using sound by (simp add: escrow_sound_def)
  show ?thesis
  proof (rule settled_sound [OF reverse_settlement [OF client] sound tok run s' batch_reverse_books [OF call] l'])
    show "payment (BatchReversalStarted b (length rs)) = []" by simp
    show "\<And>it. it \<in> set (map (reversal_item c c (env_sequence e) s) rs) \<Longrightarrow> untouched s it"
      using items_untouched(2) [OF wf] by auto
    show "\<And>i x v d. (i, Some x, v, d) \<in> set (map (reversal_item c c (env_sequence e) s) rs) \<Longrightarrow> esc_depositor x \<noteq> env_self e"
      by (auto dest!: item_record(2) sound_parties [OF sound])
  qed
qed

lemma create_escrow_sound:
  assumes client: "token_client xfer bal" and sound: "escrow_sound bal (env_self e) (s, l)"
    and parties: "d \<noteq> env_self e" "rcp \<noteq> env_self e"
    and call: "create_escrow xfer e d rcp arb n dl (s, l) = Inr (i, s', l')"
  shows "escrow_sound bal (env_self e) (s', l')"
proof -
  from call obtain token where c: "0 < n" "es_token s = Some token" "i = Suc (get_escrow_counter s)"
      "es_token s' = es_token s"
    and tr: "xfer e token d (env_self e) n l = Some l'"
    and m: "es_escrows s' = (es_escrows s)(i \<mapsto> \<lparr>esc_id = i, esc_depositor = d, esc_recipient = rcp,
        esc_arbiter = arb, esc_token = token, esc_amount = n, esc_status = Active,
        esc_created_at = env_sequence e, esc_deadline = dl\<rparr>)" and pay: "payments s' = payments s"
    by (rule create_escrowE)
  have wf: "escrow_wf s" using sound by (simp add: escrow_sound_def)
  then have fresh: "es_escrows s i = None" using c(3) domIff [of i "es_escrows s"] by (simp add: escrow_wf_def)
  have bal': "bal l' t (env_self e) = bal l t (env_self e) + (if t = token then n else 0)" for t
    using token_client.xfer_balance [OF client tr parties(1), of t "env_self e"] parties by simp
  have "total_over active_amount (es_escrows s') = total_over active_amount (es_escrows s) + n"
    using wf_finite [OF wf] fresh by (simp add: m total_over_update active_amount_def)
  moreover have "escrow_wf s'" using create_escrow_books [OF call] wf by (simp add: books_step_def)
  moreover have "paid_settled s'"
    using sound fresh by (auto simp: escrow_sound_def paid_settled_def pay m)
  ultimately show ?thesis
    using sound parties bal' c by (auto simp: escrow_sound_def m pay)
qed

lemma paid_settled_none: "paid_settled s \<Longrightarrow> es_escrows s = Map.empty \<Longrightarrow> payments s = []"
  by (simp add: paid_settled_def)

lemma admin_calls_sound:
  "initialize e a t (s, l) = Inr (u, s', l') \<Longrightarrow> escrow_sound bal c (s, l) \<Longrightarrow> escrow_sound bal c (s', l')"
  "set_admin e a b (s, l) = Inr (u, s', l') \<Longrightarrow> escrow_sound bal c (s, l) \<Longrightarrow> escrow_sound bal c (s', l')"
proof -
  assume call: "initialize e a t (s, l) = Inr (u, s', l')" and sound: "escrow_sound bal c (s, l)"
  then have s': "es_escrows s' = es_escrows s" "payments s' = payments s" "l' = l" "es_admin s = None" "es_token s' = Some t"
    by (auto simp: initialize_def payments_def split: if_splits)
  have wf: "escrow_wf s" and link: "paid_settled s" using sound by (simp_all add: escrow_sound_def)
  have none: "es_escrows s = Map.empty"
  proof (rule ccontr)
    assume "es_escrows s \<noteq> Map.empty"
    then obtain i x where "es_escrows s i = Some x" by (meson not_Some_eq ext)
    with wf s'(4) show False by (auto simp: escrow_wf_def)
  qed
  have "escrow_wf s'" using initialize_books [OF call] wf by (simp add: books_step_def)
  then show "escrow_sound bal c (s', l')"
    using sound s' none paid_settled_none [OF link none] by (simp add: escrow_sound_def paid_settled_def repeated_def)
next
  assume call: "set_admin e a b (s, l) = Inr (u, s', l')" and sound: "escrow_sound bal c (s, l)"
  then have s': "es_escrows s' = es_escrows s" "payments s' = payments s" "l' = l" "es_token s' = es_token s"
    by (auto simp: set_admin_def require_admin_def payments_def split: if_splits option.splits)
  have "escrow_wf s'" using set_admin_books [OF call] sound by (simp add: books_step_def escrow_sound_def)
  then show "escrow_sound bal c (s', l')" using sound by (simp add: escrow_sound_def paid_settled_def s')
qed

lemma escrow_exec_sound:
  assumes "token_client xfer bal" and "escrow_sound bal c w" and "careful c ec" and "escrow_exec xfer ec w = Inr w'"
  shows "escrow_sound bal c w'"
proof -
  obtain e call s l s' l' where eq: "ec = (e, call)" "w = (s, l)" "w' = (s', l')"
    by (cases ec; cases w; cases w')
  with assms(3) have c: "env_self e = c" by (simp add: careful_def)
  show ?thesis
    using assms unfolding eq c [symmetric]
    by (cases call) (auto simp: careful_def intro: admin_calls_sound create_escrow_sound
        batch_reverse_sound batch_release_sound release_escrow_sound)
qed

interpretation escrow_on_token:
  contract_invariant "escrow_exec token_xfer" "escrow_sound token_bal c" "careful c" for c
  by unfold_locales (rule escrow_exec_sound [OF token_ledger.token_client_axioms])

text \<open>Batches that list every escrow once pay for none twice.\<close>

lemma once_keeps:
  assumes wf: "escrow_wf s" and link: "paid_settled s" and dist: "distinct (map fst (payments s))"
    and once: "lists_once call" and run: "escrow_exec xfer (e, call) (s, l) = Inr (s', l')"
  shows "distinct (map fst (payments s'))"
proof (cases call)
  case (CInitialize a t)
  with run dist show ?thesis by (auto simp: initialize_def payments_def split: if_splits)
next
  case (CCreate d r arb n dl)
  with run obtain i where "create_escrow xfer e d r arb n dl (s, l) = Inr (i, s', l')" by auto
  then show ?thesis by (rule create_escrowE) (simp add: dist)
next
  case (CReverse c rs)
  with run obtain r where "batch_reverse_escrows xfer e c rs (s, l) = Inr (r, s', l')" by auto
  then obtain b token st where p: "reverse_pass xfer e b token (map (reversal_item c c (env_sequence e) s) rs)
       (pass_start (emit (BatchReversalStarted b (length rs)) s) l) = Inr st" and s': "payments s' = payments (ps_state st)"
    by (rule batch_reverseE)
  show ?thesis unfolding s'
    by (rule reversal.settle_once [OF p])
      (use once CReverse items_untouched(2) [OF wf] link dist in \<open>auto simp: lists_once_def comp_def paid_settled_def\<close>)
next
  case (CReleaseBatch c rs)
  with run obtain r where "batch_release_escrows xfer e c rs (s, l) = Inr (r, s', l')" by auto
  then obtain b admin token st where p: "release_pass xfer e b token (map (release_item c admin s) rs)
       (pass_start (emit (BatchReleaseStarted b (length rs)) s) l) = Inr st" and s': "payments s' = payments (ps_state st)"
    by (rule batch_releaseE)
  show ?thesis unfolding s'
    by (rule release.settle_once [OF p])
      (use once CReleaseBatch items_untouched(1) [OF wf] link dist in \<open>auto simp: lists_once_def comp_def paid_settled_def\<close>)
next
  case (CRelease c i)
  with run obtain u where "release_escrow xfer e c i (s, l) = Inr (u, s', l')" by auto
  then obtain x where "es_escrows s i = Some x" "esc_status x = Active" "payments s' = payments s @ [(i, esc_amount x)]"
    by (rule release_escrowE) simp
  then show ?thesis using link dist by (simp add: paid_settled_def)
next
  case (CSetAdmin a b)
  with run dist show ?thesis by (auto simp: set_admin_def require_admin_def payments_def split: if_splits option.splits)
qed

lemma escrow_reach_sound:
  assumes "escrow_reach xfer bal c once w" and "token_client xfer bal"
  shows "escrow_sound bal c w"
  using assms(1)
proof induction
  case (start l)
  then show ?case
    using wf_fresh by (simp add: escrow_sound_def) (simp add: escrow_fresh_def paid_settled_def payments_def repeated_def)
next
  case (invoke w ec w')
  with assms(2) show ?case by (blast intro: escrow_exec_sound)
next
  case (outside s l l')
  then show ?case by (auto simp: escrow_sound_def intro: order_trans)
qed

lemma escrow_reach_once:
  assumes "escrow_reach xfer bal c once w" and "token_client xfer bal" and once
  shows "distinct (map fst (payments (fst w)))"
  using assms(1)
proof induction
  case (start l)
  show ?case by (simp add: escrow_fresh_def payments_def)
next
  case (invoke w ec w')
  obtain e call s l s' l' where eq: "ec = (e, call)" "w = (s, l)" "w' = (s', l')"
    by (cases ec; cases w; cases w')
  have "escrow_sound bal c (s, l)" using escrow_reach_sound [OF invoke.hyps(1) assms(2)] by (simp add: eq)
  then show ?case
    using once_keeps [of s call xfer e l s' l'] invoke.hyps invoke.IH \<open>once\<close> unfolding eq by (simp add: escrow_sound_def)
qed simp

section \<open>Batch results\<close>

lemma valid_release_item:
  "valid_item (release_item caller admin s rq) \<longleftrightarrow>
    (\<exists>x. es_escrows s (rlq_escrow_id rq) = Some x \<and> esc_status x = Active
      \<and> (caller = admin \<or> caller = esc_depositor x \<or> esc_arbiter x = Some caller))"
  using validate_release_Inr [of "es_escrows s (rlq_escrow_id rq)" caller admin]
  by (auto simp: valid_item_def release_item_def Let_def split: sum.splits)

lemma valid_reversal_item:
  "valid_item (reversal_item caller caller n s rq) \<longleftrightarrow>
    (\<exists>x. es_escrows s (rvq_escrow_id rq) = Some x \<and> esc_status x = Active)"
  using validate_reversal_Inr [of "es_escrows s (rvq_escrow_id rq)" caller caller True n]
  by (auto simp: valid_item_def reversal_item_def Let_def split: sum.splits)

lemma reverse_pass_failures:
  "reverse_pass xfer e b t items st = Inr st' \<Longrightarrow> ReversalFailure i c \<in> set (ps_results st') \<Longrightarrow>
     ReversalFailure i c \<in> set (ps_results st) \<or> (\<exists>eo. (i, eo, False, c) \<in> set items)"
proof (induction items arbitrary: st)
  case Nil
  then show ?case by simp
next
  case (Cons it items)
  obtain j eo v d where it: "it = (j, eo, v, d)" by (cases it)
  from Cons.prems Cons.IH show ?case
    unfolding it by (fastforce simp: Let_def split: if_splits option.splits)
qed

lemma admin_reversal_code:
  "(i, eo, False, c) = reversal_item caller caller n s rq \<Longrightarrow> c \<le> 2"
  by (auto simp: reversal_item_def validate_reversal_def Let_def split: option.splits escrow_status.splits)

section \<open>Properties\<close>

text \<open>C3: Solvency, and what it costs to list an escrow twice.  In every state reachable by calls that name no party of an
  escrow as the contract itself, whatever the batches list, the contract holds, in its token, at least the sum of the
  escrows that are still active, less what it paid for escrows that it had paid before.  So it is solvent while it has paid
  for no escrow twice, and that is so while no batch lists an escrow twice.\<close>

theorem escrow_reachable_solvent:
  assumes "token_client xfer bal" and "escrow_reach xfer bal c once (s, l)" and "es_token s = Some t"
  shows "total_over active_amount (es_escrows s) \<le> bal l t c + repeated (payments s)
    \<and> (distinct (map fst (payments s)) \<longrightarrow> total_over active_amount (es_escrows s) \<le> bal l t c)
    \<and> (once \<longrightarrow> distinct (map fst (payments s)))"
  using escrow_reach_sound [OF assms(2,1)] escrow_reach_once [OF assms(2,1)] repeated_distinct [of "payments s"] assms(3)
  by (auto simp: escrow_sound_def)

definition escrow_demo_ledger :: "address \<Rightarrow> token_state" where
  "escrow_demo_ledger t = token_fresh\<lparr>tk_balance := [Addr 2 \<mapsto> 100]\<rparr>"

definition escrow_demo_init :: "env \<times> escrow_call" where
  "escrow_demo_init = (signed_env [Addr 1] 5 50 (Addr 8), CInitialize (Addr 1) (Addr 7))"

definition escrow_demo_create :: "env \<times> escrow_call" where
  "escrow_demo_create = (signed_env [Addr 2] 6 60 (Addr 8), CCreate (Addr 2) (Addr 3) (Some (Addr 4)) 40 90)"

definition escrow_demo :: "escrow_state \<times> (address \<Rightarrow> token_state)" where
  "escrow_demo = run (escrow_exec token_xfer) [escrow_demo_init, escrow_demo_create] (escrow_fresh, escrow_demo_ledger)"

lemmas escrow_eval = escrow_demo_def escrow_demo_init_def escrow_demo_create_def escrow_demo_ledger_def escrow_fresh_def
  initialize_def create_escrow_def emit_def token_xfer_def token_bal_def callee_env_def Let_def
  get_user_escrows_def get_escrow_counter_def
  Token.transfer_def Token.move_balance_def Token.token_query_defs token_fresh_def
  Token.emit_def arith_defs

lemma escrow_demo_exec:
  "escrow_exec token_xfer escrow_demo_init (escrow_fresh, escrow_demo_ledger)
     = Inr (run (escrow_exec token_xfer) [escrow_demo_init] (escrow_fresh, escrow_demo_ledger))"
  "escrow_exec token_xfer escrow_demo_create (run (escrow_exec token_xfer) [escrow_demo_init] (escrow_fresh, escrow_demo_ledger))
     = Inr escrow_demo"
  by (simp_all add: escrow_eval)

lemma escrow_demo_simps:
  "es_escrows (fst escrow_demo) = [1 \<mapsto> \<lparr>esc_id = 1, esc_depositor = Addr 2, esc_recipient = Addr 3,
     esc_arbiter = Some (Addr 4), esc_token = Addr 7, esc_amount = 40, esc_status = Active,
     esc_created_at = 6, esc_deadline = 90\<rparr>]"
  "es_token (fst escrow_demo) = Some (Addr 7)" "es_admin (fst escrow_demo) = Some (Addr 1)"
  "token_bal (snd escrow_demo) (Addr 7) (Addr 8) = 40"
  by (simp_all add: escrow_eval)

lemma escrow_demo_reach: "escrow_reach token_xfer token_bal (Addr 8) True escrow_demo"
proof -
  have "escrow_reach token_xfer token_bal (Addr 8) True (escrow_fresh, escrow_demo_ledger)"
    by (rule escrow_reach.start) (simp add: escrow_eval)
  then have "escrow_reach token_xfer token_bal (Addr 8) True
      (run (escrow_exec token_xfer) [escrow_demo_init] (escrow_fresh, escrow_demo_ledger))"
    by (rule escrow_reach.invoke [OF _ _ _ escrow_demo_exec(1)]) (simp_all add: careful_def lists_once_def escrow_demo_init_def)
  then show ?thesis
    by (rule escrow_reach.invoke [OF _ _ _ escrow_demo_exec(2)]) (simp_all add: careful_def lists_once_def escrow_demo_create_def)
qed

text \<open>C24: An escrow is never lost or altered.  Whatever calls follow each other, a record that exists
  after the first calls exists after the rest with the same parties, token, amount, creation time and
  deadline; only its status can change, and a released or reversed escrow stays so.\<close>

theorem escrow_records_final:
  "let s = fst (run (escrow_exec xfer) cs (escrow_fresh, l));
       s' = fst (run (escrow_exec xfer) (cs @ ds) (escrow_fresh, l)) in
   \<forall>i x. get_escrow s i = Some x \<longrightarrow>
     (\<exists>st. get_escrow s' i = Some (x\<lparr>esc_status := st\<rparr>) \<and> (esc_status x \<noteq> Active \<longrightarrow> st = esc_status x))"
proof -
  let ?w = "run (escrow_exec xfer) cs (escrow_fresh, l)"
  have "books_step (fst (escrow_fresh, l)) (fst ?w)"
    by (rule escrow_history.run_rel) simp
  then have wf: "escrow_wf (fst ?w)" by (simp add: books_step_def wf_fresh)
  have "books_step (fst ?w) (fst (run (escrow_exec xfer) ds ?w))"
    by (rule escrow_history.run_rel) simp
  then have "evolves (fst ?w) (fst (run (escrow_exec xfer) (cs @ ds) (escrow_fresh, l)))"
    using wf by (simp add: books_step_def run_append)
  then show ?thesis by (simp add: evolves_def get_escrow_def)
qed

theorem escrow_records_final_witness:
  "\<exists>st. get_escrow (fst (run (escrow_exec token_xfer) ([escrow_demo_init, escrow_demo_create]
        @ [(signed_env [Addr 4] 7 70 (Addr 8), CRelease (Addr 4) 1)]) (escrow_fresh, escrow_demo_ledger))) 1
      = Some (\<lparr>esc_id = 1, esc_depositor = Addr 2, esc_recipient = Addr 3,
     esc_arbiter = Some (Addr 4), esc_token = Addr 7, esc_amount = 40, esc_status = st,
     esc_created_at = 6, esc_deadline = 90\<rparr>)"
proof -
  let ?w = "(escrow_fresh, escrow_demo_ledger)" and ?cs = "[escrow_demo_init, escrow_demo_create]"
  let ?ds = "[(signed_env [Addr 4] 7 70 (Addr 8), CRelease (Addr 4) 1)]"
  have "get_escrow (fst (run (escrow_exec token_xfer) ?cs ?w)) 1
      = Some \<lparr>esc_id = 1, esc_depositor = Addr 2, esc_recipient = Addr 3,
          esc_arbiter = Some (Addr 4), esc_token = Addr 7, esc_amount = 40, esc_status = Active,
          esc_created_at = 6, esc_deadline = 90\<rparr>"
    unfolding escrow_demo_def [symmetric] get_escrow_def by (simp add: escrow_demo_simps)
  from escrow_records_final [of token_xfer ?cs escrow_demo_ledger ?ds, unfolded Let_def, rule_format, OF this]
  show ?thesis by (simp del: run.simps append.simps)
qed

text \<open>The index is exact.  After any calls the ids in use are 1 to \<open>get_escrow_counter\<close>, a record
  carries its own id, and \<open>get_user_escrows\<close> lists, in order and without repetition, exactly the ids
  of the escrows of that depositor.\<close>

theorem escrow_index_exact:
  "let s = fst (run (escrow_exec xfer) cs (escrow_fresh, l)) in
     {i. get_escrow s i \<noteq> None} = {1..get_escrow_counter s}
     \<and> (\<forall>i x. get_escrow s i = Some x \<longrightarrow> esc_id x = i)
     \<and> (\<forall>d. sorted_wrt (<) (get_user_escrows s d)
          \<and> set (get_user_escrows s d) = {i. \<exists>x. get_escrow s i = Some x \<and> esc_depositor x = d})"
proof -
  let ?s = "fst (run (escrow_exec xfer) cs (escrow_fresh, l))"
  have "books_step (fst (escrow_fresh, l)) ?s"
    by (rule escrow_history.run_rel) simp
  then have wf: "escrow_wf ?s" by (simp add: books_step_def wf_fresh)
  then have dom: "dom (es_escrows ?s) = {1..get_escrow_counter ?s}" by (simp add: escrow_wf_def)
  have idx: "get_user_escrows ?s d = ids_of (es_escrows ?s) (get_escrow_counter ?s) d" for d
    using wf by (simp add: escrow_wf_def)
  have bound: "1 \<le> i \<and> i \<le> get_escrow_counter ?s" if "es_escrows ?s i = Some x" for i x
    using dom that by (metis atLeastAtMost_iff domI)
  have "sorted_wrt (<) (get_user_escrows ?s d)" for d
    unfolding idx ids_of_def by (intro sorted_wrt_filter) (simp add: strict_sorted_iff del: upt_Suc)
  moreover have "i \<in> set (get_user_escrows ?s d) \<longleftrightarrow> (\<exists>x. es_escrows ?s i = Some x \<and> esc_depositor x = d)" for i d
    using bound unfolding idx ids_of_def by (auto simp: less_Suc_eq_le simp del: upt_Suc)
  ultimately show ?thesis
    using dom wf_record [OF wf] by (auto simp: Let_def get_escrow_def dom_def)
qed

theorem escrow_index_exact_witness:
  "set (get_user_escrows (fst escrow_demo) (Addr 2)) = {1}"
  using escrow_index_exact [of token_xfer "[escrow_demo_init, escrow_demo_create]" escrow_demo_ledger]
  unfolding escrow_demo_def [symmetric] by (simp add: escrow_demo_simps get_escrow_def Let_def)

text \<open>C35: \<open>release_escrow\<close> succeeds exactly when the caller signed, the contract is initialised, the
  escrow exists and is active, the caller is the admin, the depositor or the arbiter, and the token
  pays; it then marks this escrow released, pays its amount to the recipient and changes nothing else
  in the store.\<close>

theorem escrow_release_spec:
  "((\<exists>w'. release_escrow xfer e caller i (s, l) = Inr ((), w')) \<longleftrightarrow>
      (\<exists>admin x l'. env_auth e caller \<and> get_admin s = Inr admin \<and> get_escrow s i = Some x
         \<and> esc_status x = Active \<and> caller \<in> {admin, esc_depositor x} \<union> set_option (esc_arbiter x)
         \<and> xfer e (esc_token x) (env_self e) (esc_recipient x) (esc_amount x) l = Some l'))
   \<and> (\<forall>s' l'. release_escrow xfer e caller i (s, l) = Inr ((), s', l') \<longrightarrow>
        (\<exists>x. get_escrow s i = Some x
         \<and> xfer e (esc_token x) (env_self e) (esc_recipient x) (esc_amount x) l = Some l'
         \<and> s' = s\<lparr>es_escrows := (es_escrows s)(i \<mapsto> x\<lparr>esc_status := Released\<rparr>),
                  es_events := es_events s @ [EscrowReleased i (esc_recipient x) (esc_amount x)]\<rparr>))"
proof (intro conjI allI impI)
  show "(\<exists>w'. release_escrow xfer e caller i (s, l) = Inr ((), w')) \<longleftrightarrow>
      (\<exists>admin x l'. env_auth e caller \<and> get_admin s = Inr admin \<and> get_escrow s i = Some x
         \<and> esc_status x = Active \<and> caller \<in> {admin, esc_depositor x} \<union> set_option (esc_arbiter x)
         \<and> xfer e (esc_token x) (env_self e) (esc_recipient x) (esc_amount x) l = Some l')"
    by (auto simp: release_escrow_def Let_def get_admin_def get_escrow_def split: option.splits)
next
  fix s' l'
  assume "release_escrow xfer e caller i (s, l) = Inr ((), s', l')"
  then show "\<exists>x. get_escrow s i = Some x
         \<and> xfer e (esc_token x) (env_self e) (esc_recipient x) (esc_amount x) l = Some l'
         \<and> s' = s\<lparr>es_escrows := (es_escrows s)(i \<mapsto> x\<lparr>esc_status := Released\<rparr>),
                  es_events := es_events s @ [EscrowReleased i (esc_recipient x) (esc_amount x)]\<rparr>"
    by (rule release_escrowE) (auto simp: get_escrow_def emit_def)
qed

theorem escrow_release_spec_witness:
  "\<exists>w'. release_escrow token_xfer (signed_env [Addr 4] 7 70 (Addr 8)) (Addr 4) 1
      (fst escrow_demo, snd escrow_demo) = Inr ((), w')"
proof -
  have "token_xfer (signed_env [Addr 4] 7 70 (Addr 8)) (Addr 7) (Addr 8) (Addr 3) 40 (snd escrow_demo) \<noteq> None"
    by (simp add: escrow_eval)
  then show ?thesis
    using escrow_release_spec [of token_xfer "signed_env [Addr 4] 7 70 (Addr 8)" "Addr 4" 1
        "fst escrow_demo" "snd escrow_demo"]
    by (auto simp: escrow_demo_simps get_admin_def get_escrow_def)
qed

text \<open>A batch release adds up.  It serves exactly the requests whose escrow exists, is active and
  may be released by the caller; the other requests are counted as failed, every request has one
  result, and the reported total is what the contract's token balance lost.\<close>

theorem escrow_batch_release_accounting:
  assumes "token_client xfer bal" and "escrow_sound bal (env_self e) (s, l)"
    and "es_token s = Some t" and "es_admin s = Some admin" and "bal l t (env_self e) \<le> i128_max"
    and "batch_release_escrows xfer e caller rs (s, l) = Inr (r, s', l')"
  shows "brl_successful r = length (filter (\<lambda>rq. \<exists>x. get_escrow s (rlq_escrow_id rq) = Some x
             \<and> esc_status x = Active
             \<and> (caller = admin \<or> caller = esc_depositor x \<or> esc_arbiter x = Some caller)) rs)
    \<and> brl_successful r + brl_failed r = length rs
    \<and> brl_total_requests r = length rs \<and> length (brl_results r) = length rs
    \<and> brl_total_released r = bal l t (env_self e) - bal l' t (env_self e)"
proof -
  from assms(6,3,4) obtain b st where
    run: "release_pass xfer e b t (map (release_item caller admin s) rs)
       (pass_start (emit (BatchReleaseStarted b (length rs)) s) l) = Inr st"
    and l': "ps_ledger st = l'"
    and r: "r = \<lparr>brl_batch_id = b, brl_total_requests = length rs, brl_successful = ps_ok st,
          brl_failed = ps_failed st, brl_total_released = ps_total st, brl_results = ps_results st\<rparr>"
    by (elim batch_releaseE) auto
  have "\<And>i x v d. (i, Some x, v, d) \<in> set (map (release_item caller admin s) rs) \<Longrightarrow> esc_recipient x \<noteq> env_self e"
    by (auto dest!: item_record(1) sound_parties [OF assms(2)])
  then have "ps_total st = bal l t (env_self e) - bal l' t (env_self e)"
    using settlement.settle_payout [OF release_settlement [OF assms(1)] run] assms(5) l' by simp
  then show ?thesis
    using release.settle_counts [OF run]
    by (simp add: r comp_def valid_release_item get_escrow_def)
qed

theorem escrow_batch_release_accounting_witness:
  "\<exists>r w'. batch_release_escrows token_xfer (signed_env [Addr 2] 7 70 (Addr 8)) (Addr 2)
        [\<lparr>rlq_escrow_id = 1\<rparr>, \<lparr>rlq_escrow_id = 9\<rparr>] (fst escrow_demo, snd escrow_demo) = Inr (r, w')
     \<and> brl_successful r = 1 \<and> brl_failed r = 1"
proof -
  let ?e = "signed_env [Addr 2] 7 70 (Addr 8)"
  let ?rs = "[\<lparr>rlq_escrow_id = 1\<rparr>, \<lparr>rlq_escrow_id = 9\<rparr>]"
  let ?go = "batch_release_escrows token_xfer ?e (Addr 2) ?rs (fst escrow_demo, snd escrow_demo)"
  have sound: "escrow_sound token_bal (env_self ?e) (fst escrow_demo, snd escrow_demo)"
    using escrow_reach_sound [OF escrow_demo_reach token_ledger.token_client_axioms] by simp
  have low: "token_bal (snd escrow_demo) (Addr 7) (env_self ?e) \<le> i128_max"
    by (simp add: escrow_demo_simps)
  have "\<exists>x. ?go = Inr x"
    by (simp add: escrow_eval batch_release_escrows_def release_item_def validate_release_def
        pass_start_def MAX_BATCH_SIZE_def)
  then obtain r s' l' where run: "?go = Inr (r, s', l')" by (metis prod.exhaust)
  from escrow_batch_release_accounting [OF token_ledger.token_client_axioms sound
      escrow_demo_simps(2,3) low run] run
  show ?thesis by (auto simp: escrow_demo_simps get_escrow_def)
qed

text \<open>A batch reversal is the admin's alone, so the checks of \<open>validate_reversal\<close> for depositors,
  arbiters and the deadline never decide anything: the batch reverses exactly the requested escrows
  that are active, whatever their deadline, and no result carries the codes 3 (unauthorised) or 4
  (deadline not reached).\<close>

theorem escrow_reversal_ignores_deadline:
  assumes "batch_reverse_escrows xfer e caller rs (s, l) = Inr (r, s', l')"
  shows "env_auth e caller \<and> get_admin s = Inr caller
    \<and> brv_successful r = length (filter (\<lambda>rq. \<exists>x. get_escrow s (rvq_escrow_id rq) = Some x
             \<and> esc_status x = Active) rs)
    \<and> brv_successful r + brv_failed r = length rs
    \<and> (\<forall>i c. ReversalFailure i c \<in> set (brv_results r) \<longrightarrow> c \<le> 2)"
proof -
  from assms obtain b token st where gate: "env_auth e caller" "es_admin s = Some caller"
    and run: "reverse_pass xfer e b token (map (reversal_item caller caller (env_sequence e) s) rs)
       (pass_start (emit (BatchReversalStarted b (length rs)) s) l) = Inr st"
    and r: "r = \<lparr>brv_batch_id = b, brv_total_requests = length rs, brv_successful = ps_ok st,
          brv_failed = ps_failed st, brv_total_reversed = ps_total st, brv_results = ps_results st\<rparr>"
    by (rule batch_reverseE)
  have "c \<le> 2" if "ReversalFailure i c \<in> set (ps_results st)" for i c
    using reverse_pass_failures [OF run that] by (auto dest: admin_reversal_code)
  then show ?thesis
    using gate reversal.settle_counts [OF run]
    by (simp add: r get_admin_def comp_def valid_reversal_item get_escrow_def)
qed

theorem escrow_reversal_ignores_deadline_witness:
  "\<exists>r w'. batch_reverse_escrows token_xfer (signed_env [Addr 1] 7 70 (Addr 8)) (Addr 1)
        [\<lparr>rvq_escrow_id = 1\<rparr>] (fst escrow_demo, snd escrow_demo) = Inr (r, w') \<and> brv_successful r = 1"
proof -
  let ?e = "signed_env [Addr 1] 7 70 (Addr 8)"
  let ?go = "batch_reverse_escrows token_xfer ?e (Addr 1) [\<lparr>rvq_escrow_id = 1\<rparr>] (fst escrow_demo, snd escrow_demo)"
  have "\<exists>x. ?go = Inr x"
    by (simp add: escrow_eval batch_reverse_escrows_def reversal_item_def validate_reversal_def
        pass_start_def MAX_BATCH_SIZE_def require_admin_def)
  then obtain r s' l' where run: "?go = Inr (r, s', l')" by (metis prod.exhaust)
  from escrow_reversal_ignores_deadline [OF run] run
  show ?thesis by (auto simp: escrow_demo_simps get_escrow_def)
qed

text \<open>C39: A release batch does not notice an id it has already paid.  Every request is validated
  against the store before any is paid, so an escrow listed twice is paid twice, the second time out
  of the other escrows' tokens.\<close>

theorem escrow_batch_release_pays_twice:
  assumes "token_client xfer bal" and "es_escrows s i = Some x" and "esc_recipient x \<noteq> env_self e"
    and "es_token s = Some t"
    and "batch_release_escrows xfer e caller [\<lparr>rlq_escrow_id = i\<rparr>, \<lparr>rlq_escrow_id = i\<rparr>] (s, l)
      = Inr (r, s', l')" and "brl_failed r = 0"
  shows "brl_successful r = 2
    \<and> bal l' t (env_self e) = bal l t (env_self e) - 2 * esc_amount x
    \<and> bal l' t (esc_recipient x) = bal l t (esc_recipient x) + 2 * esc_amount x"
proof -
  from assms(5,4) obtain b admin st where
    run: "release_pass xfer e b t (map (release_item caller admin s) [\<lparr>rlq_escrow_id = i\<rparr>, \<lparr>rlq_escrow_id = i\<rparr>])
       (pass_start (emit (BatchReleaseStarted b (Suc (Suc 0))) s) l) = Inr st"
    and l': "ps_ledger st = l'" and ok: "ps_ok st = brl_successful r" "ps_failed st = brl_failed r"
    by (elim batch_releaseE) auto
  obtain v d where it: "release_item caller admin s \<lparr>rlq_escrow_id = i\<rparr> = (i, Some x, v, d)"
    using assms(2) by (cases "validate_release (Some x) caller admin") (auto simp: release_item_def)
  have v: v
    using release.settle_counts [OF run] ok assms(6) it by (cases v) (auto simp: valid_item_def)
  have ne: "env_self e \<noteq> esc_recipient x" using assms(3) by metis
  from run it v obtain l1 where
    t1: "xfer e t (env_self e) (esc_recipient x) (esc_amount x) l = Some l1" and
    t2: "xfer e t (env_self e) (esc_recipient x) (esc_amount x) l1 = Some l'"
    using l' by (auto simp: Let_def split: option.splits)
  show ?thesis
    using release.settle_counts [OF run] ok it v
      token_client.xfer_debit [OF assms(1) t1 ne] token_client.xfer_debit [OF assms(1) t2 ne]
      token_client.xfer_credit [OF assms(1) t1 ne] token_client.xfer_credit [OF assms(1) t2 ne]
    by (simp add: valid_item_def)
qed

definition escrow_demo_two :: "escrow_state \<times> (address \<Rightarrow> token_state)" where
  "escrow_demo_two = run (escrow_exec token_xfer)
     [(signed_env [Addr 2] 6 61 (Addr 8), CCreate (Addr 2) (Addr 5) None 60 90)] escrow_demo"

lemma escrow_demo_two_simps:
  "es_escrows (fst escrow_demo_two) 1 = Some \<lparr>esc_id = 1, esc_depositor = Addr 2, esc_recipient = Addr 3,
     esc_arbiter = Some (Addr 4), esc_token = Addr 7, esc_amount = 40, esc_status = Active,
     esc_created_at = 6, esc_deadline = 90\<rparr>"
  "es_token (fst escrow_demo_two) = Some (Addr 7)" "token_bal (snd escrow_demo_two) (Addr 7) (Addr 8) = 100"
  by (simp_all add: escrow_demo_two_def escrow_eval)

theorem escrow_batch_release_pays_twice_witness:
  "\<exists>r s' l'. batch_release_escrows token_xfer (signed_env [Addr 2] 7 70 (Addr 8)) (Addr 2)
        [\<lparr>rlq_escrow_id = 1\<rparr>, \<lparr>rlq_escrow_id = 1\<rparr>] (fst escrow_demo_two, snd escrow_demo_two) = Inr (r, s', l')
     \<and> token_bal l' (Addr 7) (Addr 8) = 20"
proof -
  let ?e = "signed_env [Addr 2] 7 70 (Addr 8)"
  let ?rs = "[\<lparr>rlq_escrow_id = 1\<rparr>, \<lparr>rlq_escrow_id = 1\<rparr>]"
  let ?go = "batch_release_escrows token_xfer ?e (Addr 2) ?rs (fst escrow_demo_two, snd escrow_demo_two)"
  have "\<exists>x. ?go = Inr x \<and> brl_failed (fst x) = 0"
    by (simp add: escrow_demo_two_def escrow_eval batch_release_escrows_def release_item_def validate_release_def
        pass_start_def MAX_BATCH_SIZE_def)
  then obtain r s' l' where run: "?go = Inr (r, s', l')" and none: "brl_failed r = 0"
    by (metis prod.exhaust fst_conv)
  have "esc_recipient \<lparr>esc_id = 1, esc_depositor = Addr 2, esc_recipient = Addr 3,
     esc_arbiter = Some (Addr 4), esc_token = Addr 7, esc_amount = 40, esc_status = Active,
     esc_created_at = 6, esc_deadline = 90\<rparr> \<noteq> env_self ?e" by simp
  from escrow_batch_release_pays_twice [OF token_ledger.token_client_axioms escrow_demo_two_simps(1) this
      escrow_demo_two_simps(2) run none]
  show ?thesis using run by (auto simp: escrow_demo_two_simps)
qed

text \<open>After this batch the contract owes 60 and holds 20: it has paid 40 twice.\<close>

definition escrow_demo_short :: "escrow_state \<times> (address \<Rightarrow> token_state)" where
  "escrow_demo_short = run (escrow_exec token_xfer)
     [(signed_env [Addr 2] 7 70 (Addr 8), CReleaseBatch (Addr 2) [\<lparr>rlq_escrow_id = 1\<rparr>, \<lparr>rlq_escrow_id = 1\<rparr>])] escrow_demo_two"

lemma escrow_demo_two_exec:
  "escrow_exec token_xfer (signed_env [Addr 2] 6 61 (Addr 8), CCreate (Addr 2) (Addr 5) None 60 90) escrow_demo = Inr escrow_demo_two"
  "escrow_exec token_xfer (signed_env [Addr 2] 7 70 (Addr 8), CReleaseBatch (Addr 2) [\<lparr>rlq_escrow_id = 1\<rparr>, \<lparr>rlq_escrow_id = 1\<rparr>])
     escrow_demo_two = Inr escrow_demo_short"
  by (simp_all add: escrow_demo_short_def escrow_demo_two_def escrow_eval batch_release_escrows_def release_item_def
      validate_release_def pass_start_def MAX_BATCH_SIZE_def)

lemma escrow_demo_short_simps:
  "es_token (fst escrow_demo_short) = Some (Addr 7)" "token_bal (snd escrow_demo_short) (Addr 7) (Addr 8) = 20"
  "total_over active_amount (es_escrows (fst escrow_demo_short)) = 60" "repeated (payments (fst escrow_demo_short)) = 40"
  by (simp_all add: escrow_demo_short_def escrow_demo_two_def escrow_eval batch_release_escrows_def release_item_def
      validate_release_def pass_start_def MAX_BATCH_SIZE_def payments_def repeated_def total_over_update active_amount_def
      opt_weight_def)

theorem escrow_reachable_solvent_witness:
  "total_over active_amount (es_escrows (fst escrow_demo)) \<le> token_bal (snd escrow_demo) (Addr 7) (Addr 8)
   \<and> total_over active_amount (es_escrows (fst escrow_demo_short))
       \<le> token_bal (snd escrow_demo_short) (Addr 7) (Addr 8) + repeated (payments (fst escrow_demo_short))
   \<and> total_over active_amount (es_escrows (fst escrow_demo_short)) = 60 \<and> token_bal (snd escrow_demo_short) (Addr 7) (Addr 8) = 20"
proof -
  have some: "escrow_reach token_xfer token_bal (Addr 8) once (fst w, snd w) \<longleftrightarrow> escrow_reach token_xfer token_bal (Addr 8) once w"
    for once and w :: "escrow_state \<times> (address \<Rightarrow> token_state)" by simp
  have any: "escrow_reach token_xfer token_bal (Addr 8) False w" if "escrow_reach token_xfer token_bal (Addr 8) True w" for w
    using that by induction (auto intro: escrow_reach.intros)
  have "escrow_reach token_xfer token_bal (Addr 8) False escrow_demo_two"
    by (rule escrow_reach.invoke [OF any [OF escrow_demo_reach] _ _ escrow_demo_two_exec(1)]) (simp_all add: careful_def)
  then have short: "escrow_reach token_xfer token_bal (Addr 8) False (fst escrow_demo_short, snd escrow_demo_short)"
    unfolding some by (rule escrow_reach.invoke [OF _ _ _ escrow_demo_two_exec(2)]) (simp_all add: careful_def)
  have "escrow_reach token_xfer token_bal (Addr 8) True (fst escrow_demo, snd escrow_demo)" using escrow_demo_reach by simp
  from escrow_reachable_solvent [OF token_ledger.token_client_axioms this escrow_demo_simps(2)]
    escrow_reachable_solvent [OF token_ledger.token_client_axioms short escrow_demo_short_simps(1)]
  show ?thesis by (simp add: escrow_demo_short_simps)
qed

end
