(* ===== verification/Shared.thy ===== *)
theory Shared
  imports Host
begin

text \<open>
  \<open>contracts/shared/src\<close>: the library crate the contracts use for authorisation (\<open>auth.rs\<close>,
  \<open>lib.rs\<close>), validation (\<open>validation.rs\<close>, \<open>utils.rs\<close>, \<open>sanitizer.rs\<close>), asset symbols (\<open>assets.rs\<close>) and time (\<open>date_utils.rs\<close>).
  A function that returns \<open>Err e\<close> without having written anything is modelled as a contract error
  \<open>e\<close>; the callers turn it into their own error.  Strings are lists of bytes.
\<close>

section \<open>Errors (errors.rs) and storage (lib.rs)\<close>

datatype shared_error =
    Unauthorized | NotInitialized | AlreadyInitialized
  | InvalidInput | InvalidLength | MissingRequiredField | ValueOutOfRange | InvalidStateTransition
  | ResourceNotFound | ResourceAlreadyExists | ResourceUnavailable
  | InsufficientBalance | InvalidAmount | ArithmeticOverflow | ArithmeticUnderflow
  | TooEarly | Expired | DeadlineExceeded
  | InvalidState | ResourceLocked | AlreadyCompleted
  | VersionMismatch | MigrationFailed | InternalError

record shared_state =
  sh_admin :: "address option"
  sh_operator :: "address \<rightharpoonup> bool"
  sh_counter :: "symbol \<rightharpoonup> nat"

definition get_contract_owner :: "shared_state \<Rightarrow> shared_error trap + address" where
  "get_contract_owner s = (case sh_admin s of None \<Rightarrow> Inl PanicTrap | Some a \<Rightarrow> Inr a)"

definition update_contract_owner :: "env \<Rightarrow> address \<Rightarrow> shared_state \<Rightarrow> (shared_state, shared_error, unit) outcome" where
  "update_contract_owner e new_owner s =
    (case get_contract_owner s of Inl t \<Rightarrow> Inl t | Inr current_owner \<Rightarrow>
     if \<not> env_auth e current_owner then Inl AuthTrap else Inr ((), s\<lparr>sh_admin := Some new_owner\<rparr>))"

section \<open>Authorisation (auth.rs)\<close>

definition get_admin :: "shared_state \<Rightarrow> shared_error + address" where
  "get_admin s = (case sh_admin s of None \<Rightarrow> Inl NotInitialized | Some a \<Rightarrow> Inr a)"

definition is_admin :: "shared_state \<Rightarrow> address \<Rightarrow> bool" where
  "is_admin s caller = (case get_admin s of Inl _ \<Rightarrow> False | Inr admin \<Rightarrow> caller = admin)"

definition require_admin :: "env \<Rightarrow> address \<Rightarrow> shared_state \<Rightarrow> shared_error trap + unit" where
  "require_admin e caller s =
    (if \<not> env_auth e caller then Inl AuthTrap else
     case get_admin s of Inl err \<Rightarrow> Inl (ContractError err) | Inr admin \<Rightarrow>
     if caller \<noteq> admin then Inl (ContractError Unauthorized) else Inr ())"

definition is_owner :: "address \<Rightarrow> address \<Rightarrow> bool" where
  "is_owner caller ow \<longleftrightarrow> caller = ow"

definition require_owner :: "env \<Rightarrow> address \<Rightarrow> address \<Rightarrow> shared_error trap + unit" where
  "require_owner e caller ow =
    (if \<not> env_auth e caller then Inl AuthTrap else
     if \<not> is_owner caller ow then Inl (ContractError Unauthorized) else Inr ())"

definition is_operator :: "shared_state \<Rightarrow> address \<Rightarrow> bool" where
  "is_operator s a = unwrap_or (sh_operator s a) False"

definition grant_operator :: "env \<Rightarrow> address \<Rightarrow> address \<Rightarrow> shared_state
    \<Rightarrow> (shared_state, shared_error, unit) outcome" where
  "grant_operator e caller operator s =
    (case require_admin e caller s of Inl t \<Rightarrow> Inl t | Inr _ \<Rightarrow>
     Inr ((), s\<lparr>sh_operator := (sh_operator s)(operator \<mapsto> True)\<rparr>))"

definition revoke_operator :: "env \<Rightarrow> address \<Rightarrow> address \<Rightarrow> shared_state
    \<Rightarrow> (shared_state, shared_error, unit) outcome" where
  "revoke_operator e caller operator s =
    (case require_admin e caller s of Inl t \<Rightarrow> Inl t | Inr _ \<Rightarrow>
     Inr ((), s\<lparr>sh_operator := (sh_operator s)(operator := None)\<rparr>))"

definition require_operator :: "env \<Rightarrow> address \<Rightarrow> shared_state \<Rightarrow> shared_error trap + unit" where
  "require_operator e caller s =
    (if \<not> env_auth e caller then Inl AuthTrap else
     if \<not> is_operator s caller then Inl (ContractError Unauthorized) else Inr ())"

definition require_owner_or_operator :: "env \<Rightarrow> address \<Rightarrow> address \<Rightarrow> shared_state \<Rightarrow> shared_error trap + unit" where
  "require_owner_or_operator e caller ow s =
    (if \<not> env_auth e caller then Inl AuthTrap else
     if \<not> is_owner caller ow \<and> \<not> is_operator s caller then Inl (ContractError Unauthorized) else Inr ())"

section \<open>Validation (utils.rs, validation.rs, sanitizer.rs)\<close>

datatype utils_error = NegativeAmount | InvalidAddress

definition validate_amount :: "int \<Rightarrow> utils_error + unit" where
  "validate_amount amount = (if amount < 0 then Inl NegativeAmount else Inr ())"

definition validate_user_address :: "nat list \<Rightarrow> utils_error + unit" where
  "validate_user_address bytes =
    (if length bytes \<noteq> 56 then Inl InvalidAddress else
     if bytes ! 0 \<noteq> 71 \<and> bytes ! 0 \<noteq> 67 then Inl InvalidAddress else
     if (\<exists>b\<in>set bytes. \<not> (65 \<le> b \<and> b \<le> 90) \<and> \<not> (50 \<le> b \<and> b \<le> 55)) then Inl InvalidAddress else Inr ())"

definition validate_batch_size :: "nat \<Rightarrow> nat \<Rightarrow> shared_error + unit" where
  "validate_batch_size batch_size max_batch_size =
    (if batch_size = 0 \<or> max_batch_size < batch_size then Inl InvalidLength else Inr ())"

definition validate_positive_amount :: "int \<Rightarrow> shared_error + unit" where
  "validate_positive_amount amount = (if amount \<le> 0 then Inl InvalidAmount else Inr ())"

definition validate_non_negative_amount :: "int \<Rightarrow> shared_error + unit" where
  "validate_non_negative_amount amount = (if amount < 0 then Inl InvalidAmount else Inr ())"

definition validate_timestamp :: "nat \<Rightarrow> shared_error + unit" where
  "validate_timestamp ts = (if ts = 0 then Inl InvalidInput else Inr ())"

definition validate_future_timestamp :: "env \<Rightarrow> nat \<Rightarrow> shared_error + unit" where
  "validate_future_timestamp e ts = (if ts \<le> env_timestamp e then Inl TooEarly else Inr ())"

definition validate_timestamp_range :: "nat \<Rightarrow> nat \<Rightarrow> shared_error + unit" where
  "validate_timestamp_range start end_ts = (if end_ts \<le> start then Inl InvalidInput else Inr ())"

definition validate_owner :: "address \<Rightarrow> address \<Rightarrow> shared_error + unit" where
  "validate_owner actual expected = (if actual \<noteq> expected then Inl Unauthorized else Inr ())"

text \<open>The emptiness checks of strings, vectors and bytes are the same function of the contents.\<close>

definition validate_not_empty :: "'a list \<Rightarrow> shared_error + unit" where
  "validate_not_empty xs = (if length xs = 0 then Inl MissingRequiredField else Inr ())"

definition MAX_DESCRIPTION_LENGTH :: nat where "MAX_DESCRIPTION_LENGTH = 256"

definition is_allowed_ascii :: "nat \<Rightarrow> bool" where
  "is_allowed_ascii b \<longleftrightarrow> 97 \<le> b \<and> b \<le> 122 \<or> 65 \<le> b \<and> b \<le> 90 \<or> 48 \<le> b \<and> b \<le> 57
     \<or> b = 32 \<or> b = 46 \<or> b = 44 \<or> b = 45 \<or> b = 95 \<or> b = 33 \<or> b = 63 \<or> b = 39"

definition sanitize_description :: "nat list \<Rightarrow> shared_error + unit" where
  "sanitize_description description =
    (if length description = 0 then Inl MissingRequiredField else
     if MAX_DESCRIPTION_LENGTH < length description then Inl InvalidLength else
     if (\<exists>b\<in>set description. \<not> is_allowed_ascii b) then Inl InvalidInput else Inr ())"

section \<open>Transaction references (utils.rs)\<close>

text \<open>\<open>assets.rs\<close>: a symbol consists of ASCII letters, digits and underscores, so \<open>to_uppercase\<close> is
  the ASCII one.\<close>

definition upper_char :: "char \<Rightarrow> char" where
  "upper_char c = (let n = of_char c :: nat in if 97 \<le> n \<and> n \<le> 122 then char_of (n - 32) else c)"

definition normalize_asset_symbol :: "symbol \<Rightarrow> symbol" where
  "normalize_asset_symbol asset = map upper_char asset"

lemma upper_char_idem: "upper_char (upper_char c) = upper_char c"
proof -
  have "(of_char (char_of (of_char c - 32 :: nat)) :: nat) = of_char c - 32" if "(of_char c :: nat) \<le> 122"
    using that by simp
  then show ?thesis by (auto simp: upper_char_def Let_def)
qed

lemma normalize_idem [simp]: "normalize_asset_symbol (normalize_asset_symbol asset) = normalize_asset_symbol asset"
  by (simp add: normalize_asset_symbol_def upper_char_idem)

definition increment_counter :: "symbol \<Rightarrow> shared_state \<Rightarrow> (shared_state, shared_error, nat) outcome" where
  "increment_counter counter_key s =
    (case u64_add (unwrap_or (sh_counter s counter_key) 0) 1 of None \<Rightarrow> Inl ArithTrap | Some counter \<Rightarrow>
     Inr (counter, s\<lparr>sh_counter := (sh_counter s)(counter_key \<mapsto> counter)\<rparr>))"

text \<open>\<open>hex_fixed w n\<close> is \<open>format!("{:0wx}", n)\<close> for an \<open>n\<close> of at most \<open>w\<close> hexadecimal digits, which
  a \<open>u64\<close> has for 16 and a \<open>u32\<close> for 8.\<close>

definition hex_digit :: "nat \<Rightarrow> char" where
  "hex_digit d = ''0123456789abcdef'' ! d"

fun hex_fixed :: "nat \<Rightarrow> nat \<Rightarrow> string" where
  "hex_fixed 0 n = []"
| "hex_fixed (Suc w) n = hex_fixed w (n div 16) @ [hex_digit (n mod 16)]"

definition generate_transaction_reference_id :: "env \<Rightarrow> address \<Rightarrow> symbol \<Rightarrow> shared_state
    \<Rightarrow> (shared_state, shared_error, string) outcome" where
  "generate_transaction_reference_id e sender counter_key s =
    (case increment_counter counter_key s of Inl t \<Rightarrow> Inl t | Inr (tx_counter, s1) \<Rightarrow>
     let counter_str = hex_fixed 16 tx_counter;
         ledger_str = hex_fixed 8 (env_sequence e)
     in Inr (''TXN-'' @ ledger_str @ drop 8 counter_str, s1))"

section \<open>Time (date\_utils.rs)\<close>

definition duration_from_parts :: "nat \<Rightarrow> nat \<Rightarrow> nat \<Rightarrow> nat \<Rightarrow> shared_error + nat" where
  "duration_from_parts days hours minutes secs =
    (case u64_mul days 86400 of None \<Rightarrow> Inl ArithmeticOverflow | Some d \<Rightarrow>
     case u64_mul hours 3600 of None \<Rightarrow> Inl ArithmeticOverflow | Some h \<Rightarrow>
     case u64_mul minutes 60 of None \<Rightarrow> Inl ArithmeticOverflow | Some m \<Rightarrow>
     case Option.bind (Option.bind (u64_add d h) (\<lambda>t. u64_add t m)) (\<lambda>t. u64_add t secs) of
       None \<Rightarrow> Inl ArithmeticOverflow | Some t \<Rightarrow> Inr t)"

definition expiration_timestamp :: "env \<Rightarrow> nat \<Rightarrow> nat option" where
  "expiration_timestamp e duration_secs = u64_add (env_timestamp e) duration_secs"

definition is_expired :: "env \<Rightarrow> nat \<Rightarrow> bool" where
  "is_expired e expires_at \<longleftrightarrow> expires_at \<le> env_timestamp e"

definition seconds_until_expiry :: "env \<Rightarrow> nat \<Rightarrow> nat option" where
  "seconds_until_expiry e expires_at = u64_sub expires_at (env_timestamp e)"

definition assert_not_expired :: "env \<Rightarrow> nat \<Rightarrow> shared_error + unit" where
  "assert_not_expired e expires_at = (if is_expired e expires_at then Inl Expired else Inr ())"

definition next_occurrence :: "nat \<Rightarrow> nat \<Rightarrow> nat option" where
  "next_occurrence last_execution interval_secs = u64_add last_execution interval_secs"

text \<open>\<open>None\<close> is the panic of \<open>next_occurrence\<close> on overflow.\<close>

definition is_period_due :: "env \<Rightarrow> nat \<Rightarrow> nat \<Rightarrow> bool option" where
  "is_period_due e last_execution interval_secs =
    map_option (\<lambda>t. t \<le> env_timestamp e) (next_occurrence last_execution interval_secs)"

definition periods_elapsed :: "env \<Rightarrow> nat \<Rightarrow> nat \<Rightarrow> nat" where
  "periods_elapsed e start interval_secs =
    (if interval_secs = 0 then 0 else
     let now = env_timestamp e in
     if now \<le> start then 0 else (now - start) div interval_secs)"

definition assert_period_due :: "env \<Rightarrow> nat \<Rightarrow> nat \<Rightarrow> (shared_error + unit) option" where
  "assert_period_due e last_execution interval_secs =
    map_option (\<lambda>due. if \<not> due then Inl TooEarly else Inr ()) (is_period_due e last_execution interval_secs)"

section \<open>Lemmas\<close>

interpretation grant_gate: admin_gated sh_admin "\<lambda>e a. grant_operator e a op" for op
  by unfold_locales (auto simp: grant_operator_def require_admin_def get_admin_def
      split: if_splits sum.splits option.splits)

interpretation revoke_gate: admin_gated sh_admin "\<lambda>e a. revoke_operator e a op" for op
  by unfold_locales (auto simp: revoke_operator_def require_admin_def get_admin_def
      split: if_splits sum.splits option.splits)

lemma length_hex_fixed [simp]: "length (hex_fixed w n) = w"
  by (induction w arbitrary: n) auto

lemma drop_hex_fixed: "drop k (hex_fixed (k + w) n) = hex_fixed w n"
  by (induction w arbitrary: n) auto

lemma hex_digit_inj:
  assumes "a < 16" and "b < 16"
  shows "hex_digit a = hex_digit b \<longleftrightarrow> a = b"
proof -
  have "distinct ''0123456789abcdef''" by simp
  with assms show ?thesis by (simp add: hex_digit_def nth_eq_iff_index_eq)
qed

lemma hex_fixed_inj: "hex_fixed w a = hex_fixed w b \<longleftrightarrow> a mod 16 ^ w = b mod 16 ^ w"
proof (induction w arbitrary: a b)
  case 0
  show ?case by simp
next
  case (Suc w)
  have "hex_fixed (Suc w) a = hex_fixed (Suc w) b \<longleftrightarrow>
      a div 16 mod 16 ^ w = b div 16 mod 16 ^ w \<and> a mod 16 = b mod 16"
    by (simp only: hex_fixed.simps append1_eq_conv Suc hex_digit_inj mod_less_divisor zero_less_numeral)
  also have "\<dots> \<longleftrightarrow> 16 * (a div 16 mod 16 ^ w) + a mod 16 = 16 * (b div 16 mod 16 ^ w) + b mod 16"
  proof -
    have "x < 16 \<Longrightarrow> y < 16 \<Longrightarrow> p = q \<and> x = y \<longleftrightarrow> 16 * p + x = 16 * q + y" for p q x y :: nat
      by arith
    then show ?thesis by simp
  qed
  finally show ?case by (simp only: power_Suc mod_mult2_eq)
qed

section \<open>Properties\<close>

text \<open>Two references are equal exactly when they come from the same ledger and from counters that
  agree in their low 32 bits; the sender, which the documentation lists as a component, does not
  enter.  References are therefore unique for \<open>2 ^ 32\<close> consecutive calls and then repeat.\<close>

theorem reference_id_unique:
  assumes "generate_transaction_reference_id e a k s = Inr (r, s')"
    and "generate_transaction_reference_id e' b k' t = Inr (r', t')"
    and "in_u32 (env_sequence e)" and "in_u32 (env_sequence e')"
  shows "r = r' \<longleftrightarrow> env_sequence e = env_sequence e'
    \<and> (unwrap_or (sh_counter s k) 0 + 1) mod 2 ^ 32 = (unwrap_or (sh_counter t k') 0 + 1) mod 2 ^ 32"
proof -
  let ?c = "unwrap_or (sh_counter s k) 0 + 1" and ?d = "unwrap_or (sh_counter t k') 0 + 1"
  have r: "r = ''TXN-'' @ hex_fixed 8 (env_sequence e) @ hex_fixed 8 ?c"
    using assms(1) drop_hex_fixed [of 8 8 ?c]
    by (auto simp: generate_transaction_reference_id_def increment_counter_def Let_def split: option.splits)
  have r': "r' = ''TXN-'' @ hex_fixed 8 (env_sequence e') @ hex_fixed 8 ?d"
    using assms(2) drop_hex_fixed [of 8 8 ?d]
    by (auto simp: generate_transaction_reference_id_def increment_counter_def Let_def split: option.splits)
  have "r = r' \<longleftrightarrow> hex_fixed 8 (env_sequence e) = hex_fixed 8 (env_sequence e') \<and> hex_fixed 8 ?c = hex_fixed 8 ?d"
    by (simp add: r r' append_eq_append_conv)
  also have "\<dots> \<longleftrightarrow> env_sequence e = env_sequence e' \<and> ?c mod 2 ^ 32 = ?d mod 2 ^ 32"
    using assms(3,4) by (simp add: hex_fixed_inj in_u32_def)
  finally show ?thesis .
qed

theorem reference_id_unique_witness:
  "\<exists>r s' r' t'. generate_transaction_reference_id (signed_env [] 7 1 (Addr 9)) (Addr 1) ''c''
        \<lparr>sh_admin = None, sh_operator = Map.empty, sh_counter = Map.empty\<rparr> = Inr (r, s')
     \<and> generate_transaction_reference_id (signed_env [] 7 1 (Addr 9)) (Addr 2) ''c''
        \<lparr>sh_admin = None, sh_operator = Map.empty, sh_counter = [''c'' \<mapsto> 2 ^ 32]\<rparr> = Inr (r', t') \<and> r = r'"
proof -
  let ?e = "signed_env [] 7 1 (Addr 9)"
  let ?s = "\<lparr>sh_admin = None, sh_operator = Map.empty, sh_counter = Map.empty\<rparr>"
  let ?t = "\<lparr>sh_admin = None, sh_operator = Map.empty, sh_counter = [''c'' \<mapsto> 2 ^ 32]\<rparr>"
  obtain r s' where a: "generate_transaction_reference_id ?e (Addr 1) ''c'' ?s = Inr (r, s')"
    by (simp add: generate_transaction_reference_id_def increment_counter_def u64_add_def in_u64_def)
  obtain r' t' where b: "generate_transaction_reference_id ?e (Addr 2) ''c'' ?t = Inr (r', t')"
    by (simp add: generate_transaction_reference_id_def increment_counter_def u64_add_def in_u64_def)
  have "in_u32 (env_sequence ?e)" by (simp add: in_u32_def)
  from reference_id_unique [OF a b this this] have "r = r'" by simp
  with a b show ?thesis by blast
qed

text \<open>The recurring-period helpers agree: when the next occurrence does not overflow, a period is
  due exactly when at least one complete period has elapsed, and the number of elapsed periods is
  the largest \<open>n\<close> whose \<open>n\<close>-th occurrence has been reached.\<close>

theorem periods_due_iff_elapsed:
  assumes "in_u64 (start + interval)" and "0 < interval"
  shows "(is_period_due e start interval = Some True \<longleftrightarrow> 1 \<le> periods_elapsed e start interval)
    \<and> (\<forall>n > 0. n \<le> periods_elapsed e start interval \<longleftrightarrow> start + n * interval \<le> env_timestamp e)"
proof -
  have n: "n \<le> periods_elapsed e start interval \<longleftrightarrow> start + n * interval \<le> env_timestamp e" if "0 < n" for n
  proof (cases "env_timestamp e \<le> start")
    case True
    have "0 < n * interval" using that assms(2) by simp
    with True have "\<not> start + n * interval \<le> env_timestamp e" by linarith
    with True that assms(2) show ?thesis by (simp add: periods_elapsed_def)
  next
    case False
    with assms(2) show ?thesis
      by (simp add: periods_elapsed_def Let_def less_eq_div_iff_mult_less_eq le_diff_conv2 add.commute)
  qed
  have "is_period_due e start interval = Some True \<longleftrightarrow> start + interval \<le> env_timestamp e"
    using assms(1) by (simp add: is_period_due_def next_occurrence_def u64_add_def)
  with n [of 1] n show ?thesis by simp
qed

theorem periods_due_iff_elapsed_witness:
  "periods_elapsed (signed_env [] 1 350 (Addr 9)) 0 100 = 3
   \<and> is_period_due (signed_env [] 1 350 (Addr 9)) 0 100 = Some True"
proof -
  have ok: "in_u64 (0 + 100)" "(0::nat) < 100" by (simp_all add: in_u64_def)
  have "periods_elapsed (signed_env [] 1 350 (Addr 9)) 0 100 = 3" by (simp add: periods_elapsed_def)
  with periods_due_iff_elapsed [OF ok, of "signed_env [] 1 350 (Addr 9)"] show ?thesis by simp
qed

text \<open>\<open>duration_from_parts\<close> is exact: it returns the number of seconds when that fits a \<open>u64\<close> and
  the overflow error otherwise, whichever partial product or sum overflows first.\<close>

theorem duration_exact:
  "duration_from_parts d h m s =
    (if in_u64 (d * 86400 + h * 3600 + m * 60 + s) then Inr (d * 86400 + h * 3600 + m * 60 + s)
     else Inl ArithmeticOverflow)"
  by (auto simp: duration_from_parts_def u64_mul_def u64_add_def in_u64_def split: option.splits)

end
