(* ===== verification/Fee.thy ===== *)
theory Fee
  imports Shared Token
begin

text \<open>
  \<open>contracts/fee/src\<close>: fee collection, the pooled fee escrow with billing cycles, and its
  configuration (\<open>lib.rs\<close>, \<open>storage.rs\<close>, \<open>escrow.rs\<close>, \<open>decay.rs\<close>, \<open>utils.rs\<close>, \<open>validation.rs\<close>,
  \<open>fee_validation.rs\<close>, \<open>reconciliation.rs\<close>, \<open>events.rs\<close>, \<open>auth.rs\<close>).

  \<open>auth.rs\<close> calls \<open>shared::auth::require_admin_with_error\<close>, which the shared crate does not contain.
  It is the parameter \<open>chk\<close>: \<open>chk e address admin err\<close> is \<open>Inr ()\<close> when it returns and \<open>Inl\<close> of a trap
  otherwise.  \<open>admin_check chk\<close> is what the comment on \<open>require_admin\<close> documents of it.  The token
  contract is the parameter \<open>xfer\<close>, as in the escrow contract.
\<close>

section \<open>Data (storage.rs, events.rs)\<close>

definition MAX_BATCH_SIZE :: nat where "MAX_BATCH_SIZE = 100"
definition MAX_FEE_BPS :: nat where "MAX_FEE_BPS = 10000"
definition DEFAULT_FEE_BPS :: nat where "DEFAULT_FEE_BPS = 500"
definition DEFAULT_MIN_FEE :: int where "DEFAULT_MIN_FEE = 0"
definition DEFAULT_MAX_FEE :: int where "DEFAULT_MAX_FEE = 1000000"

lemmas fee_consts = MAX_BATCH_SIZE_def MAX_FEE_BPS_def DEFAULT_FEE_BPS_def DEFAULT_MIN_FEE_def
  DEFAULT_MAX_FEE_def

record batch_fee_result =
  bf_batch_size :: nat
  bf_total_amount :: int
  bf_cycle :: nat
  bf_pending_fees :: int

record fee_config =
  fc_admin :: address
  fc_token :: address
  fc_treasury :: address
  fc_bps :: nat
  fc_min :: int
  fc_max :: int
  fc_locked :: bool
  fc_cycle :: nat

record fee_stats =
  fs_escrow :: int
  fs_collected :: int
  fs_released :: int
  fs_batch_calls :: nat

datatype fee_contract_error =
    NotInitialized | Unauthorized | Locked | InvalidAmount | EmptyBatch | BatchTooLarge
  | Overflow | InsufficientEscrow | InvalidCycle | InvalidConfig | NoPendingFees | InvalidTier

datatype fee_validation_error = FeeTooLow | FeeTooHigh

datatype fee_error = FeeErr fee_contract_error | FeeValErr fee_validation_error

datatype fee_event =
    FeeCollected address int
  | FeeEscrowed address int nat
  | FeeBatched address int nat nat
  | FeeReleased nat int address
  | FeeBpsUpdated nat
  | TreasuryUpdated address
  | MinFeeUpdated int
  | FeeRolled nat nat int
  | FeeLocked
  | FeeUnlocked
  | FeeReconciled int int
  | TierSet address address symbol
  | TierRemoved address address
  | FeeReset address
  | TreasuryReconciled int int int bool

record fee_state =
  fe_config :: "fee_config option"
  fe_stats :: "fee_stats option"
  fe_pending :: "nat \<rightharpoonup> int"
  fe_activity :: "address \<rightharpoonup> nat"
  fe_tier :: "address \<rightharpoonup> symbol"
  fe_events :: "fee_event list"

definition fee_fresh :: fee_state where
  "fee_fresh = \<lparr>fe_config = None, fe_stats = None, fe_pending = Map.empty, fe_activity = Map.empty,
     fe_tier = Map.empty, fe_events = []\<rparr>"

definition publish :: "fee_event \<Rightarrow> fee_state \<Rightarrow> fee_state" where
  "publish ev s = s\<lparr>fe_events := fe_events s @ [ev]\<rparr>"

abbreviation (input) fee_err :: "fee_contract_error \<Rightarrow> fee_error trap" where
  "fee_err x \<equiv> ContractError (FeeErr x)"

section \<open>Storage accessors (storage.rs)\<close>

definition read_stats :: "fee_state \<Rightarrow> fee_stats" where
  "read_stats s = unwrap_or (fe_stats s) \<lparr>fs_escrow = 0, fs_collected = 0, fs_released = 0, fs_batch_calls = 0\<rparr>"

definition has_admin :: "fee_state \<Rightarrow> bool" where
  "has_admin s \<longleftrightarrow> fe_config s \<noteq> None"

definition read_pending_fees :: "fee_state \<Rightarrow> nat \<Rightarrow> int" where
  "read_pending_fees s cycle = unwrap_or (fe_pending s cycle) 0"

definition add_pending_fees :: "nat \<Rightarrow> int \<Rightarrow> fee_state \<Rightarrow> (int \<times> fee_state) option" where
  "add_pending_fees cycle amount s =
    (case checked_add (read_pending_fees s cycle) amount of None \<Rightarrow> None | Some updated \<Rightarrow>
     Some (updated, s\<lparr>fe_pending := (fe_pending s)(cycle \<mapsto> updated)\<rparr>))"

definition clear_pending_fees :: "nat \<Rightarrow> fee_state \<Rightarrow> fee_state" where
  "clear_pending_fees cycle s = s\<lparr>fe_pending := (fe_pending s)(cycle \<mapsto> 0)\<rparr>"

definition add_escrow_balance :: "int \<Rightarrow> fee_state \<Rightarrow> fee_state option" where
  "add_escrow_balance amount s =
    (case checked_add (fs_escrow (read_stats s)) amount of None \<Rightarrow> None | Some updated \<Rightarrow>
     Some (s\<lparr>fe_stats := Some ((read_stats s)\<lparr>fs_escrow := updated\<rparr>)\<rparr>))"

definition sub_escrow_balance :: "int \<Rightarrow> fee_state \<Rightarrow> fee_state option" where
  "sub_escrow_balance amount s =
    (case checked_sub (fs_escrow (read_stats s)) amount of None \<Rightarrow> None | Some updated \<Rightarrow>
     Some (s\<lparr>fe_stats := Some ((read_stats s)\<lparr>fs_escrow := updated\<rparr>)\<rparr>))"

definition add_total_collected :: "int \<Rightarrow> fee_state \<Rightarrow> fee_state option" where
  "add_total_collected amount s =
    (case checked_add (fs_collected (read_stats s)) amount of None \<Rightarrow> None | Some updated \<Rightarrow>
     Some (s\<lparr>fe_stats := Some ((read_stats s)\<lparr>fs_collected := updated\<rparr>)\<rparr>))"

definition add_total_released :: "int \<Rightarrow> fee_state \<Rightarrow> fee_state option" where
  "add_total_released amount s =
    (case checked_add (fs_released (read_stats s)) amount of None \<Rightarrow> None | Some updated \<Rightarrow>
     Some (s\<lparr>fe_stats := Some ((read_stats s)\<lparr>fs_released := updated\<rparr>)\<rparr>))"

definition add_batch_call :: "fee_state \<Rightarrow> fee_state option" where
  "add_batch_call s =
    (case u64_add (fs_batch_calls (read_stats s)) 1 of None \<Rightarrow> None | Some updated \<Rightarrow>
     Some (s\<lparr>fe_stats := Some ((read_stats s)\<lparr>fs_batch_calls := updated\<rparr>)\<rparr>))"

definition read_last_active :: "fee_state \<Rightarrow> address \<Rightarrow> nat" where
  "read_last_active s user = unwrap_or (fe_activity s user) 0"

definition write_last_active :: "address \<Rightarrow> nat \<Rightarrow> fee_state \<Rightarrow> fee_state" where
  "write_last_active user timestamp s = s\<lparr>fe_activity := (fe_activity s)(user \<mapsto> timestamp)\<rparr>"

definition is_valid_tier :: "symbol \<Rightarrow> bool" where
  "is_valid_tier tier \<longleftrightarrow> tier = ''bronze'' \<or> tier = ''silver'' \<or> tier = ''gold'' \<or> tier = ''platinum''"

section \<open>Arithmetic (utils.rs, decay.rs)\<close>

text \<open>\<open>denominator - 1\<close> is a plain subtraction, so it panics (\<open>Inl\<close>) on the least \<open>i128\<close>.\<close>

definition round_up_div :: "int \<Rightarrow> int \<Rightarrow> unit + int option" where
  "round_up_div numerator denominator =
    (if denominator = 0 then Inr None else
     case checked_sub denominator 1 of None \<Rightarrow> Inl () | Some d \<Rightarrow>
     Inr (Option.bind (checked_add numerator d) (\<lambda>n. checked_div n denominator)))"

definition round_down_div :: "int \<Rightarrow> int \<Rightarrow> int option" where
  "round_down_div numerator denominator =
    (if denominator = 0 then None else checked_div numerator denominator)"

definition calculate_fee_round_up :: "int \<Rightarrow> nat \<Rightarrow> unit + int option" where
  "calculate_fee_round_up amount fee_bps =
    (if amount \<le> 0 \<or> fee_bps = 0 then Inr (Some 0) else
     if MAX_FEE_BPS < fee_bps then Inr None else
     case checked_mul amount (int fee_bps) of None \<Rightarrow> Inr None | Some numerator \<Rightarrow>
     round_up_div numerator 10000)"

definition calculate_fee_round_down :: "int \<Rightarrow> nat \<Rightarrow> int option" where
  "calculate_fee_round_down amount fee_bps =
    (if amount \<le> 0 \<or> fee_bps = 0 then Some 0 else
     if MAX_FEE_BPS < fee_bps then None else
     case checked_mul amount (int fee_bps) of None \<Rightarrow> None | Some numerator \<Rightarrow>
     round_down_div numerator 10000)"

definition compute_fee :: "int \<Rightarrow> nat \<Rightarrow> int option" where
  "compute_fee amount bps = calculate_fee_round_down amount bps"

definition mul_bps :: "int \<Rightarrow> int \<Rightarrow> int option" where
  "mul_bps amount bps = Option.bind (checked_mul amount bps) (\<lambda>x. checked_div x 10000)"

definition DECAY_RATE :: int where "DECAY_RATE = 1"
definition MIN_FEE :: int where "MIN_FEE = 10"

definition calculate_fee_decay :: "int \<Rightarrow> nat \<Rightarrow> nat \<Rightarrow> int" where
  "calculate_fee_decay base_fee last_active current_time =
    (if current_time \<le> last_active then base_fee else
     let time_elapsed = int (current_time - last_active);
         decay = unwrap_or (checked_mul time_elapsed DECAY_RATE) base_fee;
         decayed_fee = unwrap_or (checked_sub base_fee decay) MIN_FEE
     in if decayed_fee < MIN_FEE then MIN_FEE else decayed_fee)"

section \<open>Validation (validation.rs, fee\_validation.rs)\<close>

definition validate_min_fee_or_panic :: "int \<Rightarrow> fee_error trap + unit" where
  "validate_min_fee_or_panic min_fee =
    (case validate_amount min_fee of Inl _ \<Rightarrow> Inl (fee_err InvalidConfig) | Inr _ \<Rightarrow> Inr ())"

definition validate_max_fee_or_panic :: "int \<Rightarrow> int \<Rightarrow> fee_error trap + unit" where
  "validate_max_fee_or_panic max_fee min_fee =
    (if max_fee < 0 then Inl (fee_err InvalidConfig) else
     if max_fee < min_fee then Inl (fee_err InvalidConfig) else Inr ())"

definition validate_amount_positive_or_panic :: "int \<Rightarrow> fee_error trap + unit" where
  "validate_amount_positive_or_panic amount =
    (if amount \<le> 0 then Inl (fee_err InvalidAmount) else Inr ())"

definition validate_fee_percentage_bounds :: "nat \<Rightarrow> fee_error trap + unit" where
  "validate_fee_percentage_bounds fee_bps =
    (if fee_bps = 0 then Inl (ContractError (FeeValErr FeeTooLow)) else
     if MAX_FEE_BPS < fee_bps then Inl (ContractError (FeeValErr FeeTooHigh)) else Inr ())"

definition validate_fee :: "int \<Rightarrow> int \<Rightarrow> int \<Rightarrow> fee_validation_error + unit" where
  "validate_fee fee min_fee max_fee =
    (if fee < min_fee then Inl FeeTooLow else if max_fee < fee then Inl FeeTooHigh else Inr ())"

section \<open>The fee escrow (escrow.rs)\<close>

definition require_positive_amount :: "int \<Rightarrow> fee_error trap + unit" where
  "require_positive_amount amount =
    (case validate_amount amount of Inl _ \<Rightarrow> Inl (fee_err InvalidAmount) | Inr _ \<Rightarrow>
     if amount = 0 then Inl (fee_err InvalidAmount) else Inr ())"

text \<open>The bookkeeping of a received amount, shared by the two collecting functions.\<close>

definition book_received :: "nat \<Rightarrow> int \<Rightarrow> fee_state \<Rightarrow> fee_error trap + (int \<times> fee_state)" where
  "book_received cycle amount s =
    (case add_pending_fees cycle amount s of None \<Rightarrow> Inl (fee_err Overflow) | Some (pending, s1) \<Rightarrow>
     case add_escrow_balance amount s1 of None \<Rightarrow> Inl (fee_err Overflow) | Some s2 \<Rightarrow>
     case add_total_collected amount s2 of None \<Rightarrow> Inl (fee_err Overflow) | Some s3 \<Rightarrow>
     Inr (pending, s3))"

definition collect_to_escrow :: "'led xfer \<Rightarrow> env \<Rightarrow> address \<Rightarrow> int \<Rightarrow> fee_state \<times> 'led
    \<Rightarrow> (fee_state \<times> 'led, fee_error, int) outcome" where
  "collect_to_escrow xfer e payer amount w = (case w of (s, l) \<Rightarrow>
     case require_positive_amount amount of Inl t \<Rightarrow> Inl t | Inr _ \<Rightarrow>
     case fe_config s of None \<Rightarrow> Inl PanicTrap | Some cfg \<Rightarrow>
     if amount < fc_min cfg then Inl (fee_err InvalidAmount) else
     case xfer e (fc_token cfg) payer (env_self e) amount l of None \<Rightarrow> Inl CallTrap | Some l1 \<Rightarrow>
     case book_received (fc_cycle cfg) amount s of Inl t \<Rightarrow> Inl t | Inr (pending, s1) \<Rightarrow>
     Inr (pending, s1, l1))"

fun batch_total :: "int \<Rightarrow> int list \<Rightarrow> int \<Rightarrow> fee_error trap + int" where
  "batch_total min_fee [] total_amount = Inr total_amount"
| "batch_total min_fee (amount # amounts) total_amount =
    (case require_positive_amount amount of Inl t \<Rightarrow> Inl t | Inr _ \<Rightarrow>
     if amount < min_fee then Inl (fee_err InvalidAmount) else
     case checked_add total_amount amount of None \<Rightarrow> Inl (fee_err Overflow) | Some total1 \<Rightarrow>
     batch_total min_fee amounts total1)"

definition collect_batch_to_escrow :: "'led xfer \<Rightarrow> env \<Rightarrow> address \<Rightarrow> int list \<Rightarrow> fee_state \<times> 'led
    \<Rightarrow> (fee_state \<times> 'led, fee_error, batch_fee_result) outcome" where
  "collect_batch_to_escrow xfer e payer amounts w = (case w of (s, l) \<Rightarrow>
     case fe_config s of None \<Rightarrow> Inl PanicTrap | Some cfg \<Rightarrow>
     case batch_total (fc_min cfg) amounts 0 of Inl t \<Rightarrow> Inl t | Inr total_amount \<Rightarrow>
     case xfer e (fc_token cfg) payer (env_self e) total_amount l of None \<Rightarrow> Inl CallTrap | Some l1 \<Rightarrow>
     case book_received (fc_cycle cfg) total_amount s of Inl t \<Rightarrow> Inl t | Inr (pending_fees, s1) \<Rightarrow>
     case add_batch_call s1 of None \<Rightarrow> Inl (fee_err Overflow) | Some s2 \<Rightarrow>
     Inr (\<lparr>bf_batch_size = length amounts, bf_total_amount = total_amount, bf_cycle = fc_cycle cfg,
           bf_pending_fees = pending_fees\<rparr>, s2, l1))"

definition release_cycle_fees :: "'led xfer \<Rightarrow> env \<Rightarrow> nat \<Rightarrow> fee_state \<times> 'led
    \<Rightarrow> (fee_state \<times> 'led, fee_error, int) outcome" where
  "release_cycle_fees xfer e cycle w = (case w of (s, l) \<Rightarrow>
     let pending = read_pending_fees s cycle in
     if pending \<le> 0 then Inl (fee_err NoPendingFees) else
     case fe_config s of None \<Rightarrow> Inl PanicTrap | Some cfg \<Rightarrow>
     case xfer e (fc_token cfg) (env_self e) (fc_treasury cfg) pending l of None \<Rightarrow> Inl CallTrap | Some l1 \<Rightarrow>
     case sub_escrow_balance pending (clear_pending_fees cycle s) of
       None \<Rightarrow> Inl (fee_err InsufficientEscrow) | Some s1 \<Rightarrow>
     case add_total_released pending s1 of None \<Rightarrow> Inl (fee_err Overflow) | Some s2 \<Rightarrow>
     Inr (pending, s2, l1))"

definition rollover_cycle_fees :: "nat \<Rightarrow> nat \<Rightarrow> fee_state \<Rightarrow> (fee_state, fee_error, int) outcome" where
  "rollover_cycle_fees from_cycle to_cycle s =
    (let pending = read_pending_fees s from_cycle in
     if 0 < pending
     then case add_pending_fees to_cycle pending s of None \<Rightarrow> Inl (fee_err Overflow) | Some (_, s1) \<Rightarrow>
          Inr (pending, clear_pending_fees from_cycle s1)
     else Inr (pending, clear_pending_fees from_cycle s))"

section \<open>Reconciliation (reconciliation.rs)\<close>

record reconciliation_result =
  rr_stored :: int
  rr_calculated :: int
  rr_discrepancy :: int
  rr_is_reconciled :: bool

definition reconcile :: "fee_state \<Rightarrow> fee_error trap + reconciliation_result" where
  "reconcile s =
    (let stats = read_stats s in
     case checked_sub (fs_collected stats) (fs_released stats) of None \<Rightarrow> Inl ArithTrap | Some calculated \<Rightarrow>
     case checked_sub (fs_escrow stats) calculated of None \<Rightarrow> Inl ArithTrap | Some discrepancy \<Rightarrow>
     Inr \<lparr>rr_stored = fs_escrow stats, rr_calculated = calculated, rr_discrepancy = discrepancy,
          rr_is_reconciled = (discrepancy = 0)\<rparr>)"

section \<open>Entry points (lib.rs, auth.rs)\<close>

type_synonym admin_check = "env \<Rightarrow> address \<Rightarrow> address \<Rightarrow> fee_error \<Rightarrow> fee_error trap + unit"

definition admin_check :: "admin_check \<Rightarrow> bool" where
  "admin_check chk \<longleftrightarrow> (\<forall>e a admin err. chk e a admin err = Inr () \<longleftrightarrow> env_auth e a \<and> a = admin)"

definition require_admin :: "admin_check \<Rightarrow> env \<Rightarrow> address \<Rightarrow> fee_state \<Rightarrow> fee_error trap + fee_config" where
  "require_admin chk e a s =
    (case fe_config s of None \<Rightarrow> Inl (fee_err NotInitialized) | Some cfg \<Rightarrow>
     case chk e a (fc_admin cfg) (FeeErr Unauthorized) of Inl t \<Rightarrow> Inl t | Inr _ \<Rightarrow> Inr cfg)"

definition initialize :: "address \<Rightarrow> address \<Rightarrow> address \<Rightarrow> nat \<Rightarrow> nat \<Rightarrow> fee_state
    \<Rightarrow> (fee_state, fee_error, unit) outcome" where
  "initialize admin token treasury fee_bps initial_cycle s =
    (if has_admin s then Inl PanicTrap else
     if initial_cycle = 0 then Inl (fee_err InvalidConfig) else
     case validate_fee_percentage_bounds fee_bps of Inl t \<Rightarrow> Inl t | Inr _ \<Rightarrow>
     Inr ((), s\<lparr>fe_config := Some \<lparr>fc_admin = admin, fc_token = token, fc_treasury = treasury,
                   fc_bps = fee_bps, fc_min = DEFAULT_MIN_FEE, fc_max = DEFAULT_MAX_FEE,
                   fc_locked = False, fc_cycle = initial_cycle\<rparr>,
                fe_stats := Some \<lparr>fs_escrow = 0, fs_collected = 0, fs_released = 0, fs_batch_calls = 0\<rparr>\<rparr>))"

definition init :: "address \<Rightarrow> address \<Rightarrow> address \<Rightarrow> fee_state \<Rightarrow> (fee_state, fee_error, unit) outcome" where
  "init admin token treasury s = initialize admin token treasury 300 1 s"

definition collect_fee :: "'led xfer \<Rightarrow> env \<Rightarrow> address \<Rightarrow> int \<Rightarrow> fee_state \<times> 'led
    \<Rightarrow> (fee_state \<times> 'led, fee_error, int) outcome" where
  "collect_fee xfer e payer amount w = (case w of (s, l) \<Rightarrow>
     if \<not> has_admin s then Inl (fee_err NotInitialized) else
     if \<not> env_auth e payer then Inl AuthTrap else
     case validate_amount_positive_or_panic amount of Inl t \<Rightarrow> Inl t | Inr _ \<Rightarrow>
     let last_active = read_last_active s payer;
         current_time = env_timestamp e;
         decayed_amount = calculate_fee_decay amount last_active current_time in
     case collect_to_escrow xfer e payer decayed_amount (s, l) of Inl t \<Rightarrow> Inl t | Inr (pending, s1, l1) \<Rightarrow>
     case fe_config s1 of None \<Rightarrow> Inl PanicTrap | Some cfg \<Rightarrow>
     let s2 = publish (FeeCollected payer amount) (write_last_active payer current_time s1)
     in Inr (pending, publish (FeeEscrowed payer decayed_amount (fc_cycle cfg)) s2, l1))"

fun decay_amounts :: "nat \<Rightarrow> nat \<Rightarrow> int list \<Rightarrow> int \<Rightarrow> int list \<Rightarrow> fee_error trap + (int \<times> int list)" where
  "decay_amounts last_active current_time [] total_orig decayed = Inr (total_orig, decayed)"
| "decay_amounts last_active current_time (amount # amounts) total_orig decayed =
    (case validate_amount_positive_or_panic amount of Inl t \<Rightarrow> Inl t | Inr _ \<Rightarrow>
     case checked_add total_orig amount of None \<Rightarrow> Inl (fee_err Overflow) | Some total1 \<Rightarrow>
     decay_amounts last_active current_time amounts total1
       (decayed @ [calculate_fee_decay amount last_active current_time]))"

definition collect_fee_batch :: "'led xfer \<Rightarrow> env \<Rightarrow> address \<Rightarrow> int list \<Rightarrow> fee_state \<times> 'led
    \<Rightarrow> (fee_state \<times> 'led, fee_error, batch_fee_result) outcome" where
  "collect_fee_batch xfer e payer amounts w = (case w of (s, l) \<Rightarrow>
     if \<not> has_admin s then Inl (fee_err NotInitialized) else
     if \<not> env_auth e payer then Inl AuthTrap else
     if length amounts = 0 then Inl (fee_err EmptyBatch) else
     if MAX_BATCH_SIZE < length amounts then Inl (fee_err BatchTooLarge) else
     case decay_amounts (read_last_active s payer) (env_timestamp e) amounts 0 [] of Inl t \<Rightarrow> Inl t
     | Inr (total_original_amount, decayed_amounts) \<Rightarrow>
     case collect_batch_to_escrow xfer e payer decayed_amounts (s, l) of Inl t \<Rightarrow> Inl t | Inr (res, s1, l1) \<Rightarrow>
     let s2 = publish (FeeCollected payer total_original_amount) (write_last_active payer (env_timestamp e) s1)
     in Inr (res, publish (FeeBatched payer (bf_total_amount res) (bf_batch_size res) (bf_cycle res)) s2, l1))"

definition update_activity :: "env \<Rightarrow> address \<Rightarrow> fee_state \<Rightarrow> (fee_state, fee_error, unit) outcome" where
  "update_activity e user s =
    (if \<not> has_admin s then Inl (fee_err NotInitialized) else
     if \<not> env_auth e user then Inl AuthTrap else
     Inr ((), write_last_active user (env_timestamp e) s))"

definition release_fees :: "'led xfer \<Rightarrow> admin_check \<Rightarrow> env \<Rightarrow> address \<Rightarrow> nat \<Rightarrow> fee_state \<times> 'led
    \<Rightarrow> (fee_state \<times> 'led, fee_error, int) outcome" where
  "release_fees xfer chk e admin cycle w = (case w of (s, l) \<Rightarrow>
     case require_admin chk e admin s of Inl t \<Rightarrow> Inl t | Inr cfg \<Rightarrow>
     case release_cycle_fees xfer e cycle (s, l) of Inl t \<Rightarrow> Inl t | Inr (released, s1, l1) \<Rightarrow>
     Inr (released, publish (FeeReleased cycle released (fc_treasury cfg)) s1, l1))"

definition rollover_fees :: "admin_check \<Rightarrow> env \<Rightarrow> address \<Rightarrow> nat \<Rightarrow> fee_state
    \<Rightarrow> (fee_state, fee_error, int) outcome" where
  "rollover_fees chk e admin next_cycle s =
    (case require_admin chk e admin s of Inl t \<Rightarrow> Inl t | Inr cfg \<Rightarrow>
     if next_cycle \<le> fc_cycle cfg then Inl (fee_err InvalidCycle) else
     case rollover_cycle_fees (fc_cycle cfg) next_cycle s of Inl t \<Rightarrow> Inl t | Inr (rolled, s1) \<Rightarrow>
     Inr (rolled, publish (FeeRolled (fc_cycle cfg) next_cycle rolled)
                    (s1\<lparr>fe_config := Some (cfg\<lparr>fc_cycle := next_cycle\<rparr>)\<rparr>)))"

definition set_lock :: "bool \<Rightarrow> admin_check \<Rightarrow> env \<Rightarrow> address \<Rightarrow> fee_state \<Rightarrow> (fee_state, fee_error, unit) outcome" where
  "set_lock b chk e admin s =
    (case require_admin chk e admin s of Inl t \<Rightarrow> Inl t | Inr cfg \<Rightarrow>
     Inr ((), publish (if b then FeeLocked else FeeUnlocked) (s\<lparr>fe_config := Some (cfg\<lparr>fc_locked := b\<rparr>)\<rparr>)))"

definition require_unlocked :: "fee_config \<Rightarrow> fee_error trap + unit" where
  "require_unlocked cfg = (if fc_locked cfg then Inl (fee_err Locked) else Inr ())"

definition set_fee_bps :: "admin_check \<Rightarrow> env \<Rightarrow> address \<Rightarrow> nat \<Rightarrow> fee_state \<Rightarrow> (fee_state, fee_error, unit) outcome" where
  "set_fee_bps chk e admin fee_bps s =
    (case require_admin chk e admin s of Inl t \<Rightarrow> Inl t | Inr cfg \<Rightarrow>
     case require_unlocked cfg of Inl t \<Rightarrow> Inl t | Inr _ \<Rightarrow>
     case validate_fee_percentage_bounds fee_bps of Inl t \<Rightarrow> Inl t | Inr _ \<Rightarrow>
     Inr ((), publish (FeeBpsUpdated fee_bps) (s\<lparr>fe_config := Some (cfg\<lparr>fc_bps := fee_bps\<rparr>)\<rparr>)))"

definition set_treasury :: "admin_check \<Rightarrow> env \<Rightarrow> address \<Rightarrow> address \<Rightarrow> fee_state \<Rightarrow> (fee_state, fee_error, unit) outcome" where
  "set_treasury chk e admin treasury s =
    (case require_admin chk e admin s of Inl t \<Rightarrow> Inl t | Inr cfg \<Rightarrow>
     case require_unlocked cfg of Inl t \<Rightarrow> Inl t | Inr _ \<Rightarrow>
     Inr ((), publish (TreasuryUpdated treasury) (s\<lparr>fe_config := Some (cfg\<lparr>fc_treasury := treasury\<rparr>)\<rparr>)))"

definition set_min_fee :: "admin_check \<Rightarrow> env \<Rightarrow> address \<Rightarrow> int \<Rightarrow> fee_state \<Rightarrow> (fee_state, fee_error, unit) outcome" where
  "set_min_fee chk e admin min_fee s =
    (case require_admin chk e admin s of Inl t \<Rightarrow> Inl t | Inr cfg \<Rightarrow>
     case require_unlocked cfg of Inl t \<Rightarrow> Inl t | Inr _ \<Rightarrow>
     case validate_min_fee_or_panic min_fee of Inl t \<Rightarrow> Inl t | Inr _ \<Rightarrow>
     Inr ((), publish (MinFeeUpdated min_fee) (s\<lparr>fe_config := Some (cfg\<lparr>fc_min := min_fee\<rparr>)\<rparr>)))"

definition set_max_fee :: "admin_check \<Rightarrow> env \<Rightarrow> address \<Rightarrow> int \<Rightarrow> fee_state \<Rightarrow> (fee_state, fee_error, unit) outcome" where
  "set_max_fee chk e admin max_fee s =
    (case require_admin chk e admin s of Inl t \<Rightarrow> Inl t | Inr cfg \<Rightarrow>
     case require_unlocked cfg of Inl t \<Rightarrow> Inl t | Inr _ \<Rightarrow>
     case validate_max_fee_or_panic max_fee (fc_min cfg) of Inl t \<Rightarrow> Inl t | Inr _ \<Rightarrow>
     Inr ((), s\<lparr>fe_config := Some (cfg\<lparr>fc_max := max_fee\<rparr>)\<rparr>))"

definition reset_fee_config :: "admin_check \<Rightarrow> env \<Rightarrow> address \<Rightarrow> fee_state \<Rightarrow> (fee_state, fee_error, unit) outcome" where
  "reset_fee_config chk e admin s =
    (case require_admin chk e admin s of Inl t \<Rightarrow> Inl t | Inr cfg \<Rightarrow>
     case require_unlocked cfg of Inl t \<Rightarrow> Inl t | Inr _ \<Rightarrow>
     Inr ((), publish (FeeReset admin)
       (s\<lparr>fe_config := Some (cfg\<lparr>fc_bps := DEFAULT_FEE_BPS, fc_min := DEFAULT_MIN_FEE\<rparr>)\<rparr>)))"

definition set_user_tier :: "admin_check \<Rightarrow> env \<Rightarrow> address \<Rightarrow> address \<Rightarrow> symbol \<Rightarrow> fee_state
    \<Rightarrow> (fee_state, fee_error, unit) outcome" where
  "set_user_tier chk e admin user tier s =
    (case require_admin chk e admin s of Inl t \<Rightarrow> Inl t | Inr _ \<Rightarrow>
     if \<not> is_valid_tier tier then Inl (fee_err InvalidConfig) else
     Inr ((), publish (TierSet admin user tier) (s\<lparr>fe_tier := (fe_tier s)(user \<mapsto> tier)\<rparr>)))"

definition remove_user_tier :: "admin_check \<Rightarrow> env \<Rightarrow> address \<Rightarrow> address \<Rightarrow> fee_state
    \<Rightarrow> (fee_state, fee_error, unit) outcome" where
  "remove_user_tier chk e admin user s =
    (case require_admin chk e admin s of Inl t \<Rightarrow> Inl t | Inr _ \<Rightarrow>
     Inr ((), publish (TierRemoved admin user) (s\<lparr>fe_tier := (fe_tier s)(user := None)\<rparr>)))"

definition calculate_fee_amount :: "int \<Rightarrow> nat \<Rightarrow> fee_error trap + int" where
  "calculate_fee_amount amount bps =
    (case compute_fee amount bps of Some fee \<Rightarrow> Inr fee | None \<Rightarrow> Inl (fee_err Overflow))"

definition validate_config :: "nat \<Rightarrow> int \<Rightarrow> fee_error trap + bool" where
  "validate_config fee_bps min_fee =
    (case validate_fee_percentage_bounds fee_bps of Inl t \<Rightarrow> Inl t | Inr _ \<Rightarrow>
     case validate_min_fee_or_panic min_fee of Inl t \<Rightarrow> Inl t | Inr _ \<Rightarrow> Inr True)"

definition reconcile_fees :: "admin_check \<Rightarrow> env \<Rightarrow> address \<Rightarrow> fee_state
    \<Rightarrow> (fee_state, fee_error, reconciliation_result) outcome" where
  "reconcile_fees chk e admin s =
    (case require_admin chk e admin s of Inl t \<Rightarrow> Inl t | Inr _ \<Rightarrow>
     case reconcile s of Inl t \<Rightarrow> Inl t | Inr r \<Rightarrow>
     Inr (r, publish (FeeReconciled (rr_stored r) (rr_calculated r)) s))"

definition reconcile_treasury :: "admin_check \<Rightarrow> env \<Rightarrow> address \<Rightarrow> fee_state
    \<Rightarrow> (fee_state, fee_error, reconciliation_result) outcome" where
  "reconcile_treasury chk e admin s =
    (if \<not> env_auth e admin then Inl AuthTrap else
     case require_admin chk e admin s of Inl t \<Rightarrow> Inl t | Inr _ \<Rightarrow>
     case reconcile s of Inl t \<Rightarrow> Inl t | Inr r \<Rightarrow>
     Inr (r, publish (TreasuryReconciled (rr_stored r) (rr_calculated r) (rr_discrepancy r) (rr_is_reconciled r)) s))"

fun preview_loop :: "int \<Rightarrow> int list \<Rightarrow> int \<Rightarrow> fee_error trap + int" where
  "preview_loop min_fee [] t = Inr t"
| "preview_loop min_fee (amount # amounts) t =
    (if amount < min_fee then Inl (fee_err InvalidAmount) else
     case checked_add t amount of None \<Rightarrow> Inl (fee_err Overflow) | Some t1 \<Rightarrow> preview_loop min_fee amounts t1)"

definition preview_batch_fee :: "int list \<Rightarrow> fee_state \<Rightarrow> fee_error trap + int" where
  "preview_batch_fee amounts s =
    (if length amounts = 0 then Inl (fee_err EmptyBatch) else
     case fe_config s of None \<Rightarrow> Inl PanicTrap | Some cfg \<Rightarrow> preview_loop (fc_min cfg) amounts 0)"

text \<open>The queries read a field of the configuration or the statistics, after \<open>require_initialized\<close>
  or with the default of an uninitialised contract.\<close>

definition query_config :: "(fee_config \<Rightarrow> 'a) \<Rightarrow> fee_state \<Rightarrow> fee_error trap + 'a" where
  "query_config f s = (case fe_config s of None \<Rightarrow> Inl (fee_err NotInitialized) | Some cfg \<Rightarrow> Inr (f cfg))"

definition get_fee_bps :: "fee_state \<Rightarrow> nat" where
  "get_fee_bps s = (case fe_config s of Some cfg \<Rightarrow> fc_bps cfg | None \<Rightarrow> DEFAULT_FEE_BPS)"

definition get_min_fee :: "fee_state \<Rightarrow> int" where
  "get_min_fee s = (case fe_config s of Some cfg \<Rightarrow> fc_min cfg | None \<Rightarrow> DEFAULT_MIN_FEE)"

definition get_max_fee :: "fee_state \<Rightarrow> int" where
  "get_max_fee s = (case fe_config s of Some cfg \<Rightarrow> fc_max cfg | None \<Rightarrow> DEFAULT_MAX_FEE)"

definition get_fee_balance :: "fee_state \<Rightarrow> int" where
  "get_fee_balance s = fs_escrow (read_stats s)"

definition query_stats :: "(fee_stats \<Rightarrow> 'a) \<Rightarrow> fee_state \<Rightarrow> fee_error trap + 'a" where
  "query_stats f s = (if \<not> has_admin s then Inl (fee_err NotInitialized) else Inr (f (read_stats s)))"

definition get_pending_fees :: "nat \<Rightarrow> fee_state \<Rightarrow> fee_error trap + int" where
  "get_pending_fees cycle s =
    (if \<not> has_admin s then Inl (fee_err NotInitialized) else Inr (read_pending_fees s cycle))"

definition get_last_active :: "address \<Rightarrow> fee_state \<Rightarrow> fee_error trap + nat" where
  "get_last_active user s =
    (if \<not> has_admin s then Inl (fee_err NotInitialized) else Inr (read_last_active s user))"

definition get_user_tier :: "address \<Rightarrow> fee_state \<Rightarrow> symbol option" where
  "get_user_tier user s = fe_tier s user"

definition get_reconciliation_status :: "fee_state \<Rightarrow> fee_error trap + reconciliation_result" where
  "get_reconciliation_status s = (if \<not> has_admin s then Inl (fee_err NotInitialized) else reconcile s)"

section \<open>The contract\<close>

datatype fee_call =
    CInitialize address address address nat nat
  | CInit address address address
  | CCollect address int
  | CCollectBatch address "int list"
  | CUpdateActivity address
  | CRelease address nat
  | CRollover address nat
  | CLock address
  | CUnlock address
  | CSetBps address nat
  | CSetTreasury address address
  | CSetMin address int
  | CSetMax address int
  | CReset address
  | CSetTier address address symbol
  | CRemoveTier address address
  | CReconcile address
  | CReconcileTreasury address

definition on_state :: "(fee_state, fee_error, 'a) outcome \<Rightarrow> 'led \<Rightarrow> fee_error trap + (fee_state \<times> 'led)" where
  "on_state r l = (case r of Inl t \<Rightarrow> Inl t | Inr (_, s) \<Rightarrow> Inr (s, l))"

fun fee_exec :: "'led xfer \<Rightarrow> admin_check \<Rightarrow> env \<times> fee_call \<Rightarrow> fee_state \<times> 'led
    \<Rightarrow> fee_error trap + (fee_state \<times> 'led)" where
  "fee_exec xfer chk (e, CInitialize a t y b c) (s, l) = on_state (initialize a t y b c s) l"
| "fee_exec xfer chk (e, CInit a t y) (s, l) = on_state (init a t y s) l"
| "fee_exec xfer chk (e, CCollect p n) w = final (collect_fee xfer e p n w)"
| "fee_exec xfer chk (e, CCollectBatch p ns) w = final (collect_fee_batch xfer e p ns w)"
| "fee_exec xfer chk (e, CUpdateActivity u) (s, l) = on_state (update_activity e u s) l"
| "fee_exec xfer chk (e, CRelease a c) w = final (release_fees xfer chk e a c w)"
| "fee_exec xfer chk (e, CRollover a c) (s, l) = on_state (rollover_fees chk e a c s) l"
| "fee_exec xfer chk (e, CLock a) (s, l) = on_state (set_lock True chk e a s) l"
| "fee_exec xfer chk (e, CUnlock a) (s, l) = on_state (set_lock False chk e a s) l"
| "fee_exec xfer chk (e, CSetBps a b) (s, l) = on_state (set_fee_bps chk e a b s) l"
| "fee_exec xfer chk (e, CSetTreasury a t) (s, l) = on_state (set_treasury chk e a t s) l"
| "fee_exec xfer chk (e, CSetMin a m) (s, l) = on_state (set_min_fee chk e a m s) l"
| "fee_exec xfer chk (e, CSetMax a m) (s, l) = on_state (set_max_fee chk e a m s) l"
| "fee_exec xfer chk (e, CReset a) (s, l) = on_state (reset_fee_config chk e a s) l"
| "fee_exec xfer chk (e, CSetTier a u t) (s, l) = on_state (set_user_tier chk e a u t s) l"
| "fee_exec xfer chk (e, CRemoveTier a u) (s, l) = on_state (remove_user_tier chk e a u s) l"
| "fee_exec xfer chk (e, CReconcile a) (s, l) = on_state (reconcile_fees chk e a s) l"
| "fee_exec xfer chk (e, CReconcileTreasury a) (s, l) = on_state (reconcile_treasury chk e a s) l"

section \<open>What the bookkeeping functions do\<close>

lemma publish_frame [simp]:
  "fe_config (publish ev s) = fe_config s" "fe_stats (publish ev s) = fe_stats s"
  "fe_pending (publish ev s) = fe_pending s" "fe_activity (publish ev s) = fe_activity s"
  "fe_tier (publish ev s) = fe_tier s" "read_stats (publish ev s) = read_stats s"
  by (simp_all add: publish_def read_stats_def)

lemma write_last_active_frame [simp]:
  "fe_config (write_last_active u n s) = fe_config s" "fe_stats (write_last_active u n s) = fe_stats s"
  "fe_pending (write_last_active u n s) = fe_pending s" "fe_tier (write_last_active u n s) = fe_tier s"
  "read_stats (write_last_active u n s) = read_stats s"
  "read_last_active (write_last_active u n s) = (read_last_active s)(u := n)"
  by (simp_all add: write_last_active_def read_stats_def read_last_active_def fun_eq_iff)

lemma book_received_Inr:
  "book_received c n s = Inr (p, s') \<longleftrightarrow>
    p = read_pending_fees s c + n \<and> in_i128 p \<and> in_i128 (fs_escrow (read_stats s) + n)
    \<and> in_i128 (fs_collected (read_stats s) + n)
    \<and> s' = s\<lparr>fe_pending := (fe_pending s)(c \<mapsto> p),
             fe_stats := Some ((read_stats s)\<lparr>fs_escrow := fs_escrow (read_stats s) + n,
                                            fs_collected := fs_collected (read_stats s) + n\<rparr>)\<rparr>"
  by (auto simp: book_received_def add_pending_fees_def add_escrow_balance_def add_total_collected_def
      read_stats_def checked_add_def split: option.splits if_splits)

lemma collect_to_escrow_Inr:
  "collect_to_escrow xfer e payer n (s, l) = Inr (p, s', l') \<longleftrightarrow>
    (\<exists>cfg. fe_config s = Some cfg \<and> 0 < n \<and> fc_min cfg \<le> n
      \<and> xfer e (fc_token cfg) payer (env_self e) n l = Some l'
      \<and> book_received (fc_cycle cfg) n s = Inr (p, s'))"
  by (auto simp: collect_to_escrow_def require_positive_amount_def validate_amount_def
      split: option.splits sum.splits if_splits)

lemma batch_total_Inr:
  "batch_total m ns t = Inr t' \<Longrightarrow> t' = t + sum_list ns \<and> (\<forall>n \<in> set ns. 0 < n \<and> m \<le> n)"
proof (induction ns arbitrary: t)
  case (Cons a ns)
  from Cons.prems show ?case
    using Cons.IH [of "t + a"]
    by (auto simp: require_positive_amount_def validate_amount_def split: option.splits sum.splits if_splits)
qed simp

lemma decay_amounts_Inr:
  "decay_amounts la now ns t ds = Inr (t', ds') \<Longrightarrow>
    t' = t + sum_list ns \<and> ds' = ds @ map (\<lambda>n. calculate_fee_decay n la now) ns \<and> (\<forall>n \<in> set ns. 0 < n)"
proof (induction ns arbitrary: t ds)
  case (Cons a ns)
  from Cons.prems show ?case
    using Cons.IH [of "t + a" "ds @ [calculate_fee_decay a la now]"]
    by (auto simp: validate_amount_positive_or_panic_def split: option.splits sum.splits if_splits)
qed simp

lemma collect_batch_Inr:
  assumes "collect_batch_to_escrow xfer e payer ns (s, l) = Inr (r, s', l')"
  shows "\<exists>cfg p s1. fe_config s = Some cfg \<and> (\<forall>n \<in> set ns. 0 < n \<and> fc_min cfg \<le> n)
      \<and> xfer e (fc_token cfg) payer (env_self e) (sum_list ns) l = Some l'
      \<and> book_received (fc_cycle cfg) (sum_list ns) s = Inr (p, s1)
      \<and> s' = s1\<lparr>fe_stats := Some ((read_stats s1)\<lparr>fs_batch_calls := fs_batch_calls (read_stats s1) + 1\<rparr>)\<rparr>
      \<and> r = \<lparr>bf_batch_size = length ns, bf_total_amount = sum_list ns, bf_cycle = fc_cycle cfg, bf_pending_fees = p\<rparr>"
  using assms
  by (auto simp: collect_batch_to_escrow_def add_batch_call_def dest!: batch_total_Inr
      split: option.splits sum.splits if_splits)

lemma release_cycle_Inr:
  "release_cycle_fees xfer e c (s, l) = Inr (p, s', l') \<longleftrightarrow>
    p = read_pending_fees s c \<and> 0 < p \<and>
    (\<exists>cfg. fe_config s = Some cfg \<and> xfer e (fc_token cfg) (env_self e) (fc_treasury cfg) p l = Some l')
    \<and> in_i128 (fs_escrow (read_stats s) - p) \<and> in_i128 (fs_released (read_stats s) + p)
    \<and> s' = s\<lparr>fe_pending := (fe_pending s)(c \<mapsto> 0),
             fe_stats := Some ((read_stats s)\<lparr>fs_escrow := fs_escrow (read_stats s) - p,
                                            fs_released := fs_released (read_stats s) + p\<rparr>)\<rparr>"
  by (auto simp: release_cycle_fees_def sub_escrow_balance_def add_total_released_def clear_pending_fees_def
      read_stats_def checked_add_def checked_sub_def Let_def split: option.splits if_splits)

section \<open>The books\<close>

text \<open>\<open>fee_books\<close>: the escrow balance is the sum of the pending fees of all cycles and equals what was
  collected minus what was released; before initialisation there is nothing.\<close>

definition fee_books :: "fee_state \<Rightarrow> bool" where
  "fee_books s \<longleftrightarrow> finite (dom (fe_pending s)) \<and> (\<forall>c v. fe_pending s c = Some v \<longrightarrow> 0 \<le> v)
    \<and> fs_escrow (read_stats s) = total_over id (fe_pending s)
    \<and> fs_escrow (read_stats s) = fs_collected (read_stats s) - fs_released (read_stats s)
    \<and> 0 \<le> fs_released (read_stats s) \<and> fs_collected (read_stats s) \<le> i128_max
    \<and> (fe_config s = None \<longrightarrow> fe_pending s = Map.empty)"

lemma opt_weight_pending: "opt_weight id (fe_pending s c) = read_pending_fees s c"
  by (cases "fe_pending s c") (simp_all add: read_pending_fees_def)

lemma pending_nonneg: "fee_books s \<Longrightarrow> 0 \<le> read_pending_fees s c"
  by (cases "fe_pending s c") (auto simp: fee_books_def read_pending_fees_def)

lemma fee_books_fresh: "fee_books fee_fresh"
  by (simp add: fee_books_def fee_fresh_def read_stats_def)

lemma fee_books_same:
  "fe_pending s' = fe_pending s \<Longrightarrow> fe_stats s' = fe_stats s \<Longrightarrow> (fe_config s' = None \<longrightarrow> fe_config s = None)
    \<Longrightarrow> fee_books s \<Longrightarrow> fee_books s'"
  by (simp add: fee_books_def read_stats_def)

lemma book_received_books:
  assumes "book_received c n s = Inr (p, s')" and "0 \<le> n" and "fee_books s" and "fe_config s \<noteq> None"
  shows "fee_books s' \<and> fs_escrow (read_stats s') = fs_escrow (read_stats s) + n \<and> fe_config s' = fe_config s"
  using assms pending_nonneg [OF assms(3), of c]
  by (auto simp: book_received_Inr fee_books_def total_over_update opt_weight_pending read_stats_def in_i128_def)

lemma release_cycle_books:
  assumes "release_cycle_fees xfer e c (s, l) = Inr (p, s', l')" and "fee_books s"
  shows "fee_books s' \<and> fs_escrow (read_stats s') = fs_escrow (read_stats s) - p \<and> fe_config s' = fe_config s"
  using assms
  by (auto simp: release_cycle_Inr fee_books_def total_over_update opt_weight_pending read_stats_def)

lemma rollover_books:
  assumes "rollover_cycle_fees c d s = Inr (p, s')" and "fee_books s" and "c \<noteq> d" and "fe_config s \<noteq> None"
  shows "fee_books s' \<and> fe_stats s' = fe_stats s \<and> fe_config s' = fe_config s"
  using assms pending_nonneg [OF assms(2), of c] pending_nonneg [OF assms(2), of d]
  by (auto simp: rollover_cycle_fees_def add_pending_fees_def clear_pending_fees_def Let_def fee_books_def
      total_over_update opt_weight_pending read_stats_def read_pending_fees_def
      split: option.splits if_splits)

section \<open>What the entry points do\<close>

lemma require_admin_Inr_fee:
  "require_admin chk e a s = Inr cfg \<longleftrightarrow> fe_config s = Some cfg \<and> chk e a (fc_admin cfg) (FeeErr Unauthorized) = Inr ()"
  by (auto simp: require_admin_def split: option.splits sum.splits)

lemma collect_fee_Inr:
  assumes "collect_fee xfer e payer n (s, l) = Inr (p, s', l')"
  shows "env_auth e payer \<and> 0 < n
    \<and> (\<exists>s1. collect_to_escrow xfer e payer (calculate_fee_decay n (read_last_active s payer) (env_timestamp e)) (s, l)
         = Inr (p, s1, l')
       \<and> fe_config s' = fe_config s1 \<and> fe_stats s' = fe_stats s1 \<and> fe_pending s' = fe_pending s1
       \<and> fe_tier s' = fe_tier s1 \<and> fe_activity s' = (fe_activity s1)(payer \<mapsto> env_timestamp e))"
  using assms
  by (auto simp: collect_fee_def validate_amount_positive_or_panic_def Let_def write_last_active_def
      split: if_splits sum.splits option.splits)

lemma collect_fee_batch_Inr:
  assumes "collect_fee_batch xfer e payer ns (s, l) = Inr (r, s', l')"
  shows "env_auth e payer \<and> ns \<noteq> [] \<and> length ns \<le> MAX_BATCH_SIZE \<and> (\<forall>n \<in> set ns. 0 < n)
    \<and> (\<exists>s1. collect_batch_to_escrow xfer e payer
           (map (\<lambda>n. calculate_fee_decay n (read_last_active s payer) (env_timestamp e)) ns) (s, l) = Inr (r, s1, l')
       \<and> fe_config s' = fe_config s1 \<and> fe_stats s' = fe_stats s1 \<and> fe_pending s' = fe_pending s1)"
  using assms
  by (auto simp: collect_fee_batch_def Let_def dest!: decay_amounts_Inr split: if_splits sum.splits)

lemma collect_to_escrow_books:
  assumes "collect_to_escrow xfer e payer n (s, l) = Inr (p, s', l')" and "fee_books s"
  shows "fee_books s' \<and> fs_escrow (read_stats s') = fs_escrow (read_stats s) + n \<and> fe_config s' = fe_config s"
proof -
  obtain cfg where cfg: "fe_config s = Some cfg" and n: "0 < n" and b: "book_received (fc_cycle cfg) n s = Inr (p, s')"
    using assms(1) by (auto simp: collect_to_escrow_Inr)
  show ?thesis using book_received_books [OF b _ assms(2)] cfg n by simp
qed

lemma sum_list_pos_nonneg: "(\<forall>n \<in> set ns. (0::int) < n) \<Longrightarrow> 0 \<le> sum_list ns"
  by (rule sum_list_nonneg) auto

lemma collect_batch_books:
  assumes "collect_batch_to_escrow xfer e payer ns (s, l) = Inr (r, s', l')" and "fee_books s"
  shows "fee_books s' \<and> fs_escrow (read_stats s') = fs_escrow (read_stats s) + sum_list ns \<and> fe_config s' = fe_config s"
proof -
  obtain cfg p s1 where cfg: "fe_config s = Some cfg" and pos: "\<forall>n \<in> set ns. 0 < n"
    and b: "book_received (fc_cycle cfg) (sum_list ns) s = Inr (p, s1)"
    and s': "s' = s1\<lparr>fe_stats := Some ((read_stats s1)\<lparr>fs_batch_calls := fs_batch_calls (read_stats s1) + 1\<rparr>)\<rparr>"
    using collect_batch_Inr [OF assms(1)] by blast
  have "fee_books s1 \<and> fs_escrow (read_stats s1) = fs_escrow (read_stats s) + sum_list ns \<and> fe_config s1 = fe_config s"
    using book_received_books [OF b sum_list_pos_nonneg [OF pos] assms(2)] cfg by simp
  then show ?thesis by (simp add: s' fee_books_def read_stats_def)
qed

lemma same_activity_books:
  "fe_config s' = fe_config s1 \<Longrightarrow> fe_stats s' = fe_stats s1 \<Longrightarrow> fe_pending s' = fe_pending s1
    \<Longrightarrow> fee_books s' = fee_books s1 \<and> read_stats s' = read_stats s1"
  by (simp add: fee_books_def read_stats_def)

lemma collect_fee_books:
  assumes "collect_fee xfer e payer n (s, l) = Inr (p, s', l')" and "fee_books s"
  shows "fee_books s' \<and> fs_escrow (read_stats s')
      = fs_escrow (read_stats s) + calculate_fee_decay n (read_last_active s payer) (env_timestamp e)
    \<and> fe_config s' = fe_config s"
  using collect_fee_Inr [OF assms(1)] collect_to_escrow_books [OF _ assms(2)] same_activity_books by metis

lemma collect_fee_batch_books:
  assumes "collect_fee_batch xfer e payer ns (s, l) = Inr (r, s', l')" and "fee_books s"
  shows "fee_books s' \<and> fs_escrow (read_stats s') = fs_escrow (read_stats s)
      + sum_list (map (\<lambda>n. calculate_fee_decay n (read_last_active s payer) (env_timestamp e)) ns)
    \<and> fe_config s' = fe_config s"
  using collect_fee_batch_Inr [OF assms(1)] collect_batch_books [OF _ assms(2)] same_activity_books by metis

lemma release_fees_Inr:
  "release_fees xfer chk e a c (s, l) = Inr (p, s', l') \<Longrightarrow>
    \<exists>s1 ev. release_cycle_fees xfer e c (s, l) = Inr (p, s1, l') \<and> s' = publish ev s1"
  by (auto simp: release_fees_def split: sum.splits)

lemma rollover_fees_Inr:
  "rollover_fees chk e a d s = Inr (p, s') \<Longrightarrow>
    \<exists>cfg s1 ev. fe_config s = Some cfg \<and> fc_cycle cfg < d \<and> rollover_cycle_fees (fc_cycle cfg) d s = Inr (p, s1)
      \<and> s' = publish ev (s1\<lparr>fe_config := Some (cfg\<lparr>fc_cycle := d\<rparr>)\<rparr>)"
  by (auto simp: rollover_fees_def require_admin_Inr_fee split: sum.splits if_splits)

text \<open>Every other call leaves pending fees and statistics alone.\<close>

lemmas fee_config_defs = update_activity_def set_lock_def set_fee_bps_def set_treasury_def set_min_fee_def
  set_max_fee_def reset_fee_config_def set_user_tier_def remove_user_tier_def reconcile_fees_def
  reconcile_treasury_def

definition quiet_call :: "fee_call \<Rightarrow> bool" where
  "quiet_call call \<longleftrightarrow> (case call of CCollect _ _ \<Rightarrow> False | CCollectBatch _ _ \<Rightarrow> False | CRelease _ _ \<Rightarrow> False
     | CRollover _ _ \<Rightarrow> False | CInitialize _ _ _ _ _ \<Rightarrow> False | CInit _ _ _ \<Rightarrow> False | _ \<Rightarrow> True)"

lemma other_fee_calls:
  assumes "fee_exec xfer chk (e, call) (s, l) = Inr (s', l')" and "quiet_call call"
  shows "l' = l \<and> fe_pending s' = fe_pending s \<and> fe_stats s' = fe_stats s
    \<and> (\<exists>cfg cfg'. fe_config s = Some cfg \<and> fe_config s' = Some cfg' \<and> fc_token cfg' = fc_token cfg
         \<and> (fc_treasury cfg' = fc_treasury cfg \<or> (\<exists>a. call = CSetTreasury a (fc_treasury cfg'))))"
  using assms
  by (cases call) (auto simp: quiet_call_def fee_config_defs on_state_def has_admin_def require_admin_Inr_fee write_last_active_def
      split: if_splits option.splits sum.splits)

lemma fee_initialize_books:
  "initialize a t y b c s = Inr (u, s') \<Longrightarrow> fee_books s \<Longrightarrow> fee_books s' \<and> fs_escrow (read_stats s') = 0
    \<and> (\<exists>cfg. fe_config s' = Some cfg \<and> fc_token cfg = t \<and> fc_treasury cfg = y)"
  by (auto simp: initialize_def has_admin_def fee_books_def read_stats_def split: if_splits sum.splits)

lemma fee_exec_books:
  assumes "fee_exec xfer chk (e, call) (s, l) = Inr (s', l')" and "fee_books s"
  shows "fee_books s'"
proof (cases call)
  case (CInitialize a t y b c)
  with assms show ?thesis by (auto simp: on_state_def split: sum.splits dest: fee_initialize_books)
next
  case (CInit a t y)
  with assms show ?thesis by (auto simp: on_state_def init_def split: sum.splits dest: fee_initialize_books)
next
  case (CCollect p n)
  with assms show ?thesis by (auto dest: collect_fee_books)
next
  case (CCollectBatch p ns)
  with assms show ?thesis by (auto dest: collect_fee_batch_books)
next
  case (CRelease a c)
  with assms obtain p s1 ev where "release_cycle_fees xfer e c (s, l) = Inr (p, s1, l')" "s' = publish ev s1"
    by (auto dest: release_fees_Inr)
  with release_cycle_books [OF this(1) assms(2)] show ?thesis by (simp add: fee_books_def read_stats_def)
next
  case (CRollover a d)
  with assms obtain p where "rollover_fees chk e a d s = Inr (p, s')"
    by (auto simp: on_state_def split: sum.splits)
  then obtain cfg s1 ev where r: "rollover_cycle_fees (fc_cycle cfg) d s = Inr (p, s1)" "fe_config s = Some cfg"
      "fc_cycle cfg < d" and s': "s' = publish ev (s1\<lparr>fe_config := Some (cfg\<lparr>fc_cycle := d\<rparr>)\<rparr>)"
    by (auto dest: rollover_fees_Inr)
  have "fee_books s1" using rollover_books [OF r(1) assms(2)] r by simp
  then show ?thesis by (simp add: s' fee_books_def read_stats_def)
qed (use other_fee_calls [OF assms(1)] assms(2) fee_books_same [of s' s] in \<open>auto simp: quiet_call_def\<close>)

interpretation fee_machine:
  contract_invariant "fee_exec xfer chk" "\<lambda>w. fee_books (fst w)" "\<lambda>_. True" for xfer :: "'led xfer" and chk
proof unfold_locales
  fix w w' :: "fee_state \<times> 'led" and ec
  assume "fee_books (fst w)" and "fee_exec xfer chk ec w = Inr w'"
  then show "fee_books (fst w')"
    by (cases ec; cases w; cases w') (auto dest: fee_exec_books)
qed

section \<open>Solvency\<close>

definition fee_sound :: "('led \<Rightarrow> address \<Rightarrow> address \<Rightarrow> int) \<Rightarrow> address \<Rightarrow> fee_state \<times> 'led \<Rightarrow> bool" where
  "fee_sound bal c w \<longleftrightarrow> fee_books (fst w) \<and> (\<forall>t. 0 \<le> bal (snd w) t c)
    \<and> (\<forall>cfg. fe_config (fst w) = Some cfg \<longrightarrow>
         fc_treasury cfg \<noteq> c \<and> fs_escrow (read_stats (fst w)) \<le> bal (snd w) (fc_token cfg) c)"

text \<open>The fee contract itself neither pays fees nor is its own treasury.\<close>

definition careful_fee :: "address \<Rightarrow> env \<times> fee_call \<Rightarrow> bool" where
  "careful_fee c ec \<longleftrightarrow> env_self (fst ec) = c \<and> (case snd ec of
      CCollect p _ \<Rightarrow> p \<noteq> c | CCollectBatch p _ \<Rightarrow> p \<noteq> c
    | CInitialize _ _ y _ _ \<Rightarrow> y \<noteq> c | CInit _ _ y \<Rightarrow> y \<noteq> c | CSetTreasury _ y \<Rightarrow> y \<noteq> c | _ \<Rightarrow> True)"

lemma received_sound:
  assumes client: "token_client xfer bal" and sound: "fee_sound bal c (s, l)" and cfg: "fe_config s = Some cfg"
    and tr: "xfer e (fc_token cfg) payer c n l = Some l'" and p: "payer \<noteq> c" and books: "fee_books s'"
    and grown: "fs_escrow (read_stats s') = fs_escrow (read_stats s) + n" and same: "fe_config s' = fe_config s"
  shows "fee_sound bal c (s', l')"
proof -
  have n: "0 \<le> n" using token_client.xfer_covered [OF client tr] by simp
  have "bal l' t c = bal l t c + (if t = fc_token cfg then n else 0)" for t
    using token_client.xfer_balance [OF client tr p, of t c] p by simp
  then show ?thesis using sound books grown same cfg n by (auto simp: fee_sound_def)
qed

lemma collect_fee_sound:
  assumes "token_client xfer bal" and "fee_sound bal (env_self e) (s, l)" and "payer \<noteq> env_self e"
    and call: "collect_fee xfer e payer n (s, l) = Inr (p, s', l')"
  shows "fee_sound bal (env_self e) (s', l')"
proof -
  let ?d = "calculate_fee_decay n (read_last_active s payer) (env_timestamp e)"
  obtain s1 cfg where cfg: "fe_config s = Some cfg" and tr: "xfer e (fc_token cfg) payer (env_self e) ?d l = Some l'"
    using collect_fee_Inr [OF call] by (auto simp: collect_to_escrow_Inr)
  show ?thesis
    using collect_fee_books [OF call] assms(2)
    by (intro received_sound [OF assms(1,2) cfg tr assms(3)]) (auto simp: fee_sound_def)
qed

lemma collect_fee_batch_sound:
  assumes "token_client xfer bal" and "fee_sound bal (env_self e) (s, l)" and "payer \<noteq> env_self e"
    and call: "collect_fee_batch xfer e payer ns (s, l) = Inr (r, s', l')"
  shows "fee_sound bal (env_self e) (s', l')"
proof -
  let ?ds = "map (\<lambda>n. calculate_fee_decay n (read_last_active s payer) (env_timestamp e)) ns"
  obtain s1 where "collect_batch_to_escrow xfer e payer ?ds (s, l) = Inr (r, s1, l')"
    using collect_fee_batch_Inr [OF call] by blast
  then obtain cfg where cfg: "fe_config s = Some cfg"
    and tr: "xfer e (fc_token cfg) payer (env_self e) (sum_list ?ds) l = Some l'"
    by (auto dest: collect_batch_Inr)
  show ?thesis
    using collect_fee_batch_books [OF call] assms(2)
    by (intro received_sound [OF assms(1,2) cfg tr assms(3)]) (auto simp: fee_sound_def)
qed

lemma release_fees_sound:
  assumes client: "token_client xfer bal" and sound: "fee_sound bal (env_self e) (s, l)"
    and call: "release_fees xfer chk e a c (s, l) = Inr (p, s', l')"
  shows "fee_sound bal (env_self e) (s', l')"
proof -
  obtain s1 ev where r: "release_cycle_fees xfer e c (s, l) = Inr (p, s1, l')" and s': "s' = publish ev s1"
    using release_fees_Inr [OF call] by blast
  then obtain cfg where cfg: "fe_config s = Some cfg"
    and tr: "xfer e (fc_token cfg) (env_self e) (fc_treasury cfg) p l = Some l'"
    by (auto simp: release_cycle_Inr)
  have books: "fee_books s" using sound by (simp add: fee_sound_def)
  have ne: "env_self e \<noteq> fc_treasury cfg" using sound cfg by (auto simp: fee_sound_def)
  have bal': "bal l' t (env_self e) = bal l t (env_self e) - (if t = fc_token cfg then p else 0)" for t
    using token_client.xfer_balance [OF client tr ne, of t "env_self e"] ne by simp
  have cov: "p \<le> bal l (fc_token cfg) (env_self e)" using token_client.xfer_covered [OF client tr] by simp
  show ?thesis
    using release_cycle_books [OF r books] sound cfg cov
    by (auto simp: fee_sound_def s' bal' same_activity_books [of "publish ev s1" s1])
qed

lemma fee_exec_sound:
  assumes "token_client xfer bal" and "fee_sound bal c w" and "careful_fee c ec" and "fee_exec xfer chk ec w = Inr w'"
  shows "fee_sound bal c w'"
proof -
  obtain e call s l s' l' where eq: "ec = (e, call)" "w = (s, l)" "w' = (s', l')"
    by (cases ec; cases w; cases w')
  with assms(3) have c: "env_self e = c" by (simp add: careful_fee_def)
  note run = assms(4) [unfolded eq]
  have sound: "fee_sound bal (env_self e) (s, l)" using assms(2) eq c by simp
  have books: "fee_books s'" using fee_exec_books [OF run] sound by (simp add: fee_sound_def)
  show ?thesis
    unfolding eq c [symmetric]
  proof (cases call)
    case (CCollect p n)
    with run assms(1,3) sound eq c show "fee_sound bal (env_self e) (s', l')"
      by (auto simp: careful_fee_def intro: collect_fee_sound)
  next
    case (CCollectBatch p ns)
    with run assms(1,3) sound eq c show "fee_sound bal (env_self e) (s', l')"
      by (auto simp: careful_fee_def intro: collect_fee_batch_sound)
  next
    case (CRelease a cy)
    with run assms(1) sound show "fee_sound bal (env_self e) (s', l')" by (auto intro: release_fees_sound)
  next
    case (CRollover a d)
    with run obtain p where l: "l' = l" and "rollover_fees chk e a d s = Inr (p, s')"
      by (auto simp: on_state_def split: sum.splits)
    then obtain cfg s1 ev where r: "rollover_cycle_fees (fc_cycle cfg) d s = Inr (p, s1)" "fe_config s = Some cfg"
        "fc_cycle cfg < d" and s': "s' = publish ev (s1\<lparr>fe_config := Some (cfg\<lparr>fc_cycle := d\<rparr>)\<rparr>)"
      by (auto dest: rollover_fees_Inr)
    have "fe_stats s1 = fe_stats s" using rollover_books [OF r(1)] r sound by (simp add: fee_sound_def)
    with sound r books show "fee_sound bal (env_self e) (s', l')"
      by (simp add: fee_sound_def s' l read_stats_def)
  next
    case (CInitialize a t y b cy)
    with run sound assms(3) eq c show "fee_sound bal (env_self e) (s', l')"
      using fee_initialize_books [of a t y b cy s "()" s']
      by (auto simp: fee_sound_def careful_fee_def on_state_def split: sum.splits)
  next
    case (CInit a t y)
    with run sound assms(3) eq c show "fee_sound bal (env_self e) (s', l')"
      using fee_initialize_books [of a t y 300 1 s "()" s']
      by (auto simp: fee_sound_def careful_fee_def on_state_def init_def split: sum.splits)
  qed (use other_fee_calls [OF run] sound books assms(3) eq c in
      \<open>auto simp: quiet_call_def fee_sound_def careful_fee_def read_stats_def\<close>)
qed

interpretation fee_on_token:
  contract_invariant "fee_exec token_xfer chk" "fee_sound token_bal c" "careful_fee c" for chk c
  by unfold_locales (rule fee_exec_sound [OF token_ledger.token_client_axioms])

lemma decay_value:
  assumes "0 < n" and "in_i128 n" and "in_u64 now"
  shows "calculate_fee_decay n since now = (if now \<le> since then n else max 10 (n - int (now - since)))"
proof (cases "now \<le> since")
  case True
  then show ?thesis by (simp add: calculate_fee_decay_def)
next
  case False
  then obtain t where t: "now = since + t" and "0 < t" by (metis less_imp_add_positive not_le)
  with assms(3) have "int t \<le> 18446744073709551615" by (simp add: in_u64_def)
  with assms(1,2) have "in_i128 (int t)" "in_i128 (n - int t)" by (auto simp: in_i128_def)
  with \<open>0 < t\<close> show ?thesis
    by (simp add: t calculate_fee_decay_def Let_def DECAY_RATE_def MIN_FEE_def checked_mul_def checked_sub_def)
qed

lemma books_reconcile:
  assumes "fee_books s"
  shows "reconcile s = Inr \<lparr>rr_stored = fs_escrow (read_stats s), rr_calculated = fs_escrow (read_stats s),
    rr_discrepancy = 0, rr_is_reconciled = True\<rparr>"
proof -
  have "0 \<le> fs_escrow (read_stats s)"
    using assms by (auto simp: fee_books_def intro!: total_over_nonneg)
  then have "in_i128 (fs_collected (read_stats s) - fs_released (read_stats s))"
    and "fs_escrow (read_stats s) = fs_collected (read_stats s) - fs_released (read_stats s)"
    using assms by (simp_all add: fee_books_def in_i128_def)
  then show ?thesis by (simp add: reconcile_def Let_def checked_sub_def)
qed

section \<open>Properties\<close>

text \<open>C5: The fee accounts always reconcile.  After any sequence of calls, \<open>reconcile\<close> returns without an
  arithmetic trap and finds no discrepancy, and the stored escrow balance is the sum of the pending
  fees of all cycles, none of which is negative.\<close>

theorem fee_always_reconciled:
  "let s = fst (run (fee_exec xfer chk) cs (fee_fresh, l)) in
     \<exists>r. reconcile s = Inr r \<and> rr_is_reconciled r \<and> rr_discrepancy r = 0
       \<and> rr_stored r = total_over id (fe_pending s) \<and> rr_stored r = get_fee_balance s
       \<and> (\<forall>c. 0 \<le> read_pending_fees s c)"
proof -
  let ?w = "run (fee_exec xfer chk) cs (fee_fresh, l)"
  have b: "fee_books (fst ?w)"
    by (rule fee_machine.run_inv) (simp_all add: fee_books_fresh)
  then show ?thesis
    using books_reconcile [OF b] pending_nonneg [OF b]
    by (simp add: Let_def fee_books_def get_fee_balance_def)
qed

text \<open>The fee contract stays solvent.  As long as it is neither a payer nor its own treasury, its
  token balance covers the recorded escrow balance after any sequence of calls, so every pending
  cycle can be released.\<close>

theorem fee_solvent:
  assumes "token_client xfer bal" and "\<And>t. 0 \<le> bal l t c" and "\<And>ec. ec \<in> set cs \<Longrightarrow> careful_fee c ec"
    and "run (fee_exec xfer chk) cs (fee_fresh, l) = (s, l')" and "fe_config s = Some cfg"
  shows "get_fee_balance s \<le> bal l' (fc_token cfg) c \<and> read_pending_fees s k \<le> bal l' (fc_token cfg) c"
proof -
  have "contract_invariant (fee_exec xfer chk) (fee_sound bal c) (careful_fee c)"
    by unfold_locales (rule fee_exec_sound [OF assms(1)])
  moreover have "fee_sound bal c (fee_fresh, l)"
    using assms(2) fee_books_fresh by (simp add: fee_sound_def) (simp add: fee_fresh_def)
  ultimately have sound: "fee_sound bal c (s, l')"
    using contract_invariant.run_inv [of "fee_exec xfer chk" "fee_sound bal c" "careful_fee c" "(fee_fresh, l)" cs]
      assms(3,4) by simp
  then have books: "fee_books s" by (simp add: fee_sound_def)
  have "read_pending_fees s k \<le> fs_escrow (read_stats s)"
  proof (cases "fe_pending s k")
    case None
    then show ?thesis
      using books by (auto simp: read_pending_fees_def fee_books_def intro!: total_over_nonneg)
  next
    case (Some v)
    have "id v \<le> total_over id (fe_pending s)"
      using total_over_member_le [of "fe_pending s" id k v] Some books by (auto simp: fee_books_def)
    with Some books show ?thesis by (simp add: read_pending_fees_def fee_books_def)
  qed
  with sound assms(5) show ?thesis by (simp add: fee_sound_def get_fee_balance_def)
qed

definition signature_check :: admin_check where
  "signature_check e a admin err =
    (if \<not> env_auth e a then Inl AuthTrap else if a \<noteq> admin then Inl (ContractError err) else Inr ())"

lemma signature_check_ok: "admin_check signature_check"
  by (simp add: admin_check_def signature_check_def)

definition fee_demo_ledger :: "address \<Rightarrow> token_state" where
  "fee_demo_ledger t = token_fresh\<lparr>tk_balance := [Addr 2 \<mapsto> 5000000]\<rparr>"

definition fee_demo_calls :: "(env \<times> fee_call) list" where
  "fee_demo_calls =
    [(signed_env [Addr 1] 1 100 (Addr 8), CInitialize (Addr 1) (Addr 7) (Addr 3) 250 4),
     (signed_env [Addr 2] 2 200 (Addr 8), CUpdateActivity (Addr 2)),
     (signed_env [Addr 2] 3 230 (Addr 8), CCollect (Addr 2) 2000050)]"

definition fee_demo :: "fee_state \<times> (address \<Rightarrow> token_state)" where
  "fee_demo = run (fee_exec token_xfer signature_check) fee_demo_calls (fee_fresh, fee_demo_ledger)"

lemmas fee_eval = fee_demo_def fee_demo_calls_def fee_demo_ledger_def fee_fresh_def initialize_def has_admin_def
  validate_fee_percentage_bounds_def fee_consts on_state_def update_activity_def write_last_active_def
  collect_fee_def collect_to_escrow_def validate_amount_positive_or_panic_def read_last_active_def
  calculate_fee_decay_def DECAY_RATE_def MIN_FEE_def require_positive_amount_def validate_amount_def
  book_received_def add_pending_fees_def add_escrow_balance_def add_total_collected_def read_pending_fees_def
  read_stats_def publish_def Let_def token_xfer_def token_bal_def callee_env_def
  Token.transfer_def Token.move_balance_def Token.token_query_defs token_fresh_def Token.emit_def arith_defs

lemma fee_demo_simps:
  "fe_pending (fst fee_demo) = [4 \<mapsto> 2000020]" "fs_escrow (read_stats (fst fee_demo)) = 2000020"
  "fe_config (fst fee_demo) = Some \<lparr>fc_admin = Addr 1, fc_token = Addr 7, fc_treasury = Addr 3, fc_bps = 250,
     fc_min = 0, fc_max = 1000000, fc_locked = False, fc_cycle = 4\<rparr>"
  "token_bal (snd fee_demo) (Addr 7) (Addr 8) = 2000020"
  by (simp_all add: fee_eval)

theorem fee_solvent_witness:
  "get_fee_balance (fst fee_demo) = 2000020
   \<and> get_fee_balance (fst fee_demo) \<le> token_bal (snd fee_demo) (Addr 7) (Addr 8)"
proof -
  have ledger: "\<And>t. 0 \<le> token_bal fee_demo_ledger t (Addr 8)"
    by (simp add: token_bal_def fee_demo_ledger_def Token.token_query_defs token_fresh_def)
  have careful: "\<And>ec. ec \<in> set fee_demo_calls \<Longrightarrow> careful_fee (Addr 8) ec"
    by (auto simp: fee_demo_calls_def careful_fee_def)
  have run: "run (fee_exec token_xfer signature_check) fee_demo_calls (fee_fresh, fee_demo_ledger)
      = (fst fee_demo, snd fee_demo)" by (simp add: fee_demo_def)
  from fee_solvent [OF token_ledger.token_client_axioms ledger careful run fee_demo_simps(3)]
  show ?thesis by (simp add: get_fee_balance_def fee_demo_simps)
qed

theorem fee_always_reconciled_witness:
  "\<exists>r. reconcile (fst fee_demo) = Inr r \<and> rr_is_reconciled r \<and> rr_stored r = 2000020"
  using fee_always_reconciled [of token_xfer signature_check fee_demo_calls fee_demo_ledger]
  unfolding fee_demo_def [symmetric] by (auto simp: Let_def get_fee_balance_def fee_demo_simps)

text \<open>Collection.  \<open>collect_fee\<close> charges the payer's signature-backed fee reduced by one unit for every
  second since the payer's last activity, but at least 10, or the fee itself when no time has passed.
  Exactly the charge moves to the contract and into the pending fees of the current cycle, and the
  payer's activity is set to now.  Neither the rate, the maximum fee nor the payer's tier has a part in it.\<close>

theorem fee_collect_spec:
  assumes "token_client xfer bal" and "payer \<noteq> env_self e" and "fe_config s = Some cfg"
    and "in_i128 n" and "in_u64 (env_timestamp e)"
    and "collect_fee xfer e payer n (s, l) = Inr (p, s', l')"
  shows "let last = read_last_active s payer; now = env_timestamp e;
             d = (if now \<le> last then n else max 10 (n - int (now - last))) in
    env_auth e payer \<and> fc_min cfg \<le> d
    \<and> p = read_pending_fees s (fc_cycle cfg) + d \<and> read_pending_fees s' = (read_pending_fees s)(fc_cycle cfg := p)
    \<and> bal l' (fc_token cfg) payer = bal l (fc_token cfg) payer - d
    \<and> bal l' (fc_token cfg) (env_self e) = bal l (fc_token cfg) (env_self e) + d
    \<and> get_fee_balance s' = get_fee_balance s + d
    \<and> read_last_active s' payer = now \<and> fe_config s' = fe_config s"
proof -
  let ?last = "read_last_active s payer" and ?now = "env_timestamp e"
  let ?d = "calculate_fee_decay n ?last ?now"
  from collect_fee_Inr [OF assms(6)] assms(3) obtain s1 where auth: "env_auth e payer" and n: "0 < n"
    and d: "fc_min cfg \<le> ?d" and tr: "xfer e (fc_token cfg) payer (env_self e) ?d l = Some l'"
    and b: "book_received (fc_cycle cfg) ?d s = Inr (p, s1)"
    and s': "fe_config s' = fe_config s1" "fe_stats s' = fe_stats s1" "fe_pending s' = fe_pending s1"
      "fe_activity s' = (fe_activity s1)(payer \<mapsto> ?now)"
    by (auto simp: collect_to_escrow_Inr)
  note dec = decay_value [OF n assms(4,5), of ?last]
  show ?thesis
    using auth d b s' token_client.xfer_debit [OF assms(1) tr assms(2)]
      token_client.xfer_credit [OF assms(1) tr assms(2)] unfolding Let_def dec [symmetric]
    by (auto simp: book_received_Inr read_pending_fees_def get_fee_balance_def read_stats_def read_last_active_def fun_eq_iff)
qed

theorem fee_collect_spec_witness:
  "\<exists>p s' l'. collect_fee token_xfer (signed_env [Addr 2] 4 330 (Addr 8)) (Addr 2) 2000000
      (fst fee_demo, snd fee_demo) = Inr (p, s', l') \<and> get_fee_balance s' = 2000020 + 1999900
      \<and> fc_max (the (fe_config s')) = 1000000"
proof -
  let ?e = "signed_env [Addr 2] 4 330 (Addr 8)"
  have "\<exists>x. collect_fee token_xfer ?e (Addr 2) 2000000 (fst fee_demo, snd fee_demo) = Inr x"
    by (simp add: fee_eval)
  then obtain p s' l' where run: "collect_fee token_xfer ?e (Addr 2) 2000000 (fst fee_demo, snd fee_demo) = Inr (p, s', l')"
    by auto
  have pre: "Addr 2 \<noteq> env_self ?e" "in_i128 2000000" "in_u64 (env_timestamp ?e)"
    by (simp_all add: in_i128_def in_u64_def)
  have last: "read_last_active (fst fee_demo) (Addr 2) = 230" by (simp add: fee_eval)
  from fee_collect_spec [OF token_ledger.token_client_axioms pre(1) fee_demo_simps(3) pre(2,3) run] run
  show ?thesis by (simp add: Let_def last get_fee_balance_def fee_demo_simps)
qed

text \<open>Decay works against the smallest fees and for the absent: a payer whose last recorded activity
  lies at least \<open>n - 10\<close> seconds back, which includes everyone who pays for the first time, is charged
  exactly 10 for a fee of \<open>n\<close>, even when the fee itself was less than 10.\<close>

theorem fee_inactive_pays_floor:
  assumes "read_last_active s payer < env_timestamp e" and "n \<le> int (env_timestamp e - read_last_active s payer) + 10"
    and "in_u64 (env_timestamp e)" and "fe_config s = Some cfg"
    and "collect_fee xfer e payer n (s, l) = Inr (p, s', l')"
  shows "xfer e (fc_token cfg) payer (env_self e) 10 l = Some l' \<and> get_fee_balance s' = get_fee_balance s + 10"
proof -
  let ?d = "calculate_fee_decay n (read_last_active s payer) (env_timestamp e)"
  from collect_fee_Inr [OF assms(5)] assms(4) obtain s1 where n: "0 < n"
    and tr: "xfer e (fc_token cfg) payer (env_self e) ?d l = Some l'"
    and b: "book_received (fc_cycle cfg) ?d s = Inr (p, s1)" and s': "fe_stats s' = fe_stats s1"
    by (auto simp: collect_to_escrow_Inr)
  have "in_i128 n" using n assms(2,3) by (auto simp: in_i128_def in_u64_def)
  then have "?d = 10"
    using decay_value [OF n _ assms(3), of "read_last_active s payer"] assms(1,2) by (simp add: max_def)
  with tr b s' show ?thesis by (simp add: book_received_Inr get_fee_balance_def read_stats_def)
qed

theorem fee_inactive_pays_floor_witness:
  "\<exists>p s' l'. collect_fee token_xfer (signed_env [Addr 2] 4 330 (Addr 8)) (Addr 2) 1
      (fst fee_demo, snd fee_demo) = Inr (p, s', l') \<and> get_fee_balance s' = 2000030"
proof -
  let ?e = "signed_env [Addr 2] 4 330 (Addr 8)"
  have "\<exists>x. collect_fee token_xfer ?e (Addr 2) 1 (fst fee_demo, snd fee_demo) = Inr x"
    by (simp add: fee_eval)
  then obtain p s' l' where run: "collect_fee token_xfer ?e (Addr 2) 1 (fst fee_demo, snd fee_demo) = Inr (p, s', l')"
    by auto
  have last: "read_last_active (fst fee_demo) (Addr 2) = 230" by (simp add: fee_eval)
  have pre: "read_last_active (fst fee_demo) (Addr 2) < env_timestamp ?e"
    "1 \<le> int (env_timestamp ?e - read_last_active (fst fee_demo) (Addr 2)) + 10" "in_u64 (env_timestamp ?e)"
    by (simp_all add: last in_u64_def)
  from fee_inactive_pays_floor [OF pre fee_demo_simps(3) run] run
  show ?thesis by (simp add: get_fee_balance_def fee_demo_simps)
qed

text \<open>Rounding.  A computed fee is the exact share \<open>amount * bps / 10000\<close> rounded down, is never more
  than the amount, and the rounding-up variant exceeds it by at most one; both fail together, exactly
  when the product overflows or the rate is above 10000.\<close>

theorem fee_rounding:
  assumes "0 < amount" and "0 < bps" and "in_i128 (amount * int bps + 9999)"
  shows "compute_fee amount bps = (if bps \<le> MAX_FEE_BPS then Some (amount * int bps div 10000) else None)
    \<and> (bps \<le> MAX_FEE_BPS \<longrightarrow> amount * int bps div 10000 \<le> amount
        \<and> calculate_fee_round_up amount bps = Inr (Some (amount * int bps div 10000
            + (if 10000 dvd amount * int bps then 0 else 1))))"
proof -
  let ?x = "amount * int bps"
  have pos: "0 < ?x" using assms(1,2) by simp
  then have r: "in_i128 ?x" using assms(3) by (simp add: in_i128_def)
  have "0 \<le> ?x div 10000" "?x div 10000 \<le> ?x" using pos by linarith+
  then have rd: "in_i128 (?x div 10000)" using r by (simp add: in_i128_def)
  have "(?x + 9999) div 10000 \<le> ?x + 9999" using pos by linarith
  moreover have "0 \<le> (?x + 9999) div 10000" using pos by linarith
  ultimately have ru: "in_i128 ((?x + 9999) div 10000)" using assms(3) by (simp add: in_i128_def)
  have up: "(?x + 9999) div 10000 = ?x div 10000 + (if 10000 dvd ?x then 0 else 1)"
  proof -
    have "(y + 9999) div 10000 = y div 10000 + (if y mod 10000 = 0 then 0 else 1)" for y :: int
    proof (cases "y mod 10000 = 0")
      case True
      have "y = 10000 * (y div 10000) + y mod 10000" by simp
      then have "y + 9999 = 10000 * (y div 10000) + 9999" using True by linarith
      then have "(y + 9999) div 10000 = y div 10000" by (rule int_div_pos_eq) simp_all
      with True show ?thesis by simp
    next
      case False
      have "10000 * (q + 1) + (m - 1) = (10000 * q + m) + 9999" for q m :: int by simp
      then have "y + 9999 = 10000 * (y div 10000 + 1) + (y mod 10000 - 1)"
        by (simp only: mult_div_mod_eq)
      moreover have "0 \<le> y mod 10000 - 1" "y mod 10000 - 1 < 10000"
        using False pos_mod_sign [of 10000 y] pos_mod_bound [of 10000 y] by linarith+
      ultimately have "(y + 9999) div 10000 = y div 10000 + 1" by (rule int_div_pos_eq)
      with False show ?thesis by simp
    qed
    then show ?thesis by (simp only: dvd_eq_mod_eq_0)
  qed
  have le: "?x div 10000 \<le> amount" if "bps \<le> MAX_FEE_BPS"
  proof -
    have "?x \<le> amount * 10000" using that assms(1) by (simp add: MAX_FEE_BPS_def)
    then show ?thesis by linarith
  qed
  have "compute_fee amount bps = (if bps \<le> MAX_FEE_BPS then Some (?x div 10000) else None)"
    using assms(1,2) r rd pos
    by (simp add: compute_fee_def calculate_fee_round_down_def round_down_div_def checked_mul_def checked_div_def quot_pos)
  moreover have "in_i128 9999" by (simp add: in_i128_def)
  then have "calculate_fee_round_up amount bps = Inr (Some ((?x + 9999) div 10000))" if "bps \<le> MAX_FEE_BPS"
    using that assms r ru pos
    by (simp add: calculate_fee_round_up_def round_up_div_def checked_mul_def checked_div_def checked_sub_def
        checked_add_def quot_pos)
  ultimately show ?thesis using le by (simp add: up)
qed

theorem fee_rounding_witness:
  "compute_fee 1999 250 = Some 49 \<and> calculate_fee_round_up 1999 250 = Inr (Some 50)"
proof -
  have "in_i128 (1999 * int 250 + 9999)" by (simp add: in_i128_def)
  from fee_rounding [OF _ _ this] show ?thesis by (simp add: MAX_FEE_BPS_def)
qed

text \<open>The lock freezes the configuration.  While the contract is locked no call, by whomever, changes
  the rate, the minimum, the maximum, the treasury, the token or the admin.\<close>

theorem fee_lock_freezes:
  assumes "fe_config s = Some cfg" and "fc_locked cfg" and "fee_exec xfer chk (e, call) (s, l) = Inr (s', l')"
    and "fee_books s"
  shows "\<exists>cfg'. fe_config s' = Some cfg' \<and> fc_bps cfg' = fc_bps cfg \<and> fc_min cfg' = fc_min cfg
    \<and> fc_max cfg' = fc_max cfg \<and> fc_treasury cfg' = fc_treasury cfg \<and> fc_token cfg' = fc_token cfg
    \<and> fc_admin cfg' = fc_admin cfg"
proof (cases call)
  case (CCollect p n)
  with assms show ?thesis by (auto dest: collect_fee_books)
next
  case (CCollectBatch p ns)
  with assms show ?thesis by (auto dest: collect_fee_batch_books)
next
  case (CRelease a c)
  with assms obtain p s1 ev where "release_cycle_fees xfer e c (s, l) = Inr (p, s1, l')" "s' = publish ev s1"
    by (auto dest: release_fees_Inr)
  with release_cycle_books [OF this(1) assms(4)] assms(1) show ?thesis by simp
next
  case (CRollover a d)
  with assms(3) obtain p where "rollover_fees chk e a d s = Inr (p, s')"
    by (auto simp: on_state_def split: sum.splits)
  with assms(1) show ?thesis by (auto dest: rollover_fees_Inr)
qed (use assms in \<open>auto simp: fee_config_defs initialize_def init_def on_state_def has_admin_def require_admin_Inr_fee
      require_unlocked_def write_last_active_def split: if_splits option.splits sum.splits\<close>)

theorem fee_lock_freezes_witness:
  "\<exists>s' l' cfg'. fee_exec token_xfer signature_check (signed_env [Addr 1] 5 400 (Addr 8), CRelease (Addr 1) 4)
       ((fst fee_demo)\<lparr>fe_config := Some ((the (fe_config (fst fee_demo)))\<lparr>fc_locked := True\<rparr>)\<rparr>, snd fee_demo)
       = Inr (s', l') \<and> fe_config s' = Some cfg' \<and> fc_treasury cfg' = Addr 3"
proof -
  let ?cfg = "(the (fe_config (fst fee_demo)))\<lparr>fc_locked := True\<rparr>"
  let ?s = "(fst fee_demo)\<lparr>fe_config := Some ?cfg\<rparr>"
  let ?ec = "(signed_env [Addr 1] 5 400 (Addr 8), CRelease (Addr 1) 4)"
  have "\<exists>x. fee_exec token_xfer signature_check ?ec (?s, snd fee_demo) = Inr x"
    by (simp add: fee_eval release_fees_def release_cycle_fees_def require_admin_def signature_check_def
        sub_escrow_balance_def add_total_released_def clear_pending_fees_def)
  then obtain s' l' where run: "fee_exec token_xfer signature_check ?ec (?s, snd fee_demo) = Inr (s', l')" by auto
  have "fee_books (fst fee_demo)"
    unfolding fee_demo_def by (rule fee_machine.run_inv) (simp_all add: fee_books_fresh)
  then have books: "fee_books ?s" using fee_demo_simps(3) by (simp add: fee_books_def read_stats_def)
  have "fe_config ?s = Some ?cfg" "fc_locked ?cfg" by simp_all
  from fee_lock_freezes [OF this run books] run fee_demo_simps(3) show ?thesis by auto
qed

end
