(* ===== verification/Shared_Budgets.thy ===== *)
theory Shared_Budgets
  imports Token
begin

text \<open>
  \<open>contracts/shared-budgets/src\<close>: budgets that several members fund and spend from (\<open>lib.rs\<close>,
  \<open>types.rs\<close>, \<open>validation.rs\<close>).  The state has one field per \<open>DataKey\<close>; an entry point works on the pair
  of this state and the ledger of the token contracts, reached through \<open>xfer\<close> of \<open>Token_Interface\<close>.

  The threshold of a spending rule is computed in \<open>f64\<close>.  The model carries the double as a mantissa
  and an exponent and rounds each of the three operations to 53 bits, to nearest with ties to even,
  as IEEE 754 and Rust do; all values that occur are normal doubles, so no other case arises.
\<close>

section \<open>Data (types.rs)\<close>

definition MAX_BUDGET_MEMBERS :: nat where "MAX_BUDGET_MEMBERS = 20"
definition MAX_SPENDING_RULES :: nat where "MAX_SPENDING_RULES = 10"

record budget_spending_rule =
  sr_applicable_to :: address
  sr_percentage_threshold :: nat
  sr_requires_approval :: bool
  sr_description :: symbol

record budget =
  bu_id :: nat
  bu_name :: symbol
  bu_creator :: address
  bu_token :: address
  bu_members :: "address list"
  bu_balance :: int
  bu_total_contributed :: int
  bu_spending_rules :: "budget_spending_rule list"
  bu_is_active :: bool
  bu_created_at :: nat

datatype budget_utilization_band = Low | Moderate | High | Critical

record budget_utilization_summary =
  us_utilization_percent :: nat
  us_total_spent :: int
  us_avg_spending_per_member :: int
  us_remaining_balance :: int
  us_utilization_band :: budget_utilization_band

record archived_budget =
  ab_budget :: budget
  ab_deactivated_at :: nat
  ab_archived_at :: nat
  ab_contribution_ids :: "nat list"

record budget_contribution =
  bc_budget_id :: nat
  bc_contributor :: address
  bc_amount :: int
  bc_memo :: "symbol option"
  bc_timestamp :: nat

datatype shared_budget_error =
    NotInitialized | Unauthorized | BudgetNotFound | MemberAlreadyExists | MemberNotFound
  | RuleNotFound | InvalidAmount | InsufficientBalance | InvalidPercentage | BudgetAlreadyActive
  | BudgetNotActive | TooManyMembers | TooManyRules | InvalidArchiveRetention | ArchivedBudgetNotFound

text \<open>The emitters of \<open>SharedBudgetEvents\<close>; the contract never calls the two allocation emitters.\<close>

datatype shared_budget_event =
    BudgetCreated nat address "address list" address
  | ContributionAdded nat address int "symbol option"
  | ExpenseIncurred nat address address int
  | SpendingRuleAdded nat address nat bool
  | OwnershipTransferred nat address address
  | BudgetDeactivated nat address nat
  | BudgetArchived nat nat

record budgets_state =
  sb_admin :: "address option"
  sb_budget :: "nat \<rightharpoonup> budget"
  sb_member :: "nat \<times> address \<rightharpoonup> bool"
  sb_contribution :: "nat \<rightharpoonup> budget_contribution"
  sb_contributions_of :: "nat \<rightharpoonup> nat list"
  sb_deactivated_at :: "nat \<rightharpoonup> nat"
  sb_archived :: "nat \<rightharpoonup> archived_budget"
  sb_retention :: "nat option"
  sb_total_budgets :: "nat option"
  sb_total_contributions :: "nat option"
  sb_events :: "shared_budget_event list"

definition budgets_fresh :: budgets_state where
  "budgets_fresh = \<lparr>sb_admin = None, sb_budget = Map.empty, sb_member = Map.empty,
     sb_contribution = Map.empty, sb_contributions_of = Map.empty, sb_deactivated_at = Map.empty,
     sb_archived = Map.empty, sb_retention = None, sb_total_budgets = None,
     sb_total_contributions = None, sb_events = []\<rparr>"

definition emit :: "shared_budget_event \<Rightarrow> budgets_state \<Rightarrow> budgets_state" where
  "emit ev s = s\<lparr>sb_events := sb_events s @ [ev]\<rparr>"

text \<open>\<open>env.storage().persistent().set(&DataKey::Budget(id), &budget)\<close>.\<close>

definition put_budget :: "nat \<Rightarrow> budget \<Rightarrow> budgets_state \<Rightarrow> budgets_state" where
  "put_budget i b s = s\<lparr>sb_budget := (sb_budget s)(i \<mapsto> b)\<rparr>"

type_synonym ('led, 'a) budgets_outcome = "(budgets_state \<times> 'led, shared_budget_error, 'a) outcome"

section \<open>Validation (validation.rs)\<close>

definition validate_amount :: "int \<Rightarrow> bool" where
  "validate_amount amount \<longleftrightarrow> \<not> amount \<le> 0"

definition validate_percentage :: "nat \<Rightarrow> bool" where
  "validate_percentage percentage \<longleftrightarrow> \<not> 100 < percentage"

section \<open>Double arithmetic\<close>

fun bit_length :: "nat \<Rightarrow> nat" where
  "bit_length n = (if n = 0 then 0 else Suc (bit_length (n div 2)))"

declare bit_length.simps [simp del]

definition round_half_even :: "nat \<Rightarrow> nat \<Rightarrow> nat" where
  "round_half_even n d =
    (let q = n div d; r = n mod d in
     if 2 * r < d then q else if d < 2 * r then q + 1 else if even q then q else q + 1)"

text \<open>A positive double: the value is the mantissa times two to the exponent.\<close>

type_synonym f64 = "nat \<times> int"

definition scaled :: "nat \<Rightarrow> nat \<Rightarrow> int \<Rightarrow> nat \<times> nat" where
  "scaled n d k = (if 0 \<le> k then (n, d * 2 ^ nat k) else (n * 2 ^ nat (- k), d))"

definition f64_of_ratio :: "nat \<Rightarrow> nat \<Rightarrow> f64" where
  "f64_of_ratio n d =
    (if n = 0 then (0, 0) else
     let k0 = int (bit_length n) - int (bit_length d) - 53;
         k = (case scaled n d k0 of (a, b) \<Rightarrow> if b * 2 ^ 53 \<le> a then k0 + 1 else k0)
     in case scaled n d k of (a, b) \<Rightarrow> (round_half_even a b, k))"

definition f64_mul :: "f64 \<Rightarrow> f64 \<Rightarrow> f64" where
  "f64_mul x y = (case f64_of_ratio (fst x * fst y) 1 of (m, k) \<Rightarrow> (m, k + snd x + snd y))"

text \<open>The cast \<open>as i128\<close> truncates and saturates.\<close>

definition f64_as_i128 :: "f64 \<Rightarrow> int" where
  "f64_as_i128 x = min i128_max
     (int (if 0 \<le> snd x then fst x * 2 ^ nat (snd x) else fst x div 2 ^ nat (- snd x)))"

definition rule_threshold :: "int \<Rightarrow> nat \<Rightarrow> int" where
  "rule_threshold total_contributed percentage =
    (if 0 < total_contributed
     then f64_as_i128 (f64_mul (f64_of_ratio (nat total_contributed) 1) (f64_of_ratio percentage 100))
     else 0)"

section \<open>Internal helpers (lib.rs)\<close>

definition require_admin :: "address \<Rightarrow> budgets_state \<Rightarrow> shared_budget_error trap + unit" where
  "require_admin caller s =
    (case sb_admin s of None \<Rightarrow> Inl PanicTrap | Some admin \<Rightarrow>
     if caller \<noteq> admin then Inl (ContractError Unauthorized) else Inr ())"

definition require_owner_or_admin :: "address \<Rightarrow> budget \<Rightarrow> budgets_state \<Rightarrow> shared_budget_error trap + unit" where
  "require_owner_or_admin caller budget s =
    (if caller \<noteq> bu_creator budget then require_admin caller s else Inr ())"

fun enforce_spending_rules :: "budget \<Rightarrow> address \<Rightarrow> int \<Rightarrow> budget_spending_rule list
    \<Rightarrow> shared_budget_error trap + unit" where
  "enforce_spending_rules budget spender amount [] = Inr ()"
| "enforce_spending_rules budget spender amount (rule # rules) =
    (if sr_applicable_to rule = spender
        \<and> rule_threshold (bu_total_contributed budget) (sr_percentage_threshold rule) < amount
        \<and> \<not> sr_requires_approval rule
     then Inl (ContractError Unauthorized)
     else enforce_spending_rules budget spender amount rules)"

definition classify_utilization :: "nat \<Rightarrow> budget_utilization_band" where
  "classify_utilization utilization_percent =
    (if utilization_percent \<le> 24 then Low else
     if utilization_percent \<le> 49 then Moderate else
     if utilization_percent \<le> 79 then High else Critical)"

definition is_budget_member :: "budgets_state \<Rightarrow> nat \<Rightarrow> address \<Rightarrow> bool" where
  "is_budget_member s budget_id member \<longleftrightarrow> unwrap_or (sb_member s (budget_id, member)) False"

definition get_total_budgets_created :: "budgets_state \<Rightarrow> nat" where
  "get_total_budgets_created s = unwrap_or (sb_total_budgets s) 0"

definition get_total_contribs_processed :: "budgets_state \<Rightarrow> nat" where
  "get_total_contribs_processed s = unwrap_or (sb_total_contributions s) 0"

definition get_archive_retention_period :: "budgets_state \<Rightarrow> nat" where
  "get_archive_retention_period s = unwrap_or (sb_retention s) 0"

section \<open>Entry points (lib.rs)\<close>

definition initialize :: "address \<Rightarrow> budgets_state \<times> 'led \<Rightarrow> ('led, unit) budgets_outcome" where
  "initialize admin w = (case w of (s, l) \<Rightarrow>
     if sb_admin s \<noteq> None then Inl PanicTrap else
     Inr ((), s\<lparr>sb_admin := Some admin, sb_total_budgets := Some 0, sb_total_contributions := Some 0,
                sb_retention := Some 0\<rparr>, l))"

definition add_members :: "nat \<Rightarrow> address list \<Rightarrow> budgets_state \<Rightarrow> budgets_state" where
  "add_members budget_id members s =
     foldl (\<lambda>s member. s\<lparr>sb_member := (sb_member s)((budget_id, member) \<mapsto> True)\<rparr>) s members"

definition create_budget :: "env \<Rightarrow> address \<Rightarrow> symbol \<Rightarrow> address list \<Rightarrow> address
    \<Rightarrow> budget_spending_rule list \<Rightarrow> budgets_state \<times> 'led \<Rightarrow> ('led, nat) budgets_outcome" where
  "create_budget e creator budget_name members token spending_rules w = (case w of (s, l) \<Rightarrow>
     if \<not> env_auth e creator then Inl AuthTrap else
     if MAX_BUDGET_MEMBERS < length members then Inl (ContractError TooManyMembers) else
     if MAX_SPENDING_RULES < length spending_rules then Inl (ContractError TooManyRules) else
     if \<not> list_all (\<lambda>rule. validate_percentage (sr_percentage_threshold rule)) spending_rules
     then Inl (ContractError InvalidPercentage) else
     case u64_add (unwrap_or (sb_total_budgets s) 0) 1 of None \<Rightarrow> Inl ArithTrap | Some budget_id \<Rightarrow>
     let budget = \<lparr>bu_id = budget_id, bu_name = budget_name, bu_creator = creator, bu_token = token,
                   bu_members = members, bu_balance = 0, bu_total_contributed = 0,
                   bu_spending_rules = spending_rules, bu_is_active = True,
                   bu_created_at = env_timestamp e\<rparr>;
         s1 = (put_budget budget_id budget s)\<lparr>sb_total_budgets := Some budget_id\<rparr>;
         s2 = add_members budget_id members s1
     in Inr (budget_id, emit (BudgetCreated budget_id creator members token) s2, l))"

definition contribute_to_budget :: "'led xfer \<Rightarrow> env \<Rightarrow> address \<Rightarrow> nat \<Rightarrow> int \<Rightarrow> symbol option
    \<Rightarrow> budgets_state \<times> 'led \<Rightarrow> ('led, unit) budgets_outcome" where
  "contribute_to_budget xfer e contributor budget_id amount memo w = (case w of (s, l) \<Rightarrow>
     if \<not> env_auth e contributor then Inl AuthTrap else
     if \<not> validate_amount amount then Inl (ContractError InvalidAmount) else
     case sb_budget s budget_id of None \<Rightarrow> Inl (ContractError BudgetNotFound) | Some budget \<Rightarrow>
     if \<not> bu_is_active budget then Inl (ContractError BudgetNotActive) else
     case xfer e (bu_token budget) contributor (env_self e) amount l of None \<Rightarrow> Inl CallTrap | Some l1 \<Rightarrow>
     case checked_add (bu_balance budget) amount of None \<Rightarrow> Inl ArithTrap | Some balance \<Rightarrow>
     case checked_add (bu_total_contributed budget) amount of None \<Rightarrow> Inl ArithTrap | Some contributed \<Rightarrow>
     let s1 = put_budget budget_id (budget\<lparr>bu_balance := balance, bu_total_contributed := contributed\<rparr>) s;
         contribution = \<lparr>bc_budget_id = budget_id, bc_contributor = contributor, bc_amount = amount,
                         bc_memo = memo, bc_timestamp = env_timestamp e\<rparr> in
     case u64_add (unwrap_or (sb_total_contributions s1) 0) 1 of None \<Rightarrow> Inl ArithTrap | Some contribution_id \<Rightarrow>
     let ids = unwrap_or (sb_contributions_of s1 budget_id) [] @ [contribution_id];
         s2 = s1\<lparr>sb_contribution := (sb_contribution s1)(contribution_id \<mapsto> contribution),
                 sb_contributions_of := (sb_contributions_of s1)(budget_id \<mapsto> ids),
                 sb_total_contributions := Some contribution_id\<rparr>
     in Inr ((), emit (ContributionAdded budget_id contributor amount memo) s2, l1))"

definition spend_from_budget :: "'led xfer \<Rightarrow> env \<Rightarrow> address \<Rightarrow> nat \<Rightarrow> address \<Rightarrow> int
    \<Rightarrow> budgets_state \<times> 'led \<Rightarrow> ('led, unit) budgets_outcome" where
  "spend_from_budget xfer e spender budget_id recipient amount w = (case w of (s, l) \<Rightarrow>
     if \<not> env_auth e spender then Inl AuthTrap else
     if \<not> validate_amount amount then Inl (ContractError InvalidAmount) else
     case sb_budget s budget_id of None \<Rightarrow> Inl (ContractError BudgetNotFound) | Some budget \<Rightarrow>
     if \<not> bu_is_active budget then Inl (ContractError BudgetNotActive) else
     if \<not> is_budget_member s budget_id spender then Inl (ContractError MemberNotFound) else
     if bu_balance budget < amount then Inl (ContractError InsufficientBalance) else
     case enforce_spending_rules budget spender amount (bu_spending_rules budget) of Inl t \<Rightarrow> Inl t | Inr _ \<Rightarrow>
     case xfer e (bu_token budget) (env_self e) recipient amount l of None \<Rightarrow> Inl CallTrap | Some l1 \<Rightarrow>
     case checked_sub (bu_balance budget) amount of None \<Rightarrow> Inl ArithTrap | Some balance \<Rightarrow>
     Inr ((), emit (ExpenseIncurred budget_id spender recipient amount)
                (put_budget budget_id (budget\<lparr>bu_balance := balance\<rparr>) s), l1))"

definition transfer_budget_ownership :: "env \<Rightarrow> address \<Rightarrow> nat \<Rightarrow> address
    \<Rightarrow> budgets_state \<times> 'led \<Rightarrow> ('led, unit) budgets_outcome" where
  "transfer_budget_ownership e current_owner budget_id new_owner w = (case w of (s, l) \<Rightarrow>
     if \<not> env_auth e current_owner then Inl AuthTrap else
     if \<not> env_auth e new_owner then Inl AuthTrap else
     case sb_budget s budget_id of None \<Rightarrow> Inl (ContractError BudgetNotFound) | Some budget \<Rightarrow>
     if current_owner \<noteq> bu_creator budget then Inl (ContractError Unauthorized) else
     if current_owner = new_owner then Inr ((), s, l) else
     Inr ((), emit (OwnershipTransferred budget_id current_owner new_owner)
                (put_budget budget_id (budget\<lparr>bu_creator := new_owner\<rparr>) s), l))"

definition add_member_to_budget :: "env \<Rightarrow> address \<Rightarrow> nat \<Rightarrow> address
    \<Rightarrow> budgets_state \<times> 'led \<Rightarrow> ('led, unit) budgets_outcome" where
  "add_member_to_budget e caller budget_id new_member w = (case w of (s, l) \<Rightarrow>
     if \<not> env_auth e caller then Inl AuthTrap else
     case sb_budget s budget_id of None \<Rightarrow> Inl (ContractError BudgetNotFound) | Some budget \<Rightarrow>
     case require_owner_or_admin caller budget s of Inl t \<Rightarrow> Inl t | Inr _ \<Rightarrow>
     if is_budget_member s budget_id new_member then Inl (ContractError MemberAlreadyExists) else
     if MAX_BUDGET_MEMBERS \<le> length (bu_members budget) then Inl (ContractError TooManyMembers) else
     let s1 = s\<lparr>sb_member := (sb_member s)((budget_id, new_member) \<mapsto> True)\<rparr>
     in Inr ((), put_budget budget_id (budget\<lparr>bu_members := bu_members budget @ [new_member]\<rparr>) s1, l))"

definition add_spending_rule :: "env \<Rightarrow> address \<Rightarrow> nat \<Rightarrow> budget_spending_rule
    \<Rightarrow> budgets_state \<times> 'led \<Rightarrow> ('led, unit) budgets_outcome" where
  "add_spending_rule e caller budget_id rule w = (case w of (s, l) \<Rightarrow>
     if \<not> env_auth e caller then Inl AuthTrap else
     case sb_budget s budget_id of None \<Rightarrow> Inl (ContractError BudgetNotFound) | Some budget \<Rightarrow>
     case require_owner_or_admin caller budget s of Inl t \<Rightarrow> Inl t | Inr _ \<Rightarrow>
     if \<not> validate_percentage (sr_percentage_threshold rule) then Inl (ContractError InvalidPercentage) else
     if MAX_SPENDING_RULES \<le> length (bu_spending_rules budget) then Inl (ContractError TooManyRules) else
     let s1 = emit (SpendingRuleAdded budget_id (sr_applicable_to rule) (sr_percentage_threshold rule)
                (sr_requires_approval rule)) s
     in Inr ((), put_budget budget_id
               (budget\<lparr>bu_spending_rules := bu_spending_rules budget @ [rule]\<rparr>) s1, l))"

definition set_archive_retention_period :: "env \<Rightarrow> address \<Rightarrow> nat
    \<Rightarrow> budgets_state \<times> 'led \<Rightarrow> ('led, unit) budgets_outcome" where
  "set_archive_retention_period e caller retention_seconds w = (case w of (s, l) \<Rightarrow>
     if \<not> env_auth e caller then Inl AuthTrap else
     case require_admin caller s of Inl t \<Rightarrow> Inl t | Inr _ \<Rightarrow>
     if retention_seconds = 0 then Inl (ContractError InvalidArchiveRetention) else
     Inr ((), s\<lparr>sb_retention := Some retention_seconds\<rparr>, l))"

definition deactivate_budget :: "env \<Rightarrow> address \<Rightarrow> nat
    \<Rightarrow> budgets_state \<times> 'led \<Rightarrow> ('led, unit) budgets_outcome" where
  "deactivate_budget e caller budget_id w = (case w of (s, l) \<Rightarrow>
     if \<not> env_auth e caller then Inl AuthTrap else
     case sb_budget s budget_id of None \<Rightarrow> Inl (ContractError BudgetNotFound) | Some budget \<Rightarrow>
     case require_owner_or_admin caller budget s of Inl t \<Rightarrow> Inl t | Inr _ \<Rightarrow>
     if \<not> bu_is_active budget then Inr ((), s, l) else
     let s1 = put_budget budget_id (budget\<lparr>bu_is_active := False\<rparr>) s;
         s2 = s1\<lparr>sb_deactivated_at := (sb_deactivated_at s1)(budget_id \<mapsto> env_timestamp e)\<rparr>
     in Inr ((), emit (BudgetDeactivated budget_id caller (env_timestamp e)) s2, l))"

subsection \<open>Archiving\<close>

text \<open>\<open>due_for_archiving\<close> is the loop body down to its last \<open>continue\<close>: the budget of the id and its
  time of deactivation, when the budget is to be archived now.\<close>

definition due_for_archiving :: "nat \<Rightarrow> nat \<Rightarrow> budgets_state \<Rightarrow> nat \<Rightarrow> (budget \<times> nat) option" where
  "due_for_archiving now retention_seconds s budget_id =
    (case sb_budget s budget_id of None \<Rightarrow> None | Some budget \<Rightarrow>
     if bu_is_active budget then None else
     let deactivated_at = unwrap_or (sb_deactivated_at s budget_id) (bu_created_at budget) in
     if now < u64_saturating_add deactivated_at retention_seconds then None else
     Some (budget, deactivated_at))"

definition archive_budget :: "nat \<Rightarrow> nat \<Rightarrow> budget \<Rightarrow> nat \<Rightarrow> budgets_state \<Rightarrow> budgets_state" where
  "archive_budget now budget_id budget deactivated_at s =
    (let record = \<lparr>ab_budget = budget, ab_deactivated_at = deactivated_at, ab_archived_at = now,
                   ab_contribution_ids = unwrap_or (sb_contributions_of s budget_id) []\<rparr>
     in emit (BudgetArchived budget_id now)
         (s\<lparr>sb_archived := (sb_archived s)(budget_id \<mapsto> record),
            sb_budget := (sb_budget s)(budget_id := None),
            sb_deactivated_at := (sb_deactivated_at s)(budget_id := None)\<rparr>))"

fun archive_loop :: "nat \<Rightarrow> nat \<Rightarrow> nat \<Rightarrow> nat list \<Rightarrow> nat \<Rightarrow> budgets_state \<Rightarrow> nat \<times> budgets_state" where
  "archive_loop now retention_seconds max_to_archive [] archived s = (archived, s)"
| "archive_loop now retention_seconds max_to_archive (budget_id # ids) archived s =
    (if max_to_archive \<le> archived then (archived, s) else
     case due_for_archiving now retention_seconds s budget_id of
       None \<Rightarrow> archive_loop now retention_seconds max_to_archive ids archived s
     | Some (budget, deactivated_at) \<Rightarrow>
         archive_loop now retention_seconds max_to_archive ids (archived + 1)
           (archive_budget now budget_id budget deactivated_at s))"

definition archive_inactive_budgets :: "env \<Rightarrow> address \<Rightarrow> nat
    \<Rightarrow> budgets_state \<times> 'led \<Rightarrow> ('led, nat) budgets_outcome" where
  "archive_inactive_budgets e caller max_to_archive w = (case w of (s, l) \<Rightarrow>
     if \<not> env_auth e caller then Inl AuthTrap else
     case require_admin caller s of Inl t \<Rightarrow> Inl t | Inr _ \<Rightarrow>
     let retention_seconds = get_archive_retention_period s in
     if retention_seconds = 0 then Inl (ContractError InvalidArchiveRetention) else
     if max_to_archive = 0 then Inr (0, s, l) else
     case archive_loop (env_timestamp e) retention_seconds max_to_archive
            [1..<Suc (get_total_budgets_created s)] 0 s of
       (archived, s1) \<Rightarrow> Inr (archived, s1, l))"

definition set_admin :: "env \<Rightarrow> address \<Rightarrow> address
    \<Rightarrow> budgets_state \<times> 'led \<Rightarrow> ('led, unit) budgets_outcome" where
  "set_admin e current_admin new_admin w = (case w of (s, l) \<Rightarrow>
     if \<not> env_auth e current_admin then Inl AuthTrap else
     case require_admin current_admin s of Inl t \<Rightarrow> Inl t | Inr _ \<Rightarrow>
     Inr ((), s\<lparr>sb_admin := Some new_admin\<rparr>, l))"

subsection \<open>Queries\<close>

definition get_budget :: "budgets_state \<Rightarrow> nat \<Rightarrow> shared_budget_error trap + budget" where
  "get_budget s budget_id =
    (case sb_budget s budget_id of None \<Rightarrow> Inl (ContractError BudgetNotFound) | Some b \<Rightarrow> Inr b)"

definition get_archived_budget :: "budgets_state \<Rightarrow> nat \<Rightarrow> archived_budget option" where
  "get_archived_budget s budget_id = sb_archived s budget_id"

definition get_member_role :: "budgets_state \<Rightarrow> nat \<Rightarrow> address \<Rightarrow> shared_budget_error trap + symbol" where
  "get_member_role s budget_id account =
    (case sb_budget s budget_id of None \<Rightarrow> Inl (ContractError BudgetNotFound) | Some budget \<Rightarrow>
     if account = bu_creator budget then Inr ''OWNER'' else
     if is_budget_member s budget_id account then Inr ''MEMBER'' else Inr ''NONE'')"

definition get_budget_utilization_summary :: "budgets_state \<Rightarrow> nat
    \<Rightarrow> shared_budget_error trap + budget_utilization_summary" where
  "get_budget_utilization_summary s budget_id =
    (case sb_budget s budget_id of None \<Rightarrow> Inl (ContractError BudgetNotFound) | Some budget \<Rightarrow>
     case checked_sub (bu_total_contributed budget) (bu_balance budget) of None \<Rightarrow> Inl ArithTrap
     | Some total_spent \<Rightarrow>
     case (if 0 < bu_total_contributed budget
           then (case checked_mul total_spent 100 of None \<Rightarrow> None | Some x \<Rightarrow>
                 Some (as_u32 (quot x (bu_total_contributed budget))))
           else Some 0) of None \<Rightarrow> Inl ArithTrap
     | Some utilization_percent \<Rightarrow>
     let member_count = int (length (bu_members budget));
         avg = (if 0 < member_count then quot total_spent member_count else 0)
     in Inr \<lparr>us_utilization_percent = utilization_percent, us_total_spent = total_spent,
             us_avg_spending_per_member = avg, us_remaining_balance = bu_balance budget,
             us_utilization_band = classify_utilization utilization_percent\<rparr>)"

definition get_budget_utilization :: "budgets_state \<Rightarrow> nat
    \<Rightarrow> shared_budget_error trap + (nat \<times> int \<times> int \<times> int)" where
  "get_budget_utilization s budget_id =
    (case get_budget_utilization_summary s budget_id of Inl t \<Rightarrow> Inl t | Inr u \<Rightarrow>
     Inr (us_utilization_percent u, us_total_spent u, us_avg_spending_per_member u, us_remaining_balance u))"

definition get_budget_utilization_band :: "budgets_state \<Rightarrow> nat
    \<Rightarrow> shared_budget_error trap + budget_utilization_band" where
  "get_budget_utilization_band s budget_id =
    (case get_budget_utilization_summary s budget_id of Inl t \<Rightarrow> Inl t | Inr u \<Rightarrow>
     Inr (us_utilization_band u))"

definition get_contribution :: "budgets_state \<Rightarrow> nat \<Rightarrow> shared_budget_error trap + budget_contribution" where
  "get_contribution s contribution_id =
    (case sb_contribution s contribution_id of None \<Rightarrow> Inl (ContractError RuleNotFound) | Some c \<Rightarrow> Inr c)"

definition get_budget_contribution_ids :: "budgets_state \<Rightarrow> nat \<Rightarrow> shared_budget_error trap + nat list" where
  "get_budget_contribution_ids s budget_id =
    (if sb_budget s budget_id = None \<and> sb_archived s budget_id = None
     then Inl (ContractError BudgetNotFound)
     else Inr (unwrap_or (sb_contributions_of s budget_id) []))"

definition get_contributions_paginated :: "budgets_state \<Rightarrow> nat \<Rightarrow> nat \<Rightarrow> nat
    \<Rightarrow> shared_budget_error trap + budget_contribution list" where
  "get_contributions_paginated s budget_id offset limit0 =
    (let limit = min limit0 100 in
     case get_budget_contribution_ids s budget_id of Inl t \<Rightarrow> Inl t | Inr ids \<Rightarrow>
     let total_count = length ids in
     if total_count \<le> offset \<or> limit = 0 then Inr [] else
     if \<not> in_u32 (offset + limit) then Inl ArithTrap else
     let end_ix = min (offset + limit) total_count
     in Inr (List.map_filter (\<lambda>i. sb_contribution s (ids ! i)) [offset..<end_ix]))"

definition get_contributions :: "budgets_state \<Rightarrow> nat
    \<Rightarrow> shared_budget_error trap + budget_contribution list" where
  "get_contributions s budget_id =
    (case get_budget_contribution_ids s budget_id of Inl t \<Rightarrow> Inl t | Inr ids \<Rightarrow>
     Inr (List.map_filter (sb_contribution s) ids))"

definition get_admin :: "budgets_state \<Rightarrow> shared_budget_error trap + address" where
  "get_admin s = (case sb_admin s of None \<Rightarrow> Inl PanicTrap | Some a \<Rightarrow> Inr a)"

section \<open>The contract\<close>

datatype budgets_call =
    CInitialize address
  | CCreate address symbol "address list" address "budget_spending_rule list"
  | CContribute address nat int "symbol option"
  | CSpend address nat address int
  | CTransferOwnership address nat address
  | CAddMember address nat address
  | CAddRule address nat budget_spending_rule
  | CSetRetention address nat
  | CDeactivate address nat
  | CArchive address nat
  | CSetAdmin address address

fun budgets_exec :: "'led xfer \<Rightarrow> env \<times> budgets_call \<Rightarrow> budgets_state \<times> 'led
    \<Rightarrow> shared_budget_error trap + (budgets_state \<times> 'led)" where
  "budgets_exec xfer (e, CInitialize a) w = final (initialize a w)"
| "budgets_exec xfer (e, CCreate a nm ms t rs) w = final (create_budget e a nm ms t rs w)"
| "budgets_exec xfer (e, CContribute a i n m) w = final (contribute_to_budget xfer e a i n m w)"
| "budgets_exec xfer (e, CSpend a i r n) w = final (spend_from_budget xfer e a i r n w)"
| "budgets_exec xfer (e, CTransferOwnership a i b) w = final (transfer_budget_ownership e a i b w)"
| "budgets_exec xfer (e, CAddMember a i b) w = final (add_member_to_budget e a i b w)"
| "budgets_exec xfer (e, CAddRule a i r) w = final (add_spending_rule e a i r w)"
| "budgets_exec xfer (e, CSetRetention a n) w = final (set_archive_retention_period e a n w)"
| "budgets_exec xfer (e, CDeactivate a i) w = final (deactivate_budget e a i w)"
| "budgets_exec xfer (e, CArchive a n) w = final (archive_inactive_budgets e a n w)"
| "budgets_exec xfer (e, CSetAdmin a b) w = final (set_admin e a b w)"

section \<open>Steps\<close>

lemma budgets_emit_frame [simp]:
  "sb_admin (emit ev s) = sb_admin s" "sb_budget (emit ev s) = sb_budget s"
  "sb_member (emit ev s) = sb_member s" "sb_contribution (emit ev s) = sb_contribution s"
  "sb_contributions_of (emit ev s) = sb_contributions_of s"
  "sb_deactivated_at (emit ev s) = sb_deactivated_at s" "sb_archived (emit ev s) = sb_archived s"
  "sb_retention (emit ev s) = sb_retention s" "sb_total_budgets (emit ev s) = sb_total_budgets s"
  "sb_total_contributions (emit ev s) = sb_total_contributions s"
  by (simp_all add: emit_def)

lemma put_budget_frame [simp]:
  "sb_admin (put_budget i b s) = sb_admin s" "sb_budget (put_budget i b s) = (sb_budget s)(i \<mapsto> b)"
  "sb_member (put_budget i b s) = sb_member s" "sb_contribution (put_budget i b s) = sb_contribution s"
  "sb_contributions_of (put_budget i b s) = sb_contributions_of s"
  "sb_deactivated_at (put_budget i b s) = sb_deactivated_at s" "sb_archived (put_budget i b s) = sb_archived s"
  "sb_retention (put_budget i b s) = sb_retention s" "sb_total_budgets (put_budget i b s) = sb_total_budgets s"
  "sb_total_contributions (put_budget i b s) = sb_total_contributions s"
  by (simp_all add: put_budget_def)

lemma add_members_frame [simp]:
  "sb_admin (add_members i ms s) = sb_admin s" "sb_budget (add_members i ms s) = sb_budget s"
  "sb_contribution (add_members i ms s) = sb_contribution s"
  "sb_contributions_of (add_members i ms s) = sb_contributions_of s"
  "sb_deactivated_at (add_members i ms s) = sb_deactivated_at s" "sb_archived (add_members i ms s) = sb_archived s"
  "sb_retention (add_members i ms s) = sb_retention s" "sb_total_budgets (add_members i ms s) = sb_total_budgets s"
  "sb_total_contributions (add_members i ms s) = sb_total_contributions s"
  "sb_member (add_members i ms s) (j, a) = (if j = i \<and> a \<in> set ms then Some True else sb_member s (j, a))"
  unfolding add_members_def by (induction ms arbitrary: s) auto

lemma budgets_emit_same: "emit ev s = s\<lparr>sb_events := sb_events s @ [ev]\<rparr>"
  by (simp add: emit_def)

text \<open>What the successful calls have checked and written.\<close>

lemma create_Inr:
  assumes "create_budget e a nm ms t rs (s, l) = Inr (i, s', l')"
  shows "i = Suc (get_total_budgets_created s)" "l' = l" "length ms \<le> 20" "length rs \<le> 10"
    "\<forall>r\<in>set rs. sr_percentage_threshold r \<le> 100"
    "s' = emit (BudgetCreated i a ms t) (add_members i ms ((put_budget i \<lparr>bu_id = i, bu_name = nm,
            bu_creator = a, bu_token = t, bu_members = ms, bu_balance = 0, bu_total_contributed = 0,
            bu_spending_rules = rs, bu_is_active = True, bu_created_at = env_timestamp e\<rparr> s)
            \<lparr>sb_total_budgets := Some i\<rparr>))"
  using assms
  by (auto simp: create_budget_def MAX_BUDGET_MEMBERS_def MAX_SPENDING_RULES_def validate_percentage_def
      get_total_budgets_created_def Let_def list_all_iff split: if_splits option.splits)

definition contributed_state :: "env \<Rightarrow> address \<Rightarrow> nat \<Rightarrow> int \<Rightarrow> symbol option \<Rightarrow> budget \<Rightarrow> budgets_state \<Rightarrow> budgets_state" where
  "contributed_state e a i n m b s =
    (let k = Suc (get_total_contribs_processed s);
         s1 = put_budget i (b\<lparr>bu_balance := bu_balance b + n, bu_total_contributed := bu_total_contributed b + n\<rparr>) s
     in emit (ContributionAdded i a n m)
         (s1\<lparr>sb_contribution := (sb_contribution s)(k \<mapsto> \<lparr>bc_budget_id = i, bc_contributor = a,
               bc_amount = n, bc_memo = m, bc_timestamp = env_timestamp e\<rparr>),
             sb_contributions_of := (sb_contributions_of s)(i \<mapsto> unwrap_or (sb_contributions_of s i) [] @ [k]),
             sb_total_contributions := Some k\<rparr>))"

lemma fund_Inr:
  assumes "contribute_to_budget xfer e a i n m (s, l) = Inr (u, s', l')"
  shows "\<exists>b. env_auth e a \<and> 0 < n \<and> sb_budget s i = Some b \<and> bu_is_active b
    \<and> xfer e (bu_token b) a (env_self e) n l = Some l' \<and> s' = contributed_state e a i n m b s"
  using assms
  by (auto simp: contribute_to_budget_def validate_amount_def contributed_state_def
      get_total_contribs_processed_def Let_def split: if_splits option.splits)

lemma spend_Inr:
  assumes "spend_from_budget xfer e a i r n (s, l) = Inr (u, s', l')"
  shows "\<exists>b. env_auth e a \<and> 0 < n \<and> sb_budget s i = Some b \<and> bu_is_active b \<and> is_budget_member s i a
    \<and> n \<le> bu_balance b \<and> enforce_spending_rules b a n (bu_spending_rules b) = Inr ()
    \<and> xfer e (bu_token b) (env_self e) r n l = Some l'
    \<and> s' = emit (ExpenseIncurred i a r n) (put_budget i (b\<lparr>bu_balance := bu_balance b - n\<rparr>) s)"
  using assms
  by (auto simp: spend_from_budget_def validate_amount_def split: if_splits option.splits sum.splits)

text \<open>The calls that rewrite one budget and keep its money, its status and the counters.\<close>

definition same_money :: "budget \<Rightarrow> budget \<Rightarrow> bool" where
  "same_money b b' \<longleftrightarrow> bu_id b' = bu_id b \<and> bu_token b' = bu_token b \<and> bu_balance b' = bu_balance b
     \<and> bu_total_contributed b' = bu_total_contributed b"

lemma transfer_Inr:
  assumes "transfer_budget_ownership e a i b (s, l) = Inr (u, s', l')"
  shows "l' = l \<and> (s' = s \<or> (\<exists>bu. sb_budget s i = Some bu \<and> env_auth e a \<and> env_auth e b \<and> bu_creator bu = a
     \<and> s' = emit (OwnershipTransferred i a b) (put_budget i (bu\<lparr>bu_creator := b\<rparr>) s)))"
  using assms by (auto simp: transfer_budget_ownership_def split: if_splits option.splits)

lemma add_member_Inr:
  assumes "add_member_to_budget e a i b (s, l) = Inr (u, s', l')"
  shows "l' = l \<and> (\<exists>bu. sb_budget s i = Some bu \<and> \<not> is_budget_member s i b \<and> length (bu_members bu) < 20
     \<and> s' = put_budget i (bu\<lparr>bu_members := bu_members bu @ [b]\<rparr>)
              (s\<lparr>sb_member := (sb_member s)((i, b) \<mapsto> True)\<rparr>))"
  using assms
  by (auto simp: add_member_to_budget_def Let_def MAX_BUDGET_MEMBERS_def split: if_splits option.splits sum.splits)

lemma add_rule_Inr:
  assumes "add_spending_rule e a i r (s, l) = Inr (u, s', l')"
  shows "l' = l \<and> (\<exists>bu ev. sb_budget s i = Some bu \<and> sr_percentage_threshold r \<le> 100
     \<and> length (bu_spending_rules bu) < 10
     \<and> s' = put_budget i (bu\<lparr>bu_spending_rules := bu_spending_rules bu @ [r]\<rparr>) (emit ev s))"
  using assms
  by (auto simp: add_spending_rule_def Let_def MAX_SPENDING_RULES_def validate_percentage_def
      split: if_splits option.splits sum.splits)

lemma deactivate_Inr:
  assumes "deactivate_budget e a i (s, l) = Inr (u, s', l')"
  shows "l' = l \<and> (s' = s \<or> (\<exists>bu. sb_budget s i = Some bu \<and> bu_is_active bu
     \<and> s' = emit (BudgetDeactivated i a (env_timestamp e)) ((put_budget i (bu\<lparr>bu_is_active := False\<rparr>) s)
              \<lparr>sb_deactivated_at := (sb_deactivated_at s)(i \<mapsto> env_timestamp e)\<rparr>)))"
  using assms
  by (auto simp: deactivate_budget_def Let_def split: if_splits option.splits sum.splits)

lemma admin_calls_Inr:
  "initialize a (s, l) = Inr (u, s', l') \<Longrightarrow>
     l' = l \<and> sb_admin s = None \<and> s' = s\<lparr>sb_admin := Some a, sb_total_budgets := Some 0,
       sb_total_contributions := Some 0, sb_retention := Some 0\<rparr>"
  "set_archive_retention_period e a n (s, l) = Inr (u, s', l') \<Longrightarrow>
     l' = l \<and> sb_admin s \<noteq> None \<and> s' = s\<lparr>sb_retention := Some n\<rparr>"
  "set_admin e a b (s, l) = Inr (u, s', l') \<Longrightarrow> l' = l \<and> sb_admin s \<noteq> None \<and> s' = s\<lparr>sb_admin := Some b\<rparr>"
  by (auto simp: initialize_def set_archive_retention_period_def set_admin_def require_admin_def
      split: if_splits option.splits sum.splits)

text \<open>The archiving loop keeps whatever a single archiving keeps.\<close>

lemma archive_loop_inv:
  assumes "archive_loop now ret mx ids k s = (n, s')" and "P s"
    and "\<And>s i b at. P s \<Longrightarrow> sb_budget s i = Some b \<Longrightarrow> \<not> bu_is_active b \<Longrightarrow> P (archive_budget now i b at s)"
  shows "P s'"
  using assms(1,2)
proof (induction ids arbitrary: k s)
  case (Cons i ids)
  show ?case
  proof (cases "due_for_archiving now ret s i")
    case None
    with Cons show ?thesis by (auto split: if_splits)
  next
    case (Some x)
    then obtain b at where x: "due_for_archiving now ret s i = Some (b, at)" by (cases x) auto
    then have "P (archive_budget now i b at s)"
      by (intro assms(3) Cons.prems(2)) (auto simp: due_for_archiving_def Let_def split: option.splits if_splits)
    with Cons x show ?thesis by (auto split: if_splits)
  qed
qed simp

lemma archive_Inr:
  assumes "archive_inactive_budgets e a mx (s, l) = Inr (n, s', l')"
  shows "l' = l \<and> sb_admin s \<noteq> None
    \<and> (s' = s \<or> (\<exists>ret ids. archive_loop (env_timestamp e) ret mx ids 0 s = (n, s')))"
  using assms
  by (auto simp: archive_inactive_budgets_def Let_def require_admin_def
      split: if_splits option.splits sum.splits prod.splits)

lemma archive_budget_frame [simp]:
  "sb_admin (archive_budget now i b at s) = sb_admin s"
  "sb_budget (archive_budget now i b at s) = (sb_budget s)(i := None)"
  "sb_member (archive_budget now i b at s) = sb_member s"
  "sb_contribution (archive_budget now i b at s) = sb_contribution s"
  "sb_contributions_of (archive_budget now i b at s) = sb_contributions_of s"
  "sb_archived (archive_budget now i b at s) = (sb_archived s)(i \<mapsto> \<lparr>ab_budget = b, ab_deactivated_at = at,
     ab_archived_at = now, ab_contribution_ids = unwrap_or (sb_contributions_of s i) []\<rparr>)"
  "sb_total_budgets (archive_budget now i b at s) = sb_total_budgets s"
  "sb_total_contributions (archive_budget now i b at s) = sb_total_contributions s"
  by (simp_all add: archive_budget_def)

lemma contributed_state_frame [simp]:
  "sb_admin (contributed_state e a i n m b s) = sb_admin s"
  "sb_budget (contributed_state e a i n m b s) = (sb_budget s)(i \<mapsto>
     b\<lparr>bu_balance := bu_balance b + n, bu_total_contributed := bu_total_contributed b + n\<rparr>)"
  "sb_member (contributed_state e a i n m b s) = sb_member s"
  "sb_archived (contributed_state e a i n m b s) = sb_archived s"
  "sb_total_budgets (contributed_state e a i n m b s) = sb_total_budgets s"
  by (simp_all add: contributed_state_def Let_def)

section \<open>Solvency\<close>

definition budget_weight :: "address \<Rightarrow> budget \<Rightarrow> int" where
  "budget_weight t b = (if bu_token b = t then bu_balance b else 0)"

text \<open>What the contract owes in a token: the balances of its live and of its archived budgets.\<close>

definition owed :: "budgets_state \<Rightarrow> address \<Rightarrow> int" where
  "owed s t = total_over (budget_weight t) (sb_budget s)
            + total_over (\<lambda>x. budget_weight t (ab_budget x)) (sb_archived s)"

definition budgets_sound :: "('led \<Rightarrow> address \<Rightarrow> address \<Rightarrow> int) \<Rightarrow> address \<Rightarrow> budgets_state \<times> 'led \<Rightarrow> bool" where
  "budgets_sound bal c w \<longleftrightarrow> (case w of (s, l) \<Rightarrow>
     finite (dom (sb_budget s)) \<and> finite (dom (sb_archived s))
   \<and> (\<forall>i b. sb_budget s i = Some b \<longrightarrow> 0 \<le> bu_balance b)
   \<and> (\<forall>i x. sb_archived s i = Some x \<longrightarrow> 0 \<le> bu_balance (ab_budget x))
   \<and> (\<forall>t. owed s t \<le> bal l t c))"

text \<open>Calls run by the contract \<open>c\<close> that do not name it as the paying contributor or as the payee.\<close>

definition careful_budgets :: "address \<Rightarrow> env \<times> budgets_call \<Rightarrow> bool" where
  "careful_budgets c ec \<longleftrightarrow> env_self (fst ec) = c
    \<and> (case snd ec of CContribute a i n m \<Rightarrow> a \<noteq> c | CSpend a i r n \<Rightarrow> r \<noteq> c | _ \<Rightarrow> True)"

lemma budget_weight_nonneg: "0 \<le> bu_balance b \<Longrightarrow> 0 \<le> budget_weight t b"
  by (simp add: budget_weight_def)

lemma sound_put:
  fixes b' and s' :: budgets_state and i defines "b' \<equiv> the (sb_budget s' i)"
  assumes "budgets_sound bal c (s, l)" and "sb_budget s' = (sb_budget s)(i \<mapsto> b')" and "sb_archived s' = sb_archived s"
    and "0 \<le> bu_balance b'"
    and "\<And>t. budget_weight t b' - opt_weight (budget_weight t) (sb_budget s i) \<le> bal l' t c - bal l t c"
  shows "budgets_sound bal c (s', l')"
proof -
  have "owed s' t \<le> bal l' t c" for t
  proof -
    have "owed s' t = owed s t + budget_weight t b' - opt_weight (budget_weight t) (sb_budget s i)"
      using assms(2) by (simp add: owed_def assms(3,4) total_over_update budgets_sound_def)
    moreover have "owed s t \<le> bal l t c" using assms(2) by (simp add: budgets_sound_def)
    ultimately show ?thesis using assms(6) [of t] by linarith
  qed
  with assms show ?thesis by (auto simp: budgets_sound_def)
qed

lemma sound_same:
  "budgets_sound bal c (s, l) \<Longrightarrow> sb_budget s' = sb_budget s \<Longrightarrow> sb_archived s' = sb_archived s
   \<Longrightarrow> budgets_sound bal c (s', l)"
  by (simp add: budgets_sound_def owed_def)

lemma sound_archive:
  assumes "budgets_sound bal c (s, l)" and "sb_budget s i = Some b"
  shows "budgets_sound bal c (archive_budget now i b at s, l)"
proof -
  have fin: "finite (dom (sb_budget s))" "finite (dom (sb_archived s))"
    and old: "0 \<le> opt_weight (\<lambda>x. budget_weight t (ab_budget x)) (sb_archived s i)" for t
    using assms(1) by (auto simp: budgets_sound_def opt_weight_def budget_weight_nonneg split: option.splits)
  have "owed (archive_budget now i b at s) t \<le> bal l t c" for t
  proof -
    have "owed (archive_budget now i b at s) t \<le> owed s t"
      using fin old [of t] assms(2) by (simp add: owed_def total_over_update total_over_delete)
    also have "\<dots> \<le> bal l t c" using assms(1) by (simp add: budgets_sound_def)
    finally show ?thesis .
  qed
  with assms show ?thesis by (auto simp: budgets_sound_def)
qed

lemma budgets_exec_sound:
  assumes "token_client xfer bal" and "budgets_sound bal c w" and "careful_budgets c ec"
    and "budgets_exec xfer ec w = Inr w'"
  shows "budgets_sound bal c w'"
proof -
  obtain e call s l s' l' where eq: "ec = (e, call)" "w = (s, l)" "w' = (s', l')"
    by (cases ec; cases w; cases w')
  note run = assms(4) [unfolded eq]
  have c: "env_self e = c" using assms(3) by (simp add: careful_budgets_def eq)
  have sound: "budgets_sound bal c (s, l)" using assms(2) by (simp add: eq)
  then have keep: "0 \<le> bu_balance b" if "sb_budget s i = Some b" for i b
    using that by (simp add: budgets_sound_def)
  then have old: "0 \<le> opt_weight (budget_weight t) (sb_budget s i)" for t i
    by (auto simp: opt_weight_def budget_weight_nonneg split: option.splits)
  note moves = token_client.xfer_balance [OF assms(1)]
  have "budgets_sound bal c (s', l')"
  proof (cases call)
    case (CCreate a nm ms t rs)
    with run obtain i where st: "create_budget e a nm ms t rs (s, l) = Inr (i, s', l')" by auto
    note new = create_Inr [OF st]
    show ?thesis
      using old by (intro sound_put [OF sound, where i = i]) (simp_all add: new(2,6) budget_weight_def)
  next
    case (CContribute a i n m)
    with run obtain u where st: "contribute_to_budget xfer e a i n m (s, l) = Inr (u, s', l')" by auto
    from fund_Inr [OF st] obtain b where
      b: "sb_budget s i = Some b" "0 < n" "xfer e (bu_token b) a c n l = Some l'" "s' = contributed_state e a i n m b s"
      using c by auto
    have "a \<noteq> c" using assms(3) CContribute by (simp add: careful_budgets_def eq)
    with moves [OF b(3)] b keep [OF b(1)] show ?thesis
      by (intro sound_put [OF sound, where i = i]) (simp_all add: budget_weight_def)
  next
    case (CSpend a i r n)
    with run obtain u where st: "spend_from_budget xfer e a i r n (s, l) = Inr (u, s', l')" by auto
    from spend_Inr [OF st] obtain b where b: "sb_budget s i = Some b" "n \<le> bu_balance b"
      "xfer e (bu_token b) c r n l = Some l'"
      "s' = emit (ExpenseIncurred i a r n) (put_budget i (b\<lparr>bu_balance := bu_balance b - n\<rparr>) s)"
      using c by auto
    have "r \<noteq> c" using assms(3) CSpend by (simp add: careful_budgets_def eq)
    with moves [OF b(3)] b show ?thesis
      by (intro sound_put [OF sound, where i = i]) (auto simp: budget_weight_def)
  next
    case (CTransferOwnership a i b)
    with run obtain u where "transfer_budget_ownership e a i b (s, l) = Inr (u, s', l')" by auto
    from transfer_Inr [OF this] sound keep show ?thesis
      by (auto intro!: sound_put [OF sound, where i = i] simp: budget_weight_def)
  next
    case (CAddMember a i b)
    with run obtain u where "add_member_to_budget e a i b (s, l) = Inr (u, s', l')" by auto
    from add_member_Inr [OF this] keep show ?thesis
      by (auto intro!: sound_put [OF sound, where i = i] simp: budget_weight_def)
  next
    case (CAddRule a i r)
    with run obtain u where "add_spending_rule e a i r (s, l) = Inr (u, s', l')" by auto
    from add_rule_Inr [OF this] keep show ?thesis
      by (auto intro!: sound_put [OF sound, where i = i] simp: budget_weight_def)
  next
    case (CDeactivate a i)
    with run obtain u where "deactivate_budget e a i (s, l) = Inr (u, s', l')" by auto
    from deactivate_Inr [OF this] sound keep show ?thesis
      by (auto intro!: sound_put [OF sound, where i = i] simp: budget_weight_def)
  next
    case (CArchive a n)
    with run obtain k where "archive_inactive_budgets e a n (s, l) = Inr (k, s', l')" by auto
    from archive_Inr [OF this] sound show ?thesis
      by (auto elim!: archive_loop_inv [where P = "\<lambda>s. budgets_sound bal c (s, l)"] intro: sound_archive)
  next
    case (CInitialize a)
    with run obtain u where "initialize a (s, l) = Inr (u, s', l')" by auto
    from admin_calls_Inr(1) [OF this] show ?thesis by (auto intro: sound_same [OF sound])
  next
    case (CSetRetention a n)
    with run obtain u where "set_archive_retention_period e a n (s, l) = Inr (u, s', l')" by auto
    from admin_calls_Inr(2) [OF this] show ?thesis by (auto intro: sound_same [OF sound])
  next
    case (CSetAdmin a b)
    with run obtain u where "set_admin e a b (s, l) = Inr (u, s', l')" by auto
    from admin_calls_Inr(3) [OF this] show ?thesis by (auto intro: sound_same [OF sound])
  qed
  then show ?thesis by (simp add: eq)
qed

interpretation budgets_money:
  contract_invariant "budgets_exec token_xfer" "budgets_sound token_bal c" "careful_budgets c" for c
  by unfold_locales (rule budgets_exec_sound [OF token_ledger.token_client_axioms])

section \<open>The books\<close>

text \<open>The record of a budget, live or archived.\<close>

definition record_of :: "budgets_state \<Rightarrow> nat \<Rightarrow> budget option" where
  "record_of s i = (case sb_budget s i of Some b \<Rightarrow> Some b | None \<Rightarrow> map_option ab_budget (sb_archived s i))"

definition ids_for :: "budgets_state \<Rightarrow> nat \<Rightarrow> nat list" where
  "ids_for s i = filter (\<lambda>k. \<exists>x. sb_contribution s k = Some x \<and> bc_budget_id x = i)
     [1..<Suc (get_total_contribs_processed s)]"

definition contributed_sum :: "budgets_state \<Rightarrow> nat \<Rightarrow> int" where
  "contributed_sum s i = sum_list (map (\<lambda>k. bc_amount (the (sb_contribution s k))) (ids_for s i))"

definition budget_good :: "budgets_state \<Rightarrow> nat \<Rightarrow> budget \<Rightarrow> bool" where
  "budget_good s i b \<longleftrightarrow> bu_id b = i \<and> 0 \<le> bu_balance b \<and> bu_balance b \<le> bu_total_contributed b
     \<and> bu_total_contributed b = contributed_sum s i
     \<and> (\<forall>a. is_budget_member s i a \<longleftrightarrow> a \<in> set (bu_members b))
     \<and> length (bu_members b) \<le> 20 \<and> length (bu_spending_rules b) \<le> 10
     \<and> (\<forall>r\<in>set (bu_spending_rules b). sr_percentage_threshold r \<le> 100)"

definition budgets_wf :: "budgets_state \<Rightarrow> bool" where
  "budgets_wf s \<longleftrightarrow> sb_admin s \<noteq> None
     \<and> dom (record_of s) = {1..get_total_budgets_created s}
     \<and> (\<forall>i. sb_budget s i \<noteq> None \<longrightarrow> sb_archived s i = None)
     \<and> (\<forall>i a. record_of s i = None \<longrightarrow> sb_member s (i, a) = None)
     \<and> dom (sb_contribution s) = {1..get_total_contribs_processed s}
     \<and> (\<forall>k c. sb_contribution s k = Some c \<longrightarrow> record_of s (bc_budget_id c) \<noteq> None)
     \<and> (\<forall>i. unwrap_or (sb_contributions_of s i) [] = ids_for s i)
     \<and> (\<forall>i b. record_of s i = Some b \<longrightarrow> budget_good s i b)
     \<and> (\<forall>i x. sb_archived s i = Some x \<longrightarrow>
          \<not> bu_is_active (ab_budget x) \<and> ab_contribution_ids x = ids_for s i)"

definition money_kept :: "budgets_state \<Rightarrow> budgets_state \<Rightarrow> bool" where
  "money_kept s s' \<longleftrightarrow> (\<forall>i b. record_of s i = Some b \<and> \<not> bu_is_active b \<longrightarrow>
     (\<exists>b'. record_of s' i = Some b' \<and> \<not> bu_is_active b' \<and> same_money b b'))"

text \<open>A call that touches neither the contributions nor the set of budgets and rewrites at most the
  record of one budget.\<close>

lemma wf_put:
  assumes "budgets_wf s" and b: "sb_budget s i = Some b"
    and new: "sb_budget s' = (sb_budget s)(i \<mapsto> the (sb_budget s' i))" "sb_archived s' = sb_archived s" "sb_admin s' \<noteq> None"
    and same: "sb_contribution s' = sb_contribution s" "sb_contributions_of s' = sb_contributions_of s"
      "sb_total_budgets s' = sb_total_budgets s" "sb_total_contributions s' = sb_total_contributions s"
    and members: "\<And>j a. j \<noteq> i \<Longrightarrow> sb_member s' (j, a) = sb_member s (j, a)"
    and good: "budget_good s i b \<Longrightarrow> budget_good s' i (the (sb_budget s' i))"
  shows "budgets_wf s'"
proof -
  define b' where "b' = the (sb_budget s' i)"
  have new1: "sb_budget s' i = Some b'" and other: "\<And>j. j \<noteq> i \<Longrightarrow> sb_budget s' j = sb_budget s j"
    using new(1) unfolding b'_def by (metis fun_upd_same, metis fun_upd_other)
  have old: "sb_archived s i = None" "record_of s i = Some b"
    using assms(1) b by (auto simp: budgets_wf_def record_of_def)
  have rec: "record_of s' j = (if j = i then Some b' else record_of s j)" for j
    using new1 other new(2) by (simp add: record_of_def split: option.split)
  then have dom: "record_of s' j = None \<longleftrightarrow> record_of s j = None" for j using old(2) by simp
  then have dom': "dom (record_of s') = dom (record_of s)" by (simp add: dom_def)
  have ids: "ids_for s' = ids_for s" "contributed_sum s' = contributed_sum s"
    using same by (simp_all add: fun_eq_iff ids_for_def contributed_sum_def get_total_contribs_processed_def)
  have "budget_good s' j x" if "record_of s' j = Some x" for j x
  proof (cases "j = i")
    case True
    with that assms(1) good old rec show ?thesis by (simp add: budgets_wf_def b'_def)
  next
    case False
    with that rec have "budget_good s j x" using assms(1) by (simp add: budgets_wf_def)
    with False members show ?thesis by (simp add: budget_good_def ids is_budget_member_def)
  qed
  moreover have "sb_archived s' j = None" if "sb_budget s' j \<noteq> None" for j
    using that assms(1) other old(1) new(2) by (cases "j = i") (simp_all add: budgets_wf_def)
  moreover have "sb_member s' (j, a) = None" if "record_of s' j = None" for j a
    using that assms(1) members old(2) dom by (cases "j = i") (simp_all add: budgets_wf_def)
  ultimately show ?thesis
    using assms(1) new(3) unfolding budgets_wf_def
    by (simp add: dom dom' ids same new(2) get_total_budgets_created_def get_total_contribs_processed_def)
qed

lemma money_kept_put:
  assumes "sb_budget s i = Some b" and "sb_budget s' i = Some b'"
    and "\<And>j. j \<noteq> i \<Longrightarrow> sb_budget s' j = sb_budget s j" "sb_archived s' = sb_archived s"
    and "\<not> bu_is_active b \<Longrightarrow> \<not> bu_is_active b' \<and> same_money b b'"
  shows "money_kept s s'"
  unfolding money_kept_def
proof (intro allI impI, elim conjE)
  fix j x assume x: "record_of s j = Some x" "\<not> bu_is_active x"
  show "\<exists>y. record_of s' j = Some y \<and> \<not> bu_is_active y \<and> same_money x y"
  proof (cases "j = i")
    case True
    with x assms show ?thesis by (auto simp: record_of_def)
  next
    case False
    with assms have "record_of s' j = record_of s j" by (simp add: record_of_def split: option.split)
    with x show ?thesis by (simp add: same_money_def)
  qed
qed

lemma same_money_refl [simp]: "same_money b b"
  by (simp add: same_money_def)

lemma money_kept_same: "sb_budget s' = sb_budget s \<Longrightarrow> sb_archived s' = sb_archived s \<Longrightarrow> money_kept s s'"
proof -
  assume "sb_budget s' = sb_budget s" and "sb_archived s' = sb_archived s"
  then have "record_of s' = record_of s" by (simp add: fun_eq_iff record_of_def split: option.split)
  then show ?thesis by (simp add: money_kept_def same_money_def)
qed

lemma money_kept_trans: "money_kept s t \<Longrightarrow> money_kept t u \<Longrightarrow> money_kept s u"
  unfolding money_kept_def same_money_def by metis

lemma wf_same:
  assumes "budgets_wf s" and "sb_admin s' \<noteq> None"
    and "sb_budget s' = sb_budget s" "sb_archived s' = sb_archived s" "sb_member s' = sb_member s"
      "sb_contribution s' = sb_contribution s" "sb_contributions_of s' = sb_contributions_of s"
      "sb_total_budgets s' = sb_total_budgets s" "sb_total_contributions s' = sb_total_contributions s"
  shows "budgets_wf s'"
proof -
  have rec: "record_of s' = record_of s" "ids_for s' = ids_for s" "contributed_sum s' = contributed_sum s"
    "budget_good s' = budget_good s"
    using assms(3-) by (simp_all add: record_of_def [abs_def] ids_for_def [abs_def] contributed_sum_def [abs_def]
        get_total_contribs_processed_def budget_good_def [abs_def] is_budget_member_def
        cong: option.case_cong)
  show ?thesis
    using assms(1,2) unfolding budgets_wf_def
    by (simp add: rec assms get_total_budgets_created_def get_total_contribs_processed_def)
qed

lemma record_of_archive [simp]:
  "sb_budget s i = Some b \<Longrightarrow> record_of (archive_budget now i b at s) = record_of s"
  by (auto simp: fun_eq_iff record_of_def split: option.split)

lemma wf_archive:
  assumes "budgets_wf s" and b: "sb_budget s i = Some b" and off: "\<not> bu_is_active b"
  shows "budgets_wf (archive_budget now i b at s)" (is "budgets_wf ?s")
proof -
  have rec: "record_of ?s = record_of s" using b by simp
  have same: "ids_for ?s = ids_for s" "contributed_sum ?s = contributed_sum s" "budget_good ?s = budget_good s"
    by (simp_all add: fun_eq_iff ids_for_def contributed_sum_def get_total_contribs_processed_def
        budget_good_def is_budget_member_def)
  show ?thesis
    using assms(1) off unfolding budgets_wf_def
    by (simp add: rec same get_total_budgets_created_def get_total_contribs_processed_def)
qed

lemma money_kept_archive:
  "sb_budget s i = Some b \<Longrightarrow> money_kept s (archive_budget now i b at s)"
  by (simp add: money_kept_def same_money_def)

lemma wf_create:
  assumes "budgets_wf s" and "create_budget e a nm ms t rs (s, l) = Inr (i, s', l')"
  shows "budgets_wf s' \<and> money_kept s s'"
proof -
  note new = create_Inr [OF assms(2)]
  note wf = assms(1) [unfolded budgets_wf_def]
  have i: "record_of s i = None" using wf new(1) by (metis atLeastAtMost_iff domIff not_less_eq_eq order_refl)
  then have fresh: "sb_budget s i = None" "sb_archived s i = None" by (auto simp: record_of_def split: option.splits)
  define b where "b = the (sb_budget s' i)"
  have b: "sb_budget s' = (sb_budget s)(i \<mapsto> b)" "bu_id b = i" "bu_balance b = 0" "bu_total_contributed b = 0"
    "bu_members b = ms" "bu_spending_rules b = rs"
    by (simp_all add: b_def new(6))
  have rec: "record_of s' j = (if j = i then Some b else record_of s j)" for j
    using fresh by (simp add: record_of_def b(1)) (simp add: new(6) split: option.split)
  have same: "ids_for s' = ids_for s" "contributed_sum s' = contributed_sum s"
    by (simp_all add: new(6) fun_eq_iff ids_for_def contributed_sum_def get_total_contribs_processed_def)
  have "ids_for s i = []"
    using wf i unfolding ids_for_def filter_empty_conv by blast
  then have "budget_good s' i b"
    using wf i new(3,4,5) b(2-) unfolding budget_good_def same
    by (auto simp: contributed_sum_def is_budget_member_def new(6) unwrap_or_def)
  moreover have "budget_good s' j x" if "j \<noteq> i" "record_of s j = Some x" for j x
  proof -
    have "budget_good s j x" using that(2) wf by simp
    with that(1) show ?thesis unfolding budget_good_def same by (simp add: is_budget_member_def new(6))
  qed
  ultimately have good: "\<forall>j x. record_of s' j = Some x \<longrightarrow> budget_good s' j x" by (simp add: rec)
  have frame: "sb_admin s' = sb_admin s" "sb_archived s' = sb_archived s" "sb_contribution s' = sb_contribution s"
    "sb_contributions_of s' = sb_contributions_of s" "get_total_budgets_created s' = i"
    "get_total_contribs_processed s' = get_total_contribs_processed s"
    "j \<noteq> i \<Longrightarrow> sb_member s' (j, x) = sb_member s (j, x)" for j x
    by (simp_all add: new(6) get_total_budgets_created_def get_total_contribs_processed_def)
  have "dom (record_of s') = insert i (dom (record_of s))" by (auto simp: rec split: if_splits)
  then have "dom (record_of s') = {1..i}" using wf new(1) by (simp add: atLeastAtMostSuc_conv)
  then have "budgets_wf s'"
    using wf fresh i good unfolding budgets_wf_def frame(1-6) same by (simp add: rec b(1) frame(7))
  moreover have "money_kept s s'"
    using i by (auto simp: money_kept_def rec same_money_def)
  ultimately show ?thesis ..
qed

lemma ids_for_snoc:
  assumes "k = Suc (get_total_contribs_processed s)" and "sb_total_contributions s' = Some k"
    and "sb_contribution s' = (sb_contribution s)(k \<mapsto> c)"
  shows "ids_for s' j = ids_for s j @ (if j = bc_budget_id c then [k] else [])"
proof -
  have "filter (\<lambda>q. \<exists>x. sb_contribution s' q = Some x \<and> bc_budget_id x = j) [1..<k]
      = filter (\<lambda>q. \<exists>x. sb_contribution s q = Some x \<and> bc_budget_id x = j) [1..<k]"
    by (rule filter_cong) (auto simp: assms(3))
  with assms(1) show ?thesis
    by (auto simp: ids_for_def get_total_contribs_processed_def assms(2) assms(3))
qed

lemma ids_for_bound: "k \<in> set (ids_for s j) \<Longrightarrow> k \<le> get_total_contribs_processed s"
  by (auto simp: ids_for_def)

lemma wf_contribute:
  assumes "budgets_wf s" and b: "sb_budget s i = Some b" and "0 < n"
  shows "budgets_wf (contributed_state e a i n m b s)" (is "budgets_wf ?s")
proof -
  note wf = assms(1) [unfolded budgets_wf_def]
  define k where "k = Suc (get_total_contribs_processed s)"
  define c where "c = \<lparr>bc_budget_id = i, bc_contributor = a, bc_amount = n, bc_memo = m, bc_timestamp = env_timestamp e\<rparr>"
  define b' where "b' = b\<lparr>bu_balance := bu_balance b + n, bu_total_contributed := bu_total_contributed b + n\<rparr>"
  have old: "sb_archived s i = None" "record_of s i = Some b"
    using wf b by (auto simp: record_of_def)
  have new: "sb_budget ?s = (sb_budget s)(i \<mapsto> b')" "sb_contribution ?s = (sb_contribution s)(k \<mapsto> c)"
    "sb_contributions_of ?s = (sb_contributions_of s)(i \<mapsto> unwrap_or (sb_contributions_of s i) [] @ [k])"
    "sb_total_contributions ?s = Some k" "bc_budget_id c = i" "bc_amount c = n"
    by (simp_all add: contributed_state_def Let_def k_def c_def b'_def)
  have rec: "record_of ?s j = (if j = i then Some b' else record_of s j)" for j
    by (simp add: record_of_def b'_def split: option.split)
  then have dom: "record_of ?s j = None \<longleftrightarrow> record_of s j = None" for j using old(2) by simp
  then have dom': "dom (record_of ?s) = dom (record_of s)" by (simp add: dom_def)
  note ids = ids_for_snoc [OF k_def new(4,2), unfolded new(5)]
  have amounts: "map (\<lambda>q. bc_amount (the (sb_contribution ?s q))) (ids_for s j)
      = map (\<lambda>q. bc_amount (the (sb_contribution s q))) (ids_for s j)" for j
    by (rule map_cong) (use ids_for_bound [of _ s j] in \<open>fastforce simp: new(2) k_def\<close>)+
  have sum: "contributed_sum ?s j = contributed_sum s j + (if j = i then n else 0)" for j
    unfolding contributed_sum_def ids map_append amounts by (simp add: new(2,6))
  have "budget_good ?s j x" if "record_of ?s j = Some x" for j x
  proof (cases "j = i")
    case True
    have "budget_good s i b" using wf old(2) by simp
    with that True assms(3) show ?thesis
      by (auto simp: rec budget_good_def sum b'_def is_budget_member_def)
  next
    case False
    with that rec have "budget_good s j x" using wf by simp
    with False show ?thesis by (simp add: budget_good_def sum is_budget_member_def)
  qed
  moreover have "dom (sb_contribution ?s) = {1..k}"
    using wf by (simp add: new(2) k_def atLeastAtMostSuc_conv insert_commute)
  moreover have "unwrap_or (sb_contributions_of ?s j) [] = ids_for ?s j" for j
    using wf by (simp add: ids new(3))
  moreover have "record_of ?s (bc_budget_id x) \<noteq> None" if "sb_contribution ?s q = Some x" for q x
    using that wf old(2) new(5) unfolding dom by (cases "q = k") (auto simp: new(2))
  moreover have "sb_archived s j = None" if "sb_budget ?s j \<noteq> None" for j
    using that wf old(1) by (cases "j = i") (simp_all add: new(1))
  moreover have "ids_for ?s j = ids_for s j" if "sb_archived s j = Some x" for j x
    using that old(1) by (cases "j = i") (simp_all add: ids)
  ultimately show ?thesis
    using wf unfolding budgets_wf_def
    by (simp add: dom dom' get_total_budgets_created_def get_total_contribs_processed_def new(4))
qed

lemma wf_spend:
  assumes "budgets_wf s" and "sb_budget s i = Some b" and "0 < n" "n \<le> bu_balance b"
  shows "budgets_wf (emit ev (put_budget i (b\<lparr>bu_balance := bu_balance b - n\<rparr>) s))"
  by (rule wf_put [OF assms(1,2)])
    (use assms in \<open>auto simp: budgets_wf_def budget_good_def is_budget_member_def contributed_sum_def
       ids_for_def get_total_contribs_processed_def\<close>)

lemmas budget_good_eval = budget_good_def is_budget_member_def contributed_sum_def ids_for_def
  get_total_contribs_processed_def

lemma budgets_exec_wf:
  assumes "budgets_exec xfer (e, call) (s, l) = Inr (s', l')" and wf: "budgets_wf s"
  shows "budgets_wf s' \<and> money_kept s s'"
proof -
  obtain adm where admin: "sb_admin s = Some adm" using wf by (auto simp: budgets_wf_def)
  have nop: ?thesis if "s' = s" using that wf money_kept_same [of s s] by simp
  show ?thesis
  proof (cases call)
    case (CCreate a nm ms t rs)
    with assms(1) obtain i where "create_budget e a nm ms t rs (s, l) = Inr (i, s', l')" by auto
    then show ?thesis by (rule wf_create [OF wf])
  next
    case (CContribute a i n m)
    with assms(1) obtain u where "contribute_to_budget xfer e a i n m (s, l) = Inr (u, s', l')" by auto
    from fund_Inr [OF this] show ?thesis
      by (auto intro: wf_contribute [OF wf] intro!: money_kept_put [of s i])
  next
    case (CSpend a i r n)
    with assms(1) obtain u where "spend_from_budget xfer e a i r n (s, l) = Inr (u, s', l')" by auto
    from spend_Inr [OF this] show ?thesis
      by (auto intro: wf_spend [OF wf] intro!: money_kept_put [of s i])
  next
    case (CTransferOwnership a i b)
    with assms(1) obtain u where "transfer_budget_ownership e a i b (s, l) = Inr (u, s', l')" by auto
    note st = transfer_Inr [OF this]
    show ?thesis
    proof (cases "s' = s")
      case False
      with st show ?thesis
        by (auto intro!: wf_put [OF wf, of i] money_kept_put [of s i] simp: admin same_money_def budget_good_eval)
    qed (rule nop)
  next
    case (CAddMember a i b)
    with assms(1) obtain u where "add_member_to_budget e a i b (s, l) = Inr (u, s', l')" by auto
    from add_member_Inr [OF this] show ?thesis
      by (auto intro!: wf_put [OF wf, of i] money_kept_put [of s i] simp: admin same_money_def budget_good_eval)
  next
    case (CAddRule a i r)
    with assms(1) obtain u where "add_spending_rule e a i r (s, l) = Inr (u, s', l')" by auto
    from add_rule_Inr [OF this] show ?thesis
      by (auto intro!: wf_put [OF wf, of i] money_kept_put [of s i] simp: admin same_money_def budget_good_eval)
  next
    case (CDeactivate a i)
    with assms(1) obtain u where "deactivate_budget e a i (s, l) = Inr (u, s', l')" by auto
    note st = deactivate_Inr [OF this]
    show ?thesis
    proof (cases "s' = s")
      case False
      with st show ?thesis
        by (auto intro!: wf_put [OF wf, of i] money_kept_put [of s i] simp: admin same_money_def budget_good_eval)
    qed (rule nop)
  next
    case (CArchive a n)
    with assms(1) obtain k where "archive_inactive_budgets e a n (s, l) = Inr (k, s', l')" by auto
    from archive_Inr [OF this] nop wf show ?thesis
      by (auto elim!: archive_loop_inv [where P = "\<lambda>t. budgets_wf t \<and> money_kept s t"]
          intro: wf_archive money_kept_trans money_kept_archive money_kept_same)
  next
    case (CInitialize a)
    with assms(1) obtain u where "initialize a (s, l) = Inr (u, s', l')" by auto
    from admin_calls_Inr(1) [OF this] admin show ?thesis by simp
  next
    case (CSetRetention a n)
    with assms(1) obtain u where "set_archive_retention_period e a n (s, l) = Inr (u, s', l')" by auto
    from admin_calls_Inr(2) [OF this] show ?thesis by (auto intro!: wf_same [OF wf] money_kept_same)
  next
    case (CSetAdmin a b)
    with assms(1) obtain u where "set_admin e a b (s, l) = Inr (u, s', l')" by auto
    from admin_calls_Inr(3) [OF this] show ?thesis by (auto intro!: wf_same [OF wf] money_kept_same)
  qed
qed

interpretation budgets_ledger:
  contract_invariant "budgets_exec xfer" "\<lambda>w. budgets_wf (fst w)" "\<lambda>_. True" for xfer :: "'led xfer"
proof unfold_locales
  fix w w' :: "budgets_state \<times> 'led" and ec
  assume "budgets_wf (fst w)" and "budgets_exec xfer ec w = Inr w'"
  then show "budgets_wf (fst w')"
    by (cases ec; cases w; cases w') (auto dest: budgets_exec_wf)
qed

interpretation budgets_frozen:
  contract_relation "budgets_exec xfer" "\<lambda>w w'. budgets_wf (fst w) \<longrightarrow> budgets_wf (fst w') \<and> money_kept (fst w) (fst w')"
    "\<lambda>_. True" for xfer :: "'led xfer"
proof unfold_locales
  fix w w' :: "budgets_state \<times> 'led" and ec
  assume "budgets_exec xfer ec w = Inr w'"
  then show "budgets_wf (fst w) \<longrightarrow> budgets_wf (fst w') \<and> money_kept (fst w) (fst w')"
    by (cases ec; cases w; cases w') (auto dest: budgets_exec_wf)
qed (auto intro: money_kept_same money_kept_trans)

lemma wf_initialized: "final (initialize a (budgets_fresh, l)) = Inr (s, l') \<Longrightarrow> budgets_wf s"
  by (auto simp: initialize_def budgets_fresh_def budgets_wf_def record_of_def ids_for_def
      get_total_budgets_created_def get_total_contribs_processed_def dom_def)

lemma run_wf:
  assumes "run (budgets_exec xfer) ((e, CInitialize a) # cs) (budgets_fresh, l) = (s, l')"
  shows "budgets_wf s"
proof -
  obtain s0 l0 where i: "budgets_exec xfer (e, CInitialize a) (budgets_fresh, l) = Inr (s0, l0)"
    by (simp add: initialize_def budgets_fresh_def)
  then have "budgets_wf (fst (run (budgets_exec xfer) cs (s0, l0)))"
    by (intro budgets_ledger.run_inv) (auto intro: wf_initialized)
  with assms i show ?thesis by simp
qed

lemma enforce_iff:
  "enforce_spending_rules b a n rs = Inr () \<longleftrightarrow>
   (\<forall>r\<in>set rs. sr_applicable_to r = a \<longrightarrow> sr_requires_approval r
      \<or> n \<le> rule_threshold (bu_total_contributed b) (sr_percentage_threshold r))"
  by (induction rs) auto

lemma ids_for_listed: "k \<in> set (ids_for s i) \<Longrightarrow> \<exists>x. sb_contribution s k = Some x \<and> bc_budget_id x = i"
  by (simp add: ids_for_def del: upt_Suc)

lemma contributions_listed:
  assumes "budgets_wf s" and "record_of s i \<noteq> None"
  shows "get_budget_contribution_ids s i = Inr (ids_for s i)"
    and "get_contributions s i = Inr (map (\<lambda>k. the (sb_contribution s k)) (ids_for s i))"
proof -
  show ids: "get_budget_contribution_ids s i = Inr (ids_for s i)"
    using assms by (auto simp: get_budget_contribution_ids_def budgets_wf_def record_of_def split: option.splits)
  have "List.map_filter (sb_contribution s) (ids_for s i) = map (\<lambda>k. the (sb_contribution s k)) (ids_for s i)"
    by (rule map_filter_total) (auto dest: ids_for_listed)
  then show "get_contributions s i = Inr (map (\<lambda>k. the (sb_contribution s k)) (ids_for s i))"
    by (simp add: get_contributions_def ids)
qed

section \<open>Properties\<close>

text \<open>C4: The shared budgets stay solvent.  As long as the contract itself is neither the contributor
  nor the recipient of a spend, its balance in every token covers the balances of all live and
  archived budgets in that token after any sequence of calls, so every recorded balance is there.\<close>

theorem budgets_solvent:
  assumes "token_client xfer bal" and "\<And>t. 0 \<le> bal l t c" and "\<And>ec. ec \<in> set cs \<Longrightarrow> careful_budgets c ec"
    and "run (budgets_exec xfer) cs (budgets_fresh, l) = (s, l')"
  shows "owed s t \<le> bal l' t c \<and> opt_weight (budget_weight t) (sb_budget s i) \<le> bal l' t c"
proof -
  have "contract_invariant (budgets_exec xfer) (budgets_sound bal c) (careful_budgets c)"
    by unfold_locales (rule budgets_exec_sound [OF assms(1)])
  moreover have "budgets_sound bal c (budgets_fresh, l)"
    using assms(2) by (simp add: budgets_sound_def budgets_fresh_def owed_def)
  ultimately have sound: "budgets_sound bal c (s, l')"
    using contract_invariant.run_inv [of "budgets_exec xfer" "budgets_sound bal c" "careful_budgets c"
        "(budgets_fresh, l)" cs] assms(3,4) by simp
  then have owed: "owed s t \<le> bal l' t c" by (simp add: budgets_sound_def)
  have nonneg: "0 \<le> total_over (budget_weight t) (sb_budget s)"
    "0 \<le> total_over (\<lambda>x. budget_weight t (ab_budget x)) (sb_archived s)"
    using sound by (auto intro!: total_over_nonneg budget_weight_nonneg simp: budgets_sound_def)
  have "opt_weight (budget_weight t) (sb_budget s i) \<le> total_over (budget_weight t) (sb_budget s)"
  proof (cases "sb_budget s i")
    case (Some b)
    then show ?thesis
      using total_over_member_le [of "sb_budget s" "budget_weight t" i b] sound
      by (auto simp: budgets_sound_def budget_weight_nonneg)
  qed (simp add: nonneg)
  with owed nonneg show ?thesis by (simp add: owed_def)
qed

text \<open>C25: The books of the shared budgets.  Once the contract is initialised, after any calls every
  id up to the counter is a budget, live or archived; its total contribution is the sum of the
  contributions the contract lists for it, its balance lies between zero and that total, the member
  query agrees with the stored member list, and the limits of 20 members, 10 rules and 100 percent
  hold.\<close>

theorem budgets_books:
  assumes "run (budgets_exec xfer) ((e, CInitialize adm) # cs) (budgets_fresh, l) = (s, l')"
    and "1 \<le> i" and "i \<le> get_total_budgets_created s"
  shows "\<exists>b contributions. record_of s i = Some b \<and> bu_id b = i
    \<and> get_contributions s i = Inr contributions
    \<and> (\<forall>c\<in>set contributions. bc_budget_id c = i)
    \<and> bu_total_contributed b = sum_list (map bc_amount contributions)
    \<and> 0 \<le> bu_balance b \<and> bu_balance b \<le> bu_total_contributed b
    \<and> (\<forall>a. is_budget_member s i a \<longleftrightarrow> a \<in> set (bu_members b))
    \<and> length (bu_members b) \<le> MAX_BUDGET_MEMBERS \<and> length (bu_spending_rules b) \<le> MAX_SPENDING_RULES
    \<and> (\<forall>r\<in>set (bu_spending_rules b). validate_percentage (sr_percentage_threshold r))"
proof -
  note wf = run_wf [OF assms(1)]
  then have "i \<in> dom (record_of s)" using assms(2,3) by (simp add: budgets_wf_def)
  then obtain b where b: "record_of s i = Some b" by auto
  with wf have good: "budget_good s i b" by (simp add: budgets_wf_def)
  have listed: "get_contributions s i = Inr (map (\<lambda>k. the (sb_contribution s k)) (ids_for s i))"
    using contributions_listed [OF wf] b by simp
  have "\<forall>c\<in>set (map (\<lambda>k. the (sb_contribution s k)) (ids_for s i)). bc_budget_id c = i"
    by (auto dest!: ids_for_listed)
  with good listed b show ?thesis
    by (auto simp: budget_good_def contributed_sum_def comp_def MAX_BUDGET_MEMBERS_def MAX_SPENDING_RULES_def
        validate_percentage_def not_less)
qed

text \<open>A page of contributions is a slice of the full list.  Once the contract is initialised,
  the paginated query returns the contributions from the offset on, at most the requested number and
  at most 100; the two listings of a budget agree.\<close>

theorem budgets_pages:
  assumes "run (budgets_exec xfer) ((e, CInitialize adm) # cs) (budgets_fresh, l) = (s, l')"
    and "get_contributions s i = Inr contributions" and "in_u32 (offset + limit)"
  shows "get_contributions_paginated s i offset limit = Inr (take (min limit 100) (drop offset contributions))"
proof -
  note wf = run_wf [OF assms(1)]
  have "record_of s i \<noteq> None"
    using assms(2) by (auto simp: get_contributions_def get_budget_contribution_ids_def record_of_def
        split: if_splits option.splits)
  note listed = contributions_listed [OF wf this]
  let ?ids = "ids_for s i" and ?lim = "min limit 100"
  have contributions: "contributions = map (\<lambda>k. the (sb_contribution s k)) ?ids"
    using assms(2) listed(2) by simp
  have some: "sb_contribution s (?ids ! j) \<noteq> None" if "j < length ?ids" for j
    using ids_for_listed [OF nth_mem [OF that]] by auto
  have slice: "List.map_filter (\<lambda>j. sb_contribution s (?ids ! j)) [offset..<min (offset + ?lim) (length ?ids)]
      = take ?lim (drop offset contributions)"
  proof (rule nth_equalityI)
    let ?js = "[offset..<min (offset + ?lim) (length ?ids)]"
    have mf: "List.map_filter (\<lambda>j. sb_contribution s (?ids ! j)) ?js = map (\<lambda>j. the (sb_contribution s (?ids ! j))) ?js"
      by (rule map_filter_total) (use some in auto)
    show "length (List.map_filter (\<lambda>j. sb_contribution s (?ids ! j)) ?js) = length (take ?lim (drop offset contributions))"
      by (simp add: mf contributions)
    show "List.map_filter (\<lambda>j. sb_contribution s (?ids ! j)) ?js ! j = take ?lim (drop offset contributions) ! j"
      if "j < length (List.map_filter (\<lambda>j. sb_contribution s (?ids ! j)) ?js)" for j
    proof -
      have "offset + j < min (offset + ?lim) (length ?ids)" using that by (auto simp: mf less_diff_conv)
      moreover from this have "?js ! j = offset + j" by (rule nth_upt)
      ultimately show ?thesis using that by (simp add: mf contributions)
    qed
  qed
  have "in_u32 (offset + ?lim)" using assms(3) by (simp add: in_u32_def)
  then show ?thesis
    by (simp add: get_contributions_paginated_def Let_def listed(1) slice) (auto simp: contributions)
qed

text \<open>The money of an inactive budget is locked for good.  Once a budget of the initialised
  contract is inactive, no sequence of calls by anyone reactivates it or changes its balance, and
  every spend from it and every contribution to it fails.\<close>

theorem budgets_inactive_locked:
  assumes "run (budgets_exec xfer) ((e, CInitialize adm) # cs) (budgets_fresh, l) = (s1, l1)"
    and "run (budgets_exec xfer) ds (s1, l1) = (s2, l2)"
    and "record_of s1 i = Some b" and "\<not> bu_is_active b"
  shows "\<exists>b'. record_of s2 i = Some b' \<and> \<not> bu_is_active b' \<and> bu_balance b' = bu_balance b
    \<and> (\<forall>w. fst w = s2 \<longrightarrow> (\<nexists>x. spend_from_budget xfer e2 a i r n w = Inr x)
         \<and> (\<nexists>x. contribute_to_budget xfer e2 a i n m w = Inr x))"
proof -
  have "money_kept s1 s2"
    using budgets_frozen.run_rel [where cs = ds and s = "(s1, l1)" and xfer = xfer] run_wf [OF assms(1)] assms(2) by simp
  with assms(3,4) obtain b' where b': "record_of s2 i = Some b'" "\<not> bu_is_active b'" "same_money b b'"
    by (auto simp: money_kept_def)
  have off: "\<not> bu_is_active x" if "sb_budget s2 i = Some x" for x
    using that b'(1,2) by (simp add: record_of_def)
  have "(\<nexists>x. spend_from_budget xfer e2 a i r n (s2, l) = Inr x) \<and> (\<nexists>x. contribute_to_budget xfer e2 a i n m (s2, l) = Inr x)" for l
  proof (intro conjI notI; elim exE)
    fix x :: "unit \<times> budgets_state \<times> 'a"
    obtain u s' l' where x: "x = (u, s', l')" by (cases x)
    show False if "spend_from_budget xfer e2 a i r n (s2, l) = Inr x"
      using spend_Inr [OF that [unfolded x]] off by auto
    show False if "contribute_to_budget xfer e2 a i n m (s2, l) = Inr x"
      using fund_Inr [OF that [unfolded x]] off by auto
  qed
  with b' show ?thesis by (auto simp: same_money_def)
qed

text \<open>When a spend succeeds and what it does: the signer must be a member of an active budget with
  enough balance, and no rule that names the signer and does not require approval may have a
  threshold below the amount.  A rule that requires approval restricts nothing.  The spend pays the
  recipient and lowers the balance, nothing else.\<close>

theorem budgets_spend_spec:
  "spend_from_budget xfer e a i r n (s, l) = Inr (u, s', l') \<longleftrightarrow>
   env_auth e a \<and> 0 < n \<and> (\<exists>b. sb_budget s i = Some b \<and> bu_is_active b \<and> is_budget_member s i a
     \<and> n \<le> bu_balance b \<and> in_i128 (bu_balance b - n)
     \<and> (\<forall>rule\<in>set (bu_spending_rules b). sr_applicable_to rule = a \<longrightarrow> sr_requires_approval rule
          \<or> n \<le> rule_threshold (bu_total_contributed b) (sr_percentage_threshold rule))
     \<and> xfer e (bu_token b) (env_self e) r n l = Some l'
     \<and> s' = s\<lparr>sb_budget := (sb_budget s)(i \<mapsto> b\<lparr>bu_balance := bu_balance b - n\<rparr>),
              sb_events := sb_events s @ [ExpenseIncurred i a r n]\<rparr>)"
proof -
  have unit: "x = Inr () \<or> (\<exists>t. x = Inl t)" for x :: "shared_budget_error trap + unit"
    by (cases x) auto
  have eq: "emit ev (put_budget i b s) = s\<lparr>sb_budget := (sb_budget s)(i \<mapsto> b), sb_events := sb_events s @ [ev]\<rparr>" for ev b
    by (simp add: emit_def put_budget_def)
  show ?thesis
    unfolding enforce_iff [symmetric]
    by (auto simp: spend_from_budget_def validate_amount_def eq not_less checked_sub_def
        split: option.splits sum.splits if_splits)
qed

section \<open>A run\<close>

definition budgets_demo_ledger :: "address \<Rightarrow> token_state" where
  "budgets_demo_ledger t = token_fresh\<lparr>tk_balance := [Addr 2 \<mapsto> 500]\<rparr>"

definition budgets_demo_rule :: budget_spending_rule where
  "budgets_demo_rule = \<lparr>sr_applicable_to = Addr 3, sr_percentage_threshold = 29,
     sr_requires_approval = False, sr_description = ''cap''\<rparr>"

definition budgets_demo_calls :: "(env \<times> budgets_call) list" where
  "budgets_demo_calls =
    [(signed_env [Addr 2] 1 20 (Addr 8),
        CCreate (Addr 2) ''trip'' [Addr 2, Addr 3] (Addr 7) [budgets_demo_rule]),
     (signed_env [Addr 2] 1 30 (Addr 8), CContribute (Addr 2) 1 100 None)]"

definition budgets_demo_init :: "env \<times> budgets_call" where
  "budgets_demo_init = (signed_env [Addr 1] 1 10 (Addr 8), CInitialize (Addr 1))"

definition budgets_demo_later :: "(env \<times> budgets_call) list" where
  "budgets_demo_later =
    [(signed_env [Addr 1] 1 50 (Addr 8), CSetRetention (Addr 1) 5),
     (signed_env [Addr 1] 1 60 (Addr 8), CArchive (Addr 1) 10)]"

definition budgets_demo :: "budgets_state \<times> (address \<Rightarrow> token_state)" where
  "budgets_demo = run (budgets_exec token_xfer) (budgets_demo_init # budgets_demo_calls)
     (budgets_fresh, budgets_demo_ledger)"

definition budgets_demo_off :: "budgets_state \<times> (address \<Rightarrow> token_state)" where
  "budgets_demo_off = run (budgets_exec token_xfer)
     (budgets_demo_init # budgets_demo_calls @ [(signed_env [Addr 2] 1 40 (Addr 8), CDeactivate (Addr 2) 1)])
     (budgets_fresh, budgets_demo_ledger)"

lemmas f64_eval = rule_threshold_def f64_mul_def f64_of_ratio_def f64_as_i128_def scaled_def
  round_half_even_def bit_length.simps

lemmas budgets_eval = budgets_demo_def budgets_demo_off_def budgets_demo_calls_def budgets_demo_init_def
  budgets_demo_later_def budgets_demo_ledger_def budgets_demo_rule_def budgets_fresh_def initialize_def
  create_budget_def contribute_to_budget_def spend_from_budget_def deactivate_budget_def require_owner_or_admin_def
  require_admin_def validate_amount_def validate_percentage_def is_budget_member_def put_budget_def emit_def
  add_members_def MAX_BUDGET_MEMBERS_def MAX_SPENDING_RULES_def Let_def token_xfer_def token_bal_def callee_env_def
  Token.transfer_def Token.move_balance_def Token.token_query_defs token_fresh_def Token.emit_def arith_defs

definition budgets_demo_budget :: budget where
  "budgets_demo_budget = \<lparr>bu_id = 1, bu_name = ''trip'', bu_creator = Addr 2, bu_token = Addr 7,
     bu_members = [Addr 2, Addr 3], bu_balance = 100, bu_total_contributed = 100,
     bu_spending_rules = [budgets_demo_rule], bu_is_active = True, bu_created_at = 20\<rparr>"

lemma budgets_demo_simps:
  "sb_budget (fst budgets_demo) 1 = Some budgets_demo_budget"
  "get_total_budgets_created (fst budgets_demo) = 1"
  "token_bal (snd budgets_demo) (Addr 7) (Addr 8) = 100"
  "is_budget_member (fst budgets_demo) 1 (Addr 3)"
  "sb_budget (fst budgets_demo_off) 1 = Some (budgets_demo_budget\<lparr>bu_is_active := False\<rparr>)"
  by (simp_all add: budgets_eval budgets_demo_budget_def get_total_budgets_created_def)

lemma budgets_demo_run:
  "run (budgets_exec token_xfer) (budgets_demo_init # budgets_demo_calls) (budgets_fresh, budgets_demo_ledger)
     = (fst budgets_demo, snd budgets_demo)"
  by (simp only: budgets_demo_def prod.collapse)

theorem budgets_solvent_witness:
  "100 \<le> token_bal (snd budgets_demo) (Addr 7) (Addr 8)"
proof -
  have ledger: "\<And>t. 0 \<le> token_bal budgets_demo_ledger t (Addr 8)"
    by (simp add: token_bal_def budgets_demo_ledger_def Token.token_query_defs token_fresh_def)
  have careful: "\<And>ec. ec \<in> set (budgets_demo_init # budgets_demo_calls) \<Longrightarrow> careful_budgets (Addr 8) ec"
    by (auto simp: budgets_demo_calls_def budgets_demo_init_def careful_budgets_def)
  from budgets_solvent [OF token_ledger.token_client_axioms ledger careful budgets_demo_run, where i = 1 and t = "Addr 7"]
  show ?thesis by (simp add: budgets_demo_simps budget_weight_def budgets_demo_budget_def del: One_nat_def)
qed

theorem budgets_books_witness:
  "\<exists>b cs. record_of (fst budgets_demo) 1 = Some b \<and> get_contributions (fst budgets_demo) 1 = Inr cs
     \<and> sum_list (map bc_amount cs) = 100"
  using budgets_books [OF budgets_demo_run [unfolded budgets_demo_init_def], where i = 1]
  by (auto simp: budgets_demo_simps record_of_def budgets_demo_budget_def simp del: One_nat_def)

lemma budgets_demo_listed:
  "get_contributions (fst budgets_demo) 1 = Inr [\<lparr>bc_budget_id = 1, bc_contributor = Addr 2,
     bc_amount = 100, bc_memo = None, bc_timestamp = 30\<rparr>]"
  by (simp add: budgets_eval get_contributions_def get_budget_contribution_ids_def List.map_filter_simps)

theorem budgets_pages_witness:
  "get_contributions_paginated (fst budgets_demo) 1 0 500 = get_contributions (fst budgets_demo) 1"
  using budgets_pages [OF budgets_demo_run [unfolded budgets_demo_init_def] budgets_demo_listed, of 0 500]
  by (simp add: budgets_demo_listed in_u32_def del: One_nat_def)

theorem budgets_inactive_locked_witness:
  "\<exists>b. record_of (fst (run (budgets_exec token_xfer) budgets_demo_later budgets_demo_off)) 1 = Some b
     \<and> bu_balance b = 100"
proof -
  let ?off = "budgets_demo_off" and ?later = "run (budgets_exec token_xfer) budgets_demo_later budgets_demo_off"
  have run: "run (budgets_exec token_xfer) ((signed_env [Addr 1] 1 10 (Addr 8), CInitialize (Addr 1))
      # budgets_demo_calls @ [(signed_env [Addr 2] 1 40 (Addr 8), CDeactivate (Addr 2) 1)])
      (budgets_fresh, budgets_demo_ledger) = (fst ?off, snd ?off)"
    by (simp only: budgets_demo_off_def budgets_demo_init_def prod.collapse)
  have later: "run (budgets_exec token_xfer) budgets_demo_later (fst ?off, snd ?off) = (fst ?later, snd ?later)"
    by (simp only: prod.collapse)
  have rec: "record_of (fst ?off) 1 = Some (budgets_demo_budget\<lparr>bu_is_active := False\<rparr>)"
    by (simp add: record_of_def budgets_demo_simps del: One_nat_def)
  from budgets_inactive_locked [OF run later rec, where ?e2.0 = "signed_env [] 0 0 (Addr 8)" and a = "Addr 2"
      and r = "Addr 4" and n = 1 and m = None] show ?thesis
    by (auto simp: budgets_demo_budget_def simp del: One_nat_def)
qed

theorem budgets_spend_spec_witness:
  "rule_threshold 100 29 = 28
   \<and> (\<exists>x. spend_from_budget token_xfer (signed_env [Addr 3] 1 50 (Addr 8)) (Addr 3) 1 (Addr 4) 28 budgets_demo = Inr x)
   \<and> (\<nexists>x. spend_from_budget token_xfer (signed_env [Addr 3] 1 50 (Addr 8)) (Addr 3) 1 (Addr 4) 29 budgets_demo = Inr x)"
proof -
  let ?spend = "spend_from_budget token_xfer (signed_env [Addr 3] 1 50 (Addr 8)) (Addr 3) 1 (Addr 4)"
  have thr: "rule_threshold 100 29 = 28" by (simp add: f64_eval)
  have "\<exists>l'. token_xfer (signed_env [Addr 3] 1 50 (Addr 8)) (Addr 7) (Addr 8) (Addr 4) 28 (snd budgets_demo) = Some l'"
    by (simp add: budgets_eval)
  then obtain l' where paid:
    "token_xfer (signed_env [Addr 3] 1 50 (Addr 8)) (Addr 7) (Addr 8) (Addr 4) 28 (snd budgets_demo) = Some l'" ..
  note spec = budgets_spend_spec [of token_xfer "signed_env [Addr 3] 1 50 (Addr 8)" "Addr 3" 1 "Addr 4" _
      "fst budgets_demo" "snd budgets_demo", unfolded prod.collapse]
  have ok: "\<exists>s'. ?spend 28 budgets_demo = Inr ((), s', l')"
    unfolding spec
    by (simp add: budgets_demo_simps paid budgets_demo_budget_def budgets_demo_rule_def thr in_i128_def del: One_nat_def)
  have "?spend 29 budgets_demo \<noteq> Inr (u, s', l')" for u s' l'
    unfolding spec
    by (simp add: budgets_demo_simps budgets_demo_budget_def budgets_demo_rule_def thr del: One_nat_def)
  then have "\<nexists>x. ?spend 29 budgets_demo = Inr x" by (metis prod.collapse)
  with thr ok show ?thesis by blast
qed

end
