(* ===== verification/Conditional_Payment.thy ===== *)
theory Conditional_Payment
  imports Token
begin

text \<open>
  \<open>contracts/conditional_payment.rs\<close>: payments a payer locks in the contract and that anybody may execute once
  every one of their conditions holds; until then the payer may take the money back.  The token contracts are the
  parameters \<open>xfer\<close> (\<open>transfer\<close>), \<open>pull\<close> (\<open>transfer_from\<close> with the running contract as spender) and \<open>bal\<close>
  (\<open>balance\<close>).  The file is declared by no crate; its tests are in \<open>tests/conditional_payment_test.rs\<close>.
\<close>

section \<open>Data\<close>

definition MAX_CONDITIONS :: nat where "MAX_CONDITIONS = 8"

definition MAX_SIGNERS :: nat where "MAX_SIGNERS = 10"

datatype condition =
    TimeAfter nat
  | TimeBefore nat
  | BalanceAbove address address int
  | BalanceBelow address address int
  | MultiSigApproved "address list" nat

datatype payment_status = Pending | Executed | Cancelled

record payment =
  py_payer :: address
  py_recipient :: address
  py_token :: address
  py_amount :: int
  py_conditions :: "condition list"
  py_status :: payment_status
  py_created_at :: nat
  py_settled_at :: nat

datatype conditional_error =
    NotInitialized | AlreadyInitialized | Unauthorized | InvalidAmount | PaymentNotFound | PaymentNotPending
  | ConditionNotMet | NotASigner | AlreadyApproved | TooManyConditions | TooManySigners | InvalidThreshold
  | SamePayerRecipient | Overflow | InvalidCondition

datatype conditional_event =
    PaymentCreated address nat address address int nat
  | PaymentExecuted nat address address int nat
  | PaymentCancelled nat address int nat
  | ApprovalRecorded nat address nat

record conditional_state =
  cp_admin :: "address option"
  cp_next_id :: "nat option"
  cp_payment :: "nat \<rightharpoonup> payment"
  cp_stamp :: "nat \<times> address \<rightharpoonup> bool"
  cp_events :: "conditional_event list"

definition conditional_fresh :: conditional_state where
  "conditional_fresh = \<lparr>cp_admin = None, cp_next_id = None, cp_payment = Map.empty, cp_stamp = Map.empty, cp_events = []\<rparr>"

type_synonym ('led, 'a) conditional_outcome = "(conditional_state \<times> 'led, conditional_error, 'a) outcome"

section \<open>Internal helpers\<close>

definition emit :: "conditional_event \<Rightarrow> conditional_state \<Rightarrow> conditional_state" where
  "emit ev s = s\<lparr>cp_events := cp_events s @ [ev]\<rparr>"

definition require_initialized :: "conditional_state \<Rightarrow> conditional_error trap + address" where
  "require_initialized s = (case cp_admin s of None \<Rightarrow> Inl (ContractError NotInitialized) | Some a \<Rightarrow> Inr a)"

definition next_payment_id :: "conditional_state \<Rightarrow> (conditional_state, conditional_error, nat) outcome" where
  "next_payment_id s = (let i = unwrap_or (cp_next_id s) 0 in
     case u64_add i 1 of None \<Rightarrow> Inl (ContractError Overflow) | Some next \<Rightarrow> Inr (i, s\<lparr>cp_next_id := Some next\<rparr>))"

definition load_payment :: "nat \<Rightarrow> conditional_state \<Rightarrow> conditional_error trap + payment" where
  "load_payment i s = (case cp_payment s i of None \<Rightarrow> Inl (ContractError PaymentNotFound) | Some p \<Rightarrow> Inr p)"

definition save_payment :: "nat \<Rightarrow> payment \<Rightarrow> conditional_state \<Rightarrow> conditional_state" where
  "save_payment i p s = s\<lparr>cp_payment := (cp_payment s)(i \<mapsto> p)\<rparr>"

fun validate_condition :: "condition \<Rightarrow> conditional_error trap + unit" where
  "validate_condition (TimeAfter ts) = (if ts = 0 then Inl (ContractError InvalidCondition) else Inr ())"
| "validate_condition (TimeBefore ts) = (if ts = 0 then Inl (ContractError InvalidCondition) else Inr ())"
| "validate_condition (BalanceAbove t w n) = (if n \<le> 0 then Inl (ContractError InvalidCondition) else Inr ())"
| "validate_condition (BalanceBelow t w n) = (if n \<le> 0 then Inl (ContractError InvalidCondition) else Inr ())"
| "validate_condition (MultiSigApproved signers required) =
    (let n = length signers in
     if n = 0 \<or> MAX_SIGNERS < n then Inl (ContractError TooManySigners) else
     if required = 0 \<or> n < required then Inl (ContractError InvalidThreshold) else Inr ())"

definition has_stamp :: "conditional_state \<Rightarrow> nat \<Rightarrow> address \<Rightarrow> bool" where
  "has_stamp s i a \<longleftrightarrow> cp_stamp s (i, a) \<noteq> None"

text \<open>The loop of the multi-signature condition: it returns as soon as enough stamps are counted.  \<open>bump\<close> is
  \<open>saturating_add(1)\<close> on a \<open>u32\<close>.\<close>

definition bump :: "nat \<Rightarrow> nat" where
  "bump n = min u32_max (n + 1)"

fun enough_stamps :: "(address \<Rightarrow> bool) \<Rightarrow> nat \<Rightarrow> nat \<Rightarrow> address list \<Rightarrow> bool" where
  "enough_stamps st required approvals [] \<longleftrightarrow> False"
| "enough_stamps st required approvals (a # as) \<longleftrightarrow>
    (let approvals1 = (if st a then bump approvals else approvals) in
     required \<le> approvals1 \<or> enough_stamps st required approvals1 as)"

fun evaluate_condition ::
  "('led \<Rightarrow> address \<Rightarrow> address \<Rightarrow> int) \<Rightarrow> env \<Rightarrow> nat \<Rightarrow> conditional_state \<times> 'led \<Rightarrow> condition \<Rightarrow> bool" where
  "evaluate_condition bal e i (s, l) (TimeAfter ts) \<longleftrightarrow> ts \<le> env_timestamp e"
| "evaluate_condition bal e i (s, l) (TimeBefore ts) \<longleftrightarrow> env_timestamp e < ts"
| "evaluate_condition bal e i (s, l) (BalanceAbove t a n) \<longleftrightarrow> n \<le> bal l t a"
| "evaluate_condition bal e i (s, l) (BalanceBelow t a n) \<longleftrightarrow> bal l t a < n"
| "evaluate_condition bal e i (s, l) (MultiSigApproved signers required) \<longleftrightarrow> enough_stamps (has_stamp s i) required 0 signers"

section \<open>Entry points\<close>

definition initialize :: "env \<Rightarrow> address \<Rightarrow> conditional_state \<times> 'led \<Rightarrow> ('led, unit) conditional_outcome" where
  "initialize e admin w = (case w of (s, l) \<Rightarrow>
     if cp_admin s \<noteq> None then Inl (ContractError AlreadyInitialized) else
     Inr ((), s\<lparr>cp_admin := Some admin, cp_next_id := Some 0\<rparr>, l))"

definition create_payment :: "'led xfer \<Rightarrow> env \<Rightarrow> address \<Rightarrow> address \<Rightarrow> address \<Rightarrow> int \<Rightarrow> condition list
    \<Rightarrow> conditional_state \<times> 'led \<Rightarrow> ('led, nat) conditional_outcome" where
  "create_payment pull e payer recipient token amount conditions w = (case w of (s, l) \<Rightarrow>
     if \<not> env_auth e payer then Inl AuthTrap else
     case require_initialized s of Inl t \<Rightarrow> Inl t | Inr _ \<Rightarrow>
     if amount \<le> 0 then Inl (ContractError InvalidAmount) else
     if payer = recipient then Inl (ContractError SamePayerRecipient) else
     if conditions = [] \<or> MAX_CONDITIONS < length conditions then Inl (ContractError TooManyConditions) else
     case fold_trap (\<lambda>c _. validate_condition c) conditions () of Inl t \<Rightarrow> Inl t | Inr _ \<Rightarrow>
     case next_payment_id s of Inl t \<Rightarrow> Inl t | Inr (i, s1) \<Rightarrow>
     let p = \<lparr>py_payer = payer, py_recipient = recipient, py_token = token, py_amount = amount,
              py_conditions = conditions, py_status = Pending, py_created_at = env_timestamp e, py_settled_at = 0\<rparr>;
         s2 = save_payment i p s1 in
     case pull e token payer (env_self e) amount l of None \<Rightarrow> Inl CallTrap | Some l1 \<Rightarrow>
     Inr (i, emit (PaymentCreated payer i recipient token amount (env_timestamp e)) s2, l1))"

definition is_signer :: "address \<Rightarrow> condition \<Rightarrow> bool" where
  "is_signer a c = (case c of MultiSigApproved signers _ \<Rightarrow> a \<in> set signers | _ \<Rightarrow> False)"

definition approve :: "env \<Rightarrow> address \<Rightarrow> nat \<Rightarrow> conditional_state \<times> 'led \<Rightarrow> ('led, unit) conditional_outcome" where
  "approve e signer i w = (case w of (s, l) \<Rightarrow>
     if \<not> env_auth e signer then Inl AuthTrap else
     case require_initialized s of Inl t \<Rightarrow> Inl t | Inr _ \<Rightarrow>
     case load_payment i s of Inl t \<Rightarrow> Inl t | Inr p \<Rightarrow>
     if py_status p \<noteq> Pending then Inl (ContractError PaymentNotPending) else
     if \<not> list_ex (is_signer signer) (py_conditions p) then Inl (ContractError NotASigner) else
     if has_stamp s i signer then Inl (ContractError AlreadyApproved) else
     Inr ((), emit (ApprovalRecorded i signer (env_timestamp e)) (s\<lparr>cp_stamp := (cp_stamp s)((i, signer) \<mapsto> True)\<rparr>), l))"

text \<open>The event \<open>condition_failed\<close> of a failing condition is rolled back with the call.\<close>

definition execute_payment :: "'led xfer \<Rightarrow> ('led \<Rightarrow> address \<Rightarrow> address \<Rightarrow> int) \<Rightarrow> env \<Rightarrow> nat
    \<Rightarrow> conditional_state \<times> 'led \<Rightarrow> ('led, int) conditional_outcome" where
  "execute_payment xfer bal e i w = (case w of (s, l) \<Rightarrow>
     case require_initialized s of Inl t \<Rightarrow> Inl t | Inr _ \<Rightarrow>
     case load_payment i s of Inl t \<Rightarrow> Inl t | Inr p \<Rightarrow>
     if py_status p \<noteq> Pending then Inl (ContractError PaymentNotPending) else
     if \<not> list_all (evaluate_condition bal e i (s, l)) (py_conditions p) then Inl (ContractError ConditionNotMet) else
     let s1 = save_payment i (p\<lparr>py_status := Executed, py_settled_at := env_timestamp e\<rparr>) s in
     case xfer e (py_token p) (env_self e) (py_recipient p) (py_amount p) l of None \<Rightarrow> Inl CallTrap | Some l1 \<Rightarrow>
     Inr (py_amount p,
       emit (PaymentExecuted i (py_payer p) (py_recipient p) (py_amount p) (env_timestamp e)) s1, l1))"

definition cancel_payment :: "'led xfer \<Rightarrow> env \<Rightarrow> address \<Rightarrow> nat
    \<Rightarrow> conditional_state \<times> 'led \<Rightarrow> ('led, unit) conditional_outcome" where
  "cancel_payment xfer e caller i w = (case w of (s, l) \<Rightarrow>
     if \<not> env_auth e caller then Inl AuthTrap else
     case require_initialized s of Inl t \<Rightarrow> Inl t | Inr _ \<Rightarrow>
     case load_payment i s of Inl t \<Rightarrow> Inl t | Inr p \<Rightarrow>
     if caller \<noteq> py_payer p then Inl (ContractError Unauthorized) else
     if py_status p \<noteq> Pending then Inl (ContractError PaymentNotPending) else
     let s1 = save_payment i (p\<lparr>py_status := Cancelled, py_settled_at := env_timestamp e\<rparr>) s in
     case xfer e (py_token p) (env_self e) (py_payer p) (py_amount p) l of None \<Rightarrow> Inl CallTrap | Some l1 \<Rightarrow>
     Inr ((), emit (PaymentCancelled i (py_payer p) (py_amount p) (env_timestamp e)) s1, l1))"

section \<open>Queries\<close>

definition get_payment :: "nat \<Rightarrow> conditional_state \<Rightarrow> conditional_error trap + payment" where
  "get_payment i s = (case require_initialized s of Inl t \<Rightarrow> Inl t | Inr _ \<Rightarrow> load_payment i s)"

definition check_conditions :: "('led \<Rightarrow> address \<Rightarrow> address \<Rightarrow> int) \<Rightarrow> env \<Rightarrow> nat \<Rightarrow> conditional_state \<times> 'led
    \<Rightarrow> conditional_error trap + bool list" where
  "check_conditions bal e i w =
    (case require_initialized (fst w) of Inl t \<Rightarrow> Inl t | Inr _ \<Rightarrow>
     case load_payment i (fst w) of Inl t \<Rightarrow> Inl t | Inr p \<Rightarrow>
     Inr (map (evaluate_condition bal e i w) (py_conditions p)))"

fun count_stamps :: "(address \<Rightarrow> bool) \<Rightarrow> nat \<Rightarrow> address list \<Rightarrow> nat" where
  "count_stamps st n [] = n"
| "count_stamps st n (a # as) = count_stamps st (if st a then bump n else n) as"

definition approval_count :: "nat \<Rightarrow> nat \<Rightarrow> conditional_state \<Rightarrow> conditional_error trap + nat" where
  "approval_count i k s =
    (case require_initialized s of Inl t \<Rightarrow> Inl t | Inr _ \<Rightarrow>
     case load_payment i s of Inl t \<Rightarrow> Inl t | Inr p \<Rightarrow>
     if length (py_conditions p) \<le> k then Inl (ContractError InvalidCondition) else
     case py_conditions p ! k of MultiSigApproved signers _ \<Rightarrow> Inr (count_stamps (has_stamp s i) 0 signers)
     | _ \<Rightarrow> Inl (ContractError InvalidCondition))"

definition payment_count :: "conditional_state \<Rightarrow> nat" where
  "payment_count s = unwrap_or (cp_next_id s) 0"

datatype conditional_call =
    CInitialize address
  | CCreate address address address int "condition list"
  | CApprove address nat
  | CExecute nat
  | CCancel address nat

fun conditional_exec :: "'led xfer \<Rightarrow> 'led xfer \<Rightarrow> ('led \<Rightarrow> address \<Rightarrow> address \<Rightarrow> int) \<Rightarrow> env \<times> conditional_call
    \<Rightarrow> conditional_state \<times> 'led \<Rightarrow> conditional_error trap + (conditional_state \<times> 'led)" where
  "conditional_exec xfer pull bal (e, CInitialize a) w = final (initialize e a w)"
| "conditional_exec xfer pull bal (e, CCreate p r t n cs) w = final (create_payment pull e p r t n cs w)"
| "conditional_exec xfer pull bal (e, CApprove a i) w = final (approve e a i w)"
| "conditional_exec xfer pull bal (e, CExecute i) w = final (execute_payment xfer bal e i w)"
| "conditional_exec xfer pull bal (e, CCancel a i) w = final (cancel_payment xfer e a i w)"


section \<open>Conditions\<close>

lemma enough_stamps_iff:
  "n < required \<Longrightarrow> n + length as \<le> u32_max
    \<Longrightarrow> enough_stamps st required n as \<longleftrightarrow> required \<le> n + length (filter st as)"
proof (induction as arbitrary: n)
  case (Cons a as)
  show ?case
  proof (cases "st a \<and> required \<le> n + 1")
    case True
    with Cons.prems show ?thesis by (simp add: Let_def bump_def)
  next
    case False
    then show ?thesis using Cons.prems Cons.IH [of "if st a then n + 1 else n"] by (auto simp: Let_def bump_def)
  qed
qed simp

lemma count_stamps_value: "n + length as \<le> u32_max \<Longrightarrow> count_stamps st n as = n + length (filter st as)"
  by (induction as arbitrary: n) (simp_all add: bump_def)

definition well_formed :: "condition \<Rightarrow> bool" where
  "well_formed c = (case c of
     TimeAfter ts \<Rightarrow> 0 < ts
   | TimeBefore ts \<Rightarrow> 0 < ts
   | BalanceAbove t a n \<Rightarrow> 0 < n
   | BalanceBelow t a n \<Rightarrow> 0 < n
   | MultiSigApproved signers required \<Rightarrow> 0 < required \<and> required \<le> length signers \<and> length signers \<le> MAX_SIGNERS)"

lemma validate_condition_Inr [simp]: "validate_condition c = Inr u \<longleftrightarrow> well_formed c"
  by (cases c) (auto simp: well_formed_def Let_def)

lemma validate_conditions_Inr [simp]:
  "fold_trap (\<lambda>c _. validate_condition c) cs u = Inr v \<longleftrightarrow> list_all well_formed cs"
proof (induction cs arbitrary: u)
  case (Cons c cs)
  then show ?case by (cases "validate_condition c") (use validate_condition_Inr [of c] in \<open>auto simp del: validate_condition_Inr\<close>)
qed simp

text \<open>What the payer asked for: the meaning of a condition, with the stamps as the set of positions that
  are stamped.\<close>

fun holds_when :: "('led \<Rightarrow> address \<Rightarrow> address \<Rightarrow> int) \<Rightarrow> nat \<Rightarrow> (address \<Rightarrow> bool) \<Rightarrow> 'led \<Rightarrow> condition \<Rightarrow> bool" where
  "holds_when bal now st l (TimeAfter ts) \<longleftrightarrow> ts \<le> now"
| "holds_when bal now st l (TimeBefore ts) \<longleftrightarrow> now < ts"
| "holds_when bal now st l (BalanceAbove t a n) \<longleftrightarrow> n \<le> bal l t a"
| "holds_when bal now st l (BalanceBelow t a n) \<longleftrightarrow> bal l t a < n"
| "holds_when bal now st l (MultiSigApproved signers required) \<longleftrightarrow> required \<le> card {k. k < length signers \<and> st (signers ! k)}"

lemma evaluate_iff:
  assumes "well_formed c"
  shows "evaluate_condition bal e i (s, l) c \<longleftrightarrow> holds_when bal (env_timestamp e) (has_stamp s i) l c"
proof (cases c)
  case (MultiSigApproved signers required)
  have "evaluate_condition bal e i (s, l) c \<longleftrightarrow> required \<le> 0 + length (filter (has_stamp s i) signers)"
    using assms unfolding MultiSigApproved evaluate_condition.simps
    by (intro enough_stamps_iff) (simp_all add: well_formed_def MAX_SIGNERS_def)
  then show ?thesis by (simp add: MultiSigApproved length_filter_conv_card)
qed simp_all

section \<open>The records\<close>

lemma conditional_frame [simp]:
  "cp_payment (emit ev s) = cp_payment s" "cp_admin (emit ev s) = cp_admin s" "cp_next_id (emit ev s) = cp_next_id s"
  "cp_stamp (emit ev s) = cp_stamp s"
  "cp_payment (save_payment i p s) = (cp_payment s)(i \<mapsto> p)" "cp_admin (save_payment i p s) = cp_admin s"
  "cp_next_id (save_payment i p s) = cp_next_id s" "cp_stamp (save_payment i p s) = cp_stamp s"
  by (simp_all add: emit_def save_payment_def)

lemma require_initialized_Inr [simp]: "require_initialized s = Inr a \<longleftrightarrow> cp_admin s = Some a"
  by (simp add: require_initialized_def split: option.splits)

lemma load_payment_Inr [simp]: "load_payment i s = Inr p \<longleftrightarrow> cp_payment s i = Some p"
  by (simp add: load_payment_def split: option.splits)

lemma conditional_initialize_Inr:
  "initialize e a (s, l) = Inr (u, w') \<longleftrightarrow> cp_admin s = None \<and> w' = (s\<lparr>cp_admin := Some a, cp_next_id := Some 0\<rparr>, l)"
  by (auto simp: initialize_def)

lemma conditional_create_Inr:
  assumes "create_payment pull e payer recipient t n cs (s, l) = Inr (i, s', l')"
  shows "env_auth e payer \<and> cp_admin s \<noteq> None \<and> 0 < n \<and> payer \<noteq> recipient \<and> cs \<noteq> [] \<and> length cs \<le> MAX_CONDITIONS
    \<and> list_all well_formed cs \<and> i = payment_count s \<and> pull e t payer (env_self e) n l = Some l'
    \<and> cp_payment s' = (cp_payment s)(i \<mapsto> \<lparr>py_payer = payer, py_recipient = recipient, py_token = t, py_amount = n,
         py_conditions = cs, py_status = Pending, py_created_at = env_timestamp e, py_settled_at = 0\<rparr>)
    \<and> cp_stamp s' = cp_stamp s \<and> cp_next_id s' = Some (Suc i) \<and> cp_admin s' = cp_admin s"
  using assms
  by (auto simp: create_payment_def next_payment_id_def payment_count_def Let_def not_le not_less
      split: if_splits sum.splits option.splits)

lemma conditional_approve_Inr:
  assumes "approve e a i (s, l) = Inr (u, s', l')"
  shows "\<exists>p. env_auth e a \<and> cp_payment s i = Some p \<and> py_status p = Pending \<and> list_ex (is_signer a) (py_conditions p)
    \<and> \<not> has_stamp s i a \<and> cp_payment s' = cp_payment s \<and> cp_stamp s' = (cp_stamp s)((i, a) \<mapsto> True)
    \<and> cp_next_id s' = cp_next_id s \<and> cp_admin s' = cp_admin s \<and> l' = l"
  using assms by (auto simp: approve_def split: if_splits sum.splits)

lemma conditional_execute_Inr:
  "execute_payment xfer bal e i (s, l) = Inr (n, s', l') \<longleftrightarrow>
    (\<exists>p. cp_admin s \<noteq> None \<and> cp_payment s i = Some p \<and> py_status p = Pending \<and> n = py_amount p
       \<and> list_all (evaluate_condition bal e i (s, l)) (py_conditions p)
       \<and> xfer e (py_token p) (env_self e) (py_recipient p) (py_amount p) l = Some l'
       \<and> s' = emit (PaymentExecuted i (py_payer p) (py_recipient p) (py_amount p) (env_timestamp e))
            (save_payment i (p\<lparr>py_status := Executed, py_settled_at := env_timestamp e\<rparr>) s))"
  by (auto simp: execute_payment_def require_initialized_def load_payment_def Let_def split: sum.splits option.splits)

lemma conditional_cancel_Inr:
  "cancel_payment xfer e a i (s, l) = Inr (u, s', l') \<longleftrightarrow>
    (\<exists>p. env_auth e a \<and> cp_admin s \<noteq> None \<and> cp_payment s i = Some p \<and> py_status p = Pending \<and> a = py_payer p
       \<and> xfer e (py_token p) (env_self e) a (py_amount p) l = Some l'
       \<and> s' = emit (PaymentCancelled i a (py_amount p) (env_timestamp e))
            (save_payment i (p\<lparr>py_status := Cancelled, py_settled_at := env_timestamp e\<rparr>) s))"
  by (auto simp: cancel_payment_def require_initialized_def load_payment_def Let_def split: sum.splits option.splits)

text \<open>\<open>conditional_wf\<close>: payments are numbered from 0, each was accepted by the checks of its creation, and a
  stamp belongs to a signer of an existing payment.\<close>

definition accepted :: "payment \<Rightarrow> bool" where
  "accepted p \<longleftrightarrow> 0 < py_amount p \<and> py_payer p \<noteq> py_recipient p \<and> py_conditions p \<noteq> []
     \<and> length (py_conditions p) \<le> MAX_CONDITIONS \<and> list_all well_formed (py_conditions p)"

definition conditional_wf :: "conditional_state \<Rightarrow> bool" where
  "conditional_wf s \<longleftrightarrow> dom (cp_payment s) = {..<payment_count s} \<and> (cp_admin s = None \<longrightarrow> payment_count s = 0)
     \<and> (\<forall>i p. cp_payment s i = Some p \<longrightarrow> accepted p)
     \<and> (\<forall>i a. has_stamp s i a \<longrightarrow> (\<exists>p. cp_payment s i = Some p \<and> list_ex (is_signer a) (py_conditions p)))"

lemma conditional_wf_fresh: "conditional_wf conditional_fresh"
  by (simp add: conditional_wf_def conditional_fresh_def payment_count_def has_stamp_def)

lemma conditional_wf_finite: "conditional_wf s \<Longrightarrow> finite (dom (cp_payment s))"
  by (simp add: conditional_wf_def)

lemma conditional_wf_settle:
  assumes "conditional_wf s" and "cp_payment s i = Some p"
    and "cp_payment s' = (cp_payment s)(i \<mapsto> p\<lparr>py_status := st, py_settled_at := at\<rparr>)"
    and "cp_stamp s' = cp_stamp s" "cp_next_id s' = cp_next_id s" "cp_admin s' = cp_admin s"
  shows "conditional_wf s'"
proof -
  have "payment_count s' = payment_count s" "has_stamp s' = has_stamp s"
    using assms(4,5) by (simp_all add: payment_count_def has_stamp_def fun_eq_iff)
  moreover have "accepted q" if "cp_payment s' j = Some q" for j q
  proof (cases "j = i")
    case True
    have "accepted p" using assms(1,2) by (simp add: conditional_wf_def)
    with that True show ?thesis by (auto simp: assms(3) accepted_def)
  next
    case False
    with that assms(1) show ?thesis by (simp add: assms(3) conditional_wf_def)
  qed
  moreover have "dom (cp_payment s') = dom (cp_payment s)" using assms(2) by (auto simp: assms(3))
  moreover have "\<exists>q. cp_payment s' j = Some q \<and> list_ex (is_signer a) (py_conditions q)"
    if "cp_payment s j = Some r" "list_ex (is_signer a) (py_conditions r)" for j a r
    using that assms(2) by (cases "j = i") (simp_all add: assms(3))
  ultimately show ?thesis using assms(1,6) unfolding conditional_wf_def by metis
qed

lemma conditional_wf_create:
  assumes run: "create_payment pull e payer recipient t n cs (s, l) = Inr (i, s', l')" and wf: "conditional_wf s"
  shows "conditional_wf s'"
proof -
  note c = conditional_create_Inr [OF run]
  have count: "payment_count s' = Suc (payment_count s)" using c by (simp add: payment_count_def)
  have stamps: "has_stamp s' = has_stamp s" using c by (simp add: has_stamp_def fun_eq_iff)
  have free: "cp_payment s (payment_count s) = None" using wf by (auto simp: conditional_wf_def)
  show ?thesis
    unfolding conditional_wf_def count stamps
  proof (intro conjI allI impI)
    show "dom (cp_payment s') = {..<Suc (payment_count s)}" using wf c by (auto simp: conditional_wf_def lessThan_Suc)
    show "Suc (payment_count s) = 0" if "cp_admin s' = None" using that c by simp
    show "accepted q" if "cp_payment s' j = Some q" for j q
      using that c wf by (cases "j = i") (auto simp: accepted_def conditional_wf_def)
    fix j a assume "has_stamp s j a"
    then obtain q where q: "cp_payment s j = Some q" "list_ex (is_signer a) (py_conditions q)"
      using wf unfolding conditional_wf_def by blast
    then have "j \<noteq> i" using free c by auto
    with q c show "\<exists>q. cp_payment s' j = Some q \<and> list_ex (is_signer a) (py_conditions q)" by simp
  qed
qed

lemma conditional_exec_wf:
  assumes run: "conditional_exec xfer pull bal k w = Inr w'" and wf: "conditional_wf (fst w)"
  shows "conditional_wf (fst w')"
proof -
  obtain e c s l s' l' where eq: "k = (e, c)" "w = (s, l)" "w' = (s', l')" by (cases k; cases w; cases w')
  have "conditional_wf s'"
  proof (cases c)
    case (CInitialize a)
    with run wf show ?thesis
      by (auto simp: eq conditional_initialize_Inr conditional_wf_def payment_count_def has_stamp_def)
  next
    case (CCreate p r t n cs)
    with run wf show ?thesis by (auto simp: eq intro: conditional_wf_create)
  next
    case (CApprove a i)
    with run obtain u where "approve e a i (s, l) = Inr (u, s', l')" by (auto simp: eq)
    from conditional_approve_Inr [OF this] obtain p where p: "cp_payment s i = Some p" "list_ex (is_signer a) (py_conditions p)"
      and s': "cp_payment s' = cp_payment s" "cp_stamp s' = (cp_stamp s)((i, a) \<mapsto> True)" "cp_next_id s' = cp_next_id s"
        "cp_admin s' = cp_admin s" by blast
    have "has_stamp s' j b \<Longrightarrow> has_stamp s j b \<or> j = i \<and> b = a" for j b by (auto simp: has_stamp_def s' split: if_splits)
    with wf p show ?thesis unfolding conditional_wf_def eq fst_conv payment_count_def s' by blast
  next
    case (CExecute i)
    with run wf show ?thesis
      by (auto simp: eq conditional_execute_Inr intro: conditional_wf_settle [where s = s and i = i])
  next
    case (CCancel a i)
    with run wf show ?thesis
      by (auto simp: eq conditional_cancel_Inr intro: conditional_wf_settle [where s = s and i = i])
  qed
  then show ?thesis by (simp add: eq)
qed


section \<open>Solvency\<close>

definition pending_weight :: "address \<Rightarrow> payment \<Rightarrow> int" where
  "pending_weight t p = (if py_status p = Pending \<and> py_token p = t then py_amount p else 0)"

text \<open>The money of token \<open>t\<close> locked in pending payments.\<close>

definition locked :: "conditional_state \<Rightarrow> address \<Rightarrow> int" where
  "locked s t = total_over (pending_weight t) (cp_payment s)"

definition conditional_sound ::
  "('led \<Rightarrow> address \<Rightarrow> address \<Rightarrow> int) \<Rightarrow> address \<Rightarrow> conditional_state \<times> 'led \<Rightarrow> bool" where
  "conditional_sound bal c w = (case w of (s, l) \<Rightarrow> conditional_wf s
     \<and> (\<forall>i p. cp_payment s i = Some p \<longrightarrow> py_payer p \<noteq> c \<and> py_recipient p \<noteq> c)
     \<and> (\<forall>t. locked s t \<le> bal l t c))"

text \<open>The contract's address signs nothing, and no payment is to the contract itself.\<close>

definition careful_payments :: "address \<Rightarrow> env \<times> conditional_call \<Rightarrow> bool" where
  "careful_payments c k \<longleftrightarrow> env_self (fst k) = c \<and> \<not> env_auth (fst k) c
     \<and> (case snd k of CCreate p r t n cs \<Rightarrow> r \<noteq> c | _ \<Rightarrow> True)"

lemma pending_weight_nonneg: "conditional_wf s \<Longrightarrow> cp_payment s i = Some p \<Longrightarrow> 0 \<le> pending_weight t p"
  by (auto simp: pending_weight_def conditional_wf_def accepted_def intro: less_imp_le)

lemma locked_member:
  assumes "conditional_wf s" and "cp_payment s i = Some p" and "py_status p = Pending"
  shows "py_amount p \<le> locked s (py_token p)"
proof -
  have "pending_weight (py_token p) p \<le> locked s (py_token p)"
    unfolding locked_def
    by (rule total_over_member_le [OF conditional_wf_finite [OF assms(1)] _ assms(2)]) (rule pending_weight_nonneg [OF assms(1)])
  with assms(3) show ?thesis by (simp add: pending_weight_def)
qed

lemma sound_settle:
  assumes client: "token_client xfer bal" and sound: "conditional_sound bal c (s, l)"
    and p: "cp_payment s i = Some p" "py_status p = Pending" and st: "st \<noteq> Pending"
    and tr: "xfer e (py_token p) c b (py_amount p) l = Some l'" and b: "b \<noteq> c"
    and s': "cp_payment s' = (cp_payment s)(i \<mapsto> p\<lparr>py_status := st, py_settled_at := at\<rparr>)"
      "cp_stamp s' = cp_stamp s" "cp_next_id s' = cp_next_id s" "cp_admin s' = cp_admin s"
  shows "conditional_sound bal c (s', l')"
proof -
  have wf: "conditional_wf s" using sound by (simp add: conditional_sound_def)
  have "locked s' t \<le> bal l' t c" for t
  proof -
    have "locked s' t = locked s t - pending_weight t p"
      using st by (simp add: locked_def s'(1) total_over_update [OF conditional_wf_finite [OF wf]] p(1) pending_weight_def)
    moreover have "locked s t \<le> bal l t c" using sound by (simp add: conditional_sound_def)
    ultimately show ?thesis
      using token_client.xfer_balance [OF client tr, of t c] b p(2) by (auto simp: pending_weight_def)
  qed
  moreover have "py_payer q \<noteq> c \<and> py_recipient q \<noteq> c" if q: "cp_payment s' j = Some q" for j q
  proof -
    have old: "\<forall>j q. cp_payment s j = Some q \<longrightarrow> py_payer q \<noteq> c \<and> py_recipient q \<noteq> c"
      using sound by (simp add: conditional_sound_def)
    show ?thesis
    proof (cases "j = i")
      case True
      with q have "q = p\<lparr>py_status := st, py_settled_at := at\<rparr>" by (simp add: s'(1))
      moreover have "py_payer p \<noteq> c \<and> py_recipient p \<noteq> c" using old p(1) by blast
      ultimately show ?thesis by simp
    next
      case False
      with q old show ?thesis by (simp add: s'(1))
    qed
  qed
  ultimately show ?thesis
    using conditional_wf_settle [OF wf p(1) s'] by (simp add: conditional_sound_def)
qed

lemma create_sound:
  assumes client: "token_client pull bal" and sound: "conditional_sound bal (env_self e) (s, l)"
    and run: "create_payment pull e payer r t n cs (s, l) = Inr (i, s', l')"
    and "\<not> env_auth e (env_self e)" "r \<noteq> env_self e"
  shows "conditional_sound bal (env_self e) (s', l')"
proof -
  note c = conditional_create_Inr [OF run]
  have wf: "conditional_wf s" using sound by (simp add: conditional_sound_def)
  have payer: "payer \<noteq> env_self e" using c assms(4) by auto
  have free: "cp_payment s i = None" using wf c by (auto simp: conditional_wf_def)
  have "locked s' u \<le> bal l' u (env_self e)" for u
  proof -
    have "locked s' u = locked s u + (if u = t then n else 0)"
      using c free by (simp add: locked_def total_over_update [OF conditional_wf_finite [OF wf]] pending_weight_def)
    moreover have "locked s u \<le> bal l u (env_self e)" using sound by (simp add: conditional_sound_def)
    moreover have "pull e t payer (env_self e) n l = Some l'" using c by blast
    ultimately show ?thesis using token_client.xfer_balance [OF client _ payer, of e t n l l' u "env_self e"] payer by auto
  qed
  moreover have "py_payer q \<noteq> env_self e \<and> py_recipient q \<noteq> env_self e" if "cp_payment s' j = Some q" for j q
    using that sound c payer assms(5) by (cases "j = i") (auto simp: conditional_sound_def)
  ultimately show ?thesis using conditional_wf_create [OF run wf] by (simp add: conditional_sound_def)
qed

lemma conditional_exec_sound:
  assumes xfer: "token_client xfer bal" and pull: "token_client pull bal"
    and sound: "conditional_sound bal c w" and care: "careful_payments c k"
    and run: "conditional_exec xfer pull bal k w = Inr w'"
  shows "conditional_sound bal c w'"
proof -
  obtain e call s l s' l' where eq: "k = (e, call)" "w = (s, l)" "w' = (s', l')" by (cases k; cases w; cases w')
  have c: "c = env_self e" and quiet: "\<not> env_auth e c" using care by (simp_all add: careful_payments_def eq)
  have parties: "py_payer p \<noteq> c \<and> py_recipient p \<noteq> c" if "cp_payment s i = Some p" for i p
    using sound that by (simp add: conditional_sound_def eq)
  have "conditional_sound bal c (s', l')"
  proof (cases call)
    case (CInitialize a)
    with run sound show ?thesis
      by (auto simp: eq conditional_initialize_Inr conditional_sound_def conditional_wf_def payment_count_def has_stamp_def locked_def)
  next
    case (CCreate p r t n cs)
    with run care sound quiet show ?thesis by (auto simp: eq c careful_payments_def intro: create_sound [OF pull])
  next
    case (CApprove a i)
    with run obtain u where "approve e a i (s, l) = Inr (u, s', l')" by (auto simp: eq)
    from conditional_approve_Inr [OF this] have "cp_payment s' = cp_payment s" "l' = l" by auto
    moreover have "conditional_wf s'" using conditional_exec_wf [OF run] sound by (simp add: eq conditional_sound_def)
    ultimately show ?thesis using sound by (simp add: eq conditional_sound_def locked_def)
  next
    case (CExecute i)
    with run obtain p where p: "cp_payment s i = Some p" "py_status p = Pending"
      and tr: "xfer e (py_token p) c (py_recipient p) (py_amount p) l = Some l'"
      and s': "s' = emit (PaymentExecuted i (py_payer p) (py_recipient p) (py_amount p) (env_timestamp e))
            (save_payment i (p\<lparr>py_status := Executed, py_settled_at := env_timestamp e\<rparr>) s)"
      by (auto simp: eq c conditional_execute_Inr)
    show ?thesis
      by (rule sound_settle [OF xfer sound [unfolded eq] p _ tr, where st = Executed and at = "env_timestamp e"])
        (use parties [OF p(1)] in \<open>simp_all add: s'\<close>)
  next
    case (CCancel a i)
    with run obtain p where p: "cp_payment s i = Some p" "py_status p = Pending"
      and tr: "xfer e (py_token p) c (py_payer p) (py_amount p) l = Some l'"
      and s': "s' = emit (PaymentCancelled i a (py_amount p) (env_timestamp e))
            (save_payment i (p\<lparr>py_status := Cancelled, py_settled_at := env_timestamp e\<rparr>) s)"
      by (auto simp: eq c conditional_cancel_Inr)
    show ?thesis
      by (rule sound_settle [OF xfer sound [unfolded eq] p _ tr, where st = Cancelled and at = "env_timestamp e"])
        (use parties [OF p(1)] in \<open>simp_all add: s'\<close>)
  qed
  then show ?thesis by (simp add: eq)
qed

section \<open>A payment is settled at most once\<close>

text \<open>What a call may do to the payments that exist: nothing, or settle a pending one.\<close>

definition settles :: "conditional_state \<times> 'led \<Rightarrow> conditional_state \<times> 'led \<Rightarrow> bool" where
  "settles w w' \<longleftrightarrow> (\<forall>i p. cp_payment (fst w) i = Some p \<longrightarrow>
     (\<exists>q. cp_payment (fst w') i = Some q \<and> (q = p \<or> py_status p = Pending \<and> py_status q \<noteq> Pending
        \<and> q\<lparr>py_status := Pending, py_settled_at := py_settled_at p\<rparr> = p)))"

lemma settles_refl: "settles w w"
  by (simp add: settles_def)

lemma settles_trans:
  assumes "settles u v" and "settles v w"
  shows "settles u w"
  unfolding settles_def
proof (intro allI impI)
  fix i p assume p: "cp_payment (fst u) i = Some p"
  then obtain q where q: "cp_payment (fst v) i = Some q" and pq: "q = p \<or> py_status p = Pending \<and> py_status q \<noteq> Pending
        \<and> q\<lparr>py_status := Pending, py_settled_at := py_settled_at p\<rparr> = p" using assms(1) by (auto simp: settles_def)
  from q obtain r where r: "cp_payment (fst w) i = Some r" and qr: "r = q \<or> py_status q = Pending \<and> py_status r \<noteq> Pending
        \<and> r\<lparr>py_status := Pending, py_settled_at := py_settled_at q\<rparr> = q" using assms(2) by (auto simp: settles_def)
  from pq qr have "r = p \<or> py_status p = Pending \<and> py_status r \<noteq> Pending
        \<and> r\<lparr>py_status := Pending, py_settled_at := py_settled_at p\<rparr> = p" by auto
  with r show "\<exists>r. cp_payment (fst w) i = Some r \<and> (r = p \<or> py_status p = Pending \<and> py_status r \<noteq> Pending
        \<and> r\<lparr>py_status := Pending, py_settled_at := py_settled_at p\<rparr> = p)" by blast
qed

lemma settles_one:
  "cp_payment s i = Some p \<Longrightarrow> py_status p = Pending \<Longrightarrow> st \<noteq> Pending
    \<Longrightarrow> cp_payment s' = (cp_payment s)(i \<mapsto> p\<lparr>py_status := st, py_settled_at := at\<rparr>) \<Longrightarrow> settles (s, l) (s', l')"
  by (auto simp: settles_def)


lemma conditional_exec_settles:
  assumes run: "conditional_exec xfer pull bal k w = Inr w'" and wf: "conditional_wf (fst w)"
  shows "settles w w'"
proof -
  obtain e c s l s' l' where eq: "k = (e, c)" "w = (s, l)" "w' = (s', l')" by (cases k; cases w; cases w')
  show ?thesis
  proof (cases c)
    case (CInitialize a)
    with run show ?thesis by (auto simp: eq conditional_initialize_Inr settles_def)
  next
    case (CCreate p r t n cs)
    with run obtain i where "create_payment pull e p r t n cs (s, l) = Inr (i, s', l')" by (auto simp: eq)
    from conditional_create_Inr [OF this] wf show ?thesis by (auto simp: eq settles_def conditional_wf_def)
  next
    case (CApprove a i)
    with run obtain u where "approve e a i (s, l) = Inr (u, s', l')" by (auto simp: eq)
    from conditional_approve_Inr [OF this] show ?thesis by (auto simp: eq settles_def)
  next
    case (CExecute i)
    with run show ?thesis by (auto simp: eq conditional_execute_Inr intro: settles_one [where i = i and st = Executed])
  next
    case (CCancel a i)
    with run show ?thesis by (auto simp: eq conditional_cancel_Inr intro: settles_one [where i = i and st = Cancelled])
  qed
qed

interpretation conditional_machine:
  contract_invariant "conditional_exec token_xfer token_pull token_bal" "conditional_sound token_bal c" "careful_payments c" for c
  by unfold_locales (rule conditional_exec_sound [OF token_ledger.token_client_axioms pulled_ledger.token_client_axioms])

lemma conditional_run_settles:
  "conditional_wf (fst w) \<Longrightarrow> conditional_wf (fst (run (conditional_exec xfer pull bal) ds w))
     \<and> settles w (run (conditional_exec xfer pull bal) ds w)"
proof (induction ds arbitrary: w)
  case Nil
  then show ?case by (simp add: settles_refl)
next
  case (Cons d ds)
  let ?w = "commit w (conditional_exec xfer pull bal d w)"
  have "conditional_wf (fst ?w) \<and> settles w ?w"
    using Cons.prems conditional_exec_wf [of xfer pull bal d w] conditional_exec_settles [of xfer pull bal d w]
    by (cases "conditional_exec xfer pull bal d w") (auto simp: settles_refl)
  with Cons.IH [of ?w] show ?case by (auto intro: settles_trans)
qed

lemma conditional_run_sound:
  assumes "token_client xfer bal" and "token_client pull bal" and "\<And>t. 0 \<le> bal l t c"
    and "\<And>k. k \<in> set cs \<Longrightarrow> careful_payments c k"
  shows "conditional_sound bal c (run (conditional_exec xfer pull bal) cs (conditional_fresh, l))"
proof (rule contract_invariant.run_inv [where inv = "conditional_sound bal c" and admissible = "careful_payments c"])
  show "contract_invariant (conditional_exec xfer pull bal) (conditional_sound bal c) (careful_payments c)"
    by unfold_locales (rule conditional_exec_sound [OF assms(1,2)])
  show "conditional_sound bal c (conditional_fresh, l)"
    using assms(3) conditional_wf_fresh by (simp add: conditional_sound_def locked_def conditional_fresh_def)
qed (rule assms(4))

section \<open>Properties\<close>

text \<open>The conditional payments contract can always pay.  In every state reached by calls that its own address
  does not sign and that pay nobody to the contract itself, it holds at least what the pending payments lock, token
  by token, and so also the amount of each one.\<close>

theorem conditional_solvent:
  assumes "token_client xfer bal" and "token_client pull bal" and "\<And>t. 0 \<le> bal l t c"
    and "\<And>k. k \<in> set cs \<Longrightarrow> careful_payments c k"
    and "run (conditional_exec xfer pull bal) cs (conditional_fresh, l) = (s, l')"
  shows "locked s t \<le> bal l' t c
    \<and> (\<forall>i p. cp_payment s i = Some p \<and> py_status p = Pending \<longrightarrow> py_amount p \<le> bal l' (py_token p) c)"
proof -
  have "conditional_sound bal c (s, l')" using conditional_run_sound [OF assms(1-3), of cs] assms(4) by (simp add: assms(5))
  then have "conditional_wf s" and held: "locked s u \<le> bal l' u c" for u by (simp_all add: conditional_sound_def)
  with locked_member [OF this(1)] order_trans show ?thesis by blast
qed

text \<open>C11: A payment whose conditions hold is paid, once.  In such a state, if every condition of a pending payment
  holds and the token pays what is covered, \<open>execute_payment\<close> succeeds whoever calls it and moves exactly the
  amount from the contract to the recipient; after any further calls the record is unchanged, so neither a second
  execution nor a cancellation succeeds.\<close>

theorem conditional_paid_once:
  assumes "token_client xfer bal" and "token_client pull bal" and "\<And>t. 0 \<le> bal l t (env_self e)"
    and "\<And>k. k \<in> set cs \<Longrightarrow> careful_payments (env_self e) k"
    and "run (conditional_exec xfer pull bal) cs (conditional_fresh, l) = (s, l')"
    and "cp_payment s i = Some p" and "py_status p = Pending"
    and "\<And>c. c \<in> set (py_conditions p) \<Longrightarrow> holds_when bal (env_timestamp e) (has_stamp s i) l' c"
    and "py_amount p \<le> bal l' (py_token p) (env_self e)
      \<Longrightarrow> xfer e (py_token p) (env_self e) (py_recipient p) (py_amount p) l' \<noteq> None"
  shows "\<exists>s1 l1. execute_payment xfer bal e i (s, l') = Inr (py_amount p, s1, l1)
    \<and> (\<forall>t a. bal l1 t a = bal l' t a + (if t = py_token p \<and> a = py_recipient p then py_amount p else 0)
         - (if t = py_token p \<and> a = env_self e then py_amount p else 0))
    \<and> (\<forall>ds s2 l2. run (conditional_exec xfer pull bal) ds (s1, l1) = (s2, l2)
         \<longrightarrow> cp_payment s2 i = Some (p\<lparr>py_status := Executed, py_settled_at := env_timestamp e\<rparr>)
           \<and> (\<forall>e'. execute_payment xfer bal e' i (s2, l2) = Inl (ContractError PaymentNotPending))
           \<and> (\<forall>e' a u. cancel_payment xfer e' a i (s2, l2) \<noteq> Inr u))"
proof -
  have sound: "conditional_sound bal (env_self e) (s, l')" using conditional_run_sound [OF assms(1-3), of cs] assms(4) by (simp add: assms(5))
  then have wf: "conditional_wf s" and ne: "py_recipient p \<noteq> env_self e"
    using assms(6) by (auto simp: conditional_sound_def)
  have "py_amount p \<le> bal l' (py_token p) (env_self e)"
    using locked_member [OF wf assms(6,7)] sound by (auto simp: conditional_sound_def intro: order_trans)
  with assms(9) obtain l1 where tr: "xfer e (py_token p) (env_self e) (py_recipient p) (py_amount p) l' = Some l1" by blast
  have "list_all well_formed (py_conditions p)" using wf assms(6) by (auto simp: conditional_wf_def accepted_def)
  then have all: "list_all (evaluate_condition bal e i (s, l')) (py_conditions p)"
    using assms(8) by (simp add: list_all_iff evaluate_iff)
  have admin: "cp_admin s \<noteq> None" using wf assms(6) by (auto simp: conditional_wf_def)
  let ?q = "p\<lparr>py_status := Executed, py_settled_at := env_timestamp e\<rparr>"
  obtain s1 where ex: "execute_payment xfer bal e i (s, l') = Inr (py_amount p, s1, l1)" and s1: "cp_payment s1 i = Some ?q"
    using assms(6,7) tr all admin by (auto simp: conditional_execute_Inr)
  have "conditional_exec xfer pull bal (e, CExecute i) (s, l') = Inr (s1, l1)" by (simp add: ex)
  from conditional_exec_wf [OF this] wf have wf1: "conditional_wf s1" by simp
  have later: "cp_payment s2 i = Some ?q \<and> cp_admin s2 \<noteq> None"
    if "run (conditional_exec xfer pull bal) ds (s1, l1) = (s2, l2)" for ds s2 l2
  proof -
    have "conditional_wf s2" "settles (s1, l1) (s2, l2)"
      using conditional_run_settles [of "(s1, l1)" xfer pull bal ds] wf1 that by simp_all
    moreover from this(2) s1 have "cp_payment s2 i = Some ?q" unfolding settles_def by fastforce
    ultimately show ?thesis by (auto simp: conditional_wf_def)
  qed
  show ?thesis
  proof (intro exI conjI allI impI)
    show "execute_payment xfer bal e i (s, l') = Inr (py_amount p, s1, l1)" by (rule ex)
    show "bal l1 t a = bal l' t a + (if t = py_token p \<and> a = py_recipient p then py_amount p else 0)
         - (if t = py_token p \<and> a = env_self e then py_amount p else 0)" for t a
      using token_client.xfer_balance [OF assms(1) tr, of t a] ne by auto
    fix ds s2 l2 assume "run (conditional_exec xfer pull bal) ds (s1, l1) = (s2, l2)"
    from later [OF this] have q: "cp_payment s2 i = Some ?q" and ready: "cp_admin s2 \<noteq> None" by simp_all
    show "cp_payment s2 i = Some ?q" by (rule q)
    show "execute_payment xfer bal e' i (s2, l2) = Inl (ContractError PaymentNotPending)" for e'
      using q ready by (auto simp: execute_payment_def require_initialized_def load_payment_def)
    show "cancel_payment xfer e' a i (s2, l2) \<noteq> Inr u" for e' a u
      using q by (cases u; cases "snd u") (auto simp: conditional_cancel_Inr)
  qed
qed


text \<open>How a pending payment is settled.  One call settles it as executed only if it is \<open>execute_payment\<close> on it and
  every condition holds at that moment, and then the amount goes to the recipient; or as cancelled only if it is
  \<open>cancel_payment\<close> signed by the payer, and then the amount goes back to the payer.  Payer, recipient, token, amount
  and conditions stay.\<close>

theorem conditional_settlement_spec:
  assumes "conditional_wf s" and "conditional_exec xfer pull bal (e, k) (s, l) = Inr (s', l')"
    and "cp_payment s i = Some p" and "py_status p = Pending" and "cp_payment s' i = Some q" and "py_status q \<noteq> Pending"
  shows "k = CExecute i \<and> q = p\<lparr>py_status := Executed, py_settled_at := env_timestamp e\<rparr>
      \<and> list_all (holds_when bal (env_timestamp e) (has_stamp s i) l) (py_conditions p)
      \<and> xfer e (py_token p) (env_self e) (py_recipient p) (py_amount p) l = Some l'
    \<or> k = CCancel (py_payer p) i \<and> q = p\<lparr>py_status := Cancelled, py_settled_at := env_timestamp e\<rparr>
      \<and> env_auth e (py_payer p) \<and> xfer e (py_token p) (env_self e) (py_payer p) (py_amount p) l = Some l'"
proof -
  have new: "p \<noteq> q" using assms(4,6) by auto
  have "list_all well_formed (py_conditions p)" using assms(1,3) by (auto simp: conditional_wf_def accepted_def)
  then have conds: "list_all (evaluate_condition bal e i (s, l)) (py_conditions p)
      \<longleftrightarrow> list_all (holds_when bal (env_timestamp e) (has_stamp s i) l) (py_conditions p)"
    by (auto simp: list_all_iff evaluate_iff)
  show ?thesis
  proof (cases k)
    case (CInitialize a)
    with assms new show ?thesis by (auto simp: conditional_initialize_Inr)
  next
    case (CCreate a r t n cs)
    with assms obtain j where "create_payment pull e a r t n cs (s, l) = Inr (j, s', l')" by auto
    note c = conditional_create_Inr [OF this]
    have "i \<noteq> j" using c assms(1,3) by (auto simp: conditional_wf_def)
    with c assms(3,5) new show ?thesis by simp
  next
    case (CApprove a j)
    with assms obtain u where "approve e a j (s, l) = Inr (u, s', l')" by auto
    from conditional_approve_Inr [OF this] assms new show ?thesis by auto
  next
    case (CExecute j)
    with assms new have "j = i" by (auto simp: conditional_execute_Inr split: if_splits)
    with CExecute assms conds show ?thesis by (auto simp: conditional_execute_Inr)
  next
    case (CCancel a j)
    with assms new have "j = i" by (auto simp: conditional_cancel_Inr split: if_splits)
    with CCancel assms show ?thesis by (auto simp: conditional_cancel_Inr)
  qed
qed

text \<open>A signer listed several times is counted several times: with one stamp, the threshold of a list that names one
  account \<open>n\<close> times is met.\<close>

lemma conditional_repeated_signer:
  assumes "0 < n" and "n \<le> MAX_SIGNERS"
  shows "well_formed (MultiSigApproved (replicate n a) n)"
    and "has_stamp s i a \<Longrightarrow> evaluate_condition bal e i (s, l) (MultiSigApproved (replicate n a) n)"
proof -
  show wf: "well_formed (MultiSigApproved (replicate n a) n)" using assms by (simp add: well_formed_def)
  show "evaluate_condition bal e i (s, l) (MultiSigApproved (replicate n a) n)" if "has_stamp s i a"
    using that by (simp only: evaluate_iff [OF wf]) (simp add: conj_commute cong: conj_cong)
qed

section \<open>Witnesses\<close>

definition conditional_demo_ledger :: "address \<Rightarrow> token_state" where
  "conditional_demo_ledger t = token_fresh\<lparr>tk_balance := [Addr 2 \<mapsto> 100], tk_allowance := [(Addr 2, Addr 8) \<mapsto> 100]\<rparr>"

definition conditional_demo_calls :: "(env \<times> conditional_call) list" where
  "conditional_demo_calls =
     [(signed_env [] 1 50 (Addr 8), CInitialize (Addr 1)),
      (signed_env [Addr 2] 1 50 (Addr 8), CCreate (Addr 2) (Addr 3) (Addr 7) 30 [TimeAfter 100, MultiSigApproved [Addr 4, Addr 5] 1]),
      (signed_env [Addr 4] 1 60 (Addr 8), CApprove (Addr 4) 0)]"

definition conditional_demo :: "conditional_state \<times> (address \<Rightarrow> token_state)" where
  "conditional_demo = run (conditional_exec token_xfer token_pull token_bal) conditional_demo_calls
     (conditional_fresh, conditional_demo_ledger)"

definition conditional_demo_payment :: payment where
  "conditional_demo_payment = \<lparr>py_payer = Addr 2, py_recipient = Addr 3, py_token = Addr 7, py_amount = 30,
     py_conditions = [TimeAfter 100, MultiSigApproved [Addr 4, Addr 5] 1], py_status = Pending, py_created_at = 50, py_settled_at = 0\<rparr>"

lemmas conditional_eval = conditional_demo_def conditional_demo_ledger_def conditional_demo_calls_def conditional_fresh_def
  initialize_def create_payment_def approve_def require_initialized_def load_payment_def next_payment_id_def save_payment_def
  emit_def has_stamp_def is_signer_def MAX_CONDITIONS_def MAX_SIGNERS_def token_pull_def token_bal_def callee_env_def Let_def
  Token.transfer_from_def Token.move_balance_def Token.token_query_defs token_fresh_def Token.emit_def arith_defs
  conditional_demo_payment_def

lemma conditional_demo_values:
  "cp_payment (fst conditional_demo) = [0 \<mapsto> conditional_demo_payment]"
  "has_stamp (fst conditional_demo) 0 a \<longleftrightarrow> a = Addr 4" "token_bal (snd conditional_demo) (Addr 7) (Addr 8) = 30"
  "token_bal (snd conditional_demo) (Addr 7) (Addr 3) = 0"
  by (simp_all add: conditional_eval) (auto intro: exI [of _ True])

lemma conditional_demo_careful: "k \<in> set conditional_demo_calls \<Longrightarrow> careful_payments (Addr 8) k"
  by (auto simp: conditional_demo_calls_def careful_payments_def)

lemma conditional_demo_start: "0 \<le> token_bal conditional_demo_ledger t c"
  by (simp add: token_bal_def conditional_demo_ledger_def token_fresh_def get_balance_def)

lemma conditional_demo_pays:
  "token_xfer (signed_env [] 2 200 (Addr 8)) (Addr 7) (Addr 8) (Addr 3) 30 (snd conditional_demo) \<noteq> None"
  by (simp add: conditional_eval token_xfer_def Token.transfer_def)

theorem conditional_solvent_witness:
  "locked (fst conditional_demo) (Addr 7) \<le> token_bal (snd conditional_demo) (Addr 7) (Addr 8)
     \<and> cp_payment (fst conditional_demo) 0 \<noteq> None"
proof -
  obtain s l where w: "conditional_demo = (s, l)" by (cases conditional_demo)
  show ?thesis
    using conditional_solvent [OF token_ledger.token_client_axioms pulled_ledger.token_client_axioms
        conditional_demo_start conditional_demo_careful w [unfolded conditional_demo_def], of "Addr 7"]
      conditional_demo_values(1) by (simp add: w)
qed

theorem conditional_paid_once_witness:
  "\<exists>s1 l1. execute_payment token_xfer token_bal (signed_env [] 2 200 (Addr 8)) 0 conditional_demo = Inr (30, s1, l1)
     \<and> token_bal l1 (Addr 7) (Addr 3) = 30"
proof -
  obtain s l where w: "conditional_demo = (s, l)" by (cases conditional_demo)
  note v = conditional_demo_values [unfolded w fst_conv snd_conv]
  have "cp_payment s 0 = Some conditional_demo_payment" using v(1) by simp
  from conditional_paid_once [where e = "signed_env [] 2 200 (Addr 8)", OF token_ledger.token_client_axioms
      pulled_ledger.token_client_axioms conditional_demo_start _ w [unfolded conditional_demo_def] this]
  show ?thesis
    using conditional_demo_careful v conditional_demo_pays
    by (fastforce simp: w conditional_demo_payment_def holds_when.simps card_gt_0_iff Suc_le_eq)
qed

end
