(* ===== verification/Deployment.thy ===== *)
theory Deployment
  imports Escrow Fee Shared_Budgets Conditional_Payment
begin

text \<open>
  A deployment: the escrow, fee, shared-budget and conditional-payment contracts at four addresses over one
  token ledger, called in any order.  None of them calls another, so they meet only in the ledger.

  The argument is rely and guarantee.  The locale \<open>custodian\<close> is what a contract that holds tokens
  must show on its own: its calls keep its own soundness, they never lower the balance of another
  account that did not sign the call, and its soundness survives any change of the ledger that does
  not lower its balances.  The four contracts are interpreted below, and the deployment needs
  nothing else of them.

  A contract's address signs nothing: it has no key, and the host lets it authorise only the calls it
  makes itself, which the contract models make explicit (transfers from \<open>env_self\<close>).
\<close>

section \<open>Custodians\<close>

locale custodian =
  fixes exec :: "env \<times> 'c \<Rightarrow> 's \<times> 'led \<Rightarrow> 'e trap + ('s \<times> 'led)"
    and bal :: "'led \<Rightarrow> address \<Rightarrow> address \<Rightarrow> int"
    and sound :: "address \<Rightarrow> 's \<times> 'led \<Rightarrow> bool"
    and admissible :: "address \<Rightarrow> env \<times> 'c \<Rightarrow> bool"
  assumes keeps: "sound c w \<Longrightarrow> admissible c k \<Longrightarrow> exec k w = Inr w' \<Longrightarrow> sound c w'"
    and guarantee: "sound c w \<Longrightarrow> admissible c k \<Longrightarrow> exec k w = Inr w' \<Longrightarrow> d \<noteq> c
          \<Longrightarrow> \<not> env_auth (fst k) d \<Longrightarrow> bal (snd w) t d \<le> bal (snd w') t d"
    and relies: "sound c (s, l) \<Longrightarrow> (\<And>t. bal l t c \<le> bal l' t c) \<Longrightarrow> sound c (s, l')"
begin

lemma step_beside:
  assumes "sound c (s, l)" and "admissible c k" and "exec k (s, l) = Inr (s', l')"
    and "d \<noteq> c" and "\<not> env_auth (fst k) d"
  shows "sound c (s', l') \<and> (\<forall>t. bal l t d \<le> bal l' t d)"
  using keeps [OF assms(1-3)] guarantee [OF assms] by simp

end

section \<open>What each contract guarantees the others\<close>

lemma client_transfer_spares:
  assumes "token_client xfer bal" and "xfer e t a b n l = Some l'" and "a \<noteq> b" and "d \<noteq> a"
  shows "bal l t' d \<le> bal l' t' d"
  using token_client.xfer_balance [OF assms(1-3), of t' d] token_client.xfer_covered [OF assms(1,2)] assms(4) by simp

lemma settle_spares:
  assumes S: "settlement xfer settle payee target bal" and run: "settle e b t items st = Inr st'"
    and payees: "\<And>i x v c. (i, Some x, v, c) \<in> set items \<Longrightarrow> payee x \<noteq> env_self e"
    and d: "d \<noteq> env_self e"
  shows "bal (ps_ledger st) t' d \<le> bal (ps_ledger st') t' d"
proof -
  have B: "batch_pass xfer settle payee target" and client: "token_client xfer bal"
    using S by (simp_all add: settlement_def)
  let ?P = "\<lambda>(its :: item list) p. bal (ps_ledger st) t' d \<le> bal (ps_ledger p) t' d
    \<and> (\<forall>i x v c. (i, Some x, v, c) \<in> set its \<longrightarrow> payee x \<noteq> env_self e)"
  have "?P [] st'"
  proof (rule batch_pass.settle_induct [OF B run, of ?P])
    show "?P items st" using payees by simp
  next
    fix i eo c its p p1
    assume "?P ((i, eo, False, c) # its) p" "skipped p p1"
    then show "?P its p1" by (auto simp: skipped_def)
  next
    fix i x c its p p1
    assume P: "?P ((i, Some x, True, c) # its) p"
      and tr: "xfer e t (env_self e) (payee x) (esc_amount x) (ps_ledger p) = Some (ps_ledger p1)"
    from P have "env_self e \<noteq> payee x" by (metis list.set_intros(1))
    from client_transfer_spares [OF client tr this d, of t'] P show "?P its p1"
      by (auto dest: list.set_intros(2))
  qed
  then show ?thesis by simp
qed

lemma escrow_spares:
  assumes client: "token_client xfer bal" and sound: "escrow_sound bal c w" and care: "careful c k"
    and run: "escrow_exec xfer k w = Inr w'" and d: "d \<noteq> c" "\<not> env_auth (fst k) d"
  shows "bal (snd w) t d \<le> bal (snd w') t d"
proof -
  obtain e call s l s' l' where eq: "k = (e, call)" "w = (s, l)" "w' = (s', l')"
    by (cases k; cases w; cases w')
  have c: "env_self e = c" using care by (simp add: careful_def eq)
  have parties: "esc_depositor x \<noteq> c \<and> esc_recipient x \<noteq> c" if "es_escrows s i = Some x" for i x
    using sound that by (simp add: escrow_sound_def eq)
  have "bal l t d \<le> bal l' t d"
  proof (cases call)
    case (CInitialize a y)
    with run show ?thesis by (auto simp: eq Escrow.initialize_def split: if_splits)
  next
    case (CSetAdmin a b)
    with run show ?thesis by (auto simp: eq Escrow.set_admin_def Escrow.require_admin_def split: if_splits option.splits)
  next
    case (CCreate p r arb n dl)
    with run obtain i where "create_escrow xfer e p r arb n dl (s, l) = Inr (i, s', l')" by (auto simp: eq)
    then obtain token where "env_auth e p" "xfer e token p (env_self e) n l = Some l'"
      by (rule create_escrowE)
    moreover have "p \<noteq> c" using care CCreate by (simp add: careful_def eq)
    ultimately show ?thesis
      using client_transfer_spares [OF client, of e token p c n l l' d t] d c eq by auto
  next
    case (CRelease a i)
    with run obtain u where "release_escrow xfer e a i (s, l) = Inr (u, s', l')" by (auto simp: eq)
    then obtain x where "es_escrows s i = Some x"
      "xfer e (esc_token x) (env_self e) (esc_recipient x) (esc_amount x) l = Some l'"
      by (rule release_escrowE)
    with client_transfer_spares [OF client this(2)] parties d c show ?thesis by metis
  next
    case (CReleaseBatch a rs)
    with run obtain r where "batch_release_escrows xfer e a rs (s, l) = Inr (r, s', l')" by (auto simp: eq)
    then obtain b admin token st where
      "release_pass xfer e b token (map (release_item a admin s) rs)
         (pass_start (Escrow.emit (BatchReleaseStarted b (length rs)) s) l) = Inr st" "ps_ledger st = l'"
      by (rule batch_releaseE)
    with settle_spares [OF release_settlement [OF client] this(1), of d t] c d parties show ?thesis
      by (auto dest!: item_record(1))
  next
    case (CReverse a rs)
    with run obtain r where "batch_reverse_escrows xfer e a rs (s, l) = Inr (r, s', l')" by (auto simp: eq)
    then obtain b token st where
      "reverse_pass xfer e b token (map (reversal_item a a (env_sequence e) s) rs)
         (pass_start (Escrow.emit (BatchReversalStarted b (length rs)) s) l) = Inr st" "ps_ledger st = l'"
      by (rule batch_reverseE)
    with settle_spares [OF reverse_settlement [OF client] this(1), of d t] c d parties show ?thesis
      by (auto dest!: item_record(2))
  qed
  then show ?thesis by (simp add: eq)
qed

lemma fee_spares:
  assumes client: "token_client xfer bal" and sound: "fee_sound bal c w" and care: "careful_fee c k"
    and run: "fee_exec xfer chk k w = Inr w'" and d: "d \<noteq> c" "\<not> env_auth (fst k) d"
  shows "bal (snd w) t d \<le> bal (snd w') t d"
proof -
  obtain e call s l s' l' where eq: "k = (e, call)" "w = (s, l)" "w' = (s', l')"
    by (cases k; cases w; cases w')
  have c: "env_self e = c" using care by (simp add: careful_fee_def eq)
  have pays: "bal l t d \<le> bal l' t d"
    if "xfer e tk p (env_self e) n l = Some l'" "env_auth e p" "p \<noteq> c" for tk p n
  proof -
    have "p \<noteq> env_self e" "d \<noteq> p" using that d c by (auto simp: eq)
    with client_transfer_spares [OF client that(1)] show ?thesis by blast
  qed
  have "bal l t d \<le> bal l' t d"
  proof (cases call)
    case (CCollect p n)
    with run obtain r where r: "collect_fee xfer e p n (s, l) = Inr (r, s', l')" by (auto simp: eq)
    have "p \<noteq> c" using care CCollect by (simp add: careful_fee_def eq)
    then show ?thesis
      using collect_fee_Inr [OF r] by (auto simp: collect_to_escrow_Inr intro: pays)
  next
    case (CCollectBatch p ns)
    with run obtain r where r: "collect_fee_batch xfer e p ns (s, l) = Inr (r, s', l')" by (auto simp: eq)
    have "p \<noteq> c" using care CCollectBatch by (simp add: careful_fee_def eq)
    then show ?thesis
      using collect_fee_batch_Inr [OF r] by (auto dest!: collect_batch_Inr intro: pays)
  next
    case (CRelease a cy)
    with run obtain r where "release_fees xfer chk e a cy (s, l) = Inr (r, s', l')" by (auto simp: eq)
    then obtain cfg where cfg: "fe_config s = Some cfg"
      and tr: "xfer e (fc_token cfg) (env_self e) (fc_treasury cfg) r l = Some l'"
      by (auto dest!: release_fees_Inr simp: release_cycle_Inr)
    have "c \<noteq> fc_treasury cfg" using sound cfg by (auto simp: fee_sound_def eq)
    with client_transfer_spares [OF client tr, of d t] c d show ?thesis by simp
  qed (use run in \<open>auto simp: eq on_state_def split: sum.splits\<close>)
  then show ?thesis by (simp add: eq)
qed

lemma budgets_spare:
  assumes client: "token_client xfer bal" and care: "careful_budgets c k"
    and run: "budgets_exec xfer k w = Inr w'" and d: "d \<noteq> c" "\<not> env_auth (fst k) d"
  shows "bal (snd w) t d \<le> bal (snd w') t d"
proof -
  obtain e call s l s' l' where eq: "k = (e, call)" "w = (s, l)" "w' = (s', l')"
    by (cases k; cases w; cases w')
  have c: "env_self e = c" using care by (simp add: careful_budgets_def eq)
  have "bal l t d \<le> bal l' t d"
  proof (cases call)
    case (CContribute a i n m)
    with run obtain u where u: "contribute_to_budget xfer e a i n m (s, l) = Inr (u, s', l')" by (auto simp: eq)
    have "a \<noteq> c" using care CContribute by (simp add: careful_budgets_def eq)
    with fund_Inr [OF u] client_transfer_spares [OF client, of e _ a c n l l' d t] c d eq show ?thesis by auto
  next
    case (CSpend a i r n)
    with run obtain u where u: "spend_from_budget xfer e a i r n (s, l) = Inr (u, s', l')" by (auto simp: eq)
    have "r \<noteq> c" using care CSpend by (simp add: careful_budgets_def eq)
    with spend_Inr [OF u] client_transfer_spares [OF client, of e _ c r n l l' d t] c d show ?thesis by auto
  next
    case (CInitialize a)
    with run show ?thesis by (auto simp: eq dest: admin_calls_Inr)
  next
    case (CCreate a nm ms y rs)
    with run show ?thesis by (auto simp: eq dest: create_Inr)
  next
    case (CTransferOwnership a i b)
    with run show ?thesis by (auto simp: eq dest: transfer_Inr)
  next
    case (CAddMember a i b)
    with run show ?thesis by (auto simp: eq dest: add_member_Inr)
  next
    case (CAddRule a i r)
    with run show ?thesis by (auto simp: eq dest: add_rule_Inr)
  next
    case (CSetRetention a n)
    with run show ?thesis by (auto simp: eq dest: admin_calls_Inr)
  next
    case (CDeactivate a i)
    with run show ?thesis by (auto simp: eq dest: deactivate_Inr)
  next
    case (CArchive a n)
    with run show ?thesis by (auto simp: eq dest: archive_Inr)
  next
    case (CSetAdmin a b)
    with run show ?thesis by (auto simp: eq dest: admin_calls_Inr)
  qed
  then show ?thesis by (simp add: eq)
qed

lemma payments_spare:
  assumes xfer: "token_client xfer bal" and pull: "token_client pull bal" and sound: "conditional_sound bal c w"
    and care: "careful_payments c k" and run: "conditional_exec xfer pull bal k w = Inr w'" and d: "d \<noteq> c" "\<not> env_auth (fst k) d"
  shows "bal (snd w) t d \<le> bal (snd w') t d"
proof -
  obtain e call s l s' l' where eq: "k = (e, call)" "w = (s, l)" "w' = (s', l')"
    by (cases k; cases w; cases w')
  have c: "env_self e = c" and quiet: "\<not> env_auth e c" using care by (simp_all add: careful_payments_def eq)
  have parties: "py_payer p \<noteq> c \<and> py_recipient p \<noteq> c" if "cp_payment s i = Some p" for i p
    using sound that by (simp add: conditional_sound_def eq)
  have "bal l t d \<le> bal l' t d"
  proof (cases call)
    case (CInitialize a)
    with run show ?thesis by (auto simp: eq conditional_initialize_Inr)
  next
    case (CCreate p r tk n cs)
    with run obtain i where "create_payment pull e p r tk n cs (s, l) = Inr (i, s', l')" by (auto simp: eq)
    note * = conditional_create_Inr [OF this]
    then have "p \<noteq> c" "d \<noteq> p" using quiet d by (auto simp: eq)
    with * client_transfer_spares [OF pull, of e tk p c n l l' d t] c show ?thesis by auto
  next
    case (CApprove a i)
    with run obtain u where "approve e a i (s, l) = Inr (u, s', l')" by (auto simp: eq)
    from conditional_approve_Inr [OF this] show ?thesis by auto
  next
    case (CExecute i)
    with run obtain p where "cp_payment s i = Some p" "xfer e (py_token p) c (py_recipient p) (py_amount p) l = Some l'"
      by (auto simp: eq c conditional_execute_Inr)
    with client_transfer_spares [OF xfer this(2)] parties d show ?thesis by metis
  next
    case (CCancel a i)
    with run obtain p where "cp_payment s i = Some p" "xfer e (py_token p) c (py_payer p) (py_amount p) l = Some l'"
      by (auto simp: eq c conditional_cancel_Inr)
    with client_transfer_spares [OF xfer this(2)] parties d show ?thesis by metis
  qed
  then show ?thesis by (simp add: eq)
qed

section \<open>The contracts are custodians\<close>

lemma escrow_relies: "escrow_sound bal c (s, l) \<Longrightarrow> (\<And>t. bal l t c \<le> bal l' t c) \<Longrightarrow> escrow_sound bal c (s, l')"
  by (auto simp: escrow_sound_def intro: order_trans)

lemma fee_relies: "fee_sound bal c (s, l) \<Longrightarrow> (\<And>t. bal l t c \<le> bal l' t c) \<Longrightarrow> fee_sound bal c (s, l')"
  by (auto simp: fee_sound_def intro: order_trans)

lemma budgets_rely: "budgets_sound bal c (s, l) \<Longrightarrow> (\<And>t. bal l t c \<le> bal l' t c) \<Longrightarrow> budgets_sound bal c (s, l')"
  by (auto simp: budgets_sound_def owed_def intro: order_trans)

lemma payments_rely:
  "conditional_sound bal c (s, l) \<Longrightarrow> (\<And>t. bal l t c \<le> bal l' t c) \<Longrightarrow> conditional_sound bal c (s, l')"
  by (auto simp: conditional_sound_def intro: order_trans)

lemma custodians:
  assumes "token_client xfer bal"
  shows "custodian (escrow_exec xfer) bal (escrow_sound bal) careful"
    and "custodian (fee_exec xfer chk) bal (fee_sound bal) careful_fee"
    and "custodian (budgets_exec xfer) bal (budgets_sound bal) careful_budgets"
  subgoal
    by unfold_locales (blast intro: escrow_exec_sound [OF assms] escrow_spares [OF assms] escrow_relies)+
  subgoal
    by unfold_locales (blast intro: fee_exec_sound [OF assms] fee_spares [OF assms] fee_relies)+
  subgoal
    by unfold_locales (blast intro: budgets_exec_sound [OF assms] budgets_spare [OF assms] budgets_rely)+
  done

lemma payments_custodian:
  assumes "token_client xfer bal" and "token_client pull bal"
  shows "custodian (conditional_exec xfer pull bal) bal (conditional_sound bal) careful_payments"
  by unfold_locales (blast intro: conditional_exec_sound [OF assms] payments_spare [OF assms] payments_rely)+

interpretation escrow_custody: custodian "escrow_exec token_xfer" token_bal "escrow_sound token_bal" careful
  by (rule custodians(1) [OF token_ledger.token_client_axioms])

interpretation fee_custody: custodian "fee_exec token_xfer chk" token_bal "fee_sound token_bal" careful_fee for chk
  by (rule custodians(2) [OF token_ledger.token_client_axioms])

interpretation budgets_custody:
  custodian "budgets_exec token_xfer" token_bal "budgets_sound token_bal" careful_budgets
  by (rule custodians(3) [OF token_ledger.token_client_axioms])

interpretation payments_custody:
  custodian "conditional_exec token_xfer token_pull token_bal" token_bal "conditional_sound token_bal" careful_payments
  by (rule payments_custodian [OF token_ledger.token_client_axioms pulled_ledger.token_client_axioms])

section \<open>The deployment\<close>

record 'led deployment =
  dp_escrow :: escrow_state
  dp_fee :: fee_state
  dp_budgets :: budgets_state
  dp_payments :: conditional_state
  dp_ledger :: 'led

record addresses =
  at_escrow :: address
  at_fee :: address
  at_budgets :: address
  at_payments :: address

datatype deployed_call =
    ToEscrow escrow_call
  | ToFee fee_call
  | ToBudgets budgets_call
  | ToPayments conditional_call

text \<open>A transaction calls one contract; the host hands it its own storage, the ledger and its address.
  Which of the contracts trapped is all the caller learns here.\<close>

definition at :: "address \<Rightarrow> env \<Rightarrow> env" where
  "at c e = e\<lparr>env_self := c\<rparr>"

fun deployment_exec :: "'led xfer \<Rightarrow> 'led xfer \<Rightarrow> ('led \<Rightarrow> address \<Rightarrow> address \<Rightarrow> int) \<Rightarrow> admin_check \<Rightarrow> addresses \<Rightarrow> env \<times> deployed_call \<Rightarrow> 'led deployment
    \<Rightarrow> unit trap + 'led deployment" where
  "deployment_exec xfer pull bal chk cs (e, ToEscrow k) w =
    (case escrow_exec xfer (at (at_escrow cs) e, k) (dp_escrow w, dp_ledger w) of
       Inl t \<Rightarrow> Inl (map_trap (\<lambda>_. ()) t)
     | Inr (s, l) \<Rightarrow> Inr (w\<lparr>dp_escrow := s, dp_ledger := l\<rparr>))"
| "deployment_exec xfer pull bal chk cs (e, ToFee k) w =
    (case fee_exec xfer chk (at (at_fee cs) e, k) (dp_fee w, dp_ledger w) of
       Inl t \<Rightarrow> Inl (map_trap (\<lambda>_. ()) t)
     | Inr (s, l) \<Rightarrow> Inr (w\<lparr>dp_fee := s, dp_ledger := l\<rparr>))"
| "deployment_exec xfer pull bal chk cs (e, ToBudgets k) w =
    (case budgets_exec xfer (at (at_budgets cs) e, k) (dp_budgets w, dp_ledger w) of
       Inl t \<Rightarrow> Inl (map_trap (\<lambda>_. ()) t)
     | Inr (s, l) \<Rightarrow> Inr (w\<lparr>dp_budgets := s, dp_ledger := l\<rparr>))"
| "deployment_exec xfer pull bal chk cs (e, ToPayments k) w =
    (case conditional_exec xfer pull bal (at (at_payments cs) e, k) (dp_payments w, dp_ledger w) of
       Inl t \<Rightarrow> Inl (map_trap (\<lambda>_. ()) t)
     | Inr (s, l) \<Rightarrow> Inr (w\<lparr>dp_payments := s, dp_ledger := l\<rparr>))"

definition deployment_fresh :: "'led \<Rightarrow> 'led deployment" where
  "deployment_fresh l = \<lparr>dp_escrow = escrow_fresh, dp_fee = fee_fresh, dp_budgets = budgets_fresh,
     dp_payments = conditional_fresh, dp_ledger = l\<rparr>"

text \<open>The calls considered: none of the four addresses signs, and each contract's own care is taken.\<close>

definition unsigned_by_contracts :: "addresses \<Rightarrow> env \<Rightarrow> bool" where
  "unsigned_by_contracts cs e \<longleftrightarrow>
     \<not> env_auth e (at_escrow cs) \<and> \<not> env_auth e (at_fee cs) \<and> \<not> env_auth e (at_budgets cs)
   \<and> \<not> env_auth e (at_payments cs)"

definition careful_call :: "addresses \<Rightarrow> env \<times> deployed_call \<Rightarrow> bool" where
  "careful_call cs ec \<longleftrightarrow> unsigned_by_contracts cs (fst ec) \<and> (case snd ec of
       ToEscrow k \<Rightarrow> careful (at_escrow cs) (at (at_escrow cs) (fst ec), k)
     | ToFee k \<Rightarrow> careful_fee (at_fee cs) (at (at_fee cs) (fst ec), k)
     | ToBudgets k \<Rightarrow> careful_budgets (at_budgets cs) (at (at_budgets cs) (fst ec), k)
     | ToPayments k \<Rightarrow> careful_payments (at_payments cs) (at (at_payments cs) (fst ec), k))"

definition apart :: "addresses \<Rightarrow> bool" where
  "apart cs \<longleftrightarrow> distinct [at_escrow cs, at_fee cs, at_budgets cs, at_payments cs]"

definition deployment_sound ::
  "('led \<Rightarrow> address \<Rightarrow> address \<Rightarrow> int) \<Rightarrow> addresses \<Rightarrow> 'led deployment \<Rightarrow> bool" where
  "deployment_sound bal cs w \<longleftrightarrow>
     escrow_sound bal (at_escrow cs) (dp_escrow w, dp_ledger w)
   \<and> fee_sound bal (at_fee cs) (dp_fee w, dp_ledger w)
   \<and> budgets_sound bal (at_budgets cs) (dp_budgets w, dp_ledger w)
   \<and> conditional_sound bal (at_payments cs) (dp_payments w, dp_ledger w)"

lemma at_simps [simp]: "env_self (at c e) = c" "env_auth (at c e) = env_auth e" "env_sequence (at c e) = env_sequence e"
  "env_timestamp (at c e) = env_timestamp e"
  by (simp_all add: at_def)

lemma deployment_step:
  assumes client: "token_client xfer bal" and pull: "token_client pull bal" and apart: "apart cs" and sound: "deployment_sound bal cs w"
    and care: "careful_call cs ec" and run: "deployment_exec xfer pull bal chk cs ec w = Inr w'"
  shows "deployment_sound bal cs w'"
proof -
  obtain e k where ec: "ec = (e, k)" by (cases ec)
  note quiet = care [unfolded careful_call_def unsigned_by_contracts_def ec, simplified]
  note far = apart [unfolded apart_def, simplified]
  note now = sound [unfolded deployment_sound_def]
  note beside = custodian.step_beside [OF custodians(1) [OF client]]
    custodian.step_beside [OF custodians(2) [OF client, of chk]]
    custodian.step_beside [OF custodians(3) [OF client]] custodian.step_beside [OF payments_custodian [OF client pull]]
  note rest = escrow_relies [of bal _ "dp_escrow w" "dp_ledger w"] fee_relies [of bal _ "dp_fee w" "dp_ledger w"]
    budgets_rely [of bal _ "dp_budgets w" "dp_ledger w"] payments_rely [of bal _ "dp_payments w" "dp_ledger w"]
  show ?thesis
  proof (cases k)
    case (ToEscrow q)
    with run ec obtain s l where "escrow_exec xfer (at (at_escrow cs) e, q) (dp_escrow w, dp_ledger w) = Inr (s, l)"
      and w': "w' = w\<lparr>dp_escrow := s, dp_ledger := l\<rparr>" by (auto split: sum.splits)
    note * = beside(1) [OF _ _ this(1)]
    show ?thesis
      using *[of "at_escrow cs" "at_fee cs"] *[of "at_escrow cs" "at_budgets cs"] *[of "at_escrow cs" "at_payments cs"] now quiet far ToEscrow rest
      by (auto simp: deployment_sound_def w')
  next
    case (ToFee q)
    with run ec obtain s l where "fee_exec xfer chk (at (at_fee cs) e, q) (dp_fee w, dp_ledger w) = Inr (s, l)"
      and w': "w' = w\<lparr>dp_fee := s, dp_ledger := l\<rparr>" by (auto split: sum.splits)
    note * = beside(2) [OF _ _ this(1)]
    show ?thesis
      using *[of "at_fee cs" "at_escrow cs"] *[of "at_fee cs" "at_budgets cs"] *[of "at_fee cs" "at_payments cs"] now quiet far ToFee rest
      by (auto simp: deployment_sound_def w')
  next
    case (ToBudgets q)
    with run ec obtain s l where "budgets_exec xfer (at (at_budgets cs) e, q) (dp_budgets w, dp_ledger w) = Inr (s, l)"
      and w': "w' = w\<lparr>dp_budgets := s, dp_ledger := l\<rparr>" by (auto split: sum.splits)
    note * = beside(3) [OF _ _ this(1)]
    show ?thesis
      using *[of "at_budgets cs" "at_escrow cs"] *[of "at_budgets cs" "at_fee cs"] *[of "at_budgets cs" "at_payments cs"]
        now quiet far ToBudgets rest by (auto simp: deployment_sound_def w')
  next
    case (ToPayments q)
    with run ec obtain s l where
      "conditional_exec xfer pull bal (at (at_payments cs) e, q) (dp_payments w, dp_ledger w) = Inr (s, l)"
      and w': "w' = w\<lparr>dp_payments := s, dp_ledger := l\<rparr>" by (auto split: sum.splits)
    note * = beside(4) [OF _ _ this(1)]
    show ?thesis
      using *[of "at_payments cs" "at_escrow cs"] *[of "at_payments cs" "at_fee cs"] *[of "at_payments cs" "at_budgets cs"]
        now quiet far ToPayments rest by (auto simp: deployment_sound_def w')
  qed
qed

text \<open>No batch to the escrow contract lists an id twice.\<close>

definition batches_once :: "env \<times> deployed_call \<Rightarrow> bool" where
  "batches_once ec = (case snd ec of ToEscrow k \<Rightarrow> lists_once k | _ \<Rightarrow> True)"

lemma deployment_once:
  assumes "deployment_sound bal cs w" and "distinct (map fst (payments (dp_escrow w)))" and "batches_once ec"
    and "deployment_exec xfer pull bal chk cs ec w = Inr w'"
  shows "distinct (map fst (payments (dp_escrow w')))"
proof -
  obtain e k where ec: "ec = (e, k)" by (cases ec)
  show ?thesis
  proof (cases k)
    case (ToEscrow q)
    with assms(4) ec obtain s l where "escrow_exec xfer (at (at_escrow cs) e, q) (dp_escrow w, dp_ledger w) = Inr (s, l)"
      and w': "w' = w\<lparr>dp_escrow := s, dp_ledger := l\<rparr>" by (auto split: sum.splits)
    from once_keeps [OF _ _ assms(2) _ this(1)] assms(1,3) show ?thesis
      by (simp add: w' ec ToEscrow batches_once_def deployment_sound_def escrow_sound_def)
  qed (use assms ec in \<open>auto split: sum.splits\<close>)
qed

interpretation deployment_machine:
  contract_invariant "deployment_exec token_xfer token_pull token_bal chk cs" "\<lambda>w. apart cs \<and> deployment_sound token_bal cs w" "careful_call cs"
  for chk cs
  by unfold_locales (auto intro: deployment_step [OF token_ledger.token_client_axioms pulled_ledger.token_client_axioms])

section \<open>Properties\<close>

text \<open>C1: Contracts deployed side by side stay solvent together.  The escrow, fee, shared-budget and
  conditional-payment contracts, at four different addresses over one token ledger, are called in any order.  As long
  as no contract address signs a call and no call names the contract that holds the tokens as the other party of its own
  transfer (\<open>careful_call\<close>), the fee contract holds its pending fees, the budget contract its budgets and the payment
  contract its pending payments, each of them at the same time: no call to one can spend what another holds.  The escrow
  contract holds its active escrows, less what it paid for escrows it had paid before, which batches that list an id twice
  make it do; it holds all of them while it has paid none twice, and so while no batch lists an id twice.\<close>

theorem deployment_solvent:
  assumes "token_client xfer bal" and "token_client pull bal" and "apart cs"
    and "\<And>t. 0 \<le> bal l t (at_escrow cs) \<and> 0 \<le> bal l t (at_fee cs) \<and> 0 \<le> bal l t (at_budgets cs) \<and> 0 \<le> bal l t (at_payments cs)"
    and "\<And>ec. ec \<in> set calls \<Longrightarrow> careful_call cs ec"
    and "run (deployment_exec xfer pull bal chk cs) calls (deployment_fresh l) = w"
  shows "(\<forall>t. es_token (dp_escrow w) = Some t \<longrightarrow>
            total_over active_amount (es_escrows (dp_escrow w))
              \<le> bal (dp_ledger w) t (at_escrow cs) + repeated (payments (dp_escrow w))
          \<and> (distinct (map fst (payments (dp_escrow w))) \<longrightarrow>
              total_over active_amount (es_escrows (dp_escrow w)) \<le> bal (dp_ledger w) t (at_escrow cs)))
    \<and> ((\<forall>ec\<in>set calls. batches_once ec) \<longrightarrow> distinct (map fst (payments (dp_escrow w))))
    \<and> (\<forall>cfg. fe_config (dp_fee w) = Some cfg \<longrightarrow>
            get_fee_balance (dp_fee w) \<le> bal (dp_ledger w) (fc_token cfg) (at_fee cs))
    \<and> (\<forall>t. owed (dp_budgets w) t \<le> bal (dp_ledger w) t (at_budgets cs))
    \<and> (\<forall>t. locked (dp_payments w) t \<le> bal (dp_ledger w) t (at_payments cs))"
proof -
  let ?exec = "deployment_exec xfer pull bal chk cs"
  have keeps: "contract_invariant ?exec (deployment_sound bal cs) (careful_call cs)"
    by unfold_locales (rule deployment_step [OF assms(1-3)])
  have keeps_once: "contract_invariant ?exec (\<lambda>w. deployment_sound bal cs w \<and> distinct (map fst (payments (dp_escrow w))))
      (\<lambda>ec. careful_call cs ec \<and> batches_once ec)"
    by unfold_locales (auto intro: deployment_step [OF assms(1-3)] deployment_once)
  have start: "deployment_sound bal cs (deployment_fresh l)"
    using assms(4) wf_fresh fee_books_fresh conditional_wf_fresh
    by (simp add: deployment_sound_def deployment_fresh_def escrow_sound_def fee_sound_def budgets_sound_def conditional_sound_def)
      (simp add: escrow_fresh_def fee_fresh_def budgets_fresh_def conditional_fresh_def owed_def locked_def paid_settled_def
        payments_def repeated_def)
  have sound: "deployment_sound bal cs w"
    using contract_invariant.run_inv [OF keeps start, of calls] assms(5,6) by simp
  have "distinct (map fst (payments (dp_escrow w)))" if "\<forall>ec\<in>set calls. batches_once ec"
    using contract_invariant.run_inv [OF keeps_once, of "deployment_fresh l" calls] start assms(5,6) that
    by (simp add: deployment_fresh_def escrow_fresh_def payments_def)
  then show ?thesis
    using sound repeated_distinct [of "payments (dp_escrow w)"]
    by (auto simp: deployment_sound_def escrow_sound_def fee_sound_def budgets_sound_def conditional_sound_def get_fee_balance_def)
qed

definition demo_addresses :: addresses where
  "demo_addresses = \<lparr>at_escrow = Addr 8, at_fee = Addr 9, at_budgets = Addr 10, at_payments = Addr 11\<rparr>"

definition demo_calls :: "(env \<times> deployed_call) list" where
  "demo_calls = [(signed_env [Addr 1] 5 50 (Addr 0), ToEscrow (escrow_call.CInitialize (Addr 1) (Addr 7))),
     (signed_env [Addr 1] 5 50 (Addr 0), ToBudgets (budgets_call.CInitialize (Addr 1))),
     (signed_env [Addr 2] 6 60 (Addr 0), ToBudgets (budgets_call.CCreate (Addr 2) ''Trip'' [] (Addr 7) [])),
     (signed_env [Addr 2] 6 60 (Addr 0), ToEscrow (escrow_call.CCreate (Addr 2) (Addr 3) None 40 90)),
     (signed_env [Addr 2] 6 60 (Addr 0), ToBudgets (CContribute (Addr 2) 1 30 None)),
     (signed_env [] 6 60 (Addr 0), ToPayments (conditional_call.CInitialize (Addr 1))),
     (signed_env [Addr 2] 6 60 (Addr 0), ToPayments (conditional_call.CCreate (Addr 2) (Addr 4) (Addr 7) 20 [TimeAfter 90])),
     (signed_env [] 6 60 (Addr 0), ToPayments (CExecute 0)),
     (signed_env [Addr 3] 7 70 (Addr 0), ToEscrow (escrow_call.CRelease (Addr 3) 1))]"

definition demo_ledger :: "address \<Rightarrow> token_state" where
  "demo_ledger t = token_fresh\<lparr>tk_balance := [Addr 2 \<mapsto> 100], tk_allowance := [(Addr 2, Addr 11) \<mapsto> 50]\<rparr>"

definition demo_deployment :: "(address \<Rightarrow> token_state) deployment" where
  "demo_deployment = run (deployment_exec token_xfer token_pull token_bal signature_check demo_addresses) demo_calls (deployment_fresh demo_ledger)"

theorem deployment_solvent_witness:
  "owed (dp_budgets demo_deployment) (Addr 7) \<le> token_bal (dp_ledger demo_deployment) (Addr 7) (Addr 10)
   \<and> token_bal (dp_ledger demo_deployment) (Addr 7) (Addr 10) = 30
   \<and> token_bal (dp_ledger demo_deployment) (Addr 7) (Addr 8) = 40
   \<and> locked (dp_payments demo_deployment) (Addr 7) \<le> token_bal (dp_ledger demo_deployment) (Addr 7) (Addr 11)
   \<and> token_bal (dp_ledger demo_deployment) (Addr 7) (Addr 11) = 20"
proof -
  have ledger: "\<And>t. 0 \<le> token_bal demo_ledger t (at_escrow demo_addresses) \<and> 0 \<le> token_bal demo_ledger t (at_fee demo_addresses)
      \<and> 0 \<le> token_bal demo_ledger t (at_budgets demo_addresses) \<and> 0 \<le> token_bal demo_ledger t (at_payments demo_addresses)"
    by (simp add: token_bal_def demo_ledger_def demo_addresses_def Token.token_query_defs token_fresh_def)
  have care: "\<And>ec. ec \<in> set demo_calls \<Longrightarrow> careful_call demo_addresses ec"
    by (auto simp: demo_calls_def careful_call_def unsigned_by_contracts_def demo_addresses_def
        careful_def careful_budgets_def careful_payments_def)
  have far: "apart demo_addresses" by (simp add: apart_def demo_addresses_def)
  have "token_bal (dp_ledger demo_deployment) (Addr 7) (Addr 10) = 30
    \<and> token_bal (dp_ledger demo_deployment) (Addr 7) (Addr 8) = 40 \<and> token_bal (dp_ledger demo_deployment) (Addr 7) (Addr 11) = 20"
    by (simp add: demo_deployment_def demo_calls_def deployment_fresh_def demo_addresses_def demo_ledger_def
        escrow_eval budgets_eval release_escrow_def conditional_eval execute_payment_def del: One_nat_def)
  moreover have "owed (dp_budgets demo_deployment) (Addr 7) \<le> token_bal (dp_ledger demo_deployment) (Addr 7) (Addr 10)"
    "locked (dp_payments demo_deployment) (Addr 7) \<le> token_bal (dp_ledger demo_deployment) (Addr 7) (Addr 11)"
    using deployment_solvent [OF token_ledger.token_client_axioms pulled_ledger.token_client_axioms far ledger care demo_deployment_def [symmetric]]
    by (simp_all add: demo_addresses_def)
  ultimately show ?thesis by simp
qed

end
