(* ===== verification/Spending_Limits.thy ===== *)
theory Spending_Limits
  imports Host
begin

text \<open>
  \<open>contracts/spending-limits/src\<close>: monthly, daily and hourly spending limits per user
  (\<open>lib.rs\<close>, \<open>types.rs\<close>, \<open>validation.rs\<close>, \<open>cross_contract.rs\<close>).  The state has one field per
  storage key; \<open>WindowSpending\<close> is declared in the code and never used, so it has none.
\<close>

section \<open>Data (types.rs)\<close>

definition MAX_BATCH_SIZE :: nat where "MAX_BATCH_SIZE = 100"
definition MIN_SPENDING_LIMIT :: int where "MIN_SPENDING_LIMIT = 10000000"
definition MAX_SPENDING_LIMIT :: int where "MAX_SPENDING_LIMIT = 1000000000000000000"
definition MIN_RESET_WINDOW_SECONDS :: nat where "MIN_RESET_WINDOW_SECONDS = 3600"
definition MAX_RESET_WINDOW_SECONDS :: nat where "MAX_RESET_WINDOW_SECONDS = 7776000"

lemmas limit_bounds = MAX_BATCH_SIZE_def MIN_SPENDING_LIMIT_def MAX_SPENDING_LIMIT_def
  MIN_RESET_WINDOW_SECONDS_def MAX_RESET_WINDOW_SECONDS_def

datatype limit_strategy = Static | Adaptive

record escalation_config =
  ec_small_threshold :: int
  ec_medium_threshold :: int
  ec_enabled :: bool

record limit_request =
  lq_user :: address
  lq_monthly :: int
  lq_daily :: int
  lq_hourly :: int
  lq_reset_window :: nat
  lq_category :: "symbol option"
  lq_strategy :: limit_strategy

record spending_limit =
  sl_user :: address
  sl_monthly :: int
  sl_daily :: int
  sl_hourly :: int
  sl_reset_window :: nat
  sl_current :: int
  sl_category :: "symbol option"
  sl_updated_at :: nat
  sl_active :: bool
  sl_strategy :: limit_strategy

record limits_config =
  lc_admin :: address
  lc_last_batch_id :: nat
  lc_total_updated :: nat
  lc_total_batches :: nat

datatype limit_update_result =
    UpdateSuccess spending_limit
  | UpdateFailure address nat

record batch_limit_metrics =
  bm_total_requests :: nat
  bm_successful :: nat
  bm_failed :: nat
  bm_total_value :: int
  bm_avg_amount :: int
  bm_processed_at :: nat

record batch_limit_result =
  bl_batch_id :: nat
  bl_total_requests :: nat
  bl_successful :: nat
  bl_failed :: nat
  bl_results :: "limit_update_result list"
  bl_metrics :: batch_limit_metrics

record exception_rule =
  xr_user :: address
  xr_category :: symbol
  xr_created_at :: nat
  xr_active :: bool

text \<open>The emitters of \<open>LimitEvents\<close> and the event of \<open>emergency_override\<close>.  \<open>limit_exceeded\<close> is always
  followed by a panic, so it never belongs to a committed state.\<close>

datatype limit_event =
    BatchStarted nat nat
  | LimitUpdated nat address int
  | LimitAdjusted address int int
  | HighValueLimit nat address int
  | LimitUpdateFailed nat address nat
  | BatchCompleted nat nat nat int
  | EscalationConfigured int int bool
  | EscalationApproved address address int
  | LimitOverridden address address int int
  | EmergencyOverride address address int nat
  | ExceptionAdded address symbol
  | ExceptionRemoved address symbol
  | ExceptionBypassed address int symbol
  | CategoryApproved symbol
  | CategoryRemoved symbol

datatype limit_error =
    NotInitialized
  | Unauthorized
  | InvalidBatch
  | EmptyBatch
  | BatchTooLarge
  | DailyLimitExceeded
  | HourlyLimitExceeded
  | MonthlyLimitExceeded
  | InvalidAmount
  | CategoryNotApproved

record limits_state =
  lm_config :: "limits_config option"
  lm_limit :: "address \<rightharpoonup> spending_limit"
  lm_hourly :: "address \<times> nat \<rightharpoonup> int"
  lm_daily :: "address \<times> nat \<rightharpoonup> int"
  lm_monthly :: "address \<times> nat \<rightharpoonup> int"
  lm_exceptions :: "address \<times> symbol \<rightharpoonup> exception_rule"
  lm_categories :: "symbol list option"
  lm_escalation :: "escalation_config option"
  lm_whitelist :: "address \<rightharpoonup> bool"
  lm_events :: "limit_event list"

definition limits_fresh :: limits_state where
  "limits_fresh = \<lparr>lm_config = None, lm_limit = Map.empty, lm_hourly = Map.empty,
     lm_daily = Map.empty, lm_monthly = Map.empty, lm_exceptions = Map.empty,
     lm_categories = None, lm_escalation = None, lm_whitelist = Map.empty, lm_events = []\<rparr>"

definition emit :: "limit_event \<Rightarrow> limits_state \<Rightarrow> limits_state" where
  "emit ev s = s\<lparr>lm_events := lm_events s @ [ev]\<rparr>"

section \<open>Validation (validation.rs)\<close>

definition INVALID_LIMIT :: nat where "INVALID_LIMIT = 0"
definition INVALID_USER_ADDRESS :: nat where "INVALID_USER_ADDRESS = 1"

definition is_valid_limit :: "int \<Rightarrow> bool" where
  "is_valid_limit limit \<longleftrightarrow> MIN_SPENDING_LIMIT \<le> limit \<and> limit \<le> MAX_SPENDING_LIMIT"

definition is_valid_reset_window :: "nat \<Rightarrow> bool" where
  "is_valid_reset_window window \<longleftrightarrow> MIN_RESET_WINDOW_SECONDS \<le> window \<and> window \<le> MAX_RESET_WINDOW_SECONDS"

definition is_valid_address :: "address \<Rightarrow> bool" where
  "is_valid_address a = True"

definition validate_limit_request :: "limit_request \<Rightarrow> nat + unit" where
  "validate_limit_request rq =
    (if \<not> is_valid_address (lq_user rq) then Inl INVALID_USER_ADDRESS else
     if \<not> is_valid_limit (lq_monthly rq) then Inl INVALID_LIMIT else
     if \<not> is_valid_limit (lq_daily rq) then Inl INVALID_LIMIT else
     if \<not> is_valid_limit (lq_hourly rq) then Inl INVALID_LIMIT else
     if lq_daily rq < lq_hourly rq \<or> lq_monthly rq < lq_daily rq then Inl INVALID_LIMIT else
     if \<not> is_valid_reset_window (lq_reset_window rq) then Inl INVALID_LIMIT else Inr ())"

section \<open>Entry points (lib.rs)\<close>

definition initialize :: "env \<Rightarrow> address \<Rightarrow> limits_state \<Rightarrow> (limits_state, limit_error, unit) outcome" where
  "initialize e admin s =
    (if lm_config s \<noteq> None then Inl PanicTrap else
     Inr ((), s\<lparr>lm_config := Some \<lparr>lc_admin = admin, lc_last_batch_id = 0, lc_total_updated = 0,
                                    lc_total_batches = 0\<rparr>\<rparr>))"

definition require_admin :: "address \<Rightarrow> limits_state \<Rightarrow> limit_error trap + unit" where
  "require_admin caller s =
    (case lm_config s of None \<Rightarrow> Inl PanicTrap | Some config \<Rightarrow>
     if caller \<noteq> lc_admin config then Inl (ContractError Unauthorized) else Inr ())"

subsection \<open>Batch update\<close>

record update_loop =
  ul_state :: limits_state
  ul_results :: "limit_update_result list"
  ul_ok :: nat
  ul_failed :: nat
  ul_total :: int

definition limit_of_request :: "nat \<Rightarrow> limit_request \<Rightarrow> spending_limit" where
  "limit_of_request current_ledger rq =
     \<lparr>sl_user = lq_user rq, sl_monthly = lq_monthly rq, sl_daily = lq_daily rq,
      sl_hourly = lq_hourly rq, sl_reset_window = lq_reset_window rq, sl_current = 0,
      sl_category = lq_category rq, sl_updated_at = current_ledger, sl_active = True,
      sl_strategy = lq_strategy rq\<rparr>"

definition update_step :: "nat \<Rightarrow> nat \<Rightarrow> update_loop \<Rightarrow> limit_request \<Rightarrow> update_loop" where
  "update_step batch_id current_ledger u rq =
    (case validate_limit_request rq of
       Inr _ \<Rightarrow>
         let limit = limit_of_request current_ledger rq;
             s1 = (ul_state u)\<lparr>lm_limit := (lm_limit (ul_state u))(lq_user rq \<mapsto> limit)\<rparr>;
             s2 = emit (LimitUpdated batch_id (sl_user limit) (sl_monthly limit)) s1;
             s3 = (if 10000000000000000 \<le> lq_monthly rq
                   then emit (HighValueLimit batch_id (lq_user rq) (lq_monthly rq)) s2 else s2)
         in u\<lparr>ul_total := unwrap_or (checked_add (ul_total u) (lq_monthly rq)) i128_max,
              ul_ok := ul_ok u + 1, ul_state := s3,
              ul_results := ul_results u @ [UpdateSuccess limit]\<rparr>
     | Inl error_code \<Rightarrow>
         u\<lparr>ul_failed := ul_failed u + 1,
           ul_state := emit (LimitUpdateFailed batch_id (lq_user rq) error_code) (ul_state u),
           ul_results := ul_results u @ [UpdateFailure (lq_user rq) error_code]\<rparr>)"

definition u64_add_or_max :: "nat \<Rightarrow> nat \<Rightarrow> nat" where
  "u64_add_or_max a b = unwrap_or (u64_add a b) u64_max"

definition batch_update_spending_limits :: "env \<Rightarrow> address \<Rightarrow> limit_request list \<Rightarrow> limits_state
    \<Rightarrow> (limits_state, limit_error, batch_limit_result) outcome" where
  "batch_update_spending_limits e caller requests s =
    (if \<not> env_auth e caller then Inl AuthTrap else
     case require_admin caller s of Inl t \<Rightarrow> Inl t | Inr _ \<Rightarrow>
     let request_count = length requests in
     if request_count = 0 then Inl (ContractError EmptyBatch) else
     if MAX_BATCH_SIZE < request_count then Inl (ContractError BatchTooLarge) else
     case lm_config s of None \<Rightarrow> Inl PanicTrap | Some config \<Rightarrow>
     case u64_add (lc_last_batch_id config) 1 of None \<Rightarrow> Inl ArithTrap | Some batch_id \<Rightarrow>
     let s1 = emit (BatchStarted batch_id request_count) s;
         current_ledger = env_sequence e;
         u = foldl (update_step batch_id current_ledger)
               \<lparr>ul_state = s1, ul_results = [], ul_ok = 0, ul_failed = 0, ul_total = 0\<rparr> requests;
         avg = (if 0 < ul_ok u then quot (ul_total u) (int (ul_ok u)) else 0);
         metrics = \<lparr>bm_total_requests = request_count, bm_successful = ul_ok u,
                    bm_failed = ul_failed u, bm_total_value = ul_total u, bm_avg_amount = avg,
                    bm_processed_at = current_ledger\<rparr>;
         config' = config\<lparr>lc_last_batch_id := batch_id,
                          lc_total_updated := u64_add_or_max (lc_total_updated config) (ul_ok u),
                          lc_total_batches := u64_add_or_max (lc_total_batches config) 1\<rparr>;
         s2 = (ul_state u)\<lparr>lm_config := Some config'\<rparr>;
         s3 = emit (BatchCompleted batch_id (ul_ok u) (ul_failed u) (ul_total u)) s2
     in Inr (\<lparr>bl_batch_id = batch_id, bl_total_requests = request_count, bl_successful = ul_ok u,
               bl_failed = ul_failed u, bl_results = ul_results u, bl_metrics = metrics\<rparr>, s3))"

subsection \<open>Escalation\<close>

definition configure_escalation_rules :: "env \<Rightarrow> address \<Rightarrow> int \<Rightarrow> int \<Rightarrow> bool \<Rightarrow> limits_state
    \<Rightarrow> (limits_state, limit_error, unit) outcome" where
  "configure_escalation_rules e admin small medium enabled s =
    (if \<not> env_auth e admin then Inl AuthTrap else
     case require_admin admin s of Inl t \<Rightarrow> Inl t | Inr _ \<Rightarrow>
     if small \<le> 0 \<or> medium \<le> small then Inl (ContractError InvalidAmount) else
     Inr ((), emit (EscalationConfigured small medium enabled)
       (s\<lparr>lm_escalation := Some \<lparr>ec_small_threshold = small, ec_medium_threshold = medium,
                                 ec_enabled = enabled\<rparr>\<rparr>)))"

definition get_escalation_config :: "limits_state \<Rightarrow> escalation_config option" where
  "get_escalation_config s = lm_escalation s"

definition approve_escalated_spend :: "env \<Rightarrow> address \<Rightarrow> address \<Rightarrow> int \<Rightarrow> limits_state
    \<Rightarrow> (limits_state, limit_error, unit) outcome" where
  "approve_escalated_spend e admin user amount s =
    (if \<not> env_auth e admin then Inl AuthTrap else
     case require_admin admin s of Inl t \<Rightarrow> Inl t | Inr _ \<Rightarrow>
     case lm_limit s user of None \<Rightarrow> Inl (ContractError InvalidAmount) | Some limit \<Rightarrow>
     let limit' = limit\<lparr>sl_current := unwrap_or (checked_add (sl_current limit) amount) i128_max,
                        sl_updated_at := env_timestamp e\<rparr>
     in Inr ((), emit (EscalationApproved admin user amount)
                   (s\<lparr>lm_limit := (lm_limit s)(user \<mapsto> limit')\<rparr>)))"

subsection \<open>Enforcement\<close>

definition is_exempt :: "limits_state \<Rightarrow> address \<Rightarrow> symbol \<Rightarrow> bool" where
  "is_exempt s user category =
    (case lm_exceptions s (user, category) of Some rule \<Rightarrow> xr_active rule | None \<Rightarrow> False)"

definition is_destination_whitelisted :: "limits_state \<Rightarrow> address \<Rightarrow> bool" where
  "is_destination_whitelisted s destination \<longleftrightarrow> lm_whitelist s destination \<noteq> None"

definition window_id :: "nat \<Rightarrow> nat \<Rightarrow> nat" where
  "window_id now seconds = (if now = 0 then 0 else (now - 1) div seconds)"

definition SECONDS_PER_HOUR :: nat where "SECONDS_PER_HOUR = 3600"
definition SECONDS_PER_DAY :: nat where "SECONDS_PER_DAY = 86400"
definition SECONDS_PER_MONTH :: nat where "SECONDS_PER_MONTH = SECONDS_PER_DAY * 30"

definition remaining :: "int \<Rightarrow> int \<Rightarrow> int option" where
  "remaining limit current = (if limit \<le> current then Some 0 else checked_sub limit current)"

definition adapt :: "address \<Rightarrow> int \<Rightarrow> spending_limit \<Rightarrow> limits_state
    \<Rightarrow> limit_error trap + (spending_limit \<times> limits_state)" where
  "adapt user new_monthly limit s =
    (if sl_strategy limit \<noteq> Adaptive then Inr (limit, s) else
     case checked_mul (sl_monthly limit) 9 of None \<Rightarrow> Inl ArithTrap | Some m9 \<Rightarrow>
     if new_monthly < quot m9 10 then Inr (limit, s) else
     let old_limit = sl_monthly limit;
         increment = quot old_limit 10;
         proposed = unwrap_or (checked_add old_limit increment) MAX_SPENDING_LIMIT;
         new_limit = (if MAX_SPENDING_LIMIT < proposed then MAX_SPENDING_LIMIT else proposed)
     in Inr (limit\<lparr>sl_monthly := new_limit\<rparr>,
             if new_limit \<noteq> old_limit then emit (LimitAdjusted user old_limit new_limit) s else s))"

definition enforce_spending_limit :: "env \<Rightarrow> address \<Rightarrow> int \<Rightarrow> symbol option \<Rightarrow> limits_state
    \<Rightarrow> (limits_state, limit_error, unit) outcome" where
  "enforce_spending_limit e user amount category s =
    (if amount \<le> 0 then Inl (ContractError InvalidAmount) else
     if (case category of None \<Rightarrow> False | Some cat \<Rightarrow> is_exempt s user cat)
     then Inr ((), emit (ExceptionBypassed user amount (the category)) s) else
     if \<not> is_destination_whitelisted s user then Inl (ContractError Unauthorized) else
     case lm_limit s user of None \<Rightarrow> Inr ((), s) | Some limit \<Rightarrow>
     if \<not> sl_active limit then Inr ((), s) else
     let now = env_timestamp e;
         hk = (user, window_id now SECONDS_PER_HOUR);
         dk = (user, window_id now SECONDS_PER_DAY);
         mk = (user, window_id now SECONDS_PER_MONTH);
         current_hourly = unwrap_or (lm_hourly s hk) 0;
         current_daily = unwrap_or (lm_daily s dk) 0;
         current_monthly = unwrap_or (lm_monthly s mk) 0 in
     case checked_add current_hourly amount of None \<Rightarrow> Inl (ContractError InvalidBatch) | Some new_hourly \<Rightarrow>
     case checked_add current_daily amount of None \<Rightarrow> Inl (ContractError InvalidBatch) | Some new_daily \<Rightarrow>
     case checked_add current_monthly amount of None \<Rightarrow> Inl (ContractError InvalidBatch) | Some new_monthly \<Rightarrow>
     let hourly_ok = (new_hourly \<le> sl_hourly limit);
         daily_ok = (new_daily \<le> sl_daily limit);
         monthly_ok = (new_monthly \<le> sl_monthly limit) in
     if \<not> hourly_ok \<or> \<not> daily_ok \<or> \<not> monthly_ok
     then if remaining (sl_hourly limit) current_hourly = None
             \<or> remaining (sl_daily limit) current_daily = None
             \<or> remaining (sl_monthly limit) current_monthly = None then Inl ArithTrap
          else if \<not> hourly_ok then Inl (ContractError HourlyLimitExceeded)
          else if \<not> daily_ok then Inl (ContractError DailyLimitExceeded)
          else Inl (ContractError MonthlyLimitExceeded)
     else case adapt user new_monthly limit s of Inl t \<Rightarrow> Inl t | Inr (limit1, s1) \<Rightarrow>
     let limit2 = limit1\<lparr>sl_current := new_monthly, sl_updated_at := now\<rparr>
     in Inr ((), s1\<lparr>lm_hourly := (lm_hourly s1)(hk \<mapsto> new_hourly),
                    lm_daily := (lm_daily s1)(dk \<mapsto> new_daily),
                    lm_monthly := (lm_monthly s1)(mk \<mapsto> new_monthly),
                    lm_limit := (lm_limit s1)(user \<mapsto> limit2)\<rparr>))"

definition emergency_override :: "env \<Rightarrow> address \<Rightarrow> address \<Rightarrow> int \<Rightarrow> limits_state
    \<Rightarrow> (limits_state, limit_error, unit) outcome" where
  "emergency_override e admin user amount s =
    (if \<not> env_auth e admin then Inl AuthTrap else
     case require_admin admin s of Inl t \<Rightarrow> Inl t | Inr _ \<Rightarrow>
     if amount \<le> 0 then Inl (ContractError InvalidAmount) else
     Inr ((), emit (EmergencyOverride admin user amount (env_timestamp e)) s))"

subsection \<open>Administration\<close>

definition set_admin :: "env \<Rightarrow> address \<Rightarrow> address \<Rightarrow> limits_state
    \<Rightarrow> (limits_state, limit_error, unit) outcome" where
  "set_admin e current_admin new_admin s =
    (if \<not> env_auth e current_admin then Inl AuthTrap else
     case require_admin current_admin s of Inl t \<Rightarrow> Inl t | Inr _ \<Rightarrow>
     case lm_config s of None \<Rightarrow> Inl PanicTrap | Some config \<Rightarrow>
     Inr ((), s\<lparr>lm_config := Some (config\<lparr>lc_admin := new_admin\<rparr>)\<rparr>))"

definition whitelist_destination :: "env \<Rightarrow> address \<Rightarrow> address \<Rightarrow> limits_state
    \<Rightarrow> (limits_state, limit_error, unit) outcome" where
  "whitelist_destination e caller destination s =
    (if \<not> env_auth e caller then Inl AuthTrap else
     case require_admin caller s of Inl t \<Rightarrow> Inl t | Inr _ \<Rightarrow>
     Inr ((), s\<lparr>lm_whitelist := (lm_whitelist s)(destination \<mapsto> True)\<rparr>))"

definition remove_from_whitelist :: "env \<Rightarrow> address \<Rightarrow> address \<Rightarrow> limits_state
    \<Rightarrow> (limits_state, limit_error, unit) outcome" where
  "remove_from_whitelist e caller destination s =
    (if \<not> env_auth e caller then Inl AuthTrap else
     case require_admin caller s of Inl t \<Rightarrow> Inl t | Inr _ \<Rightarrow>
     Inr ((), s\<lparr>lm_whitelist := (lm_whitelist s)(destination := None)\<rparr>))"

definition add_approved_category :: "env \<Rightarrow> address \<Rightarrow> symbol \<Rightarrow> limits_state
    \<Rightarrow> (limits_state, limit_error, unit) outcome" where
  "add_approved_category e caller category s =
    (if \<not> env_auth e caller then Inl AuthTrap else
     case require_admin caller s of Inl t \<Rightarrow> Inl t | Inr _ \<Rightarrow>
     let categories = unwrap_or (lm_categories s) [] in
     if category \<in> set categories then Inr ((), s) else
     Inr ((), emit (CategoryApproved category) (s\<lparr>lm_categories := Some (categories @ [category])\<rparr>)))"

fun split_category :: "symbol \<Rightarrow> symbol list \<Rightarrow> symbol list \<times> bool" where
  "split_category category [] = ([], False)"
| "split_category category (c # cs) =
    (let (new_categories, found) = split_category category cs in
     if c = category then (new_categories, True) else (c # new_categories, found))"

definition remove_approved_category :: "env \<Rightarrow> address \<Rightarrow> symbol \<Rightarrow> limits_state
    \<Rightarrow> (limits_state, limit_error, unit) outcome" where
  "remove_approved_category e caller category s =
    (if \<not> env_auth e caller then Inl AuthTrap else
     case require_admin caller s of Inl t \<Rightarrow> Inl t | Inr _ \<Rightarrow>
     let (new_categories, found) = split_category category (unwrap_or (lm_categories s) []) in
     if found then Inr ((), emit (CategoryRemoved category) (s\<lparr>lm_categories := Some new_categories\<rparr>))
     else Inr ((), s))"

definition add_exception :: "env \<Rightarrow> address \<Rightarrow> address \<Rightarrow> symbol \<Rightarrow> limits_state
    \<Rightarrow> (limits_state, limit_error, unit) outcome" where
  "add_exception e caller user category s =
    (if \<not> env_auth e caller then Inl AuthTrap else
     case require_admin caller s of Inl t \<Rightarrow> Inl t | Inr _ \<Rightarrow>
     if category \<notin> set (unwrap_or (lm_categories s) []) then Inl (ContractError CategoryNotApproved) else
     let rule = \<lparr>xr_user = user, xr_category = category, xr_created_at = env_sequence e, xr_active = True\<rparr>
     in Inr ((), emit (ExceptionAdded user category)
                   (s\<lparr>lm_exceptions := (lm_exceptions s)((user, category) \<mapsto> rule)\<rparr>)))"

definition remove_exception :: "env \<Rightarrow> address \<Rightarrow> address \<Rightarrow> symbol \<Rightarrow> limits_state
    \<Rightarrow> (limits_state, limit_error, unit) outcome" where
  "remove_exception e caller user category s =
    (if \<not> env_auth e caller then Inl AuthTrap else
     case require_admin caller s of Inl t \<Rightarrow> Inl t | Inr _ \<Rightarrow>
     if lm_exceptions s (user, category) \<noteq> None
     then Inr ((), emit (ExceptionRemoved user category)
                     (s\<lparr>lm_exceptions := (lm_exceptions s)((user, category) := None)\<rparr>))
     else Inr ((), s))"

definition override_spending_limit :: "env \<Rightarrow> address \<Rightarrow> address \<Rightarrow> int \<Rightarrow> limits_state
    \<Rightarrow> (limits_state, limit_error, unit) outcome" where
  "override_spending_limit e admin user new_monthly_limit s =
    (if \<not> env_auth e admin then Inl AuthTrap else
     case require_admin admin s of Inl t \<Rightarrow> Inl t | Inr _ \<Rightarrow>
     if new_monthly_limit \<le> 0 then Inl (ContractError InvalidAmount) else
     case lm_limit s user of None \<Rightarrow> Inl PanicTrap | Some limit \<Rightarrow>
     Inr ((), emit (LimitOverridden admin user (sl_monthly limit) new_monthly_limit)
       (s\<lparr>lm_limit := (lm_limit s)(user \<mapsto> limit\<lparr>sl_monthly := new_monthly_limit\<rparr>)\<rparr>)))"

subsection \<open>Queries\<close>

definition get_spending_limit :: "limits_state \<Rightarrow> address \<Rightarrow> spending_limit option" where
  "get_spending_limit s user = lm_limit s user"

definition get_admin :: "limits_state \<Rightarrow> address option" where
  "get_admin s = map_option lc_admin (lm_config s)"

definition get_last_batch_id :: "limits_state \<Rightarrow> nat" where
  "get_last_batch_id s = unwrap_or (map_option lc_last_batch_id (lm_config s)) 0"

definition get_total_limits_updated :: "limits_state \<Rightarrow> nat" where
  "get_total_limits_updated s = unwrap_or (map_option lc_total_updated (lm_config s)) 0"

definition get_total_batches_processed :: "limits_state \<Rightarrow> nat" where
  "get_total_batches_processed s = unwrap_or (map_option lc_total_batches (lm_config s)) 0"

definition get_approved_categories :: "limits_state \<Rightarrow> symbol list" where
  "get_approved_categories s = unwrap_or (lm_categories s) []"

definition get_exception :: "limits_state \<Rightarrow> address \<Rightarrow> symbol \<Rightarrow> exception_rule option" where
  "get_exception s user category = lm_exceptions s (user, category)"

section \<open>The contract\<close>

datatype limits_call =
    CInitialize address
  | CBatchUpdate address "limit_request list"
  | CConfigureEscalation address int int bool
  | CApproveEscalated address address int
  | CEnforce address int "symbol option"
  | CEmergency address address int
  | CSetAdmin address address
  | CWhitelist address address
  | CUnwhitelist address address
  | CAddCategory address symbol
  | CRemoveCategory address symbol
  | CAddException address address symbol
  | CRemoveException address address symbol
  | COverride address address int

fun limits_exec :: "env \<times> limits_call \<Rightarrow> limits_state \<Rightarrow> limit_error trap + limits_state" where
  "limits_exec (e, CInitialize a) s = final (initialize e a s)"
| "limits_exec (e, CBatchUpdate a rs) s = final (batch_update_spending_limits e a rs s)"
| "limits_exec (e, CConfigureEscalation a x y b) s = final (configure_escalation_rules e a x y b s)"
| "limits_exec (e, CApproveEscalated a u n) s = final (approve_escalated_spend e a u n s)"
| "limits_exec (e, CEnforce u n c) s = final (enforce_spending_limit e u n c s)"
| "limits_exec (e, CEmergency a u n) s = final (emergency_override e a u n s)"
| "limits_exec (e, CSetAdmin a b) s = final (set_admin e a b s)"
| "limits_exec (e, CWhitelist a d) s = final (whitelist_destination e a d s)"
| "limits_exec (e, CUnwhitelist a d) s = final (remove_from_whitelist e a d s)"
| "limits_exec (e, CAddCategory a c) s = final (add_approved_category e a c s)"
| "limits_exec (e, CRemoveCategory a c) s = final (remove_approved_category e a c s)"
| "limits_exec (e, CAddException a u c) s = final (add_exception e a u c s)"
| "limits_exec (e, CRemoveException a u c) s = final (remove_exception e a u c s)"
| "limits_exec (e, COverride a u m) s = final (override_spending_limit e a u m s)"

section \<open>The admin gate\<close>

lemma require_admin_Inr [simp]: "require_admin a s = Inr u \<longleftrightarrow> get_admin s = Some a"
  by (auto simp: require_admin_def get_admin_def split: option.splits)

lemma require_admin_config:
  "get_admin s = Some a \<longleftrightarrow> (\<exists>c. lm_config s = Some c \<and> lc_admin c = a)"
  by (auto simp: get_admin_def)

lemma limits_emit_frame [simp]:
  "lm_config (emit ev s) = lm_config s" "lm_limit (emit ev s) = lm_limit s"
  "lm_hourly (emit ev s) = lm_hourly s" "lm_daily (emit ev s) = lm_daily s"
  "lm_monthly (emit ev s) = lm_monthly s" "lm_exceptions (emit ev s) = lm_exceptions s"
  "lm_categories (emit ev s) = lm_categories s" "lm_escalation (emit ev s) = lm_escalation s"
  "lm_whitelist (emit ev s) = lm_whitelist s"
  by (simp_all add: emit_def)

lemmas gated_defs = batch_update_spending_limits_def configure_escalation_rules_def
  approve_escalated_spend_def emergency_override_def set_admin_def whitelist_destination_def
  remove_from_whitelist_def add_approved_category_def remove_approved_category_def
  add_exception_def remove_exception_def override_spending_limit_def

interpretation update_gate: admin_gated get_admin "\<lambda>e a. batch_update_spending_limits e a rs" for rs
  by unfold_locales (auto simp: gated_defs split: if_splits sum.splits)

interpretation escalation_gate: admin_gated get_admin "\<lambda>e a. configure_escalation_rules e a x y b" for x y b
  by unfold_locales (auto simp: gated_defs split: if_splits sum.splits)

interpretation approve_gate: admin_gated get_admin "\<lambda>e a. approve_escalated_spend e a u n" for u n
  by unfold_locales (auto simp: gated_defs split: if_splits sum.splits)

interpretation emergency_gate: admin_gated get_admin "\<lambda>e a. emergency_override e a u n" for u n
  by unfold_locales (auto simp: gated_defs split: if_splits sum.splits)

interpretation admin_gate: admin_gated get_admin "\<lambda>e a. set_admin e a b" for b
  by unfold_locales (auto simp: gated_defs split: if_splits sum.splits)

interpretation whitelist_gate: admin_gated get_admin "\<lambda>e a. whitelist_destination e a d" for d
  by unfold_locales (auto simp: gated_defs split: if_splits sum.splits)

interpretation unwhitelist_gate: admin_gated get_admin "\<lambda>e a. remove_from_whitelist e a d" for d
  by unfold_locales (auto simp: gated_defs split: if_splits sum.splits)

interpretation add_category_gate: admin_gated get_admin "\<lambda>e a. add_approved_category e a c" for c
  by unfold_locales (auto simp: gated_defs split: if_splits sum.splits)

interpretation remove_category_gate: admin_gated get_admin "\<lambda>e a. remove_approved_category e a c" for c
  by unfold_locales (auto simp: gated_defs split: if_splits sum.splits)

interpretation add_exception_gate: admin_gated get_admin "\<lambda>e a. add_exception e a u c" for u c
  by unfold_locales (auto simp: gated_defs split: if_splits sum.splits)

interpretation remove_exception_gate: admin_gated get_admin "\<lambda>e a. remove_exception e a u c" for u c
  by unfold_locales (auto simp: gated_defs split: if_splits sum.splits)

interpretation override_gate: admin_gated get_admin "\<lambda>e a. override_spending_limit e a u m" for u m
  by unfold_locales (auto simp: gated_defs split: if_splits sum.splits)

lemmas limits_gates = update_gate.gate escalation_gate.gate approve_gate.gate
  emergency_gate.gate admin_gate.gate whitelist_gate.gate
  unwhitelist_gate.gate add_category_gate.gate remove_category_gate.gate
  add_exception_gate.gate remove_exception_gate.gate override_gate.gate

section \<open>The batch loop\<close>

definition request_ok :: "limit_request \<Rightarrow> bool" where
  "request_ok rq \<longleftrightarrow> validate_limit_request rq = Inr ()"

lemma request_ok_iff:
  "request_ok rq \<longleftrightarrow> MIN_SPENDING_LIMIT \<le> lq_hourly rq \<and> lq_hourly rq \<le> lq_daily rq
     \<and> lq_daily rq \<le> lq_monthly rq \<and> lq_monthly rq \<le> MAX_SPENDING_LIMIT
     \<and> is_valid_reset_window (lq_reset_window rq)"
  by (auto simp: request_ok_def validate_limit_request_def is_valid_address_def is_valid_limit_def)

lemma validate_Inl: "validate_limit_request rq = Inl c \<Longrightarrow> \<not> request_ok rq \<and> c = INVALID_LIMIT"
  by (auto simp: request_ok_def validate_limit_request_def is_valid_address_def split: if_splits)

text \<open>What one iteration does, for a valid and for an invalid request.\<close>

lemma update_step_frame:
  "lm_hourly (ul_state (update_step b n u rq)) = lm_hourly (ul_state u)"
  "lm_daily (ul_state (update_step b n u rq)) = lm_daily (ul_state u)"
  "lm_monthly (ul_state (update_step b n u rq)) = lm_monthly (ul_state u)"
  "lm_config (ul_state (update_step b n u rq)) = lm_config (ul_state u)"
  "lm_exceptions (ul_state (update_step b n u rq)) = lm_exceptions (ul_state u)"
  by (simp_all add: update_step_def Let_def split: sum.splits)

lemma update_step_limit:
  "lm_limit (ul_state (update_step b n u rq)) =
    (if request_ok rq then (lm_limit (ul_state u))(lq_user rq \<mapsto> limit_of_request n rq)
     else lm_limit (ul_state u))"
  by (auto simp: update_step_def Let_def request_ok_def split: sum.splits)

lemma update_step_counts:
  "ul_ok (update_step b n u rq) = ul_ok u + (if request_ok rq then 1 else 0)"
  "ul_failed (update_step b n u rq) = ul_failed u + (if request_ok rq then 0 else 1)"
  "length (ul_results (update_step b n u rq)) = Suc (length (ul_results u))"
  "ul_total (update_step b n u rq) = (if request_ok rq
     then unwrap_or (checked_add (ul_total u) (lq_monthly rq)) i128_max else ul_total u)"
  by (auto simp: update_step_def Let_def request_ok_def split: sum.splits)

lemma update_loop_frame:
  "lm_hourly (ul_state (foldl (update_step b n) u rqs)) = lm_hourly (ul_state u)"
  "lm_daily (ul_state (foldl (update_step b n) u rqs)) = lm_daily (ul_state u)"
  "lm_monthly (ul_state (foldl (update_step b n) u rqs)) = lm_monthly (ul_state u)"
  "lm_config (ul_state (foldl (update_step b n) u rqs)) = lm_config (ul_state u)"
  "lm_exceptions (ul_state (foldl (update_step b n) u rqs)) = lm_exceptions (ul_state u)"
  by (induction rqs arbitrary: u) (simp_all add: update_step_frame)

lemma update_loop_counts:
  "ul_ok (foldl (update_step b n) u rqs) = ul_ok u + length (filter request_ok rqs)"
  "length (filter request_ok rqs) + ul_failed (foldl (update_step b n) u rqs)
     = ul_failed u + length rqs"
  "length (ul_results (foldl (update_step b n) u rqs)) = length (ul_results u) + length rqs"
  by (induction rqs arbitrary: u) (simp_all add: update_step_counts)

text \<open>The limit a batch leaves for a user: the one of the last valid request for the user.\<close>

fun last_request :: "address \<Rightarrow> limit_request list \<Rightarrow> limit_request option" where
  "last_request a [] = None"
| "last_request a (rq # rqs) =
    (case last_request a rqs of Some r \<Rightarrow> Some r
     | None \<Rightarrow> if request_ok rq \<and> lq_user rq = a then Some rq else None)"

lemma update_loop_limit:
  "lm_limit (ul_state (foldl (update_step b n) u rqs)) a =
    (case last_request a rqs of Some rq \<Rightarrow> Some (limit_of_request n rq)
     | None \<Rightarrow> lm_limit (ul_state u) a)"
  by (induction rqs arbitrary: u) (auto simp: update_step_limit split: option.splits)

lemma last_request_ok: "last_request a rqs = Some rq \<Longrightarrow> request_ok rq \<and> lq_user rq = a \<and> rq \<in> set rqs"
  by (induction rqs) (auto split: option.splits if_splits)

text \<open>A hundred limits of at most \<open>MAX_SPENDING_LIMIT\<close> cannot overflow the running total.\<close>

lemma update_loop_total:
  assumes "0 \<le> ul_total u" and "ul_total u + int (length rqs) * MAX_SPENDING_LIMIT \<le> i128_max"
  shows "ul_total (foldl (update_step b n) u rqs)
    = ul_total u + sum_list (map lq_monthly (filter request_ok rqs))"
  using assms
proof (induction rqs arbitrary: u)
  case Nil
  then show ?case by simp
next
  case (Cons rq rqs)
  show ?case
  proof (cases "request_ok rq")
    case True
    then have m: "0 \<le> lq_monthly rq" "lq_monthly rq \<le> MAX_SPENDING_LIMIT"
      by (auto simp: request_ok_iff limit_bounds)
    have "ul_total u + lq_monthly rq + int (length rqs) * MAX_SPENDING_LIMIT \<le> i128_max"
      using Cons.prems(2) m(2) by (simp add: algebra_simps)
    moreover have "0 \<le> int (length rqs) * MAX_SPENDING_LIMIT" by (simp add: limit_bounds)
    ultimately have "in_i128 (ul_total u + lq_monthly rq)"
      using Cons.prems(1) m(1) by (simp add: in_i128_def)
    then have t: "ul_total (update_step b n u rq) = ul_total u + lq_monthly rq"
      using True by (simp add: update_step_counts checked_add_def)
    show ?thesis
      using Cons.IH [of "update_step b n u rq"] Cons.prems m True
      by (simp add: t algebra_simps)
  next
    case False
    then have t: "ul_total (update_step b n u rq) = ul_total u" by (simp add: update_step_counts)
    have "0 \<le> MAX_SPENDING_LIMIT" by (simp add: limit_bounds)
    then show ?thesis
      using Cons.IH [of "update_step b n u rq"] Cons.prems False
      by (simp add: t algebra_simps)
  qed
qed

section \<open>What enforcement does\<close>

definition hourly_total :: "limits_state \<Rightarrow> address \<Rightarrow> nat \<Rightarrow> int" where
  "hourly_total s u w = unwrap_or (lm_hourly s (u, w)) 0"

definition daily_total :: "limits_state \<Rightarrow> address \<Rightarrow> nat \<Rightarrow> int" where
  "daily_total s u w = unwrap_or (lm_daily s (u, w)) 0"

definition monthly_total :: "limits_state \<Rightarrow> address \<Rightarrow> nat \<Rightarrow> int" where
  "monthly_total s u w = unwrap_or (lm_monthly s (u, w)) 0"

lemmas window_totals = hourly_total_def daily_total_def monthly_total_def

definition exempted :: "limits_state \<Rightarrow> address \<Rightarrow> symbol option \<Rightarrow> bool" where
  "exempted s u c \<longleftrightarrow> (\<exists>cat. c = Some cat \<and> is_exempt s u cat)"

definition limited :: "limits_state \<Rightarrow> address \<Rightarrow> symbol option \<Rightarrow> spending_limit \<Rightarrow> bool" where
  "limited s u c L \<longleftrightarrow> \<not> exempted s u c \<and> lm_limit s u = Some L \<and> sl_active L"

definition adapted :: "spending_limit \<Rightarrow> int \<Rightarrow> int" where
  "adapted L tot = (if sl_strategy L = Adaptive \<and> quot (sl_monthly L * 9) 10 \<le> tot
     then min MAX_SPENDING_LIMIT
       (unwrap_or (checked_add (sl_monthly L) (quot (sl_monthly L) 10)) MAX_SPENDING_LIMIT)
     else sl_monthly L)"

lemma adapt_Inr:
  assumes "adapt u tot L s = Inr (L', s')"
  shows "L' = L\<lparr>sl_monthly := adapted L tot\<rparr> \<and> (s' = s \<or> (\<exists>ev. s' = emit ev s))"
proof (cases "sl_strategy L = Adaptive")
  case True
  with assms show ?thesis
    by (auto simp: adapt_def adapted_def Let_def min_def split: option.splits if_splits)
next
  case False
  with assms show ?thesis
    by (auto simp: adapt_def adapted_def)
qed

lemma exempted_case: "(case c of None \<Rightarrow> False | Some cat \<Rightarrow> is_exempt s u cat) \<longleftrightarrow> exempted s u c"
  by (auto simp: exempted_def split: option.splits)

lemma enforce_limited:
  assumes "enforce_spending_limit e u n c s = Inr ((), s')" and "limited s u c L"
  shows "0 < n \<and> is_destination_whitelisted s u
    \<and> lm_hourly s' = (lm_hourly s)((u, window_id (env_timestamp e) SECONDS_PER_HOUR) \<mapsto>
         hourly_total s u (window_id (env_timestamp e) SECONDS_PER_HOUR) + n)
    \<and> lm_daily s' = (lm_daily s)((u, window_id (env_timestamp e) SECONDS_PER_DAY) \<mapsto>
         daily_total s u (window_id (env_timestamp e) SECONDS_PER_DAY) + n)
    \<and> lm_monthly s' = (lm_monthly s)((u, window_id (env_timestamp e) SECONDS_PER_MONTH) \<mapsto>
         monthly_total s u (window_id (env_timestamp e) SECONDS_PER_MONTH) + n)
    \<and> hourly_total s u (window_id (env_timestamp e) SECONDS_PER_HOUR) + n \<le> sl_hourly L
    \<and> daily_total s u (window_id (env_timestamp e) SECONDS_PER_DAY) + n \<le> sl_daily L
    \<and> monthly_total s u (window_id (env_timestamp e) SECONDS_PER_MONTH) + n \<le> sl_monthly L
    \<and> lm_limit s' = (lm_limit s)(u \<mapsto>
         L\<lparr>sl_monthly := adapted L (monthly_total s u (window_id (env_timestamp e) SECONDS_PER_MONTH) + n),
           sl_current := monthly_total s u (window_id (env_timestamp e) SECONDS_PER_MONTH) + n,
           sl_updated_at := env_timestamp e\<rparr>)
    \<and> lm_config s' = lm_config s \<and> lm_exceptions s' = lm_exceptions s"
proof -
  let ?m = "monthly_total s u (window_id (env_timestamp e) SECONDS_PER_MONTH) + n"
  from assms obtain L' s1 where ad: "adapt u ?m L s = Inr (L', s1)"
    by (auto simp: enforce_spending_limit_def exempted_case limited_def Let_def window_totals
        split: if_splits option.splits sum.splits)
  show ?thesis
    using assms adapt_Inr [OF ad] ad
    by (auto simp: enforce_spending_limit_def exempted_case limited_def Let_def window_totals
        split: if_splits option.splits)
qed

lemma enforce_unlimited:
  assumes "enforce_spending_limit e u n c s = Inr ((), s')" and "\<nexists>L. limited s u c L"
  shows "s' = s \<or> s' = emit (ExceptionBypassed u n (the c)) s \<and> exempted s u c"
  using assms
  by (auto simp: enforce_spending_limit_def exempted_case limited_def Let_def
      split: if_splits option.splits)

section \<open>Invariants\<close>

text \<open>The windows nest: the total of a month is the sum of its thirty days, that of a day the sum of its
  24 hours.\<close>

definition windows_agree :: "limits_state \<Rightarrow> bool" where
  "windows_agree s \<longleftrightarrow> (\<forall>u m. monthly_total s u m = (\<Sum>d\<in>{30 * m..<30 * m + 30}. daily_total s u d))
     \<and> (\<forall>u d. daily_total s u d = (\<Sum>h\<in>{24 * d..<24 * d + 24}. hourly_total s u h))"

definition valid_limit :: "spending_limit \<Rightarrow> bool" where
  "valid_limit L \<longleftrightarrow> MIN_SPENDING_LIMIT \<le> sl_hourly L \<and> sl_hourly L \<le> sl_daily L
     \<and> sl_daily L \<le> sl_monthly L \<and> sl_monthly L \<le> MAX_SPENDING_LIMIT"

definition in_bounds :: "('k \<rightharpoonup> int) \<Rightarrow> bool" where
  "in_bounds m \<longleftrightarrow> (\<forall>k v. m k = Some v \<longrightarrow> 0 \<le> v \<and> v \<le> MAX_SPENDING_LIMIT)"

definition limits_valid :: "limits_state \<Rightarrow> bool" where
  "limits_valid s \<longleftrightarrow> (\<forall>u L. lm_limit s u = Some L \<longrightarrow> valid_limit L)
     \<and> in_bounds (lm_hourly s) \<and> in_bounds (lm_daily s) \<and> in_bounds (lm_monthly s)"

definition no_override :: "env \<times> limits_call \<Rightarrow> bool" where
  "no_override ec \<longleftrightarrow> (case snd ec of COverride _ _ _ \<Rightarrow> False | _ \<Rightarrow> True)"

text \<open>Calls other than \<open>enforce_spending_limit\<close> do not touch the windows.\<close>

definition same_windows :: "limits_state \<Rightarrow> limits_state \<Rightarrow> bool" where
  "same_windows s s' \<longleftrightarrow> lm_hourly s' = lm_hourly s \<and> lm_daily s' = lm_daily s \<and> lm_monthly s' = lm_monthly s"

lemma other_calls_windows:
  assumes "limits_exec (e, call) s = Inr s'" and "\<And>u n c. call \<noteq> CEnforce u n c"
  shows "same_windows s s'"
  using assms
  by (cases call) (auto simp: same_windows_def initialize_def gated_defs Let_def update_loop_frame
      split: if_splits option.splits sum.splits prod.splits)

lemma same_windows_agree: "same_windows s s' \<Longrightarrow> windows_agree s' = windows_agree s"
  by (simp add: same_windows_def windows_agree_def window_totals)

definition bump :: "(nat \<Rightarrow> int) \<Rightarrow> nat \<Rightarrow> int \<Rightarrow> nat \<Rightarrow> int" where
  "bump f k n i = f i + (if i = k then n else 0)"

lemma sum_bump: "finite A \<Longrightarrow> (\<Sum>i\<in>A. bump f k n i) = (\<Sum>i\<in>A. f i) + (if k \<in> A then n else 0)"
  by (simp add: bump_def sum.distrib sum.delta)

lemma window_nesting:
  "window_id now SECONDS_PER_DAY div 30 = window_id now SECONDS_PER_MONTH"
  "window_id now SECONDS_PER_HOUR div 24 = window_id now SECONDS_PER_DAY"
  by (simp_all add: window_id_def SECONDS_PER_HOUR_def SECONDS_PER_DAY_def SECONDS_PER_MONTH_def
      div_mult2_eq [symmetric])

lemma in_window: "(k::nat) \<in> {c * w..<c * w + c} \<longleftrightarrow> k div c = w" if "0 < c"
proof -
  have "c * w \<le> k \<and> k < c * w + c \<longleftrightarrow> k div c = w"
    using that by (metis add.commute div_nat_eqI dividend_less_times_div mult_Suc_right
        times_div_less_eq_dividend)
  then show ?thesis by simp
qed

lemma enforce_totals:
  assumes "enforce_spending_limit e u n c s = Inr ((), s')" and "limited s u c L"
  shows "hourly_total s' u = bump (hourly_total s u) (window_id (env_timestamp e) SECONDS_PER_HOUR) n"
    and "daily_total s' u = bump (daily_total s u) (window_id (env_timestamp e) SECONDS_PER_DAY) n"
    and "monthly_total s' u = bump (monthly_total s u) (window_id (env_timestamp e) SECONDS_PER_MONTH) n"
    and "v \<noteq> u \<Longrightarrow> hourly_total s' v = hourly_total s v"
    and "v \<noteq> u \<Longrightarrow> daily_total s' v = daily_total s v"
    and "v \<noteq> u \<Longrightarrow> monthly_total s' v = monthly_total s v"
  using enforce_limited [OF assms] by (auto simp: fun_eq_iff window_totals bump_def)

lemma enforce_agree:
  assumes run: "enforce_spending_limit e u n c s = Inr ((), s')" and agree: "windows_agree s"
  shows "windows_agree s'"
proof (cases "\<exists>L. limited s u c L")
  case False
  with enforce_unlimited [OF run] have "same_windows s s'" by (auto simp: same_windows_def)
  with agree show ?thesis by (simp add: same_windows_agree)
next
  case True
  then obtain L where L: "limited s u c L" ..
  note tot = enforce_totals [OF run L]
  let ?D = "window_id (env_timestamp e) SECONDS_PER_DAY" and ?M = "window_id (env_timestamp e) SECONDS_PER_MONTH"
    and ?H = "window_id (env_timestamp e) SECONDS_PER_HOUR"
  have M: "monthly_total s v m = (\<Sum>d\<in>{30 * m..<30 * m + 30}. daily_total s v d)"
    and D: "daily_total s v d = (\<Sum>h\<in>{24 * d..<24 * d + 24}. hourly_total s v h)" for v m d
    using agree unfolding windows_agree_def by blast+
  have "monthly_total s' v m = (\<Sum>d\<in>{30 * m..<30 * m + 30}. daily_total s' v d)" for v m
  proof (cases "v = u")
    case True
    have "(?D \<in> {30 * m..<30 * m + 30}) = (m = ?M)"
      using in_window [of 30 ?D m] window_nesting(1) [of "env_timestamp e"] by auto
    then show ?thesis
      unfolding True tot(2,3) by (simp only: sum_bump finite_atLeastLessThan) (simp add: bump_def M)
  next
    case False
    then show ?thesis using M [of v m] by (simp add: tot)
  qed
  moreover have "daily_total s' v d = (\<Sum>h\<in>{24 * d..<24 * d + 24}. hourly_total s' v h)" for v d
  proof (cases "v = u")
    case True
    have "(?H \<in> {24 * d..<24 * d + 24}) = (d = ?D)"
      using in_window [of 24 ?H d] window_nesting(2) [of "env_timestamp e"] by auto
    then show ?thesis
      unfolding True tot(1,2) by (simp only: sum_bump finite_atLeastLessThan) (simp add: bump_def D)
  next
    case False
    then show ?thesis using D [of v d] by (simp add: tot)
  qed
  ultimately show ?thesis by (simp add: windows_agree_def)
qed

interpretation limits_windows: contract_invariant limits_exec windows_agree "\<lambda>_. True"
proof unfold_locales
  fix s s' ec assume agree: "windows_agree s" and run: "limits_exec ec s = Inr s'"
  obtain e call where ec: "ec = (e, call)" by (cases ec)
  show "windows_agree s'"
  proof (cases "\<exists>u n c. call = CEnforce u n c")
    case True
    with run ec agree show ?thesis by (auto intro: enforce_agree)
  next
    case False
    with run ec have "same_windows s s'" by (auto intro: other_calls_windows)
    with agree show ?thesis by (simp add: same_windows_agree)
  qed
qed

lemma adapted_bounds:
  assumes "0 \<le> sl_monthly L" and "sl_monthly L \<le> MAX_SPENDING_LIMIT"
  shows "sl_monthly L \<le> adapted L tot \<and> adapted L tot \<le> MAX_SPENDING_LIMIT"
  using assms
  by (auto simp: adapted_def quot_pos checked_add_def in_i128_def limit_bounds min_def)

lemma valid_request: "request_ok rq \<Longrightarrow> valid_limit (limit_of_request n rq)"
  by (auto simp: request_ok_iff valid_limit_def limit_of_request_def)

lemma in_bounds_upd: "in_bounds m \<Longrightarrow> 0 \<le> v \<Longrightarrow> v \<le> MAX_SPENDING_LIMIT \<Longrightarrow> in_bounds (m(k \<mapsto> v))"
  by (auto simp: in_bounds_def)

lemma in_bounds_read: "in_bounds m \<Longrightarrow> 0 \<le> unwrap_or (m k) 0"
  by (cases "m k") (auto simp: in_bounds_def)

lemma enforce_valid:
  assumes run: "enforce_spending_limit e u n c s = Inr ((), s')" and valid: "limits_valid s"
  shows "limits_valid s'"
proof (cases "\<exists>L. limited s u c L")
  case False
  with enforce_unlimited [OF run] valid show ?thesis by (auto simp: limits_valid_def)
next
  case True
  then obtain L where L: "limited s u c L" ..
  let ?m = "monthly_total s u (window_id (env_timestamp e) SECONDS_PER_MONTH) + n"
  have v: "valid_limit L" using L valid by (auto simp: limits_valid_def limited_def)
  then have "0 \<le> sl_monthly L" by (auto simp: valid_limit_def limit_bounds)
  with v have ad: "sl_monthly L \<le> adapted L ?m" "adapted L ?m \<le> MAX_SPENDING_LIMIT"
    using adapted_bounds [of L ?m] by (auto simp: valid_limit_def)
  have nonneg: "0 \<le> hourly_total s u w" "0 \<le> daily_total s u w" "0 \<le> monthly_total s u w" for w
    using valid by (auto simp: window_totals limits_valid_def intro: in_bounds_read)
  show ?thesis
    using enforce_limited [OF run L] valid v ad
      nonneg(1) [of "window_id (env_timestamp e) SECONDS_PER_HOUR"]
      nonneg(2) [of "window_id (env_timestamp e) SECONDS_PER_DAY"]
      nonneg(3) [of "window_id (env_timestamp e) SECONDS_PER_MONTH"]
    by (auto simp: limits_valid_def valid_limit_def intro!: in_bounds_upd)
qed

lemma batch_update_limits:
  assumes "batch_update_spending_limits e a rs s = Inr (r, s')"
  shows "lm_limit s' u = (case last_request u rs of Some rq \<Rightarrow> Some (limit_of_request (env_sequence e) rq)
     | None \<Rightarrow> lm_limit s u)"
  using assms
  by (auto simp: batch_update_spending_limits_def Let_def update_loop_limit
      split: if_splits option.splits sum.splits)

lemma batch_update_valid:
  assumes "batch_update_spending_limits e a rs s = Inr (r, s')" and "limits_valid s"
  shows "limits_valid s'"
proof -
  have "same_windows s s'"
    by (rule other_calls_windows [of e "CBatchUpdate a rs"]) (use assms(1) in auto)
  moreover have "valid_limit L" if "lm_limit s' u = Some L" for u L
    using that assms(2) unfolding batch_update_limits [OF assms(1)]
    by (auto simp: limits_valid_def valid_request dest: last_request_ok split: option.splits)
  ultimately show ?thesis using assms(2) by (simp add: limits_valid_def same_windows_def)
qed

lemma other_calls_valid:
  assumes "limits_exec (e, call) s = Inr s'" and "limits_valid s" and "no_override (e, call)"
    and "\<And>u n c. call \<noteq> CEnforce u n c" and "\<And>a rs. call \<noteq> CBatchUpdate a rs"
  shows "limits_valid s'"
  using assms
  by (cases call) (auto simp: no_override_def initialize_def gated_defs Let_def limits_valid_def valid_limit_def
      split: if_splits option.splits sum.splits prod.splits)

interpretation limits_machine: contract_invariant limits_exec limits_valid no_override
proof unfold_locales
  fix s s' ec assume valid: "limits_valid s" and adm: "no_override ec" and run: "limits_exec ec s = Inr s'"
  obtain e call where ec: "ec = (e, call)" by (cases ec)
  consider (enforce) u n c where "call = CEnforce u n c" | (batch) a rs where "call = CBatchUpdate a rs"
    | (other) "\<And>u n c. call \<noteq> CEnforce u n c" "\<And>a rs. call \<noteq> CBatchUpdate a rs" by blast
  then show "limits_valid s'"
  proof cases
    case enforce
    with run ec valid show ?thesis by (auto intro: enforce_valid)
  next
    case batch
    with run ec valid show ?thesis by (auto intro: batch_update_valid)
  next
    case other
    show ?thesis by (rule other_calls_valid [of e call s]) (use run ec adm valid other in auto)
  qed
qed

lemma limits_fresh_invs: "limits_valid limits_fresh" "windows_agree limits_fresh"
  by (simp_all add: limits_valid_def in_bounds_def limits_fresh_def windows_agree_def window_totals)

section \<open>Properties\<close>

text \<open>C6: Enforcement.  For a user with an active limit and no applicable exception, in a state whose
  limits and window totals are in their bounds, a spend is accepted exactly when it is positive, the
  user is whitelisted and the hourly, daily and monthly totals including it stay within the user's
  limits; no arithmetic trap is possible.  An accepted spend is added to exactly the three windows of
  the current time.\<close>

theorem limits_enforce_spec:
  assumes "limits_valid s" and "limited s u c L"
  shows "let h = window_id (env_timestamp e) SECONDS_PER_HOUR; d = window_id (env_timestamp e) SECONDS_PER_DAY;
        m = window_id (env_timestamp e) SECONDS_PER_MONTH in
    ((\<exists>s'. enforce_spending_limit e u n c s = Inr ((), s')) \<longleftrightarrow>
       0 < n \<and> is_destination_whitelisted s u \<and> hourly_total s u h + n \<le> sl_hourly L
       \<and> daily_total s u d + n \<le> sl_daily L \<and> monthly_total s u m + n \<le> sl_monthly L)
    \<and> (\<forall>s'. enforce_spending_limit e u n c s = Inr ((), s') \<longrightarrow>
         (\<forall>v w. hourly_total s' v w = hourly_total s v w + (if v = u \<and> w = h then n else 0)
            \<and> daily_total s' v w = daily_total s v w + (if v = u \<and> w = d then n else 0)
            \<and> monthly_total s' v w = monthly_total s v w + (if v = u \<and> w = m then n else 0)))"
proof -
  let ?h = "window_id (env_timestamp e) SECONDS_PER_HOUR" and ?d = "window_id (env_timestamp e) SECONDS_PER_DAY"
    and ?m = "window_id (env_timestamp e) SECONDS_PER_MONTH"
  have v: "valid_limit L" using assms by (auto simp: limits_valid_def limited_def)
  have nonneg: "0 \<le> hourly_total s u ?h" "0 \<le> daily_total s u ?d" "0 \<le> monthly_total s u ?m"
    using assms(1) by (auto simp: window_totals limits_valid_def intro: in_bounds_read)
  have adapt: "\<exists>x. adapt u t L s = Inr x" for t
    using v by (auto simp: adapt_def valid_limit_def limit_bounds checked_mul_def in_i128_def Let_def)
  have "\<exists>s'. enforce_spending_limit e u n c s = Inr ((), s')"
    if ok: "0 < n" "is_destination_whitelisted s u" "hourly_total s u ?h + n \<le> sl_hourly L"
      "daily_total s u ?d + n \<le> sl_daily L" "monthly_total s u ?m + n \<le> sl_monthly L"
  proof -
    have "in_i128 (hourly_total s u ?h + n)" "in_i128 (daily_total s u ?d + n)" "in_i128 (monthly_total s u ?m + n)"
      using ok nonneg v by (auto simp: in_i128_def valid_limit_def limit_bounds)
    moreover obtain L1 s1 where "adapt u (monthly_total s u ?m + n) L s = Inr (L1, s1)"
      using adapt [of "monthly_total s u ?m + n"] by auto
    ultimately show ?thesis
      using ok assms(2)
      by (simp add: enforce_spending_limit_def exempted_case limited_def Let_def window_totals
          checked_add_def)
  qed
  moreover have "\<forall>v w. hourly_total s' v w = hourly_total s v w + (if v = u \<and> w = ?h then n else 0)
            \<and> daily_total s' v w = daily_total s v w + (if v = u \<and> w = ?d then n else 0)
            \<and> monthly_total s' v w = monthly_total s v w + (if v = u \<and> w = ?m then n else 0)"
    if run: "enforce_spending_limit e u n c s = Inr ((), s')" for s'
    using enforce_limited [OF run assms(2)] by (auto simp: window_totals)
  ultimately show ?thesis
    using enforce_limited [OF _ assms(2)] unfolding Let_def by blast
qed

definition limits_demo_request :: limit_request where
  "limits_demo_request = \<lparr>lq_user = Addr 2, lq_monthly = 300000000, lq_daily = 100000000, lq_hourly = 50000000,
     lq_reset_window = 86400, lq_category = None, lq_strategy = Adaptive\<rparr>"

definition limits_demo_calls :: "(env \<times> limits_call) list" where
  "limits_demo_calls = [(signed_env [Addr 1] 1 10 (Addr 9), CInitialize (Addr 1)),
     (signed_env [Addr 1] 2 20 (Addr 9), CBatchUpdate (Addr 1) [limits_demo_request]),
     (signed_env [Addr 1] 3 30 (Addr 9), CWhitelist (Addr 1) (Addr 2))]"

definition limits_demo :: limits_state where
  "limits_demo = run limits_exec limits_demo_calls limits_fresh"

lemmas limits_eval = limits_demo_def limits_demo_calls_def limits_demo_request_def limits_fresh_def initialize_def
  gated_defs require_admin_def update_step_def limit_of_request_def validate_limit_request_def
  is_valid_address_def is_valid_limit_def is_valid_reset_window_def limit_bounds emit_def
  u64_add_or_max_def Let_def arith_defs

lemma limits_demo_simps:
  "lm_limit limits_demo = [Addr 2 \<mapsto> limit_of_request 2 limits_demo_request]"
  "lm_whitelist limits_demo = [Addr 2 \<mapsto> True]" "lm_exceptions limits_demo = Map.empty"
  "lm_hourly limits_demo = Map.empty" "lm_daily limits_demo = Map.empty" "lm_monthly limits_demo = Map.empty"
  "get_admin limits_demo = Some (Addr 1)"
  by (simp_all add: limits_eval get_admin_def)

lemma limits_demo_valid: "limits_valid limits_demo"
  unfolding limits_demo_def by (rule limits_machine.run_inv)
    (auto simp: limits_fresh_invs limits_demo_calls_def no_override_def)

lemma limits_demo_limited: "limited limits_demo (Addr 2) None (limit_of_request 2 limits_demo_request)"
  by (simp add: limited_def exempted_def limits_demo_simps limit_of_request_def)

theorem limits_enforce_spec_witness:
  "(\<exists>s'. enforce_spending_limit (signed_env [] 4 40 (Addr 9)) (Addr 2) 50000000 None limits_demo = Inr ((), s'))
   \<and> \<not> (\<exists>s'. enforce_spending_limit (signed_env [] 4 40 (Addr 9)) (Addr 2) 50000001 None limits_demo = Inr ((), s'))"
  using limits_enforce_spec [OF limits_demo_valid limits_demo_limited, of "signed_env [] 4 40 (Addr 9)" 50000000]
    limits_enforce_spec [OF limits_demo_valid limits_demo_limited, of "signed_env [] 4 40 (Addr 9)" 50000001]
  by (simp add: Let_def is_destination_whitelisted_def limits_demo_simps window_totals
      limit_of_request_def limits_demo_request_def)

text \<open>After any sequence of calls, without exception, the spending windows are consistent: the total
  of a month is the sum of the totals of its thirty days and the total of a day the sum of the totals
  of its 24 hours.\<close>

theorem limits_windows_nest:
  "let s = run limits_exec cs limits_fresh in
     monthly_total s u m = (\<Sum>d\<in>{30 * m..<30 * m + 30}. daily_total s u d)
     \<and> daily_total s u d = (\<Sum>h\<in>{24 * d..<24 * d + 24}. hourly_total s u h)"
  using limits_windows.run_inv [OF limits_fresh_invs(2), of cs]
  unfolding Let_def windows_agree_def by blast

text \<open>C29: As long as the admin does not use \<open>override_spending_limit\<close>, every stored limit satisfies
  minimum \<open>\<le>\<close> hourly \<open>\<le>\<close> daily \<open>\<le>\<close> monthly \<open>\<le>\<close> maximum, also after adaptive increases, and no window total is
  negative or above the maximum.\<close>

theorem limits_run_valid:
  assumes "\<And>c. c \<in> set cs \<Longrightarrow> no_override c"
  shows "let s = run limits_exec cs limits_fresh in
     (\<forall>u L. get_spending_limit s u = Some L \<longrightarrow>
        MIN_SPENDING_LIMIT \<le> sl_hourly L \<and> sl_hourly L \<le> sl_daily L \<and> sl_daily L \<le> sl_monthly L
        \<and> sl_monthly L \<le> MAX_SPENDING_LIMIT)
     \<and> (\<forall>u w. 0 \<le> hourly_total s u w \<and> 0 \<le> daily_total s u w
          \<and> 0 \<le> monthly_total s u w \<and> monthly_total s u w \<le> MAX_SPENDING_LIMIT)"
proof -
  let ?s = "run limits_exec cs limits_fresh"
  have valid: "limits_valid ?s" by (rule limits_machine.run_inv [OF limits_fresh_invs(1) assms])
  have "monthly_total ?s u w \<le> MAX_SPENDING_LIMIT" for u w
    using valid by (cases "lm_monthly ?s (u, w)")
      (auto simp: limits_valid_def in_bounds_def monthly_total_def limit_bounds)
  moreover have "0 \<le> hourly_total ?s u w" "0 \<le> daily_total ?s u w" "0 \<le> monthly_total ?s u w" for u w
    using valid by (auto simp: window_totals limits_valid_def intro: in_bounds_read)
  ultimately show ?thesis
    using valid by (auto simp: Let_def limits_valid_def valid_limit_def get_spending_limit_def)
qed

theorem limits_run_valid_witness:
  "get_spending_limit (run limits_exec limits_demo_calls limits_fresh) (Addr 2) \<noteq> None
   \<and> monthly_total (run limits_exec limits_demo_calls limits_fresh) (Addr 2) 0 \<le> MAX_SPENDING_LIMIT"
proof -
  have "\<And>c. c \<in> set limits_demo_calls \<Longrightarrow> no_override c"
    by (auto simp: limits_demo_calls_def no_override_def)
  from limits_run_valid [of limits_demo_calls, OF this] show ?thesis
    unfolding limits_demo_def [symmetric] by (simp add: Let_def limits_demo_simps get_spending_limit_def)
qed

text \<open>A batch update adds up.  Only the admin runs it; every request is counted once, as successful
  exactly when it is valid; afterwards the limit of a user is the one of the last valid request for the
  user, and that of a user without a valid request is unchanged; the reported total is the sum of the
  accepted monthly limits (no saturation) and the average its quotient.\<close>

theorem limits_batch_update_spec:
  assumes "batch_update_spending_limits e a rs s = Inr (r, s')"
  shows "env_auth e a \<and> get_admin s = Some a
    \<and> bl_successful r = length (filter request_ok rs)
    \<and> bl_successful r + bl_failed r = length rs \<and> length (bl_results r) = length rs
    \<and> get_spending_limit s' u = (case last_request u rs of None \<Rightarrow> get_spending_limit s u
         | Some rq \<Rightarrow> Some (limit_of_request (env_sequence e) rq))
    \<and> bm_total_value (bl_metrics r) = sum_list (map lq_monthly (filter request_ok rs))
    \<and> bm_avg_amount (bl_metrics r) = bm_total_value (bl_metrics r) div int (bl_successful r)"
proof -
  let ?b = "Suc (get_last_batch_id s)"
  let ?start = "\<lparr>ul_state = emit (BatchStarted ?b (length rs)) s, ul_results = [], ul_ok = 0, ul_failed = 0, ul_total = 0\<rparr>"
  let ?u = "foldl (update_step ?b (env_sequence e)) ?start rs"
  have gate: "env_auth e a" "get_admin s = Some a" using assms update_gate.gate by blast+
  then obtain cfg where cfg: "lm_config s = Some cfg" by (auto simp: get_admin_def)
  have "require_admin a s = Inr ()" using gate(2) by simp
  have len: "length rs \<le> MAX_BATCH_SIZE"
    using assms by (auto simp: batch_update_spending_limits_def Let_def split: if_splits sum.splits)
  have r: "bl_successful r = ul_ok ?u" "bl_failed r = ul_failed ?u" "bl_results r = ul_results ?u"
    "bm_total_value (bl_metrics r) = ul_total ?u"
    "bm_avg_amount (bl_metrics r) = (if 0 < ul_ok ?u then quot (ul_total ?u) (int (ul_ok ?u)) else 0)"
    using assms cfg gate \<open>require_admin a s = Inr ()\<close>
    by (auto simp: batch_update_spending_limits_def Let_def get_last_batch_id_def split: if_splits option.splits)
  have "int (length rs) * MAX_SPENDING_LIMIT \<le> 100 * MAX_SPENDING_LIMIT"
    by (rule mult_right_mono) (use len in \<open>simp_all add: limit_bounds\<close>)
  then have tot: "ul_total ?u = sum_list (map lq_monthly (filter request_ok rs))"
    using update_loop_total [of ?start rs ?b "env_sequence e"] by (simp add: limit_bounds)
  have "0 \<le> ul_total ?u"
    unfolding tot by (rule sum_list_nonneg) (auto simp: request_ok_iff limit_bounds)
  then have "bm_avg_amount (bl_metrics r) = bm_total_value (bl_metrics r) div int (bl_successful r)"
    by (simp add: r quot_pos)
  then show ?thesis
    using gate batch_update_limits [OF assms, of u] tot
    by (simp add: r update_loop_counts get_spending_limit_def split: option.splits)
qed

lemma limits_demo_batch:
  "\<exists>r s'. batch_update_spending_limits (signed_env [Addr 1] 5 50 (Addr 9)) (Addr 1)
     [limits_demo_request, limits_demo_request\<lparr>lq_hourly := 1\<rparr>] limits_demo = Inr (r, s')"
  by (simp add: limits_eval)

theorem limits_batch_update_spec_witness:
  "\<exists>r s'. batch_update_spending_limits (signed_env [Addr 1] 5 50 (Addr 9)) (Addr 1)
     [limits_demo_request, limits_demo_request\<lparr>lq_hourly := 1\<rparr>] limits_demo = Inr (r, s')
     \<and> bl_successful r = 1 \<and> bl_failed r = 1 \<and> bm_total_value (bl_metrics r) = 300000000"
proof -
  from limits_demo_batch obtain r s' where run: "batch_update_spending_limits (signed_env [Addr 1] 5 50 (Addr 9)) (Addr 1)
     [limits_demo_request, limits_demo_request\<lparr>lq_hourly := 1\<rparr>] limits_demo = Inr (r, s')" by blast
  have "request_ok limits_demo_request" "\<not> request_ok (limits_demo_request\<lparr>lq_hourly := 1\<rparr>)"
    by (simp_all add: request_ok_iff limits_demo_request_def limit_bounds is_valid_reset_window_def)
  with limits_batch_update_spec [OF run, of "Addr 2"] run show ?thesis
    by (simp add: limits_demo_request_def)
qed

text \<open>An adaptive limit grows by a tenth, and only when the spend takes the month to at least nine
  tenths of it; it never shrinks, never passes the maximum, and a static limit never changes by
  spending.  The daily and hourly limits stay.\<close>

theorem limits_adaptive_growth:
  assumes "limits_valid s" and "limited s u c L" and "enforce_spending_limit e u n c s = Inr ((), s')"
  shows "\<exists>L'. get_spending_limit s' u = Some L'
    \<and> sl_monthly L' = (if sl_strategy L = Adaptive
          \<and> sl_monthly L * 9 div 10 \<le> monthly_total s' u (window_id (env_timestamp e) SECONDS_PER_MONTH)
        then min MAX_SPENDING_LIMIT (sl_monthly L + sl_monthly L div 10) else sl_monthly L)
    \<and> sl_monthly L \<le> sl_monthly L' \<and> sl_monthly L' \<le> MAX_SPENDING_LIMIT
    \<and> sl_daily L' = sl_daily L \<and> sl_hourly L' = sl_hourly L \<and> sl_active L'
    \<and> sl_current L' = monthly_total s' u (window_id (env_timestamp e) SECONDS_PER_MONTH)"
proof -
  let ?m = "monthly_total s u (window_id (env_timestamp e) SECONDS_PER_MONTH) + n"
  have "valid_limit L" using assms(1,2) by (auto simp: limits_valid_def limited_def)
  then have b: "0 \<le> sl_monthly L" "sl_monthly L \<le> MAX_SPENDING_LIMIT"
    by (auto simp: valid_limit_def limit_bounds)
  have "sl_monthly L div 10 \<le> sl_monthly L" using b(1) by simp
  then have "adapted L ?m = (if sl_strategy L = Adaptive \<and> sl_monthly L * 9 div 10 \<le> ?m
      then min MAX_SPENDING_LIMIT (sl_monthly L + sl_monthly L div 10) else sl_monthly L)"
    using b by (simp add: adapted_def quot_pos checked_add_def in_i128_def limit_bounds)
  moreover have "monthly_total s' u (window_id (env_timestamp e) SECONDS_PER_MONTH) = ?m"
    using enforce_limited [OF assms(3,2)] by (simp add: monthly_total_def)
  ultimately show ?thesis
    using enforce_limited [OF assms(3,2)] adapted_bounds [OF b, of ?m] assms(2)
    by (simp add: get_spending_limit_def limited_def)
qed

theorem limits_adaptive_growth_witness:
  "\<exists>s' L'. enforce_spending_limit (signed_env [] 4 40 (Addr 9)) (Addr 2) 50000000 None
       (limits_demo\<lparr>lm_monthly := [(Addr 2, 0) \<mapsto> 230000000]\<rparr>) = Inr ((), s')
     \<and> get_spending_limit s' (Addr 2) = Some L' \<and> sl_monthly L' = 330000000"
proof -
  let ?s = "limits_demo\<lparr>lm_monthly := [(Addr 2, 0) \<mapsto> 230000000]\<rparr>" and ?e = "signed_env [] 4 40 (Addr 9)"
  have valid: "limits_valid ?s"
    using limits_demo_valid by (simp add: limits_valid_def in_bounds_def limit_bounds)
  have L: "limited ?s (Addr 2) None (limit_of_request 2 limits_demo_request)"
    using limits_demo_limited by (simp add: limited_def exempted_def)
  obtain s' where run: "enforce_spending_limit ?e (Addr 2) 50000000 None ?s = Inr ((), s')"
    using limits_enforce_spec [OF valid L, of ?e 50000000]
    by (auto simp: Let_def is_destination_whitelisted_def limits_demo_simps window_totals window_id_def
        SECONDS_PER_HOUR_def SECONDS_PER_DAY_def SECONDS_PER_MONTH_def limit_of_request_def limits_demo_request_def)
  have "monthly_total s' (Addr 2) 0 = 280000000"
    using enforce_limited [OF run L]
    by (simp add: window_totals window_id_def SECONDS_PER_DAY_def SECONDS_PER_MONTH_def)
  with limits_adaptive_growth [OF valid L run] run show ?thesis
    by (auto simp: window_id_def SECONDS_PER_DAY_def SECONDS_PER_MONTH_def limit_of_request_def
        limits_demo_request_def limit_bounds)
qed

text \<open>The whitelist check of \<open>enforce_spending_limit\<close> looks up the spending user, not the destination
  of the funds: the destination is no argument, and a user who is not whitelisted is rejected even
  when no limit is configured, unless an exception applies.\<close>

theorem limits_unlisted_user_rejected:
  assumes "\<not> is_destination_whitelisted s u" and "\<not> exempted s u c" and "0 < n"
  shows "enforce_spending_limit e u n c s = Inl (ContractError Unauthorized)"
  using assms by (simp add: enforce_spending_limit_def exempted_case)

theorem limits_unlisted_user_rejected_witness:
  "get_spending_limit limits_fresh (Addr 5) = None
   \<and> enforce_spending_limit (signed_env [Addr 5] 1 1 (Addr 9)) (Addr 5) 1 None limits_fresh
      = Inl (ContractError Unauthorized)"
  using limits_unlisted_user_rejected [of limits_fresh "Addr 5" None 1 "signed_env [Addr 5] 1 1 (Addr 9)"]
  by (simp add: is_destination_whitelisted_def exempted_def limits_fresh_def get_spending_limit_def)

text \<open>A new limit does not start a new period.  A batch update writes \<open>current_spending = 0\<close> into the
  user's limit, but the window totals that enforcement compares with the limits are kept.\<close>

theorem limits_update_keeps_spending:
  assumes "batch_update_spending_limits e a rs s = Inr (r, s')" and "last_request u rs = Some rq"
  shows "(\<exists>L. get_spending_limit s' u = Some L \<and> sl_current L = 0)
    \<and> hourly_total s' = hourly_total s \<and> daily_total s' = daily_total s \<and> monthly_total s' = monthly_total s"
proof -
  have "same_windows s s'"
    by (rule other_calls_windows [of e "CBatchUpdate a rs"]) (use assms(1) in auto)
  then show ?thesis
    using batch_update_limits [OF assms(1), of u] assms(2)
    by (simp add: same_windows_def window_totals fun_eq_iff get_spending_limit_def limit_of_request_def)
qed

theorem limits_update_keeps_spending_witness:
  "\<exists>r s' L. batch_update_spending_limits (signed_env [Addr 1] 5 50 (Addr 9)) (Addr 1) [limits_demo_request]
      (limits_demo\<lparr>lm_monthly := [(Addr 2, 0) \<mapsto> 300000000]\<rparr>) = Inr (r, s')
     \<and> get_spending_limit s' (Addr 2) = Some L \<and> sl_current L = 0 \<and> monthly_total s' (Addr 2) 0 = sl_monthly L"
proof -
  let ?s = "limits_demo\<lparr>lm_monthly := [(Addr 2, 0) \<mapsto> 300000000]\<rparr>"
  have "\<exists>x. batch_update_spending_limits (signed_env [Addr 1] 5 50 (Addr 9)) (Addr 1) [limits_demo_request] ?s = Inr x"
    by (simp add: limits_eval)
  then obtain r s' where run: "batch_update_spending_limits (signed_env [Addr 1] 5 50 (Addr 9)) (Addr 1)
      [limits_demo_request] ?s = Inr (r, s')" by auto
  have "request_ok limits_demo_request"
    by (simp add: request_ok_iff limits_demo_request_def limit_bounds is_valid_reset_window_def)
  then have last: "last_request (Addr 2) [limits_demo_request] = Some limits_demo_request" by (simp add: limits_demo_request_def)
  have lim: "get_spending_limit s' (Addr 2) = Some (limit_of_request 5 limits_demo_request)"
    using batch_update_limits [OF run, of "Addr 2"] last by (simp add: get_spending_limit_def)
  have "monthly_total s' = monthly_total ?s"
    using limits_update_keeps_spending [OF run last] by simp
  then have "monthly_total s' (Addr 2) 0 = 300000000" by (simp add: monthly_total_def)
  with lim run show ?thesis
    by (intro exI conjI) (auto simp: limit_of_request_def limits_demo_request_def)
qed

text \<open>An approved escalated spend is not counted.  \<open>approve_escalated_spend\<close> only adds to
  \<open>current_spending\<close>: the windows and so every later decision of \<open>enforce_spending_limit\<close> on the same
  limits are as if it had not happened, and the next enforced spend overwrites the field.\<close>

theorem limits_escalated_spend_not_counted:
  assumes "approve_escalated_spend e a u n s = Inr ((), s')" and "limited s u c L"
    and "enforce_spending_limit e' u m c s = Inr ((), t)"
  shows "\<exists>t'. enforce_spending_limit e' u m c s' = Inr ((), t') \<and> get_spending_limit t' = get_spending_limit t
    \<and> hourly_total t' = hourly_total t \<and> daily_total t' = daily_total t \<and> monthly_total t' = monthly_total t"
proof -
  obtain L' where L': "lm_limit s' = (lm_limit s)(u \<mapsto> L')" "L' = L\<lparr>sl_current := sl_current L', sl_updated_at := sl_updated_at L'\<rparr>"
    using assms(1,2) by (auto simp: approve_escalated_spend_def limited_def Let_def split: if_splits sum.splits)
  have f: "lm_hourly s' = lm_hourly s" "lm_daily s' = lm_daily s" "lm_monthly s' = lm_monthly s"
    "lm_exceptions s' = lm_exceptions s" "lm_whitelist s' = lm_whitelist s"
    using assms(1) by (auto simp: approve_escalated_spend_def Let_def split: if_splits sum.splits option.splits)
  have fields: "sl_hourly L' = sl_hourly L" "sl_daily L' = sl_daily L" "sl_monthly L' = sl_monthly L"
    "sl_strategy L' = sl_strategy L" "sl_active L' = sl_active L"
    by (subst L'(2); simp)+
  have L2: "limited s' u c L'"
    using assms(2) L'(1) f(4) fields(5) by (simp add: limited_def exempted_def is_exempt_def)
  let ?m = "monthly_total s u (window_id (env_timestamp e') SECONDS_PER_MONTH) + m"
  have ad: "adapted L' k = adapted L k" for k by (simp add: adapted_def fields)
  obtain x where "adapt u ?m L s = Inr x"
    using assms(2,3) by (auto simp: enforce_spending_limit_def exempted_case limited_def Let_def window_totals
        split: if_splits option.splits sum.splits)
  then obtain x' where "adapt u ?m L' s' = Inr x'"
    by (auto simp: adapt_def fields Let_def split: if_splits option.splits)
  then obtain L1 s1 where "adapt u ?m L' s' = Inr (L1, s1)" by (cases x') auto
  moreover have "in_i128 (hourly_total s u (window_id (env_timestamp e') SECONDS_PER_HOUR) + m)"
    "in_i128 (daily_total s u (window_id (env_timestamp e') SECONDS_PER_DAY) + m)" "in_i128 ?m"
    using assms(2,3) by (auto simp: enforce_spending_limit_def exempted_case limited_def Let_def window_totals
        split: if_splits option.splits)
  ultimately have "\<exists>t'. enforce_spending_limit e' u m c s' = Inr ((), t')"
    using enforce_limited [OF assms(3,2)] L2
    by (simp add: enforce_spending_limit_def exempted_case limited_def Let_def window_totals
        is_destination_whitelisted_def f fields checked_add_def)
  then obtain t' where t': "enforce_spending_limit e' u m c s' = Inr ((), t')" by blast
  have "L'\<lparr>sl_monthly := p, sl_current := q, sl_updated_at := r\<rparr> = L\<lparr>sl_monthly := p, sl_current := q, sl_updated_at := r\<rparr>" for p q r
    by (subst L'(2)) simp
  then show ?thesis
    using t' enforce_limited [OF t' L2] enforce_limited [OF assms(3,2)]
    by (simp add: f ad window_totals get_spending_limit_def L'(1) fun_eq_iff)
qed

theorem limits_escalated_spend_not_counted_witness:
  "\<exists>s' t'. approve_escalated_spend (signed_env [Addr 1] 5 50 (Addr 9)) (Addr 1) (Addr 2) 1000000000 limits_demo = Inr ((), s')
     \<and> enforce_spending_limit (signed_env [] 6 60 (Addr 9)) (Addr 2) 50000000 None s' = Inr ((), t')"
proof -
  let ?e' = "signed_env [] 6 60 (Addr 9)"
  obtain s' where ap: "approve_escalated_spend (signed_env [Addr 1] 5 50 (Addr 9)) (Addr 1) (Addr 2) 1000000000 limits_demo = Inr ((), s')"
    by (simp add: limits_eval)
  obtain t where run: "enforce_spending_limit ?e' (Addr 2) 50000000 None limits_demo = Inr ((), t)"
    using limits_enforce_spec [OF limits_demo_valid limits_demo_limited, of ?e' 50000000]
    by (auto simp: Let_def is_destination_whitelisted_def limits_demo_simps window_totals
        limit_of_request_def limits_demo_request_def)
  from limits_escalated_spend_not_counted [OF ap limits_demo_limited run] ap show ?thesis by blast
qed

text \<open>Only the admin, by signature, changes the contract's state, apart from the one initialisation
  and from \<open>enforce_spending_limit\<close>, which anyone may call for any user.\<close>

theorem limits_changes_need_admin:
  assumes "limits_exec (e, call) s = Inr s'" and "get_admin s = Some a" and "\<not> env_auth e a"
  shows "(\<exists>u n c. call = CEnforce u n c
      \<and> enforce_spending_limit (e\<lparr>env_auth := \<lambda>_. False\<rparr>) u n c s = Inr ((), s'))"
proof (cases call)
  case (CInitialize b)
  with assms show ?thesis by (auto simp: initialize_def get_admin_def split: if_splits)
next
  case (CEnforce u n c)
  have "enforce_spending_limit (e\<lparr>env_auth := \<lambda>_. False\<rparr>) u n c s = enforce_spending_limit e u n c s"
    by (cases "lm_limit s u") (simp_all add: enforce_spending_limit_def)
  with CEnforce assms show ?thesis by simp
qed (use assms in \<open>auto dest!: limits_gates\<close>)

theorem limits_changes_need_admin_witness:
  "\<exists>s'. limits_exec (signed_env [Addr 77] 4 40 (Addr 9), CEnforce (Addr 2) 50000000 None) limits_demo = Inr s'
     \<and> enforce_spending_limit ((signed_env [Addr 77] 4 40 (Addr 9))\<lparr>env_auth := \<lambda>_. False\<rparr>) (Addr 2) 50000000 None
         limits_demo = Inr ((), s')"
proof -
  let ?e = "signed_env [Addr 77] 4 40 (Addr 9)"
  obtain s' where run: "limits_exec (?e, CEnforce (Addr 2) 50000000 None) limits_demo = Inr s'"
    using limits_enforce_spec [OF limits_demo_valid limits_demo_limited, of ?e 50000000]
    by (auto simp: Let_def is_destination_whitelisted_def limits_demo_simps window_totals
        limit_of_request_def limits_demo_request_def)
  have "\<not> env_auth ?e (Addr 1)" by simp
  from limits_changes_need_admin [OF run limits_demo_simps(7) this] run show ?thesis by auto
qed

text \<open>Withdrawing a category from the approved list does not end the exceptions granted for it: an
  exempted user still bypasses every limit with that category.\<close>

theorem limits_exception_outlives_category:
  assumes "remove_approved_category e a cat s = Inr ((), s')" and "is_exempt s u cat" and "0 < n"
  shows "enforce_spending_limit e' u n (Some cat) s' = Inr ((), emit (ExceptionBypassed u n cat) s')"
proof -
  have "lm_exceptions s' = lm_exceptions s"
    using assms(1) by (auto simp: remove_approved_category_def Let_def split: if_splits sum.splits prod.splits)
  with assms(2,3) show ?thesis by (simp add: enforce_spending_limit_def is_exempt_def)
qed

theorem limits_exception_outlives_category_witness:
  "\<exists>s'. remove_approved_category (signed_env [Addr 1] 5 50 (Addr 9)) (Addr 1) ''food''
      (run limits_exec [(signed_env [Addr 1] 3 30 (Addr 9), CAddCategory (Addr 1) ''food''),
         (signed_env [Addr 1] 3 30 (Addr 9), CAddException (Addr 1) (Addr 6) ''food'')] limits_demo) = Inr ((), s')
     \<and> get_approved_categories s' = []
     \<and> enforce_spending_limit (signed_env [] 6 60 (Addr 9)) (Addr 6) (10 ^ 30) (Some ''food'') s'
        = Inr ((), emit (ExceptionBypassed (Addr 6) (10 ^ 30) ''food'') s')"
proof -
  let ?s = "run limits_exec [(signed_env [Addr 1] 3 30 (Addr 9), CAddCategory (Addr 1) ''food''),
         (signed_env [Addr 1] 3 30 (Addr 9), CAddException (Addr 1) (Addr 6) ''food'')] limits_demo"
  obtain s' where run: "remove_approved_category (signed_env [Addr 1] 5 50 (Addr 9)) (Addr 1) ''food'' ?s = Inr ((), s')"
    and none: "get_approved_categories s' = []"
    by (simp add: limits_eval get_approved_categories_def)
  have ex: "is_exempt ?s (Addr 6) ''food''" by (simp add: limits_eval is_exempt_def)
  have "(0::int) < 10 ^ 30" by simp
  from limits_exception_outlives_category [OF run ex this] run none show ?thesis by blast
qed

end
