(* ===== verification/Access_Control.thy ===== *)
theory Access_Control
  imports Host
begin

text \<open>
  \<open>contracts/access-control/src/lib.rs\<close>: role-based access control.  Every address has a map from
  roles to booleans (a revoked role stays in the map as \<open>false\<close>), one address is stored as the admin,
  and a counter claims to be the number of role assignments.

  The two facts that make the component usable by its clients are proved for every sequence of calls:
  the stored admin holds \<open>Role::Admin\<close>, and how far the counter is from the number of roles in force.
\<close>

section \<open>Data\<close>

datatype role = Admin | User | Operator | Auditor

datatype access_control_error =
    NotInitialized | Unauthorized | InvalidRole | RoleAlreadyAssigned | RoleNotAssigned
  | CannotRevokeSelfAdmin

datatype access_event =
    Initialized address
  | RoleGranted address role
  | RoleRevoked address role
  | AdminTransferred address address

text \<open>One field per storage key: \<open>DataKey::Admin\<close>, \<open>DataKey::UserRoles(_)\<close>,
  \<open>DataKey::TotalRoleAssignments\<close>, and the published events.\<close>

record access_state =
  ac_admin :: "address option"
  ac_user_roles :: "address \<rightharpoonup> (role \<rightharpoonup> bool)"
  ac_total :: "nat option"
  ac_events :: "access_event list"

definition access_fresh :: access_state where
  "access_fresh = \<lparr>ac_admin = None, ac_user_roles = Map.empty, ac_total = None, ac_events = []\<rparr>"

section \<open>Queries\<close>

definition roles_of :: "access_state \<Rightarrow> address \<Rightarrow> (role \<rightharpoonup> bool)" where
  "roles_of s user = unwrap_or (ac_user_roles s user) Map.empty"

definition role_set :: "(role \<rightharpoonup> bool) \<Rightarrow> role \<Rightarrow> bool" where
  "role_set roles r = unwrap_or (roles r) False"

definition has_role :: "access_state \<Rightarrow> address \<Rightarrow> role \<Rightarrow> bool" where
  "has_role s user r = role_set (roles_of s user) r"

definition check_permission :: "address \<Rightarrow> role \<Rightarrow> access_state \<Rightarrow> access_control_error trap + unit" where
  "check_permission user r s =
    (let roles = roles_of s user; is_admin = role_set roles Admin; has = role_set roles r in
     if \<not> is_admin \<and> \<not> has then Inl (ContractError Unauthorized) else Inr ())"

definition active_roles :: "(role \<rightharpoonup> bool) \<Rightarrow> role list" where
  "active_roles roles =
     (if role_set roles Admin then [Admin] else []) @ (if role_set roles User then [User] else [])
   @ (if role_set roles Operator then [Operator] else []) @ (if role_set roles Auditor then [Auditor] else [])"

definition get_user_roles :: "access_state \<Rightarrow> address \<Rightarrow> role list" where
  "get_user_roles s user = active_roles (roles_of s user)"

definition has_any_role :: "access_state \<Rightarrow> address \<Rightarrow> bool" where
  "has_any_role s user =
    (let roles = roles_of s user in
     role_set roles Admin \<or> role_set roles User \<or> role_set roles Operator \<or> role_set roles Auditor)"

definition get_admin :: "access_state \<Rightarrow> access_control_error trap + address" where
  "get_admin s = (case ac_admin s of None \<Rightarrow> Inl (ContractError NotInitialized) | Some a \<Rightarrow> Inr a)"

definition get_total_role_assignments :: "access_state \<Rightarrow> nat" where
  "get_total_role_assignments s = unwrap_or (ac_total s) 0"

definition require_admin :: "address \<Rightarrow> access_state \<Rightarrow> access_control_error trap + unit" where
  "require_admin caller s =
    (case ac_admin s of None \<Rightarrow> Inl (ContractError NotInitialized) | Some admin \<Rightarrow>
     if caller \<noteq> admin then Inl (ContractError Unauthorized) else Inr ())"

section \<open>Operations\<close>

definition emit :: "access_event \<Rightarrow> access_state \<Rightarrow> access_state" where
  "emit ev s = s\<lparr>ac_events := ac_events s @ [ev]\<rparr>"

definition set_role :: "address \<Rightarrow> role \<Rightarrow> bool \<Rightarrow> access_state \<Rightarrow> access_state" where
  "set_role user r b s =
     s\<lparr>ac_user_roles := (ac_user_roles s)(user \<mapsto> (roles_of s user)(r \<mapsto> b))\<rparr>"

definition initialize :: "env \<Rightarrow> address \<Rightarrow> access_state
    \<Rightarrow> (access_state, access_control_error, unit) outcome" where
  "initialize e admin s =
    (if ac_admin s \<noteq> None then Inl (ContractError NotInitialized) else
     if \<not> env_auth e admin then Inl AuthTrap else
     Inr ((), emit (Initialized admin)
        (s\<lparr>ac_admin := Some admin,
           ac_user_roles := (ac_user_roles s)(admin \<mapsto> [Admin \<mapsto> True]),
           ac_total := Some 1\<rparr>)))"

definition grant_role :: "env \<Rightarrow> address \<Rightarrow> address \<Rightarrow> role \<Rightarrow> access_state
    \<Rightarrow> (access_state, access_control_error, unit) outcome" where
  "grant_role e caller user r s =
    (if \<not> env_auth e caller then Inl AuthTrap else
     case require_admin caller s of Inl t \<Rightarrow> Inl t | Inr _ \<Rightarrow>
     if role_set (roles_of s user) r then Inl (ContractError RoleAlreadyAssigned) else
     case u64_add (get_total_role_assignments s) 1 of None \<Rightarrow> Inl ArithTrap | Some count \<Rightarrow>
     Inr ((), emit (RoleGranted user r) ((set_role user r True s)\<lparr>ac_total := Some count\<rparr>)))"

definition revoke_role :: "env \<Rightarrow> address \<Rightarrow> address \<Rightarrow> role \<Rightarrow> access_state
    \<Rightarrow> (access_state, access_control_error, unit) outcome" where
  "revoke_role e caller user r s =
    (if \<not> env_auth e caller then Inl AuthTrap else
     case require_admin caller s of Inl t \<Rightarrow> Inl t | Inr _ \<Rightarrow>
     if caller = user \<and> r = Admin then Inl (ContractError CannotRevokeSelfAdmin) else
     if \<not> role_set (roles_of s user) r then Inl (ContractError RoleNotAssigned) else
     let s1 = set_role user r False s;
         count = get_total_role_assignments s;
         s2 = (if 0 < count then s1\<lparr>ac_total := Some (count - 1)\<rparr> else s1) in
     Inr ((), emit (RoleRevoked user r) s2))"

text \<open>The role map of the new admin is read after the current admin's map is written, so a transfer
  to oneself keeps the role.  The counter is not touched.\<close>

definition transfer_admin :: "env \<Rightarrow> address \<Rightarrow> address \<Rightarrow> access_state
    \<Rightarrow> (access_state, access_control_error, unit) outcome" where
  "transfer_admin e current_admin new_admin s =
    (if \<not> env_auth e current_admin then Inl AuthTrap else
     case require_admin current_admin s of Inl t \<Rightarrow> Inl t | Inr _ \<Rightarrow>
     let s1 = set_role current_admin Admin False s;
         s2 = set_role new_admin Admin True s1 in
     Inr ((), emit (AdminTransferred current_admin new_admin) (s2\<lparr>ac_admin := Some new_admin\<rparr>)))"

datatype access_call =
    CInitialize address
  | CGrant address address role
  | CRevoke address address role
  | CTransfer address address

fun access_exec :: "env \<times> access_call \<Rightarrow> access_state \<Rightarrow> access_control_error trap + access_state" where
  "access_exec (e, CInitialize a) s = final (initialize e a s)"
| "access_exec (e, CGrant a u r) s = final (grant_role e a u r s)"
| "access_exec (e, CRevoke a u r) s = final (revoke_role e a u r s)"
| "access_exec (e, CTransfer a b) s = final (transfer_admin e a b s)"

section \<open>The admin gate\<close>

lemma access_require_admin_Inr: "require_admin a s = Inr x \<longleftrightarrow> ac_admin s = Some a"
  by (auto simp: require_admin_def split: option.splits)

lemma require_admin_ok [simp]: "ac_admin s = Some a \<Longrightarrow> require_admin a s = Inr ()"
  by (simp add: require_admin_def)

interpretation role_grant_gate: admin_gated ac_admin "\<lambda>e a. grant_role e a u r" for u r
  by unfold_locales (auto simp: grant_role_def access_require_admin_Inr split: if_splits sum.splits)

interpretation role_revoke_gate: admin_gated ac_admin "\<lambda>e a. revoke_role e a u r" for u r
  by unfold_locales (auto simp: revoke_role_def access_require_admin_Inr split: if_splits sum.splits)

interpretation transfer_gate: admin_gated ac_admin "\<lambda>e a. transfer_admin e a b" for b
  by unfold_locales (auto simp: transfer_admin_def access_require_admin_Inr split: if_splits sum.splits)

lemmas access_gates = role_grant_gate.gate role_revoke_gate.gate transfer_gate.gate

section \<open>Effect on role maps\<close>

lemma emit_frame [simp]:
  "ac_admin (emit ev s) = ac_admin s" "ac_user_roles (emit ev s) = ac_user_roles s"
  "ac_total (emit ev s) = ac_total s"
  by (simp_all add: emit_def)

lemma set_role_frame [simp]: "ac_admin (set_role u r b s) = ac_admin s" "ac_total (set_role u r b s) = ac_total s"
  by (simp_all add: set_role_def)

lemma roles_of_frame [simp]:
  "roles_of (emit ev s) = roles_of s" "roles_of (s\<lparr>ac_total := n\<rparr>) = roles_of s"
  "roles_of (s\<lparr>ac_admin := a\<rparr>) = roles_of s"
  by (simp_all add: roles_of_def fun_eq_iff)

lemma has_role_frame [simp]:
  "has_role (emit ev s) = has_role s" "has_role (s\<lparr>ac_total := n\<rparr>) = has_role s"
  "has_role (s\<lparr>ac_admin := a\<rparr>) = has_role s"
  by (simp_all add: has_role_def fun_eq_iff)

lemma has_role_set_role [simp]:
  "has_role (set_role v q b s) u r \<longleftrightarrow> (if u = v \<and> r = q then b else has_role s u r)"
  by (simp add: has_role_def roles_of_def set_role_def role_set_def)

lemma grant_role_Inr:
  "grant_role e a u r s = Inr (x, s') \<longleftrightarrow>
     env_auth e a \<and> ac_admin s = Some a \<and> \<not> has_role s u r \<and> in_u64 (get_total_role_assignments s + 1)
   \<and> s' = emit (RoleGranted u r) ((set_role u r True s)\<lparr>ac_total := Some (get_total_role_assignments s + 1)\<rparr>)"
  by (auto simp: grant_role_def access_require_admin_Inr has_role_def u64_add_def split: sum.splits if_splits)

lemma revoke_role_Inr:
  "revoke_role e a u r s = Inr (x, s') \<longleftrightarrow>
     env_auth e a \<and> ac_admin s = Some a \<and> has_role s u r \<and> \<not> (u = a \<and> r = Admin)
   \<and> s' = emit (RoleRevoked u r)
        (if 0 < get_total_role_assignments s
         then (set_role u r False s)\<lparr>ac_total := Some (get_total_role_assignments s - 1)\<rparr>
         else set_role u r False s)"
  by (auto simp: revoke_role_def access_require_admin_Inr has_role_def Let_def split: sum.splits if_splits)

lemma transfer_admin_Inr:
  "transfer_admin e a b s = Inr (x, s') \<longleftrightarrow>
     env_auth e a \<and> ac_admin s = Some a
   \<and> s' = emit (AdminTransferred a b) ((set_role b Admin True (set_role a Admin False s))\<lparr>ac_admin := Some b\<rparr>)"
  by (auto simp: transfer_admin_def access_require_admin_Inr Let_def split: sum.splits if_splits)

lemma initialize_Inr:
  "initialize e a s = Inr (x, s') \<longleftrightarrow> env_auth e a \<and> ac_admin s = None
   \<and> s' = emit (Initialized a) (s\<lparr>ac_admin := Some a,
           ac_user_roles := (ac_user_roles s)(a \<mapsto> [Admin \<mapsto> True]), ac_total := Some 1\<rparr>)"
  by (auto simp: initialize_def)

lemmas access_calls_Inr = grant_role_Inr revoke_role_Inr transfer_admin_Inr initialize_Inr

section \<open>The counter and the roles in force\<close>

definition roles_in_force :: "access_state \<Rightarrow> int" where
  "roles_in_force s = total_over (\<lambda>roles. int (length (active_roles roles))) (ac_user_roles s)"

text \<open>The roles in force are the lengths of the lists that \<open>get_user_roles\<close> returns, added up.\<close>

lemma roles_in_force_listed:
  "roles_in_force s = (\<Sum>u\<in>dom (ac_user_roles s). int (length (get_user_roles s u)))"
  unfolding roles_in_force_def total_over_def
  by (rule sum.cong) (auto simp: get_user_roles_def roles_of_def)

lemma active_roles_member: "r \<in> set (active_roles m) \<longleftrightarrow> role_set m r"
  by (cases r) (auto simp: active_roles_def)

lemma active_roles_distinct: "distinct (active_roles m)"
  by (auto simp: active_roles_def)

lemma length_active_roles_update:
  "int (length (active_roles (m(r \<mapsto> b)))) = int (length (active_roles m)) - of_bool (role_set m r) + of_bool b"
  by (cases r) (auto simp: active_roles_def role_set_def)

lemma active_roles_empty [simp]: "active_roles Map.empty = []"
  by (simp add: active_roles_def role_set_def)

lemma roles_in_force_frame [simp]:
  "roles_in_force (emit ev s) = roles_in_force s" "roles_in_force (s\<lparr>ac_total := n\<rparr>) = roles_in_force s"
  "roles_in_force (s\<lparr>ac_admin := a\<rparr>) = roles_in_force s"
  by (simp_all add: roles_in_force_def)

lemma roles_in_force_set_role:
  assumes "finite (dom (ac_user_roles s))"
  shows "roles_in_force (set_role u r b s) = roles_in_force s - of_bool (has_role s u r) + of_bool b"
  using assms
  by (cases "ac_user_roles s u")
     (simp_all add: roles_in_force_def set_role_def total_over_update length_active_roles_update
       has_role_def roles_of_def)

lemma has_role_counts:
  assumes "finite (dom (ac_user_roles s))" and "has_role s u r"
  shows "1 \<le> roles_in_force s"
proof -
  obtain m where m: "ac_user_roles s u = Some m" and r: "role_set m r"
    using assms(2) by (cases "ac_user_roles s u") (auto simp: has_role_def roles_of_def role_set_def)
  from r have "active_roles m \<noteq> []" by (metis active_roles_member list.set(1) empty_iff)
  then have "1 \<le> int (length (active_roles m))" by (cases "active_roles m") auto
  also have "\<dots> \<le> roles_in_force s"
    unfolding roles_in_force_def by (rule total_over_member_le [OF assms(1) _ m]) simp
  finally show ?thesis .
qed

definition access_inv :: "access_state \<Rightarrow> bool" where
  "access_inv s \<longleftrightarrow> finite (dom (ac_user_roles s)) \<and>
     (case ac_admin s of None \<Rightarrow> ac_user_roles s = Map.empty \<and> ac_total s = None
      | Some a \<Rightarrow> has_role s a Admin)
   \<and> roles_in_force s \<le> int (get_total_role_assignments s)"

lemma access_inv_fresh: "access_inv access_fresh"
  by (simp add: access_inv_def access_fresh_def roles_in_force_def)

text \<open>The one call after which the counter is no longer the number of roles in force: the transfer
  of the admin to another holder of \<open>Role::Admin\<close>, who already was counted.\<close>

definition doubled :: "env \<times> access_call \<Rightarrow> access_state \<Rightarrow> nat" where
  "doubled c s = (case snd c of CTransfer a b \<Rightarrow> of_bool (a \<noteq> b \<and> has_role s b Admin) | _ \<Rightarrow> 0)"

lemma access_exec_finite:
  assumes "access_exec c s = Inr s'" and "finite (dom (ac_user_roles s))"
  shows "finite (dom (ac_user_roles s'))"
  using assms by (cases c; cases "snd c") (auto simp: access_calls_Inr set_role_def split: if_splits)

lemma access_exec_drift:
  assumes inv: "access_inv s" and run: "access_exec (e, c) s = Inr s'"
  shows "int (get_total_role_assignments s') - roles_in_force s'
       = int (get_total_role_assignments s) - roles_in_force s + int (doubled (e, c) s)"
proof (cases c)
  case (CInitialize a)
  with run inv show ?thesis
    by (auto simp: initialize_Inr access_inv_def get_total_role_assignments_def doubled_def
        roles_in_force_def total_over_update active_roles_def role_set_def)
next
  case (CGrant a u r)
  with run inv show ?thesis
    by (auto simp: grant_role_Inr access_inv_def get_total_role_assignments_def doubled_def
        roles_in_force_set_role)
next
  case (CRevoke a u r)
  with run have r: "has_role s u r" by (auto simp: revoke_role_Inr)
  with inv have "0 < get_total_role_assignments s"
    using has_role_counts [of s u r] by (auto simp: access_inv_def)
  with CRevoke run inv show ?thesis
    by (auto simp: revoke_role_Inr access_inv_def get_total_role_assignments_def doubled_def
        roles_in_force_set_role)
next
  case (CTransfer a b)
  have "finite (dom (ac_user_roles (set_role a Admin False s)))"
    using inv by (auto simp: access_inv_def set_role_def)
  with CTransfer run inv show ?thesis
    by (auto simp: transfer_admin_Inr access_inv_def get_total_role_assignments_def doubled_def
        roles_in_force_set_role)
qed

lemma access_exec_inv:
  assumes inv: "access_inv s" and run: "access_exec c s = Inr s'"
  shows "access_inv s'"
proof -
  obtain e k where c: "c = (e, k)" by (cases c)
  have fin: "finite (dom (ac_user_roles s'))"
    using access_exec_finite [OF run] inv by (simp add: access_inv_def)
  have le: "roles_in_force s' \<le> int (get_total_role_assignments s')"
    using access_exec_drift [OF inv run [unfolded c]] inv by (auto simp: access_inv_def)
  have "case ac_admin s' of None \<Rightarrow> ac_user_roles s' = Map.empty \<and> ac_total s' = None
      | Some a \<Rightarrow> has_role s' a Admin"
    using run inv unfolding c
    by (cases k) (auto simp: access_calls_Inr access_inv_def has_role_def roles_of_def role_set_def set_role_def)
  with fin le show ?thesis by (simp add: access_inv_def)
qed

interpretation access_machine: contract_invariant access_exec access_inv "\<lambda>_. True"
  by unfold_locales (rule access_exec_inv)

fun doubled_transfers :: "(env \<times> access_call) list \<Rightarrow> access_state \<Rightarrow> nat" where
  "doubled_transfers [] s = 0"
| "doubled_transfers (c # cs) s =
     (case access_exec c s of Inl _ \<Rightarrow> doubled_transfers cs s
      | Inr s' \<Rightarrow> doubled c s + doubled_transfers cs s')"

lemma run_drift:
  "access_inv s \<Longrightarrow> int (get_total_role_assignments (run access_exec cs s)) - roles_in_force (run access_exec cs s)
     = int (get_total_role_assignments s) - roles_in_force s + int (doubled_transfers cs s)"
proof (induction cs arbitrary: s)
  case (Cons c cs)
  show ?case
  proof (cases "access_exec c s")
    case (Inr s')
    obtain e k where c: "c = (e, k)" by (cases c)
    from Cons.IH [OF access_exec_inv [OF Cons.prems Inr]] access_exec_drift [OF Cons.prems Inr [unfolded c]]
    show ?thesis using Inr c by simp
  qed (use Cons in simp)
qed simp

section \<open>Properties\<close>

text \<open>The counter of role assignments.  After any calls on a fresh contract,
  \<open>get_total_role_assignments\<close> is the number of roles that \<open>get_user_roles\<close> lists over all users, plus
  one for every transfer of the admin to another address that already held \<open>Role::Admin\<close>.\<close>

theorem access_counter_drift:
  "int (get_total_role_assignments (run access_exec cs access_fresh))
     = (\<Sum>u\<in>dom (ac_user_roles (run access_exec cs access_fresh)).
          int (length (get_user_roles (run access_exec cs access_fresh) u)))
       + int (doubled_transfers cs access_fresh)"
  using run_drift [OF access_inv_fresh, of cs] unfolding roles_in_force_listed [symmetric]
  by (simp add: access_fresh_def get_total_role_assignments_def roles_in_force_def)

text \<open>What a call does to roles.  On an initialised contract every successful call carries the
  signature of the stored admin, and changes exactly the role it names: a grant adds one, a revocation
  removes one, a transfer moves \<open>Role::Admin\<close> and the admin; a second initialisation always fails.\<close>

theorem access_call_spec:
  assumes "access_exec (e, c) s = Inr s'" and "ac_admin s = Some a"
  shows "env_auth e a
    \<and> (case c of
         CInitialize _ \<Rightarrow> False
       | CGrant b v q \<Rightarrow> b = a \<and> \<not> has_role s v q \<and> ac_admin s' = Some a
           \<and> (\<forall>u r. has_role s' u r \<longleftrightarrow> u = v \<and> r = q \<or> has_role s u r)
       | CRevoke b v q \<Rightarrow> b = a \<and> has_role s v q \<and> (v, q) \<noteq> (a, Admin) \<and> ac_admin s' = Some a
           \<and> (\<forall>u r. has_role s' u r \<longleftrightarrow> has_role s u r \<and> (u, r) \<noteq> (v, q))
       | CTransfer b d \<Rightarrow> b = a \<and> ac_admin s' = Some d
           \<and> (\<forall>u r. has_role s' u r \<longleftrightarrow> (u, r) = (d, Admin) \<or> has_role s u r \<and> (u, r) \<noteq> (a, Admin)))"
  using assms by (cases c) (auto simp: access_calls_Inr)

text \<open>The stored admin is never locked out.  After any calls, when the contract has an admin, that
  address holds \<open>Role::Admin\<close>, passes every permission check and can, by its signature, hand the
  contract on to anyone.\<close>

theorem access_admin_not_locked_out:
  assumes "get_admin (run access_exec cs access_fresh) = Inr a" and "env_auth e a"
  shows "has_role (run access_exec cs access_fresh) a Admin
    \<and> check_permission a r (run access_exec cs access_fresh) = Inr ()
    \<and> (\<exists>s'. transfer_admin e a b (run access_exec cs access_fresh) = Inr ((), s') \<and> get_admin s' = Inr b)"
proof -
  let ?s = "run access_exec cs access_fresh"
  have "access_inv ?s"
    by (rule access_machine.run_inv) (simp_all add: access_inv_fresh)
  with assms(1) have "has_role ?s a Admin" and adm: "ac_admin ?s = Some a"
    by (auto simp: get_admin_def access_inv_def split: option.splits)
  then show ?thesis
    using assms(2) by (auto simp: check_permission_def has_role_def Let_def transfer_admin_Inr get_admin_def)
qed

text \<open>A concrete history: address 1 initialises, makes 2 an operator and also an admin, then hands the
  contract to 2.  Four assignments were counted by then, three are in force.\<close>

definition access_demo_calls :: "(env \<times> access_call) list" where
  "access_demo_calls =
    (let e = signed_env [Addr 1] 1 10 (Addr 9) in
     [(e, CInitialize (Addr 1)), (e, CGrant (Addr 1) (Addr 2) Operator), (e, CGrant (Addr 1) (Addr 2) Admin),
      (e, CGrant (Addr 1) (Addr 3) Auditor), (e, CTransfer (Addr 1) (Addr 2))])"

lemmas access_eval = access_demo_calls_def access_fresh_def initialize_def grant_role_def revoke_role_def
  transfer_admin_def require_admin_def roles_of_def role_set_def set_role_def get_total_role_assignments_def
  emit_def u64_add_def in_u64_def Let_def commit_def

lemma access_demo_values:
  "get_admin (run access_exec access_demo_calls access_fresh) = Inr (Addr 2)"
  "get_total_role_assignments (run access_exec access_demo_calls access_fresh) = 4"
  "get_user_roles (run access_exec access_demo_calls access_fresh) (Addr 1) = []"
  "get_user_roles (run access_exec access_demo_calls access_fresh) (Addr 2) = [Admin, Operator]"
  "get_user_roles (run access_exec access_demo_calls access_fresh) (Addr 3) = [Auditor]"
  "doubled_transfers access_demo_calls access_fresh = 1"
  by (simp_all add: access_eval get_admin_def get_user_roles_def active_roles_def doubled_def has_role_def)

theorem access_counter_drift_witness:
  "get_total_role_assignments (run access_exec access_demo_calls access_fresh) = 4
   \<and> (\<Sum>u\<in>dom (ac_user_roles (run access_exec access_demo_calls access_fresh)).
        int (length (get_user_roles (run access_exec access_demo_calls access_fresh) u))) = 3"
  using access_counter_drift [of access_demo_calls] access_demo_values(2,6) by simp

theorem access_call_spec_witness:
  "\<exists>s'. access_exec (signed_env [Addr 2] 2 20 (Addr 9), CRevoke (Addr 2) (Addr 3) Auditor)
       (run access_exec access_demo_calls access_fresh) = Inr s' \<and> \<not> has_role s' (Addr 3) Auditor
     \<and> ac_admin s' = Some (Addr 2)"
proof -
  let ?s = "run access_exec access_demo_calls access_fresh"
  have adm: "ac_admin ?s = Some (Addr 2)"
    using access_demo_values(1) by (simp add: get_admin_def split: option.splits)
  obtain s' where run: "access_exec (signed_env [Addr 2] 2 20 (Addr 9), CRevoke (Addr 2) (Addr 3) Auditor) ?s = Inr s'"
    by (simp add: access_eval)
  from access_call_spec [OF this adm] run show ?thesis by auto
qed

theorem access_admin_not_locked_out_witness:
  "\<exists>s'. transfer_admin (signed_env [Addr 2] 2 20 (Addr 9)) (Addr 2) (Addr 7)
       (run access_exec access_demo_calls access_fresh) = Inr ((), s') \<and> get_admin s' = Inr (Addr 7)"
  using access_admin_not_locked_out
    [OF access_demo_values(1), of "signed_env [Addr 2] 2 20 (Addr 9)" Auditor "Addr 7"] by auto

end
