(* ===== verification/Pausable.thy ===== *)
theory Pausable
  imports Host
begin

text \<open>
  \<open>contracts/pausable/src/lib.rs\<close>: the emergency switch.  Two storage keys, the admin and the pause
  flag; \<open>require_not_paused\<close> is the guard other contracts call.
\<close>

section \<open>Data\<close>

datatype pausable_error = NotInitialized | Unauthorized | ContractPaused | ContractNotPaused

datatype pausable_event =
    Initialized address
  | Paused address
  | Unpaused address
  | AdminChanged address address

record pausable_state =
  pz_admin :: "address option"
  pz_paused :: "bool option"
  pz_events :: "pausable_event list"

definition pausable_fresh :: pausable_state where
  "pausable_fresh = \<lparr>pz_admin = None, pz_paused = None, pz_events = []\<rparr>"

section \<open>Operations\<close>

definition require_admin :: "address \<Rightarrow> pausable_state \<Rightarrow> pausable_error trap + unit" where
  "require_admin caller s =
    (case pz_admin s of None \<Rightarrow> Inl PanicTrap | Some admin \<Rightarrow>
     if caller \<noteq> admin then Inl (ContractError Unauthorized) else Inr ())"

definition is_paused :: "pausable_state \<Rightarrow> bool" where
  "is_paused s = unwrap_or (pz_paused s) False"

definition get_admin :: "pausable_state \<Rightarrow> pausable_error trap + address" where
  "get_admin s = (case pz_admin s of None \<Rightarrow> Inl PanicTrap | Some a \<Rightarrow> Inr a)"

definition require_not_paused :: "pausable_state \<Rightarrow> pausable_error trap + unit" where
  "require_not_paused s = (if unwrap_or (pz_paused s) False then Inl (ContractError ContractPaused) else Inr ())"

definition publish :: "pausable_event \<Rightarrow> pausable_state \<Rightarrow> pausable_state" where
  "publish ev s = s\<lparr>pz_events := pz_events s @ [ev]\<rparr>"

definition initialize :: "env \<Rightarrow> address \<Rightarrow> pausable_state
    \<Rightarrow> (pausable_state, pausable_error, unit) outcome" where
  "initialize e admin s =
    (if pz_admin s \<noteq> None then Inl PanicTrap else
     if \<not> env_auth e admin then Inl AuthTrap else
     Inr ((), publish (Initialized admin) (s\<lparr>pz_admin := Some admin, pz_paused := Some False\<rparr>)))"

definition pause :: "env \<Rightarrow> address \<Rightarrow> pausable_state
    \<Rightarrow> (pausable_state, pausable_error, unit) outcome" where
  "pause e caller s =
    (if \<not> env_auth e caller then Inl AuthTrap else
     case require_admin caller s of Inl t \<Rightarrow> Inl t | Inr _ \<Rightarrow>
     if unwrap_or (pz_paused s) False then Inl (ContractError ContractPaused) else
     Inr ((), publish (Paused caller) (s\<lparr>pz_paused := Some True\<rparr>)))"

definition unpause :: "env \<Rightarrow> address \<Rightarrow> pausable_state
    \<Rightarrow> (pausable_state, pausable_error, unit) outcome" where
  "unpause e caller s =
    (if \<not> env_auth e caller then Inl AuthTrap else
     case require_admin caller s of Inl t \<Rightarrow> Inl t | Inr _ \<Rightarrow>
     if \<not> unwrap_or (pz_paused s) False then Inl (ContractError ContractNotPaused) else
     Inr ((), publish (Unpaused caller) (s\<lparr>pz_paused := Some False\<rparr>)))"

definition set_admin :: "env \<Rightarrow> address \<Rightarrow> address \<Rightarrow> pausable_state
    \<Rightarrow> (pausable_state, pausable_error, unit) outcome" where
  "set_admin e current_admin new_admin s =
    (if \<not> env_auth e current_admin then Inl AuthTrap else
     case require_admin current_admin s of Inl t \<Rightarrow> Inl t | Inr _ \<Rightarrow>
     Inr ((), publish (AdminChanged current_admin new_admin) (s\<lparr>pz_admin := Some new_admin\<rparr>)))"

datatype pausable_call =
    CInitialize address
  | CPause address
  | CUnpause address
  | CSetAdmin address address

fun pausable_exec :: "env \<times> pausable_call \<Rightarrow> pausable_state \<Rightarrow> pausable_error trap + pausable_state" where
  "pausable_exec (e, CInitialize a) s = final (initialize e a s)"
| "pausable_exec (e, CPause a) s = final (pause e a s)"
| "pausable_exec (e, CUnpause a) s = final (unpause e a s)"
| "pausable_exec (e, CSetAdmin a b) s = final (set_admin e a b s)"

section \<open>The admin gate\<close>

lemma pausable_require_admin_Inr: "require_admin a s = Inr x \<longleftrightarrow> pz_admin s = Some a"
  by (auto simp: require_admin_def split: option.splits)

interpretation pause_gate: admin_gated pz_admin pause
  by unfold_locales (auto simp: pause_def pausable_require_admin_Inr split: if_splits sum.splits)

interpretation unpause_gate: admin_gated pz_admin unpause
  by unfold_locales (auto simp: unpause_def pausable_require_admin_Inr split: if_splits sum.splits)

interpretation set_admin_gate: admin_gated pz_admin "\<lambda>e a. set_admin e a b" for b
  by unfold_locales (auto simp: set_admin_def pausable_require_admin_Inr split: if_splits sum.splits)

lemmas pausable_gates = pause_gate.gate unpause_gate.gate set_admin_gate.gate

section \<open>The log and the switch\<close>

text \<open>The abstract view: the switch is what the published events say, with \<open>Paused\<close> and \<open>Unpaused\<close>
  alternating, and the admin is the last one announced.\<close>

fun replay_paused :: "pausable_event list \<Rightarrow> bool \<Rightarrow> bool option" where
  "replay_paused [] b = Some b"
| "replay_paused (Paused _ # es) b = (if b then None else replay_paused es True)"
| "replay_paused (Unpaused _ # es) b = (if b then replay_paused es False else None)"
| "replay_paused (_ # es) b = replay_paused es b"

fun announced_admin :: "pausable_event list \<Rightarrow> address option \<Rightarrow> address option" where
  "announced_admin [] a = a"
| "announced_admin (Initialized b # es) a = announced_admin es (Some b)"
| "announced_admin (AdminChanged _ b # es) a = announced_admin es (Some b)"
| "announced_admin (_ # es) a = announced_admin es a"

lemma replay_paused_append:
  "replay_paused (es @ fs) b = (case replay_paused es b of None \<Rightarrow> None | Some c \<Rightarrow> replay_paused fs c)"
  by (induction es b rule: replay_paused.induct) auto

lemma announced_admin_append: "announced_admin (es @ fs) a = announced_admin fs (announced_admin es a)"
  by (induction es a rule: announced_admin.induct) auto

text \<open>Who signs an event: the admin at that moment, or the first admin.\<close>

fun signed_by_admin :: "pausable_event list \<Rightarrow> address option \<Rightarrow> bool" where
  "signed_by_admin [] a = True"
| "signed_by_admin (Initialized b # es) a = (a = None \<and> signed_by_admin es (Some b))"
| "signed_by_admin (AdminChanged c b # es) a = (a = Some c \<and> signed_by_admin es (Some b))"
| "signed_by_admin (Paused c # es) a = (a = Some c \<and> signed_by_admin es a)"
| "signed_by_admin (Unpaused c # es) a = (a = Some c \<and> signed_by_admin es a)"

lemma signed_by_admin_append:
  "signed_by_admin (es @ fs) a \<longleftrightarrow> signed_by_admin es a \<and> signed_by_admin fs (announced_admin es a)"
  by (induction es a rule: signed_by_admin.induct) auto

definition log_agrees :: "pausable_state \<Rightarrow> bool" where
  "log_agrees s \<longleftrightarrow> replay_paused (pz_events s) False = Some (is_paused s)
     \<and> announced_admin (pz_events s) None = pz_admin s \<and> signed_by_admin (pz_events s) None
     \<and> (pz_admin s = None \<longrightarrow> pz_paused s = None)"

lemma pausable_calls_Inr:
  "initialize e a s = Inr (x, s') \<longleftrightarrow> pz_admin s = None \<and> env_auth e a
     \<and> s' = publish (Initialized a) (s\<lparr>pz_admin := Some a, pz_paused := Some False\<rparr>)"
  "pause e a s = Inr (x, s') \<longleftrightarrow> env_auth e a \<and> pz_admin s = Some a \<and> \<not> is_paused s
     \<and> s' = publish (Paused a) (s\<lparr>pz_paused := Some True\<rparr>)"
  "unpause e a s = Inr (x, s') \<longleftrightarrow> env_auth e a \<and> pz_admin s = Some a \<and> is_paused s
     \<and> s' = publish (Unpaused a) (s\<lparr>pz_paused := Some False\<rparr>)"
  "set_admin e a b s = Inr (x, s') \<longleftrightarrow> env_auth e a \<and> pz_admin s = Some a
     \<and> s' = publish (AdminChanged a b) (s\<lparr>pz_admin := Some b\<rparr>)"
  by (auto simp: initialize_def pause_def unpause_def set_admin_def is_paused_def pausable_require_admin_Inr
      require_admin_def split: if_splits sum.splits option.splits)

lemma pausable_exec_log:
  "log_agrees s \<Longrightarrow> pausable_exec c s = Inr s' \<Longrightarrow> log_agrees s'"
  by (cases c; cases "snd c")
     (auto simp: pausable_calls_Inr log_agrees_def publish_def is_paused_def replay_paused_append
       announced_admin_append signed_by_admin_append)

interpretation pausable_machine: contract_invariant pausable_exec log_agrees "\<lambda>_. True"
  by unfold_locales (rule pausable_exec_log)

section \<open>Properties\<close>

text \<open>The switch, its log and its owner agree.  After any calls on a fresh contract, replaying the
  published events gives the pause flag that \<open>require_not_paused\<close> enforces, with pauses and unpauses
  alternating; each event was published by the admin the earlier events had announced.\<close>

theorem pausable_log_faithful:
  "replay_paused (pz_events (run pausable_exec cs pausable_fresh)) False
     = Some (require_not_paused (run pausable_exec cs pausable_fresh) \<noteq> Inr ())
   \<and> announced_admin (pz_events (run pausable_exec cs pausable_fresh)) None
     = pz_admin (run pausable_exec cs pausable_fresh)
   \<and> signed_by_admin (pz_events (run pausable_exec cs pausable_fresh)) None"
proof -
  have "log_agrees (run pausable_exec cs pausable_fresh)"
    by (rule pausable_machine.run_inv) (simp_all add: log_agrees_def pausable_fresh_def is_paused_def)
  then show ?thesis by (simp add: log_agrees_def require_not_paused_def is_paused_def)
qed

end
