(* ===== verification/Goal_Prereqs.thy ===== *)
theory Goal_Prereqs
  imports Host
begin

text \<open>
  The prerequisite graph of \<open>contracts/savings-goals/src/lib.rs\<close>: \<open>has_dependency_path\<close>, the depth-first
  search over the stored lists \<open>GoalPrereqs(goal)\<close>, and why the check that \<open>set_goal_prerequisites\<close> makes
  with it keeps the graph free of cycles.

  The search is a \<open>while\<close> loop, so it is a partial function here; \<open>dfs_terminates\<close> shows that it returns
  on every finite graph, and \<open>has_dependency_path_iff\<close> that it decides reachability.
\<close>

section \<open>The search\<close>

type_synonym prereq_graph = "nat \<rightharpoonup> nat list"

definition neighbours :: "prereq_graph \<Rightarrow> nat \<Rightarrow> nat list" where
  "neighbours g node = unwrap_or (g node) []"

text \<open>The stack is a vector whose last element is popped first.\<close>

partial_function (option) dfs :: "prereq_graph \<Rightarrow> nat \<Rightarrow> nat list \<Rightarrow> nat list \<Rightarrow> bool option" where
  "dfs g target stack visited =
    (if stack = [] then Some False else
     let node = last stack; stack1 = butlast stack in
     if node = target then Some True else
     if node \<in> set visited then dfs g target stack1 visited else
     let visited1 = visited @ [node];
         stack2 = stack1 @ filter (\<lambda>n. n \<notin> set visited1) (neighbours g node)
     in dfs g target stack2 visited1)"

definition has_dependency_path :: "prereq_graph \<Rightarrow> nat \<Rightarrow> nat \<Rightarrow> bool option" where
  "has_dependency_path g start target = dfs g target [start] []"

lemma dfs_simps [simp]:
  "dfs g target [] visited = Some False"
  "dfs g target (stack @ [target]) visited = Some True"
  "node \<noteq> target \<Longrightarrow> node \<in> set visited \<Longrightarrow>
     dfs g target (stack @ [node]) visited = dfs g target stack visited"
  "node \<noteq> target \<Longrightarrow> node \<notin> set visited \<Longrightarrow>
     dfs g target (stack @ [node]) visited
     = dfs g target (stack @ filter (\<lambda>n. n \<notin> set (visited @ [node])) (neighbours g node)) (visited @ [node])"
  by (subst dfs.simps; simp add: Let_def)+

section \<open>Edges and paths\<close>

definition edges :: "prereq_graph \<Rightarrow> (nat \<times> nat) set" where
  "edges g = {(a, b). b \<in> set (neighbours g a)}"

lemma edges_iff: "(a, b) \<in> edges g \<longleftrightarrow> b \<in> set (neighbours g a)"
  by (simp add: edges_def)

lemma edges_update:
  "edges (g(a \<mapsto> ps)) = {(x, y) \<in> edges g. x \<noteq> a} \<union> {a} \<times> set ps"
  by (auto simp: edges_def neighbours_def split: if_splits)

lemma finite_edges: "finite (dom g) \<Longrightarrow> finite (edges g)"
proof -
  assume fin: "finite (dom g)"
  have "edges g \<subseteq> (\<Union>a\<in>dom g. {a} \<times> set (the (g a)))"
  proof
    fix x assume "x \<in> edges g"
    then obtain a b where x: "x = (a, b)" "b \<in> set (neighbours g a)" by (auto simp: edges_def)
    then show "x \<in> (\<Union>a\<in>dom g. {a} \<times> set (the (g a)))"
      by (cases "g a") (auto simp: neighbours_def dom_def intro!: bexI [of _ a])
  qed
  then show ?thesis by (rule finite_subset) (use fin in auto)
qed

section \<open>The search decides reachability\<close>

text \<open>A path from an expanded node to a node not expanded leaves the expanded part through the stack.\<close>

lemma path_leaves:
  assumes "(v, target) \<in> (edges g)\<^sup>*" and "v \<in> V" and "target \<notin> V"
    and closed: "\<And>a b. a \<in> V \<Longrightarrow> (a, b) \<in> edges g \<Longrightarrow> b \<in> V \<union> S"
  shows "\<exists>a \<in> S. (a, target) \<in> (edges g)\<^sup>*"
  using assms(1,2)
proof (induction rule: converse_rtrancl_induct)
  case base
  then show ?case using assms(3) by simp
next
  case (step y z)
  from closed [OF step.prems step.hyps(1)] step show ?case by auto
qed

text \<open>Every pushed node is a start node or the target of an edge, and the search expands each node once:
  the pair of the number of nodes not yet expanded and the length of the stack decreases
  lexicographically.  So the search returns, and it finds the target exactly when the stack can reach
  it.\<close>

lemma dfs_correct_on:
  assumes fin: "finite U" and closed: "\<And>a b. a \<in> U \<Longrightarrow> (a, b) \<in> edges g \<Longrightarrow> b \<in> U"
  shows "set stack \<subseteq> U \<Longrightarrow> target \<notin> set visited
    \<Longrightarrow> (\<And>a b. a \<in> set visited \<Longrightarrow> (a, b) \<in> edges g \<Longrightarrow> b \<in> set visited \<union> set stack)
    \<Longrightarrow> dfs g target stack visited = Some (\<exists>a \<in> set stack. (a, target) \<in> (edges g)\<^sup>*)"
proof (induction "(card (U - set visited), length stack)" arbitrary: stack visited
    rule: wf_induct_rule [OF wf_lex_prod [OF wf_less_than wf_less_than]])
  case (1 stack visited)
  show ?case
  proof (cases stack rule: rev_cases)
    case (snoc stack1 node)
    from snoc "1.prems"(1) have node: "node \<in> U" and sub: "set stack1 \<subseteq> U" by auto
    consider "node = target" | "node \<noteq> target" "node \<in> set visited"
      | "node \<noteq> target" "node \<notin> set visited" by blast
    then show ?thesis
    proof cases
      case 1
      with snoc show ?thesis by auto
    next
      case 2
      have inv: "b \<in> set visited \<union> set stack1" if "a \<in> set visited" "(a, b) \<in> edges g" for a b
        using "1.prems"(3) [OF that] snoc 2 by auto
      have "dfs g target stack1 visited = Some (\<exists>a \<in> set stack1. (a, target) \<in> (edges g)\<^sup>*)"
        by (rule "1.hyps") (use snoc sub "1.prems"(2) inv in auto)
      moreover have "(\<exists>a \<in> set stack. (a, target) \<in> (edges g)\<^sup>*) \<longleftrightarrow> (\<exists>a \<in> set stack1. (a, target) \<in> (edges g)\<^sup>*)"
        using path_leaves [of node target g "set visited" "set stack1"] 2(2) "1.prems"(2) inv snoc by auto
      ultimately show ?thesis using snoc 2 by simp
    next
      case 3
      let ?v = "visited @ [node]"
      let ?s = "stack1 @ filter (\<lambda>n. n \<notin> set ?v) (neighbours g node)"
      have inv: "b \<in> set ?v \<union> set ?s" if "a \<in> set ?v" "(a, b) \<in> edges g" for a b
        using "1.prems"(3) [of a b] that snoc by (cases "a = node") (auto simp: edges_iff)
      have "card (U - set ?v) < card (U - set visited)"
        by (rule psubset_card_mono) (use fin node 3 in auto)
      moreover have "set ?s \<subseteq> U" using sub closed [OF node] by (auto simp: edges_iff)
      ultimately have "dfs g target ?s ?v = Some (\<exists>a \<in> set ?s. (a, target) \<in> (edges g)\<^sup>*)"
        using "1.prems"(2) 3 inv by (intro "1.hyps") auto
      moreover have "(\<exists>a \<in> set stack. (a, target) \<in> (edges g)\<^sup>*) \<longleftrightarrow> (\<exists>a \<in> set ?s. (a, target) \<in> (edges g)\<^sup>*)"
      proof
        assume "\<exists>a \<in> set stack. (a, target) \<in> (edges g)\<^sup>*"
        then consider "(node, target) \<in> (edges g)\<^sup>*" | "\<exists>a \<in> set stack1. (a, target) \<in> (edges g)\<^sup>*"
          using snoc by auto
        then show "\<exists>a \<in> set ?s. (a, target) \<in> (edges g)\<^sup>*"
        proof cases
          case 1
          show ?thesis
            by (rule path_leaves [OF 1, of "set ?v"]) (use "1.prems"(2) 3 inv in auto)
        qed auto
      next
        assume "\<exists>a \<in> set ?s. (a, target) \<in> (edges g)\<^sup>*"
        then show "\<exists>a \<in> set stack. (a, target) \<in> (edges g)\<^sup>*"
          using snoc by (auto simp: edges_iff [symmetric] intro: converse_rtrancl_into_rtrancl)
      qed
      ultimately show ?thesis using snoc 3 by simp
    qed
  qed simp
qed

lemma has_dependency_path_iff:
  assumes "finite (dom g)"
  shows "has_dependency_path g start target = Some ((start, target) \<in> (edges g)\<^sup>*)"
proof -
  have "dfs g target [start] [] = Some (\<exists>a \<in> set [start]. (a, target) \<in> (edges g)\<^sup>*)"
  proof (rule dfs_correct_on)
    show "finite (insert start (snd ` edges g))" using finite_edges [OF assms] by simp
    show "\<And>a b. a \<in> insert start (snd ` edges g) \<Longrightarrow> (a, b) \<in> edges g \<Longrightarrow> b \<in> insert start (snd ` edges g)"
      by force
  qed auto
  then show ?thesis by (simp add: has_dependency_path_def)
qed

section \<open>Acyclic graphs\<close>

text \<open>Replacing the edges of one node keeps the graph acyclic when no new neighbour is the node itself or
  reaches it in the old graph.\<close>

lemma path_before_edges:
  "(x, a) \<in> (R \<union> {a} \<times> Q)\<^sup>* \<Longrightarrow> (x, a) \<in> R\<^sup>*"
proof (induction rule: converse_rtrancl_induct)
  case (step y z)
  then show ?case by (cases "y = a") (auto intro: converse_rtrancl_into_rtrancl)
qed simp

lemma acyclic_add_edges:
  "finite Q \<Longrightarrow> acyclic R \<Longrightarrow> (\<And>p. p \<in> Q \<Longrightarrow> (p, a) \<notin> R\<^sup>*) \<Longrightarrow> acyclic (R \<union> {a} \<times> Q)"
proof (induction rule: finite_induct)
  case (insert p Q)
  have "(p, a) \<notin> (R \<union> {a} \<times> Q)\<^sup>*"
    using insert.prems(2) [of p] by (auto dest: path_before_edges)
  moreover have "R \<union> {a} \<times> insert p Q = insert (a, p) (R \<union> {a} \<times> Q)" by auto
  ultimately show ?case using insert by (simp add: acyclic_insert)
qed simp

lemma acyclic_update:
  assumes "acyclic (edges g)" and "\<And>p. p \<in> set ps \<Longrightarrow> (p, a) \<notin> (edges g)\<^sup>*"
  shows "acyclic (edges (g(a \<mapsto> ps)))"
proof -
  let ?R = "{(x, y) \<in> edges g. x \<noteq> a}"
  have sub: "?R \<subseteq> edges g" by auto
  show ?thesis
    unfolding edges_update
  proof (rule acyclic_add_edges)
    show "acyclic ?R" using assms(1) sub by (rule acyclic_subset)
    show "(p, a) \<notin> ?R\<^sup>*" if "p \<in> set ps" for p
      using assms(2) [OF that] rtrancl_mono [OF sub] by blast
  qed simp
qed

end
