(* ===== verification/Savings_Goals.thy ===== *)
theory Savings_Goals
  imports Goal_Prereqs Shared
begin

text \<open>
  \<open>contracts/savings-goals/src\<close>: savings goals with contributions, milestones, certificates, withdrawals,
  reversals, merging, deadline alerts and prerequisites (\<open>lib.rs\<close>, \<open>types.rs\<close>, \<open>validation.rs\<close>).
  The contract only keeps books; it moves no tokens.

  The counters of a batch are bounded by the batch size, so their \<open>u32\<close> additions are plain here.
  Every other addition is checked.
\<close>

section \<open>Data (types.rs)\<close>

definition MAX_BATCH_SIZE :: nat where "MAX_BATCH_SIZE = 100"
definition MIN_GOAL_AMOUNT :: int where "MIN_GOAL_AMOUNT = 10000000"
definition MAX_GOAL_AMOUNT :: int where "MAX_GOAL_AMOUNT = 1000000000000000000"
definition REVERSAL_PERIOD_SECS :: nat where "REVERSAL_PERIOD_SECS = 86400"

lemmas goal_consts = MAX_BATCH_SIZE_def MIN_GOAL_AMOUNT_def MAX_GOAL_AMOUNT_def REVERSAL_PERIOD_SECS_def

record goal_request =
  gr_user :: address
  gr_name :: symbol
  gr_target :: int
  gr_deadline :: nat
  gr_initial :: int
  gr_priority :: nat
  gr_lock_seconds :: nat
  gr_penalty_bps :: nat
  gr_expiration_seconds :: nat

record goal_certificate =
  gc_goal :: nat
  gc_user :: address
  gc_target :: int
  gc_issued_at :: nat

record savings_goal =
  sg_id :: nat
  sg_user :: address
  sg_name :: symbol
  sg_target :: int
  sg_current :: int
  sg_deadline :: nat
  sg_created_at :: nat
  sg_active :: bool
  sg_complete :: bool
  sg_priority :: nat
  sg_unlock_at :: nat
  sg_expires_at :: nat
  sg_penalty_bps :: nat

record goal_progress =
  gp_goal :: nat
  gp_current :: int
  gp_target :: int
  gp_percentage :: nat
  gp_complete :: bool

record goal_snapshot =
  gs_goal :: nat
  gs_amount :: int
  gs_timestamp :: nat

datatype goal_result = GoalSuccess savings_goal | GoalFailure address nat

record batch_goal_metrics =
  bg_total_requests :: nat
  bg_successful :: nat
  bg_failed :: nat
  bg_total_target :: int
  bg_total_initial :: int
  bg_avg_amount :: int
  bg_processed_at :: nat

record batch_goal_result =
  br_batch_id :: nat
  br_total_requests :: nat
  br_successful :: nat
  br_failed :: nat
  br_results :: "goal_result list"
  br_metrics :: batch_goal_metrics

record milestone_request =
  mq_goal :: nat
  mq_user :: address
  mq_percentage :: nat
  mq_achieved_at :: nat

record milestone_achievement =
  ma_id :: nat
  ma_goal :: nat
  ma_user :: address
  ma_percentage :: nat
  ma_amount :: int
  ma_achieved_at :: nat

datatype milestone_result = MilestoneSuccess milestone_achievement | MilestoneFailure nat nat

record batch_milestone_metrics =
  bt_total_requests :: nat
  bt_successful :: nat
  bt_failed :: nat
  bt_total_points :: nat
  bt_avg_percentage :: nat
  bt_processed_at :: nat

record batch_milestone_result =
  bs_batch_id :: nat
  bs_total_requests :: nat
  bs_successful :: nat
  bs_failed :: nat
  bs_results :: "milestone_result list"
  bs_metrics :: batch_milestone_metrics

type_synonym bytes = "nat list"

record contribution_record =
  cr_amount :: int
  cr_contributed_at :: nat
  cr_token :: bytes
  cr_reversed :: bool

datatype goals_error =
    NotInitialized | Unauthorized | InvalidBatch | EmptyBatch | BatchTooLarge | GoalClosedError
  | InsufficientBalance | GoalNotActive | InvalidGoalName | InvalidAmount | GoalNotFound | GoalLocked
  | GoalExpired | DependencyNotMet | ReversalExpired | ContributionNotFound | InvalidAlertThreshold
  | DuplicateContributionRequest

text \<open>The error codes a batch reports in its results (\<open>mod ErrorCode\<close>), as far as they are used.\<close>

definition INVALID_AMOUNT :: nat where "INVALID_AMOUNT = 0"
definition INVALID_DEADLINE :: nat where "INVALID_DEADLINE = 1"
definition INVALID_INITIAL_CONTRIBUTION :: nat where "INVALID_INITIAL_CONTRIBUTION = 2"
definition INVALID_USER_ADDRESS :: nat where "INVALID_USER_ADDRESS = 4"
definition GOAL_NOT_FOUND :: nat where "GOAL_NOT_FOUND = 5"
definition INVALID_MILESTONE_PERCENTAGE :: nat where "INVALID_MILESTONE_PERCENTAGE = 6"
definition UNAUTHORIZED_USER :: nat where "UNAUTHORIZED_USER = 8"
definition MILESTONE_ALREADY_ACHIEVED :: nat where "MILESTONE_ALREADY_ACHIEVED = 9"
definition MILESTONE_NOT_YET_ACHIEVED :: nat where "MILESTONE_NOT_YET_ACHIEVED = 10"
definition DUPLICATE_GOAL_NAME :: nat where "DUPLICATE_GOAL_NAME = 11"

datatype goal_event =
    BatchStarted nat nat
  | GoalCreated nat nat address int
  | GoalCreationFailed nat address nat
  | BatchCompleted nat nat nat int
  | HighValueGoal nat nat int
  | MilestoneAchievedPercent nat nat
  | GoalContributed nat address int int
  | GoalWithdrawn nat address int int
  | GoalClosed nat address int nat
  | GoalCompleted nat address int
  | PartialWithdrawal nat address int int
  | GoalRenamed nat symbol symbol
  | SnapshotRecorded nat int nat
  | AlertThresholdsUpdated nat address nat
  | DeadlineAlert nat address nat nat int
  | GoalsMerged nat nat int

text \<open>One field per storage key of \<open>DataKey\<close>.\<close>

record goals_state =
  gl_admin :: "address option"
  gl_last_batch :: "nat option"
  gl_last_goal :: "nat option"
  gl_goal :: "nat \<rightharpoonup> savings_goal"
  gl_user_goals :: "address \<rightharpoonup> nat list"
  gl_total_goals :: "nat option"
  gl_total_batches :: "nat option"
  gl_last_milestone :: "nat option"
  gl_milestone :: "nat \<rightharpoonup> milestone_achievement"
  gl_goal_milestones :: "nat \<rightharpoonup> nat list"
  gl_percents :: "nat \<rightharpoonup> nat list"
  gl_prereqs :: prereq_graph
  gl_total_milestones :: "nat option"
  gl_closed_at :: "nat \<rightharpoonup> nat"
  gl_by_name :: "address \<times> symbol \<rightharpoonup> nat"
  gl_snapshots :: "nat \<rightharpoonup> goal_snapshot list"
  gl_contribution :: "nat \<times> nat \<rightharpoonup> contribution_record"
  gl_last_contrib :: "nat \<rightharpoonup> nat"
  gl_idempotency :: "address \<times> nat \<times> bytes \<rightharpoonup> nat"
  gl_default_alerts :: "nat list option"
  gl_alerts :: "nat \<rightharpoonup> nat list"
  gl_alert_sent :: "nat \<times> nat \<rightharpoonup> bool"
  gl_certificate :: "nat \<rightharpoonup> goal_certificate"
  gl_events :: "goal_event list"

definition goals_fresh :: goals_state where
  "goals_fresh = \<lparr>gl_admin = None, gl_last_batch = None, gl_last_goal = None, gl_goal = Map.empty,
     gl_user_goals = Map.empty, gl_total_goals = None, gl_total_batches = None, gl_last_milestone = None,
     gl_milestone = Map.empty, gl_goal_milestones = Map.empty, gl_percents = Map.empty,
     gl_prereqs = Map.empty, gl_total_milestones = None, gl_closed_at = Map.empty, gl_by_name = Map.empty,
     gl_snapshots = Map.empty, gl_contribution = Map.empty, gl_last_contrib = Map.empty,
     gl_idempotency = Map.empty, gl_default_alerts = None, gl_alerts = Map.empty,
     gl_alert_sent = Map.empty, gl_certificate = Map.empty, gl_events = []\<rparr>"

definition emit :: "goal_event \<Rightarrow> goals_state \<Rightarrow> goals_state" where
  "emit ev s = s\<lparr>gl_events := gl_events s @ [ev]\<rparr>"

definition put_goal :: "nat \<Rightarrow> savings_goal \<Rightarrow> goals_state \<Rightarrow> goals_state" where
  "put_goal i g s = s\<lparr>gl_goal := (gl_goal s)(i \<mapsto> g)\<rparr>"

section \<open>Validation (validation.rs)\<close>

definition validate_goal_name_unique :: "goals_state \<Rightarrow> address \<Rightarrow> symbol \<Rightarrow> nat + unit" where
  "validate_goal_name_unique s user name =
    (if gl_by_name s (user, name) \<noteq> None then Inl DUPLICATE_GOAL_NAME else Inr ())"

definition is_valid_address :: "address \<Rightarrow> bool" where
  "is_valid_address a = True"

definition is_valid_amount :: "int \<Rightarrow> bool" where
  "is_valid_amount amount \<longleftrightarrow> MIN_GOAL_AMOUNT \<le> amount \<and> amount \<le> MAX_GOAL_AMOUNT"

definition is_valid_deadline :: "env \<Rightarrow> nat \<Rightarrow> bool" where
  "is_valid_deadline e deadline =
    (let current_ledger = env_sequence e in
     if deadline \<le> current_ledger then False else
     if u64_saturating_add current_ledger 31536000 < deadline then False else True)"

definition is_valid_initial_contribution :: "int \<Rightarrow> int \<Rightarrow> bool" where
  "is_valid_initial_contribution initial target =
    (if initial < 0 then False else if target < initial then False else True)"

definition validate_goal_request :: "env \<Rightarrow> goal_request \<Rightarrow> nat + unit" where
  "validate_goal_request e rq =
    (if \<not> is_valid_address (gr_user rq) then Inl INVALID_USER_ADDRESS else
     if \<not> is_valid_amount (gr_target rq) then Inl INVALID_AMOUNT else
     if \<not> is_valid_deadline e (gr_deadline rq) then Inl INVALID_DEADLINE else
     if \<not> is_valid_initial_contribution (gr_initial rq) (gr_target rq) then Inl INVALID_INITIAL_CONTRIBUTION
     else Inr ())"

section \<open>Administration\<close>

definition default_deadline_alert_thresholds :: "nat list" where
  "default_deadline_alert_thresholds = [100, 25, 5]"

fun normalize_loop :: "nat list \<Rightarrow> nat list \<Rightarrow> nat list" where
  "normalize_loop [] normalized = normalized"
| "normalize_loop (t # ts) normalized =
     normalize_loop ts (if 0 < t \<and> t \<notin> set normalized then normalized @ [t] else normalized)"

definition normalize_deadline_alert_thresholds :: "nat list \<Rightarrow> nat list" where
  "normalize_deadline_alert_thresholds thresholds = normalize_loop thresholds []"

definition require_admin :: "address \<Rightarrow> goals_state \<Rightarrow> goals_error trap + unit" where
  "require_admin caller s =
    (case gl_admin s of None \<Rightarrow> Inl PanicTrap | Some admin \<Rightarrow>
     if caller \<noteq> admin then Inl (ContractError Unauthorized) else Inr ())"

definition initialize :: "address \<Rightarrow> goals_state \<Rightarrow> (goals_state, goals_error, unit) outcome" where
  "initialize admin s =
    (if gl_admin s \<noteq> None then Inl PanicTrap else
     Inr ((), s\<lparr>gl_admin := Some admin, gl_last_batch := Some 0, gl_last_goal := Some 0,
                gl_total_goals := Some 0, gl_total_batches := Some 0,
                gl_default_alerts := Some default_deadline_alert_thresholds\<rparr>))"

definition get_admin :: "goals_state \<Rightarrow> goals_error trap + address" where
  "get_admin s = (case gl_admin s of None \<Rightarrow> Inl PanicTrap | Some a \<Rightarrow> Inr a)"

definition set_admin :: "env \<Rightarrow> address \<Rightarrow> address \<Rightarrow> goals_state
    \<Rightarrow> (goals_state, goals_error, unit) outcome" where
  "set_admin e current_admin new_admin s =
    (if \<not> env_auth e current_admin then Inl AuthTrap else
     case require_admin current_admin s of Inl t \<Rightarrow> Inl t | Inr _ \<Rightarrow>
     Inr ((), s\<lparr>gl_admin := Some new_admin\<rparr>))"

section \<open>Milestones\<close>

text \<open>\<open>(goal.current_amount * 100 / goal.target_amount) as u32\<close>: the product is checked, the cast keeps
  the low 32 bits.\<close>

definition progress_of :: "savings_goal \<Rightarrow> nat option" where
  "progress_of g =
    (if 0 < sg_target g
     then map_option (\<lambda>x. as_u32 (quot x (sg_target g))) (checked_mul (sg_current g) 100)
     else Some 0)"

fun milestone_loop :: "nat \<Rightarrow> nat \<Rightarrow> nat list \<Rightarrow> nat list \<times> bool \<times> goals_state \<Rightarrow> nat list \<times> bool \<times> goals_state" where
  "milestone_loop goal_id progress [] acc = acc"
| "milestone_loop goal_id progress (m # ms) (triggered, newly_100, s) =
     milestone_loop goal_id progress ms
       (if m \<le> progress \<and> m \<notin> set triggered
        then (triggered @ [m], newly_100 \<or> m = 100, emit (MilestoneAchievedPercent goal_id m) s)
        else (triggered, newly_100, s))"

definition check_and_emit_milestones :: "env \<Rightarrow> nat \<Rightarrow> goals_state \<Rightarrow> goals_error trap + goals_state" where
  "check_and_emit_milestones e goal_id s =
    (case gl_goal s goal_id of None \<Rightarrow> Inr s | Some goal \<Rightarrow>
     case progress_of goal of None \<Rightarrow> Inl ArithTrap | Some p \<Rightarrow>
     let triggered = unwrap_or (gl_percents s goal_id) [];
         progress = (if 100 < p then 100 else p);
         is_complete = (sg_target goal \<le> sg_current goal);
         goal1 = (if sg_complete goal \<noteq> is_complete then goal\<lparr>sg_complete := is_complete\<rparr> else goal);
         s1 = (if sg_complete goal \<noteq> is_complete
               then (if is_complete then emit (GoalCompleted goal_id (sg_user goal) (sg_target goal)) else id)
                      (put_goal goal_id goal1 s)
               else s);
         (triggered1, newly_100, s2) = milestone_loop goal_id progress [25, 50, 75, 100] (triggered, False, s1);
         s3 = s2\<lparr>gl_percents := (gl_percents s2)(goal_id \<mapsto> triggered1)\<rparr>;
         s4 = (if newly_100 \<and> sg_active goal1
               then emit (GoalClosed goal_id (sg_user goal1) (sg_current goal1) (env_sequence e))
                      ((put_goal goal_id (goal1\<lparr>sg_active := False\<rparr>) s3)
                        \<lparr>gl_closed_at := (gl_closed_at s3)(goal_id \<mapsto> env_sequence e)\<rparr>)
               else s3);
         s5 = (if newly_100 \<and> gl_certificate s4 goal_id = None
               then s4\<lparr>gl_certificate := (gl_certificate s4)(goal_id \<mapsto>
                      \<lparr>gc_goal = goal_id, gc_user = sg_user goal1, gc_target = sg_target goal1,
                       gc_issued_at = env_timestamp e\<rparr>)\<rparr>
               else s4)
     in Inr s5)"

subsection \<open>Marking milestones in a batch\<close>

record mark_loop =
  mk_state :: goals_state
  mk_results :: "milestone_result list"
  mk_ok :: nat
  mk_failed :: nat
  mk_points :: nat
  mk_last :: nat

definition mark_failure :: "nat \<Rightarrow> nat \<Rightarrow> mark_loop \<Rightarrow> mark_loop" where
  "mark_failure goal_id code u =
     u\<lparr>mk_results := mk_results u @ [MilestoneFailure goal_id code], mk_failed := mk_failed u + 1\<rparr>"

definition record_milestone :: "address \<Rightarrow> milestone_request \<Rightarrow> savings_goal \<Rightarrow> nat list \<Rightarrow> mark_loop
    \<Rightarrow> goals_error trap + mark_loop" where
  "record_milestone caller rq goal triggered u =
    (let s = mk_state u; i = mq_goal rq; p = mq_percentage rq;
         s1 = s\<lparr>gl_percents := (gl_percents s)(i \<mapsto> triggered @ [p])\<rparr>;
         s2 = emit (MilestoneAchievedPercent i p) s1 in
     case u64_add (mk_last u) 1 of None \<Rightarrow> Inl ArithTrap | Some milestone_id \<Rightarrow>
     let achievement = \<lparr>ma_id = milestone_id, ma_goal = i, ma_user = caller, ma_percentage = p,
                        ma_amount = sg_current goal, ma_achieved_at = mq_achieved_at rq\<rparr>;
         milestone_ids = unwrap_or (gl_goal_milestones s2 i) [] @ [milestone_id];
         s3 = s2\<lparr>gl_milestone := (gl_milestone s2)(milestone_id \<mapsto> achievement),
                 gl_goal_milestones := (gl_goal_milestones s2)(i \<mapsto> milestone_ids),
                 gl_last_milestone := Some milestone_id\<rparr> in
     case u64_add (unwrap_or (gl_total_milestones s3) 0) 1 of None \<Rightarrow> Inl ArithTrap | Some total_achieved \<Rightarrow>
     Inr (u\<lparr>mk_state := s3\<lparr>gl_total_milestones := Some total_achieved\<rparr>,
            mk_results := mk_results u @ [MilestoneSuccess achievement],
            mk_ok := mk_ok u + 1, mk_points := mk_points u + p, mk_last := milestone_id\<rparr>))"

definition mark_step :: "address \<Rightarrow> milestone_request \<Rightarrow> mark_loop \<Rightarrow> goals_error trap + mark_loop" where
  "mark_step caller rq u =
    (case gl_goal (mk_state u) (mq_goal rq) of
       None \<Rightarrow> Inr (mark_failure (mq_goal rq) GOAL_NOT_FOUND u)
     | Some goal \<Rightarrow>
       if sg_user goal \<noteq> caller then Inr (mark_failure (mq_goal rq) UNAUTHORIZED_USER u) else
       if mq_percentage rq \<notin> set [25, 50, 75, 100]
       then Inr (mark_failure (mq_goal rq) INVALID_MILESTONE_PERCENTAGE u) else
       let triggered = unwrap_or (gl_percents (mk_state u) (mq_goal rq)) [] in
       if mq_percentage rq \<in> set triggered
       then Inr (mark_failure (mq_goal rq) MILESTONE_ALREADY_ACHIEVED u) else
       case progress_of goal of None \<Rightarrow> Inl ArithTrap | Some progress \<Rightarrow>
       if progress < mq_percentage rq
       then Inr (mark_failure (mq_goal rq) MILESTONE_NOT_YET_ACHIEVED u) else
       record_milestone caller rq goal triggered u)"

definition batch_mark_milestones :: "env \<Rightarrow> address \<Rightarrow> milestone_request list \<Rightarrow> goals_state
    \<Rightarrow> (goals_state, goals_error, batch_milestone_result) outcome" where
  "batch_mark_milestones e caller requests s =
    (if \<not> env_auth e caller then Inl AuthTrap else
     case u64_add (unwrap_or (gl_last_batch s) 0) 1 of None \<Rightarrow> Inl ArithTrap | Some batch_id \<Rightarrow>
     let request_count = length requests in
     if request_count = 0 then Inl (ContractError EmptyBatch) else
     if MAX_BATCH_SIZE < request_count then Inl (ContractError BatchTooLarge) else
     case fold_trap (mark_step caller) requests
            \<lparr>mk_state = s, mk_results = [], mk_ok = 0, mk_failed = 0, mk_points = 0,
             mk_last = unwrap_or (gl_last_milestone s) 0\<rparr> of Inl t \<Rightarrow> Inl t | Inr u \<Rightarrow>
     let metrics = \<lparr>bt_total_requests = request_count, bt_successful = mk_ok u, bt_failed = mk_failed u,
                    bt_total_points = mk_points u,
                    bt_avg_percentage = (if 0 < mk_ok u then mk_points u div mk_ok u else 0),
                    bt_processed_at = env_sequence e\<rparr>
     in Inr (\<lparr>bs_batch_id = batch_id, bs_total_requests = request_count, bs_successful = mk_ok u,
              bs_failed = mk_failed u, bs_results = mk_results u, bs_metrics = metrics\<rparr>, mk_state u))"

section \<open>Creating goals\<close>

definition goal_of_request :: "nat \<Rightarrow> nat \<Rightarrow> goal_request \<Rightarrow> savings_goal" where
  "goal_of_request goal_id created_at rq =
     \<lparr>sg_id = goal_id, sg_user = gr_user rq, sg_name = gr_name rq, sg_target = gr_target rq,
      sg_current = gr_initial rq, sg_deadline = gr_deadline rq, sg_created_at = created_at,
      sg_active = True, sg_complete = False, sg_priority = gr_priority rq,
      sg_unlock_at = (if 0 < gr_lock_seconds rq then u64_saturating_add created_at (gr_lock_seconds rq) else 0),
      sg_expires_at = (if 0 < gr_expiration_seconds rq
                       then u64_saturating_add created_at (gr_expiration_seconds rq) else 0),
      sg_penalty_bps = gr_penalty_bps rq\<rparr>"

record create_loop =
  cl_state :: goals_state
  cl_results :: "goal_result list"
  cl_ok :: nat
  cl_failed :: nat
  cl_target :: int
  cl_initial :: int
  cl_counter :: nat

definition create_failure :: "nat \<Rightarrow> goal_request \<Rightarrow> nat \<Rightarrow> create_loop \<Rightarrow> create_loop" where
  "create_failure batch_id rq code u =
     u\<lparr>cl_failed := cl_failed u + 1,
       cl_state := emit (GoalCreationFailed batch_id (gr_user rq) code) (cl_state u),
       cl_results := cl_results u @ [GoalFailure (gr_user rq) code]\<rparr>"

definition create_step :: "env \<Rightarrow> nat \<Rightarrow> goal_request \<Rightarrow> create_loop \<Rightarrow> goals_error trap + create_loop" where
  "create_step e batch_id rq u =
    (case validate_goal_request e rq of Inl code \<Rightarrow> Inr (create_failure batch_id rq code u) | Inr _ \<Rightarrow>
     case validate_goal_name_unique (cl_state u) (gr_user rq) (gr_name rq) of
       Inl code \<Rightarrow> Inr (create_failure batch_id rq code u) | Inr _ \<Rightarrow>
     case u64_add (cl_counter u) 1 of None \<Rightarrow> Inl ArithTrap | Some goal_id \<Rightarrow>
     let goal = goal_of_request goal_id (env_timestamp e) rq;
         s = cl_state u;
         s1 = (put_goal goal_id goal s)\<lparr>gl_by_name := (gl_by_name s)((gr_user rq, gr_name rq) \<mapsto> goal_id)\<rparr> in
     case check_and_emit_milestones e goal_id s1 of Inl t \<Rightarrow> Inl t | Inr s2 \<Rightarrow>
     let goal1 = (if gr_target rq \<le> gr_initial rq then goal\<lparr>sg_complete := True\<rparr> else goal);
         user_goals = unwrap_or (gl_user_goals s2 (gr_user rq)) [] @ [goal_id];
         s3 = s2\<lparr>gl_user_goals := (gl_user_goals s2)(gr_user rq \<mapsto> user_goals)\<rparr>;
         s4 = emit (GoalCreated batch_id (sg_id goal1) (sg_user goal1) (sg_target goal1)) s3;
         s5 = (if 1000000000000 \<le> gr_target rq
               then emit (HighValueGoal batch_id goal_id (gr_target rq)) s4 else s4)
     in Inr (u\<lparr>cl_state := s5, cl_results := cl_results u @ [GoalSuccess goal1], cl_ok := cl_ok u + 1,
               cl_target := unwrap_or (checked_add (cl_target u) (gr_target rq)) i128_max,
               cl_initial := unwrap_or (checked_add (cl_initial u) (gr_initial rq)) i128_max,
               cl_counter := goal_id\<rparr>))"

definition batch_set_savings_goals :: "env \<Rightarrow> address \<Rightarrow> goal_request list \<Rightarrow> goals_state
    \<Rightarrow> (goals_state, goals_error, batch_goal_result) outcome" where
  "batch_set_savings_goals e caller requests s =
    (if \<not> env_auth e caller then Inl AuthTrap else
     case require_admin caller s of Inl t \<Rightarrow> Inl t | Inr _ \<Rightarrow>
     let request_count = length requests in
     if request_count = 0 then Inl (ContractError EmptyBatch) else
     if MAX_BATCH_SIZE < request_count then Inl (ContractError BatchTooLarge) else
     case u64_add (unwrap_or (gl_last_batch s) 0) 1 of None \<Rightarrow> Inl ArithTrap | Some batch_id \<Rightarrow>
     case fold_trap (create_step e batch_id) requests
            \<lparr>cl_state = emit (BatchStarted batch_id request_count) s, cl_results = [], cl_ok = 0,
             cl_failed = 0, cl_target = 0, cl_initial = 0, cl_counter = unwrap_or (gl_last_goal s) 0\<rparr>
       of Inl t \<Rightarrow> Inl t | Inr u \<Rightarrow>
     let avg = (if 0 < cl_ok u then quot (cl_target u) (int (cl_ok u)) else 0);
         metrics = \<lparr>bg_total_requests = request_count, bg_successful = cl_ok u, bg_failed = cl_failed u,
                    bg_total_target = cl_target u, bg_total_initial = cl_initial u, bg_avg_amount = avg,
                    bg_processed_at = env_sequence e\<rparr> in
     case u64_add (unwrap_or (gl_total_goals (cl_state u)) 0) (cl_ok u) of None \<Rightarrow> Inl ArithTrap | Some goals \<Rightarrow>
     case u64_add (unwrap_or (gl_total_batches (cl_state u)) 0) 1 of None \<Rightarrow> Inl ArithTrap | Some batches \<Rightarrow>
     let s1 = (cl_state u)\<lparr>gl_last_batch := Some batch_id, gl_last_goal := Some (cl_counter u),
                           gl_total_goals := Some goals, gl_total_batches := Some batches\<rparr>
     in Inr (\<lparr>br_batch_id = batch_id, br_total_requests = request_count, br_successful = cl_ok u,
              br_failed = cl_failed u, br_results = cl_results u, br_metrics = metrics\<rparr>,
             emit (BatchCompleted batch_id (cl_ok u) (cl_failed u) (cl_target u)) s1))"

definition inherited_duration :: "nat \<Rightarrow> nat \<Rightarrow> nat \<Rightarrow> nat" where
  "inherited_duration ends created_at now =
    (let duration = (if created_at < ends then ends - created_at else 0) in
     if 0 < duration then u64_saturating_add now duration else 0)"

definition cloned_goal :: "nat \<Rightarrow> nat \<Rightarrow> address \<Rightarrow> symbol \<Rightarrow> savings_goal \<Rightarrow> savings_goal" where
  "cloned_goal created_at new_id caller new_goal_name existing =
     \<lparr>sg_id = new_id, sg_user = caller, sg_name = new_goal_name,
      sg_target = sg_target existing, sg_current = 0, sg_deadline = sg_deadline existing,
      sg_created_at = created_at, sg_active = True, sg_complete = False,
      sg_priority = sg_priority existing,
      sg_unlock_at = inherited_duration (sg_unlock_at existing) (sg_created_at existing) created_at,
      sg_expires_at = inherited_duration (sg_expires_at existing) (sg_created_at existing) created_at,
      sg_penalty_bps = sg_penalty_bps existing\<rparr>"

definition clone_savings_goal :: "env \<Rightarrow> address \<Rightarrow> nat \<Rightarrow> symbol \<Rightarrow> goals_state
    \<Rightarrow> (goals_state, goals_error, nat) outcome" where
  "clone_savings_goal e caller goal_id new_goal_name s =
    (if \<not> env_auth e caller then Inl AuthTrap else
     case gl_goal s goal_id of None \<Rightarrow> Inl (ContractError GoalNotFound) | Some existing \<Rightarrow>
     if sg_user existing \<noteq> caller then Inl (ContractError Unauthorized) else
     case validate_goal_name_unique s caller new_goal_name of Inl _ \<Rightarrow> Inl (ContractError InvalidGoalName)
     | Inr _ \<Rightarrow>
     case u64_add (unwrap_or (gl_last_goal s) 0) 1 of None \<Rightarrow> Inl ArithTrap | Some new_id \<Rightarrow>
     let created_at = env_timestamp e;
         new_goal = cloned_goal created_at new_id caller new_goal_name existing;
         user_goals = unwrap_or (gl_user_goals s caller) [] @ [new_id];
         s1 = (put_goal new_id new_goal s)
                \<lparr>gl_by_name := (gl_by_name s)((caller, new_goal_name) \<mapsto> new_id),
                 gl_user_goals := (gl_user_goals s)(caller \<mapsto> user_goals),
                 gl_last_goal := Some new_id\<rparr> in
     case u64_add (unwrap_or (gl_total_goals s1) 0) 1 of None \<Rightarrow> Inl ArithTrap | Some goals \<Rightarrow>
     Inr (new_id, emit (GoalCreated 0 new_id caller (sg_target new_goal)) (s1\<lparr>gl_total_goals := Some goals\<rparr>)))"

section \<open>Contributions\<close>

fun check_prereqs :: "goals_state \<Rightarrow> nat list \<Rightarrow> goals_error trap + unit" where
  "check_prereqs s [] = Inr ()"
| "check_prereqs s (pid # pids) =
    (case gl_goal s pid of None \<Rightarrow> Inl (ContractError GoalNotFound) | Some pgoal \<Rightarrow>
     if \<not> sg_complete pgoal then Inl (ContractError DependencyNotMet) else check_prereqs s pids)"

text \<open>What a contribution does to the goal and which amount it records: capped at the target.\<close>

definition apply_contribution :: "int \<Rightarrow> savings_goal \<Rightarrow> int \<times> savings_goal" where
  "apply_contribution amount goal =
    (let new_amount = unwrap_or (checked_add (sg_current goal) amount) i128_max;
         actual = (if sg_target goal < new_amount then saturating_sub (sg_target goal) (sg_current goal) else amount);
         goal1 = goal\<lparr>sg_current := (if sg_target goal < new_amount then sg_target goal else new_amount)\<rparr>
     in (actual, goal1\<lparr>sg_complete := (sg_target goal1 \<le> sg_current goal1)\<rparr>))"

text \<open>An expired goal is marked inactive in storage before the panic, which rolls the mark back.\<close>

definition contribute_to_goal :: "env \<Rightarrow> address \<Rightarrow> nat \<Rightarrow> int \<Rightarrow> bytes \<Rightarrow> goals_state
    \<Rightarrow> (goals_state, goals_error, nat) outcome" where
  "contribute_to_goal e caller goal_id amount token s =
    (if \<not> env_auth e caller then Inl AuthTrap else
     if amount \<le> 0 then Inl (ContractError InvalidAmount) else
     if token = [] then Inl (ContractError DuplicateContributionRequest) else
     case gl_goal s goal_id of None \<Rightarrow> Inl (ContractError GoalNotFound) | Some goal \<Rightarrow>
     if sg_user goal \<noteq> caller then Inl (ContractError Unauthorized) else
     if gl_idempotency s (caller, goal_id, token) \<noteq> None
     then Inl (ContractError DuplicateContributionRequest) else
     let current_time = env_timestamp e in
     if 0 < sg_expires_at goal \<and> sg_expires_at goal \<le> current_time then Inl (ContractError GoalExpired) else
     if \<not> sg_active goal then Inl (ContractError GoalNotActive) else
     case check_prereqs s (unwrap_or (gl_prereqs s goal_id) []) of Inl t \<Rightarrow> Inl t | Inr _ \<Rightarrow>
     let (actual, goal1) = apply_contribution amount goal;
         s1 = put_goal goal_id goal1 s in
     case u64_add (unwrap_or (gl_last_contrib s1 goal_id) 0) 1 of None \<Rightarrow> Inl ArithTrap | Some contrib_id \<Rightarrow>
     let rec = \<lparr>cr_amount = actual, cr_contributed_at = current_time, cr_token = token, cr_reversed = False\<rparr>;
         s2 = s1\<lparr>gl_contribution := (gl_contribution s1)((goal_id, contrib_id) \<mapsto> rec),
                 gl_last_contrib := (gl_last_contrib s1)(goal_id \<mapsto> contrib_id),
                 gl_idempotency := (gl_idempotency s1)((caller, goal_id, token) \<mapsto> contrib_id)\<rparr> in
     case check_and_emit_milestones e goal_id s2 of Inl t \<Rightarrow> Inl t | Inr s3 \<Rightarrow>
     Inr (contrib_id, emit (GoalContributed goal_id caller actual (sg_current goal1)) s3))"

definition reverse_contribution :: "env \<Rightarrow> address \<Rightarrow> nat \<Rightarrow> nat \<Rightarrow> goals_state
    \<Rightarrow> (goals_state, goals_error, int) outcome" where
  "reverse_contribution e caller goal_id contrib_id s =
    (if \<not> env_auth e caller then Inl AuthTrap else
     case gl_goal s goal_id of None \<Rightarrow> Inl (ContractError GoalNotFound) | Some goal \<Rightarrow>
     if sg_user goal \<noteq> caller then Inl (ContractError Unauthorized) else
     case gl_contribution s (goal_id, contrib_id) of None \<Rightarrow> Inl (ContractError ContributionNotFound)
     | Some rec \<Rightarrow>
     if cr_reversed rec then Inl (ContractError ContributionNotFound) else
     if u64_saturating_add (cr_contributed_at rec) REVERSAL_PERIOD_SECS < env_timestamp e
     then Inl (ContractError ReversalExpired) else
     let goal1 = goal\<lparr>sg_current := saturating_sub (sg_current goal) (cr_amount rec)\<rparr>;
         goal2 = goal1\<lparr>sg_complete := (sg_target goal1 \<le> sg_current goal1)\<rparr>;
         s1 = s\<lparr>gl_contribution := (gl_contribution s)((goal_id, contrib_id) \<mapsto> rec\<lparr>cr_reversed := True\<rparr>)\<rparr>
     in Inr (sg_current goal2, put_goal goal_id goal2 s1))"

section \<open>Withdrawals\<close>

text \<open>The product with the penalty is a plain multiplication, so it may panic; the addition saturates.\<close>

definition gross_withdrawal :: "savings_goal \<Rightarrow> int \<Rightarrow> int option" where
  "gross_withdrawal goal amount =
    (if sg_complete goal then Some (unwrap_or (checked_add amount 0) i128_max) else
     case checked_mul amount (int (sg_penalty_bps goal)) of None \<Rightarrow> None | Some x \<Rightarrow>
     Some (unwrap_or (checked_add amount (quot x 10000)) i128_max))"

definition withdraw_from_goal :: "env \<Rightarrow> address \<Rightarrow> nat \<Rightarrow> int \<Rightarrow> goals_state
    \<Rightarrow> (goals_state, goals_error, int) outcome" where
  "withdraw_from_goal e caller goal_id amount s =
    (if \<not> env_auth e caller then Inl AuthTrap else
     if amount \<le> 0 then Inl (ContractError InvalidAmount) else
     case gl_goal s goal_id of None \<Rightarrow> Inl (ContractError GoalNotFound) | Some goal \<Rightarrow>
     if sg_user goal \<noteq> caller then Inl (ContractError Unauthorized) else
     if \<not> sg_active goal \<and> \<not> sg_complete goal then Inl (ContractError GoalNotActive) else
     if 0 < sg_unlock_at goal \<and> env_timestamp e < sg_unlock_at goal then Inl (ContractError GoalLocked) else
     case gross_withdrawal goal amount of None \<Rightarrow> Inl ArithTrap | Some gross_amount \<Rightarrow>
     if sg_current goal < gross_amount then Inl (ContractError InsufficientBalance) else
     case checked_sub (sg_current goal) gross_amount of None \<Rightarrow> Inl ArithTrap | Some rest \<Rightarrow>
     let goal1 = goal\<lparr>sg_current := rest, sg_complete := (sg_target goal \<le> rest)\<rparr>
     in Inr (rest, emit (GoalWithdrawn goal_id caller amount rest) (put_goal goal_id goal1 s)))"

text \<open>A complete goal that falls below its target is active again.\<close>

definition after_partial :: "savings_goal \<Rightarrow> int \<Rightarrow> savings_goal" where
  "after_partial goal gross_amount =
    (let rest = unwrap_or (checked_sub (sg_current goal) gross_amount) 0;
         complete1 = (sg_target goal \<le> rest)
     in goal\<lparr>sg_current := rest, sg_complete := complete1,
             sg_active := (if sg_complete goal \<and> \<not> complete1 then True else sg_active goal)\<rparr>)"

definition partial_withdraw :: "env \<Rightarrow> address \<Rightarrow> nat \<Rightarrow> int \<Rightarrow> goals_state
    \<Rightarrow> (goals_state, goals_error, unit) outcome" where
  "partial_withdraw e caller goal_id amount s =
    (if \<not> env_auth e caller then Inl AuthTrap else
     if amount \<le> 0 then Inl (ContractError InvalidBatch) else
     case gl_goal s goal_id of None \<Rightarrow> Inl (ContractError InvalidBatch) | Some goal \<Rightarrow>
     if sg_user goal \<noteq> caller then Inl (ContractError Unauthorized) else
     if \<not> sg_active goal \<and> \<not> sg_complete goal then Inl (ContractError GoalNotActive) else
     if 0 < sg_unlock_at goal \<and> env_timestamp e < sg_unlock_at goal then Inl (ContractError GoalLocked) else
     case gross_withdrawal goal amount of None \<Rightarrow> Inl ArithTrap | Some gross_amount \<Rightarrow>
     if sg_current goal < gross_amount then Inl (ContractError InsufficientBalance) else
     let goal1 = after_partial goal gross_amount in
     case check_and_emit_milestones e goal_id (put_goal goal_id goal1 s) of Inl t \<Rightarrow> Inl t | Inr s1 \<Rightarrow>
     Inr ((), emit (PartialWithdrawal goal_id caller amount (sg_current goal1)) s1))"

section \<open>Other operations of the owner\<close>

definition update_goal_name :: "env \<Rightarrow> address \<Rightarrow> nat \<Rightarrow> symbol \<Rightarrow> goals_state
    \<Rightarrow> (goals_state, goals_error, unit) outcome" where
  "update_goal_name e caller goal_id new_name s =
    (if \<not> env_auth e caller then Inl AuthTrap else
     case gl_goal s goal_id of None \<Rightarrow> Inl (ContractError InvalidBatch) | Some goal \<Rightarrow>
     if sg_user goal \<noteq> caller then Inl (ContractError Unauthorized) else
     Inr ((), emit (GoalRenamed goal_id (sg_name goal) new_name)
                (put_goal goal_id (goal\<lparr>sg_name := new_name\<rparr>) s)))"

definition record_goal_snapshot :: "env \<Rightarrow> address \<Rightarrow> nat \<Rightarrow> goals_state
    \<Rightarrow> (goals_state, goals_error, unit) outcome" where
  "record_goal_snapshot e caller goal_id s =
    (if \<not> env_auth e caller then Inl AuthTrap else
     case gl_goal s goal_id of None \<Rightarrow> Inl (ContractError GoalNotFound) | Some goal \<Rightarrow>
     if sg_user goal \<noteq> caller then Inl (ContractError Unauthorized) else
     let snapshot = \<lparr>gs_goal = goal_id, gs_amount = sg_current goal, gs_timestamp = env_timestamp e\<rparr>;
         snapshots = unwrap_or (gl_snapshots s goal_id) [] @ [snapshot]
     in Inr ((), emit (SnapshotRecorded goal_id (sg_current goal) (env_timestamp e))
                   (s\<lparr>gl_snapshots := (gl_snapshots s)(goal_id \<mapsto> snapshots)\<rparr>)))"

definition merge_goals :: "env \<Rightarrow> address \<Rightarrow> nat \<Rightarrow> nat \<Rightarrow> goals_state
    \<Rightarrow> (goals_state, goals_error, unit) outcome" where
  "merge_goals e caller source_id target_id s =
    (if \<not> env_auth e caller then Inl AuthTrap else
     if source_id = target_id then Inl (ContractError InvalidBatch) else
     case gl_goal s source_id of None \<Rightarrow> Inl (ContractError GoalNotFound) | Some source \<Rightarrow>
     case gl_goal s target_id of None \<Rightarrow> Inl (ContractError GoalNotFound) | Some tgt \<Rightarrow>
     if sg_user source \<noteq> caller \<or> sg_user tgt \<noteq> caller then Inl (ContractError Unauthorized) else
     if \<not> sg_active source \<or> \<not> sg_active tgt then Inl (ContractError GoalNotActive) else
     let transferred = sg_current source;
         tgt1 = tgt\<lparr>sg_current := saturating_add (sg_current tgt) transferred\<rparr>;
         tgt2 = tgt1\<lparr>sg_complete := (sg_target tgt1 \<le> sg_current tgt1)\<rparr>;
         source1 = source\<lparr>sg_current := 0, sg_active := False\<rparr> in
     case check_and_emit_milestones e target_id (put_goal target_id tgt2 (put_goal source_id source1 s)) of
       Inl t \<Rightarrow> Inl t | Inr s1 \<Rightarrow>
     Inr ((), emit (GoalsMerged source_id target_id transferred) s1))"

fun check_new_prereqs :: "address \<Rightarrow> nat \<Rightarrow> goals_state \<Rightarrow> nat list \<Rightarrow> goals_error trap + unit" where
  "check_new_prereqs caller goal_id s [] = Inr ()"
| "check_new_prereqs caller goal_id s (p # ps) =
    (if p = goal_id then Inl (ContractError DependencyNotMet) else
     case gl_goal s p of None \<Rightarrow> Inl (ContractError GoalNotFound) | Some pgoal \<Rightarrow>
     if sg_user pgoal \<noteq> caller then Inl (ContractError Unauthorized) else
     case has_dependency_path (gl_prereqs s) p goal_id of None \<Rightarrow> Inl PanicTrap | Some found \<Rightarrow>
     if found then Inl (ContractError DependencyNotMet) else check_new_prereqs caller goal_id s ps)"

definition set_goal_prerequisites :: "env \<Rightarrow> address \<Rightarrow> nat \<Rightarrow> nat list \<Rightarrow> goals_state
    \<Rightarrow> (goals_state, goals_error, unit) outcome" where
  "set_goal_prerequisites e caller goal_id prereq_ids s =
    (if \<not> env_auth e caller then Inl AuthTrap else
     case gl_goal s goal_id of None \<Rightarrow> Inl (ContractError GoalNotFound) | Some goal \<Rightarrow>
     if sg_user goal \<noteq> caller then Inl (ContractError Unauthorized) else
     case check_new_prereqs caller goal_id s prereq_ids of Inl t \<Rightarrow> Inl t | Inr _ \<Rightarrow>
     Inr ((), s\<lparr>gl_prereqs := (gl_prereqs s)(goal_id \<mapsto> prereq_ids)\<rparr>))"

section \<open>Deadline alerts\<close>

definition get_goal_alert_thresholds :: "goals_state \<Rightarrow> nat \<Rightarrow> nat list" where
  "get_goal_alert_thresholds s goal_id =
    unwrap_or (gl_alerts s goal_id) (unwrap_or (gl_default_alerts s) default_deadline_alert_thresholds)"

definition get_goal_alerts_emitted :: "goals_state \<Rightarrow> nat \<Rightarrow> nat list" where
  "get_goal_alerts_emitted s goal_id =
    filter (\<lambda>t. gl_alert_sent s (goal_id, t) \<noteq> None) (get_goal_alert_thresholds s goal_id)"

definition set_default_alert_thresholds :: "env \<Rightarrow> address \<Rightarrow> nat list \<Rightarrow> goals_state
    \<Rightarrow> (goals_state, goals_error, unit) outcome" where
  "set_default_alert_thresholds e caller thresholds s =
    (if \<not> env_auth e caller then Inl AuthTrap else
     case require_admin caller s of Inl t \<Rightarrow> Inl t | Inr _ \<Rightarrow>
     let normalized = normalize_deadline_alert_thresholds thresholds in
     if normalized = [] then Inl (ContractError InvalidAlertThreshold) else
     Inr ((), s\<lparr>gl_default_alerts := Some normalized\<rparr>))"

definition set_goal_alert_thresholds :: "env \<Rightarrow> address \<Rightarrow> nat \<Rightarrow> nat list \<Rightarrow> goals_state
    \<Rightarrow> (goals_state, goals_error, unit) outcome" where
  "set_goal_alert_thresholds e caller goal_id thresholds s =
    (if \<not> env_auth e caller then Inl AuthTrap else
     case gl_goal s goal_id of None \<Rightarrow> Inl (ContractError GoalNotFound) | Some goal \<Rightarrow>
     case (if caller \<noteq> sg_user goal then require_admin caller s else Inr ()) of Inl t \<Rightarrow> Inl t | Inr _ \<Rightarrow>
     let normalized = normalize_deadline_alert_thresholds thresholds in
     if normalized = [] then Inl (ContractError InvalidAlertThreshold) else
     Inr ((), emit (AlertThresholdsUpdated goal_id (sg_user goal) (length normalized))
                (s\<lparr>gl_alerts := (gl_alerts s)(goal_id \<mapsto> normalized)\<rparr>)))"

fun alert_loop :: "nat \<Rightarrow> address \<Rightarrow> nat \<Rightarrow> int \<Rightarrow> nat list \<Rightarrow> nat \<times> goals_state \<Rightarrow> nat \<times> goals_state" where
  "alert_loop goal_id user rem_ledgers rem_amount [] acc = acc"
| "alert_loop goal_id user rem_ledgers rem_amount (t # ts) (emitted, s) =
     alert_loop goal_id user rem_ledgers rem_amount ts
       (if rem_ledgers \<le> t \<and> gl_alert_sent s (goal_id, t) = None
        then (emitted + 1, (emit (DeadlineAlert goal_id user t rem_ledgers rem_amount) s)
                             \<lparr>gl_alert_sent := (gl_alert_sent s)((goal_id, t) \<mapsto> True)\<rparr>)
        else (emitted, s))"

definition process_goal_alerts :: "env \<Rightarrow> nat \<Rightarrow> goals_state \<Rightarrow> (goals_state, goals_error, nat) outcome" where
  "process_goal_alerts e goal_id s =
    (case gl_goal s goal_id of None \<Rightarrow> Inr (0, s) | Some goal \<Rightarrow>
     if \<not> sg_active goal \<or> sg_complete goal then Inr (0, s) else
     let current_sequence = env_sequence e in
     if sg_deadline goal \<le> current_sequence then Inr (0, s) else
     Inr (alert_loop goal_id (sg_user goal) (sg_deadline goal - current_sequence)
            (saturating_sub (sg_target goal) (sg_current goal)) (get_goal_alert_thresholds s goal_id) (0, s)))"

definition contributions_due :: "env \<Rightarrow> nat \<Rightarrow> nat \<Rightarrow> nat" where
  "contributions_due e last_contributed_at interval_seconds =
    (if interval_seconds = 0 then 0 else
     let now = env_timestamp e in
     if now \<le> last_contributed_at then 0 else (now - last_contributed_at) div interval_seconds)"

section \<open>Queries\<close>

definition get_triggered_milestone_percents :: "goals_state \<Rightarrow> nat \<Rightarrow> nat list" where
  "get_triggered_milestone_percents s goal_id = unwrap_or (gl_percents s goal_id) []"

definition is_goal_locked :: "env \<Rightarrow> goals_state \<Rightarrow> nat \<Rightarrow> bool" where
  "is_goal_locked e s goal_id =
    (case gl_goal s goal_id of None \<Rightarrow> False | Some g \<Rightarrow> 0 < sg_unlock_at g \<and> env_timestamp e < sg_unlock_at g)"

definition get_goal :: "goals_state \<Rightarrow> nat \<Rightarrow> savings_goal option" where
  "get_goal s goal_id = gl_goal s goal_id"

definition get_goal_progress :: "goals_state \<Rightarrow> nat \<Rightarrow> goals_error trap + goal_progress option" where
  "get_goal_progress s goal_id =
    (case gl_goal s goal_id of None \<Rightarrow> Inr None | Some goal \<Rightarrow>
     case progress_of goal of None \<Rightarrow> Inl ArithTrap | Some p \<Rightarrow>
     Inr (Some \<lparr>gp_goal = sg_id goal, gp_current = sg_current goal, gp_target = sg_target goal,
                gp_percentage = (if 100 < p then 100 else p),
                gp_complete = (sg_target goal \<le> sg_current goal)\<rparr>))"

definition get_user_goals :: "goals_state \<Rightarrow> address \<Rightarrow> nat list" where
  "get_user_goals s user = unwrap_or (gl_user_goals s user) []"

definition get_contribution_record :: "goals_state \<Rightarrow> nat \<Rightarrow> nat \<Rightarrow> contribution_record option" where
  "get_contribution_record s goal_id contribution_id = gl_contribution s (goal_id, contribution_id)"

definition get_goal_snapshots :: "goals_state \<Rightarrow> nat \<Rightarrow> goal_snapshot list" where
  "get_goal_snapshots s goal_id = unwrap_or (gl_snapshots s goal_id) []"

definition get_last_batch_id :: "goals_state \<Rightarrow> nat" where
  "get_last_batch_id s = unwrap_or (gl_last_batch s) 0"

definition get_last_goal_id :: "goals_state \<Rightarrow> nat" where
  "get_last_goal_id s = unwrap_or (gl_last_goal s) 0"

definition get_total_goals_created :: "goals_state \<Rightarrow> nat" where
  "get_total_goals_created s = unwrap_or (gl_total_goals s) 0"

definition get_total_batches_processed :: "goals_state \<Rightarrow> nat" where
  "get_total_batches_processed s = unwrap_or (gl_total_batches s) 0"

definition get_milestone :: "goals_state \<Rightarrow> nat \<Rightarrow> milestone_achievement option" where
  "get_milestone s milestone_id = gl_milestone s milestone_id"

definition get_goal_milestones :: "goals_state \<Rightarrow> nat \<Rightarrow> nat list" where
  "get_goal_milestones s goal_id = unwrap_or (gl_goal_milestones s goal_id) []"

definition get_last_milestone_id :: "goals_state \<Rightarrow> nat" where
  "get_last_milestone_id s = unwrap_or (gl_last_milestone s) 0"

definition get_total_milestones_achieved :: "goals_state \<Rightarrow> nat" where
  "get_total_milestones_achieved s = unwrap_or (gl_total_milestones s) 0"

definition get_goal_closed_at :: "goals_state \<Rightarrow> nat \<Rightarrow> nat option" where
  "get_goal_closed_at s goal_id = gl_closed_at s goal_id"

definition get_certificate :: "goals_state \<Rightarrow> nat \<Rightarrow> goal_certificate option" where
  "get_certificate s goal_id = gl_certificate s goal_id"

section \<open>The contract\<close>

datatype goals_call =
    CInitialize address
  | CSetAdmin address address
  | CMarkMilestones address "milestone_request list"
  | CCreateGoals address "goal_request list"
  | CClone address nat symbol
  | CContribute address nat int bytes
  | CReverse address nat nat
  | CWithdraw address nat int
  | CPartialWithdraw address nat int
  | CCheckMilestones nat
  | CRename address nat symbol
  | CSnapshot address nat
  | CMerge address nat nat
  | CPrereqs address nat "nat list"
  | CDefaultAlerts address "nat list"
  | CGoalAlerts address nat "nat list"
  | CProcessAlerts nat

fun goals_exec :: "env \<times> goals_call \<Rightarrow> goals_state \<Rightarrow> goals_error trap + goals_state" where
  "goals_exec (e, CInitialize a) s = final (initialize a s)"
| "goals_exec (e, CSetAdmin a b) s = final (set_admin e a b s)"
| "goals_exec (e, CMarkMilestones a rs) s = final (batch_mark_milestones e a rs s)"
| "goals_exec (e, CCreateGoals a rs) s = final (batch_set_savings_goals e a rs s)"
| "goals_exec (e, CClone a i n) s = final (clone_savings_goal e a i n s)"
| "goals_exec (e, CContribute a i x t) s = final (contribute_to_goal e a i x t s)"
| "goals_exec (e, CReverse a i c) s = final (reverse_contribution e a i c s)"
| "goals_exec (e, CWithdraw a i x) s = final (withdraw_from_goal e a i x s)"
| "goals_exec (e, CPartialWithdraw a i x) s = final (partial_withdraw e a i x s)"
| "goals_exec (e, CCheckMilestones i) s = check_and_emit_milestones e i s"
| "goals_exec (e, CRename a i n) s = final (update_goal_name e a i n s)"
| "goals_exec (e, CSnapshot a i) s = final (record_goal_snapshot e a i s)"
| "goals_exec (e, CMerge a i j) s = final (merge_goals e a i j s)"
| "goals_exec (e, CPrereqs a i ps) s = final (set_goal_prerequisites e a i ps s)"
| "goals_exec (e, CDefaultAlerts a ts) s = final (set_default_alert_thresholds e a ts s)"
| "goals_exec (e, CGoalAlerts a i ts) s = final (set_goal_alert_thresholds e a i ts s)"
| "goals_exec (e, CProcessAlerts i) s = final (process_goal_alerts e i s)"

section \<open>What the helpers do\<close>

lemma goal_emit_frame [simp]:
  "gl_admin (emit ev s) = gl_admin s" "gl_last_batch (emit ev s) = gl_last_batch s"
  "gl_last_goal (emit ev s) = gl_last_goal s" "gl_goal (emit ev s) = gl_goal s"
  "gl_user_goals (emit ev s) = gl_user_goals s" "gl_total_goals (emit ev s) = gl_total_goals s"
  "gl_total_batches (emit ev s) = gl_total_batches s" "gl_last_milestone (emit ev s) = gl_last_milestone s"
  "gl_milestone (emit ev s) = gl_milestone s" "gl_goal_milestones (emit ev s) = gl_goal_milestones s"
  "gl_percents (emit ev s) = gl_percents s" "gl_prereqs (emit ev s) = gl_prereqs s"
  "gl_total_milestones (emit ev s) = gl_total_milestones s" "gl_by_name (emit ev s) = gl_by_name s"
  "gl_snapshots (emit ev s) = gl_snapshots s" "gl_contribution (emit ev s) = gl_contribution s"
  "gl_last_contrib (emit ev s) = gl_last_contrib s" "gl_idempotency (emit ev s) = gl_idempotency s"
  "gl_certificate (emit ev s) = gl_certificate s" "gl_alert_sent (emit ev s) = gl_alert_sent s"
  "gl_alerts (emit ev s) = gl_alerts s" "gl_default_alerts (emit ev s) = gl_default_alerts s"
  "gl_closed_at (emit ev s) = gl_closed_at s"
  by (simp_all add: emit_def)

lemma put_goal_frame [simp]:
  "gl_admin (put_goal i g s) = gl_admin s" "gl_last_batch (put_goal i g s) = gl_last_batch s"
  "gl_last_goal (put_goal i g s) = gl_last_goal s" "gl_goal (put_goal i g s) = (gl_goal s)(i \<mapsto> g)"
  "gl_user_goals (put_goal i g s) = gl_user_goals s" "gl_total_goals (put_goal i g s) = gl_total_goals s"
  "gl_total_batches (put_goal i g s) = gl_total_batches s" "gl_last_milestone (put_goal i g s) = gl_last_milestone s"
  "gl_milestone (put_goal i g s) = gl_milestone s" "gl_goal_milestones (put_goal i g s) = gl_goal_milestones s"
  "gl_percents (put_goal i g s) = gl_percents s" "gl_prereqs (put_goal i g s) = gl_prereqs s"
  "gl_total_milestones (put_goal i g s) = gl_total_milestones s" "gl_by_name (put_goal i g s) = gl_by_name s"
  "gl_snapshots (put_goal i g s) = gl_snapshots s" "gl_contribution (put_goal i g s) = gl_contribution s"
  "gl_last_contrib (put_goal i g s) = gl_last_contrib s" "gl_idempotency (put_goal i g s) = gl_idempotency s"
  "gl_certificate (put_goal i g s) = gl_certificate s"
  by (simp_all add: put_goal_def)

definition new_milestones :: "nat \<Rightarrow> nat list \<Rightarrow> nat list" where
  "new_milestones progress triggered = filter (\<lambda>m. m \<le> progress \<and> m \<notin> set triggered) [25, 50, 75, 100]"

lemma milestone_loop_value:
  assumes "distinct ms"
  shows "milestone_loop i p ms (tr, b, s) =
    (let new = filter (\<lambda>m. m \<le> p \<and> m \<notin> set tr) ms in
     (tr @ new, b \<or> 100 \<in> set new,
      s\<lparr>gl_events := gl_events s @ map (MilestoneAchievedPercent i) new\<rparr>))"
  using assms
proof (induction ms arbitrary: tr b s)
  case (Cons m ms)
  then have "filter (\<lambda>x. x \<le> p \<and> x \<notin> set (tr @ [m])) ms = filter (\<lambda>x. x \<le> p \<and> x \<notin> set tr) ms"
    by (intro filter_cong) auto
  with Cons show ?case by (auto simp: Let_def emit_def)
qed simp

declare milestone_loop.simps [simp del]

lemma milestone_loop_run:
  "milestone_loop i p [25, 50, 75, 100] (tr, False, s) =
    (tr @ new_milestones p tr, 100 \<in> set (new_milestones p tr),
     s\<lparr>gl_events := gl_events s @ map (MilestoneAchievedPercent i) (new_milestones p tr)\<rparr>)"
  by (subst milestone_loop_value) (simp_all add: new_milestones_def Let_def del: filter.simps)

lemma new_milestones_mem: "m \<in> set (new_milestones p tr) \<longleftrightarrow> m \<in> {25, 50, 75, 100} \<and> m \<le> p \<and> m \<notin> set tr"
  by (auto simp: new_milestones_def)

lemma new_milestones_distinct: "distinct (new_milestones p tr)"
  by (simp add: new_milestones_def)

text \<open>The effect of \<open>check_and_emit_milestones\<close> on a stored goal: the flags of that goal, its
  milestones, its closing time and its certificate; nothing else but events.\<close>

lemma check_frame:
  assumes "check_and_emit_milestones e i s = Inr s'"
  shows "gl_admin s' = gl_admin s" "gl_last_batch s' = gl_last_batch s" "gl_last_goal s' = gl_last_goal s"
    "gl_user_goals s' = gl_user_goals s" "gl_total_goals s' = gl_total_goals s"
    "gl_total_batches s' = gl_total_batches s" "gl_last_milestone s' = gl_last_milestone s"
    "gl_milestone s' = gl_milestone s" "gl_goal_milestones s' = gl_goal_milestones s"
    "gl_prereqs s' = gl_prereqs s" "gl_by_name s' = gl_by_name s" "gl_snapshots s' = gl_snapshots s"
    "gl_contribution s' = gl_contribution s" "gl_last_contrib s' = gl_last_contrib s"
    "gl_idempotency s' = gl_idempotency s"
  using assms
  by (auto simp: check_and_emit_milestones_def milestone_loop_run Let_def split: option.splits)

definition checked_goal :: "nat \<Rightarrow> nat list \<Rightarrow> savings_goal \<Rightarrow> savings_goal" where
  "checked_goal p tr g =
     g\<lparr>sg_complete := (sg_target g \<le> sg_current g),
       sg_active := (sg_active g \<and> 100 \<notin> set (new_milestones (min p 100) tr))\<rparr>"

lemma min_if: "(if (100::nat) < p then 100 else p) = min p 100"
  by simp

lemma check_goal:
  assumes "check_and_emit_milestones e i s = Inr s'" and "gl_goal s i = Some g" and "progress_of g = Some p"
  shows "gl_goal s' = (gl_goal s)(i \<mapsto> checked_goal p (unwrap_or (gl_percents s i) []) g)"
proof -
  have triv: "(gl_goal s)(i \<mapsto> g) = gl_goal s" using assms(2) by (rule map_upd_triv)
  show ?thesis
    using assms
    by (cases "sg_complete g"; cases "sg_active g")
       (auto simp: check_and_emit_milestones_def milestone_loop_run Let_def checked_goal_def min_if triv
         simp del: min_def)
qed

lemma check_percents:
  assumes "check_and_emit_milestones e i s = Inr s'" and "gl_goal s i = Some g" and "progress_of g = Some p"
  shows "gl_percents s' = (let tr = unwrap_or (gl_percents s i) [] in
           (gl_percents s)(i \<mapsto> tr @ new_milestones (min p 100) tr))"
  using assms
  by (auto simp: check_and_emit_milestones_def milestone_loop_run Let_def min_if)

lemma check_certificate:
  assumes "check_and_emit_milestones e i s = Inr s'" and "gl_goal s i = Some g" and "progress_of g = Some p"
  shows "gl_certificate s' =
    (if 100 \<in> set (new_milestones (min p 100) (unwrap_or (gl_percents s i) [])) \<and> gl_certificate s i = None
     then (gl_certificate s)(i \<mapsto> \<lparr>gc_goal = i, gc_user = sg_user g, gc_target = sg_target g,
                                  gc_issued_at = env_timestamp e\<rparr>)
     else gl_certificate s)"
  using assms
  by (auto simp: check_and_emit_milestones_def milestone_loop_run Let_def min_if)

lemma check_defined:
  "(\<exists>s'. check_and_emit_milestones e i s = Inr s') \<longleftrightarrow>
     (case gl_goal s i of None \<Rightarrow> True | Some g \<Rightarrow> progress_of g \<noteq> None)"
  by (auto simp: check_and_emit_milestones_def milestone_loop_run Let_def split: option.splits)

lemma check_absent: "gl_goal s i = None \<Longrightarrow> check_and_emit_milestones e i s = Inr s' \<longleftrightarrow> s' = s"
  by (auto simp: check_and_emit_milestones_def)

lemma check_progress:
  "check_and_emit_milestones e i s = Inr s' \<Longrightarrow> gl_goal s i = Some g \<Longrightarrow> \<exists>p. progress_of g = Some p"
  by (auto simp: check_and_emit_milestones_def split: option.splits)

section \<open>The registry of goals\<close>

text \<open>Identity and owner of a stored goal, and the fields that index goals.\<close>

definition holder :: "goals_state \<Rightarrow> nat \<Rightarrow> (nat \<times> address) option" where
  "holder s i = map_option (\<lambda>g. (sg_id g, sg_user g)) (gl_goal s i)"

definition same_registry :: "goals_state \<Rightarrow> goals_state \<Rightarrow> bool" where
  "same_registry s s' \<longleftrightarrow> holder s' = holder s \<and> gl_user_goals s' = gl_user_goals s
     \<and> gl_last_goal s' = gl_last_goal s \<and> gl_total_goals s' = gl_total_goals s"

lemma same_registry_refl [simp]: "same_registry s s"
  by (simp add: same_registry_def)

lemma same_registry_trans: "same_registry s t \<Longrightarrow> same_registry t u \<Longrightarrow> same_registry s u"
  by (simp add: same_registry_def)

lemma holder_goals: "gl_goal s' = gl_goal s \<Longrightarrow> holder s' = holder s"
  by (rule ext) (simp add: holder_def)

lemma same_registry_fields:
  "gl_goal s' = gl_goal s \<Longrightarrow> gl_user_goals s' = gl_user_goals s \<Longrightarrow> gl_last_goal s' = gl_last_goal s
   \<Longrightarrow> gl_total_goals s' = gl_total_goals s \<Longrightarrow> same_registry s s'"
  unfolding same_registry_def using holder_goals by blast

lemma same_registry_put:
  assumes "gl_goal s i = Some g" and "gl_goal s' = (gl_goal s)(i \<mapsto> g')"
    and "sg_id g' = sg_id g" and "sg_user g' = sg_user g" and "gl_user_goals s' = gl_user_goals s"
    and "gl_last_goal s' = gl_last_goal s" and "gl_total_goals s' = gl_total_goals s"
  shows "same_registry s s'"
proof -
  have "holder s' j = holder s j" for j
    using assms(1-4) by (cases "j = i") (simp_all add: holder_def)
  then have "holder s' = holder s" by (rule ext)
  then show ?thesis using assms(5-7) by (simp add: same_registry_def)
qed

lemma check_same_registry:
  assumes "check_and_emit_milestones e i s = Inr s'"
  shows "same_registry s s'"
proof (cases "gl_goal s i")
  case None
  with assms show ?thesis by (simp add: check_absent)
next
  case (Some g)
  then obtain p where "progress_of g = Some p" using check_progress [OF assms] by blast
  show ?thesis
    by (rule same_registry_put [OF Some check_goal [OF assms Some \<open>progress_of g = Some p\<close>]])
      (simp_all add: checked_goal_def check_frame [OF assms])
qed

lemma mark_step_same:
  "mark_step a rq u = Inr u' \<Longrightarrow> same_registry (mk_state u) (mk_state u') \<and> gl_prereqs (mk_state u') = gl_prereqs (mk_state u)
     \<and> gl_admin (mk_state u') = gl_admin (mk_state u) \<and> gl_idempotency (mk_state u') = gl_idempotency (mk_state u)
     \<and> gl_certificate (mk_state u') = gl_certificate (mk_state u)"
  by (auto simp: mark_step_def mark_failure_def record_milestone_def Let_def
      intro!: same_registry_fields split: option.splits if_splits)

lemma batch_mark_same:
  assumes "batch_mark_milestones e a rs s = Inr (x, s')"
  shows "same_registry s s' \<and> gl_prereqs s' = gl_prereqs s \<and> gl_admin s' = gl_admin s
    \<and> gl_idempotency s' = gl_idempotency s \<and> gl_certificate s' = gl_certificate s"
proof -
  from assms obtain u where fold: "fold_trap (mark_step a) rs \<lparr>mk_state = s, mk_results = [], mk_ok = 0, mk_failed = 0,
      mk_points = 0, mk_last = unwrap_or (gl_last_milestone s) 0\<rparr> = Inr u" and s': "s' = mk_state u"
    by (auto simp: batch_mark_milestones_def Let_def split: if_splits option.splits sum.splits)
  show ?thesis
    unfolding s'
    by (rule fold_trap_inv [OF fold, where P = "\<lambda>u. same_registry s (mk_state u) \<and> gl_prereqs (mk_state u) = gl_prereqs s
        \<and> gl_admin (mk_state u) = gl_admin s \<and> gl_idempotency (mk_state u) = gl_idempotency s
        \<and> gl_certificate (mk_state u) = gl_certificate s"])
      (auto dest: mark_step_same intro: same_registry_trans)
qed

lemma alert_loop_same:
  "snd (alert_loop i u r a ts (n, s)) = s' \<Longrightarrow> gl_goal s' = gl_goal s \<and> gl_user_goals s' = gl_user_goals s
     \<and> gl_last_goal s' = gl_last_goal s \<and> gl_total_goals s' = gl_total_goals s \<and> gl_prereqs s' = gl_prereqs s
     \<and> gl_admin s' = gl_admin s \<and> gl_idempotency s' = gl_idempotency s \<and> gl_certificate s' = gl_certificate s
     \<and> gl_percents s' = gl_percents s"
  by (induction ts arbitrary: n s) (auto split: if_splits)

lemma process_alerts_same:
  "process_goal_alerts e i s = Inr (x, s') \<Longrightarrow> same_registry s s' \<and> gl_prereqs s' = gl_prereqs s
     \<and> gl_admin s' = gl_admin s \<and> gl_idempotency s' = gl_idempotency s \<and> gl_certificate s' = gl_certificate s
     \<and> gl_percents s' = gl_percents s"
  using alert_loop_same [of i _ _ _ _ 0 s s']
  by (auto simp: process_goal_alerts_def Let_def intro!: same_registry_fields split: option.splits if_splits
      dest!: arg_cong [where f = snd])

definition booked :: "env \<Rightarrow> address \<Rightarrow> nat \<Rightarrow> int \<Rightarrow> bytes \<Rightarrow> savings_goal \<Rightarrow> goals_state \<Rightarrow> goals_state" where
  "booked e a i n tok g s =
    (let c = unwrap_or (gl_last_contrib s i) 0 + 1; s1 = put_goal i (snd (apply_contribution n g)) s in
     s1\<lparr>gl_contribution := (gl_contribution s)((i, c) \<mapsto>
          \<lparr>cr_amount = fst (apply_contribution n g), cr_contributed_at = env_timestamp e, cr_token = tok,
           cr_reversed = False\<rparr>),
        gl_last_contrib := (gl_last_contrib s)(i \<mapsto> c),
        gl_idempotency := (gl_idempotency s)((a, i, tok) \<mapsto> c)\<rparr>)"

lemma contribute_Inr:
  "contribute_to_goal e a i n tok s = Inr (c, s') \<longleftrightarrow>
    (\<exists>g s3. env_auth e a \<and> 0 < n \<and> tok \<noteq> [] \<and> gl_goal s i = Some g \<and> sg_user g = a
      \<and> gl_idempotency s (a, i, tok) = None \<and> \<not> (0 < sg_expires_at g \<and> sg_expires_at g \<le> env_timestamp e)
      \<and> sg_active g \<and> check_prereqs s (unwrap_or (gl_prereqs s i) []) = Inr ()
      \<and> c = unwrap_or (gl_last_contrib s i) 0 + 1 \<and> in_u64 c
      \<and> check_and_emit_milestones e i (booked e a i n tok g s) = Inr s3
      \<and> s' = emit (GoalContributed i a (fst (apply_contribution n g)) (sg_current (snd (apply_contribution n g)))) s3)"
  (is "?L \<longleftrightarrow> ?R")
proof
  assume ?L
  then show ?R
    by (auto simp: contribute_to_goal_def Let_def booked_def split: if_splits option.splits sum.splits prod.splits)
next
  assume ?R
  then show ?L
    by (auto simp: contribute_to_goal_def Let_def booked_def u64_add_def not_le split: prod.split)
qed

lemma booked_frame [simp]:
  "gl_goal (booked e a i n tok g s) = (gl_goal s)(i \<mapsto> snd (apply_contribution n g))"
  "gl_user_goals (booked e a i n tok g s) = gl_user_goals s"
  "gl_last_goal (booked e a i n tok g s) = gl_last_goal s"
  "gl_total_goals (booked e a i n tok g s) = gl_total_goals s"
  "gl_prereqs (booked e a i n tok g s) = gl_prereqs s" "gl_admin (booked e a i n tok g s) = gl_admin s"
  "gl_certificate (booked e a i n tok g s) = gl_certificate s" "gl_percents (booked e a i n tok g s) = gl_percents s"
  "gl_idempotency (booked e a i n tok g s)
     = (gl_idempotency s)((a, i, tok) \<mapsto> unwrap_or (gl_last_contrib s i) 0 + 1)"
  "gl_contribution (booked e a i n tok g s) = (gl_contribution s)((i, unwrap_or (gl_last_contrib s i) 0 + 1) \<mapsto>
     \<lparr>cr_amount = fst (apply_contribution n g), cr_contributed_at = env_timestamp e, cr_token = tok,
      cr_reversed = False\<rparr>)"
  by (simp_all add: booked_def Let_def)

lemma apply_contribution_frame [simp]:
  "sg_id (snd (apply_contribution n g)) = sg_id g" "sg_user (snd (apply_contribution n g)) = sg_user g"
  "sg_target (snd (apply_contribution n g)) = sg_target g" "sg_active (snd (apply_contribution n g)) = sg_active g"
  by (simp_all add: apply_contribution_def Let_def)

lemma holder_emit [simp]: "holder (emit ev s) = holder s"
  by (rule holder_goals) simp

lemma same_registry_emit [simp]: "same_registry s (emit ev s') \<longleftrightarrow> same_registry s s'"
  by (simp add: same_registry_def)

lemma contribute_same:
  assumes "contribute_to_goal e a i n tok s = Inr (x, s')"
  shows "same_registry s s' \<and> gl_prereqs s' = gl_prereqs s \<and> gl_admin s' = gl_admin s"
proof -
  from assms obtain g s3 where g: "gl_goal s i = Some g" and s': "\<exists>ev. s' = emit ev s3"
    and s3: "check_and_emit_milestones e i (booked e a i n tok g s) = Inr s3"
    unfolding contribute_Inr by blast
  have "same_registry s (booked e a i n tok g s)"
    by (rule same_registry_put [OF g booked_frame(1)]) simp_all
  with s' show ?thesis
    using check_same_registry [OF s3] check_frame [OF s3] by (auto intro: same_registry_trans)
qed

section \<open>The other operations\<close>

lemma reverse_Inr:
  "reverse_contribution e a i c s = Inr (b, s') \<longleftrightarrow>
    (\<exists>g rec. env_auth e a \<and> gl_goal s i = Some g \<and> sg_user g = a \<and> gl_contribution s (i, c) = Some rec
      \<and> \<not> cr_reversed rec \<and> env_timestamp e \<le> u64_saturating_add (cr_contributed_at rec) REVERSAL_PERIOD_SECS
      \<and> b = saturating_sub (sg_current g) (cr_amount rec)
      \<and> s' = put_goal i (g\<lparr>sg_current := b, sg_complete := (sg_target g \<le> b)\<rparr>)
               (s\<lparr>gl_contribution := (gl_contribution s)((i, c) \<mapsto> rec\<lparr>cr_reversed := True\<rparr>)\<rparr>))"
  by (auto simp: reverse_contribution_def Let_def split: if_splits option.splits)

definition may_withdraw :: "env \<Rightarrow> address \<Rightarrow> savings_goal \<Rightarrow> int \<Rightarrow> bool" where
  "may_withdraw e a g n \<longleftrightarrow> env_auth e a \<and> 0 < n \<and> sg_user g = a \<and> (sg_active g \<or> sg_complete g)
     \<and> \<not> (0 < sg_unlock_at g \<and> env_timestamp e < sg_unlock_at g)"

lemma withdraw_Inr:
  "withdraw_from_goal e a i n s = Inr (b, s') \<longleftrightarrow>
    (\<exists>g gross. gl_goal s i = Some g \<and> may_withdraw e a g n \<and> gross_withdrawal g n = Some gross
      \<and> gross \<le> sg_current g \<and> b = sg_current g - gross \<and> in_i128 b
      \<and> s' = emit (GoalWithdrawn i a n b) (put_goal i (g\<lparr>sg_current := b, sg_complete := (sg_target g \<le> b)\<rparr>) s))"
  by (auto simp: withdraw_from_goal_def may_withdraw_def Let_def checked_sub_def
      split: if_splits option.splits)

lemma partial_Inr:
  "partial_withdraw e a i n s = Inr (x, s') \<longleftrightarrow>
    (\<exists>g gross s1. gl_goal s i = Some g \<and> may_withdraw e a g n \<and> gross_withdrawal g n = Some gross
      \<and> gross \<le> sg_current g \<and> check_and_emit_milestones e i (put_goal i (after_partial g gross) s) = Inr s1
      \<and> s' = emit (PartialWithdrawal i a n (sg_current (after_partial g gross))) s1)"
  by (auto simp: partial_withdraw_def may_withdraw_def Let_def split: if_splits option.splits sum.splits)

definition merged :: "nat \<Rightarrow> nat \<Rightarrow> savings_goal \<Rightarrow> savings_goal \<Rightarrow> goals_state \<Rightarrow> goals_state" where
  "merged i j src tgt s =
    (let total_amount = saturating_add (sg_current tgt) (sg_current src) in
     put_goal j (tgt\<lparr>sg_current := total_amount, sg_complete := (sg_target tgt \<le> total_amount)\<rparr>)
       (put_goal i (src\<lparr>sg_current := 0, sg_active := False\<rparr>) s))"

lemma merge_Inr:
  "merge_goals e a i j s = Inr (x, s') \<longleftrightarrow>
    (\<exists>src tgt s1. env_auth e a \<and> i \<noteq> j \<and> gl_goal s i = Some src \<and> gl_goal s j = Some tgt
      \<and> sg_user src = a \<and> sg_user tgt = a \<and> sg_active src \<and> sg_active tgt
      \<and> check_and_emit_milestones e j (merged i j src tgt s) = Inr s1
      \<and> s' = emit (GoalsMerged i j (sg_current src)) s1)"
  by (auto simp: merge_goals_def merged_def Let_def split: if_splits option.splits sum.splits)

lemma prereqs_Inr:
  "set_goal_prerequisites e a i ps s = Inr (x, s') \<longleftrightarrow>
    (\<exists>g. env_auth e a \<and> gl_goal s i = Some g \<and> sg_user g = a \<and> check_new_prereqs a i s ps = Inr ()
      \<and> s' = s\<lparr>gl_prereqs := (gl_prereqs s)(i \<mapsto> ps)\<rparr>)"
  by (auto simp: set_goal_prerequisites_def split: if_splits option.splits sum.splits)

lemma rename_Inr:
  "update_goal_name e a i n s = Inr (x, s') \<longleftrightarrow>
    (\<exists>g. env_auth e a \<and> gl_goal s i = Some g \<and> sg_user g = a
      \<and> s' = emit (GoalRenamed i (sg_name g) n) (put_goal i (g\<lparr>sg_name := n\<rparr>) s))"
  by (auto simp: update_goal_name_def split: if_splits option.splits)

lemmas goal_calls_Inr = reverse_Inr withdraw_Inr partial_Inr merge_Inr prereqs_Inr rename_Inr

text \<open>The calls that create goals, and the others.\<close>

fun creating :: "goals_call \<Rightarrow> bool" where
  "creating (CInitialize _) = True"
| "creating (CCreateGoals _ _) = True"
| "creating (CClone _ _ _) = True"
| "creating _ = False"

lemma put_same_registry:
  "gl_goal s i = Some g \<Longrightarrow> sg_id g' = sg_id g \<Longrightarrow> sg_user g' = sg_user g \<Longrightarrow> same_registry s (put_goal i g' s)"
  by (rule same_registry_put [of s i g "put_goal i g' s" g']) simp_all

lemma check_after_put:
  assumes "check_and_emit_milestones e i s1 = Inr s2" and "same_registry s s1"
    and "gl_prereqs s1 = gl_prereqs s" and "gl_admin s1 = gl_admin s"
  shows "same_registry s s2 \<and> gl_prereqs s2 = gl_prereqs s \<and> gl_admin s2 = gl_admin s"
  using check_same_registry [OF assms(1)] check_frame [OF assms(1)] assms(2-4)
  by (auto intro: same_registry_trans)

lemma merged_same_registry:
  assumes "gl_goal s i = Some src" and "gl_goal s j = Some tgt" and "i \<noteq> j"
  shows "same_registry s (merged i j src tgt s)"
proof -
  let ?s1 = "put_goal i (src\<lparr>sg_current := 0, sg_active := False\<rparr>) s"
  have "same_registry s ?s1" by (rule put_same_registry [OF assms(1)]) simp_all
  moreover have "gl_goal ?s1 j = Some tgt" using assms by simp
  then have "same_registry ?s1 (put_goal j g' ?s1)" if "sg_id g' = sg_id tgt" "sg_user g' = sg_user tgt" for g'
    by (rule put_same_registry) (simp_all add: that)
  ultimately show ?thesis by (auto simp: merged_def Let_def intro: same_registry_trans)
qed

lemma goals_exec_quiet:
  assumes run: "goals_exec (e, c) s = Inr s'" and "\<not> creating c"
  shows "same_registry s s' \<and> (gl_admin s' = None \<longleftrightarrow> gl_admin s = None)
    \<and> (\<not> (\<exists>a i ps. c = CPrereqs a i ps) \<longrightarrow> gl_prereqs s' = gl_prereqs s)"
proof (cases c)
  case (CContribute a i x t)
  with run contribute_same show ?thesis by auto
next
  case (CMarkMilestones a rs)
  with run batch_mark_same show ?thesis by auto
next
  case (CProcessAlerts i)
  with run process_alerts_same show ?thesis by auto
next
  case (CCheckMilestones i)
  with run check_after_put [of e i s s' s] show ?thesis by auto
next
  case (CPartialWithdraw a i n)
  with run obtain g gross s1 where g: "gl_goal s i = Some g" and s1: "check_and_emit_milestones e i (put_goal i (after_partial g gross) s) = Inr s1"
    and s': "\<exists>ev. s' = emit ev s1" by (auto simp: partial_Inr)
  have "same_registry s (put_goal i (after_partial g gross) s)"
    by (rule put_same_registry [OF g]) (simp_all add: after_partial_def Let_def)
  from check_after_put [OF s1 this] s' show ?thesis by auto
next
  case (CMerge a i j)
  with run obtain src tgt s1 where g: "gl_goal s i = Some src" "gl_goal s j = Some tgt" "i \<noteq> j"
    and s1: "check_and_emit_milestones e j (merged i j src tgt s) = Inr s1"
    and s': "\<exists>ev. s' = emit ev s1" by (auto simp: merge_Inr)
  have "gl_prereqs (merged i j src tgt s) = gl_prereqs s" "gl_admin (merged i j src tgt s) = gl_admin s"
    by (simp_all add: merged_def Let_def)
  from check_after_put [OF s1 merged_same_registry [OF g] this] s' show ?thesis by auto
next
  case (CReverse a i c)
  with run obtain g rec b where g: "gl_goal s i = Some g"
    and s': "s' = put_goal i (g\<lparr>sg_current := b, sg_complete := (sg_target g \<le> b)\<rparr>)
               (s\<lparr>gl_contribution := (gl_contribution s)((i, c) \<mapsto> rec\<lparr>cr_reversed := True\<rparr>)\<rparr>)"
    by (auto simp: reverse_Inr)
  have "same_registry s s'"
    by (rule same_registry_put [OF g, of _ "g\<lparr>sg_current := b, sg_complete := (sg_target g \<le> b)\<rparr>"]) (simp_all add: s')
  then show ?thesis by (simp add: s')
next
  case (CWithdraw a i n)
  with run show ?thesis by (auto simp: withdraw_Inr put_same_registry)
next
  case (CRename a i n)
  with run show ?thesis by (auto simp: rename_Inr put_same_registry)
qed (use assms in \<open>auto simp: prereqs_Inr set_admin_def record_goal_snapshot_def Let_def require_admin_def
      set_default_alert_thresholds_def set_goal_alert_thresholds_def
      intro!: same_registry_fields split: if_splits option.splits sum.splits\<close>)

section \<open>The index\<close>

definition index_upto :: "nat \<Rightarrow> goals_state \<Rightarrow> bool" where
  "index_upto n s \<longleftrightarrow> dom (holder s) = {1..n} \<and> (\<forall>i x. holder s i = Some x \<longrightarrow> fst x = i)
     \<and> (\<forall>u. get_user_goals s u = filter (\<lambda>i. holder s i = Some (i, u)) [1..<Suc n])"

lemma index_upto_same: "same_registry s s' \<Longrightarrow> index_upto n s' \<longleftrightarrow> index_upto n s"
  by (simp add: same_registry_def index_upto_def get_user_goals_def)

lemma index_upto_emit [simp]: "index_upto n (emit ev s) \<longleftrightarrow> index_upto n s"
  by (rule index_upto_same) simp

lemma index_upto_add:
  assumes idx: "index_upto n s" and h: "holder s' = (holder s)(n + 1 \<mapsto> (n + 1, u))"
    and ug: "gl_user_goals s' = (gl_user_goals s)(u \<mapsto> get_user_goals s u @ [n + 1])"
  shows "index_upto (n + 1) s'"
proof -
  have old: "filter (\<lambda>i. holder s' i = Some (i, v)) [1..<Suc n] = filter (\<lambda>i. holder s i = Some (i, v)) [1..<Suc n]" for v
    by (rule filter_cong) (auto simp: h)
  have "get_user_goals s' v = filter (\<lambda>i. holder s' i = Some (i, v)) [1..<Suc (n + 1)]" for v
  proof -
    have "[1..<Suc (n + 1)] = [1..<Suc n] @ [n + 1]" by simp
    then have "filter (\<lambda>i. holder s' i = Some (i, v)) [1..<Suc (n + 1)]
        = filter (\<lambda>i. holder s i = Some (i, v)) [1..<Suc n] @ (if v = u then [n + 1] else [])"
      using old [of v] by (auto simp: h)
    with idx ug show ?thesis by (auto simp: index_upto_def get_user_goals_def)
  qed
  moreover have "dom (holder s') = {1..n + 1}"
    using idx by (auto simp: index_upto_def h)
  ultimately show ?thesis using idx by (auto simp: index_upto_def h split: if_splits)
qed

definition goals_inv :: "goals_state \<Rightarrow> bool" where
  "goals_inv s \<longleftrightarrow> index_upto (get_last_goal_id s) s \<and> get_total_goals_created s = get_last_goal_id s
     \<and> (gl_admin s = None \<longrightarrow> gl_goal s = Map.empty \<and> gl_user_goals s = Map.empty \<and> get_last_goal_id s = 0)"

lemma goals_inv_fresh: "goals_inv goals_fresh"
proof -
  have "holder goals_fresh = Map.empty" by (rule ext) (simp add: holder_def goals_fresh_def)
  then show ?thesis
    by (simp add: goals_inv_def index_upto_def get_user_goals_def get_last_goal_id_def
        get_total_goals_created_def goals_fresh_def)
qed

lemma holder_put: "holder (put_goal i g s) = (holder s)(i \<mapsto> (sg_id g, sg_user g))"
  by (rule ext) (simp add: holder_def)

lemma create_step_index:
  assumes run: "create_step e b rq u = Inr u'" and idx: "index_upto (cl_counter u) (cl_state u)"
  shows "index_upto (cl_counter u') (cl_state u') \<and> cl_counter u' + cl_ok u = cl_counter u + cl_ok u'
    \<and> gl_admin (cl_state u') = gl_admin (cl_state u) \<and> gl_total_goals (cl_state u') = gl_total_goals (cl_state u)
    \<and> gl_prereqs (cl_state u') = gl_prereqs (cl_state u) \<and> holder (cl_state u) \<subseteq>\<^sub>m holder (cl_state u')"
proof (cases "cl_counter u' = cl_counter u")
  case True
  with run idx show ?thesis
    by (auto simp: create_step_def create_failure_def Let_def split: sum.splits option.splits)
next
  case False
  let ?n = "cl_counter u" and ?s = "cl_state u"
  let ?g = "goal_of_request (?n + 1) (env_timestamp e) rq"
  let ?s1 = "(put_goal (?n + 1) ?g ?s)\<lparr>gl_by_name := (gl_by_name ?s)((gr_user rq, gr_name rq) \<mapsto> ?n + 1)\<rparr>"
  from run False obtain s2 where s2: "check_and_emit_milestones e (?n + 1) ?s1 = Inr s2"
    and u': "cl_counter u' = ?n + 1" "cl_ok u' = cl_ok u + 1"
      "gl_goal (cl_state u') = gl_goal s2" "gl_admin (cl_state u') = gl_admin s2"
      "gl_total_goals (cl_state u') = gl_total_goals s2" "gl_prereqs (cl_state u') = gl_prereqs s2"
      "gl_user_goals (cl_state u') = (gl_user_goals s2)(gr_user rq \<mapsto> unwrap_or (gl_user_goals s2 (gr_user rq)) [] @ [?n + 1])"
    by (auto simp: create_step_def create_failure_def Let_def split: sum.splits option.splits)
  have hs1: "holder ?s1 = (holder ?s)(?n + 1 \<mapsto> (?n + 1, gr_user rq))"
    using holder_put [of "?n + 1" ?g ?s] by (simp add: holder_def goal_of_request_def fun_eq_iff)
  have reg: "same_registry ?s1 s2" by (rule check_same_registry [OF s2])
  then have h: "holder (cl_state u') = (holder ?s)(?n + 1 \<mapsto> (?n + 1, gr_user rq))"
    using holder_goals [OF u'(3)] hs1 by (simp add: same_registry_def)
  have "index_upto (?n + 1) (cl_state u')"
    using idx h by (rule index_upto_add) (use reg u' in \<open>simp add: same_registry_def get_user_goals_def\<close>)
  moreover have "holder ?s \<subseteq>\<^sub>m holder (cl_state u')"
    using idx unfolding h by (auto simp: map_le_def index_upto_def)
  ultimately show ?thesis using u' check_frame [OF s2] by simp
qed

lemma batch_create_index:
  assumes run: "batch_set_savings_goals e a rs s = Inr (x, s')" and inv: "goals_inv s"
  shows "goals_inv s' \<and> gl_admin s' = gl_admin s \<and> gl_prereqs s' = gl_prereqs s \<and> holder s \<subseteq>\<^sub>m holder s'"
proof -
  let ?P = "\<lambda>u. index_upto (cl_counter u) (cl_state u) \<and> cl_counter u = get_last_goal_id s + cl_ok u
    \<and> gl_admin (cl_state u) = gl_admin s \<and> gl_total_goals (cl_state u) = gl_total_goals s
    \<and> gl_prereqs (cl_state u) = gl_prereqs s \<and> holder s \<subseteq>\<^sub>m holder (cl_state u)"
  from run obtain b u where adm: "gl_admin s = Some a"
    and fold: "fold_trap (create_step e b) rs
            \<lparr>cl_state = emit (BatchStarted b (length rs)) s, cl_results = [], cl_ok = 0,
             cl_failed = 0, cl_target = 0, cl_initial = 0, cl_counter = get_last_goal_id s\<rparr> = Inr u"
    and s': "gl_goal s' = gl_goal (cl_state u)" "gl_admin s' = gl_admin (cl_state u)"
      "gl_user_goals s' = gl_user_goals (cl_state u)" "gl_prereqs s' = gl_prereqs (cl_state u)"
      "get_last_goal_id s' = cl_counter u"
      "get_total_goals_created s' = unwrap_or (gl_total_goals (cl_state u)) 0 + cl_ok u"
    by (auto simp: batch_set_savings_goals_def Let_def get_last_goal_id_def get_total_goals_created_def
        require_admin_def split: if_splits option.splits sum.splits)
  have "?P u"
  proof (rule fold_trap_inv [OF fold, where P = ?P])
    show "?P \<lparr>cl_state = emit (BatchStarted b (length rs)) s, cl_results = [], cl_ok = 0,
             cl_failed = 0, cl_target = 0, cl_initial = 0, cl_counter = get_last_goal_id s\<rparr>"
      using inv by (simp add: goals_inv_def)
  next
    fix rq u u' assume "?P u" "create_step e b rq u = Inr u'"
    with create_step_index [of e b rq u u'] show "?P u'" by (auto intro: map_le_trans)
  qed
  moreover have "holder s' = holder (cl_state u)" by (rule holder_goals) (rule s')
  ultimately show ?thesis
    using s' adm inv index_upto_same [of "cl_state u" "s'\<lparr>gl_last_goal := gl_last_goal (cl_state u),
        gl_total_goals := gl_total_goals (cl_state u)\<rparr>"]
    by (simp add: goals_inv_def index_upto_def get_user_goals_def get_total_goals_created_def)
qed

lemma clone_index:
  assumes run: "clone_savings_goal e a i n s = Inr (x, s')" and inv: "goals_inv s"
  shows "goals_inv s' \<and> gl_admin s' = gl_admin s \<and> gl_prereqs s' = gl_prereqs s \<and> holder s \<subseteq>\<^sub>m holder s'"
proof -
  let ?n = "get_last_goal_id s"
  from run inv have adm: "gl_admin s \<noteq> None"
    by (auto simp: clone_savings_goal_def goals_inv_def split: if_splits option.splits)
  from run obtain existing where ex: "gl_goal s i = Some existing"
    by (auto simp: clone_savings_goal_def split: if_splits option.splits)
  let ?g = "cloned_goal (env_timestamp e) (?n + 1) a n existing"
  have g: "sg_id ?g = ?n + 1" "sg_user ?g = a" by (simp_all add: cloned_goal_def)
  from run ex have s': "gl_goal s' = (gl_goal s)(?n + 1 \<mapsto> ?g)" "gl_admin s' = gl_admin s" "gl_prereqs s' = gl_prereqs s"
      "gl_user_goals s' = (gl_user_goals s)(a \<mapsto> get_user_goals s a @ [?n + 1])"
      "get_last_goal_id s' = ?n + 1" "get_total_goals_created s' = get_total_goals_created s + 1"
    by (auto simp: clone_savings_goal_def Let_def get_last_goal_id_def get_user_goals_def
        get_total_goals_created_def split: if_splits option.splits sum.splits)
  have h: "holder s' = (holder s)(?n + 1 \<mapsto> (?n + 1, a))"
    using holder_goals [of s' "put_goal (?n + 1) ?g s"] g s'(1) by (simp add: holder_put)
  have idx: "index_upto ?n s" using inv by (simp add: goals_inv_def)
  have "index_upto (?n + 1) s'" using idx h s'(4) by (rule index_upto_add)
  moreover have "holder s \<subseteq>\<^sub>m holder s'"
    using idx unfolding h by (auto simp: map_le_def index_upto_def)
  ultimately show ?thesis using s' inv adm by (simp add: goals_inv_def)
qed

section \<open>Prerequisites\<close>

definition prereqs_inv :: "goals_state \<Rightarrow> bool" where
  "prereqs_inv s \<longleftrightarrow> finite (dom (gl_prereqs s)) \<and> acyclic (edges (gl_prereqs s))
     \<and> (\<forall>(i, p) \<in> edges (gl_prereqs s). \<exists>u. holder s i = Some (i, u) \<and> holder s p = Some (p, u))"

lemma prereqs_inv_mono:
  assumes "prereqs_inv s" and "gl_prereqs s' = gl_prereqs s" and "holder s \<subseteq>\<^sub>m holder s'"
  shows "prereqs_inv s'"
  using assms unfolding prereqs_inv_def map_le_def by (fastforce simp: dom_def)

lemma check_new_prereqs_Inr:
  "check_new_prereqs a i s ps = Inr x \<longleftrightarrow>
    (\<forall>p \<in> set ps. p \<noteq> i \<and> (\<exists>g. gl_goal s p = Some g \<and> sg_user g = a)
       \<and> has_dependency_path (gl_prereqs s) p i = Some False)"
  by (induction ps) (auto split: option.splits)

lemma set_prereqs_inv:
  assumes run: "set_goal_prerequisites e a i ps s = Inr (x, s')" and inv: "prereqs_inv s" and idx: "goals_inv s"
  shows "prereqs_inv s'"
proof -
  let ?g = "gl_prereqs s"
  from run obtain g where own: "gl_goal s i = Some g" "sg_user g = a"
    and ps: "\<And>p. p \<in> set ps \<Longrightarrow> (\<exists>g. gl_goal s p = Some g \<and> sg_user g = a) \<and> has_dependency_path ?g p i = Some False"
    and s': "s' = s\<lparr>gl_prereqs := ?g(i \<mapsto> ps)\<rparr>"
    by (auto simp: prereqs_Inr check_new_prereqs_Inr)
  have fin: "finite (dom ?g)" using inv by (simp add: prereqs_inv_def)
  have h: "holder s' = holder s" by (rule holder_goals) (simp add: s')
  have ids: "holder s j = Some (j, u)" if "gl_goal s j = Some g" "sg_user g = u" for j g u
    using that idx by (auto simp: goals_inv_def index_upto_def holder_def)
  have "acyclic (edges (?g(i \<mapsto> ps)))"
    using inv ps has_dependency_path_iff [OF fin] by (intro acyclic_update) (auto simp: prereqs_inv_def)
  moreover have "\<exists>u. holder s j = Some (j, u) \<and> holder s p = Some (p, u)" if "(j, p) \<in> edges (?g(i \<mapsto> ps))" for j p
  proof (cases "j = i")
    case True
    with that ps ids own show ?thesis by (fastforce simp: edges_update)
  next
    case False
    with that inv show ?thesis by (auto simp: edges_update prereqs_inv_def)
  qed
  ultimately show ?thesis
    using fin by (auto simp: prereqs_inv_def s' h [unfolded s'])
qed

definition book_inv :: "goals_state \<Rightarrow> bool" where
  "book_inv s \<longleftrightarrow> goals_inv s \<and> prereqs_inv s"

lemma book_inv_fresh: "book_inv goals_fresh"
  unfolding book_inv_def
proof
  show "goals_inv goals_fresh" by (rule goals_inv_fresh)
  show "prereqs_inv goals_fresh"
    by (simp add: prereqs_inv_def goals_fresh_def edges_def neighbours_def acyclic_def)
qed

lemma goals_inv_same:
  assumes "goals_inv s" and "same_registry s s'" and "gl_admin s' = None \<longleftrightarrow> gl_admin s = None"
  shows "goals_inv s'"
proof -
  have "gl_goal s' = Map.empty" if "gl_goal s = Map.empty"
  proof
    fix i have "holder s' i = holder s i" using assms(2) by (simp add: same_registry_def)
    with that show "gl_goal s' i = None" by (simp add: holder_def)
  qed
  moreover have "index_upto (get_last_goal_id s) s'"
    using assms(1) index_upto_same [OF assms(2)] by (simp add: goals_inv_def)
  moreover have "get_last_goal_id s' = get_last_goal_id s" "get_total_goals_created s' = get_total_goals_created s"
    "gl_user_goals s' = gl_user_goals s"
    using assms(2) by (simp_all add: same_registry_def get_last_goal_id_def get_total_goals_created_def)
  ultimately show ?thesis using assms(1,3) by (auto simp: goals_inv_def)
qed

lemma same_registry_map_le: "same_registry s s' \<Longrightarrow> holder s \<subseteq>\<^sub>m holder s'"
  by (simp add: same_registry_def)

lemma initialize_book:
  assumes run: "initialize a s = Inr (x, s')" and inv: "book_inv s"
  shows "book_inv s'"
proof -
  from run have adm: "gl_admin s = None" and s': "s' = s\<lparr>gl_admin := Some a, gl_last_batch := Some 0, gl_last_goal := Some 0,
      gl_total_goals := Some 0, gl_total_batches := Some 0, gl_default_alerts := Some default_deadline_alert_thresholds\<rparr>"
    by (auto simp: initialize_def split: if_splits)
  have h: "holder s' = holder s" by (rule holder_goals) (simp add: s')
  from inv adm have "index_upto 0 s" by (auto simp: book_inv_def goals_inv_def)
  moreover have "get_user_goals s' = get_user_goals s" by (rule ext) (simp add: s' get_user_goals_def)
  ultimately have "index_upto 0 s'" by (simp add: index_upto_def h)
  then have "goals_inv s'"
    by (simp add: goals_inv_def get_last_goal_id_def get_total_goals_created_def s')
  moreover have "prereqs_inv s'"
  proof (rule prereqs_inv_mono)
    show "prereqs_inv s" using inv by (simp add: book_inv_def)
    show "gl_prereqs s' = gl_prereqs s" by (simp add: s')
    show "holder s \<subseteq>\<^sub>m holder s'" unfolding h by simp
  qed
  ultimately show ?thesis by (simp add: book_inv_def)
qed

lemma goals_exec_book:
  assumes inv: "book_inv s" and run: "goals_exec c s = Inr s'"
  shows "book_inv s'"
proof -
  obtain e k where c: "c = (e, k)" by (cases c)
  from inv have gi: "goals_inv s" and pi: "prereqs_inv s" by (simp_all add: book_inv_def)
  show ?thesis
  proof (cases "creating k")
    case True
    then show ?thesis
    proof (cases k)
      case (CInitialize a)
      with run inv c initialize_book show ?thesis by auto
    next
      case (CCreateGoals a rs)
      with run c obtain x where "batch_set_savings_goals e a rs s = Inr (x, s')" by auto
      from batch_create_index [OF this gi] show ?thesis
        using prereqs_inv_mono [OF pi] by (simp add: book_inv_def)
    next
      case (CClone a i n)
      with run c obtain x where "clone_savings_goal e a i n s = Inr (x, s')" by auto
      from clone_index [OF this gi] show ?thesis
        using prereqs_inv_mono [OF pi] by (simp add: book_inv_def)
    qed simp_all
  next
    case False
    from goals_exec_quiet [OF run [unfolded c] False]
    have reg: "same_registry s s'" and adm: "gl_admin s' = None \<longleftrightarrow> gl_admin s = None"
      and pre: "\<not> (\<exists>a i ps. k = CPrereqs a i ps) \<longrightarrow> gl_prereqs s' = gl_prereqs s" by auto
    have "prereqs_inv s'"
    proof (cases "\<exists>a i ps. k = CPrereqs a i ps")
      case True
      with run c set_prereqs_inv [OF _ pi gi] show ?thesis by auto
    next
      case False
      with pre show ?thesis using prereqs_inv_mono [OF pi _ same_registry_map_le [OF reg]] by simp
    qed
    with goals_inv_same [OF gi reg adm] show ?thesis by (simp add: book_inv_def)
  qed
qed

interpretation goals_machine: contract_invariant goals_exec book_inv "\<lambda>_. True"
  by unfold_locales (rule goals_exec_book)

lemma goals_run_book: "book_inv (run goals_exec cs goals_fresh)"
  by (rule goals_machine.run_inv) (simp_all add: book_inv_fresh)

section \<open>What is never undone\<close>

definition history_kept :: "goals_state \<Rightarrow> goals_state \<Rightarrow> bool" where
  "history_kept s s' \<longleftrightarrow> gl_idempotency s \<subseteq>\<^sub>m gl_idempotency s' \<and> gl_certificate s \<subseteq>\<^sub>m gl_certificate s'"

lemma history_kept_refl [simp]: "history_kept s s"
  by (simp add: history_kept_def)

lemma history_kept_trans: "history_kept s t \<Longrightarrow> history_kept t u \<Longrightarrow> history_kept s u"
  by (auto simp: history_kept_def intro: map_le_trans)

lemma history_kept_fields:
  "gl_idempotency s' = gl_idempotency s \<Longrightarrow> gl_certificate s' = gl_certificate s \<Longrightarrow> history_kept s s'"
  by (simp add: history_kept_def)

lemma history_kept_emit [simp]: "history_kept s (emit ev s') \<longleftrightarrow> history_kept s s'"
  by (simp add: history_kept_def)

lemma check_history:
  assumes "check_and_emit_milestones e i s = Inr s'"
  shows "history_kept s s'"
proof (cases "gl_goal s i")
  case None
  with assms show ?thesis by (simp add: check_absent)
next
  case (Some g)
  then obtain p where "progress_of g = Some p" using check_progress [OF assms] by blast
  from check_certificate [OF assms Some this] check_frame(15) [OF assms]
  show ?thesis by (auto simp: history_kept_def map_le_def)
qed

lemma create_step_history:
  assumes "create_step e b rq u = Inr u'"
  shows "history_kept (cl_state u) (cl_state u')"
proof (cases "cl_counter u' = cl_counter u")
  case True
  with assms show ?thesis
    by (auto simp: create_step_def create_failure_def Let_def split: sum.splits option.splits)
next
  case False
  let ?i = "cl_counter u + 1"
  let ?s1 = "(put_goal ?i (goal_of_request ?i (env_timestamp e) rq) (cl_state u))
      \<lparr>gl_by_name := (gl_by_name (cl_state u))((gr_user rq, gr_name rq) \<mapsto> ?i)\<rparr>"
  from assms False obtain s2 where "check_and_emit_milestones e ?i ?s1 = Inr s2"
    "gl_idempotency (cl_state u') = gl_idempotency s2" "gl_certificate (cl_state u') = gl_certificate s2"
    by (auto simp: create_step_def create_failure_def Let_def split: sum.splits option.splits)
  then show ?thesis using check_history [of e ?i ?s1 s2] by (simp add: history_kept_def)
qed

lemma batch_create_history:
  assumes "batch_set_savings_goals e a rs s = Inr (x, s')"
  shows "history_kept s s'"
proof -
  from assms obtain b c u where fold: "fold_trap (create_step e b) rs
            \<lparr>cl_state = emit (BatchStarted b (length rs)) s, cl_results = [], cl_ok = 0,
             cl_failed = 0, cl_target = 0, cl_initial = 0, cl_counter = c\<rparr> = Inr u"
    and s': "gl_idempotency s' = gl_idempotency (cl_state u)" "gl_certificate s' = gl_certificate (cl_state u)"
    by (auto simp: batch_set_savings_goals_def Let_def split: if_splits option.splits sum.splits)
  have "history_kept s (cl_state u)"
    by (rule fold_trap_inv [OF fold]) (auto dest: create_step_history intro: history_kept_trans)
  with s' show ?thesis by (simp add: history_kept_def)
qed

lemma contribute_history:
  assumes "contribute_to_goal e a i n tok s = Inr (x, s')"
  shows "history_kept s s' \<and> gl_idempotency s' (a, i, tok) \<noteq> None"
proof -
  from assms obtain g s3 ev where none: "gl_idempotency s (a, i, tok) = None"
    and s3: "check_and_emit_milestones e i (booked e a i n tok g s) = Inr s3" and s': "s' = emit ev s3"
    unfolding contribute_Inr by blast
  have "history_kept s (booked e a i n tok g s)"
    using none by (auto simp: history_kept_def map_le_def)
  then have "history_kept s s3" using check_history [OF s3] by (rule history_kept_trans)
  moreover have "gl_idempotency s3 (a, i, tok) \<noteq> None" using check_frame(15) [OF s3] by simp
  ultimately show ?thesis by (simp add: s')
qed

lemma goals_exec_history:
  assumes run: "goals_exec c s = Inr s'"
  shows "history_kept s s'"
proof -
  obtain e k where c: "c = (e, k)" by (cases c)
  show ?thesis
  proof (cases k)
    case (CContribute a i n t)
    with run c contribute_history show ?thesis by auto
  next
    case (CCreateGoals a rs)
    with run c batch_create_history show ?thesis by auto
  next
    case (CMarkMilestones a rs)
    with run c batch_mark_same show ?thesis by (auto intro!: history_kept_fields)
  next
    case (CProcessAlerts i)
    with run c process_alerts_same show ?thesis by (auto intro!: history_kept_fields)
  next
    case (CCheckMilestones i)
    with run c check_history show ?thesis by auto
  next
    case (CPartialWithdraw a i n)
    with run c obtain g gross s1 where "check_and_emit_milestones e i (put_goal i (after_partial g gross) s) = Inr s1"
      "\<exists>ev. s' = emit ev s1" by (auto simp: partial_Inr)
    then show ?thesis by (auto dest!: check_history simp: history_kept_def)
  next
    case (CMerge a i j)
    with run c obtain src tgt s1 where "check_and_emit_milestones e j (merged i j src tgt s) = Inr s1"
      "\<exists>ev. s' = emit ev s1" by (auto simp: merge_Inr)
    then show ?thesis by (auto dest!: check_history simp: history_kept_def merged_def Let_def)
  qed (use run c in \<open>auto simp: goal_calls_Inr initialize_def clone_savings_goal_def set_admin_def
      record_goal_snapshot_def Let_def set_default_alert_thresholds_def set_goal_alert_thresholds_def
      intro!: history_kept_fields split: if_splits option.splits sum.splits\<close>)
qed

interpretation goals_history: contract_relation goals_exec history_kept "\<lambda>_. True"
  by unfold_locales (auto intro: history_kept_trans goals_exec_history)

section \<open>Properties\<close>

lemma check_prereqs_Inr:
  "check_prereqs s ps = Inr x \<longleftrightarrow> (\<forall>p \<in> set ps. \<exists>g. gl_goal s p = Some g \<and> sg_complete g)"
  by (induction ps) (auto split: option.splits)

lemma prereqs_unblocked:
  assumes inv: "prereqs_inv s" and g: "gl_goal s i = Some g"
  shows "\<exists>j gj. (i, j) \<in> (edges (gl_prereqs s))\<^sup>* \<and> gl_goal s j = Some gj \<and> sg_user gj = sg_user g
    \<and> check_prereqs s (unwrap_or (gl_prereqs s j) []) = Inr () \<and> (j = i \<or> \<not> sg_complete gj)"
proof -
  let ?E = "edges (gl_prereqs s)"
  have "finite ?E" using inv finite_edges by (simp add: prereqs_inv_def)
  with inv have "wf (?E\<inverse>)" by (simp add: prereqs_inv_def finite_acyclic_wf_converse)
  then show ?thesis using g
  proof (induction i arbitrary: g rule: wf_induct_rule)
    case (less i)
    show ?case
    proof (cases "check_prereqs s (unwrap_or (gl_prereqs s i) []) = Inr ()")
      case True
      with less.prems show ?thesis by blast
    next
      case False
      then obtain p where p: "(i, p) \<in> ?E" and open_p: "\<not> (\<exists>g. gl_goal s p = Some g \<and> sg_complete g)"
        by (auto simp: check_prereqs_Inr edges_def neighbours_def)
      from p inv obtain u where "holder s i = Some (i, u)" "holder s p = Some (p, u)"
        by (auto simp: prereqs_inv_def)
      with less.prems obtain gp where gp: "gl_goal s p = Some gp" "sg_user gp = sg_user g"
        by (auto simp: holder_def)
      from less.IH [OF _ gp(1)] p obtain j gj where j: "(p, j) \<in> ?E\<^sup>*" "gl_goal s j = Some gj" "sg_user gj = sg_user gp"
          "check_prereqs s (unwrap_or (gl_prereqs s j) []) = Inr ()" "j = p \<or> \<not> sg_complete gj"
        by auto
      then have "\<not> sg_complete gj" using open_p gp(1) by auto
      with j p gp(2) show ?thesis by (auto intro: converse_rtrancl_into_rtrancl)
    qed
  qed
qed

text \<open>Prerequisites never block for ever.  After any calls, from every goal the prerequisites lead to
  a goal of the same owner whose own prerequisites are all complete: the goal itself or one that is
  still incomplete.  So there is always a goal whose prerequisites do not stand in the way of a
  contribution.\<close>

theorem goals_prereqs_never_block:
  assumes "gl_goal (run goals_exec cs goals_fresh) i = Some g"
  shows "\<exists>j gj. (i, j) \<in> (edges (gl_prereqs (run goals_exec cs goals_fresh)))\<^sup>*
    \<and> gl_goal (run goals_exec cs goals_fresh) j = Some gj \<and> sg_user gj = sg_user g
    \<and> check_prereqs (run goals_exec cs goals_fresh)
        (unwrap_or (gl_prereqs (run goals_exec cs goals_fresh) j) []) = Inr ()
    \<and> (j = i \<or> \<not> sg_complete gj)"
  using prereqs_unblocked [OF _ assms] goals_run_book [of cs] by (simp add: book_inv_def)

text \<open>C33: The cycle check always answers, and answers right: after any calls the depth-first search
  \<open>has_dependency_path\<close> returns for every pair of goals, and finds a path exactly when one goal is
  reachable from the other along prerequisites; no goal is reachable from itself by one edge or more.\<close>

theorem goals_dependency_search_decides:
  "has_dependency_path (gl_prereqs (run goals_exec cs goals_fresh)) a b
     = Some ((a, b) \<in> (edges (gl_prereqs (run goals_exec cs goals_fresh)))\<^sup>*)
   \<and> acyclic (edges (gl_prereqs (run goals_exec cs goals_fresh)))"
proof -
  have "prereqs_inv (run goals_exec cs goals_fresh)" using goals_run_book [of cs] by (simp add: book_inv_def)
  then show ?thesis by (simp add: prereqs_inv_def has_dependency_path_iff)
qed

text \<open>The index of goals is exact.  After any calls the goals are numbered without gaps up to the last
  goal id, which is also the number of goals created, every goal carries its number, and
  \<open>get_user_goals\<close> lists exactly the goals of the user in the order of their creation.\<close>

theorem goals_index_exact:
  "dom (gl_goal (run goals_exec cs goals_fresh)) = {1..get_last_goal_id (run goals_exec cs goals_fresh)}
   \<and> get_total_goals_created (run goals_exec cs goals_fresh) = get_last_goal_id (run goals_exec cs goals_fresh)
   \<and> get_user_goals (run goals_exec cs goals_fresh) u
     = filter (\<lambda>i. \<exists>g. gl_goal (run goals_exec cs goals_fresh) i = Some g \<and> sg_id g = i \<and> sg_user g = u)
         [1..<Suc (get_last_goal_id (run goals_exec cs goals_fresh))]"
proof -
  let ?s = "run goals_exec cs goals_fresh"
  have inv: "goals_inv ?s" using goals_run_book [of cs] by (simp add: book_inv_def)
  have "dom (gl_goal ?s) = dom (holder ?s)" by (auto simp: holder_def dom_def)
  moreover have "(holder ?s i = Some (i, u)) \<longleftrightarrow> (\<exists>g. gl_goal ?s i = Some g \<and> sg_id g = i \<and> sg_user g = u)" for i
    by (auto simp: holder_def)
  ultimately show ?thesis using inv by (simp add: goals_inv_def index_upto_def)
qed

text \<open>A retried contribution is booked once.  After a contribution with an idempotency token has
  succeeded, no later call with the same owner, goal and token succeeds, whatever happens in between.\<close>

theorem goals_contribution_once:
  assumes "contribute_to_goal e a i n tok s = Inr (c, s1)"
  shows "\<exists>t. contribute_to_goal e' a i m tok (run goals_exec cs s1) = Inl t"
proof -
  from contribute_history [OF assms] obtain k where "gl_idempotency s1 (a, i, tok) = Some k" by auto
  moreover have "history_kept s1 (run goals_exec cs s1)" by (rule goals_history.run_rel) simp
  ultimately have "gl_idempotency (run goals_exec cs s1) (a, i, tok) = Some k"
    by (auto simp: history_kept_def map_le_def dom_def)
  then show ?thesis
    by (cases "contribute_to_goal e' a i m tok (run goals_exec cs s1)") (auto simp: contribute_Inr)
qed

lemma apply_contribution_value:
  assumes "in_i128 (sg_current g + n)" and "in_i128 (sg_target g - sg_current g)"
  shows "apply_contribution n g =
    (min (sg_target g) (sg_current g + n) - sg_current g,
     g\<lparr>sg_current := min (sg_target g) (sg_current g + n),
       sg_complete := (sg_target g \<le> sg_current g + n)\<rparr>)"
  using assms by (auto simp: apply_contribution_def Let_def checked_add_def min_def)

definition may_contribute :: "env \<Rightarrow> address \<Rightarrow> nat \<Rightarrow> int \<Rightarrow> bytes \<Rightarrow> savings_goal \<Rightarrow> goals_state \<Rightarrow> bool" where
  "may_contribute e a i n tok g s \<longleftrightarrow> env_auth e a \<and> sg_user g = a \<and> 0 < n \<and> tok \<noteq> []
     \<and> gl_idempotency s (a, i, tok) = None
     \<and> sg_active g \<and> \<not> (0 < sg_expires_at g \<and> sg_expires_at g \<le> env_timestamp e)
     \<and> (\<forall>p \<in> set (unwrap_or (gl_prereqs s i) []). \<exists>gp. gl_goal s p = Some gp \<and> sg_complete gp)"

lemma contribute_iff:
  assumes g: "gl_goal s i = Some g"
  shows "contribute_to_goal e a i n tok s = Inr (c, s') \<longleftrightarrow> may_contribute e a i n tok g s
    \<and> c = unwrap_or (gl_last_contrib s i) 0 + 1 \<and> in_u64 c
    \<and> (\<exists>s3. check_and_emit_milestones e i (booked e a i n tok g s) = Inr s3
        \<and> s' = emit (GoalContributed i a (fst (apply_contribution n g)) (sg_current (snd (apply_contribution n g)))) s3)"
  using g by (auto simp: contribute_Inr may_contribute_def check_prereqs_Inr)

text \<open>What a contribution does.  It succeeds exactly when the owner signs, the amount is positive, the
  token is new, the goal is active and not expired and all its prerequisites are complete; then the
  balance becomes the smaller of the target and the old balance plus the amount, and the recorded
  contribution is the change of the balance: negative, when the balance was above the target.\<close>

theorem goals_contribute_spec:
  assumes g: "gl_goal s i = Some g" and target: "0 < sg_target g" "sg_target g \<le> MAX_GOAL_AMOUNT"
    and current: "0 \<le> sg_current g" "sg_current g + n \<le> i128_max"
    and room: "in_u64 (unwrap_or (gl_last_contrib s i) 0 + 1)"
  shows "if may_contribute e a i n tok g s
    then \<exists>c s' rec g'. contribute_to_goal e a i n tok s = Inr (c, s')
      \<and> c = unwrap_or (gl_last_contrib s i) 0 + 1
      \<and> get_contribution_record s' i c = Some rec \<and> \<not> cr_reversed rec
      \<and> cr_amount rec = min (sg_target g) (sg_current g + n) - sg_current g
      \<and> get_goal s' i = Some g' \<and> sg_current g' = sg_current g + cr_amount rec
      \<and> sg_complete g' = (sg_target g \<le> sg_current g + n)
    else \<exists>t. contribute_to_goal e a i n tok s = Inl t"
proof (cases "may_contribute e a i n tok g s")
  case False
  then show ?thesis
    by (cases "contribute_to_goal e a i n tok s") (auto simp: contribute_iff [OF g])
next
  case True
  then have n: "0 < n" by (simp add: may_contribute_def)
  let ?b = "min (sg_target g) (sg_current g + n)" and ?s2 = "booked e a i n tok g s"
  have rng: "in_i128 (sg_current g + n)" "in_i128 (sg_target g - sg_current g)" "in_i128 (?b * 100)"
    using n target current by (auto simp: in_i128_def MAX_GOAL_AMOUNT_def min_def)
  note val = apply_contribution_value [OF rng(1,2)]
  have g2: "gl_goal ?s2 i = Some (snd (apply_contribution n g))" by simp
  have "progress_of (snd (apply_contribution n g)) \<noteq> None"
    using rng(3) target by (simp add: progress_of_def val checked_mul_def)
  then obtain s3 p where s3: "check_and_emit_milestones e i ?s2 = Inr s3"
    and p: "progress_of (snd (apply_contribution n g)) = Some p"
    using check_defined [of e i ?s2] g2 by auto
  have "contribute_to_goal e a i n tok s = Inr (unwrap_or (gl_last_contrib s i) 0 + 1,
      emit (GoalContributed i a (fst (apply_contribution n g)) (sg_current (snd (apply_contribution n g)))) s3)"
    using contribute_iff [OF g] True room s3 by blast
  with True show ?thesis
    using check_goal [OF s3 g2 p] check_frame(13) [OF s3]
    by (auto simp: get_contribution_record_def get_goal_def checked_goal_def val)
qed

lemma gross_value:
  assumes "in_i128 (n * int (sg_penalty_bps g))" and "in_i128 (n + n * int (sg_penalty_bps g) div 10000)" and "0 < n"
  shows "gross_withdrawal g n = Some (n + (if sg_complete g then 0 else n * int (sg_penalty_bps g) div 10000))"
proof -
  have "in_i128 n"
    using assms by (intro in_i128_between [OF in_i128_0 assms(2)]) (simp_all add: pos_imp_zdiv_nonneg_iff)
  with assms show ?thesis
    by (simp add: gross_withdrawal_def checked_mul_def checked_add_def quot_pos)
qed

text \<open>Withdrawals.  Both withdrawal functions succeed exactly when the owner signs, the goal is active
  or complete and not locked, and the balance covers the amount and its penalty; then both take the
  amount plus the penalty in basis points, rounded down and waived for a complete goal, off the
  balance, which does not become negative.\<close>

theorem goals_withdrawals_agree:
  assumes g: "gl_goal s i = Some g" and target: "0 < sg_target g"
    and current: "0 \<le> sg_current g" "sg_current g * 100 \<le> i128_max"
    and rng: "in_i128 (n * int (sg_penalty_bps g))" "in_i128 (n + n * int (sg_penalty_bps g) div 10000)"
    and b: "b = sg_current g - n - (if sg_complete g then 0 else n * int (sg_penalty_bps g) div 10000)"
  shows "((\<exists>s' g'. partial_withdraw e a i n s = Inr ((), s') \<and> get_goal s' i = Some g' \<and> sg_current g' = x)
       \<longleftrightarrow> may_withdraw e a g n \<and> 0 \<le> b \<and> x = b)
    \<and> ((\<exists>s' g'. withdraw_from_goal e a i n s = Inr (x, s') \<and> get_goal s' i = Some g' \<and> sg_current g' = x)
       \<longleftrightarrow> may_withdraw e a g n \<and> 0 \<le> b \<and> x = b)"
proof (cases "may_withdraw e a g n")
  case False
  with g show ?thesis by (simp add: partial_Inr withdraw_Inr)
next
  case True
  then have n: "0 < n" by (simp add: may_withdraw_def)
  define gross where "gross = n + (if sg_complete g then 0 else n * int (sg_penalty_bps g) div 10000)"
  have gw: "gross_withdrawal g n = Some gross" unfolding gross_def by (rule gross_value [OF rng n])
  have bg: "b = sg_current g - gross" by (simp add: b gross_def)
  have pos: "0 \<le> gross" using n by (simp add: gross_def pos_imp_zdiv_nonneg_iff)
  have "(\<exists>s' g'. partial_withdraw e a i n s = Inr ((), s') \<and> get_goal s' i = Some g' \<and> sg_current g' = x)
      \<longleftrightarrow> 0 \<le> b \<and> x = b"
  proof (cases "gross \<le> sg_current g")
    case False
    with g gw bg show ?thesis by (auto simp: partial_Inr)
  next
    case le: True
    let ?g1 = "after_partial g gross" and ?s1 = "put_goal i (after_partial g gross) s"
    have cur: "sg_current ?g1 = b" "sg_target ?g1 = sg_target g"
      using le pos current by (simp_all add: after_partial_def Let_def checked_sub_def in_i128_def bg)
    have "in_i128 (b * 100)" using le pos current by (simp add: in_i128_def bg)
    then obtain p where p: "progress_of ?g1 = Some p" using target by (simp add: progress_of_def cur checked_mul_def)
    have g1: "gl_goal ?s1 i = Some ?g1" by simp
    with p obtain s2 where s2: "check_and_emit_milestones e i ?s1 = Inr s2"
      using check_defined [of e i ?s1] by auto
    from check_goal [OF s2 g1 p] have "\<exists>g'. gl_goal s2 i = Some g' \<and> sg_current g' = b"
      by (simp add: checked_goal_def cur)
    with s2 g gw le True bg show ?thesis by (auto simp: partial_Inr get_goal_def)
  qed
  moreover have "in_i128 b" if "0 \<le> b"
    using that pos current by (simp add: in_i128_def bg)
  ultimately show ?thesis
    using g gw bg True by (auto simp: withdraw_Inr get_goal_def)
qed

lemma negative_progress:
  assumes t: "0 < sg_target g" and b: "sg_current g * 100 \<le> - sg_target g" "- 4000000000 * sg_target g \<le> sg_current g * 100"
    and rng: "in_i128 (sg_current g * 100)"
  shows "\<exists>p. progress_of g = Some p \<and> 100 \<le> p"
proof -
  let ?x = "sg_current g * 100" and ?q = "(- (sg_current g * 100)) div sg_target g"
  have neg: "?x < 0" using t b(1) by linarith
  then have q: "quot ?x (sg_target g) = - ?q" using t by (simp add: quot_def sgn_if)
  have "sg_target g div sg_target g \<le> ?q" by (rule zdiv_mono1) (use t b in simp_all)
  then have "1 \<le> ?q" using t by simp
  moreover have "?q \<le> 4000000000 * sg_target g div sg_target g" by (rule zdiv_mono1) (use t b in simp_all)
  then have "?q \<le> 4000000000" using t by simp
  ultimately have "(- ?q) mod 4294967296 = 4294967296 - ?q"
    by (simp add: mod_pos_pos_trivial zmod_zminus1_eq_if)
  with \<open>?q \<le> 4000000000\<close> have "100 \<le> as_u32 (- ?q)" by (simp add: as_u32_def)
  with t rng q show ?thesis by (simp add: progress_of_def checked_mul_def)
qed

lemma negative_certified:
  assumes g: "gl_goal s i = Some g" and t: "0 < sg_target g"
    and b: "sg_current g * 100 \<le> - sg_target g" "- 4000000000 * sg_target g \<le> sg_current g * 100"
    and rng: "in_i128 (sg_current g * 100)"
    and fresh: "100 \<notin> set (get_triggered_milestone_percents s i)" "get_certificate s i = None"
  shows "\<exists>s' cert pr. check_and_emit_milestones e i s = Inr s' \<and> get_certificate s' i = Some cert
    \<and> gc_user cert = sg_user g \<and> get_goal_progress s' i = Inr (Some pr) \<and> gp_percentage pr = 100
    \<and> gp_current pr = sg_current g"
proof -
  from negative_progress [OF t b rng] obtain p where p: "progress_of g = Some p" "100 \<le> p" by blast
  then obtain s' where s': "check_and_emit_milestones e i s = Inr s'"
    using check_defined [of e i s] g by auto
  let ?g' = "checked_goal p (unwrap_or (gl_percents s i) []) g"
  have "100 \<in> set (new_milestones (min p 100) (unwrap_or (gl_percents s i) []))"
    using p(2) fresh(1) by (simp add: new_milestones_mem get_triggered_milestone_percents_def)
  then have "\<exists>cert. get_certificate s' i = Some cert \<and> gc_user cert = sg_user g"
    using check_certificate [OF s' g p(1)] fresh(2) by (simp add: get_certificate_def)
  moreover have "gl_goal s' i = Some ?g'" using check_goal [OF s' g p(1)] by simp
  moreover have "progress_of ?g' = progress_of g" by (simp add: progress_of_def checked_goal_def)
  ultimately show ?thesis
    using s' p by (auto simp: get_goal_progress_def checked_goal_def)
qed

text \<open>C17: A reversal does not ask whether the money is still there.  Reversing a contribution takes the
  recorded amount off the balance even when it has been withdrawn since, so the balance becomes
  negative; a negative balance of at least one percent of the target counts as full progress, because
  the percentage is cast to \<open>u32\<close>, and the next check of the milestones issues the certificate of
  completion.\<close>

theorem goals_overdrawn_certified:
  assumes rev: "reverse_contribution e a i c s = Inr (b, s')" and g: "gl_goal s i = Some g" and t: "0 < sg_target g"
    and rec: "get_contribution_record s i c = Some rec" and rng: "in_i128 (sg_current g - cr_amount rec)"
    and bound: "(sg_current g - cr_amount rec) * 100 \<le> - sg_target g"
      "- 4000000000 * sg_target g \<le> (sg_current g - cr_amount rec) * 100" "in_i128 ((sg_current g - cr_amount rec) * 100)"
    and fresh: "100 \<notin> set (get_triggered_milestone_percents s i)" "get_certificate s i = None"
  shows "b = sg_current g - cr_amount rec \<and> b < 0
    \<and> (\<exists>s'' cert pr. check_and_emit_milestones e' i s' = Inr s'' \<and> get_certificate s'' i = Some cert
         \<and> gc_user cert = sg_user g \<and> get_goal_progress s'' i = Inr (Some pr) \<and> gp_percentage pr = 100
         \<and> gp_current pr = b)"
proof -
  let ?b = "sg_current g - cr_amount rec"
  let ?g' = "g\<lparr>sg_current := ?b, sg_complete := (sg_target g \<le> ?b)\<rparr>"
  from rev g rec rng have b: "b = ?b"
    and s': "s' = put_goal i ?g' (s\<lparr>gl_contribution := (gl_contribution s)((i, c) \<mapsto> rec\<lparr>cr_reversed := True\<rparr>)\<rparr>)"
    by (auto simp: reverse_Inr get_contribution_record_def)
  have g': "gl_goal s' i = Some ?g'" by (simp add: s')
  have "?b * 100 < 0" by (rule order_le_less_trans [OF bound(1)]) (use t in simp)
  then have "?b < 0" by simp
  moreover have "\<exists>s'' cert pr. check_and_emit_milestones e' i s' = Inr s'' \<and> get_certificate s'' i = Some cert
      \<and> gc_user cert = sg_user ?g' \<and> get_goal_progress s'' i = Inr (Some pr) \<and> gp_percentage pr = 100
      \<and> gp_current pr = sg_current ?g'"
    by (rule negative_certified [OF g'])
      (use t bound fresh in \<open>simp_all add: s' get_triggered_milestone_percents_def get_certificate_def\<close>)
  ultimately show ?thesis using b by simp
qed

text \<open>A history: address 1 is the admin, address 2 the owner of goals 1 and 2.\<close>

definition goals_demo_env :: "address \<Rightarrow> env" where
  "goals_demo_env a = signed_env [a] 10 1000 (Addr 9)"

definition goals_demo_request :: "symbol \<Rightarrow> goal_request" where
  "goals_demo_request n = \<lparr>gr_user = Addr 2, gr_name = n, gr_target = 10000000, gr_deadline = 500,
     gr_initial = 0, gr_priority = 1, gr_lock_seconds = 0, gr_penalty_bps = 500, gr_expiration_seconds = 0\<rparr>"

definition goals_demo_calls :: "(env \<times> goals_call) list" where
  "goals_demo_calls =
    [(goals_demo_env (Addr 1), CInitialize (Addr 1)),
     (goals_demo_env (Addr 1), CCreateGoals (Addr 1) [goals_demo_request ''car'', goals_demo_request ''house'']),
     (goals_demo_env (Addr 2), CPrereqs (Addr 2) 2 [1])]"

lemmas goals_eval = goals_demo_env_def goals_demo_request_def goals_demo_calls_def goals_fresh_def initialize_def
  batch_set_savings_goals_def create_step_def create_failure_def goal_of_request_def validate_goal_request_def
  validate_goal_name_unique_def is_valid_address_def is_valid_amount_def is_valid_deadline_def
  is_valid_initial_contribution_def goal_consts require_admin_def u64_add_def in_u64_def u64_saturating_add_def
  checked_add_def checked_mul_def in_i128_def check_and_emit_milestones_def milestone_loop_run new_milestones_def
  progress_of_def as_u32_def quot_def put_goal_def emit_def Let_def commit_def set_goal_prerequisites_def

lemma no_path [simp]: "has_dependency_path Map.empty a b = Some (a = b)"
  by (simp add: has_dependency_path_iff edges_def neighbours_def)

definition goals_demo :: goals_state where
  "goals_demo = run goals_exec goals_demo_calls goals_fresh"

lemma goals_demo_goal:
  "gl_goal goals_demo 1 = Some (goal_of_request 1 1000 (goals_demo_request ''car''))"
  "gl_goal goals_demo 2 = Some (goal_of_request 2 1000 (goals_demo_request ''house''))"
  "gl_last_contrib goals_demo 1 = None" "gl_idempotency goals_demo = Map.empty"
  "gl_prereqs goals_demo = [2 \<mapsto> [1]]" "gl_percents goals_demo 1 = Some []" "gl_certificate goals_demo 1 = None"
  unfolding goals_demo_def
  by (simp_all add: goals_eval)

lemma goals_demo_run: "goals_demo = run goals_exec goals_demo_calls goals_fresh"
  by (simp add: goals_demo_def)

theorem goals_prereqs_never_block_witness:
  "\<exists>j gj. (2, j) \<in> (edges (gl_prereqs goals_demo))\<^sup>* \<and> gl_goal goals_demo j = Some gj
    \<and> check_prereqs goals_demo (unwrap_or (gl_prereqs goals_demo j) []) = Inr () \<and> (j = 2 \<or> \<not> sg_complete gj)"
  using goals_prereqs_never_block [OF goals_demo_goal(2) [unfolded goals_demo_run]]
  unfolding goals_demo_run by blast

lemma goals_demo_may: "may_contribute (goals_demo_env (Addr 2)) (Addr 2) 1 6000000 [7]
    (goal_of_request 1 1000 (goals_demo_request ''car'')) goals_demo"
  by (simp add: may_contribute_def goals_demo_env_def goals_demo_request_def goal_of_request_def goals_demo_goal)

lemma goals_demo_contribute:
  "\<exists>s1. contribute_to_goal (goals_demo_env (Addr 2)) (Addr 2) 1 6000000 [7] goals_demo = Inr (1, s1)
    \<and> gl_goal s1 1 = Some ((goal_of_request 1 1000 (goals_demo_request ''car''))\<lparr>sg_current := 6000000\<rparr>)
    \<and> gl_contribution s1 (1, 1) = Some \<lparr>cr_amount = 6000000, cr_contributed_at = 1000, cr_token = [7], cr_reversed = False\<rparr>
    \<and> gl_percents s1 1 = Some [25, 50] \<and> gl_certificate s1 1 = None"
  by (simp add: contribute_to_goal_def goals_demo_goal goals_eval apply_contribution_def del: One_nat_def)

theorem goals_contribute_spec_witness:
  "\<exists>s' rec. contribute_to_goal (goals_demo_env (Addr 2)) (Addr 2) 1 6000000 [7] goals_demo = Inr (1, s')
    \<and> get_contribution_record s' 1 1 = Some rec \<and> cr_amount rec = 6000000"
proof -
  let ?g = "goal_of_request 1 1000 (goals_demo_request ''car'')"
  have rng: "0 < sg_target ?g" "sg_target ?g \<le> MAX_GOAL_AMOUNT" "0 \<le> sg_current ?g"
    "sg_current ?g + 6000000 \<le> i128_max" "in_u64 (unwrap_or (gl_last_contrib goals_demo 1) 0 + 1)"
    by (simp_all add: goal_of_request_def goals_demo_request_def goal_consts goals_demo_goal in_u64_def
        del: One_nat_def)
  from goals_contribute_spec [OF goals_demo_goal(1) rng, of "goals_demo_env (Addr 2)" "Addr 2" "[7]"]
    goals_demo_may
  show ?thesis by (auto simp: goals_demo_goal goal_of_request_def goals_demo_request_def simp del: One_nat_def)
qed

theorem goals_contribution_once_witness:
  "\<exists>s1 t. contribute_to_goal (goals_demo_env (Addr 2)) (Addr 2) 1 6000000 [7] goals_demo = Inr (1, s1)
    \<and> contribute_to_goal (goals_demo_env (Addr 2)) (Addr 2) 1 5 [7] (run goals_exec [] s1) = Inl t"
proof -
  obtain s1 where s1: "contribute_to_goal (goals_demo_env (Addr 2)) (Addr 2) 1 6000000 [7] goals_demo = Inr (1, s1)"
    using goals_demo_contribute by blast
  with goals_contribution_once [OF s1, of "goals_demo_env (Addr 2)" 5 "[]"] show ?thesis by blast
qed

theorem goals_withdrawals_agree_witness:
  "\<exists>(s1 :: goals_state) g1. gl_goal s1 1 = Some g1 \<and> sg_current g1 = 6000000
    \<and> (\<exists>s' g'. partial_withdraw (goals_demo_env (Addr 2)) (Addr 2) 1 1000000 s1 = Inr ((), s')
        \<and> get_goal s' 1 = Some g' \<and> sg_current g' = 4950000)
    \<and> (\<exists>s' g'. withdraw_from_goal (goals_demo_env (Addr 2)) (Addr 2) 1 1000000 s1 = Inr (4950000, s')
        \<and> get_goal s' 1 = Some g' \<and> sg_current g' = 4950000)"
proof -
  let ?g1 = "(goal_of_request 1 1000 (goals_demo_request ''car''))\<lparr>sg_current := 6000000\<rparr>"
  obtain s1 :: goals_state where g1: "gl_goal s1 1 = Some ?g1" using goals_demo_contribute by (elim exE conjE)
  have rng: "0 < sg_target ?g1" "0 \<le> sg_current ?g1" "sg_current ?g1 * 100 \<le> i128_max"
    "in_i128 (1000000 * int (sg_penalty_bps ?g1))" "in_i128 (1000000 + 1000000 * int (sg_penalty_bps ?g1) div 10000)"
    "4950000 = sg_current ?g1 - 1000000 - (if sg_complete ?g1 then 0 else 1000000 * int (sg_penalty_bps ?g1) div 10000)"
    by (simp_all add: goal_of_request_def goals_demo_request_def in_i128_def)
  have may: "may_withdraw (goals_demo_env (Addr 2)) (Addr 2) ?g1 1000000"
    by (simp add: may_withdraw_def goals_demo_env_def goal_of_request_def goals_demo_request_def)
  from goals_withdrawals_agree [OF g1 rng, of "goals_demo_env (Addr 2)" "Addr 2" 4950000] may g1
  show ?thesis by (intro exI [of _ s1] exI [of _ ?g1]) simp
qed

lemma goals_demo_overdraw:
  "\<exists>s1 s2. withdraw_from_goal (goals_demo_env (Addr 2)) (Addr 2) 1 5000000
        (commit goals_demo (goals_exec (goals_demo_env (Addr 2), CContribute (Addr 2) 1 6000000 [7]) goals_demo)) = Inr (750000, s1)
    \<and> reverse_contribution (goals_demo_env (Addr 2)) (Addr 2) 1 1 s1 = Inr (- 5250000, s2)
    \<and> gl_goal s1 1 = Some ((goal_of_request 1 1000 (goals_demo_request ''car''))\<lparr>sg_current := 750000\<rparr>)
    \<and> get_contribution_record s1 1 1 = Some \<lparr>cr_amount = 6000000, cr_contributed_at = 1000, cr_token = [7], cr_reversed = False\<rparr>
    \<and> get_triggered_milestone_percents s1 1 = [25, 50] \<and> get_certificate s1 1 = None"
proof -
  obtain s where run: "contribute_to_goal (goals_demo_env (Addr 2)) (Addr 2) 1 6000000 [7] goals_demo = Inr (1, s)"
    and s: "gl_goal s 1 = Some ((goal_of_request 1 1000 (goals_demo_request ''car''))\<lparr>sg_current := 6000000\<rparr>)"
      "gl_contribution s (1, 1) = Some \<lparr>cr_amount = 6000000, cr_contributed_at = 1000, cr_token = [7], cr_reversed = False\<rparr>"
      "gl_percents s 1 = Some [25, 50]" "gl_certificate s 1 = None"
    using goals_demo_contribute by blast
  have "commit goals_demo (goals_exec (goals_demo_env (Addr 2), CContribute (Addr 2) 1 6000000 [7]) goals_demo) = s"
    by (simp add: run del: One_nat_def)
  with s show ?thesis
    by (simp add: withdraw_from_goal_def reverse_contribution_def goal_of_request_def goals_demo_request_def
        goals_demo_env_def gross_withdrawal_def checked_mul_def checked_add_def checked_sub_def in_i128_def quot_def
        Let_def u64_saturating_add_def REVERSAL_PERIOD_SECS_def saturating_sub_def get_contribution_record_def
        get_triggered_milestone_percents_def get_certificate_def del: One_nat_def)
qed

theorem goals_overdrawn_certified_witness:
  "\<exists>s1 s2 s3 cert. withdraw_from_goal (goals_demo_env (Addr 2)) (Addr 2) 1 5000000
        (commit goals_demo (goals_exec (goals_demo_env (Addr 2), CContribute (Addr 2) 1 6000000 [7]) goals_demo)) = Inr (750000, s1)
    \<and> reverse_contribution (goals_demo_env (Addr 2)) (Addr 2) 1 1 s1 = Inr (- 5250000, s2)
    \<and> check_and_emit_milestones (goals_demo_env (Addr 5)) 1 s2 = Inr s3
    \<and> get_certificate s3 1 = Some cert \<and> gc_user cert = Addr 2"
proof -
  let ?g = "(goal_of_request 1 1000 (goals_demo_request ''car''))\<lparr>sg_current := 750000\<rparr>"
  let ?r = "\<lparr>cr_amount = 6000000, cr_contributed_at = 1000, cr_token = [7], cr_reversed = False\<rparr>"
  obtain s1 s2 where run: "withdraw_from_goal (goals_demo_env (Addr 2)) (Addr 2) 1 5000000
        (commit goals_demo (goals_exec (goals_demo_env (Addr 2), CContribute (Addr 2) 1 6000000 [7]) goals_demo)) = Inr (750000, s1)"
    and rev: "reverse_contribution (goals_demo_env (Addr 2)) (Addr 2) 1 1 s1 = Inr (- 5250000, s2)"
    and g: "gl_goal s1 1 = Some ?g" and rec: "get_contribution_record s1 1 1 = Some ?r"
    and tr: "get_triggered_milestone_percents s1 1 = [25, 50]" and none: "get_certificate s1 1 = None"
    using goals_demo_overdraw by blast
  have rng: "in_i128 (sg_current ?g - cr_amount ?r)" "(sg_current ?g - cr_amount ?r) * 100 \<le> - sg_target ?g"
    "- 4000000000 * sg_target ?g \<le> (sg_current ?g - cr_amount ?r) * 100" "in_i128 ((sg_current ?g - cr_amount ?r) * 100)"
    "0 < sg_target ?g"
    by (simp_all add: in_i128_def goal_of_request_def goals_demo_request_def)
  have "100 \<notin> set (get_triggered_milestone_percents s1 1)" by (simp add: tr del: One_nat_def)
  from goals_overdrawn_certified [OF rev g rng(5) rec rng(1-4) this none, of "goals_demo_env (Addr 5)"] run rev
  show ?thesis by (auto simp: goal_of_request_def goals_demo_request_def simp del: One_nat_def)
qed

end
