(* ===== verification/Schedule.thy ===== *)
theory Schedule
  imports Prelude
begin

text \<open>
  The schedule arithmetic that recurring payments (\<open>contracts/recurring-payment/src/lib.rs\<close>) and allowances
  (\<open>contracts/allowances/src/lib.rs\<close>) share: a slot that has come is moved by whole intervals to the first one
  after the current time.
\<close>

text \<open>The catch-up both branches of \<open>execute_payment\<close> share: a next execution that is already due is
  moved to the first slot after the current time.  \<open>None\<close> is an arithmetic panic.\<close>

definition catch_up :: "nat \<Rightarrow> nat \<Rightarrow> nat \<Rightarrow> nat option" where
  "catch_up current_time interval next_execution =
    (if next_execution \<le> current_time then
       if interval = 0 then None else
       let intervals_passed = (current_time - next_execution) div interval in
       case u64_add intervals_passed 1 of None \<Rightarrow> None | Some k \<Rightarrow>
       case u64_mul k interval of None \<Rightarrow> None | Some d \<Rightarrow>
       u64_add next_execution d
     else Some next_execution)"

text \<open>\<open>catch_up\<close> moves a due slot by whole intervals to the first one after the current time.\<close>

lemma catch_up_Some:
  assumes "catch_up now d nx = Some nx'" and "0 < d" and "nx \<le> now + d"
  shows "now < nx' \<and> nx' \<le> now + d \<and> nx \<le> nx' \<and> d dvd nx' - nx"
proof (cases "nx \<le> now")
  case True
  let ?q = "(now - nx) div d"
  have eq: "nx' = nx + (?q + 1) * d"
    using assms(1,2) True by (auto simp: catch_up_def Let_def split: option.splits)
  define r where "r = ?q * d"
  have "r \<le> now - nx" unfolding r_def by (rule div_times_less_eq_dividend)
  moreover have "now - nx < r + d"
    unfolding r_def using dividend_less_div_times [OF assms(2), of "now - nx"] by simp
  moreover have "nx' = nx + r + d" by (simp add: eq r_def)
  moreover have "d dvd r + d" by (simp add: r_def)
  ultimately show ?thesis using True by auto
next
  case False
  with assms(1,3) show ?thesis by (auto simp: catch_up_def)
qed

lemma catch_up_returns:
  assumes "0 < d" and "nx \<le> now + d" and "in_u64 (now + d)"
  shows "\<exists>nx'. catch_up now d nx = Some nx'"
proof (cases "nx \<le> now")
  case True
  let ?q = "(now - nx) div d"
  define r where "r = ?q * d"
  have "r \<le> now - nx" unfolding r_def by (rule div_times_less_eq_dividend)
  moreover have "?q \<le> r" using assms(1) by (simp add: r_def)
  moreover have "(?q + 1) * d = r + d" by (simp add: r_def)
  ultimately show ?thesis
    using True assms by (auto simp: catch_up_def Let_def u64_add_def u64_mul_def in_u64_def)
qed (simp add: catch_up_def)

end
