(* ===== verification/Recurring_Payment.thy ===== *)
theory Recurring_Payment
  imports Token Schedule
begin

text \<open>
  \<open>contracts/recurring-payment/src\<close>: recurring payments and recurring income streams (\<open>lib.rs\<close>,
  \<open>types.rs\<close>).  The state has one field per \<open>DataKey\<close>; an entry point works on the pair of this state
  and the ledger of the token contracts.  \<open>execute_payment\<close> calls two functions of the token, its
  \<open>balance\<close> (the parameter \<open>bal\<close>) and its \<open>transfer\<close> (the parameter \<open>xfer\<close>).  The contract has no error
  enumeration: every failure is a \<open>panic!\<close>, a failed \<open>expect\<close> or an arithmetic panic.
\<close>

section \<open>Data (types.rs)\<close>

record recurring_payment =
  rp_sender :: address
  rp_recipient :: address
  rp_token :: address
  rp_amount :: int
  rp_interval :: nat
  rp_next_execution :: nat
  rp_active :: bool
  rp_paused :: bool
  rp_execution_count :: nat
  rp_missed_count :: nat
  rp_last_missed_at :: nat

record income_stream =
  is_stream_id :: nat
  is_recipient :: address
  is_source :: symbol
  is_amount :: int
  is_interval_seconds :: nat
  is_next_payout :: nat
  is_target_goal_id :: nat
  is_active :: bool

datatype recurring_event =
    RecurCreated nat address
  | RecurMissed nat nat nat
  | RecurExecuted nat int nat
  | RecurCanceled nat address
  | RecurPaused nat address
  | RecurResumed nat address
  | IncomeCreated nat address symbol int
  | IncomeProcessed nat address int nat
  | IncomeCanceled nat address

record recurring_state =
  rs_payment :: "nat \<rightharpoonup> recurring_payment"
  rs_payment_count :: "nat option"
  rs_stream :: "nat \<rightharpoonup> income_stream"
  rs_stream_count :: "nat option"
  rs_user_streams :: "address \<rightharpoonup> nat list"
  rs_events :: "recurring_event list"

definition recurring_fresh :: recurring_state where
  "recurring_fresh = \<lparr>rs_payment = Map.empty, rs_payment_count = None, rs_stream = Map.empty,
     rs_stream_count = None, rs_user_streams = Map.empty, rs_events = []\<rparr>"

definition emit :: "recurring_event \<Rightarrow> recurring_state \<Rightarrow> recurring_state" where
  "emit ev s = s\<lparr>rs_events := rs_events s @ [ev]\<rparr>"

definition put_payment :: "nat \<Rightarrow> recurring_payment \<Rightarrow> recurring_state \<Rightarrow> recurring_state" where
  "put_payment i p s = s\<lparr>rs_payment := (rs_payment s)(i \<mapsto> p)\<rparr>"

definition put_stream :: "nat \<Rightarrow> income_stream \<Rightarrow> recurring_state \<Rightarrow> recurring_state" where
  "put_stream i p s = s\<lparr>rs_stream := (rs_stream s)(i \<mapsto> p)\<rparr>"

type_synonym ('led, 'a) recurring_outcome = "(recurring_state \<times> 'led, unit, 'a) outcome"

section \<open>Payments (lib.rs)\<close>

definition create_payment :: "env \<Rightarrow> address \<Rightarrow> address \<Rightarrow> address \<Rightarrow> int \<Rightarrow> nat \<Rightarrow> nat
    \<Rightarrow> recurring_state \<times> 'led \<Rightarrow> ('led, nat) recurring_outcome" where
  "create_payment e sender recipient token amount interval start_time w = (case w of (s, l) \<Rightarrow>
     if \<not> env_auth e sender then Inl AuthTrap else
     if amount \<le> 0 then Inl PanicTrap else
     if interval = 0 then Inl PanicTrap else
     case u64_add (unwrap_or (rs_payment_count s) 0) 1 of None \<Rightarrow> Inl ArithTrap | Some count \<Rightarrow>
     let payment = \<lparr>rp_sender = sender, rp_recipient = recipient, rp_token = token, rp_amount = amount,
                    rp_interval = interval, rp_next_execution = start_time, rp_active = True,
                    rp_paused = False, rp_execution_count = 0, rp_missed_count = 0, rp_last_missed_at = 0\<rparr>;
         s1 = (put_payment count payment s)\<lparr>rs_payment_count := Some count\<rparr>
     in Inr (count, emit (RecurCreated count sender) s1, l))"

definition execute_payment :: "'led xfer \<Rightarrow> ('led \<Rightarrow> address \<Rightarrow> address \<Rightarrow> int) \<Rightarrow> env \<Rightarrow> nat
    \<Rightarrow> recurring_state \<times> 'led \<Rightarrow> ('led, unit) recurring_outcome" where
  "execute_payment xfer bal e payment_id w = (case w of (s, l) \<Rightarrow>
     case rs_payment s payment_id of None \<Rightarrow> Inl PanicTrap | Some payment \<Rightarrow>
     if \<not> rp_active payment then Inl PanicTrap else
     if rp_paused payment then Inl PanicTrap else
     let current_time = env_timestamp e in
     if current_time < rp_next_execution payment then Inl PanicTrap else
     if \<not> env_auth e (rp_sender payment) then Inl AuthTrap else
     if bal l (rp_token payment) (rp_sender payment) < rp_amount payment then
       let missed = min u32_max (rp_missed_count payment + 1);
           next = u64_saturating_add (rp_next_execution payment) (rp_interval payment) in
       case catch_up current_time (rp_interval payment) next of None \<Rightarrow> Inl ArithTrap | Some next1 \<Rightarrow>
       let payment1 = payment\<lparr>rp_missed_count := missed, rp_last_missed_at := current_time,
                              rp_next_execution := next1\<rparr>
       in Inr ((), emit (RecurMissed payment_id missed current_time) (put_payment payment_id payment1 s), l)
     else
     case xfer e (rp_token payment) (rp_sender payment) (rp_recipient payment) (rp_amount payment) l of
       None \<Rightarrow> Inl CallTrap
     | Some l1 \<Rightarrow>
       case u64_add (rp_next_execution payment) (rp_interval payment) of None \<Rightarrow> Inl ArithTrap | Some next \<Rightarrow>
       case catch_up current_time (rp_interval payment) next of None \<Rightarrow> Inl ArithTrap | Some next1 \<Rightarrow>
       if \<not> in_u32 (rp_execution_count payment + 1) then Inl ArithTrap else
       let payment1 = payment\<lparr>rp_missed_count := 0, rp_last_missed_at := 0, rp_next_execution := next1,
                              rp_execution_count := rp_execution_count payment + 1\<rparr>
       in Inr ((), emit (RecurExecuted payment_id (rp_amount payment) next1) (put_payment payment_id payment1 s), l1))"

definition cancel_payment :: "env \<Rightarrow> nat \<Rightarrow> recurring_state \<times> 'led \<Rightarrow> ('led, unit) recurring_outcome" where
  "cancel_payment e payment_id w = (case w of (s, l) \<Rightarrow>
     case rs_payment s payment_id of None \<Rightarrow> Inl PanicTrap | Some payment \<Rightarrow>
     if \<not> env_auth e (rp_sender payment) then Inl AuthTrap else
     if \<not> rp_active payment then Inl PanicTrap else
     Inr ((), emit (RecurCanceled payment_id (rp_sender payment))
                (put_payment payment_id (payment\<lparr>rp_active := False\<rparr>) s), l))"

definition pause_payment :: "env \<Rightarrow> nat \<Rightarrow> recurring_state \<times> 'led \<Rightarrow> ('led, unit) recurring_outcome" where
  "pause_payment e payment_id w = (case w of (s, l) \<Rightarrow>
     case rs_payment s payment_id of None \<Rightarrow> Inl PanicTrap | Some payment \<Rightarrow>
     if \<not> env_auth e (rp_sender payment) then Inl AuthTrap else
     if \<not> rp_active payment then Inl PanicTrap else
     if rp_paused payment then Inl PanicTrap else
     Inr ((), emit (RecurPaused payment_id (rp_sender payment))
                (put_payment payment_id (payment\<lparr>rp_paused := True\<rparr>) s), l))"

definition resume_payment :: "env \<Rightarrow> nat \<Rightarrow> recurring_state \<times> 'led \<Rightarrow> ('led, unit) recurring_outcome" where
  "resume_payment e payment_id w = (case w of (s, l) \<Rightarrow>
     case rs_payment s payment_id of None \<Rightarrow> Inl PanicTrap | Some payment \<Rightarrow>
     if \<not> env_auth e (rp_sender payment) then Inl AuthTrap else
     if \<not> rp_active payment then Inl PanicTrap else
     if \<not> rp_paused payment then Inl PanicTrap else
     Inr ((), emit (RecurResumed payment_id (rp_sender payment))
                (put_payment payment_id (payment\<lparr>rp_paused := False\<rparr>) s), l))"

definition get_payment :: "recurring_state \<Rightarrow> nat \<Rightarrow> unit trap + recurring_payment" where
  "get_payment s payment_id = (case rs_payment s payment_id of None \<Rightarrow> Inl PanicTrap | Some p \<Rightarrow> Inr p)"

section \<open>Income streams (lib.rs)\<close>

definition create_income_stream :: "env \<Rightarrow> address \<Rightarrow> symbol \<Rightarrow> int \<Rightarrow> nat \<Rightarrow> nat
    \<Rightarrow> recurring_state \<times> 'led \<Rightarrow> ('led, nat) recurring_outcome" where
  "create_income_stream e recipient source amount interval_seconds target_goal_id w = (case w of (s, l) \<Rightarrow>
     if \<not> env_auth e recipient then Inl AuthTrap else
     if amount \<le> 0 then Inl PanicTrap else
     if interval_seconds = 0 then Inl PanicTrap else
     case u64_add (unwrap_or (rs_stream_count s) 0) 1 of None \<Rightarrow> Inl ArithTrap | Some count \<Rightarrow>
     case u64_add (env_timestamp e) interval_seconds of None \<Rightarrow> Inl ArithTrap | Some next_payout \<Rightarrow>
     let stream = \<lparr>is_stream_id = count, is_recipient = recipient, is_source = source, is_amount = amount,
                   is_interval_seconds = interval_seconds, is_next_payout = next_payout,
                   is_target_goal_id = target_goal_id, is_active = True\<rparr>;
         s1 = (put_stream count stream s)\<lparr>rs_stream_count := Some count\<rparr>;
         user_streams = unwrap_or (rs_user_streams s1 recipient) [] @ [count];
         s2 = s1\<lparr>rs_user_streams := (rs_user_streams s1)(recipient \<mapsto> user_streams)\<rparr>
     in Inr (count, emit (IncomeCreated count recipient source amount) s2, l))"

definition process_income :: "env \<Rightarrow> nat \<Rightarrow> recurring_state \<times> 'led \<Rightarrow> ('led, unit) recurring_outcome" where
  "process_income e stream_id w = (case w of (s, l) \<Rightarrow>
     case rs_stream s stream_id of None \<Rightarrow> Inl PanicTrap | Some stream \<Rightarrow>
     if \<not> is_active stream then Inl PanicTrap else
     let now = env_timestamp e in
     if now < is_next_payout stream then Inl PanicTrap else
     if is_interval_seconds stream = 0 then Inl ArithTrap else
     let elapsed = now - is_next_payout stream in
     case u64_add 1 (elapsed div is_interval_seconds stream) of None \<Rightarrow> Inl ArithTrap | Some cycles_due \<Rightarrow>
     let total_payout = unwrap_or (checked_mul (is_amount stream) (int cycles_due)) i128_max in
     case u64_mul cycles_due (is_interval_seconds stream) of None \<Rightarrow> Inl ArithTrap | Some advance \<Rightarrow>
     case u64_add (is_next_payout stream) advance of None \<Rightarrow> Inl ArithTrap | Some next \<Rightarrow>
     case (if next \<le> now then u64_add now (is_interval_seconds stream) else Some next) of
       None \<Rightarrow> Inl ArithTrap
     | Some next1 \<Rightarrow>
       Inr ((), emit (IncomeProcessed stream_id (is_recipient stream) total_payout cycles_due)
                  (put_stream stream_id (stream\<lparr>is_next_payout := next1\<rparr>) s), l))"

definition cancel_income_stream :: "env \<Rightarrow> nat \<Rightarrow> recurring_state \<times> 'led \<Rightarrow> ('led, unit) recurring_outcome" where
  "cancel_income_stream e stream_id w = (case w of (s, l) \<Rightarrow>
     case rs_stream s stream_id of None \<Rightarrow> Inl PanicTrap | Some stream \<Rightarrow>
     if \<not> env_auth e (is_recipient stream) then Inl AuthTrap else
     if \<not> is_active stream then Inl PanicTrap else
     Inr ((), emit (IncomeCanceled stream_id (is_recipient stream))
                (put_stream stream_id (stream\<lparr>is_active := False\<rparr>) s), l))"

definition get_income_stream :: "recurring_state \<Rightarrow> nat \<Rightarrow> unit trap + income_stream" where
  "get_income_stream s stream_id = (case rs_stream s stream_id of None \<Rightarrow> Inl PanicTrap | Some x \<Rightarrow> Inr x)"

definition get_user_income_streams :: "recurring_state \<Rightarrow> address \<Rightarrow> nat list" where
  "get_user_income_streams s user = unwrap_or (rs_user_streams s user) []"

section \<open>The contract\<close>

datatype recurring_call =
    CCreatePayment address address address int nat nat
  | CExecute nat
  | CCancel nat
  | CPause nat
  | CResume nat
  | CCreateStream address symbol int nat nat
  | CProcess nat
  | CCancelStream nat

fun recurring_exec :: "'led xfer \<Rightarrow> ('led \<Rightarrow> address \<Rightarrow> address \<Rightarrow> int) \<Rightarrow> env \<times> recurring_call
    \<Rightarrow> recurring_state \<times> 'led \<Rightarrow> unit trap + (recurring_state \<times> 'led)" where
  "recurring_exec xfer bal (e, CCreatePayment a b t n i st) w = final (create_payment e a b t n i st w)"
| "recurring_exec xfer bal (e, CExecute k) w = final (execute_payment xfer bal e k w)"
| "recurring_exec xfer bal (e, CCancel k) w = final (cancel_payment e k w)"
| "recurring_exec xfer bal (e, CPause k) w = final (pause_payment e k w)"
| "recurring_exec xfer bal (e, CResume k) w = final (resume_payment e k w)"
| "recurring_exec xfer bal (e, CCreateStream a src n i g) w = final (create_income_stream e a src n i g w)"
| "recurring_exec xfer bal (e, CProcess k) w = final (process_income e k w)"
| "recurring_exec xfer bal (e, CCancelStream k) w = final (cancel_income_stream e k w)"

section \<open>The schedule\<close>

lemma recurring_frame [simp]:
  "rs_payment (emit ev s) = rs_payment s" "rs_stream (emit ev s) = rs_stream s"
  "rs_payment_count (emit ev s) = rs_payment_count s" "rs_stream_count (emit ev s) = rs_stream_count s"
  "rs_user_streams (emit ev s) = rs_user_streams s" "rs_events (emit ev s) = rs_events s @ [ev]"
  "rs_payment (put_payment i p s) = (rs_payment s)(i \<mapsto> p)" "rs_stream (put_payment i p s) = rs_stream s"
  "rs_payment_count (put_payment i p s) = rs_payment_count s"
  "rs_stream_count (put_payment i p s) = rs_stream_count s"
  "rs_user_streams (put_payment i p s) = rs_user_streams s" "rs_events (put_payment i p s) = rs_events s"
  "rs_payment (put_stream i x s) = rs_payment s" "rs_stream (put_stream i x s) = (rs_stream s)(i \<mapsto> x)"
  "rs_payment_count (put_stream i x s) = rs_payment_count s"
  "rs_stream_count (put_stream i x s) = rs_stream_count s"
  "rs_user_streams (put_stream i x s) = rs_user_streams s" "rs_events (put_stream i x s) = rs_events s"
  by (simp_all add: emit_def put_payment_def put_stream_def)

definition same_terms :: "recurring_payment \<Rightarrow> recurring_payment \<Rightarrow> bool" where
  "same_terms p p' \<longleftrightarrow> rp_sender p' = rp_sender p \<and> rp_recipient p' = rp_recipient p
     \<and> rp_token p' = rp_token p \<and> rp_amount p' = rp_amount p \<and> rp_interval p' = rp_interval p"

text \<open>What calls up to the time \<open>T\<close> may do to a payment: its terms stay, its next execution moves
  forward by whole intervals and at most one interval beyond \<open>T\<close>, there are at most as many executions
  as intervals, and a cancelled payment stays as it is.\<close>

definition paced :: "nat \<Rightarrow> recurring_payment \<Rightarrow> recurring_payment \<Rightarrow> bool" where
  "paced T p p' \<longleftrightarrow> same_terms p p' \<and> rp_next_execution p \<le> rp_next_execution p'
     \<and> rp_execution_count p \<le> rp_execution_count p'
     \<and> (rp_execution_count p' - rp_execution_count p) * rp_interval p
         \<le> rp_next_execution p' - rp_next_execution p
     \<and> rp_interval p dvd rp_next_execution p' - rp_next_execution p
     \<and> rp_next_execution p' \<le> max (rp_next_execution p) (T + rp_interval p)
     \<and> (\<not> rp_active p \<longrightarrow> \<not> rp_active p' \<and> rp_execution_count p' = rp_execution_count p)"

lemma paced_refl [simp]: "paced T p p"
  by (simp add: paced_def same_terms_def)

lemma paced_trans:
  assumes "paced T p q" and "paced T q r"
  shows "paced T p r"
proof -
  let ?n = rp_next_execution and ?c = rp_execution_count
  have d: "rp_interval q = rp_interval p" using assms(1) by (simp add: paced_def same_terms_def)
  have le: "?n p \<le> ?n q" "?n q \<le> ?n r" "?c p \<le> ?c q" "?c q \<le> ?c r"
    using assms by (simp_all add: paced_def)
  have "(?c r - ?c p) * rp_interval p = (?c q - ?c p) * rp_interval p + (?c r - ?c q) * rp_interval p"
    using le by (simp add: distrib_right [symmetric])
  moreover have "(?c q - ?c p) * rp_interval p \<le> ?n q - ?n p" "(?c r - ?c q) * rp_interval p \<le> ?n r - ?n q"
    using assms d by (simp_all add: paced_def)
  moreover have "rp_interval p dvd (?n q - ?n p) + (?n r - ?n q)"
    using assms d by (intro dvd_add) (simp_all add: paced_def)
  moreover have "(?n q - ?n p) + (?n r - ?n q) = ?n r - ?n p" using le by simp
  ultimately have "(?c r - ?c p) * rp_interval p \<le> ?n r - ?n p" "rp_interval p dvd ?n r - ?n p" by auto
  with assms le d show ?thesis by (auto simp: paced_def same_terms_def)
qed

fun cycles_of :: "nat \<Rightarrow> recurring_event \<Rightarrow> nat" where
  "cycles_of i (IncomeProcessed j r payout cycles) = (if j = i then cycles else 0)"
| "cycles_of i _ = 0"

definition announced :: "nat \<Rightarrow> recurring_event list \<Rightarrow> nat" where
  "announced i evs = sum_list (map (cycles_of i) evs)"

lemma announced_simps [simp]:
  "announced i [] = 0" "announced i (xs @ ys) = announced i xs + announced i ys"
  "announced i [ev] = cycles_of i ev"
  by (simp_all add: announced_def)

definition same_stream_terms :: "income_stream \<Rightarrow> income_stream \<Rightarrow> bool" where
  "same_stream_terms x x' \<longleftrightarrow> is_recipient x' = is_recipient x \<and> is_amount x' = is_amount x
     \<and> is_interval_seconds x' = is_interval_seconds x"

definition recurring_wf :: "recurring_state \<Rightarrow> bool" where
  "recurring_wf s \<longleftrightarrow>
     (\<forall>i p. rs_payment s i = Some p \<longrightarrow> i \<le> unwrap_or (rs_payment_count s) 0 \<and> 0 < rp_interval p \<and> 0 < rp_amount p)
   \<and> (\<forall>i x. rs_stream s i = Some x \<longrightarrow> i \<le> unwrap_or (rs_stream_count s) 0 \<and> 0 < is_interval_seconds x \<and> 0 < is_amount x)"

definition progressed :: "nat \<Rightarrow> recurring_state \<Rightarrow> recurring_state \<Rightarrow> bool" where
  "progressed T s s' \<longleftrightarrow>
     (\<forall>i p. rs_payment s i = Some p \<and> in_u64 (T + rp_interval p) \<longrightarrow> (\<exists>p'. rs_payment s' i = Some p' \<and> paced T p p'))
   \<and> (\<exists>new. rs_events s' = rs_events s @ new \<and> (\<forall>i x. rs_stream s i = Some x \<longrightarrow>
        (\<exists>x'. rs_stream s' i = Some x' \<and> same_stream_terms x x'
           \<and> is_next_payout x' = is_next_payout x + announced i new * is_interval_seconds x)))"

lemma progressed_refl [simp]: "progressed T s s"
  by (auto simp: progressed_def same_stream_terms_def intro!: exI [of _ "[]"])

lemma progressed_trans:
  assumes "progressed T s t" and "progressed T t u"
  shows "progressed T s u"
proof -
  obtain n1 where n1: "rs_events t = rs_events s @ n1"
    and s1: "\<And>i x. rs_stream s i = Some x \<Longrightarrow> \<exists>x'. rs_stream t i = Some x' \<and> same_stream_terms x x'
      \<and> is_next_payout x' = is_next_payout x + announced i n1 * is_interval_seconds x"
    using assms(1) unfolding progressed_def by blast
  obtain n2 where n2: "rs_events u = rs_events t @ n2"
    and s2: "\<And>i x. rs_stream t i = Some x \<Longrightarrow> \<exists>x'. rs_stream u i = Some x' \<and> same_stream_terms x x'
      \<and> is_next_payout x' = is_next_payout x + announced i n2 * is_interval_seconds x"
    using assms(2) unfolding progressed_def by blast
  have "\<exists>x'. rs_stream u i = Some x' \<and> same_stream_terms x x'
      \<and> is_next_payout x' = is_next_payout x + announced i (n1 @ n2) * is_interval_seconds x"
    if "rs_stream s i = Some x" for i x
    using s1 [OF that] s2 [of i] by (fastforce simp: same_stream_terms_def distrib_right)
  moreover have "\<exists>p'. rs_payment u i = Some p' \<and> paced T p p'"
    if "rs_payment s i = Some p" "in_u64 (T + rp_interval p)" for i p
  proof -
    from assms(1) that obtain q where q: "rs_payment t i = Some q" "paced T p q"
      unfolding progressed_def by blast
    then have "in_u64 (T + rp_interval q)" using that(2) by (simp add: paced_def same_terms_def)
    with assms(2) q(1) obtain r where "rs_payment u i = Some r" "paced T q r"
      unfolding progressed_def by blast
    with q(2) show ?thesis by (auto intro: paced_trans)
  qed
  ultimately show ?thesis unfolding progressed_def using n1 n2 by (metis append_assoc)
qed

lemma progressed_payment:
  assumes "rs_payment s i = Some p" and "in_u64 (T + rp_interval p) \<Longrightarrow> paced T p p'"
    and "\<And>j. cycles_of j ev = 0"
  shows "progressed T s (emit ev (put_payment i p' s))"
  using assms by (auto simp: progressed_def same_stream_terms_def intro!: exI [of _ "[ev]"])

lemma progressed_stream:
  assumes "rs_stream s i = Some x" and "same_stream_terms x x'"
    and "is_next_payout x' = is_next_payout x + cycles_of i ev * is_interval_seconds x"
    and "\<And>j. j \<noteq> i \<Longrightarrow> cycles_of j ev = 0"
  shows "progressed T s (emit ev (put_stream i x' s))"
  using assms by (auto simp: progressed_def same_stream_terms_def intro!: exI [of _ "[ev]"])

lemma execute_Inr:
  assumes "execute_payment xfer bal e i (s, l) = Inr (u, s', l')"
  shows "\<exists>p nx. rs_payment s i = Some p \<and> rp_active p \<and> \<not> rp_paused p \<and> rp_next_execution p \<le> env_timestamp e
    \<and> env_auth e (rp_sender p)
    \<and> catch_up (env_timestamp e) (rp_interval p) (u64_saturating_add (rp_next_execution p) (rp_interval p)) = Some nx
    \<and> (bal l (rp_token p) (rp_sender p) < rp_amount p \<and> l' = l
        \<and> s' = emit (RecurMissed i (min u32_max (rp_missed_count p + 1)) (env_timestamp e))
            (put_payment i (p\<lparr>rp_missed_count := min u32_max (rp_missed_count p + 1),
               rp_last_missed_at := env_timestamp e, rp_next_execution := nx\<rparr>) s)
      \<or> rp_amount p \<le> bal l (rp_token p) (rp_sender p)
        \<and> in_u64 (rp_next_execution p + rp_interval p)
        \<and> xfer e (rp_token p) (rp_sender p) (rp_recipient p) (rp_amount p) l = Some l'
        \<and> s' = emit (RecurExecuted i (rp_amount p) nx)
            (put_payment i (p\<lparr>rp_missed_count := 0, rp_last_missed_at := 0, rp_next_execution := nx,
               rp_execution_count := rp_execution_count p + 1\<rparr>) s))"
proof -
  have sat: "u64_saturating_add a b = a + b" if "in_u64 (a + b)" for a b
    using that by (simp add: u64_saturating_add_def in_u64_def)
  from assms show ?thesis
    by (auto simp: execute_payment_def Let_def sat not_less split: option.splits if_splits)
qed

lemma executed_paced:
  assumes "catch_up now (rp_interval p) (u64_saturating_add (rp_next_execution p) (rp_interval p)) = Some nx"
    and "rp_next_execution p \<le> now" "now \<le> T" "0 < rp_interval p" "in_u64 (T + rp_interval p)" "rp_active p"
    and "same_terms p p'" "rp_next_execution p' = nx" "rp_execution_count p' = rp_execution_count p + k" "k \<le> Suc 0"
  shows "paced T p p'"
proof -
  let ?n = "rp_next_execution p" and ?d = "rp_interval p"
  have "u64_saturating_add ?n ?d = ?n + ?d"
    using assms(2,3,5) by (simp add: u64_saturating_add_def in_u64_def)
  then have c: "now < nx" "nx \<le> now + ?d" "?n + ?d \<le> nx" "?d dvd nx - (?n + ?d)"
    using catch_up_Some [OF assms(1,4)] assms(2) by auto
  have "nx - ?n = (nx - (?n + ?d)) + ?d" using c(3) by simp
  then have "?d dvd nx - ?n" using c(4) by simp
  moreover have "k * ?d \<le> nx - ?n" using assms(10) c(3) by (cases k) auto
  ultimately show ?thesis using assms c by (auto simp: paced_def)
qed

lemma process_Inr:
  assumes "process_income e i (s, l) = Inr (u, s', l')" and wf: "recurring_wf s"
  shows "\<exists>x. rs_stream s i = Some x \<and> is_active x \<and> is_next_payout x \<le> env_timestamp e \<and> 0 < is_interval_seconds x
    \<and> (let k = 1 + (env_timestamp e - is_next_payout x) div is_interval_seconds x;
           nx = is_next_payout x + k * is_interval_seconds x
       in env_timestamp e < nx \<and> in_u64 nx \<and> l' = l
        \<and> s' = emit (IncomeProcessed i (is_recipient x) (min i128_max (is_amount x * int k)) k)
                 (put_stream i (x\<lparr>is_next_payout := nx\<rparr>) s))"
proof -
  from assms obtain x where x: "rs_stream s i = Some x" "is_active x" "is_next_payout x \<le> env_timestamp e"
    "0 < is_interval_seconds x"
    by (auto simp: process_income_def Let_def not_less split: option.splits if_splits)
  define d where "d = is_interval_seconds x"
  define k where "k = 1 + (env_timestamp e - is_next_payout x) div d"
  define nx where "nx = is_next_payout x + k * d"
  have after: "env_timestamp e < nx"
    using dividend_less_div_times [of d "env_timestamp e - is_next_payout x"] x(3,4)
    by (simp add: nx_def k_def d_def)
  have payout: "unwrap_or (checked_mul (is_amount x) (int k)) i128_max = min i128_max (is_amount x * int k)"
  proof -
    have "0 < is_amount x" using wf x(1) by (simp add: recurring_wf_def)
    then have "0 \<le> is_amount x * int k" by simp
    then show ?thesis by (auto simp: checked_mul_def in_i128_def)
  qed
  show ?thesis
    using assms x after payout unfolding nx_def k_def d_def
    by (auto simp: process_income_def Let_def not_less split: option.splits if_splits)
qed

lemma progressed_new:
  assumes "rs_payment s' = (rs_payment s)(i := x)" "rs_stream s' = (rs_stream s)(j := y)"
    and "rs_payment s i = None \<or> x = rs_payment s i" "rs_stream s j = None \<or> y = rs_stream s j"
    and "rs_events s' = rs_events s @ [ev]" "\<And>k. cycles_of k ev = 0"
  shows "progressed T s s'"
proof -
  have "rs_payment s' k = rs_payment s k" if "rs_payment s k \<noteq> None" for k
    using assms(1,3) that by auto
  moreover have "rs_stream s' k = rs_stream s k" if "rs_stream s k \<noteq> None" for k
    using assms(2,4) that by auto
  ultimately show ?thesis
    using assms(5,6) by (fastforce simp: progressed_def same_stream_terms_def)
qed

lemma wf_payment:
  "recurring_wf s \<Longrightarrow> rs_payment s i = Some p \<Longrightarrow> rp_interval p' = rp_interval p \<Longrightarrow> rp_amount p' = rp_amount p
   \<Longrightarrow> recurring_wf (emit ev (put_payment i p' s))"
  by (auto simp: recurring_wf_def)

lemma wf_stream:
  "recurring_wf s \<Longrightarrow> rs_stream s i = Some x \<Longrightarrow> is_interval_seconds x' = is_interval_seconds x
   \<Longrightarrow> is_amount x' = is_amount x \<Longrightarrow> recurring_wf (emit ev (put_stream i x' s))"
  by (auto simp: recurring_wf_def)

lemma execute_effect:
  assumes "execute_payment xfer bal e i (s, l) = Inr (u, s', l')"
  obtains (effect) p nx ev p' k where "rs_payment s i = Some p" "rp_active p" "rp_next_execution p \<le> env_timestamp e"
    and "catch_up (env_timestamp e) (rp_interval p) (u64_saturating_add (rp_next_execution p) (rp_interval p)) = Some nx"
    and "s' = emit ev (put_payment i p' s)" "\<forall>j. cycles_of j ev = 0"
    and "same_terms p p'" "rp_next_execution p' = nx" "rp_execution_count p' = rp_execution_count p + k" "k \<le> Suc 0"
proof -
  from execute_Inr [OF assms] obtain p nx where
    p: "rs_payment s i = Some p" "rp_active p" "rp_next_execution p \<le> env_timestamp e"
      "catch_up (env_timestamp e) (rp_interval p) (u64_saturating_add (rp_next_execution p) (rp_interval p)) = Some nx"
    and alt: "s' = emit (RecurMissed i (min u32_max (rp_missed_count p + 1)) (env_timestamp e))
            (put_payment i (p\<lparr>rp_missed_count := min u32_max (rp_missed_count p + 1),
               rp_last_missed_at := env_timestamp e, rp_next_execution := nx\<rparr>) s)
      \<or> s' = emit (RecurExecuted i (rp_amount p) nx)
            (put_payment i (p\<lparr>rp_missed_count := 0, rp_last_missed_at := 0, rp_next_execution := nx,
               rp_execution_count := rp_execution_count p + 1\<rparr>) s)"
    by metis
  from alt show thesis
  proof (elim disjE)
    show thesis if "s' = emit (RecurMissed i (min u32_max (rp_missed_count p + 1)) (env_timestamp e)) (put_payment i
        (p\<lparr>rp_missed_count := min u32_max (rp_missed_count p + 1), rp_last_missed_at := env_timestamp e,
           rp_next_execution := nx\<rparr>) s)"
      by (rule effect [OF p \<open>s' = _\<close>, where k = 0]) (simp_all add: same_terms_def)
    show thesis if "s' = emit (RecurExecuted i (rp_amount p) nx) (put_payment i
        (p\<lparr>rp_missed_count := 0, rp_last_missed_at := 0, rp_next_execution := nx,
           rp_execution_count := rp_execution_count p + 1\<rparr>) s)"
      by (rule effect [OF p \<open>s' = _\<close>, where k = 1]) (simp_all add: same_terms_def)
  qed
qed

lemma wf_free:
  "recurring_wf s \<Longrightarrow> rs_payment s (Suc (unwrap_or (rs_payment_count s) 0)) = None"
  "recurring_wf s \<Longrightarrow> rs_stream s (Suc (unwrap_or (rs_stream_count s) 0)) = None"
  unfolding recurring_wf_def by (metis not_less_eq_eq order_refl option.exhaust)+

lemma recurring_exec_step:
  assumes "recurring_exec xfer bal (e, call) (s, l) = Inr (s', l')" and wf: "recurring_wf s"
    and T: "env_timestamp e \<le> T"
  shows "recurring_wf s' \<and> progressed T s s'"
proof (cases call)
  case (CCreatePayment a b t n d st)
  let ?k = "Suc (unwrap_or (rs_payment_count s) 0)"
  let ?p = "\<lparr>rp_sender = a, rp_recipient = b, rp_token = t, rp_amount = n, rp_interval = d,
     rp_next_execution = st, rp_active = True, rp_paused = False, rp_execution_count = 0, rp_missed_count = 0,
     rp_last_missed_at = 0\<rparr>"
  from assms(1) CCreatePayment have new: "0 < n" "0 < d"
    "s' = emit (RecurCreated ?k a) ((put_payment ?k ?p s)\<lparr>rs_payment_count := Some ?k\<rparr>)"
    by (auto simp: create_payment_def Let_def split: if_splits option.splits)
  note free = wf_free(1) [OF wf]
  have "progressed T s s'"
    using free by (intro progressed_new [where i = ?k and x = "Some ?p" and j = 0 and y = "rs_stream s 0"]) (auto simp: new(3))
  with wf new show ?thesis by (fastforce simp: recurring_wf_def)
next
  case (CCreateStream a src n d g)
  let ?k = "Suc (unwrap_or (rs_stream_count s) 0)"
  define x where "x = \<lparr>is_stream_id = ?k, is_recipient = a, is_source = src, is_amount = n,
     is_interval_seconds = d, is_next_payout = env_timestamp e + d, is_target_goal_id = g, is_active = True\<rparr>"
  from assms(1) CCreateStream have new: "0 < n" "0 < d" "rs_payment s' = rs_payment s"
    "rs_stream s' = (rs_stream s)(?k \<mapsto> x)" "rs_payment_count s' = rs_payment_count s" "rs_stream_count s' = Some ?k"
    "rs_events s' = rs_events s @ [IncomeCreated ?k a src n]"
    by (auto simp: x_def create_income_stream_def Let_def split: if_splits option.splits)
  note free = wf_free(2) [OF wf]
  have "progressed T s s'"
    using free new by (intro progressed_new [where i = 0 and x = "rs_payment s 0" and j = ?k and y = "Some x"]) auto
  with wf new show ?thesis by (fastforce simp: recurring_wf_def x_def)
next
  case (CExecute i)
  with assms(1) obtain u where "execute_payment xfer bal e i (s, l) = Inr (u, s', l')" by auto
  then obtain p nx ev p' k where
    p: "rs_payment s i = Some p" "rp_active p" "rp_next_execution p \<le> env_timestamp e"
    and nx: "catch_up (env_timestamp e) (rp_interval p) (u64_saturating_add (rp_next_execution p) (rp_interval p)) = Some nx"
    and s': "s' = emit ev (put_payment i p' s)" "\<forall>j. cycles_of j ev = 0"
    and p': "same_terms p p'" "rp_next_execution p' = nx" "rp_execution_count p' = rp_execution_count p + k" "k \<le> Suc 0"
    by (rule execute_effect)
  have "0 < rp_interval p" using wf p(1) by (simp add: recurring_wf_def)
  then have "in_u64 (T + rp_interval p) \<Longrightarrow> paced T p p'"
    using executed_paced [OF nx p(3) T _ _ p(2) p'] by simp
  then show ?thesis
    unfolding s'(1) using wf p p'(1) s'(2) by (auto intro!: wf_payment progressed_payment simp: same_terms_def)
next
  case (CProcess i)
  with assms(1) obtain u where "process_income e i (s, l) = Inr (u, s', l')" by auto
  from process_Inr [OF this wf] show ?thesis
    by (auto simp: Let_def same_stream_terms_def intro!: wf_stream [OF wf] progressed_stream)
qed (use assms(1) wf in \<open>auto simp: cancel_payment_def pause_payment_def resume_payment_def cancel_income_stream_def
       paced_def same_terms_def same_stream_terms_def split: if_splits option.splits
       intro!: wf_payment wf_stream progressed_payment progressed_stream\<close>)

interpretation recurring_machine:
  contract_invariant "recurring_exec xfer bal" "\<lambda>w. recurring_wf (fst w)" "\<lambda>_. True" for xfer :: "'led xfer" and bal
proof unfold_locales
  fix w w' :: "recurring_state \<times> 'led" and ec
  assume "recurring_wf (fst w)" and "recurring_exec xfer bal ec w = Inr w'"
  then show "recurring_wf (fst w')"
    by (cases ec; cases w; cases w') (auto dest: recurring_exec_step)
qed

interpretation recurring_history:
  contract_relation "recurring_exec xfer bal"
    "\<lambda>w w'. recurring_wf (fst w) \<longrightarrow> recurring_wf (fst w') \<and> progressed T (fst w) (fst w')"
    "\<lambda>ec. env_timestamp (fst ec) \<le> T" for xfer :: "'led xfer" and bal T
proof unfold_locales
  fix w w' :: "recurring_state \<times> 'led" and ec
  assume "env_timestamp (fst ec) \<le> T" and "recurring_exec xfer bal ec w = Inr w'"
  then show "recurring_wf (fst w) \<longrightarrow> recurring_wf (fst w') \<and> progressed T (fst w) (fst w')"
    by (cases ec; cases w; cases w') (auto dest: recurring_exec_step)
qed (auto intro: progressed_trans)

lemma recurring_fresh_wf: "recurring_wf recurring_fresh"
  by (simp add: recurring_wf_def recurring_fresh_def)

lemma run_progressed:
  assumes "run (recurring_exec xfer bal) cs0 (recurring_fresh, l0) = (s, l)"
    and "run (recurring_exec xfer bal) cs (s, l) = (s', l')" and "\<And>ec. ec \<in> set cs \<Longrightarrow> env_timestamp (fst ec) \<le> T"
  shows "recurring_wf s \<and> progressed T s s'"
proof -
  have "recurring_wf s"
    using recurring_machine.run_inv [of "(recurring_fresh, l0)" cs0 xfer bal] assms(1) recurring_fresh_wf by simp
  with recurring_history.run_rel [of cs T "(s, l)" xfer bal] assms(2,3) show ?thesis by simp
qed

section \<open>Properties\<close>

text \<open>C26: A recurring payment is never executed more often than its interval allows.  From any reachable
  state, over any calls made up to the time \<open>T\<close>, the payment keeps its parties, token and amount, its
  next execution stays on the grid of the schedule and at most one interval after \<open>T\<close>, and the number of
  new executions is at most the number of intervals from the old next execution to that bound; a
  cancelled payment is never executed again.\<close>

theorem recurring_pace:
  assumes "run (recurring_exec xfer bal) cs0 (recurring_fresh, l0) = (s, l)"
    and "run (recurring_exec xfer bal) cs (s, l) = (s', l')" and "\<And>ec. ec \<in> set cs \<Longrightarrow> env_timestamp (fst ec) \<le> T"
    and "rs_payment s i = Some p" and "in_u64 (T + rp_interval p)"
  shows "\<exists>p'. rs_payment s' i = Some p' \<and> same_terms p p'
    \<and> rp_interval p dvd rp_next_execution p' - rp_next_execution p
    \<and> rp_next_execution p \<le> rp_next_execution p'
    \<and> rp_next_execution p' \<le> max (rp_next_execution p) (T + rp_interval p)
    \<and> rp_execution_count p' \<le> rp_execution_count p + (T + rp_interval p - rp_next_execution p) div rp_interval p
    \<and> (\<not> rp_active p \<longrightarrow> \<not> rp_active p' \<and> rp_execution_count p' = rp_execution_count p)"
proof -
  note run = run_progressed [OF assms(1-3)]
  then obtain p' where p': "rs_payment s' i = Some p'" "paced T p p'"
    using assms(4,5) unfolding progressed_def by blast
  let ?d = "rp_interval p" and ?n = rp_next_execution
  have pos: "0 < ?d" using run assms(4) by (simp add: recurring_wf_def)
  have "(rp_execution_count p' - rp_execution_count p) * ?d \<le> ?n p' - ?n p" using p'(2) by (simp add: paced_def)
  also have "\<dots> \<le> T + ?d - ?n p" using p'(2) by (auto simp: paced_def max_def split: if_splits)
  finally have "rp_execution_count p' - rp_execution_count p \<le> (T + ?d - ?n p) div ?d"
    using pos by (simp add: less_eq_div_iff_mult_less_eq)
  with p' show ?thesis by (auto simp: paced_def)
qed

text \<open>What one execution does.  It runs only when the payment is active, not paused and due and the
  sender signs.  When the sender's balance covers the amount, exactly the amount moves from sender to
  recipient and the execution is counted; otherwise no money moves and a missed execution is counted.
  In both cases the next execution is later than now, by at most one interval.\<close>

theorem recurring_execute_spec:
  assumes "token_client xfer bal" and "recurring_wf s" and "in_u64 (env_timestamp e + rp_interval p)"
    and "rs_payment s i = Some p" and "rp_sender p \<noteq> rp_recipient p"
    and "execute_payment xfer bal e i (s, l) = Inr (u, s', l')"
  shows "rp_active p \<and> \<not> rp_paused p \<and> rp_next_execution p \<le> env_timestamp e \<and> env_auth e (rp_sender p)
    \<and> (\<exists>p'. rs_payment s' = (rs_payment s)(i \<mapsto> p') \<and> same_terms p p'
        \<and> env_timestamp e < rp_next_execution p' \<and> rp_next_execution p' \<le> env_timestamp e + rp_interval p
        \<and> (if rp_amount p \<le> bal l (rp_token p) (rp_sender p)
           then rp_execution_count p' = rp_execution_count p + 1 \<and> rp_missed_count p' = 0
              \<and> bal l' (rp_token p) (rp_sender p) = bal l (rp_token p) (rp_sender p) - rp_amount p
              \<and> bal l' (rp_token p) (rp_recipient p) = bal l (rp_token p) (rp_recipient p) + rp_amount p
           else rp_execution_count p' = rp_execution_count p \<and> l' = l
              \<and> rp_missed_count p' = min u32_max (rp_missed_count p + 1)))"
proof -
  from execute_Inr [OF assms(6)] assms(4) obtain nx where
    pre: "rp_active p" "\<not> rp_paused p" "rp_next_execution p \<le> env_timestamp e" "env_auth e (rp_sender p)"
    and nx: "catch_up (env_timestamp e) (rp_interval p) (u64_saturating_add (rp_next_execution p) (rp_interval p)) = Some nx"
    and s': "bal l (rp_token p) (rp_sender p) < rp_amount p \<and> l' = l
        \<and> s' = emit (RecurMissed i (min u32_max (rp_missed_count p + 1)) (env_timestamp e))
            (put_payment i (p\<lparr>rp_missed_count := min u32_max (rp_missed_count p + 1),
               rp_last_missed_at := env_timestamp e, rp_next_execution := nx\<rparr>) s)
      \<or> rp_amount p \<le> bal l (rp_token p) (rp_sender p)
        \<and> xfer e (rp_token p) (rp_sender p) (rp_recipient p) (rp_amount p) l = Some l'
        \<and> s' = emit (RecurExecuted i (rp_amount p) nx)
            (put_payment i (p\<lparr>rp_missed_count := 0, rp_last_missed_at := 0, rp_next_execution := nx,
               rp_execution_count := rp_execution_count p + 1\<rparr>) s)"
    by auto
  have "0 < rp_interval p" using assms(2,4) by (simp add: recurring_wf_def)
  moreover have "u64_saturating_add (rp_next_execution p) (rp_interval p) \<le> env_timestamp e + rp_interval p"
    using pre(3) by (simp add: u64_saturating_add_def)
  ultimately have "env_timestamp e < nx" "nx \<le> env_timestamp e + rp_interval p"
    using catch_up_Some [OF nx] by auto
  then have later: "env_timestamp e < nx \<and> nx \<le> env_timestamp e + rp_interval p" by simp
  show ?thesis
  proof (cases "rp_amount p \<le> bal l (rp_token p) (rp_sender p)")
    case True
    with s' have paid: "xfer e (rp_token p) (rp_sender p) (rp_recipient p) (rp_amount p) l = Some l'"
      and st: "s' = emit (RecurExecuted i (rp_amount p) nx)
            (put_payment i (p\<lparr>rp_missed_count := 0, rp_last_missed_at := 0, rp_next_execution := nx,
               rp_execution_count := rp_execution_count p + 1\<rparr>) s)" by auto
    show ?thesis
      unfolding token_client.xfer_debit [OF assms(1) paid assms(5)] token_client.xfer_credit [OF assms(1) paid assms(5)]
      using True pre later by (auto simp: st same_terms_def)
  next
    case False
    with s' pre later show ?thesis by (auto simp: same_terms_def)
  qed
qed

text \<open>No income cycle is lost or announced twice.  From any reachable state on, the next payout of a
  stream has moved exactly by its interval times the number of cycles that the published payouts of
  that stream add up to; the stream's recipient and amount never change.\<close>

theorem income_cycles_exact:
  assumes "run (recurring_exec xfer bal) cs0 (recurring_fresh, l0) = (s, l)"
    and "run (recurring_exec xfer bal) cs (s, l) = (s', l')" and "rs_stream s i = Some x"
  shows "\<exists>x' new. rs_stream s' i = Some x' \<and> same_stream_terms x x' \<and> rs_events s' = rs_events s @ new
    \<and> is_next_payout x' = is_next_payout x + announced i new * is_interval_seconds x"
proof -
  have "ec \<in> set cs \<Longrightarrow> env_timestamp (fst ec) \<le> Max (insert 0 ((env_timestamp \<circ> fst) ` set cs))" for ec
    by (intro Max_ge) auto
  then have "progressed (Max (insert 0 ((env_timestamp \<circ> fst) ` set cs))) s s'"
    using run_progressed [OF assms(1,2)] by blast
  then have "\<exists>new. rs_events s' = rs_events s @ new \<and> (\<forall>i x. rs_stream s i = Some x \<longrightarrow>
      (\<exists>x'. rs_stream s' i = Some x' \<and> same_stream_terms x x'
         \<and> is_next_payout x' = is_next_payout x + announced i new * is_interval_seconds x))"
    unfolding progressed_def by (elim conjE)
  with assms(3) show ?thesis by meson
qed

section \<open>A run\<close>

definition recurring_demo_ledger :: "address \<Rightarrow> token_state" where
  "recurring_demo_ledger t = token_fresh\<lparr>tk_balance := [Addr 2 \<mapsto> 250]\<rparr>"

definition recurring_demo_setup :: "(env \<times> recurring_call) list" where
  "recurring_demo_setup =
    [(signed_env [Addr 2] 1 40 (Addr 8), CCreatePayment (Addr 2) (Addr 3) (Addr 7) 100 10 50),
     (signed_env [Addr 3] 1 45 (Addr 8), CCreateStream (Addr 3) ''salary'' 40 10 0)]"

definition recurring_demo_calls :: "(env \<times> recurring_call) list" where
  "recurring_demo_calls =
    [(signed_env [Addr 2] 1 75 (Addr 8), CExecute 1),
     (signed_env [Addr 2] 1 76 (Addr 8), CExecute 1),
     (signed_env [] 1 80 (Addr 8), CProcess 1)]"

definition recurring_demo_start :: "recurring_state \<times> (address \<Rightarrow> token_state)" where
  "recurring_demo_start = run (recurring_exec token_xfer token_bal) recurring_demo_setup
     (recurring_fresh, recurring_demo_ledger)"

definition recurring_demo_end :: "recurring_state \<times> (address \<Rightarrow> token_state)" where
  "recurring_demo_end = run (recurring_exec token_xfer token_bal) recurring_demo_calls recurring_demo_start"

definition recurring_demo_payment :: recurring_payment where
  "recurring_demo_payment = \<lparr>rp_sender = Addr 2, rp_recipient = Addr 3, rp_token = Addr 7, rp_amount = 100,
     rp_interval = 10, rp_next_execution = 50, rp_active = True, rp_paused = False, rp_execution_count = 0,
     rp_missed_count = 0, rp_last_missed_at = 0\<rparr>"

definition recurring_demo_stream :: income_stream where
  "recurring_demo_stream = \<lparr>is_stream_id = 1, is_recipient = Addr 3, is_source = ''salary'', is_amount = 40,
     is_interval_seconds = 10, is_next_payout = 55, is_target_goal_id = 0, is_active = True\<rparr>"

lemmas recurring_eval = recurring_demo_start_def recurring_demo_end_def recurring_demo_setup_def recurring_demo_calls_def
  recurring_demo_ledger_def recurring_fresh_def create_payment_def create_income_stream_def execute_payment_def
  process_income_def catch_up_def put_payment_def put_stream_def emit_def Let_def token_xfer_def token_bal_def
  callee_env_def Token.transfer_def Token.move_balance_def Token.token_query_defs token_fresh_def Token.emit_def arith_defs

lemma recurring_demo_simps:
  "rs_payment (fst recurring_demo_start) 1 = Some recurring_demo_payment"
  "rs_stream (fst recurring_demo_start) 1 = Some recurring_demo_stream"
  "rs_events (fst recurring_demo_start) = [RecurCreated 1 (Addr 2), IncomeCreated 1 (Addr 3) ''salary'' 40]"
  "rs_events (fst recurring_demo_end) = rs_events (fst recurring_demo_start)
     @ [RecurExecuted 1 100 80, IncomeProcessed 1 (Addr 3) 120 3]"
  "snd recurring_demo_start = recurring_demo_ledger"
  by (simp_all add: recurring_eval recurring_demo_payment_def recurring_demo_stream_def)

lemma recurring_demo_run:
  "run (recurring_exec token_xfer token_bal) recurring_demo_setup (recurring_fresh, recurring_demo_ledger)
     = (fst recurring_demo_start, snd recurring_demo_start)"
  "run (recurring_exec token_xfer token_bal) recurring_demo_calls (fst recurring_demo_start, snd recurring_demo_start)
     = (fst recurring_demo_end, snd recurring_demo_end)"
  by (simp_all only: recurring_demo_start_def recurring_demo_end_def prod.collapse)

theorem recurring_pace_witness:
  "\<exists>p'. rs_payment (fst recurring_demo_end) 1 = Some p' \<and> rp_execution_count p' \<le> 4
     \<and> 10 dvd rp_next_execution p' - 50 \<and> rp_next_execution p' \<le> 90"
proof -
  have times: "\<And>ec. ec \<in> set recurring_demo_calls \<Longrightarrow> env_timestamp (fst ec) \<le> 80"
    by (auto simp: recurring_demo_calls_def)
  have "in_u64 (80 + rp_interval recurring_demo_payment)"
    by (simp add: recurring_demo_payment_def in_u64_def)
  from recurring_pace [OF recurring_demo_run times recurring_demo_simps(1) this] show ?thesis
    by (auto simp: recurring_demo_payment_def simp del: One_nat_def)
qed

theorem recurring_execute_spec_witness:
  "\<exists>l'. token_bal l' (Addr 7) (Addr 2) = 150 \<and> token_bal l' (Addr 7) (Addr 3) = 100"
proof -
  let ?e = "signed_env [Addr 2] 1 75 (Addr 8)"
  have run: "\<exists>x. execute_payment token_xfer token_bal ?e 1 (fst recurring_demo_start, snd recurring_demo_start) = Inr x"
    by (simp add: recurring_eval)
  then obtain s' l' where run: "execute_payment token_xfer token_bal ?e 1
      (fst recurring_demo_start, snd recurring_demo_start) = Inr ((), s', l')" by auto
  have wf: "recurring_wf (fst recurring_demo_start)"
    using recurring_machine.run_inv [of "(recurring_fresh, recurring_demo_ledger)" recurring_demo_setup token_xfer token_bal]
    by (simp add: recurring_fresh_wf recurring_demo_run)
  have pre: "in_u64 (env_timestamp ?e + rp_interval recurring_demo_payment)"
    "rp_sender recurring_demo_payment \<noteq> rp_recipient recurring_demo_payment"
    by (simp_all add: recurring_demo_payment_def in_u64_def)
  have bal: "token_bal recurring_demo_ledger (Addr 7) (Addr 2) = 250" "token_bal recurring_demo_ledger (Addr 7) (Addr 3) = 0"
    by (simp_all add: recurring_demo_ledger_def token_bal_def Token.token_query_defs token_fresh_def)
  from recurring_execute_spec [OF token_ledger.token_client_axioms wf pre(1) recurring_demo_simps(1) pre(2) run]
  have "token_bal l' (Addr 7) (Addr 2) = 150 \<and> token_bal l' (Addr 7) (Addr 3) = 100"
    by (auto simp: recurring_demo_payment_def recurring_demo_simps bal)
  then show ?thesis by blast
qed

theorem income_cycles_exact_witness:
  "\<exists>x'. rs_stream (fst recurring_demo_end) 1 = Some x' \<and> is_next_payout x' = 55 + 3 * 10"
  using income_cycles_exact [OF recurring_demo_run recurring_demo_simps(2)]
  by (auto simp: recurring_demo_simps(4) recurring_demo_stream_def announced_def simp del: One_nat_def)

end
