(* ===== verification/Multi_Currency_Wallet.thy ===== *)
theory Multi_Currency_Wallet
  imports Shared
begin

text \<open>
  \<open>contracts/multi-currency-wallet/src\<close>: batches of balance updates in several currencies (\<open>lib.rs\<close>,
  \<open>types.rs\<close>, \<open>validation.rs\<close>).

  The entry \<open>Balance(user, currency)\<close> is written as a \<open>CurrencyBalance\<close>, but
  \<open>validate_and_compute_balance\<close> reads it with the type \<open>i128\<close>.  \<open>Storage::get\<close> converts the stored value
  to the requested type and panics when that fails, so reading an existing entry there is a trap; an
  absent entry reads as 0.
\<close>

section \<open>Data (types.rs)\<close>

definition MAX_BATCH_SIZE :: nat where "MAX_BATCH_SIZE = 100"
definition MIN_BALANCE :: int where "MIN_BALANCE = 1"
definition MAX_BALANCE :: int where "MAX_BALANCE = i128_max"

record balance_update_request =
  bq_user :: address
  bq_currency :: symbol
  bq_amount :: int
  bq_operation :: symbol

record currency_balance =
  cb_user :: address
  cb_currency :: symbol
  cb_balance :: int
  cb_updated_at :: nat

datatype balance_update_result =
    BalanceSuccess currency_balance
  | BalanceFailure address symbol nat

record batch_balance_metrics =
  bm_total_requests :: nat
  bm_successful_updates :: nat
  bm_failed_updates :: nat
  bm_unique_users :: nat
  bm_unique_currencies :: nat
  bm_processed_at :: nat

record batch_balance_result =
  br_batch_id :: nat
  br_total_requests :: nat
  br_successful :: nat
  br_failed :: nat
  br_results :: "balance_update_result list"
  br_metrics :: batch_balance_metrics

definition INVALID_AMOUNT :: nat where "INVALID_AMOUNT = 0"
definition INVALID_USER_ADDRESS :: nat where "INVALID_USER_ADDRESS = 1"
definition INVALID_CURRENCY :: nat where "INVALID_CURRENCY = 2"
definition INVALID_OPERATION :: nat where "INVALID_OPERATION = 3"
definition INSUFFICIENT_BALANCE :: nat where "INSUFFICIENT_BALANCE = 4"
definition ARITHMETIC_OVERFLOW :: nat where "ARITHMETIC_OVERFLOW = 5"

datatype wallet_error = NotInitialized | Unauthorized | InvalidBatch | EmptyBatch | BatchTooLarge

datatype wallet_event =
    BatchStarted nat nat
  | BalanceUpdated nat currency_balance
  | BalanceUpdateFailed nat address symbol nat
  | BatchCompleted nat nat nat
  | LargeBalanceUpdate nat address symbol int

record wallet_state =
  wl_admin :: "address option"
  wl_last_batch_id :: "nat option"
  wl_balance :: "address \<times> symbol \<rightharpoonup> currency_balance"
  wl_total_updated :: "nat option"
  wl_total_batches :: "nat option"
  wl_events :: "wallet_event list"

definition wallet_fresh :: wallet_state where
  "wallet_fresh = \<lparr>wl_admin = None, wl_last_batch_id = None, wl_balance = Map.empty,
     wl_total_updated = None, wl_total_batches = None, wl_events = []\<rparr>"

definition emit :: "wallet_event \<Rightarrow> wallet_state \<Rightarrow> wallet_state" where
  "emit ev s = s\<lparr>wl_events := wl_events s @ [ev]\<rparr>"

section \<open>Validation (validation.rs)\<close>

definition is_valid_address :: "address \<Rightarrow> bool" where
  "is_valid_address a \<longleftrightarrow> True"

definition is_valid_currency :: "symbol \<Rightarrow> bool" where
  "is_valid_currency currency \<longleftrightarrow> True"

definition is_valid_amount :: "int \<Rightarrow> bool" where
  "is_valid_amount amount \<longleftrightarrow> MIN_BALANCE \<le> amount \<and> amount \<le> MAX_BALANCE"

definition is_valid_operation :: "symbol \<Rightarrow> bool" where
  "is_valid_operation operation \<longleftrightarrow>
     operation = ''set'' \<or> operation = ''add'' \<or> operation = ''subtract''"

definition validate_balance_request :: "balance_update_request \<Rightarrow> nat + unit" where
  "validate_balance_request request =
    (if \<not> is_valid_address (bq_user request) then Inl INVALID_USER_ADDRESS else
     if \<not> is_valid_currency (bq_currency request) then Inl INVALID_CURRENCY else
     if \<not> is_valid_amount (bq_amount request) then Inl INVALID_AMOUNT else
     if \<not> is_valid_operation (bq_operation request) then Inl INVALID_OPERATION else Inr ())"

definition compute_new_balance :: "int \<Rightarrow> symbol \<Rightarrow> int \<Rightarrow> nat + int" where
  "compute_new_balance current operation amount =
    (if operation = ''set'' then Inr amount else
     if operation = ''add'' then
       (case checked_add current amount of None \<Rightarrow> Inl ARITHMETIC_OVERFLOW | Some x \<Rightarrow> Inr x) else
     if operation = ''subtract'' then
       (case checked_sub current amount of None \<Rightarrow> Inl ARITHMETIC_OVERFLOW | Some x \<Rightarrow> Inr x) else
     Inl INVALID_OPERATION)"

text \<open>The typed read: \<open>None\<close> is the panic of a failed conversion.\<close>

definition read_balance_as_i128 :: "currency_balance option \<Rightarrow> int option" where
  "read_balance_as_i128 entry = (case entry of None \<Rightarrow> Some 0 | Some _ \<Rightarrow> None)"

definition validate_and_compute_balance :: "wallet_state \<Rightarrow> address \<Rightarrow> symbol \<Rightarrow> symbol \<Rightarrow> int
    \<Rightarrow> wallet_error trap + (nat + int)" where
  "validate_and_compute_balance s user currency operation amount =
    (case read_balance_as_i128 (wl_balance s (user, currency)) of None \<Rightarrow> Inl PanicTrap | Some current \<Rightarrow>
     Inr (case compute_new_balance current operation amount of Inl err \<Rightarrow> Inl err | Inr new_balance \<Rightarrow>
          if new_balance < 0 then Inl INSUFFICIENT_BALANCE else
          if MAX_BALANCE < new_balance then Inl ARITHMETIC_OVERFLOW else Inr new_balance))"

section \<open>Entry points (lib.rs)\<close>

definition initialize :: "address \<Rightarrow> wallet_state \<Rightarrow> (wallet_state, wallet_error, unit) outcome" where
  "initialize admin s =
    (if wl_admin s \<noteq> None then Inl PanicTrap else
     Inr ((), s\<lparr>wl_admin := Some admin, wl_last_batch_id := Some 0, wl_total_updated := Some 0,
                wl_total_batches := Some 0\<rparr>))"

definition require_admin :: "address \<Rightarrow> wallet_state \<Rightarrow> wallet_error trap + unit" where
  "require_admin caller s =
    (case wl_admin s of None \<Rightarrow> Inl PanicTrap | Some admin \<Rightarrow>
     if caller \<noteq> admin then Inl (ContractError Unauthorized) else Inr ())"

fun contains_address :: "address list \<Rightarrow> address \<Rightarrow> bool" where
  "contains_address [] addr = False"
| "contains_address (x # xs) addr = (if x = addr then True else contains_address xs addr)"

fun contains_symbol :: "symbol list \<Rightarrow> symbol \<Rightarrow> bool" where
  "contains_symbol [] asset = False"
| "contains_symbol (x # xs) asset = (if x = asset then True else contains_symbol xs asset)"

text \<open>The local variables of the loop, together with the state it updates.\<close>

record update_pass =
  up_state :: wallet_state
  up_results :: "balance_update_result list"
  up_ok :: nat
  up_failed :: nat
  up_users :: "address list"
  up_currencies :: "symbol list"

definition update_failure :: "nat \<Rightarrow> balance_update_request \<Rightarrow> nat \<Rightarrow> update_pass \<Rightarrow> update_pass" where
  "update_failure batch_id request error_code st =
     st\<lparr>up_failed := up_failed st + 1,
        up_state := emit (BalanceUpdateFailed batch_id (bq_user request) (bq_currency request) error_code) (up_state st),
        up_results := up_results st @ [BalanceFailure (bq_user request) (bq_currency request) error_code]\<rparr>"

definition update_success :: "nat \<Rightarrow> nat \<Rightarrow> balance_update_request \<Rightarrow> int \<Rightarrow> update_pass \<Rightarrow> update_pass" where
  "update_success batch_id current_ledger request new_balance st =
    (let user = bq_user request; currency = bq_currency request;
         balance = \<lparr>cb_user = user, cb_currency = currency, cb_balance = new_balance, cb_updated_at = current_ledger\<rparr>;
         s1 = (up_state st)\<lparr>wl_balance := (wl_balance (up_state st))((user, currency) \<mapsto> balance)\<rparr>;
         s2 = emit (BalanceUpdated batch_id balance) s1;
         s3 = (if 1000000 \<le> new_balance then emit (LargeBalanceUpdate batch_id user currency new_balance) s2 else s2)
     in st\<lparr>up_ok := up_ok st + 1, up_state := s3,
           up_users := (if contains_address (up_users st) user then up_users st else up_users st @ [user]),
           up_currencies := (if contains_symbol (up_currencies st) currency then up_currencies st
                             else up_currencies st @ [currency]),
           up_results := up_results st @ [BalanceSuccess balance]\<rparr>)"

definition update_step :: "nat \<Rightarrow> nat \<Rightarrow> balance_update_request \<Rightarrow> update_pass \<Rightarrow> wallet_error trap + update_pass" where
  "update_step batch_id current_ledger request0 st =
    (let request = request0\<lparr>bq_currency := normalize_asset_symbol (bq_currency request0)\<rparr> in
     case validate_balance_request request of
       Inl error_code \<Rightarrow> Inr (update_failure batch_id request error_code st)
     | Inr _ \<Rightarrow>
       case validate_and_compute_balance (up_state st) (bq_user request) (bq_currency request)
              (bq_operation request) (bq_amount request) of
         Inl t \<Rightarrow> Inl t
       | Inr (Inl error_code) \<Rightarrow> Inr (update_failure batch_id request error_code st)
       | Inr (Inr new_balance) \<Rightarrow> Inr (update_success batch_id current_ledger request new_balance st))"

definition batch_update_balances :: "env \<Rightarrow> address \<Rightarrow> balance_update_request list \<Rightarrow> wallet_state
    \<Rightarrow> (wallet_state, wallet_error, batch_balance_result) outcome" where
  "batch_update_balances e caller requests s =
    (if \<not> env_auth e caller then Inl AuthTrap else
     case require_admin caller s of Inl t \<Rightarrow> Inl t | Inr _ \<Rightarrow>
     let request_count = length requests in
     if request_count = 0 then Inl (ContractError EmptyBatch) else
     if MAX_BATCH_SIZE < request_count then Inl (ContractError BatchTooLarge) else
     case u64_add (unwrap_or (wl_last_batch_id s) 0) 1 of None \<Rightarrow> Inl ArithTrap | Some batch_id \<Rightarrow>
     let s1 = emit (BatchStarted batch_id request_count) s;
         current_ledger = env_sequence e in
     case fold_trap (update_step batch_id current_ledger) requests
            \<lparr>up_state = s1, up_results = [], up_ok = 0, up_failed = 0, up_users = [], up_currencies = []\<rparr> of
       Inl t \<Rightarrow> Inl t
     | Inr st \<Rightarrow>
       let metrics = \<lparr>bm_total_requests = request_count, bm_successful_updates = up_ok st,
                      bm_failed_updates = up_failed st, bm_unique_users = length (up_users st),
                      bm_unique_currencies = length (up_currencies st), bm_processed_at = current_ledger\<rparr>;
           s2 = up_state st in
       case u64_add (unwrap_or (wl_total_updated s2) 0) (up_ok st) of None \<Rightarrow> Inl ArithTrap | Some total_balances \<Rightarrow>
       case u64_add (unwrap_or (wl_total_batches s2) 0) 1 of None \<Rightarrow> Inl ArithTrap | Some total_batches \<Rightarrow>
       let s3 = s2\<lparr>wl_last_batch_id := Some batch_id, wl_total_updated := Some total_balances,
                   wl_total_batches := Some total_batches\<rparr>
       in Inr (\<lparr>br_batch_id = batch_id, br_total_requests = request_count, br_successful = up_ok st,
                 br_failed = up_failed st, br_results = up_results st, br_metrics = metrics\<rparr>,
               emit (BatchCompleted batch_id (up_ok st) (up_failed st)) s3))"

definition get_balance :: "wallet_state \<Rightarrow> address \<Rightarrow> symbol \<Rightarrow> int" where
  "get_balance s user currency =
     unwrap_or (map_option cb_balance (wl_balance s (user, normalize_asset_symbol currency))) 0"

definition get_balance_details :: "wallet_state \<Rightarrow> address \<Rightarrow> symbol \<Rightarrow> currency_balance option" where
  "get_balance_details s user currency = wl_balance s (user, normalize_asset_symbol currency)"

definition get_admin :: "wallet_state \<Rightarrow> wallet_error trap + address" where
  "get_admin s = (case wl_admin s of None \<Rightarrow> Inl PanicTrap | Some a \<Rightarrow> Inr a)"

definition set_admin :: "env \<Rightarrow> address \<Rightarrow> address \<Rightarrow> wallet_state \<Rightarrow> (wallet_state, wallet_error, unit) outcome" where
  "set_admin e current_admin new_admin s =
    (if \<not> env_auth e current_admin then Inl AuthTrap else
     case require_admin current_admin s of Inl t \<Rightarrow> Inl t | Inr _ \<Rightarrow>
     Inr ((), s\<lparr>wl_admin := Some new_admin\<rparr>))"

definition get_last_batch_id :: "wallet_state \<Rightarrow> nat" where
  "get_last_batch_id s = unwrap_or (wl_last_batch_id s) 0"

definition get_total_balances_updated :: "wallet_state \<Rightarrow> nat" where
  "get_total_balances_updated s = unwrap_or (wl_total_updated s) 0"

definition get_total_batches_processed :: "wallet_state \<Rightarrow> nat" where
  "get_total_batches_processed s = unwrap_or (wl_total_batches s) 0"

datatype wallet_call =
    CInitialize address
  | CBatch address "balance_update_request list"
  | CSetAdmin address address

fun wallet_exec :: "env \<times> wallet_call \<Rightarrow> wallet_state \<Rightarrow> wallet_error trap + wallet_state" where
  "wallet_exec (e, CInitialize a) s = final (initialize a s)"
| "wallet_exec (e, CBatch a rs) s = final (batch_update_balances e a rs s)"
| "wallet_exec (e, CSetAdmin a b) s = final (set_admin e a b s)"

section \<open>What a batch does\<close>

definition request_key :: "balance_update_request \<Rightarrow> address \<times> symbol" where
  "request_key rq = (bq_user rq, normalize_asset_symbol (bq_currency rq))"

text \<open>A request that passes validation reads the stored balance; it takes effect when it sets or adds.\<close>

definition reads_balance :: "balance_update_request \<Rightarrow> bool" where
  "reads_balance rq \<longleftrightarrow> is_valid_amount (bq_amount rq) \<and> is_valid_operation (bq_operation rq)"

definition takes_effect :: "balance_update_request \<Rightarrow> bool" where
  "takes_effect rq \<longleftrightarrow> is_valid_amount (bq_amount rq) \<and> (bq_operation rq = ''set'' \<or> bq_operation rq = ''add'')"

lemma wallet_emit_frame [simp]:
  "wl_admin (emit ev s) = wl_admin s" "wl_last_batch_id (emit ev s) = wl_last_batch_id s"
  "wl_balance (emit ev s) = wl_balance s" "wl_total_updated (emit ev s) = wl_total_updated s"
  "wl_total_batches (emit ev s) = wl_total_batches s"
  by (simp_all add: emit_def)

lemma update_step_cases:
  assumes "update_step k led rq st = Inr st'"
  shows "(reads_balance rq \<longrightarrow> wl_balance (up_state st) (request_key rq) = None)
    \<and> (if takes_effect rq
       then wl_balance (up_state st') = (wl_balance (up_state st))(request_key rq \<mapsto>
              \<lparr>cb_user = bq_user rq, cb_currency = normalize_asset_symbol (bq_currency rq),
               cb_balance = bq_amount rq, cb_updated_at = led\<rparr>)
            \<and> up_ok st' = up_ok st + 1 \<and> up_failed st' = up_failed st
       else wl_balance (up_state st') = wl_balance (up_state st)
            \<and> up_ok st' = up_ok st \<and> up_failed st' = up_failed st + 1)"
  using assms
  by (auto simp: update_step_def validate_balance_request_def is_valid_address_def is_valid_currency_def
      reads_balance_def takes_effect_def is_valid_operation_def is_valid_amount_def MIN_BALANCE_def MAX_BALANCE_def
      validate_and_compute_balance_def read_balance_as_i128_def compute_new_balance_def request_key_def
      update_failure_def update_success_def Let_def in_i128_def checked_add_def checked_sub_def
      split: if_splits option.splits sum.splits)

definition stored_in :: "wallet_state \<Rightarrow> balance_update_request \<Rightarrow> bool" where
  "stored_in s rq \<longleftrightarrow> (\<exists>b. wl_balance s (request_key rq) = Some b \<and> cb_balance b = bq_amount rq)"

lemma update_loop:
  assumes "fold_trap (update_step k led) rqs st = Inr st'"
  shows "wl_balance (up_state st) \<subseteq>\<^sub>m wl_balance (up_state st')
    \<and> (\<forall>rq\<in>set rqs. reads_balance rq \<longrightarrow> wl_balance (up_state st) (request_key rq) = None)
    \<and> (\<forall>rq\<in>set rqs. takes_effect rq \<longrightarrow> stored_in (up_state st') rq)
    \<and> (\<forall>key. key \<notin> request_key ` {rq \<in> set rqs. takes_effect rq} \<longrightarrow>
         wl_balance (up_state st') key = wl_balance (up_state st) key)
    \<and> up_ok st' = up_ok st + length (filter takes_effect rqs)
    \<and> up_failed st' = up_failed st + length (filter (\<lambda>rq. \<not> takes_effect rq) rqs)"
  using assms
proof (induction rqs arbitrary: st)
  case Nil
  then show ?case by simp
next
  case (Cons rq rqs)
  from Cons.prems obtain st1 where step: "update_step k led rq st = Inr st1"
    and rest: "fold_trap (update_step k led) rqs st1 = Inr st'" by (auto split: sum.splits)
  note one = update_step_cases [OF step] and more = Cons.IH [OF rest]
  have fresh: "reads_balance rq \<longrightarrow> wl_balance (up_state st) (request_key rq) = None" using one by simp
  have eff: "takes_effect rq \<Longrightarrow> reads_balance rq"
    by (auto simp: takes_effect_def reads_balance_def is_valid_operation_def)
  have le: "wl_balance (up_state st) \<subseteq>\<^sub>m wl_balance (up_state st1)"
    using one fresh eff by (cases "takes_effect rq") (auto simp: map_le_def)
  have stored: "takes_effect rq \<Longrightarrow> stored_in (up_state st1) rq"
    using one by (simp add: stored_in_def)
  have kept: "stored_in (up_state st1) q \<Longrightarrow> stored_in (up_state st') q" for q
    using more unfolding stored_in_def map_le_def by (metis domI)
  have none: "wl_balance (up_state st1) key = None \<Longrightarrow> wl_balance (up_state st) key = None" for key
    using le unfolding map_le_def by (metis domIff)
  have "stored_in (up_state st') q" if "q \<in> set (rq # rqs)" "takes_effect q" for q
    using that more stored kept by auto
  moreover have "wl_balance (up_state st) (request_key q) = None" if "q \<in> set (rq # rqs)" "reads_balance q" for q
    using that more fresh none by (metis set_ConsD)
  moreover have "wl_balance (up_state st') key = wl_balance (up_state st) key"
    if "key \<notin> request_key ` {q \<in> set (rq # rqs). takes_effect q}" for key
  proof -
    have "key \<notin> request_key ` {q \<in> set rqs. takes_effect q}" using that by auto
    then have "wl_balance (up_state st') key = wl_balance (up_state st1) key" using more by blast
    also have "takes_effect rq \<Longrightarrow> key \<noteq> request_key rq" using that by auto
    then have "wl_balance (up_state st1) key = wl_balance (up_state st) key"
      using one by (cases "takes_effect rq") simp_all
    finally show ?thesis .
  qed
  moreover have "up_ok st' = up_ok st + length (filter takes_effect (rq # rqs))"
    "up_failed st' = up_failed st + length (filter (\<lambda>q. \<not> takes_effect q) (rq # rqs))"
    using one more by (simp_all split: if_splits)
  moreover have "wl_balance (up_state st) \<subseteq>\<^sub>m wl_balance (up_state st')"
    using le more map_le_trans by blast
  ultimately show ?case by blast
qed

lemma batch_Inr:
  assumes "batch_update_balances e a rqs s = Inr (r, s')"
  shows "env_auth e a \<and> wl_admin s = Some a \<and> wl_admin s' = Some a \<and> 0 < length rqs \<and> length rqs \<le> 100
    \<and> br_batch_id r = get_last_batch_id s + 1 \<and> get_last_batch_id s' = br_batch_id r
    \<and> br_successful r = length (filter takes_effect rqs)
    \<and> br_failed r = length (filter (\<lambda>rq. \<not> takes_effect rq) rqs)
    \<and> br_total_requests r = length rqs
    \<and> wl_balance s \<subseteq>\<^sub>m wl_balance s'
    \<and> (\<forall>rq\<in>set rqs. reads_balance rq \<longrightarrow> wl_balance s (request_key rq) = None)
    \<and> (\<forall>rq\<in>set rqs. takes_effect rq \<longrightarrow> stored_in s' rq)
    \<and> (\<forall>key. key \<notin> request_key ` {rq \<in> set rqs. takes_effect rq} \<longrightarrow> wl_balance s' key = wl_balance s key)"
proof -
  let ?k = "Suc (unwrap_or (wl_last_batch_id s) 0)"
  define st0 where "st0 = \<lparr>up_state = emit (BatchStarted ?k (length rqs)) s, up_results = [], up_ok = 0,
    up_failed = 0, up_users = [], up_currencies = []\<rparr>"
  have st0: "wl_balance (up_state st0) = wl_balance s" "up_ok st0 = 0" "up_failed st0 = 0"
    "wl_admin (up_state st0) = wl_admin s"
    by (simp_all add: st0_def)
  from assms obtain st where loop: "fold_trap (update_step ?k (env_sequence e)) rqs st0 = Inr st"
    and r: "env_auth e a" "wl_admin s = Some a" "0 < length rqs" "length rqs \<le> 100"
      "br_batch_id r = ?k" "get_last_batch_id s' = ?k" "br_successful r = up_ok st" "br_failed r = up_failed st"
      "br_total_requests r = length rqs" "wl_balance s' = wl_balance (up_state st)" "wl_admin s' = wl_admin (up_state st)"
    by (auto simp: batch_update_balances_def require_admin_def Let_def st0_def MAX_BATCH_SIZE_def get_last_batch_id_def
        not_less split: if_splits option.splits sum.splits)
  have "wl_admin (up_state st) = wl_admin s"
    by (rule fold_trap_inv [OF loop, where P = "\<lambda>st. wl_admin (up_state st) = wl_admin s"])
      (auto simp: st0 update_step_def update_failure_def update_success_def Let_def split: sum.splits)
  with r update_loop [OF loop] show ?thesis
    by (simp add: st0 stored_in_def get_last_batch_id_def)
qed

lemma wallet_exec_keeps: "wallet_exec ec s = Inr s' \<Longrightarrow> wl_balance s \<subseteq>\<^sub>m wl_balance s'"
proof (cases ec)
  case (Pair e call)
  assume run: "wallet_exec ec s = Inr s'"
  show ?thesis
  proof (cases call)
    case (CBatch a rqs)
    with run Pair obtain r where "batch_update_balances e a rqs s = Inr (r, s')" by auto
    from batch_Inr [OF this] show ?thesis by simp
  qed (use run Pair in \<open>auto simp: initialize_def set_admin_def require_admin_def
         split: if_splits option.splits sum.splits\<close>)
qed

interpretation wallet_history:
  contract_relation wallet_exec "\<lambda>s s'. wl_balance s \<subseteq>\<^sub>m wl_balance s'" "\<lambda>_. True"
  by unfold_locales (auto intro: map_le_trans wallet_exec_keeps)

section \<open>Properties\<close>

text \<open>A stored balance can never be changed again.  Once a balance of a user in a currency is
  stored, no sequence of calls changes it, and every later batch that contains a valid request for
  this pair fails as a whole, whether it sets, adds or subtracts: the update reads the record with the
  type of a plain number.\<close>

theorem wallet_balance_written_once:
  assumes "get_balance_details s user currency = Some b"
  shows "get_balance_details (run wallet_exec cs s) user currency = Some b
    \<and> (reads_balance rq \<and> request_key rq = (user, normalize_asset_symbol currency) \<and> rq \<in> set rqs
       \<longrightarrow> (\<nexists>x. batch_update_balances e a rqs (run wallet_exec cs s) = Inr x))"
proof -
  have "wl_balance s \<subseteq>\<^sub>m wl_balance (run wallet_exec cs s)" by (rule wallet_history.run_rel) simp
  then have kept: "wl_balance (run wallet_exec cs s) (user, normalize_asset_symbol currency) = Some b"
    using assms by (fastforce simp: map_le_def get_balance_details_def dom_def)
  moreover have False if "reads_balance rq" "request_key rq = (user, normalize_asset_symbol currency)" "rq \<in> set rqs"
    "batch_update_balances e a rqs (run wallet_exec cs s) = Inr x" for x
    using batch_Inr [of e a rqs "run wallet_exec cs s" "fst x" "snd x"] that kept by fastforce
  ultimately show ?thesis by (auto simp: get_balance_details_def)
qed

text \<open>What a batch of balance updates does when it succeeds.  Only the signed admin can run it and
  only when no valid request names a stored pair; exactly the requests with a positive amount and the
  operation "set" or "add" succeed and store their amount, every other pair keeps its balance, and the
  counts of the result add up to the number of requests.\<close>

theorem wallet_batch_spec:
  assumes "batch_update_balances e a rqs s = Inr (r, s')"
  shows "env_auth e a \<and> get_admin s = Inr a \<and> 0 < length rqs \<and> length rqs \<le> MAX_BATCH_SIZE
    \<and> (\<forall>rq\<in>set rqs. reads_balance rq \<longrightarrow> get_balance_details s (bq_user rq) (bq_currency rq) = None)
    \<and> (\<forall>rq\<in>set rqs. takes_effect rq \<longrightarrow> get_balance s' (bq_user rq) (bq_currency rq) = bq_amount rq)
    \<and> (\<forall>user currency. (user, normalize_asset_symbol currency) \<notin> request_key ` {rq \<in> set rqs. takes_effect rq}
         \<longrightarrow> get_balance s' user currency = get_balance s user currency)
    \<and> br_successful r = length (filter takes_effect rqs)
    \<and> br_successful r + br_failed r = br_total_requests r
    \<and> br_total_requests r = length rqs \<and> get_last_batch_id s' = get_last_batch_id s + 1"
proof -
  note b = batch_Inr [OF assms]
  have counts: "length (filter takes_effect rqs) + length (filter (\<lambda>rq. \<not> takes_effect rq) rqs) = length rqs"
    by (rule length_filter_partition)
  have keys: "\<forall>rq\<in>set rqs. reads_balance rq \<longrightarrow> get_balance_details s (bq_user rq) (bq_currency rq) = None"
    using b by (auto simp: get_balance_details_def request_key_def)
  have stored: "\<forall>rq\<in>set rqs. takes_effect rq \<longrightarrow> get_balance s' (bq_user rq) (bq_currency rq) = bq_amount rq"
    using b by (auto simp: get_balance_def request_key_def stored_in_def)
  have others: "\<forall>user currency. (user, normalize_asset_symbol currency) \<notin> request_key ` {rq \<in> set rqs. takes_effect rq}
         \<longrightarrow> get_balance s' user currency = get_balance s user currency"
    using b by (simp add: get_balance_def)
  have first: "env_auth e a" "get_admin s = Inr a" "0 < length rqs" "length rqs \<le> MAX_BATCH_SIZE"
    "br_successful r = length (filter takes_effect rqs)" "br_successful r + br_failed r = br_total_requests r"
    "br_total_requests r = length rqs" "get_last_batch_id s' = get_last_batch_id s + 1"
    using b counts by (simp_all add: get_admin_def MAX_BATCH_SIZE_def)
  show ?thesis by (intro conjI keys stored others first)
qed

section \<open>A run\<close>

definition wallet_demo_request :: "symbol \<Rightarrow> int \<Rightarrow> symbol \<Rightarrow> balance_update_request" where
  "wallet_demo_request currency amount operation =
     \<lparr>bq_user = Addr 2, bq_currency = currency, bq_amount = amount, bq_operation = operation\<rparr>"

definition wallet_demo_batch :: "balance_update_request list" where
  "wallet_demo_batch = [wallet_demo_request ''usdc'' 500 ''set'', wallet_demo_request ''XLM'' 7 ''subtract'']"

definition wallet_demo :: wallet_state where
  "wallet_demo = run wallet_exec [(signed_env [Addr 1] 3 10 (Addr 8), CInitialize (Addr 1)),
     (signed_env [Addr 1] 4 20 (Addr 8), CBatch (Addr 1) wallet_demo_batch)] wallet_fresh"

lemmas wallet_eval = wallet_demo_def wallet_demo_batch_def wallet_demo_request_def wallet_fresh_def initialize_def
  batch_update_balances_def require_admin_def Let_def MAX_BATCH_SIZE_def update_step_def update_failure_def
  update_success_def validate_balance_request_def is_valid_address_def is_valid_currency_def is_valid_amount_def
  is_valid_operation_def MIN_BALANCE_def MAX_BALANCE_def validate_and_compute_balance_def read_balance_as_i128_def
  compute_new_balance_def emit_def arith_defs INSUFFICIENT_BALANCE_def

lemma wallet_demo_symbols [simp]:
  "normalize_asset_symbol ''usdc'' = ''USDC''" "normalize_asset_symbol ''USDC'' = ''USDC''"
  "normalize_asset_symbol ''XLM'' = ''XLM''"
  by code_simp+

lemma wallet_demo_details:
  "get_balance_details wallet_demo (Addr 2) ''USDC''
     = Some \<lparr>cb_user = Addr 2, cb_currency = ''USDC'', cb_balance = 500, cb_updated_at = 4\<rparr>"
  by (simp add: wallet_eval get_balance_details_def)

lemma wallet_demo_stored:
  "wl_balance wallet_demo (Addr 2, ''USDC'')
     = Some \<lparr>cb_user = Addr 2, cb_currency = ''USDC'', cb_balance = 500, cb_updated_at = 4\<rparr>"
  using wallet_demo_details by (simp add: get_balance_details_def)

theorem wallet_balance_written_once_witness:
  "get_balance wallet_demo (Addr 2) ''USDC'' = 500
   \<and> (\<nexists>x. batch_update_balances (signed_env [Addr 1] 5 30 (Addr 8)) (Addr 1)
        [wallet_demo_request ''USDC'' 40 ''add''] wallet_demo = Inr x)"
proof -
  have "reads_balance (wallet_demo_request ''USDC'' 40 ''add'')"
    "request_key (wallet_demo_request ''USDC'' 40 ''add'') = (Addr 2, normalize_asset_symbol ''USDC'')"
    by (simp_all add: reads_balance_def request_key_def wallet_eval)
  then show ?thesis
    using wallet_balance_written_once [OF wallet_demo_details, of "[]" "wallet_demo_request ''USDC'' 40 ''add''"
        "[wallet_demo_request ''USDC'' 40 ''add'']" "signed_env [Addr 1] 5 30 (Addr 8)" "Addr 1"]
    by (simp add: get_balance_def wallet_demo_stored)
qed

theorem wallet_batch_spec_witness:
  "\<exists>r s'. batch_update_balances (signed_env [Addr 1] 4 20 (Addr 8)) (Addr 1) wallet_demo_batch
      (wallet_fresh\<lparr>wl_admin := Some (Addr 1)\<rparr>) = Inr (r, s')
    \<and> br_successful r = 1 \<and> br_failed r = 1 \<and> get_balance s' (Addr 2) ''usdc'' = 500"
proof -
  let ?s = "wallet_fresh\<lparr>wl_admin := Some (Addr 1)\<rparr>" and ?e = "signed_env [Addr 1] 4 20 (Addr 8)"
  have "\<exists>x. batch_update_balances ?e (Addr 1) wallet_demo_batch ?s = Inr x"
    by (simp add: wallet_eval)
  then obtain r s' where run: "batch_update_balances ?e (Addr 1) wallet_demo_batch ?s = Inr (r, s')" by auto
  have eff: "filter takes_effect wallet_demo_batch = [wallet_demo_request ''usdc'' 500 ''set'']" "length wallet_demo_batch = 2"
    "takes_effect (wallet_demo_request ''usdc'' 500 ''set'')"
    by (simp_all add: takes_effect_def wallet_demo_batch_def wallet_demo_request_def is_valid_amount_def MIN_BALANCE_def MAX_BALANCE_def)
  have "wallet_demo_request ''usdc'' 500 ''set'' \<in> set wallet_demo_batch" by (simp add: wallet_demo_batch_def)
  then have "get_balance s' (bq_user (wallet_demo_request ''usdc'' 500 ''set''))
      (bq_currency (wallet_demo_request ''usdc'' 500 ''set'')) = bq_amount (wallet_demo_request ''usdc'' 500 ''set'')"
    using wallet_batch_spec [OF run] eff(3) by blast
  then have "get_balance s' (Addr 2) ''usdc'' = 500" by (simp add: wallet_demo_request_def)
  with wallet_batch_spec [OF run] run eff(1,2) show ?thesis by auto
qed

end
