(* ===== verification/Batch_Transfer.thy ===== *)
theory Batch_Transfer
  imports Shared Token
begin

text \<open>
  \<open>contracts/batch-transfer/src\<close>: batches of token transfers out of the admin's account and batches of
  burns (\<open>lib.rs\<close>, \<open>types.rs\<close>, \<open>validation.rs\<close>).  An entry point works on the pair of the contract state
  and the ledger of the token contracts; the token is the parameters \<open>bal\<close>, \<open>xfer\<close> and \<open>brn\<close> with the
  laws of \<open>burning_token\<close>.  The sum \<open>total_needed\<close> of the first pass is computed and never used, so it is
  left out.
\<close>

section \<open>Data (types.rs)\<close>

definition MAX_BATCH_SIZE :: nat where "MAX_BATCH_SIZE = 100"

record transfer_request =
  tq_recipient :: address
  tq_amount :: int

record burn_request =
  bq_owner :: address
  bq_amount :: int

datatype transfer_result =
    TransferSuccess address int
  | TransferFailure address int nat

datatype burn_result =
    BurnSuccess address int
  | BurnFailure address int nat

record batch_transfer_result =
  btr_total_requests :: nat
  btr_successful :: nat
  btr_failed :: nat
  btr_total_transferred :: int
  btr_results :: "transfer_result list"

record batch_burn_result =
  bbr_total_requests :: nat
  bbr_successful :: nat
  bbr_failed :: nat
  bbr_total_burned :: int
  bbr_results :: "burn_result list"

datatype batch_transfer_error =
    NotInitialized | Unauthorized | InvalidBatch | EmptyBatch | BatchTooLarge | InvalidToken | DuplicateRecipient

datatype transfer_event =
    BatchStarted nat nat
  | TransferSucceeded nat address int
  | TransferFailed nat address int nat
  | BatchCompleted nat nat nat int
  | BurnSucceeded nat address int
  | BurnFailed nat address int nat
  | BurnBatchCompleted nat nat nat int

record transfer_state =
  bt_admin :: "address option"
  bt_total_batches :: "nat option"
  bt_total_processed :: "nat option"
  bt_total_volume :: "int option"
  bt_events :: "transfer_event list"

definition transfer_fresh :: transfer_state where
  "transfer_fresh = \<lparr>bt_admin = None, bt_total_batches = None, bt_total_processed = None,
     bt_total_volume = None, bt_events = []\<rparr>"

definition emit :: "transfer_event \<Rightarrow> transfer_state \<Rightarrow> transfer_state" where
  "emit ev s = s\<lparr>bt_events := bt_events s @ [ev]\<rparr>"

type_synonym ('led, 'a) batch_transfer_outcome = "(transfer_state \<times> 'led, batch_transfer_error, 'a) outcome"

section \<open>Validation (validation.rs)\<close>

datatype validation_error = InvalidAmount | DuplicateRecipientIn address | EmptyBatchGiven

definition validate_address :: "address \<Rightarrow> validation_error + unit" where
  "validate_address a = Inr ()"

fun validate_unique_recipient :: "address list \<Rightarrow> address \<Rightarrow> validation_error + unit" where
  "validate_unique_recipient [] recipient = Inr ()"
| "validate_unique_recipient (existing # seen) recipient =
    (if existing = recipient then Inl (DuplicateRecipientIn recipient) else validate_unique_recipient seen recipient)"

fun unique_loop :: "address list \<Rightarrow> transfer_request list \<Rightarrow> validation_error + unit" where
  "unique_loop seen [] = Inr ()"
| "unique_loop seen (request # requests) =
    (case validate_unique_recipient seen (tq_recipient request) of Inl err \<Rightarrow> Inl err | Inr _ \<Rightarrow>
     unique_loop (seen @ [tq_recipient request]) requests)"

definition validate_unique_recipients :: "transfer_request list \<Rightarrow> validation_error + unit" where
  "validate_unique_recipients transfers = unique_loop [] transfers"

definition validate_batch_not_empty :: "'a list \<Rightarrow> validation_error + unit" where
  "validate_batch_not_empty transfers = (if transfers = [] then Inl EmptyBatchGiven else Inr ())"

definition validate_amount :: "int \<Rightarrow> validation_error + unit" where
  "validate_amount amount = (if amount \<le> 0 then Inl InvalidAmount else Inr ())"

section \<open>Entry points (lib.rs)\<close>

definition initialize :: "address \<Rightarrow> transfer_state \<times> 'led \<Rightarrow> ('led, unit) batch_transfer_outcome" where
  "initialize admin w = (case w of (s, l) \<Rightarrow>
     if bt_admin s \<noteq> None then Inl PanicTrap else
     Inr ((), s\<lparr>bt_admin := Some admin, bt_total_batches := Some 0, bt_total_processed := Some 0,
                bt_total_volume := Some 0\<rparr>, l))"

definition require_admin :: "address \<Rightarrow> transfer_state \<Rightarrow> batch_transfer_error trap + unit" where
  "require_admin caller s =
    (case bt_admin s of None \<Rightarrow> Inl PanicTrap | Some admin \<Rightarrow>
     if caller \<noteq> admin then Inl (ContractError Unauthorized) else Inr ())"

text \<open>The first pass: a request with its validity and its error code.\<close>

definition validated :: "transfer_request \<Rightarrow> transfer_request \<times> bool \<times> nat" where
  "validated request =
    (case validate_address (tq_recipient request) of Inl _ \<Rightarrow> (request, False, 0) | Inr _ \<Rightarrow>
     case validate_amount (tq_amount request) of Inl _ \<Rightarrow> (request, False, 1) | Inr _ \<Rightarrow> (request, True, 0))"

text \<open>The local variables of the second pass, together with the state and the ledger.\<close>

record 'led transfer_pass =
  tp_state :: transfer_state
  tp_ledger :: 'led
  tp_available :: int
  tp_results :: "transfer_result list"
  tp_ok :: nat
  tp_failed :: nat
  tp_total :: int

definition transfer_failure :: "nat \<Rightarrow> transfer_request \<Rightarrow> nat \<Rightarrow> 'led transfer_pass \<Rightarrow> 'led transfer_pass" where
  "transfer_failure batch_id request error_code st =
     st\<lparr>tp_results := tp_results st @ [TransferFailure (tq_recipient request) (tq_amount request) error_code],
        tp_failed := tp_failed st + 1,
        tp_state := emit (TransferFailed batch_id (tq_recipient request) (tq_amount request) error_code) (tp_state st)\<rparr>"

definition transfer_step :: "'led xfer \<Rightarrow> env \<Rightarrow> nat \<Rightarrow> address \<Rightarrow> address \<Rightarrow> transfer_request \<times> bool \<times> nat
    \<Rightarrow> 'led transfer_pass \<Rightarrow> batch_transfer_error trap + 'led transfer_pass" where
  "transfer_step xfer e batch_id token caller item st = (case item of (request, is_valid, error_code) \<Rightarrow>
     if \<not> is_valid then Inr (transfer_failure batch_id request error_code st) else
     if tp_available st < tq_amount request then Inr (transfer_failure batch_id request 2 st) else
     case xfer e token caller (tq_recipient request) (tq_amount request) (tp_ledger st) of
       None \<Rightarrow> Inl CallTrap
     | Some l1 \<Rightarrow>
     case checked_sub (tp_available st) (tq_amount request) of None \<Rightarrow> Inl ArithTrap | Some available \<Rightarrow>
     Inr (st\<lparr>tp_ledger := l1, tp_available := available,
             tp_results := tp_results st @ [TransferSuccess (tq_recipient request) (tq_amount request)],
             tp_ok := tp_ok st + 1,
             tp_total := unwrap_or (checked_add (tp_total st) (tq_amount request)) (tp_total st),
             tp_state := emit (TransferSucceeded batch_id (tq_recipient request) (tq_amount request)) (tp_state st)\<rparr>))"

definition batch_transfer :: "'led xfer \<Rightarrow> ('led \<Rightarrow> address \<Rightarrow> address \<Rightarrow> int) \<Rightarrow> env \<Rightarrow> address \<Rightarrow> address
    \<Rightarrow> transfer_request list \<Rightarrow> transfer_state \<times> 'led \<Rightarrow> ('led, batch_transfer_result) batch_transfer_outcome" where
  "batch_transfer xfer bal e caller token transfers w = (case w of (s, l) \<Rightarrow>
     if \<not> env_auth e caller then Inl AuthTrap else
     case require_admin caller s of Inl t \<Rightarrow> Inl t | Inr _ \<Rightarrow>
     case validate_batch_not_empty transfers of Inl _ \<Rightarrow> Inl (ContractError EmptyBatch) | Inr _ \<Rightarrow>
     let request_count = length transfers in
     case validate_batch_size request_count MAX_BATCH_SIZE of Inl _ \<Rightarrow> Inl (ContractError BatchTooLarge) | Inr _ \<Rightarrow>
     case validate_unique_recipients transfers of Inl _ \<Rightarrow> Inl (ContractError DuplicateRecipient) | Inr _ \<Rightarrow>
     case u64_add (unwrap_or (bt_total_batches s) 0) 1 of None \<Rightarrow> Inl ArithTrap | Some batch_id \<Rightarrow>
     let s1 = emit (BatchStarted batch_id request_count) s in
     case fold_trap (transfer_step xfer e batch_id token caller) (map validated transfers)
            \<lparr>tp_state = s1, tp_ledger = l, tp_available = bal l token caller, tp_results = [], tp_ok = 0,
             tp_failed = 0, tp_total = 0\<rparr> of
       Inl t \<Rightarrow> Inl t
     | Inr st \<Rightarrow>
       let s2 = tp_state st in
       case u64_add (unwrap_or (bt_total_batches s2) 0) 1 of None \<Rightarrow> Inl ArithTrap | Some total_batches \<Rightarrow>
       case u64_add (unwrap_or (bt_total_processed s2) 0) request_count of None \<Rightarrow> Inl ArithTrap | Some total_processed \<Rightarrow>
       let volume = unwrap_or (checked_add (tp_total st) (unwrap_or (bt_total_volume s2) 0)) i128_max;
           s3 = s2\<lparr>bt_total_batches := Some total_batches, bt_total_processed := Some total_processed,
                   bt_total_volume := Some volume\<rparr>
       in Inr (\<lparr>btr_total_requests = request_count, btr_successful = tp_ok st, btr_failed = tp_failed st,
                 btr_total_transferred = tp_total st, btr_results = tp_results st\<rparr>,
               emit (BatchCompleted batch_id (tp_ok st) (tp_failed st) (tp_total st)) s3, tp_ledger st))"

record 'led burn_pass =
  bp_state :: transfer_state
  bp_ledger :: 'led
  bp_results :: "burn_result list"
  bp_ok :: nat
  bp_failed :: nat
  bp_total :: int

definition burn_failure :: "nat \<Rightarrow> burn_request \<Rightarrow> nat \<Rightarrow> 'led burn_pass \<Rightarrow> 'led burn_pass" where
  "burn_failure batch_id request error_code st =
     st\<lparr>bp_results := bp_results st @ [BurnFailure (bq_owner request) (bq_amount request) error_code],
        bp_failed := bp_failed st + 1,
        bp_state := emit (BurnFailed batch_id (bq_owner request) (bq_amount request) error_code) (bp_state st)\<rparr>"

definition burn_step :: "'led burner \<Rightarrow> ('led \<Rightarrow> address \<Rightarrow> address \<Rightarrow> int) \<Rightarrow> env \<Rightarrow> nat \<Rightarrow> address \<Rightarrow> burn_request
    \<Rightarrow> 'led burn_pass \<Rightarrow> batch_transfer_error trap + 'led burn_pass" where
  "burn_step brn bal e batch_id token request st =
    (case validate_address (bq_owner request) of Inl _ \<Rightarrow> Inr (burn_failure batch_id request 0 st) | Inr _ \<Rightarrow>
     case validate_amount (bq_amount request) of Inl _ \<Rightarrow> Inr (burn_failure batch_id request 1 st) | Inr _ \<Rightarrow>
     if bal (bp_ledger st) token (bq_owner request) < bq_amount request
     then Inr (burn_failure batch_id request 2 st) else
     if \<not> env_auth e (bq_owner request) then Inl AuthTrap else
     case brn e token (bq_owner request) (bq_amount request) (bp_ledger st) of None \<Rightarrow> Inl CallTrap | Some l1 \<Rightarrow>
     Inr (st\<lparr>bp_ledger := l1,
             bp_results := bp_results st @ [BurnSuccess (bq_owner request) (bq_amount request)],
             bp_ok := bp_ok st + 1,
             bp_total := unwrap_or (checked_add (bp_total st) (bq_amount request)) (bp_total st),
             bp_state := emit (BurnSucceeded batch_id (bq_owner request) (bq_amount request)) (bp_state st)\<rparr>))"

definition batch_burn :: "'led burner \<Rightarrow> ('led \<Rightarrow> address \<Rightarrow> address \<Rightarrow> int) \<Rightarrow> env \<Rightarrow> address \<Rightarrow> address
    \<Rightarrow> burn_request list \<Rightarrow> transfer_state \<times> 'led \<Rightarrow> ('led, batch_burn_result) batch_transfer_outcome" where
  "batch_burn brn bal e caller token burns w = (case w of (s, l) \<Rightarrow>
     if \<not> env_auth e caller then Inl AuthTrap else
     case require_admin caller s of Inl t \<Rightarrow> Inl t | Inr _ \<Rightarrow>
     case validate_batch_not_empty burns of Inl _ \<Rightarrow> Inl (ContractError EmptyBatch) | Inr _ \<Rightarrow>
     let request_count = length burns in
     case validate_batch_size request_count MAX_BATCH_SIZE of Inl _ \<Rightarrow> Inl (ContractError BatchTooLarge) | Inr _ \<Rightarrow>
     case u64_add (unwrap_or (bt_total_batches s) 0) 1 of None \<Rightarrow> Inl ArithTrap | Some batch_id \<Rightarrow>
     let s1 = emit (BatchStarted batch_id request_count) s in
     case fold_trap (burn_step brn bal e batch_id token) burns
            \<lparr>bp_state = s1, bp_ledger = l, bp_results = [], bp_ok = 0, bp_failed = 0, bp_total = 0\<rparr> of
       Inl t \<Rightarrow> Inl t
     | Inr st \<Rightarrow>
       Inr (\<lparr>bbr_total_requests = request_count, bbr_successful = bp_ok st, bbr_failed = bp_failed st,
              bbr_total_burned = bp_total st, bbr_results = bp_results st\<rparr>,
            emit (BurnBatchCompleted batch_id (bp_ok st) (bp_failed st) (bp_total st)) (bp_state st), bp_ledger st))"

definition set_admin :: "env \<Rightarrow> address \<Rightarrow> address \<Rightarrow> transfer_state \<times> 'led \<Rightarrow> ('led, unit) batch_transfer_outcome" where
  "set_admin e current_admin new_admin w = (case w of (s, l) \<Rightarrow>
     if \<not> env_auth e current_admin then Inl AuthTrap else
     case require_admin current_admin s of Inl t \<Rightarrow> Inl t | Inr _ \<Rightarrow>
     Inr ((), s\<lparr>bt_admin := Some new_admin\<rparr>, l))"

definition get_admin :: "transfer_state \<Rightarrow> batch_transfer_error trap + address" where
  "get_admin s = (case bt_admin s of None \<Rightarrow> Inl PanicTrap | Some a \<Rightarrow> Inr a)"

definition get_total_batches :: "transfer_state \<Rightarrow> nat" where
  "get_total_batches s = unwrap_or (bt_total_batches s) 0"

definition get_total_transfers_processed :: "transfer_state \<Rightarrow> nat" where
  "get_total_transfers_processed s = unwrap_or (bt_total_processed s) 0"

definition get_total_volume_transferred :: "transfer_state \<Rightarrow> int" where
  "get_total_volume_transferred s = unwrap_or (bt_total_volume s) 0"

section \<open>The reference settlement\<close>

text \<open>What a batch of transfers should come to: in the order of the requests, a positive amount is paid
  when what is left of the caller's balance covers it.\<close>

fun settle :: "int \<Rightarrow> transfer_request list \<Rightarrow> transfer_result list" where
  "settle available [] = []"
| "settle available (rq # rqs) =
    (if tq_amount rq \<le> 0 then TransferFailure (tq_recipient rq) (tq_amount rq) 1 # settle available rqs else
     if available < tq_amount rq then TransferFailure (tq_recipient rq) (tq_amount rq) 2 # settle available rqs else
     TransferSuccess (tq_recipient rq) (tq_amount rq) # settle (available - tq_amount rq) rqs)"

fun paid :: "transfer_result \<Rightarrow> int" where
  "paid (TransferSuccess a n) = n"
| "paid (TransferFailure a n code) = 0"

fun paid_to :: "address \<Rightarrow> transfer_result \<Rightarrow> int" where
  "paid_to c (TransferSuccess a n) = (if a = c then n else 0)"
| "paid_to c (TransferFailure a n code) = 0"

definition total_paid :: "transfer_result list \<Rightarrow> int" where
  "total_paid rs = sum_list (map paid rs)"

definition total_paid_to :: "address \<Rightarrow> transfer_result list \<Rightarrow> int" where
  "total_paid_to c rs = sum_list (map (paid_to c) rs)"

fun succeeded :: "transfer_result \<Rightarrow> bool" where
  "succeeded (TransferSuccess a n) = True"
| "succeeded (TransferFailure a n code) = False"

lemma total_paid_simps [simp]:
  "total_paid [] = 0" "total_paid (r # rs) = paid r + total_paid rs"
  "total_paid_to c [] = 0" "total_paid_to c (r # rs) = paid_to c r + total_paid_to c rs"
  by (simp_all add: total_paid_def total_paid_to_def)

lemma settle_total: "0 \<le> total_paid (settle n rqs) \<and> total_paid (settle n rqs) \<le> max n 0"
  by (induction n rqs rule: settle.induct) (auto simp: max_def split: if_splits)

lemma settle_length: "length (settle n rqs) = length rqs"
  by (induction n rqs rule: settle.induct) auto

lemma validated_value:
  "validated rq = (rq, 0 < tq_amount rq, if 0 < tq_amount rq then 0 else 1)"
  by (simp add: validated_def validate_address_def validate_amount_def)

lemma transfer_loop:
  assumes "token_client xfer bal"
    and "fold_trap (transfer_step xfer e k t a) (map validated rqs) st = Inr st'"
    and "a \<notin> tq_recipient ` set rqs" and "in_i128 (tp_total st + max (tp_available st) 0)" and "0 \<le> tp_total st"
  shows "tp_results st' = tp_results st @ settle (tp_available st) rqs
    \<and> tp_total st' = tp_total st + total_paid (settle (tp_available st) rqs)
    \<and> tp_ok st' = tp_ok st + length (filter succeeded (settle (tp_available st) rqs))
    \<and> tp_failed st' = tp_failed st + length (filter (\<lambda>r. \<not> succeeded r) (settle (tp_available st) rqs))
    \<and> bal (tp_ledger st') t a = bal (tp_ledger st) t a - total_paid (settle (tp_available st) rqs)
    \<and> (\<forall>t' c. t' \<noteq> t \<or> c \<noteq> a \<longrightarrow> bal (tp_ledger st') t' c
         = bal (tp_ledger st) t' c + (if t' = t then total_paid_to c (settle (tp_available st) rqs) else 0))
    \<and> (\<exists>evs. tp_state st' = (tp_state st)\<lparr>bt_events := evs\<rparr>)"
  using assms(2-)
proof (induction rqs arbitrary: st)
  case Nil
  then show ?case by (auto intro!: exI [of _ "bt_events (tp_state st)"])
next
  case (Cons rq rqs)
  from Cons.prems(1) obtain st1 where step: "transfer_step xfer e k t a (validated rq) st = Inr st1"
    and rest: "fold_trap (transfer_step xfer e k t a) (map validated rqs) st1 = Inr st'"
    by (auto split: sum.splits)
  have a: "a \<noteq> tq_recipient rq" "a \<notin> tq_recipient ` set rqs" using Cons.prems(2) by auto
  show ?case
  proof (cases "0 < tq_amount rq \<and> tq_amount rq \<le> tp_available st")
    case False
    then have st1: "st1 = transfer_failure k rq (if 0 < tq_amount rq then 2 else 1) st"
      using step by (auto simp: transfer_step_def validated_value)
    then have same: "tp_available st1 = tp_available st" "tp_total st1 = tp_total st" "tp_ledger st1 = tp_ledger st"
      by (simp_all add: transfer_failure_def)
    from Cons.IH [OF rest a(2)] Cons.prems(3,4) False show ?thesis
      by (auto simp: same not_less) (auto simp: st1 transfer_failure_def emit_def)
  next
    case True
    let ?n = "tq_amount rq"
    from step True obtain l1 where x: "xfer e t a (tq_recipient rq) ?n (tp_ledger st) = Some l1"
      and st1: "st1 = st\<lparr>tp_ledger := l1, tp_available := tp_available st - ?n,
             tp_results := tp_results st @ [TransferSuccess (tq_recipient rq) ?n], tp_ok := tp_ok st + 1,
             tp_total := unwrap_or (checked_add (tp_total st) ?n) (tp_total st),
             tp_state := emit (TransferSucceeded k (tq_recipient rq) ?n) (tp_state st)\<rparr>"
      by (auto simp: transfer_step_def validated_value split: option.splits if_splits)
    have "in_i128 (tp_total st + ?n)"
      using Cons.prems(3,4) True by (auto simp: in_i128_def)
    then have total: "tp_total st1 = tp_total st + ?n" by (simp add: st1 checked_add_def)
    have bal: "bal l1 t' c = bal (tp_ledger st) t' c - (if t' = t \<and> c = a then ?n else 0)
        + (if t' = t \<and> c = tq_recipient rq then ?n else 0)" for t' c
      by (rule token_client.xfer_balance [OF assms(1) x a(1)])
    have new: "tp_available st1 = tp_available st - ?n" "tp_ledger st1 = l1" by (simp_all add: st1)
    have "in_i128 (tp_total st1 + max (tp_available st1) 0)" "0 \<le> tp_total st1"
      using Cons.prems(3,4) True by (auto simp: total new)
    from Cons.IH [OF rest a(2) this] True a(1) show ?thesis
      by (auto simp: new total bal) (auto simp: st1 emit_def)
  qed
qed

lemma unique_loop_distinct:
  "unique_loop seen rqs = Inr () \<longleftrightarrow> distinct (map tq_recipient rqs) \<and> set seen \<inter> tq_recipient ` set rqs = {}"
proof (induction rqs arbitrary: seen)
  case (Cons rq rqs)
  have "validate_unique_recipient seen c = (if c \<in> set seen then Inl (DuplicateRecipientIn c) else Inr ())" for c
    by (induction seen) auto
  with Cons show ?case by auto
qed simp

lemma batch_transfer_Inr:
  assumes "batch_transfer xfer bal e a t rqs (s, l) = Inr (r, s', l')"
  shows "\<exists>st. env_auth e a \<and> bt_admin s = Some a \<and> rqs \<noteq> [] \<and> length rqs \<le> 100 \<and> distinct (map tq_recipient rqs)
    \<and> fold_trap (transfer_step xfer e (Suc (get_total_batches s)) t a) (map validated rqs)
        \<lparr>tp_state = emit (BatchStarted (Suc (get_total_batches s)) (length rqs)) s, tp_ledger = l,
         tp_available = bal l t a, tp_results = [], tp_ok = 0, tp_failed = 0, tp_total = 0\<rparr> = Inr st
    \<and> r = \<lparr>btr_total_requests = length rqs, btr_successful = tp_ok st, btr_failed = tp_failed st,
           btr_total_transferred = tp_total st, btr_results = tp_results st\<rparr>
    \<and> l' = tp_ledger st
    \<and> get_total_batches s' = get_total_batches (tp_state st) + 1
    \<and> get_total_transfers_processed s' = get_total_transfers_processed (tp_state st) + length rqs
    \<and> bt_total_volume s' = Some (unwrap_or (checked_add (tp_total st) (get_total_volume_transferred (tp_state st))) i128_max)"
proof -
  have unit: "validate_unique_recipients rqs = Inr u \<Longrightarrow> distinct (map tq_recipient rqs)" for u
    using unique_loop_distinct [of "[]" rqs] by (simp add: validate_unique_recipients_def)
  from assms show ?thesis
    by (auto simp: batch_transfer_def require_admin_def validate_batch_not_empty_def validate_batch_size_def
        MAX_BATCH_SIZE_def Let_def get_total_batches_def get_total_transfers_processed_def
        get_total_volume_transferred_def emit_def dest!: unit split: if_splits option.splits sum.splits)
qed

section \<open>Properties\<close>

text \<open>C8: A batch of transfers settles exactly as the reference says.  When it succeeds, the signed
  admin's requests name different recipients, the results are those of the greedy settlement of the
  admin's balance, the counts and the total match them, the admin pays exactly the total, every other
  account receives exactly what its successful request says and nothing else changes, and the
  lifetime counters grow by one batch and by all requests, failed ones included.\<close>

theorem batch_transfer_settles:
  assumes "token_client xfer bal" and "batch_transfer xfer bal e a t rqs (s, l) = Inr (r, s', l')"
    and "a \<notin> tq_recipient ` set rqs" and "in_i128 (bal l t a)"
  shows "env_auth e a \<and> get_admin s = Inr a \<and> length rqs \<le> MAX_BATCH_SIZE \<and> distinct (map tq_recipient rqs)
    \<and> btr_results r = settle (bal l t a) rqs
    \<and> btr_total_transferred r = total_paid (btr_results r)
    \<and> btr_successful r = length (filter succeeded (btr_results r))
    \<and> btr_successful r + btr_failed r = length rqs \<and> btr_total_requests r = length rqs
    \<and> bal l' t a = bal l t a - btr_total_transferred r
    \<and> (\<forall>t' c. t' \<noteq> t \<or> c \<noteq> a \<longrightarrow> bal l' t' c = bal l t' c + (if t' = t then total_paid_to c (btr_results r) else 0))
    \<and> get_total_batches s' = get_total_batches s + 1
    \<and> get_total_transfers_processed s' = get_total_transfers_processed s + length rqs"
proof -
  define st0 where "st0 = \<lparr>tp_state = emit (BatchStarted (Suc (get_total_batches s)) (length rqs)) s, tp_ledger = l,
         tp_available = bal l t a, tp_results = [], tp_ok = 0, tp_failed = 0, tp_total = 0\<rparr>"
  from batch_transfer_Inr [OF assms(2)] obtain st where
    pre: "env_auth e a" "bt_admin s = Some a" "length rqs \<le> 100" "distinct (map tq_recipient rqs)"
    and loop: "fold_trap (transfer_step xfer e (Suc (get_total_batches s)) t a) (map validated rqs) st0 = Inr st"
    and r: "r = \<lparr>btr_total_requests = length rqs, btr_successful = tp_ok st, btr_failed = tp_failed st,
           btr_total_transferred = tp_total st, btr_results = tp_results st\<rparr>"
    and out: "l' = tp_ledger st" "get_total_batches s' = get_total_batches (tp_state st) + 1"
      "get_total_transfers_processed s' = get_total_transfers_processed (tp_state st) + length rqs"
    unfolding st0_def by blast
  have st0: "tp_available st0 = bal l t a" "tp_total st0 = 0" "tp_results st0 = []" "tp_ok st0 = 0" "tp_failed st0 = 0"
    "tp_ledger st0 = l" "tp_state st0 = emit (BatchStarted (Suc (get_total_batches s)) (length rqs)) s"
    by (simp_all add: st0_def)
  have "in_i128 (tp_total st0 + max (tp_available st0) 0)" "0 \<le> tp_total st0"
    using assms(4) by (auto simp: st0 in_i128_def)
  note settled = transfer_loop [OF assms(1) loop assms(3) this, unfolded st0 add_0 append_Nil]
  then obtain evs where same: "tp_state st = (emit (BatchStarted (Suc (get_total_batches s)) (length rqs)) s)\<lparr>bt_events := evs\<rparr>"
    by blast
  have counts: "length (filter succeeded (settle (bal l t a) rqs))
      + length (filter (\<lambda>x. \<not> succeeded x) (settle (bal l t a) rqs)) = length rqs"
    using length_filter_partition [of succeeded "settle (bal l t a) rqs"] by (simp add: settle_length)
  show ?thesis
    using pre settled counts out
    by (simp add: r same get_admin_def MAX_BATCH_SIZE_def get_total_batches_def get_total_transfers_processed_def emit_def)
qed

fun burned_of :: "address \<Rightarrow> burn_result \<Rightarrow> int" where
  "burned_of c (BurnSuccess a n) = (if a = c then n else 0)"
| "burned_of c (BurnFailure a n code) = 0"

fun burned :: "burn_result \<Rightarrow> int" where
  "burned (BurnSuccess a n) = n"
| "burned (BurnFailure a n code) = 0"

text \<open>A result that fits its request: a burn needs a positive amount and the owner's signature.\<close>

fun burn_fits :: "env \<Rightarrow> burn_request \<Rightarrow> burn_result \<Rightarrow> bool" where
  "burn_fits e rq (BurnSuccess a n) \<longleftrightarrow> a = bq_owner rq \<and> n = bq_amount rq \<and> 0 < n \<and> env_auth e a"
| "burn_fits e rq (BurnFailure a n code) \<longleftrightarrow> a = bq_owner rq \<and> n = bq_amount rq \<and> (if n \<le> 0 then code = 1 else code = 2)"

definition asked :: "burn_request list \<Rightarrow> int" where
  "asked rqs = sum_list (map (\<lambda>rq. max 0 (bq_amount rq)) rqs)"

lemma asked_simps [simp]: "asked [] = 0" "asked (rq # rqs) = max 0 (bq_amount rq) + asked rqs"
  by (simp_all add: asked_def)

lemma asked_nonneg: "0 \<le> asked rqs"
  unfolding asked_def by (rule sum_list_nonneg) auto

lemma burn_loop:
  assumes "burning_token xfer bal brn"
    and "fold_trap (burn_step brn bal e k t) rqs st = Inr st'" and "0 \<le> bp_total st" and "in_i128 (bp_total st + asked rqs)"
  shows "\<exists>new evs. bp_results st' = bp_results st @ new \<and> list_all2 (burn_fits e) rqs new
    \<and> bp_total st' = bp_total st + sum_list (map burned new)
    \<and> bp_ok st' + bp_failed st' = bp_ok st + bp_failed st + length rqs
    \<and> (\<forall>t' c. bal (bp_ledger st') t' c
         = bal (bp_ledger st) t' c - (if t' = t then sum_list (map (burned_of c) new) else 0))
    \<and> bp_state st' = (bp_state st)\<lparr>bt_events := evs\<rparr>"
  using assms(2-)
proof (induction rqs arbitrary: st)
  case Nil
  then show ?case by (auto intro!: exI [of _ "[]"] exI [of _ "bt_events (bp_state st)"])
next
  case (Cons rq rqs)
  from Cons.prems(1) obtain st1 where step: "burn_step brn bal e k t rq st = Inr st1"
    and rest: "fold_trap (burn_step brn bal e k t) rqs st1 = Inr st'"
    by (auto split: sum.splits)
  let ?n = "bq_amount rq"
  have range: "in_i128 (bp_total st + asked rqs) \<and> (0 \<le> ?n \<longrightarrow> in_i128 (bp_total st + ?n + asked rqs) \<and> in_i128 (bp_total st + ?n))"
    using Cons.prems(2,3) asked_nonneg [of rqs] by (auto simp: in_i128_def max_def split: if_splits)
  show ?case
  proof (cases "0 < ?n \<and> ?n \<le> bal (bp_ledger st) t (bq_owner rq)")
    case False
    then have st1: "st1 = burn_failure k rq (if ?n \<le> 0 then 1 else 2) st"
      using step by (auto simp: burn_step_def validate_address_def validate_amount_def split: if_splits)
    then have same: "bp_total st1 = bp_total st" "bp_ledger st1 = bp_ledger st" "bp_ok st1 + bp_failed st1 = Suc (bp_ok st + bp_failed st)"
      "bp_results st1 = bp_results st @ [BurnFailure (bq_owner rq) ?n (if ?n \<le> 0 then 1 else 2)]"
      "bp_state st1 = emit (BurnFailed k (bq_owner rq) ?n (if ?n \<le> 0 then 1 else 2)) (bp_state st)"
      by (simp_all add: burn_failure_def)
    obtain new evs where new: "bp_results st' = bp_results st1 @ new" "list_all2 (burn_fits e) rqs new"
      "bp_total st' = bp_total st1 + sum_list (map burned new)"
      "bp_ok st' + bp_failed st' = bp_ok st1 + bp_failed st1 + length rqs"
      "\<forall>t' c. bal (bp_ledger st') t' c = bal (bp_ledger st1) t' c - (if t' = t then sum_list (map (burned_of c) new) else 0)"
      "bp_state st' = (bp_state st1)\<lparr>bt_events := evs\<rparr>"
      using Cons.IH [OF rest] Cons.prems(2) range unfolding same(1) by blast
    show ?thesis
      by (rule exI [of _ "BurnFailure (bq_owner rq) ?n (if ?n \<le> 0 then 1 else 2) # new"], rule exI [of _ evs])
        (simp add: new same emit_def)
  next
    case True
    from step True obtain l1 where x: "brn e t (bq_owner rq) ?n (bp_ledger st) = Some l1" and auth: "env_auth e (bq_owner rq)"
      and st1: "st1 = st\<lparr>bp_ledger := l1, bp_results := bp_results st @ [BurnSuccess (bq_owner rq) ?n],
             bp_ok := bp_ok st + 1, bp_total := unwrap_or (checked_add (bp_total st) ?n) (bp_total st),
             bp_state := emit (BurnSucceeded k (bq_owner rq) ?n) (bp_state st)\<rparr>"
      by (auto simp: burn_step_def validate_address_def validate_amount_def split: option.splits if_splits)
    have total: "bp_total st1 = bp_total st + ?n" using range True by (simp add: st1 checked_add_def)
    obtain new evs where new: "bp_results st' = bp_results st1 @ new" "list_all2 (burn_fits e) rqs new"
      "bp_total st' = bp_total st1 + sum_list (map burned new)"
      "bp_ok st' + bp_failed st' = bp_ok st1 + bp_failed st1 + length rqs"
      "\<forall>t' c. bal (bp_ledger st') t' c = bal (bp_ledger st1) t' c - (if t' = t then sum_list (map (burned_of c) new) else 0)"
      "bp_state st' = (bp_state st1)\<lparr>bt_events := evs\<rparr>"
      using Cons.IH [OF rest] Cons.prems(2) range True unfolding total by fastforce
    have bal: "bal l1 t' c = bal (bp_ledger st) t' c - (if t' = t \<and> c = bq_owner rq then ?n else 0)" for t' c
      by (rule burning_token.burn_balance [OF assms(1) x])
    have later: "bp_ledger st1 = l1" by (simp add: st1)
    show ?thesis
      by (rule exI [of _ "BurnSuccess (bq_owner rq) ?n # new"], rule exI [of _ evs])
        (use True auth bal in \<open>simp add: new(2,3,5) total later\<close>; simp add: new(1,4,6) st1 emit_def)
  qed
qed

text \<open>What a batch of burns does when it succeeds.  The signed admin runs it; every result fits its
  request, and a burn happened only for a positive amount with the owner's own signature; each
  account loses exactly what its successful requests say, in the named token only, and the total is
  their sum.  None of the lifetime counters changes, so the next batch gets the same batch id.\<close>

theorem batch_burn_spec:
  assumes "burning_token xfer bal brn" and "batch_burn brn bal e a t rqs (s, l) = Inr (r, s', l')"
    and "in_i128 (asked rqs)"
  shows "env_auth e a \<and> get_admin s = Inr a
    \<and> list_all2 (burn_fits e) rqs (bbr_results r)
    \<and> bbr_total_burned r = sum_list (map burned (bbr_results r))
    \<and> bbr_successful r + bbr_failed r = length rqs
    \<and> (\<forall>t' c. bal l' t' c = bal l t' c - (if t' = t then sum_list (map (burned_of c) (bbr_results r)) else 0))
    \<and> get_total_batches s' = get_total_batches s
    \<and> get_total_transfers_processed s' = get_total_transfers_processed s"
proof -
  define st0 where "st0 = \<lparr>bp_state = emit (BatchStarted (Suc (get_total_batches s)) (length rqs)) s, bp_ledger = l,
    bp_results = [], bp_ok = 0, bp_failed = 0, bp_total = 0\<rparr>"
  from assms(2) obtain st where pre: "env_auth e a" "bt_admin s = Some a"
    and loop: "fold_trap (burn_step brn bal e (Suc (get_total_batches s)) t) rqs st0 = Inr st"
    and r: "bbr_results r = bp_results st" "bbr_total_burned r = bp_total st" "bbr_successful r = bp_ok st"
      "bbr_failed r = bp_failed st" "l' = bp_ledger st"
      "bt_total_batches s' = bt_total_batches (bp_state st)" "bt_total_processed s' = bt_total_processed (bp_state st)"
    by (auto simp: batch_burn_def require_admin_def get_total_batches_def Let_def st0_def emit_def
        split: if_splits option.splits sum.splits)
  have st0: "bp_total st0 = 0" "bp_results st0 = []" "bp_ok st0 = 0" "bp_failed st0 = 0" "bp_ledger st0 = l"
    "bp_state st0 = emit (BatchStarted (Suc (get_total_batches s)) (length rqs)) s"
    by (simp_all add: st0_def)
  have "0 \<le> bp_total st0" "in_i128 (bp_total st0 + asked rqs)" using assms(3) by (simp_all add: st0)
  from burn_loop [OF assms(1) loop this] obtain new evs where
    new: "bp_results st = new" "list_all2 (burn_fits e) rqs new" "bp_total st = sum_list (map burned new)"
      "bp_ok st + bp_failed st = length rqs"
      "\<forall>t' c. bal (bp_ledger st) t' c = bal l t' c - (if t' = t then sum_list (map (burned_of c) new) else 0)"
      "bp_state st = (emit (BatchStarted (Suc (get_total_batches s)) (length rqs)) s)\<lparr>bt_events := evs\<rparr>"
    unfolding st0 by auto
  have "bt_total_batches s' = bt_total_batches s" "bt_total_processed s' = bt_total_processed s"
    by (simp_all add: r new(6) emit_def)
  with pre new(2-5) show ?thesis
    by (simp add: r(1-5) new(1) get_admin_def get_total_batches_def get_total_transfers_processed_def)
qed

section \<open>A run\<close>

definition transfer_demo_ledger :: "address \<Rightarrow> token_state" where
  "transfer_demo_ledger t = token_fresh\<lparr>tk_balance := [Addr 1 \<mapsto> 100, Addr 2 \<mapsto> 40], tk_supply := Some 140\<rparr>"

definition transfer_demo_state :: transfer_state where
  "transfer_demo_state = transfer_fresh\<lparr>bt_admin := Some (Addr 1)\<rparr>"

definition transfer_demo_requests :: "transfer_request list" where
  "transfer_demo_requests = [\<lparr>tq_recipient = Addr 3, tq_amount = 70\<rparr>, \<lparr>tq_recipient = Addr 4, tq_amount = 50\<rparr>,
     \<lparr>tq_recipient = Addr 5, tq_amount = 0\<rparr>, \<lparr>tq_recipient = Addr 6, tq_amount = 30\<rparr>]"

definition burn_demo_requests :: "burn_request list" where
  "burn_demo_requests = [\<lparr>bq_owner = Addr 2, bq_amount = 25\<rparr>, \<lparr>bq_owner = Addr 2, bq_amount = 25\<rparr>]"

lemmas transfer_eval = transfer_demo_ledger_def transfer_demo_state_def transfer_demo_requests_def burn_demo_requests_def
  transfer_fresh_def batch_transfer_def batch_burn_def require_admin_def validate_batch_not_empty_def
  validate_batch_size_def validate_unique_recipients_def MAX_BATCH_SIZE_def Let_def validated_def validate_address_def
  validate_amount_def transfer_step_def transfer_failure_def burn_step_def burn_failure_def emit_def
  token_xfer_def token_burn_def token_bal_def callee_env_def Token.transfer_def Token.burn_def Token.move_balance_def
  Token.token_query_defs token_fresh_def Token.emit_def arith_defs

theorem batch_transfer_settles_witness:
  "\<exists>r s' l'. batch_transfer token_xfer token_bal (signed_env [Addr 1] 1 10 (Addr 8)) (Addr 1) (Addr 7)
      transfer_demo_requests (transfer_demo_state, transfer_demo_ledger) = Inr (r, s', l')
    \<and> btr_results r = [TransferSuccess (Addr 3) 70, TransferFailure (Addr 4) 50 2, TransferFailure (Addr 5) 0 1,
        TransferSuccess (Addr 6) 30]
    \<and> token_bal l' (Addr 7) (Addr 1) = 0 \<and> get_total_transfers_processed s' = 4"
proof -
  let ?e = "signed_env [Addr 1] 1 10 (Addr 8)"
  have "\<exists>x. batch_transfer token_xfer token_bal ?e (Addr 1) (Addr 7)
      transfer_demo_requests (transfer_demo_state, transfer_demo_ledger) = Inr x"
    by (simp add: transfer_eval)
  then obtain r s' l' where run: "batch_transfer token_xfer token_bal ?e (Addr 1) (Addr 7)
      transfer_demo_requests (transfer_demo_state, transfer_demo_ledger) = Inr (r, s', l')" by auto
  have pre: "Addr 1 \<notin> tq_recipient ` set transfer_demo_requests" "in_i128 (token_bal transfer_demo_ledger (Addr 7) (Addr 1))"
    "token_bal transfer_demo_ledger (Addr 7) (Addr 1) = 100" "length transfer_demo_requests = 4"
    "settle 100 transfer_demo_requests = [TransferSuccess (Addr 3) 70, TransferFailure (Addr 4) 50 2,
       TransferFailure (Addr 5) 0 1, TransferSuccess (Addr 6) 30]"
    "get_total_transfers_processed transfer_demo_state = 0"
    by (simp_all add: transfer_demo_requests_def transfer_demo_ledger_def transfer_demo_state_def token_bal_def
        Token.token_query_defs token_fresh_def in_i128_def get_total_transfers_processed_def transfer_fresh_def)
  from batch_transfer_settles [OF token_ledger.token_client_axioms run, OF pre(1,2)] run show ?thesis
    by (auto simp: pre simp del: One_nat_def)
qed

theorem batch_burn_spec_witness:
  "\<exists>r s' l'. batch_burn token_burn token_bal (signed_env [Addr 1, Addr 2] 1 10 (Addr 8)) (Addr 1) (Addr 7)
      burn_demo_requests (transfer_demo_state, transfer_demo_ledger) = Inr (r, s', l')
    \<and> list_all2 (burn_fits (signed_env [Addr 1, Addr 2] 1 10 (Addr 8))) burn_demo_requests (bbr_results r)
    \<and> get_total_batches s' = 0"
proof -
  let ?e = "signed_env [Addr 1, Addr 2] 1 10 (Addr 8)"
  have "\<exists>x. batch_burn token_burn token_bal ?e (Addr 1) (Addr 7)
      burn_demo_requests (transfer_demo_state, transfer_demo_ledger) = Inr x"
    by (simp add: transfer_eval)
  then obtain r s' l' where run: "batch_burn token_burn token_bal ?e (Addr 1) (Addr 7)
      burn_demo_requests (transfer_demo_state, transfer_demo_ledger) = Inr (r, s', l')" by auto
  have "in_i128 (asked burn_demo_requests)" by (simp add: burn_demo_requests_def in_i128_def)
  from batch_burn_spec [OF burning_ledger.burning_token_axioms run this] run show ?thesis
    by (auto simp: get_total_batches_def transfer_demo_state_def transfer_fresh_def)
qed

end
