(* ===== verification/Rewards.thy ===== *)
theory Rewards
  imports Host
begin

text \<open>
  \<open>contracts/rewards/src\<close>: reward accounts and credits (\<open>lib.rs\<close>, \<open>rewards.rs\<close>, \<open>storage.rs\<close>,
  \<open>types.rs\<close>, \<open>validation.rs\<close>).  The contract keeps every figure of an account twice, in the account
  record and in a scalar entry of its own; the refinement at the end shows that the copies agree and
  that the contract implements a plain table of points.
\<close>

section \<open>Data (types.rs)\<close>

datatype reward_type = SpendingLimit | SavingsGoal | Streak | Referral | ManualGrant

datatype reward_status = Pending | Confirmed | Claimed | Cancelled

record reward_account =
  ra_owner :: address
  ra_balance :: int
  ra_lifetime_earned :: int
  ra_lifetime_claimed :: int
  ra_created_at :: nat
  ra_last_updated :: nat

record reward_transaction =
  rt_id :: nat
  rt_recipient :: address
  rt_amount :: int
  rt_reward_type :: reward_type
  rt_status :: reward_status
  rt_created_at :: nat
  rt_updated_at :: nat

datatype rewards_error =
    NotInitialized | Unauthorized | AlreadyInitialized | AccountAlreadyRegistered | InvalidAmount
  | AccountNotFound | Overflow

datatype rewards_event =
    Initialized address
  | AccountRegistered address
  | RewardCredited address int nat

record rewards_state =
  rw_admin :: "address option"
  rw_initialized :: "bool option"
  rw_balance :: "address \<rightharpoonup> int"
  rw_earned :: "address \<rightharpoonup> int"
  rw_claimed :: "address \<rightharpoonup> int"
  rw_account :: "address \<rightharpoonup> reward_account"
  rw_transaction :: "nat \<rightharpoonup> reward_transaction"
  rw_tx_counter :: "nat option"
  rw_events :: "rewards_event list"

definition rewards_fresh :: rewards_state where
  "rewards_fresh = \<lparr>rw_admin = None, rw_initialized = None, rw_balance = Map.empty, rw_earned = Map.empty,
     rw_claimed = Map.empty, rw_account = Map.empty, rw_transaction = Map.empty, rw_tx_counter = None,
     rw_events = []\<rparr>"

definition emit :: "rewards_event \<Rightarrow> rewards_state \<Rightarrow> rewards_state" where
  "emit ev s = s\<lparr>rw_events := rw_events s @ [ev]\<rparr>"

section \<open>Storage helpers (storage.rs)\<close>

definition get_reward_balance :: "rewards_state \<Rightarrow> address \<Rightarrow> int" where
  "get_reward_balance s a = unwrap_or (rw_balance s a) 0"

definition set_reward_balance :: "address \<Rightarrow> int \<Rightarrow> rewards_state \<Rightarrow> rewards_state" where
  "set_reward_balance a balance s = s\<lparr>rw_balance := (rw_balance s)(a \<mapsto> balance)\<rparr>"

definition get_lifetime_earned :: "rewards_state \<Rightarrow> address \<Rightarrow> int" where
  "get_lifetime_earned s a = unwrap_or (rw_earned s a) 0"

definition set_lifetime_earned :: "address \<Rightarrow> int \<Rightarrow> rewards_state \<Rightarrow> rewards_state" where
  "set_lifetime_earned a amount s = s\<lparr>rw_earned := (rw_earned s)(a \<mapsto> amount)\<rparr>"

definition get_lifetime_claimed :: "rewards_state \<Rightarrow> address \<Rightarrow> int" where
  "get_lifetime_claimed s a = unwrap_or (rw_claimed s a) 0"

definition set_lifetime_claimed :: "address \<Rightarrow> int \<Rightarrow> rewards_state \<Rightarrow> rewards_state" where
  "set_lifetime_claimed a amount s = s\<lparr>rw_claimed := (rw_claimed s)(a \<mapsto> amount)\<rparr>"

definition get_reward_account :: "rewards_state \<Rightarrow> address \<Rightarrow> reward_account option" where
  "get_reward_account s a = rw_account s a"

definition set_reward_account :: "address \<Rightarrow> reward_account \<Rightarrow> rewards_state \<Rightarrow> rewards_state" where
  "set_reward_account a acc s = s\<lparr>rw_account := (rw_account s)(a \<mapsto> acc)\<rparr>"

definition has_reward_account :: "rewards_state \<Rightarrow> address \<Rightarrow> bool" where
  "has_reward_account s a \<longleftrightarrow> rw_account s a \<noteq> None"

definition get_reward_tx_counter :: "rewards_state \<Rightarrow> nat" where
  "get_reward_tx_counter s = unwrap_or (rw_tx_counter s) 0"

definition set_reward_tx_counter :: "nat \<Rightarrow> rewards_state \<Rightarrow> rewards_state" where
  "set_reward_tx_counter counter s = s\<lparr>rw_tx_counter := Some counter\<rparr>"

definition get_reward_transaction :: "rewards_state \<Rightarrow> nat \<Rightarrow> reward_transaction option" where
  "get_reward_transaction s i = rw_transaction s i"

definition set_reward_transaction :: "nat \<Rightarrow> reward_transaction \<Rightarrow> rewards_state \<Rightarrow> rewards_state" where
  "set_reward_transaction i tx s = s\<lparr>rw_transaction := (rw_transaction s)(i \<mapsto> tx)\<rparr>"

lemmas rewards_storage = get_reward_balance_def set_reward_balance_def get_lifetime_earned_def set_lifetime_earned_def
  get_lifetime_claimed_def set_lifetime_claimed_def get_reward_account_def set_reward_account_def has_reward_account_def
  get_reward_tx_counter_def set_reward_tx_counter_def get_reward_transaction_def set_reward_transaction_def

section \<open>Validation (validation.rs)\<close>

definition validate_account_not_registered :: "address \<Rightarrow> rewards_state \<Rightarrow> rewards_error + unit" where
  "validate_account_not_registered a s = (if has_reward_account s a then Inl AccountAlreadyRegistered else Inr ())"

definition validate_contract_initialized :: "rewards_state \<Rightarrow> rewards_error + unit" where
  "validate_contract_initialized s = (if rw_initialized s = None then Inl NotInitialized else Inr ())"

definition validate_account_registered :: "address \<Rightarrow> rewards_state \<Rightarrow> rewards_error + unit" where
  "validate_account_registered a s = (if \<not> has_reward_account s a then Inl AccountNotFound else Inr ())"

definition validate_reward_amount :: "int \<Rightarrow> rewards_error + unit" where
  "validate_reward_amount amount = (if amount \<le> 0 then Inl InvalidAmount else Inr ())"

section \<open>Account logic (rewards.rs)\<close>

text \<open>The functions of \<open>rewards.rs\<close> return \<open>Err\<close>, on which the entry points panic with that error.\<close>

definition register_reward_account :: "env \<Rightarrow> address \<Rightarrow> rewards_state \<Rightarrow> rewards_error + rewards_state" where
  "register_reward_account e participant s =
    (case validate_contract_initialized s of Inl err \<Rightarrow> Inl err | Inr _ \<Rightarrow>
     case validate_account_not_registered participant s of Inl err \<Rightarrow> Inl err | Inr _ \<Rightarrow>
     let now = env_sequence e;
         acc = \<lparr>ra_owner = participant, ra_balance = 0, ra_lifetime_earned = 0, ra_lifetime_claimed = 0,
                ra_created_at = now, ra_last_updated = now\<rparr>;
         s1 = set_reward_account participant acc s;
         s2 = set_reward_balance participant 0 s1;
         s3 = set_lifetime_earned participant 0 s2;
         s4 = set_lifetime_claimed participant 0 s3
     in Inr (emit (AccountRegistered participant) s4))"

text \<open>The counter update is a plain addition: \<open>Inr None\<close> is its overflow panic.\<close>

definition credit_reward :: "env \<Rightarrow> address \<Rightarrow> int \<Rightarrow> reward_type \<Rightarrow> rewards_state
    \<Rightarrow> rewards_error + (reward_transaction \<times> rewards_state) option" where
  "credit_reward e participant amount reward_type s =
    (case validate_contract_initialized s of Inl err \<Rightarrow> Inl err | Inr _ \<Rightarrow>
     case validate_account_registered participant s of Inl err \<Rightarrow> Inl err | Inr _ \<Rightarrow>
     case validate_reward_amount amount of Inl err \<Rightarrow> Inl err | Inr _ \<Rightarrow>
     case checked_add (get_reward_balance s participant) amount of None \<Rightarrow> Inl Overflow | Some new_balance \<Rightarrow>
     case checked_add (get_lifetime_earned s participant) amount of None \<Rightarrow> Inl Overflow | Some new_lifetime \<Rightarrow>
     let now = env_sequence e in
     case get_reward_account s participant of None \<Rightarrow> Inl AccountNotFound | Some acc \<Rightarrow>
     let acc1 = acc\<lparr>ra_balance := new_balance, ra_lifetime_earned := new_lifetime, ra_last_updated := now\<rparr>;
         s1 = set_reward_account participant acc1 s;
         s2 = set_reward_balance participant new_balance s1;
         s3 = set_lifetime_earned participant new_lifetime s2;
         tx_id = get_reward_tx_counter s3;
         tx = \<lparr>rt_id = tx_id, rt_recipient = participant, rt_amount = amount, rt_reward_type = reward_type,
               rt_status = Confirmed, rt_created_at = now, rt_updated_at = 0\<rparr>;
         s4 = set_reward_transaction tx_id tx s3 in
     case u64_add tx_id 1 of None \<Rightarrow> Inr None | Some next \<Rightarrow>
     Inr (Some (tx, emit (RewardCredited participant amount tx_id) (set_reward_tx_counter next s4))))"

section \<open>Entry points (lib.rs)\<close>

definition initialize :: "env \<Rightarrow> address \<Rightarrow> rewards_state \<Rightarrow> (rewards_state, rewards_error, unit) outcome" where
  "initialize e admin s =
    (if rw_initialized s \<noteq> None then Inl (ContractError AlreadyInitialized) else
     if \<not> env_auth e admin then Inl AuthTrap else
     Inr ((), emit (Initialized admin) (s\<lparr>rw_admin := Some admin, rw_initialized := Some True\<rparr>)))"

definition get_admin :: "rewards_state \<Rightarrow> rewards_error trap + address" where
  "get_admin s = (case rw_admin s of None \<Rightarrow> Inl (ContractError NotInitialized) | Some a \<Rightarrow> Inr a)"

definition is_initialized :: "rewards_state \<Rightarrow> bool" where
  "is_initialized s \<longleftrightarrow> rw_initialized s \<noteq> None"

definition register_account :: "env \<Rightarrow> address \<Rightarrow> rewards_state \<Rightarrow> (rewards_state, rewards_error, unit) outcome" where
  "register_account e participant s =
    (if \<not> env_auth e participant then Inl AuthTrap else
     case register_reward_account e participant s of Inl err \<Rightarrow> Inl (ContractError err) | Inr s1 \<Rightarrow> Inr ((), s1))"

definition get_account :: "rewards_state \<Rightarrow> address \<Rightarrow> reward_account option" where
  "get_account s participant = get_reward_account s participant"

definition credit_reward_entry :: "env \<Rightarrow> address \<Rightarrow> int \<Rightarrow> reward_type \<Rightarrow> rewards_state
    \<Rightarrow> (rewards_state, rewards_error, reward_transaction) outcome" where
  "credit_reward_entry e participant amount reward_type s =
    (case rw_admin s of None \<Rightarrow> Inl (ContractError NotInitialized) | Some admin \<Rightarrow>
     if \<not> env_auth e admin then Inl AuthTrap else
     case credit_reward e participant amount reward_type s of
       Inl err \<Rightarrow> Inl (ContractError err)
     | Inr None \<Rightarrow> Inl ArithTrap
     | Inr (Some out) \<Rightarrow> Inr out)"

datatype rewards_call =
    CInitialize address
  | CRegister address
  | CCredit address int reward_type

fun rewards_exec :: "env \<times> rewards_call \<Rightarrow> rewards_state \<Rightarrow> rewards_error trap + rewards_state" where
  "rewards_exec (e, CInitialize a) s = final (initialize e a s)"
| "rewards_exec (e, CRegister a) s = final (register_account e a s)"
| "rewards_exec (e, CCredit a n k) s = final (credit_reward_entry e a n k s)"

section \<open>The abstract table of points\<close>

text \<open>What the contract promises: a table from participants to points, and who may change it.\<close>

record points =
  pt_admin :: "address option"
  pt_table :: "address \<rightharpoonup> int"

fun points_step :: "env \<times> rewards_call \<Rightarrow> points \<Rightarrow> points option" where
  "points_step (e, CInitialize a) p =
     (if pt_admin p = None \<and> env_auth e a then Some (p\<lparr>pt_admin := Some a\<rparr>) else None)"
| "points_step (e, CRegister a) p =
     (if pt_admin p \<noteq> None \<and> env_auth e a \<and> pt_table p a = None
      then Some (p\<lparr>pt_table := (pt_table p)(a \<mapsto> 0)\<rparr>) else None)"
| "points_step (e, CCredit a n k) p =
     (case (pt_admin p, pt_table p a) of
        (Some admin, Some x) \<Rightarrow> if env_auth e admin \<and> 0 < n \<and> in_i128 (x + n)
                                then Some (p\<lparr>pt_table := (pt_table p)(a \<mapsto> x + n)\<rparr>) else None
      | _ \<Rightarrow> None)"

definition points_of :: "rewards_state \<Rightarrow> points" where
  "points_of s = \<lparr>pt_admin = rw_admin s, pt_table = (\<lambda>a. map_option ra_balance (rw_account s a))\<rparr>"

definition credited :: "rewards_state \<Rightarrow> address \<Rightarrow> int" where
  "credited s a = (\<Sum>i<get_reward_tx_counter s.
     (case rw_transaction s i of Some tx \<Rightarrow> if rt_recipient tx = a then rt_amount tx else 0 | None \<Rightarrow> 0))"

text \<open>The copies of an account agree, its balance is the sum of its credits, and the transaction
  records are numbered without gaps.\<close>

definition rewards_inv :: "rewards_state \<Rightarrow> bool" where
  "rewards_inv s \<longleftrightarrow>
     (rw_initialized s = None \<longleftrightarrow> rw_admin s = None)
   \<and> dom (rw_transaction s) = {..<get_reward_tx_counter s}
   \<and> (\<forall>a. rw_account s a = None \<longrightarrow> rw_balance s a = None \<and> rw_earned s a = None \<and> credited s a = 0)
   \<and> (\<forall>a acc. rw_account s a = Some acc \<longrightarrow> ra_owner acc = a
        \<and> rw_balance s a = Some (ra_balance acc) \<and> rw_earned s a = Some (ra_lifetime_earned acc)
        \<and> rw_claimed s a = Some 0 \<and> ra_lifetime_claimed acc = 0
        \<and> ra_balance acc = credited s a \<and> ra_lifetime_earned acc = credited s a)"

lemma rewards_inv_fresh: "rewards_inv rewards_fresh"
  by (simp add: rewards_inv_def rewards_fresh_def get_reward_tx_counter_def credited_def)

lemma credited_new:
  assumes "rw_transaction s' = (rw_transaction s)(get_reward_tx_counter s \<mapsto> tx)"
    and "get_reward_tx_counter s' = Suc (get_reward_tx_counter s)"
  shows "credited s' a = credited s a + (if rt_recipient tx = a then rt_amount tx else 0)"
proof -
  have "(\<Sum>i<get_reward_tx_counter s. case rw_transaction s' i of Some tx \<Rightarrow> if rt_recipient tx = a then rt_amount tx else 0 | None \<Rightarrow> 0)
      = credited s a"
    unfolding credited_def by (rule sum.cong) (auto simp: assms(1))
  then show ?thesis by (simp add: credited_def [of s'] assms)
qed

lemma credit_Inr:
  assumes "credit_reward_entry e a n k s = Inr (tx, s')" and "rewards_inv s"
  shows "\<exists>adm acc. rw_admin s = Some adm \<and> env_auth e adm \<and> 0 < n \<and> rw_account s a = Some acc
    \<and> in_i128 (ra_balance acc + n)
    \<and> tx = \<lparr>rt_id = get_reward_tx_counter s, rt_recipient = a, rt_amount = n, rt_reward_type = k,
            rt_status = Confirmed, rt_created_at = env_sequence e, rt_updated_at = 0\<rparr>
    \<and> rw_admin s' = rw_admin s \<and> rw_initialized s' = rw_initialized s
    \<and> rw_balance s' = (rw_balance s)(a \<mapsto> ra_balance acc + n)
    \<and> rw_earned s' = (rw_earned s)(a \<mapsto> ra_balance acc + n) \<and> rw_claimed s' = rw_claimed s
    \<and> rw_account s' = (rw_account s)(a \<mapsto> acc\<lparr>ra_balance := ra_balance acc + n,
         ra_lifetime_earned := ra_balance acc + n, ra_last_updated := env_sequence e\<rparr>)
    \<and> rw_transaction s' = (rw_transaction s)(get_reward_tx_counter s \<mapsto> tx)
    \<and> get_reward_tx_counter s' = Suc (get_reward_tx_counter s)"
  using assms
  by (auto simp: credit_reward_entry_def credit_reward_def validate_contract_initialized_def
      validate_account_registered_def validate_reward_amount_def rewards_storage emit_def Let_def rewards_inv_def
      split: if_splits option.splits sum.splits)

lemma rewards_exec_inv:
  assumes "rewards_inv s" and "rewards_exec (e, call) s = Inr s'"
  shows "rewards_inv s' \<and> points_step (e, call) (points_of s) = Some (points_of s')"
proof (cases call)
  case (CInitialize a)
  with assms(2) have r: "env_auth e a" "rw_initialized s = None"
    and s': "s' = emit (Initialized a) (s\<lparr>rw_admin := Some a, rw_initialized := Some True\<rparr>)"
    by (auto simp: initialize_def split: if_splits)
  have "credited s' = credited s" "get_reward_tx_counter s' = get_reward_tx_counter s"
    by (simp_all add: s' emit_def credited_def get_reward_tx_counter_def fun_eq_iff)
  with assms(1) r CInitialize show ?thesis
    by (auto simp: rewards_inv_def s' emit_def points_of_def)
next
  case (CRegister a)
  with assms(2) have r: "env_auth e a" "rw_initialized s \<noteq> None" "rw_account s a = None"
    and s': "s' = emit (AccountRegistered a) (s\<lparr>rw_account := (rw_account s)(a \<mapsto> \<lparr>ra_owner = a, ra_balance = 0,
       ra_lifetime_earned = 0, ra_lifetime_claimed = 0, ra_created_at = env_sequence e, ra_last_updated = env_sequence e\<rparr>),
       rw_balance := (rw_balance s)(a \<mapsto> 0), rw_earned := (rw_earned s)(a \<mapsto> 0), rw_claimed := (rw_claimed s)(a \<mapsto> 0)\<rparr>)"
    by (auto simp: register_account_def register_reward_account_def validate_contract_initialized_def
        validate_account_not_registered_def rewards_storage Let_def split: if_splits sum.splits)
  have "credited s' = credited s" "get_reward_tx_counter s' = get_reward_tx_counter s"
    by (simp_all add: s' emit_def credited_def get_reward_tx_counter_def fun_eq_iff)
  with assms(1) r CRegister show ?thesis
    by (auto simp: rewards_inv_def s' emit_def points_of_def fun_eq_iff)
next
  case (CCredit a n k)
  with assms(2) obtain tx where run: "credit_reward_entry e a n k s = Inr (tx, s')" by auto
  from credit_Inr [OF run assms(1)] obtain adm acc where c: "rw_admin s = Some adm" "env_auth e adm" "0 < n"
    "rw_account s a = Some acc" "in_i128 (ra_balance acc + n)" "rt_recipient tx = a" "rt_amount tx = n"
    "rw_admin s' = rw_admin s" "rw_initialized s' = rw_initialized s"
    "rw_balance s' = (rw_balance s)(a \<mapsto> ra_balance acc + n)"
    "rw_earned s' = (rw_earned s)(a \<mapsto> ra_balance acc + n)" "rw_claimed s' = rw_claimed s"
    "rw_account s' = (rw_account s)(a \<mapsto> acc\<lparr>ra_balance := ra_balance acc + n,
       ra_lifetime_earned := ra_balance acc + n, ra_last_updated := env_sequence e\<rparr>)"
    "rw_transaction s' = (rw_transaction s)(get_reward_tx_counter s \<mapsto> tx)"
    "get_reward_tx_counter s' = Suc (get_reward_tx_counter s)" by auto
  note sum = credited_new [OF c(14,15)]
  have "dom (rw_transaction s') = {..<get_reward_tx_counter s'}"
    using assms(1) by (simp add: c(14,15) rewards_inv_def lessThan_Suc)
  then have "rewards_inv s'"
    using assms(1) c(4,6,7) unfolding rewards_inv_def c(8-13,15) sum by auto
  moreover have "points_step (e, call) (points_of s) = Some (points_of s')"
    using c(1-5) by (simp add: CCredit points_of_def c(8,13) fun_eq_iff)
  ultimately show ?thesis ..
qed

interpretation rewards_machine: contract_invariant rewards_exec rewards_inv "\<lambda>_. True"
  by unfold_locales (use rewards_exec_inv in \<open>auto\<close>)

section \<open>The table of points as a transition system\<close>

text \<open>A call the table does not allow is refused and changes nothing.\<close>

definition points_exec :: "env \<times> rewards_call \<Rightarrow> points \<Rightarrow> unit trap + points" where
  "points_exec c p = (case points_step c p of None \<Rightarrow> Inl PanicTrap | Some q \<Rightarrow> Inr q)"

text \<open>The only reason to refuse that the table does not know is the \<open>u64\<close> counter of credits.\<close>

lemma points_refuse:
  assumes "rewards_inv s" and "rewards_exec (e, call) s = Inl t" and "get_reward_tx_counter s < 2 ^ 64 - 1"
  shows "points_step (e, call) (points_of s) = None"
proof (cases call)
  case (CInitialize a)
  with assms show ?thesis
    by (auto simp: initialize_def points_of_def rewards_inv_def split: if_splits)
next
  case (CRegister a)
  with assms show ?thesis
    by (auto simp: register_account_def register_reward_account_def validate_contract_initialized_def
        validate_account_not_registered_def rewards_storage points_of_def rewards_inv_def Let_def
        split: if_splits sum.splits)
next
  case (CCredit a n k)
  with assms show ?thesis
    by (auto simp: credit_reward_entry_def credit_reward_def validate_contract_initialized_def checked_add_def
        validate_account_registered_def validate_reward_amount_def rewards_storage points_of_def rewards_inv_def Let_def
        u64_add_def in_u64_def split: if_splits option.splits sum.splits)
qed

lemma rewards_exec_commit:
  assumes "rewards_inv s" and "get_reward_tx_counter s < 2 ^ 64 - 1"
  shows "points_of (commit s (rewards_exec c s)) = commit (points_of s) (points_exec c (points_of s))"
proof (cases c)
  case (Pair e call)
  show ?thesis
  proof (cases "rewards_exec (e, call) s")
    case (Inl t)
    with points_refuse [OF assms(1) Inl assms(2)] Pair show ?thesis by (simp add: points_exec_def)
  next
    case (Inr s')
    with rewards_exec_inv [OF assms(1) Inr] Pair show ?thesis by (simp add: points_exec_def)
  qed
qed

lemma rewards_counter_step:
  assumes "rewards_inv s"
  shows "get_reward_tx_counter (commit s (rewards_exec c s)) \<le> Suc (get_reward_tx_counter s)"
proof (cases "rewards_exec c s")
  case (Inr s')
  obtain e call where c: "c = (e, call)" by (cases c)
  show ?thesis
  proof (cases call)
    case (CCredit a n k)
    with Inr c obtain tx where "credit_reward_entry e a n k s = Inr (tx, s')" by auto
    from credit_Inr [OF this assms] show ?thesis by (auto simp: Inr)
  qed (use Inr c in \<open>auto simp: initialize_def register_account_def register_reward_account_def rewards_storage
        emit_def Let_def split: if_splits sum.splits\<close>)
qed simp

lemma rewards_refine_run:
  assumes "rewards_inv s" and "get_reward_tx_counter s + length cs < 2 ^ 64"
  shows "points_of (run rewards_exec cs s) = run points_exec cs (points_of s)"
  using assms
proof (induction cs arbitrary: s)
  case (Cons c cs)
  have "rewards_inv (commit s (rewards_exec c s))"
    by (rule rewards_machine.commit_inv) (simp_all add: Cons.prems(1))
  moreover have "get_reward_tx_counter (commit s (rewards_exec c s)) + length cs < 2 ^ 64"
    using rewards_counter_step [OF Cons.prems(1), of c] Cons.prems(2) by simp
  moreover have "points_of (commit s (rewards_exec c s)) = commit (points_of s) (points_exec c (points_of s))"
    by (rule rewards_exec_commit [OF Cons.prems(1)]) (use Cons.prems(2) in simp)
  ultimately show ?case using Cons.IH by simp
qed simp

section \<open>Properties\<close>

text \<open>C13: The contract refines the table.  After any sequence of fewer than \<open>2 ^ 64\<close> calls, the
  points the contract reports are those of the abstract table run over the same calls: the first
  initializer becomes the administrator, only a participant registers itself and only once, only the
  administrator credits, only registered accounts and positive amounts, and a credit that does not
  fit in \<open>i128\<close> is refused.  Moreover the three scalar copies of an account agree with its record,
  its balance is the sum of the credit records with its address, and nothing is ever claimed.\<close>

theorem rewards_refine:
  assumes "length calls < 2 ^ 64"
  shows "points_of (run rewards_exec calls rewards_fresh) = run points_exec calls (points_of rewards_fresh)
    \<and> rewards_inv (run rewards_exec calls rewards_fresh)"
  using assms rewards_machine.run_inv [OF rewards_inv_fresh] rewards_refine_run [OF rewards_inv_fresh]
  by (simp add: rewards_fresh_def get_reward_tx_counter_def)

definition demo_rewards_calls :: "(env \<times> rewards_call) list" where
  "demo_rewards_calls =
    [(signed_env [Addr 1] 5 1 (Addr 0), CInitialize (Addr 1)),
     (signed_env [Addr 2] 6 1 (Addr 0), CRegister (Addr 2)),
     (signed_env [Addr 1] 7 1 (Addr 0), CCredit (Addr 2) 30 Streak),
     (signed_env [Addr 2] 8 1 (Addr 0), CCredit (Addr 2) 1000 ManualGrant),
     (signed_env [Addr 1] 9 1 (Addr 0), CCredit (Addr 2) 12 Referral)]"

lemma rewards_refine_witness:
  "pt_table (points_of (run rewards_exec demo_rewards_calls rewards_fresh)) (Addr 2) = Some 42
   \<and> rewards_inv (run rewards_exec demo_rewards_calls rewards_fresh)"
proof -
  have l: "length demo_rewards_calls < 2 ^ 64" by (simp add: demo_rewards_calls_def)
  have "pt_table (run points_exec demo_rewards_calls (points_of rewards_fresh)) (Addr 2) = Some 42"
    by (simp add: demo_rewards_calls_def points_exec_def points_of_def rewards_fresh_def signed_env_def in_i128_def)
  with rewards_refine [OF l] show ?thesis by simp
qed

end
