(* ===== verification/Batch_Rewards.thy ===== *)
theory Batch_Rewards
  imports Shared Token
begin

text \<open>
  \<open>contracts/batch-rewards/src\<close>: rewards paid by the admin to many recipients in one call (\<open>lib.rs\<close>,
  \<open>types.rs\<close>, \<open>validation.rs\<close>).  The token is the parameters \<open>xfer\<close> and \<open>bal\<close> with the laws of
  \<open>token_client\<close>; the contract calls \<open>try_transfer\<close>, so that a token that traps makes one failed entry
  and leaves the ledger as it was.  The idempotency token, a byte string, is a list of numbers.
  \<open>decay.rs\<close> and \<open>gas.rs\<close> are not declared as modules of the crate.
\<close>

section \<open>Data (types.rs)\<close>

definition MAX_BATCH_SIZE :: nat where "MAX_BATCH_SIZE = 100"

type_synonym bytes = "nat list"

record reward_request =
  rr_recipient :: address
  rr_amount :: int

datatype reward_result =
    RewardSuccess address int
  | RewardFailure address int nat

record batch_reward_result =
  brr_total_requests :: nat
  brr_successful :: nat
  brr_failed :: nat
  brr_total_distributed :: int
  brr_results :: "reward_result list"

datatype batch_rewards_error =
    NotInitialized | Unauthorized | InvalidBatch | EmptyBatch | BatchTooLarge | InvalidToken
  | InsufficientBalance | InvalidAmount | DuplicateRequest

fun error_code :: "batch_rewards_error \<Rightarrow> nat" where
  "error_code NotInitialized = 1"
| "error_code Unauthorized = 2"
| "error_code InvalidBatch = 3"
| "error_code EmptyBatch = 4"
| "error_code BatchTooLarge = 5"
| "error_code InvalidToken = 6"
| "error_code InsufficientBalance = 7"
| "error_code InvalidAmount = 8"
| "error_code DuplicateRequest = 9"

datatype reward_event =
    BatchStarted nat nat
  | RewardSucceeded nat address int
  | RewardFailed nat address int nat
  | BatchCompleted nat nat nat int
  | AdminChanged address

record batch_rewards_state =
  bw_admin :: "address option"
  bw_total_batches :: "nat option"
  bw_total_processed :: "nat option"
  bw_total_volume :: "int option"
  bw_tokens :: "bytes \<rightharpoonup> bool"
  bw_events :: "reward_event list"

definition rewards_state_fresh :: batch_rewards_state where
  "rewards_state_fresh = \<lparr>bw_admin = None, bw_total_batches = None, bw_total_processed = None,
     bw_total_volume = None, bw_tokens = Map.empty, bw_events = []\<rparr>"

definition emit :: "reward_event \<Rightarrow> batch_rewards_state \<Rightarrow> batch_rewards_state" where
  "emit ev s = s\<lparr>bw_events := bw_events s @ [ev]\<rparr>"

type_synonym ('led, 'a) batch_rewards_outcome = "(batch_rewards_state \<times> 'led, batch_rewards_error, 'a) outcome"

section \<open>Validation (validation.rs)\<close>

datatype validation_error = BadAmount | BadRecipient

definition validate_address :: "address \<Rightarrow> validation_error + unit" where
  "validate_address a = Inr ()"

definition validate_amount :: "int \<Rightarrow> validation_error + unit" where
  "validate_amount amount =
    (if amount \<le> 0 then Inl BadAmount else
     if amount > quot i128_max 2 then Inl BadAmount else Inr ())"

section \<open>Entry points (lib.rs)\<close>

definition initialize :: "address \<Rightarrow> batch_rewards_state \<times> 'led \<Rightarrow> ('led, unit) batch_rewards_outcome" where
  "initialize admin w = (case w of (s, l) \<Rightarrow>
     if bw_admin s \<noteq> None then Inl PanicTrap else
     Inr ((), s\<lparr>bw_admin := Some admin, bw_total_batches := Some 0, bw_total_processed := Some 0,
                bw_total_volume := Some 0\<rparr>, l))"

definition get_admin :: "batch_rewards_state \<Rightarrow> batch_rewards_error trap + address" where
  "get_admin s = (case bw_admin s of None \<Rightarrow> Inl PanicTrap | Some a \<Rightarrow> Inr a)"

definition get_total_batches :: "batch_rewards_state \<Rightarrow> nat" where
  "get_total_batches s = unwrap_or (bw_total_batches s) 0"

definition get_total_rewards_processed :: "batch_rewards_state \<Rightarrow> nat" where
  "get_total_rewards_processed s = unwrap_or (bw_total_processed s) 0"

definition get_total_volume_distributed :: "batch_rewards_state \<Rightarrow> int" where
  "get_total_volume_distributed s = unwrap_or (bw_total_volume s) 0"

definition require_admin :: "address \<Rightarrow> batch_rewards_state \<Rightarrow> batch_rewards_error trap + unit" where
  "require_admin caller s =
    (case bw_admin s of None \<Rightarrow> Inl PanicTrap | Some admin \<Rightarrow>
     if admin \<noteq> caller then Inl (ContractError Unauthorized) else Inr ())"

definition set_admin :: "env \<Rightarrow> address \<Rightarrow> address \<Rightarrow> batch_rewards_state \<times> 'led \<Rightarrow> ('led, unit) batch_rewards_outcome" where
  "set_admin e caller new_admin w = (case w of (s, l) \<Rightarrow>
     if \<not> env_auth e caller then Inl AuthTrap else
     case require_admin caller s of Inl t \<Rightarrow> Inl t | Inr _ \<Rightarrow>
     Inr ((), emit (AdminChanged new_admin) (s\<lparr>bw_admin := Some new_admin\<rparr>), l))"

text \<open>The sum of all requested amounts: a plain addition, which panics when it leaves \<open>i128\<close>.\<close>

definition required_step :: "reward_request \<Rightarrow> int \<Rightarrow> batch_rewards_error trap + int" where
  "required_step reward acc = (case checked_add acc (rr_amount reward) of None \<Rightarrow> Inl ArithTrap | Some n \<Rightarrow> Inr n)"

text \<open>The local variables of the loop, together with the state and the ledger.\<close>

record 'led reward_pass =
  pw_state :: batch_rewards_state
  pw_ledger :: 'led
  pw_results :: "reward_result list"
  pw_ok :: nat
  pw_failed :: nat
  pw_total :: int

definition reward_failure :: "nat \<Rightarrow> reward_request \<Rightarrow> batch_rewards_error \<Rightarrow> 'led reward_pass \<Rightarrow> 'led reward_pass" where
  "reward_failure batch_id reward err st =
     st\<lparr>pw_results := pw_results st @ [RewardFailure (rr_recipient reward) (rr_amount reward) (error_code err)],
        pw_failed := pw_failed st + 1,
        pw_state := emit (RewardFailed batch_id (rr_recipient reward) (rr_amount reward) (error_code err)) (pw_state st)\<rparr>"

definition reward_step :: "'led xfer \<Rightarrow> env \<Rightarrow> nat \<Rightarrow> address \<Rightarrow> address \<Rightarrow> reward_request
    \<Rightarrow> 'led reward_pass \<Rightarrow> batch_rewards_error trap + 'led reward_pass" where
  "reward_step xfer e batch_id token caller reward st =
    (case validate_amount (rr_amount reward) of Inl _ \<Rightarrow> Inr (reward_failure batch_id reward InvalidAmount st) | Inr _ \<Rightarrow>
     case validate_address (rr_recipient reward) of Inl _ \<Rightarrow> Inr (reward_failure batch_id reward InvalidBatch st) | Inr _ \<Rightarrow>
     case xfer e token caller (rr_recipient reward) (rr_amount reward) (pw_ledger st) of
       Some l1 \<Rightarrow>
         (case checked_add (pw_total st) (rr_amount reward) of None \<Rightarrow> Inl ArithTrap | Some new_total \<Rightarrow>
          Inr (st\<lparr>pw_ledger := l1, pw_ok := pw_ok st + 1, pw_total := new_total,
                  pw_results := pw_results st @ [RewardSuccess (rr_recipient reward) (rr_amount reward)],
                  pw_state := emit (RewardSucceeded batch_id (rr_recipient reward) (rr_amount reward)) (pw_state st)\<rparr>))
     | None \<Rightarrow> Inr (reward_failure batch_id reward InvalidToken st))"

definition distribute_rewards :: "'led xfer \<Rightarrow> ('led \<Rightarrow> address \<Rightarrow> address \<Rightarrow> int) \<Rightarrow> env \<Rightarrow> address \<Rightarrow> address
    \<Rightarrow> bytes \<Rightarrow> reward_request list \<Rightarrow> batch_rewards_state \<times> 'led \<Rightarrow> ('led, batch_reward_result) batch_rewards_outcome" where
  "distribute_rewards xfer bal e caller token idempotency_token rewards w = (case w of (s, l) \<Rightarrow>
     if \<not> env_auth e caller then Inl AuthTrap else
     case require_admin caller s of Inl t \<Rightarrow> Inl t | Inr _ \<Rightarrow>
     if bw_tokens s idempotency_token \<noteq> None then Inl (ContractError DuplicateRequest) else
     let request_count = length rewards in
     if request_count = 0 then Inl (ContractError EmptyBatch) else
     case validate_batch_size request_count MAX_BATCH_SIZE of Inl _ \<Rightarrow> Inl (ContractError BatchTooLarge) | Inr _ \<Rightarrow>
     case u64_add (unwrap_or (bw_total_batches s) 0) 1 of None \<Rightarrow> Inl ArithTrap | Some batch_id \<Rightarrow>
     let s1 = emit (BatchStarted batch_id request_count) s;
         available_balance = bal l token caller in
     case fold_trap required_step rewards 0 of Inl t \<Rightarrow> Inl t | Inr total_required \<Rightarrow>
     if available_balance < total_required then Inl (ContractError InsufficientBalance) else
     case fold_trap (reward_step xfer e batch_id token caller) rewards
            \<lparr>pw_state = s1, pw_ledger = l, pw_results = [], pw_ok = 0, pw_failed = 0, pw_total = 0\<rparr> of
       Inl t \<Rightarrow> Inl t
     | Inr st \<Rightarrow>
       let s2 = (pw_state st)\<lparr>bw_total_batches := Some batch_id\<rparr>;
           s3 = s2\<lparr>bw_tokens := (bw_tokens s2)(idempotency_token \<mapsto> True)\<rparr> in
       case u64_add (unwrap_or (bw_total_processed s3) 0) request_count of None \<Rightarrow> Inl ArithTrap | Some total_processed \<Rightarrow>
       let s4 = s3\<lparr>bw_total_processed := Some total_processed\<rparr> in
       case checked_add (unwrap_or (bw_total_volume s4) 0) (pw_total st) of None \<Rightarrow> Inl ArithTrap | Some total_volume \<Rightarrow>
       let s5 = s4\<lparr>bw_total_volume := Some total_volume\<rparr>
       in Inr (\<lparr>brr_total_requests = request_count, brr_successful = pw_ok st, brr_failed = pw_failed st,
                 brr_total_distributed = pw_total st, brr_results = pw_results st\<rparr>,
               emit (BatchCompleted batch_id (pw_ok st) (pw_failed st) (pw_total st)) s5, pw_ledger st))"

section \<open>Sequences of calls\<close>

text \<open>\<open>Elsewhere l\<close> is anything the token contracts do without this contract.\<close>

datatype 'led rewards_call =
    Initialize address
  | SetAdmin address address
  | Distribute address address bytes "reward_request list"
  | Elsewhere 'led

fun batch_rewards_exec :: "'led xfer \<Rightarrow> ('led \<Rightarrow> address \<Rightarrow> address \<Rightarrow> int) \<Rightarrow> env \<times> 'led rewards_call
    \<Rightarrow> batch_rewards_state \<times> 'led \<Rightarrow> batch_rewards_error trap + batch_rewards_state \<times> 'led" where
  "batch_rewards_exec xfer bal (e, Initialize a) w = final (initialize a w)"
| "batch_rewards_exec xfer bal (e, SetAdmin a b) w = final (set_admin e a b w)"
| "batch_rewards_exec xfer bal (e, Distribute a t tok rs) w = final (distribute_rewards xfer bal e a t tok rs w)"
| "batch_rewards_exec xfer bal (e, Elsewhere l) w = Inr (fst w, l)"

section \<open>What a batch does\<close>

fun reward_paid :: "reward_result \<Rightarrow> int" where
  "reward_paid (RewardSuccess a n) = n"
| "reward_paid (RewardFailure a n code) = 0"

fun reward_paid_to :: "address \<Rightarrow> reward_result \<Rightarrow> int" where
  "reward_paid_to c (RewardSuccess a n) = (if a = c then n else 0)"
| "reward_paid_to c (RewardFailure a n code) = 0"

fun reward_succeeded :: "reward_result \<Rightarrow> bool" where
  "reward_succeeded (RewardSuccess a n) = True"
| "reward_succeeded (RewardFailure a n code) = False"

text \<open>The result a request gets, given that amounts in range fail only when the token refuses.\<close>

fun answers :: "reward_request \<Rightarrow> reward_result \<Rightarrow> bool" where
  "answers rq (RewardSuccess a n) \<longleftrightarrow> a = rr_recipient rq \<and> n = rr_amount rq \<and> 0 < n \<and> n \<le> quot i128_max 2"
| "answers rq (RewardFailure a n code) \<longleftrightarrow> a = rr_recipient rq \<and> n = rr_amount rq
     \<and> code = (if 0 < n \<and> n \<le> quot i128_max 2 then error_code InvalidToken else error_code InvalidAmount)"

definition rewards_paid :: "reward_result list \<Rightarrow> int" where
  "rewards_paid rs = sum_list (map reward_paid rs)"

definition rewards_paid_to :: "address \<Rightarrow> reward_result list \<Rightarrow> int" where
  "rewards_paid_to c rs = sum_list (map (reward_paid_to c) rs)"

text \<open>Reading the event log back: money reported as paid, batches started, requests received.\<close>

fun event_paid :: "reward_event \<Rightarrow> int" where
  "event_paid (RewardSucceeded k a n) = n"
| "event_paid (BatchStarted k n) = 0"
| "event_paid (RewardFailed k a n code) = 0"
| "event_paid (BatchCompleted k ok bad n) = 0"
| "event_paid (AdminChanged a) = 0"

fun event_requests :: "reward_event \<Rightarrow> nat" where
  "event_requests (BatchStarted k n) = n"
| "event_requests (RewardSucceeded k a n) = 0"
| "event_requests (RewardFailed k a n code) = 0"
| "event_requests (BatchCompleted k ok bad n) = 0"
| "event_requests (AdminChanged a) = 0"

definition log_paid :: "batch_rewards_state \<Rightarrow> int" where
  "log_paid s = sum_list (map event_paid (bw_events s))"

definition log_requests :: "batch_rewards_state \<Rightarrow> nat" where
  "log_requests s = sum_list (map event_requests (bw_events s))"

lemma rewards_paid_simps [simp]:
  "rewards_paid [] = 0" "rewards_paid (rs @ [r]) = rewards_paid rs + reward_paid r"
  "rewards_paid_to c [] = 0" "rewards_paid_to c (rs @ [r]) = rewards_paid_to c rs + reward_paid_to c r"
  by (simp_all add: rewards_paid_def rewards_paid_to_def)

lemma log_emit [simp]:
  "log_paid (emit ev s) = log_paid s + event_paid ev"
  "log_requests (emit ev s) = log_requests s + event_requests ev"
  by (simp_all add: log_paid_def log_requests_def emit_def)

text \<open>The state of the loop after some requests: what it reports is what has happened.\<close>

definition pass_ok :: "('led \<Rightarrow> address \<Rightarrow> address \<Rightarrow> int) \<Rightarrow> address \<Rightarrow> address \<Rightarrow> 'led \<Rightarrow> batch_rewards_state
    \<Rightarrow> reward_request list \<Rightarrow> 'led reward_pass \<Rightarrow> bool" where
  "pass_ok bal t a l s rqs st \<longleftrightarrow>
     list_all2 answers rqs (pw_results st)
   \<and> pw_total st = rewards_paid (pw_results st)
   \<and> pw_ok st = length (filter reward_succeeded (pw_results st))
   \<and> pw_ok st + pw_failed st = length rqs
   \<and> (a \<notin> rr_recipient ` set rqs \<longrightarrow>
        (\<forall>t' c. bal (pw_ledger st) t' c = bal l t' c - (if t' = t \<and> c = a then pw_total st else 0)
           + (if t' = t then rewards_paid_to c (pw_results st) else 0)))
   \<and> (\<exists>evs. pw_state st = s\<lparr>bw_events := evs\<rparr>)
   \<and> log_paid (pw_state st) = log_paid s + pw_total st
   \<and> log_requests (pw_state st) = log_requests s"

lemma validate_amount_value:
  "validate_amount n = (if 0 < n \<and> n \<le> quot i128_max 2 then Inr () else Inl BadAmount)"
  by (auto simp: validate_amount_def)

lemma list_all2_snoc: "list_all2 P xs ys \<Longrightarrow> P x y \<Longrightarrow> list_all2 P (xs @ [x]) (ys @ [y])"
  by (simp add: list_all2_appendI)

lemma reward_step_ok:
  assumes "token_client xfer bal" and "reward_step xfer e k t a rq st = Inr st'" and "pass_ok bal t a l s rqs st"
  shows "pass_ok bal t a l s (rqs @ [rq]) st'"
proof -
  have fail: "pass_ok bal t a l s (rqs @ [rq]) (reward_failure k rq err st)"
    if "answers rq (RewardFailure (rr_recipient rq) (rr_amount rq) (error_code err))" for err
    using assms(3) list_all2_snoc [of answers rqs "pw_results st", OF _ that]
    by (auto simp: pass_ok_def reward_failure_def simp del: answers.simps error_code.simps) (auto simp: emit_def)
  show ?thesis
  proof (cases "0 < rr_amount rq \<and> rr_amount rq \<le> quot i128_max 2")
    case False
    then have "st' = reward_failure k rq InvalidAmount st"
      using assms(2) by (simp add: reward_step_def validate_amount_value if_not_P [OF False])
    with fail [of InvalidAmount] False show ?thesis by auto
  next
    case True
    show ?thesis
    proof (cases "xfer e t a (rr_recipient rq) (rr_amount rq) (pw_ledger st)")
      case None
      with True have "st' = reward_failure k rq InvalidToken st"
        using assms(2) by (auto simp: reward_step_def validate_amount_value validate_address_def)
      with fail [of InvalidToken] True show ?thesis by auto
    next
      case (Some l1)
      with True assms(2) have st': "st' = st\<lparr>pw_ledger := l1, pw_ok := pw_ok st + 1, pw_total := pw_total st + rr_amount rq,
                  pw_results := pw_results st @ [RewardSuccess (rr_recipient rq) (rr_amount rq)],
                  pw_state := emit (RewardSucceeded k (rr_recipient rq) (rr_amount rq)) (pw_state st)\<rparr>"
        by (auto simp: reward_step_def validate_amount_value validate_address_def split: option.splits)
      have bal: "bal l1 t' c = bal (pw_ledger st) t' c - (if t' = t \<and> c = a then rr_amount rq else 0)
          + (if t' = t \<and> c = rr_recipient rq then rr_amount rq else 0)" if "a \<noteq> rr_recipient rq" for t' c
        by (rule token_client.xfer_balance [OF assms(1) Some that])
      show ?thesis
        using assms(3) list_all2_snoc [of answers rqs "pw_results st" rq "RewardSuccess (rr_recipient rq) (rr_amount rq)"] True
        by (auto simp: pass_ok_def st' bal) (auto simp: emit_def)
    qed
  qed
qed

lemma reward_loop:
  assumes "token_client xfer bal" and "fold_trap (reward_step xfer e k t a) rqs st = Inr st'"
    and "pass_ok bal t a l s before st"
  shows "pass_ok bal t a l s (before @ rqs) st'"
  using assms(2,3)
proof (induction rqs arbitrary: st before)
  case (Cons rq rqs)
  from Cons.prems(1) obtain st1 where "reward_step xfer e k t a rq st = Inr st1"
    and rest: "fold_trap (reward_step xfer e k t a) rqs st1 = Inr st'" by (auto split: sum.splits)
  from Cons.IH [OF rest reward_step_ok [OF assms(1) this(1) Cons.prems(2)]] show ?case by simp
qed simp

lemma required_sum: "fold_trap required_step rqs n = Inr m \<Longrightarrow> m = n + sum_list (map rr_amount rqs)"
  by (induction rqs arbitrary: n) (fastforce simp: required_step_def split: option.splits)+

lemma distribute_Inr:
  assumes "token_client xfer bal" and "distribute_rewards xfer bal e a t tok rqs (s, l) = Inr (r, s', l')"
  shows "env_auth e a \<and> bw_admin s = Some a \<and> bw_tokens s tok = None \<and> rqs \<noteq> [] \<and> length rqs \<le> MAX_BATCH_SIZE
    \<and> sum_list (map rr_amount rqs) \<le> bal l t a
    \<and> list_all2 answers rqs (brr_results r) \<and> brr_total_distributed r = rewards_paid (brr_results r)
    \<and> brr_successful r = length (filter reward_succeeded (brr_results r))
    \<and> brr_successful r + brr_failed r = length rqs \<and> brr_total_requests r = length rqs
    \<and> (a \<notin> rr_recipient ` set rqs \<longrightarrow>
        (\<forall>t' c. bal l' t' c = bal l t' c - (if t' = t \<and> c = a then brr_total_distributed r else 0)
           + (if t' = t then rewards_paid_to c (brr_results r) else 0)))
    \<and> bw_admin s' = bw_admin s \<and> bw_tokens s' = (bw_tokens s)(tok \<mapsto> True)
    \<and> get_total_batches s' = get_total_batches s + 1
    \<and> get_total_rewards_processed s' = get_total_rewards_processed s + length rqs
    \<and> get_total_volume_distributed s' = get_total_volume_distributed s + brr_total_distributed r
    \<and> log_paid s' = log_paid s + brr_total_distributed r \<and> log_requests s' = log_requests s + length rqs"
proof -
  let ?k = "Suc (get_total_batches s)"
  let ?s1 = "emit (BatchStarted ?k (length rqs)) s"
  define st0 where "st0 = \<lparr>pw_state = ?s1, pw_ledger = l, pw_results = [], pw_ok = 0, pw_failed = 0, pw_total = 0\<rparr>"
  have "pass_ok bal t a l ?s1 [] st0"
    by (auto simp: pass_ok_def st0_def intro!: exI [of _ "bw_events ?s1"])
  note loop = reward_loop [OF assms(1) _ this]
  from assms(2) obtain st req where
    pre: "env_auth e a" "bw_admin s = Some a" "bw_tokens s tok = None" "rqs \<noteq> []" "length rqs \<le> MAX_BATCH_SIZE"
      "fold_trap required_step rqs 0 = Inr req" "req \<le> bal l t a"
    and fold: "fold_trap (reward_step xfer e ?k t a) rqs st0 = Inr st"
    and r: "r = \<lparr>brr_total_requests = length rqs, brr_successful = pw_ok st, brr_failed = pw_failed st,
                 brr_total_distributed = pw_total st, brr_results = pw_results st\<rparr>"
    and l': "l' = pw_ledger st"
    and s': "s' = emit (BatchCompleted ?k (pw_ok st) (pw_failed st) (pw_total st))
       ((pw_state st)\<lparr>bw_total_batches := Some ?k, bw_tokens := (bw_tokens (pw_state st))(tok \<mapsto> True),
          bw_total_processed := Some (unwrap_or (bw_total_processed (pw_state st)) 0 + length rqs),
          bw_total_volume := Some (unwrap_or (bw_total_volume (pw_state st)) 0 + pw_total st)\<rparr>)"
    by (auto simp: distribute_rewards_def require_admin_def Let_def validate_batch_size_def get_total_batches_def st0_def
        not_less split: if_splits option.splits sum.splits)
  from loop [OF fold] have p: "pass_ok bal t a l ?s1 rqs st" by simp
  then obtain evs where "pw_state st = ?s1\<lparr>bw_events := evs\<rparr>" by (auto simp: pass_ok_def)
  then have frame: "bw_admin s' = bw_admin s" "bw_tokens s' = (bw_tokens s)(tok \<mapsto> True)"
    "get_total_batches s' = get_total_batches s + 1"
    "get_total_rewards_processed s' = get_total_rewards_processed s + length rqs"
    "get_total_volume_distributed s' = get_total_volume_distributed s + pw_total st"
    by (simp_all add: s' emit_def get_total_batches_def get_total_rewards_processed_def get_total_volume_distributed_def)
  have "log_paid s' = log_paid (pw_state st)" "log_requests s' = log_requests (pw_state st)"
    by (simp_all add: s' log_paid_def log_requests_def emit_def)
  with p have "log_paid s' = log_paid s + pw_total st" "log_requests s' = log_requests s + length rqs"
    by (simp_all add: pass_ok_def)
  then show ?thesis
    using pre frame p required_sum [OF pre(6)] by (simp add: r l' pass_ok_def)
qed

section \<open>The books\<close>

definition rewards_books :: "batch_rewards_state \<Rightarrow> bool" where
  "rewards_books s \<longleftrightarrow> finite (dom (bw_tokens s)) \<and> get_total_batches s = card (dom (bw_tokens s))
     \<and> get_total_volume_distributed s = log_paid s \<and> get_total_rewards_processed s = log_requests s
     \<and> (bw_admin s = None \<longrightarrow> bw_tokens s = Map.empty \<and> log_paid s = 0 \<and> log_requests s = 0)"

lemma rewards_books_step:
  assumes "token_client xfer bal" and "rewards_books s" and "batch_rewards_exec xfer bal (e, call) (s, l) = Inr (s', l')"
  shows "rewards_books s' \<and> dom (bw_tokens s) \<subseteq> dom (bw_tokens s')"
proof (cases call)
  case (Initialize a)
  with assms(2,3) show ?thesis
    by (auto simp: initialize_def rewards_books_def get_total_batches_def get_total_volume_distributed_def
        get_total_rewards_processed_def log_paid_def log_requests_def split: if_splits)
next
  case (SetAdmin a b)
  with assms(2,3) show ?thesis
    by (auto simp: set_admin_def require_admin_def emit_def rewards_books_def get_total_batches_def get_total_volume_distributed_def
        get_total_rewards_processed_def log_paid_def log_requests_def split: if_splits sum.splits option.splits)
next
  case (Distribute a t tok rqs)
  with assms(3) obtain r where "distribute_rewards xfer bal e a t tok rqs (s, l) = Inr (r, s', l')" by auto
  from distribute_Inr [OF assms(1) this] assms(2) show ?thesis
    by (auto simp: rewards_books_def card_insert_if domIff)
next
  case (Elsewhere l2)
  with assms(2,3) show ?thesis by auto
qed

definition tokens_stay :: "batch_rewards_state \<times> 'led \<Rightarrow> batch_rewards_state \<times> 'led \<Rightarrow> bool" where
  "tokens_stay w w' \<longleftrightarrow> (rewards_books (fst w) \<longrightarrow> rewards_books (fst w') \<and> dom (bw_tokens (fst w)) \<subseteq> dom (bw_tokens (fst w')))"

lemma tokens_stay_relation:
  assumes "token_client xfer bal"
  shows "contract_relation (batch_rewards_exec xfer bal) tokens_stay (\<lambda>_. True)"
proof
  fix c :: "env \<times> 'a rewards_call" and s s' :: "batch_rewards_state \<times> 'a"
  assume "batch_rewards_exec xfer bal c s = Inr s'"
  then show "tokens_stay s s'"
    using rewards_books_step [OF assms, of "fst s" "fst c" "snd c" "snd s" "fst s'" "snd s'"]
    by (simp add: tokens_stay_def)
qed (auto simp: tokens_stay_def)

lemma rewards_books_fresh: "rewards_books rewards_state_fresh"
  by (simp add: rewards_books_def rewards_state_fresh_def get_total_batches_def get_total_volume_distributed_def
      get_total_rewards_processed_def log_paid_def log_requests_def)

section \<open>Properties\<close>

text \<open>What a successful reward batch does.  It is signed by the admin, under an idempotency token not used
  before, with 1 to 100 requests whose amounts sum to at most the admin's balance, the amounts that
  are then rejected included, so that a negative one makes room.  Each request gets its own answer in
  order: paid, refused with code 8 when its amount is not positive or above half of the range, or
  refused with code 6 when the token traps.  The admin loses exactly the reported total, every
  recipient gains exactly the successful amounts addressed to it, no other balance of any token
  changes, and the counters grow by one batch, by all requests and by the total.\<close>

theorem rewards_distribute_spec:
  assumes "token_client xfer bal" and "distribute_rewards xfer bal e a t tok rqs (s, l) = Inr (r, s', l')"
    and "a \<notin> rr_recipient ` set rqs"
  shows "env_auth e a \<and> get_admin s = Inr a \<and> bw_tokens s tok = None \<and> bw_tokens s' tok = Some True
    \<and> 0 < length rqs \<and> length rqs \<le> MAX_BATCH_SIZE \<and> sum_list (map rr_amount rqs) \<le> bal l t a
    \<and> list_all2 answers rqs (brr_results r)
    \<and> brr_total_distributed r = rewards_paid (brr_results r)
    \<and> brr_successful r = length (filter reward_succeeded (brr_results r))
    \<and> brr_successful r + brr_failed r = length rqs
    \<and> bal l' t a = bal l t a - brr_total_distributed r
    \<and> (\<forall>t' c. t' \<noteq> t \<or> c \<noteq> a \<longrightarrow> bal l' t' c = bal l t' c + (if t' = t then rewards_paid_to c (brr_results r) else 0))
    \<and> get_total_batches s' = get_total_batches s + 1
    \<and> get_total_rewards_processed s' = get_total_rewards_processed s + length rqs
    \<and> get_total_volume_distributed s' = get_total_volume_distributed s + brr_total_distributed r"
proof -
  note d = distribute_Inr [OF assms(1,2)]
  have "rewards_paid_to a rs = 0" if "list_all2 answers rq rs" "a \<notin> rr_recipient ` set rq" for rq rs
    using that by (induction rule: list_all2_induct) (auto simp: rewards_paid_to_def elim: answers.elims)
  with d assms(3) have "rewards_paid_to a (brr_results r) = 0" by blast
  with d assms(3) show ?thesis by (auto simp: get_admin_def)
qed

text \<open>C21: The books of the reward contract, and idempotency.  After any sequence of calls, by anybody, with
  anything happening to the ledger in between, the number of batches is the number of idempotency
  tokens used, the lifetime volume is the sum of the amounts logged as paid and the requests
  processed are those of the batches logged as started; and once a batch went through, a call with
  its token is refused for ever.\<close>

theorem rewards_batches_once:
  assumes "token_client xfer bal" and "run (batch_rewards_exec xfer bal) cs (rewards_state_fresh, l0) = (s, l)"
    and "distribute_rewards xfer bal e a t tok rqs (s, l) = Inr (r, w)"
  shows "get_total_batches s = card (dom (bw_tokens s)) \<and> get_total_volume_distributed s = log_paid s
    \<and> get_total_rewards_processed s = log_requests s
    \<and> (\<forall>ds e' a' t' rqs'. \<exists>trap. distribute_rewards xfer bal e' a' t' tok rqs' (run (batch_rewards_exec xfer bal) ds w) = Inl trap)"
proof -
  note stay = contract_relation.run_rel [OF tokens_stay_relation [OF assms(1)]]
  from stay [of cs "(rewards_state_fresh, l0)"] have books: "rewards_books s"
    by (simp add: assms(2) tokens_stay_def rewards_books_fresh)
  obtain s' l' where w: "w = (s', l')" by (cases w)
  from assms(3) w have run: "distribute_rewards xfer bal e a t tok rqs (s, l) = Inr (r, s', l')" by simp
  then have "batch_rewards_exec xfer bal (e, Distribute a t tok rqs) (s, l) = Inr (s', l')" by simp
  then have "rewards_books s'" using rewards_books_step [OF assms(1) books] by blast
  moreover have "tok \<in> dom (bw_tokens s')" using distribute_Inr [OF assms(1) run] by auto
  ultimately have "tok \<in> dom (bw_tokens (fst (run (batch_rewards_exec xfer bal) ds w)))" for ds
    using stay [of ds w] by (auto simp: tokens_stay_def w)
  moreover have "\<exists>trap. distribute_rewards xfer bal e' a' t' tok rqs' w' = Inl trap"
    if "tok \<in> dom (bw_tokens (fst w'))" for e' a' t' rqs' and w' :: "batch_rewards_state \<times> 'a"
  proof (cases "distribute_rewards xfer bal e' a' t' tok rqs' w'")
    case (Inr x)
    obtain s2 l2 r3 s3 l3 where "w' = (s2, l2)" "x = (r3, s3, l3)" by (cases w'; cases x) auto
    with distribute_Inr [OF assms(1)] Inr that show ?thesis by fastforce
  qed simp
  ultimately show ?thesis using books by (simp add: rewards_books_def)
qed

section \<open>Witnesses\<close>

definition reward_demo_ledger :: "address \<Rightarrow> token_state" where
  "reward_demo_ledger t = token_fresh\<lparr>tk_balance := [Addr 1 \<mapsto> 100], tk_supply := Some 100\<rparr>"

definition reward_demo_requests :: "reward_request list" where
  "reward_demo_requests = [\<lparr>rr_recipient = Addr 3, rr_amount = 60\<rparr>, \<lparr>rr_recipient = Addr 4, rr_amount = - 5\<rparr>,
     \<lparr>rr_recipient = Addr 5, rr_amount = 45\<rparr>]"

definition reward_demo_state :: batch_rewards_state where
  "reward_demo_state = rewards_state_fresh\<lparr>bw_admin := Some (Addr 1), bw_total_batches := Some 0,
     bw_total_processed := Some 0, bw_total_volume := Some 0\<rparr>"

lemmas reward_eval = reward_demo_ledger_def reward_demo_state_def reward_demo_requests_def rewards_state_fresh_def
  distribute_rewards_def require_admin_def validate_batch_size_def MAX_BATCH_SIZE_def Let_def required_step_def
  reward_step_def validate_amount_def validate_address_def reward_failure_def emit_def quot_def
  token_xfer_def token_bal_def callee_env_def Token.transfer_def Token.move_balance_def
  Token.token_query_defs token_fresh_def Token.emit_def arith_defs

lemma reward_demo_run:
  "\<exists>r s' l'. distribute_rewards token_xfer token_bal (signed_env [Addr 1] 1 10 (Addr 8)) (Addr 1) (Addr 7) [1, 2]
      reward_demo_requests (reward_demo_state, reward_demo_ledger) = Inr (r, s', l')
    \<and> brr_results r = [RewardSuccess (Addr 3) 60, RewardFailure (Addr 4) (- 5) 8, RewardFailure (Addr 5) 45 6]"
  by (simp add: reward_eval)

theorem rewards_distribute_spec_witness:
  "\<exists>r s' l'. distribute_rewards token_xfer token_bal (signed_env [Addr 1] 1 10 (Addr 8)) (Addr 1) (Addr 7) [1, 2]
      reward_demo_requests (reward_demo_state, reward_demo_ledger) = Inr (r, s', l')
    \<and> token_bal l' (Addr 7) (Addr 1) = 40 \<and> get_total_volume_distributed s' = 60"
proof -
  from reward_demo_run obtain r s' l' where
    run: "distribute_rewards token_xfer token_bal (signed_env [Addr 1] 1 10 (Addr 8)) (Addr 1) (Addr 7) [1, 2]
      reward_demo_requests (reward_demo_state, reward_demo_ledger) = Inr (r, s', l')"
    and res: "brr_results r = [RewardSuccess (Addr 3) 60, RewardFailure (Addr 4) (- 5) 8, RewardFailure (Addr 5) 45 6]" by blast
  have new: "Addr 1 \<notin> rr_recipient ` set reward_demo_requests" by (simp add: reward_demo_requests_def)
  have "token_bal reward_demo_ledger (Addr 7) (Addr 1) = 100" "get_total_volume_distributed reward_demo_state = 0"
    by (simp_all add: reward_demo_ledger_def reward_demo_state_def token_bal_def Token.token_query_defs token_fresh_def
        get_total_volume_distributed_def)
  with rewards_distribute_spec [OF token_ledger.token_client_axioms run new] run show ?thesis
    by (simp add: res rewards_paid_def)
qed

theorem rewards_batches_once_witness:
  "\<exists>r w. distribute_rewards token_xfer token_bal (signed_env [Addr 1] 1 10 (Addr 8)) (Addr 1) (Addr 7) [1, 2]
      reward_demo_requests (reward_demo_state, reward_demo_ledger) = Inr (r, w)
    \<and> (\<exists>trap. distribute_rewards token_xfer token_bal (signed_env [Addr 1] 2 11 (Addr 8)) (Addr 1) (Addr 7) [1, 2]
      reward_demo_requests w = Inl trap)"
proof -
  let ?exec = "batch_rewards_exec token_xfer token_bal"
  let ?cs = "[(signed_env [] 1 10 (Addr 8), Initialize (Addr 1))]"
  from reward_demo_run obtain r w where
    go: "distribute_rewards token_xfer token_bal (signed_env [Addr 1] 1 10 (Addr 8)) (Addr 1) (Addr 7) [1, 2]
      reward_demo_requests (reward_demo_state, reward_demo_ledger) = Inr (r, w)" by blast
  have before: "run ?exec ?cs (rewards_state_fresh, reward_demo_ledger) = (reward_demo_state, reward_demo_ledger)"
    by (simp add: initialize_def reward_demo_state_def rewards_state_fresh_def)
  from rewards_batches_once [OF token_ledger.token_client_axioms before go]
  have "\<forall>ds e' a' t' rqs'. \<exists>trap. distribute_rewards token_xfer token_bal e' a' t' [1, 2] rqs' (run ?exec ds w) = Inl trap"
    by blast
  from this [rule_format, of _ _ _ _ "[]"] go show ?thesis by (metis run.simps(1))
qed

end
