(* ===== verification/Transactions.thy ===== *)
theory Transactions
  imports Host "HOL-Library.Multiset"
begin

text \<open>
  \<open>contracts/transactions/src\<close>: transaction records with an index per user and a global one
  (\<open>lib.rs\<close>, \<open>storage.rs\<close>, \<open>utils.rs\<close>).  The identifier of a record is the symbol \<open>tx<counter>\<close>; the
  optional entries of the state are the optional storage entries of the code.
\<close>

section \<open>Data\<close>

datatype transaction_error =
    NotInitialized | AlreadyInitialized | Unauthorized | TransactionNotFound | InvalidAmount | InvalidId
  | TransactionLimitReached | InvalidNoteLength | DuplicateTransaction

datatype transaction_status = Pending | Completed | Failed | Cancelled

definition MAX_NOTE_LENGTH :: nat where "MAX_NOTE_LENGTH = 256"
definition MAX_TRANSACTIONS_PER_USER :: nat where "MAX_TRANSACTIONS_PER_USER = 1000"
definition MIN_TRANSACTION_AMOUNT :: int where "MIN_TRANSACTION_AMOUNT = 1"
definition MAX_TRANSACTION_AMOUNT :: int where "MAX_TRANSACTION_AMOUNT = 1000000000000"

record transaction =
  tx_id :: symbol
  tx_from :: address
  tx_to :: address
  tx_amount :: int
  tx_note :: string
  tx_memo :: string
  tx_tags :: "string list"
  tx_timestamp :: nat
  tx_status :: transaction_status
  tx_type :: symbol
  tx_is_public :: bool
  tx_metadata :: "symbol \<rightharpoonup> string"

datatype transaction_event =
    TxInit address
  | TxCreated symbol address address int nat
  | TxMetaSet symbol
  | TxNoteUpdated symbol
  | TxCleared address
  | TxAmountUpdated symbol
  | TxDeleted symbol
  | TxStatus symbol transaction_status

record transactions_state =
  ts_admin :: "address option"
  ts_record :: "symbol \<rightharpoonup> transaction"
  ts_user :: "address \<rightharpoonup> symbol list"
  ts_all :: "symbol list option"
  ts_counter :: "nat option"
  ts_events :: "transaction_event list"

definition transactions_fresh :: transactions_state where
  "transactions_fresh = \<lparr>ts_admin = None, ts_record = Map.empty, ts_user = Map.empty, ts_all = None,
     ts_counter = None, ts_events = []\<rparr>"

definition emit :: "transaction_event \<Rightarrow> transactions_state \<Rightarrow> transactions_state" where
  "emit ev s = s\<lparr>ts_events := ts_events s @ [ev]\<rparr>"

type_synonym 'a tx_outcome = "(transactions_state, transaction_error, 'a) outcome"

section \<open>Identifiers (utils.rs)\<close>

text \<open>\<open>format!("tx{}", counter)\<close>: the decimal digits of the counter, without leading zeros.\<close>

fun decimal :: "nat \<Rightarrow> string" where
  "decimal n = (if n < 10 then [char_of (48 + n)] else decimal (n div 10) @ [char_of (48 + n mod 10)])"

declare decimal.simps [simp del]

definition transaction_symbol :: "nat \<Rightarrow> symbol" where
  "transaction_symbol n = ''tx'' @ decimal n"

definition generate_transaction_id :: "transactions_state \<Rightarrow> symbol tx_outcome" where
  "generate_transaction_id s =
    (case u64_add (unwrap_or (ts_counter s) 0) 1 of None \<Rightarrow> Inl ArithTrap | Some counter \<Rightarrow>
     Inr (transaction_symbol counter, s\<lparr>ts_counter := Some counter\<rparr>))"

section \<open>Storage (storage.rs)\<close>

definition user_list :: "transactions_state \<Rightarrow> address \<Rightarrow> symbol list" where
  "user_list s u = unwrap_or (ts_user s u) []"

definition all_list :: "transactions_state \<Rightarrow> symbol list" where
  "all_list s = unwrap_or (ts_all s) []"

definition store_transaction :: "symbol \<Rightarrow> transaction \<Rightarrow> transactions_state \<Rightarrow> transactions_state" where
  "store_transaction i tx s = s\<lparr>ts_record := (ts_record s)(i \<mapsto> tx)\<rparr>"

definition get_transaction :: "transactions_state \<Rightarrow> symbol \<Rightarrow> transaction option" where
  "get_transaction s i = ts_record s i"

definition create_record :: "env \<Rightarrow> address \<Rightarrow> address \<Rightarrow> int \<Rightarrow> string \<Rightarrow> string \<Rightarrow> string list \<Rightarrow> symbol \<Rightarrow> bool
    \<Rightarrow> (symbol \<rightharpoonup> string) \<Rightarrow> transactions_state \<Rightarrow> transaction tx_outcome" where
  "create_record e from to amount note memo tags ty is_public metadata s =
    (case generate_transaction_id s of Inl t \<Rightarrow> Inl t | Inr (i, s1) \<Rightarrow>
     let user_txs = user_list s1 from in
     if length user_txs \<ge> MAX_TRANSACTIONS_PER_USER then Inl (ContractError TransactionLimitReached) else
     let tx = \<lparr>tx_id = i, tx_from = from, tx_to = to, tx_amount = amount, tx_note = note, tx_memo = memo,
               tx_tags = tags, tx_timestamp = env_timestamp e, tx_status = Completed, tx_type = ty,
               tx_is_public = is_public, tx_metadata = metadata\<rparr>;
         s2 = store_transaction i tx s1;
         s3 = s2\<lparr>ts_all := Some (all_list s2 @ [i])\<rparr>;
         s4 = s3\<lparr>ts_user := (ts_user s3)(from \<mapsto> user_txs @ [i])\<rparr>
     in Inr (tx, s4))"

definition update_amount :: "symbol \<Rightarrow> address \<Rightarrow> int \<Rightarrow> transactions_state \<Rightarrow> bool \<times> transactions_state" where
  "update_amount i caller new_amount s =
    (case ts_record s i of None \<Rightarrow> (False, s) | Some tx \<Rightarrow>
     if tx_from tx \<noteq> caller then (False, s) else
     if new_amount < MIN_TRANSACTION_AMOUNT \<or> new_amount > MAX_TRANSACTION_AMOUNT then (False, s) else
     (True, store_transaction i (tx\<lparr>tx_amount := new_amount\<rparr>) s))"

definition update_note :: "symbol \<Rightarrow> address \<Rightarrow> string \<Rightarrow> transactions_state \<Rightarrow> bool \<times> transactions_state" where
  "update_note i caller new_note s =
    (case ts_record s i of None \<Rightarrow> (False, s) | Some tx \<Rightarrow>
     if tx_from tx \<noteq> caller then (False, s) else
     (True, store_transaction i (tx\<lparr>tx_note := new_note\<rparr>) s))"

definition update_status :: "symbol \<Rightarrow> address \<Rightarrow> transaction_status \<Rightarrow> transactions_state \<Rightarrow> bool \<times> transactions_state" where
  "update_status i caller new_status s =
    (case ts_record s i of None \<Rightarrow> (False, s) | Some tx \<Rightarrow>
     if tx_from tx \<noteq> caller \<and> (ts_admin s = None \<or> ts_admin s \<noteq> Some caller) then (False, s) else
     (True, store_transaction i (tx\<lparr>tx_status := new_status\<rparr>) s))"

definition get_transaction_timestamp :: "transactions_state \<Rightarrow> symbol \<Rightarrow> nat option" where
  "get_transaction_timestamp s i = map_option tx_timestamp (get_transaction s i)"

text \<open>The loop that keeps the records of a list of identifiers that still exist.\<close>

fun existing :: "transactions_state \<Rightarrow> symbol list \<Rightarrow> transaction list" where
  "existing s [] = []"
| "existing s (i # is) = (case get_transaction s i of Some tx \<Rightarrow> tx # existing s is | None \<Rightarrow> existing s is)"

definition get_user_transactions :: "transactions_state \<Rightarrow> address \<Rightarrow> transaction list" where
  "get_user_transactions s u = existing s (user_list s u)"

definition get_user_transactions_filtered :: "transactions_state \<Rightarrow> address \<Rightarrow> symbol \<Rightarrow> transaction list" where
  "get_user_transactions_filtered s u ty = filter (\<lambda>tx. tx_type tx = ty) (get_user_transactions s u)"

text \<open>The nested loop of \<open>clear_user_transactions\<close>: an identifier of the user's list is dropped from the
  global list and its record removed.\<close>

fun clear_loop :: "symbol list \<Rightarrow> symbol list \<Rightarrow> (symbol \<rightharpoonup> transaction) \<Rightarrow> symbol list \<times> (symbol \<rightharpoonup> transaction)" where
  "clear_loop ids [] records = ([], records)"
| "clear_loop ids (i # all) records =
    (if i \<in> set ids then clear_loop ids all (records(i := None))
     else (let (kept, records1) = clear_loop ids all records in (i # kept, records1)))"

definition clear_user :: "address \<Rightarrow> transactions_state \<Rightarrow> bool \<times> transactions_state" where
  "clear_user u s =
    (let tx_ids = user_list s u;
         (new_all_txs, records) = clear_loop tx_ids (all_list s) (ts_record s);
         s1 = s\<lparr>ts_record := records\<rparr>;
         s2 = s1\<lparr>ts_all := Some new_all_txs\<rparr>;
         s3 = s2\<lparr>ts_user := (ts_user s2)(u := None)\<rparr>
     in (True, s3))"

fun latest_loop :: "transaction list \<Rightarrow> nat \<Rightarrow> transaction option \<Rightarrow> transaction option" where
  "latest_loop [] latest_timestamp latest_tx = latest_tx"
| "latest_loop (tx # txs) latest_timestamp latest_tx =
    (if tx_timestamp tx > latest_timestamp then latest_loop txs (tx_timestamp tx) (Some tx)
     else latest_loop txs latest_timestamp latest_tx)"

definition get_last_transaction :: "transactions_state \<Rightarrow> address \<Rightarrow> transaction option" where
  "get_last_transaction s u =
    (let txs = get_user_transactions s u in if txs = [] then None else latest_loop txs 0 None)"

definition get_total_transactions_count :: "transactions_state \<Rightarrow> nat" where
  "get_total_transactions_count s = length (all_list s)"

definition transaction_exists :: "transactions_state \<Rightarrow> symbol \<Rightarrow> bool" where
  "transaction_exists s i \<longleftrightarrow> ts_record s i \<noteq> None"

definition is_transaction_owner :: "transactions_state \<Rightarrow> symbol \<Rightarrow> address \<Rightarrow> bool" where
  "is_transaction_owner s i u = (case get_transaction s i of Some tx \<Rightarrow> tx_from tx = u | None \<Rightarrow> False)"

definition delete_record :: "symbol \<Rightarrow> transactions_state \<Rightarrow> bool \<times> transactions_state" where
  "delete_record i s =
    (case ts_record s i of None \<Rightarrow> (False, s) | Some tx \<Rightarrow>
     let owner = tx_from tx;
         s1 = s\<lparr>ts_record := (ts_record s)(i := None)\<rparr>;
         remaining = filter (\<lambda>j. j \<noteq> i) (user_list s1 owner)
     in (True, if remaining = [] then s1\<lparr>ts_user := (ts_user s1)(owner := None)\<rparr>
               else s1\<lparr>ts_user := (ts_user s1)(owner \<mapsto> remaining)\<rparr>))"

definition get_transaction_memo :: "transactions_state \<Rightarrow> symbol \<Rightarrow> string option" where
  "get_transaction_memo s i = map_option tx_memo (get_transaction s i)"

definition set_transaction_metadata :: "symbol \<Rightarrow> address \<Rightarrow> (symbol \<rightharpoonup> string) \<Rightarrow> transactions_state \<Rightarrow> bool \<times> transactions_state" where
  "set_transaction_metadata i caller metadata s =
    (case ts_record s i of None \<Rightarrow> (False, s) | Some tx \<Rightarrow>
     if tx_from tx \<noteq> caller then (False, s) else
     (True, store_transaction i (tx\<lparr>tx_metadata := metadata\<rparr>) s))"

definition get_transaction_metadata :: "transactions_state \<Rightarrow> symbol \<Rightarrow> (symbol \<rightharpoonup> string) option" where
  "get_transaction_metadata s i = map_option tx_metadata (get_transaction s i)"

definition get_all_transactions :: "transactions_state \<Rightarrow> transaction list" where
  "get_all_transactions s = existing s (all_list s)"

text \<open>The totals: plain additions, which panic outside \<open>i128\<close>.\<close>

definition total_step :: "symbol \<Rightarrow> transaction \<Rightarrow> int \<Rightarrow> transaction_error trap + int" where
  "total_step ty tx n =
    (if tx_type tx = ty then (case checked_add n (tx_amount tx) of None \<Rightarrow> Inl ArithTrap | Some m \<Rightarrow> Inr m) else Inr n)"

definition get_total_income :: "transactions_state \<Rightarrow> transaction_error trap + int" where
  "get_total_income s = fold_trap (total_step ''income'') (get_all_transactions s) 0"

definition get_total_expense :: "transactions_state \<Rightarrow> transaction_error trap + int" where
  "get_total_expense s = fold_trap (total_step ''expense'') (get_all_transactions s) 0"

definition get_transactions_paginated :: "transactions_state \<Rightarrow> nat \<Rightarrow> nat \<Rightarrow> transaction_error trap + transaction list" where
  "get_transactions_paginated s offset limit0 =
    (let limit = min limit0 100;
         tx_ids = all_list s;
         n = length tx_ids in
     if offset \<ge> n \<or> limit = 0 then Inr [] else
     if \<not> in_u32 (offset + limit) then Inl ArithTrap else
     let stop = min (offset + limit) n
     in Inr (existing s (map ((!) tx_ids) [offset ..< stop])))"

definition is_duplicate_transaction :: "transactions_state \<Rightarrow> address \<Rightarrow> address \<Rightarrow> int \<Rightarrow> string \<Rightarrow> bool" where
  "is_duplicate_transaction s from to amount memo =
    (let tx_ids = user_list s from in
     if tx_ids = [] then False else
     let start = (if length tx_ids > 5 then length tx_ids - 5 else 0)
     in list_ex (\<lambda>i. case get_transaction s (tx_ids ! i) of
            Some tx \<Rightarrow> tx_to tx = to \<and> tx_amount tx = amount \<and> tx_memo tx = memo
          | None \<Rightarrow> False) [start ..< length tx_ids])"

section \<open>Entry points (lib.rs)\<close>

definition initialize :: "env \<Rightarrow> address \<Rightarrow> transactions_state \<Rightarrow> unit tx_outcome" where
  "initialize e admin s =
    (if ts_admin s \<noteq> None then Inl (ContractError AlreadyInitialized) else
     if \<not> env_auth e admin then Inl AuthTrap else
     Inr ((), emit (TxInit admin) (s\<lparr>ts_admin := Some admin\<rparr>)))"

definition create_transaction :: "env \<Rightarrow> address \<Rightarrow> address \<Rightarrow> int \<Rightarrow> string \<Rightarrow> string \<Rightarrow> string list \<Rightarrow> symbol \<Rightarrow> bool
    \<Rightarrow> (symbol \<rightharpoonup> string) \<Rightarrow> transactions_state \<Rightarrow> symbol tx_outcome" where
  "create_transaction e from to amount note memo tags ty is_public metadata s =
    (if \<not> env_auth e from then Inl AuthTrap else
     if amount < MIN_TRANSACTION_AMOUNT then Inl (ContractError InvalidAmount) else
     if amount > MAX_TRANSACTION_AMOUNT then Inl (ContractError InvalidAmount) else
     if length note > MAX_NOTE_LENGTH then Inl (ContractError InvalidNoteLength) else
     if is_duplicate_transaction s from to amount memo then Inl (ContractError DuplicateTransaction) else
     case create_record e from to amount note memo tags ty is_public metadata s of Inl t \<Rightarrow> Inl t | Inr (tx, s1) \<Rightarrow>
     Inr (tx_id tx, emit (TxCreated (tx_id tx) (tx_from tx) (tx_to tx) (tx_amount tx) (tx_timestamp tx)) s1))"

text \<open>The setters: the record must exist; when the storage function says so, an event follows.\<close>

definition emit_if :: "transaction_event \<Rightarrow> bool \<times> transactions_state \<Rightarrow> bool \<times> transactions_state" where
  "emit_if ev r = (case r of (success, s) \<Rightarrow> (success, if success then emit ev s else s))"

definition set_metadata :: "env \<Rightarrow> symbol \<Rightarrow> address \<Rightarrow> (symbol \<rightharpoonup> string) \<Rightarrow> transactions_state \<Rightarrow> bool tx_outcome" where
  "set_metadata e i caller metadata s =
    (if \<not> env_auth e caller then Inl AuthTrap else
     if \<not> transaction_exists s i then Inl (ContractError TransactionNotFound) else
     Inr (emit_if (TxMetaSet i) (set_transaction_metadata i caller metadata s)))"

definition update_transaction_note :: "env \<Rightarrow> symbol \<Rightarrow> address \<Rightarrow> string \<Rightarrow> transactions_state \<Rightarrow> bool tx_outcome" where
  "update_transaction_note e i caller note s =
    (if \<not> env_auth e caller then Inl AuthTrap else
     if length note > MAX_NOTE_LENGTH then Inl (ContractError InvalidNoteLength) else
     if \<not> transaction_exists s i then Inl (ContractError TransactionNotFound) else
     Inr (emit_if (TxNoteUpdated i) (update_note i caller note s)))"

text \<open>The bubble sort by falling timestamp.\<close>

definition swap_step :: "nat \<Rightarrow> transaction list \<Rightarrow> transaction list" where
  "swap_step j txs =
    (if tx_timestamp (txs ! j) < tx_timestamp (txs ! (j + 1)) then txs[j := txs ! (j + 1), j + 1 := txs ! j] else txs)"

definition bubble_pass :: "nat \<Rightarrow> transaction list \<Rightarrow> transaction list" where
  "bubble_pass i txs = fold swap_step [0 ..< length txs - i - 1] txs"

definition get_user_transactions_sorted :: "transactions_state \<Rightarrow> address \<Rightarrow> transaction list" where
  "get_user_transactions_sorted s u =
    (let txs = get_user_transactions s u; n = length txs
     in if n > 1 then fold bubble_pass [0 ..< n] txs else txs)"

definition clear_user_transactions :: "env \<Rightarrow> address \<Rightarrow> transactions_state \<Rightarrow> bool tx_outcome" where
  "clear_user_transactions e u s =
    (if \<not> env_auth e u then Inl AuthTrap else Inr (emit_if (TxCleared u) (clear_user u s)))"

definition update_transaction_amount :: "env \<Rightarrow> symbol \<Rightarrow> address \<Rightarrow> int \<Rightarrow> transactions_state \<Rightarrow> bool tx_outcome" where
  "update_transaction_amount e i caller amount s =
    (if \<not> env_auth e caller then Inl AuthTrap else
     if amount < MIN_TRANSACTION_AMOUNT \<or> amount > MAX_TRANSACTION_AMOUNT then Inl (ContractError InvalidAmount) else
     if \<not> transaction_exists s i then Inl (ContractError TransactionNotFound) else
     Inr (emit_if (TxAmountUpdated i) (update_amount i caller amount s)))"

definition get_admin :: "transactions_state \<Rightarrow> address option" where
  "get_admin s = ts_admin s"

definition require_admin :: "address \<Rightarrow> transactions_state \<Rightarrow> transaction_error trap + unit" where
  "require_admin caller s =
    (case ts_admin s of None \<Rightarrow> Inl (ContractError NotInitialized) | Some admin \<Rightarrow>
     if caller \<noteq> admin then Inl (ContractError Unauthorized) else Inr ())"

definition delete_transaction :: "env \<Rightarrow> address \<Rightarrow> symbol \<Rightarrow> transactions_state \<Rightarrow> bool tx_outcome" where
  "delete_transaction e caller i s =
    (if \<not> env_auth e caller then Inl AuthTrap else
     if \<not> transaction_exists s i then Inl (ContractError TransactionNotFound) else
     let is_owner = is_transaction_owner s i caller in
     case (if \<not> is_owner then require_admin caller s else Inr ()) of Inl t \<Rightarrow> Inl t | Inr _ \<Rightarrow>
     Inr (emit_if (TxDeleted i) (delete_record i s)))"

definition update_transaction_status :: "env \<Rightarrow> symbol \<Rightarrow> address \<Rightarrow> transaction_status \<Rightarrow> transactions_state \<Rightarrow> bool tx_outcome" where
  "update_transaction_status e i caller status s =
    (if \<not> env_auth e caller then Inl AuthTrap else
     if \<not> transaction_exists s i then Inl (ContractError TransactionNotFound) else
     Inr (emit_if (TxStatus i status) (update_status i caller status s)))"

datatype transaction_call =
    CInitialize address
  | CCreate address address int string string "string list" symbol bool "symbol \<rightharpoonup> string"
  | CSetMetadata symbol address "symbol \<rightharpoonup> string"
  | CUpdateNote symbol address string
  | CClear address
  | CUpdateAmount symbol address int
  | CDelete address symbol
  | CUpdateStatus symbol address transaction_status

fun transactions_exec :: "env \<times> transaction_call \<Rightarrow> transactions_state \<Rightarrow> transaction_error trap + transactions_state" where
  "transactions_exec (e, CInitialize a) s = final (initialize e a s)"
| "transactions_exec (e, CCreate a b n nt me tg ty p md) s = final (create_transaction e a b n nt me tg ty p md s)"
| "transactions_exec (e, CSetMetadata i a md) s = final (set_metadata e i a md s)"
| "transactions_exec (e, CUpdateNote i a nt) s = final (update_transaction_note e i a nt s)"
| "transactions_exec (e, CClear a) s = final (clear_user_transactions e a s)"
| "transactions_exec (e, CUpdateAmount i a n) s = final (update_transaction_amount e i a n s)"
| "transactions_exec (e, CDelete a i) s = final (delete_transaction e a i s)"
| "transactions_exec (e, CUpdateStatus i a st) s = final (update_transaction_status e i a st s)"

section \<open>Identifiers\<close>

text \<open>The counter can be read back from the decimal digits, so that identifiers never coincide.\<close>

definition read_decimal :: "string \<Rightarrow> nat" where
  "read_decimal ds = foldl (\<lambda>n c. n * 10 + (of_char c - 48)) 0 ds"

fun read_symbol :: "symbol \<Rightarrow> nat option" where
  "read_symbol (c # d # ds) = (if [c, d] = ''tx'' then Some (read_decimal ds) else None)"
| "read_symbol _ = None"

lemma read_decimal_snoc: "read_decimal (ds @ [c]) = read_decimal ds * 10 + (of_char c - 48)"
  by (simp add: read_decimal_def)

lemma read_decimal_decimal: "read_decimal (decimal n) = n"
proof (induction n rule: decimal.induct)
  case (1 n)
  show ?case
  proof (cases "n < 10")
    case True
    then show ?thesis by (simp add: decimal.simps [of n] read_decimal_def)
  next
    case False
    have "decimal n = decimal (n div 10) @ [char_of (48 + n mod 10)]" using False by (simp add: decimal.simps [of n])
    moreover have "n mod 10 < 10" by simp
    ultimately show ?thesis using 1 [OF False] by (simp add: read_decimal_snoc)
  qed
qed

lemma read_symbol_transaction_symbol: "read_symbol (transaction_symbol n) = Some n"
  by (simp add: transaction_symbol_def read_decimal_decimal)

lemma transaction_symbol_inj: "transaction_symbol m = transaction_symbol n \<longleftrightarrow> m = n"
  using read_symbol_transaction_symbol by (metis option.inject)

section \<open>The sort\<close>

lemma swap_step_split:
  "swap_step (length as) (as @ x # y # bs) = as @ (if tx_timestamp x < tx_timestamp y then y # x # bs else x # y # bs)"
  by (simp add: swap_step_def nth_append list_update_append)

lemma swap_split:
  assumes "Suc j < length xs"
  obtains as x y bs where "xs = as @ x # y # bs" and "length as = j"
proof -
  from assms have "xs = take j xs @ xs ! j # xs ! Suc j # drop (Suc (Suc j)) xs"
    by (metis Cons_nth_drop_Suc Suc_lessD append_take_drop_id)
  with assms show ?thesis by (intro that) (auto simp: min_def)
qed

text \<open>What a prefix of a pass keeps, and what it moves to its end.\<close>

definition bubbled :: "nat \<Rightarrow> transaction list \<Rightarrow> transaction list \<Rightarrow> bool" where
  "bubbled k xs ys \<longleftrightarrow> length ys = length xs \<and> mset ys = mset xs
     \<and> (\<forall>t. filter (\<lambda>x. tx_timestamp x = t) ys = filter (\<lambda>x. tx_timestamp x = t) xs)
     \<and> drop (Suc k) ys = drop (Suc k) xs
     \<and> (\<forall>p\<le>k. tx_timestamp (ys ! k) \<le> tx_timestamp (ys ! p))"

lemma bubbled_step:
  assumes "bubbled k xs ys" and "Suc k < length xs"
  shows "bubbled (Suc k) xs (swap_step k ys)"
proof -
  from assms have "Suc k < length ys" by (simp add: bubbled_def)
  then obtain as x y bs where ys: "ys = as @ x # y # bs" and k: "length as = k" by (rule swap_split)
  have min: "tx_timestamp x \<le> tx_timestamp a" if "a \<in> set as" for a
  proof -
    from that obtain p where "p < k" "a = as ! p" by (auto simp: in_set_conv_nth k)
    with assms(1) show ?thesis by (auto simp: bubbled_def ys nth_append k dest!: spec [of _ p])
  qed
  have drops: "drop (Suc (Suc k)) xs = bs"
  proof -
    have "drop (Suc (Suc k)) xs = drop 1 (drop (Suc k) ys)" using assms(1) by (simp add: bubbled_def)
    then show ?thesis by (simp add: ys k [symmetric])
  qed
  have swap: "swap_step k ys = as @ (if tx_timestamp x < tx_timestamp y then y # x # bs else x # y # bs)"
    unfolding ys k [symmetric] by (rule swap_step_split)
  have "tx_timestamp (swap_step k ys ! Suc k) \<le> tx_timestamp (swap_step k ys ! p)" if le: "p \<le> Suc k" for p
  proof -
    consider "p < k" | "p = k" | "p = Suc k" using le by linarith
    then show ?thesis
    proof cases
      case 1
      then have "as ! p \<in> set as" by (simp add: k)
      from min [OF this] show ?thesis using 1 by (auto simp: swap nth_append k)
    qed (auto simp: swap nth_append k)
  qed
  moreover have "length (swap_step k ys) = length xs" "mset (swap_step k ys) = mset xs"
    "drop (Suc (Suc k)) (swap_step k ys) = drop (Suc (Suc k)) xs"
  proof -
    have "length (swap_step k ys) = length ys" "mset (swap_step k ys) = mset ys" unfolding swap by (simp_all add: ys)
    with assms(1) show "length (swap_step k ys) = length xs" "mset (swap_step k ys) = mset xs" by (simp_all add: bubbled_def)
    show "drop (Suc (Suc k)) (swap_step k ys) = drop (Suc (Suc k)) xs" by (simp add: swap drops k)
  qed
  moreover have "filter (\<lambda>x. tx_timestamp x = t) (swap_step k ys) = filter (\<lambda>x. tx_timestamp x = t) xs" for t
  proof -
    have "filter (\<lambda>x. tx_timestamp x = t) (swap_step k ys) = filter (\<lambda>x. tx_timestamp x = t) ys"
      unfolding swap by (auto simp: ys)
    with assms(1) show ?thesis by (simp add: bubbled_def)
  qed
  ultimately show ?thesis by (simp add: bubbled_def)
qed

lemma bubbled_pass: "m < length xs \<Longrightarrow> bubbled m xs (fold swap_step [0 ..< m] xs)"
proof (induction m)
  case 0
  then show ?case by (simp add: bubbled_def)
next
  case (Suc m)
  then have "bubbled m xs (fold swap_step [0 ..< m] xs)" by simp
  from bubbled_step [OF this Suc.prems] show ?case by simp
qed

text \<open>After \<open>i\<close> passes the last \<open>i\<close> places are in order and below all the others.\<close>

definition tail_sorted :: "nat \<Rightarrow> transaction list \<Rightarrow> transaction list \<Rightarrow> bool" where
  "tail_sorted i xs ys \<longleftrightarrow> length ys = length xs \<and> mset ys = mset xs
     \<and> (\<forall>t. filter (\<lambda>x. tx_timestamp x = t) ys = filter (\<lambda>x. tx_timestamp x = t) xs)
     \<and> (\<forall>p q. p < q \<longrightarrow> q < length xs \<longrightarrow> length xs \<le> q + i \<longrightarrow> tx_timestamp (ys ! q) \<le> tx_timestamp (ys ! p))"

lemma tail_sorted_pass:
  assumes "tail_sorted i xs ys" and "i < length xs"
  shows "tail_sorted (Suc i) xs (bubble_pass i ys)"
proof -
  let ?m = "length xs - i - 1" and ?zs = "bubble_pass i ys"
  have "?m < length ys" using assms by (simp add: tail_sorted_def)
  from bubbled_pass [OF this] have b: "bubbled ?m ys ?zs"
    using assms(1) by (simp add: bubble_pass_def tail_sorted_def)
  then have same: "drop (Suc ?m) ?zs = drop (Suc ?m) ys" "length ?zs = length xs" "mset ?zs = mset ys" "length ys = length xs"
    using assms(1) by (simp_all add: bubbled_def tail_sorted_def)
  have "mset (take (Suc ?m) ?zs) + mset (drop (Suc ?m) ?zs) = mset (take (Suc ?m) ys) + mset (drop (Suc ?m) ys)"
    using same(3) by (metis append_take_drop_id mset_append)
  with same(1) have take: "set (take (Suc ?m) ?zs) = set (take (Suc ?m) ys)"
    by (metis add_right_cancel set_mset_mset)
  have later: "?zs ! q = ys ! q" if "?m < q" "q < length xs" for q
    using arg_cong [OF same(1), of "\<lambda>l. l ! (q - Suc ?m)"] that same(2,4) by simp
  have "tx_timestamp (?zs ! q) \<le> tx_timestamp (?zs ! p)" if "p < q" "q < length xs" "length xs \<le> q + Suc i" for p q
  proof (cases "q = ?m")
    case True
    with b that show ?thesis by (simp add: bubbled_def)
  next
    case False
    with that(3) have q: "?m < q" "length xs \<le> q + i" by auto
    show ?thesis
    proof (cases "p \<le> ?m")
      case True
      then have "?zs ! p \<in> set (take (Suc ?m) ?zs)"
        using nth_mem [of p "take (Suc ?m) ?zs"] that(1,2) same(2) by simp
      then obtain r where "r \<le> ?m" "?zs ! p = ys ! r"
        unfolding take by (auto simp: in_set_conv_nth less_Suc_eq_le)
      with q(1) assms(1) that(2) q(2) show ?thesis by (simp add: later tail_sorted_def)
    next
      case False
      with assms(1) that(1,2) q show ?thesis by (simp add: later tail_sorted_def)
    qed
  qed
  with assms(1) b show ?thesis by (simp add: tail_sorted_def bubbled_def)
qed

lemma bubble_sort: "fold bubble_pass [0 ..< length xs] xs = sort_key (\<lambda>tx. - int (tx_timestamp tx)) xs"
proof -
  have "tail_sorted i xs (fold bubble_pass [0 ..< i] xs)" if "i \<le> length xs" for i
    using that by (induction i) (auto simp: tail_sorted_def [of 0] intro!: tail_sorted_pass)
  then have t: "tail_sorted (length xs) xs (fold bubble_pass [0 ..< length xs] xs)" by simp
  show ?thesis
  proof (rule sym, rule properties_for_sort_key)
    show "mset (fold bubble_pass [0 ..< length xs] xs) = mset xs" using t by (simp add: tail_sorted_def)
    show "filter (\<lambda>x. - int (tx_timestamp k) = - int (tx_timestamp x)) (fold bubble_pass [0 ..< length xs] xs)
        = filter (\<lambda>x. - int (tx_timestamp k) = - int (tx_timestamp x)) xs" for k
      using t by (simp add: tail_sorted_def eq_commute [of "tx_timestamp k"])
    show "sorted (map (\<lambda>tx. - int (tx_timestamp tx)) (fold bubble_pass [0 ..< length xs] xs))"
      using t by (auto simp: sorted_iff_nth_mono_less tail_sorted_def)
  qed
qed

section \<open>The index\<close>

definition transactions_inv :: "transactions_state \<Rightarrow> bool" where
  "transactions_inv s \<longleftrightarrow>
     in_u64 (unwrap_or (ts_counter s) 0)
   \<and> distinct (all_list s) \<and> set (all_list s) \<subseteq> transaction_symbol ` {1 .. unwrap_or (ts_counter s) 0}
   \<and> (\<forall>u. distinct (user_list s u) \<and> length (user_list s u) \<le> MAX_TRANSACTIONS_PER_USER
        \<and> (\<forall>i. i \<in> set (user_list s u) \<longleftrightarrow> (\<exists>tx. ts_record s i = Some tx \<and> tx_from tx = u)))
   \<and> (\<forall>i tx. ts_record s i = Some tx \<longrightarrow> tx_id tx = i \<and> i \<in> set (all_list s)
        \<and> MIN_TRANSACTION_AMOUNT \<le> tx_amount tx \<and> tx_amount tx \<le> MAX_TRANSACTION_AMOUNT
        \<and> length (tx_note tx) \<le> MAX_NOTE_LENGTH)"

lemma list_simps [simp]:
  "user_list (s\<lparr>ts_admin := a\<rparr>) = user_list s" "user_list (s\<lparr>ts_record := r\<rparr>) = user_list s"
  "user_list (s\<lparr>ts_all := l\<rparr>) = user_list s" "user_list (s\<lparr>ts_counter := c\<rparr>) = user_list s"
  "user_list (s\<lparr>ts_events := v\<rparr>) = user_list s" "user_list (emit ev s) = user_list s"
  "user_list (s\<lparr>ts_user := f\<rparr>) u = unwrap_or (f u) []" "user_list (store_transaction i tx s) = user_list s"
  "all_list (s\<lparr>ts_admin := a\<rparr>) = all_list s" "all_list (s\<lparr>ts_record := r\<rparr>) = all_list s"
  "all_list (s\<lparr>ts_user := f\<rparr>) = all_list s" "all_list (s\<lparr>ts_counter := c\<rparr>) = all_list s"
  "all_list (s\<lparr>ts_events := v\<rparr>) = all_list s" "all_list (emit ev s) = all_list s"
  "all_list (s\<lparr>ts_all := l\<rparr>) = unwrap_or l []" "all_list (store_transaction i tx s) = all_list s"
  by (simp_all add: user_list_def all_list_def emit_def store_transaction_def fun_eq_iff)

lemma emit_simps [simp]:
  "ts_record (emit ev s) = ts_record s" "ts_counter (emit ev s) = ts_counter s" "ts_user (emit ev s) = ts_user s"
  "ts_admin (emit ev s) = ts_admin s" "transactions_inv (emit ev s) = transactions_inv s"
  by (simp_all add: emit_def transactions_inv_def)

lemma transactions_inv_fresh: "transactions_inv transactions_fresh"
  by (simp add: transactions_inv_def transactions_fresh_def all_list_def user_list_def in_u64_def)

lemma inv_record:
  assumes "transactions_inv s" and "ts_record s i = Some tx"
  shows "tx_id tx = i" and "i \<in> set (all_list s)" and "i \<in> set (user_list s (tx_from tx))"
    and "MIN_TRANSACTION_AMOUNT \<le> tx_amount tx" and "tx_amount tx \<le> MAX_TRANSACTION_AMOUNT"
    and "length (tx_note tx) \<le> MAX_NOTE_LENGTH"
  using assms by (auto simp: transactions_inv_def)

lemma inv_store:
  assumes "transactions_inv s" and "ts_record s i = Some tx" and "tx_id tx' = tx_id tx" and "tx_from tx' = tx_from tx"
    and "MIN_TRANSACTION_AMOUNT \<le> tx_amount tx'" and "tx_amount tx' \<le> MAX_TRANSACTION_AMOUNT"
    and "length (tx_note tx') \<le> MAX_NOTE_LENGTH"
  shows "transactions_inv (store_transaction i tx' s)"
proof -
  note r = inv_record [OF assms(1,2)]
  have "(\<exists>tx. ts_record (store_transaction i tx' s) j = Some tx \<and> tx_from tx = u)
      \<longleftrightarrow> (\<exists>tx. ts_record s j = Some tx \<and> tx_from tx = u)" for j u
    using assms(2,4) by (auto simp: store_transaction_def)
  moreover have "ts_counter (store_transaction i tx' s) = ts_counter s" by (simp add: store_transaction_def)
  moreover have "ts_record (store_transaction i tx' s) = (ts_record s)(i \<mapsto> tx')" by (simp add: store_transaction_def)
  ultimately show ?thesis
    using assms(1,3,5-7) r(1,2) unfolding transactions_inv_def list_simps by (auto split: if_splits)
qed

lemma setter_inv:
  assumes "transactions_inv s"
  shows "transactions_inv (snd (set_transaction_metadata i a md s))" "transactions_inv (snd (update_amount i a n s))"
    "transactions_inv (snd (update_status i a st s))"
    "length nt \<le> MAX_NOTE_LENGTH \<Longrightarrow> transactions_inv (snd (update_note i a nt s))"
proof -
  note defs = set_transaction_metadata_def update_amount_def update_status_def update_note_def
  show "transactions_inv (snd (set_transaction_metadata i a md s))" "transactions_inv (snd (update_amount i a n s))"
    "transactions_inv (snd (update_status i a st s))"
    "length nt \<le> MAX_NOTE_LENGTH \<Longrightarrow> transactions_inv (snd (update_note i a nt s))"
    using assms inv_store [OF assms] inv_record [OF assms] by (auto simp: defs split: option.split)
qed

lemma emit_if_inv: "emit_if ev r = (b, s') \<Longrightarrow> transactions_inv s' = transactions_inv (snd r)"
  by (auto simp: emit_if_def split: prod.splits if_splits)

lemma create_record_inv:
  assumes "transactions_inv s" and "create_record e a b n nt me tg ty p md s = Inr (tx, s')"
    and "MIN_TRANSACTION_AMOUNT \<le> n" and "n \<le> MAX_TRANSACTION_AMOUNT" and "length nt \<le> MAX_NOTE_LENGTH"
  shows "transactions_inv s'"
proof -
  let ?c = "Suc (unwrap_or (ts_counter s) 0)"
  let ?i = "transaction_symbol ?c"
  from assms(2) have c: "in_u64 ?c" "length (user_list s a) < MAX_TRANSACTIONS_PER_USER" "tx_id tx = ?i" "tx_from tx = a"
    "tx_amount tx = n" "tx_note tx = nt"
    and s': "ts_record s' = (ts_record s)(?i \<mapsto> tx)" "ts_counter s' = Some ?c" "all_list s' = all_list s @ [?i]"
      "user_list s' = (user_list s)(a := user_list s a @ [?i])"
    by (auto simp: create_record_def generate_transaction_id_def Let_def store_transaction_def fun_eq_iff
        user_list_def all_list_def split: option.splits if_splits)
  have new: "?i \<notin> set (all_list s)" using assms(1) by (auto simp: transactions_inv_def transaction_symbol_inj)
  then have none: "ts_record s ?i = None" using inv_record(2) [OF assms(1)] by (cases "ts_record s ?i") auto
  have "?i \<notin> set (user_list s u)" for u
    using assms(1) none by (auto simp: transactions_inv_def)
  with assms(1,3-5) c new none show ?thesis
    unfolding transactions_inv_def s' by (auto simp: s')
qed

lemma delete_record_inv:
  assumes "transactions_inv s"
  shows "transactions_inv (snd (delete_record i s))"
proof (cases "ts_record s i")
  case None
  with assms show ?thesis by (simp add: delete_record_def)
next
  case (Some tx)
  let ?s = "snd (delete_record i s)"
  have s': "ts_record ?s = (ts_record s)(i := None)" "ts_counter ?s = ts_counter s" "all_list ?s = all_list s"
    "user_list ?s = (user_list s)(tx_from tx := filter (\<lambda>j. j \<noteq> i) (user_list s (tx_from tx)))"
    using Some by (simp_all add: delete_record_def Let_def fun_eq_iff user_list_def)
  have "length (filter (\<lambda>j. j \<noteq> i) (user_list s (tx_from tx))) \<le> MAX_TRANSACTIONS_PER_USER"
    using assms length_filter_le [of "\<lambda>j. j \<noteq> i" "user_list s (tx_from tx)"]
    unfolding transactions_inv_def by (meson order_trans)
  moreover have "i \<notin> set (user_list s u)" if "u \<noteq> tx_from tx" for u
    using assms that Some by (auto simp: transactions_inv_def)
  ultimately show ?thesis using assms Some unfolding transactions_inv_def s' by (auto simp: s')
qed

lemma clear_loop_value:
  "clear_loop ids all records = (filter (\<lambda>i. i \<notin> set ids) all, \<lambda>i. if i \<in> set ids \<inter> set all then None else records i)"
  by (induction all arbitrary: records) (auto simp: fun_eq_iff)

lemma clear_user_inv:
  assumes "transactions_inv s"
  shows "transactions_inv (snd (clear_user u s))"
proof -
  let ?s = "snd (clear_user u s)" and ?ids = "user_list s u"
  have sub: "set ?ids \<subseteq> set (all_list s)" using assms by (fastforce simp: transactions_inv_def)
  have s': "ts_record ?s = (\<lambda>i. if i \<in> set ?ids then None else ts_record s i)" "ts_counter ?s = ts_counter s"
    "all_list ?s = filter (\<lambda>i. i \<notin> set ?ids) (all_list s)" "user_list ?s = (user_list s)(u := [])"
    using sub by (auto simp: clear_user_def clear_loop_value Let_def fun_eq_iff user_list_def)
  have "i \<notin> set (user_list s v)" if "i \<in> set ?ids" "v \<noteq> u" for i v
    using assms that by (auto simp: transactions_inv_def)
  then show ?thesis using assms unfolding transactions_inv_def s' by (auto simp: s')
qed

lemma transactions_exec_inv:
  assumes "transactions_inv s" and "transactions_exec (e, call) s = Inr s'"
  shows "transactions_inv s'"
proof (cases call)
  case (CInitialize a)
  with assms show ?thesis by (auto simp: initialize_def transactions_inv_def emit_def split: if_splits)
next
  case (CCreate a b n nt me tg ty p md)
  with assms(2) obtain tx s1 where "create_record e a b n nt me tg ty p md s = Inr (tx, s1)"
    "MIN_TRANSACTION_AMOUNT \<le> n" "n \<le> MAX_TRANSACTION_AMOUNT" "length nt \<le> MAX_NOTE_LENGTH"
    "transactions_inv s' = transactions_inv s1"
    by (auto simp: create_transaction_def not_less split: if_splits sum.splits)
  with create_record_inv [OF assms(1)] show ?thesis by blast
qed (use assms in \<open>auto simp: set_metadata_def update_transaction_note_def clear_user_transactions_def
    update_transaction_amount_def delete_transaction_def update_transaction_status_def Let_def
    split: if_splits sum.splits dest!: emit_if_inv intro: setter_inv clear_user_inv delete_record_inv\<close>)

interpretation transactions_machine: contract_invariant transactions_exec transactions_inv "\<lambda>_. True"
  by unfold_locales (use transactions_exec_inv in auto)

lemma existing_filter: "existing s is = map (\<lambda>i. the (ts_record s i)) (filter (\<lambda>i. ts_record s i \<noteq> None) is)"
  by (induction "is") (auto simp: get_transaction_def split: option.split)

lemma existing_append: "existing s (is @ js) = existing s is @ existing s js"
  by (induction "is") (auto split: option.split)

lemma existing_ids: "transactions_inv s \<Longrightarrow> map tx_id (existing s is) = filter (\<lambda>i. ts_record s i \<noteq> None) is"
  by (auto simp: existing_filter comp_def inv_record(1) intro!: map_idI)

lemma existing_set: "set (existing s is) = {tx. \<exists>i \<in> set is. ts_record s i = Some tx}"
  by (force simp: existing_filter)

lemma total_loop:
  assumes "\<And>tx. tx \<in> set txs \<Longrightarrow> 0 \<le> tx_amount tx \<and> tx_amount tx \<le> MAX_TRANSACTION_AMOUNT"
    and "0 \<le> n" and "in_i128 (n + int (length txs) * MAX_TRANSACTION_AMOUNT)"
  shows "fold_trap (total_step ty) txs n = Inr (n + sum_list (map tx_amount (filter (\<lambda>tx. tx_type tx = ty) txs)))"
  using assms
proof (induction txs arbitrary: n)
  case (Cons tx txs)
  let ?m = "if tx_type tx = ty then n + tx_amount tx else n"
  have a: "0 \<le> tx_amount tx" "tx_amount tx \<le> MAX_TRANSACTION_AMOUNT" using Cons.prems(1) [of tx] by simp_all
  define k where "k = int (length txs) * MAX_TRANSACTION_AMOUNT"
  have k: "0 \<le> k" by (simp add: k_def MAX_TRANSACTION_AMOUNT_def)
  have "in_i128 (n + MAX_TRANSACTION_AMOUNT + k)" using Cons.prems(3) by (simp add: k_def algebra_simps)
  then have "in_i128 (?m + k)" and fits: "in_i128 ?m"
    using Cons.prems(2) a k by (auto simp: in_i128_def)
  then have rest: "in_i128 (?m + int (length txs) * MAX_TRANSACTION_AMOUNT)" by (simp add: k_def)
  from fits have "total_step ty tx n = Inr ?m" by (auto simp: total_step_def checked_add_def)
  moreover have "fold_trap (total_step ty) txs ?m
      = Inr (?m + sum_list (map tx_amount (filter (\<lambda>tx. tx_type tx = ty) txs)))"
    by (rule Cons.IH) (use Cons.prems(1,2) a(1) rest in auto)
  ultimately show ?case by simp
qed simp

lemma all_list_short:
  assumes "transactions_inv s"
  shows "length (all_list s) < 2 ^ 64"
proof -
  have "length (all_list s) = card (set (all_list s))"
    using assms by (simp add: transactions_inv_def distinct_card)
  also have "\<dots> \<le> card (transaction_symbol ` {1 .. unwrap_or (ts_counter s) 0})"
    using assms by (intro card_mono) (auto simp: transactions_inv_def)
  also have "\<dots> \<le> unwrap_or (ts_counter s) 0"
    using card_image_le [of "{1 .. unwrap_or (ts_counter s) 0}" transaction_symbol] by simp
  finally show ?thesis using assms by (simp add: transactions_inv_def in_u64_def)
qed

definition total_of :: "symbol \<Rightarrow> transactions_state \<Rightarrow> int" where
  "total_of ty s = sum_list (map tx_amount (filter (\<lambda>tx. tx_type tx = ty) (get_all_transactions s)))"

lemma totals_value:
  assumes "transactions_inv s"
  shows "get_total_income s = Inr (total_of ''income'' s)" "get_total_expense s = Inr (total_of ''expense'' s)"
proof -
  let ?txs = "get_all_transactions s"
  have len: "length ?txs \<le> length (all_list s)"
    by (simp add: get_all_transactions_def existing_filter)
  have "int (length ?txs) * MAX_TRANSACTION_AMOUNT \<le> 2 ^ 64 * MAX_TRANSACTION_AMOUNT"
    using len all_list_short [OF assms] by (intro mult_right_mono) (simp_all add: MAX_TRANSACTION_AMOUNT_def)
  then have fits: "in_i128 (0 + int (length ?txs) * MAX_TRANSACTION_AMOUNT)"
    by (simp add: in_i128_def MAX_TRANSACTION_AMOUNT_def)
  have pos: "0 \<le> tx_amount tx \<and> tx_amount tx \<le> MAX_TRANSACTION_AMOUNT" if "tx \<in> set ?txs" for tx
    using that inv_record(4,5) [OF assms] by (fastforce simp: get_all_transactions_def existing_set MIN_TRANSACTION_AMOUNT_def)
  show "get_total_income s = Inr (total_of ''income'' s)" "get_total_expense s = Inr (total_of ''expense'' s)"
    unfolding get_total_income_def get_total_expense_def
    using total_loop [OF pos _ fits] by (simp_all add: total_of_def)
qed

section \<open>Properties\<close>

definition transactions_after :: "(env \<times> transaction_call) list \<Rightarrow> transactions_state" where
  "transactions_after calls = run transactions_exec calls transactions_fresh"

lemma after_inv: "transactions_inv (transactions_after calls)"
  unfolding transactions_after_def by (rule transactions_machine.run_inv [OF transactions_inv_fresh]) simp

text \<open>The last five transactions of a sender that still exist.\<close>

definition recent_transactions :: "transactions_state \<Rightarrow> address \<Rightarrow> transaction list" where
  "recent_transactions s a = existing s (drop (length (user_list s a) - 5) (user_list s a))"

lemma duplicate_recent:
  "is_duplicate_transaction s a b n me
    \<longleftrightarrow> (\<exists>tx \<in> set (recent_transactions s a). tx_to tx = b \<and> tx_amount tx = n \<and> tx_memo tx = me)"
proof -
  let ?l = "user_list s a"
  have "set (drop (length ?l - 5) ?l) = (\<lambda>k. ?l ! k) ` {length ?l - 5 ..< length ?l}"
  proof (intro set_eqI iffI)
    fix x assume "x \<in> (\<lambda>k. ?l ! k) ` {length ?l - 5 ..< length ?l}"
    then obtain k where "length ?l - 5 \<le> k" "k < length ?l" "x = ?l ! k" by auto
    then have "x = drop (length ?l - 5) ?l ! (k - (length ?l - 5))" "k - (length ?l - 5) < length (drop (length ?l - 5) ?l)"
      by simp_all
    then show "x \<in> set (drop (length ?l - 5) ?l)" using nth_mem by blast
  qed (auto simp: in_set_conv_nth)
  then show ?thesis
    by (auto simp: is_duplicate_transaction_def recent_transactions_def existing_set get_transaction_def Let_def list_ex_iff
        split: option.splits)
qed

text \<open>The index of a reachable state is exact.  After any sequence of calls the transactions of a user are
  precisely the stored records that name the user as sender, each once and at most a thousand; the
  listing of all transactions has precisely the stored records, each once; every stored record carries
  its own identifier, an amount between one and 10^12 and a note of at most 256 bytes; and the totals
  of income and expense never overflow.  The published count is only an upper bound: it also counts
  deleted records.\<close>

theorem transactions_index_exact:
  assumes "s = transactions_after calls"
  shows "set (get_user_transactions s u) = {tx. \<exists>i. ts_record s i = Some tx \<and> tx_from tx = u}
    \<and> distinct (map tx_id (get_user_transactions s u)) \<and> length (get_user_transactions s u) \<le> 1000
    \<and> set (get_all_transactions s) = ran (ts_record s) \<and> distinct (map tx_id (get_all_transactions s))
    \<and> (\<forall>tx \<in> ran (ts_record s). ts_record s (tx_id tx) = Some tx \<and> 1 \<le> tx_amount tx \<and> tx_amount tx \<le> 10 ^ 12
         \<and> length (tx_note tx) \<le> 256)
    \<and> get_total_income s = Inr (total_of ''income'' s) \<and> get_total_expense s = Inr (total_of ''expense'' s)
    \<and> length (get_all_transactions s) \<le> get_total_transactions_count s"
proof -
  have inv: "transactions_inv s" unfolding assms by (rule after_inv)
  note r = inv_record [OF inv]
  have "set (get_user_transactions s u) = {tx. \<exists>i. ts_record s i = Some tx \<and> tx_from tx = u}"
    using inv by (auto simp: get_user_transactions_def existing_set transactions_inv_def)
  moreover have "distinct (map tx_id (get_user_transactions s u))" "distinct (map tx_id (get_all_transactions s))"
    using inv by (auto simp: get_user_transactions_def get_all_transactions_def existing_ids transactions_inv_def)
  moreover have "length (get_user_transactions s u) \<le> length (user_list s u)"
    "length (get_all_transactions s) \<le> length (all_list s)"
    by (simp_all add: get_user_transactions_def get_all_transactions_def existing_filter)
  moreover have "length (user_list s u) \<le> 1000" using inv by (simp add: transactions_inv_def MAX_TRANSACTIONS_PER_USER_def)
  moreover have "set (get_all_transactions s) = ran (ts_record s)"
    using r(2) by (auto simp: get_all_transactions_def existing_set ran_def)
  moreover have "\<forall>tx \<in> ran (ts_record s). ts_record s (tx_id tx) = Some tx \<and> 1 \<le> tx_amount tx \<and> tx_amount tx \<le> 10 ^ 12
         \<and> length (tx_note tx) \<le> 256"
    using r by (auto simp: ran_def MIN_TRANSACTION_AMOUNT_def MAX_TRANSACTION_AMOUNT_def MAX_NOTE_LENGTH_def)
  ultimately show ?thesis
    using totals_value [OF inv] by (simp add: get_total_transactions_count_def)
qed

text \<open>C34: The hand-written bubble sort is a stable sort.  The sorted listing of a user is the stable sort of the
  user's transactions by falling timestamp: the same records, the newest first, and records of one
  ledger in the order of creation.\<close>

theorem transactions_sorted_stable:
  "get_user_transactions_sorted s u = sort_key (\<lambda>tx. - int (tx_timestamp tx)) (get_user_transactions s u)"
proof (cases "length (get_user_transactions s u) > 1")
  case True
  then show ?thesis by (simp add: get_user_transactions_sorted_def Let_def bubble_sort)
next
  case False
  then have "get_user_transactions s u = [] \<or> (\<exists>tx. get_user_transactions s u = [tx])"
    by (cases "get_user_transactions s u") simp_all
  then show ?thesis by (auto simp: get_user_transactions_sorted_def Let_def)
qed

text \<open>C36: Identifiers read back.  The identifier of a new transaction is \<open>tx\<close> followed by the decimal digits of
  the advanced counter, the counter can be read back from it, and it differs from the identifier of
  every record stored in a reachable state.\<close>

theorem transaction_id_roundtrip:
  assumes "s = transactions_after calls" and "generate_transaction_id s = Inr (i, s')"
  shows "read_symbol i = ts_counter s' \<and> ts_counter s' = Some (unwrap_or (ts_counter s) 0 + 1)
    \<and> \<not> transaction_exists s i \<and> i \<notin> set (all_list s)"
proof -
  have inv: "transactions_inv s" unfolding assms(1) by (rule after_inv)
  let ?c = "Suc (unwrap_or (ts_counter s) 0)"
  from assms(2) have i: "i = transaction_symbol ?c" "ts_counter s' = Some ?c"
    by (auto simp: generate_transaction_id_def split: option.splits)
  then have "i \<notin> set (all_list s)" using inv by (auto simp: transactions_inv_def transaction_symbol_inj)
  moreover then have "\<not> transaction_exists s i" using inv_record(2) [OF inv, of i] by (cases "ts_record s i") (auto simp: transaction_exists_def)
  ultimately show ?thesis using i by (simp add: read_symbol_transaction_symbol)
qed

text \<open>When a transaction is created.  The sender signs, the amount and the note are in range, the counter and
  the sender's list have room, and none of the sender's last five remaining transactions has the same
  receiver, amount and memo; then the record is stored under the next identifier and appended to both
  lists.\<close>

theorem transactions_create_spec:
  "case create_transaction e a b n nt me tg ty p md s of
     Inl t \<Rightarrow> \<not> (env_auth e a \<and> 1 \<le> n \<and> n \<le> 10 ^ 12 \<and> length nt \<le> 256 \<and> in_u64 (unwrap_or (ts_counter s) 0 + 1)
        \<and> length (user_list s a) < 1000
        \<and> \<not> (\<exists>tx \<in> set (recent_transactions s a). tx_to tx = b \<and> tx_amount tx = n \<and> tx_memo tx = me))
   | Inr (i, s') \<Rightarrow> env_auth e a \<and> 1 \<le> n \<and> n \<le> 10 ^ 12 \<and> length nt \<le> 256 \<and> length (user_list s a) < 1000
        \<and> \<not> (\<exists>tx \<in> set (recent_transactions s a). tx_to tx = b \<and> tx_amount tx = n \<and> tx_memo tx = me)
        \<and> i = transaction_symbol (unwrap_or (ts_counter s) 0 + 1)
        \<and> ts_record s' = (ts_record s)(i \<mapsto> \<lparr>tx_id = i, tx_from = a, tx_to = b, tx_amount = n, tx_note = nt, tx_memo = me,
             tx_tags = tg, tx_timestamp = env_timestamp e, tx_status = Completed, tx_type = ty, tx_is_public = p,
             tx_metadata = md\<rparr>)
        \<and> all_list s' = all_list s @ [i] \<and> user_list s' = (user_list s)(a := user_list s a @ [i])"
proof -
  have lists: "user_list s = (user_list s)(a := user_list s a)" "user_list (s\<lparr>ts_counter := c\<rparr>) u = user_list s u" for c u
    by simp_all
  show ?thesis
    unfolding create_transaction_def create_record_def generate_transaction_id_def duplicate_recent [symmetric]
    by (auto simp: Let_def MIN_TRANSACTION_AMOUNT_def MAX_TRANSACTION_AMOUNT_def MAX_NOTE_LENGTH_def
        MAX_TRANSACTIONS_PER_USER_def u64_add_def store_transaction_def user_list_def all_list_def emit_def fun_eq_iff
        split: option.splits)
qed

lemma transaction_update_id: "tx = tx\<lparr>tx_amount := tx_amount tx, tx_note := tx_note tx, tx_metadata := tx_metadata tx, tx_status := tx_status tx\<rparr>"
  by simp

lemma owner_step:
  assumes "transactions_inv s" and "ts_record s i = Some tx" and "transactions_exec (e, call) s = Inr s'"
  shows "case ts_record s' i of
      None \<Rightarrow> env_auth e (tx_from tx) \<or> (\<exists>adm. ts_admin s = Some adm \<and> env_auth e adm)
    | Some tx' \<Rightarrow> tx' = tx\<lparr>tx_amount := tx_amount tx', tx_note := tx_note tx', tx_metadata := tx_metadata tx', tx_status := tx_status tx'\<rparr>
        \<and> (tx' \<noteq> tx \<longrightarrow> env_auth e (tx_from tx)
             \<or> tx' = tx\<lparr>tx_status := tx_status tx'\<rparr> \<and> (\<exists>adm. ts_admin s = Some adm \<and> env_auth e adm))"
proof -
  have keep: ?thesis if "ts_record s' i = Some tx" using that by simp
  note setters = emit_if_def set_transaction_metadata_def update_note_def update_amount_def update_status_def store_transaction_def
  show ?thesis
  proof (cases call)
    case (CInitialize a)
    with assms show ?thesis by (intro keep) (auto simp: initialize_def split: if_splits)
  next
    case (CCreate a b n nt me tg ty p md)
    let ?new = "transaction_symbol (Suc (unwrap_or (ts_counter s) 0))"
    have "?new \<notin> set (all_list s)" using assms(1) by (auto simp: transactions_inv_def transaction_symbol_inj)
    then have "i \<noteq> ?new" using inv_record(2) [OF assms(1,2)] by auto
    with CCreate assms(2,3) show ?thesis
      by (intro keep) (auto simp: create_transaction_def create_record_def generate_transaction_id_def Let_def
          store_transaction_def split: if_splits sum.splits option.splits)
  next
    case (CSetMetadata j a md)
    with assms(2,3) show ?thesis
      by (auto simp: set_metadata_def setters split: if_splits option.splits)
  next
    case (CUpdateNote j a nt)
    with assms(2,3) show ?thesis
      by (auto simp: update_transaction_note_def setters split: if_splits option.splits)
  next
    case (CClear a)
    have "tx_from tx = a" if "i \<in> set (user_list s a)" using assms(1,2) that by (auto simp: transactions_inv_def)
    with CClear assms(2,3) show ?thesis
      by (auto simp: clear_user_transactions_def emit_if_def clear_user_def clear_loop_value Let_def split: if_splits option.split)
  next
    case (CUpdateAmount j a n)
    with assms(2,3) show ?thesis
      by (auto simp: update_transaction_amount_def setters split: if_splits option.splits)
  next
    case (CDelete a j)
    with assms(2,3) show ?thesis
      by (auto simp: delete_transaction_def emit_if_def delete_record_def require_admin_def is_transaction_owner_def
          get_transaction_def Let_def split: if_splits option.splits sum.splits)
  next
    case (CUpdateStatus j a st)
    with assms(2,3) show ?thesis
      by (auto simp: update_transaction_status_def setters split: if_splits option.splits)
  qed
qed

text \<open>Only its owner changes a transaction.  Whatever anybody calls, a stored record keeps its identifier,
  sender, receiver, memo, tags, time, type and visibility; its amount, note or metadata change, and it
  disappears by a clearing, only with the signature of its sender; its status changes, and it is
  deleted, only with that of the sender or of the administrator.\<close>

theorem transactions_owner_only:
  assumes "ts_record (transactions_after calls) i = Some tx"
    and "transactions_exec (e, call) (transactions_after calls) = Inr s'"
  shows "case ts_record s' i of
      None \<Rightarrow> env_auth e (tx_from tx) \<or> (\<exists>adm. ts_admin (transactions_after calls) = Some adm \<and> env_auth e adm)
    | Some tx' \<Rightarrow> tx' = tx\<lparr>tx_amount := tx_amount tx', tx_note := tx_note tx', tx_metadata := tx_metadata tx', tx_status := tx_status tx'\<rparr>
        \<and> (tx' \<noteq> tx \<longrightarrow> env_auth e (tx_from tx)
             \<or> tx' = tx\<lparr>tx_status := tx_status tx'\<rparr> \<and> (\<exists>adm. ts_admin (transactions_after calls) = Some adm \<and> env_auth e adm))"
  using assms owner_step [OF after_inv assms] by simp

section \<open>Witnesses\<close>

definition demo_tx_calls :: "(env \<times> transaction_call) list" where
  "demo_tx_calls =
    [(signed_env [Addr 1] 1 50 (Addr 8), CCreate (Addr 1) (Addr 2) 30 ''n'' ''m1'' [] ''income'' True Map.empty),
     (signed_env [Addr 1] 2 50 (Addr 8), CCreate (Addr 1) (Addr 2) 30 ''n'' ''m1'' [] ''income'' True Map.empty),
     (signed_env [Addr 1] 3 60 (Addr 8), CCreate (Addr 1) (Addr 3) 12 ''n'' ''m2'' [] ''income'' True Map.empty)]"

lemmas tx_eval = demo_tx_calls_def transactions_after_def transactions_fresh_def create_transaction_def create_record_def
  generate_transaction_id_def is_duplicate_transaction_def get_transaction_def store_transaction_def emit_def user_list_def
  all_list_def MIN_TRANSACTION_AMOUNT_def MAX_TRANSACTION_AMOUNT_def MAX_NOTE_LENGTH_def MAX_TRANSACTIONS_PER_USER_def
  Let_def transaction_symbol_inj arith_defs

lemma demo_tx_records:
  "ts_counter (transactions_after demo_tx_calls) = Some 2"
  "ts_record (transactions_after demo_tx_calls) (transaction_symbol 1) \<noteq> None"
  "get_all_transactions (transactions_after demo_tx_calls) \<noteq> []"
  by (simp_all add: tx_eval get_all_transactions_def upt_rec)

theorem transactions_index_exact_witness:
  "get_total_income (transactions_after demo_tx_calls) = Inr (total_of ''income'' (transactions_after demo_tx_calls))
   \<and> length (get_all_transactions (transactions_after demo_tx_calls)) \<le> get_total_transactions_count (transactions_after demo_tx_calls)
   \<and> get_all_transactions (transactions_after demo_tx_calls) \<noteq> []"
  using transactions_index_exact [of "transactions_after demo_tx_calls" demo_tx_calls] demo_tx_records by simp

theorem transaction_id_roundtrip_witness:
  "\<exists>i s'. generate_transaction_id (transactions_after demo_tx_calls) = Inr (i, s') \<and> read_symbol i = Some 3"
proof -
  have "\<exists>i s'. generate_transaction_id (transactions_after demo_tx_calls) = Inr (i, s')"
    by (simp add: generate_transaction_id_def demo_tx_records u64_add_def in_u64_def)
  then obtain i s' where g: "generate_transaction_id (transactions_after demo_tx_calls) = Inr (i, s')" by blast
  from transaction_id_roundtrip [OF refl g] g show ?thesis by (auto simp: demo_tx_records)
qed

theorem transactions_owner_only_witness:
  "\<exists>tx s'. ts_record (transactions_after demo_tx_calls) (transaction_symbol 1) = Some tx
    \<and> transactions_exec (signed_env [Addr 1] 4 61 (Addr 8), CClear (Addr 1)) (transactions_after demo_tx_calls) = Inr s'
    \<and> (case ts_record s' (transaction_symbol 1) of
         None \<Rightarrow> tx_from tx = Addr 1 \<or> ts_admin (transactions_after demo_tx_calls) = Some (Addr 1)
       | Some tx' \<Rightarrow> tx_memo tx' = tx_memo tx)"
proof -
  let ?e = "signed_env [Addr 1] 4 61 (Addr 8)"
  obtain tx where tx: "ts_record (transactions_after demo_tx_calls) (transaction_symbol 1) = Some tx"
    using demo_tx_records(2) by auto
  obtain s' where s': "transactions_exec (?e, CClear (Addr 1)) (transactions_after demo_tx_calls) = Inr s'"
    by (cases "emit_if (TxCleared (Addr 1)) (clear_user (Addr 1) (transactions_after demo_tx_calls))")
      (simp add: clear_user_transactions_def del: One_nat_def)
  note spec = transactions_owner_only [OF tx s']
  have memo: "tx1 = tx\<lparr>tx_amount := a, tx_note := n, tx_metadata := m, tx_status := st\<rparr> \<Longrightarrow> tx_memo tx1 = tx_memo tx"
    for tx1 :: transaction and a n m st by simp
  have "case ts_record s' (transaction_symbol 1) of
         None \<Rightarrow> tx_from tx = Addr 1 \<or> ts_admin (transactions_after demo_tx_calls) = Some (Addr 1)
       | Some tx' \<Rightarrow> tx_memo tx' = tx_memo tx"
  proof (cases "ts_record s' (transaction_symbol 1)")
    case None
    with spec show ?thesis by auto
  next
    case (Some tx1)
    with spec show ?thesis by (simp only: option.case) (blast intro: memo)
  qed
  with tx s' show ?thesis by blast
qed

end
