(* ===== verification/Soroban_Map.thy ===== *)
theory Soroban_Map
  imports Host
begin

text \<open>
  \<open>soroban_sdk::Map\<close>: entries kept in the order of their keys, one per key.  Contracts that iterate
  over a map see this order, so it is part of the model; contracts that only look keys up use
  Isabelle's partial functions instead.  The lemmas show that the sorted entries implement a partial
  function.
\<close>

fun map_set :: "'k :: linorder \<Rightarrow> 'v \<Rightarrow> ('k \<times> 'v) list \<Rightarrow> ('k \<times> 'v) list" where
  "map_set k v [] = [(k, v)]"
| "map_set k v ((j, w) # m) =
    (if k < j then (k, v) # (j, w) # m else if k = j then (k, v) # m else (j, w) # map_set k v m)"

definition map_remove :: "'k \<Rightarrow> ('k \<times> 'v) list \<Rightarrow> ('k \<times> 'v) list" where
  "map_remove k m = filter (\<lambda>(j, w). j \<noteq> k) m"

definition map_contains :: "'k \<Rightarrow> ('k \<times> 'v) list \<Rightarrow> bool" where
  "map_contains k m \<longleftrightarrow> k \<in> fst ` set m"

definition map_ok :: "('k :: linorder \<times> 'v) list \<Rightarrow> bool" where
  "map_ok m \<longleftrightarrow> sorted_wrt (<) (map fst m)"

lemma map_of_set: "map_of (map_set k v m) = (map_of m)(k \<mapsto> v)"
  by (induction k v m rule: map_set.induct) auto

lemma keys_set: "fst ` set (map_set k v m) = insert k (fst ` set m)"
  by (induction k v m rule: map_set.induct) auto

lemma map_ok_set: "map_ok m \<Longrightarrow> map_ok (map_set k v m)"
proof (induction k v m rule: map_set.induct)
  case (2 k v j w m)
  have "x \<in> fst ` set (map_set k v m) \<Longrightarrow> x = k \<or> x \<in> fst ` set m" for x by (simp add: keys_set)
  with 2 show ?case by (fastforce simp: map_ok_def)
qed (simp add: map_ok_def)

lemma map_ok_remove: "map_ok m \<Longrightarrow> map_ok (map_remove k m)"
  unfolding map_ok_def map_remove_def sorted_wrt_map by (rule sorted_wrt_filter)

lemma keys_remove: "fst ` set (map_remove k m) = fst ` set m - {k}"
  by (force simp: map_remove_def)

lemma map_of_remove: "map_of (map_remove k m) = (map_of m)(k := None)"
  by (induction m) (auto simp: map_remove_def)

lemma map_contains_lookup: "map_contains k m \<longleftrightarrow> map_of m k \<noteq> None"
  by (simp add: map_contains_def map_of_eq_None_iff)

lemma map_ok_distinct: "map_ok m \<Longrightarrow> distinct (map fst m)"
  by (auto simp: map_ok_def strict_sorted_iff)

lemma map_ok_sorted: "map_ok m \<Longrightarrow> sorted (map fst m)"
  by (auto simp: map_ok_def strict_sorted_iff)

lemma map_ok_nil [simp]: "map_ok []"
  by (simp add: map_ok_def)

lemma length_set: "map_ok m \<Longrightarrow> length (map_set k v m) = length m + (if map_contains k m then 0 else 1)"
proof (induction k v m rule: map_set.induct)
  case (2 k v j w m)
  have "k \<notin> fst ` set m" if "k < j" using 2(2) that by (fastforce simp: map_ok_def)
  with 2 show ?case by (auto simp: map_contains_def map_ok_def)
qed (simp add: map_contains_def)

lemma length_remove: "map_ok m \<Longrightarrow> length (map_remove k m) = length m - (if map_contains k m then 1 else 0)"
proof -
  assume ok: "map_ok m"
  have "length (map_remove k m) = card (fst ` set (map_remove k m))"
    using distinct_card [OF map_ok_distinct [OF map_ok_remove [OF ok, of k]]] by simp
  moreover have "length m = card (fst ` set m)" using distinct_card [OF map_ok_distinct [OF ok]] by simp
  ultimately show ?thesis by (simp add: keys_remove map_contains_def)
qed

text \<open>The sum of the values, as a sum over the keys.\<close>

lemma sum_values_set:
  fixes v :: int
  shows "map_ok m \<Longrightarrow> sum_list (map snd (map_set k v m)) = sum_list (map snd m) + v - unwrap_or (map_of m k) 0"
proof (induction k v m rule: map_set.induct)
  case (2 k v j w m)
  have "map_of m k = None" if "k < j" using 2(2) that by (fastforce simp: map_ok_def map_of_eq_None_iff)
  with 2 show ?case by (auto simp: map_ok_def)
qed simp

end
