(* ===== verification/Users.thy ===== *)
theory Users
  imports Soroban_Map Shared
begin

text \<open>
  \<open>contracts/users/src\<close>: the register of users with their preferences (\<open>lib.rs\<close>, \<open>storage.rs\<close>).  The
  entry \<open>Users\<close> is one map from users to a constant, whose order \<open>get_all_users\<close> shows, so it is a
  \<open>Soroban_Map\<close>; the entries per user are partial functions.
\<close>

section \<open>Data (storage.rs)\<close>

record user_settings =
  set_is_active :: bool
  set_currency :: string
  set_default_currency_of :: "string option"
  set_last_login :: "nat option"
  set_nickname :: "string option"

datatype users_event =
    UsersInit address
  | UserRegistered address
  | UserReset address
  | DefaultCurrencySet address string
  | UserDeactivated address
  | ProfileUpdated address
  | ActiveUpdated address bool
  | CurrencyUpdated address string
  | NicknameUpdated address string

record users_state =
  us_admin :: "address option"
  us_users :: "(address \<times> bool) list option"
  us_count :: "nat option"
  us_default_currency :: "address \<rightharpoonup> string"
  us_active :: "address \<rightharpoonup> bool"
  us_currency :: "address \<rightharpoonup> string"
  us_last_login :: "address \<rightharpoonup> nat"
  us_nickname :: "address \<rightharpoonup> string"
  us_events :: "users_event list"

definition users_fresh :: users_state where
  "users_fresh = \<lparr>us_admin = None, us_users = None, us_count = None, us_default_currency = Map.empty,
     us_active = Map.empty, us_currency = Map.empty, us_last_login = Map.empty, us_nickname = Map.empty, us_events = []\<rparr>"

definition emit :: "users_event \<Rightarrow> users_state \<Rightarrow> users_state" where
  "emit ev s = s\<lparr>us_events := us_events s @ [ev]\<rparr>"

type_synonym 'a users_outcome = "(users_state, shared_error, 'a) outcome"

section \<open>Storage functions (storage.rs)\<close>

definition users_map :: "users_state \<Rightarrow> (address \<times> bool) list" where
  "users_map s = unwrap_or (us_users s) []"

text \<open>\<open>add_user\<close>: the outer option is the overflow of the plain addition to the count.\<close>

definition add_user :: "address \<Rightarrow> users_state \<Rightarrow> shared_error trap + bool \<times> users_state" where
  "add_user u s =
    (let users = users_map s in
     if map_contains u users then Inr (False, s) else
     let s1 = s\<lparr>us_users := Some (map_set u True users)\<rparr>;
         s2 = s1\<lparr>us_active := (us_active s1)(u \<mapsto> True)\<rparr> in
     case u64_add (unwrap_or (us_count s2) 0) 1 of None \<Rightarrow> Inl ArithTrap | Some count \<Rightarrow>
     let s3 = s2\<lparr>us_count := Some count\<rparr>
     in Inr (True, s3\<lparr>us_active := (us_active s3)(u \<mapsto> True)\<rparr>))"

definition storage_get_user_count :: "users_state \<Rightarrow> nat" where
  "storage_get_user_count s = unwrap_or (us_count s) 0"

definition user_exists :: "users_state \<Rightarrow> address \<Rightarrow> bool" where
  "user_exists s u \<longleftrightarrow> map_contains u (users_map s)"

definition storage_reset_user_data :: "address \<Rightarrow> users_state \<Rightarrow> bool \<times> users_state" where
  "storage_reset_user_data u s =
    (let users = users_map s in
     if \<not> map_contains u users then (False, s) else
     let s1 = s\<lparr>us_users := Some (map_remove u users)\<rparr>;
         count = unwrap_or (us_count s1) 0;
         s2 = s1\<lparr>us_count := Some (if count > 0 then count - 1 else count)\<rparr>;
         s3 = s2\<lparr>us_default_currency := (us_default_currency s2)(u := None)\<rparr>
     in (True, s3\<lparr>us_active := (us_active s3)(u := None)\<rparr>))"

definition storage_get_all_users :: "users_state \<Rightarrow> address list" where
  "storage_get_all_users s = map fst (users_map s)"

definition storage_set_default_currency :: "address \<Rightarrow> string \<Rightarrow> users_state \<Rightarrow> users_state" where
  "storage_set_default_currency u currency s = s\<lparr>us_default_currency := (us_default_currency s)(u \<mapsto> currency)\<rparr>"

definition get_default_currency :: "users_state \<Rightarrow> address \<Rightarrow> string option" where
  "get_default_currency s u = us_default_currency s u"

definition storage_set_user_active_status :: "address \<Rightarrow> bool \<Rightarrow> users_state \<Rightarrow> bool \<times> users_state" where
  "storage_set_user_active_status u is_active s =
    (if \<not> user_exists s u then (False, s) else (True, s\<lparr>us_active := (us_active s)(u \<mapsto> is_active)\<rparr>))"

definition storage_deactivate_user :: "address \<Rightarrow> users_state \<Rightarrow> bool \<times> users_state" where
  "storage_deactivate_user u s =
    (if \<not> user_exists s u then (False, s) else (True, s\<lparr>us_active := (us_active s)(u \<mapsto> False)\<rparr>))"

definition is_user_active :: "users_state \<Rightarrow> address \<Rightarrow> bool" where
  "is_user_active s u = unwrap_or (us_active s u) False"

definition get_user_active_status :: "users_state \<Rightarrow> address \<Rightarrow> bool" where
  "get_user_active_status s u = unwrap_or (us_active s u) False"

definition get_user_currency :: "users_state \<Rightarrow> address \<Rightarrow> string" where
  "get_user_currency s u = unwrap_or (us_currency s u) ''USD''"

definition storage_set_user_currency :: "address \<Rightarrow> string \<Rightarrow> users_state \<Rightarrow> bool \<times> users_state" where
  "storage_set_user_currency u currency s =
    (if \<not> user_exists s u then (False, s) else (True, s\<lparr>us_currency := (us_currency s)(u \<mapsto> currency)\<rparr>))"

definition get_user_last_login :: "users_state \<Rightarrow> address \<Rightarrow> nat option" where
  "get_user_last_login s u = us_last_login s u"

definition set_user_last_login :: "address \<Rightarrow> nat \<Rightarrow> users_state \<Rightarrow> bool \<times> users_state" where
  "set_user_last_login u timestamp s =
    (if \<not> user_exists s u then (False, s) else (True, s\<lparr>us_last_login := (us_last_login s)(u \<mapsto> timestamp)\<rparr>))"

definition get_user_nickname :: "users_state \<Rightarrow> address \<Rightarrow> string option" where
  "get_user_nickname s u = us_nickname s u"

definition set_user_nickname :: "address \<Rightarrow> string \<Rightarrow> users_state \<Rightarrow> bool \<times> users_state" where
  "set_user_nickname u nickname s =
    (if \<not> user_exists s u then (False, s) else (True, s\<lparr>us_nickname := (us_nickname s)(u \<mapsto> nickname)\<rparr>))"

definition get_user_settings :: "users_state \<Rightarrow> address \<Rightarrow> user_settings" where
  "get_user_settings s u = \<lparr>set_is_active = unwrap_or (us_active s u) False,
     set_currency = unwrap_or (us_currency s u) ''USD'', set_default_currency_of = us_default_currency s u,
     set_last_login = us_last_login s u, set_nickname = us_nickname s u\<rparr>"

section \<open>Entry points (lib.rs)\<close>

definition initialize :: "env \<Rightarrow> address \<Rightarrow> users_state \<Rightarrow> unit users_outcome" where
  "initialize e admin s =
    (if us_admin s \<noteq> None then Inl (ContractError AlreadyInitialized) else
     if \<not> env_auth e admin then Inl AuthTrap else
     Inr ((), emit (UsersInit admin) (s\<lparr>us_admin := Some admin\<rparr>)))"

definition register_user :: "env \<Rightarrow> address \<Rightarrow> users_state \<Rightarrow> bool users_outcome" where
  "register_user e u s =
    (if user_exists s u then Inr (False, s) else
     case add_user u s of Inl t \<Rightarrow> Inl t | Inr (is_new, s1) \<Rightarrow>
     Inr (is_new, if is_new then emit (UserRegistered u) (snd (set_user_last_login u (env_timestamp e) s1)) else s1))"

definition require_admin :: "address \<Rightarrow> users_state \<Rightarrow> shared_error trap + unit" where
  "require_admin caller s =
    (case us_admin s of None \<Rightarrow> Inl (ContractError NotInitialized) | Some admin \<Rightarrow>
     if caller \<noteq> admin then Inl (ContractError Unauthorized) else Inr ())"

definition get_user_count :: "users_state \<Rightarrow> nat" where
  "get_user_count s = storage_get_user_count s"

definition is_user_registered :: "users_state \<Rightarrow> address \<Rightarrow> bool" where
  "is_user_registered s u = user_exists s u"

definition get_all_users :: "env \<Rightarrow> address \<Rightarrow> users_state \<Rightarrow> shared_error trap + address list" where
  "get_all_users e caller s =
    (if \<not> env_auth e caller then Inl AuthTrap else
     case require_admin caller s of Inl t \<Rightarrow> Inl t | Inr _ \<Rightarrow> Inr (storage_get_all_users s))"

text \<open>A setter that says whether it did something, followed by its event.\<close>

definition emit_if :: "users_event \<Rightarrow> bool \<times> users_state \<Rightarrow> bool \<times> users_state" where
  "emit_if ev r = (case r of (success, s) \<Rightarrow> (success, if success then emit ev s else s))"

definition reset_user_data :: "env \<Rightarrow> address \<Rightarrow> users_state \<Rightarrow> bool users_outcome" where
  "reset_user_data e u s =
    (if \<not> env_auth e u then Inl AuthTrap else Inr (emit_if (UserReset u) (storage_reset_user_data u s)))"

definition set_default_currency :: "env \<Rightarrow> address \<Rightarrow> string \<Rightarrow> users_state \<Rightarrow> unit users_outcome" where
  "set_default_currency e u currency s =
    (if \<not> env_auth e u then Inl AuthTrap else
     if \<not> user_exists s u then Inl (ContractError ResourceNotFound) else
     Inr ((), emit (DefaultCurrencySet u currency) (storage_set_default_currency u currency s)))"

definition deactivate_user :: "env \<Rightarrow> address \<Rightarrow> users_state \<Rightarrow> bool users_outcome" where
  "deactivate_user e u s =
    (if \<not> env_auth e u then Inl AuthTrap else Inr (emit_if (UserDeactivated u) (storage_deactivate_user u s)))"

definition update_user_profile :: "env \<Rightarrow> address \<Rightarrow> string option \<Rightarrow> bool option \<Rightarrow> users_state \<Rightarrow> bool users_outcome" where
  "update_user_profile e u new_currency is_active s =
    (if \<not> env_auth e u then Inl AuthTrap else
     if \<not> user_exists s u then Inl (ContractError ResourceNotFound) else
     let s1 = (case new_currency of None \<Rightarrow> s
               | Some currency \<Rightarrow> storage_set_default_currency u currency (snd (storage_set_user_currency u currency s)));
         s2 = (case is_active of None \<Rightarrow> s1 | Some active \<Rightarrow> snd (storage_set_user_active_status u active s1));
         updated = (new_currency \<noteq> None \<or> is_active \<noteq> None)
     in Inr (updated, if updated then emit (ProfileUpdated u) s2 else s2))"

definition get_admin :: "users_state \<Rightarrow> address option" where
  "get_admin s = us_admin s"

definition set_user_active_status :: "env \<Rightarrow> address \<Rightarrow> address \<Rightarrow> bool \<Rightarrow> users_state \<Rightarrow> bool users_outcome" where
  "set_user_active_status e caller u is_active s =
    (if \<not> env_auth e caller then Inl AuthTrap else
     case require_admin caller s of Inl t \<Rightarrow> Inl t | Inr _ \<Rightarrow>
     Inr (emit_if (ActiveUpdated u is_active) (storage_set_user_active_status u is_active s)))"

definition set_user_currency :: "env \<Rightarrow> address \<Rightarrow> string \<Rightarrow> users_state \<Rightarrow> bool users_outcome" where
  "set_user_currency e u currency s =
    (if \<not> env_auth e u then Inl AuthTrap else
     Inr (emit_if (CurrencyUpdated u currency) (storage_set_user_currency u currency s)))"

definition update_nickname :: "env \<Rightarrow> address \<Rightarrow> string \<Rightarrow> users_state \<Rightarrow> bool users_outcome" where
  "update_nickname e u new_nickname s =
    (if \<not> env_auth e u then Inl AuthTrap else
     if \<not> user_exists s u then Inl (ContractError ResourceNotFound) else
     Inr (emit_if (NicknameUpdated u new_nickname) (set_user_nickname u new_nickname s)))"

datatype users_call =
    CInitialize address
  | CRegister address
  | CReset address
  | CSetDefaultCurrency address string
  | CDeactivate address
  | CUpdateProfile address "string option" "bool option"
  | CSetActive address address bool
  | CSetCurrency address string
  | CUpdateNickname address string

fun users_exec :: "env \<times> users_call \<Rightarrow> users_state \<Rightarrow> shared_error trap + users_state" where
  "users_exec (e, CInitialize a) s = final (initialize e a s)"
| "users_exec (e, CRegister a) s = final (register_user e a s)"
| "users_exec (e, CReset a) s = final (reset_user_data e a s)"
| "users_exec (e, CSetDefaultCurrency a c) s = final (set_default_currency e a c s)"
| "users_exec (e, CDeactivate a) s = final (deactivate_user e a s)"
| "users_exec (e, CUpdateProfile a c b) s = final (update_user_profile e a c b s)"
| "users_exec (e, CSetActive a u b) s = final (set_user_active_status e a u b s)"
| "users_exec (e, CSetCurrency a c) s = final (set_user_currency e a c s)"
| "users_exec (e, CUpdateNickname a n) s = final (update_nickname e a n s)"

section \<open>The register\<close>

text \<open>The map is well formed, the count is its size, and exactly the registered users have an activity
  flag; only they have a default currency, and all of them have a last login.\<close>

definition users_inv :: "users_state \<Rightarrow> bool" where
  "users_inv s \<longleftrightarrow> map_ok (users_map s) \<and> storage_get_user_count s = length (users_map s)
     \<and> (\<forall>u. us_active s u \<noteq> None \<longleftrightarrow> user_exists s u)
     \<and> (\<forall>u. user_exists s u \<longrightarrow> us_last_login s u \<noteq> None)
     \<and> (\<forall>u. us_default_currency s u \<noteq> None \<longrightarrow> user_exists s u)"

lemma users_inv_fresh: "users_inv users_fresh"
  by (simp add: users_inv_def users_fresh_def users_map_def storage_get_user_count_def user_exists_def map_contains_def)

lemma users_same:
  assumes "users_inv s" and "us_users s' = us_users s" and "us_count s' = us_count s"
    and "\<And>u. us_active s' u \<noteq> None \<longleftrightarrow> us_active s u \<noteq> None"
    and "\<And>u. us_last_login s u \<noteq> None \<Longrightarrow> us_last_login s' u \<noteq> None"
    and "\<And>u. us_default_currency s' u \<noteq> None \<Longrightarrow> us_default_currency s u \<noteq> None \<or> user_exists s u"
  shows "users_inv s'"
proof -
  have m: "users_map s' = users_map s" "storage_get_user_count s' = storage_get_user_count s"
    by (simp_all add: users_map_def storage_get_user_count_def assms(2,3))
  then have "user_exists s' u = user_exists s u" for u by (simp add: user_exists_def)
  with m assms(1,4-6) show ?thesis unfolding users_inv_def by metis
qed

lemma register_Inr:
  assumes "register_user e u s = Inr (True, s')"
  shows "\<not> user_exists s u \<and> us_users s' = Some (map_set u True (users_map s))
    \<and> us_count s' = Some (storage_get_user_count s + 1) \<and> us_active s' = (us_active s)(u \<mapsto> True)
    \<and> us_last_login s' = (us_last_login s)(u \<mapsto> env_timestamp e) \<and> us_default_currency s' = us_default_currency s
    \<and> us_currency s' = us_currency s \<and> us_nickname s' = us_nickname s \<and> us_admin s' = us_admin s"
proof -
  have "map_contains u (map_set u True m)" for m :: "(address \<times> bool) list" by (simp add: map_contains_def keys_set)
  with assms show ?thesis
    by (auto simp: register_user_def add_user_def user_exists_def set_user_last_login_def users_map_def
        storage_get_user_count_def emit_def Let_def split: if_splits option.splits)
qed

lemma register_False: "register_user e u s = Inr (False, s') \<Longrightarrow> s' = s \<and> user_exists s u"
  by (auto simp: register_user_def add_user_def user_exists_def Let_def split: if_splits option.splits)

lemma register_inv:
  assumes "users_inv s" and "register_user e u s = Inr (True, s')"
  shows "users_inv s'"
proof -
  note r = register_Inr [OF assms(2)]
  have m: "users_map s' = map_set u True (users_map s)" using r by (simp add: users_map_def)
  have ex: "user_exists s' v \<longleftrightarrow> v = u \<or> user_exists s v" for v
    by (simp add: user_exists_def m map_contains_def keys_set)
  have "length (users_map s') = length (users_map s) + 1"
    using assms(1) r length_set [of "users_map s" u True] by (simp add: m users_inv_def user_exists_def)
  moreover have "map_ok (users_map s')" using assms(1) by (simp add: m map_ok_set users_inv_def)
  ultimately show ?thesis using assms(1) r unfolding users_inv_def ex by (auto simp: storage_get_user_count_def)
qed

lemma reset_inv:
  assumes "users_inv s" and "user_exists s u" and "s' = snd (storage_reset_user_data u s)"
  shows "users_inv s'"
proof -
  have s': "users_map s' = map_remove u (users_map s)" "us_active s' = (us_active s)(u := None)"
    "us_default_currency s' = (us_default_currency s)(u := None)" "us_last_login s' = us_last_login s"
    "storage_get_user_count s' = storage_get_user_count s - 1"
    using assms(2) by (auto simp: assms(3) storage_reset_user_data_def user_exists_def Let_def users_map_def
        storage_get_user_count_def)
  have "user_exists s' v \<longleftrightarrow> v \<noteq> u \<and> user_exists s v" for v
    by (auto simp: user_exists_def s' map_contains_def keys_remove)
  moreover have "length (users_map s') = length (users_map s) - 1"
    using assms(1,2) length_remove [of "users_map s" u] by (simp add: s' users_inv_def user_exists_def)
  moreover have "map_ok (users_map s')" using assms(1) by (simp add: s' map_ok_remove users_inv_def)
  ultimately show ?thesis using assms(1) unfolding users_inv_def s' by auto
qed

lemma users_exec_inv:
  assumes "users_inv s" and "users_exec (e, call) s = Inr s'"
  shows "users_inv s'"
proof -
  note frame = users_same [OF assms(1)]
  note defs = emit_if_def emit_def storage_set_default_currency_def storage_set_user_active_status_def
    storage_deactivate_user_def storage_set_user_currency_def set_user_nickname_def
  have active: "us_active s u \<noteq> None" if "user_exists s u" for u using assms(1) that by (auto simp: users_inv_def)
  show ?thesis
  proof (cases call)
    case (CRegister a)
    with assms(2) obtain b where "register_user e a s = Inr (b, s')" by auto
    then show ?thesis using register_inv [OF assms(1), of e a s'] register_False [of e a s s'] assms(1) by (cases b) auto
  next
    case (CReset a)
    show ?thesis
    proof (cases "user_exists s a")
      case True
      from reset_inv [OF assms(1) True refl] show ?thesis
        using CReset assms(2)
        by (intro users_same [of "snd (storage_reset_user_data a s)" s']) (auto simp: reset_user_data_def emit_if_def emit_def split: if_splits prod.splits)
    next
      case False
      then have "s' = s" using CReset assms(2)
        by (auto simp: reset_user_data_def storage_reset_user_data_def user_exists_def emit_if_def Let_def split: if_splits)
      with assms(1) show ?thesis by simp
    qed
  qed (use assms(2) active in \<open>auto simp: initialize_def set_default_currency_def deactivate_user_def update_user_profile_def
      set_user_active_status_def set_user_currency_def update_nickname_def Let_def defs
      split: if_splits sum.splits option.splits intro!: frame\<close>)
qed

interpretation users_machine: contract_invariant users_exec users_inv "\<lambda>_. True"
  by unfold_locales (use users_exec_inv in auto)

definition users_after :: "(env \<times> users_call) list \<Rightarrow> users_state" where
  "users_after calls = run users_exec calls users_fresh"

lemma users_after_inv: "users_inv (users_after calls)"
  unfolding users_after_def by (rule users_machine.run_inv [OF users_inv_fresh]) simp

section \<open>Properties\<close>

text \<open>The register of users is exact.  After any sequence of calls the listing that the administrator gets is
  sorted and has every registered user once, the published count is its length, and whoever is
  reported active, or has a default currency, is registered.\<close>

theorem users_register_exact:
  "(let s = users_after calls; users = storage_get_all_users s in
      sorted users \<and> distinct users \<and> set users = {u. is_user_registered s u}
      \<and> get_user_count s = length users
      \<and> {u. is_user_active s u} \<union> dom (us_default_currency s) \<subseteq> set users)"
proof -
  define s where "s = users_after calls"
  have inv: "users_inv s" unfolding s_def by (rule users_after_inv)
  have reg: "set (storage_get_all_users s) = {u. is_user_registered s u}"
    by (auto simp: storage_get_all_users_def is_user_registered_def user_exists_def map_contains_def)
  have "u \<in> set (storage_get_all_users s)" if "is_user_active s u \<or> us_default_currency s u \<noteq> None" for u
  proof -
    have "us_active s u \<noteq> None \<or> us_default_currency s u \<noteq> None" using that by (auto simp: is_user_active_def)
    with inv show ?thesis unfolding reg by (auto simp: users_inv_def is_user_registered_def)
  qed
  with inv reg show ?thesis
    by (auto simp: s_def [symmetric] Let_def users_inv_def storage_get_all_users_def get_user_count_def
        intro: map_ok_sorted map_ok_distinct)
qed

text \<open>What a reset removes.  It works for the signed user only, exactly when the user is registered, and
  removes the registration, the activity flag and the default currency; the preferred currency, the
  nickname and the last login stay readable, and a later registration, which anybody can make for
  the user, brings the old currency and nickname back.\<close>

theorem users_reset_leaves_profile:
  assumes "reset_user_data e u s = Inr (ok, s1)" and "register_user e' u s1 = Inr (True, s2)"
  shows "env_auth e u \<and> (ok \<longleftrightarrow> user_exists s u) \<and> \<not> user_exists s1 u
    \<and> (ok \<longrightarrow> get_user_settings s1 u = (get_user_settings s u)\<lparr>set_is_active := False, set_default_currency_of := None\<rparr>)
    \<and> get_user_settings s2 u = (get_user_settings s1 u)\<lparr>set_is_active := True, set_last_login := Some (env_timestamp e')\<rparr>
    \<and> set_nickname (get_user_settings s2 u) = set_nickname (get_user_settings s u)
    \<and> set_currency (get_user_settings s2 u) = set_currency (get_user_settings s u)"
proof -
  note r = register_Inr [OF assms(2)]
  have "map_contains u (map_remove u m) = False" for m :: "(address \<times> bool) list"
    by (simp add: map_contains_def keys_remove)
  then show ?thesis
    using assms(1) r
    by (auto simp: reset_user_data_def storage_reset_user_data_def user_exists_def emit_if_def emit_def Let_def
        get_user_settings_def users_map_def split: if_splits)
qed

definition demo_user_calls :: "(env \<times> users_call) list" where
  "demo_user_calls =
    [(signed_env [] 1 50 (Addr 8), CRegister (Addr 2)),
     (signed_env [Addr 2] 2 51 (Addr 8), CUpdateNickname (Addr 2) ''zed'')]"

theorem users_reset_leaves_profile_witness:
  "\<exists>s1 s2. reset_user_data (signed_env [Addr 2] 3 60 (Addr 8)) (Addr 2) (users_after demo_user_calls) = Inr (True, s1)
    \<and> register_user (signed_env [] 4 70 (Addr 8)) (Addr 2) s1 = Inr (True, s2)
    \<and> get_user_nickname s2 (Addr 2) = Some ''zed''"
proof -
  let ?s = "users_after demo_user_calls"
  let ?e = "signed_env [Addr 2] 3 60 (Addr 8)" and ?e' = "signed_env [] 4 70 (Addr 8)"
  note eval = users_after_def demo_user_calls_def users_fresh_def register_user_def add_user_def user_exists_def users_map_def
    map_contains_def set_user_last_login_def update_nickname_def set_user_nickname_def emit_if_def emit_def Let_def
    arith_defs reset_user_data_def storage_reset_user_data_def map_remove_def get_user_nickname_def get_user_settings_def
  have "\<exists>s1. reset_user_data ?e (Addr 2) ?s = Inr (True, s1) \<and> (\<exists>s2. register_user ?e' (Addr 2) s1 = Inr (True, s2))"
    by (simp add: eval)
  then obtain s1 s2 where go: "reset_user_data ?e (Addr 2) ?s = Inr (True, s1)" "register_user ?e' (Addr 2) s1 = Inr (True, s2)"
    by blast
  have "set_nickname (get_user_settings ?s (Addr 2)) = Some ''zed''" by (simp add: eval)
  with users_reset_leaves_profile [OF go] go show ?thesis by (simp add: get_user_settings_def get_user_nickname_def)
qed

end
