(* ===== verification/Budget_Allocation.thy ===== *)
theory Budget_Allocation
  imports Soroban_Map "HOL-Library.List_Lexorder" "HOL-Library.Char_ord"
begin

text \<open>
  \<open>contracts/budget-allocation/src\<close>: monthly budgets set by the admin, per user and per category, with
  snapshots (\<open>lib.rs\<close>, \<open>types.rs\<close>).  The categories of a user are a \<open>soroban_sdk::Map\<close> whose values
  are summed in key order, so they are a \<open>Soroban_Map\<close>.
\<close>

section \<open>Data (types.rs)\<close>

record budget_request =
  brq_user :: address
  brq_amount :: int

record budget_category =
  bc_name :: symbol
  bc_amount :: int

record category_budget_request =
  cq_user :: address
  cq_categories :: "budget_category list"
  cq_total_amount :: int

record budget_record =
  bg_user :: address
  bg_amount :: int
  bg_last_updated :: nat

record user_budget_categories =
  uc_user :: address
  uc_categories :: "(symbol \<times> int) list"
  uc_total_amount :: int
  uc_last_updated :: nat

record budget_allocation_summary =
  bs_remaining_allocation :: int
  bs_total_allocation :: int
  bs_usage_percentage :: int

record batch_budget_result =
  bb_successful :: nat
  bb_failed :: nat
  bb_total_amount :: int

datatype allocation_event =
    BudgetFailed address int
  | BudgetSet address int
  | CategoryAllocated address symbol int
  | BudgetAllocated address int nat

record allocation_state =
  al_admin :: "address option"
  al_budget :: "address \<rightharpoonup> budget_record"
  al_categories :: "address \<rightharpoonup> user_budget_categories"
  al_snapshot :: "nat \<times> address \<rightharpoonup> budget_record"
  al_timestamps :: "nat list option"
  al_events :: "allocation_event list"

definition allocation_fresh :: allocation_state where
  "allocation_fresh = \<lparr>al_admin = None, al_budget = Map.empty, al_categories = Map.empty, al_snapshot = Map.empty,
     al_timestamps = None, al_events = []\<rparr>"

definition emit :: "allocation_event \<Rightarrow> allocation_state \<Rightarrow> allocation_state" where
  "emit ev s = s\<lparr>al_events := al_events s @ [ev]\<rparr>"

text \<open>The contract has no error codes: every refusal is a panic.\<close>

type_synonym 'a allocation_outcome = "(allocation_state, unit, 'a) outcome"

section \<open>Entry points (lib.rs)\<close>

definition initialize :: "address \<Rightarrow> allocation_state \<Rightarrow> unit allocation_outcome" where
  "initialize admin s = (if al_admin s \<noteq> None then Inl PanicTrap else Inr ((), s\<lparr>al_admin := Some admin\<rparr>))"

text \<open>The check both administrative entry points begin with.\<close>

definition verify_admin :: "env \<Rightarrow> address \<Rightarrow> allocation_state \<Rightarrow> unit trap + unit" where
  "verify_admin e admin s =
    (if \<not> env_auth e admin then Inl AuthTrap else
     case al_admin s of None \<Rightarrow> Inl PanicTrap | Some stored_admin \<Rightarrow>
     if admin \<noteq> stored_admin then Inl PanicTrap else Inr ())"

definition allocate_step :: "nat \<Rightarrow> budget_request \<Rightarrow> batch_budget_result \<times> allocation_state
    \<Rightarrow> batch_budget_result \<times> allocation_state" where
  "allocate_step current_time req w = (case w of (r, s) \<Rightarrow>
     if brq_amount req < 0 then (r\<lparr>bb_failed := bb_failed r + 1\<rparr>, emit (BudgetFailed (brq_user req) (brq_amount req)) s) else
     let record = \<lparr>bg_user = brq_user req, bg_amount = brq_amount req, bg_last_updated = current_time\<rparr>;
         s1 = s\<lparr>al_budget := (al_budget s)(brq_user req \<mapsto> record)\<rparr>;
         s2 = emit (BudgetSet (brq_user req) (brq_amount req)) s1
     in (r\<lparr>bb_successful := bb_successful r + 1,
           bb_total_amount := unwrap_or (checked_add (bb_total_amount r) (brq_amount req)) i128_max\<rparr>, s2))"

definition batch_allocate_budget :: "env \<Rightarrow> address \<Rightarrow> budget_request list \<Rightarrow> allocation_state
    \<Rightarrow> batch_budget_result allocation_outcome" where
  "batch_allocate_budget e admin requests s =
    (case verify_admin e admin s of Inl t \<Rightarrow> Inl t | Inr _ \<Rightarrow>
     Inr (fold (allocate_step (env_timestamp e)) requests
       (\<lparr>bb_successful = 0, bb_failed = 0, bb_total_amount = 0\<rparr>, s)))"

text \<open>The total of the categories: a negative amount and an overflow both panic.\<close>

definition category_step :: "budget_category \<Rightarrow> int \<Rightarrow> unit trap + int" where
  "category_step category n =
    (if bc_amount category < 0 then Inl PanicTrap else
     case checked_add n (bc_amount category) of None \<Rightarrow> Inl PanicTrap | Some m \<Rightarrow> Inr m)"

definition category_map_of :: "budget_category list \<Rightarrow> (symbol \<times> int) list" where
  "category_map_of cats = fold (\<lambda>c m. map_set (bc_name c) (bc_amount c) m) cats []"

definition allocate_budget_by_category :: "env \<Rightarrow> address \<Rightarrow> category_budget_request \<Rightarrow> allocation_state
    \<Rightarrow> bool allocation_outcome" where
  "allocate_budget_by_category e admin request s =
    (case verify_admin e admin s of Inl t \<Rightarrow> Inl t | Inr _ \<Rightarrow>
     case fold_trap category_step (cq_categories request) 0 of Inl t \<Rightarrow> Inl t | Inr calculated_total \<Rightarrow>
     if calculated_total \<noteq> cq_total_amount request then Inl PanicTrap else
     if cq_total_amount request < 0 then Inl PanicTrap else
     let user = cq_user request;
         user_categories = \<lparr>uc_user = user, uc_categories = category_map_of (cq_categories request),
            uc_total_amount = cq_total_amount request, uc_last_updated = env_timestamp e\<rparr>;
         s1 = s\<lparr>al_categories := (al_categories s)(user \<mapsto> user_categories)\<rparr>;
         budget_record = \<lparr>bg_user = user, bg_amount = cq_total_amount request, bg_last_updated = env_timestamp e\<rparr>;
         s2 = s1\<lparr>al_budget := (al_budget s1)(user \<mapsto> budget_record)\<rparr>;
         s3 = fold (\<lambda>c. emit (CategoryAllocated user (bc_name c) (bc_amount c))) (cq_categories request) s2
     in Inr (True, emit (BudgetAllocated user (cq_total_amount request) (length (cq_categories request))) s3))"

definition get_budget_categories :: "allocation_state \<Rightarrow> address \<Rightarrow> user_budget_categories option" where
  "get_budget_categories s u = al_categories s u"

definition get_category_budget :: "allocation_state \<Rightarrow> address \<Rightarrow> symbol \<Rightarrow> int option" where
  "get_category_budget s u category =
    (case al_categories s u of None \<Rightarrow> None | Some cats \<Rightarrow> map_of (uc_categories cats) category)"

definition get_budget :: "allocation_state \<Rightarrow> address \<Rightarrow> budget_record option" where
  "get_budget s u = al_budget s u"

definition saturating_mul :: "int \<Rightarrow> int \<Rightarrow> int" where
  "saturating_mul a b = max (- (2 ^ 127)) (min i128_max (a * b))"

definition get_budget_allocation_summary :: "allocation_state \<Rightarrow> address \<Rightarrow> budget_allocation_summary option" where
  "get_budget_allocation_summary s u =
    (case al_categories s u of
       Some cats \<Rightarrow>
         let remaining = fold (\<lambda>amount n. unwrap_or (checked_add n amount) i128_max) (map snd (uc_categories cats)) 0;
             total_allocation = uc_total_amount cats;
             used = saturating_sub total_allocation remaining
         in Some \<lparr>bs_remaining_allocation = remaining, bs_total_allocation = total_allocation,
                  bs_usage_percentage = (if total_allocation = 0 then 0 else quot (saturating_mul used 100) total_allocation)\<rparr>
     | None \<Rightarrow> map_option (\<lambda>r. \<lparr>bs_remaining_allocation = bg_amount r, bs_total_allocation = bg_amount r,
                                  bs_usage_percentage = 0\<rparr>) (al_budget s u))"

definition create_budget_snapshot :: "env \<Rightarrow> address \<Rightarrow> allocation_state \<Rightarrow> unit allocation_outcome" where
  "create_budget_snapshot e u s =
    (let now = env_timestamp e in
     case al_budget s u of None \<Rightarrow> Inr ((), s) | Some r \<Rightarrow>
     let s1 = s\<lparr>al_snapshot := (al_snapshot s)((now, u) \<mapsto> r)\<rparr>
     in Inr ((), s1\<lparr>al_timestamps := Some (unwrap_or (al_timestamps s1) [] @ [now])\<rparr>))"

definition get_budget_snapshot :: "allocation_state \<Rightarrow> address \<Rightarrow> nat \<Rightarrow> budget_record option" where
  "get_budget_snapshot s u timestamp = al_snapshot s (timestamp, u)"

fun snapshots_loop :: "allocation_state \<Rightarrow> address \<Rightarrow> nat list \<Rightarrow> (nat \<times> budget_record) list" where
  "snapshots_loop s u [] = []"
| "snapshots_loop s u (ts # tss) =
    (case al_snapshot s (ts, u) of Some r \<Rightarrow> (ts, r) # snapshots_loop s u tss | None \<Rightarrow> snapshots_loop s u tss)"

definition get_all_budget_snapshots :: "allocation_state \<Rightarrow> address \<Rightarrow> (nat \<times> budget_record) list" where
  "get_all_budget_snapshots s u = snapshots_loop s u (unwrap_or (al_timestamps s) [])"

definition reset_monthly_budget :: "env \<Rightarrow> address \<Rightarrow> allocation_state \<Rightarrow> unit allocation_outcome" where
  "reset_monthly_budget e u s =
    (let now = env_timestamp e in
     case al_budget s u of None \<Rightarrow> Inr ((), s) | Some r \<Rightarrow>
     Inr ((), s\<lparr>al_budget := (al_budget s)(u \<mapsto> r\<lparr>bg_last_updated := now\<rparr>)\<rparr>))"

definition needs_monthly_reset :: "env \<Rightarrow> address \<Rightarrow> allocation_state \<Rightarrow> unit trap + bool" where
  "needs_monthly_reset e u s =
    (case al_budget s u of None \<Rightarrow> Inr False | Some r \<Rightarrow>
     case u64_add (bg_last_updated r) (30 * 24 * 60 * 60) of None \<Rightarrow> Inl ArithTrap | Some due \<Rightarrow>
     Inr (env_timestamp e \<ge> due))"

definition get_admin :: "allocation_state \<Rightarrow> unit trap + address" where
  "get_admin s = (case al_admin s of None \<Rightarrow> Inl PanicTrap | Some a \<Rightarrow> Inr a)"

datatype allocation_call =
    CInitialize address
  | CBatch address "budget_request list"
  | CCategories address category_budget_request
  | CSnapshot address
  | CReset address

fun allocation_exec :: "env \<times> allocation_call \<Rightarrow> allocation_state \<Rightarrow> unit trap + allocation_state" where
  "allocation_exec (e, CInitialize a) s = final (initialize a s)"
| "allocation_exec (e, CBatch a rqs) s = final (batch_allocate_budget e a rqs s)"
| "allocation_exec (e, CCategories a rq) s = final (allocate_budget_by_category e a rq s)"
| "allocation_exec (e, CSnapshot u) s = final (create_budget_snapshot e u s)"
| "allocation_exec (e, CReset u) s = final (reset_monthly_budget e u s)"

section \<open>The category map\<close>

lemma category_map_snoc: "category_map_of (cs @ [c]) = map_set (bc_name c) (bc_amount c) (category_map_of cs)"
  by (simp add: category_map_of_def)

lemma category_map_props:
  assumes "\<And>c. c \<in> set cs \<Longrightarrow> 0 \<le> bc_amount c"
  shows "map_ok (category_map_of cs) \<and> fst ` set (category_map_of cs) = bc_name ` set cs
    \<and> (\<forall>k v. map_of (category_map_of cs) k = Some v \<longrightarrow> 0 \<le> v)
    \<and> 0 \<le> sum_list (map snd (category_map_of cs))
    \<and> sum_list (map snd (category_map_of cs)) \<le> sum_list (map bc_amount cs)
    \<and> (distinct (map bc_name cs) \<longrightarrow> sum_list (map snd (category_map_of cs)) = sum_list (map bc_amount cs))"
  using assms
proof (induction cs rule: rev_induct)
  case Nil
  then show ?case by (simp add: category_map_of_def)
next
  case (snoc c cs)
  let ?m = "category_map_of cs"
  have IH: "map_ok ?m" "fst ` set ?m = bc_name ` set cs" "\<forall>k v. map_of ?m k = Some v \<longrightarrow> 0 \<le> v"
    "sum_list (map snd ?m) \<le> sum_list (map bc_amount cs)"
    "distinct (map bc_name cs) \<longrightarrow> sum_list (map snd ?m) = sum_list (map bc_amount cs)"
    using snoc by auto
  have pos: "0 \<le> bc_amount c" using snoc.prems by simp
  have old: "0 \<le> unwrap_or (map_of ?m (bc_name c)) 0" using IH(3) by (cases "map_of ?m (bc_name c)") auto
  have new: "map_of ?m (bc_name c) = None" if "bc_name c \<notin> bc_name ` set cs"
    using that IH(2) by (simp add: map_of_eq_None_iff)
  have vals: "\<forall>k v. map_of (category_map_of (cs @ [c])) k = Some v \<longrightarrow> 0 \<le> v"
    using IH(3) pos by (auto simp: category_map_snoc map_of_set)
  moreover have ok: "map_ok (category_map_of (cs @ [c]))" using IH(1) by (simp add: category_map_snoc map_ok_set)
  moreover have "0 \<le> sum_list (map snd (category_map_of (cs @ [c])))"
  proof (rule sum_list_nonneg)
    fix x assume "x \<in> set (map snd (category_map_of (cs @ [c])))"
    then obtain k where "(k, x) \<in> set (category_map_of (cs @ [c]))" by auto
    then have "map_of (category_map_of (cs @ [c])) k = Some x" using map_ok_distinct [OF ok] by simp
    with vals show "0 \<le> x" by blast
  qed
  ultimately show ?case
    using IH pos old new sum_values_set [OF IH(1), of "bc_name c" "bc_amount c"]
    by (auto simp: category_map_snoc keys_set)
qed

lemma category_total:
  "fold_trap category_step cs n = Inr m \<Longrightarrow>
     m = n + sum_list (map bc_amount cs) \<and> (\<forall>c \<in> set cs. 0 \<le> bc_amount c) \<and> (in_i128 n \<longrightarrow> in_i128 m)"
proof (induction cs arbitrary: n)
  case (Cons c cs)
  from Cons.prems obtain k where k: "category_step c n = Inr k" and rest: "fold_trap category_step cs k = Inr m"
    by (auto split: sum.splits)
  from k have "0 \<le> bc_amount c" "in_i128 (n + bc_amount c)" "k = n + bc_amount c"
    by (auto simp: category_step_def split: if_splits option.splits)
  with rest have "0 \<le> bc_amount c" "in_i128 (n + bc_amount c)" "fold_trap category_step cs (n + bc_amount c) = Inr m"
    by simp_all
  from Cons.IH [OF this(3)] this(1,2) show ?case by auto
qed simp

lemma saturating_sum:
  assumes "\<And>x. x \<in> set xs \<Longrightarrow> 0 \<le> x" and "0 \<le> n" and "n + sum_list xs \<le> i128_max"
  shows "fold (\<lambda>amount n. unwrap_or (checked_add n amount) i128_max) xs n = n + sum_list xs"
  using assms
proof (induction xs arbitrary: n)
  case (Cons x xs)
  have "0 \<le> x" "0 \<le> sum_list xs" using Cons.prems(1) by (auto intro: sum_list_nonneg)
  then have "unwrap_or (checked_add n x) i128_max = n + x" using Cons.prems(2,3) by (simp add: checked_add_def in_i128_def)
  with Cons.IH [of "n + x"] Cons.prems \<open>0 \<le> x\<close> show ?case by simp
qed simp

lemma allocate_Inr:
  assumes "allocate_budget_by_category e a rq s = Inr (ok, s')"
  shows "env_auth e a \<and> al_admin s = Some a \<and> ok
    \<and> (\<forall>c \<in> set (cq_categories rq). 0 \<le> bc_amount c)
    \<and> cq_total_amount rq = sum_list (map bc_amount (cq_categories rq)) \<and> in_i128 (cq_total_amount rq)
    \<and> al_categories s' = (al_categories s)(cq_user rq \<mapsto> \<lparr>uc_user = cq_user rq,
         uc_categories = category_map_of (cq_categories rq), uc_total_amount = cq_total_amount rq,
         uc_last_updated = env_timestamp e\<rparr>)
    \<and> al_budget s' = (al_budget s)(cq_user rq \<mapsto> \<lparr>bg_user = cq_user rq, bg_amount = cq_total_amount rq,
         bg_last_updated = env_timestamp e\<rparr>)"
proof -
  have logs: "al_categories (fold (\<lambda>c. emit (f c)) cs w) = al_categories w"
    "al_budget (fold (\<lambda>c. emit (f c)) cs w) = al_budget w" for f and cs :: "budget_category list" and w
    by (induction cs arbitrary: w) (simp_all add: emit_def)
  obtain m where m: "fold_trap category_step (cq_categories rq) 0 = Inr m" "m = cq_total_amount rq"
    using assms by (auto simp: allocate_budget_by_category_def verify_admin_def Let_def split: if_splits sum.splits option.splits)
  from category_total [OF m(1)] m assms show ?thesis
    by (auto simp: allocate_budget_by_category_def verify_admin_def Let_def emit_def [of "BudgetAllocated _ _ _"] logs
        split: if_splits option.splits)
qed

section \<open>Batches and snapshots\<close>

text \<open>What a batch should leave behind: per user the last request that is not negative.\<close>

definition last_request :: "address \<Rightarrow> budget_request list \<Rightarrow> budget_request option" where
  "last_request u rqs = (case rev (filter (\<lambda>rq. brq_user rq = u \<and> 0 \<le> brq_amount rq) rqs) of [] \<Rightarrow> None | rq # _ \<Rightarrow> Some rq)"

lemma last_request_snoc:
  "last_request u (rqs @ [rq]) = (if brq_user rq = u \<and> 0 \<le> brq_amount rq then Some rq else last_request u rqs)"
  by (simp add: last_request_def)

lemma allocate_fold:
  "case fold (allocate_step now) rqs (\<lparr>bb_successful = 0, bb_failed = 0, bb_total_amount = 0\<rparr>, s) of (r, s') \<Rightarrow>
     bb_successful r = length (filter (\<lambda>rq. 0 \<le> brq_amount rq) rqs) \<and> bb_successful r + bb_failed r = length rqs
   \<and> 0 \<le> bb_total_amount r
   \<and> bb_total_amount r = min i128_max (sum_list (map brq_amount (filter (\<lambda>rq. 0 \<le> brq_amount rq) rqs)))
   \<and> (\<forall>u. al_budget s' u = (case last_request u rqs of None \<Rightarrow> al_budget s u
        | Some rq \<Rightarrow> Some \<lparr>bg_user = u, bg_amount = brq_amount rq, bg_last_updated = now\<rparr>))
   \<and> al_categories s' = al_categories s \<and> al_admin s' = al_admin s"
proof (induction rqs rule: rev_induct)
  case Nil
  then show ?case by (simp add: last_request_def)
next
  case (snoc rq rqs)
  obtain r s' where f: "fold (allocate_step now) rqs (\<lparr>bb_successful = 0, bb_failed = 0, bb_total_amount = 0\<rparr>, s) = (r, s')"
    by (cases "fold (allocate_step now) rqs (\<lparr>bb_successful = 0, bb_failed = 0, bb_total_amount = 0\<rparr>, s)")
  note IH = snoc [unfolded f, simplified]
  have step: "fold (allocate_step now) (rqs @ [rq]) (\<lparr>bb_successful = 0, bb_failed = 0, bb_total_amount = 0\<rparr>, s)
      = allocate_step now rq (r, s')" by (simp add: f)
  show ?case
  proof (cases "brq_amount rq < 0")
    case True
    with IH show ?thesis unfolding step by (auto simp: allocate_step_def emit_def last_request_snoc)
  next
    case False
    have "unwrap_or (checked_add (bb_total_amount r) (brq_amount rq)) i128_max
        = min i128_max (sum_list (map brq_amount (filter (\<lambda>rq. 0 \<le> brq_amount rq) rqs)) + brq_amount rq)"
      using IH False by (auto simp: checked_add_def in_i128_def min_def)
    with IH False show ?thesis unfolding step by (auto simp: allocate_step_def emit_def last_request_snoc Let_def split: option.split)
  qed
qed

definition snapshots_inv :: "allocation_state \<Rightarrow> bool" where
  "snapshots_inv s \<longleftrightarrow> (\<forall>ts u r. al_snapshot s (ts, u) = Some r \<longrightarrow> ts \<in> set (unwrap_or (al_timestamps s) []) \<and> bg_user r = u)
     \<and> (\<forall>u r. al_budget s u = Some r \<longrightarrow> bg_user r = u \<and> 0 \<le> bg_amount r)"

lemma snapshots_inv_step:
  assumes "snapshots_inv s" and "allocation_exec (e, call) s = Inr s'"
  shows "snapshots_inv s'"
proof (cases call)
  case (CInitialize a)
  with assms show ?thesis by (auto simp: initialize_def snapshots_inv_def split: if_splits)
next
  case (CBatch a rqs)
  let ?f = "\<lambda>s. fold (allocate_step (env_timestamp e)) rqs (\<lparr>bb_successful = 0, bb_failed = 0, bb_total_amount = 0\<rparr>, s)"
  have keep: "al_snapshot (snd (fold (allocate_step now) rqs w)) = al_snapshot (snd w)
      \<and> al_timestamps (snd (fold (allocate_step now) rqs w)) = al_timestamps (snd w)" for now rqs w
    by (induction rqs arbitrary: w) (auto simp: allocate_step_def emit_def Let_def split: prod.splits)
  obtain r where f: "?f s = (r, s')"
    using assms(2) CBatch by (auto simp: batch_allocate_budget_def split: sum.splits)
  have pos: "brq_user rq = u \<and> 0 \<le> brq_amount rq" if "last_request u rqs = Some rq" for u rq
  proof -
    let ?l = "rev (filter (\<lambda>rq. brq_user rq = u \<and> 0 \<le> brq_amount rq) rqs)"
    from that obtain ys where "?l = rq # ys" unfolding last_request_def by (cases ?l) auto
    then have "rq \<in> set ?l" by (metis list.set_intros(1))
    then show ?thesis by simp
  qed
  have "al_snapshot s' = al_snapshot s" "al_timestamps s' = al_timestamps s"
    using keep [of "env_timestamp e" rqs "(\<lparr>bb_successful = 0, bb_failed = 0, bb_total_amount = 0\<rparr>, s)"]
    by (simp_all only: f snd_conv)
  moreover have "al_budget s' u = (case last_request u rqs of None \<Rightarrow> al_budget s u
      | Some rq \<Rightarrow> Some \<lparr>bg_user = u, bg_amount = brq_amount rq, bg_last_updated = env_timestamp e\<rparr>)" for u
    using allocate_fold [where now = "env_timestamp e" and rqs = rqs and s = s] by (simp add: f)
  ultimately show ?thesis
    using assms(1) pos unfolding snapshots_inv_def by (auto split: option.splits)
next
  case (CCategories a rq)
  with assms(2) obtain ok where run: "allocate_budget_by_category e a rq s = Inr (ok, s')" by auto
  have keep: "al_snapshot (fold (\<lambda>c. emit (f c)) cs w) = al_snapshot w"
    "al_timestamps (fold (\<lambda>c. emit (f c)) cs w) = al_timestamps w" for f and cs :: "budget_category list" and w
    by (induction cs arbitrary: w) (simp_all add: emit_def)
  have "al_snapshot s' = al_snapshot s" "al_timestamps s' = al_timestamps s"
    using run by (auto simp: allocate_budget_by_category_def Let_def emit_def [of "BudgetAllocated _ _ _"] keep
        split: if_splits sum.splits)
  moreover have "0 \<le> cq_total_amount rq" using allocate_Inr [OF run] by (auto intro!: sum_list_nonneg)
  ultimately show ?thesis using assms(1) allocate_Inr [OF run] by (auto simp: snapshots_inv_def)
next
  case (CSnapshot u)
  with assms show ?thesis by (auto simp: create_budget_snapshot_def snapshots_inv_def Let_def split: option.splits if_splits)
next
  case (CReset u)
  with assms show ?thesis by (auto simp: reset_monthly_budget_def snapshots_inv_def split: option.splits if_splits)
qed

interpretation allocation_machine: contract_invariant allocation_exec snapshots_inv "\<lambda>_. True"
  by unfold_locales (use snapshots_inv_step in auto)

definition allocation_after :: "(env \<times> allocation_call) list \<Rightarrow> allocation_state" where
  "allocation_after calls = run allocation_exec calls allocation_fresh"

lemma allocation_after_inv: "snapshots_inv (allocation_after calls)"
  unfolding allocation_after_def
  by (rule allocation_machine.run_inv) (simp_all add: snapshots_inv_def allocation_fresh_def)

lemma snapshots_loop_set: "set (snapshots_loop s u tss) = {(ts, r). ts \<in> set tss \<and> al_snapshot s (ts, u) = Some r}"
  by (induction tss) (auto split: option.split)

section \<open>Properties\<close>

text \<open>What an allocation by category promises and what the summary then says.  A signed admin's allocation
  that succeeds has no negative amount and the stated total is the sum of all entries.  The summary
  reports that total and, as remaining, the sum of the amounts that the map kept, one per name, which
  lies between zero and the total, so the usage lies between 0 and 100; it is zero when the names are
  different, because nothing records spending: usage comes only from names given twice.\<close>

theorem allocation_summary_spec:
  assumes "allocate_budget_by_category e a rq s = Inr (ok, s')"
  shows "\<exists>sm. env_auth e a \<and> get_admin s = Inr a
    \<and> get_budget_allocation_summary s' (cq_user rq) = Some sm
    \<and> bs_total_allocation sm = cq_total_amount rq \<and> cq_total_amount rq = sum_list (map bc_amount (cq_categories rq))
    \<and> map_option bg_amount (get_budget s' (cq_user rq)) = Some (bs_total_allocation sm)
    \<and> bs_remaining_allocation sm = sum_list (map snd (category_map_of (cq_categories rq)))
    \<and> 0 \<le> bs_remaining_allocation sm \<and> bs_remaining_allocation sm \<le> bs_total_allocation sm
    \<and> 0 \<le> bs_usage_percentage sm \<and> bs_usage_percentage sm \<le> 100
    \<and> (distinct (map bc_name (cq_categories rq)) \<longrightarrow>
         bs_remaining_allocation sm = bs_total_allocation sm \<and> bs_usage_percentage sm = 0)"
proof -
  let ?m = "category_map_of (cq_categories rq)" and ?t = "cq_total_amount rq"
  note a = allocate_Inr [OF assms]
  have p: "map_ok ?m" "\<forall>k v. map_of ?m k = Some v \<longrightarrow> 0 \<le> v" "0 \<le> sum_list (map snd ?m)" "sum_list (map snd ?m) \<le> ?t"
    "distinct (map bc_name (cq_categories rq)) \<longrightarrow> sum_list (map snd ?m) = ?t"
    using category_map_props [of "cq_categories rq"] a by auto
  have "0 \<le> x" if "x \<in> set (map snd ?m)" for x
  proof -
    from that obtain k where "(k, x) \<in> set ?m" by auto
    then show ?thesis using p(2) map_ok_distinct [OF p(1)] by fastforce
  qed
  then have rem: "fold (\<lambda>amount n. unwrap_or (checked_add n amount) i128_max) (map snd ?m) 0 = sum_list (map snd ?m)"
    using saturating_sum [of "map snd ?m" 0] p(4) a by (simp add: in_i128_def)
  define used where "used = ?t - sum_list (map snd ?m)"
  have used: "0 \<le> used" "used \<le> ?t" "saturating_sub ?t (sum_list (map snd ?m)) = used"
    using p(3,4) a by (auto simp: used_def in_i128_def)
  define pct where "pct = (if ?t = 0 then 0 else quot (saturating_mul used 100) ?t)"
  have "0 \<le> pct \<and> pct \<le> 100 \<and> (used = 0 \<longrightarrow> pct = 0)"
  proof (cases "?t = 0")
    case False
    with used have t: "0 < ?t" by simp
    have s: "0 \<le> saturating_mul used 100" "saturating_mul used 100 \<le> used * 100"
      using used(1) by (auto simp: saturating_mul_def)
    have "saturating_mul used 100 div ?t \<le> (used * 100) div ?t" using s(2) t by (rule zdiv_mono1)
    also have "\<dots> \<le> (?t * 100) div ?t" using used(2) t by (intro zdiv_mono1) auto
    finally have "saturating_mul used 100 div ?t \<le> 100" using t by simp
    then show ?thesis
      using s(1) t by (auto simp: pct_def quot_pos pos_imp_zdiv_nonneg_iff saturating_mul_def)
  qed (simp add: pct_def)
  then show ?thesis
    using a p rem used
    by (simp add: get_budget_allocation_summary_def get_admin_def get_budget_def Let_def pct_def [symmetric])
      (auto simp: used_def pct_def)
qed

text \<open>What a batch allocation does.  It succeeds exactly for the signed admin; every request is counted once as
  successful or, when its amount is negative, as failed; the reported total is the sum of the accepted
  amounts, cut at the maximum; and afterwards the budget of every user is the last accepted request of
  the batch for that user, or what it was.\<close>

theorem allocation_batch_spec:
  "case batch_allocate_budget e a rqs s of
     Inl t \<Rightarrow> \<not> (env_auth e a \<and> get_admin s = Inr a)
   | Inr (r, s') \<Rightarrow> env_auth e a \<and> get_admin s = Inr a
      \<and> bb_successful r = length (filter (\<lambda>rq. 0 \<le> brq_amount rq) rqs) \<and> bb_successful r + bb_failed r = length rqs
      \<and> bb_total_amount r = min i128_max (sum_list (map brq_amount (filter (\<lambda>rq. 0 \<le> brq_amount rq) rqs)))
      \<and> get_budget s' = (\<lambda>u. case last_request u rqs of None \<Rightarrow> get_budget s u
           | Some rq \<Rightarrow> Some \<lparr>bg_user = u, bg_amount = brq_amount rq, bg_last_updated = env_timestamp e\<rparr>)"
proof (cases "verify_admin e a s")
  case (Inl t)
  then show ?thesis
    by (auto simp: batch_allocate_budget_def verify_admin_def get_admin_def split: if_splits option.splits)
next
  case (Inr u)
  then have ok: "env_auth e a" "get_admin s = Inr a"
    by (auto simp: verify_admin_def get_admin_def split: if_splits option.splits)
  obtain r s' where f: "fold (allocate_step (env_timestamp e)) rqs (\<lparr>bb_successful = 0, bb_failed = 0, bb_total_amount = 0\<rparr>, s) = (r, s')"
    by fastforce
  then have "batch_allocate_budget e a rqs s = Inr (r, s')" by (simp add: batch_allocate_budget_def Inr)
  moreover have "get_budget w = al_budget w" for w by (simp add: fun_eq_iff get_budget_def)
  ultimately show ?thesis
    using ok allocate_fold [where now = "env_timestamp e" and rqs = rqs and s = s, unfolded f] by (auto simp: fun_eq_iff split: option.split)
qed

text \<open>Snapshots are found again.  After any sequence of calls the list of snapshots of a user has exactly the
  snapshots that can be read back by their time, and each belongs to the user with an amount that is
  not negative in the budget it was taken from; an entry can be listed more than once.\<close>

theorem allocation_snapshots_listed:
  "set (get_all_budget_snapshots (allocation_after calls) u)
     = {(ts, r). get_budget_snapshot (allocation_after calls) u ts = Some r \<and> bg_user r = u}"
  using allocation_after_inv [of calls]
  by (auto simp: get_all_budget_snapshots_def snapshots_loop_set get_budget_snapshot_def snapshots_inv_def)

definition demo_category_request :: category_budget_request where
  "demo_category_request = \<lparr>cq_user = Addr 2, cq_categories = [\<lparr>bc_name = ''food'', bc_amount = 60\<rparr>,
     \<lparr>bc_name = ''rent'', bc_amount = 20\<rparr>, \<lparr>bc_name = ''food'', bc_amount = 20\<rparr>], cq_total_amount = 100\<rparr>"

theorem allocation_summary_spec_witness:
  "\<exists>s' sm. allocate_budget_by_category (signed_env [Addr 1] 1 50 (Addr 8)) (Addr 1) demo_category_request
      (allocation_fresh\<lparr>al_admin := Some (Addr 1)\<rparr>) = Inr (True, s')
    \<and> get_budget_allocation_summary s' (Addr 2) = Some sm \<and> bs_total_allocation sm = 100
    \<and> bs_usage_percentage sm \<le> 100"
proof -
  let ?s = "allocation_fresh\<lparr>al_admin := Some (Addr 1)\<rparr>" and ?e = "signed_env [Addr 1] 1 50 (Addr 8)"
  have "\<exists>s'. allocate_budget_by_category ?e (Addr 1) demo_category_request ?s = Inr (True, s')"
    by (simp add: allocate_budget_by_category_def verify_admin_def demo_category_request_def category_step_def Let_def
        checked_add_def in_i128_def)
  then obtain s' where go: "allocate_budget_by_category ?e (Addr 1) demo_category_request ?s = Inr (True, s')" by blast
  have "cq_user demo_category_request = Addr 2" "cq_total_amount demo_category_request = 100"
    by (simp_all add: demo_category_request_def)
  with allocation_summary_spec [OF go] go show ?thesis by auto
qed

end
