(* ===== verification/Batch_Wallet_Creation.thy ===== *)
theory Batch_Wallet_Creation
  imports Host
begin

text \<open>
  \<open>contracts/batch-wallet-creation/src\<close>: wallets created for owners, and moved to new owners, in batches
  of the admin (\<open>lib.rs\<close>, \<open>types.rs\<close>, \<open>validation.rs\<close>).
\<close>

section \<open>Data (types.rs)\<close>

definition MAX_BATCH_SIZE :: nat where "MAX_BATCH_SIZE = 100"

record wallet_create_request =
  wr_owner :: address

record wallet_recovery_request =
  wv_old_owner :: address
  wv_new_owner :: address

datatype wallet_create_result =
    CreateSuccess address
  | CreateFailure address nat

datatype wallet_recovery_result =
    RecoverySuccess address address
  | RecoveryFailure address address nat

record batch_create_result =
  wcr_total_requests :: nat
  wcr_successful :: nat
  wcr_failed :: nat
  wcr_results :: "wallet_create_result list"

record batch_recovery_result =
  wrr_total_requests :: nat
  wrr_successful :: nat
  wrr_failed :: nat
  wrr_results :: "wallet_recovery_result list"

record wallet =
  w_id :: nat
  w_owner :: address
  w_created_at :: nat

datatype batch_wallet_error =
    NotInitialized | Unauthorized | InvalidBatch | EmptyBatch | BatchTooLarge | DuplicateWallet

datatype wallet_event =
    BatchStarted nat nat
  | WalletCreated nat address nat nat
  | WalletCreationFailure nat address nat
  | BatchCompleted nat nat nat
  | RecoveryStarted nat nat
  | WalletRecovered nat address address nat
  | WalletRecoveryFailure nat address address nat
  | RecoveryCompleted nat nat nat

record wallets_state =
  ws_admin :: "address option"
  ws_total_batches :: "nat option"
  ws_total_created :: "nat option"
  ws_wallet :: "address \<rightharpoonup> wallet"
  ws_events :: "wallet_event list"

definition wallets_fresh :: wallets_state where
  "wallets_fresh = \<lparr>ws_admin = None, ws_total_batches = None, ws_total_created = None, ws_wallet = Map.empty, ws_events = []\<rparr>"

definition emit :: "wallet_event \<Rightarrow> wallets_state \<Rightarrow> wallets_state" where
  "emit ev s = s\<lparr>ws_events := ws_events s @ [ev]\<rparr>"

type_synonym 'a wallets_outcome = "(wallets_state, batch_wallet_error, 'a) outcome"

section \<open>Validation (validation.rs)\<close>

definition validate_address :: "address \<Rightarrow> unit + unit" where
  "validate_address a = Inr ()"

definition wallet_exists :: "wallets_state \<Rightarrow> address \<Rightarrow> bool" where
  "wallet_exists s a \<longleftrightarrow> ws_wallet s a \<noteq> None"

text \<open>The two nested loops over the requests: the first owner that comes again later.\<close>

fun check_batch_duplicates :: "wallet_create_request list \<Rightarrow> address + unit" where
  "check_batch_duplicates [] = Inr ()"
| "check_batch_duplicates (rq # rqs) =
    (if list_ex (\<lambda>rj. wr_owner rq = wr_owner rj) rqs then Inl (wr_owner rq) else check_batch_duplicates rqs)"

section \<open>Entry points (lib.rs)\<close>

definition initialize :: "address \<Rightarrow> wallets_state \<Rightarrow> unit wallets_outcome" where
  "initialize admin s =
    (if ws_admin s \<noteq> None then Inl PanicTrap else
     Inr ((), s\<lparr>ws_admin := Some admin, ws_total_batches := Some 0, ws_total_created := Some 0\<rparr>))"

definition require_admin :: "address \<Rightarrow> wallets_state \<Rightarrow> batch_wallet_error trap + unit" where
  "require_admin caller s =
    (case ws_admin s of None \<Rightarrow> Inl PanicTrap | Some admin \<Rightarrow>
     if caller \<noteq> admin then Inl (ContractError Unauthorized) else Inr ())"

text \<open>The local variables of the creation loop, with the state; the identifiers are plain \<open>u64\<close> sums.\<close>

record create_pass =
  cp_state :: wallets_state
  cp_next :: nat
  cp_results :: "wallet_create_result list"
  cp_ok :: nat
  cp_failed :: nat

definition create_failure :: "nat \<Rightarrow> address \<Rightarrow> nat \<Rightarrow> create_pass \<Rightarrow> create_pass" where
  "create_failure batch_id owner error_code st =
     st\<lparr>cp_results := cp_results st @ [CreateFailure owner error_code], cp_failed := cp_failed st + 1,
        cp_state := emit (WalletCreationFailure batch_id owner error_code) (cp_state st)\<rparr>"

definition create_step :: "env \<Rightarrow> nat \<Rightarrow> wallet_create_request \<Rightarrow> create_pass \<Rightarrow> batch_wallet_error trap + create_pass" where
  "create_step e batch_id request st =
    (let owner = wr_owner request; s = cp_state st in
     case validate_address owner of Inl _ \<Rightarrow> Inr (create_failure batch_id owner 0 st) | Inr _ \<Rightarrow>
     if wallet_exists s owner then Inr (create_failure batch_id owner 1 st) else
     let wallet = \<lparr>w_id = cp_next st, w_owner = owner, w_created_at = env_timestamp e\<rparr>;
         s1 = s\<lparr>ws_wallet := (ws_wallet s)(owner \<mapsto> wallet)\<rparr> in
     case u64_add (cp_next st) 1 of None \<Rightarrow> Inl ArithTrap | Some next_wallet_id \<Rightarrow>
     Inr (st\<lparr>cp_state := emit (WalletCreated batch_id owner (w_id wallet) (w_created_at wallet)) s1,
             cp_next := next_wallet_id, cp_results := cp_results st @ [CreateSuccess owner], cp_ok := cp_ok st + 1\<rparr>))"

definition batch_create_wallets :: "env \<Rightarrow> address \<Rightarrow> wallet_create_request list \<Rightarrow> wallets_state
    \<Rightarrow> batch_create_result wallets_outcome" where
  "batch_create_wallets e caller requests s =
    (if \<not> env_auth e caller then Inl AuthTrap else
     case require_admin caller s of Inl t \<Rightarrow> Inl t | Inr _ \<Rightarrow>
     let request_count = length requests in
     if request_count = 0 then Inl (ContractError EmptyBatch) else
     if request_count > MAX_BATCH_SIZE then Inl (ContractError BatchTooLarge) else
     case check_batch_duplicates requests of Inl _ \<Rightarrow> Inl (ContractError DuplicateWallet) | Inr _ \<Rightarrow>
     case u64_add (unwrap_or (ws_total_batches s) 0) 1 of None \<Rightarrow> Inl ArithTrap | Some batch_id \<Rightarrow>
     let s1 = emit (BatchStarted batch_id request_count) s in
     case u64_add (unwrap_or (ws_total_created s1) 0) 1 of None \<Rightarrow> Inl ArithTrap | Some next_wallet_id \<Rightarrow>
     case fold_trap (create_step e batch_id) requests
            \<lparr>cp_state = s1, cp_next = next_wallet_id, cp_results = [], cp_ok = 0, cp_failed = 0\<rparr> of
       Inl t \<Rightarrow> Inl t
     | Inr st \<Rightarrow>
       let s2 = cp_state st in
       case u64_add (unwrap_or (ws_total_batches s2) 0) 1 of None \<Rightarrow> Inl ArithTrap | Some total_batches \<Rightarrow>
       case u64_add (unwrap_or (ws_total_created s2) 0) (cp_ok st) of None \<Rightarrow> Inl ArithTrap | Some total_created \<Rightarrow>
       let s3 = s2\<lparr>ws_total_batches := Some total_batches, ws_total_created := Some total_created\<rparr>
       in Inr (\<lparr>wcr_total_requests = request_count, wcr_successful = cp_ok st, wcr_failed = cp_failed st,
                 wcr_results = cp_results st\<rparr>, emit (BatchCompleted batch_id (cp_ok st) (cp_failed st)) s3))"

record recover_pass =
  vp_state :: wallets_state
  vp_results :: "wallet_recovery_result list"
  vp_ok :: nat
  vp_failed :: nat

definition recover_failure :: "nat \<Rightarrow> wallet_recovery_request \<Rightarrow> nat \<Rightarrow> recover_pass \<Rightarrow> recover_pass" where
  "recover_failure batch_id rq error_code st =
     st\<lparr>vp_results := vp_results st @ [RecoveryFailure (wv_old_owner rq) (wv_new_owner rq) error_code],
        vp_failed := vp_failed st + 1,
        vp_state := emit (WalletRecoveryFailure batch_id (wv_old_owner rq) (wv_new_owner rq) error_code) (vp_state st)\<rparr>"

definition recover_step :: "nat \<Rightarrow> wallet_recovery_request \<Rightarrow> recover_pass \<Rightarrow> recover_pass" where
  "recover_step batch_id rq st =
    (let old_owner = wv_old_owner rq; new_owner = wv_new_owner rq; s = vp_state st in
     if validate_address old_owner \<noteq> Inr () \<or> validate_address new_owner \<noteq> Inr () then recover_failure batch_id rq 0 st else
     case ws_wallet s old_owner of None \<Rightarrow> recover_failure batch_id rq 1 st | Some found \<Rightarrow>
     if wallet_exists s new_owner then recover_failure batch_id rq 2 st else
     let wallet = found\<lparr>w_owner := new_owner\<rparr>;
         s1 = s\<lparr>ws_wallet := (ws_wallet s)(new_owner \<mapsto> wallet)\<rparr>;
         s2 = s1\<lparr>ws_wallet := (ws_wallet s1)(old_owner := None)\<rparr>
     in st\<lparr>vp_state := emit (WalletRecovered batch_id old_owner new_owner (w_id wallet)) s2,
           vp_results := vp_results st @ [RecoverySuccess old_owner new_owner], vp_ok := vp_ok st + 1\<rparr>)"

definition batch_recover_wallets :: "env \<Rightarrow> address \<Rightarrow> wallet_recovery_request list \<Rightarrow> wallets_state
    \<Rightarrow> batch_recovery_result wallets_outcome" where
  "batch_recover_wallets e caller requests s =
    (if \<not> env_auth e caller then Inl AuthTrap else
     case require_admin caller s of Inl t \<Rightarrow> Inl t | Inr _ \<Rightarrow>
     let request_count = length requests in
     if request_count = 0 then Inl (ContractError EmptyBatch) else
     if request_count > MAX_BATCH_SIZE then Inl (ContractError BatchTooLarge) else
     case u64_add (unwrap_or (ws_total_batches s) 0) 1 of None \<Rightarrow> Inl ArithTrap | Some batch_id \<Rightarrow>
     let s1 = emit (RecoveryStarted batch_id request_count) s;
         st = fold (recover_step batch_id) requests \<lparr>vp_state = s1, vp_results = [], vp_ok = 0, vp_failed = 0\<rparr>;
         s2 = vp_state st in
     case u64_add (unwrap_or (ws_total_batches s2) 0) 1 of None \<Rightarrow> Inl ArithTrap | Some total_batches \<Rightarrow>
     let s3 = s2\<lparr>ws_total_batches := Some total_batches\<rparr>
     in Inr (\<lparr>wrr_total_requests = request_count, wrr_successful = vp_ok st, wrr_failed = vp_failed st,
               wrr_results = vp_results st\<rparr>, emit (RecoveryCompleted batch_id (vp_ok st) (vp_failed st)) s3))"

definition get_admin :: "wallets_state \<Rightarrow> batch_wallet_error trap + address" where
  "get_admin s = (case ws_admin s of None \<Rightarrow> Inl PanicTrap | Some a \<Rightarrow> Inr a)"

definition set_admin :: "env \<Rightarrow> address \<Rightarrow> address \<Rightarrow> wallets_state \<Rightarrow> unit wallets_outcome" where
  "set_admin e current_admin new_admin s =
    (if \<not> env_auth e current_admin then Inl AuthTrap else
     case require_admin current_admin s of Inl t \<Rightarrow> Inl t | Inr _ \<Rightarrow> Inr ((), s\<lparr>ws_admin := Some new_admin\<rparr>))"

definition get_total_batches :: "wallets_state \<Rightarrow> nat" where
  "get_total_batches s = unwrap_or (ws_total_batches s) 0"

definition get_total_wallets_created :: "wallets_state \<Rightarrow> nat" where
  "get_total_wallets_created s = unwrap_or (ws_total_created s) 0"

definition get_wallet :: "wallets_state \<Rightarrow> address \<Rightarrow> wallet option" where
  "get_wallet s a = ws_wallet s a"

datatype wallets_call =
    CInitialize address
  | CCreate address "wallet_create_request list"
  | CRecover address "wallet_recovery_request list"
  | CSetAdmin address address

fun wallets_exec :: "env \<times> wallets_call \<Rightarrow> wallets_state \<Rightarrow> batch_wallet_error trap + wallets_state" where
  "wallets_exec (e, CInitialize a) s = final (initialize a s)"
| "wallets_exec (e, CCreate a rqs) s = final (batch_create_wallets e a rqs s)"
| "wallets_exec (e, CRecover a rqs) s = final (batch_recover_wallets e a rqs s)"
| "wallets_exec (e, CSetAdmin a b) s = final (set_admin e a b s)"

section \<open>The wallets\<close>

text \<open>A numbering: every wallet lies under its owner, and the identifiers are exactly \<open>1\<close> to \<open>n\<close>, once each.\<close>

definition numbered :: "(address \<rightharpoonup> wallet) \<Rightarrow> nat \<Rightarrow> bool" where
  "numbered m n \<longleftrightarrow> (\<forall>a w. m a = Some w \<longrightarrow> w_owner w = a)
     \<and> (\<lambda>a. w_id (the (m a))) ` dom m = {1 .. n} \<and> inj_on (\<lambda>a. w_id (the (m a))) (dom m)"

lemma insert_image_Diff: "a \<in> A \<Longrightarrow> insert (f a) (f ` (A - {a})) = f ` A"
  by auto

lemma inj_on_rest: "inj_on f A \<Longrightarrow> a \<in> A \<Longrightarrow> f a \<notin> f ` (A - {a})"
  by (auto dest: inj_onD)

lemma numbered_add:
  assumes "numbered m n" and "m a = None" and "w_owner w = a" and "w_id w = Suc n"
  shows "numbered (m(a \<mapsto> w)) (Suc n)"
proof -
  let ?f = "\<lambda>m a. w_id (the ((m :: address \<rightharpoonup> wallet) a))"
  have eq: "?f (m(a \<mapsto> w)) ` dom m = ?f m ` dom m" "inj_on (?f (m(a \<mapsto> w))) (dom m) = inj_on (?f m) (dom m)"
    using assms(2) by (auto intro!: image_cong inj_on_cong)
  have "?f (m(a \<mapsto> w)) ` dom (m(a \<mapsto> w)) = insert (Suc n) (?f m ` dom m)"
    using assms(4) eq(1) by simp
  also have "\<dots> = {1 .. Suc n}" using assms(1) by (auto simp: numbered_def)
  finally have img: "?f (m(a \<mapsto> w)) ` dom (m(a \<mapsto> w)) = {1 .. Suc n}" .
  have "Suc n \<notin> ?f m ` dom m" using assms(1) by (auto simp: numbered_def)
  then have "Suc n \<notin> ?f (m(a \<mapsto> w)) ` (dom m - {a})" unfolding eq(1) [symmetric] by blast
  then have "?f (m(a \<mapsto> w)) a \<notin> ?f (m(a \<mapsto> w)) ` (dom m - {a})" using assms(4) by simp
  then have "inj_on (?f (m(a \<mapsto> w))) (insert a (dom m))"
    using assms(1) by (simp only: inj_on_insert eq(2) numbered_def simp_thms)
  with img assms show ?thesis by (auto simp: numbered_def)
qed

lemma numbered_move:
  assumes "numbered m n" and "m a = Some w" and "m b = None"
  shows "numbered (m(b \<mapsto> w\<lparr>w_owner := b\<rparr>, a := None)) n"
proof -
  let ?m = "m(b \<mapsto> w\<lparr>w_owner := b\<rparr>, a := None)" and ?f = "\<lambda>m a. w_id (the ((m :: address \<rightharpoonup> wallet) a))"
  have ab: "a \<noteq> b" using assms(2,3) by auto
  have dom: "dom ?m = insert b (dom m - {a})" using ab by auto
  have eq: "?f ?m c = ?f m c" if "c \<in> dom m - {a}" for c using that assms(3) by auto
  have b: "?f ?m b = ?f m a" using ab assms(2) by simp
  have "?f ?m ` dom ?m = insert (?f m a) (?f m ` (dom m - {a}))"
    unfolding dom using b eq by (auto intro!: image_cong)
  also have "\<dots> = ?f m ` dom m" by (rule insert_image_Diff) (use assms(2) in auto)
  finally have img: "?f ?m ` dom ?m = ?f m ` dom m" .
  have inj: "inj_on (?f m) (dom m)" using assms(1) by (simp add: numbered_def)
  then have "inj_on (?f m) (dom m - {a})" by (rule inj_on_diff)
  then have "inj_on (?f ?m) (dom m - {a})" using inj_on_cong [of "dom m - {a}" "?f ?m" "?f m", OF eq] by blast
  moreover have "?f m a \<notin> ?f m ` (dom m - {a})" by (rule inj_on_rest [OF inj]) (use assms(2) in auto)
  moreover have "b \<notin> dom m - {a}" using assms(3) by auto
  ultimately have "inj_on (?f ?m) (insert b (dom m - {a}))"
    using b eq by (auto simp: image_iff)
  with img assms(1) dom show ?thesis by (auto simp: numbered_def)
qed

lemma create_step_numbered:
  assumes "create_step e k rq st = Inr st'" and "numbered (ws_wallet (cp_state st)) m" and "cp_next st = Suc m"
  shows "\<exists>n. numbered (ws_wallet (cp_state st')) n \<and> cp_next st' = Suc n \<and> n + cp_ok st = m + cp_ok st'
    \<and> cp_ok st' + cp_failed st' = cp_ok st + cp_failed st + 1
    \<and> ws_admin (cp_state st') = ws_admin (cp_state st) \<and> ws_total_created (cp_state st') = ws_total_created (cp_state st)"
proof (cases "wallet_exists (cp_state st) (wr_owner rq)")
  case True
  with assms show ?thesis by (auto simp: create_step_def validate_address_def create_failure_def emit_def Let_def)
next
  case False
  with assms show ?thesis
    by (auto simp: create_step_def validate_address_def emit_def wallet_exists_def Let_def
        split: option.splits intro!: exI [of _ "Suc m"] numbered_add)
qed

lemma create_loop_numbered:
  assumes "fold_trap (create_step e k) rqs st = Inr st'" and "numbered (ws_wallet (cp_state st)) m" and "cp_next st = Suc m"
  shows "numbered (ws_wallet (cp_state st')) (m + cp_ok st' - cp_ok st) \<and> cp_ok st \<le> cp_ok st'
    \<and> cp_ok st' + cp_failed st' = cp_ok st + cp_failed st + length rqs
    \<and> ws_admin (cp_state st') = ws_admin (cp_state st) \<and> ws_total_created (cp_state st') = ws_total_created (cp_state st)"
  using assms
proof (induction rqs arbitrary: st m)
  case (Cons rq rqs)
  from Cons.prems(1) obtain st1 where step: "create_step e k rq st = Inr st1"
    and rest: "fold_trap (create_step e k) rqs st1 = Inr st'" by (auto split: sum.splits)
  from create_step_numbered [OF step Cons.prems(2,3)] obtain n where
    n: "numbered (ws_wallet (cp_state st1)) n" "cp_next st1 = Suc n" "n + cp_ok st = m + cp_ok st1"
      "cp_ok st1 + cp_failed st1 = cp_ok st + cp_failed st + 1"
      "ws_admin (cp_state st1) = ws_admin (cp_state st)" "ws_total_created (cp_state st1) = ws_total_created (cp_state st)" by blast
  have "cp_ok st \<le> cp_ok st1"
    using step by (auto simp: create_step_def create_failure_def validate_address_def Let_def split: if_splits option.splits)
  moreover have "m + cp_ok st' - cp_ok st = n + cp_ok st' - cp_ok st1" if "cp_ok st1 \<le> cp_ok st'"
    using n(3) that \<open>cp_ok st \<le> cp_ok st1\<close> by linarith
  ultimately show ?case using Cons.IH [OF rest n(1,2)] n(4-6) by auto
qed simp

lemma recover_loop_numbered:
  assumes "numbered (ws_wallet (vp_state st)) n"
  shows "numbered (ws_wallet (vp_state (fold (recover_step k) rqs st))) n
    \<and> ws_admin (vp_state (fold (recover_step k) rqs st)) = ws_admin (vp_state st)
    \<and> ws_total_created (vp_state (fold (recover_step k) rqs st)) = ws_total_created (vp_state st)
    \<and> vp_ok (fold (recover_step k) rqs st) + vp_failed (fold (recover_step k) rqs st) = vp_ok st + vp_failed st + length rqs"
  using assms
proof (induction rqs arbitrary: st)
  case (Cons rq rqs)
  let ?st = "recover_step k rq st"
  have "numbered (ws_wallet (vp_state ?st)) n \<and> ws_admin (vp_state ?st) = ws_admin (vp_state st)
    \<and> ws_total_created (vp_state ?st) = ws_total_created (vp_state st)
    \<and> vp_ok ?st + vp_failed ?st = vp_ok st + vp_failed st + 1"
    using Cons.prems numbered_move [OF Cons.prems, of "wv_old_owner rq" _ "wv_new_owner rq"]
    by (auto simp: recover_step_def recover_failure_def validate_address_def wallet_exists_def emit_def Let_def split: option.split)
  with Cons.IH [of ?st] show ?case by simp
qed simp

definition wallets_inv :: "wallets_state \<Rightarrow> bool" where
  "wallets_inv s \<longleftrightarrow> numbered (ws_wallet s) (get_total_wallets_created s)
     \<and> (ws_admin s = None \<longrightarrow> ws_wallet s = Map.empty \<and> get_total_wallets_created s = 0)"

lemma wallets_create_Inr:
  assumes "batch_create_wallets e a rqs s = Inr (r, s')" and "wallets_inv s"
  shows "env_auth e a \<and> ws_admin s = Some a \<and> wallets_inv s' \<and> ws_admin s' = Some a
    \<and> get_total_wallets_created s' = get_total_wallets_created s + wcr_successful r
    \<and> wcr_successful r + wcr_failed r = length rqs"
proof -
  from assms(1) obtain st where pre: "env_auth e a" "ws_admin s = Some a"
    and loop: "fold_trap (create_step e (Suc (get_total_batches s))) rqs
       \<lparr>cp_state = emit (BatchStarted (Suc (get_total_batches s)) (length rqs)) s, cp_next = Suc (get_total_wallets_created s),
        cp_results = [], cp_ok = 0, cp_failed = 0\<rparr> = Inr st"
    and out: "wcr_successful r = cp_ok st" "wcr_failed r = cp_failed st" "ws_wallet s' = ws_wallet (cp_state st)"
      "ws_admin s' = ws_admin (cp_state st)" "ws_total_created s' = Some (unwrap_or (ws_total_created (cp_state st)) 0 + cp_ok st)"
    by (auto simp: batch_create_wallets_def require_admin_def get_total_batches_def get_total_wallets_created_def Let_def
        emit_def split: if_splits option.splits sum.splits)
  have "numbered (ws_wallet s) (get_total_wallets_created s)" using assms(2) by (simp add: wallets_inv_def)
  with create_loop_numbered [OF loop, of "get_total_wallets_created s"] pre out show ?thesis
    by (simp add: wallets_inv_def emit_def get_total_wallets_created_def)
qed

lemma wallets_recover_Inr:
  assumes "batch_recover_wallets e a rqs s = Inr (r, s')" and "wallets_inv s"
  shows "env_auth e a \<and> ws_admin s = Some a \<and> wallets_inv s' \<and> ws_admin s' = Some a
    \<and> get_total_wallets_created s' = get_total_wallets_created s \<and> wrr_successful r + wrr_failed r = length rqs"
proof -
  let ?k = "Suc (get_total_batches s)"
  let ?st = "fold (recover_step ?k) rqs \<lparr>vp_state = emit (RecoveryStarted ?k (length rqs)) s, vp_results = [], vp_ok = 0, vp_failed = 0\<rparr>"
  from assms(1) have out: "env_auth e a" "ws_admin s = Some a" "ws_wallet s' = ws_wallet (vp_state ?st)"
    "ws_admin s' = ws_admin (vp_state ?st)" "ws_total_created s' = ws_total_created (vp_state ?st)"
    "wrr_successful r = vp_ok ?st" "wrr_failed r = vp_failed ?st"
    by (auto simp: batch_recover_wallets_def require_admin_def get_total_batches_def Let_def emit_def [of "RecoveryCompleted _ _ _"]
        split: if_splits option.splits sum.splits)
  have "numbered (ws_wallet s) (get_total_wallets_created s)" using assms(2) by (simp add: wallets_inv_def)
  with recover_loop_numbered [where k = ?k and rqs = rqs and n = "get_total_wallets_created s"
      and st = "\<lparr>vp_state = emit (RecoveryStarted ?k (length rqs)) s, vp_results = [], vp_ok = 0, vp_failed = 0\<rparr>"] out
  show ?thesis by (simp add: wallets_inv_def emit_def [of "RecoveryStarted _ _"] get_total_wallets_created_def)
qed

lemma wallets_exec_inv:
  assumes "wallets_inv s" and "wallets_exec (e, call) s = Inr s'"
  shows "wallets_inv s'"
proof (cases call)
  case (CInitialize a)
  with assms show ?thesis by (auto simp: initialize_def wallets_inv_def get_total_wallets_created_def split: if_splits)
next
  case (CCreate a rqs)
  with assms wallets_create_Inr show ?thesis by auto
next
  case (CRecover a rqs)
  with assms wallets_recover_Inr show ?thesis by auto
next
  case (CSetAdmin a b)
  with assms show ?thesis
    by (auto simp: set_admin_def require_admin_def wallets_inv_def get_total_wallets_created_def split: if_splits option.splits sum.splits)
qed

interpretation wallets_machine: contract_invariant wallets_exec wallets_inv "\<lambda>_. True"
  by unfold_locales (use wallets_exec_inv in auto)

definition wallets_after :: "(env \<times> wallets_call) list \<Rightarrow> wallets_state" where
  "wallets_after calls = run wallets_exec calls wallets_fresh"

lemma wallets_after_inv: "wallets_inv (wallets_after calls)"
  unfolding wallets_after_def
  by (rule wallets_machine.run_inv) (simp_all add: wallets_inv_def wallets_fresh_def numbered_def get_total_wallets_created_def)

section \<open>Properties\<close>

text \<open>Wallets are numbered without gaps and never lost.  After any sequence of batches of creations and
  recoveries there are exactly as many wallets as the published number of wallets created, their
  identifiers are 1 to that number, each once, and every wallet lies under the address it names as
  its owner: a recovery only moves a wallet.\<close>

theorem wallets_numbered:
  "(let s = wallets_after calls; n = get_total_wallets_created s in
      card (dom (get_wallet s)) = n
      \<and> bij_betw (\<lambda>a. w_id (the (get_wallet s a))) (dom (get_wallet s)) {1 .. n}
      \<and> dom (get_wallet s) = {a. \<exists>w. get_wallet s a = Some w \<and> w_owner w = a})"
proof -
  define s where "s = wallets_after calls"
  have n: "numbered (get_wallet s) (get_total_wallets_created s)"
    using wallets_after_inv [of calls] by (simp add: s_def wallets_inv_def get_wallet_def [abs_def])
  then have bij: "bij_betw (\<lambda>a. w_id (the (get_wallet s a))) (dom (get_wallet s)) {1 .. get_total_wallets_created s}"
    by (simp add: numbered_def bij_betw_def)
  have "card (dom (get_wallet s)) = get_total_wallets_created s" using bij_betw_same_card [OF bij] by simp
  with n bij show ?thesis by (auto simp: s_def [symmetric] Let_def numbered_def)
qed

end
