(* ===== verification/Batch_Conversion.thy ===== *)
theory Batch_Conversion
  imports Host
begin

text \<open>
  \<open>contracts/batch-conversion/src\<close>: batches of currency conversions (\<open>lib.rs\<close>, \<open>types.rs\<close>,
  \<open>validation.rs\<close>).  The contract only reads balances: the conversion itself is a placeholder in the
  source, so a batch cannot touch a ledger, and the token is the single parameter \<open>bal\<close>, the balance
  an account has with a token contract.
\<close>

section \<open>Data (types.rs)\<close>

definition MAX_BATCH_SIZE :: nat where "MAX_BATCH_SIZE = 100"

record conversion_request =
  cv_user :: address
  cv_from_asset :: address
  cv_to_asset :: address
  cv_amount_in :: int
  cv_min_amount_out :: int

datatype conversion_result =
    ConversionSuccess address address address int int
  | ConversionFailure address address address int nat

record batch_conversion_result =
  cvr_total_requests :: nat
  cvr_successful :: nat
  cvr_failed :: nat
  cvr_total_converted :: int
  cvr_results :: "conversion_result list"

datatype batch_conversion_error =
    NotInitialized | Unauthorized | InvalidBatch | EmptyBatch | BatchTooLarge | InvalidAsset
  | InsufficientBalance | SlippageExceeded

datatype conversion_event =
    BatchStarted nat nat
  | ConversionSucceeded nat address address address int int
  | ConversionFailed nat address address address int nat
  | BatchCompleted nat nat nat int

record conversion_state =
  cs_admin :: "address option"
  cs_total_batches :: "nat option"
  cs_total_processed :: "nat option"
  cs_total_volume :: "int option"
  cs_events :: "conversion_event list"

definition conversion_fresh :: conversion_state where
  "conversion_fresh = \<lparr>cs_admin = None, cs_total_batches = None, cs_total_processed = None, cs_total_volume = None,
     cs_events = []\<rparr>"

definition emit :: "conversion_event \<Rightarrow> conversion_state \<Rightarrow> conversion_state" where
  "emit ev s = s\<lparr>cs_events := cs_events s @ [ev]\<rparr>"

type_synonym 'a conversion_outcome = "(conversion_state, batch_conversion_error, 'a) outcome"

section \<open>Validation (validation.rs)\<close>

datatype validation_error = BadAddress | BadAmount | BadMinOutput | SameAsset

definition validate_address :: "address \<Rightarrow> validation_error + unit" where
  "validate_address a = Inr ()"

definition validate_amount :: "int \<Rightarrow> validation_error + unit" where
  "validate_amount amount = (if amount \<le> 0 then Inl BadAmount else Inr ())"

definition validate_min_output :: "int \<Rightarrow> validation_error + unit" where
  "validate_min_output min_amount_out = (if min_amount_out \<le> 0 then Inl BadMinOutput else Inr ())"

definition validate_asset_pair :: "address \<Rightarrow> address \<Rightarrow> validation_error + unit" where
  "validate_asset_pair from_asset to_asset = (if from_asset = to_asset then Inl SameAsset else Inr ())"

section \<open>Entry points (lib.rs)\<close>

definition initialize :: "address \<Rightarrow> conversion_state \<Rightarrow> unit conversion_outcome" where
  "initialize admin s =
    (if cs_admin s \<noteq> None then Inl PanicTrap else
     Inr ((), s\<lparr>cs_admin := Some admin, cs_total_batches := Some 0, cs_total_processed := Some 0, cs_total_volume := Some 0\<rparr>))"

text \<open>The first pass: a request with its validity and its error code.\<close>

definition validated :: "conversion_request \<Rightarrow> conversion_request \<times> bool \<times> nat" where
  "validated request =
    (case validate_address (cv_user request) of Inl _ \<Rightarrow> (request, False, 0) | Inr _ \<Rightarrow>
     case validate_address (cv_from_asset request) of Inl _ \<Rightarrow> (request, False, 1) | Inr _ \<Rightarrow>
     case validate_address (cv_to_asset request) of Inl _ \<Rightarrow> (request, False, 2) | Inr _ \<Rightarrow>
     case validate_amount (cv_amount_in request) of Inl _ \<Rightarrow> (request, False, 3) | Inr _ \<Rightarrow>
     case validate_min_output (cv_min_amount_out request) of Inl _ \<Rightarrow> (request, False, 4) | Inr _ \<Rightarrow>
     case validate_asset_pair (cv_from_asset request) (cv_to_asset request) of Inl _ \<Rightarrow> (request, False, 5) | Inr _ \<Rightarrow>
     (request, True, 0))"

text \<open>\<open>Inr (Inl code)\<close> is the error code of a failed conversion; the outer error is the host's.\<close>

definition execute_conversion :: "(address \<Rightarrow> address \<Rightarrow> int) \<Rightarrow> env \<Rightarrow> conversion_request
    \<Rightarrow> batch_conversion_error trap + (nat + int)" where
  "execute_conversion bal e request =
    (let user_balance = bal (cv_from_asset request) (cv_user request) in
     if user_balance < cv_amount_in request then Inr (Inl 6) else
     let amount_out = cv_min_amount_out request in
     if \<not> env_auth e (cv_user request) then Inl AuthTrap else Inr (Inr amount_out))"

record conversion_pass =
  vs_state :: conversion_state
  vs_results :: "conversion_result list"
  vs_ok :: nat
  vs_failed :: nat
  vs_total :: int

definition conversion_failure :: "nat \<Rightarrow> conversion_request \<Rightarrow> nat \<Rightarrow> conversion_pass \<Rightarrow> conversion_pass" where
  "conversion_failure batch_id rq code st =
     st\<lparr>vs_results := vs_results st @ [ConversionFailure (cv_user rq) (cv_from_asset rq) (cv_to_asset rq) (cv_amount_in rq) code],
        vs_failed := vs_failed st + 1,
        vs_state := emit (ConversionFailed batch_id (cv_user rq) (cv_from_asset rq) (cv_to_asset rq) (cv_amount_in rq) code)
          (vs_state st)\<rparr>"

definition conversion_step :: "(address \<Rightarrow> address \<Rightarrow> int) \<Rightarrow> env \<Rightarrow> nat \<Rightarrow> conversion_request \<times> bool \<times> nat
    \<Rightarrow> conversion_pass \<Rightarrow> batch_conversion_error trap + conversion_pass" where
  "conversion_step bal e batch_id item st = (case item of (rq, is_valid, code) \<Rightarrow>
     if \<not> is_valid then Inr (conversion_failure batch_id rq code st) else
     case execute_conversion bal e rq of
       Inl t \<Rightarrow> Inl t
     | Inr (Inr amount_out) \<Rightarrow>
         Inr (st\<lparr>vs_results := vs_results st
                   @ [ConversionSuccess (cv_user rq) (cv_from_asset rq) (cv_to_asset rq) (cv_amount_in rq) amount_out],
                 vs_ok := vs_ok st + 1,
                 vs_total := unwrap_or (checked_add (vs_total st) (cv_amount_in rq)) (vs_total st),
                 vs_state := emit (ConversionSucceeded batch_id (cv_user rq) (cv_from_asset rq) (cv_to_asset rq)
                   (cv_amount_in rq) amount_out) (vs_state st)\<rparr>)
     | Inr (Inl error_code) \<Rightarrow> Inr (conversion_failure batch_id rq error_code st))"

definition batch_convert_currency :: "(address \<Rightarrow> address \<Rightarrow> int) \<Rightarrow> env \<Rightarrow> conversion_request list \<Rightarrow> conversion_state
    \<Rightarrow> batch_conversion_result conversion_outcome" where
  "batch_convert_currency bal e conversions s =
    (let request_count = length conversions in
     if request_count = 0 then Inl (ContractError EmptyBatch) else
     if request_count > MAX_BATCH_SIZE then Inl (ContractError BatchTooLarge) else
     case u64_add (unwrap_or (cs_total_batches s) 0) 1 of None \<Rightarrow> Inl ArithTrap | Some batch_id \<Rightarrow>
     let s1 = emit (BatchStarted batch_id request_count) s in
     case fold_trap (conversion_step bal e batch_id) (map validated conversions)
            \<lparr>vs_state = s1, vs_results = [], vs_ok = 0, vs_failed = 0, vs_total = 0\<rparr> of
       Inl t \<Rightarrow> Inl t
     | Inr st \<Rightarrow>
       let s2 = vs_state st in
       case u64_add (unwrap_or (cs_total_batches s2) 0) 1 of None \<Rightarrow> Inl ArithTrap | Some total_batches \<Rightarrow>
       case u64_add (unwrap_or (cs_total_processed s2) 0) request_count of None \<Rightarrow> Inl ArithTrap | Some total_processed \<Rightarrow>
       let volume = unwrap_or (checked_add (vs_total st) (unwrap_or (cs_total_volume s2) 0)) i128_max;
           s3 = s2\<lparr>cs_total_batches := Some total_batches, cs_total_processed := Some total_processed,
                   cs_total_volume := Some volume\<rparr>
       in Inr (\<lparr>cvr_total_requests = request_count, cvr_successful = vs_ok st, cvr_failed = vs_failed st,
                 cvr_total_converted = vs_total st, cvr_results = vs_results st\<rparr>,
               emit (BatchCompleted batch_id (vs_ok st) (vs_failed st) (vs_total st)) s3))"

definition get_total_batches :: "conversion_state \<Rightarrow> nat" where
  "get_total_batches s = unwrap_or (cs_total_batches s) 0"

definition get_total_conversions_processed :: "conversion_state \<Rightarrow> nat" where
  "get_total_conversions_processed s = unwrap_or (cs_total_processed s) 0"

definition get_total_volume_converted :: "conversion_state \<Rightarrow> int" where
  "get_total_volume_converted s = unwrap_or (cs_total_volume s) 0"

section \<open>The answers\<close>

text \<open>The answer to a request depends on that request and the balances alone.\<close>

definition answer :: "(address \<Rightarrow> address \<Rightarrow> int) \<Rightarrow> conversion_request \<Rightarrow> conversion_result" where
  "answer bal rq =
    (let fail = ConversionFailure (cv_user rq) (cv_from_asset rq) (cv_to_asset rq) (cv_amount_in rq) in
     if cv_amount_in rq \<le> 0 then fail 3 else
     if cv_min_amount_out rq \<le> 0 then fail 4 else
     if cv_from_asset rq = cv_to_asset rq then fail 5 else
     if bal (cv_from_asset rq) (cv_user rq) < cv_amount_in rq then fail 6 else
     ConversionSuccess (cv_user rq) (cv_from_asset rq) (cv_to_asset rq) (cv_amount_in rq) (cv_min_amount_out rq))"

fun succeeded :: "conversion_result \<Rightarrow> bool" where
  "succeeded (ConversionSuccess u a b n m) = True"
| "succeeded (ConversionFailure u a b n code) = False"

fun signer :: "conversion_result \<Rightarrow> address" where
  "signer (ConversionSuccess u a b n m) = u"
| "signer (ConversionFailure u a b n code) = u"

lemma conversion_loop:
  "case fold_trap (conversion_step bal e k) (map validated rqs) st of
     Inl t \<Rightarrow> t = AuthTrap \<and> (\<exists>r \<in> set (map (answer bal) rqs). succeeded r \<and> \<not> env_auth e (signer r))
   | Inr st' \<Rightarrow> (\<forall>r \<in> set (map (answer bal) rqs). succeeded r \<longrightarrow> env_auth e (signer r))
      \<and> vs_results st' = vs_results st @ map (answer bal) rqs
      \<and> vs_ok st' = vs_ok st + length (filter succeeded (map (answer bal) rqs))
      \<and> vs_ok st' + vs_failed st' = vs_ok st + vs_failed st + length rqs
      \<and> (\<exists>evs. vs_state st' = (vs_state st)\<lparr>cs_events := evs\<rparr>)"
proof (induction rqs arbitrary: st)
  case Nil
  then show ?case by (auto intro!: exI [of _ "cs_events (vs_state st)"])
next
  case (Cons rq rqs)
  have defs: "validated rq = (if cv_amount_in rq \<le> 0 then (rq, False, 3) else if cv_min_amount_out rq \<le> 0 then (rq, False, 4)
      else if cv_from_asset rq = cv_to_asset rq then (rq, False, 5) else (rq, True, 0))"
    by (simp add: validated_def validate_address_def validate_amount_def validate_min_output_def validate_asset_pair_def)
  show ?case
  proof (cases "conversion_step bal e k (validated rq) st")
    case (Inl t)
    then have "t = AuthTrap \<and> succeeded (answer bal rq) \<and> \<not> env_auth e (signer (answer bal rq))"
      by (auto simp: defs conversion_step_def execute_conversion_def answer_def Let_def split: if_splits)
    with Inl show ?thesis by auto
  next
    case (Inr st1)
    then have st1: "succeeded (answer bal rq) \<longrightarrow> env_auth e (signer (answer bal rq))"
      "vs_results st1 = vs_results st @ [answer bal rq]"
      "vs_ok st1 = vs_ok st + (if succeeded (answer bal rq) then 1 else 0)"
      "vs_ok st1 + vs_failed st1 = vs_ok st + vs_failed st + 1"
      "\<exists>evs. vs_state st1 = (vs_state st)\<lparr>cs_events := evs\<rparr>"
      by (auto simp: defs conversion_step_def execute_conversion_def answer_def conversion_failure_def emit_def Let_def
          split: if_splits)
    from Cons.IH [of st1] st1 Inr show ?thesis
      by (auto split: sum.splits)
  qed
qed

section \<open>Properties\<close>

text \<open>A batch of conversions answers each request on its own and moves nothing.  Whenever the batch has 1 to
  100 requests, every user of a request that is reported as converted signed and the counters have
  room, it succeeds, also when the contract was never initialized; the results are, in order, the
  answers that depend on the request and on the balance before the batch only, so two requests that
  the balance covers singly are both converted, at the price the user asked for; and the counters grow
  by one batch and by all requests.\<close>

theorem conversion_batch_answers:
  "case batch_convert_currency bal e rqs s of
     Inl t \<Rightarrow> \<not> (rqs \<noteq> [] \<and> length rqs \<le> MAX_BATCH_SIZE
        \<and> \<not> (\<exists>rq \<in> set rqs. succeeded (answer bal rq) \<and> \<not> env_auth e (cv_user rq))
        \<and> in_u64 (get_total_batches s + 1) \<and> in_u64 (get_total_conversions_processed s + length rqs))
   | Inr (r, s') \<Rightarrow> rqs \<noteq> [] \<and> length rqs \<le> MAX_BATCH_SIZE
        \<and> \<not> (\<exists>rq \<in> set rqs. succeeded (answer bal rq) \<and> \<not> env_auth e (cv_user rq))
        \<and> cvr_results r = map (answer bal) rqs
        \<and> cvr_successful r = length (filter succeeded (cvr_results r)) \<and> cvr_successful r + cvr_failed r = length rqs
        \<and> get_total_batches s' = get_total_batches s + 1
        \<and> get_total_conversions_processed s' = get_total_conversions_processed s + length rqs"
proof -
  let ?k = "Suc (get_total_batches s)"
  let ?st0 = "\<lparr>vs_state = emit (BatchStarted ?k (length rqs)) s, vs_results = [], vs_ok = 0, vs_failed = 0, vs_total = 0\<rparr>"
  have user: "signer (answer bal rq) = cv_user rq" for rq by (simp add: answer_def Let_def)
  note loop = conversion_loop [where bal = bal and e = e and k = ?k and rqs = rqs and st = ?st0]
  show ?thesis
  proof (cases "rqs \<noteq> [] \<and> length rqs \<le> MAX_BATCH_SIZE \<and> in_u64 (get_total_batches s + 1)")
    case False
    then show ?thesis
      by (auto simp: batch_convert_currency_def Let_def get_total_batches_def u64_add_def)
  next
    case True
    show ?thesis
    proof (cases "fold_trap (conversion_step bal e ?k) (map validated rqs) ?st0")
      case (Inl t)
      with loop True user show ?thesis
        by (auto simp: batch_convert_currency_def Let_def get_total_batches_def u64_add_def)
    next
      case (Inr st)
      with loop obtain evs where "vs_state st = s\<lparr>cs_events := evs\<rparr>" by (auto simp: emit_def)
      with Inr loop True user show ?thesis
        by (auto simp: batch_convert_currency_def Let_def get_total_batches_def get_total_conversions_processed_def
            u64_add_def emit_def [of "BatchCompleted _ _ _ _"])
    qed
  qed
qed

end
