(* ===== verification/Batch_Token_Mint.thy ===== *)
theory Batch_Token_Mint
  imports Host
begin

text \<open>
  \<open>contracts/batch-token-mint/src\<close>: batches of mints recorded by the admin (\<open>lib.rs\<close>, \<open>types.rs\<close>,
  \<open>validation.rs\<close>).  The source simulates the mint: the token client is created and never called, so
  the model has no token.
\<close>

section \<open>Data (types.rs)\<close>

definition MAX_BATCH_SIZE :: nat where "MAX_BATCH_SIZE = 100"
definition MIN_MINT_AMOUNT :: int where "MIN_MINT_AMOUNT = 1"
definition MAX_MINT_AMOUNT :: int where "MAX_MINT_AMOUNT = 1000000000000000000000"

definition INVALID_AMOUNT :: nat where "INVALID_AMOUNT = 0"
definition INVALID_RECIPIENT :: nat where "INVALID_RECIPIENT = 1"

record token_mint_request =
  mq_recipient :: address
  mq_amount :: int

record token_minted =
  tm_token_address :: address
  tm_recipient :: address
  tm_amount :: int
  tm_minted_at :: nat

datatype mint_result =
    MintSuccess token_minted
  | MintFailure address nat

record batch_mint_metrics =
  mm_total_requests :: nat
  mm_successful_mints :: nat
  mm_failed_mints :: nat
  mm_total_amount_minted :: int
  mm_avg_mint_amount :: int
  mm_processed_at :: nat

record batch_mint_result =
  mr_batch_id :: nat
  mr_token_address :: address
  mr_total_requests :: nat
  mr_successful :: nat
  mr_failed :: nat
  mr_results :: "mint_result list"
  mr_metrics :: batch_mint_metrics

datatype batch_token_mint_error = NotInitialized | Unauthorized | InvalidBatch | EmptyBatch | BatchTooLarge

datatype mint_event =
    BatchStarted nat address nat
  | TokensMinted nat address address int
  | MintFailed nat address address nat
  | BatchCompleted nat address nat nat int
  | LargeMint nat address address int

record mint_state =
  ms_admin :: "address option"
  ms_last_batch_id :: "nat option"
  ms_total_minted :: "int option"
  ms_total_batches :: "nat option"
  ms_events :: "mint_event list"

definition mint_fresh :: mint_state where
  "mint_fresh = \<lparr>ms_admin = None, ms_last_batch_id = None, ms_total_minted = None, ms_total_batches = None, ms_events = []\<rparr>"

definition emit :: "mint_event \<Rightarrow> mint_state \<Rightarrow> mint_state" where
  "emit ev s = s\<lparr>ms_events := ms_events s @ [ev]\<rparr>"

type_synonym 'a mint_outcome = "(mint_state, batch_token_mint_error, 'a) outcome"

section \<open>Validation (validation.rs)\<close>

definition is_valid_recipient :: "address \<Rightarrow> bool" where
  "is_valid_recipient a \<longleftrightarrow> True"

definition is_valid_amount :: "int \<Rightarrow> bool" where
  "is_valid_amount amount \<longleftrightarrow> amount \<ge> MIN_MINT_AMOUNT \<and> amount \<le> MAX_MINT_AMOUNT"

definition validate_mint_request :: "token_mint_request \<Rightarrow> nat + unit" where
  "validate_mint_request request =
    (if \<not> is_valid_recipient (mq_recipient request) then Inl INVALID_RECIPIENT else
     if \<not> is_valid_amount (mq_amount request) then Inl INVALID_AMOUNT else Inr ())"

section \<open>Entry points (lib.rs)\<close>

definition initialize :: "address \<Rightarrow> mint_state \<Rightarrow> unit mint_outcome" where
  "initialize admin s =
    (if ms_admin s \<noteq> None then Inl PanicTrap else
     Inr ((), s\<lparr>ms_admin := Some admin, ms_last_batch_id := Some 0, ms_total_minted := Some 0, ms_total_batches := Some 0\<rparr>))"

definition require_admin :: "address \<Rightarrow> mint_state \<Rightarrow> batch_token_mint_error trap + unit" where
  "require_admin caller s =
    (case ms_admin s of None \<Rightarrow> Inl PanicTrap | Some admin \<Rightarrow>
     if caller \<noteq> admin then Inl (ContractError Unauthorized) else Inr ())"

record mint_pass =
  mp_state :: mint_state
  mp_results :: "mint_result list"
  mp_ok :: nat
  mp_failed :: nat
  mp_total :: int

definition mint_step :: "nat \<Rightarrow> nat \<Rightarrow> address \<Rightarrow> token_mint_request \<Rightarrow> mint_pass \<Rightarrow> mint_pass" where
  "mint_step batch_id current_ledger token request st =
    (let recipient = mq_recipient request; amount = mq_amount request in
     case validate_mint_request request of
       Inr _ \<Rightarrow>
         let minted = \<lparr>tm_token_address = token, tm_recipient = recipient, tm_amount = amount, tm_minted_at = current_ledger\<rparr>;
             s1 = emit (TokensMinted batch_id token recipient amount) (mp_state st);
             s2 = (if amount \<ge> 1000000000 then emit (LargeMint batch_id token recipient amount) s1 else s1)
         in st\<lparr>mp_total := unwrap_or (checked_add (mp_total st) amount) i128_max, mp_ok := mp_ok st + 1,
               mp_state := s2, mp_results := mp_results st @ [MintSuccess minted]\<rparr>
     | Inl error_code \<Rightarrow>
         st\<lparr>mp_failed := mp_failed st + 1, mp_state := emit (MintFailed batch_id token recipient error_code) (mp_state st),
            mp_results := mp_results st @ [MintFailure recipient error_code]\<rparr>)"

definition batch_mint_tokens :: "env \<Rightarrow> address \<Rightarrow> address \<Rightarrow> token_mint_request list \<Rightarrow> mint_state
    \<Rightarrow> batch_mint_result mint_outcome" where
  "batch_mint_tokens e caller token requests s =
    (if \<not> env_auth e caller then Inl AuthTrap else
     case require_admin caller s of Inl t \<Rightarrow> Inl t | Inr _ \<Rightarrow>
     let request_count = length requests in
     if request_count = 0 then Inl (ContractError EmptyBatch) else
     if request_count > MAX_BATCH_SIZE then Inl (ContractError BatchTooLarge) else
     case u64_add (unwrap_or (ms_last_batch_id s) 0) 1 of None \<Rightarrow> Inl ArithTrap | Some batch_id \<Rightarrow>
     let s1 = emit (BatchStarted batch_id token request_count) s;
         current_ledger = env_sequence e;
         st = fold (mint_step batch_id current_ledger token) requests
                \<lparr>mp_state = s1, mp_results = [], mp_ok = 0, mp_failed = 0, mp_total = 0\<rparr>;
         avg = (if mp_ok st > 0 then quot (mp_total st) (int (mp_ok st)) else 0);
         metrics = \<lparr>mm_total_requests = request_count, mm_successful_mints = mp_ok st, mm_failed_mints = mp_failed st,
                    mm_total_amount_minted = mp_total st, mm_avg_mint_amount = avg, mm_processed_at = current_ledger\<rparr>;
         s2 = mp_state st;
         s3 = s2\<lparr>ms_last_batch_id := Some batch_id\<rparr> in
     case checked_add (unwrap_or (ms_total_minted s2) 0) (mp_total st) of None \<Rightarrow> Inl ArithTrap | Some total_minted \<Rightarrow>
     let s4 = s3\<lparr>ms_total_minted := Some total_minted\<rparr> in
     case u64_add (unwrap_or (ms_total_batches s2) 0) 1 of None \<Rightarrow> Inl ArithTrap | Some total_batches \<Rightarrow>
     let s5 = s4\<lparr>ms_total_batches := Some total_batches\<rparr>
     in Inr (\<lparr>mr_batch_id = batch_id, mr_token_address = token, mr_total_requests = request_count, mr_successful = mp_ok st,
               mr_failed = mp_failed st, mr_results = mp_results st, mr_metrics = metrics\<rparr>,
             emit (BatchCompleted batch_id token (mp_ok st) (mp_failed st) (mp_total st)) s5))"

definition get_admin :: "mint_state \<Rightarrow> batch_token_mint_error trap + address" where
  "get_admin s = (case ms_admin s of None \<Rightarrow> Inl PanicTrap | Some a \<Rightarrow> Inr a)"

definition set_admin :: "env \<Rightarrow> address \<Rightarrow> address \<Rightarrow> mint_state \<Rightarrow> unit mint_outcome" where
  "set_admin e current_admin new_admin s =
    (if \<not> env_auth e current_admin then Inl AuthTrap else
     case require_admin current_admin s of Inl t \<Rightarrow> Inl t | Inr _ \<Rightarrow> Inr ((), s\<lparr>ms_admin := Some new_admin\<rparr>))"

definition get_last_batch_id :: "mint_state \<Rightarrow> nat" where
  "get_last_batch_id s = unwrap_or (ms_last_batch_id s) 0"

definition get_total_minted :: "mint_state \<Rightarrow> int" where
  "get_total_minted s = unwrap_or (ms_total_minted s) 0"

definition get_total_batches_processed :: "mint_state \<Rightarrow> nat" where
  "get_total_batches_processed s = unwrap_or (ms_total_batches s) 0"

section \<open>The answers\<close>

definition mint_answer :: "nat \<Rightarrow> address \<Rightarrow> token_mint_request \<Rightarrow> mint_result" where
  "mint_answer now token rq =
    (if is_valid_amount (mq_amount rq)
     then MintSuccess \<lparr>tm_token_address = token, tm_recipient = mq_recipient rq, tm_amount = mq_amount rq, tm_minted_at = now\<rparr>
     else MintFailure (mq_recipient rq) INVALID_AMOUNT)"

definition valid_amounts :: "token_mint_request list \<Rightarrow> int list" where
  "valid_amounts rqs = filter is_valid_amount (map mq_amount rqs)"

lemma valid_amounts_bound: "0 \<le> sum_list (valid_amounts rqs) \<and> sum_list (valid_amounts rqs) \<le> int (length (valid_amounts rqs)) * MAX_MINT_AMOUNT
    \<and> int (length (valid_amounts rqs)) \<le> sum_list (valid_amounts rqs)"
  by (induction rqs) (auto simp: valid_amounts_def is_valid_amount_def MIN_MINT_AMOUNT_def MAX_MINT_AMOUNT_def)

lemma mint_loop:
  assumes "0 \<le> mp_total st" and "in_i128 (mp_total st + sum_list (valid_amounts rqs))"
  shows "mp_results (fold (mint_step k now t) rqs st) = mp_results st @ map (mint_answer now t) rqs
    \<and> mp_ok (fold (mint_step k now t) rqs st) = mp_ok st + length (valid_amounts rqs)
    \<and> mp_ok (fold (mint_step k now t) rqs st) + mp_failed (fold (mint_step k now t) rqs st) = mp_ok st + mp_failed st + length rqs
    \<and> mp_total (fold (mint_step k now t) rqs st) = mp_total st + sum_list (valid_amounts rqs)
    \<and> (\<exists>evs. mp_state (fold (mint_step k now t) rqs st) = (mp_state st)\<lparr>ms_events := evs\<rparr>)"
  using assms
proof (induction rqs arbitrary: st)
  case Nil
  then show ?case by (auto simp: valid_amounts_def intro!: exI [of _ "ms_events (mp_state st)"])
next
  case (Cons rq rqs)
  let ?st = "mint_step k now t rq st"
  show ?case
  proof (cases "is_valid_amount (mq_amount rq)")
    case False
    then have "mp_total ?st = mp_total st" "valid_amounts (rq # rqs) = valid_amounts rqs"
      by (simp_all add: mint_step_def validate_mint_request_def is_valid_recipient_def valid_amounts_def Let_def)
    with Cons.IH [of ?st] Cons.prems False show ?thesis
      by (auto simp: mint_answer_def) (auto simp: mint_step_def validate_mint_request_def is_valid_recipient_def emit_def Let_def)
  next
    case True
    have v: "valid_amounts (rq # rqs) = mq_amount rq # valid_amounts rqs" using True by (simp add: valid_amounts_def)
    have pos: "0 \<le> mq_amount rq" using True by (simp add: is_valid_amount_def MIN_MINT_AMOUNT_def)
    have "unwrap_or (checked_add (mp_total st) (mq_amount rq)) i128_max = mp_total st + mq_amount rq"
      using Cons.prems v pos valid_amounts_bound [of rqs] by (auto simp: checked_add_def in_i128_def)
    then have tot: "mp_total ?st = mp_total st + mq_amount rq"
      using True by (simp add: mint_step_def validate_mint_request_def is_valid_recipient_def Let_def)
    with Cons.IH [of ?st] Cons.prems True v pos show ?thesis
      by (auto simp: mint_answer_def add.assoc)
        (auto simp: mint_step_def validate_mint_request_def is_valid_recipient_def emit_def Let_def)
  qed
qed

section \<open>Properties\<close>

text \<open>What a mint batch reports.  A batch that succeeds is the signed admin's, with 1 to 100 requests; each
  request is answered by itself, as minted when its amount is between one and 10^21; the total is the
  exact sum of those amounts and cannot overflow, the reported average times the number of mints is
  at most the total and misses it by less than that number, and lies between one and the maximum; and
  the lifetime figures grow by exactly this batch.\<close>

theorem mint_batch_spec:
  assumes "batch_mint_tokens e a t rqs s = Inr (r, s')"
  shows "env_auth e a \<and> get_admin s = Inr a \<and> rqs \<noteq> [] \<and> length rqs \<le> MAX_BATCH_SIZE
    \<and> mr_results r = map (mint_answer (env_sequence e) t) rqs
    \<and> mr_successful r = length (valid_amounts rqs) \<and> mr_successful r + mr_failed r = length rqs
    \<and> mm_total_amount_minted (mr_metrics r) = sum_list (valid_amounts rqs)
    \<and> get_total_minted s' = get_total_minted s + sum_list (valid_amounts rqs)
    \<and> get_total_batches_processed s' = get_total_batches_processed s + 1 \<and> mr_batch_id r = get_last_batch_id s'
    \<and> (0 < mr_successful r \<longrightarrow>
         (let avg = mm_avg_mint_amount (mr_metrics r); n = int (mr_successful r) in
            avg * n \<le> sum_list (valid_amounts rqs) \<and> sum_list (valid_amounts rqs) < avg * n + n
            \<and> 1 \<le> avg \<and> avg \<le> MAX_MINT_AMOUNT))"
proof -
  let ?k = "Suc (get_last_batch_id s)"
  let ?init = "\<lparr>mp_state = emit (BatchStarted ?k t (length rqs)) s, mp_results = [], mp_ok = 0, mp_failed = 0, mp_total = 0\<rparr>"
  let ?st = "fold (mint_step ?k (env_sequence e) t) rqs ?init"
  let ?v = "valid_amounts rqs"
  from assms have pre: "env_auth e a" "ms_admin s = Some a" "rqs \<noteq> []" "length rqs \<le> 100"
    and r: "r = \<lparr>mr_batch_id = ?k, mr_token_address = t, mr_total_requests = length rqs, mr_successful = mp_ok ?st,
        mr_failed = mp_failed ?st, mr_results = mp_results ?st,
        mr_metrics = \<lparr>mm_total_requests = length rqs, mm_successful_mints = mp_ok ?st, mm_failed_mints = mp_failed ?st,
           mm_total_amount_minted = mp_total ?st,
           mm_avg_mint_amount = (if mp_ok ?st > 0 then quot (mp_total ?st) (int (mp_ok ?st)) else 0),
           mm_processed_at = env_sequence e\<rparr>\<rparr>"
    and s': "get_total_minted s' = unwrap_or (ms_total_minted (mp_state ?st)) 0 + mp_total ?st"
      "get_total_batches_processed s' = unwrap_or (ms_total_batches (mp_state ?st)) 0 + 1" "get_last_batch_id s' = ?k"
    by (auto simp: batch_mint_tokens_def require_admin_def Let_def get_last_batch_id_def get_total_minted_def
        get_total_batches_processed_def MAX_BATCH_SIZE_def emit_def [of "BatchCompleted _ _ _ _ _"] not_less
        split: if_splits option.splits sum.splits)
  have len: "length ?v \<le> length rqs" by (simp add: valid_amounts_def filter_map)
  note bound = valid_amounts_bound [of rqs]
  have "int (length ?v) * MAX_MINT_AMOUNT \<le> 100 * MAX_MINT_AMOUNT"
    using len pre(4) by (intro mult_right_mono) (simp_all add: MAX_MINT_AMOUNT_def)
  then have "in_i128 (mp_total ?init + sum_list ?v)" using bound by (simp add: in_i128_def MAX_MINT_AMOUNT_def)
  note loop = mint_loop [where st = ?init and rqs = rqs and k = ?k and now = "env_sequence e" and t = t, OF _ this]
  have avg: "let avg = quot (sum_list ?v) (int (length ?v)); n = int (length ?v) in
            avg * n \<le> sum_list ?v \<and> sum_list ?v < avg * n + n \<and> 1 \<le> avg \<and> avg \<le> MAX_MINT_AMOUNT" if "0 < length ?v"
  proof -
    let ?n = "int (length ?v)" and ?q = "sum_list ?v div int (length ?v)"
    have n: "0 < ?n" using that by simp
    have e: "sum_list ?v = ?q * ?n + sum_list ?v mod ?n" by simp
    have m: "0 \<le> sum_list ?v mod ?n" "sum_list ?v mod ?n < ?n" using n by simp_all
    have "1 \<le> ?q" using bound n by (metis div_self less_irrefl zdiv_mono1)
    moreover have "?q \<le> MAX_MINT_AMOUNT"
      using zdiv_mono1 [of "sum_list ?v" "?n * MAX_MINT_AMOUNT" ?n] bound n by simp
    moreover have "?q * ?n \<le> sum_list ?v" "sum_list ?v < ?q * ?n + ?n" using e m by linarith+
    moreover have "quot (sum_list ?v) ?n = ?q" by (rule quot_pos) (use bound n in auto)
    ultimately show ?thesis unfolding Let_def by (simp only:) 
  qed
  obtain evs where evs: "mp_state ?st = s\<lparr>ms_events := evs\<rparr>" using loop by (auto simp: emit_def)
  have st: "mp_results ?st = map (mint_answer (env_sequence e) t) rqs" "mp_ok ?st = length ?v"
    "mp_ok ?st + mp_failed ?st = length rqs" "mp_total ?st = sum_list ?v" using loop by simp_all
  have frame: "unwrap_or (ms_total_minted (mp_state ?st)) 0 = get_total_minted s"
    "unwrap_or (ms_total_batches (mp_state ?st)) 0 = get_total_batches_processed s"
    by (simp_all add: evs get_total_minted_def get_total_batches_processed_def)
  have "get_admin s = Inr a" using pre(2) by (simp add: get_admin_def)
  moreover have "mm_avg_mint_amount (mr_metrics r) = (if length ?v > 0 then quot (sum_list ?v) (int (length ?v)) else 0)"
    by (simp add: r st)
  moreover have "mr_results r = map (mint_answer (env_sequence e) t) rqs" "mr_successful r = length ?v"
    "mr_successful r + mr_failed r = length rqs" "mm_total_amount_minted (mr_metrics r) = sum_list ?v" "mr_batch_id r = ?k"
    using st by (simp_all add: r)
  ultimately show ?thesis
    using pre s' frame avg by (simp add: MAX_BATCH_SIZE_def st(4))
qed

definition demo_mint_requests :: "token_mint_request list" where
  "demo_mint_requests = [\<lparr>mq_recipient = Addr 2, mq_amount = 70\<rparr>, \<lparr>mq_recipient = Addr 3, mq_amount = 0\<rparr>,
     \<lparr>mq_recipient = Addr 4, mq_amount = 31\<rparr>]"

theorem mint_batch_spec_witness:
  "\<exists>r s'. batch_mint_tokens (signed_env [Addr 1] 5 50 (Addr 8)) (Addr 1) (Addr 7) demo_mint_requests
      (mint_fresh\<lparr>ms_admin := Some (Addr 1)\<rparr>) = Inr (r, s')
    \<and> mr_successful r = 2 \<and> get_total_minted s' = 101"
proof -
  let ?s = "mint_fresh\<lparr>ms_admin := Some (Addr 1)\<rparr>" and ?e = "signed_env [Addr 1] 5 50 (Addr 8)"
  have "\<exists>x. batch_mint_tokens ?e (Addr 1) (Addr 7) demo_mint_requests ?s = Inr x"
    by (simp add: batch_mint_tokens_def demo_mint_requests_def mint_fresh_def require_admin_def MAX_BATCH_SIZE_def Let_def
        mint_step_def validate_mint_request_def is_valid_recipient_def is_valid_amount_def MIN_MINT_AMOUNT_def
        MAX_MINT_AMOUNT_def emit_def arith_defs)
  then obtain r s' where go: "batch_mint_tokens ?e (Addr 1) (Addr 7) demo_mint_requests ?s = Inr (r, s')" by auto
  have "valid_amounts demo_mint_requests = [70, 31]" "get_total_minted ?s = 0"
    by (simp_all add: valid_amounts_def demo_mint_requests_def is_valid_amount_def MIN_MINT_AMOUNT_def MAX_MINT_AMOUNT_def
        get_total_minted_def mint_fresh_def)
  with mint_batch_spec [OF go] go show ?thesis by auto
qed

end
