(* ===== verification/Budget_Recommendations.thy ===== *)
theory Budget_Recommendations
  imports Host
begin

text \<open>
  \<open>contracts/budget-recommendations/src\<close>: rule-based budget advice for batches of users (\<open>lib.rs\<close>,
  \<open>recommendations.rs\<close>, \<open>types.rs\<close>, \<open>validation.rs\<close>).  \<open>Symbol::new\<close> is the SDK's: it panics on a text
  of more than 32 characters or with a character other than letters, digits and the underscore.
  \<open>lib.rs\<close> calls \<open>validate_batch\<close> without the environment the function declares and never reads; the
  model leaves that argument out.
\<close>

section \<open>Data (types.rs)\<close>

definition MAX_BATCH_SIZE :: nat where "MAX_BATCH_SIZE = 100"

record user_profile =
  up_user_id :: nat
  up_address :: address
  up_monthly_income :: int
  up_monthly_expenses :: int
  up_savings_balance :: int
  up_spending_categories :: symbol
  up_risk_tolerance :: nat

record budget_recommendation =
  rec_user_id :: nat
  rec_budget :: int
  rec_savings :: int
  rec_spending_limit :: int
  rec_emergency_fund_target :: int
  rec_confidence_score :: nat
  rec_type :: symbol
  rec_notes :: symbol

record batch_recommendation_metrics =
  bm_user_count :: nat
  bm_successful :: nat
  bm_failed :: nat
  bm_total_budget :: int
  bm_total_savings :: int
  bm_avg_confidence :: nat
  bm_processed_at :: nat

datatype recommendation_result =
    RecSuccess budget_recommendation
  | RecFailure nat symbol

record batch_recommendation_result =
  bn_batch_id :: nat
  bn_total_users :: nat
  bn_successful :: nat
  bn_failed :: nat
  bn_results :: "recommendation_result list"
  bn_metrics :: batch_recommendation_metrics

datatype recommendation_error =
    NotInitialized | Unauthorized | InvalidBatch | EmptyBatch | BatchTooLarge | InvalidUserProfile

datatype recommendation_event =
    BatchStarted nat nat
  | RecommendationGenerated nat nat budget_recommendation
  | RecommendationFailed nat nat symbol
  | BatchCompleted nat batch_recommendation_metrics
  | HighConfidence nat nat nat

record recommendations_state =
  rs_admin :: "address option"
  rs_last_batch_id :: "nat option"
  rs_batch :: "nat \<rightharpoonup> recommendation_result list"
  rs_total_users :: "nat option"
  rs_total_recommendations :: "nat option"
  rs_events :: "recommendation_event list"

definition recommendations_fresh :: recommendations_state where
  "recommendations_fresh = \<lparr>rs_admin = None, rs_last_batch_id = None, rs_batch = Map.empty, rs_total_users = None,
     rs_total_recommendations = None, rs_events = []\<rparr>"

definition emit :: "recommendation_event \<Rightarrow> recommendations_state \<Rightarrow> recommendations_state" where
  "emit ev s = s\<lparr>rs_events := rs_events s @ [ev]\<rparr>"

type_synonym 'a recommendations_outcome = "(recommendations_state, recommendation_error, 'a) outcome"

section \<open>Validation (validation.rs)\<close>

datatype validation_error =
    InvalidUserId | InvalidIncome | InvalidExpenses | InvalidSavings | InvalidRiskTolerance
  | ContributionZero | ContributionNegative | ContributionTooSmall | ContributionTooLarge

definition validate_user_profile :: "user_profile \<Rightarrow> validation_error + unit" where
  "validate_user_profile p =
    (if up_user_id p = 0 then Inl InvalidUserId else
     if up_monthly_income p \<le> 0 then Inl InvalidIncome else
     if up_monthly_expenses p < 0 then Inl InvalidExpenses else
     if up_savings_balance p < 0 then Inl InvalidSavings else
     if up_risk_tolerance p < 1 \<or> up_risk_tolerance p > 5 then Inl InvalidRiskTolerance else Inr ())"

definition validate_batch :: "user_profile list \<Rightarrow> string + unit" where
  "validate_batch profiles =
    (if length profiles = 0 then Inl ''Batch cannot be empty'' else
     if length profiles > MAX_BATCH_SIZE then Inl ''Batch exceeds maximum size'' else
     if list_ex (\<lambda>p. validate_user_profile p \<noteq> Inr ()) profiles then Inl ''Invalid user profile in batch'' else Inr ())"

definition MIN_CONTRIBUTION :: int where "MIN_CONTRIBUTION = 100000"
definition MAX_CONTRIBUTION :: int where "MAX_CONTRIBUTION = 1000000000000"

definition validate_contribution_amount :: "int \<Rightarrow> validation_error + unit" where
  "validate_contribution_amount amount =
    (if amount = 0 then Inl ContributionZero else
     if amount < 0 then Inl ContributionNegative else
     if amount < MIN_CONTRIBUTION then Inl ContributionTooSmall else
     if amount > MAX_CONTRIBUTION then Inl ContributionTooLarge else Inr ())"

fun validate_contribution_amounts :: "int list \<Rightarrow> validation_error + unit" where
  "validate_contribution_amounts [] = Inr ()"
| "validate_contribution_amounts (amount # amounts) =
    (case validate_contribution_amount amount of Inl err \<Rightarrow> Inl err | Inr _ \<Rightarrow> validate_contribution_amounts amounts)"

section \<open>The advice (recommendations.rs)\<close>

definition symbol_char :: "char \<Rightarrow> bool" where
  "symbol_char c \<longleftrightarrow> (let n = (of_char c :: nat) in
     48 \<le> n \<and> n \<le> 57 \<or> 65 \<le> n \<and> n \<le> 90 \<or> n = 95 \<or> 97 \<le> n \<and> n \<le> 122)"

definition symbol_new :: "string \<Rightarrow> symbol option" where
  "symbol_new text = (if length text \<le> 32 \<and> list_all symbol_char text then Some text else None)"

definition recommendation_type :: "nat \<Rightarrow> string" where
  "recommendation_type risk =
    (if risk = 1 then ''conservative'' else if risk = 2 then ''moderate_conservative'' else
     if risk = 3 then ''moderate'' else if risk = 4 then ''moderate_aggressive'' else
     if risk = 5 then ''aggressive'' else ''moderate'')"

definition savings_percentage :: "nat \<Rightarrow> int" where
  "savings_percentage risk =
    (if risk = 1 then 35 else if risk = 2 then 30 else if risk = 3 then 25 else if risk = 4 then 20 else
     if risk = 5 then 15 else 25)"

definition emergency_fund_months :: "nat \<Rightarrow> int" where
  "emergency_fund_months risk =
    (if risk = 1 then 6 else if risk = 2 then 5 else if risk = 3 then 4 else if risk = 4 then 3 else
     if risk = 5 then 3 else 4)"

definition confidence_score :: "user_profile \<Rightarrow> int \<Rightarrow> nat" where
  "confidence_score p disposable_income =
    (let c1 = 80;
         c2 = (if disposable_income > 0 then c1 + 10 else c1);
         c3 = (if up_savings_balance p > 0 then c2 + 5 else c2);
         c4 = (if up_monthly_expenses p > up_monthly_income p then c3 - 20 else c3)
     in min c4 100)"

text \<open>The choice among the four notes, as the text handed to \<open>Symbol::new\<close>.\<close>

definition notes_text :: "user_profile \<Rightarrow> int \<Rightarrow> int \<Rightarrow> int \<Rightarrow> string" where
  "notes_text p disposable_income recommended_savings target =
    (if disposable_income < 0 then ''expenses_exceed_income_review_needed'' else
     if recommended_savings = 0 then ''minimal_savings_capacity'' else
     if up_savings_balance p < quot target 2 then ''build_emergency_fund_priority''
     else ''on_track_continue_current_strategy'')"

text \<open>The outer error is a panic of the host, the inner one the \<open>Err\<close> of the function, which it never uses.\<close>

definition generate_recommendation :: "user_profile \<Rightarrow> recommendation_error trap + (symbol + budget_recommendation)" where
  "generate_recommendation p =
    (let risk = up_risk_tolerance p;
         expenses = up_monthly_expenses p;
         disposable_income = unwrap_or (checked_sub (up_monthly_income p) expenses) 0 in
     case symbol_new (recommendation_type risk) of None \<Rightarrow> Inl PanicTrap | Some ty \<Rightarrow>
     case (if disposable_income > 0
           then map_option (\<lambda>n. quot n 100) (checked_mul disposable_income (savings_percentage risk)) else Some 0) of
       None \<Rightarrow> Inl ArithTrap | Some recommended_savings \<Rightarrow>
     case checked_sub disposable_income recommended_savings of None \<Rightarrow> Inl ArithTrap | Some spendable \<Rightarrow>
     case checked_add expenses spendable of None \<Rightarrow> Inl ArithTrap | Some recommended_budget \<Rightarrow>
     case checked_mul recommended_budget 5 of None \<Rightarrow> Inl ArithTrap | Some scaled \<Rightarrow>
     case checked_add recommended_budget (quot scaled 100) of None \<Rightarrow> Inl ArithTrap | Some spending_limit \<Rightarrow>
     case checked_mul expenses (emergency_fund_months risk) of None \<Rightarrow> Inl ArithTrap | Some target \<Rightarrow>
     case symbol_new (notes_text p disposable_income recommended_savings target) of None \<Rightarrow> Inl PanicTrap | Some notes \<Rightarrow>
     Inr (Inr \<lparr>rec_user_id = up_user_id p, rec_budget = recommended_budget, rec_savings = recommended_savings,
       rec_spending_limit = spending_limit, rec_emergency_fund_target = target,
       rec_confidence_score = confidence_score p disposable_income, rec_type = ty, rec_notes = notes\<rparr>))"

record recommendation_pass =
  rp_results :: "recommendation_result list"
  rp_ok :: nat
  rp_failed :: nat
  rp_budget :: int
  rp_savings :: int
  rp_confidence :: nat

definition recommendation_step :: "user_profile \<Rightarrow> recommendation_pass \<Rightarrow> recommendation_error trap + recommendation_pass" where
  "recommendation_step p st =
    (case generate_recommendation p of
       Inl t \<Rightarrow> Inl t
     | Inr (Inr r) \<Rightarrow>
         (case u64_add (rp_confidence st) (rec_confidence_score r) of None \<Rightarrow> Inl ArithTrap | Some total_confidence \<Rightarrow>
          Inr (st\<lparr>rp_budget := unwrap_or (checked_add (rp_budget st) (rec_budget r)) i128_max,
                  rp_savings := unwrap_or (checked_add (rp_savings st) (rec_savings r)) i128_max,
                  rp_confidence := total_confidence, rp_ok := rp_ok st + 1,
                  rp_results := rp_results st @ [RecSuccess r]\<rparr>))
     | Inr (Inl err) \<Rightarrow>
         Inr (st\<lparr>rp_failed := rp_failed st + 1, rp_results := rp_results st @ [RecFailure (up_user_id p) err]\<rparr>))"

definition batch_recommendations :: "user_profile list \<Rightarrow> nat
    \<Rightarrow> recommendation_error trap + recommendation_result list \<times> batch_recommendation_metrics" where
  "batch_recommendations profiles processed_at =
    (case fold_trap recommendation_step profiles
            \<lparr>rp_results = [], rp_ok = 0, rp_failed = 0, rp_budget = 0, rp_savings = 0, rp_confidence = 0\<rparr> of
       Inl t \<Rightarrow> Inl t
     | Inr st \<Rightarrow>
       Inr (rp_results st, \<lparr>bm_user_count = length profiles, bm_successful = rp_ok st, bm_failed = rp_failed st,
         bm_total_budget = rp_budget st, bm_total_savings = rp_savings st,
         bm_avg_confidence = (if rp_ok st > 0 then rp_confidence st div rp_ok st else 0), bm_processed_at = processed_at\<rparr>))"

section \<open>Entry points (lib.rs)\<close>

definition initialize :: "address \<Rightarrow> recommendations_state \<Rightarrow> unit recommendations_outcome" where
  "initialize admin s =
    (if rs_admin s \<noteq> None then Inl PanicTrap else
     Inr ((), s\<lparr>rs_admin := Some admin, rs_last_batch_id := Some 0, rs_total_users := Some 0, rs_total_recommendations := Some 0\<rparr>))"

definition require_admin :: "address \<Rightarrow> recommendations_state \<Rightarrow> recommendation_error trap + unit" where
  "require_admin caller s =
    (case rs_admin s of None \<Rightarrow> Inl PanicTrap | Some admin \<Rightarrow>
     if caller \<noteq> admin then Inl (ContractError Unauthorized) else Inr ())"

fun result_events :: "nat \<Rightarrow> recommendation_result \<Rightarrow> recommendations_state \<Rightarrow> recommendations_state" where
  "result_events batch_id (RecSuccess r) s =
    (let s1 = emit (RecommendationGenerated batch_id (rec_user_id r) r) s
     in if rec_confidence_score r \<ge> 90 then emit (HighConfidence batch_id (rec_user_id r) (rec_confidence_score r)) s1 else s1)"
| "result_events batch_id (RecFailure user_id err) s = emit (RecommendationFailed batch_id user_id err) s"

definition generate_batch_recommendations :: "env \<Rightarrow> address \<Rightarrow> user_profile list \<Rightarrow> recommendations_state
    \<Rightarrow> batch_recommendation_result recommendations_outcome" where
  "generate_batch_recommendations e caller profiles s =
    (if \<not> env_auth e caller then Inl AuthTrap else
     case require_admin caller s of Inl t \<Rightarrow> Inl t | Inr _ \<Rightarrow>
     let user_count = length profiles in
     if user_count = 0 then Inl (ContractError EmptyBatch) else
     if user_count > MAX_BATCH_SIZE then Inl (ContractError BatchTooLarge) else
     case validate_batch profiles of Inl _ \<Rightarrow> Inl (ContractError InvalidBatch) | Inr _ \<Rightarrow>
     case u64_add (unwrap_or (rs_last_batch_id s) 0) 1 of None \<Rightarrow> Inl ArithTrap | Some batch_id \<Rightarrow>
     let s1 = emit (BatchStarted batch_id user_count) s in
     case batch_recommendations profiles (env_sequence e) of Inl t \<Rightarrow> Inl t | Inr (results, metrics) \<Rightarrow>
     let s2 = fold (result_events batch_id) results s1;
         s3 = s2\<lparr>rs_last_batch_id := Some batch_id\<rparr> in
     case u64_add (unwrap_or (rs_total_users s2) 0) user_count of None \<Rightarrow> Inl ArithTrap | Some total_users \<Rightarrow>
     let s4 = s3\<lparr>rs_total_users := Some total_users\<rparr> in
     case u64_add (unwrap_or (rs_total_recommendations s2) 0) (bm_successful metrics) of None \<Rightarrow> Inl ArithTrap | Some total_recs \<Rightarrow>
     let s5 = s4\<lparr>rs_total_recommendations := Some total_recs\<rparr>;
         s6 = s5\<lparr>rs_batch := (rs_batch s5)(batch_id \<mapsto> results)\<rparr>
     in Inr (\<lparr>bn_batch_id = batch_id, bn_total_users = user_count, bn_successful = bm_successful metrics,
               bn_failed = bm_failed metrics, bn_results = results, bn_metrics = metrics\<rparr>,
             emit (BatchCompleted batch_id metrics) s6))"

definition get_batch_recommendations :: "recommendations_state \<Rightarrow> nat \<Rightarrow> recommendation_result list option" where
  "get_batch_recommendations s batch_id = rs_batch s batch_id"

definition simulate_recommendation :: "user_profile \<Rightarrow> recommendation_error trap + budget_recommendation option" where
  "simulate_recommendation p =
    (case generate_recommendation p of Inl t \<Rightarrow> Inl t | Inr (Inr r) \<Rightarrow> Inr (Some r) | Inr (Inl _) \<Rightarrow> Inr None)"

definition get_admin :: "recommendations_state \<Rightarrow> recommendation_error trap + address" where
  "get_admin s = (case rs_admin s of None \<Rightarrow> Inl PanicTrap | Some a \<Rightarrow> Inr a)"

definition set_admin :: "env \<Rightarrow> address \<Rightarrow> address \<Rightarrow> recommendations_state \<Rightarrow> unit recommendations_outcome" where
  "set_admin e current_admin new_admin s =
    (if \<not> env_auth e current_admin then Inl AuthTrap else
     case require_admin current_admin s of Inl t \<Rightarrow> Inl t | Inr _ \<Rightarrow> Inr ((), s\<lparr>rs_admin := Some new_admin\<rparr>))"

definition get_last_batch_id :: "recommendations_state \<Rightarrow> nat" where
  "get_last_batch_id s = unwrap_or (rs_last_batch_id s) 0"

definition get_total_users_processed :: "recommendations_state \<Rightarrow> nat" where
  "get_total_users_processed s = unwrap_or (rs_total_users s) 0"

definition get_total_recommendations :: "recommendations_state \<Rightarrow> nat" where
  "get_total_recommendations s = unwrap_or (rs_total_recommendations s) 0"

section \<open>Who gets advice\<close>

lemma note_symbols:
  "symbol_new ''expenses_exceed_income_review_needed'' = None"
  "symbol_new ''on_track_continue_current_strategy'' = None"
  "symbol_new ''minimal_savings_capacity'' = Some ''minimal_savings_capacity''"
  "symbol_new ''build_emergency_fund_priority'' = Some ''build_emergency_fund_priority''"
  by code_simp+

lemma type_symbols: "symbol_new (recommendation_type risk) = Some (recommendation_type risk)"
proof -
  have "symbol_new ''conservative'' = Some ''conservative'' \<and> symbol_new ''moderate_conservative'' = Some ''moderate_conservative''
    \<and> symbol_new ''moderate'' = Some ''moderate'' \<and> symbol_new ''moderate_aggressive'' = Some ''moderate_aggressive''
    \<and> symbol_new ''aggressive'' = Some ''aggressive''"
    by code_simp
  then show ?thesis by (simp add: recommendation_type_def)
qed

text \<open>The figures of the advice, as plain integer arithmetic.\<close>

definition advised_savings :: "user_profile \<Rightarrow> int" where
  "advised_savings p = max 0 ((up_monthly_income p - up_monthly_expenses p) * savings_percentage (up_risk_tolerance p) div 100)"

definition fund_target :: "user_profile \<Rightarrow> int" where
  "fund_target p = up_monthly_expenses p * emergency_fund_months (up_risk_tolerance p)"

text \<open>The users the contract can answer: those who have nothing left, or whose fund is below half its target.\<close>

definition answerable :: "user_profile \<Rightarrow> bool" where
  "answerable p \<longleftrightarrow> up_monthly_expenses p \<le> up_monthly_income p
     \<and> (advised_savings p = 0 \<or> up_savings_balance p < fund_target p div 2)"

definition moderate_figures :: "user_profile \<Rightarrow> bool" where
  "moderate_figures p \<longleftrightarrow> up_monthly_income p \<le> 10 ^ 30 \<and> up_monthly_expenses p \<le> 10 ^ 30"

text \<open>The chain of plain arithmetic operations, when none of them overflows.\<close>

lemma generate_steps:
  assumes "checked_sub (up_monthly_income p) (up_monthly_expenses p) = Some d"
    and "(if d > 0 then map_option (\<lambda>n. quot n 100) (checked_mul d (savings_percentage (up_risk_tolerance p))) else Some 0) = Some s"
    and "checked_sub d s = Some sp" and "checked_add (up_monthly_expenses p) sp = Some b" and "checked_mul b 5 = Some sc"
    and "checked_add b (quot sc 100) = Some l"
    and "checked_mul (up_monthly_expenses p) (emergency_fund_months (up_risk_tolerance p)) = Some t"
  shows "generate_recommendation p = (case symbol_new (notes_text p d s t) of None \<Rightarrow> Inl PanicTrap | Some notes \<Rightarrow>
     Inr (Inr \<lparr>rec_user_id = up_user_id p, rec_budget = b, rec_savings = s, rec_spending_limit = l,
       rec_emergency_fund_target = t, rec_confidence_score = confidence_score p d,
       rec_type = recommendation_type (up_risk_tolerance p), rec_notes = notes\<rparr>))"
  unfolding generate_recommendation_def Let_def type_symbols assms(1) unwrap_or_simps option.case assms(2-) ..

lemma generate_value:
  assumes "validate_user_profile p = Inr ()" and "moderate_figures p"
  shows "generate_recommendation p =
    (if \<not> answerable p then Inl PanicTrap else
     let b = up_monthly_income p - advised_savings p in
     Inr (Inr \<lparr>rec_user_id = up_user_id p, rec_budget = b, rec_savings = advised_savings p,
       rec_spending_limit = b + b * 5 div 100, rec_emergency_fund_target = fund_target p,
       rec_confidence_score = 80 + (if up_monthly_expenses p < up_monthly_income p then 10 else 0)
         + (if 0 < up_savings_balance p then 5 else 0),
       rec_type = recommendation_type (up_risk_tolerance p),
       rec_notes = (if advised_savings p = 0 then ''minimal_savings_capacity'' else ''build_emergency_fund_priority'')\<rparr>))"
proof -
  define i x d s t where "i = up_monthly_income p" and "x = up_monthly_expenses p" and "d = i - x"
    and "s = (if d > 0 then d * savings_percentage (up_risk_tolerance p) div 100 else 0)" and "t = fund_target p"
  have v: "0 < i" "i \<le> 10 ^ 30" "0 \<le> x" "x \<le> 10 ^ 30" "0 \<le> up_savings_balance p"
    using assms by (auto simp: validate_user_profile_def moderate_figures_def i_def x_def split: if_splits)
  have pct: "15 \<le> savings_percentage (up_risk_tolerance p)" "savings_percentage (up_risk_tolerance p) \<le> 35"
    by (simp_all add: savings_percentage_def)
  have months: "3 \<le> emergency_fund_months (up_risk_tolerance p)" "emergency_fund_months (up_risk_tolerance p) \<le> 6"
    by (simp_all add: emergency_fund_months_def)
  have sub: "checked_sub i x = Some d" using v by (simp add: checked_sub_def in_i128_def d_def)
  have dp: "d * savings_percentage (up_risk_tolerance p) \<le> d * 35" if "0 < d"
    using pct that by (intro mult_left_mono) simp_all
  have dp0: "0 \<le> d * savings_percentage (up_risk_tolerance p)" if "0 < d" using pct that by simp
  have sav: "(if d > 0 then map_option (\<lambda>n. quot n 100) (checked_mul d (savings_percentage (up_risk_tolerance p))) else Some 0) = Some s"
    using dp dp0 v by (auto simp: s_def checked_mul_def in_i128_def quot_pos d_def)
  have s: "0 \<le> s" "s \<le> (if d > 0 then d else 0)"
  proof -
    have "d * savings_percentage (up_risk_tolerance p) div 100 \<le> d * 35 div 100" if "0 < d"
      using dp [OF that] by (rule zdiv_mono1) simp
    then show "s \<le> (if d > 0 then d else 0)" by (auto simp: s_def)
    show "0 \<le> s" using dp0 by (simp add: s_def pos_imp_zdiv_nonneg_iff)
  qed
  have adv: "advised_savings p = s"
  proof (cases "0 < d")
    case True
    with dp0 show ?thesis by (simp add: advised_savings_def s_def d_def i_def x_def max_def pos_imp_zdiv_nonneg_iff)
  next
    case False
    then have "d * savings_percentage (up_risk_tolerance p) \<le> 0" using pct by (simp add: mult_nonpos_nonneg)
    then have "d * savings_percentage (up_risk_tolerance p) div 100 \<le> 0" by linarith
    with False show ?thesis by (simp add: advised_savings_def s_def d_def i_def x_def max_def)
  qed
  have xt: "x * emergency_fund_months (up_risk_tolerance p) \<le> x * 6" "0 \<le> x * emergency_fund_months (up_risk_tolerance p)"
    using months v(3) by (simp_all add: mult_left_mono)
  then have tgt: "checked_mul x (emergency_fund_months (up_risk_tolerance p)) = Some t" and t: "0 \<le> t"
    using v(4) by (simp_all add: in_i128_def t_def fund_target_def x_def [symmetric])
  show ?thesis
  proof (cases "d < 0")
    case True
    have "s = 0" using True by (simp add: s_def)
    then have "checked_sub d s = Some d" "checked_add x d = Some i" "checked_mul i 5 = Some (i * 5)"
      "checked_add i (quot (i * 5) 100) = Some (i + quot (i * 5) 100)"
      using v by (auto simp: d_def in_i128_def quot_pos)
    note g = generate_steps [OF sub [unfolded i_def x_def] sav this [unfolded x_def] tgt [unfolded x_def]]
    have "symbol_new (notes_text p d s t) = None" using True by (simp add: notes_text_def note_symbols)
    with True show ?thesis by (simp add: g answerable_def d_def i_def x_def)
  next
    case False
    define b where "b = i - s"
    have bb: "0 \<le> b" "b \<le> 10 ^ 30" using s False v by (auto simp: b_def d_def split: if_splits)
    then have arith: "checked_sub d s = Some (d - s)" "checked_add x (d - s) = Some b" "checked_mul b 5 = Some (b * 5)"
      "checked_add b (quot (b * 5) 100) = Some (b + b * 5 div 100)"
      using s v False by (auto simp: b_def d_def in_i128_def quot_pos split: if_splits)
    have chosen: "notes_text p d s t = (if s = 0 then ''minimal_savings_capacity'' else
        if up_savings_balance p < t div 2 then ''build_emergency_fund_priority'' else ''on_track_continue_current_strategy'')"
      using False t by (simp add: notes_text_def quot_pos)
    have conf: "confidence_score p d = 80 + (if x < i then 10 else 0) + (if 0 < up_savings_balance p then 5 else 0)"
      using False by (auto simp: confidence_score_def Let_def d_def i_def x_def)
    note g = generate_steps [OF sub [unfolded i_def x_def] sav arith [unfolded x_def] tgt [unfolded x_def]]
    have "answerable p \<longleftrightarrow> s = 0 \<or> up_savings_balance p < t div 2"
      using False by (simp add: answerable_def adv t_def d_def i_def x_def)
    moreover have "symbol_new (notes_text p d s t) = (if s = 0 then Some ''minimal_savings_capacity'' else
        if up_savings_balance p < t div 2 then Some ''build_emergency_fund_priority'' else None)"
      by (simp add: chosen note_symbols)
    ultimately show ?thesis unfolding g Let_def adv conf
      by (simp add: b_def i_def x_def t_def)
  qed
qed

lemma recommendation_loop:
  assumes "\<And>p. p \<in> set ps \<Longrightarrow> validate_user_profile p = Inr () \<and> moderate_figures p"
    and "rp_confidence st + 100 * length ps < 2 ^ 64"
  shows "case fold_trap recommendation_step ps st of
      Inl t \<Rightarrow> t = PanicTrap \<and> (\<exists>p \<in> set ps. \<not> answerable p)
    | Inr st' \<Rightarrow> (\<forall>p \<in> set ps. answerable p) \<and> rp_ok st' = rp_ok st + length ps \<and> rp_failed st' = rp_failed st
        \<and> list_all2 (\<lambda>p r. \<exists>a. generate_recommendation p = Inr (Inr a) \<and> r = RecSuccess a)
             ps (drop (length (rp_results st)) (rp_results st'))
        \<and> take (length (rp_results st)) (rp_results st') = rp_results st"
  using assms
proof (induction ps arbitrary: st)
  case (Cons p ps)
  have p: "validate_user_profile p = Inr ()" "moderate_figures p" using Cons.prems(1) [of p] by simp_all
  show ?case
  proof (cases "answerable p")
    case False
    then have "recommendation_step p st = Inl PanicTrap" using generate_value [OF p] by (simp add: recommendation_step_def)
    with False show ?thesis by simp
  next
    case True
    then obtain a where a: "generate_recommendation p = Inr (Inr a)" "rec_confidence_score a \<le> 100"
      using generate_value [OF p] by (auto simp: Let_def)
    define st1 where "st1 = st\<lparr>rp_budget := unwrap_or (checked_add (rp_budget st) (rec_budget a)) i128_max,
                  rp_savings := unwrap_or (checked_add (rp_savings st) (rec_savings a)) i128_max,
                  rp_confidence := rp_confidence st + rec_confidence_score a, rp_ok := rp_ok st + 1,
                  rp_results := rp_results st @ [RecSuccess a]\<rparr>"
    have step: "recommendation_step p st = Inr st1"
      using a Cons.prems(2) by (simp add: recommendation_step_def st1_def u64_add_def in_u64_def)
    have "rp_confidence st1 + 100 * length ps < 2 ^ 64" using Cons.prems(2) a(2) by (simp add: st1_def)
    from Cons.IH [OF _ this] Cons.prems(1)
    have IH: "case fold_trap recommendation_step ps st1 of
        Inl t \<Rightarrow> t = PanicTrap \<and> (\<exists>p \<in> set ps. \<not> answerable p)
      | Inr st' \<Rightarrow> (\<forall>p \<in> set ps. answerable p) \<and> rp_ok st' = rp_ok st1 + length ps \<and> rp_failed st' = rp_failed st1
        \<and> list_all2 (\<lambda>p r. \<exists>a. generate_recommendation p = Inr (Inr a) \<and> r = RecSuccess a)
             ps (drop (length (rp_results st1)) (rp_results st'))
        \<and> take (length (rp_results st1)) (rp_results st') = rp_results st1" by simp
    show ?thesis
    proof (cases "fold_trap recommendation_step ps st1")
      case (Inl t)
      with IH step show ?thesis by auto
    next
      case (Inr st')
      let ?n = "length (rp_results st)"
      from IH Inr have r: "take (Suc ?n) (rp_results st') = rp_results st @ [RecSuccess a]"
        "list_all2 (\<lambda>p r. \<exists>a. generate_recommendation p = Inr (Inr a) \<and> r = RecSuccess a) ps (drop (Suc ?n) (rp_results st'))"
        by (simp_all add: st1_def)
      have len: "?n < length (rp_results st')" using arg_cong [OF r(1), of length] by simp
      have "take ?n (rp_results st') = rp_results st"
        using arg_cong [OF r(1), of "take ?n"] by (simp add: min_def)
      moreover have "rp_results st' ! ?n = RecSuccess a"
        using arg_cong [OF r(1), of "\<lambda>l. l ! ?n"] len by (simp add: nth_append)
      moreover have "drop ?n (rp_results st') = rp_results st' ! ?n # drop (Suc ?n) (rp_results st')"
        using len by (simp add: Cons_nth_drop_Suc)
      ultimately show ?thesis using IH Inr step r(2) True a(1) by (simp add: st1_def)
    qed
  qed
qed simp

section \<open>Properties\<close>

text \<open>Who gets budget advice.  For a valid profile with figures up to 10^30 the contract answers only users
  who can put nothing aside, or whose savings are below half of the emergency fund; a user whose
  expenses exceed the income, and one who is on track, makes it panic, because the note it wants to
  return is longer than a symbol may be.  An answer splits the income exactly into budget and
  savings, with a spending limit five percent above the budget.\<close>

theorem recommendation_answers:
  assumes "validate_user_profile p = Inr ()" and "moderate_figures p"
  shows "case simulate_recommendation p of
      Inl t \<Rightarrow> t = PanicTrap \<and> (up_monthly_income p < up_monthly_expenses p
        \<or> advised_savings p \<noteq> 0 \<and> fund_target p div 2 \<le> up_savings_balance p)
    | Inr None \<Rightarrow> False
    | Inr (Some r) \<Rightarrow> up_monthly_expenses p \<le> up_monthly_income p
        \<and> (advised_savings p = 0 \<or> up_savings_balance p < fund_target p div 2)
        \<and> rec_savings r = advised_savings p \<and> rec_budget r + rec_savings r = up_monthly_income p
        \<and> rec_spending_limit r = rec_budget r + rec_budget r * 5 div 100
        \<and> rec_emergency_fund_target r = fund_target p
        \<and> rec_confidence_score r \<in> {80, 85, 90, 95}"
  using generate_value [OF assms] by (auto simp: simulate_recommendation_def Let_def answerable_def)

text \<open>One user on track spoils the batch.  For a signed admin's batch of 1 to 100 valid profiles with
  moderate figures, the whole call panics as soon as one of them is a user the contract cannot
  answer; otherwise every user gets the advice of \<open>generate_recommendation\<close>, in order, none fails,
  and the batch is stored and counted.\<close>

theorem recommendation_batch_spoiled:
  assumes "env_auth e a" and "get_admin s = Inr a" and "validate_batch ps = Inr ()" and "list_all moderate_figures ps"
    and "in_u64 (get_last_batch_id s + 1)" and "in_u64 (get_total_users_processed s + length ps)"
    and "in_u64 (get_total_recommendations s + length ps)"
  shows "case generate_batch_recommendations e a ps s of
      Inl t \<Rightarrow> t = PanicTrap \<and> (\<exists>p \<in> set ps. \<not> answerable p)
    | Inr (r, s') \<Rightarrow> \<not> (\<exists>p \<in> set ps. \<not> answerable p) \<and> bn_successful r = length ps \<and> bn_failed r = 0
        \<and> list_all2 (\<lambda>p x. \<exists>b. generate_recommendation p = Inr (Inr b) \<and> x = RecSuccess b) ps (bn_results r)
        \<and> get_batch_recommendations s' (bn_batch_id r) = Some (bn_results r)
        \<and> get_total_recommendations s' = get_total_recommendations s + length ps"
proof -
  have ps: "ps \<noteq> []" "length ps \<le> 100" "\<And>p. p \<in> set ps \<Longrightarrow> validate_user_profile p = Inr () \<and> moderate_figures p"
    using assms(3,4) by (auto simp: validate_batch_def MAX_BATCH_SIZE_def list_ex_iff list_all_iff split: if_splits)
  let ?init = "\<lparr>rp_results = [], rp_ok = 0, rp_failed = 0, rp_budget = 0, rp_savings = 0, rp_confidence = 0\<rparr>"
  have frame: "rs_total_users (fold (result_events k) rs w) = rs_total_users w"
    "rs_total_recommendations (fold (result_events k) rs w) = rs_total_recommendations w" for k rs w
  proof (induction rs arbitrary: w)
    case (Cons r rs)
    { case 1 show ?case using Cons(1) by (cases r) (simp_all add: emit_def Let_def) }
    { case 2 show ?case using Cons(2) by (cases r) (simp_all add: emit_def Let_def) }
  qed simp_all
  have admin: "rs_admin s = Some a" using assms(2) by (simp add: get_admin_def split: option.splits)
  note loop = recommendation_loop [of ps ?init, OF ps(3)]
  show ?thesis
  proof (cases "fold_trap recommendation_step ps ?init")
    case (Inl t)
    with loop ps assms(1,3,5) admin show ?thesis
      by (simp add: generate_batch_recommendations_def require_admin_def batch_recommendations_def MAX_BATCH_SIZE_def
          get_last_batch_id_def u64_add_def)
  next
    case (Inr st)
    with loop ps assms(1,3,5-7) admin show ?thesis
      by (auto simp: generate_batch_recommendations_def require_admin_def batch_recommendations_def MAX_BATCH_SIZE_def
          get_last_batch_id_def get_total_users_processed_def get_total_recommendations_def get_batch_recommendations_def
          u64_add_def frame emit_def Let_def)
  qed
qed

definition demo_profile :: "nat \<Rightarrow> int \<Rightarrow> user_profile" where
  "demo_profile i saved = \<lparr>up_user_id = i, up_address = Addr i, up_monthly_income = 1000, up_monthly_expenses = 600,
     up_savings_balance = saved, up_spending_categories = ''food'', up_risk_tolerance = 3\<rparr>"

lemma demo_profile_ok: "0 < i \<Longrightarrow> 0 \<le> n \<Longrightarrow> validate_user_profile (demo_profile i n) = Inr ()" "moderate_figures (demo_profile i n)"
  "answerable (demo_profile i n) \<longleftrightarrow> n < 1200"
  by (simp_all add: validate_user_profile_def demo_profile_def moderate_figures_def answerable_def advised_savings_def
      fund_target_def savings_percentage_def emergency_fund_months_def)

theorem recommendation_answers_witness:
  "simulate_recommendation (demo_profile 1 1200) = Inl PanicTrap
    \<and> (\<exists>r. simulate_recommendation (demo_profile 1 500) = Inr (Some r) \<and> rec_savings r = 100 \<and> rec_budget r = 900)"
proof -
  have a: "validate_user_profile (demo_profile 1 n) = Inr ()" if "0 \<le> n" for n using demo_profile_ok(1) [of 1 n] that by simp
  have s: "advised_savings (demo_profile 1 n) = 100" "fund_target (demo_profile 1 n) = 2400" "up_savings_balance (demo_profile 1 n) = n"
    "up_monthly_income (demo_profile 1 n) = 1000" "up_monthly_expenses (demo_profile 1 n) = 600" for n
    by (simp_all add: demo_profile_def advised_savings_def fund_target_def savings_percentage_def emergency_fund_months_def)
  have "simulate_recommendation (demo_profile 1 1200) = Inl PanicTrap"
    using recommendation_answers [OF a demo_profile_ok(2), of 1200]
    by (cases "simulate_recommendation (demo_profile 1 1200)") (simp_all add: s del: One_nat_def split: option.splits)
  moreover obtain r where "simulate_recommendation (demo_profile 1 500) = Inr (Some r)" "rec_savings r = 100"
    "rec_budget r + rec_savings r = 1000"
    using recommendation_answers [OF a demo_profile_ok(2), of 500]
    by (cases "simulate_recommendation (demo_profile 1 500)") (simp_all add: s del: One_nat_def split: option.splits)
  ultimately show ?thesis by auto
qed

theorem recommendation_batch_spoiled_witness:
  "generate_batch_recommendations (signed_env [Addr 1] 5 50 (Addr 8)) (Addr 1) [demo_profile 1 500, demo_profile 2 1200]
      (recommendations_fresh\<lparr>rs_admin := Some (Addr 1)\<rparr>) = Inl PanicTrap"
proof -
  let ?s = "recommendations_fresh\<lparr>rs_admin := Some (Addr 1)\<rparr>" and ?ps = "[demo_profile 1 500, demo_profile 2 1200]"
  let ?e = "signed_env [Addr 1] 5 50 (Addr 8)"
  have "env_auth ?e (Addr 1)" "get_admin ?s = Inr (Addr 1)" "validate_batch ?ps = Inr ()" "list_all moderate_figures ?ps"
    "in_u64 (get_last_batch_id ?s + 1)" "in_u64 (get_total_users_processed ?s + length ?ps)"
    "in_u64 (get_total_recommendations ?s + length ?ps)"
    by (simp_all add: get_admin_def validate_batch_def MAX_BATCH_SIZE_def demo_profile_ok get_last_batch_id_def
        get_total_users_processed_def get_total_recommendations_def recommendations_fresh_def in_u64_def)
  from recommendation_batch_spoiled [OF this] show ?thesis
    by (auto simp: demo_profile_ok split: sum.splits)
qed

end
