(* ===== verification/Allowances.thy ===== *)
theory Allowances imports Schedule Token begin

text \<open>
  \<open>contracts/allowances/src\<close> (\<open>lib.rs\<close>, \<open>types.rs\<close>): allowances an owner grants a recipient, paid out of the
  owner's account by \<open>transfer_from\<close> on a schedule.  The token is the parameters \<open>pull\<close>, where
  \<open>pull e t a b n l\<close> is the ledger after \<open>transfer_from(current contract, a, b, n)\<close>, and \<open>bal\<close>.

  In \<open>lib.rs\<close> the bodies of \<open>approve_allowance\<close>, \<open>set_spending_limit\<close> and \<open>set_expiration\<close> are cut into one
  another by a merge, and \<open>AllowanceError\<close> has three variants with the same number, so the crate does not
  build.  The three functions are left out; everything else is modelled, the branches of \<open>distribute\<close> on the
  limit and the end date included.
\<close>

section \<open>Data (types.rs)\<close>

datatype frequency = Once | Daily | Weekly | Monthly

definition interval_seconds :: "frequency \<Rightarrow> nat option" where
  "interval_seconds f = (case f of Once \<Rightarrow> None | Daily \<Rightarrow> Some 86400 | Weekly \<Rightarrow> Some 604800 | Monthly \<Rightarrow> Some 2592000)"

record allowance =
  al_owner :: address
  al_recipient :: address
  al_token :: address
  al_amount :: int
  al_frequency :: frequency
  al_next_distribution :: nat
  al_distribution_count :: nat
  al_active :: bool
  al_paused :: bool
  al_pending_approval :: bool
  al_spending_limit :: int
  al_end_date :: nat

record payment_record =
  pay_amount :: int
  pay_timestamp :: nat
  pay_recipient :: address

record allowance_analytics =
  aa_total_distributed :: int
  aa_distribution_count :: nat
  aa_average_payment :: int
  aa_remaining :: int

datatype allowance_error =
    NotFound | Unauthorized | InvalidAmount | InvalidInterval | AlreadyInactive | TooEarlyToDistribute
  | InsufficientBalance | AlreadyPaused | NotPaused | Paused | ApproverNotConfigured | NotPendingApproval
  | ApprovalRequired | InvalidThreshold | SpendingLimitExceeded | InvalidLimit | Expired | InvalidExpiration

datatype allowance_event =
    EvCreated nat address address int frequency
  | EvPayment nat address int
  | EvDistributed nat address int nat
  | EvPaused nat address
  | EvResumed nat address
  | EvCanceled nat address
  | EvBeneficiary nat address address
  | EvApprovalConfig address int
  | EvOwnership nat address address

record allowances_state =
  aw_count :: "nat option"
  aw_allowance :: "nat \<rightharpoonup> allowance"
  aw_owner_allowances :: "address \<rightharpoonup> nat list"
  aw_recipient_allowances :: "address \<rightharpoonup> nat list"
  aw_approver :: "address option"
  aw_approval_threshold :: "int option"
  aw_history :: "nat \<rightharpoonup> payment_record list"
  aw_events :: "allowance_event list"

definition allowances_fresh :: allowances_state where
  "allowances_fresh = \<lparr>aw_count = None, aw_allowance = Map.empty, aw_owner_allowances = Map.empty,
     aw_recipient_allowances = Map.empty, aw_approver = None, aw_approval_threshold = None,
     aw_history = Map.empty, aw_events = []\<rparr>"

type_synonym ('led, 'a) allowance_outcome = "(allowances_state \<times> 'led, allowance_error, 'a) outcome"

section \<open>Storage helpers (lib.rs)\<close>

definition emit :: "allowance_event \<Rightarrow> allowances_state \<Rightarrow> allowances_state" where
  "emit ev s = s\<lparr>aw_events := aw_events s @ [ev]\<rparr>"

definition load_allowance :: "nat \<Rightarrow> allowances_state \<Rightarrow> allowance_error trap + allowance" where
  "load_allowance i s = (case aw_allowance s i of None \<Rightarrow> Inl (ContractError NotFound) | Some a \<Rightarrow> Inr a)"

definition save_allowance :: "nat \<Rightarrow> allowance \<Rightarrow> allowances_state \<Rightarrow> allowances_state" where
  "save_allowance i a s = s\<lparr>aw_allowance := (aw_allowance s)(i \<mapsto> a)\<rparr>"

text \<open>\<open>append_index\<close> for the two index keys.\<close>

definition append_owner :: "address \<Rightarrow> nat \<Rightarrow> allowances_state \<Rightarrow> allowances_state" where
  "append_owner u i s = s\<lparr>aw_owner_allowances := (aw_owner_allowances s)(u \<mapsto> unwrap_or (aw_owner_allowances s u) [] @ [i])\<rparr>"

definition append_recipient :: "address \<Rightarrow> nat \<Rightarrow> allowances_state \<Rightarrow> allowances_state" where
  "append_recipient u i s =
    s\<lparr>aw_recipient_allowances := (aw_recipient_allowances s)(u \<mapsto> unwrap_or (aw_recipient_allowances s u) [] @ [i])\<rparr>"

section \<open>Operations\<close>

definition create_allowance :: "env \<Rightarrow> address \<Rightarrow> address \<Rightarrow> address \<Rightarrow> int \<Rightarrow> frequency \<Rightarrow> nat
    \<Rightarrow> allowances_state \<times> 'led \<Rightarrow> ('led, nat) allowance_outcome" where
  "create_allowance e ow recipient token amount freq start_time w = (case w of (s, l) \<Rightarrow>
     if \<not> env_auth e ow then Inl AuthTrap else
     if amount \<le> 0 then Inl (ContractError InvalidAmount) else
     case u64_add (unwrap_or (aw_count s) 0) 1 of None \<Rightarrow> Inl ArithTrap | Some count \<Rightarrow>
     let requires_approval = (case aw_approval_threshold s of Some threshold \<Rightarrow> threshold < amount | None \<Rightarrow> False);
         a = \<lparr>al_owner = ow, al_recipient = recipient, al_token = token, al_amount = amount, al_frequency = freq,
              al_next_distribution = start_time, al_distribution_count = 0, al_active = \<not> requires_approval,
              al_paused = False, al_pending_approval = requires_approval, al_spending_limit = 0, al_end_date = 0\<rparr>;
         s1 = (save_allowance count a s)\<lparr>aw_count := Some count\<rparr>;
         s2 = append_recipient recipient count (append_owner ow count s1) in
     Inr (count, emit (EvCreated count ow recipient amount freq) s2, l))"

definition reschedule :: "nat \<Rightarrow> allowance \<Rightarrow> allowance option" where
  "reschedule now a = (case interval_seconds (al_frequency a) of
     None \<Rightarrow> Some (a\<lparr>al_active := False, al_next_distribution := 0\<rparr>)
   | Some interval \<Rightarrow>
      (case u64_add (al_next_distribution a) interval of None \<Rightarrow> None | Some next \<Rightarrow>
       case catch_up now interval next of None \<Rightarrow> None | Some next1 \<Rightarrow> Some (a\<lparr>al_next_distribution := next1\<rparr>)))"

text \<open>The cumulative cap: \<open>Inr ()\<close> when the next payment stays within it.\<close>

definition check_limit :: "allowance \<Rightarrow> allowance_error trap + unit" where
  "check_limit a =
    (if 0 < al_spending_limit a then
       case u64_add (al_distribution_count a) 1 of None \<Rightarrow> Inl ArithTrap | Some k \<Rightarrow>
       case checked_mul (al_amount a) (int k) of None \<Rightarrow> Inl (ContractError SpendingLimitExceeded) | Some projected \<Rightarrow>
       if al_spending_limit a < projected then Inl (ContractError SpendingLimitExceeded) else Inr ()
     else Inr ())"

definition distribute :: "'led xfer \<Rightarrow> ('led \<Rightarrow> address \<Rightarrow> address \<Rightarrow> int) \<Rightarrow> env \<Rightarrow> nat
    \<Rightarrow> allowances_state \<times> 'led \<Rightarrow> ('led, unit) allowance_outcome" where
  "distribute pull bal e i w = (case w of (s, l) \<Rightarrow>
     case load_allowance i s of Inl t \<Rightarrow> Inl t | Inr a \<Rightarrow>
     if al_pending_approval a then Inl (ContractError ApprovalRequired) else
     if \<not> al_active a then Inl (ContractError AlreadyInactive) else
     if al_paused a then Inl (ContractError Paused) else
     let now = env_timestamp e in
     if al_end_date a \<noteq> 0 \<and> al_end_date a \<le> now then Inl (ContractError Expired) else
     if now < al_next_distribution a then Inl (ContractError TooEarlyToDistribute) else
     case check_limit a of Inl t \<Rightarrow> Inl t | Inr _ \<Rightarrow>
     if bal l (al_token a) (al_owner a) < al_amount a then Inl (ContractError InsufficientBalance) else
     case pull e (al_token a) (al_owner a) (al_recipient a) (al_amount a) l of None \<Rightarrow> Inl CallTrap | Some l1 \<Rightarrow>
     case u64_add (al_distribution_count a) 1 of None \<Rightarrow> Inl ArithTrap | Some count \<Rightarrow>
     let a1 = a\<lparr>al_distribution_count := count\<rparr>;
         history = unwrap_or (aw_history s i) []
           @ [\<lparr>pay_amount = al_amount a1, pay_timestamp = now, pay_recipient = al_recipient a1\<rparr>];
         s1 = s\<lparr>aw_history := (aw_history s)(i \<mapsto> history)\<rparr> in
     case reschedule now a1 of None \<Rightarrow> Inl ArithTrap | Some a2 \<Rightarrow>
     Inr ((), emit (EvDistributed i (al_recipient a2) (al_amount a2) (al_next_distribution a2))
            (emit (EvPayment i (al_recipient a2) (al_amount a2)) (save_allowance i a2 s1)), l1))"

definition pause_allowance :: "env \<Rightarrow> nat \<Rightarrow> allowances_state \<times> 'led \<Rightarrow> ('led, unit) allowance_outcome" where
  "pause_allowance e i w = (case w of (s, l) \<Rightarrow>
     case load_allowance i s of Inl t \<Rightarrow> Inl t | Inr a \<Rightarrow>
     if \<not> env_auth e (al_owner a) then Inl AuthTrap else
     if \<not> al_active a then Inl (ContractError AlreadyInactive) else
     if al_paused a then Inl (ContractError AlreadyPaused) else
     Inr ((), emit (EvPaused i (al_owner a)) (save_allowance i (a\<lparr>al_paused := True\<rparr>) s), l))"

definition resume_allowance :: "env \<Rightarrow> nat \<Rightarrow> allowances_state \<times> 'led \<Rightarrow> ('led, unit) allowance_outcome" where
  "resume_allowance e i w = (case w of (s, l) \<Rightarrow>
     case load_allowance i s of Inl t \<Rightarrow> Inl t | Inr a \<Rightarrow>
     if \<not> env_auth e (al_owner a) then Inl AuthTrap else
     if \<not> al_active a then Inl (ContractError AlreadyInactive) else
     if \<not> al_paused a then Inl (ContractError NotPaused) else
     Inr ((), emit (EvResumed i (al_owner a)) (save_allowance i (a\<lparr>al_paused := False\<rparr>) s), l))"

definition cancel_allowance :: "env \<Rightarrow> nat \<Rightarrow> allowances_state \<times> 'led \<Rightarrow> ('led, unit) allowance_outcome" where
  "cancel_allowance e i w = (case w of (s, l) \<Rightarrow>
     case load_allowance i s of Inl t \<Rightarrow> Inl t | Inr a \<Rightarrow>
     if \<not> env_auth e (al_owner a) then Inl AuthTrap else
     if \<not> al_active a then Inl (ContractError AlreadyInactive) else
     Inr ((), emit (EvCanceled i (al_owner a)) (save_allowance i (a\<lparr>al_active := False\<rparr>) s), l))"

definition update_beneficiary :: "env \<Rightarrow> nat \<Rightarrow> address \<Rightarrow> allowances_state \<times> 'led \<Rightarrow> ('led, unit) allowance_outcome" where
  "update_beneficiary e i new_recipient w = (case w of (s, l) \<Rightarrow>
     case load_allowance i s of Inl t \<Rightarrow> Inl t | Inr a \<Rightarrow>
     if \<not> env_auth e (al_owner a) then Inl AuthTrap else
     if \<not> al_active a then Inl (ContractError AlreadyInactive) else
     let s1 = save_allowance i (a\<lparr>al_recipient := new_recipient\<rparr>) s in
     Inr ((), emit (EvBeneficiary i (al_recipient a) new_recipient) (append_recipient new_recipient i s1), l))"

definition set_approval_config :: "env \<Rightarrow> address \<Rightarrow> int \<Rightarrow> allowances_state \<times> 'led \<Rightarrow> ('led, unit) allowance_outcome" where
  "set_approval_config e approver threshold w = (case w of (s, l) \<Rightarrow>
     if threshold \<le> 0 then Inl (ContractError InvalidThreshold) else
     if \<not> env_auth e (case aw_approver s of Some current \<Rightarrow> current | None \<Rightarrow> approver) then Inl AuthTrap else
     Inr ((), emit (EvApprovalConfig approver threshold)
       (s\<lparr>aw_approver := Some approver, aw_approval_threshold := Some threshold\<rparr>), l))"

definition transfer_ownership :: "env \<Rightarrow> nat \<Rightarrow> address \<Rightarrow> allowances_state \<times> 'led \<Rightarrow> ('led, unit) allowance_outcome" where
  "transfer_ownership e i new_owner w = (case w of (s, l) \<Rightarrow>
     case load_allowance i s of Inl t \<Rightarrow> Inl t | Inr a \<Rightarrow>
     if \<not> env_auth e (al_owner a) then Inl AuthTrap else
     if \<not> al_active a then Inl (ContractError AlreadyInactive) else
     let old_owner = al_owner a;
         remaining = filter (\<lambda>k. k \<noteq> i) (unwrap_or (aw_owner_allowances s old_owner) []);
         s1 = s\<lparr>aw_owner_allowances := (aw_owner_allowances s)(old_owner \<mapsto> remaining)\<rparr>;
         s2 = append_owner new_owner i s1;
         s3 = save_allowance i (a\<lparr>al_owner := new_owner\<rparr>) s2 in
     Inr ((), emit (EvOwnership i old_owner new_owner) s3, l))"

section \<open>Queries\<close>

definition is_expired :: "env \<Rightarrow> nat \<Rightarrow> allowances_state \<Rightarrow> allowance_error trap + bool" where
  "is_expired e i s = (case load_allowance i s of Inl t \<Rightarrow> Inl t | Inr a \<Rightarrow>
     Inr (al_end_date a \<noteq> 0 \<and> al_end_date a \<le> env_timestamp e))"

definition get_allowance :: "nat \<Rightarrow> allowances_state \<Rightarrow> allowance_error trap + allowance" where
  "get_allowance i s = load_allowance i s"

definition saturating_mul :: "int \<Rightarrow> int \<Rightarrow> int" where
  "saturating_mul a b = max i128_min (min i128_max (a * b))"

definition get_allowance_analytics :: "('led \<Rightarrow> address \<Rightarrow> address \<Rightarrow> int) \<Rightarrow> nat \<Rightarrow> allowances_state \<times> 'led
    \<Rightarrow> allowance_error trap + allowance_analytics" where
  "get_allowance_analytics bal i w = (case w of (s, l) \<Rightarrow>
     case load_allowance i s of Inl t \<Rightarrow> Inl t | Inr a \<Rightarrow>
     let count = int (al_distribution_count a);
         total_distributed = saturating_mul (al_amount a) count;
         average_payment = (if count = 0 then 0 else quot total_distributed count) in
     Inr \<lparr>aa_total_distributed = total_distributed, aa_distribution_count = al_distribution_count a,
          aa_average_payment = average_payment, aa_remaining = bal l (al_token a) (al_owner a)\<rparr>)"

definition get_owner_allowances :: "address \<Rightarrow> allowances_state \<Rightarrow> nat list" where
  "get_owner_allowances u s = unwrap_or (aw_owner_allowances s u) []"

definition get_allowance_history :: "nat \<Rightarrow> allowances_state \<Rightarrow> payment_record list" where
  "get_allowance_history i s = unwrap_or (aw_history s i) []"

definition get_recipient_allowances :: "address \<Rightarrow> allowances_state \<Rightarrow> nat list" where
  "get_recipient_allowances u s = unwrap_or (aw_recipient_allowances s u) []"

definition allowance_count :: "allowances_state \<Rightarrow> nat" where
  "allowance_count s = unwrap_or (aw_count s) 0"

datatype allowances_call =
    CCreate address address address int frequency nat
  | CDistribute nat
  | CPause nat
  | CResume nat
  | CCancel nat
  | CBeneficiary nat address
  | CApproval address int
  | CTransfer nat address

fun allowances_exec :: "'led xfer \<Rightarrow> ('led \<Rightarrow> address \<Rightarrow> address \<Rightarrow> int) \<Rightarrow> env \<times> allowances_call
    \<Rightarrow> allowances_state \<times> 'led \<Rightarrow> allowance_error trap + (allowances_state \<times> 'led)" where
  "allowances_exec pull bal (e, CCreate a b t n f st) w = final (create_allowance e a b t n f st w)"
| "allowances_exec pull bal (e, CDistribute i) w = final (distribute pull bal e i w)"
| "allowances_exec pull bal (e, CPause i) w = final (pause_allowance e i w)"
| "allowances_exec pull bal (e, CResume i) w = final (resume_allowance e i w)"
| "allowances_exec pull bal (e, CCancel i) w = final (cancel_allowance e i w)"
| "allowances_exec pull bal (e, CBeneficiary i b) w = final (update_beneficiary e i b w)"
| "allowances_exec pull bal (e, CApproval a n) w = final (set_approval_config e a n w)"
| "allowances_exec pull bal (e, CTransfer i b) w = final (transfer_ownership e i b w)"
section \<open>The payments keep the schedule\<close>

lemma allowances_frame [simp]:
  "aw_allowance (emit ev s) = aw_allowance s" "aw_history (emit ev s) = aw_history s" "aw_count (emit ev s) = aw_count s"
  "aw_owner_allowances (emit ev s) = aw_owner_allowances s"
  "aw_allowance (save_allowance i a s) = (aw_allowance s)(i \<mapsto> a)" "aw_history (save_allowance i a s) = aw_history s"
  "aw_count (save_allowance i a s) = aw_count s" "aw_owner_allowances (save_allowance i a s) = aw_owner_allowances s"
  "aw_allowance (append_owner u i s) = aw_allowance s" "aw_history (append_owner u i s) = aw_history s"
  "aw_count (append_owner u i s) = aw_count s"
  "aw_owner_allowances (append_owner u i s) = (aw_owner_allowances s)(u \<mapsto> get_owner_allowances u s @ [i])"
  "aw_allowance (append_recipient u i s) = aw_allowance s" "aw_history (append_recipient u i s) = aw_history s"
  "aw_count (append_recipient u i s) = aw_count s" "aw_owner_allowances (append_recipient u i s) = aw_owner_allowances s"
  by (simp_all add: emit_def save_allowance_def append_owner_def append_recipient_def get_owner_allowances_def)

lemma load_Inr [simp]: "load_allowance i s = Inr a \<longleftrightarrow> aw_allowance s i = Some a"
  by (simp add: load_allowance_def split: option.splits)

text \<open>Payments that are \<open>n\<close> apart in the history are more than \<open>n - 1\<close> intervals apart in time.\<close>

definition spaced :: "nat \<Rightarrow> payment_record list \<Rightarrow> bool" where
  "spaced d h \<longleftrightarrow> (\<forall>k < length h. \<forall>j < k. pay_timestamp (h ! j) + (k - Suc j) * d < pay_timestamp (h ! k))"

definition due_after :: "nat \<Rightarrow> payment_record list \<Rightarrow> nat \<Rightarrow> bool" where
  "due_after d h next \<longleftrightarrow> (\<forall>j < length h. pay_timestamp (h ! j) + (length h - Suc j) * d < next)"

lemma spaced_snoc:
  assumes "spaced d h" and "due_after d h next" and "next \<le> pay_timestamp p"
  shows "spaced d (h @ [p])"
  using assms by (auto simp: spaced_def due_after_def nth_append less_Suc_eq intro: less_le_trans)

lemma due_after_snoc:
  assumes "due_after d h next" and "next + d \<le> next'" and "pay_timestamp p < next'"
  shows "due_after d (h @ [p]) next'"
  unfolding due_after_def
proof (intro allI impI)
  fix j assume j: "j < length (h @ [p])"
  show "pay_timestamp ((h @ [p]) ! j) + (length (h @ [p]) - Suc j) * d < next'"
  proof (cases "j < length h")
    case True
    then have "pay_timestamp (h ! j) + (length h - Suc j) * d < next" using assms(1) by (simp add: due_after_def)
    moreover have "length (h @ [p]) - Suc j = Suc (length h - Suc j)" using True by simp
    ultimately show ?thesis using True assms(2) by (simp add: nth_append)
  qed (use j assms(3) in \<open>simp add: nth_append less_Suc_eq\<close>)
qed

definition kept :: "allowance \<Rightarrow> payment_record list \<Rightarrow> bool" where
  "kept a h \<longleftrightarrow> 0 < al_amount a \<and> length h = al_distribution_count a \<and> (\<forall>p\<in>set h. pay_amount p = al_amount a)
    \<and> (case interval_seconds (al_frequency a) of
         None \<Rightarrow> length h \<le> 1 \<and> (al_active a \<longrightarrow> h = [])
       | Some d \<Rightarrow> spaced d h \<and> due_after d h (al_next_distribution a))"

definition allowances_inv :: "allowances_state \<Rightarrow> bool" where
  "allowances_inv s \<longleftrightarrow> (\<forall>i. aw_allowance s i = None \<longleftrightarrow> \<not> (1 \<le> i \<and> i \<le> allowance_count s))
    \<and> (\<forall>i a. aw_allowance s i = Some a \<longrightarrow> kept a (get_allowance_history i s))
    \<and> (\<forall>i. aw_allowance s i = None \<longrightarrow> get_allowance_history i s = [])
    \<and> (\<forall>u. distinct (get_owner_allowances u s)
         \<and> set (get_owner_allowances u s) = {i. \<exists>a. aw_allowance s i = Some a \<and> al_owner a = u})"

lemma allowances_inv_fresh: "allowances_inv allowances_fresh"
  by (simp add: allowances_inv_def allowances_fresh_def allowance_count_def get_allowance_history_def get_owner_allowances_def)

text \<open>The calls that change one record without a payment.\<close>

definition same_plan :: "allowance \<Rightarrow> allowance \<Rightarrow> bool" where
  "same_plan a b \<longleftrightarrow> al_amount b = al_amount a \<and> al_distribution_count b = al_distribution_count a
     \<and> al_frequency b = al_frequency a \<and> al_next_distribution b = al_next_distribution a
     \<and> (al_active b \<longrightarrow> al_active a) \<and> al_pending_approval b = al_pending_approval a"

lemma kept_same_plan: "kept a h \<Longrightarrow> same_plan a b \<Longrightarrow> kept b h"
  by (auto simp: kept_def same_plan_def split: option.splits)

lemma inv_replace:
  assumes inv: "allowances_inv s" and a: "aw_allowance s i = Some a" and b: "aw_allowance s' = (aw_allowance s)(i \<mapsto> b)"
    and "al_owner b = al_owner a" and "kept b (get_allowance_history i s')"
    and "\<And>j. j \<noteq> i \<Longrightarrow> get_allowance_history j s' = get_allowance_history j s"
    and "aw_count s' = aw_count s" and "aw_owner_allowances s' = aw_owner_allowances s"
  shows "allowances_inv s'"
proof -
  have count: "allowance_count s' = allowance_count s" and own: "get_owner_allowances u s' = get_owner_allowances u s" for u
    using assms(7,8) by (simp_all add: allowance_count_def get_owner_allowances_def)
  have dom: "aw_allowance s' j = None \<longleftrightarrow> aw_allowance s j = None" for j using a b by simp
  have "{j. \<exists>x. aw_allowance s' j = Some x \<and> al_owner x = u} = {j. \<exists>x. aw_allowance s j = Some x \<and> al_owner x = u}" for u
    using a b assms(4) by auto
  moreover have "kept x (get_allowance_history j s')" if "aw_allowance s' j = Some x" for j x
    using that inv assms(5,6) b by (cases "j = i") (auto simp: allowances_inv_def)
  moreover have "get_allowance_history j s' = []" if "aw_allowance s' j = None" for j
    using that inv assms(6) a b dom by (cases "j = i") (auto simp: allowances_inv_def)
  ultimately show ?thesis using inv by (simp add: allowances_inv_def dom count own)
qed

lemma inv_same_plan:
  assumes "allowances_inv s" and "aw_allowance s i = Some a" and "aw_allowance s' = (aw_allowance s)(i \<mapsto> b)"
    and "same_plan a b" and "al_owner b = al_owner a"
    and "aw_history s' = aw_history s" and "aw_count s' = aw_count s" and "aw_owner_allowances s' = aw_owner_allowances s"
  shows "allowances_inv s'"
proof (rule inv_replace [OF assms(1-3,5)])
  have h: "get_allowance_history j s' = get_allowance_history j s" for j using assms(6) by (simp add: get_allowance_history_def)
  show "get_allowance_history j s' = get_allowance_history j s" for j by (rule h)
  have "kept a (get_allowance_history i s)" using assms(1,2) by (simp add: allowances_inv_def)
  with assms(4) show "kept b (get_allowance_history i s')" unfolding h by (blast intro: kept_same_plan)
qed (fact assms)+

lemma reschedule_kept:
  assumes "kept a h" and "al_active a" and "al_next_distribution a \<le> now"
    and "reschedule now (a\<lparr>al_distribution_count := Suc (al_distribution_count a)\<rparr>) = Some b"
  shows "kept b (h @ [\<lparr>pay_amount = al_amount a, pay_timestamp = now, pay_recipient = r\<rparr>])
    \<and> al_owner b = al_owner a \<and> al_amount b = al_amount a \<and> al_recipient b = al_recipient a
    \<and> al_distribution_count b = Suc (al_distribution_count a)
    \<and> (case interval_seconds (al_frequency a) of None \<Rightarrow> \<not> al_active b
       | Some d \<Rightarrow> now < al_next_distribution b \<and> al_next_distribution b \<le> now + d)"
proof (cases "interval_seconds (al_frequency a)")
  case None
  with assms show ?thesis by (auto simp: reschedule_def kept_def)
next
  case (Some d)
  have d: "0 < d" using Some by (auto simp: interval_seconds_def split: frequency.splits)
  from assms(4) Some obtain next1 where c: "catch_up now d (al_next_distribution a + d) = Some next1"
    and b: "b = a\<lparr>al_distribution_count := Suc (al_distribution_count a), al_next_distribution := next1\<rparr>"
    by (auto simp: reschedule_def split: option.splits)
  from catch_up_Some [OF c d] assms(3) have next1: "now < next1" "next1 \<le> now + d" "al_next_distribution a + d \<le> next1"
    by auto
  have old: "spaced d h" "due_after d h (al_next_distribution a)" using assms(1) Some by (simp_all add: kept_def)
  have "spaced d (h @ [\<lparr>pay_amount = al_amount a, pay_timestamp = now, pay_recipient = r\<rparr>])"
    by (rule spaced_snoc [OF old]) (simp add: assms(3))
  moreover have "due_after d (h @ [\<lparr>pay_amount = al_amount a, pay_timestamp = now, pay_recipient = r\<rparr>]) next1"
    by (rule due_after_snoc [OF old(2) next1(3)]) (simp add: next1(1))
  ultimately show ?thesis using assms(1) Some next1 by (simp add: b kept_def)
qed

lemma allowance_distribute_Inr:
  assumes "distribute pull bal e i (s, l) = Inr (u, s', l')"
  shows "\<exists>a b. aw_allowance s i = Some a \<and> \<not> al_pending_approval a \<and> al_active a \<and> \<not> al_paused a
    \<and> al_next_distribution a \<le> env_timestamp e \<and> (al_end_date a = 0 \<or> env_timestamp e < al_end_date a)
    \<and> check_limit a = Inr () \<and> al_amount a \<le> bal l (al_token a) (al_owner a)
    \<and> pull e (al_token a) (al_owner a) (al_recipient a) (al_amount a) l = Some l'
    \<and> reschedule (env_timestamp e) (a\<lparr>al_distribution_count := Suc (al_distribution_count a)\<rparr>) = Some b
    \<and> aw_allowance s' = (aw_allowance s)(i \<mapsto> b)
    \<and> aw_history s' = (aw_history s)(i \<mapsto> get_allowance_history i s
        @ [\<lparr>pay_amount = al_amount a, pay_timestamp = env_timestamp e, pay_recipient = al_recipient a\<rparr>])
    \<and> aw_count s' = aw_count s \<and> aw_owner_allowances s' = aw_owner_allowances s"
  using assms
  by (auto simp: distribute_def Let_def get_allowance_history_def not_less split: sum.splits option.splits if_splits)

lemma distribute_inv:
  assumes run: "distribute pull bal e i (s, l) = Inr (u, s', l')" and inv: "allowances_inv s"
  shows "allowances_inv s'"
proof -
  from allowance_distribute_Inr [OF run] obtain a b where a: "aw_allowance s i = Some a" "al_active a" "al_next_distribution a \<le> env_timestamp e"
    and b: "reschedule (env_timestamp e) (a\<lparr>al_distribution_count := Suc (al_distribution_count a)\<rparr>) = Some b"
    and s': "aw_allowance s' = (aw_allowance s)(i \<mapsto> b)" "aw_count s' = aw_count s" "aw_owner_allowances s' = aw_owner_allowances s"
      "aw_history s' = (aw_history s)(i \<mapsto> get_allowance_history i s
        @ [\<lparr>pay_amount = al_amount a, pay_timestamp = env_timestamp e, pay_recipient = al_recipient a\<rparr>])" by blast
  have "kept a (get_allowance_history i s)" using inv a(1) by (simp add: allowances_inv_def)
  note k = reschedule_kept [OF this a(2,3) b]
  show ?thesis
    by (rule inv_replace [OF inv a(1) s'(1)]) (use k s' in \<open>simp_all add: get_allowance_history_def\<close>)
qed

lemma allowance_create_inv:
  assumes "create_allowance e ow r t n f st (s, l) = Inr (i, s', l')" and inv: "allowances_inv s"
  shows "allowances_inv s'"
proof -
  let ?i = "Suc (allowance_count s)"
  from assms(1) obtain a where n: "0 < n" and s': "aw_allowance s' = (aw_allowance s)(?i \<mapsto> a)" "aw_count s' = Some ?i"
      "aw_owner_allowances s' = (aw_owner_allowances s)(ow \<mapsto> get_owner_allowances ow s @ [?i])" "aw_history s' = aw_history s"
    and a: "al_owner a = ow" "al_amount a = n" "al_distribution_count a = 0"
    by (auto simp: create_allowance_def Let_def allowance_count_def get_owner_allowances_def split: if_splits option.splits)
  have dom: "aw_allowance s j = None \<longleftrightarrow> \<not> (1 \<le> j \<and> j \<le> allowance_count s)" for j
    using inv by (simp add: allowances_inv_def)
  have h: "get_allowance_history j s' = get_allowance_history j s" for j using s'(4) by (simp add: get_allowance_history_def)
  have free: "aw_allowance s ?i = None" by (simp add: dom)
  then have empty: "get_allowance_history ?i s = []" using inv by (simp add: allowances_inv_def)
  have total: "allowance_count s' = ?i" by (simp add: allowance_count_def s')
  have own: "get_owner_allowances v s' = get_owner_allowances v s @ (if v = ow then [?i] else [])" for v
    by (simp add: get_owner_allowances_def s')
  show ?thesis
    unfolding allowances_inv_def total
  proof (intro conjI allI impI)
    show "aw_allowance s' j = None \<longleftrightarrow> \<not> (1 \<le> j \<and> j \<le> ?i)" for j using dom [of j] by (auto simp: s' le_Suc_eq)
    show "kept b (get_allowance_history j s')" if "aw_allowance s' j = Some b" for j b
    proof (cases "j = ?i")
      case True
      with that n a empty h show ?thesis by (auto simp: kept_def s' spaced_def due_after_def split: option.splits)
    next
      case False
      with that inv h s' show ?thesis by (simp add: allowances_inv_def)
    qed
    show "get_allowance_history j s' = []" if "aw_allowance s' j = None" for j
      using that inv h s' by (simp add: allowances_inv_def split: if_splits)
    have old: "distinct (get_owner_allowances v s) \<and> set (get_owner_allowances v s) = {j. \<exists>a. aw_allowance s j = Some a \<and> al_owner a = v}" for v
      using inv by (simp add: allowances_inv_def)
    show "distinct (get_owner_allowances v s')" for v using old [of v] free by (auto simp: own)
    show "set (get_owner_allowances v s') = {j. \<exists>a. aw_allowance s' j = Some a \<and> al_owner a = v}" for v
      using old [of v] free a by (auto simp: own s')
  qed
qed

lemma allowance_transfer_inv:
  assumes "transfer_ownership e i b (s, l) = Inr (u, s', l')" and inv: "allowances_inv s"
  shows "allowances_inv s'"
proof -
  from assms(1) obtain a where a: "aw_allowance s i = Some a"
    and s': "aw_allowance s' = (aw_allowance s)(i \<mapsto> a\<lparr>al_owner := b\<rparr>)" "aw_count s' = aw_count s" "aw_history s' = aw_history s"
      "\<And>v. get_owner_allowances v s' = (if v = b then (if b = al_owner a then filter (\<lambda>k. k \<noteq> i) (get_owner_allowances v s) else get_owner_allowances v s) @ [i]
         else if v = al_owner a then filter (\<lambda>k. k \<noteq> i) (get_owner_allowances v s) else get_owner_allowances v s)"
    by (auto simp: transfer_ownership_def Let_def get_owner_allowances_def split: if_splits sum.splits option.splits)
  have old: "distinct (get_owner_allowances v s)" "set (get_owner_allowances v s) = {j. \<exists>a. aw_allowance s j = Some a \<and> al_owner a = v}" for v
    using inv by (simp_all add: allowances_inv_def)
  have h: "get_allowance_history j s' = get_allowance_history j s" for j using s'(3) by (simp add: get_allowance_history_def)
  have count: "allowance_count s' = allowance_count s" using s'(2) by (simp add: allowance_count_def)
  have "kept a (get_allowance_history i s)" using inv a by (simp add: allowances_inv_def)
  then have k: "kept (a\<lparr>al_owner := b\<rparr>) (get_allowance_history i s)" by (rule kept_same_plan) (simp add: same_plan_def)
  show ?thesis
    unfolding allowances_inv_def count
  proof (intro conjI allI impI)
    show "aw_allowance s' j = None \<longleftrightarrow> \<not> (1 \<le> j \<and> j \<le> allowance_count s)" for j
    proof -
      have "aw_allowance s j = None \<longleftrightarrow> \<not> (1 \<le> j \<and> j \<le> allowance_count s)" using inv by (simp add: allowances_inv_def)
      with a show ?thesis by (cases "j = i") (simp_all add: s')
    qed
    show "kept x (get_allowance_history j s')" if "aw_allowance s' j = Some x" for j x
      using that inv k by (cases "j = i") (simp_all add: s' h allowances_inv_def)
    show "get_allowance_history j s' = []" if "aw_allowance s' j = None" for j
      using that inv by (simp add: s' h allowances_inv_def split: if_splits)
    show "distinct (get_owner_allowances v s')" for v
      using old [of v] a by (auto simp: s'(4))
    show "set (get_owner_allowances v s') = {j. \<exists>x. aw_allowance s' j = Some x \<and> al_owner x = v}" for v
      using old(2) [of v] a by (auto simp: s')
  qed
qed

lemma allowances_exec_inv:
  assumes run: "allowances_exec pull bal k w = Inr w'" and inv: "allowances_inv (fst w)"
  shows "allowances_inv (fst w')"
proof -
  obtain e c s l s' l' where eq: "k = (e, c)" "w = (s, l)" "w' = (s', l')" by (cases k; cases w; cases w')
  have "allowances_inv s'"
  proof (cases c)
    case (CCreate a b t n f st)
    with run inv show ?thesis by (auto simp: eq intro: allowance_create_inv)
  next
    case (CDistribute i)
    with run inv show ?thesis by (auto simp: eq intro: distribute_inv)
  next
    case (CTransfer i b)
    with run inv show ?thesis by (auto simp: eq intro: allowance_transfer_inv)
  next
    case (CApproval a n)
    with run inv show ?thesis
      by (auto simp: eq set_approval_config_def allowances_inv_def allowance_count_def get_allowance_history_def
          get_owner_allowances_def split: if_splits)
  next
    case (CPause i)
    with run inv show ?thesis
      by (auto simp: eq pause_allowance_def same_plan_def split: if_splits sum.splits intro!: inv_same_plan [where s = s and i = i])
  next
    case (CResume i)
    with run inv show ?thesis
      by (auto simp: eq resume_allowance_def same_plan_def split: if_splits sum.splits intro!: inv_same_plan [where s = s and i = i])
  next
    case (CCancel i)
    with run inv show ?thesis
      by (auto simp: eq cancel_allowance_def same_plan_def split: if_splits sum.splits intro!: inv_same_plan [where s = s and i = i])
  next
    case (CBeneficiary i b)
    with run inv show ?thesis
      by (auto simp: eq update_beneficiary_def same_plan_def Let_def split: if_splits sum.splits intro!: inv_same_plan [where s = s and i = i])
  qed
  then show ?thesis by (simp add: eq)
qed

interpretation allowances_machine:
  contract_invariant "allowances_exec pull bal" "\<lambda>w. allowances_inv (fst w)" "\<lambda>_. True"
  for pull :: "'led xfer" and bal
  by unfold_locales (use allowances_exec_inv in blast)

section \<open>Properties\<close>

text \<open>C28: Payments keep their schedule.  After any calls the history of an allowance has as many entries as its
  counter says, all of its amount; a one-time allowance was paid at most once; and two payments of a
  recurring one that are \<open>n\<close> places apart are more than \<open>n - 1\<close> intervals apart in time, whatever the
  moments \<open>distribute\<close> was called at.  The total of the analytics is the sum of the history, unless that
  leaves \<open>i128\<close>, and every owner lists exactly the own allowances, each once.\<close>

theorem allowances_keep_schedule:
  assumes "run (allowances_exec pull bal) cs (allowances_fresh, l) = (s, l')"
  shows "(\<forall>i a. aw_allowance s i = Some a \<longrightarrow> (let h = get_allowance_history i s in
       length h = al_distribution_count a \<and> (\<forall>p\<in>set h. pay_amount p = al_amount a)
     \<and> (case interval_seconds (al_frequency a) of None \<Rightarrow> length h \<le> 1
        | Some d \<Rightarrow> \<forall>k < length h. \<forall>j < k. pay_timestamp (h ! j) + (k - Suc j) * d < pay_timestamp (h ! k))
     \<and> (in_i128 (sum_list (map pay_amount h)) \<longrightarrow>
          (\<exists>r. get_allowance_analytics bal i (s, l') = Inr r \<and> aa_total_distributed r = sum_list (map pay_amount h)))))
   \<and> (\<forall>u. distinct (get_owner_allowances u s)
        \<and> set (get_owner_allowances u s) = {i. \<exists>a. aw_allowance s i = Some a \<and> al_owner a = u})"
proof -
  have "allowances_inv (fst (run (allowances_exec pull bal) cs (allowances_fresh, l)))"
    by (rule allowances_machine.run_inv) (simp_all add: allowances_inv_fresh)
  then have inv: "allowances_inv s" by (simp add: assms)
  have "let h = get_allowance_history i s in
       length h = al_distribution_count a \<and> (\<forall>p\<in>set h. pay_amount p = al_amount a)
     \<and> (case interval_seconds (al_frequency a) of None \<Rightarrow> length h \<le> 1
        | Some d \<Rightarrow> \<forall>k < length h. \<forall>j < k. pay_timestamp (h ! j) + (k - Suc j) * d < pay_timestamp (h ! k))
     \<and> (in_i128 (sum_list (map pay_amount h)) \<longrightarrow>
          (\<exists>r. get_allowance_analytics bal i (s, l') = Inr r \<and> aa_total_distributed r = sum_list (map pay_amount h)))"
    if a: "aw_allowance s i = Some a" for i a
  proof -
    let ?h = "get_allowance_history i s"
    have k: "kept a ?h" using inv a by (simp add: allowances_inv_def)
    then have "map pay_amount ?h = replicate (length ?h) (al_amount a)"
      by (intro nth_equalityI) (simp_all add: kept_def)
    then have total: "sum_list (map pay_amount ?h) = al_amount a * int (al_distribution_count a)"
      using k by (simp add: kept_def sum_list_replicate mult.commute)
    have "\<exists>r. get_allowance_analytics bal i (s, l') = Inr r \<and> aa_total_distributed r = sum_list (map pay_amount ?h)"
      if "in_i128 (sum_list (map pay_amount ?h))"
    proof -
      have load: "load_allowance i s = Inr a" using a by simp
      have "saturating_mul (al_amount a) (int (al_distribution_count a)) = sum_list (map pay_amount ?h)"
        using that by (simp add: total saturating_mul_def in_i128_def)
      then show ?thesis by (simp add: get_allowance_analytics_def load Let_def del: load_Inr)
    qed
    with k show ?thesis by (auto simp: kept_def spaced_def Let_def split: option.splits)
  qed
  moreover have "distinct (get_owner_allowances u s)
        \<and> set (get_owner_allowances u s) = {i. \<exists>a. aw_allowance s i = Some a \<and> al_owner a = u}" for u
    using inv by (simp add: allowances_inv_def)
  ultimately show ?thesis by blast
qed

text \<open>One distribution.  A successful \<open>distribute\<close> found the allowance active, not paused, approved, due, not
  expired and within its cap, moved exactly its amount from the owner to the recipient, and put the next date
  after the current time and at most one interval ahead; a one-time allowance is inactive afterwards.  Nobody
  has to sign it.\<close>

theorem distribute_pays_once:
  assumes "token_client pull bal" and "allowances_inv s" and "distribute pull bal e i (s, l) = Inr (u, s', l')"
    and "aw_allowance s i = Some a" and "al_owner a \<noteq> al_recipient a"
  shows "al_active a \<and> \<not> al_paused a \<and> \<not> al_pending_approval a \<and> al_next_distribution a \<le> env_timestamp e
    \<and> (al_end_date a = 0 \<or> env_timestamp e < al_end_date a)
    \<and> (al_spending_limit a \<le> 0 \<or> al_amount a * int (Suc (al_distribution_count a)) \<le> al_spending_limit a)
    \<and> bal l' (al_token a) (al_owner a) = bal l (al_token a) (al_owner a) - al_amount a
    \<and> bal l' (al_token a) (al_recipient a) = bal l (al_token a) (al_recipient a) + al_amount a
    \<and> (\<exists>b. aw_allowance s' i = Some b \<and> al_distribution_count b = Suc (al_distribution_count a)
        \<and> (case interval_seconds (al_frequency a) of None \<Rightarrow> \<not> al_active b
           | Some d \<Rightarrow> env_timestamp e < al_next_distribution b \<and> al_next_distribution b \<le> env_timestamp e + d))"
proof -
  from allowance_distribute_Inr [OF assms(3)] assms(4) obtain b where
    c: "\<not> al_pending_approval a" "al_active a" "\<not> al_paused a" "al_next_distribution a \<le> env_timestamp e"
      "al_end_date a = 0 \<or> env_timestamp e < al_end_date a" "check_limit a = Inr ()"
    and tr: "pull e (al_token a) (al_owner a) (al_recipient a) (al_amount a) l = Some l'"
    and b: "reschedule (env_timestamp e) (a\<lparr>al_distribution_count := Suc (al_distribution_count a)\<rparr>) = Some b"
    and s': "aw_allowance s' = (aw_allowance s)(i \<mapsto> b)" by auto
  have k: "kept a (get_allowance_history i s)" using assms(2,4) by (simp add: allowances_inv_def)
  from c(6) have "al_spending_limit a \<le> 0 \<or> al_amount a * int (Suc (al_distribution_count a)) \<le> al_spending_limit a"
    by (auto simp: check_limit_def split: if_splits option.splits)
  with c s' reschedule_kept [OF k c(2,4) b] token_client.xfer_debit [OF assms(1) tr assms(5)]
    token_client.xfer_credit [OF assms(1) tr assms(5)]
  show ?thesis by auto
qed

section \<open>Witnesses\<close>

definition allowances_demo_ledger :: "address \<Rightarrow> token_state" where
  "allowances_demo_ledger t = token_fresh\<lparr>tk_balance := [Addr 2 \<mapsto> 100], tk_allowance := [(Addr 2, Addr 8) \<mapsto> 100]\<rparr>"

definition allowances_demo :: "allowances_state \<times> (address \<Rightarrow> token_state)" where
  "allowances_demo = run (allowances_exec token_pull token_bal)
     [(signed_env [Addr 2] 1 50 (Addr 8), CCreate (Addr 2) (Addr 3) (Addr 7) 30 Daily 60)] (allowances_fresh, allowances_demo_ledger)"

lemmas allowances_eval = allowances_demo_def allowances_demo_ledger_def allowances_fresh_def create_allowance_def
  append_owner_def append_recipient_def save_allowance_def emit_def load_allowance_def distribute_def check_limit_def
  reschedule_def interval_seconds_def catch_up_def token_pull_def token_bal_def callee_env_def Let_def
  Token.transfer_from_def Token.move_balance_def Token.token_query_defs token_fresh_def Token.emit_def arith_defs

lemma allowances_demo_values:
  "aw_allowance (fst allowances_demo) = [1 \<mapsto> \<lparr>al_owner = Addr 2, al_recipient = Addr 3, al_token = Addr 7, al_amount = 30,
     al_frequency = Daily, al_next_distribution = 60, al_distribution_count = 0, al_active = True, al_paused = False,
     al_pending_approval = False, al_spending_limit = 0, al_end_date = 0\<rparr>]"
  by (simp add: allowances_eval)

theorem distribute_pays_once_witness:
  "\<exists>s' l'. distribute token_pull token_bal (signed_env [] 2 200000 (Addr 8)) 1 allowances_demo = Inr ((), s', l')
     \<and> token_bal l' (Addr 7) (Addr 3) = 30"
proof -
  obtain s l where w: "allowances_demo = (s, l)" by (cases allowances_demo)
  then have "run (allowances_exec token_pull token_bal)
     [(signed_env [Addr 2] 1 50 (Addr 8), CCreate (Addr 2) (Addr 3) (Addr 7) 30 Daily 60)] (allowances_fresh, allowances_demo_ledger) = (s, l)"
    by (simp add: allowances_demo_def)
  moreover have "allowances_inv (fst (run (allowances_exec token_pull token_bal)
     [(signed_env [Addr 2] 1 50 (Addr 8), CCreate (Addr 2) (Addr 3) (Addr 7) 30 Daily 60)] (allowances_fresh, allowances_demo_ledger)))"
    by (rule allowances_machine.run_inv) (simp_all add: allowances_inv_fresh)
  ultimately have inv: "allowances_inv s" by simp
  have a: "aw_allowance s 1 = Some \<lparr>al_owner = Addr 2, al_recipient = Addr 3, al_token = Addr 7, al_amount = 30,
     al_frequency = Daily, al_next_distribution = 60, al_distribution_count = 0, al_active = True, al_paused = False,
     al_pending_approval = False, al_spending_limit = 0, al_end_date = 0\<rparr>"
    using allowances_demo_values by (simp add: w)
  have "\<exists>s' l'. distribute token_pull token_bal (signed_env [] 2 200000 (Addr 8)) 1 allowances_demo = Inr ((), s', l')"
    by (simp add: allowances_eval del: One_nat_def)
  then obtain s' l' where d: "distribute token_pull token_bal (signed_env [] 2 200000 (Addr 8)) 1 (s, l) = Inr ((), s', l')"
    by (auto simp: w)
  have "token_bal l (Addr 7) (Addr 3) = 0"
    using w by (auto simp: allowances_eval)
  with distribute_pays_once [OF pulled_ledger.token_client_axioms inv d a] have "token_bal l' (Addr 7) (Addr 3) = 30" by simp
  with d w show ?thesis by auto
qed

theorem allowances_keep_schedule_witness:
  "set (get_owner_allowances (Addr 2) (fst allowances_demo)) = {1}"
proof -
  have "run (allowances_exec token_pull token_bal)
     [(signed_env [Addr 2] 1 50 (Addr 8), CCreate (Addr 2) (Addr 3) (Addr 7) 30 Daily 60)] (allowances_fresh, allowances_demo_ledger)
     = (fst allowances_demo, snd allowances_demo)" by (simp add: allowances_demo_def)
  from allowances_keep_schedule [OF this] have "set (get_owner_allowances (Addr 2) (fst allowances_demo))
      = {i. \<exists>a. aw_allowance (fst allowances_demo) i = Some a \<and> al_owner a = Addr 2}" by blast
  then show ?thesis by (simp add: allowances_demo_values split: if_splits)
qed

end
