(* ===== verification/Audit_Log.thy ===== *)
theory Audit_Log imports Host begin

text \<open>
  \<open>contracts/audit/src/lib.rs\<close>: an append-only log of operations, written by the actors themselves or, in
  batches, by the admin.  Metadata is a byte string, a list of numbers.  The crate is no member of the
  workspace.
\<close>

section \<open>Data and storage\<close>

record audit_entry =
  ad_actor :: address
  ad_operation :: symbol
  ad_timestamp :: nat
  ad_status :: symbol
  ad_metadata :: "nat list option"
  ad_metadata_len :: nat

record audit_config =
  ac_config_admin :: address
  ac_max_metadata_size :: nat

datatype audit_event =
    AuditInit address nat
  | AuditEntryLogged address symbol symbol nat
  | AuditAdminTransferred address address
  | AuditConfigUpdated nat

record audit_state =
  au_admin :: "address option"
  au_total :: "nat option"
  au_log :: "nat \<rightharpoonup> audit_entry"
  au_config :: "audit_config option"
  au_events :: "audit_event list"

definition audit_fresh :: audit_state where
  "audit_fresh = \<lparr>au_admin = None, au_total = None, au_log = Map.empty, au_config = None, au_events = []\<rparr>"

definition emit :: "audit_event \<Rightarrow> audit_state \<Rightarrow> audit_state" where
  "emit ev s = s\<lparr>au_events := au_events s @ [ev]\<rparr>"

section \<open>Entry points\<close>

definition require_admin :: "address \<Rightarrow> audit_state \<Rightarrow> unit trap + unit" where
  "require_admin a s = (case au_admin s of None \<Rightarrow> Inl PanicTrap | Some admin \<Rightarrow>
     if a \<noteq> admin then Inl PanicTrap else Inr ())"

definition initialize :: "env \<Rightarrow> address \<Rightarrow> nat \<Rightarrow> audit_state \<Rightarrow> (audit_state, unit, unit) outcome" where
  "initialize e admin max_metadata_size s =
    (if au_admin s \<noteq> None then Inl PanicTrap else
     if \<not> env_auth e admin then Inl AuthTrap else
     Inr ((), emit (AuditInit admin max_metadata_size) (s\<lparr>au_admin := Some admin,
       au_config := Some \<lparr>ac_config_admin = admin, ac_max_metadata_size = max_metadata_size\<rparr>\<rparr>)))"

definition log_audit :: "env \<Rightarrow> address \<Rightarrow> symbol \<Rightarrow> symbol \<Rightarrow> nat list option \<Rightarrow> audit_state
    \<Rightarrow> (audit_state, unit, unit) outcome" where
  "log_audit e actor operation status metadata s =
    (if \<not> env_auth e actor then Inl AuthTrap else
     case (case metadata of None \<Rightarrow> Inr 0 | Some meta \<Rightarrow>
             (case au_config s of None \<Rightarrow> Inl PanicTrap | Some config \<Rightarrow>
              if ac_max_metadata_size config < length meta then Inl PanicTrap else Inr (length meta))) of
       Inl t \<Rightarrow> Inl t | Inr metadata_len \<Rightarrow>
     let entry = \<lparr>ad_actor = actor, ad_operation = operation, ad_timestamp = env_timestamp e, ad_status = status,
           ad_metadata = metadata, ad_metadata_len = metadata_len\<rparr> in
     case u64_add (unwrap_or (au_total s) 0) 1 of None \<Rightarrow> Inl ArithTrap | Some total_logs \<Rightarrow>
     Inr ((), emit (AuditEntryLogged actor operation status total_logs)
       (s\<lparr>au_log := (au_log s)(total_logs \<mapsto> entry), au_total := Some total_logs\<rparr>)))"

text \<open>One turn of the batch loop; the state carries the running total.\<close>

definition batch_step :: "env \<Rightarrow> audit_entry \<Rightarrow> nat \<times> audit_state \<Rightarrow> unit trap + (nat \<times> audit_state)" where
  "batch_step e entry st = (case st of (total_logs, s) \<Rightarrow>
     case u64_add total_logs 1 of None \<Rightarrow> Inl ArithTrap | Some n \<Rightarrow>
     if env_timestamp e < ad_timestamp entry then Inl PanicTrap else
     Inr (n, emit (AuditEntryLogged (ad_actor entry) (ad_operation entry) (ad_status entry) n)
       (s\<lparr>au_log := (au_log s)(n \<mapsto> entry)\<rparr>)))"

definition batch_log_audit :: "env \<Rightarrow> address \<Rightarrow> audit_entry list \<Rightarrow> audit_state \<Rightarrow> (audit_state, unit, unit) outcome" where
  "batch_log_audit e caller logs s =
    (if \<not> env_auth e caller then Inl AuthTrap else
     case require_admin caller s of Inl t \<Rightarrow> Inl t | Inr _ \<Rightarrow>
     if logs = [] then Inl PanicTrap else
     if 50 < length logs then Inl PanicTrap else
     case fold_trap (batch_step e) logs (unwrap_or (au_total s) 0, s) of Inl t \<Rightarrow> Inl t | Inr (total_logs, s1) \<Rightarrow>
     Inr ((), s1\<lparr>au_total := Some total_logs\<rparr>))"

definition get_audit_log :: "nat \<Rightarrow> audit_state \<Rightarrow> audit_entry option" where
  "get_audit_log index s = au_log s index"

definition get_total_audit_logs :: "audit_state \<Rightarrow> nat" where
  "get_total_audit_logs s = unwrap_or (au_total s) 0"

definition get_audit_logs_range :: "nat \<Rightarrow> nat \<Rightarrow> audit_state \<Rightarrow> unit trap + audit_entry option list" where
  "get_audit_logs_range start_index end_index s =
    (if end_index < start_index then Inl PanicTrap else
     if get_total_audit_logs s < end_index then Inl PanicTrap else
     Inr (map (au_log s) [start_index..<Suc end_index]))"

definition set_adm :: "env \<Rightarrow> address \<Rightarrow> address \<Rightarrow> audit_state \<Rightarrow> (audit_state, unit, unit) outcome" where
  "set_adm e caller new_admin s =
    (if \<not> env_auth e caller then Inl AuthTrap else
     case require_admin caller s of Inl t \<Rightarrow> Inl t | Inr _ \<Rightarrow>
     Inr ((), emit (AuditAdminTransferred caller new_admin) (s\<lparr>au_admin := Some new_admin\<rparr>)))"

definition set_max_metadata_size :: "env \<Rightarrow> address \<Rightarrow> nat \<Rightarrow> audit_state \<Rightarrow> (audit_state, unit, unit) outcome" where
  "set_max_metadata_size e caller new_max_size s =
    (if \<not> env_auth e caller then Inl AuthTrap else
     case require_admin caller s of Inl t \<Rightarrow> Inl t | Inr _ \<Rightarrow>
     case au_config s of None \<Rightarrow> Inl PanicTrap | Some config \<Rightarrow>
     Inr ((), emit (AuditConfigUpdated new_max_size)
       (s\<lparr>au_config := Some (config\<lparr>ac_max_metadata_size := new_max_size\<rparr>)\<rparr>)))"

definition is_admin :: "address \<Rightarrow> audit_state \<Rightarrow> bool" where
  "is_admin a s = (case au_admin s of Some admin \<Rightarrow> a = admin | None \<Rightarrow> False)"

definition get_admin :: "audit_state \<Rightarrow> address option" where "get_admin s = au_admin s"

definition get_config :: "audit_state \<Rightarrow> audit_config option" where "get_config s = au_config s"

definition verify_audit_log_integrity :: "nat \<Rightarrow> audit_state \<Rightarrow> bool" where
  "verify_audit_log_integrity index s = (case au_log s index of None \<Rightarrow> False | Some entry \<Rightarrow>
     ad_metadata_len entry = (case ad_metadata entry of Some meta \<Rightarrow> length meta | None \<Rightarrow> 0))"

text \<open>The counters stay below the number of entries, so their additions never leave \<open>u64\<close>.\<close>

definition verify_audit_logs_range :: "nat \<Rightarrow> nat \<Rightarrow> audit_state \<Rightarrow> unit trap + (nat \<times> nat)" where
  "verify_audit_logs_range start_index end_index s =
    (if end_index < start_index then Inl PanicTrap else
     if get_total_audit_logs s < end_index then Inl PanicTrap else
     Inr (foldl (\<lambda>(valid_count, invalid_count) i.
            if verify_audit_log_integrity i s then (valid_count + 1, invalid_count) else (valid_count, invalid_count + 1))
          (0, 0) [start_index..<Suc end_index]))"

definition verify_audit_immutability :: "nat \<Rightarrow> address \<Rightarrow> symbol \<Rightarrow> audit_state \<Rightarrow> bool" where
  "verify_audit_immutability index expected_actor expected_operation s = (case au_log s index of None \<Rightarrow> False
     | Some entry \<Rightarrow> ad_actor entry = expected_actor \<and> ad_operation entry = expected_operation)"

definition get_logs_by_user :: "address \<Rightarrow> audit_state \<Rightarrow> audit_entry list" where
  "get_logs_by_user user s = filter (\<lambda>entry. ad_actor entry = user)
     (List.map_filter (au_log s) [1..<Suc (unwrap_or (au_total s) 0)])"

definition get_logs_by_range :: "nat \<Rightarrow> nat \<Rightarrow> audit_state \<Rightarrow> unit trap + audit_entry list" where
  "get_logs_by_range start_ts end_ts s =
    (if end_ts < start_ts then Inl PanicTrap else
     Inr (filter (\<lambda>entry. start_ts \<le> ad_timestamp entry \<and> ad_timestamp entry \<le> end_ts)
       (List.map_filter (au_log s) [1..<Suc (unwrap_or (au_total s) 0)])))"

datatype audit_call =
    CInitialize address nat
  | CLog address symbol symbol "nat list option"
  | CBatch address "audit_entry list"
  | CSetAdmin address address
  | CSetMax address nat

fun audit_exec :: "env \<times> audit_call \<Rightarrow> audit_state \<Rightarrow> unit trap + audit_state" where
  "audit_exec (e, CInitialize a n) s = final (initialize e a n s)"
| "audit_exec (e, CLog a opn st meta) s = final (log_audit e a opn st meta s)"
| "audit_exec (e, CBatch a logs) s = final (batch_log_audit e a logs s)"
| "audit_exec (e, CSetAdmin a b) s = final (set_adm e a b s)"
| "audit_exec (e, CSetMax a n) s = final (set_max_metadata_size e a n s)"
section \<open>The log only grows\<close>

text \<open>\<open>all_logs\<close> is the log as a list; \<open>extends xs\<close> is what one call may do to it.\<close>

definition all_logs :: "audit_state \<Rightarrow> audit_entry list" where
  "all_logs s = map (\<lambda>i. the (au_log s i)) [1..<Suc (get_total_audit_logs s)]"

definition audit_inv :: "audit_state \<Rightarrow> bool" where
  "audit_inv s \<longleftrightarrow> (\<forall>i. au_log s i = None \<longleftrightarrow> \<not> (1 \<le> i \<and> i \<le> get_total_audit_logs s))"

definition extends :: "audit_state \<Rightarrow> audit_entry list \<Rightarrow> audit_state \<Rightarrow> bool" where
  "extends s xs s' \<longleftrightarrow> (audit_inv s \<longrightarrow> audit_inv s' \<and> all_logs s' = all_logs s @ xs)"

definition grows :: "audit_state \<Rightarrow> audit_state \<Rightarrow> bool" where
  "grows s s' \<longleftrightarrow> (\<exists>xs. extends s xs s')"

lemma extends_same: "au_log s' = au_log s \<Longrightarrow> au_total s' = au_total s \<Longrightarrow> extends s [] s'"
  by (simp add: extends_def audit_inv_def all_logs_def get_total_audit_logs_def)

lemma extends_trans: "extends s xs t \<Longrightarrow> extends t ys u \<Longrightarrow> extends s (xs @ ys) u"
  by (simp add: extends_def)

lemma grows_trans: "grows s t \<Longrightarrow> grows t u \<Longrightarrow> grows s u"
  unfolding grows_def by (blast intro: extends_trans)

lemma extends_append:
  assumes log: "au_log t = (au_log s)(Suc (get_total_audit_logs s) \<mapsto> x)" and "au_total t = Some (Suc (get_total_audit_logs s))"
  shows "extends s [x] t"
proof -
  let ?n = "get_total_audit_logs s"
  have total: "get_total_audit_logs t = Suc ?n" using assms(2) by (simp add: get_total_audit_logs_def)
  have old: "map (\<lambda>i. the (((au_log s)(Suc ?n \<mapsto> x)) i)) [1..<Suc ?n] = map (\<lambda>i. the (au_log s i)) [1..<Suc ?n]"
    by (rule map_cong) (simp_all del: upt_Suc)
  have "audit_inv t" if inv: "audit_inv s"
    unfolding audit_inv_def total
  proof
    fix i
    have "au_log s i = None \<longleftrightarrow> \<not> (1 \<le> i \<and> i \<le> ?n)" using inv by (simp add: audit_inv_def)
    then show "au_log t i = None \<longleftrightarrow> \<not> (1 \<le> i \<and> i \<le> Suc ?n)" by (cases "i = Suc ?n") (auto simp: le_Suc_eq log)
  qed
  moreover have "all_logs t = all_logs s @ [x]"
    unfolding all_logs_def total log using old by simp
  ultimately show ?thesis by (simp add: extends_def)
qed

lemma log_Inr:
  assumes "log_audit e a opn st meta s = Inr (u, s')"
  shows "env_auth e a \<and> extends s [\<lparr>ad_actor = a, ad_operation = opn, ad_timestamp = env_timestamp e, ad_status = st,
     ad_metadata = meta, ad_metadata_len = (case meta of None \<Rightarrow> 0 | Some m \<Rightarrow> length m)\<rparr>] s'"
  using assms
  by (auto simp: log_audit_def emit_def Let_def get_total_audit_logs_def split: if_splits option.splits intro!: extends_append)

lemma batch_loop:
  assumes "fold_trap (batch_step e) logs (n, s) = Inr (n', s')"
  shows "(\<forall>x\<in>set logs. ad_timestamp x \<le> env_timestamp e) \<and> extends (s\<lparr>au_total := Some n\<rparr>) logs (s'\<lparr>au_total := Some n'\<rparr>)"
  using assms
proof (induction logs arbitrary: n s)
  case Nil
  then show ?case by (simp add: extends_same)
next
  case (Cons x logs)
  let ?s = "s\<lparr>au_total := Some n\<rparr>"
  let ?t = "emit (AuditEntryLogged (ad_actor x) (ad_operation x) (ad_status x) (Suc n)) (s\<lparr>au_log := (au_log s)(Suc n \<mapsto> x)\<rparr>)"
  from Cons.prems have ts: "ad_timestamp x \<le> env_timestamp e" and rest: "fold_trap (batch_step e) logs (Suc n, ?t) = Inr (n', s')"
    by (auto simp: batch_step_def [of e x] split: option.splits if_splits)
  have "extends ?s [x] (?t\<lparr>au_total := Some (Suc n)\<rparr>)"
    by (rule extends_append) (simp_all add: emit_def get_total_audit_logs_def)
  from extends_trans [OF this conjunct2 [OF Cons.IH [OF rest]]] ts Cons.IH [OF rest] show ?case by simp
qed

lemma audit_admin_Inr: "require_admin a s = Inr u \<longleftrightarrow> au_admin s = Some a"
  by (auto simp: require_admin_def split: option.splits)

lemma audit_batch_Inr:
  assumes "batch_log_audit e a logs s = Inr (u, s')"
  shows "env_auth e a \<and> au_admin s = Some a \<and> extends s logs s'"
proof -
  from assms obtain n s1 where adm: "env_auth e a" "au_admin s = Some a" and s': "s' = s1\<lparr>au_total := Some n\<rparr>"
    and loop: "fold_trap (batch_step e) logs (get_total_audit_logs s, s) = Inr (n, s1)"
    by (auto simp: batch_log_audit_def audit_admin_Inr get_total_audit_logs_def split: if_splits sum.splits)
  have "extends s [] (s\<lparr>au_total := Some (get_total_audit_logs s)\<rparr>)"
    by (simp add: extends_def audit_inv_def all_logs_def get_total_audit_logs_def)
  from extends_trans [OF this conjunct2 [OF batch_loop [OF loop]]] adm show ?thesis by (simp add: s')
qed

lemma audit_exec_grows: "audit_exec c s = Inr s' \<Longrightarrow> grows s s'"
proof -
  assume run: "audit_exec c s = Inr s'"
  obtain e k where c: "c = (e, k)" by (cases c)
  show "grows s s'"
  proof (cases k)
    case (CLog a opn st meta)
    with run c show ?thesis by (auto simp: grows_def dest: log_Inr)
  next
    case (CBatch a logs)
    with run c show ?thesis by (auto simp: grows_def dest: audit_batch_Inr)
  qed (use run c in \<open>auto simp: grows_def initialize_def set_adm_def set_max_metadata_size_def emit_def
      split: if_splits sum.splits option.splits intro!: exI [of _ "[]"] extends_same\<close>)
qed

interpretation audit_history: contract_relation audit_exec grows "\<lambda>_. True"
  by unfold_locales (auto simp: grows_def intro: extends_same extends_trans audit_exec_grows [unfolded grows_def])

lemma audit_run: "audit_inv (run audit_exec cs audit_fresh)"
proof -
  have "grows audit_fresh (run audit_exec cs audit_fresh)" by (rule audit_history.run_rel) simp
  moreover have "audit_inv audit_fresh" by (simp add: audit_inv_def audit_fresh_def get_total_audit_logs_def)
  ultimately show ?thesis by (auto simp: grows_def extends_def)
qed

lemma all_logs_read: "audit_inv s \<Longrightarrow> List.map_filter (au_log s) [1..<Suc (unwrap_or (au_total s) 0)] = all_logs s"
  unfolding all_logs_def get_total_audit_logs_def [symmetric]
  by (rule map_filter_total) (simp add: audit_inv_def del: upt_Suc not_None_eq)

lemma nth_all_logs: "audit_inv s \<Longrightarrow> i < get_total_audit_logs s \<Longrightarrow> au_log s (Suc i) = Some (all_logs s ! i)"
proof -
  assume inv: "audit_inv s" and i: "i < get_total_audit_logs s"
  then have "au_log s (Suc i) \<noteq> None" by (simp add: audit_inv_def)
  moreover have "all_logs s ! i = the (au_log s (Suc i))" using i by (simp add: all_logs_def del: upt_Suc)
  ultimately show ?thesis by auto
qed

section \<open>Properties\<close>

text \<open>One call that succeeds, and who signed it: \<open>log_audit\<close> appends one entry of the account that signed, a batch is
  appended as the admin submitted it, and no other call changes the log.\<close>

lemma audit_exec_logs:
  assumes run: "audit_exec k s = Inr s'" and inv: "audit_inv s"
  shows "case k of
     (e, CLog a opn st meta) \<Rightarrow> env_auth e a \<and> all_logs s' = all_logs s
       @ [\<lparr>ad_actor = a, ad_operation = opn, ad_timestamp = env_timestamp e, ad_status = st,
           ad_metadata = meta, ad_metadata_len = (case meta of None \<Rightarrow> 0 | Some m \<Rightarrow> length m)\<rparr>]
   | (e, CBatch a logs) \<Rightarrow> env_auth e a \<and> au_admin s = Some a \<and> all_logs s' = all_logs s @ logs
   | _ \<Rightarrow> all_logs s' = all_logs s"
proof -
  obtain e c where k: "k = (e, c)" by (cases k)
  show ?thesis
  proof (cases c)
    case (CLog a opn st meta)
    with run inv k show ?thesis by (auto simp: extends_def dest: log_Inr)
  next
    case (CBatch a logs)
    with run inv k show ?thesis by (auto simp: extends_def dest: audit_batch_Inr)
  qed (use run k in \<open>auto simp: all_logs_def get_total_audit_logs_def initialize_def set_adm_def set_max_metadata_size_def emit_def
      split: if_splits sum.splits option.splits\<close>)
qed

text \<open>C22: The audit log is append-only, and appended to by authority.  After any calls, further calls leave the log a
  longer list with the old one at its beginning, so an entry never changes and never disappears; the next call, if it
  succeeds, appends one entry in the name of the account that signed it, stamped with the ledger time, or, signed by the
  admin, the submitted batch as it is (the actors of its entries are the admin's to choose), or nothing.  The total is
  the length, every entry is read back under its number, and the queries by actor and by time are the entries of the log
  that qualify, in order.\<close>

theorem audit_append_only:
  "let s = run audit_exec cs audit_fresh; s' = run audit_exec (cs @ ds) audit_fresh in
     (\<exists>new. all_logs s' = all_logs s @ new)
   \<and> (\<forall>k s''. audit_exec k s' = Inr s'' \<longrightarrow> (case k of
        (e, CLog a opn st meta) \<Rightarrow> env_auth e a \<and> all_logs s'' = all_logs s'
          @ [\<lparr>ad_actor = a, ad_operation = opn, ad_timestamp = env_timestamp e, ad_status = st,
              ad_metadata = meta, ad_metadata_len = (case meta of None \<Rightarrow> 0 | Some m \<Rightarrow> length m)\<rparr>]
      | (e, CBatch a logs) \<Rightarrow> env_auth e a \<and> au_admin s' = Some a \<and> all_logs s'' = all_logs s' @ logs
      | _ \<Rightarrow> all_logs s'' = all_logs s'))
   \<and> length (all_logs s') = get_total_audit_logs s'
   \<and> (\<forall>i < get_total_audit_logs s'. get_audit_log (Suc i) s' = Some (all_logs s' ! i))
   \<and> (\<forall>a. get_logs_by_user a s' = filter (\<lambda>x. ad_actor x = a) (all_logs s'))
   \<and> (\<forall>t u. get_logs_by_range t u s' = (if u < t then Inl PanicTrap else
        Inr (filter (\<lambda>x. t \<le> ad_timestamp x \<and> ad_timestamp x \<le> u) (all_logs s'))))"
proof -
  let ?s = "run audit_exec cs audit_fresh" and ?t = "run audit_exec (cs @ ds) audit_fresh"
  have t: "?t = run audit_exec ds ?s" by (rule run_append)
  have "grows ?s ?t" unfolding t by (rule audit_history.run_rel) simp
  moreover have "audit_inv ?s" and inv: "audit_inv ?t" by (rule audit_run)+
  ultimately have "\<exists>new. all_logs ?t = all_logs ?s @ new" by (auto simp: grows_def extends_def)
  moreover have "length (all_logs ?t) = get_total_audit_logs ?t" by (simp add: all_logs_def del: upt_Suc)
  ultimately show ?thesis
    unfolding Let_def using nth_all_logs [OF inv] all_logs_read [OF inv]
    by (intro conjI allI impI audit_exec_logs [OF _ inv])
       (simp_all add: get_audit_log_def get_logs_by_user_def get_logs_by_range_def)
qed

text \<open>The integrity check does not check integrity.  An entry written through \<open>log_audit\<close> always passes it;
  an entry of an admin batch is stored as submitted, so it passes exactly when the submitted length is
  right, and every check that starts at the documented index 0 counts the missing entry 0 as invalid.\<close>

theorem audit_integrity_meaning:
  "let s = run audit_exec cs audit_fresh in
     (\<forall>e a opn st meta s'. log_audit e a opn st meta s = Inr ((), s') \<longrightarrow> verify_audit_log_integrity (get_total_audit_logs s') s')
   \<and> (\<forall>e a x s'. batch_log_audit e a [x] s = Inr ((), s') \<longrightarrow>
        (verify_audit_log_integrity (get_total_audit_logs s') s'
          \<longleftrightarrow> ad_metadata_len x = (case ad_metadata x of Some m \<Rightarrow> length m | None \<Rightarrow> 0)))
   \<and> (\<forall>n \<le> get_total_audit_logs s. \<exists>v i. verify_audit_logs_range 0 n s = Inr (v, Suc i))"
proof -
  let ?s = "run audit_exec cs audit_fresh"
  have inv: "audit_inv ?s" by (rule audit_run)
  have last: "get_total_audit_logs s' = Suc (get_total_audit_logs ?s) \<and> au_log s' (get_total_audit_logs s') = Some x"
    if "extends ?s [x] s'" for x s'
  proof -
    from that inv have inv': "audit_inv s'" and logs: "all_logs s' = all_logs ?s @ [x]" by (simp_all add: extends_def)
    have len: "length (all_logs s) = get_total_audit_logs s" for s by (simp add: all_logs_def del: upt_Suc)
    from logs have n: "get_total_audit_logs s' = Suc (get_total_audit_logs ?s)" using len [of s'] len [of ?s] by simp
    have "au_log s' (Suc (get_total_audit_logs ?s)) = Some ((all_logs ?s @ [x]) ! get_total_audit_logs ?s)"
      using nth_all_logs [OF inv', of "get_total_audit_logs ?s"] n by (simp add: logs)
    with n len [of ?s] show ?thesis by (simp add: nth_append)
  qed
  have count: "\<exists>v i. foldl (\<lambda>(v, w) i. if verify_audit_log_integrity i s then (v + 1, w) else (v, w + 1)) (a, Suc b) is = (v, Suc i)"
    for s "is" and a b :: nat
    by (induction "is" arbitrary: a b) (auto split: if_splits)
  have "au_log ?s 0 = None" using inv by (simp add: audit_inv_def)
  then have zero: "\<not> verify_audit_log_integrity 0 ?s" by (simp add: verify_audit_log_integrity_def)
  have "verify_audit_log_integrity (get_total_audit_logs s') s'" if "log_audit e a opn st meta ?s = Inr ((), s')" for e a opn st meta s'
    using last [OF conjunct2 [OF log_Inr [OF that]], THEN conjunct2] by (cases meta) (simp_all add: verify_audit_log_integrity_def)
  moreover have "verify_audit_log_integrity (get_total_audit_logs s') s'
      \<longleftrightarrow> ad_metadata_len x = (case ad_metadata x of Some m \<Rightarrow> length m | None \<Rightarrow> 0)"
    if "batch_log_audit e a [x] ?s = Inr ((), s')" for e a x s'
    using last [OF conjunct2 [OF conjunct2 [OF audit_batch_Inr [OF that]]], THEN conjunct2] by (simp add: verify_audit_log_integrity_def)
  moreover have "\<exists>v i. verify_audit_logs_range 0 n ?s = Inr (v, Suc i)" if "n \<le> get_total_audit_logs ?s" for n
    using that zero count [of ?s 0 0 "[1..<Suc n]"]
    by (simp add: verify_audit_logs_range_def upt_conv_Cons del: upt_Suc)
  ultimately show ?thesis unfolding Let_def by blast
qed

theorem audit_integrity_meaning_witness:
  "let s = run audit_exec [(signed_env [Addr 1] 1 50 (Addr 9), CInitialize (Addr 1) 4),
      (signed_env [Addr 2] 1 60 (Addr 9), CLog (Addr 2) ''pay'' ''ok'' (Some [7, 8]))] audit_fresh in
   verify_audit_log_integrity 1 s \<and> (\<exists>v i. verify_audit_logs_range 0 1 s = Inr (v, Suc i))"
proof -
  let ?cs = "[(signed_env [Addr 1] 1 50 (Addr 9), CInitialize (Addr 1) 4)]"
  let ?ds = "[(signed_env [Addr 1] 1 50 (Addr 9), CInitialize (Addr 1) 4),
      (signed_env [Addr 2] 1 60 (Addr 9), CLog (Addr 2) ''pay'' ''ok'' (Some [7, 8]))]"
  let ?s = "run audit_exec ?cs audit_fresh" and ?t = "run audit_exec ?ds audit_fresh"
  have t: "log_audit (signed_env [Addr 2] 1 60 (Addr 9)) (Addr 2) ''pay'' ''ok'' (Some [7, 8]) ?s = Inr ((), ?t)" "get_total_audit_logs ?t = 1"
    by (simp_all add: initialize_def log_audit_def audit_fresh_def emit_def get_total_audit_logs_def u64_add_def in_u64_def)
  with audit_integrity_meaning [of ?cs] have "verify_audit_log_integrity 1 ?t" unfolding Let_def by metis
  moreover from t(2) audit_integrity_meaning [of ?ds] have "\<exists>v i. verify_audit_logs_range 0 1 ?t = Inr (v, Suc i)"
    unfolding Let_def by (metis le_refl)
  ultimately show ?thesis by (simp add: Let_def)
qed

definition audit_demo_entry :: "address \<Rightarrow> audit_entry" where
  "audit_demo_entry a = \<lparr>ad_actor = a, ad_operation = ''pay'', ad_timestamp = 60, ad_status = ''ok'', ad_metadata = None, ad_metadata_len = 0\<rparr>"

text \<open>An account logs an entry, then the admin a batch in the name of two others.\<close>

theorem audit_append_only_witness:
  "let s = run audit_exec ([(signed_env [Addr 1] 1 50 (Addr 9), CInitialize (Addr 1) 4)]
      @ [(signed_env [Addr 2] 1 60 (Addr 9), CLog (Addr 2) ''pay'' ''ok'' None)]) audit_fresh in
   get_logs_by_user (Addr 2) s = [audit_demo_entry (Addr 2)]
   \<and> (\<exists>s'. audit_exec (signed_env [Addr 1] 1 70 (Addr 9), CBatch (Addr 1) [audit_demo_entry (Addr 3), audit_demo_entry (Addr 4)]) s = Inr s'
       \<and> all_logs s' = [audit_demo_entry (Addr 2), audit_demo_entry (Addr 3), audit_demo_entry (Addr 4)])"
proof -
  let ?cs = "[(signed_env [Addr 1] 1 50 (Addr 9), CInitialize (Addr 1) 4)]"
  let ?ds = "[(signed_env [Addr 2] 1 60 (Addr 9), CLog (Addr 2) ''pay'' ''ok'' None)]"
  let ?k = "(signed_env [Addr 1] 1 70 (Addr 9), CBatch (Addr 1) [audit_demo_entry (Addr 3), audit_demo_entry (Addr 4)])"
  let ?s = "run audit_exec (?cs @ ?ds) audit_fresh"
  have logs: "all_logs ?s = [audit_demo_entry (Addr 2)]"
    by (simp add: audit_demo_entry_def all_logs_def initialize_def log_audit_def audit_fresh_def emit_def get_total_audit_logs_def
        u64_add_def in_u64_def Let_def)
  have "\<exists>s'. audit_exec ?k ?s = Inr s'"
    by (simp add: audit_demo_entry_def batch_log_audit_def require_admin_def batch_step_def initialize_def log_audit_def audit_fresh_def
        emit_def get_total_audit_logs_def u64_add_def in_u64_def Let_def)
  then obtain s' where s': "audit_exec ?k ?s = Inr s'" by blast
  note T = audit_append_only [of ?cs ?ds, unfolded Let_def, THEN conjunct2]
  from T [THEN conjunct1, rule_format, OF s'] logs have "all_logs s' = [audit_demo_entry (Addr 2), audit_demo_entry (Addr 3), audit_demo_entry (Addr 4)]"
    by (simp del: run.simps)
  moreover from T [THEN conjunct2, THEN conjunct2, THEN conjunct2, THEN conjunct1, rule_format, of "Addr 2"]
  have "get_logs_by_user (Addr 2) ?s = [audit_demo_entry (Addr 2)]"
    unfolding logs by (simp add: audit_demo_entry_def del: run.simps)
  ultimately show ?thesis using s' unfolding Let_def by blast
qed

end
