(* ===== verification/Activity_Feed.thy ===== *)
theory Activity_Feed imports Host begin

text \<open>
  \<open>contracts/activity-feed/src/lib.rs\<close>: a numbered feed of protocol events, read back in pages, newest
  first.  Nobody has to authorise a record.
\<close>

section \<open>Data and storage\<close>

record activity_event =
  ae_event_type :: symbol
  ae_timestamp :: nat
  ae_sequence :: nat

datatype feed_event = EvActivity symbol nat

record feed_state =
  af_total_events :: "nat option"
  af_event :: "nat \<rightharpoonup> activity_event"
  af_published :: "feed_event list"

definition feed_fresh :: feed_state where
  "feed_fresh = \<lparr>af_total_events = None, af_event = Map.empty, af_published = []\<rparr>"

section \<open>Entry points\<close>

definition record_event :: "env \<Rightarrow> symbol \<Rightarrow> feed_state \<Rightarrow> (feed_state, unit, nat) outcome" where
  "record_event e event_type s =
    (case u64_add (unwrap_or (af_total_events s) 0) 1 of None \<Rightarrow> Inl ArithTrap | Some seq \<Rightarrow>
     let event = \<lparr>ae_event_type = event_type, ae_timestamp = env_timestamp e, ae_sequence = seq\<rparr> in
     Inr (seq, s\<lparr>af_event := (af_event s)(seq \<mapsto> event), af_total_events := Some seq,
                  af_published := af_published s @ [EvActivity event_type seq]\<rparr>))"

text \<open>The loop counts \<open>i\<close> down from \<open>end\<close> to \<open>start\<close> and skips missing entries.\<close>

fun feed_loop :: "feed_state \<Rightarrow> nat \<Rightarrow> nat \<Rightarrow> activity_event list" where
  "feed_loop s start 0 = []"
| "feed_loop s start (Suc i) =
    (if start \<le> Suc i then
       (case af_event s (Suc i) of Some ev \<Rightarrow> [ev] | None \<Rightarrow> []) @ feed_loop s start i
     else [])"

definition total_events :: "feed_state \<Rightarrow> nat" where
  "total_events s = unwrap_or (af_total_events s) 0"

definition page_length :: "nat \<Rightarrow> nat" where
  "page_length page_size = (if page_size = 0 \<or> 50 < page_size then 20 else page_size)"

definition get_feed :: "nat \<Rightarrow> nat \<Rightarrow> feed_state \<Rightarrow> unit trap + activity_event list" where
  "get_feed page page_size s =
    (let total = unwrap_or (af_total_events s) 0;
         size = page_length page_size;
         p = if page = 0 then 1 else page in
     case u64_mul (p - 1) size of None \<Rightarrow> Inl ArithTrap | Some skip \<Rightarrow>
     let last = total - skip;
         start = (last - size) + 1 in
     Inr (feed_loop s start last))"

fun feed_exec :: "env \<times> symbol \<Rightarrow> feed_state \<Rightarrow> unit trap + feed_state" where
  "feed_exec (e, t) s = final (record_event e t s)"

section \<open>The stored events\<close>

definition feed_inv :: "feed_state \<Rightarrow> bool" where
  "feed_inv s \<longleftrightarrow> (\<forall>i. af_event s i \<noteq> None \<longleftrightarrow> 1 \<le> i \<and> i \<le> total_events s)
    \<and> (\<forall>i ev. af_event s i = Some ev \<longrightarrow> ae_sequence ev = i)
    \<and> af_published s = map (\<lambda>i. EvActivity (ae_event_type (the (af_event s i))) i) [1..<Suc (total_events s)]"

lemma feed_exec_inv: "feed_inv s \<Longrightarrow> feed_exec c s = Inr s' \<Longrightarrow> feed_inv s'"
proof -
  assume inv: "feed_inv s" and "feed_exec c s = Inr s'"
  then obtain e t where r: "final (record_event e t s) = Inr s'" by (cases c) simp
  then have s': "s' = s\<lparr>af_event := (af_event s)(Suc (total_events s) \<mapsto> \<lparr>ae_event_type = t,
      ae_timestamp = env_timestamp e, ae_sequence = Suc (total_events s)\<rparr>),
      af_total_events := Some (Suc (total_events s)),
      af_published := af_published s @ [EvActivity t (Suc (total_events s))]\<rparr>"
    by (auto simp: record_event_def total_events_def Let_def split: option.splits)
  have total: "total_events s' = Suc (total_events s)" by (simp add: s' total_events_def)
  show "feed_inv s'"
    using inv by (simp add: feed_inv_def total) (auto simp: s')
qed

interpretation feed_machine: contract_invariant feed_exec feed_inv "\<lambda>_. True"
  by unfold_locales (use feed_exec_inv in auto)

lemma feed_run_inv: "feed_inv (run feed_exec cs feed_fresh)"
  by (rule feed_machine.run_inv) (simp_all add: feed_inv_def feed_fresh_def total_events_def)

definition newest_first :: "feed_state \<Rightarrow> activity_event list" where
  "newest_first s = rev (map (\<lambda>i. the (af_event s i)) [1..<Suc (total_events s)])"

lemma feed_loop_slice:
  assumes "feed_inv s" and "n \<le> total_events s" and "1 \<le> start"
  shows "feed_loop s start n = rev (map (\<lambda>i. the (af_event s i)) [start..<Suc n])"
  using assms(2)
proof (induction n)
  case 0
  with assms(3) show ?case by simp
next
  case (Suc n)
  from assms(1) Suc.prems obtain ev where "af_event s (Suc n) = Some ev"
    by (fastforce simp: feed_inv_def)
  with Suc show ?case by simp
qed

lemma drop_newest: "drop k (newest_first s) = rev (map (\<lambda>i. the (af_event s i)) [1..<Suc (total_events s - k)])"
proof -
  have "drop k (newest_first s) = rev (take (total_events s - k) (map (\<lambda>i. the (af_event s i)) [1..<Suc (total_events s)]))"
    by (simp only: newest_first_def drop_rev length_map length_upt diff_Suc_Suc One_nat_def minus_nat.diff_0)
  also have "take (total_events s - k) [1..<Suc (total_events s)] = [1..<Suc (total_events s - k)]"
    by (simp add: take_upt del: upt_Suc)
  then have "take (total_events s - k) (map (\<lambda>i. the (af_event s i)) [1..<Suc (total_events s)])
      = map (\<lambda>i. the (af_event s i)) [1..<Suc (total_events s - k)]"
    by (simp only: take_map)
  finally show ?thesis .
qed

lemma get_feed_slice:
  assumes "feed_inv s" and "in_u64 ((p - 1) * page_length z)" and "0 < p"
  shows "get_feed p z s = Inr (take (page_length z) (drop ((p - 1) * page_length z) (newest_first s)))"
proof -
  let ?n = "total_events s - (p - 1) * page_length z" and ?z = "page_length z"
  have "0 < ?z" by (simp add: page_length_def)
  have "take ?z (rev (map (\<lambda>i. the (af_event s i)) [1..<Suc ?n]))
      = rev (drop (?n - ?z) (map (\<lambda>i. the (af_event s i)) [1..<Suc ?n]))"
    by (simp add: take_rev del: upt_Suc)
  also have "\<dots> = rev (map (\<lambda>i. the (af_event s i)) [?n - ?z + 1..<Suc ?n])"
    by (simp add: drop_map add.commute del: upt_Suc)
  also have "\<dots> = feed_loop s (?n - ?z + 1) ?n"
    by (rule feed_loop_slice [OF assms(1), symmetric]) simp_all
  finally show ?thesis
    using assms(2,3) by (simp add: get_feed_def Let_def drop_newest total_events_def u64_mul_def)
qed

section \<open>Properties\<close>

text \<open>Paging through the feed misses and repeats nothing.  After any records, the first \<open>k\<close> pages of
  one size, read one after the other, are the newest \<open>k\<close> times that many events in falling order of
  their numbers; from the page on that reaches the oldest event, they are all events.  A size of 0 or above
  50 stands for 20.\<close>

theorem feed_pages_complete:
  assumes "in_u64 (k * page_length z)"
  shows "let s = run feed_exec cs feed_fresh in
     concat (map (\<lambda>p. case get_feed p z s of Inr evs \<Rightarrow> evs | Inl _ \<Rightarrow> []) [1..<Suc k])
       = take (k * page_length z) (newest_first s)
     \<and> map ae_sequence (newest_first s) = rev [1..<Suc (total_events s)]"
proof -
  let ?s = "run feed_exec cs feed_fresh"
  have inv: "feed_inv ?s" by (rule feed_run_inv)
  have "concat (map (\<lambda>p. case get_feed p z ?s of Inr evs \<Rightarrow> evs | Inl _ \<Rightarrow> []) [1..<Suc k])
       = take (k * page_length z) (newest_first ?s)"
    using assms
  proof (induction k)
    case (Suc k)
    then have fits: "in_u64 ((Suc k - 1) * page_length z)" by (simp add: in_u64_def)
    have "take (Suc k * page_length z) xs = take (k * page_length z) xs @ take (page_length z) (drop (k * page_length z) xs)"
      for xs :: "activity_event list" by (metis add.commute mult_Suc take_add)
    with Suc fits get_feed_slice [OF inv fits] show ?case by (simp add: in_u64_def)
  qed simp
  moreover have "map ae_sequence (newest_first ?s) = rev [1..<Suc (total_events ?s)]"
  proof -
    have "ae_sequence (the (af_event ?s i)) = i" if "i \<in> set [1..<Suc (total_events ?s)]" for i
      using inv that by (fastforce simp: feed_inv_def)
    then have "map (ae_sequence \<circ> (\<lambda>i. the (af_event ?s i))) [1..<Suc (total_events ?s)] = [1..<Suc (total_events ?s)]"
      by (intro map_idI) simp
    then show ?thesis by (simp add: newest_first_def rev_map [symmetric] del: upt_Suc)
  qed
  ultimately show ?thesis by (simp add: Let_def)
qed

theorem feed_pages_complete_witness:
  "let s = run feed_exec [(signed_env [] 1 5 (Addr 9), ''a''), (signed_env [] 1 6 (Addr 9), ''b''),
      (signed_env [] 2 7 (Addr 9), ''c'')] feed_fresh in
   concat (map (\<lambda>p. case get_feed p 2 s of Inr evs \<Rightarrow> evs | Inl _ \<Rightarrow> []) [1..<Suc 2])
    = [\<lparr>ae_event_type = ''c'', ae_timestamp = 7, ae_sequence = 3\<rparr>, \<lparr>ae_event_type = ''b'', ae_timestamp = 6, ae_sequence = 2\<rparr>,
       \<lparr>ae_event_type = ''a'', ae_timestamp = 5, ae_sequence = 1\<rparr>]"
proof -
  let ?cs = "[(signed_env [] 1 5 (Addr 9), ''a''), (signed_env [] 1 6 (Addr 9), ''b''), (signed_env [] 2 7 (Addr 9), ''c'')]"
  have fits: "in_u64 (2 * page_length 2)" by (simp add: in_u64_def page_length_def)
  have "newest_first (run feed_exec ?cs feed_fresh)
      = [\<lparr>ae_event_type = ''c'', ae_timestamp = 7, ae_sequence = 3\<rparr>, \<lparr>ae_event_type = ''b'', ae_timestamp = 6, ae_sequence = 2\<rparr>,
       \<lparr>ae_event_type = ''a'', ae_timestamp = 5, ae_sequence = 1\<rparr>]"
    by (simp add: record_event_def feed_fresh_def newest_first_def total_events_def u64_add_def in_u64_def Let_def upt_conv_Cons)
  with feed_pages_complete [OF fits, of ?cs] show ?thesis
    by (simp only: Let_def) (simp add: page_length_def)
qed

end
