(* ===== verification/Transactional.thy ===== *)
theory Transactional imports Host begin

text \<open>
  \<open>contracts/transactional/src/lib.rs\<close>: a list of transactions, each identifier once, with the first one
  and the average amount.  Nobody has to authorise an entry.  \<open>Err\<close> is a contract error.
\<close>

section \<open>Data and storage\<close>

record simple_transaction =
  sx_id :: symbol
  sx_amount :: int
  sx_sender :: symbol
  sx_receiver :: symbol

datatype transaction_error = AlreadyExists | NotFound

record ledger_state =
  lg_transaction :: "symbol \<rightharpoonup> simple_transaction"
  lg_tx_seq :: "nat \<rightharpoonup> symbol"
  lg_first_tx :: "symbol option"
  lg_counter :: "nat option"

definition ledger_fresh :: ledger_state where
  "ledger_fresh = \<lparr>lg_transaction = Map.empty, lg_tx_seq = Map.empty, lg_first_tx = None, lg_counter = None\<rparr>"

section \<open>Entry points\<close>

definition add_transaction :: "simple_transaction \<Rightarrow> ledger_state \<Rightarrow> (ledger_state, transaction_error, unit) outcome" where
  "add_transaction tx s =
    (if lg_transaction s (sx_id tx) \<noteq> None then Inl (ContractError AlreadyExists) else
     let s1 = s\<lparr>lg_transaction := (lg_transaction s)(sx_id tx \<mapsto> tx)\<rparr> in
     case u32_add (unwrap_or (lg_counter s1) 0) 1 of None \<Rightarrow> Inl ArithTrap | Some counter \<Rightarrow>
     let s2 = s1\<lparr>lg_tx_seq := (lg_tx_seq s1)(counter \<mapsto> sx_id tx)\<rparr>;
         s3 = (if counter = 1 then s2\<lparr>lg_first_tx := Some (sx_id tx)\<rparr> else s2) in
     Inr ((), s3\<lparr>lg_counter := Some counter\<rparr>))"

definition get_earliest_transaction :: "ledger_state \<Rightarrow> simple_transaction option" where
  "get_earliest_transaction s = (case lg_first_tx s of Some i \<Rightarrow> lg_transaction s i | None \<Rightarrow> None)"

text \<open>One turn of the loop; the additions to the sum are checked, and so is the last increment of its counter.\<close>

definition add_amount :: "ledger_state \<Rightarrow> nat \<Rightarrow> int \<Rightarrow> transaction_error trap + int" where
  "add_amount s i acc =
    (case lg_tx_seq s i of None \<Rightarrow> Inr acc | Some k \<Rightarrow>
     case lg_transaction s k of None \<Rightarrow> Inr acc | Some tx \<Rightarrow>
     case checked_add acc (sx_amount tx) of None \<Rightarrow> Inl ArithTrap | Some acc1 \<Rightarrow> Inr acc1)"

definition get_average_transaction_amount :: "ledger_state \<Rightarrow> transaction_error trap + int" where
  "get_average_transaction_amount s =
    (let counter = unwrap_or (lg_counter s) 0 in
     if counter = 0 then Inr 0 else
     case fold_trap (add_amount s) [1..<Suc counter] 0 of Inl t \<Rightarrow> Inl t | Inr acc \<Rightarrow>
     case u32_add counter 1 of None \<Rightarrow> Inl ArithTrap | Some _ \<Rightarrow>
     Inr (quot acc (int counter)))"

definition get_transaction :: "symbol \<Rightarrow> ledger_state \<Rightarrow> simple_transaction option" where
  "get_transaction i s = lg_transaction s i"

definition ledger_exec :: "simple_transaction \<Rightarrow> ledger_state \<Rightarrow> transaction_error trap + ledger_state" where
  "ledger_exec tx s = final (add_transaction tx s)"

section \<open>The list of accepted transactions\<close>

text \<open>The reference: the transactions in the order of arrival, without those whose identifier came
  before.\<close>

fun accepted :: "simple_transaction list \<Rightarrow> simple_transaction list \<Rightarrow> simple_transaction list" where
  "accepted txs [] = txs"
| "accepted txs (tx # rest) = accepted (if sx_id tx \<in> sx_id ` set txs then txs else txs @ [tx]) rest"

definition holds_list :: "ledger_state \<Rightarrow> simple_transaction list \<Rightarrow> bool" where
  "holds_list s txs \<longleftrightarrow> unwrap_or (lg_counter s) 0 = length txs
    \<and> (\<forall>i. lg_transaction s i = find (\<lambda>tx. sx_id tx = i) txs)
    \<and> (\<forall>n < length txs. lg_tx_seq s (Suc n) = Some (sx_id (txs ! n)))
    \<and> lg_first_tx s = (if txs = [] then None else Some (sx_id (hd txs)))
    \<and> distinct (map sx_id txs)"

lemma find_None_id: "find (\<lambda>tx. sx_id tx = i) txs = None \<longleftrightarrow> i \<notin> sx_id ` set txs"
  by (auto simp: find_None_iff)

lemma find_snoc: "find P (xs @ [y]) = (case find P xs of None \<Rightarrow> (if P y then Some y else None) | Some x \<Rightarrow> Some x)"
  by (induction xs) auto

lemma find_own_id: "distinct (map sx_id txs) \<Longrightarrow> tx \<in> set txs \<Longrightarrow> find (\<lambda>x. sx_id x = sx_id tx) txs = Some tx"
  by (induction txs) auto

lemma ledger_step:
  assumes "holds_list s txs" and "length txs < u32_max"
  shows "holds_list (commit s (ledger_exec tx s)) (if sx_id tx \<in> sx_id ` set txs then txs else txs @ [tx])"
proof (cases "sx_id tx \<in> sx_id ` set txs")
  case True
  then have "lg_transaction s (sx_id tx) \<noteq> None" using assms(1) by (simp add: holds_list_def find_None_id)
  with True assms(1) show ?thesis by (auto simp: ledger_exec_def add_transaction_def)
next
  case False
  then have new: "lg_transaction s (sx_id tx) = None" using assms(1) by (simp add: holds_list_def find_None_id)
  let ?n = "Suc (length txs)"
  have "in_u32 ?n" using assms(2) by (simp add: in_u32_def)
  with new assms(1) have "commit s (ledger_exec tx s) = s\<lparr>lg_transaction := (lg_transaction s)(sx_id tx \<mapsto> tx),
      lg_tx_seq := (lg_tx_seq s)(?n \<mapsto> sx_id tx), lg_first_tx := (if txs = [] then Some (sx_id tx) else lg_first_tx s),
      lg_counter := Some ?n\<rparr>"
    by (auto simp: ledger_exec_def add_transaction_def u32_add_def holds_list_def Let_def)
  moreover have "find (\<lambda>x. sx_id x = sx_id tx) txs = None" using False by (simp add: find_None_id)
  ultimately show ?thesis
    using False assms(1) by (auto simp: holds_list_def find_snoc nth_append less_Suc_eq split: option.splits)
qed

lemma ledger_run:
  assumes "holds_list s txs" and "length txs + length cs \<le> u32_max"
  shows "holds_list (run ledger_exec cs s) (accepted txs cs)"
  using assms
proof (induction cs arbitrary: s txs)
  case (Cons tx cs)
  have "holds_list (commit s (ledger_exec tx s)) (if sx_id tx \<in> sx_id ` set txs then txs else txs @ [tx])"
    by (rule ledger_step [OF Cons.prems(1)]) (use Cons.prems(2) in simp)
  from Cons.IH [OF this] Cons.prems(2) show ?case by auto
qed simp

text \<open>The sum traps exactly when a partial sum leaves the range.\<close>

lemma average_loop:
  assumes "\<And>i. i \<in> set is \<Longrightarrow> add_amount s i = (\<lambda>acc. case checked_add acc (f i) of None \<Rightarrow> Inl ArithTrap | Some a \<Rightarrow> Inr a)"
  shows "fold_trap (add_amount s) is acc
    = (if sums_fit acc (map f is) then Inr (acc + sum_list (map f is)) else Inl ArithTrap)"
  using assms by (induction "is" arbitrary: acc) (auto simp: checked_add_def)

section \<open>Properties\<close>

text \<open>The average.  After any entries, the average is the sum of the accepted amounts divided by their
  number, rounded towards zero; it is 0 when there is none, and the query traps exactly when one of the
  partial sums leaves the range of \<open>i128\<close>.  An entry is accepted unless its identifier was used before,
  and the earliest transaction is the first accepted.\<close>

theorem ledger_average_exact:
  assumes "length cs < u32_max"
  shows "let s = run ledger_exec cs ledger_fresh; txs = accepted [] cs in
     get_average_transaction_amount s =
       (if txs = [] then Inr 0 else if \<not> sums_fit 0 (map sx_amount txs) then Inl ArithTrap
        else Inr (quot (sum_list (map sx_amount txs)) (int (length txs))))
     \<and> get_earliest_transaction s = (case txs of [] \<Rightarrow> None | tx # _ \<Rightarrow> Some tx)
     \<and> (\<forall>i. get_transaction i s = find (\<lambda>tx. sx_id tx = i) txs)"
proof -
  let ?s = "run ledger_exec cs ledger_fresh" and ?txs = "accepted [] cs"
  have h: "holds_list ?s ?txs"
    by (rule ledger_run) (use assms in \<open>simp_all add: holds_list_def ledger_fresh_def\<close>)
  have "length (accepted txs cs) \<le> length txs + length cs" for txs
    by (induction txs cs rule: accepted.induct) auto
  from this [of "[]"] assms have short: "length ?txs < u32_max" by simp
  let ?f = "\<lambda>i. sx_amount (?txs ! (i - 1))"
  have amounts: "map ?f [1..<Suc (length ?txs)] = map sx_amount ?txs"
    by (rule nth_equalityI) (simp_all add: nth_append del: upt_Suc)
  have "fold_trap (add_amount ?s) [1..<Suc (length ?txs)] 0
    = (if sums_fit 0 (map ?f [1..<Suc (length ?txs)]) then Inr (0 + sum_list (map ?f [1..<Suc (length ?txs)])) else Inl ArithTrap)"
  proof (rule average_loop)
    fix i assume "i \<in> set [1..<Suc (length ?txs)]"
    then obtain n where i: "i = Suc n" "n < length ?txs" by (cases "i = 0") (auto simp del: upt_Suc simp: gr0_conv_Suc)
    with h have "lg_tx_seq ?s i = Some (sx_id (?txs ! n))" by (simp add: holds_list_def)
    moreover have "lg_transaction ?s (sx_id (?txs ! n)) = Some (?txs ! n)"
      using h i by (simp add: holds_list_def find_own_id)
    ultimately show "add_amount ?s i = (\<lambda>acc. case checked_add acc (?f i) of None \<Rightarrow> Inl ArithTrap | Some a \<Rightarrow> Inr a)"
      by (simp add: add_amount_def i fun_eq_iff)
  qed
  then have "fold_trap (add_amount ?s) [1..<Suc (length ?txs)] 0
      = (if sums_fit 0 (map sx_amount ?txs) then Inr (sum_list (map sx_amount ?txs)) else Inl ArithTrap)"
    unfolding amounts by simp
  then have "get_average_transaction_amount ?s = (if ?txs = [] then Inr 0 else if \<not> sums_fit 0 (map sx_amount ?txs) then Inl ArithTrap
        else Inr (quot (sum_list (map sx_amount ?txs)) (int (length ?txs))))"
    using h short by (simp add: get_average_transaction_amount_def holds_list_def u32_add_def in_u32_def Let_def del: upt_Suc)
  moreover have "get_earliest_transaction ?s = (case ?txs of [] \<Rightarrow> None | tx # _ \<Rightarrow> Some tx)"
    using h by (cases ?txs) (simp_all add: get_earliest_transaction_def holds_list_def)
  moreover have "get_transaction i ?s = find (\<lambda>tx. sx_id tx = i) ?txs" for i
    using h by (simp add: get_transaction_def holds_list_def)
  ultimately show ?thesis by (simp add: Let_def)
qed

theorem ledger_average_exact_witness:
  "get_average_transaction_amount (run ledger_exec
     [\<lparr>sx_id = ''a'', sx_amount = - 4, sx_sender = ''x'', sx_receiver = ''y''\<rparr>,
      \<lparr>sx_id = ''a'', sx_amount = 900, sx_sender = ''x'', sx_receiver = ''y''\<rparr>,
      \<lparr>sx_id = ''b'', sx_amount = - 3, sx_sender = ''x'', sx_receiver = ''y''\<rparr>] ledger_fresh) = Inr (- 3)"
proof -
  let ?cs = "[\<lparr>sx_id = ''a'', sx_amount = - 4, sx_sender = ''x'', sx_receiver = ''y''\<rparr>,
      \<lparr>sx_id = ''a'', sx_amount = 900, sx_sender = ''x'', sx_receiver = ''y''\<rparr>,
      \<lparr>sx_id = ''b'', sx_amount = - 3, sx_sender = ''x'', sx_receiver = ''y''\<rparr>]"
  have "length ?cs < u32_max" by simp
  from ledger_average_exact [OF this] show ?thesis
    by (simp add: Let_def in_i128_def quot_def)
qed

end
