(* ===== verification/Currency_Conversion.thy ===== *)
theory Currency_Conversion imports Host begin

text \<open>
  \<open>contracts/currency-conversion/src\<close> (\<open>lib.rs\<close>, \<open>math.rs\<close>, \<open>types.rs\<close>): conversion of amounts by rational
  rates, and the sum of balances of several currencies in one.  The contract keeps no storage; its
  events carry the result, so an entry point returns it with the list of events.  \<open>PanicTrap\<close> is
  \<open>panic!\<close> or \<open>expect\<close>.
\<close>

record conversion_rate =
  cr_from_currency :: string
  cr_to_currency :: string
  cr_numerator :: int
  cr_denominator :: int

datatype conversion_event = ConversionPerformed string int

definition convert_amount :: "int \<Rightarrow> int \<Rightarrow> int \<Rightarrow> unit trap + int" where
  "convert_amount amount numerator denominator =
    (if amount = 0 then Inr 0 else
     if denominator = 0 then Inl PanicTrap else
     case checked_mul amount numerator of None \<Rightarrow> Inl PanicTrap | Some product \<Rightarrow>
     case checked_div product denominator of None \<Rightarrow> Inl PanicTrap | Some q \<Rightarrow> Inr q)"

text \<open>The inner loop stops at the first rate from the currency into the base.\<close>

fun find_rate :: "string \<Rightarrow> string \<Rightarrow> conversion_rate list \<Rightarrow> conversion_rate option" where
  "find_rate currency base [] = None"
| "find_rate currency base (rate # rates) =
    (if cr_from_currency rate = currency \<and> cr_to_currency rate = base then Some rate
     else find_rate currency base rates)"

definition normalize_step :: "conversion_rate list \<Rightarrow> string \<Rightarrow> string \<times> int \<Rightarrow> int \<Rightarrow> unit trap + int" where
  "normalize_step rates base item acc = (case item of (currency, amount) \<Rightarrow>
    if currency = base then (case checked_add acc amount of None \<Rightarrow> Inl PanicTrap | Some t \<Rightarrow> Inr t)
    else case find_rate currency base rates of None \<Rightarrow> Inl PanicTrap | Some rate \<Rightarrow>
      case convert_amount amount (cr_numerator rate) (cr_denominator rate) of Inl t \<Rightarrow> Inl t | Inr converted \<Rightarrow>
      case checked_add acc converted of None \<Rightarrow> Inl PanicTrap | Some t \<Rightarrow> Inr t)"

definition normalize_balances :: "(string \<times> int) list \<Rightarrow> conversion_rate list \<Rightarrow> string \<Rightarrow> unit trap + int" where
  "normalize_balances balances rates base = fold_trap (normalize_step rates base) balances 0"

definition convert :: "int \<Rightarrow> conversion_rate \<Rightarrow> unit trap + (int \<times> conversion_event list)" where
  "convert amount rate =
    (case convert_amount amount (cr_numerator rate) (cr_denominator rate) of Inl t \<Rightarrow> Inl t | Inr to_amount \<Rightarrow>
     Inr (to_amount, [ConversionPerformed (cr_from_currency rate) to_amount]))"

definition normalize :: "(string \<times> int) list \<Rightarrow> conversion_rate list \<Rightarrow> string \<Rightarrow> unit trap + int" where
  "normalize balances rates base = normalize_balances balances rates base"

section \<open>Properties\<close>

text \<open>What one balance is worth in the base currency, when it is worth anything.\<close>

definition worth :: "conversion_rate list \<Rightarrow> string \<Rightarrow> string \<times> int \<Rightarrow> int option" where
  "worth rates base item = (if fst item = base then Some (snd item) else
     case find_rate (fst item) base rates of None \<Rightarrow> None | Some r \<Rightarrow>
       (case convert_amount (snd item) (cr_numerator r) (cr_denominator r) of Inl _ \<Rightarrow> None | Inr v \<Rightarrow> Some v))"

lemma normalize_step_worth:
  "normalize_step rates base item acc = (case worth rates base item of None \<Rightarrow> Inl PanicTrap | Some v \<Rightarrow>
     if in_i128 (acc + v) then Inr (acc + v) else Inl PanicTrap)"
  by (auto simp: normalize_step_def worth_def convert_amount_def checked_add_def checked_mul_def checked_div_def
      split: prod.splits option.splits sum.splits)

text \<open>Conversion.  A nonzero amount converts exactly when the denominator is not 0 and product and quotient
  fit; the result is the exact value rounded towards zero, so it is off by less than one unit and never
  larger in size than the exact value.\<close>

theorem conversion_rounds:
  assumes "convert_amount n p q = Inr v" and "n \<noteq> 0"
  shows "q \<noteq> 0 \<and> \<bar>v\<bar> * \<bar>q\<bar> \<le> \<bar>n * p\<bar> \<and> \<bar>n * p\<bar> < (\<bar>v\<bar> + 1) * \<bar>q\<bar> \<and> (v \<noteq> 0 \<longrightarrow> sgn v = sgn (n * p) * sgn q)"
proof -
  from assms have q: "q \<noteq> 0" and v: "v = quot (n * p) q"
    by (auto simp: convert_amount_def checked_div_def split: if_splits option.splits)
  have abs: "\<bar>v\<bar> = \<bar>n * p\<bar> div \<bar>q\<bar>"
  proof -
    have "0 \<le> \<bar>n * p\<bar> div \<bar>q\<bar>" using q by (simp add: pos_imp_zdiv_nonneg_iff)
    then have "\<bar>\<bar>n * p\<bar> div \<bar>q\<bar>\<bar> = \<bar>n * p\<bar> div \<bar>q\<bar>" by (rule abs_of_nonneg)
    with q show ?thesis by (cases "n * p = 0") (auto simp: v quot_def abs_mult)
  qed
  have dm: "\<bar>v\<bar> * \<bar>q\<bar> + \<bar>n * p\<bar> mod \<bar>q\<bar> = \<bar>n * p\<bar>" unfolding abs by (rule div_mult_mod_eq)
  have m: "0 \<le> \<bar>n * p\<bar> mod \<bar>q\<bar>" "\<bar>n * p\<bar> mod \<bar>q\<bar> < \<bar>q\<bar>" using q by simp_all
  have "(\<bar>v\<bar> + 1) * \<bar>q\<bar> = \<bar>v\<bar> * \<bar>q\<bar> + \<bar>q\<bar>" by (simp add: distrib_right)
  with dm m have "\<bar>v\<bar> * \<bar>q\<bar> \<le> \<bar>n * p\<bar>" "\<bar>n * p\<bar> < (\<bar>v\<bar> + 1) * \<bar>q\<bar>" by linarith+
  moreover have "sgn v = sgn (n * p) * sgn q" if "v \<noteq> 0"
  proof -
    let ?w = "\<bar>n * p\<bar> div \<bar>q\<bar>"
    from that abs have "0 < ?w" by linarith
    then have "sgn ?w = 1" by simp
    moreover have "sgn v = sgn (sgn (n * p) * sgn q) * sgn ?w" by (simp only: v quot_def sgn_mult)
    ultimately show ?thesis by (simp add: sgn_mult)
  qed
  ultimately show ?thesis using q by blast
qed

lemma normalize_fold:
  "fold_trap (normalize_step rates base) items acc =
    (if (\<forall>i\<in>set items. worth rates base i \<noteq> None) \<and> sums_fit acc (map (\<lambda>i. the (worth rates base i)) items)
     then Inr (acc + sum_list (map (\<lambda>i. the (worth rates base i)) items)) else Inl PanicTrap)"
proof (induction items arbitrary: acc)
  case (Cons i items)
  show ?case
  proof (cases "worth rates base i")
    case None
    then show ?thesis by (simp add: normalize_step_worth [of rates base i])
  next
    case (Some v)
    with Cons.IH [of "acc + v"] show ?thesis
      by (auto simp: normalize_step_worth [of rates base i] add.assoc)
  qed
qed simp

text \<open>Normalisation.  The balances of a portfolio are summed, each converted and rounded on its own at the
  first rate from its currency into the base; the call returns exactly when every currency has such a
  rate, every conversion and every partial sum fits, and panics otherwise.\<close>

theorem normalize_sums:
  "normalize balances rates base =
    (if (\<forall>i\<in>set balances. worth rates base i \<noteq> None) \<and> sums_fit 0 (map (\<lambda>i. the (worth rates base i)) balances)
     then Inr (sum_list (map (\<lambda>i. the (worth rates base i)) balances)) else Inl PanicTrap)"
  by (simp add: normalize_def normalize_balances_def normalize_fold)

theorem conversion_rounds_witness:
  "convert_amount 7 (- 3) 2 = Inr (- 10) \<and> \<bar>7 * (- 3 :: int)\<bar> < (\<bar>- 10\<bar> + 1) * 2"
proof -
  have run: "convert_amount 7 (- 3) 2 = Inr (- 10)" by (simp add: convert_amount_def arith_defs)
  from conversion_rounds [OF run] show ?thesis by (simp add: run)
qed

theorem normalize_sums_witness:
  "normalize [(''XLM'', 100), (''USD'', 5)] [\<lparr>cr_from_currency = ''XLM'', cr_to_currency = ''USD'',
     cr_numerator = 1, cr_denominator = 3\<rparr>] ''USD'' = Inr 38"
  by (simp add: normalize_sums worth_def convert_amount_def arith_defs)

end
