(* ===== verification/Merchant_Tagging.thy ===== *)
theory Merchant_Tagging imports Host begin

text \<open>
  \<open>contracts/merchant-tagging/src\<close> (\<open>lib.rs\<close>, \<open>types.rs\<close>, \<open>events.rs\<close>): a register of merchants and the
  transactions tagged with them, with running totals per merchant.  Every refusal of the contract is a
  \<open>panic!\<close>.
\<close>

section \<open>Data (types.rs)\<close>

definition MAX_MERCHANT_NAME_LEN :: nat where "MAX_MERCHANT_NAME_LEN = 64"
definition MAX_TAG_LEN :: nat where "MAX_TAG_LEN = 32"
definition MAX_TAGS_PER_MERCHANT :: nat where "MAX_TAGS_PER_MERCHANT = 10"
definition MAX_QUERY_RESULTS :: nat where "MAX_QUERY_RESULTS = 100"

record merchant =
  mer_id :: symbol
  mer_name :: string
  mer_tags :: "symbol list"
  mer_address :: "address option"
  mer_registered_at :: nat
  mer_active :: bool

record transaction_merchant_tag =
  tmt_tx_id :: nat
  tmt_merchant_id :: symbol
  tmt_amount :: int
  tmt_asset :: symbol
  tmt_timestamp :: nat
  tmt_note :: string

record merchant_analytics =
  mea_merchant_id :: symbol
  mea_tx_count :: nat
  mea_total_volume :: int
  mea_last_tx_at :: nat

datatype merchant_event =
    MerchantRegistered symbol address
  | MerchantUpdated symbol address
  | MerchantDeactivated symbol address
  | TransactionTagged nat symbol int symbol
  | TagRemoved nat symbol

record merchants_state =
  mt_admin :: "address option"
  mt_merchant :: "symbol \<rightharpoonup> merchant"
  mt_merchant_index :: "symbol list option"
  mt_transaction_merchant :: "nat \<times> symbol \<rightharpoonup> transaction_merchant_tag"
  mt_merchant_transactions :: "symbol \<rightharpoonup> nat list"
  mt_analytics :: "symbol \<rightharpoonup> merchant_analytics"
  mt_total_tagged :: "nat option"
  mt_events :: "merchant_event list"

definition merchants_fresh :: merchants_state where
  "merchants_fresh = \<lparr>mt_admin = None, mt_merchant = Map.empty, mt_merchant_index = None,
     mt_transaction_merchant = Map.empty, mt_merchant_transactions = Map.empty, mt_analytics = Map.empty,
     mt_total_tagged = None, mt_events = []\<rparr>"

definition emit :: "merchant_event \<Rightarrow> merchants_state \<Rightarrow> merchants_state" where
  "emit ev s = s\<lparr>mt_events := mt_events s @ [ev]\<rparr>"

section \<open>Helpers\<close>

definition require_admin :: "env \<Rightarrow> address \<Rightarrow> merchants_state \<Rightarrow> unit trap + unit" where
  "require_admin e caller s =
    (if \<not> env_auth e caller then Inl AuthTrap else
     case mt_admin s of None \<Rightarrow> Inl PanicTrap | Some admin \<Rightarrow>
     if caller \<noteq> admin then Inl PanicTrap else Inr ())"

definition validate_name :: "string \<Rightarrow> unit trap + unit" where
  "validate_name name =
    (if MAX_MERCHANT_NAME_LEN < length name then Inl PanicTrap else
     if length name = 0 then Inl PanicTrap else Inr ())"

definition validate_tags :: "symbol list \<Rightarrow> unit trap + unit" where
  "validate_tags tags =
    (if MAX_TAGS_PER_MERCHANT < length tags then Inl PanicTrap else
     if (\<exists>tag\<in>set tags. MAX_TAG_LEN < length tag) then Inl PanicTrap else Inr ())"

section \<open>Entry points\<close>

definition init :: "env \<Rightarrow> address \<Rightarrow> merchants_state \<Rightarrow> (merchants_state, unit, unit) outcome" where
  "init e admin s =
    (if mt_admin s \<noteq> None then Inl PanicTrap else
     if \<not> env_auth e admin then Inl AuthTrap else
     Inr ((), s\<lparr>mt_admin := Some admin, mt_total_tagged := Some 0\<rparr>))"

definition get_admin :: "merchants_state \<Rightarrow> unit trap + address" where
  "get_admin s = (case mt_admin s of None \<Rightarrow> Inl PanicTrap | Some a \<Rightarrow> Inr a)"

definition register_merchant :: "env \<Rightarrow> address \<Rightarrow> symbol \<Rightarrow> string \<Rightarrow> symbol list \<Rightarrow> address option
    \<Rightarrow> merchants_state \<Rightarrow> (merchants_state, unit, unit) outcome" where
  "register_merchant e caller i name tags addr s =
    (case require_admin e caller s of Inl t \<Rightarrow> Inl t | Inr _ \<Rightarrow>
     if mt_merchant s i \<noteq> None then Inl PanicTrap else
     case validate_name name of Inl t \<Rightarrow> Inl t | Inr _ \<Rightarrow>
     case validate_tags tags of Inl t \<Rightarrow> Inl t | Inr _ \<Rightarrow>
     let m = \<lparr>mer_id = i, mer_name = name, mer_tags = tags, mer_address = addr,
              mer_registered_at = env_timestamp e, mer_active = True\<rparr>;
         s1 = s\<lparr>mt_merchant := (mt_merchant s)(i \<mapsto> m)\<rparr>;
         index = unwrap_or (mt_merchant_index s1) [] @ [i] in
     Inr ((), emit (MerchantRegistered i caller) (s1\<lparr>mt_merchant_index := Some index\<rparr>)))"

definition update_merchant :: "env \<Rightarrow> address \<Rightarrow> symbol \<Rightarrow> string option \<Rightarrow> symbol list option \<Rightarrow> address option
    \<Rightarrow> merchants_state \<Rightarrow> (merchants_state, unit, unit) outcome" where
  "update_merchant e caller i name tags addr s =
    (case require_admin e caller s of Inl t \<Rightarrow> Inl t | Inr _ \<Rightarrow>
     case mt_merchant s i of None \<Rightarrow> Inl PanicTrap | Some m \<Rightarrow>
     case (case name of None \<Rightarrow> Inr m | Some n \<Rightarrow>
             (case validate_name n of Inl t \<Rightarrow> Inl t | Inr _ \<Rightarrow> Inr (m\<lparr>mer_name := n\<rparr>))) of Inl t \<Rightarrow> Inl t | Inr m1 \<Rightarrow>
     case (case tags of None \<Rightarrow> Inr m1 | Some ts \<Rightarrow>
             (case validate_tags ts of Inl t \<Rightarrow> Inl t | Inr _ \<Rightarrow> Inr (m1\<lparr>mer_tags := ts\<rparr>))) of Inl t \<Rightarrow> Inl t | Inr m2 \<Rightarrow>
     let m3 = (case addr of None \<Rightarrow> m2 | Some a \<Rightarrow> m2\<lparr>mer_address := Some a\<rparr>) in
     Inr ((), emit (MerchantUpdated i caller) (s\<lparr>mt_merchant := (mt_merchant s)(i \<mapsto> m3)\<rparr>)))"

definition deactivate_merchant :: "env \<Rightarrow> address \<Rightarrow> symbol \<Rightarrow> merchants_state \<Rightarrow> (merchants_state, unit, unit) outcome" where
  "deactivate_merchant e caller i s =
    (case require_admin e caller s of Inl t \<Rightarrow> Inl t | Inr _ \<Rightarrow>
     case mt_merchant s i of None \<Rightarrow> Inl PanicTrap | Some m \<Rightarrow>
     Inr ((), emit (MerchantDeactivated i caller)
       (s\<lparr>mt_merchant := (mt_merchant s)(i \<mapsto> m\<lparr>mer_active := False\<rparr>)\<rparr>)))"

definition get_merchant :: "symbol \<Rightarrow> merchants_state \<Rightarrow> merchant option" where
  "get_merchant i s = mt_merchant s i"

definition list_merchants :: "merchants_state \<Rightarrow> symbol list" where
  "list_merchants s = unwrap_or (mt_merchant_index s) []"

definition tag_transaction :: "env \<Rightarrow> address \<Rightarrow> nat \<Rightarrow> symbol \<Rightarrow> int \<Rightarrow> symbol \<Rightarrow> string
    \<Rightarrow> merchants_state \<Rightarrow> (merchants_state, unit, unit) outcome" where
  "tag_transaction e tagger tx_id merchant_id amount asset note s =
    (if \<not> env_auth e tagger then Inl AuthTrap else
     if amount \<le> 0 then Inl PanicTrap else
     case mt_merchant s merchant_id of None \<Rightarrow> Inl PanicTrap | Some m \<Rightarrow>
     if \<not> mer_active m then Inl PanicTrap else
     if mt_transaction_merchant s (tx_id, merchant_id) \<noteq> None then Inl PanicTrap else
     let tag = \<lparr>tmt_tx_id = tx_id, tmt_merchant_id = merchant_id, tmt_amount = amount, tmt_asset = asset,
                tmt_timestamp = env_timestamp e, tmt_note = note\<rparr>;
         s1 = s\<lparr>mt_transaction_merchant := (mt_transaction_merchant s)((tx_id, merchant_id) \<mapsto> tag)\<rparr>;
         tx_ids = unwrap_or (mt_merchant_transactions s1 merchant_id) [] @ [tx_id];
         s2 = s1\<lparr>mt_merchant_transactions := (mt_merchant_transactions s1)(merchant_id \<mapsto> tx_ids)\<rparr>;
         analytics = unwrap_or (mt_analytics s2 merchant_id)
           \<lparr>mea_merchant_id = merchant_id, mea_tx_count = 0, mea_total_volume = 0, mea_last_tx_at = 0\<rparr> in
     case u32_add (mea_tx_count analytics) 1 of None \<Rightarrow> Inl ArithTrap | Some tx_count \<Rightarrow>
     case checked_add (mea_total_volume analytics) amount of None \<Rightarrow> Inl PanicTrap | Some volume \<Rightarrow>
     let analytics1 = analytics\<lparr>mea_tx_count := tx_count, mea_total_volume := volume,
           mea_last_tx_at := env_timestamp e\<rparr>;
         s3 = s2\<lparr>mt_analytics := (mt_analytics s2)(merchant_id \<mapsto> analytics1)\<rparr> in
     case u32_add (unwrap_or (mt_total_tagged s3) 0) 1 of None \<Rightarrow> Inl ArithTrap | Some total_tagged \<Rightarrow>
     Inr ((), emit (TransactionTagged tx_id merchant_id amount asset) (s3\<lparr>mt_total_tagged := Some total_tagged\<rparr>)))"

definition remove_tag :: "env \<Rightarrow> address \<Rightarrow> nat \<Rightarrow> symbol \<Rightarrow> merchants_state \<Rightarrow> (merchants_state, unit, unit) outcome" where
  "remove_tag e caller tx_id merchant_id s =
    (if \<not> env_auth e caller then Inl AuthTrap else
     case require_admin e caller s of Inl t \<Rightarrow> Inl t | Inr _ \<Rightarrow>
     if mt_transaction_merchant s (tx_id, merchant_id) = None then Inl PanicTrap else
     Inr ((), emit (TagRemoved tx_id merchant_id)
       (s\<lparr>mt_transaction_merchant := (mt_transaction_merchant s)((tx_id, merchant_id) := None)\<rparr>)))"

definition get_transaction_tag :: "nat \<Rightarrow> symbol \<Rightarrow> merchants_state \<Rightarrow> transaction_merchant_tag option" where
  "get_transaction_tag tx_id merchant_id s = mt_transaction_merchant s (tx_id, merchant_id)"

definition get_merchant_transactions :: "symbol \<Rightarrow> merchants_state \<Rightarrow> nat list" where
  "get_merchant_transactions merchant_id s =
    (let ids = unwrap_or (mt_merchant_transactions s merchant_id) [] in
     if length ids \<le> MAX_QUERY_RESULTS then ids else map (\<lambda>i. ids ! i) [0..<MAX_QUERY_RESULTS])"

definition get_merchant_analytics :: "symbol \<Rightarrow> merchants_state \<Rightarrow> merchant_analytics option" where
  "get_merchant_analytics merchant_id s = mt_analytics s merchant_id"

definition get_total_tagged :: "merchants_state \<Rightarrow> nat" where
  "get_total_tagged s = unwrap_or (mt_total_tagged s) 0"

definition get_merchants_by_tag :: "symbol \<Rightarrow> merchants_state \<Rightarrow> symbol list" where
  "get_merchants_by_tag tag s =
    filter (\<lambda>i. case mt_merchant s i of Some m \<Rightarrow> tag \<in> set (mer_tags m) | None \<Rightarrow> False)
      (unwrap_or (mt_merchant_index s) [])"

datatype merchants_call =
    CInit address
  | CRegister address symbol string "symbol list" "address option"
  | CUpdate address symbol "string option" "symbol list option" "address option"
  | CDeactivate address symbol
  | CTag address nat symbol int symbol string
  | CRemove address nat symbol

fun merchants_exec :: "env \<times> merchants_call \<Rightarrow> merchants_state \<Rightarrow> unit trap + merchants_state" where
  "merchants_exec (e, CInit a) s = final (init e a s)"
| "merchants_exec (e, CRegister a i n ts addr) s = final (register_merchant e a i n ts addr s)"
| "merchants_exec (e, CUpdate a i n ts addr) s = final (update_merchant e a i n ts addr s)"
| "merchants_exec (e, CDeactivate a i) s = final (deactivate_merchant e a i s)"
| "merchants_exec (e, CTag a tx i n asset nt) s = final (tag_transaction e a tx i n asset nt s)"
| "merchants_exec (e, CRemove a tx i) s = final (remove_tag e a tx i s)"
section \<open>The books follow from the published events\<close>

fun tagged :: "symbol \<Rightarrow> merchant_event list \<Rightarrow> (nat \<times> int) list" where
  "tagged m [] = []"
| "tagged m (TransactionTagged tx m' n a # log) = (if m' = m then (tx, n) # tagged m log else tagged m log)"
| "tagged m (_ # log) = tagged m log"

fun registered :: "merchant_event list \<Rightarrow> symbol list" where
  "registered [] = []"
| "registered (MerchantRegistered i a # log) = i # registered log"
| "registered (_ # log) = registered log"

definition is_tagging :: "merchant_event \<Rightarrow> bool" where
  "is_tagging ev \<longleftrightarrow> (case ev of TransactionTagged _ _ _ _ \<Rightarrow> True | _ \<Rightarrow> False)"

text \<open>The tags in force: the last event about a pair decides.\<close>

fun tags_in_force :: "merchant_event list \<Rightarrow> (nat \<times> symbol \<rightharpoonup> int) \<Rightarrow> (nat \<times> symbol \<rightharpoonup> int)" where
  "tags_in_force [] f = f"
| "tags_in_force (TransactionTagged tx m n a # log) f = tags_in_force log (f((tx, m) \<mapsto> n))"
| "tags_in_force (TagRemoved tx m # log) f = tags_in_force log (f((tx, m) := None))"
| "tags_in_force (_ # log) f = tags_in_force log f"

lemma tagged_snoc: "tagged m (log @ [ev]) = tagged m log @ tagged m [ev]"
  by (induction m log rule: tagged.induct) simp_all

lemma registered_snoc: "registered (log @ [ev]) = registered log @ registered [ev]"
  by (induction log rule: registered.induct) simp_all

lemma tags_snoc: "tags_in_force (log @ [ev]) f = tags_in_force [ev] (tags_in_force log f)"
proof (induction log arbitrary: f)
  case (Cons x log)
  then show ?case by (cases x) (simp_all del: fun_upd_apply)
qed simp

definition merchant_totals :: "(nat \<times> int) list \<Rightarrow> merchant_analytics option \<Rightarrow> bool" where
  "merchant_totals tags a \<longleftrightarrow> (case a of None \<Rightarrow> tags = []
     | Some r \<Rightarrow> tags \<noteq> [] \<and> mea_tx_count r = length tags \<and> mea_total_volume r = sum_list (map snd tags))"

definition merchants_inv :: "merchants_state \<Rightarrow> bool" where
  "merchants_inv s \<longleftrightarrow> (let log = mt_events s in
     list_merchants s = registered log \<and> distinct (registered log)
   \<and> (\<forall>i. mt_merchant s i = None \<longleftrightarrow> i \<notin> set (registered log))
   \<and> (\<forall>m. unwrap_or (mt_merchant_transactions s m) [] = map fst (tagged m log))
   \<and> (\<forall>m. merchant_totals (tagged m log) (mt_analytics s m))
   \<and> (\<forall>k. map_option tmt_amount (mt_transaction_merchant s k) = tags_in_force log Map.empty k)
   \<and> get_total_tagged s = length (filter is_tagging log)
   \<and> (\<forall>ev. ev \<in> set log \<longrightarrow> is_tagging ev \<longrightarrow> mt_admin s \<noteq> None)
   \<and> (mt_admin s = None \<longrightarrow> log = []))"

lemmas log_simps = tagged_snoc registered_snoc tags_snoc is_tagging_def

lemma merchants_inv_fresh: "merchants_inv merchants_fresh"
  by (simp add: merchants_inv_def merchants_fresh_def list_merchants_def get_total_tagged_def merchant_totals_def)

lemma merchant_admin_Inr: "require_admin e a s = Inr u \<longleftrightarrow> env_auth e a \<and> mt_admin s = Some a"
  by (auto simp: require_admin_def split: option.splits)

lemma merchant_emit_simps [simp]:
  "mt_admin (emit ev s) = mt_admin s" "mt_merchant (emit ev s) = mt_merchant s"
  "mt_merchant_index (emit ev s) = mt_merchant_index s"
  "mt_transaction_merchant (emit ev s) = mt_transaction_merchant s"
  "mt_merchant_transactions (emit ev s) = mt_merchant_transactions s" "mt_analytics (emit ev s) = mt_analytics s"
  "mt_total_tagged (emit ev s) = mt_total_tagged s" "mt_events (emit ev s) = mt_events s @ [ev]"
  by (simp_all add: emit_def)

lemma merchants_init_inv:
  assumes "init e a s = Inr (u, s')" and "merchants_inv s"
  shows "merchants_inv s'"
proof -
  from assms(1) have none: "mt_admin s = None" and s': "s' = s\<lparr>mt_admin := Some a, mt_total_tagged := Some 0\<rparr>"
    by (auto simp: init_def split: if_splits)
  with assms(2) show ?thesis
    by (auto simp: merchants_inv_def Let_def list_merchants_def get_total_tagged_def)
qed

lemma merchant_register_inv:
  assumes "register_merchant e a i n ts addr s = Inr (u, s')" and "merchants_inv s"
  shows "merchants_inv s'"
proof -
  from assms(1) have "mt_merchant s i = None" "mt_admin s = Some a"
    and s': "\<exists>m. s' = emit (MerchantRegistered i a) (s\<lparr>mt_merchant := (mt_merchant s)(i \<mapsto> m),
        mt_merchant_index := Some (unwrap_or (mt_merchant_index s) [] @ [i])\<rparr>)"
    by (auto simp: register_merchant_def merchant_admin_Inr Let_def split: sum.splits if_splits)
  moreover from this(1) have "i \<notin> set (registered (mt_events s))"
    using assms(2) by (simp add: merchants_inv_def Let_def)
  ultimately show ?thesis
    using assms(2) by (auto simp: merchants_inv_def Let_def list_merchants_def get_total_tagged_def log_simps
        split: if_split_asm)
qed

lemma rewrite_merchant_inv:
  assumes "merchants_inv s" and "mt_merchant s i \<noteq> None" and "mt_admin s \<noteq> None"
    and "ev = MerchantUpdated i a \<or> ev = MerchantDeactivated i a"
  shows "merchants_inv (emit ev (s\<lparr>mt_merchant := (mt_merchant s)(i \<mapsto> m)\<rparr>))"
  using assms by (auto simp: merchants_inv_def Let_def list_merchants_def get_total_tagged_def log_simps)

lemma update_Inr:
  "update_merchant e a i n ts addr s = Inr (u, s') \<Longrightarrow> mt_merchant s i \<noteq> None \<and> mt_admin s \<noteq> None
    \<and> (\<exists>m. s' = emit (MerchantUpdated i a) (s\<lparr>mt_merchant := (mt_merchant s)(i \<mapsto> m)\<rparr>))"
  by (auto simp: update_merchant_def merchant_admin_Inr Let_def split: sum.splits option.splits)

lemma merchant_deactivate_Inr:
  "deactivate_merchant e a i s = Inr (u, s') \<Longrightarrow> mt_merchant s i \<noteq> None \<and> mt_admin s \<noteq> None
    \<and> (\<exists>m. s' = emit (MerchantDeactivated i a) (s\<lparr>mt_merchant := (mt_merchant s)(i \<mapsto> m)\<rparr>))"
  by (auto simp: deactivate_merchant_def merchant_admin_Inr split: sum.splits option.splits)

lemma tag_Inr:
  assumes "tag_transaction e a tx m n asset nt s = Inr (u, s')"
  shows "0 < n \<and> (\<exists>r. mt_merchant s m = Some r \<and> mer_active r) \<and> mt_transaction_merchant s (tx, m) = None
    \<and> (\<exists>tag r. tmt_amount tag = n
        \<and> mea_tx_count r = (case mt_analytics s m of None \<Rightarrow> 0 | Some q \<Rightarrow> mea_tx_count q) + 1
        \<and> mea_total_volume r = (case mt_analytics s m of None \<Rightarrow> 0 | Some q \<Rightarrow> mea_total_volume q) + n
        \<and> s' = emit (TransactionTagged tx m n asset)
          (s\<lparr>mt_transaction_merchant := (mt_transaction_merchant s)((tx, m) \<mapsto> tag),
             mt_merchant_transactions := (mt_merchant_transactions s)(m \<mapsto> unwrap_or (mt_merchant_transactions s m) [] @ [tx]),
             mt_analytics := (mt_analytics s)(m \<mapsto> r), mt_total_tagged := Some (get_total_tagged s + 1)\<rparr>))"
proof -
  from assms obtain q where m: "mt_merchant s m = Some q" "mer_active q" "0 < n" "mt_transaction_merchant s (tx, m) = None"
    by (auto simp: tag_transaction_def Let_def split: if_splits option.splits)
  let ?tag = "\<lparr>tmt_tx_id = tx, tmt_merchant_id = m, tmt_amount = n, tmt_asset = asset,
                tmt_timestamp = env_timestamp e, tmt_note = nt\<rparr>"
  let ?old = "unwrap_or (mt_analytics s m) \<lparr>mea_merchant_id = m, mea_tx_count = 0, mea_total_volume = 0, mea_last_tx_at = 0\<rparr>"
  let ?r = "?old\<lparr>mea_tx_count := mea_tx_count ?old + 1, mea_total_volume := mea_total_volume ?old + n,
    mea_last_tx_at := env_timestamp e\<rparr>"
  have "s' = emit (TransactionTagged tx m n asset)
          (s\<lparr>mt_transaction_merchant := (mt_transaction_merchant s)((tx, m) \<mapsto> ?tag),
             mt_merchant_transactions := (mt_merchant_transactions s)(m \<mapsto> unwrap_or (mt_merchant_transactions s m) [] @ [tx]),
             mt_analytics := (mt_analytics s)(m \<mapsto> ?r), mt_total_tagged := Some (get_total_tagged s + 1)\<rparr>)"
    using assms m by (auto simp: tag_transaction_def Let_def u32_add_def get_total_tagged_def split: if_splits option.splits)
  with m show ?thesis
    by (intro conjI exI [of _ ?tag] exI [of _ ?r]) (auto simp: unwrap_or_def split: option.splits)
qed

lemma tag_inv:
  assumes call: "tag_transaction e a tx m n asset nt s = Inr (u, s')" and inv: "merchants_inv s"
  shows "merchants_inv s'"
proof -
  note tag_Inr [OF call]
  then obtain tag r q where q: "mt_merchant s m = Some q" and tag: "tmt_amount tag = n"
    and r: "mea_tx_count r = (case mt_analytics s m of None \<Rightarrow> 0 | Some q \<Rightarrow> mea_tx_count q) + 1"
      "mea_total_volume r = (case mt_analytics s m of None \<Rightarrow> 0 | Some q \<Rightarrow> mea_total_volume q) + n"
    and s': "s' = emit (TransactionTagged tx m n asset)
          (s\<lparr>mt_transaction_merchant := (mt_transaction_merchant s)((tx, m) \<mapsto> tag),
             mt_merchant_transactions := (mt_merchant_transactions s)(m \<mapsto> unwrap_or (mt_merchant_transactions s m) [] @ [tx]),
             mt_analytics := (mt_analytics s)(m \<mapsto> r), mt_total_tagged := Some (get_total_tagged s + 1)\<rparr>)"
    by blast
  have "mt_merchant s m = None \<longleftrightarrow> m \<notin> set (registered (mt_events s))" using inv by (simp add: merchants_inv_def Let_def)
  with q have "m \<in> set (registered (mt_events s))" by simp
  then have "mt_events s \<noteq> []" by auto
  with inv have adm: "mt_admin s \<noteq> None" by (auto simp: merchants_inv_def Let_def)
  have "merchant_totals (tagged m (mt_events s)) (mt_analytics s m)" using inv by (simp add: merchants_inv_def Let_def)
  then have "merchant_totals (tagged m (mt_events s) @ [(tx, n)]) (Some r)"
    using r by (auto simp: merchant_totals_def split: option.splits)
  with inv adm tag show ?thesis
    unfolding merchants_inv_def Let_def
    by (auto simp: s' list_merchants_def get_total_tagged_def log_simps)
qed

lemma remove_inv:
  assumes "remove_tag e a tx m s = Inr (u, s')" and "merchants_inv s"
  shows "merchants_inv s'"
proof -
  from assms(1) have "mt_admin s \<noteq> None"
    and "s' = emit (TagRemoved tx m) (s\<lparr>mt_transaction_merchant := (mt_transaction_merchant s)((tx, m) := None)\<rparr>)"
    by (auto simp: remove_tag_def merchant_admin_Inr split: if_splits sum.splits)
  with assms(2) show ?thesis
    by (auto simp: merchants_inv_def Let_def list_merchants_def get_total_tagged_def log_simps)
qed

lemma merchants_exec_inv: "merchants_inv s \<Longrightarrow> merchants_exec c s = Inr s' \<Longrightarrow> merchants_inv s'"
proof -
  assume inv: "merchants_inv s" and run: "merchants_exec c s = Inr s'"
  obtain e k where c: "c = (e, k)" by (cases c)
  show "merchants_inv s'"
    by (cases k) (use run inv in \<open>auto simp: c intro: merchants_init_inv merchant_register_inv tag_inv remove_inv
      dest!: update_Inr merchant_deactivate_Inr intro!: rewrite_merchant_inv\<close>)
qed

interpretation merchants_machine: contract_invariant merchants_exec merchants_inv "\<lambda>_. True"
  by unfold_locales (use merchants_exec_inv in auto)

section \<open>Properties\<close>

text \<open>The merchant books follow from the published events.  After any calls, the merchants are those
  registered, each once; the count and the volume of a merchant, its transactions and the global total
  are those of all taggings ever published for it, removed ones included; and a tag is stored exactly
  when the last event about that transaction and merchant is a tagging.\<close>

theorem merchants_follow_events:
  "let s = run merchants_exec cs merchants_fresh; log = mt_events s in
     list_merchants s = registered log \<and> distinct (list_merchants s)
   \<and> (\<forall>m. get_merchant m s \<noteq> None \<longleftrightarrow> m \<in> set (list_merchants s))
   \<and> (\<forall>m. get_merchant_transactions m s = take MAX_QUERY_RESULTS (map fst (tagged m log)))
   \<and> (\<forall>m. case get_merchant_analytics m s of None \<Rightarrow> tagged m log = []
         | Some r \<Rightarrow> mea_tx_count r = length (tagged m log) \<and> mea_total_volume r = sum_list (map snd (tagged m log)))
   \<and> get_total_tagged s = length (filter is_tagging log)
   \<and> (\<forall>tx m. map_option tmt_amount (get_transaction_tag tx m s) = tags_in_force log Map.empty (tx, m))"
proof -
  let ?s = "run merchants_exec cs merchants_fresh"
  have inv: "merchants_inv ?s" by (rule merchants_machine.run_inv) (simp_all add: merchants_inv_fresh)
  have page: "(if length xs \<le> MAX_QUERY_RESULTS then xs else map (\<lambda>i. xs ! i) [0..<MAX_QUERY_RESULTS]) = take MAX_QUERY_RESULTS xs"
    for xs :: "nat list" by (auto intro!: nth_equalityI)
  have totals: "case get_merchant_analytics m ?s of None \<Rightarrow> tagged m (mt_events ?s) = []
      | Some r \<Rightarrow> mea_tx_count r = length (tagged m (mt_events ?s)) \<and> mea_total_volume r = sum_list (map snd (tagged m (mt_events ?s)))" for m
  proof -
    have "merchant_totals (tagged m (mt_events ?s)) (mt_analytics ?s m)" using inv by (simp add: merchants_inv_def Let_def)
    then show ?thesis by (auto simp: merchant_totals_def get_merchant_analytics_def split: option.splits)
  qed
  have known: "get_merchant m ?s \<noteq> None \<longleftrightarrow> m \<in> set (list_merchants ?s)" for m
  proof -
    have "mt_merchant ?s m = None \<longleftrightarrow> m \<notin> set (registered (mt_events ?s))" "list_merchants ?s = registered (mt_events ?s)"
      using inv by (simp_all add: merchants_inv_def Let_def)
    then show ?thesis by (simp add: get_merchant_def)
  qed
  show ?thesis
    using inv totals known
    by (simp add: merchants_inv_def Let_def get_merchant_transactions_def get_transaction_tag_def page)
qed

end
