(* ===== verification/Spending_Categories.thy ===== *)
theory Spending_Categories imports Host begin

text \<open>
  \<open>contracts/spending-categories/src\<close> (\<open>lib.rs\<close>, \<open>validation.rs\<close>): named spending categories per wallet,
  kept by the admin.  A category has a number; its name can change, and no wallet has two categories of one
  name.
\<close>

section \<open>Data and storage\<close>

datatype category_error = NotInitialized | Unauthorized | InvalidName | DuplicateName | CategoryNotFound

record spending_category =
  cat_category_id :: nat
  cat_user :: address
  cat_name :: symbol
  cat_created_at :: nat
  cat_updated_at :: nat

datatype category_event = CategoryCreated nat address symbol | CategoryRenamed nat symbol symbol

record categories_state =
  ca_admin :: "address option"
  ca_last_category_id :: "nat option"
  ca_total_categories :: "nat option"
  ca_category :: "nat \<rightharpoonup> spending_category"
  ca_category_by_name :: "address \<times> symbol \<rightharpoonup> nat"
  ca_user_categories :: "address \<rightharpoonup> nat list"
  ca_events :: "category_event list"

definition categories_fresh :: categories_state where
  "categories_fresh = \<lparr>ca_admin = None, ca_last_category_id = None, ca_total_categories = None,
     ca_category = Map.empty, ca_category_by_name = Map.empty, ca_user_categories = Map.empty, ca_events = []\<rparr>"

definition emit :: "category_event \<Rightarrow> categories_state \<Rightarrow> categories_state" where
  "emit ev s = s\<lparr>ca_events := ca_events s @ [ev]\<rparr>"

section \<open>Entry points\<close>

definition validate_category_name :: "symbol \<Rightarrow> bool" where
  "validate_category_name name \<longleftrightarrow> \<not> (length name = 0 \<or> 32 < length name)"

definition require_admin :: "address \<Rightarrow> categories_state \<Rightarrow> category_error trap + unit" where
  "require_admin caller s = (case ca_admin s of None \<Rightarrow> Inl PanicTrap | Some admin \<Rightarrow>
     if caller \<noteq> admin then Inl (ContractError Unauthorized) else Inr ())"

definition initialize :: "address \<Rightarrow> categories_state \<Rightarrow> (categories_state, category_error, unit) outcome" where
  "initialize admin s =
    (if ca_admin s \<noteq> None then Inl PanicTrap else
     Inr ((), s\<lparr>ca_admin := Some admin, ca_last_category_id := Some 0, ca_total_categories := Some 0\<rparr>))"

definition create_category :: "env \<Rightarrow> address \<Rightarrow> address \<Rightarrow> symbol \<Rightarrow> categories_state
    \<Rightarrow> (categories_state, category_error, spending_category) outcome" where
  "create_category e caller user name s =
    (if \<not> env_auth e caller then Inl AuthTrap else
     case require_admin caller s of Inl t \<Rightarrow> Inl t | Inr _ \<Rightarrow>
     if \<not> validate_category_name name then Inl (ContractError InvalidName) else
     if ca_category_by_name s (user, name) \<noteq> None then Inl (ContractError DuplicateName) else
     case u64_add (unwrap_or (ca_last_category_id s) 0) 1 of None \<Rightarrow> Inl ArithTrap | Some category_id \<Rightarrow>
     let category = \<lparr>cat_category_id = category_id, cat_user = user, cat_name = name,
           cat_created_at = env_sequence e, cat_updated_at = env_sequence e\<rparr>;
         s1 = s\<lparr>ca_category := (ca_category s)(category_id \<mapsto> category)\<rparr>;
         s2 = s1\<lparr>ca_category_by_name := (ca_category_by_name s1)((user, name) \<mapsto> category_id)\<rparr>;
         user_categories = unwrap_or (ca_user_categories s2 user) [] @ [category_id];
         s3 = s2\<lparr>ca_user_categories := (ca_user_categories s2)(user \<mapsto> user_categories),
                 ca_last_category_id := Some category_id\<rparr> in
     case u64_add (unwrap_or (ca_total_categories s3) 0) 1 of None \<Rightarrow> Inl ArithTrap | Some total_categories \<Rightarrow>
     Inr (category, emit (CategoryCreated category_id user name) (s3\<lparr>ca_total_categories := Some total_categories\<rparr>)))"

definition rename_category :: "env \<Rightarrow> address \<Rightarrow> nat \<Rightarrow> symbol \<Rightarrow> categories_state
    \<Rightarrow> (categories_state, category_error, spending_category) outcome" where
  "rename_category e caller category_id new_name s =
    (if \<not> env_auth e caller then Inl AuthTrap else
     case require_admin caller s of Inl t \<Rightarrow> Inl t | Inr _ \<Rightarrow>
     if \<not> validate_category_name new_name then Inl (ContractError InvalidName) else
     case ca_category s category_id of None \<Rightarrow> Inl (ContractError CategoryNotFound) | Some category \<Rightarrow>
     let old_name = cat_name category in
     case (if old_name \<noteq> new_name then
             if ca_category_by_name s (cat_user category, new_name) \<noteq> None then Inl (ContractError DuplicateName) else
             Inr (s\<lparr>ca_category_by_name := (ca_category_by_name s)((cat_user category, old_name) := None,
                    (cat_user category, new_name) \<mapsto> category_id)\<rparr>)
           else Inr s) of Inl t \<Rightarrow> Inl t | Inr s1 \<Rightarrow>
     let category1 = category\<lparr>cat_name := new_name, cat_updated_at := env_sequence e\<rparr> in
     Inr (category1, emit (CategoryRenamed category_id old_name new_name)
       (s1\<lparr>ca_category := (ca_category s1)(category_id \<mapsto> category1)\<rparr>)))"

definition get_category :: "nat \<Rightarrow> categories_state \<Rightarrow> spending_category option" where
  "get_category category_id s = ca_category s category_id"

definition get_user_categories :: "address \<Rightarrow> categories_state \<Rightarrow> nat list" where
  "get_user_categories user s = unwrap_or (ca_user_categories s user) []"

definition get_admin :: "categories_state \<Rightarrow> category_error trap + address" where
  "get_admin s = (case ca_admin s of None \<Rightarrow> Inl PanicTrap | Some a \<Rightarrow> Inr a)"

definition set_admin :: "env \<Rightarrow> address \<Rightarrow> address \<Rightarrow> categories_state \<Rightarrow> (categories_state, category_error, unit) outcome" where
  "set_admin e current_admin new_admin s =
    (if \<not> env_auth e current_admin then Inl AuthTrap else
     case require_admin current_admin s of Inl t \<Rightarrow> Inl t | Inr _ \<Rightarrow>
     Inr ((), s\<lparr>ca_admin := Some new_admin\<rparr>))"

definition get_total_categories :: "categories_state \<Rightarrow> nat" where
  "get_total_categories s = unwrap_or (ca_total_categories s) 0"

datatype categories_call = CInitialize address | CCreate address address symbol | CRename address nat symbol | CSetAdmin address address

fun categories_exec :: "env \<times> categories_call \<Rightarrow> categories_state \<Rightarrow> category_error trap + categories_state" where
  "categories_exec (e, CInitialize a) s = final (initialize a s)"
| "categories_exec (e, CCreate a u n) s = final (create_category e a u n s)"
| "categories_exec (e, CRename a i n) s = final (rename_category e a i n s)"
| "categories_exec (e, CSetAdmin a b) s = final (set_admin e a b s)"

section \<open>The register\<close>

definition owned_ids :: "(nat \<rightharpoonup> spending_category) \<Rightarrow> nat \<Rightarrow> address \<Rightarrow> nat list" where
  "owned_ids m n u = filter (\<lambda>i. \<exists>c. m i = Some c \<and> cat_user c = u) [1..<Suc n]"

definition categories_inv :: "categories_state \<Rightarrow> bool" where
  "categories_inv s \<longleftrightarrow> (let n = get_total_categories s in
     unwrap_or (ca_last_category_id s) 0 = n
   \<and> (\<forall>i. ca_category s i = None \<longleftrightarrow> \<not> (1 \<le> i \<and> i \<le> n))
   \<and> (\<forall>i c. ca_category s i = Some c \<longrightarrow> cat_category_id c = i \<and> ca_category_by_name s (cat_user c, cat_name c) = Some i)
   \<and> (\<forall>u x i. ca_category_by_name s (u, x) = Some i \<longrightarrow> (\<exists>c. ca_category s i = Some c \<and> cat_user c = u \<and> cat_name c = x))
   \<and> (\<forall>u. get_user_categories u s = owned_ids (ca_category s) n u)
   \<and> (ca_admin s = None \<longrightarrow> n = 0))"

lemma categories_inv_fresh: "categories_inv categories_fresh"
  by (simp add: categories_inv_def categories_fresh_def get_total_categories_def get_user_categories_def owned_ids_def)

lemma categories_emit_simps [simp]:
  "ca_admin (emit ev s) = ca_admin s" "ca_last_category_id (emit ev s) = ca_last_category_id s"
  "ca_total_categories (emit ev s) = ca_total_categories s" "ca_category (emit ev s) = ca_category s"
  "ca_category_by_name (emit ev s) = ca_category_by_name s" "ca_user_categories (emit ev s) = ca_user_categories s"
  by (simp_all add: emit_def)

lemma categories_admin_Inr: "require_admin a s = Inr u \<longleftrightarrow> ca_admin s = Some a"
  by (auto simp: require_admin_def split: option.splits)

lemma category_create_inv:
  assumes "create_category e a u x s = Inr (r, s')" and inv: "categories_inv s"
  shows "categories_inv s'"
proof -
  let ?n = "get_total_categories s" and ?i = "Suc (get_total_categories s)"
  let ?c = "\<lparr>cat_category_id = ?i, cat_user = u, cat_name = x, cat_created_at = env_sequence e, cat_updated_at = env_sequence e\<rparr>"
  have last: "unwrap_or (ca_last_category_id s) 0 = ?n" using inv by (simp add: categories_inv_def Let_def)
  from assms(1) have new: "ca_category_by_name s (u, x) = None" and adm: "ca_admin s = Some a"
    and s': "s' = emit (CategoryCreated ?i u x) (s\<lparr>ca_category := (ca_category s)(?i \<mapsto> ?c),
      ca_category_by_name := (ca_category_by_name s)((u, x) \<mapsto> ?i),
      ca_user_categories := (ca_user_categories s)(u \<mapsto> get_user_categories u s @ [?i]),
      ca_last_category_id := Some ?i, ca_total_categories := Some ?i\<rparr>)"
    by (auto simp: create_category_def categories_admin_Inr last get_user_categories_def Let_def get_total_categories_def
        split: if_splits sum.splits option.splits)
  have free: "ca_category s ?i = None" using inv by (simp add: categories_inv_def Let_def)
  have total: "get_total_categories s' = ?i" by (simp add: s' get_total_categories_def)
  have ids: "owned_ids ((ca_category s)(?i \<mapsto> ?c)) ?i v = owned_ids (ca_category s) ?n v @ (if v = u then [?i] else [])" for v
    by (auto simp: owned_ids_def intro!: filter_cong)
  have own: "\<And>j d. ca_category s j = Some d \<Longrightarrow> cat_category_id d = j \<and> ca_category_by_name s (cat_user d, cat_name d) = Some j"
    and named: "\<And>u y j. ca_category_by_name s (u, y) = Some j \<Longrightarrow> \<exists>d. ca_category s j = Some d \<and> cat_user d = u \<and> cat_name d = y"
    and dom: "\<And>i. ca_category s i = None \<longleftrightarrow> \<not> (1 \<le> i \<and> i \<le> ?n)"
    and lists: "\<And>v. get_user_categories v s = owned_ids (ca_category s) ?n v"
    using inv by (simp_all add: categories_inv_def Let_def)
  show ?thesis
    unfolding categories_inv_def Let_def total
  proof (intro conjI allI impI)
    show "unwrap_or (ca_last_category_id s') 0 = ?i" by (simp add: s')
    show "ca_category s' j = None \<longleftrightarrow> \<not> (1 \<le> j \<and> j \<le> ?i)" for j
      using dom [of j] by (auto simp: s')
    show "cat_category_id c = j" if "ca_category s' j = Some c" for j c
      using that own [of j c] by (auto simp: s' split: if_splits)
    show "ca_category_by_name s' (cat_user c, cat_name c) = Some j" if "ca_category s' j = Some c" for j c
      using that own [of j c] new by (auto simp: s' split: if_splits)
    show "\<exists>c. ca_category s' j = Some c \<and> cat_user c = v \<and> cat_name c = y" if "ca_category_by_name s' (v, y) = Some j" for v y j
      using that named [of v y j] free by (auto simp: s' split: if_splits)
    show "get_user_categories v s' = owned_ids (ca_category s') ?i v" for v
      using lists [of v] lists [of u] ids [of v] by (simp add: s' get_user_categories_def)
    show "ca_admin s' = None \<Longrightarrow> ?i = 0" by (simp add: s' adm)
  qed
qed

lemma owned_ids_rename:
  "ca_category s i = Some c \<Longrightarrow> owned_ids ((ca_category s)(i \<mapsto> c\<lparr>cat_name := x, cat_updated_at := t\<rparr>)) n u
    = owned_ids (ca_category s) n u"
  by (auto simp: owned_ids_def intro!: filter_cong)

lemma rename_inv:
  assumes "rename_category e a i x s = Inr (r, s')" and inv: "categories_inv s"
  shows "categories_inv s'"
proof -
  from assms(1) obtain c where c: "ca_category s i = Some c"
    and new: "cat_name c = x \<or> ca_category_by_name s (cat_user c, x) = None"
    and s': "s' = emit (CategoryRenamed i (cat_name c) x) (s\<lparr>ca_category_by_name := (if cat_name c = x then ca_category_by_name s else
        (ca_category_by_name s)((cat_user c, cat_name c) := None, (cat_user c, x) \<mapsto> i)),
      ca_category := (ca_category s)(i \<mapsto> c\<lparr>cat_name := x, cat_updated_at := env_sequence e\<rparr>)\<rparr>)"
    by (auto simp: rename_category_def categories_admin_Inr Let_def split: if_splits sum.splits option.splits)
  let ?m = "(ca_category s)(i \<mapsto> c\<lparr>cat_name := x, cat_updated_at := env_sequence e\<rparr>)"
  let ?b = "if cat_name c = x then ca_category_by_name s else
        (ca_category_by_name s)((cat_user c, cat_name c) := None, (cat_user c, x) \<mapsto> i)"
  have own: "\<And>j d. ca_category s j = Some d \<Longrightarrow> ca_category_by_name s (cat_user d, cat_name d) = Some j"
    and named: "\<And>u y j. ca_category_by_name s (u, y) = Some j \<Longrightarrow> \<exists>d. ca_category s j = Some d \<and> cat_user d = u \<and> cat_name d = y"
    using inv by (simp_all add: categories_inv_def Let_def)
  have unique: "j = k" if "ca_category s j = Some d" "ca_category s k = Some d'" "cat_user d = cat_user d'" "cat_name d = cat_name d'" for j k d d'
    using own [OF that(1)] own [OF that(2)] that(3,4) by simp
  have A: "?b (cat_user d, cat_name d) = Some j" if "?m j = Some d" for j d
  proof (cases "j = i")
    case True
    with that own [OF c] show ?thesis by auto
  next
    case False
    with that have d: "ca_category s j = Some d" by simp
    with False unique [OF d c] have "(cat_user d, cat_name d) \<noteq> (cat_user c, cat_name c)" by auto
    moreover from own [OF d] new have "cat_name c \<noteq> x \<Longrightarrow> (cat_user d, cat_name d) \<noteq> (cat_user c, x)" by auto
    ultimately show ?thesis using own [OF d] by (cases "cat_name c = x") auto
  qed
  have B: "\<exists>d. ?m j = Some d \<and> cat_user d = u \<and> cat_name d = y" if "?b (u, y) = Some j" for u y j
  proof (cases "(u, y) = (cat_user c, x) \<and> cat_name c \<noteq> x")
    case True
    with that show ?thesis by auto
  next
    case False
    with that have "ca_category_by_name s (u, y) = Some j" "cat_name c \<noteq> x \<Longrightarrow> (u, y) \<noteq> (cat_user c, cat_name c)"
      by (auto split: if_split_asm)
    with named [of u y j] own [OF c] c show ?thesis by (cases "j = i") auto
  qed
  have C: "cat_category_id d = j" if "?m j = Some d" for j d
    using that inv c by (auto simp: categories_inv_def Let_def split: if_split_asm)
  have D: "?m j = None \<longleftrightarrow> \<not> (1 \<le> j \<and> j \<le> get_total_categories s)" for j
  proof -
    have "ca_category s j = None \<longleftrightarrow> \<not> (1 \<le> j \<and> j \<le> get_total_categories s)" using inv by (simp add: categories_inv_def Let_def)
    with c show ?thesis by (cases "j = i") simp_all
  qed
  have E: "ca_category s' = ?m" "ca_category_by_name s' = ?b" "get_total_categories s' = get_total_categories s"
    "ca_last_category_id s' = ca_last_category_id s" "ca_admin s' = ca_admin s" "\<And>u. get_user_categories u s' = get_user_categories u s"
    by (simp_all add: s' get_total_categories_def get_user_categories_def)
  have F: "unwrap_or (ca_last_category_id s) 0 = get_total_categories s" "ca_admin s = None \<longrightarrow> get_total_categories s = 0"
    "\<And>u. get_user_categories u s = owned_ids ?m (get_total_categories s) u"
    using inv owned_ids_rename [OF c]
    by (simp_all add: categories_inv_def Let_def)
  show ?thesis
    unfolding categories_inv_def Let_def E
    by (intro conjI allI impI A B C D F) (assumption | rule F(2) [THEN mp])+
qed

lemma categories_exec_inv: "categories_inv s \<Longrightarrow> categories_exec c s = Inr s' \<Longrightarrow> categories_inv s'"
proof -
  assume inv: "categories_inv s" and run: "categories_exec c s = Inr s'"
  obtain e k where c: "c = (e, k)" by (cases c)
  show "categories_inv s'"
  proof (cases k)
    case (CInitialize a)
    with run c inv show ?thesis
      by (auto simp: initialize_def categories_inv_def Let_def get_total_categories_def get_user_categories_def split: if_splits)
  next
    case (CSetAdmin a b)
    with run c inv show ?thesis
      by (auto simp: set_admin_def categories_inv_def Let_def get_total_categories_def get_user_categories_def
          categories_admin_Inr split: if_splits sum.splits)
  qed (use run c inv in \<open>auto intro: category_create_inv rename_inv\<close>)
qed

interpretation categories_machine: contract_invariant categories_exec categories_inv "\<lambda>_. True"
  by unfold_locales (use categories_exec_inv in auto)

section \<open>Properties\<close>

text \<open>Category names are unique per wallet, across creations and renamings.  After any calls the categories
  are numbered from 1 to the total, the stored name index finds exactly the category of that wallet and
  name, and a wallet lists its categories in the order of their numbers.\<close>

theorem categories_names_unique:
  "let s = run categories_exec cs categories_fresh in
     (\<forall>i. get_category i s \<noteq> None \<longleftrightarrow> 1 \<le> i \<and> i \<le> get_total_categories s)
   \<and> (\<forall>i j c d. get_category i s = Some c \<longrightarrow> get_category j s = Some d \<longrightarrow>
        cat_user c = cat_user d \<longrightarrow> cat_name c = cat_name d \<longrightarrow> i = j)
   \<and> (\<forall>u x i. ca_category_by_name s (u, x) = Some i \<longleftrightarrow>
        (\<exists>c. get_category i s = Some c \<and> cat_user c = u \<and> cat_name c = x))
   \<and> (\<forall>u. get_user_categories u s = filter (\<lambda>i. \<exists>c. get_category i s = Some c \<and> cat_user c = u)
        [1..<Suc (get_total_categories s)])"
proof -
  let ?s = "run categories_exec cs categories_fresh"
  have inv: "categories_inv ?s" by (rule categories_machine.run_inv) (simp_all add: categories_inv_fresh)
  then have own: "\<And>j d. ca_category ?s j = Some d \<Longrightarrow> ca_category_by_name ?s (cat_user d, cat_name d) = Some j"
    and named: "\<And>u y j. ca_category_by_name ?s (u, y) = Some j \<Longrightarrow> \<exists>d. ca_category ?s j = Some d \<and> cat_user d = u \<and> cat_name d = y"
    and dom: "\<And>i. ca_category ?s i = None \<longleftrightarrow> \<not> (1 \<le> i \<and> i \<le> get_total_categories ?s)"
    and ids: "\<And>u. get_user_categories u ?s = owned_ids (ca_category ?s) (get_total_categories ?s) u"
    by (simp_all add: categories_inv_def Let_def)
  have present: "get_category i ?s \<noteq> None \<longleftrightarrow> 1 \<le> i \<and> i \<le> get_total_categories ?s" for i
    using dom by (simp only: get_category_def not_not simp_thms)
  have unique: "i = j" if "get_category i ?s = Some c" "get_category j ?s = Some d" "cat_user c = cat_user d" "cat_name c = cat_name d"
    for i j c d using own [of i c] own [of j d] that by (simp add: get_category_def)
  have index: "ca_category_by_name ?s (u, x) = Some i \<longleftrightarrow> (\<exists>c. get_category i ?s = Some c \<and> cat_user c = u \<and> cat_name c = x)" for u x i
    using own named unfolding get_category_def by blast
  have lists: "get_user_categories u ?s = filter (\<lambda>i. \<exists>c. get_category i ?s = Some c \<and> cat_user c = u)
      [1..<Suc (get_total_categories ?s)]" for u
    using ids by (simp only: owned_ids_def get_category_def)
  show ?thesis
    unfolding Let_def by (intro conjI allI impI present index lists) (rule unique)
qed

theorem categories_names_unique_witness:
  "ca_category_by_name (run categories_exec [(signed_env [] 1 1 (Addr 9), CInitialize (Addr 1)),
      (signed_env [Addr 1] 2 2 (Addr 9), CCreate (Addr 1) (Addr 3) ''food''),
      (signed_env [Addr 1] 2 2 (Addr 9), CCreate (Addr 1) (Addr 3) ''rent''),
      (signed_env [Addr 1] 3 3 (Addr 9), CRename (Addr 1) 2 ''food'')] categories_fresh) (Addr 3, ''rent'') = Some 2"
proof -
  let ?cs = "[(signed_env [] 1 1 (Addr 9), CInitialize (Addr 1)),
      (signed_env [Addr 1] 2 2 (Addr 9), CCreate (Addr 1) (Addr 3) ''food''),
      (signed_env [Addr 1] 2 2 (Addr 9), CCreate (Addr 1) (Addr 3) ''rent''),
      (signed_env [Addr 1] 3 3 (Addr 9), CRename (Addr 1) 2 ''food'')]"
  let ?s = "run categories_exec ?cs categories_fresh"
  have "\<exists>c. get_category 2 ?s = Some c \<and> cat_user c = Addr 3 \<and> cat_name c = ''rent''"
    by (simp add: get_category_def categories_fresh_def initialize_def create_category_def rename_category_def require_admin_def
        validate_category_name_def u64_add_def in_u64_def emit_def Let_def)
  with categories_names_unique [of ?cs] show ?thesis unfolding Let_def by blast
qed

end
