(* ===== verification/Category_Analytics.thy ===== *)
theory Category_Analytics imports Host begin

text \<open>
  \<open>contracts/category-analytics/src\<close> (\<open>lib.rs\<close>, \<open>types.rs\<close>, \<open>events.rs\<close>): spending per user and category,
  in total and per month.  The code cuts the time into years of 365 and months of 30 days.  \<open>log!\<close> is left
  out.
\<close>

section \<open>Data (types.rs)\<close>

record category_spending =
  cs_count :: nat
  cs_volume :: int

record category_spend =
  sp_category :: symbol
  sp_amount :: int

record monthly_analytics =
  ma_user :: address
  ma_category :: symbol
  ma_year :: nat
  ma_month :: nat
  ma_volume :: int
  ma_count :: nat
  ma_last_updated :: nat

record time_filter =
  tf_start_timestamp :: nat
  tf_end_timestamp :: nat

datatype analytics_event = SpendingUpdated address symbol int nat

record analytics_state =
  an_admin :: "address option"
  an_monthly :: "nat \<times> nat \<times> address \<times> symbol \<rightharpoonup> monthly_analytics"
  an_current :: "address \<times> symbol \<rightharpoonup> category_spending"
  an_events :: "analytics_event list"

definition analytics_fresh :: analytics_state where
  "analytics_fresh = \<lparr>an_admin = None, an_monthly = Map.empty, an_current = Map.empty, an_events = []\<rparr>"

section \<open>Recording\<close>

text \<open>\<open>None\<close> is the overflow of \<open>1970 + ...\<close>; the cast to \<open>u32\<close> keeps the low 32 bits.\<close>

definition get_year_month :: "nat \<Rightarrow> (nat \<times> nat) option" where
  "get_year_month timestamp =
    (let seconds_in_year = 31536000; seconds_in_month = 2592000 in
     case u32_add 1970 (as_u32 (int (timestamp div seconds_in_year))) of None \<Rightarrow> None | Some year \<Rightarrow>
     case u32_add 1 (as_u32 (int (timestamp mod seconds_in_year div seconds_in_month))) of None \<Rightarrow> None | Some month \<Rightarrow>
     Some (year, month mod 13))"

definition record_category_spending :: "env \<Rightarrow> address \<Rightarrow> symbol \<Rightarrow> int \<Rightarrow> analytics_state \<Rightarrow> unit trap + analytics_state" where
  "record_category_spending e user category amount s =
    (if amount \<le> 0 then Inl PanicTrap else
     let current = unwrap_or (an_current s (user, category)) \<lparr>cs_count = 0, cs_volume = 0\<rparr> in
     case u32_add (cs_count current) 1 of None \<Rightarrow> Inl ArithTrap | Some count \<Rightarrow>
     case checked_add (cs_volume current) amount of None \<Rightarrow> Inl PanicTrap | Some volume \<Rightarrow>
     let s1 = s\<lparr>an_current := (an_current s)((user, category) \<mapsto> \<lparr>cs_count = count, cs_volume = volume\<rparr>)\<rparr>;
         ledger_timestamp = env_timestamp e in
     case get_year_month ledger_timestamp of None \<Rightarrow> Inl ArithTrap | Some (year, month) \<Rightarrow>
     let monthly = unwrap_or (an_monthly s1 (year, month, user, category))
           \<lparr>ma_user = user, ma_category = category, ma_year = year, ma_month = month, ma_volume = 0, ma_count = 0,
             ma_last_updated = ledger_timestamp\<rparr> in
     case checked_add (ma_volume monthly) amount of None \<Rightarrow> Inl PanicTrap | Some month_volume \<Rightarrow>
     case u32_add (ma_count monthly) 1 of None \<Rightarrow> Inl ArithTrap | Some month_count \<Rightarrow>
     let monthly1 = monthly\<lparr>ma_volume := month_volume, ma_count := month_count, ma_last_updated := ledger_timestamp\<rparr> in
     Inr (s1\<lparr>an_monthly := (an_monthly s1)((year, month, user, category) \<mapsto> monthly1),
             an_events := an_events s1 @ [SpendingUpdated user category amount ledger_timestamp]\<rparr>))"

definition init :: "address \<Rightarrow> analytics_state \<Rightarrow> unit trap + analytics_state" where
  "init admin s = (if an_admin s \<noteq> None then Inl PanicTrap else Inr (s\<lparr>an_admin := Some admin\<rparr>))"

definition record_spending :: "env \<Rightarrow> address \<Rightarrow> symbol \<Rightarrow> int \<Rightarrow> analytics_state \<Rightarrow> unit trap + analytics_state" where
  "record_spending e user category amount s =
    (if \<not> env_auth e user then Inl AuthTrap else record_category_spending e user category amount s)"

definition record_spending_batch :: "env \<Rightarrow> address \<Rightarrow> category_spend list \<Rightarrow> analytics_state \<Rightarrow> unit trap + analytics_state" where
  "record_spending_batch e user spendings s =
    (if \<not> env_auth e user then Inl AuthTrap else
     if length spendings = 0 then Inl PanicTrap else
     fold_trap (\<lambda>sp. record_category_spending e user (sp_category sp) (sp_amount sp)) spendings s)"

section \<open>Queries\<close>

definition get_current_spending :: "address \<Rightarrow> symbol \<Rightarrow> analytics_state \<Rightarrow> category_spending" where
  "get_current_spending user category s = unwrap_or (an_current s (user, category)) \<lparr>cs_count = 0, cs_volume = 0\<rparr>"

definition empty_month :: "address \<Rightarrow> symbol \<Rightarrow> nat \<Rightarrow> nat \<Rightarrow> monthly_analytics" where
  "empty_month user category year month = \<lparr>ma_user = user, ma_category = category, ma_year = year, ma_month = month,
     ma_volume = 0, ma_count = 0, ma_last_updated = 0\<rparr>"

definition get_category_metrics :: "address \<Rightarrow> symbol \<Rightarrow> nat \<Rightarrow> nat \<Rightarrow> analytics_state \<Rightarrow> monthly_analytics" where
  "get_category_metrics user category year month s =
    unwrap_or (an_monthly s (year, month, user, category)) (empty_month user category year month)"

text \<open>The loops over the months 1 to 12, adding volumes and counts.\<close>

definition add_month :: "(nat \<Rightarrow> monthly_analytics) \<Rightarrow> nat \<Rightarrow> int \<times> nat \<Rightarrow> unit trap + (int \<times> nat)" where
  "add_month metrics month acc = (case acc of (total_volume, total_count) \<Rightarrow>
     case checked_add total_volume (ma_volume (metrics month)) of None \<Rightarrow> Inl PanicTrap | Some v \<Rightarrow>
     case u32_add total_count (ma_count (metrics month)) of None \<Rightarrow> Inl ArithTrap | Some c \<Rightarrow> Inr (v, c))"

definition year_totals :: "(nat \<Rightarrow> monthly_analytics) \<Rightarrow> unit trap + category_spending" where
  "year_totals metrics =
    (case fold_trap (add_month metrics) [1..<13] (0, 0) of Inl t \<Rightarrow> Inl t | Inr (v, c) \<Rightarrow>
     Inr \<lparr>cs_count = c, cs_volume = v\<rparr>)"

definition get_yearly_trend :: "address \<Rightarrow> symbol \<Rightarrow> nat \<Rightarrow> analytics_state \<Rightarrow> unit trap + category_spending" where
  "get_yearly_trend user category year s = year_totals (\<lambda>month. get_category_metrics user category year month s)"

definition get_category_metrics_filtered :: "address \<Rightarrow> symbol \<Rightarrow> nat \<Rightarrow> nat \<Rightarrow> time_filter \<Rightarrow> analytics_state
    \<Rightarrow> monthly_analytics" where
  "get_category_metrics_filtered user category year month f s =
    (if tf_end_timestamp f < tf_start_timestamp f then empty_month user category year month else
     let analytics = get_category_metrics user category year month s in
     if tf_start_timestamp f \<le> ma_last_updated analytics \<and> ma_last_updated analytics \<le> tf_end_timestamp f then analytics
     else empty_month user category year month)"

definition get_yearly_trend_filtered :: "address \<Rightarrow> symbol \<Rightarrow> nat \<Rightarrow> time_filter \<Rightarrow> analytics_state
    \<Rightarrow> unit trap + category_spending" where
  "get_yearly_trend_filtered user category year f s =
    (if tf_end_timestamp f < tf_start_timestamp f then Inr \<lparr>cs_count = 0, cs_volume = 0\<rparr> else
     year_totals (\<lambda>month. get_category_metrics_filtered user category year month f s))"

datatype analytics_call = CInit address | CRecord address symbol int | CRecordBatch address "category_spend list"

fun analytics_exec :: "env \<times> analytics_call \<Rightarrow> analytics_state \<Rightarrow> unit trap + analytics_state" where
  "analytics_exec (e, CInit a) s = init a s"
| "analytics_exec (e, CRecord u c n) s = record_spending e u c n s"
| "analytics_exec (e, CRecordBatch u sps) s = record_spending_batch e u sps s"
section \<open>The books follow from the published events\<close>

fun spends :: "address \<Rightarrow> symbol \<Rightarrow> analytics_event list \<Rightarrow> (int \<times> nat) list" where
  "spends u c [] = []"
| "spends u c (SpendingUpdated u' c' n ts # log) = (if u' = u \<and> c' = c then (n, ts) # spends u c log else spends u c log)"

lemma spends_snoc: "spends u c (log @ [ev]) = spends u c log @ spends u c [ev]"
  by (induction u c log rule: spends.induct) simp_all

abbreviation in_month :: "nat \<Rightarrow> nat \<Rightarrow> int \<times> nat \<Rightarrow> bool" where
  "in_month y m x \<equiv> get_year_month (snd x) = Some (y, m)"

definition analytics_inv :: "analytics_state \<Rightarrow> bool" where
  "analytics_inv s \<longleftrightarrow> (\<forall>u c. let xs = spends u c (an_events s) in
     get_current_spending u c s = \<lparr>cs_count = length xs, cs_volume = sum_list (map fst xs)\<rparr>
   \<and> in_u32 (length xs) \<and> in_i128 (sum_list (map fst xs)) \<and> (\<forall>x\<in>set xs. 0 < fst x)
   \<and> (\<forall>y m. ma_count (get_category_metrics u c y m s) = length (filter (in_month y m) xs)
        \<and> ma_volume (get_category_metrics u c y m s) = sum_list (map fst (filter (in_month y m) xs))))"

lemma analytics_inv_fresh: "analytics_inv analytics_fresh"
  by (simp add: analytics_inv_def analytics_fresh_def get_current_spending_def get_category_metrics_def empty_month_def in_u32_def)

lemma record_Inr:
  assumes "record_category_spending e u c n s = Inr s'"
  shows "0 < n \<and> in_u32 (cs_count (get_current_spending u c s) + 1) \<and> in_i128 (cs_volume (get_current_spending u c s) + n)
    \<and> (\<exists>y m r. get_year_month (env_timestamp e) = Some (y, m)
        \<and> ma_count r = ma_count (get_category_metrics u c y m s) + 1
        \<and> ma_volume r = ma_volume (get_category_metrics u c y m s) + n
        \<and> s' = s\<lparr>an_current := (an_current s)((u, c) \<mapsto> \<lparr>cs_count = cs_count (get_current_spending u c s) + 1,
                    cs_volume = cs_volume (get_current_spending u c s) + n\<rparr>),
                 an_monthly := (an_monthly s)((y, m, u, c) \<mapsto> r),
                 an_events := an_events s @ [SpendingUpdated u c n (env_timestamp e)]\<rparr>)"
proof -
  from assms obtain y m where ym: "get_year_month (env_timestamp e) = Some (y, m)" and n: "0 < n"
    by (auto simp: record_category_spending_def Let_def split: if_splits option.splits)
  let ?old = "unwrap_or (an_monthly s (y, m, u, c)) \<lparr>ma_user = u, ma_category = c, ma_year = y, ma_month = m, ma_volume = 0,
    ma_count = 0, ma_last_updated = env_timestamp e\<rparr>"
  let ?r = "?old\<lparr>ma_volume := ma_volume ?old + n, ma_count := ma_count ?old + 1, ma_last_updated := env_timestamp e\<rparr>"
  have old: "ma_count ?old = ma_count (get_category_metrics u c y m s)" "ma_volume ?old = ma_volume (get_category_metrics u c y m s)"
    by (simp_all add: get_category_metrics_def empty_month_def unwrap_or_def split: option.split)
  have "in_u32 (cs_count (get_current_spending u c s) + 1)" "in_i128 (cs_volume (get_current_spending u c s) + n)"
    "s' = s\<lparr>an_current := (an_current s)((u, c) \<mapsto> \<lparr>cs_count = cs_count (get_current_spending u c s) + 1,
                    cs_volume = cs_volume (get_current_spending u c s) + n\<rparr>),
                 an_monthly := (an_monthly s)((y, m, u, c) \<mapsto> ?r),
                 an_events := an_events s @ [SpendingUpdated u c n (env_timestamp e)]\<rparr>"
    using assms ym n
    by (auto simp: record_category_spending_def Let_def u32_add_def get_current_spending_def split: if_splits option.splits)
  with n ym old show ?thesis by (intro conjI exI [of _ y] exI [of _ m] exI [of _ ?r]) simp_all
qed

lemma record_inv:
  assumes "record_category_spending e u c n s = Inr s'" and inv: "analytics_inv s"
  shows "analytics_inv s'"
proof -
  from record_Inr [OF assms(1)] obtain y m r where n: "0 < n"
    and rng: "in_u32 (cs_count (get_current_spending u c s) + 1)" "in_i128 (cs_volume (get_current_spending u c s) + n)"
    and ym: "get_year_month (env_timestamp e) = Some (y, m)"
    and r: "ma_count r = ma_count (get_category_metrics u c y m s) + 1" "ma_volume r = ma_volume (get_category_metrics u c y m s) + n"
    and s': "s' = s\<lparr>an_current := (an_current s)((u, c) \<mapsto> \<lparr>cs_count = cs_count (get_current_spending u c s) + 1,
                    cs_volume = cs_volume (get_current_spending u c s) + n\<rparr>),
                 an_monthly := (an_monthly s)((y, m, u, c) \<mapsto> r),
                 an_events := an_events s @ [SpendingUpdated u c n (env_timestamp e)]\<rparr>"
    by blast
  have metrics: "get_category_metrics v d y' m' s' = (if (y', m', v, d) = (y, m, u, c) then r else get_category_metrics v d y' m' s)"
    for v d y' m' by (simp add: get_category_metrics_def s')
  have current: "get_current_spending v d s' = (if (v, d) = (u, c) then \<lparr>cs_count = cs_count (get_current_spending u c s) + 1,
      cs_volume = cs_volume (get_current_spending u c s) + n\<rparr> else get_current_spending v d s)" for v d
    by (simp add: get_current_spending_def s')
  have log: "spends v d (an_events s') = spends v d (an_events s) @ (if (v, d) = (u, c) then [(n, env_timestamp e)] else [])" for v d
    by (auto simp: s' spends_snoc)
  show ?thesis
    unfolding analytics_inv_def Let_def
  proof (intro allI)
    fix v d
    have old: "get_current_spending v d s = \<lparr>cs_count = length (spends v d (an_events s)), cs_volume = sum_list (map fst (spends v d (an_events s)))\<rparr>"
      "in_u32 (length (spends v d (an_events s)))" "in_i128 (sum_list (map fst (spends v d (an_events s))))"
      "\<forall>x\<in>set (spends v d (an_events s)). 0 < fst x"
      "\<And>y m. ma_count (get_category_metrics v d y m s) = length (filter (in_month y m) (spends v d (an_events s)))"
      "\<And>y m. ma_volume (get_category_metrics v d y m s) = sum_list (map fst (filter (in_month y m) (spends v d (an_events s))))"
      using inv by (simp_all add: analytics_inv_def Let_def)
    show "get_current_spending v d s' = \<lparr>cs_count = length (spends v d (an_events s')), cs_volume = sum_list (map fst (spends v d (an_events s')))\<rparr>
      \<and> in_u32 (length (spends v d (an_events s'))) \<and> in_i128 (sum_list (map fst (spends v d (an_events s'))))
      \<and> (\<forall>x\<in>set (spends v d (an_events s')). 0 < fst x)
      \<and> (\<forall>y m. ma_count (get_category_metrics v d y m s') = length (filter (in_month y m) (spends v d (an_events s')))
        \<and> ma_volume (get_category_metrics v d y m s') = sum_list (map fst (filter (in_month y m) (spends v d (an_events s')))))"
      unfolding log current metrics using old rng n r ym by (cases "(v, d) = (u, c)") auto
  qed
qed

lemma admin_inv: "analytics_inv (s\<lparr>an_admin := a\<rparr>) = analytics_inv s"
  by (simp add: analytics_inv_def get_current_spending_def get_category_metrics_def)

lemma analytics_exec_inv: "analytics_inv s \<Longrightarrow> analytics_exec k s = Inr s' \<Longrightarrow> analytics_inv s'"
proof -
  assume inv: "analytics_inv s" and run: "analytics_exec k s = Inr s'"
  obtain e c where k: "k = (e, c)" by (cases k)
  show "analytics_inv s'"
  proof (cases c)
    case (CInit a)
    with run k inv show ?thesis
      by (auto simp: init_def admin_inv split: if_splits)
  next
    case (CRecord u d n)
    with run k inv show ?thesis by (auto simp: record_spending_def intro: record_inv split: if_splits)
  next
    case (CRecordBatch u sps)
    with run k have "fold_trap (\<lambda>sp. record_category_spending e u (sp_category sp) (sp_amount sp)) sps s = Inr s'"
      by (simp add: record_spending_batch_def split: if_splits)
    from fold_trap_inv [OF this, of analytics_inv] inv show ?thesis by (blast intro: record_inv)
  qed
qed

interpretation analytics_machine: contract_invariant analytics_exec analytics_inv "\<lambda>_. True"
  by unfold_locales (use analytics_exec_inv in auto)

section \<open>The year\<close>

lemma months_total:
  assumes "\<And>m. m \<in> set ms \<Longrightarrow> 0 \<le> ma_volume (f m)"
    and "in_i128 v" and "in_i128 (v + (\<Sum>m\<leftarrow>ms. ma_volume (f m)))" and "in_u32 (c + (\<Sum>m\<leftarrow>ms. ma_count (f m)))"
  shows "fold_trap (add_month f) ms (v, c) = Inr (v + (\<Sum>m\<leftarrow>ms. ma_volume (f m)), c + (\<Sum>m\<leftarrow>ms. ma_count (f m)))"
  using assms
proof (induction ms arbitrary: v c)
  case (Cons m ms)
  have pos: "0 \<le> (\<Sum>m\<leftarrow>ms. ma_volume (f m))" by (rule sum_list_nonneg) (use Cons.prems(1) in auto)
  have "in_i128 (v + ma_volume (f m))"
    by (rule in_i128_between [OF Cons.prems(2,3)]) (use pos Cons.prems(1) [of m] in auto)
  moreover have "in_u32 (c + ma_count (f m))" using Cons.prems(4) by (simp add: in_u32_def)
  moreover have "fold_trap (add_month f) ms (v + ma_volume (f m), c + ma_count (f m))
      = Inr (v + ma_volume (f m) + (\<Sum>m\<leftarrow>ms. ma_volume (f m)), c + ma_count (f m) + (\<Sum>m\<leftarrow>ms. ma_count (f m)))"
    by (rule Cons.IH) (use Cons.prems calculation in \<open>simp_all add: add.assoc\<close>)
  ultimately show ?case by (simp add: add_month_def [of f m] checked_add_def u32_add_def add.assoc)
qed simp

lemma filter_total_bounds:
  fixes xs :: "(int \<times> nat) list"
  assumes "\<forall>x\<in>set xs. 0 < fst x"
  shows "0 \<le> sum_list (map fst (filter P xs))" and "sum_list (map fst (filter P xs)) \<le> sum_list (map fst xs)"
  using assms by (induction xs) auto

text \<open>The months 1 to 12 of a year are its first 360 days.\<close>

definition in_first_360_days :: "nat \<Rightarrow> int \<times> nat \<Rightarrow> bool" where
  "in_first_360_days y x \<longleftrightarrow> (\<exists>m. get_year_month (snd x) = Some (y, m)) \<and> snd x mod 31536000 < 360 * 86400"

lemma in_some_month: "in_first_360_days y x \<longleftrightarrow> (\<exists>m\<in>set [1..<13]. in_month y m x)"
proof -
  let ?d = "snd x mod 31536000 div 2592000"
  have "?d \<le> 12" using mod_less_divisor [of 31536000 "snd x"] by (simp add: less_Suc_eq_le [symmetric] less_mult_imp_div_less)
  then have d: "as_u32 (int ?d) = ?d" by (simp add: as_u32_def)
  have "snd x mod 31536000 < 360 * 86400 \<longleftrightarrow> ?d < 12" by (simp add: div_less_iff_less_mult)
  moreover have "1 + ?d < 13 \<Longrightarrow> (1 + ?d) mod 13 = 1 + ?d" by simp
  moreover have "\<not> ?d < 12 \<Longrightarrow> (1 + ?d) mod 13 = 0" using \<open>?d \<le> 12\<close> by (simp add: le_less)
  ultimately show ?thesis
    using \<open>?d \<le> 12\<close>
    by (cases "?d < 12")
      (auto simp: in_first_360_days_def get_year_month_def Let_def d u32_add_def in_u32_def as_u32_def split: option.splits)
qed

lemma months_partition:
  "(\<Sum>m\<leftarrow>[1..<n]. length (filter (in_month y m) xs)) = length (filter (\<lambda>x. \<exists>m\<in>set [1..<n]. in_month y m x) xs)"
  "(\<Sum>m\<leftarrow>[1..<n]. sum_list (map fst (filter (in_month y m) xs))) = sum_list (map fst (filter (\<lambda>x. \<exists>m\<in>set [1..<n]. in_month y m x) xs))"
proof -
  have one: "(\<Sum>m\<leftarrow>[1..<n]. if in_month y m x then k else 0) = (if \<exists>m\<in>set [1..<n]. in_month y m x then k else 0)"
    for x and k :: "'z :: comm_monoid_add"
    by (induction n) (auto simp: le_Suc_eq)
  have split: "(\<Sum>m\<leftarrow>ms. f m + g m) = (\<Sum>m\<leftarrow>ms. f m) + (\<Sum>m\<leftarrow>ms. g m)" for ms :: "nat list" and f g :: "nat \<Rightarrow> 'z :: comm_monoid_add"
    by (rule sum_list_addf)
  show "(\<Sum>m\<leftarrow>[1..<n]. length (filter (in_month y m) xs)) = length (filter (\<lambda>x. \<exists>m\<in>set [1..<n]. in_month y m x) xs)"
  proof (induction xs)
    case (Cons x xs)
    have "(\<Sum>m\<leftarrow>[1..<n]. length (filter (in_month y m) (x # xs)))
        = (\<Sum>m\<leftarrow>[1..<n]. (if in_month y m x then 1 else 0) + length (filter (in_month y m) xs))"
      by (rule arg_cong [of _ _ sum_list]) (simp add: map_eq_conv)
    with Cons show ?case by (simp add: split one del: set_upt One_nat_def)
  qed simp
  show "(\<Sum>m\<leftarrow>[1..<n]. sum_list (map fst (filter (in_month y m) xs)))
      = sum_list (map fst (filter (\<lambda>x. \<exists>m\<in>set [1..<n]. in_month y m x) xs))"
  proof (induction xs)
    case (Cons x xs)
    have "(\<Sum>m\<leftarrow>[1..<n]. sum_list (map fst (filter (in_month y m) (x # xs))))
        = (\<Sum>m\<leftarrow>[1..<n]. (if in_month y m x then fst x else 0) + sum_list (map fst (filter (in_month y m) xs)))"
      by (rule arg_cong [of _ _ sum_list]) (simp add: map_eq_conv)
    with Cons show ?case by (simp add: split one del: set_upt One_nat_def)
  qed simp
qed

section \<open>Properties\<close>

text \<open>The yearly trend leaves out the last five days of every year.  After any calls the current spending of
  a user in a category is the count and the sum of everything recorded for it, while the trend of a year,
  which never traps, counts only what was recorded in the first 360 of its 365 days: later days
  fall into a month 13, stored as month 0, which no query of months 1 to 12 reads.\<close>

theorem analytics_year_cut:
  "let s = run analytics_exec cs analytics_fresh; xs = spends u c (an_events s);
       counted = filter (in_first_360_days y) xs in
     get_yearly_trend u c y s = Inr \<lparr>cs_count = length counted, cs_volume = sum_list (map fst counted)\<rparr>
   \<and> get_current_spending u c s = \<lparr>cs_count = length xs, cs_volume = sum_list (map fst xs)\<rparr>"
proof -
  let ?s = "run analytics_exec cs analytics_fresh"
  let ?xs = "spends u c (an_events ?s)" and ?f = "\<lambda>m. get_category_metrics u c y m ?s"
  let ?counted = "filter (in_first_360_days y) ?xs"
  have "analytics_inv ?s" by (rule analytics_machine.run_inv) (simp_all add: analytics_inv_fresh)
  then have current: "get_current_spending u c ?s = \<lparr>cs_count = length ?xs, cs_volume = sum_list (map fst ?xs)\<rparr>"
    and rng: "in_u32 (length ?xs)" "in_i128 (sum_list (map fst ?xs))" and pos: "\<forall>x\<in>set ?xs. 0 < fst x"
    and f: "\<And>m. ma_count (?f m) = length (filter (in_month y m) ?xs)"
      "\<And>m. ma_volume (?f m) = sum_list (map fst (filter (in_month y m) ?xs))"
    by (simp_all add: analytics_inv_def Let_def)
  have same: "filter (\<lambda>x. \<exists>m\<in>set [1..<13]. in_month y m x) ?xs = ?counted" by (rule filter_cong) (simp_all only: in_some_month)
  have count: "(\<Sum>m\<leftarrow>[1..<13]. ma_count (?f m)) = length ?counted" by (simp only: f months_partition same)
  have vol: "(\<Sum>m\<leftarrow>[1..<13]. ma_volume (?f m)) = sum_list (map fst ?counted)" by (simp only: f months_partition same)
  have "fold_trap (add_month ?f) [1..<13] (0, 0) = Inr (0 + (\<Sum>m\<leftarrow>[1..<13]. ma_volume (?f m)), 0 + (\<Sum>m\<leftarrow>[1..<13]. ma_count (?f m)))"
  proof (rule months_total)
    show "0 \<le> ma_volume (?f m)" for m unfolding f by (rule filter_total_bounds [OF pos])
    show "in_i128 (0 + (\<Sum>m\<leftarrow>[1..<13]. ma_volume (?f m)))"
      unfolding vol by (rule in_i128_between [OF in_i128_0 rng(2)]) (simp_all add: filter_total_bounds [OF pos])
    show "in_u32 (0 + (\<Sum>m\<leftarrow>[1..<13]. ma_count (?f m)))"
      unfolding count using rng(1) le_trans [OF length_filter_le] by (auto simp: in_u32_def)
  qed simp
  then have "get_yearly_trend u c y ?s = Inr \<lparr>cs_count = length ?counted, cs_volume = sum_list (map fst ?counted)\<rparr>"
    by (simp only: get_yearly_trend_def year_totals_def count vol add_0 sum.case prod.case)
  with current show ?thesis by (simp add: Let_def)
qed

end
