(* ===== verification/Analytics_Types.thy ===== *)
theory Analytics_Types
  imports Soroban_Map "HOL-Library.List_Lexorder" "HOL-Library.Char_ord"
begin

text \<open>
  \<open>contracts/transaction-analytics/src/types.rs\<close> and the errors of \<open>lib.rs\<close>: the data of the batch analytics contract, its events and
  its storage.  A \<open>u64\<close> or \<open>u32\<close> is a number, an \<open>i128\<close> an integer, a \<open>Map\<close> that is only looked up a
  partial function.
\<close>

section \<open>Batches, bundles, ratings, statuses\<close>

definition MAX_BATCH_SIZE :: nat where "MAX_BATCH_SIZE = 100"
definition MAX_PAGE_SIZE :: nat where "MAX_PAGE_SIZE = 100"

record fee_recipient_share =
  fr_recipient :: address
  fr_share_bps :: nat

record transaction =
  tr_tx_id :: nat
  tr_from :: address
  tr_to :: address
  tr_amount :: int
  tr_timestamp :: nat
  tr_category :: symbol

record audit_log =
  lo_actor :: address
  lo_operation :: symbol
  lo_timestamp :: nat
  lo_status :: symbol

record batch_metrics =
  bm_tx_count :: nat
  bm_total_volume :: int
  bm_avg_amount :: int
  bm_min_amount :: int
  bm_max_amount :: int
  bm_unique_senders :: nat
  bm_unique_recipients :: nat
  bm_total_fees :: int
  bm_processed_at :: nat

record category_metrics =
  cm_category :: symbol
  cm_tx_count :: nat
  cm_total_volume :: int
  cm_total_fees :: int
  cm_volume_percentage_bps :: nat

record bundled_transaction =
  bt_transaction :: transaction
  bt_memo :: "symbol option"

record validation_result =
  vr_tx_id :: nat
  vr_is_valid :: bool
  vr_error :: symbol

record bundle_result =
  bu_bundle_id :: nat
  bu_total_count :: nat
  bu_valid_count :: nat
  bu_invalid_count :: nat
  bu_validation_results :: "validation_result list"
  bu_can_bundle :: bool
  bu_total_volume :: int
  bu_created_at :: nat

record rating_input =
  ri_tx_id :: nat
  ri_score :: nat

datatype rating_status = RatingSuccess | InvalidScore | UnknownTransaction

record rating_result =
  rr_tx_id :: nat
  rr_score :: nat
  rr_status :: rating_status

datatype transaction_status = TxPending | TxCompleted | TxFailed | TxRefunded

record transaction_status_update =
  su_tx_id :: nat
  su_status :: transaction_status

record status_update_result =
  sr_tx_id :: nat
  sr_is_valid :: bool

record batch_status_update_result =
  sb_total_requests :: nat
  sb_successful :: nat
  sb_failed :: nat
  sb_results :: "status_update_result list"

record paginated_batch_metrics =
  pg_metrics :: "batch_metrics list"
  pg_total_count :: nat
  pg_page_number :: nat
  pg_page_size :: nat
  pg_has_next :: bool
  pg_has_previous :: bool

section \<open>Errors (lib.rs)\<close>

datatype analytics_error =
    NotInitialized | Unauthorized | InvalidBatch | EmptyBatch | BatchTooLarge | InvalidPageSize | InvalidAmount
  | InvalidAuditLog | EmptyBundle | BundleTooLarge | AllTransactionsInvalid | InvalidRefundBatch | EmptyRefundBatch
  | RefundBatchTooLarge | AlreadyInitialized

section \<open>Validation errors, fees, refunds, spending\<close>

datatype validation_error =
    InvalidAddress | InvalidAmount | InvalidTimestamp | InvalidCategory | InvalidTransactionId | InvalidReason
  | InvalidRating | InvalidMemo | InvalidYear | InvalidMonth | InvalidPercentage | SameAddress | EmptyBatch
  | BatchTooLarge | DuplicateTransactionId

datatype fee_model = Flat int | Percentage nat | Tiered "fee_tier list"
  and fee_tier = FeeTier (tier_threshold: int) (tier_fee_model: fee_model) (tier_default_percentage_bps: nat)

record fee_config =
  fg_fee_model :: fee_model
  fg_min_fee :: "nat option"
  fg_max_fee :: "nat option"
  fg_enabled :: bool
  fg_description :: "symbol option"

record fee_calculation_result =
  fx_gross_amount :: int
  fx_fee_amount :: int
  fx_net_amount :: int
  fx_fee_percentage_bps :: nat

datatype refund_status = RefundEligible | AlreadyRefunded | RefundPending | NotEligible | RefundNotFound

record refund_request =
  rq_tx_id :: nat
  rq_reason :: "symbol option"

record refund_result =
  re_tx_id :: nat
  re_success :: bool
  re_status :: refund_status
  re_amount_refunded :: int
  re_error_message :: "symbol option"

record refund_batch_metrics =
  rm_request_count :: nat
  rm_successful_refunds :: nat
  rm_failed_refunds :: nat
  rm_total_refunded_amount :: int
  rm_avg_refund_amount :: int
  rm_processed_at :: nat

record monthly_spending_analytics =
  ms_year :: nat
  ms_month :: nat
  ms_user :: address
  ms_total_spending :: int
  ms_category_spending :: "(symbol \<times> int) list"
  ms_transaction_count :: nat

record user_spending_summary =
  us_user :: address
  us_total_spending :: int
  us_total_transactions :: nat
  us_primary_category :: symbol
  us_avg_monthly_spending :: int

section \<open>Events and storage\<close>

datatype analytics_event =
    BatchProcessed nat batch_metrics
  | CategoryAnalytics nat category_metrics
  | AnalyticsStarted nat nat
  | AnalyticsCompleted nat nat
  | HighValueAlert nat nat int
  | AuditLogged address symbol symbol
  | RatingSubmitted address nat nat rating_status
  | StatusUpdated nat "transaction_status option" transaction_status
  | StatusUpdateFailed nat
  | OperationFeeUpdated address symbol "fee_config option" fee_config
  | FeeCapChanged address "nat option" "nat option"
  | BundleCreated nat bundle_result
  | TransactionValidated nat validation_result
  | BundlingStarted nat nat
  | BundlingCompleted nat bool
  | TransactionValidationFailed nat nat symbol
  | RefundBatchStarted nat nat
  | RefundProcessed nat refund_result
  | RefundBatchCompleted nat refund_batch_metrics
  | RefundError nat nat symbol
  | AnalyticsUpdated address nat nat int nat
  | FeeDeducted int int int nat
  | FeeDistributed address int nat
  | FeePauseToggled address bool

record analytics_store =
  ts_admin :: "address option"
  ts_last_batch_id :: "nat option"
  ts_batch_metrics :: "nat \<rightharpoonup> batch_metrics"
  ts_total_tx_processed :: "nat option"
  ts_audit_log :: "nat \<rightharpoonup> audit_log"
  ts_total_audit_logs :: "nat option"
  ts_last_bundle_id :: "nat option"
  ts_bundle_result :: "nat \<rightharpoonup> bundle_result"
  ts_last_refund_batch_id :: "nat option"
  ts_refund_batch_metrics :: "nat \<rightharpoonup> refund_batch_metrics"
  ts_total_refund_amount :: "int option"
  ts_refunded_transactions :: "(nat \<rightharpoonup> bool) option"
  ts_known_transaction :: "nat \<rightharpoonup> bool"
  ts_rating :: "nat \<times> address \<rightharpoonup> nat"
  ts_transaction_status :: "nat \<rightharpoonup> transaction_status"
  ts_monthly_analytics :: "nat \<times> nat \<times> address \<rightharpoonup> monthly_spending_analytics"
  ts_user_spending_summary :: "address \<rightharpoonup> user_spending_summary"
  ts_total_tracked_users :: "nat option"
  ts_last_analytics_update :: "nat option"
  ts_current_fee_config :: "fee_config option"
  ts_operation_fee_config :: "symbol \<rightharpoonup> fee_config"
  ts_fee_paused :: "bool option"
  ts_events :: "analytics_event list"

definition store_fresh :: analytics_store where
  "store_fresh = \<lparr>ts_admin = None, ts_last_batch_id = None, ts_batch_metrics = Map.empty, ts_total_tx_processed = None,
     ts_audit_log = Map.empty, ts_total_audit_logs = None, ts_last_bundle_id = None, ts_bundle_result = Map.empty,
     ts_last_refund_batch_id = None, ts_refund_batch_metrics = Map.empty, ts_total_refund_amount = None,
     ts_refunded_transactions = None, ts_known_transaction = Map.empty, ts_rating = Map.empty,
     ts_transaction_status = Map.empty, ts_monthly_analytics = Map.empty, ts_user_spending_summary = Map.empty,
     ts_total_tracked_users = None, ts_last_analytics_update = None, ts_current_fee_config = None,
     ts_operation_fee_config = Map.empty, ts_fee_paused = None, ts_events = []\<rparr>"

definition emit :: "analytics_event \<Rightarrow> analytics_store \<Rightarrow> analytics_store" where
  "emit ev s = s\<lparr>ts_events := ts_events s @ [ev]\<rparr>"

definition emit_all :: "analytics_event list \<Rightarrow> analytics_store \<Rightarrow> analytics_store" where
  "emit_all evs s = s\<lparr>ts_events := ts_events s @ evs\<rparr>"

end
