(* ===== verification/Analytics_Fees.thy ===== *)
theory Analytics_Fees
  imports Analytics_Types
begin

text \<open>
  \<open>contracts/transaction-analytics/src/fees.rs\<close>: fee models (flat, percentage, tiered), their validation and
  storage, the split of a fee among recipients.  \<open>Result<_, ValidationError>\<close> is a sum; a trap is
  \<open>expect\<close> (\<open>PanicTrap\<close>) or an overflow (\<open>ArithTrap\<close>).
\<close>

section \<open>Fee calculation\<close>

definition percentage_of :: "int \<Rightarrow> nat \<Rightarrow> analytics_error trap + int" where
  "percentage_of amount bps =
    (case checked_mul amount (int bps) of None \<Rightarrow> Inl ArithTrap | Some p \<Rightarrow> Inr (quot p 10000))"

text \<open>The loop over the tiers stops at the first one whose threshold is above the amount.\<close>

fun applicable_tier :: "int \<Rightarrow> fee_tier \<Rightarrow> fee_tier list \<Rightarrow> fee_tier" where
  "applicable_tier amount current [] = current"
| "applicable_tier amount current (tier # tiers) =
    (if tier_threshold tier \<le> amount then applicable_tier amount tier tiers else current)"

definition calculate_tiered_fee :: "int \<Rightarrow> fee_tier list \<Rightarrow> analytics_error trap + int" where
  "calculate_tiered_fee amount tiers = (case tiers of [] \<Rightarrow> Inr 0 | first # _ \<Rightarrow>
     let tier = applicable_tier amount first tiers in
     case tier_fee_model tier of
       Flat flat_fee \<Rightarrow> Inr flat_fee
     | Percentage bps \<Rightarrow> percentage_of amount bps
     | Tiered _ \<Rightarrow> percentage_of amount (tier_default_percentage_bps tier))"

definition constrain_fee_amount :: "int \<Rightarrow> fee_config \<Rightarrow> int" where
  "constrain_fee_amount calculated_fee config =
    (let f1 = (case fg_min_fee config of None \<Rightarrow> calculated_fee
               | Some min_fee \<Rightarrow> if calculated_fee < int min_fee then int min_fee else calculated_fee) in
     case fg_max_fee config of None \<Rightarrow> f1 | Some max_fee \<Rightarrow> if int max_fee < f1 then int max_fee else f1)"

definition calculate_effective_rate :: "int \<Rightarrow> int \<Rightarrow> analytics_error trap + nat" where
  "calculate_effective_rate gross_amount fee_amount =
    (if gross_amount = 0 then Inr 0 else
     case checked_mul fee_amount 10000 of None \<Rightarrow> Inl ArithTrap | Some p \<Rightarrow> Inr (as_u32 (quot p gross_amount)))"

definition model_fee :: "int \<Rightarrow> fee_model \<Rightarrow> analytics_error trap + int" where
  "model_fee amount m = (case m of
     Flat flat_fee \<Rightarrow> Inr flat_fee
   | Percentage bps \<Rightarrow> percentage_of amount bps
   | Tiered tiers \<Rightarrow> calculate_tiered_fee amount tiers)"

definition calculate_transaction_fee :: "int \<Rightarrow> fee_config \<Rightarrow> analytics_error trap + fee_calculation_result" where
  "calculate_transaction_fee amount config =
    (if amount \<le> 0 then Inr \<lparr>fx_gross_amount = amount, fx_fee_amount = 0, fx_net_amount = amount, fx_fee_percentage_bps = 0\<rparr> else
     case model_fee amount (fg_fee_model config) of Inl t \<Rightarrow> Inl t | Inr fee_amount \<Rightarrow>
     let constrained_fee = constrain_fee_amount fee_amount config;
         final_fee = (if amount < constrained_fee then amount else constrained_fee) in
     case checked_sub amount final_fee of None \<Rightarrow> Inl ArithTrap | Some net \<Rightarrow>
     case calculate_effective_rate amount final_fee of Inl t \<Rightarrow> Inl t | Inr rate \<Rightarrow>
     Inr \<lparr>fx_gross_amount = amount, fx_fee_amount = final_fee, fx_net_amount = net, fx_fee_percentage_bps = rate\<rparr>)"

definition fee_step :: "fee_config \<Rightarrow> int \<Rightarrow> fee_calculation_result list \<Rightarrow> analytics_error trap + fee_calculation_result list" where
  "fee_step config amount results =
    (case calculate_transaction_fee amount config of Inl t \<Rightarrow> Inl t | Inr r \<Rightarrow> Inr (results @ [r]))"

definition calculate_batch_fees :: "int list \<Rightarrow> fee_config \<Rightarrow> analytics_error trap + fee_calculation_result list" where
  "calculate_batch_fees amounts config = fold_trap (fee_step config) amounts []"

section \<open>Configuration\<close>

text \<open>The second loop over the tiers: thresholds may not fall.\<close>

fun thresholds_rise :: "int \<Rightarrow> fee_tier list \<Rightarrow> bool" where
  "thresholds_rise prev [] \<longleftrightarrow> True"
| "thresholds_rise prev (tier # tiers) \<longleftrightarrow> \<not> tier_threshold tier < prev \<and> thresholds_rise (tier_threshold tier) tiers"

fun validate_tiers :: "fee_tier list \<Rightarrow> validation_error + unit" where
  "validate_tiers [] = Inr ()"
| "validate_tiers (tier # tiers) =
    (if tier_threshold tier < 0 then Inl InvalidAmount else
     case tier_fee_model tier of
       Percentage bps \<Rightarrow> if 10000 < bps then Inl InvalidPercentage else validate_tiers tiers
     | _ \<Rightarrow> validate_tiers tiers)"

definition validate_model :: "fee_model \<Rightarrow> validation_error + unit" where
  "validate_model m = (case m of
     Percentage bps \<Rightarrow> if 10000 < bps then Inl InvalidPercentage else Inr ()
   | Tiered tiers \<Rightarrow> (case validate_tiers tiers of Inl err \<Rightarrow> Inl err | Inr _ \<Rightarrow>
       if thresholds_rise 0 tiers then Inr () else Inl InvalidAmount)
   | Flat _ \<Rightarrow> Inr ())"

text \<open>\<open>i64::MAX\<close>.\<close>

definition i64_max :: nat where "i64_max = 9223372036854775807"

definition validate_fee_config :: "fee_config \<Rightarrow> validation_error + unit" where
  "validate_fee_config config =
    (case validate_model (fg_fee_model config) of Inl err \<Rightarrow> Inl err | Inr _ \<Rightarrow>
     if (case fg_min_fee config of Some n \<Rightarrow> i64_max < n | None \<Rightarrow> False) then Inl InvalidAmount else
     if (case fg_max_fee config of Some n \<Rightarrow> i64_max < n | None \<Rightarrow> False) then Inl InvalidAmount else
     if (case (fg_min_fee config, fg_max_fee config) of (Some lo, Some hi) \<Rightarrow> hi < lo | _ \<Rightarrow> False) then Inl InvalidAmount else
     Inr ())"

definition store_fee_config :: "fee_config \<Rightarrow> analytics_store \<Rightarrow> validation_error + analytics_store" where
  "store_fee_config config s = (case validate_fee_config config of Inl err \<Rightarrow> Inl err | Inr _ \<Rightarrow>
     Inr (s\<lparr>ts_current_fee_config := Some config\<rparr>))"

definition get_current_fee_config :: "analytics_store \<Rightarrow> fee_config option" where
  "get_current_fee_config s = ts_current_fee_config s"

definition get_operation_fee_config :: "symbol \<Rightarrow> analytics_store \<Rightarrow> fee_config option" where
  "get_operation_fee_config operation s = ts_operation_fee_config s operation"

definition store_operation_fee_config :: "symbol \<Rightarrow> fee_config \<Rightarrow> analytics_store \<Rightarrow> validation_error + analytics_store" where
  "store_operation_fee_config operation config s = (case validate_fee_config config of Inl err \<Rightarrow> Inl err | Inr _ \<Rightarrow>
     Inr (s\<lparr>ts_operation_fee_config := (ts_operation_fee_config s)(operation \<mapsto> config)\<rparr>))"

text \<open>\<open>Symbol::new\<close> panics on a character outside \<open>[a-zA-Z0-9_]\<close> or beyond 32 characters.\<close>

definition symbol_char :: "char \<Rightarrow> bool" where
  "symbol_char c \<longleftrightarrow> CHR ''0'' \<le> c \<and> c \<le> CHR ''9'' \<or> CHR ''A'' \<le> c \<and> c \<le> CHR ''Z'' \<or> CHR ''a'' \<le> c \<and> c \<le> CHR ''z'' \<or> c = CHR ''_''"

definition symbol_new :: "string \<Rightarrow> analytics_error trap + symbol" where
  "symbol_new str = (if length str \<le> 32 \<and> list_all symbol_char str then Inr str else Inl PanicTrap)"

definition default_fee_config :: "analytics_error trap + fee_config" where
  "default_fee_config = (case symbol_new ''Default 0.1% fee'' of Inl t \<Rightarrow> Inl t | Inr d \<Rightarrow>
     Inr \<lparr>fg_fee_model = Percentage 10, fg_min_fee = Some 1, fg_max_fee = None, fg_enabled = True, fg_description = Some d\<rparr>)"

text \<open>The argument of \<open>unwrap_or\<close> is evaluated whether or not a configuration is stored.\<close>

definition deduct_fees :: "int \<Rightarrow> analytics_store \<Rightarrow> (analytics_store, analytics_error, fee_calculation_result) outcome" where
  "deduct_fees gross_amount s =
    (case default_fee_config of Inl t \<Rightarrow> Inl t | Inr dflt \<Rightarrow>
     let config = unwrap_or (get_current_fee_config s) dflt in
     case calculate_transaction_fee gross_amount config of Inl t \<Rightarrow> Inl t | Inr r \<Rightarrow>
     Inr (r, emit (FeeDeducted (fx_gross_amount r) (fx_fee_amount r) (fx_net_amount r) (fx_fee_percentage_bps r)) s))"

text \<open>The outer sum is a trap or a return, the inner one the \<open>Result\<close> that is returned.\<close>

definition update_fee_config :: "address \<Rightarrow> fee_config \<Rightarrow> analytics_store \<Rightarrow> analytics_error trap + (validation_error + analytics_store)" where
  "update_fee_config admin new_config s = (case ts_admin s of None \<Rightarrow> Inl PanicTrap | Some stored_admin \<Rightarrow>
     if admin \<noteq> stored_admin then Inr (Inl InvalidAddress) else
     case validate_fee_config new_config of Inl err \<Rightarrow> Inr (Inl err) | Inr _ \<Rightarrow> Inr (store_fee_config new_config s))"

definition update_operation_fee_config :: "address \<Rightarrow> symbol \<Rightarrow> fee_config \<Rightarrow> analytics_store
    \<Rightarrow> analytics_error trap + (validation_error + analytics_store)" where
  "update_operation_fee_config admin operation new_config s = (case ts_admin s of None \<Rightarrow> Inl PanicTrap | Some stored_admin \<Rightarrow>
     if admin \<noteq> stored_admin then Inr (Inl InvalidAddress) else
     let previous = get_operation_fee_config operation s in
     case validate_fee_config new_config of Inl err \<Rightarrow> Inr (Inl err) | Inr _ \<Rightarrow>
     case store_operation_fee_config operation new_config s of Inl err \<Rightarrow> Inr (Inl err) | Inr s1 \<Rightarrow>
     Inr (Inr (emit (OperationFeeUpdated admin operation previous new_config) s1)))"

definition is_fee_paused :: "analytics_store \<Rightarrow> bool" where
  "is_fee_paused s = unwrap_or (ts_fee_paused s) False"

definition set_fee_paused :: "address \<Rightarrow> bool \<Rightarrow> analytics_store \<Rightarrow> analytics_error trap + (validation_error + analytics_store)" where
  "set_fee_paused admin paused s = (case ts_admin s of None \<Rightarrow> Inl PanicTrap | Some stored_admin \<Rightarrow>
     if admin \<noteq> stored_admin then Inr (Inl InvalidAddress) else
     Inr (Inr (emit (FeePauseToggled admin paused) (s\<lparr>ts_fee_paused := Some paused\<rparr>))))"

section \<open>Splitting a fee\<close>

fun share_total :: "nat \<Rightarrow> fee_recipient_share list \<Rightarrow> nat option" where
  "share_total acc [] = Some acc"
| "share_total acc (r # rs) = (case u32_add acc (fr_share_bps r) of None \<Rightarrow> None | Some t \<Rightarrow> share_total t rs)"

definition validate_recipient_shares :: "fee_recipient_share list \<Rightarrow> validation_error + unit" where
  "validate_recipient_shares shares = (case share_total 0 shares of None \<Rightarrow> Inl InvalidAmount | Some sum_bps \<Rightarrow>
     if sum_bps \<noteq> 10000 then Inl InvalidAmount else Inr ())"

text \<open>The loop, with the sum distributed so far; the last recipient gets the rest.\<close>

fun distribute_loop :: "int \<Rightarrow> int \<Rightarrow> fee_recipient_share list \<Rightarrow> analytics_event list \<Rightarrow> analytics_error trap + analytics_event list" where
  "distribute_loop fee distributed [] evs = Inr evs"
| "distribute_loop fee distributed [r] evs =
    (case checked_sub fee distributed of None \<Rightarrow> Inl ArithTrap | Some amt \<Rightarrow>
     Inr (evs @ [FeeDistributed (fr_recipient r) amt (fr_share_bps r)]))"
| "distribute_loop fee distributed (r # r' # rs) evs =
    (case percentage_of fee (fr_share_bps r) of Inl t \<Rightarrow> Inl t | Inr amt \<Rightarrow>
     case checked_add distributed amt of None \<Rightarrow> Inl ArithTrap | Some d \<Rightarrow>
     distribute_loop fee d (r' # rs) (evs @ [FeeDistributed (fr_recipient r) amt (fr_share_bps r)]))"

definition distribute_fee :: "int \<Rightarrow> fee_recipient_share list \<Rightarrow> analytics_store \<Rightarrow> analytics_error trap + analytics_store" where
  "distribute_fee fee_amount shares s =
    (case validate_recipient_shares shares of Inl _ \<Rightarrow> Inl PanicTrap | Inr _ \<Rightarrow>
     case distribute_loop fee_amount 0 shares [] of Inl t \<Rightarrow> Inl t | Inr evs \<Rightarrow> Inr (emit_all evs s))"
section \<open>Properties\<close>

lemma default_fee_config_panics [simp]: "default_fee_config = Inl PanicTrap"
  by (simp add: default_fee_config_def symbol_new_def symbol_char_def less_eq_char_def)

lemma percentage_Inr:
  assumes "percentage_of amount bps = Inr f" and "0 \<le> amount"
  shows "f = amount * int bps div 10000 \<and> 0 \<le> f \<and> (bps \<le> 10000 \<longrightarrow> f \<le> amount)"
proof -
  have f: "f = amount * int bps div 10000"
    using assms by (auto simp: percentage_of_def quot_pos split: option.splits)
  moreover have "amount * int bps div 10000 \<le> amount" if "bps \<le> 10000"
  proof -
    have "amount * int bps \<le> amount * 10000" using that assms(2) by (simp add: mult_left_mono)
    then show ?thesis by linarith
  qed
  ultimately show ?thesis using assms(2) by (simp add: pos_imp_zdiv_nonneg_iff)
qed

lemma percentage_returns: "0 \<le> amount \<Longrightarrow> in_u32 bps \<Longrightarrow> in_i128 (amount * 4294967295) \<Longrightarrow> \<exists>f. percentage_of amount bps = Inr f"
proof -
  assume a: "0 \<le> amount" "in_u32 bps" "in_i128 (amount * 4294967295)"
  then have "amount * int bps \<le> amount * 4294967295" by (intro mult_left_mono) (auto simp: in_u32_def)
  moreover have "0 \<le> amount * int bps" using a(1) by simp
  ultimately have "in_i128 (amount * int bps)" using a(3) by (auto simp: in_i128_def)
  then show ?thesis by (simp add: percentage_of_def checked_mul_def)
qed

text \<open>A model is sane when its flat fees are not negative, which \<open>validate_fee_config\<close> does not check.\<close>

definition flat_nonneg :: "fee_model \<Rightarrow> bool" where
  "flat_nonneg m \<longleftrightarrow> (case m of Flat n \<Rightarrow> 0 \<le> n | Percentage _ \<Rightarrow> True
     | Tiered tiers \<Rightarrow> (\<forall>t\<in>set tiers. case tier_fee_model t of Flat n \<Rightarrow> 0 \<le> n | _ \<Rightarrow> True))"

definition bps_fit :: "fee_model \<Rightarrow> bool" where
  "bps_fit m \<longleftrightarrow> (case m of Flat _ \<Rightarrow> True | Percentage bps \<Rightarrow> in_u32 bps
     | Tiered tiers \<Rightarrow> (\<forall>t\<in>set tiers. in_u32 (tier_default_percentage_bps t)
         \<and> (case tier_fee_model t of Percentage bps \<Rightarrow> in_u32 bps | _ \<Rightarrow> True)))"

lemma applicable_tier_in: "applicable_tier amount c tiers \<in> insert c (set tiers)"
  by (induction amount c tiers rule: applicable_tier.induct) auto

lemma model_fee_nonneg:
  assumes "flat_nonneg m" and "model_fee amount m = Inr f" and "0 \<le> amount"
  shows "0 \<le> f"
proof (cases m)
  case (Tiered tiers)
  show ?thesis
  proof (cases tiers)
    case (Cons t0 ts)
    let ?t = "applicable_tier amount t0 tiers"
    have "?t \<in> set tiers" using applicable_tier_in [of amount t0 tiers] Cons by auto
    with Tiered Cons assms show ?thesis
      by (fastforce simp: model_fee_def calculate_tiered_fee_def flat_nonneg_def Let_def
        dest: percentage_Inr split: fee_model.splits)
  qed (use Tiered assms in \<open>simp add: model_fee_def calculate_tiered_fee_def\<close>)
qed (use assms in \<open>auto simp: model_fee_def flat_nonneg_def dest: percentage_Inr\<close>)

lemma model_fee_returns:
  assumes "bps_fit m" and "0 \<le> amount" and "in_i128 (amount * 4294967295)"
  shows "\<exists>f. model_fee amount m = Inr f"
proof (cases m)
  case (Tiered tiers)
  show ?thesis
  proof (cases tiers)
    case (Cons t0 ts)
    let ?t = "applicable_tier amount t0 tiers"
    have "?t \<in> set tiers" using applicable_tier_in [of amount t0 tiers] Cons by auto
    with Tiered Cons assms show ?thesis
      by (auto simp: model_fee_def calculate_tiered_fee_def bps_fit_def Let_def
        intro!: percentage_returns split: fee_model.splits)
  qed (use Tiered in \<open>simp add: model_fee_def calculate_tiered_fee_def\<close>)
qed (use assms in \<open>auto simp: model_fee_def bps_fit_def intro!: percentage_returns\<close>)

lemma valid_limits:
  "validate_fee_config config = Inr u \<Longrightarrow> fg_min_fee config = Some lo \<Longrightarrow> fg_max_fee config = Some hi \<Longrightarrow> lo \<le> hi"
  by (auto simp: validate_fee_config_def split: sum.splits if_splits)

lemma constrained_bounds:
  assumes "validate_fee_config config = Inr u" and "0 \<le> f"
  shows "0 \<le> constrain_fee_amount f config
    \<and> (\<forall>lo. fg_min_fee config = Some lo \<longrightarrow> int lo \<le> constrain_fee_amount f config)
    \<and> (\<forall>hi. fg_max_fee config = Some hi \<longrightarrow> constrain_fee_amount f config \<le> int hi)"
  using assms valid_limits [OF assms(1)]
  by (auto simp: constrain_fee_amount_def Let_def split: option.splits)

lemma rate_bounds:
  assumes "0 \<le> fee" "fee \<le> amount" "0 < amount"
  shows "quot (fee * 10000) amount = fee * 10000 div amount" "fee * 10000 div amount \<le> 10000" "0 \<le> fee * 10000 div amount"
proof -
  show "quot (fee * 10000) amount = fee * 10000 div amount" using assms by (simp add: quot_pos)
  have "fee * 10000 \<le> 10000 * amount" using assms by simp
  then have "fee * 10000 div amount \<le> 10000 * amount div amount" using assms(3) by (intro zdiv_mono1) auto
  then show "fee * 10000 div amount \<le> 10000" using assms(3) by simp
  show "0 \<le> fee * 10000 div amount" using assms by (simp add: pos_imp_zdiv_nonneg_iff)
qed

lemma fee_result:
  assumes "validate_fee_config config = Inr u" and "flat_nonneg (fg_fee_model config)" and "0 < amount"
    and "model_fee amount (fg_fee_model config) = Inr f"
  defines "fee \<equiv> min amount (constrain_fee_amount f config)"
  shows "0 \<le> fee \<and> fee \<le> amount \<and> calculate_transaction_fee amount config =
    (if in_i128 (amount - fee) \<and> in_i128 (fee * 10000) then
       Inr \<lparr>fx_gross_amount = amount, fx_fee_amount = fee, fx_net_amount = amount - fee,
            fx_fee_percentage_bps = nat (fee * 10000 div amount)\<rparr> else Inl ArithTrap)"
proof -
  have "0 \<le> f" using model_fee_nonneg [OF assms(2,4)] assms(3) by simp
  with constrained_bounds [OF assms(1)] have c: "0 \<le> constrain_fee_amount f config" by blast
  have fee: "0 \<le> fee" "fee \<le> amount" using c assms(3) by (auto simp: fee_def)
  have "(if amount < constrain_fee_amount f config then amount else constrain_fee_amount f config) = fee"
    by (auto simp: fee_def)
  with rate_bounds [OF fee assms(3)] fee assms(3,4) show ?thesis
    by (auto simp: calculate_transaction_fee_def calculate_effective_rate_def Let_def checked_sub_def checked_mul_def
      as_u32_small)
qed

text \<open>C30: Fees are bounded.  Under a validated configuration without negative flat fees (which validation does
  not exclude), the fee of a positive amount is at least 0 and at most the amount, is at least the minimum fee
  or the whole amount, and at most the maximum fee; net and fee add up to the amount, and the effective rate is
  its exact ratio in basis points, rounded down, so at most 10000.  The calculation returns for every amount
  whose product with the largest \<open>u32\<close> fits into \<open>i128\<close>.\<close>

theorem analytics_fee_bounds:
  assumes "validate_fee_config config = Inr ()" and "flat_nonneg (fg_fee_model config)"
    and "bps_fit (fg_fee_model config)" and "0 < amount"
  shows "(in_i128 (amount * 4294967295) \<longrightarrow> (\<exists>r. calculate_transaction_fee amount config = Inr r))
    \<and> (\<forall>r. calculate_transaction_fee amount config = Inr r \<longrightarrow>
         0 \<le> fx_fee_amount r \<and> fx_fee_amount r \<le> amount
       \<and> fx_net_amount r + fx_fee_amount r = amount
       \<and> (\<forall>lo. fg_min_fee config = Some lo \<longrightarrow> min (int lo) amount \<le> fx_fee_amount r)
       \<and> (\<forall>hi. fg_max_fee config = Some hi \<longrightarrow> fx_fee_amount r \<le> int hi)
       \<and> int (fx_fee_percentage_bps r) = fx_fee_amount r * 10000 div amount \<and> fx_fee_percentage_bps r \<le> 10000)"
proof (intro conjI impI allI)
  assume fits: "in_i128 (amount * 4294967295)"
  have "0 \<le> amount" using assms(4) by simp
  from model_fee_returns [OF assms(3) this fits] obtain f where f: "model_fee amount (fg_fee_model config) = Inr f" ..
  from fee_result [OF assms(1,2,4) f] obtain fee where fee: "0 \<le> fee" "fee \<le> amount"
    and r: "calculate_transaction_fee amount config = (if in_i128 (amount - fee) \<and> in_i128 (fee * 10000) then
       Inr \<lparr>fx_gross_amount = amount, fx_fee_amount = fee, fx_net_amount = amount - fee,
            fx_fee_percentage_bps = nat (fee * 10000 div amount)\<rparr> else Inl ArithTrap)" by blast
  have "in_i128 (amount - fee) \<and> in_i128 (fee * 10000)" using fee fits by (auto simp: in_i128_def)
  with r show "\<exists>r. calculate_transaction_fee amount config = Inr r" by simp
next
  fix r assume r: "calculate_transaction_fee amount config = Inr r"
  then obtain f where f: "model_fee amount (fg_fee_model config) = Inr f"
    using assms(4) by (auto simp: calculate_transaction_fee_def split: sum.splits)
  let ?fee = "min amount (constrain_fee_amount f config)"
  from fee_result [OF assms(1,2,4) f] r have fee: "0 \<le> ?fee" "?fee \<le> amount"
    and r_eq: "r = \<lparr>fx_gross_amount = amount, fx_fee_amount = ?fee, fx_net_amount = amount - ?fee,
      fx_fee_percentage_bps = nat (?fee * 10000 div amount)\<rparr>" by (auto split: if_splits)
  have "0 \<le> f" using model_fee_nonneg [OF assms(2) f] assms(4) by simp
  note b = constrained_bounds [OF assms(1) this]
  show "0 \<le> fx_fee_amount r" "fx_fee_amount r \<le> amount" "fx_net_amount r + fx_fee_amount r = amount"
    using fee by (simp_all add: r_eq)
  show "min (int lo) amount \<le> fx_fee_amount r" if "fg_min_fee config = Some lo" for lo using b that by (auto simp: r_eq)
  show "fx_fee_amount r \<le> int hi" if "fg_max_fee config = Some hi" for hi using b that by (auto simp: r_eq)
  show "int (fx_fee_percentage_bps r) = fx_fee_amount r * 10000 div amount" "fx_fee_percentage_bps r \<le> 10000"
    using rate_bounds [OF fee assms(4)] by (simp_all add: r_eq)
qed

theorem analytics_fee_bounds_witness:
  "\<exists>r. calculate_transaction_fee 2500 \<lparr>fg_fee_model = Tiered [FeeTier 0 (Flat 3) 0, FeeTier 1000 (Percentage 25) 0],
      fg_min_fee = Some 1, fg_max_fee = Some 5, fg_enabled = True, fg_description = None\<rparr> = Inr r
    \<and> fx_fee_amount r \<le> 5"
proof -
  let ?c = "\<lparr>fg_fee_model = Tiered [FeeTier 0 (Flat 3) 0, FeeTier 1000 (Percentage 25) 0],
      fg_min_fee = Some 1, fg_max_fee = Some 5, fg_enabled = True, fg_description = None\<rparr>"
  have v: "validate_fee_config ?c = Inr ()"
    by (simp add: validate_fee_config_def validate_model_def i64_max_def)
  have m: "flat_nonneg (fg_fee_model ?c)" "bps_fit (fg_fee_model ?c)"
    by (simp_all add: flat_nonneg_def bps_fit_def in_u32_def)
  from analytics_fee_bounds [OF v m, of 2500] show ?thesis by (auto simp: in_i128_def)
qed

section \<open>The split of a fee\<close>

lemma share_total_Some: "share_total n rs = Some m \<Longrightarrow> m = n + sum_list (map fr_share_bps rs)"
  by (induction n rs rule: share_total.induct) (auto simp: u32_add_def split: option.splits if_splits)

lemma distribute_loop_Inr:
  assumes "distribute_loop fee d (ss @ [r]) evs = Inr evs'" and "0 \<le> fee"
  shows "evs' = evs @ map (\<lambda>q. FeeDistributed (fr_recipient q) (fee * int (fr_share_bps q) div 10000) (fr_share_bps q)) ss
    @ [FeeDistributed (fr_recipient r) (fee - d - (\<Sum>q\<leftarrow>ss. fee * int (fr_share_bps q) div 10000)) (fr_share_bps r)]"
  using assms(1)
proof (induction ss arbitrary: d evs)
  case Nil
  then show ?case by (auto split: option.splits)
next
  case (Cons q ss)
  obtain r' rs where ne: "ss @ [r] = r' # rs" by (cases ss) auto
  from Cons.prems obtain amt where amt: "percentage_of fee (fr_share_bps q) = Inr amt"
    and rest: "distribute_loop fee (d + amt) (ss @ [r]) (evs @ [FeeDistributed (fr_recipient q) amt (fr_share_bps q)]) = Inr evs'"
    by (auto simp: ne split: sum.splits option.splits)
  from percentage_Inr [OF amt assms(2)] Cons.IH [OF rest] show ?case by (simp add: algebra_simps)
qed

lemma int_sum: "(\<Sum>q\<leftarrow>qs. int (f q)) = int (sum_list (map f qs))"
  by (induction qs) simp_all

lemma floors_bound:
  assumes "0 \<le> (fee::int)"
  shows "10000 * (\<Sum>q\<leftarrow>ss. fee * int (b q) div 10000) \<le> fee * (\<Sum>q\<leftarrow>ss. int (b q))
    \<and> fee * (\<Sum>q\<leftarrow>ss. int (b q)) \<le> 10000 * (\<Sum>q\<leftarrow>ss. fee * int (b q) div 10000) + 9999 * int (length ss)"
proof (induction ss)
  case (Cons q ss)
  have "10000 * (fee * int (b q) div 10000) \<le> fee * int (b q)"
    "fee * int (b q) \<le> 10000 * (fee * int (b q) div 10000) + 9999" by linarith+
  with Cons show ?case by (simp add: distrib_left)
qed simp

text \<open>Splitting a fee.  A successful distribution announces one payment per recipient, in order, and they add
  up to the fee: everybody but the last gets the own share rounded down, and the last gets the rest, which is at
  least its own share rounded down and exceeds that by at most one unit per other recipient.\<close>

theorem fee_split_exact:
  assumes "distribute_fee fee (ss @ [r]) s = Inr s'" and "0 \<le> fee"
  shows "let share = (\<lambda>q. fee * int (fr_share_bps q) div 10000); rest = fee - (\<Sum>q\<leftarrow>ss. share q) in
     s' = emit_all (map (\<lambda>q. FeeDistributed (fr_recipient q) (share q) (fr_share_bps q)) ss
            @ [FeeDistributed (fr_recipient r) rest (fr_share_bps r)]) s
     \<and> share r \<le> rest \<and> rest \<le> share r + int (length ss)"
proof -
  let ?share = "\<lambda>q. fee * int (fr_share_bps q) div 10000"
  from assms(1) obtain evs where v: "validate_recipient_shares (ss @ [r]) = Inr ()"
    and l: "distribute_loop fee 0 (ss @ [r]) [] = Inr evs" and s': "s' = emit_all evs s"
    by (auto simp: distribute_fee_def split: sum.splits)
  from v have "sum_list (map fr_share_bps (ss @ [r])) = 10000"
    by (auto simp: validate_recipient_shares_def dest!: share_total_Some split: option.splits if_splits)
  then have b: "(\<Sum>q\<leftarrow>ss. int (fr_share_bps q)) = 10000 - int (fr_share_bps r)"
    by (simp add: int_sum)
  have "10000 * (\<Sum>q\<leftarrow>ss. ?share q) \<le> fee * (10000 - int (fr_share_bps r))"
    "fee * (10000 - int (fr_share_bps r)) \<le> 10000 * (\<Sum>q\<leftarrow>ss. ?share q) + 9999 * int (length ss)"
    using floors_bound [OF assms(2), of fr_share_bps ss] by (simp_all add: b)
  moreover have "10000 * ?share r \<le> fee * int (fr_share_bps r)" "fee * int (fr_share_bps r) \<le> 10000 * ?share r + 9999" by linarith+
  moreover have "fee * (10000 - int (fr_share_bps r)) = 10000 * fee - fee * int (fr_share_bps r)" by (simp add: algebra_simps)
  ultimately have "?share r \<le> fee - (\<Sum>q\<leftarrow>ss. ?share q)" "fee - (\<Sum>q\<leftarrow>ss. ?share q) \<le> ?share r + int (length ss)" by linarith+
  with distribute_loop_Inr [OF l assms(2)] show ?thesis by (simp add: s' Let_def)
qed

theorem fee_split_exact_witness:
  "\<exists>s'. distribute_fee 100 [\<lparr>fr_recipient = Addr 1, fr_share_bps = 3333\<rparr>, \<lparr>fr_recipient = Addr 2, fr_share_bps = 6667\<rparr>]
      store_fresh = Inr s' \<and> ts_events s' = [FeeDistributed (Addr 1) 33 3333, FeeDistributed (Addr 2) 67 6667]"
proof -
  let ?a = "\<lparr>fr_recipient = Addr 1, fr_share_bps = 3333\<rparr>" and ?b = "\<lparr>fr_recipient = Addr 2, fr_share_bps = 6667\<rparr>"
  have "\<exists>s'. distribute_fee 100 ([?a] @ [?b]) store_fresh = Inr s'"
    by (simp add: distribute_fee_def validate_recipient_shares_def percentage_of_def arith_defs)
  then obtain s' where d: "distribute_fee 100 ([?a] @ [?b]) store_fresh = Inr s'" ..
  from fee_split_exact [OF d] have "s' = emit_all [FeeDistributed (Addr 1) 33 3333, FeeDistributed (Addr 2) 67 6667] store_fresh"
    by (simp add: Let_def)
  then have "ts_events s' = [FeeDistributed (Addr 1) 33 3333, FeeDistributed (Addr 2) 67 6667]"
    by (simp add: emit_all_def store_fresh_def)
  with d show ?thesis by (intro exI [of _ s']) simp
qed

end
