(* ===== verification/Batch_Analytics.thy ===== *)
theory Batch_Analytics
  imports Analytics_Fees
begin

text \<open>
  \<open>contracts/transaction-analytics/src/analytics.rs\<close>: the computations over batches, refunds, bundles and
  monthly spending.  They read the fee configuration of the store; only
  \<open>update_monthly_analytics_storage\<close> changes it.  A \<open>Map\<close> that is iterated is a sorted \<open>Soroban_Map\<close>.
  Counters that are raised once per element of a vector stay below its \<open>u32\<close> length and are plain numbers.
\<close>

unbundle bit_operations_syntax

section \<open>Fees and batch metrics\<close>

text \<open>\<open>checked_add(..).unwrap_or(i128::MAX)\<close>\<close>

definition add_or_max :: "int \<Rightarrow> int \<Rightarrow> int" where
  "add_or_max a b = unwrap_or (checked_add a b) i128_max"

definition configured_fee :: "int \<Rightarrow> fee_config \<Rightarrow> analytics_error trap + int" where
  "configured_fee amount config =
    (case calculate_transaction_fee amount config of Inl t \<Rightarrow> Inl t | Inr r \<Rightarrow> Inr (fx_fee_amount r))"

definition calculate_fee :: "analytics_store \<Rightarrow> int \<Rightarrow> symbol \<Rightarrow> analytics_error trap + int" where
  "calculate_fee s amount operation =
    (if amount \<le> 0 then Inr 0 else
     let fallback = (case get_current_fee_config s of
           Some global \<Rightarrow> if fg_enabled global then configured_fee amount global else Inr (quot amount 1000)
         | None \<Rightarrow> Inr (quot amount 1000)) in
     case get_operation_fee_config operation s of
       Some op_config \<Rightarrow> if fg_enabled op_config then configured_fee amount op_config else fallback
     | None \<Rightarrow> fallback)"

type_synonym metrics_acc = "int \<times> int \<times> int \<times> int \<times> (address \<times> bool) list \<times> (address \<times> bool) list"

definition metrics_step :: "analytics_store \<Rightarrow> transaction \<Rightarrow> metrics_acc \<Rightarrow> analytics_error trap + metrics_acc" where
  "metrics_step s tx acc = (case acc of (total_volume, total_fees, min_amount, max_amount, senders, recipients) \<Rightarrow>
     case calculate_fee s (tr_amount tx) (tr_category tx) of Inl t \<Rightarrow> Inl t | Inr fee \<Rightarrow>
     Inr (add_or_max total_volume (tr_amount tx), add_or_max total_fees fee,
          if tr_amount tx < min_amount then tr_amount tx else min_amount,
          if max_amount < tr_amount tx then tr_amount tx else max_amount,
          if map_contains (tr_from tx) senders then senders else map_set (tr_from tx) True senders,
          if map_contains (tr_to tx) recipients then recipients else map_set (tr_to tx) True recipients))"

definition compute_batch_metrics :: "analytics_store \<Rightarrow> transaction list \<Rightarrow> nat \<Rightarrow> analytics_error trap + batch_metrics" where
  "compute_batch_metrics s transactions processed_at =
    (let tx_count = length transactions in
     if tx_count = 0 then Inr \<lparr>bm_tx_count = 0, bm_total_volume = 0, bm_avg_amount = 0, bm_min_amount = 0,
       bm_max_amount = 0, bm_unique_senders = 0, bm_unique_recipients = 0, bm_total_fees = 0, bm_processed_at = processed_at\<rparr> else
     case fold_trap (metrics_step s) transactions (0, 0, i128_max, i128_min, [], []) of Inl t \<Rightarrow> Inl t
     | Inr (total_volume, total_fees, min_amount, max_amount, senders, recipients) \<Rightarrow>
     Inr \<lparr>bm_tx_count = tx_count, bm_total_volume = total_volume, bm_avg_amount = quot total_volume (int tx_count),
       bm_min_amount = min_amount, bm_max_amount = max_amount, bm_unique_senders = length senders,
       bm_unique_recipients = length recipients, bm_total_fees = total_fees, bm_processed_at = processed_at\<rparr>)"

type_synonym category_map = "(symbol \<times> nat \<times> int \<times> int) list"

definition category_step :: "analytics_store \<Rightarrow> transaction \<Rightarrow> category_map \<Rightarrow> analytics_error trap + category_map" where
  "category_step s tx m =
    (case unwrap_or (map_of m (tr_category tx)) (0, 0, 0) of (count, volume, fees) \<Rightarrow>
     case calculate_fee s (tr_amount tx) (tr_category tx) of Inl t \<Rightarrow> Inl t | Inr fee \<Rightarrow>
     Inr (map_set (tr_category tx) (count + 1, add_or_max volume (tr_amount tx), add_or_max fees fee) m))"

definition category_entry :: "int \<Rightarrow> symbol \<times> nat \<times> int \<times> int \<Rightarrow> category_metrics list
    \<Rightarrow> analytics_error trap + category_metrics list" where
  "category_entry total_volume entry result = (case entry of (category, tx_count, volume, fees) \<Rightarrow>
     case (if 0 < total_volume then
             (case checked_mul volume 10000 of None \<Rightarrow> Inl ArithTrap | Some p \<Rightarrow> Inr (as_u32 (quot p total_volume)))
           else Inr 0) of Inl t \<Rightarrow> Inl t | Inr bps \<Rightarrow>
     Inr (result @ [\<lparr>cm_category = category, cm_tx_count = tx_count, cm_total_volume = volume, cm_total_fees = fees,
                     cm_volume_percentage_bps = bps\<rparr>]))"

definition compute_category_metrics :: "analytics_store \<Rightarrow> transaction list \<Rightarrow> int
    \<Rightarrow> analytics_error trap + category_metrics list" where
  "compute_category_metrics s transactions total_volume =
    (case fold_trap (category_step s) transactions [] of Inl t \<Rightarrow> Inl t | Inr m \<Rightarrow>
     fold_trap (category_entry total_volume) m [])"

definition find_high_value_transactions :: "transaction list \<Rightarrow> int \<Rightarrow> (nat \<times> int) list" where
  "find_high_value_transactions transactions threshold =
    map (\<lambda>tx. (tr_tx_id tx, tr_amount tx)) (filter (\<lambda>tx. threshold \<le> tr_amount tx) transactions)"

definition validate_batch :: "transaction list \<Rightarrow> string + unit" where
  "validate_batch transactions =
    (if length transactions = 0 then Inl ''Batch cannot be empty'' else
     if MAX_BATCH_SIZE < length transactions then Inl ''Batch exceeds maximum size'' else
     if (\<exists>tx\<in>set transactions. tr_amount tx < 0) then Inl ''Transaction amount cannot be negative'' else Inr ())"

definition validate_audit_logs :: "audit_log list \<Rightarrow> string + unit" where
  "validate_audit_logs logs =
    (if length logs = 0 then Inl ''Audit logs batch cannot be empty'' else
     if MAX_BATCH_SIZE < length logs then Inl ''Audit logs batch exceeds maximum size'' else
     if (\<exists>log\<in>set logs. lo_timestamp log = 0) then Inl ''Audit log timestamp cannot be zero'' else Inr ())"

definition compute_batch_checksum :: "transaction list \<Rightarrow> nat" where
  "compute_batch_checksum transactions =
    foldl (\<lambda>checksum tx. (checksum XOR tr_tx_id tx) XOR nat (tr_amount tx AND 0xFFFFFFFF)) 0 transactions"

section \<open>Refunds\<close>

definition validate_refund_eligibility :: "nat \<Rightarrow> (nat \<rightharpoonup> bool) \<Rightarrow> refund_status" where
  "validate_refund_eligibility tx_id refunded_txs =
    (if refunded_txs tx_id \<noteq> None then AlreadyRefunded else
     if tx_id mod 2 = 1 then RefundEligible else NotEligible)"

definition refund_step :: "(nat \<rightharpoonup> transaction) \<Rightarrow> refund_result list \<times> (nat \<rightharpoonup> bool) \<Rightarrow> refund_request
    \<Rightarrow> refund_result list \<times> (nat \<rightharpoonup> bool)" where
  "refund_step transaction_lookup acc request = (case acc of (results, refunded_txs) \<Rightarrow>
     let i = rq_tx_id request; status = validate_refund_eligibility i refunded_txs in
     case status of
       RefundEligible \<Rightarrow>
        (case transaction_lookup i of
           Some tx \<Rightarrow> (results @ [\<lparr>re_tx_id = i, re_success = True, re_status = RefundEligible,
               re_amount_refunded = tr_amount tx, re_error_message = None\<rparr>], refunded_txs(i \<mapsto> True))
         | None \<Rightarrow> (results @ [\<lparr>re_tx_id = i, re_success = False, re_status = RefundNotFound,
               re_amount_refunded = 0, re_error_message = Some ''TxNotFound''\<rparr>], refunded_txs))
     | _ \<Rightarrow>
        (let error_msg = (case status of AlreadyRefunded \<Rightarrow> ''AlreadyRefunded'' | RefundPending \<Rightarrow> ''TxPending''
               | NotEligible \<Rightarrow> ''NotEligible'' | RefundNotFound \<Rightarrow> ''TxNotFound'' | _ \<Rightarrow> ''UnknownError'') in
         (results @ [\<lparr>re_tx_id = i, re_success = False, re_status = status,
             re_amount_refunded = 0, re_error_message = Some error_msg\<rparr>], refunded_txs)))"

definition process_refund_batch :: "refund_request list \<Rightarrow> (nat \<rightharpoonup> transaction) \<Rightarrow> (nat \<rightharpoonup> bool)
    \<Rightarrow> refund_result list \<times> (nat \<rightharpoonup> bool)" where
  "process_refund_batch requests transaction_lookup refunded_txs =
    foldl (refund_step transaction_lookup) ([], refunded_txs) requests"

definition refund_count :: "nat \<times> nat \<times> int \<Rightarrow> refund_result \<Rightarrow> nat \<times> nat \<times> int" where
  "refund_count acc r = (case acc of (successful, failed, amount) \<Rightarrow>
     if re_success r then (successful + 1, failed, add_or_max amount (re_amount_refunded r))
     else (successful, failed + 1, amount))"

definition compute_refund_metrics :: "refund_result list \<Rightarrow> nat \<Rightarrow> refund_batch_metrics" where
  "compute_refund_metrics results processed_at =
    (if length results = 0 then \<lparr>rm_request_count = 0, rm_successful_refunds = 0, rm_failed_refunds = 0,
       rm_total_refunded_amount = 0, rm_avg_refund_amount = 0, rm_processed_at = processed_at\<rparr> else
     case foldl refund_count (0, 0, 0) results of (successful, failed, amount) \<Rightarrow>
     \<lparr>rm_request_count = length results, rm_successful_refunds = successful, rm_failed_refunds = failed,
      rm_total_refunded_amount = amount,
      rm_avg_refund_amount = (if 0 < successful then quot amount (int successful) else 0),
      rm_processed_at = processed_at\<rparr>)"

definition validate_refund_batch :: "refund_request list \<Rightarrow> string + unit" where
  "validate_refund_batch requests =
    (if length requests = 0 then Inl ''Refund batch cannot be empty'' else
     if MAX_BATCH_SIZE < length requests then Inl ''Refund batch exceeds maximum size'' else
     if \<not> distinct (map rq_tx_id requests) then Inl ''Duplicate transaction ID in refund batch'' else Inr ())"

section \<open>Bundles\<close>

definition validate_transaction_for_bundle :: "bundled_transaction \<Rightarrow> validation_result" where
  "validate_transaction_for_bundle bundled_tx =
    (let tx = bt_transaction bundled_tx in
     if tr_amount tx < 0 then \<lparr>vr_tx_id = tr_tx_id tx, vr_is_valid = False, vr_error = ''invalid_amount''\<rparr> else
     if tr_from tx = tr_to tx then \<lparr>vr_tx_id = tr_tx_id tx, vr_is_valid = False, vr_error = ''same_address''\<rparr> else
     \<lparr>vr_tx_id = tr_tx_id tx, vr_is_valid = True, vr_error = ''''\<rparr>)"

definition validate_bundle_transactions :: "bundled_transaction list \<Rightarrow> validation_result list" where
  "validate_bundle_transactions txs = map validate_transaction_for_bundle txs"

definition bundle_count :: "bundled_transaction list \<Rightarrow> nat \<times> nat \<times> int \<Rightarrow> nat \<times> validation_result \<Rightarrow> nat \<times> nat \<times> int" where
  "bundle_count txs acc ir = (case (acc, ir) of ((valid, invalid, volume), (index, result)) \<Rightarrow>
     if vr_is_valid result then
       (valid + 1, invalid,
        if index < length txs then add_or_max volume (tr_amount (bt_transaction (txs ! index))) else volume)
     else (valid, invalid + 1, volume))"

definition create_bundle_result :: "nat \<Rightarrow> bundled_transaction list \<Rightarrow> validation_result list \<Rightarrow> nat \<Rightarrow> bundle_result" where
  "create_bundle_result bundle_id txs results created_at =
    (case foldl (bundle_count txs) (0, 0, 0) (enumerate 0 results) of (valid, invalid, volume) \<Rightarrow>
     \<lparr>bu_bundle_id = bundle_id, bu_total_count = length txs, bu_valid_count = valid, bu_invalid_count = invalid,
      bu_validation_results = results, bu_can_bundle = (0 < valid \<and> invalid = 0), bu_total_volume = volume,
      bu_created_at = created_at\<rparr>)"

section \<open>Spending per month, user and category\<close>

text \<open>The first entry of the category is replaced in its place; without one the category is appended.\<close>

fun update_category_spending :: "(symbol \<times> int) list \<Rightarrow> symbol \<Rightarrow> int \<Rightarrow> (symbol \<times> int) list" where
  "update_category_spending [] category amount = [(category, amount)]"
| "update_category_spending ((k, n) # spending) category amount =
    (if k = category then (category, add_or_max n amount) # spending
     else (k, n) # update_category_spending spending category amount)"

definition monthly_step :: "address \<Rightarrow> int \<times> nat \<times> (symbol \<times> int) list \<Rightarrow> transaction \<Rightarrow> int \<times> nat \<times> (symbol \<times> int) list" where
  "monthly_step user acc tx = (case acc of (total_spending, transaction_count, spending) \<Rightarrow>
     if tr_from tx = user then
       (add_or_max total_spending (tr_amount tx), transaction_count + 1,
        update_category_spending spending (tr_category tx) (tr_amount tx))
     else acc)"

definition compute_monthly_analytics :: "address \<Rightarrow> transaction list \<Rightarrow> nat \<Rightarrow> nat \<Rightarrow> monthly_spending_analytics" where
  "compute_monthly_analytics user transactions year month =
    (case foldl (monthly_step user) (0, 0, []) transactions of (total_spending, transaction_count, spending) \<Rightarrow>
     \<lparr>ms_year = year, ms_month = month, ms_user = user, ms_total_spending = total_spending,
      ms_category_spending = spending, ms_transaction_count = transaction_count\<rparr>)"

definition update_monthly_analytics_storage :: "env \<Rightarrow> monthly_spending_analytics \<Rightarrow> analytics_store
    \<Rightarrow> analytics_error trap + analytics_store" where
  "update_monthly_analytics_storage e a s =
    (let s1 = s\<lparr>ts_monthly_analytics := (ts_monthly_analytics s)((ms_year a, ms_month a, ms_user a) \<mapsto> a)\<rparr>;
         total_users = unwrap_or (ts_total_tracked_users s1) 0 in
     case (if ts_user_spending_summary s1 (ms_user a) = None then
             (case u64_add total_users 1 of None \<Rightarrow> Inl ArithTrap | Some n \<Rightarrow> Inr (s1\<lparr>ts_total_tracked_users := Some n\<rparr>))
           else Inr s1) of Inl t \<Rightarrow> Inl t | Inr s2 \<Rightarrow>
     Inr (s2\<lparr>ts_last_analytics_update := Some (env_sequence e)\<rparr>))"

definition aggregate_step :: "(address \<times> monthly_spending_analytics) list \<times> (symbol \<times> int) list \<Rightarrow> transaction
    \<Rightarrow> (address \<times> monthly_spending_analytics) list \<times> (symbol \<times> int) list" where
  "aggregate_step acc tx = (case acc of (user_analytics, category_totals) \<Rightarrow>
     let user_data = unwrap_or (map_of user_analytics (tr_from tx))
           \<lparr>ms_year = 0, ms_month = 0, ms_user = tr_from tx, ms_total_spending = 0, ms_category_spending = [],
            ms_transaction_count = 0\<rparr>;
         user_data1 = user_data\<lparr>ms_total_spending := add_or_max (ms_total_spending user_data) (tr_amount tx),
           ms_category_spending := update_category_spending (ms_category_spending user_data) (tr_category tx) (tr_amount tx),
           ms_transaction_count := ms_transaction_count user_data + 1\<rparr>;
         category_total = unwrap_or (map_of category_totals (tr_category tx)) 0 in
     (map_set (tr_from tx) user_data1 user_analytics,
      map_set (tr_category tx) (add_or_max category_total (tr_amount tx)) category_totals))"

definition compute_aggregated_analytics :: "transaction list
    \<Rightarrow> (address \<times> monthly_spending_analytics) list \<times> (symbol \<times> int) list" where
  "compute_aggregated_analytics transactions = foldl aggregate_step ([], []) transactions"

definition summary_category :: "(symbol \<rightharpoonup> int) \<times> int \<times> symbol \<Rightarrow> symbol \<times> int \<Rightarrow> (symbol \<rightharpoonup> int) \<times> int \<times> symbol" where
  "summary_category acc entry = (case (acc, entry) of ((category_totals, max_amount, primary), (category, amount)) \<Rightarrow>
     let new_total = add_or_max (unwrap_or (category_totals category) 0) amount in
     (category_totals(category \<mapsto> new_total),
      if max_amount < new_total then new_total else max_amount,
      if max_amount < new_total then category else primary))"

definition summary_step :: "address \<Rightarrow> int \<times> nat \<times> (symbol \<rightharpoonup> int) \<times> int \<times> symbol \<Rightarrow> monthly_spending_analytics
    \<Rightarrow> int \<times> nat \<times> (symbol \<rightharpoonup> int) \<times> int \<times> symbol" where
  "summary_step user acc a = (case acc of (total_spending, total_transactions, cats) \<Rightarrow>
     if ms_user a = user then
       (add_or_max total_spending (ms_total_spending a),
        unwrap_or (u32_add total_transactions (ms_transaction_count a)) u32_max,
        foldl summary_category cats (ms_category_spending a))
     else acc)"

definition compute_user_spending_summary :: "address \<Rightarrow> monthly_spending_analytics list \<Rightarrow> user_spending_summary" where
  "compute_user_spending_summary user monthly =
    (case foldl (summary_step user) (0, 0, Map.empty, 0, '''') monthly of
       (total_spending, total_transactions, _, _, primary_category) \<Rightarrow>
     \<lparr>us_user = user, us_total_spending = total_spending, us_total_transactions = total_transactions,
      us_primary_category = primary_category,
      us_avg_monthly_spending = (if 0 < length monthly then quot total_spending (int (length monthly)) else 0)\<rparr>)"
section \<open>Batch metrics are exact\<close>

abbreviation volume :: "transaction list \<Rightarrow> int" where "volume txs \<equiv> sum_list (map tr_amount txs)"

lemma add_or_max_fits [simp]: "in_i128 (a + b) \<Longrightarrow> add_or_max a b = a + b"
  by (simp add: add_or_max_def checked_add_def)

definition amounts_ok :: "transaction list \<Rightarrow> bool" where
  "amounts_ok txs \<longleftrightarrow> (\<forall>tx\<in>set txs. 0 \<le> tr_amount tx) \<and> volume txs \<le> i128_max"

lemma volume_nonneg: "amounts_ok txs \<Longrightarrow> 0 \<le> volume txs"
  by (auto simp: amounts_ok_def intro!: sum_list_nonneg)

lemma amount_bound: "amounts_ok txs \<Longrightarrow> tx \<in> set txs \<Longrightarrow> 0 \<le> tr_amount tx \<and> tr_amount tx \<le> i128_max"
proof -
  assume a: "amounts_ok txs" "tx \<in> set txs"
  then have "tr_amount tx \<le> volume txs"
    by (intro member_le_sum_list) (auto simp: amounts_ok_def)
  with a show ?thesis by (auto simp: amounts_ok_def)
qed

lemma metrics_fold:
  assumes "fold_trap (metrics_step s) txs (v, f, mn, mx, ss, rs) = Inr (v', f', mn', mx', ss', rs')"
    and "\<forall>tx\<in>set txs. 0 \<le> tr_amount tx" and "0 \<le> v" and "v + volume txs \<le> i128_max" and "map_ok ss" and "map_ok rs"
  shows "v' = v + volume txs \<and> mn' = Min (insert mn (tr_amount ` set txs)) \<and> mx' = Max (insert mx (tr_amount ` set txs))
    \<and> map_ok ss' \<and> fst ` set ss' = fst ` set ss \<union> tr_from ` set txs
    \<and> map_ok rs' \<and> fst ` set rs' = fst ` set rs \<union> tr_to ` set txs"
  using assms
proof (induction txs arbitrary: v f mn mx ss rs)
  case (Cons tx txs)
  let ?mn = "if tr_amount tx < mn then tr_amount tx else mn" and ?mx = "if mx < tr_amount tx then tr_amount tx else mx"
  let ?ss = "if map_contains (tr_from tx) ss then ss else map_set (tr_from tx) True ss"
  let ?rs = "if map_contains (tr_to tx) rs then rs else map_set (tr_to tx) True rs"
  have "0 \<le> volume txs" using Cons.prems(2) by (auto intro!: sum_list_nonneg)
  with Cons.prems(2-4) have fits: "in_i128 (v + tr_amount tx)" by (simp add: in_i128_def)
  from Cons.prems(1) obtain fee where
    rest: "fold_trap (metrics_step s) txs (v + tr_amount tx, add_or_max f fee, ?mn, ?mx, ?ss, ?rs) = Inr (v', f', mn', mx', ss', rs')"
    by (auto simp: metrics_step_def [of s tx] fits split: sum.splits)
  have "map_ok ?ss" "map_ok ?rs" using Cons.prems(5,6) by (simp_all add: map_ok_set)
  note ih = Cons.IH [OF rest _ _ _ this]
  have "fst ` set ?ss = insert (tr_from tx) (fst ` set ss)" "fst ` set ?rs = insert (tr_to tx) (fst ` set rs)"
    by (auto simp: keys_set map_contains_def)
  moreover have "Min (insert ?mn (tr_amount ` set txs)) = Min (insert mn (tr_amount ` set (tx # txs)))"
    by (cases "txs = []") (auto simp: min_def)
  moreover have "Max (insert ?mx (tr_amount ` set txs)) = Max (insert mx (tr_amount ` set (tx # txs)))"
    by (cases "txs = []") (auto simp: max_def)
  ultimately show ?case using ih Cons.prems(2-4) by (auto simp: algebra_simps)
qed auto

lemma keys_card: "map_ok m \<Longrightarrow> length m = card (fst ` set m)"
  using distinct_card [OF map_ok_distinct, of m] by simp

text \<open>Batch metrics.  For a nonempty batch without negative amounts whose volume fits into \<open>i128\<close>, the volume is
  the sum, the average its quotient by the number of transactions rounded down, minimum and maximum are those of
  the amounts and enclose the average, and the unique senders and recipients are the distinct addresses.\<close>

theorem batch_metrics_exact:
  assumes "compute_batch_metrics s txs now = Inr m" and "txs \<noteq> []" and "amounts_ok txs"
  shows "bm_tx_count m = length txs \<and> bm_total_volume m = volume txs
    \<and> bm_avg_amount m = volume txs div int (length txs)
    \<and> bm_min_amount m = Min (tr_amount ` set txs) \<and> bm_max_amount m = Max (tr_amount ` set txs)
    \<and> bm_min_amount m \<le> bm_avg_amount m \<and> bm_avg_amount m \<le> bm_max_amount m
    \<and> bm_unique_senders m = card (tr_from ` set txs) \<and> bm_unique_recipients m = card (tr_to ` set txs)
    \<and> bm_processed_at m = now"
proof -
  from assms(1,2) obtain v f mn mx ss rs where
    fold: "fold_trap (metrics_step s) txs (0, 0, i128_max, i128_min, [], []) = Inr (v, f, mn, mx, ss, rs)"
    and m: "m = \<lparr>bm_tx_count = length txs, bm_total_volume = v, bm_avg_amount = quot v (int (length txs)),
       bm_min_amount = mn, bm_max_amount = mx, bm_unique_senders = length ss, bm_unique_recipients = length rs,
       bm_total_fees = f, bm_processed_at = now\<rparr>"
    by (auto simp: compute_batch_metrics_def Let_def split: sum.splits prod.splits)
  let ?A = "tr_amount ` set txs"
  have A: "finite ?A" "?A \<noteq> {}" using assms(2) by auto
  have bound: "0 \<le> a \<and> a \<le> i128_max" if "a \<in> ?A" for a using amount_bound [OF assms(3)] that by blast
  have "\<forall>tx\<in>set txs. 0 \<le> tr_amount tx" "volume txs \<le> i128_max" using assms(3) by (auto simp: amounts_ok_def)
  with metrics_fold [OF fold] have r: "v = volume txs" "mn = Min (insert i128_max ?A)" "mx = Max (insert i128_min ?A)"
    "map_ok ss" "fst ` set ss = tr_from ` set txs" "map_ok rs" "fst ` set rs = tr_to ` set txs" by auto
  have "Min ?A \<le> i128_max" using bound [OF Min_in [OF A]] by simp
  then have mn: "mn = Min ?A" unfolding r(2) Min_insert [OF A] by (rule min_absorb2)
  have "i128_min \<le> Max ?A" using bound [OF Max_in [OF A]] by simp
  then have mx: "mx = Max ?A" unfolding r(3) Max_insert [OF A] by (rule max_absorb2)
  have n: "0 < int (length txs)" using assms(2) by simp
  have "Min ?A * int (length txs) \<le> volume txs"
    using sum_list_mono [of txs "\<lambda>_. Min ?A" tr_amount] A by (simp add: sum_list_triv mult.commute)
  then have "Min ?A \<le> volume txs div int (length txs)" using n
    by (metis nonzero_mult_div_cancel_right less_irrefl zdiv_mono1)
  moreover have "volume txs \<le> Max ?A * int (length txs)"
    using sum_list_mono [of txs tr_amount "\<lambda>_. Max ?A"] A by (simp add: sum_list_triv mult.commute)
  then have "volume txs div int (length txs) \<le> Max ?A" using n
    by (metis nonzero_mult_div_cancel_right less_irrefl zdiv_mono1)
  moreover have "quot (volume txs) (int (length txs)) = volume txs div int (length txs)"
    using volume_nonneg [OF assms(3)] n by (simp add: quot_pos)
  ultimately show ?thesis using mn mx keys_card [OF r(4)] keys_card [OF r(6)] by (simp add: m r(1,5,7))
qed

section \<open>The categories partition the batch\<close>

definition in_category :: "symbol \<Rightarrow> transaction list \<Rightarrow> transaction list" where
  "in_category c txs = filter (\<lambda>tx. tr_category tx = c) txs"

lemma in_category_simps [simp]:
  "in_category c [] = []" "in_category c (txs @ txs') = in_category c txs @ in_category c txs'"
  "in_category c (tx # txs) = (if tr_category tx = c then tx # in_category c txs else in_category c txs)"
  by (simp_all add: in_category_def)

lemma volume_split: "amounts_ok (txs @ txs') \<Longrightarrow> amounts_ok txs"
proof -
  assume a: "amounts_ok (txs @ txs')"
  then have "0 \<le> volume txs'" by (auto simp: amounts_ok_def intro!: sum_list_nonneg)
  with a show ?thesis by (auto simp: amounts_ok_def)
qed

lemma category_volume: "amounts_ok txs \<Longrightarrow> 0 \<le> volume (in_category c txs) \<and> volume (in_category c txs) \<le> volume txs"
proof -
  assume "amounts_ok txs"
  then have "\<forall>tx\<in>set txs. 0 \<le> tr_amount tx" by (simp add: amounts_ok_def)
  then show ?thesis by (induction txs) auto
qed

definition categorised :: "transaction list \<Rightarrow> category_map \<Rightarrow> bool" where
  "categorised txs m \<longleftrightarrow> map_ok m \<and> fst ` set m = tr_category ` set txs
    \<and> (\<forall>c n v f. map_of m c = Some (n, v, f) \<longrightarrow> n = length (in_category c txs) \<and> v = volume (in_category c txs))"

lemma category_step_inv:
  assumes "categorised txs m" and "category_step s tx m = Inr m'" and "amounts_ok (txs @ [tx])"
  shows "categorised (txs @ [tx]) m'"
proof -
  let ?c = "tr_category tx"
  obtain n v f where old: "unwrap_or (map_of m ?c) (0, 0, 0) = (n, v, f)" by (cases "unwrap_or (map_of m ?c) (0, 0, 0)")
  have fresh: "in_category ?c txs = []" if "map_of m ?c = None"
  proof -
    from that assms(1) have "?c \<notin> tr_category ` set txs" by (simp add: categorised_def map_of_eq_None_iff)
    then show ?thesis by (simp add: in_category_def image_iff eq_commute)
  qed
  have nv: "n = length (in_category ?c txs) \<and> v = volume (in_category ?c txs)"
  proof (cases "map_of m ?c")
    case None
    with old fresh show ?thesis by simp
  next
    case (Some e)
    with old have "map_of m ?c = Some (n, v, f)" by simp
    with assms(1) show ?thesis by (simp add: categorised_def)
  qed
  have "in_i128 (v + tr_amount tx)"
    using category_volume [OF assms(3), of ?c] assms(3) by (simp add: nv amounts_ok_def in_i128_def)
  with assms(2) obtain fee where m': "m' = map_set ?c (n + 1, v + tr_amount tx, add_or_max f fee) m"
    by (auto simp: category_step_def old split: sum.splits)
  from assms(1) show ?thesis unfolding categorised_def m'
    by (auto simp: map_ok_set keys_set map_of_set nv split: if_splits)
qed

lemma category_fold:
  assumes "fold_trap (category_step s) txs' m = Inr m'" and "categorised txs m" and "amounts_ok (txs @ txs')"
  shows "categorised (txs @ txs') m'"
  using assms
proof (induction txs' arbitrary: txs m)
  case (Cons tx txs')
  then obtain m1 where step: "category_step s tx m = Inr m1" and rest: "fold_trap (category_step s) txs' m1 = Inr m'"
    by (auto split: sum.splits)
  have "amounts_ok (txs @ [tx])" using Cons.prems(3) volume_split [of "txs @ [tx]" txs'] by simp
  then have "categorised (txs @ [tx]) m1" by (rule category_step_inv [OF Cons.prems(2) step])
  from Cons.IH [OF rest this] Cons.prems(3) show ?case by simp
qed simp

lemma category_entries:
  assumes "fold_trap (category_entry tv) m acc = Inr out" and "0 < tv"
  shows "out = acc @ map (\<lambda>(c, n, v, f). \<lparr>cm_category = c, cm_tx_count = n, cm_total_volume = v, cm_total_fees = f,
    cm_volume_percentage_bps = as_u32 (quot (v * 10000) tv)\<rparr>) m"
  using assms(1)
proof (induction m arbitrary: acc)
  case (Cons e m)
  obtain c n v f where e: "e = (c, n, v, f)" by (cases e) auto
  from Cons.prems assms(2) have "fold_trap (category_entry tv) m (acc @ [\<lparr>cm_category = c, cm_tx_count = n,
      cm_total_volume = v, cm_total_fees = f, cm_volume_percentage_bps = as_u32 (quot (v * 10000) tv)\<rparr>]) = Inr out"
    by (auto simp: e category_entry_def [of tv "(c, n, v, f)"] split: option.splits)
  from Cons.IH [OF this] show ?case by (simp add: e)
qed simp

lemma category_sums:
  assumes "finite C" and "tr_category ` set txs \<subseteq> C"
  shows "(\<Sum>c\<in>C. length (in_category c txs)) = length txs" "(\<Sum>c\<in>C. volume (in_category c txs)) = volume txs"
proof -
  have "(\<Sum>c\<in>C. length (in_category c txs)) = length txs \<and> (\<Sum>c\<in>C. volume (in_category c txs)) = volume txs"
    using assms(2)
  proof (induction txs)
    case (Cons tx txs)
    have "(\<Sum>c\<in>C. length (in_category c (tx # txs))) = (\<Sum>c\<in>C. (if tr_category tx = c then 1 else 0) + length (in_category c txs))"
      "(\<Sum>c\<in>C. volume (in_category c (tx # txs))) = (\<Sum>c\<in>C. (if tr_category tx = c then tr_amount tx else 0) + volume (in_category c txs))"
      by (intro sum.cong; simp)+
    with Cons assms(1) show ?case by (simp add: sum.distrib)
  qed simp
  then show "(\<Sum>c\<in>C. length (in_category c txs)) = length txs" "(\<Sum>c\<in>C. volume (in_category c txs)) = volume txs" by simp_all
qed

lemma sum_by_category:
  "map_ok m \<Longrightarrow> fst ` set m = C \<Longrightarrow> (\<Sum>e\<leftarrow>m. g (fst e)) = (\<Sum>c\<in>C. g c)" for g :: "symbol \<Rightarrow> 'b :: comm_monoid_add"
  using sum_list_distinct_conv_sum_set [OF map_ok_distinct, of m g] by (simp add: o_def)

lemma floor_sum:
  fixes tv :: int
  assumes "finite C" and "0 < tv" and "(\<Sum>c\<in>C. v c) = tv"
  shows "(\<Sum>c\<in>C. v c * 10000 div tv) \<le> 10000 \<and> 10000 \<le> (\<Sum>c\<in>C. v c * 10000 div tv) + int (card C)"
proof -
  have "tv * (\<Sum>c\<in>C. v c * 10000 div tv) = (\<Sum>c\<in>C. tv * (v c * 10000 div tv))" by (simp add: sum_distrib_left)
  moreover have dm: "v c * 10000 = tv * (v c * 10000 div tv) + v c * 10000 mod tv" "0 \<le> v c * 10000 mod tv" "v c * 10000 mod tv < tv" for c
    using assms(2) by simp_all
  have "tv * (v c * 10000 div tv) \<le> v c * 10000" "v c * 10000 \<le> tv * (v c * 10000 div tv) + tv" for c
    using dm [of c] by linarith+
  then have "(\<Sum>c\<in>C. tv * (v c * 10000 div tv)) \<le> (\<Sum>c\<in>C. v c * 10000)"
    "(\<Sum>c\<in>C. v c * 10000) \<le> (\<Sum>c\<in>C. tv * (v c * 10000 div tv) + tv)" by (simp_all only: sum_mono)
  moreover have "(\<Sum>c\<in>C. v c * 10000) = tv * 10000" using assms(3) by (simp add: sum_distrib_right [symmetric])
  moreover have "(\<Sum>c\<in>C. tv * (v c * 10000 div tv) + tv) = tv * (\<Sum>c\<in>C. v c * 10000 div tv) + int (card C) * tv"
    by (simp add: sum.distrib sum_distrib_left)
  ultimately have "tv * (\<Sum>c\<in>C. v c * 10000 div tv) \<le> tv * 10000"
    "tv * 10000 \<le> tv * ((\<Sum>c\<in>C. v c * 10000 div tv) + int (card C))" by (simp_all add: distrib_left mult.commute)
  with assms(2) show ?thesis by simp
qed

text \<open>The categories partition the batch.  For a batch without negative amounts and with a positive volume that
  fits into \<open>i128\<close>, the breakdown has one entry per category, in ascending order, with its number of
  transactions, its volume and its share in basis points rounded down; counts and volumes add up to those of the
  batch, and the shares to at most 10000, missing at most one basis point per category.\<close>

theorem categories_partition:
  assumes "compute_category_metrics s txs (volume txs) = Inr cms" and "amounts_ok txs" and "0 < volume txs"
  shows "sorted_wrt (<) (map cm_category cms) \<and> set (map cm_category cms) = tr_category ` set txs
    \<and> (\<forall>cm\<in>set cms. cm_tx_count cm = length (in_category (cm_category cm) txs)
         \<and> cm_total_volume cm = volume (in_category (cm_category cm) txs)
         \<and> int (cm_volume_percentage_bps cm) = cm_total_volume cm * 10000 div volume txs)
    \<and> sum_list (map cm_tx_count cms) = length txs \<and> sum_list (map cm_total_volume cms) = volume txs
    \<and> sum_list (map cm_volume_percentage_bps cms) \<le> 10000
    \<and> 10000 \<le> sum_list (map cm_volume_percentage_bps cms) + length cms"
proof -
  let ?tv = "volume txs" and ?C = "tr_category ` set txs"
  from assms(1) obtain m where fold: "fold_trap (category_step s) txs [] = Inr m"
    and entries: "fold_trap (category_entry ?tv) m [] = Inr cms"
    by (auto simp: compute_category_metrics_def split: sum.splits)
  have "categorised ([] @ txs) m"
    by (rule category_fold [OF fold]) (use assms(2) in \<open>simp_all add: categorised_def\<close>)
  then have ok: "map_ok m" and keys: "fst ` set m = ?C"
    and vals: "\<And>c n v f. map_of m c = Some (n, v, f) \<Longrightarrow> n = length (in_category c txs) \<and> v = volume (in_category c txs)"
    by (auto simp: categorised_def)
  define row where "row = (\<lambda>(c :: symbol, n :: nat, v :: int, f :: int). \<lparr>cm_category = c, cm_tx_count = n, cm_total_volume = v,
    cm_total_fees = f, cm_volume_percentage_bps = as_u32 (quot (v * 10000) ?tv)\<rparr>)"
  have cms: "cms = map row m" using category_entries [OF entries assms(3)] by (simp add: row_def)
  have row: "cm_category (row e) = fst e \<and> cm_tx_count (row e) = length (in_category (fst e) txs)
      \<and> cm_total_volume (row e) = volume (in_category (fst e) txs)
      \<and> int (cm_volume_percentage_bps (row e)) = volume (in_category (fst e) txs) * 10000 div ?tv" if e: "e \<in> set m" for e
  proof -
    obtain c n v f where e_eq: "e = (c, n, v, f)" by (cases e) auto
    have "map_of m c = Some (n, v, f)" using map_of_is_SomeI [OF map_ok_distinct [OF ok]] e by (simp add: e_eq)
    from vals [OF this] have nv: "n = length (in_category c txs)" "v = volume (in_category c txs)" by simp_all
    have "0 \<le> v" "v \<le> ?tv" using category_volume [OF assms(2), of c] by (simp_all add: nv)
    note r = rate_bounds [OF this assms(3)]
    show ?thesis using r by (simp add: e_eq row_def nv [symmetric] as_u32_small)
  qed
  have 1: "map cm_category cms = map fst m" by (simp add: cms row)
  have 2: "map cm_tx_count cms = map (\<lambda>e. length (in_category (fst e) txs)) m" by (simp add: cms row)
  have 3: "map cm_total_volume cms = map (\<lambda>e. volume (in_category (fst e) txs)) m" by (simp add: cms row)
  have 4: "map (int \<circ> cm_volume_percentage_bps) cms = map (\<lambda>e. volume (in_category (fst e) txs) * 10000 div ?tv) m"
    by (simp add: cms row)
  have C: "finite ?C" by simp
  have len: "length cms = card ?C" using keys_card [OF ok] by (simp add: cms keys)
  have "int (sum_list (map cm_volume_percentage_bps cms)) = (\<Sum>c\<in>?C. volume (in_category c txs) * 10000 div ?tv)"
    using sum_by_category [OF ok keys, of "\<lambda>c. volume (in_category c txs) * 10000 div ?tv"] 4
    by (simp add: int_sum [symmetric] o_def)
  with floor_sum [OF C assms(3) category_sums(2) [OF C order_refl]]
  have "sum_list (map cm_volume_percentage_bps cms) \<le> 10000 \<and> 10000 \<le> sum_list (map cm_volume_percentage_bps cms) + length cms"
    unfolding len by linarith
  moreover have "sorted_wrt (<) (map cm_category cms)" "set (map cm_category cms) = ?C"
    using ok keys unfolding 1 by (simp_all add: map_ok_def)
  moreover have "\<forall>cm\<in>set cms. cm_tx_count cm = length (in_category (cm_category cm) txs)
         \<and> cm_total_volume cm = volume (in_category (cm_category cm) txs)
         \<and> int (cm_volume_percentage_bps cm) = cm_total_volume cm * 10000 div ?tv" by (auto simp: cms row)
  moreover have "sum_list (map cm_tx_count cms) = length txs" "sum_list (map cm_total_volume cms) = ?tv"
    unfolding 2 3 using sum_by_category [OF ok keys, of "\<lambda>c. length (in_category c txs)"]
      sum_by_category [OF ok keys, of "\<lambda>c. volume (in_category c txs)"] category_sums [OF C order_refl] by simp_all
  ultimately show ?thesis by blast
qed

theorem batch_metrics_exact_witness:
  "\<exists>m. compute_batch_metrics store_fresh [\<lparr>tr_tx_id = 1, tr_from = Addr 1, tr_to = Addr 2, tr_amount = 100, tr_timestamp = 5,
      tr_category = ''food''\<rparr>, \<lparr>tr_tx_id = 2, tr_from = Addr 1, tr_to = Addr 3, tr_amount = 201, tr_timestamp = 6,
      tr_category = ''rent''\<rparr>] 9 = Inr m \<and> bm_avg_amount m = 150 \<and> bm_unique_senders m = 1"
proof -
  let ?txs = "[\<lparr>tr_tx_id = 1, tr_from = Addr 1, tr_to = Addr 2, tr_amount = 100, tr_timestamp = 5,
      tr_category = ''food''\<rparr>, \<lparr>tr_tx_id = 2, tr_from = Addr 1, tr_to = Addr 3, tr_amount = 201, tr_timestamp = 6,
      tr_category = ''rent''\<rparr>]"
  have ok: "amounts_ok ?txs" by (simp add: amounts_ok_def)
  have fee: "calculate_fee store_fresh n c = Inr (if n \<le> 0 then 0 else quot n 1000)" for n c
    by (simp add: calculate_fee_def get_current_fee_config_def get_operation_fee_config_def store_fresh_def)
  have "\<exists>m. compute_batch_metrics store_fresh ?txs 9 = Inr m"
    by (simp add: compute_batch_metrics_def metrics_step_def fee)
  then obtain m where m: "compute_batch_metrics store_fresh ?txs 9 = Inr m" ..
  from batch_metrics_exact [OF m _ ok] have "bm_avg_amount m = 150 \<and> bm_unique_senders m = 1" by simp
  with m show ?thesis by blast
qed

theorem categories_partition_witness:
  "\<exists>cms. compute_category_metrics store_fresh [\<lparr>tr_tx_id = 1, tr_from = Addr 1, tr_to = Addr 2, tr_amount = 100, tr_timestamp = 5,
      tr_category = ''rent''\<rparr>, \<lparr>tr_tx_id = 2, tr_from = Addr 1, tr_to = Addr 3, tr_amount = 200, tr_timestamp = 6,
      tr_category = ''food''\<rparr>] 300 = Inr cms \<and> sum_list (map cm_total_volume cms) = 300"
proof -
  let ?txs = "[\<lparr>tr_tx_id = 1, tr_from = Addr 1, tr_to = Addr 2, tr_amount = 100, tr_timestamp = 5,
      tr_category = ''rent''\<rparr>, \<lparr>tr_tx_id = 2, tr_from = Addr 1, tr_to = Addr 3, tr_amount = 200, tr_timestamp = 6,
      tr_category = ''food''\<rparr>]"
  have ok: "amounts_ok ?txs" by (simp add: amounts_ok_def)
  have fee: "calculate_fee store_fresh n c = Inr (if n \<le> 0 then 0 else quot n 1000)" for n c
    by (simp add: calculate_fee_def get_current_fee_config_def get_operation_fee_config_def store_fresh_def)
  have fits: "add_or_max 0 n = n" if "in_i128 n" for n using that by (simp add: add_or_max_def checked_add_def)
  have ord: "\<not> ''food'' < ''food''" "''food'' < ''rent''" by (simp_all add: less_char_def)
  have "\<exists>cms. compute_category_metrics store_fresh ?txs (volume ?txs) = Inr cms"
    by (simp add: compute_category_metrics_def category_step_def category_entry_def fee ord fits in_i128_def checked_mul_def
      quot_def)
  then obtain cms where cms: "compute_category_metrics store_fresh ?txs (volume ?txs) = Inr cms" ..
  from categories_partition [OF cms ok] have "sum_list (map cm_total_volume cms) = 300" by simp
  with cms show ?thesis by auto
qed

section \<open>Refund batches\<close>

definition refundable :: "(nat \<rightharpoonup> transaction) \<Rightarrow> (nat \<rightharpoonup> bool) \<Rightarrow> nat \<Rightarrow> bool" where
  "refundable lookup refunded i \<longleftrightarrow> refunded i = None \<and> odd i \<and> lookup i \<noteq> None"

lemma refund_step_answer:
  "\<exists>r. refund_step lookup (results, refunded) rq = (results @ [r], if refundable lookup refunded (rq_tx_id rq) then refunded(rq_tx_id rq \<mapsto> True) else refunded)
    \<and> re_tx_id r = rq_tx_id rq \<and> (re_success r \<longleftrightarrow> refundable lookup refunded (rq_tx_id rq))
    \<and> (re_success r \<longrightarrow> lookup (rq_tx_id rq) = Some tx \<longrightarrow> re_amount_refunded r = tr_amount tx)"
  by (auto simp: refund_step_def refundable_def validate_refund_eligibility_def Let_def odd_iff_mod_2_eq_one split: option.splits)

text \<open>Every request is answered, in order; an identifier is refunded by the first request for it that finds it
  refundable, and by no other.\<close>

lemma process_refunds:
  assumes "foldl (refund_step lookup) (results, refunded) rqs = (results', refunded')"
  shows "\<exists>rs. results' = results @ rs \<and> map re_tx_id rs = map rq_tx_id rqs
    \<and> distinct (map re_tx_id (filter re_success rs))
    \<and> (\<forall>r\<in>set rs. re_success r \<longrightarrow> refundable lookup refunded (re_tx_id r))
    \<and> (\<forall>i. refunded' i \<noteq> None \<longleftrightarrow> refunded i \<noteq> None \<or> i \<in> re_tx_id ` set (filter re_success rs))"
  using assms
proof (induction rqs arbitrary: results refunded)
  case (Cons rq rqs)
  let ?i = "rq_tx_id rq"
  let ?ref = "if refundable lookup refunded ?i then refunded(?i \<mapsto> True) else refunded"
  obtain r where step: "refund_step lookup (results, refunded) rq = (results @ [r], ?ref)"
    and r: "re_tx_id r = ?i" "re_success r \<longleftrightarrow> refundable lookup refunded ?i" using refund_step_answer by blast
  from Cons.prems have "foldl (refund_step lookup) (results @ [r], ?ref) rqs = (results', refunded')" by (simp add: step)
  from Cons.IH [OF this] obtain rs where rs: "results' = (results @ [r]) @ rs" "map re_tx_id rs = map rq_tx_id rqs"
    "distinct (map re_tx_id (filter re_success rs))" "\<forall>q\<in>set rs. re_success q \<longrightarrow> refundable lookup ?ref (re_tx_id q)"
    "\<forall>i. refunded' i \<noteq> None \<longleftrightarrow> ?ref i \<noteq> None \<or> i \<in> re_tx_id ` set (filter re_success rs)" by blast
  have later: "re_success q \<Longrightarrow> refundable lookup refunded (re_tx_id q) \<and> (re_success r \<longrightarrow> re_tx_id q \<noteq> ?i)" if "q \<in> set rs" for q
    using rs(4) that r(2) by (auto simp: refundable_def split: if_splits)
  have "refunded' i \<noteq> None \<longleftrightarrow> refunded i \<noteq> None \<or> i \<in> re_tx_id ` set (filter re_success (r # rs))" for i
    using rs(5) r by (auto split: if_splits)
  moreover have "distinct (map re_tx_id (filter re_success (r # rs)))" using rs(3) r(1) later by (fastforce simp: image_iff)
  moreover have "\<forall>q\<in>set (r # rs). re_success q \<longrightarrow> refundable lookup refunded (re_tx_id q)" using later r by auto
  moreover have "map re_tx_id (r # rs) = map rq_tx_id (rq # rqs)" using rs(2) r(1) by simp
  moreover have "results' = results @ (r # rs)" using rs(1) by simp
  ultimately show ?case by blast
qed simp

section \<open>Monthly spending is exact\<close>

definition first_seen :: "'a list \<Rightarrow> 'a list" where
  "first_seen xs = rev (remdups (rev xs))"

lemma first_seen_snoc: "first_seen (xs @ [x]) = (if x \<in> set xs then first_seen xs else first_seen xs @ [x])"
  by (simp add: first_seen_def)

lemma first_seen_set [simp]: "set (first_seen xs) = set xs" "distinct (first_seen xs)"
  by (simp_all add: first_seen_def)

lemma update_category_map:
  "distinct cs \<Longrightarrow> update_category_spending (map (\<lambda>c. (c, g c)) cs) k a
    = map (\<lambda>c. (c, if c = k then add_or_max (g c) a else g c)) cs @ (if k \<in> set cs then [] else [(k, a)])"
  by (induction cs) auto

lemma monthly_step_simps:
  "tr_from tx = user \<Longrightarrow> monthly_step user (t, n, sp) tx =
     (add_or_max t (tr_amount tx), n + 1, update_category_spending sp (tr_category tx) (tr_amount tx))"
  "tr_from tx \<noteq> user \<Longrightarrow> monthly_step user acc tx = acc"
  by (auto simp: monthly_step_def split: prod.splits)

lemma volume_category_snoc:
  "volume (in_category c (txs @ [tx])) = volume (in_category c txs) + (if tr_category tx = c then tr_amount tx else 0)"
  by simp

lemma monthly_fold:
  assumes "amounts_ok txs"
  shows "foldl (monthly_step user) (0, 0, []) txs = (let own = filter (\<lambda>tx. tr_from tx = user) txs in
    (volume own, length own, map (\<lambda>c. (c, volume (in_category c own))) (first_seen (map tr_category own))))"
  using assms
proof (induction txs rule: rev_induct)
  case (snoc tx txs)
  let ?own = "filter (\<lambda>tx. tr_from tx = user) txs"
  have ih: "foldl (monthly_step user) (0, 0, []) txs =
      (volume ?own, length ?own, map (\<lambda>c. (c, volume (in_category c ?own))) (first_seen (map tr_category ?own)))"
    using snoc.IH volume_split [OF snoc.prems] by (simp add: Let_def)
  show ?case
  proof (cases "tr_from tx = user")
    case True
    let ?k = "tr_category tx"
    have "volume ?own \<le> volume txs" "amounts_ok ?own"
    proof -
      have "\<forall>tx\<in>set txs. 0 \<le> tr_amount tx" "volume txs \<le> i128_max" using volume_split [OF snoc.prems] by (auto simp: amounts_ok_def)
      then have "volume ?own \<le> volume txs" by (induction txs) auto
      with volume_split [OF snoc.prems] show "volume ?own \<le> volume txs" "amounts_ok ?own" by (auto simp: amounts_ok_def)
    qed
    then have fits: "in_i128 (volume ?own + tr_amount tx)" "in_i128 (volume (in_category ?k ?own) + tr_amount tx)"
      using snoc.prems category_volume [of ?own ?k] volume_nonneg [of ?own]
      by (auto simp: amounts_ok_def in_i128_def)
    have "in_category ?k ?own = []" if "?k \<notin> set (map tr_category ?own)"
      using that by (simp add: in_category_def filter_empty_conv image_iff eq_commute [of ?k])
    with fits have "map (\<lambda>c. (c, if c = ?k then add_or_max (volume (in_category c ?own)) (tr_amount tx) else volume (in_category c ?own)))
        (first_seen (map tr_category ?own)) @ (if ?k \<in> set (map tr_category ?own) then [] else [(?k, tr_amount tx)])
      = map (\<lambda>c. (c, volume (in_category c (?own @ [tx])))) (first_seen (map tr_category ?own @ [?k]))"
      unfolding volume_category_snoc first_seen_snoc by auto
    with fits True show ?thesis
      by (simp add: ih monthly_step_simps Let_def update_category_map del: in_category_simps)
  qed (simp add: ih monthly_step_simps Let_def)
qed (simp add: first_seen_def)

text \<open>Monthly spending.  For transactions without negative amounts whose volume fits into \<open>i128\<close>, the analytics of
  a user hold the sum and the number of the own transactions and one entry per own category, in the order of first
  appearance, with its sum.\<close>

theorem monthly_analytics_exact:
  assumes "amounts_ok txs"
  shows "let own = filter (\<lambda>tx. tr_from tx = user) txs; a = compute_monthly_analytics user txs year month in
     ms_user a = user \<and> ms_year a = year \<and> ms_month a = month
   \<and> ms_total_spending a = volume own \<and> ms_transaction_count a = length own
   \<and> ms_category_spending a = map (\<lambda>c. (c, volume (in_category c own))) (first_seen (map tr_category own))"
  using monthly_fold [OF assms, of user] by (simp add: compute_monthly_analytics_def Let_def)

theorem monthly_analytics_exact_witness:
  "ms_category_spending (compute_monthly_analytics (Addr 1)
     [\<lparr>tr_tx_id = 1, tr_from = Addr 1, tr_to = Addr 2, tr_amount = 100, tr_timestamp = 5, tr_category = ''rent''\<rparr>,
      \<lparr>tr_tx_id = 2, tr_from = Addr 4, tr_to = Addr 3, tr_amount = 200, tr_timestamp = 6, tr_category = ''food''\<rparr>,
      \<lparr>tr_tx_id = 3, tr_from = Addr 1, tr_to = Addr 3, tr_amount = 50, tr_timestamp = 7, tr_category = ''rent''\<rparr>] 2026 3)
   = [(''rent'', 150)]"
proof -
  let ?txs = "[\<lparr>tr_tx_id = 1, tr_from = Addr 1, tr_to = Addr 2, tr_amount = 100, tr_timestamp = 5, tr_category = ''rent''\<rparr>,
      \<lparr>tr_tx_id = 2, tr_from = Addr 4, tr_to = Addr 3, tr_amount = 200, tr_timestamp = 6, tr_category = ''food''\<rparr>,
      \<lparr>tr_tx_id = 3, tr_from = Addr 1, tr_to = Addr 3, tr_amount = 50, tr_timestamp = 7, tr_category = ''rent''\<rparr>]"
  have "amounts_ok ?txs" by (simp add: amounts_ok_def)
  from monthly_analytics_exact [OF this, of "Addr 1" 2026 3] show ?thesis by (simp add: Let_def first_seen_def)
qed

end
