(* ===== verification/Transaction_Analytics.thy ===== *)
theory Transaction_Analytics
  imports Batch_Analytics
begin

text \<open>
  \<open>contracts/transaction-analytics/src\<close> (\<open>lib.rs\<close>, \<open>validation.rs\<close>): the entry points.  In the validation
  functions \<open>ContractError err\<close> is the returned \<open>Err(err)\<close> and \<open>ArithTrap\<close> an overflow; \<open>refuse\<close> turns
  their errors into those of the contract.
\<close>

section \<open>Validation (validation.rs)\<close>

type_synonym 'a checked = "validation_error trap + 'a"

definition validate_address :: "address \<Rightarrow> unit checked" where
  "validate_address a = Inr ()"

definition validate_amount :: "int \<Rightarrow> unit checked" where
  "validate_amount amount = (if amount \<le> 0 then Inl (ContractError InvalidAmount) else Inr ())"

definition validate_amounts :: "int list \<Rightarrow> unit checked" where
  "validate_amounts amounts = fold_trap (\<lambda>amount _. validate_amount amount) amounts ()"

definition validate_transaction :: "transaction \<Rightarrow> unit checked" where
  "validate_transaction tx =
    (case validate_address (tr_from tx) of Inl t \<Rightarrow> Inl t | Inr _ \<Rightarrow>
     case validate_address (tr_to tx) of Inl t \<Rightarrow> Inl t | Inr _ \<Rightarrow>
     case validate_amount (tr_amount tx) of Inl t \<Rightarrow> Inl t | Inr _ \<Rightarrow>
     let current_ledger = tr_timestamp tx in
     case u64_add current_ledger 100000 of None \<Rightarrow> Inl ArithTrap | Some bound \<Rightarrow>
     if bound < tr_timestamp tx then Inl (ContractError InvalidTimestamp) else Inr ())"

definition validate_size :: "nat \<Rightarrow> unit checked" where
  "validate_size n = (if n = 0 then Inl (ContractError EmptyBatch) else
     if 100 < n then Inl (ContractError BatchTooLarge) else Inr ())"

definition validate_transactions :: "transaction list \<Rightarrow> unit checked" where
  "validate_transactions txs = (case validate_size (length txs) of Inl t \<Rightarrow> Inl t | Inr _ \<Rightarrow>
     fold_trap (\<lambda>tx _. validate_transaction tx) txs ())"

definition validate_refund_request :: "refund_request \<Rightarrow> unit checked" where
  "validate_refund_request rq = (if rq_tx_id rq = 0 then Inl (ContractError InvalidTransactionId) else Inr ())"

definition has_duplicate_tx_id_in_refunds :: "refund_request list \<Rightarrow> nat \<Rightarrow> nat \<Rightarrow> bool" where
  "has_duplicate_tx_id_in_refunds requests index tx_id =
    list_ex (\<lambda>(other_index, rq). other_index \<noteq> index \<and> rq_tx_id rq = tx_id) (enumerate 0 requests)"

definition validate_refund_requests :: "refund_request list \<Rightarrow> unit checked" where
  "validate_refund_requests requests = (case validate_size (length requests) of Inl t \<Rightarrow> Inl t | Inr _ \<Rightarrow>
     fold_trap (\<lambda>(index, rq) _.
       if has_duplicate_tx_id_in_refunds requests index (rq_tx_id rq) then Inl (ContractError DuplicateTransactionId)
       else validate_refund_request rq) (enumerate 0 requests) ())"

definition validate_rating_input :: "rating_input \<Rightarrow> unit checked" where
  "validate_rating_input rating =
    (if ri_tx_id rating = 0 then Inl (ContractError InvalidTransactionId) else
     if ri_score rating = 0 \<or> 5 < ri_score rating then Inl (ContractError InvalidRating) else Inr ())"

definition validate_rating_inputs :: "rating_input list \<Rightarrow> unit checked" where
  "validate_rating_inputs inputs = (case validate_size (length inputs) of Inl t \<Rightarrow> Inl t | Inr _ \<Rightarrow>
     fold_trap (\<lambda>input _. validate_rating_input input) inputs ())"

definition validate_transaction_status_update :: "transaction_status_update \<Rightarrow> unit checked" where
  "validate_transaction_status_update u = (if su_tx_id u = 0 then Inl (ContractError InvalidTransactionId) else Inr ())"

definition has_duplicate_tx_id_in_status_updates :: "transaction_status_update list \<Rightarrow> nat \<Rightarrow> nat \<Rightarrow> bool" where
  "has_duplicate_tx_id_in_status_updates updates index tx_id =
    list_ex (\<lambda>(other_index, u). other_index \<noteq> index \<and> su_tx_id u = tx_id) (enumerate 0 updates)"

definition validate_transaction_status_updates :: "transaction_status_update list \<Rightarrow> unit checked" where
  "validate_transaction_status_updates updates = (case validate_size (length updates) of Inl t \<Rightarrow> Inl t | Inr _ \<Rightarrow>
     fold_trap (\<lambda>(index, u) _.
       if has_duplicate_tx_id_in_status_updates updates index (su_tx_id u) then Inl (ContractError DuplicateTransactionId)
       else validate_transaction_status_update u) (enumerate 0 updates) ())"

definition validate_bundled_transaction :: "bundled_transaction \<Rightarrow> unit checked" where
  "validate_bundled_transaction b = (case validate_transaction (bt_transaction b) of Inl t \<Rightarrow> Inl t | Inr _ \<Rightarrow>
     if tr_from (bt_transaction b) = tr_to (bt_transaction b) then Inl (ContractError SameAddress) else Inr ())"

definition validate_bundled_transactions :: "bundled_transaction list \<Rightarrow> unit checked" where
  "validate_bundled_transactions bs = (case validate_size (length bs) of Inl t \<Rightarrow> Inl t | Inr _ \<Rightarrow>
     fold_trap (\<lambda>b _. validate_bundled_transaction b) bs ())"

definition validate_user_address :: "address \<Rightarrow> unit checked" where
  "validate_user_address user = validate_address user"

definition validate_year_month :: "nat \<Rightarrow> nat \<Rightarrow> unit checked" where
  "validate_year_month year month =
    (if year < 2000 \<or> 2100 < year then Inl (ContractError InvalidYear) else
     if month < 1 \<or> 12 < month then Inl (ContractError InvalidMonth) else Inr ())"

definition validate_percentage_basis_points :: "nat \<Rightarrow> unit checked" where
  "validate_percentage_basis_points bps = (if 10000 < bps then Inl (ContractError InvalidPercentage) else Inr ())"

definition validate_different_addresses :: "address \<Rightarrow> address \<Rightarrow> unit checked" where
  "validate_different_addresses a b = (if a = b then Inl (ContractError SameAddress) else Inr ())"

definition validate_asset_type :: "string \<Rightarrow> unit checked" where
  "validate_asset_type asset = (if asset = '''' then Inl (ContractError InvalidCategory) else Inr ())"

definition validate_asset_amount :: "string \<Rightarrow> int \<Rightarrow> unit checked" where
  "validate_asset_amount asset amount = validate_amount amount"

definition validate_asset_amounts :: "string \<Rightarrow> int list \<Rightarrow> unit checked" where
  "validate_asset_amounts asset amounts = fold_trap (\<lambda>amount _. validate_asset_amount asset amount) amounts ()"

definition refuse :: "analytics_error \<Rightarrow> analytics_error \<Rightarrow> analytics_error \<Rightarrow> validation_error trap \<Rightarrow> analytics_error trap" where
  "refuse on_empty on_large otherwise t = (case t of
     ContractError EmptyBatch \<Rightarrow> ContractError on_empty
   | ContractError BatchTooLarge \<Rightarrow> ContractError on_large
   | ContractError _ \<Rightarrow> ContractError otherwise
   | AuthTrap \<Rightarrow> AuthTrap | PanicTrap \<Rightarrow> PanicTrap | ArithTrap \<Rightarrow> ArithTrap | CallTrap \<Rightarrow> CallTrap)"

abbreviation refuse_batch :: "validation_error trap \<Rightarrow> analytics_error trap" where
  "refuse_batch \<equiv> refuse analytics_error.EmptyBatch analytics_error.BatchTooLarge InvalidBatch"

section \<open>Entry points (lib.rs)\<close>

definition require_admin :: "address \<Rightarrow> analytics_store \<Rightarrow> analytics_error trap + unit" where
  "require_admin caller s = (case ts_admin s of None \<Rightarrow> Inl PanicTrap | Some admin \<Rightarrow>
     if caller \<noteq> admin then Inl (ContractError Unauthorized) else Inr ())"

text \<open>\<open>caller.require_auth()\<close> followed by \<open>require_admin\<close>.\<close>

definition gate :: "env \<Rightarrow> address \<Rightarrow> analytics_store \<Rightarrow> analytics_error trap + unit" where
  "gate e caller s = (if \<not> env_auth e caller then Inl AuthTrap else require_admin caller s)"

type_synonym 'a analytics_outcome = "(analytics_store, analytics_error, 'a) outcome"

definition initialize :: "address \<Rightarrow> analytics_store \<Rightarrow> unit analytics_outcome" where
  "initialize admin s =
    (if ts_admin s \<noteq> None then Inl (ContractError AlreadyInitialized) else
     Inr ((), s\<lparr>ts_admin := Some admin, ts_last_batch_id := Some 0, ts_total_tx_processed := Some 0,
       ts_total_audit_logs := Some 0, ts_last_bundle_id := Some 0, ts_last_refund_batch_id := Some 0,
       ts_total_refund_amount := Some 0, ts_refunded_transactions := Some Map.empty\<rparr>))"

definition know_all :: "transaction list \<Rightarrow> analytics_store \<Rightarrow> analytics_store" where
  "know_all txs s = s\<lparr>ts_known_transaction := foldl (\<lambda>m tx. m(tr_tx_id tx \<mapsto> True)) (ts_known_transaction s) txs\<rparr>"

definition process_batch :: "env \<Rightarrow> address \<Rightarrow> transaction list \<Rightarrow> int option \<Rightarrow> analytics_store \<Rightarrow> batch_metrics analytics_outcome" where
  "process_batch e caller txs high_value_threshold s =
    (case gate e caller s of Inl t \<Rightarrow> Inl t | Inr _ \<Rightarrow>
     case validate_transactions txs of Inl t \<Rightarrow> Inl (refuse_batch t) | Inr _ \<Rightarrow>
     let tx_count = length txs; s1 = know_all txs s in
     case u64_add (unwrap_or (ts_last_batch_id s1) 0) 1 of None \<Rightarrow> Inl ArithTrap | Some batch_id \<Rightarrow>
     case compute_batch_metrics s1 txs (env_sequence e) of Inl t \<Rightarrow> Inl t | Inr metrics \<Rightarrow>
     case compute_category_metrics s1 txs (bm_total_volume metrics) of Inl t \<Rightarrow> Inl t | Inr category_metrics \<Rightarrow>
     let alerts = (case high_value_threshold of None \<Rightarrow> [] | Some threshold \<Rightarrow>
           map (\<lambda>(tx_id, amount). HighValueAlert batch_id tx_id amount) (find_high_value_transactions txs threshold));
         s2 = emit_all ([AnalyticsStarted batch_id tx_count, BatchProcessed batch_id metrics]
           @ map (CategoryAnalytics batch_id) category_metrics @ alerts) s1 in
     case u64_add (unwrap_or (ts_total_tx_processed s2) 0) tx_count of None \<Rightarrow> Inl ArithTrap | Some total_processed \<Rightarrow>
     let s3 = s2\<lparr>ts_last_batch_id := Some batch_id, ts_total_tx_processed := Some total_processed,
           ts_batch_metrics := (ts_batch_metrics s2)(batch_id \<mapsto> metrics)\<rparr> in
     Inr (metrics, emit (AnalyticsCompleted batch_id tx_count) s3))"

definition store_log :: "audit_log \<Rightarrow> nat \<times> analytics_store \<Rightarrow> analytics_error trap + (nat \<times> analytics_store)" where
  "store_log log st = (case st of (total_logs, s) \<Rightarrow>
     case u64_add total_logs 1 of None \<Rightarrow> Inl ArithTrap | Some n \<Rightarrow>
     Inr (n, emit (AuditLogged (lo_actor log) (lo_operation log) (lo_status log)) (s\<lparr>ts_audit_log := (ts_audit_log s)(n \<mapsto> log)\<rparr>)))"

definition batch_audit_log :: "env \<Rightarrow> address \<Rightarrow> audit_log list \<Rightarrow> analytics_store \<Rightarrow> unit analytics_outcome" where
  "batch_audit_log e caller logs s =
    (case gate e caller s of Inl t \<Rightarrow> Inl t | Inr _ \<Rightarrow>
     if logs = [] then Inl (ContractError analytics_error.EmptyBatch) else
     if MAX_BATCH_SIZE < length logs then Inl (ContractError analytics_error.BatchTooLarge) else
     if (\<exists>log\<in>set logs. lo_timestamp log = 0) then Inl (ContractError InvalidAuditLog) else
     case fold_trap store_log logs (unwrap_or (ts_total_audit_logs s) 0, s) of Inl t \<Rightarrow> Inl t | Inr (total_logs, s1) \<Rightarrow>
     Inr ((), s1\<lparr>ts_total_audit_logs := Some total_logs\<rparr>))"

definition get_batch_metrics :: "nat \<Rightarrow> analytics_store \<Rightarrow> batch_metrics option" where
  "get_batch_metrics batch_id s = ts_batch_metrics s batch_id"

text \<open>The pages of \<open>get_batch_metrics_paginated\<close>, once the number of batches is read.  \<open>usize\<close> has 32 bits on the
  target.\<close>

definition metrics_page :: "nat \<Rightarrow> nat \<Rightarrow> nat \<Rightarrow> analytics_store \<Rightarrow> analytics_error trap + paginated_batch_metrics" where
  "metrics_page total_count page page_size s =
    (let empty = \<lparr>pg_metrics = [], pg_total_count = total_count, pg_page_number = page, pg_page_size = page_size,
           pg_has_next = False, pg_has_previous = False\<rparr> in
     if total_count = 0 then Inr empty else
     let start_index = min u32_max (page * page_size) in
     case u32_add start_index page_size of None \<Rightarrow> Inl ArithTrap | Some stop \<Rightarrow>
     let end_index = min stop total_count in
     if total_count \<le> start_index then Inr (empty\<lparr>pg_has_previous := 0 < page \<and> 0 < total_count\<rparr>) else
     Inr (empty\<lparr>pg_metrics := List.map_filter (\<lambda>index. ts_batch_metrics s (index + 1)) [start_index..<end_index],
                pg_has_next := end_index < total_count, pg_has_previous := 0 < page\<rparr>))"

text \<open>The type of the read in \<open>get(&DataKey::LastBatchId).unwrap_or(0) as u32\<close> is not annotated, so it is \<open>i32\<close>; the
  conversion of the stored \<open>u64\<close> fails and the read panics.\<close>

definition read_u64_as_i32 :: "nat option \<Rightarrow> analytics_error trap + nat" where
  "read_u64_as_i32 stored = (case stored of None \<Rightarrow> Inr 0 | Some _ \<Rightarrow> Inl PanicTrap)"

definition get_batch_metrics_paginated :: "nat \<Rightarrow> nat \<Rightarrow> analytics_store \<Rightarrow> analytics_error trap + paginated_batch_metrics" where
  "get_batch_metrics_paginated page page_size s =
    (if page_size = 0 then Inl (ContractError InvalidPageSize) else
     let size = min page_size MAX_PAGE_SIZE in
     case read_u64_as_i32 (ts_last_batch_id s) of Inl t \<Rightarrow> Inl t | Inr total_count \<Rightarrow>
     metrics_page total_count page size s)"

definition get_last_batch_id :: "analytics_store \<Rightarrow> nat" where
  "get_last_batch_id s = unwrap_or (ts_last_batch_id s) 0"

definition get_total_transactions_processed :: "analytics_store \<Rightarrow> nat" where
  "get_total_transactions_processed s = unwrap_or (ts_total_tx_processed s) 0"

definition get_audit_log :: "nat \<Rightarrow> analytics_store \<Rightarrow> audit_log option" where
  "get_audit_log index s = ts_audit_log s index"

definition get_total_audit_logs :: "analytics_store \<Rightarrow> nat" where
  "get_total_audit_logs s = unwrap_or (ts_total_audit_logs s) 0"

definition simulate_batch :: "env \<Rightarrow> transaction list \<Rightarrow> analytics_store \<Rightarrow> analytics_error trap + batch_metrics" where
  "simulate_batch e txs s = (case validate_batch txs of Inl _ \<Rightarrow> Inl (ContractError InvalidBatch) | Inr _ \<Rightarrow>
     compute_batch_metrics s txs (env_sequence e))"

definition status_step :: "(nat \<times> nat \<times> status_update_result list) \<times> analytics_store \<Rightarrow> transaction_status_update
    \<Rightarrow> (nat \<times> nat \<times> status_update_result list) \<times> analytics_store" where
  "status_step acc u = (case acc of ((successful, failed, results), s) \<Rightarrow>
     let i = su_tx_id u in
     if ts_known_transaction s i = None then
       ((successful, failed + 1, results @ [\<lparr>sr_tx_id = i, sr_is_valid = False\<rparr>]), emit (StatusUpdateFailed i) s)
     else
       let previous_status = ts_transaction_status s i;
           s1 = s\<lparr>ts_transaction_status := (ts_transaction_status s)(i \<mapsto> su_status u)\<rparr> in
       ((successful + 1, failed, results @ [\<lparr>sr_tx_id = i, sr_is_valid = True\<rparr>]),
        emit (StatusUpdated i previous_status (su_status u)) s1))"

definition update_transaction_statuses :: "env \<Rightarrow> address \<Rightarrow> transaction_status_update list \<Rightarrow> analytics_store
    \<Rightarrow> batch_status_update_result analytics_outcome" where
  "update_transaction_statuses e caller updates s =
    (case gate e caller s of Inl t \<Rightarrow> Inl t | Inr _ \<Rightarrow>
     case validate_transaction_status_updates updates of Inl t \<Rightarrow> Inl (refuse_batch t) | Inr _ \<Rightarrow>
     case foldl status_step ((0, 0, []), s) updates of ((successful, failed, results), s1) \<Rightarrow>
     Inr (\<lparr>sb_total_requests = length updates, sb_successful = successful, sb_failed = failed, sb_results = results\<rparr>, s1))"

definition rating_step :: "address \<Rightarrow> rating_result list \<times> analytics_store \<Rightarrow> rating_input \<Rightarrow> rating_result list \<times> analytics_store" where
  "rating_step user acc input = (case acc of (results, s) \<Rightarrow>
     case (if ri_score input = 0 \<or> 5 < ri_score input then (InvalidScore, s) else
           if ts_known_transaction s (ri_tx_id input) = None then (UnknownTransaction, s) else
           (RatingSuccess, s\<lparr>ts_rating := (ts_rating s)((ri_tx_id input, user) \<mapsto> ri_score input)\<rparr>)) of (status, s1) \<Rightarrow>
     (results @ [\<lparr>rr_tx_id = ri_tx_id input, rr_score = ri_score input, rr_status = status\<rparr>],
      emit (RatingSubmitted user (ri_tx_id input) (ri_score input) status) s1))"

definition submit_ratings :: "env \<Rightarrow> address \<Rightarrow> rating_input list \<Rightarrow> analytics_store \<Rightarrow> rating_result list analytics_outcome" where
  "submit_ratings e user ratings s =
    (if \<not> env_auth e user then Inl AuthTrap else
     case validate_rating_inputs ratings of Inl t \<Rightarrow> Inl (refuse_batch t) | Inr _ \<Rightarrow>
     Inr (foldl (rating_step user) ([], s) ratings))"

definition get_admin :: "analytics_store \<Rightarrow> analytics_error trap + address" where
  "get_admin s = (case ts_admin s of None \<Rightarrow> Inl PanicTrap | Some a \<Rightarrow> Inr a)"

definition get_transaction_status :: "nat \<Rightarrow> analytics_store \<Rightarrow> transaction_status option" where
  "get_transaction_status tx_id s = ts_transaction_status s tx_id"

definition set_admin :: "env \<Rightarrow> address \<Rightarrow> address \<Rightarrow> analytics_store \<Rightarrow> unit analytics_outcome" where
  "set_admin e current_admin new_admin s =
    (case gate e current_admin s of Inl t \<Rightarrow> Inl t | Inr _ \<Rightarrow> Inr ((), s\<lparr>ts_admin := Some new_admin\<rparr>))"

definition validation_events :: "nat \<Rightarrow> validation_result \<Rightarrow> analytics_event list" where
  "validation_events bundle_id r = TransactionValidated bundle_id r #
     (if vr_is_valid r then [] else [TransactionValidationFailed bundle_id (vr_tx_id r) (vr_error r)])"

definition bundle_transactions :: "env \<Rightarrow> address \<Rightarrow> bundled_transaction list \<Rightarrow> analytics_store \<Rightarrow> bundle_result analytics_outcome" where
  "bundle_transactions e caller txs s =
    (case gate e caller s of Inl t \<Rightarrow> Inl t | Inr _ \<Rightarrow>
     case validate_bundled_transactions txs of Inl t \<Rightarrow> Inl (refuse EmptyBundle BundleTooLarge InvalidBatch t) | Inr _ \<Rightarrow>
     case u64_add (unwrap_or (ts_last_bundle_id s) 0) 1 of None \<Rightarrow> Inl ArithTrap | Some bundle_id \<Rightarrow>
     let results = validate_bundle_transactions txs;
         bundle = create_bundle_result bundle_id txs results (env_sequence e);
         s1 = emit_all ([BundlingStarted bundle_id (length txs)] @ concat (map (validation_events bundle_id) results)
                @ [BundleCreated bundle_id bundle]) s;
         s2 = s1\<lparr>ts_last_bundle_id := Some bundle_id, ts_bundle_result := (ts_bundle_result s1)(bundle_id \<mapsto> bundle)\<rparr> in
     Inr (bundle, emit (BundlingCompleted bundle_id (bu_can_bundle bundle)) s2))"

definition get_bundle_result :: "nat \<Rightarrow> analytics_store \<Rightarrow> bundle_result option" where
  "get_bundle_result bundle_id s = ts_bundle_result s bundle_id"

definition get_last_bundle_id :: "analytics_store \<Rightarrow> nat" where
  "get_last_bundle_id s = unwrap_or (ts_last_bundle_id s) 0"

abbreviation refuse_refunds :: "validation_error trap \<Rightarrow> analytics_error trap" where
  "refuse_refunds \<equiv> refuse EmptyRefundBatch RefundBatchTooLarge InvalidRefundBatch"

definition refund_events :: "nat \<Rightarrow> refund_result \<Rightarrow> analytics_event list" where
  "refund_events batch_id r = RefundProcessed batch_id r #
     (if re_success r then [] else case re_error_message r of Some msg \<Rightarrow> [RefundError batch_id (re_tx_id r) msg] | None \<Rightarrow> [])"

definition refund_batch :: "env \<Rightarrow> address \<Rightarrow> refund_request list \<Rightarrow> (nat \<rightharpoonup> transaction) \<Rightarrow> analytics_store
    \<Rightarrow> refund_batch_metrics analytics_outcome" where
  "refund_batch e caller requests transaction_lookup s =
    (case gate e caller s of Inl t \<Rightarrow> Inl t | Inr _ \<Rightarrow>
     case validate_refund_requests requests of Inl t \<Rightarrow> Inl (refuse_refunds t) | Inr _ \<Rightarrow>
     case u64_add (unwrap_or (ts_last_refund_batch_id s) 0) 1 of None \<Rightarrow> Inl ArithTrap | Some batch_id \<Rightarrow>
     case process_refund_batch requests transaction_lookup (unwrap_or (ts_refunded_transactions s) Map.empty) of
       (results, refunded_txs) \<Rightarrow>
     let metrics = compute_refund_metrics results (env_sequence e);
         s1 = emit_all (RefundBatchStarted batch_id (length requests) # concat (map (refund_events batch_id) results)) s in
     case checked_add (unwrap_or (ts_total_refund_amount s1) 0) (rm_total_refunded_amount metrics) of
       None \<Rightarrow> Inl ArithTrap | Some total_refunded \<Rightarrow>
     let s2 = s1\<lparr>ts_last_refund_batch_id := Some batch_id, ts_total_refund_amount := Some total_refunded,
           ts_refund_batch_metrics := (ts_refund_batch_metrics s1)(batch_id \<mapsto> metrics),
           ts_refunded_transactions := Some refunded_txs\<rparr> in
     Inr (metrics, emit (RefundBatchCompleted batch_id metrics) s2))"

definition simulate_refund_batch :: "env \<Rightarrow> refund_request list \<Rightarrow> (nat \<rightharpoonup> transaction) \<Rightarrow> analytics_store
    \<Rightarrow> analytics_error trap + refund_batch_metrics" where
  "simulate_refund_batch e requests transaction_lookup s =
    (case validate_refund_requests requests of Inl t \<Rightarrow> Inl (refuse_refunds t) | Inr _ \<Rightarrow>
     case process_refund_batch requests transaction_lookup (unwrap_or (ts_refunded_transactions s) Map.empty) of
       (results, _) \<Rightarrow> Inr (compute_refund_metrics results (env_sequence e)))"

definition get_refund_batch_metrics :: "nat \<Rightarrow> analytics_store \<Rightarrow> refund_batch_metrics option" where
  "get_refund_batch_metrics batch_id s = ts_refund_batch_metrics s batch_id"

definition get_last_refund_batch_id :: "analytics_store \<Rightarrow> nat" where
  "get_last_refund_batch_id s = unwrap_or (ts_last_refund_batch_id s) 0"

definition get_total_refund_amount :: "analytics_store \<Rightarrow> int" where
  "get_total_refund_amount s = unwrap_or (ts_total_refund_amount s) 0"

definition is_transaction_refunded :: "nat \<Rightarrow> analytics_store \<Rightarrow> bool" where
  "is_transaction_refunded tx_id s \<longleftrightarrow> unwrap_or (ts_refunded_transactions s) Map.empty tx_id \<noteq> None"

definition update_monthly_analytics :: "env \<Rightarrow> address \<Rightarrow> address \<Rightarrow> transaction list \<Rightarrow> nat \<Rightarrow> nat \<Rightarrow> analytics_store
    \<Rightarrow> monthly_spending_analytics analytics_outcome" where
  "update_monthly_analytics e caller user txs year month s =
    (case gate e caller s of Inl t \<Rightarrow> Inl t | Inr _ \<Rightarrow>
     case validate_user_address user of Inl (ContractError InvalidAddress) \<Rightarrow> Inl (ContractError Unauthorized)
     | Inl t \<Rightarrow> Inl (refuse InvalidBatch InvalidBatch InvalidBatch t) | Inr _ \<Rightarrow>
     case validate_year_month year month of Inl t \<Rightarrow> Inl (refuse InvalidBatch InvalidBatch InvalidBatch t) | Inr _ \<Rightarrow>
     case validate_transactions txs of Inl t \<Rightarrow> Inl (refuse_batch t) | Inr _ \<Rightarrow>
     let a = compute_monthly_analytics user txs year month in
     case update_monthly_analytics_storage e a s of Inl t \<Rightarrow> Inl t | Inr s1 \<Rightarrow>
     Inr (a, emit (AnalyticsUpdated user year month (ms_total_spending a) (ms_transaction_count a)) s1))"

definition get_monthly_analytics :: "address \<Rightarrow> nat \<Rightarrow> nat \<Rightarrow> analytics_store \<Rightarrow> monthly_spending_analytics option" where
  "get_monthly_analytics user year month s = ts_monthly_analytics s (year, month, user)"

definition get_user_spending_summary :: "address \<Rightarrow> analytics_store \<Rightarrow> user_spending_summary option" where
  "get_user_spending_summary user s = ts_user_spending_summary s user"

definition get_total_tracked_users :: "analytics_store \<Rightarrow> nat" where
  "get_total_tracked_users s = unwrap_or (ts_total_tracked_users s) 0"

text \<open>The update stores the \<open>u32\<close> sequence number; reading it back as \<open>u64\<close> fails and panics.\<close>

definition get_last_analytics_update :: "analytics_store \<Rightarrow> analytics_error trap + nat" where
  "get_last_analytics_update s = (case ts_last_analytics_update s of None \<Rightarrow> Inr 0 | Some _ \<Rightarrow> Inl PanicTrap)"

definition refuse_config :: "validation_error \<Rightarrow> analytics_error trap" where
  "refuse_config err = (case err of validation_error.InvalidAmount \<Rightarrow> ContractError analytics_error.InvalidAmount
     | _ \<Rightarrow> ContractError InvalidBatch)"

definition lib_update_fee_config :: "env \<Rightarrow> address \<Rightarrow> fee_config \<Rightarrow> analytics_store \<Rightarrow> unit analytics_outcome" where
  "lib_update_fee_config e admin new_config s =
    (case gate e admin s of Inl t \<Rightarrow> Inl t | Inr _ \<Rightarrow>
     case validate_fee_config new_config of Inl err \<Rightarrow> Inl (refuse_config err) | Inr _ \<Rightarrow>
     let previous_max = Option.bind (get_current_fee_config s) fg_max_fee in
     case store_fee_config new_config s of Inl _ \<Rightarrow> Inl PanicTrap | Inr s1 \<Rightarrow>
     Inr ((), if previous_max \<noteq> fg_max_fee new_config then emit (FeeCapChanged admin previous_max (fg_max_fee new_config)) s1 else s1))"

definition lib_update_operation_fee_config :: "env \<Rightarrow> address \<Rightarrow> symbol \<Rightarrow> fee_config \<Rightarrow> analytics_store \<Rightarrow> unit analytics_outcome" where
  "lib_update_operation_fee_config e admin operation new_config s =
    (case gate e admin s of Inl t \<Rightarrow> Inl t | Inr _ \<Rightarrow>
     case validate_fee_config new_config of Inl err \<Rightarrow> Inl (refuse_config err) | Inr _ \<Rightarrow>
     let previous = get_operation_fee_config operation s in
     case store_operation_fee_config operation new_config s of Inl _ \<Rightarrow> Inl PanicTrap | Inr s1 \<Rightarrow>
     Inr ((), emit (OperationFeeUpdated admin operation previous new_config) s1))"

definition lib_get_current_fee_config :: "analytics_store \<Rightarrow> fee_config option" where
  "lib_get_current_fee_config s = get_current_fee_config s"

definition fallback_config :: fee_config where
  "fallback_config = \<lparr>fg_fee_model = Percentage 10, fg_min_fee = Some 1, fg_max_fee = None, fg_enabled = True,
     fg_description = Some ''Default''\<rparr>"

definition lib_calculate_transaction_fee :: "int \<Rightarrow> analytics_store \<Rightarrow> analytics_error trap + fee_calculation_result" where
  "lib_calculate_transaction_fee amount s =
    calculate_transaction_fee amount (unwrap_or (get_current_fee_config s) fallback_config)"

definition lib_calculate_batch_fees :: "int list \<Rightarrow> analytics_store \<Rightarrow> analytics_error trap + fee_calculation_result list" where
  "lib_calculate_batch_fees amounts s =
    calculate_batch_fees amounts (unwrap_or (get_current_fee_config s) fallback_config)"

definition pause_fees :: "env \<Rightarrow> address \<Rightarrow> analytics_store \<Rightarrow> unit analytics_outcome" where
  "pause_fees e admin s = (case gate e admin s of Inl t \<Rightarrow> Inl t | Inr _ \<Rightarrow>
     case set_fee_paused admin True s of Inl t \<Rightarrow> Inl t | Inr (Inl _) \<Rightarrow> Inl PanicTrap | Inr (Inr s1) \<Rightarrow> Inr ((), s1))"

definition resume_fees :: "env \<Rightarrow> address \<Rightarrow> analytics_store \<Rightarrow> unit analytics_outcome" where
  "resume_fees e admin s = (case gate e admin s of Inl t \<Rightarrow> Inl t | Inr _ \<Rightarrow>
     case set_fee_paused admin False s of Inl t \<Rightarrow> Inl t | Inr (Inl _) \<Rightarrow> Inl PanicTrap | Inr (Inr s1) \<Rightarrow> Inr ((), s1))"

datatype store_call =
    CInitialize address
  | CProcess address "transaction list" "int option"
  | CAudit address "audit_log list"
  | CStatuses address "transaction_status_update list"
  | CRatings address "rating_input list"
  | CSetAdmin address address
  | CBundle address "bundled_transaction list"
  | CRefund address "refund_request list" "nat \<rightharpoonup> transaction"
  | CMonthly address address "transaction list" nat nat
  | CFeeConfig address fee_config
  | COperationFee address symbol fee_config
  | CPause address
  | CResume address

fun store_exec :: "env \<times> store_call \<Rightarrow> analytics_store \<Rightarrow> analytics_error trap + analytics_store" where
  "store_exec (e, CInitialize a) s = final (initialize a s)"
| "store_exec (e, CProcess a txs th) s = final (process_batch e a txs th s)"
| "store_exec (e, CAudit a logs) s = final (batch_audit_log e a logs s)"
| "store_exec (e, CStatuses a us) s = final (update_transaction_statuses e a us s)"
| "store_exec (e, CRatings a rs) s = final (submit_ratings e a rs s)"
| "store_exec (e, CSetAdmin a b) s = final (set_admin e a b s)"
| "store_exec (e, CBundle a txs) s = final (bundle_transactions e a txs s)"
| "store_exec (e, CRefund a rqs lk) s = final (refund_batch e a rqs lk s)"
| "store_exec (e, CMonthly a u txs y m) s = final (update_monthly_analytics e a u txs y m s)"
| "store_exec (e, CFeeConfig a c) s = final (lib_update_fee_config e a c s)"
| "store_exec (e, COperationFee a op c) s = final (lib_update_operation_fee_config e a op c s)"
| "store_exec (e, CPause a) s = final (pause_fees e a s)"
| "store_exec (e, CResume a) s = final (resume_fees e a s)"
section \<open>What the calls do\<close>

text \<open>The events that no invariant below looks at.\<close>

definition quiet :: "analytics_event \<Rightarrow> bool" where
  "quiet ev \<longleftrightarrow> (case ev of RefundProcessed _ _ \<Rightarrow> False | AnalyticsUpdated _ _ _ _ _ \<Rightarrow> False
     | TransactionValidationFailed _ _ _ \<Rightarrow> False | _ \<Rightarrow> True)"

lemma quiet_simps [simp]:
  "quiet (BatchProcessed i m)" "quiet (CategoryAnalytics i cm)" "quiet (AnalyticsStarted i n)" "quiet (AnalyticsCompleted i n)"
  "quiet (HighValueAlert i j t)" "quiet (AuditLogged a b d)" "quiet (RatingSubmitted a i n rs)" "quiet (StatusUpdated i x0 y0)"
  "quiet (StatusUpdateFailed i)" "quiet (OperationFeeUpdated a b x c)" "quiet (FeeCapChanged a o1 o2)" "quiet (BundleCreated i br)"
  "quiet (TransactionValidated i vr)" "quiet (BundlingStarted i n)" "quiet (BundlingCompleted i v)" "quiet (RefundBatchStarted i n)"
  "quiet (RefundBatchCompleted i rm)" "quiet (RefundError i j b)" "quiet (FeePauseToggled a v)"
  "\<not> quiet (RefundProcessed i r)" "\<not> quiet (AnalyticsUpdated a i j t n)" "\<not> quiet (TransactionValidationFailed i j b)"
  by (simp_all add: quiet_def)

lemma gate_Inr [simp]: "gate e caller s = Inr u \<longleftrightarrow> env_auth e caller \<and> ts_admin s = Some caller"
  by (auto simp: gate_def require_admin_def split: option.splits)

lemma validate_size_Inr [simp]: "validate_size n = Inr u \<longleftrightarrow> 0 < n \<and> n \<le> 100"
  by (auto simp: validate_size_def)

lemma validate_all:
  "fold_trap (\<lambda>x _. f x) xs () = Inr u \<Longrightarrow> x \<in> set xs \<Longrightarrow> f x = Inr ()" for f :: "'x \<Rightarrow> unit checked"
  by (induction xs) (auto split: sum.splits)

lemma validate_transaction_Inr: "validate_transaction tx = Inr u \<Longrightarrow> 0 < tr_amount tx"
  by (auto simp: validate_transaction_def validate_address_def validate_amount_def split: if_splits)

lemma store_initialize_Inr:
  "initialize a s = Inr (u, s') \<longleftrightarrow> ts_admin s = None \<and> s' = s\<lparr>ts_admin := Some a, ts_last_batch_id := Some 0,
     ts_total_tx_processed := Some 0, ts_total_audit_logs := Some 0, ts_last_bundle_id := Some 0,
     ts_last_refund_batch_id := Some 0, ts_total_refund_amount := Some 0, ts_refunded_transactions := Some Map.empty\<rparr>"
  by (auto simp: initialize_def)

lemma known_fold: "foldl (\<lambda>m tx. m(tr_tx_id tx \<mapsto> True)) k txs i \<noteq> None \<longleftrightarrow> k i \<noteq> None \<or> i \<in> tr_tx_id ` set txs"
  by (induction txs arbitrary: k) auto

lemma store_process_Inr:
  assumes "process_batch e caller txs th s = Inr (m, s')"
  obtains k evs where "ts_admin s = Some caller" "validate_transactions txs = Inr ()"
    "\<And>i. k i \<noteq> None \<longleftrightarrow> ts_known_transaction s i \<noteq> None \<or> i \<in> tr_tx_id ` set txs"
    "compute_batch_metrics (know_all txs s) txs (env_sequence e) = Inr m" "\<forall>ev\<in>set evs. quiet ev"
    "s' = s\<lparr>ts_known_transaction := k, ts_last_batch_id := Some (Suc (get_last_batch_id s)),
       ts_total_tx_processed := Some (get_total_transactions_processed s + length txs),
       ts_batch_metrics := (ts_batch_metrics s)(Suc (get_last_batch_id s) \<mapsto> m), ts_events := ts_events s @ evs\<rparr>"
proof -
  from assms obtain cats alerts where c: "ts_admin s = Some caller" "validate_transactions txs = Inr ()"
    "compute_batch_metrics (know_all txs s) txs (env_sequence e) = Inr m"
    and alerts: "alerts = (case th of None \<Rightarrow> [] | Some threshold \<Rightarrow>
           map (\<lambda>(tx_id, amount). HighValueAlert (Suc (get_last_batch_id s)) tx_id amount) (find_high_value_transactions txs threshold))"
    and s': "s' = s\<lparr>ts_known_transaction := foldl (\<lambda>m tx. m(tr_tx_id tx \<mapsto> True)) (ts_known_transaction s) txs,
       ts_last_batch_id := Some (Suc (get_last_batch_id s)),
       ts_total_tx_processed := Some (get_total_transactions_processed s + length txs),
       ts_batch_metrics := (ts_batch_metrics s)(Suc (get_last_batch_id s) \<mapsto> m),
       ts_events := ts_events s @ (AnalyticsStarted (Suc (get_last_batch_id s)) (length txs) # BatchProcessed (Suc (get_last_batch_id s)) m
         # map (CategoryAnalytics (Suc (get_last_batch_id s))) cats @ alerts
         @ [AnalyticsCompleted (Suc (get_last_batch_id s)) (length txs)])\<rparr>"
    by (auto simp: process_batch_def know_all_def emit_def emit_all_def get_last_batch_id_def
      get_total_transactions_processed_def Let_def split: sum.splits option.splits)
  have "\<forall>ev\<in>set alerts. quiet ev" by (auto simp: alerts split: option.splits)
  then show ?thesis by (intro that [OF c(1,2) known_fold c(3) _ s']) auto
qed

lemma store_logs:
  assumes "fold_trap store_log logs (n, s) = Inr (n', s')"
  shows "n' = n + length logs \<and> (\<exists>evs m. (\<forall>ev\<in>set evs. quiet ev) \<and> (\<forall>i. m i \<noteq> None \<longleftrightarrow> ts_audit_log s i \<noteq> None \<or> n < i \<and> i \<le> n')
    \<and> s' = s\<lparr>ts_audit_log := m, ts_events := ts_events s @ evs\<rparr>)"
  using assms
proof (induction logs arbitrary: n s)
  case Nil
  then show ?case by (auto intro!: exI [of _ "[]"] exI [of _ "ts_audit_log s"])
next
  case (Cons log logs)
  let ?s = "s\<lparr>ts_audit_log := (ts_audit_log s)(Suc n \<mapsto> log), ts_events := ts_events s @ [AuditLogged (lo_actor log) (lo_operation log) (lo_status log)]\<rparr>"
  from Cons.prems have "fold_trap store_log logs (Suc n, ?s) = Inr (n', s')"
    by (auto simp: store_log_def [of log] emit_def split: option.splits)
  from Cons.IH [OF this] obtain evs m where r: "n' = Suc n + length logs" "\<forall>ev\<in>set evs. quiet ev"
    "\<forall>i. m i \<noteq> None \<longleftrightarrow> ts_audit_log ?s i \<noteq> None \<or> Suc n < i \<and> i \<le> n'"
    "s' = ?s\<lparr>ts_audit_log := m, ts_events := ts_events ?s @ evs\<rparr>" by blast
  have "\<forall>i. m i \<noteq> None \<longleftrightarrow> ts_audit_log s i \<noteq> None \<or> n < i \<and> i \<le> n'" using r(1,3) by auto
  moreover have "s' = s\<lparr>ts_audit_log := m, ts_events := ts_events s
      @ (AuditLogged (lo_actor log) (lo_operation log) (lo_status log) # evs)\<rparr>" using r(4) by simp
  moreover have "\<forall>ev\<in>set (AuditLogged (lo_actor log) (lo_operation log) (lo_status log) # evs). quiet ev" using r(2) by simp
  ultimately show ?case using r(1) by (intro conjI exI) auto
qed

lemma status_step_effect:
  "\<exists>acc1 ev m. status_step (acc, s) u = (acc1, s\<lparr>ts_transaction_status := m, ts_events := ts_events s @ [ev]\<rparr>) \<and> quiet ev
    \<and> (\<forall>i. m i \<noteq> None \<longrightarrow> ts_transaction_status s i \<noteq> None \<or> ts_known_transaction s i \<noteq> None)"
proof -
  obtain n k rs where acc: "acc = (n, k, rs)" by (cases acc)
  show ?thesis
  proof (cases "ts_known_transaction s (su_tx_id u)")
    case None
    then have "status_step (acc, s) u = ((n, k + 1, rs @ [\<lparr>sr_tx_id = su_tx_id u, sr_is_valid = False\<rparr>]),
        s\<lparr>ts_transaction_status := ts_transaction_status s, ts_events := ts_events s @ [StatusUpdateFailed (su_tx_id u)]\<rparr>)"
      by (simp add: status_step_def emit_def acc Let_def)
    then show ?thesis by (intro exI conjI) (assumption | simp)+
  next
    case (Some b)
    then have "status_step (acc, s) u = ((n + 1, k, rs @ [\<lparr>sr_tx_id = su_tx_id u, sr_is_valid = True\<rparr>]),
        s\<lparr>ts_transaction_status := (ts_transaction_status s)(su_tx_id u \<mapsto> su_status u),
          ts_events := ts_events s @ [StatusUpdated (su_tx_id u) (ts_transaction_status s (su_tx_id u)) (su_status u)]\<rparr>)"
      by (simp add: status_step_def emit_def acc Let_def)
    with Some show ?thesis by (intro exI conjI) (assumption | simp)+
  qed
qed

lemma rating_step_effect:
  "\<exists>rs1 ev m. rating_step user (rs, s) input = (rs1, s\<lparr>ts_rating := m, ts_events := ts_events s @ [ev]\<rparr>) \<and> quiet ev
    \<and> (\<forall>i u n. m (i, u) = Some n \<longrightarrow> ts_rating s (i, u) = Some n \<or> ts_known_transaction s i \<noteq> None \<and> 1 \<le> n \<and> n \<le> 5)"
proof -
  let ?i = "ri_tx_id input" and ?n = "ri_score input"
  let ?st = "if ?n = 0 \<or> 5 < ?n then InvalidScore else if ts_known_transaction s ?i = None then UnknownTransaction else RatingSuccess"
  let ?m = "if ?st = RatingSuccess then (ts_rating s)((?i, user) \<mapsto> ?n) else ts_rating s"
  have "rating_step user (rs, s) input = (rs @ [\<lparr>rr_tx_id = ?i, rr_score = ?n, rr_status = ?st\<rparr>],
      s\<lparr>ts_rating := ?m, ts_events := ts_events s @ [RatingSubmitted user ?i ?n ?st]\<rparr>)"
    by (simp add: rating_step_def emit_def)
  moreover have "\<forall>i u n. ?m (i, u) = Some n \<longrightarrow> ts_rating s (i, u) = Some n \<or> ts_known_transaction s i \<noteq> None \<and> 1 \<le> n \<and> n \<le> 5"
    by auto
  ultimately show ?thesis using quiet_simps(7) by blast
qed

lemma status_fold:
  assumes "foldl status_step (acc, s) us = (acc', s')"
  shows "\<exists>evs m. (\<forall>ev\<in>set evs. quiet ev) \<and> (\<forall>i. m i \<noteq> None \<longrightarrow> ts_transaction_status s i \<noteq> None \<or> ts_known_transaction s i \<noteq> None)
    \<and> s' = s\<lparr>ts_transaction_status := m, ts_events := ts_events s @ evs\<rparr>"
  using assms
proof (induction us arbitrary: acc s)
  case Nil
  then show ?case by (auto intro!: exI [of _ "[]"] exI [of _ "ts_transaction_status s"])
next
  case (Cons u us)
  obtain acc1 ev m where step: "status_step (acc, s) u = (acc1, s\<lparr>ts_transaction_status := m, ts_events := ts_events s @ [ev]\<rparr>)"
    and ev: "quiet ev" and m: "\<forall>i. m i \<noteq> None \<longrightarrow> ts_transaction_status s i \<noteq> None \<or> ts_known_transaction s i \<noteq> None"
    using status_step_effect [of acc s u] by blast
  let ?s = "s\<lparr>ts_transaction_status := m, ts_events := ts_events s @ [ev]\<rparr>"
  from Cons.prems have "foldl status_step (acc1, ?s) us = (acc', s')" by (simp add: step)
  from Cons.IH [OF this] obtain evs m' where r: "\<forall>ev\<in>set evs. quiet ev"
    "\<forall>i. m' i \<noteq> None \<longrightarrow> ts_transaction_status ?s i \<noteq> None \<or> ts_known_transaction ?s i \<noteq> None"
    "s' = ?s\<lparr>ts_transaction_status := m', ts_events := ts_events ?s @ evs\<rparr>" by blast
  have "\<forall>i. m' i \<noteq> None \<longrightarrow> ts_transaction_status s i \<noteq> None \<or> ts_known_transaction s i \<noteq> None" using r(2) m by auto
  moreover have "s' = s\<lparr>ts_transaction_status := m', ts_events := ts_events s @ (ev # evs)\<rparr>" using r(3) by simp
  moreover have "\<forall>ev\<in>set (ev # evs). quiet ev" using r(1) ev by simp
  ultimately show ?case by blast
qed

lemma rating_fold:
  assumes "foldl (rating_step user) (rs, s) inputs = (rs', s')"
  shows "\<exists>evs m. (\<forall>ev\<in>set evs. quiet ev) \<and> (\<forall>i u n. m (i, u) = Some n \<longrightarrow> ts_rating s (i, u) = Some n
      \<or> ts_known_transaction s i \<noteq> None \<and> 1 \<le> n \<and> n \<le> 5)
    \<and> s' = s\<lparr>ts_rating := m, ts_events := ts_events s @ evs\<rparr>"
  using assms
proof (induction inputs arbitrary: rs s)
  case Nil
  then show ?case by (auto intro!: exI [of _ "[]"] exI [of _ "ts_rating s"])
next
  case (Cons input inputs)
  obtain rs1 ev m where step: "rating_step user (rs, s) input = (rs1, s\<lparr>ts_rating := m, ts_events := ts_events s @ [ev]\<rparr>)"
    and ev: "quiet ev" and m: "\<forall>i u n. m (i, u) = Some n \<longrightarrow> ts_rating s (i, u) = Some n
      \<or> ts_known_transaction s i \<noteq> None \<and> 1 \<le> n \<and> n \<le> 5"
    using rating_step_effect [of user rs s input] by blast
  let ?s = "s\<lparr>ts_rating := m, ts_events := ts_events s @ [ev]\<rparr>"
  from Cons.prems have "foldl (rating_step user) (rs1, ?s) inputs = (rs', s')" by (simp add: step)
  from Cons.IH [OF this] obtain evs m' where r: "\<forall>ev\<in>set evs. quiet ev"
    "\<forall>i u n. m' (i, u) = Some n \<longrightarrow> ts_rating ?s (i, u) = Some n \<or> ts_known_transaction ?s i \<noteq> None \<and> 1 \<le> n \<and> n \<le> 5"
    "s' = ?s\<lparr>ts_rating := m', ts_events := ts_events ?s @ evs\<rparr>" by blast
  have "\<forall>i u n. m' (i, u) = Some n \<longrightarrow> ts_rating s (i, u) = Some n \<or> ts_known_transaction s i \<noteq> None \<and> 1 \<le> n \<and> n \<le> 5"
    using r(2) m by (simp; blast)
  moreover have "s' = s\<lparr>ts_rating := m', ts_events := ts_events s @ (ev # evs)\<rparr>" using r(3) by simp
  moreover have "\<forall>ev\<in>set (ev # evs). quiet ev" using r(1) ev by simp
  ultimately show ?case by blast
qed

text \<open>A bundle that passes the validation of the entry point has no invalid transaction left.\<close>

lemma bundle_valid:
  assumes "validate_bundled_transactions txs = Inr u" and "b \<in> set txs"
  shows "vr_is_valid (validate_transaction_for_bundle b)"
proof -
  from assms have "validate_bundled_transaction b = Inr ()"
    by (auto simp: validate_bundled_transactions_def split: sum.splits dest: validate_all)
  then show ?thesis
    by (auto simp: validate_bundled_transaction_def validate_transaction_for_bundle_def Let_def
      dest!: validate_transaction_Inr split: sum.splits if_splits)
qed

lemma bundle_fold:
  assumes "\<forall>(i, r)\<in>set irs. vr_is_valid r"
  shows "\<exists>v. foldl (bundle_count txs) (n, k, v0) irs = (n + length irs, k, v)"
  using assms
proof (induction irs arbitrary: n v0)
  case (Cons ir irs)
  obtain v1 where "bundle_count txs (n, k, v0) ir = (Suc n, k, v1)"
    using Cons.prems by (cases ir) (simp add: bundle_count_def)
  with Cons.IH [of "Suc n" v1] Cons.prems show ?case by simp
qed simp

lemma valid_bundle_result:
  assumes "validate_bundled_transactions txs = Inr u"
  shows "\<exists>v. create_bundle_result i txs (validate_bundle_transactions txs) now = \<lparr>bu_bundle_id = i, bu_total_count = length txs,
     bu_valid_count = length txs, bu_invalid_count = 0, bu_validation_results = validate_bundle_transactions txs,
     bu_can_bundle = True, bu_total_volume = v, bu_created_at = now\<rparr>"
proof -
  have "0 < length txs" using assms by (auto simp: validate_bundled_transactions_def split: sum.splits)
  have "\<forall>(j, r)\<in>set (enumerate 0 (validate_bundle_transactions txs)). vr_is_valid r"
    using bundle_valid [OF assms] by (auto simp: validate_bundle_transactions_def dest!: in_set_enumerate_eq [THEN iffD1])
  from bundle_fold [OF this, of txs 0 0 0] \<open>0 < length txs\<close> show ?thesis
    by (auto simp: create_bundle_result_def validate_bundle_transactions_def)
qed

lemma bundle_Inr:
  assumes "bundle_transactions e caller txs s = Inr (b, s')"
  obtains evs v where "ts_admin s = Some caller" "\<forall>ev\<in>set evs. quiet ev"
    "b = \<lparr>bu_bundle_id = Suc (get_last_bundle_id s), bu_total_count = length txs, bu_valid_count = length txs, bu_invalid_count = 0,
       bu_validation_results = validate_bundle_transactions txs, bu_can_bundle = True, bu_total_volume = v, bu_created_at = env_sequence e\<rparr>"
    "s' = s\<lparr>ts_last_bundle_id := Some (Suc (get_last_bundle_id s)),
       ts_bundle_result := (ts_bundle_result s)(Suc (get_last_bundle_id s) \<mapsto> b), ts_events := ts_events s @ evs\<rparr>"
proof -
  let ?i = "Suc (get_last_bundle_id s)" and ?rs = "validate_bundle_transactions txs"
  from assms have c: "ts_admin s = Some caller" and v: "validate_bundled_transactions txs = Inr ()"
    and b: "b = create_bundle_result ?i txs ?rs (env_sequence e)"
    and s': "s' = s\<lparr>ts_last_bundle_id := Some ?i, ts_bundle_result := (ts_bundle_result s)(?i \<mapsto> b),
       ts_events := ts_events s @ (BundlingStarted ?i (length txs) # concat (map (validation_events ?i) ?rs)
         @ [BundleCreated ?i b, BundlingCompleted ?i (bu_can_bundle b)])\<rparr>"
    by (auto simp: bundle_transactions_def emit_def emit_all_def get_last_bundle_id_def Let_def split: sum.splits option.splits)
  have "\<forall>ev\<in>set (concat (map (validation_events ?i) ?rs)). quiet ev"
    using bundle_valid [OF v] by (auto simp: validate_bundle_transactions_def validation_events_def)
  with valid_bundle_result [OF v, of ?i "env_sequence e"] show ?thesis
    by (auto simp: b intro!: that [OF c _ _ s'])
qed

lemma refund_Inr:
  assumes "refund_batch e caller rqs lookup s = Inr (m, s')"
  obtains rs ref evs where "ts_admin s = Some caller"
    "process_refund_batch rqs lookup (unwrap_or (ts_refunded_transactions s) Map.empty) = (rs, ref)"
    "m = compute_refund_metrics rs (env_sequence e)"
    "s' = s\<lparr>ts_last_refund_batch_id := Some (Suc (get_last_refund_batch_id s)),
       ts_total_refund_amount := Some (get_total_refund_amount s + rm_total_refunded_amount m),
       ts_refund_batch_metrics := (ts_refund_batch_metrics s)(Suc (get_last_refund_batch_id s) \<mapsto> m),
       ts_refunded_transactions := Some ref,
       ts_events := ts_events s @ (RefundBatchStarted (Suc (get_last_refund_batch_id s)) (length rqs)
         # concat (map (refund_events (Suc (get_last_refund_batch_id s))) rs)
         @ [RefundBatchCompleted (Suc (get_last_refund_batch_id s)) m])\<rparr>"
proof -
  obtain rs ref where p: "process_refund_batch rqs lookup (unwrap_or (ts_refunded_transactions s) Map.empty) = (rs, ref)"
    by (cases "process_refund_batch rqs lookup (unwrap_or (ts_refunded_transactions s) Map.empty)")
  show ?thesis
    by (rule that [OF _ p])
      (use assms p in \<open>auto simp: refund_batch_def emit_def emit_all_def get_last_refund_batch_id_def
        get_total_refund_amount_def Let_def split: sum.splits option.splits\<close>)
qed

lemma monthly_Inr:
  assumes "update_monthly_analytics e caller user txs y mo s = Inr (a, s')"
  obtains tr where "ts_admin s = Some caller" "ts_user_spending_summary s user = None \<Longrightarrow> tr = Some (Suc (get_total_tracked_users s))"
    "s' = s\<lparr>ts_monthly_analytics := (ts_monthly_analytics s)((y, mo, user) \<mapsto> a),
       ts_total_tracked_users := tr, ts_last_analytics_update := Some (env_sequence e),
       ts_events := ts_events s @ [AnalyticsUpdated user y mo (ms_total_spending a) (ms_transaction_count a)]\<rparr>"
proof -
  let ?tr = "if ts_user_spending_summary s user = None then Some (Suc (get_total_tracked_users s)) else ts_total_tracked_users s"
  have key: "ms_year a = y \<and> ms_month a = mo \<and> ms_user a = user" if "a = compute_monthly_analytics user txs y mo" for a
    using that by (simp add: compute_monthly_analytics_def split: prod.splits)
  from assms have "ts_admin s = Some caller" "s' = s\<lparr>ts_monthly_analytics := (ts_monthly_analytics s)((y, mo, user) \<mapsto> a),
       ts_total_tracked_users := ?tr, ts_last_analytics_update := Some (env_sequence e),
       ts_events := ts_events s @ [AnalyticsUpdated user y mo (ms_total_spending a) (ms_transaction_count a)]\<rparr>"
    by (auto simp: update_monthly_analytics_def update_monthly_analytics_storage_def emit_def
      get_total_tracked_users_def Let_def key split: sum.splits option.splits if_splits trap.splits validation_error.splits)
  then show ?thesis by (intro that [of ?tr]) simp_all
qed

lemma config_Inr:
  "lib_update_fee_config e a c s = Inr (u, s') \<Longrightarrow> \<exists>evs. (\<forall>ev\<in>set evs. quiet ev)
    \<and> s' = s\<lparr>ts_current_fee_config := Some c, ts_events := ts_events s @ evs\<rparr>"
  "lib_update_operation_fee_config e a op c s = Inr (u, s') \<Longrightarrow>
    s' = s\<lparr>ts_operation_fee_config := (ts_operation_fee_config s)(op \<mapsto> c),
       ts_events := ts_events s @ [OperationFeeUpdated a op (ts_operation_fee_config s op) c]\<rparr>"
  "pause_fees e a s = Inr (u, s') \<Longrightarrow> s' = s\<lparr>ts_fee_paused := Some True, ts_events := ts_events s @ [FeePauseToggled a True]\<rparr>"
  "resume_fees e a s = Inr (u, s') \<Longrightarrow> s' = s\<lparr>ts_fee_paused := Some False, ts_events := ts_events s @ [FeePauseToggled a False]\<rparr>"
proof -
  let ?prev = "Option.bind (ts_current_fee_config s) fg_max_fee"
  let ?evs = "if ?prev \<noteq> fg_max_fee c then [FeeCapChanged a ?prev (fg_max_fee c)] else []"
  assume "lib_update_fee_config e a c s = Inr (u, s')"
  then have "s' = s\<lparr>ts_current_fee_config := Some c, ts_events := ts_events s @ ?evs\<rparr>"
    by (auto simp: lib_update_fee_config_def store_fee_config_def emit_def get_current_fee_config_def Let_def split: sum.splits)
  moreover have "\<forall>ev\<in>set ?evs. quiet ev" by simp
  ultimately show "\<exists>evs. (\<forall>ev\<in>set evs. quiet ev) \<and> s' = s\<lparr>ts_current_fee_config := Some c, ts_events := ts_events s @ evs\<rparr>" by blast
next
  show "lib_update_operation_fee_config e a op c s = Inr (u, s') \<Longrightarrow>
    s' = s\<lparr>ts_operation_fee_config := (ts_operation_fee_config s)(op \<mapsto> c),
       ts_events := ts_events s @ [OperationFeeUpdated a op (ts_operation_fee_config s op) c]\<rparr>"
    by (auto simp: lib_update_operation_fee_config_def store_operation_fee_config_def emit_def get_operation_fee_config_def
      Let_def split: sum.splits)
  show "pause_fees e a s = Inr (u, s') \<Longrightarrow> s' = s\<lparr>ts_fee_paused := Some True, ts_events := ts_events s @ [FeePauseToggled a True]\<rparr>"
    by (auto simp: pause_fees_def set_fee_paused_def emit_def split: sum.splits option.splits)
  show "resume_fees e a s = Inr (u, s') \<Longrightarrow> s' = s\<lparr>ts_fee_paused := Some False, ts_events := ts_events s @ [FeePauseToggled a False]\<rparr>"
    by (auto simp: resume_fees_def set_fee_paused_def emit_def split: sum.splits option.splits)
qed

lemma audit_Inr:
  assumes "batch_audit_log e caller logs s = Inr (u, s')"
  obtains evs m where "ts_admin s = Some caller" "\<forall>ev\<in>set evs. quiet ev"
    "\<And>i. m i \<noteq> None \<longleftrightarrow> ts_audit_log s i \<noteq> None \<or> get_total_audit_logs s < i \<and> i \<le> get_total_audit_logs s + length logs"
    "s' = s\<lparr>ts_audit_log := m, ts_events := ts_events s @ evs, ts_total_audit_logs := Some (get_total_audit_logs s + length logs)\<rparr>"
proof -
  from assms obtain n s1 where c: "ts_admin s = Some caller" and f: "fold_trap store_log logs (get_total_audit_logs s, s) = Inr (n, s1)"
    and s': "s' = s1\<lparr>ts_total_audit_logs := Some n\<rparr>"
    by (auto simp: batch_audit_log_def get_total_audit_logs_def split: sum.splits if_splits)
  from store_logs [OF f] obtain evs m where n: "n = get_total_audit_logs s + length logs" and "\<forall>ev\<in>set evs. quiet ev"
    and "\<And>i. m i \<noteq> None \<longleftrightarrow> ts_audit_log s i \<noteq> None \<or> get_total_audit_logs s < i \<and> i \<le> n"
    and "s1 = s\<lparr>ts_audit_log := m, ts_events := ts_events s @ evs\<rparr>" by blast
  with c s' show ?thesis by (intro that [of evs m]) simp_all
qed

lemma statuses_Inr:
  assumes "update_transaction_statuses e caller us s = Inr (r, s')"
  obtains evs m where "ts_admin s = Some caller" "\<forall>ev\<in>set evs. quiet ev"
    "\<And>i. m i \<noteq> None \<Longrightarrow> ts_transaction_status s i \<noteq> None \<or> ts_known_transaction s i \<noteq> None"
    "s' = s\<lparr>ts_transaction_status := m, ts_events := ts_events s @ evs\<rparr>"
proof -
  from assms obtain acc where c: "ts_admin s = Some caller" and f: "foldl status_step ((0, 0, []), s) us = (acc, s')"
    by (auto simp: update_transaction_statuses_def split: sum.splits prod.splits)
  from status_fold [OF f] c that show ?thesis by blast
qed

lemma ratings_Inr:
  assumes "submit_ratings e user inputs s = Inr (r, s')"
  obtains evs m where "\<forall>ev\<in>set evs. quiet ev"
    "\<And>i u n. m (i, u) = Some n \<Longrightarrow> ts_rating s (i, u) = Some n \<or> ts_known_transaction s i \<noteq> None \<and> 1 \<le> n \<and> n \<le> 5"
    "s' = s\<lparr>ts_rating := m, ts_events := ts_events s @ evs\<rparr>"
proof -
  from assms have f: "foldl (rating_step user) ([], s) inputs = (r, s')"
    by (auto simp: submit_ratings_def split: sum.splits if_splits)
  from rating_fold [OF f] that show ?thesis by blast
qed

lemma set_admin_Inr: "set_admin e a b s = Inr (u, s') \<Longrightarrow> ts_admin s = Some a \<and> s' = s\<lparr>ts_admin := Some b\<rparr>"
  by (auto simp: set_admin_def split: sum.splits)

section \<open>Invariants\<close>

text \<open>Before \<open>initialize\<close> every counter is unset.\<close>

definition idle :: "analytics_store \<Rightarrow> bool" where
  "idle s \<longleftrightarrow> (ts_admin s = None \<longrightarrow> ts_total_tx_processed s = None \<and> ts_total_audit_logs s = None
      \<and> ts_last_bundle_id s = None \<and> ts_last_refund_batch_id s = None \<and> ts_total_refund_amount s = None
      \<and> ts_refunded_transactions s = None)
    \<and> (ts_last_batch_id s = None \<longleftrightarrow> ts_admin s = None)"

definition refunds :: "analytics_event list \<Rightarrow> nat list" where
  "refunds evs = concat (map (\<lambda>ev. case ev of RefundProcessed _ r \<Rightarrow> if re_success r then [re_tx_id r] else [] | _ \<Rightarrow> []) evs)"

definition updates :: "analytics_event list \<Rightarrow> nat" where
  "updates evs = length (filter (\<lambda>ev. case ev of AnalyticsUpdated _ _ _ _ _ \<Rightarrow> True | _ \<Rightarrow> False) evs)"

definition failures :: "analytics_event list \<Rightarrow> bool" where
  "failures evs \<longleftrightarrow> (\<exists>ev\<in>set evs. case ev of TransactionValidationFailed _ _ _ \<Rightarrow> True | _ \<Rightarrow> False)"

lemma measures_append [simp]:
  "refunds (evs @ evs') = refunds evs @ refunds evs'" "updates (evs @ evs') = updates evs + updates evs'"
  "failures (evs @ evs') \<longleftrightarrow> failures evs \<or> failures evs'" "refunds [] = []" "updates [] = 0" "\<not> failures []"
  by (auto simp: refunds_def updates_def failures_def)

lemma measures_quiet [simp]:
  "\<forall>ev\<in>set evs. quiet ev \<Longrightarrow> refunds evs = []" "\<forall>ev\<in>set evs. quiet ev \<Longrightarrow> updates evs = 0"
  "\<forall>ev\<in>set evs. quiet ev \<Longrightarrow> \<not> failures evs"
proof -
  assume q: "\<forall>ev\<in>set evs. quiet ev"
  show "refunds evs = []" "updates evs = 0" "\<not> failures evs"
    using q by (auto simp: refunds_def updates_def failures_def quiet_def filter_empty_conv split: analytics_event.splits)
qed

lemma measures_cons:
  "refunds (ev # evs) = (case ev of RefundProcessed _ r \<Rightarrow> if re_success r then [re_tx_id r] else [] | _ \<Rightarrow> []) @ refunds evs"
  "updates (ev # evs) = (case ev of AnalyticsUpdated _ _ _ _ _ \<Rightarrow> 1 | _ \<Rightarrow> 0) + updates evs"
  "failures (ev # evs) \<longleftrightarrow> (case ev of TransactionValidationFailed _ _ _ \<Rightarrow> True | _ \<Rightarrow> False) \<or> failures evs"
  by (auto simp: refunds_def updates_def failures_def split: analytics_event.splits)

lemma measures_refunds [simp]:
  "refunds (concat (map (refund_events i) rs)) = map re_tx_id (filter re_success rs)"
  "updates (concat (map (refund_events i) rs)) = 0" "\<not> failures (concat (map (refund_events i) rs))"
  by (induction rs) (auto simp: refund_events_def measures_cons split: option.splits)

definition store_inv :: "analytics_store \<Rightarrow> bool" where
  "store_inv s \<longleftrightarrow> idle s
    \<and> (\<forall>i. ts_batch_metrics s i = None \<longleftrightarrow> i = 0 \<or> get_last_batch_id s < i)
    \<and> get_total_transactions_processed s = (\<Sum>i=1..get_last_batch_id s. bm_tx_count (the (ts_batch_metrics s i)))
    \<and> (\<forall>i. ts_audit_log s i = None \<longleftrightarrow> i = 0 \<or> get_total_audit_logs s < i)"

definition bundles_inv :: "analytics_store \<Rightarrow> bool" where
  "bundles_inv s \<longleftrightarrow> idle s \<and> \<not> failures (ts_events s)
    \<and> (\<forall>i. ts_bundle_result s i = None \<longleftrightarrow> i = 0 \<or> get_last_bundle_id s < i)
    \<and> (\<forall>i b. ts_bundle_result s i = Some b \<longrightarrow> bu_can_bundle b \<and> bu_invalid_count b = 0 \<and> bu_valid_count b = bu_total_count b)"

definition refunds_inv :: "analytics_store \<Rightarrow> bool" where
  "refunds_inv s \<longleftrightarrow> idle s \<and> distinct (refunds (ts_events s)) \<and> (\<forall>i\<in>set (refunds (ts_events s)). odd i)
    \<and> (\<forall>i. unwrap_or (ts_refunded_transactions s) Map.empty i \<noteq> None \<longleftrightarrow> i \<in> set (refunds (ts_events s)))
    \<and> (\<forall>i. ts_refund_batch_metrics s i = None \<longleftrightarrow> i = 0 \<or> get_last_refund_batch_id s < i)
    \<and> get_total_refund_amount s = (\<Sum>i=1..get_last_refund_batch_id s. rm_total_refunded_amount (the (ts_refund_batch_metrics s i)))"

definition known_inv :: "analytics_store \<Rightarrow> bool" where
  "known_inv s \<longleftrightarrow> (\<forall>i. ts_transaction_status s i \<noteq> None \<longrightarrow> ts_known_transaction s i \<noteq> None)
    \<and> (\<forall>i u n. ts_rating s (i, u) = Some n \<longrightarrow> ts_known_transaction s i \<noteq> None \<and> 1 \<le> n \<and> n \<le> 5)
    \<and> (\<forall>u. ts_user_spending_summary s u = None) \<and> get_total_tracked_users s = updates (ts_events s)"

lemmas store_getters = get_last_batch_id_def get_total_transactions_processed_def get_total_audit_logs_def get_last_bundle_id_def
  get_last_refund_batch_id_def get_total_refund_amount_def get_total_tracked_users_def

lemma metrics_count: "compute_batch_metrics s txs now = Inr m \<Longrightarrow> bm_tx_count m = length txs"
  by (auto simp: compute_batch_metrics_def Let_def split: if_splits sum.splits)

lemma sum_upto_snoc:
  "(\<Sum>i=1..Suc n. f (if i = Suc n then v else g i)) = (\<Sum>i=1..n. f (g i)) + f v" for f :: "'v \<Rightarrow> 'b :: comm_monoid_add"
  by simp

text \<open>Every call either does one of these things to the state or leaves all of it but ratings, statuses and the fee
  configuration alone; so one case analysis serves all the invariants.\<close>

lemma store_exec_cases:
  assumes "store_exec c s = Inr s'"
  obtains
    (init) a where "initialize a s = Inr ((), s')"
  | (process) e a txs th m where "process_batch e a txs th s = Inr (m, s')"
  | (audit) e a logs where "batch_audit_log e a logs s = Inr ((), s')"
  | (statuses) e a us r where "update_transaction_statuses e a us s = Inr (r, s')"
  | (ratings) e a rs r where "submit_ratings e a rs s = Inr (r, s')"
  | (admin) a b where "ts_admin s = Some a" "s' = s\<lparr>ts_admin := Some b\<rparr>"
  | (bundling) e a txs b where "bundle_transactions e a txs s = Inr (b, s')"
  | (refund) e a rqs lookup m where "refund_batch e a rqs lookup s = Inr (m, s')"
  | (monthly) e a u txs y mo an where "update_monthly_analytics e a u txs y mo s = Inr (an, s')"
  | (config) cfg ops paused evs where "\<forall>ev\<in>set evs. quiet ev"
      "s' = s\<lparr>ts_current_fee_config := cfg, ts_operation_fee_config := ops, ts_fee_paused := paused, ts_events := ts_events s @ evs\<rparr>"
proof -
  obtain e call where c: "c = (e, call)" by (cases c)
  show thesis
  proof (cases call)
    case (CFeeConfig a cfg)
    with assms c obtain evs where "\<forall>ev\<in>set evs. quiet ev" "s' = s\<lparr>ts_current_fee_config := Some cfg, ts_events := ts_events s @ evs\<rparr>"
      by (auto dest: config_Inr(1))
    then show thesis by (intro config [where evs = evs and cfg = "Some cfg" and ops = "ts_operation_fee_config s" and paused = "ts_fee_paused s"]) simp_all
  next
    case (COperationFee a op cfg)
    with assms c have "s' = s\<lparr>ts_operation_fee_config := (ts_operation_fee_config s)(op \<mapsto> cfg),
       ts_events := ts_events s @ [OperationFeeUpdated a op (ts_operation_fee_config s op) cfg]\<rparr>" by (auto dest: config_Inr(2))
    then show thesis by (intro config [where evs = "[OperationFeeUpdated a op (ts_operation_fee_config s op) cfg]" and cfg = "ts_current_fee_config s" and ops = "(ts_operation_fee_config s)(op \<mapsto> cfg)" and paused = "ts_fee_paused s"]) simp_all
  next
    case (CPause a)
    with assms c have "s' = s\<lparr>ts_fee_paused := Some True, ts_events := ts_events s @ [FeePauseToggled a True]\<rparr>"
      by (auto dest: config_Inr(3))
    then show thesis by (intro config [where evs = "[FeePauseToggled a True]" and cfg = "ts_current_fee_config s" and ops = "ts_operation_fee_config s" and paused = "Some True"]) simp_all
  next
    case (CResume a)
    with assms c have "s' = s\<lparr>ts_fee_paused := Some False, ts_events := ts_events s @ [FeePauseToggled a False]\<rparr>"
      by (auto dest: config_Inr(4))
    then show thesis by (intro config [where evs = "[FeePauseToggled a False]" and cfg = "ts_current_fee_config s" and ops = "ts_operation_fee_config s" and paused = "Some False"]) simp_all
  next
    case (CSetAdmin a b)
    with assms c show thesis by (auto dest!: set_admin_Inr intro: admin)
  qed (use assms c in \<open>auto intro: init process audit statuses ratings bundling refund monthly\<close>)
qed

lemma idle_step:
  assumes "idle s" and "store_exec c s = Inr s'"
  shows "idle s'"
  using assms(2)
proof (cases rule: store_exec_cases)
  case (process e a txs th m)
  then show ?thesis using assms(1) by (elim store_process_Inr) (simp add: idle_def)
next
  case (audit e a logs)
  then show ?thesis using assms(1) by (elim audit_Inr) (simp add: idle_def)
next
  case (statuses e a us r)
  then show ?thesis using assms(1) by (elim statuses_Inr) (simp add: idle_def)
next
  case (ratings e a rs r)
  then show ?thesis using assms(1) by (elim ratings_Inr) (simp add: idle_def)
next
  case (bundling e a txs b)
  then show ?thesis using assms(1) by (elim bundle_Inr) (simp add: idle_def)
next
  case (refund e a rqs lookup m)
  then show ?thesis using assms(1) by (elim refund_Inr) (simp add: idle_def)
next
  case (monthly e a u txs y mo an)
  then show ?thesis using assms(1) by (elim monthly_Inr) (simp add: idle_def)
qed (use assms(1) in \<open>auto simp: idle_def store_initialize_Inr\<close>)

lemma store_inv_step:
  assumes "store_inv s" and "store_exec c s = Inr s'"
  shows "store_inv s'"
proof -
  have i: "idle s'" by (rule idle_step [OF _ assms(2)]) (use assms(1) in \<open>simp add: store_inv_def\<close>)
  from assms(2) show ?thesis
  proof (cases rule: store_exec_cases)
    case (init a)
    then show ?thesis using assms(1) i by (simp add: store_inv_def store_initialize_Inr idle_def store_getters)
  next
    case (process e a txs th m)
    then show ?thesis
    proof (rule store_process_Inr)
      fix k evs
      assume "compute_batch_metrics (know_all txs s) txs (env_sequence e) = Inr m"
        and s': "s' = s\<lparr>ts_known_transaction := k, ts_last_batch_id := Some (Suc (get_last_batch_id s)),
           ts_total_tx_processed := Some (get_total_transactions_processed s + length txs),
           ts_batch_metrics := (ts_batch_metrics s)(Suc (get_last_batch_id s) \<mapsto> m), ts_events := ts_events s @ evs\<rparr>"
      then have "bm_tx_count m = length txs" by (simp add: metrics_count)
      moreover have "(\<Sum>j=1..get_last_batch_id s. bm_tx_count (the (((ts_batch_metrics s)(Suc (get_last_batch_id s) \<mapsto> m)) j)))
          = (\<Sum>j=1..get_last_batch_id s. bm_tx_count (the (ts_batch_metrics s j)))" by (intro sum.cong) auto
      ultimately show ?thesis using assms(1) i by (auto simp: store_inv_def s' store_getters)
    qed
  next
    case (audit e a logs)
    then show ?thesis
    proof (rule audit_Inr)
      fix evs m
      assume m: "\<And>i. m i \<noteq> None \<longleftrightarrow> ts_audit_log s i \<noteq> None \<or> get_total_audit_logs s < i \<and> i \<le> get_total_audit_logs s + length logs"
        and s': "s' = s\<lparr>ts_audit_log := m, ts_events := ts_events s @ evs, ts_total_audit_logs := Some (get_total_audit_logs s + length logs)\<rparr>"
      have old: "ts_audit_log s j = None \<longleftrightarrow> j = 0 \<or> get_total_audit_logs s < j" for j using assms(1) by (simp add: store_inv_def)
      have "m j = None \<longleftrightarrow> j = 0 \<or> get_total_audit_logs s + length logs < j" for j using m [of j] old [of j] by auto
      then show ?thesis using assms(1) i by (simp add: store_inv_def s' store_getters)
    qed
  next
    case (statuses e a us r)
    then show ?thesis using assms(1) i by (elim statuses_Inr) (simp add: store_inv_def store_getters)
  next
    case (ratings e a rs r)
    then show ?thesis using assms(1) i by (elim ratings_Inr) (simp add: store_inv_def store_getters)
  next
    case (bundling e a txs b)
    then show ?thesis using assms(1) i by (elim bundle_Inr) (simp add: store_inv_def store_getters)
  next
    case (refund e a rqs lookup m)
    then show ?thesis using assms(1) i by (elim refund_Inr) (simp add: store_inv_def store_getters)
  next
    case (monthly e a u txs y mo an)
    then show ?thesis using assms(1) i by (elim monthly_Inr) (simp add: store_inv_def store_getters measures_cons)
  qed (use assms(1) i in \<open>auto simp: store_inv_def store_getters\<close>)
qed

lemma bundles_inv_step:
  assumes "bundles_inv s" and "store_exec c s = Inr s'"
  shows "bundles_inv s'"
proof -
  have i: "idle s'" by (rule idle_step [OF _ assms(2)]) (use assms(1) in \<open>simp add: bundles_inv_def\<close>)
  from assms(2) show ?thesis
  proof (cases rule: store_exec_cases)
    case (init a)
    then show ?thesis using assms(1) i by (simp add: bundles_inv_def store_initialize_Inr idle_def store_getters)
  next
    case (process e a txs th m)
    then show ?thesis using assms(1) i by (elim store_process_Inr) (simp add: bundles_inv_def store_getters)
  next
    case (audit e a logs)
    then show ?thesis using assms(1) i by (elim audit_Inr) (simp add: bundles_inv_def store_getters)
  next
    case (statuses e a us r)
    then show ?thesis using assms(1) i by (elim statuses_Inr) (simp add: bundles_inv_def store_getters)
  next
    case (ratings e a rs r)
    then show ?thesis using assms(1) i by (elim ratings_Inr) (simp add: bundles_inv_def store_getters)
  next
    case (bundling e a txs b)
    then show ?thesis using assms(1) i by (elim bundle_Inr) (auto simp: bundles_inv_def store_getters)
  next
    case (refund e a rqs lookup m)
    then show ?thesis using assms(1) i by (elim refund_Inr) (simp add: bundles_inv_def store_getters measures_cons)
  next
    case (monthly e a u txs y mo an)
    then show ?thesis using assms(1) i by (elim monthly_Inr) (simp add: bundles_inv_def store_getters measures_cons)
  qed (use assms(1) i in \<open>auto simp: bundles_inv_def store_getters\<close>)
qed

lemma refunds_inv_step:
  assumes "refunds_inv s" and "store_exec c s = Inr s'"
  shows "refunds_inv s'"
proof -
  have i: "idle s'" by (rule idle_step [OF _ assms(2)]) (use assms(1) in \<open>simp add: refunds_inv_def\<close>)
  from assms(2) show ?thesis
  proof (cases rule: store_exec_cases)
    case (init a)
    with assms(1) have "refunds (ts_events s) = []"
      by (cases "refunds (ts_events s)") (auto simp: refunds_inv_def store_initialize_Inr idle_def)
    with init show ?thesis using assms(1) i by (simp add: refunds_inv_def store_initialize_Inr idle_def store_getters)
  next
    case (process e a txs th m)
    then show ?thesis using assms(1) i by (elim store_process_Inr) (simp add: refunds_inv_def store_getters)
  next
    case (audit e a logs)
    then show ?thesis using assms(1) i by (elim audit_Inr) (simp add: refunds_inv_def store_getters)
  next
    case (statuses e a us r)
    then show ?thesis using assms(1) i by (elim statuses_Inr) (simp add: refunds_inv_def store_getters)
  next
    case (ratings e a rs r)
    then show ?thesis using assms(1) i by (elim ratings_Inr) (simp add: refunds_inv_def store_getters)
  next
    case (bundling e a txs b)
    then show ?thesis using assms(1) i by (elim bundle_Inr) (simp add: refunds_inv_def store_getters)
  next
    case (refund e a rqs lookup m)
    then show ?thesis
    proof (rule refund_Inr)
      let ?old = "unwrap_or (ts_refunded_transactions s) Map.empty"
      fix rs ref
      assume p: "process_refund_batch rqs lookup ?old = (rs, ref)" and m: "m = compute_refund_metrics rs (env_sequence e)"
        and s': "s' = s\<lparr>ts_last_refund_batch_id := Some (Suc (get_last_refund_batch_id s)),
         ts_total_refund_amount := Some (get_total_refund_amount s + rm_total_refunded_amount m),
         ts_refund_batch_metrics := (ts_refund_batch_metrics s)(Suc (get_last_refund_batch_id s) \<mapsto> m),
         ts_refunded_transactions := Some ref,
         ts_events := ts_events s @ (RefundBatchStarted (Suc (get_last_refund_batch_id s)) (length rqs)
           # concat (map (refund_events (Suc (get_last_refund_batch_id s))) rs)
           @ [RefundBatchCompleted (Suc (get_last_refund_batch_id s)) m])\<rparr>"
      let ?new = "map re_tx_id (filter re_success rs)"
      have r: "distinct ?new" "\<forall>r\<in>set rs. re_success r \<longrightarrow> refundable lookup ?old (re_tx_id r)"
        "\<forall>j. ref j \<noteq> None \<longleftrightarrow> ?old j \<noteq> None \<or> j \<in> re_tx_id ` set (filter re_success rs)"
        using process_refunds [of lookup "[]" ?old rqs rs ref] p by (auto simp: process_refund_batch_def)
      have ev: "refunds (ts_events s') = refunds (ts_events s) @ ?new" by (simp add: s' measures_cons)
      have old: "?old j \<noteq> None \<longleftrightarrow> j \<in> set (refunds (ts_events s))" for j using assms(1) by (simp add: refunds_inv_def)
      have fresh: "j \<notin> set (refunds (ts_events s)) \<and> odd j" if "j \<in> set ?new" for j
      proof -
        from that obtain r where "r \<in> set rs" "re_success r" and j: "j = re_tx_id r" by auto
        with r(2) have "?old j = None" "odd j" by (simp_all add: refundable_def)
        with old [of j] show ?thesis by simp
      qed
      have "distinct (refunds (ts_events s'))" "\<forall>j\<in>set (refunds (ts_events s')). odd j"
        using assms(1) r(1) fresh by (auto simp: ev refunds_inv_def)
      moreover have "ref j \<noteq> None \<longleftrightarrow> j \<in> set (refunds (ts_events s'))" for j using r(3) old by (simp add: ev)
      moreover have "(\<Sum>j=1..get_last_refund_batch_id s. rm_total_refunded_amount (the (((ts_refund_batch_metrics s)(Suc (get_last_refund_batch_id s) \<mapsto> m)) j)))
          = (\<Sum>j=1..get_last_refund_batch_id s. rm_total_refunded_amount (the (ts_refund_batch_metrics s j)))" by (intro sum.cong) auto
      ultimately show ?thesis using assms(1) i by (auto simp: refunds_inv_def s' store_getters)
    qed
  next
    case (monthly e a u txs y mo an)
    then show ?thesis using assms(1) i by (elim monthly_Inr) (simp add: refunds_inv_def store_getters measures_cons)
  qed (use assms(1) i in \<open>auto simp: refunds_inv_def store_getters\<close>)
qed

lemma known_inv_step:
  assumes "known_inv s" and "store_exec c s = Inr s'"
  shows "known_inv s'"
  using assms(2)
proof (cases rule: store_exec_cases)
  case (init a)
  then show ?thesis using assms(1) by (simp add: known_inv_def store_initialize_Inr store_getters)
next
  case (process e a txs th m)
  then show ?thesis using assms(1) by (elim store_process_Inr) (fastforce simp: known_inv_def store_getters)
next
  case (audit e a logs)
  then show ?thesis using assms(1) by (elim audit_Inr) (simp add: known_inv_def store_getters)
next
  case (statuses e a us r)
  then show ?thesis
  proof (rule statuses_Inr)
    fix evs m
    assume q: "\<forall>ev\<in>set evs. quiet ev"
      and m: "\<And>i. m i \<noteq> None \<Longrightarrow> ts_transaction_status s i \<noteq> None \<or> ts_known_transaction s i \<noteq> None"
      and s': "s' = s\<lparr>ts_transaction_status := m, ts_events := ts_events s @ evs\<rparr>"
    have "m i \<noteq> None \<Longrightarrow> ts_known_transaction s i \<noteq> None" for i
      using m [of i] assms(1) unfolding known_inv_def by blast
    then show ?thesis using assms(1) q unfolding known_inv_def s' by (simp add: store_getters)
  qed
next
  case (ratings e a rs r)
  then show ?thesis
  proof (rule ratings_Inr)
    fix evs m
    assume q: "\<forall>ev\<in>set evs. quiet ev"
      and m: "\<And>i u n. m (i, u) = Some n \<Longrightarrow> ts_rating s (i, u) = Some n \<or> ts_known_transaction s i \<noteq> None \<and> 1 \<le> n \<and> n \<le> 5"
      and s': "s' = s\<lparr>ts_rating := m, ts_events := ts_events s @ evs\<rparr>"
    have "m (i, u) = Some n \<Longrightarrow> ts_known_transaction s i \<noteq> None \<and> 1 \<le> n \<and> n \<le> 5" for i u n
      using m [of i u n] assms(1) unfolding known_inv_def by blast
    then show ?thesis using assms(1) q by (simp add: known_inv_def s' store_getters)
  qed
next
  case (bundling e a txs b)
  then show ?thesis using assms(1) by (elim bundle_Inr) (simp add: known_inv_def store_getters)
next
  case (refund e a rqs lookup m)
  then show ?thesis using assms(1) by (elim refund_Inr) (simp add: known_inv_def store_getters measures_cons)
next
  case (monthly e a u txs y mo an)
  then show ?thesis using assms(1)
    by (elim monthly_Inr) (simp add: known_inv_def store_getters measures_cons)
qed (use assms(1) in \<open>auto simp: known_inv_def store_getters\<close>)

definition batch_store_inv :: "analytics_store \<Rightarrow> bool" where
  "batch_store_inv s \<longleftrightarrow> store_inv s \<and> bundles_inv s \<and> refunds_inv s \<and> known_inv s"

interpretation batch_store_machine: contract_invariant store_exec batch_store_inv "\<lambda>_. True"
  by unfold_locales (auto simp: batch_store_inv_def intro: store_inv_step bundles_inv_step refunds_inv_step known_inv_step)

lemma batch_store_inv_fresh: "batch_store_inv store_fresh"
  by (auto simp: batch_store_inv_def store_inv_def bundles_inv_def refunds_inv_def known_inv_def idle_def store_fresh_def store_getters)

lemma batch_store_run: "batch_store_inv (run store_exec cs store_fresh)"
  by (rule batch_store_machine.run_inv) (simp_all add: batch_store_inv_fresh)

lemma numbered:
  assumes "\<forall>i. m i = None \<longleftrightarrow> i = 0 \<or> (n :: nat) < i"
  shows "{i. m i \<noteq> None} = {1..n}"
proof (rule set_eqI)
  fix i
  from assms have "m i = None \<longleftrightarrow> i = 0 \<or> n < i" ..
  then show "i \<in> {i. m i \<noteq> None} \<longleftrightarrow> i \<in> {1..n}" by (simp add: not_less Suc_le_eq del: not_None_eq)
qed

section \<open>Properties\<close>

text \<open>C20: Refunds happen once.  After any calls, no transaction number occurs twice among the successful refunds of
  all batches together, a number is reported as refunded exactly when it occurs there, and only odd numbers do
  (the stand-in for failed transactions); refund batches are numbered from 1 without gaps, and the total is the
  sum of the totals of the batches.\<close>

theorem analytics_refunds_once:
  "let s = run store_exec cs store_fresh in
     distinct (refunds (ts_events s))
   \<and> {i. is_transaction_refunded i s} = set (refunds (ts_events s)) \<and> set (refunds (ts_events s)) \<subseteq> {i. odd i}
   \<and> {i. get_refund_batch_metrics i s \<noteq> None} = {1..get_last_refund_batch_id s}
   \<and> get_total_refund_amount s
       = (\<Sum>i=1..get_last_refund_batch_id s. rm_total_refunded_amount (the (get_refund_batch_metrics i s)))"
proof -
  let ?s = "run store_exec cs store_fresh"
  have inv: "refunds_inv ?s" using batch_store_run [of cs] by (simp add: batch_store_inv_def)
  have "{i. get_refund_batch_metrics i ?s \<noteq> None} = {1..get_last_refund_batch_id ?s}"
    unfolding get_refund_batch_metrics_def by (rule numbered) (use inv in \<open>simp add: refunds_inv_def\<close>)
  moreover have "{i. is_transaction_refunded i ?s} = set (refunds (ts_events ?s))" "set (refunds (ts_events ?s)) \<subseteq> {i. odd i}"
    "distinct (refunds (ts_events ?s))" using inv unfolding refunds_inv_def is_transaction_refunded_def by blast+
  moreover have "get_total_refund_amount ?s
      = (\<Sum>i=1..get_last_refund_batch_id ?s. rm_total_refunded_amount (the (get_refund_batch_metrics i ?s)))"
    using inv by (simp add: refunds_inv_def get_refund_batch_metrics_def)
  ultimately show ?thesis unfolding Let_def by blast
qed

text \<open>Bundles are all or nothing.  Although a bundle has fields for partial failures and events for invalid
  transactions, every stored bundle can be bundled and counts no invalid transaction, no failure is ever
  announced, and a bundle is stored for each number up to the last: the validation of the entry point refuses
  any bundle whose own validation would find a fault.\<close>

theorem analytics_bundles_all_or_nothing:
  "let s = run store_exec cs store_fresh in
     \<not> failures (ts_events s) \<and> {i. get_bundle_result i s \<noteq> None} = {1..get_last_bundle_id s}
   \<and> (\<forall>i\<in>{1..get_last_bundle_id s}. let b = the (get_bundle_result i s) in
        bu_can_bundle b \<and> bu_invalid_count b = 0 \<and> bu_valid_count b = bu_total_count b)"
proof -
  let ?s = "run store_exec cs store_fresh"
  have inv: "bundles_inv ?s" using batch_store_run [of cs] by (simp add: batch_store_inv_def)
  have dom: "{i. get_bundle_result i ?s \<noteq> None} = {1..get_last_bundle_id ?s}"
    unfolding get_bundle_result_def by (rule numbered) (use inv in \<open>simp add: bundles_inv_def\<close>)
  have "let b = the (get_bundle_result i ?s) in bu_can_bundle b \<and> bu_invalid_count b = 0 \<and> bu_valid_count b = bu_total_count b"
    if "i \<in> {1..get_last_bundle_id ?s}" for i
  proof -
    from that dom obtain b where "get_bundle_result i ?s = Some b" by blast
    with inv show ?thesis by (auto simp: bundles_inv_def get_bundle_result_def)
  qed
  with inv dom show ?thesis by (auto simp: bundles_inv_def Let_def)
qed

text \<open>The books of the analytics contract.  After any calls, batches and audit logs are numbered from 1 without
  gaps, the number of processed transactions is the sum over the batches, statuses exist and ratings from 1 to 5
  only for transactions of some batch; and the number of tracked users is the number of monthly updates, since
  no call stores the summary that would mark a user as known.\<close>

theorem analytics_books:
  "let s = run store_exec cs store_fresh in
     {i. get_batch_metrics i s \<noteq> None} = {1..get_last_batch_id s}
   \<and> {i. get_audit_log i s \<noteq> None} = {1..get_total_audit_logs s}
   \<and> get_total_transactions_processed s = (\<Sum>i=1..get_last_batch_id s. bm_tx_count (the (get_batch_metrics i s)))
   \<and> {i. get_transaction_status i s \<noteq> None} \<subseteq> dom (ts_known_transaction s)
   \<and> ran (ts_rating s) \<subseteq> {1..5} \<and> fst ` dom (ts_rating s) \<subseteq> dom (ts_known_transaction s)
   \<and> get_total_tracked_users s = updates (ts_events s)"
proof -
  let ?s = "run store_exec cs store_fresh"
  have inv: "store_inv ?s" "known_inv ?s" using batch_store_run [of cs] by (simp_all add: batch_store_inv_def)
  have "{i. get_batch_metrics i ?s \<noteq> None} = {1..get_last_batch_id ?s}"
    unfolding get_batch_metrics_def by (rule numbered) (use inv(1) in \<open>simp add: store_inv_def\<close>)
  moreover have "{i. get_audit_log i ?s \<noteq> None} = {1..get_total_audit_logs ?s}"
    unfolding get_audit_log_def by (rule numbered) (use inv(1) in \<open>simp add: store_inv_def\<close>)
  moreover have "get_total_transactions_processed ?s = (\<Sum>i=1..get_last_batch_id ?s. bm_tx_count (the (get_batch_metrics i ?s)))"
    using inv(1) by (simp add: store_inv_def get_batch_metrics_def)
  moreover have "{i. get_transaction_status i ?s \<noteq> None} \<subseteq> dom (ts_known_transaction ?s)"
    using inv(2) by (auto simp: known_inv_def get_transaction_status_def)
  moreover have "ran (ts_rating ?s) \<subseteq> {1..5} \<and> fst ` dom (ts_rating ?s) \<subseteq> dom (ts_known_transaction ?s)"
    using inv(2) by (auto simp: known_inv_def ran_def dom_def)
  moreover have "get_total_tracked_users ?s = updates (ts_events ?s)" using inv(2) by (simp add: known_inv_def)
  ultimately show ?thesis by (simp add: Let_def)
qed

theorem analytics_bundles_all_or_nothing_witness:
  "get_last_bundle_id (run store_exec [(signed_env [Addr 1] 5 60 (Addr 9), CInitialize (Addr 1)),
     (signed_env [Addr 1] 5 60 (Addr 9), CBundle (Addr 1) [\<lparr>bt_transaction = \<lparr>tr_tx_id = 4, tr_from = Addr 1, tr_to = Addr 2,
        tr_amount = 7, tr_timestamp = 5, tr_category = ''food''\<rparr>, bt_memo = None\<rparr>])] store_fresh) = 1
   \<and> bu_can_bundle (the (get_bundle_result 1 (run store_exec [(signed_env [Addr 1] 5 60 (Addr 9), CInitialize (Addr 1)),
     (signed_env [Addr 1] 5 60 (Addr 9), CBundle (Addr 1) [\<lparr>bt_transaction = \<lparr>tr_tx_id = 4, tr_from = Addr 1, tr_to = Addr 2,
        tr_amount = 7, tr_timestamp = 5, tr_category = ''food''\<rparr>, bt_memo = None\<rparr>])] store_fresh)))"
proof -
  let ?cs = "[(signed_env [Addr 1] 5 60 (Addr 9), CInitialize (Addr 1)),
     (signed_env [Addr 1] 5 60 (Addr 9), CBundle (Addr 1) [\<lparr>bt_transaction = \<lparr>tr_tx_id = 4, tr_from = Addr 1, tr_to = Addr 2,
        tr_amount = 7, tr_timestamp = 5, tr_category = ''food''\<rparr>, bt_memo = None\<rparr>])]"
  have last: "get_last_bundle_id (run store_exec ?cs store_fresh) = 1"
    by (simp add: initialize_def bundle_transactions_def store_fresh_def validate_bundled_transactions_def validate_size_def
      validate_bundled_transaction_def validate_transaction_def validate_address_def validate_amount_def u64_add_def
      in_u64_def emit_def emit_all_def gate_def require_admin_def get_last_bundle_id_def Let_def del: gate_Inr)
  let ?s = "run store_exec ?cs store_fresh"
  from analytics_bundles_all_or_nothing [of ?cs, unfolded Let_def]
  have all: "\<forall>i\<in>{1..get_last_bundle_id ?s}. bu_can_bundle (the (get_bundle_result i ?s))" by blast
  have "1 \<in> {1..get_last_bundle_id ?s}" unfolding last by simp
  with all have "bu_can_bundle (the (get_bundle_result 1 ?s))" by (rule bspec)
  with last show ?thesis by blast
qed

end
