(* ===== verification/Throttling.thy ===== *)
theory Throttling
  imports Host
begin

text \<open>
  \<open>contracts/throttling.rs\<close>: at most \<open>max_transactions_per_window\<close> transactions of a wallet per window; the one that
  would exceed it blocks the wallet for \<open>block_duration_seconds\<close>.  The free functions and the entry points that only
  forward to them are one definition each.  The file is declared by no crate.
\<close>

section \<open>Data\<close>

record throttle_config =
  tc_max_transactions_per_window :: nat
  tc_window_size_seconds :: nat
  tc_block_duration_seconds :: nat
  tc_cleanup_interval_seconds :: nat
  tc_enabled :: bool
  tc_exempt_addresses :: "address list"

record wallet_throttle =
  wt_wallet_address :: address
  wt_transaction_count :: nat
  wt_window_start :: nat
  wt_last_transaction_time :: nat
  wt_is_throttled :: bool
  wt_throttle_start_time :: nat
  wt_violation_count :: nat
  wt_total_transactions_all_time :: nat

record throttle_violation =
  tv_wallet_address :: address
  tv_violation_time :: nat
  tv_transaction_count :: nat
  tv_window_size :: nat
  tv_max_allowed :: nat

record global_throttle_stats =
  gs_total_transactions_checked :: nat
  gs_total_violations :: nat
  gs_currently_throttled_wallets :: nat
  gs_last_cleanup_time :: nat
  gs_avg_tx_per_window :: nat

datatype throttle_reason = Allowed | ExceededFrequency | CurrentlyThrottled | WalletExempt | SystemDisabled

record throttle_result =
  tr_allowed :: bool
  tr_reason :: throttle_reason
  tr_remaining_transactions :: nat
  tr_window_reset_time :: nat
  tr_throttle_end_time :: "nat option"

datatype throttle_error =
    NotInitialized | AlreadyInitialized | Unauthorized | InvalidConfig | WalletNotFound | InvalidTimeWindow
  | StorageError | Overflow | InvalidAddress

datatype throttle_event =
    ThrottleTriggered address throttle_violation
  | ThrottleLifted address nat nat
  | TransactionAllowed address nat nat
  | ConfigUpdated address throttle_config nat
  | WalletExempted address address nat
  | CleanupPerformed nat nat nat
  | ViolationRecorded address nat nat

record throttle_state =
  th_admin :: "address option"
  th_config :: "throttle_config option"
  th_wallet :: "address \<rightharpoonup> wallet_throttle"
  th_stats :: "global_throttle_stats option"
  th_throttled :: "address list option"
  th_events :: "throttle_event list"

definition throttle_fresh :: throttle_state where
  "throttle_fresh = \<lparr>th_admin = None, th_config = None, th_wallet = Map.empty, th_stats = None, th_throttled = None,
     th_events = []\<rparr>"

section \<open>Helpers\<close>

definition emit :: "throttle_event \<Rightarrow> throttle_state \<Rightarrow> throttle_state" where
  "emit ev s = s\<lparr>th_events := th_events s @ [ev]\<rparr>"

definition get_admin :: "throttle_state \<Rightarrow> throttle_error trap + address" where
  "get_admin s = (case th_admin s of None \<Rightarrow> Inl (ContractError NotInitialized) | Some a \<Rightarrow> Inr a)"

definition require_admin :: "env \<Rightarrow> address \<Rightarrow> throttle_state \<Rightarrow> throttle_error trap + unit" where
  "require_admin e caller s =
    (if \<not> env_auth e caller then Inl AuthTrap else
     case get_admin s of Inl t \<Rightarrow> Inl t | Inr admin \<Rightarrow>
     if admin \<noteq> caller then Inl (ContractError Unauthorized) else Inr ())"

definition validate_config :: "throttle_config \<Rightarrow> throttle_error trap + unit" where
  "validate_config c =
    (if tc_max_transactions_per_window c = 0 then Inl (ContractError InvalidConfig) else
     if tc_window_size_seconds c = 0 then Inl (ContractError InvalidConfig) else
     if tc_block_duration_seconds c = 0 then Inl (ContractError InvalidConfig) else
     if tc_cleanup_interval_seconds c = 0 then Inl (ContractError InvalidConfig) else Inr ())"

definition get_throttle_config :: "throttle_state \<Rightarrow> throttle_error trap + throttle_config" where
  "get_throttle_config s = (case th_config s of None \<Rightarrow> Inl (ContractError NotInitialized) | Some c \<Rightarrow> Inr c)"

definition no_wallet_state :: "nat \<Rightarrow> address \<Rightarrow> wallet_throttle" where
  "no_wallet_state now a = \<lparr>wt_wallet_address = a, wt_transaction_count = 0, wt_window_start = now,
     wt_last_transaction_time = 0, wt_is_throttled = False, wt_throttle_start_time = 0, wt_violation_count = 0,
     wt_total_transactions_all_time = 0\<rparr>"

definition get_wallet_throttle_state :: "nat \<Rightarrow> address \<Rightarrow> throttle_state \<Rightarrow> wallet_throttle" where
  "get_wallet_throttle_state now a s = unwrap_or (th_wallet s a) (no_wallet_state now a)"

definition save_wallet_throttle_state :: "address \<Rightarrow> wallet_throttle \<Rightarrow> throttle_state \<Rightarrow> throttle_state" where
  "save_wallet_throttle_state a x s = s\<lparr>th_wallet := (th_wallet s)(a \<mapsto> x)\<rparr>"

definition get_throttled_wallets :: "throttle_state \<Rightarrow> address list" where
  "get_throttled_wallets s = unwrap_or (th_throttled s) []"

definition add_to_throttled_wallets :: "address \<Rightarrow> throttle_state \<Rightarrow> throttle_state" where
  "add_to_throttled_wallets a s = (let throttled_wallets = get_throttled_wallets s in
     if a \<in> set throttled_wallets then s else s\<lparr>th_throttled := Some (throttled_wallets @ [a])\<rparr>)"

definition remove_from_throttled_wallets :: "address \<Rightarrow> throttle_state \<Rightarrow> throttle_state" where
  "remove_from_throttled_wallets a s = s\<lparr>th_throttled := Some (filter (\<lambda>b. b \<noteq> a) (get_throttled_wallets s))\<rparr>"

definition no_stats :: "nat \<Rightarrow> global_throttle_stats" where
  "no_stats now = \<lparr>gs_total_transactions_checked = 0, gs_total_violations = 0, gs_currently_throttled_wallets = 0,
     gs_last_cleanup_time = now, gs_avg_tx_per_window = 0\<rparr>"

definition get_global_throttle_stats :: "throttle_state \<Rightarrow> global_throttle_stats" where
  "get_global_throttle_stats s = unwrap_or (th_stats s) (no_stats 0)"

definition update_global_stats :: "bool \<Rightarrow> throttle_state \<Rightarrow> throttle_error trap + throttle_state" where
  "update_global_stats is_violation s = (let g = get_global_throttle_stats s in
     case u64_add (gs_total_transactions_checked g) 1 of None \<Rightarrow> Inl ArithTrap | Some checked \<Rightarrow>
     case (if is_violation then u64_add (gs_total_violations g) 1 else Some (gs_total_violations g)) of
       None \<Rightarrow> Inl ArithTrap | Some violations \<Rightarrow>
     let throttled = length (get_throttled_wallets s);
         avg = (if 0 < checked then min u64_max (violations * 10000) div checked else gs_avg_tx_per_window g) in
     Inr (s\<lparr>th_stats := Some (g\<lparr>gs_total_transactions_checked := checked, gs_total_violations := violations,
        gs_currently_throttled_wallets := throttled, gs_avg_tx_per_window := avg\<rparr>)\<rparr>))"

definition cleanup_old_data :: "nat \<Rightarrow> throttle_state \<Rightarrow> throttle_error trap + throttle_state" where
  "cleanup_old_data now s =
    (case get_throttle_config s of Inl t \<Rightarrow> Inl t | Inr _ \<Rightarrow>
     Inr (emit (CleanupPerformed 0 0 now) (s\<lparr>th_stats := Some ((get_global_throttle_stats s)\<lparr>gs_last_cleanup_time := now\<rparr>)\<rparr>)))"

definition maybe_cleanup_old_data :: "nat \<Rightarrow> throttle_state \<Rightarrow> throttle_error trap + throttle_state" where
  "maybe_cleanup_old_data now s =
    (case get_throttle_config s of Inl t \<Rightarrow> Inl t | Inr config \<Rightarrow>
     case u64_add (gs_last_cleanup_time (get_global_throttle_stats s)) (tc_cleanup_interval_seconds config) of
       None \<Rightarrow> Inl ArithTrap | Some due \<Rightarrow>
     if due \<le> now then cleanup_old_data now s else Inr s)"

section \<open>The check of a transaction\<close>

type_synonym 'a throttle_outcome = "(throttle_state, throttle_error, 'a) outcome"

definition waved_through :: "throttle_reason \<Rightarrow> throttle_result" where
  "waved_through r = \<lparr>tr_allowed = True, tr_reason = r, tr_remaining_transactions = u32_max, tr_window_reset_time = 0,
     tr_throttle_end_time = None\<rparr>"

text \<open>The transaction that exceeds the limit (the branch \<open>transaction_count >= max_transactions_per_window\<close>).\<close>

definition trigger_throttle ::
  "nat \<Rightarrow> throttle_config \<Rightarrow> address \<Rightarrow> wallet_throttle \<Rightarrow> throttle_state \<Rightarrow> throttle_result throttle_outcome" where
  "trigger_throttle now config a x s =
    (case u32_add (wt_violation_count x) 1 of None \<Rightarrow> Inl (ContractError Overflow) | Some violation_count \<Rightarrow>
     let x1 = x\<lparr>wt_is_throttled := True, wt_throttle_start_time := now, wt_violation_count := violation_count\<rparr> in
     case u32_add (wt_transaction_count x1) 1 of None \<Rightarrow> Inl ArithTrap | Some count \<Rightarrow>
     let violation = \<lparr>tv_wallet_address = a, tv_violation_time = now, tv_transaction_count = count,
           tv_window_size = tc_window_size_seconds config, tv_max_allowed = tc_max_transactions_per_window config\<rparr> in
     case update_global_stats True (add_to_throttled_wallets a s) of Inl t \<Rightarrow> Inl t | Inr s1 \<Rightarrow>
     let s2 = emit (ViolationRecorded a violation_count now)
           (emit (ThrottleTriggered a violation) (save_wallet_throttle_state a x1 s1)) in
     case u64_add (wt_window_start x1) (tc_window_size_seconds config) of None \<Rightarrow> Inl ArithTrap | Some reset \<Rightarrow>
     case u64_add now (tc_block_duration_seconds config) of None \<Rightarrow> Inl ArithTrap | Some over \<Rightarrow>
     Inr (\<lparr>tr_allowed = False, tr_reason = ExceededFrequency, tr_remaining_transactions = 0,
           tr_window_reset_time = reset, tr_throttle_end_time = Some over\<rparr>, s2))"

definition allow_transaction ::
  "nat \<Rightarrow> throttle_config \<Rightarrow> address \<Rightarrow> wallet_throttle \<Rightarrow> throttle_state \<Rightarrow> throttle_result throttle_outcome" where
  "allow_transaction now config a x s =
    (case u32_add (wt_transaction_count x) 1 of None \<Rightarrow> Inl (ContractError Overflow) | Some count \<Rightarrow>
     case u64_add (wt_total_transactions_all_time x) 1 of None \<Rightarrow> Inl (ContractError Overflow) | Some total_count \<Rightarrow>
     let x1 = x\<lparr>wt_transaction_count := count, wt_last_transaction_time := now, wt_total_transactions_all_time := total_count\<rparr> in
     case u64_sub (tc_max_transactions_per_window config) count of None \<Rightarrow> Inl ArithTrap | Some remaining \<Rightarrow>
     case update_global_stats False s of Inl t \<Rightarrow> Inl t | Inr s1 \<Rightarrow>
     let s2 = emit (TransactionAllowed a remaining now) (save_wallet_throttle_state a x1 s1) in
     case u64_add (wt_window_start x1) (tc_window_size_seconds config) of None \<Rightarrow> Inl ArithTrap | Some reset \<Rightarrow>
     Inr (\<lparr>tr_allowed = True, tr_reason = Allowed, tr_remaining_transactions = remaining,
           tr_window_reset_time = reset, tr_throttle_end_time = None\<rparr>, s2))"

text \<open>From the window check on: the wallet is not blocked.\<close>

definition check_window ::
  "nat \<Rightarrow> throttle_config \<Rightarrow> address \<Rightarrow> wallet_throttle \<Rightarrow> throttle_state \<Rightarrow> throttle_result throttle_outcome" where
  "check_window now config a x s =
    (case u64_add (wt_window_start x) (tc_window_size_seconds config) of None \<Rightarrow> Inl ArithTrap | Some reset \<Rightarrow>
     let x1 = (if reset \<le> now then x\<lparr>wt_transaction_count := 0, wt_window_start := now\<rparr> else x) in
     if tc_max_transactions_per_window config \<le> wt_transaction_count x1
     then trigger_throttle now config a x1 s else allow_transaction now config a x1 s)"

definition lifted :: "nat \<Rightarrow> wallet_throttle \<Rightarrow> wallet_throttle" where
  "lifted now x = x\<lparr>wt_is_throttled := False, wt_transaction_count := 0, wt_window_start := now, wt_violation_count := 0\<rparr>"

definition check_transaction_throttle :: "env \<Rightarrow> address \<Rightarrow> throttle_state \<Rightarrow> throttle_result throttle_outcome" where
  "check_transaction_throttle e a s =
    (case get_throttle_config s of Inl t \<Rightarrow> Inl t | Inr config \<Rightarrow>
     if \<not> tc_enabled config then Inr (waved_through SystemDisabled, s) else
     if a \<in> set (tc_exempt_addresses config) then Inr (waved_through WalletExempt, s) else
     let now = env_timestamp e in
     case maybe_cleanup_old_data now s of Inl t \<Rightarrow> Inl t | Inr s1 \<Rightarrow>
     let x = get_wallet_throttle_state now a s1 in
     if wt_is_throttled x then
       case u64_add (wt_throttle_start_time x) (tc_block_duration_seconds config) of None \<Rightarrow> Inl ArithTrap | Some over \<Rightarrow>
       if now < over then
         case u64_add (wt_window_start x) (tc_window_size_seconds config) of None \<Rightarrow> Inl ArithTrap | Some reset \<Rightarrow>
         Inr (\<lparr>tr_allowed = False, tr_reason = CurrentlyThrottled, tr_remaining_transactions = 0,
               tr_window_reset_time = reset, tr_throttle_end_time = Some over\<rparr>, s1)
       else check_window now config a (lifted now x)
              (emit (ThrottleLifted a (tc_block_duration_seconds config) now) (remove_from_throttled_wallets a s1))
     else check_window now config a x s1)"

section \<open>Administration\<close>

definition initialize_throttle_contract ::
  "env \<Rightarrow> address \<Rightarrow> throttle_config \<Rightarrow> throttle_state \<Rightarrow> unit throttle_outcome" where
  "initialize_throttle_contract e admin config s =
    (if th_admin s \<noteq> None then Inl (ContractError AlreadyInitialized) else
     case validate_config config of Inl t \<Rightarrow> Inl t | Inr _ \<Rightarrow>
     Inr ((), s\<lparr>th_admin := Some admin, th_config := Some config, th_throttled := Some [],
            th_stats := Some (no_stats (env_timestamp e))\<rparr>))"

definition update_throttle_config ::
  "env \<Rightarrow> address \<Rightarrow> throttle_config \<Rightarrow> throttle_state \<Rightarrow> unit throttle_outcome" where
  "update_throttle_config e caller new_config s =
    (case require_admin e caller s of Inl t \<Rightarrow> Inl t | Inr _ \<Rightarrow>
     case validate_config new_config of Inl t \<Rightarrow> Inl t | Inr _ \<Rightarrow>
     Inr ((), emit (ConfigUpdated caller new_config (env_timestamp e)) (s\<lparr>th_config := Some new_config\<rparr>)))"

definition add_exempt_address :: "env \<Rightarrow> address \<Rightarrow> address \<Rightarrow> throttle_state \<Rightarrow> unit throttle_outcome" where
  "add_exempt_address e caller a s =
    (case require_admin e caller s of Inl t \<Rightarrow> Inl t | Inr _ \<Rightarrow>
     case get_throttle_config s of Inl t \<Rightarrow> Inl t | Inr config \<Rightarrow>
     if a \<in> set (tc_exempt_addresses config) then Inr ((), s) else
     Inr ((), emit (WalletExempted caller a (env_timestamp e))
       (s\<lparr>th_config := Some (config\<lparr>tc_exempt_addresses := tc_exempt_addresses config @ [a]\<rparr>)\<rparr>)))"

definition remove_exempt_address :: "env \<Rightarrow> address \<Rightarrow> address \<Rightarrow> throttle_state \<Rightarrow> unit throttle_outcome" where
  "remove_exempt_address e caller a s =
    (case require_admin e caller s of Inl t \<Rightarrow> Inl t | Inr _ \<Rightarrow>
     case get_throttle_config s of Inl t \<Rightarrow> Inl t | Inr config \<Rightarrow>
     if a \<in> set (tc_exempt_addresses config)
     then Inr ((), s\<lparr>th_config := Some (config\<lparr>tc_exempt_addresses := filter (\<lambda>b. b \<noteq> a) (tc_exempt_addresses config)\<rparr>)\<rparr>)
     else Inr ((), s))"

definition force_cleanup :: "env \<Rightarrow> address \<Rightarrow> throttle_state \<Rightarrow> unit throttle_outcome" where
  "force_cleanup e caller s =
    (case require_admin e caller s of Inl t \<Rightarrow> Inl t | Inr _ \<Rightarrow>
     case cleanup_old_data (env_timestamp e) s of Inl t \<Rightarrow> Inl t | Inr s1 \<Rightarrow> Inr ((), s1))"

definition reset_wallet_throttle_state :: "env \<Rightarrow> address \<Rightarrow> address \<Rightarrow> throttle_state \<Rightarrow> unit throttle_outcome" where
  "reset_wallet_throttle_state e caller a s =
    (case require_admin e caller s of Inl t \<Rightarrow> Inl t | Inr _ \<Rightarrow>
     case get_throttle_config s of Inl t \<Rightarrow> Inl t | Inr config \<Rightarrow>
     Inr ((), remove_from_throttled_wallets a
       (save_wallet_throttle_state a (no_wallet_state (env_timestamp e) a) s)))"

definition get_wallet_throttle_info :: "env \<Rightarrow> address \<Rightarrow> throttle_state \<Rightarrow> wallet_throttle option" where
  "get_wallet_throttle_info e a s = Some (get_wallet_throttle_state (env_timestamp e) a s)"

datatype throttle_call =
    CInitialize address throttle_config
  | CCheck address
  | CConfigure address throttle_config
  | CAddExempt address address
  | CRemoveExempt address address
  | CCleanup address
  | CReset address address

fun throttle_exec :: "env \<times> throttle_call \<Rightarrow> throttle_state \<Rightarrow> throttle_error trap + throttle_state" where
  "throttle_exec (e, CInitialize a c) s = final (initialize_throttle_contract e a c s)"
| "throttle_exec (e, CCheck a) s = final (check_transaction_throttle e a s)"
| "throttle_exec (e, CConfigure a c) s = final (update_throttle_config e a c s)"
| "throttle_exec (e, CAddExempt a b) s = final (add_exempt_address e a b s)"
| "throttle_exec (e, CRemoveExempt a b) s = final (remove_exempt_address e a b s)"
| "throttle_exec (e, CCleanup a) s = final (force_cleanup e a s)"
| "throttle_exec (e, CReset a b) s = final (reset_wallet_throttle_state e a b s)"


section \<open>Pacing\<close>

text \<open>\<open>paced m d h start k\<close>: the times \<open>h\<close> of the admitted transactions when the current window started at \<open>start\<close>
  and has admitted \<open>k\<close> of at most \<open>m\<close>; those before it are at most \<open>start\<close>, and those more than a full window
  before it lie \<open>d\<close> seconds before \<open>start\<close>.\<close>

definition spread :: "nat \<Rightarrow> nat \<Rightarrow> nat list \<Rightarrow> bool" where
  "spread m d h \<longleftrightarrow> (\<forall>k. k + 2 * m < length h \<longrightarrow> h ! k + d \<le> h ! (k + 2 * m))"

definition paced :: "nat \<Rightarrow> nat \<Rightarrow> nat list \<Rightarrow> nat \<Rightarrow> nat \<Rightarrow> bool" where
  "paced m d h start k \<longleftrightarrow> k \<le> m \<and> spread m d h \<and> (\<forall>j. j + k < length h \<longrightarrow> h ! j \<le> start)
     \<and> (\<forall>j. j + k + m < length h \<longrightarrow> h ! j + d \<le> start)"

lemma paced_admit:
  assumes "paced m d h start k" and "k < m" and "start \<le> t"
  shows "paced m d (h @ [t]) start (Suc k)"
  unfolding paced_def spread_def
proof (intro conjI allI impI)
  fix j assume j: "j + 2 * m < length (h @ [t])"
  show "(h @ [t]) ! j + d \<le> (h @ [t]) ! (j + 2 * m)"
  proof (cases "j + 2 * m < length h")
    case True
    then show ?thesis using assms(1) by (simp add: paced_def spread_def nth_append)
  next
    case False
    with j assms(2) have "j + k + m < length h" by simp
    then have "h ! j + d \<le> start" using assms(1) by (simp add: paced_def)
    with False \<open>j + k + m < length h\<close> j assms(3) show ?thesis by (simp add: nth_append)
  qed
qed (use assms in \<open>simp_all add: paced_def nth_append\<close>)

lemma paced_restart:
  assumes "paced m d h start k" and "start + d \<le> t" and "\<And>x. x \<in> set h \<Longrightarrow> x \<le> t"
  shows "paced m d h t 0"
  unfolding paced_def
proof (intro conjI allI impI)
  fix j assume j: "j + 0 + m < length h"
  then have "j + k < length h" using assms(1) by (simp add: paced_def)
  then have "h ! j \<le> start" using assms(1) by (simp add: paced_def)
  with assms(2) show "h ! j + d \<le> t" by simp
qed (use assms in \<open>simp_all add: paced_def\<close>)

lemma paced_later: "paced m d [] start 0"
  by (simp add: paced_def spread_def)

fun allowed_at :: "address \<Rightarrow> throttle_event \<Rightarrow> nat list" where
  "allowed_at a (TransactionAllowed b remaining t) = (if b = a then [t] else [])"
| "allowed_at a _ = []"

definition allowed_times :: "address \<Rightarrow> throttle_state \<Rightarrow> nat list" where
  "allowed_times a s = concat (map (allowed_at a) (th_events s))"

section \<open>What a call does\<close>

lemma throttle_frame [simp]:
  "th_config (emit ev s) = th_config s" "th_wallet (emit ev s) = th_wallet s" "th_admin (emit ev s) = th_admin s"
  "th_stats (emit ev s) = th_stats s" "th_throttled (emit ev s) = th_throttled s"
  "allowed_times a (emit ev s) = allowed_times a s @ allowed_at a ev" "th_events (emit ev s) = th_events s @ [ev]"
  "th_config (save_wallet_throttle_state a x s) = th_config s" "th_admin (save_wallet_throttle_state a x s) = th_admin s"
  "th_wallet (save_wallet_throttle_state a x s) = (th_wallet s)(a \<mapsto> x)"
  "th_stats (save_wallet_throttle_state a x s) = th_stats s" "th_throttled (save_wallet_throttle_state a x s) = th_throttled s"
  "th_events (save_wallet_throttle_state a x s) = th_events s"
  "allowed_times b (save_wallet_throttle_state a x s) = allowed_times b s"
  "th_config (add_to_throttled_wallets a s) = th_config s" "th_wallet (add_to_throttled_wallets a s) = th_wallet s"
  "th_admin (add_to_throttled_wallets a s) = th_admin s" "th_stats (add_to_throttled_wallets a s) = th_stats s"
  "th_events (add_to_throttled_wallets a s) = th_events s" "allowed_times b (add_to_throttled_wallets a s) = allowed_times b s"
  "th_config (remove_from_throttled_wallets a s) = th_config s" "th_wallet (remove_from_throttled_wallets a s) = th_wallet s"
  "th_admin (remove_from_throttled_wallets a s) = th_admin s" "th_stats (remove_from_throttled_wallets a s) = th_stats s"
  "th_events (remove_from_throttled_wallets a s) = th_events s"
  "allowed_times b (remove_from_throttled_wallets a s) = allowed_times b s"
  "get_throttled_wallets (emit ev s) = get_throttled_wallets s"
  "get_throttled_wallets (save_wallet_throttle_state a x s) = get_throttled_wallets s"
  "get_throttled_wallets (add_to_throttled_wallets a s)
     = (if a \<in> set (get_throttled_wallets s) then get_throttled_wallets s else get_throttled_wallets s @ [a])"
  "get_throttled_wallets (remove_from_throttled_wallets a s) = filter (\<lambda>b. b \<noteq> a) (get_throttled_wallets s)"
  by (simp_all add: emit_def save_wallet_throttle_state_def add_to_throttled_wallets_def remove_from_throttled_wallets_def
      allowed_times_def get_throttled_wallets_def Let_def)

lemma throttle_require_admin_Inr [simp]: "require_admin e a s = Inr u \<longleftrightarrow> env_auth e a \<and> th_admin s = Some a"
  by (auto simp: require_admin_def get_admin_def split: option.splits)

lemma get_throttle_config_Inr [simp]: "get_throttle_config s = Inr c \<longleftrightarrow> th_config s = Some c"
  by (simp add: get_throttle_config_def split: option.splits)

definition good_config :: "throttle_config \<Rightarrow> bool" where
  "good_config c \<longleftrightarrow> 0 < tc_max_transactions_per_window c \<and> 0 < tc_window_size_seconds c \<and> 0 < tc_block_duration_seconds c
     \<and> 0 < tc_cleanup_interval_seconds c"

lemma validate_config_Inr [simp]: "validate_config c = Inr u \<longleftrightarrow> good_config c"
  by (auto simp: validate_config_def good_config_def)

text \<open>\<open>same_but_stats\<close>: only the statistics may differ.\<close>

definition same_but_stats :: "throttle_state \<Rightarrow> throttle_state \<Rightarrow> bool" where
  "same_but_stats s s' \<longleftrightarrow> th_config s' = th_config s \<and> th_admin s' = th_admin s \<and> th_wallet s' = th_wallet s
     \<and> get_throttled_wallets s' = get_throttled_wallets s"

definition checked_of :: "throttle_state \<Rightarrow> nat" where
  "checked_of s = gs_total_transactions_checked (get_global_throttle_stats s)"

definition violations_of :: "throttle_state \<Rightarrow> nat" where
  "violations_of s = gs_total_violations (get_global_throttle_stats s)"

lemma stats_frame [simp]:
  "checked_of (emit ev s) = checked_of s" "violations_of (emit ev s) = violations_of s"
  "checked_of (save_wallet_throttle_state a x s) = checked_of s" "violations_of (save_wallet_throttle_state a x s) = violations_of s"
  "checked_of (add_to_throttled_wallets a s) = checked_of s" "violations_of (add_to_throttled_wallets a s) = violations_of s"
  "checked_of (remove_from_throttled_wallets a s) = checked_of s" "violations_of (remove_from_throttled_wallets a s) = violations_of s"
  by (simp_all add: checked_of_def violations_of_def get_global_throttle_stats_def)

lemma update_stats_Inr:
  assumes "update_global_stats v s = Inr s'"
  shows "same_but_stats s s' \<and> th_events s' = th_events s \<and> checked_of s' = Suc (checked_of s)
    \<and> violations_of s' = violations_of s + (if v then 1 else 0)"
  using assms
  by (auto simp: update_global_stats_def same_but_stats_def get_throttled_wallets_def checked_of_def violations_of_def
      get_global_throttle_stats_def Let_def split: option.splits if_splits)

lemma cleanup_Inr:
  assumes "cleanup_old_data now s = Inr s'"
  shows "same_but_stats s s' \<and> th_events s' = th_events s @ [CleanupPerformed 0 0 now] \<and> checked_of s' = checked_of s
    \<and> violations_of s' = violations_of s"
  using assms
  by (auto simp: cleanup_old_data_def same_but_stats_def get_throttled_wallets_def checked_of_def violations_of_def get_global_throttle_stats_def
      no_stats_def unwrap_or_def emit_def split: sum.splits option.splits)

lemma maybe_cleanup_Inr:
  assumes "maybe_cleanup_old_data now s = Inr s'"
  shows "same_but_stats s s' \<and> (th_events s' = th_events s \<or> th_events s' = th_events s @ [CleanupPerformed 0 0 now])
    \<and> checked_of s' = checked_of s \<and> violations_of s' = violations_of s"
  using assms cleanup_Inr [of now s s']
  by (auto simp: maybe_cleanup_old_data_def same_but_stats_def split: sum.splits option.splits if_splits)

text \<open>The two ways a transaction is counted: \<open>x\<close> is the state of the wallet when it is decided.\<close>

lemma trigger_Inr:
  assumes "trigger_throttle now c a x s = Inr (r, s')"
  shows "\<not> tr_allowed r \<and> tr_reason r = ExceededFrequency
    \<and> th_config s' = th_config s \<and> th_admin s' = th_admin s \<and> checked_of s' = Suc (checked_of s) \<and> violations_of s' = Suc (violations_of s)
    \<and> th_wallet s' = (th_wallet s)(a \<mapsto> x\<lparr>wt_is_throttled := True, wt_throttle_start_time := now,
         wt_violation_count := Suc (wt_violation_count x)\<rparr>)
    \<and> get_throttled_wallets s' = (if a \<in> set (get_throttled_wallets s) then get_throttled_wallets s else get_throttled_wallets s @ [a])
    \<and> (\<exists>v. th_events s' = th_events s @ [ThrottleTriggered a v, ViolationRecorded a (Suc (wt_violation_count x)) now])"
  using assms
  by (auto simp: trigger_throttle_def Let_def u32_add_def same_but_stats_def
      dest!: update_stats_Inr split: sum.splits option.splits if_splits)

lemma allow_Inr:
  assumes "allow_transaction now c a x s = Inr (r, s')"
  shows "tr_allowed r \<and> tr_reason r = Allowed \<and> wt_transaction_count x < tc_max_transactions_per_window c
    \<and> tr_remaining_transactions r = tc_max_transactions_per_window c - Suc (wt_transaction_count x)
    \<and> th_config s' = th_config s \<and> th_admin s' = th_admin s \<and> checked_of s' = Suc (checked_of s) \<and> violations_of s' = violations_of s
    \<and> th_wallet s' = (th_wallet s)(a \<mapsto> x\<lparr>wt_transaction_count := Suc (wt_transaction_count x), wt_last_transaction_time := now,
         wt_total_transactions_all_time := Suc (wt_total_transactions_all_time x)\<rparr>)
    \<and> get_throttled_wallets s' = get_throttled_wallets s
    \<and> th_events s' = th_events s @ [TransactionAllowed a (tr_remaining_transactions r) now]"
  using assms
  by (auto simp: allow_transaction_def Let_def u32_add_def same_but_stats_def
      dest!: update_stats_Inr split: sum.splits option.splits if_splits)


lemma check_window_Inr:
  assumes "check_window now c a x s = Inr (r, s')"
  shows "\<exists>y. (y = x \<and> now < wt_window_start x + tc_window_size_seconds c
       \<or> y = x\<lparr>wt_transaction_count := 0, wt_window_start := now\<rparr> \<and> wt_window_start x + tc_window_size_seconds c \<le> now)
    \<and> (if tc_max_transactions_per_window c \<le> wt_transaction_count y then trigger_throttle now c a y s = Inr (r, s')
       else allow_transaction now c a y s = Inr (r, s'))"
  using assms by (auto simp: check_window_def Let_def not_le split: option.splits if_splits)

lemma check_Inr:
  assumes "check_transaction_throttle e a s = Inr (r, s')"
  shows "\<exists>c. th_config s = Some c \<and>
    ((\<not> tc_enabled c \<or> a \<in> set (tc_exempt_addresses c)) \<and> s' = s \<and> tr_allowed r
     \<or> tc_enabled c \<and> a \<notin> set (tc_exempt_addresses c) \<and>
       (\<exists>s1. maybe_cleanup_old_data (env_timestamp e) s = Inr s1 \<and>
         (let now = env_timestamp e; x = get_wallet_throttle_state now a s1 in
           if wt_is_throttled x
           then if now < wt_throttle_start_time x + tc_block_duration_seconds c then s' = s1 \<and> \<not> tr_allowed r
                else check_window now c a (lifted now x)
                       (emit (ThrottleLifted a (tc_block_duration_seconds c) now) (remove_from_throttled_wallets a s1)) = Inr (r, s')
           else check_window now c a x s1 = Inr (r, s'))))"
proof -
  from assms obtain c where c: "th_config s = Some c" by (auto simp: check_transaction_throttle_def split: sum.splits)
  show ?thesis
  proof (cases "\<not> tc_enabled c \<or> a \<in> set (tc_exempt_addresses c)")
    case True
    with assms c show ?thesis
      by (auto simp: check_transaction_throttle_def get_throttle_config_def waved_through_def split: if_splits)
  next
    case False
    with assms c obtain s1 where s1: "maybe_cleanup_old_data (env_timestamp e) s = Inr s1"
      by (auto simp: check_transaction_throttle_def get_throttle_config_def Let_def split: sum.splits)
    with assms c False show ?thesis
      by (auto simp: check_transaction_throttle_def get_throttle_config_def Let_def split: option.splits if_splits)
  qed
qed

section \<open>The rate of a wallet\<close>

definition same_rates :: "throttle_config \<Rightarrow> throttle_config \<Rightarrow> bool" where
  "same_rates c c' \<longleftrightarrow> tc_max_transactions_per_window c' = tc_max_transactions_per_window c
     \<and> tc_window_size_seconds c' = tc_window_size_seconds c \<and> tc_block_duration_seconds c' = tc_block_duration_seconds c"

text \<open>The calls that leave the three rates and the window of wallet \<open>a\<close> to the checks.\<close>

definition calm :: "throttle_config \<Rightarrow> address \<Rightarrow> throttle_call \<Rightarrow> bool" where
  "calm c a k \<longleftrightarrow> (case k of CConfigure _ c' \<Rightarrow> same_rates c c' | CReset _ b \<Rightarrow> b \<noteq> a | _ \<Rightarrow> True)"

definition shortest :: "throttle_config \<Rightarrow> nat" where
  "shortest c = min (tc_window_size_seconds c) (tc_block_duration_seconds c)"

definition wallet_paced :: "throttle_config \<Rightarrow> nat \<Rightarrow> nat list \<Rightarrow> wallet_throttle option \<Rightarrow> bool" where
  "wallet_paced c now h x = (case x of None \<Rightarrow> h = []
     | Some x \<Rightarrow> paced (tc_max_transactions_per_window c) (shortest c) h (wt_window_start x) (wt_transaction_count x)
         \<and> wt_window_start x \<le> now \<and> (wt_is_throttled x \<longrightarrow> wt_window_start x \<le> wt_throttle_start_time x))"

definition rate_inv :: "throttle_config \<Rightarrow> address \<Rightarrow> nat \<Rightarrow> throttle_state \<Rightarrow> bool" where
  "rate_inv c a now s \<longleftrightarrow> th_admin s \<noteq> None \<and> (\<exists>c'. th_config s = Some c' \<and> same_rates c c')
     \<and> (\<forall>t\<in>set (allowed_times a s). t \<le> now) \<and> wallet_paced c now (allowed_times a s) (th_wallet s a)"

lemma rate_inv_later: "rate_inv c a now s \<Longrightarrow> now \<le> now' \<Longrightarrow> rate_inv c a now' s"
  by (fastforce simp: rate_inv_def wallet_paced_def split: option.splits)

lemma rate_inv_other:
  assumes "rate_inv c a now s" and "th_wallet s' a = th_wallet s a" and "allowed_times a s' = allowed_times a s"
    and "th_config s' = Some c'" and "same_rates c c'" and "th_admin s' = th_admin s"
  shows "rate_inv c a now s'"
  using assms by (simp add: rate_inv_def)

lemma allowed_times_append:
  "th_events s' = th_events s @ es \<Longrightarrow> allowed_times a s' = allowed_times a s @ concat (map (allowed_at a) es)"
  by (simp add: allowed_times_def)

text \<open>One decision of a wallet that is not blocked, from a state that is paced.\<close>

lemma check_window_paced:
  assumes run: "check_window now c' a x s = Inr (r, s')" and rates: "same_rates c c'"
    and pace: "wallet_paced c now h (Some x)" and h: "allowed_times a s = h" "\<forall>t\<in>set h. t \<le> now"
    and free: "\<not> wt_is_throttled x"
  shows "wallet_paced c now (allowed_times a s') (th_wallet s' a) \<and> (\<forall>t\<in>set (allowed_times a s'). t \<le> now)
    \<and> (\<forall>b. b \<noteq> a \<longrightarrow> th_wallet s' b = th_wallet s b \<and> allowed_times b s' = allowed_times b s)
    \<and> th_config s' = th_config s \<and> th_admin s' = th_admin s"
proof -
  from check_window_Inr [OF run] obtain y where y: "y = x \<or> y = x\<lparr>wt_transaction_count := 0, wt_window_start := now\<rparr>
      \<and> wt_window_start x + tc_window_size_seconds c' \<le> now"
    and go: "if tc_max_transactions_per_window c' \<le> wt_transaction_count y then trigger_throttle now c' a y s = Inr (r, s')
       else allow_transaction now c' a y s = Inr (r, s')" by auto
  have old: "paced (tc_max_transactions_per_window c) (shortest c) h (wt_window_start x) (wt_transaction_count x)"
    "wt_window_start x \<le> now" using pace by (simp_all add: wallet_paced_def)
  have "paced (tc_max_transactions_per_window c) (shortest c) h (wt_window_start y) (wt_transaction_count y) \<and> wt_window_start y \<le> now"
  proof (cases "y = x")
    case False
    with y rates have "wt_window_start x + shortest c \<le> now" by (auto simp: shortest_def same_rates_def)
    from paced_restart [OF old(1) this] h(2) False y show ?thesis by simp
  qed (use old in simp)
  then have pace_y: "paced (tc_max_transactions_per_window c) (shortest c) h (wt_window_start y) (wt_transaction_count y)"
    "wt_window_start y \<le> now" by simp_all
  have free_y: "\<not> wt_is_throttled y" using y free by auto
  show ?thesis
  proof (cases "tc_max_transactions_per_window c' \<le> wt_transaction_count y")
    case True
    with go have "trigger_throttle now c' a y s = Inr (r, s')" by simp
    from trigger_Inr [OF this] obtain v where s': "th_wallet s' = (th_wallet s)(a \<mapsto> y\<lparr>wt_is_throttled := True,
        wt_throttle_start_time := now, wt_violation_count := Suc (wt_violation_count y)\<rparr>)"
      "th_events s' = th_events s @ [ThrottleTriggered a v, ViolationRecorded a (Suc (wt_violation_count y)) now]"
      "th_config s' = th_config s" "th_admin s' = th_admin s" by blast
    from pace_y h s' allowed_times_append [OF s'(2)] show ?thesis by (simp add: wallet_paced_def)
  next
    case False
    with go have "allow_transaction now c' a y s = Inr (r, s')" by simp
    from allow_Inr [OF this] have s': "wt_transaction_count y < tc_max_transactions_per_window c'"
      "th_wallet s' = (th_wallet s)(a \<mapsto> y\<lparr>wt_transaction_count := Suc (wt_transaction_count y), wt_last_transaction_time := now,
         wt_total_transactions_all_time := Suc (wt_total_transactions_all_time y)\<rparr>)"
      "th_events s' = th_events s @ [TransactionAllowed a (tr_remaining_transactions r) now]"
      "th_config s' = th_config s" "th_admin s' = th_admin s" by blast+
    from s'(1) rates paced_admit [OF pace_y(1) _ pace_y(2)]
    have "paced (tc_max_transactions_per_window c) (shortest c) (h @ [now]) (wt_window_start y) (Suc (wt_transaction_count y))"
      by (simp add: same_rates_def)
    with pace_y h s' free_y allowed_times_append [OF s'(3)] show ?thesis by (simp add: wallet_paced_def)
  qed
qed


lemma check_rate_inv:
  assumes run: "check_transaction_throttle e b s = Inr (r, s')" and inv: "rate_inv c a now s" and now: "now \<le> env_timestamp e"
  shows "rate_inv c a (env_timestamp e) s'"
proof -
  let ?now = "env_timestamp e"
  have I: "rate_inv c a ?now s" by (rule rate_inv_later [OF inv now])
  from check_Inr [OF run] obtain c' where c': "th_config s = Some c'" and
    cases: "s' = s \<or> (\<exists>s1. maybe_cleanup_old_data ?now s = Inr s1 \<and>
         (let x = get_wallet_throttle_state ?now b s1 in
           if wt_is_throttled x
           then if ?now < wt_throttle_start_time x + tc_block_duration_seconds c' then s' = s1
                else check_window ?now c' b (lifted ?now x)
                       (emit (ThrottleLifted b (tc_block_duration_seconds c') ?now) (remove_from_throttled_wallets b s1)) = Inr (r, s')
           else check_window ?now c' b x s1 = Inr (r, s')))" by (fastforce simp: Let_def split: if_splits)
  from I c' have rates: "same_rates c c'" by (auto simp: rate_inv_def)
  from cases show ?thesis
  proof (elim disjE exE conjE)
    assume "s' = s"
    with I show ?thesis by simp
  next
    fix s1 assume clean: "maybe_cleanup_old_data ?now s = Inr s1"
      and rest: "let x = get_wallet_throttle_state ?now b s1 in
           if wt_is_throttled x
           then if ?now < wt_throttle_start_time x + tc_block_duration_seconds c' then s' = s1
                else check_window ?now c' b (lifted ?now x)
                       (emit (ThrottleLifted b (tc_block_duration_seconds c') ?now) (remove_from_throttled_wallets b s1)) = Inr (r, s')
           else check_window ?now c' b x s1 = Inr (r, s')"
    let ?x = "get_wallet_throttle_state ?now b s1"
    from maybe_cleanup_Inr [OF clean] have s1: "th_wallet s1 = th_wallet s" "th_config s1 = th_config s" "th_admin s1 = th_admin s"
      "allowed_times d s1 = allowed_times d s" for d by (auto simp: same_but_stats_def allowed_times_def)
    have I1: "rate_inv c a ?now s1" by (rule rate_inv_other [OF I]) (use c' rates s1 in simp_all)
    have pace: "wallet_paced c ?now (allowed_times a s) (Some ?x)" if "b = a"
      using I that s1 unfolding rate_inv_def wallet_paced_def get_wallet_throttle_state_def
      by (auto simp: no_wallet_state_def paced_later split: option.splits)
    have times: "\<forall>t\<in>set (allowed_times a s). t \<le> ?now" using I by (simp add: rate_inv_def)
    have finish: "rate_inv c a ?now s'"
      if go: "check_window ?now c' b y s2 = Inr (r, s')" and y: "\<not> wt_is_throttled y"
        and p: "b = a \<Longrightarrow> wallet_paced c ?now (allowed_times a s) (Some y)"
        and s2: "th_wallet s2 = th_wallet s1" "th_config s2 = th_config s1" "th_admin s2 = th_admin s1"
          "\<And>d. allowed_times d s2 = allowed_times d s1" for y s2
    proof (cases "b = a")
      case True
      from check_window_paced [OF go rates p [OF True]] times s1 s2 True y I1 show ?thesis by (simp add: rate_inv_def)
    next
      case False
      from check_window_Inr [OF go] obtain z where "if tc_max_transactions_per_window c' \<le> wt_transaction_count z
        then trigger_throttle ?now c' b z s2 = Inr (r, s') else allow_transaction ?now c' b z s2 = Inr (r, s')" by blast
      then have "th_wallet s' a = th_wallet s2 a \<and> allowed_times a s' = allowed_times a s2 \<and> th_config s' = th_config s2 \<and> th_admin s' = th_admin s2"
        using False by (auto simp: allowed_times_def dest!: trigger_Inr allow_Inr split: if_splits)
      then show ?thesis by (intro rate_inv_other [OF I1]) (use c' rates s1 s2 in simp_all)
    qed
    show ?thesis
    proof (cases "wt_is_throttled ?x")
      case False
      with rest have "check_window ?now c' b ?x s1 = Inr (r, s')" by (simp add: Let_def)
      from finish [OF this False pace] show ?thesis by simp
    next
      case True
      show ?thesis
      proof (cases "?now < wt_throttle_start_time ?x + tc_block_duration_seconds c'")
        case True
        with rest \<open>wt_is_throttled ?x\<close> I1 show ?thesis by (simp add: Let_def)
      next
        case False
        have p: "wallet_paced c ?now (allowed_times a s) (Some (lifted ?now ?x))" if "b = a"
        proof -
          have old: "paced (tc_max_transactions_per_window c) (shortest c) (allowed_times a s) (wt_window_start ?x) (wt_transaction_count ?x)"
            and "wt_window_start ?x \<le> wt_throttle_start_time ?x" using pace [OF that] \<open>wt_is_throttled ?x\<close> by (simp_all add: wallet_paced_def)
          with False rates have "wt_window_start ?x + shortest c \<le> ?now" by (simp add: shortest_def same_rates_def)
          from paced_restart [OF old this] times show ?thesis by (simp add: wallet_paced_def lifted_def)
        qed
        from False rest \<open>wt_is_throttled ?x\<close> have "check_window ?now c' b (lifted ?now ?x)
            (emit (ThrottleLifted b (tc_block_duration_seconds c') ?now) (remove_from_throttled_wallets b s1)) = Inr (r, s')"
          by (simp add: Let_def)
        from finish [OF this _ p] show ?thesis by (simp add: lifted_def)
      qed
    qed
  qed
qed

lemma same_rates_exempt: "same_rates c c' \<Longrightarrow> same_rates c (c'\<lparr>tc_exempt_addresses := xs\<rparr>)"
  by (simp add: same_rates_def)

lemma throttle_exec_rate:
  assumes run: "throttle_exec (e, k) s = Inr s'" and inv: "rate_inv c a now s" and now: "now \<le> env_timestamp e"
    and calm: "calm c a k"
  shows "rate_inv c a (env_timestamp e) s'"
proof -
  have I: "rate_inv c a (env_timestamp e) s" by (rule rate_inv_later [OF inv now])
  then obtain c' where c': "th_config s = Some c'" and rates: "same_rates c c'" by (auto simp: rate_inv_def)
  show ?thesis
  proof (cases k)
    case (CInitialize b d)
    with run I show ?thesis by (auto simp: initialize_throttle_contract_def rate_inv_def split: if_splits)
  next
    case (CCheck b)
    with run show ?thesis by (auto intro: check_rate_inv [OF _ inv now])
  next
    case (CConfigure b d)
    with run calm show ?thesis
      by (auto simp: update_throttle_config_def calm_def allowed_times_def split: sum.splits intro!: rate_inv_other [OF I])
  next
    case (CAddExempt b d)
    with run c' I rates same_rates_exempt show ?thesis
      by (auto simp: add_exempt_address_def allowed_times_def split: sum.splits if_splits intro!: rate_inv_other [OF I])
  next
    case (CRemoveExempt b d)
    with run c' I rates same_rates_exempt show ?thesis
      by (auto simp: remove_exempt_address_def allowed_times_def split: sum.splits if_splits intro!: rate_inv_other [OF I])
  next
    case (CCleanup b)
    with run obtain s1 where "cleanup_old_data (env_timestamp e) s = Inr s1" "s' = s1" by (auto simp: force_cleanup_def split: sum.splits)
    with cleanup_Inr [of "env_timestamp e" s s1] c' rates show ?thesis
      by (auto simp: same_but_stats_def allowed_times_def intro!: rate_inv_other [OF I])
  next
    case (CReset b d)
    with run calm c' rates show ?thesis
      by (auto simp: reset_wallet_throttle_state_def calm_def split: sum.splits intro!: rate_inv_other [OF I])
  qed
qed

text \<open>Time does not run backwards from \<open>now\<close> on.\<close>

fun clock_from :: "nat \<Rightarrow> (env \<times> 'c) list \<Rightarrow> bool" where
  "clock_from now [] \<longleftrightarrow> True"
| "clock_from now ((e, k) # cs) \<longleftrightarrow> now \<le> env_timestamp e \<and> clock_from (env_timestamp e) cs"

lemma throttle_run_rate:
  "rate_inv c a now s \<Longrightarrow> clock_from now cs \<Longrightarrow> (\<And>e k. (e, k) \<in> set cs \<Longrightarrow> calm c a k)
    \<Longrightarrow> \<exists>now'. rate_inv c a now' (run throttle_exec cs s)"
proof (induction cs arbitrary: s now)
  case (Cons ek cs)
  obtain e k where ek: "ek = (e, k)" by (cases ek)
  have now: "now \<le> env_timestamp e" "clock_from (env_timestamp e) cs" using Cons.prems(2) by (simp_all add: ek)
  have calm: "calm c a k" using Cons.prems(3) [of e k] by (simp add: ek)
  have "rate_inv c a (env_timestamp e) (commit s (throttle_exec (e, k) s))"
    using throttle_exec_rate [of e k s _ c a now] rate_inv_later [OF Cons.prems(1) now(1)] Cons.prems(1) now(1) calm
    by (cases "throttle_exec (e, k) s") auto
  then have "\<exists>now'. rate_inv c a now' (run throttle_exec cs (commit s (throttle_exec (e, k) s)))"
    by (rule Cons.IH [OF _ now(2)]) (metis Cons.prems(3) list.set_intros(2))
  then show ?case by (simp add: ek)
qed auto

section \<open>The books\<close>

fun is_triggered :: "throttle_event \<Rightarrow> bool" where
  "is_triggered (ThrottleTriggered a v) \<longleftrightarrow> True"
| "is_triggered _ \<longleftrightarrow> False"

fun is_allowed :: "throttle_event \<Rightarrow> bool" where
  "is_allowed (TransactionAllowed a r t) \<longleftrightarrow> True"
| "is_allowed _ \<longleftrightarrow> False"

definition count_events :: "(throttle_event \<Rightarrow> bool) \<Rightarrow> throttle_state \<Rightarrow> nat" where
  "count_events P s = length (filter P (th_events s))"

definition blocked :: "throttle_state \<Rightarrow> address set" where
  "blocked s = {a. \<exists>x. th_wallet s a = Some x \<and> wt_is_throttled x}"

definition throttle_inv :: "throttle_state \<Rightarrow> bool" where
  "throttle_inv s \<longleftrightarrow> distinct (get_throttled_wallets s) \<and> set (get_throttled_wallets s) = blocked s
     \<and> (\<forall>a x. th_wallet s a = Some x \<longrightarrow> wt_violation_count x = (if wt_is_throttled x then 1 else 0))
     \<and> violations_of s = count_events is_triggered s
     \<and> checked_of s = count_events is_allowed s + count_events is_triggered s
     \<and> (th_admin s = None \<longleftrightarrow> th_config s = None) \<and> (th_admin s = None \<longrightarrow> th_wallet s = Map.empty \<and> th_events s = [])"

lemma throttle_inv_fresh: "throttle_inv throttle_fresh"
  by (simp add: throttle_inv_def throttle_fresh_def get_throttled_wallets_def blocked_def violations_of_def checked_of_def
      get_global_throttle_stats_def no_stats_def count_events_def)

lemma count_events_append:
  "th_events s' = th_events s @ es \<Longrightarrow> count_events P s' = count_events P s + length (filter P es)"
  by (simp add: count_events_def)

text \<open>A wallet that is not blocked is decided: \<open>B\<close> are the blocked wallets besides it.\<close>

lemma check_window_books:
  assumes run: "check_window now c a x s = Inr (r, s')" and x: "\<not> wt_is_throttled x" "wt_violation_count x = 0"
    and list: "distinct (get_throttled_wallets s)" "set (get_throttled_wallets s) = blocked s - {a}"
    and viol: "\<forall>b y. b \<noteq> a \<and> th_wallet s b = Some y \<longrightarrow> wt_violation_count y = (if wt_is_throttled y then 1 else 0)"
    and sums: "violations_of s = count_events is_triggered s" "checked_of s = count_events is_allowed s + count_events is_triggered s"
    and ready: "th_admin s \<noteq> None" "th_config s \<noteq> None"
  shows "throttle_inv s'"
proof -
  from check_window_Inr [OF run] obtain y where "y = x \<or> y = x\<lparr>wt_transaction_count := 0, wt_window_start := now\<rparr>"
    and go: "if tc_max_transactions_per_window c \<le> wt_transaction_count y then trigger_throttle now c a y s = Inr (r, s')
       else allow_transaction now c a y s = Inr (r, s')" by blast
  then have y: "\<not> wt_is_throttled y" "wt_violation_count y = 0" using x by auto
  show ?thesis
  proof (cases "tc_max_transactions_per_window c \<le> wt_transaction_count y")
    case True
    with go have "trigger_throttle now c a y s = Inr (r, s')" by simp
    from trigger_Inr [OF this] obtain v where s': "th_config s' = th_config s" "th_admin s' = th_admin s"
      "checked_of s' = Suc (checked_of s)" "violations_of s' = Suc (violations_of s)"
      "th_wallet s' = (th_wallet s)(a \<mapsto> y\<lparr>wt_is_throttled := True, wt_throttle_start_time := now,
         wt_violation_count := Suc (wt_violation_count y)\<rparr>)"
      "get_throttled_wallets s' = get_throttled_wallets s @ [a]"
      "th_events s' = th_events s @ [ThrottleTriggered a v, ViolationRecorded a (Suc (wt_violation_count y)) now]"
      using list(2) by auto
    have "blocked s' = insert a (blocked s)" by (auto simp: blocked_def s')
    with list y sums ready viol s' count_events_append [OF s'(7)] show ?thesis by (auto simp: throttle_inv_def)
  next
    case False
    with go have "allow_transaction now c a y s = Inr (r, s')" by simp
    from allow_Inr [OF this] have s': "th_config s' = th_config s" "th_admin s' = th_admin s"
      "checked_of s' = Suc (checked_of s)" "violations_of s' = violations_of s" "get_throttled_wallets s' = get_throttled_wallets s"
      "th_wallet s' = (th_wallet s)(a \<mapsto> y\<lparr>wt_transaction_count := Suc (wt_transaction_count y), wt_last_transaction_time := now,
         wt_total_transactions_all_time := Suc (wt_total_transactions_all_time y)\<rparr>)"
      "th_events s' = th_events s @ [TransactionAllowed a (tr_remaining_transactions r) now]" by blast+
    have "blocked s' = blocked s - {a}" using y by (auto simp: blocked_def s')
    with list y sums ready viol s' count_events_append [OF s'(7)] show ?thesis by (auto simp: throttle_inv_def)
  qed
qed


lemma throttle_inv_same:
  assumes "throttle_inv s" and "get_throttled_wallets s' = get_throttled_wallets s" and "th_wallet s' = th_wallet s"
    and "violations_of s' = violations_of s" and "checked_of s' = checked_of s" and "th_admin s' = th_admin s"
    and "th_config s' \<noteq> None" and "th_admin s \<noteq> None"
    and "th_events s' = th_events s @ es" and "\<forall>ev\<in>set es. \<not> is_triggered ev \<and> \<not> is_allowed ev"
  shows "throttle_inv s'"
proof -
  have "filter is_triggered es = []" "filter is_allowed es = []" using assms(10) by (auto simp: filter_empty_conv)
  then have "count_events is_triggered s' = count_events is_triggered s" "count_events is_allowed s' = count_events is_allowed s"
    by (simp_all add: count_events_append [OF assms(9)])
  moreover have "blocked s' = blocked s" by (simp add: blocked_def assms(3))
  ultimately show ?thesis using assms(1-8) by (auto simp: throttle_inv_def)
qed

lemma check_books:
  assumes run: "check_transaction_throttle e a s = Inr (r, s')" and inv: "throttle_inv s"
  shows "throttle_inv s'"
proof -
  let ?now = "env_timestamp e"
  from check_Inr [OF run] obtain c where c: "th_config s = Some c" and
    cases: "s' = s \<or> (\<exists>s1. maybe_cleanup_old_data ?now s = Inr s1 \<and>
         (let x = get_wallet_throttle_state ?now a s1 in
           if wt_is_throttled x
           then if ?now < wt_throttle_start_time x + tc_block_duration_seconds c then s' = s1
                else check_window ?now c a (lifted ?now x)
                       (emit (ThrottleLifted a (tc_block_duration_seconds c) ?now) (remove_from_throttled_wallets a s1)) = Inr (r, s')
           else check_window ?now c a x s1 = Inr (r, s')))" by (fastforce simp: Let_def split: if_splits)
  from cases show ?thesis
  proof (elim disjE exE conjE)
    fix s1 assume clean: "maybe_cleanup_old_data ?now s = Inr s1"
      and rest: "let x = get_wallet_throttle_state ?now a s1 in
           if wt_is_throttled x
           then if ?now < wt_throttle_start_time x + tc_block_duration_seconds c then s' = s1
                else check_window ?now c a (lifted ?now x)
                       (emit (ThrottleLifted a (tc_block_duration_seconds c) ?now) (remove_from_throttled_wallets a s1)) = Inr (r, s')
           else check_window ?now c a x s1 = Inr (r, s')"
    let ?x = "get_wallet_throttle_state ?now a s1"
    note m = maybe_cleanup_Inr [OF clean, unfolded same_but_stats_def]
    from m obtain es where es: "th_events s1 = th_events s @ es" "\<forall>ev\<in>set es. \<not> is_triggered ev \<and> \<not> is_allowed ev"
    proof -
      from m consider "th_events s1 = th_events s @ []" | "th_events s1 = th_events s @ [CleanupPerformed 0 0 ?now]" by auto
      then show ?thesis by cases (rule that, assumption, simp)+
    qed
    have admin: "th_admin s \<noteq> None" using inv c by (auto simp: throttle_inv_def)
    have I: "throttle_inv s1"
      by (rule throttle_inv_same [OF inv _ _ _ _ _ _ _ es]) (use m c admin in simp_all)
    have ready: "th_admin s1 \<noteq> None" "th_config s1 \<noteq> None" using m c admin by auto
    have x: "wt_violation_count ?x = (if wt_is_throttled ?x then 1 else 0)" "wt_is_throttled ?x \<longleftrightarrow> a \<in> blocked s1"
      using I by (auto simp: throttle_inv_def get_wallet_throttle_state_def no_wallet_state_def unwrap_or_def blocked_def split: option.splits)
    note books = I [unfolded throttle_inv_def]
    show ?thesis
    proof (cases "wt_is_throttled ?x")
      case False
      with rest have "check_window ?now c a ?x s1 = Inr (r, s')" by (simp add: Let_def)
      then show ?thesis by (rule check_window_books) (use books x False ready in auto)
    next
      case True
      show ?thesis
      proof (cases "?now < wt_throttle_start_time ?x + tc_block_duration_seconds c")
        case True
        with rest \<open>wt_is_throttled ?x\<close> I show ?thesis by (simp add: Let_def)
      next
        case False
        let ?s2 = "emit (ThrottleLifted a (tc_block_duration_seconds c) ?now) (remove_from_throttled_wallets a s1)"
        from False rest True have go: "check_window ?now c a (lifted ?now ?x) ?s2 = Inr (r, s')" by (simp add: Let_def)
        have "blocked ?s2 = blocked s1" by (simp add: blocked_def)
        then show ?thesis
          by (intro check_window_books [OF go]) (use books ready in \<open>auto simp: lifted_def count_events_def\<close>)
      qed
    qed
  qed (use inv in simp)
qed

lemma throttle_exec_books:
  assumes run: "throttle_exec k s = Inr s'" and inv: "throttle_inv s"
  shows "throttle_inv s'"
proof -
  obtain e call where k: "k = (e, call)" by (cases k)
  show ?thesis
  proof (cases call)
    case (CInitialize a c)
    with run inv k show ?thesis
      by (auto simp: initialize_throttle_contract_def throttle_inv_def get_throttled_wallets_def blocked_def violations_of_def
          checked_of_def get_global_throttle_stats_def no_stats_def count_events_def split: if_splits sum.splits)
  next
    case (CCheck a)
    with run inv k show ?thesis by (auto intro: check_books)
  next
    case (CConfigure a c)
    with run k show ?thesis
      by (auto simp: update_throttle_config_def get_throttled_wallets_def violations_of_def checked_of_def
          get_global_throttle_stats_def split: sum.splits
          intro!: throttle_inv_same [OF inv, where es = "[ConfigUpdated a c (env_timestamp e)]"])
  next
    case (CAddExempt a b)
    with run k inv show ?thesis
      by (auto simp: add_exempt_address_def get_throttled_wallets_def violations_of_def checked_of_def
          get_global_throttle_stats_def split: sum.splits if_splits
          intro!: throttle_inv_same [OF inv, where es = "[WalletExempted a b (env_timestamp e)]"])
  next
    case (CRemoveExempt a b)
    with run k inv show ?thesis
      by (auto simp: remove_exempt_address_def get_throttled_wallets_def violations_of_def checked_of_def
          get_global_throttle_stats_def split: sum.splits if_splits intro!: throttle_inv_same [OF inv, where es = "[]"])
  next
    case (CCleanup a)
    with run k obtain s1 where s1: "cleanup_old_data (env_timestamp e) s = Inr s1" "s' = s1" "th_admin s = Some a"
      by (auto simp: force_cleanup_def split: sum.splits)
    have "th_config s \<noteq> None" using inv s1(3) by (auto simp: throttle_inv_def)
    with cleanup_Inr [OF s1(1)] s1 show ?thesis
      by (auto simp: same_but_stats_def intro!: throttle_inv_same [OF inv, where es = "[CleanupPerformed 0 0 (env_timestamp e)]"])
  next
    case (CReset a b)
    with run k obtain c where s': "s' = remove_from_throttled_wallets b (save_wallet_throttle_state b (no_wallet_state (env_timestamp e) b) s)"
      and ready: "th_admin s = Some a" "th_config s = Some c" by (auto simp: reset_wallet_throttle_state_def split: sum.splits)
    have "blocked s' = blocked s - {b}" by (auto simp: blocked_def s' no_wallet_state_def)
    with inv ready show ?thesis
      by (auto simp: throttle_inv_def s' no_wallet_state_def count_events_def)
  qed
qed

interpretation throttle_machine: contract_invariant throttle_exec throttle_inv "\<lambda>_. True"
  by unfold_locales (rule throttle_exec_books)

section \<open>Properties\<close>

text \<open>The times at which the checks among some calls admitted a transaction of wallet \<open>a\<close>, by what they answered, while the
  throttle applied to it: while it is enabled and the wallet is not exempt.\<close>

definition metered :: "address \<Rightarrow> throttle_state \<Rightarrow> bool" where
  "metered a s = (case th_config s of None \<Rightarrow> False | Some c \<Rightarrow> tc_enabled c \<and> a \<notin> set (tc_exempt_addresses c))"

definition admitted :: "address \<Rightarrow> env \<times> throttle_call \<Rightarrow> throttle_state \<Rightarrow> nat list" where
  "admitted a k s = (case k of
     (e, CCheck b) \<Rightarrow> (case check_transaction_throttle e b s of Inl _ \<Rightarrow> []
        | Inr (r, _) \<Rightarrow> if b = a \<and> tr_allowed r \<and> metered a s then [env_timestamp e] else [])
   | _ \<Rightarrow> [])"

fun admissions :: "address \<Rightarrow> (env \<times> throttle_call) list \<Rightarrow> throttle_state \<Rightarrow> nat list" where
  "admissions a [] s = []"
| "admissions a (k # cs) s = admitted a k s @ admissions a cs (commit s (throttle_exec k s))"

text \<open>They are the times of the events.\<close>

lemma window_admits:
  assumes "check_window now c b x s = Inr (r, s')"
  shows "allowed_times a s' = allowed_times a s @ (if b = a \<and> tr_allowed r then [now] else [])"
proof -
  from check_window_Inr [OF assms] obtain y where "if tc_max_transactions_per_window c \<le> wt_transaction_count y
      then trigger_throttle now c b y s = Inr (r, s') else allow_transaction now c b y s = Inr (r, s')" by blast
  then show ?thesis by (auto simp: allowed_times_def dest!: trigger_Inr allow_Inr split: if_splits)
qed

lemma check_admits:
  assumes run: "check_transaction_throttle e b s = Inr (r, s')"
  shows "allowed_times a s' = allowed_times a s @ admitted a (e, CCheck b) s"
proof -
  from check_Inr [OF run] obtain c where c: "th_config s = Some c" by blast
  show ?thesis
  proof (cases "metered b s")
    case False
    with check_Inr [OF run] c have "s' = s" by (auto simp: metered_def)
    with False run show ?thesis by (auto simp: admitted_def)
  next
    case True
    let ?now = "env_timestamp e"
    from check_Inr [OF run] True obtain s1 where s1: "maybe_cleanup_old_data ?now s = Inr s1"
      and rest: "let x = get_wallet_throttle_state ?now b s1 in
           if wt_is_throttled x
           then if ?now < wt_throttle_start_time x + tc_block_duration_seconds c then s' = s1 \<and> \<not> tr_allowed r
                else check_window ?now c b (lifted ?now x)
                       (emit (ThrottleLifted b (tc_block_duration_seconds c) ?now) (remove_from_throttled_wallets b s1)) = Inr (r, s')
           else check_window ?now c b x s1 = Inr (r, s')"
      using c by (auto simp: metered_def Let_def)
    have "allowed_times a s1 = allowed_times a s" using maybe_cleanup_Inr [OF s1] by (auto simp: allowed_times_def)
    with rest have "allowed_times a s' = allowed_times a s @ (if b = a \<and> tr_allowed r then [?now] else [])"
      by (auto simp: Let_def dest!: window_admits [where a = a] split: if_splits)
    with run True show ?thesis by (auto simp: admitted_def)
  qed
qed

lemma exec_admits:
  assumes "throttle_exec k s = Inr s'"
  shows "allowed_times a s' = allowed_times a s @ admitted a k s"
proof -
  obtain e call where k: "k = (e, call)" by (cases k)
  show ?thesis
  proof (cases call)
    case (CCheck b)
    with assms k show ?thesis by (auto intro: check_admits)
  qed (use assms k in \<open>auto simp: admitted_def initialize_throttle_contract_def update_throttle_config_def add_exempt_address_def
      remove_exempt_address_def force_cleanup_def reset_wallet_throttle_state_def allowed_times_def
      dest!: cleanup_Inr split: sum.splits if_splits\<close>)
qed

lemma admitted_failed: "throttle_exec k s = Inl t \<Longrightarrow> admitted a k s = []"
  by (cases k; cases "snd k") (auto simp: admitted_def split: sum.splits)

lemma run_admits: "allowed_times a (run throttle_exec cs s) = allowed_times a s @ admissions a cs s"
proof (induction cs arbitrary: s)
  case (Cons k cs)
  then show ?case
    by (cases "throttle_exec k s") (simp_all add: exec_admits admitted_failed)
qed simp

text \<open>C16: The throttle limits every wallet.  From the initialisation on, through any calls, while time does not run
  backwards, the admin does not reset this wallet and reconfigurations keep the three rates (the others, exemptions and
  switching the throttle off and on included, are unrestricted): of the transactions that the checks admit for a wallet
  while the throttle is enabled and the wallet is not exempt, any \<open>2 * m + 1\<close> consecutive ones take at least the shorter
  of window and block, where \<open>m\<close> is the maximum per window.  Transactions of an exempt wallet, or of any wallet while the
  throttle is off, are waved through uncounted.\<close>

theorem throttle_rate:
  assumes "initialize_throttle_contract e0 admin c throttle_fresh = Inr (u, s0)"
    and "clock_from (env_timestamp e0) cs" and "\<And>e k. (e, k) \<in> set cs \<Longrightarrow> calm c a k"
  shows "let h = admissions a cs s0 in
    \<forall>k. k + 2 * tc_max_transactions_per_window c < length h
      \<longrightarrow> h ! k + min (tc_window_size_seconds c) (tc_block_duration_seconds c) \<le> h ! (k + 2 * tc_max_transactions_per_window c)"
proof -
  have fresh: "allowed_times a s0 = []"
    using assms(1) by (auto simp: initialize_throttle_contract_def allowed_times_def throttle_fresh_def split: if_splits sum.splits)
  have "rate_inv c a (env_timestamp e0) s0"
    using assms(1) fresh by (auto simp: initialize_throttle_contract_def rate_inv_def wallet_paced_def same_rates_def
        throttle_fresh_def split: if_splits sum.splits)
  from throttle_run_rate [OF this assms(2)] assms(3) obtain now where "rate_inv c a now (run throttle_exec cs s0)" by blast
  then have "spread (tc_max_transactions_per_window c) (shortest c) (allowed_times a (run throttle_exec cs s0))"
    by (auto simp: rate_inv_def wallet_paced_def paced_def spread_def split: option.splits)
  then show ?thesis by (simp add: spread_def shortest_def Let_def run_admits fresh)
qed

text \<open>The books of the throttle.  After any calls the register lists exactly the blocked wallets, once each; the
  statistics count one check for every admitted transaction and every violation, and the violations; and the violation
  count of a wallet is 1 while it is blocked and 0 otherwise: it never accumulates.\<close>

theorem throttle_books:
  "let s = run throttle_exec cs throttle_fresh; g = get_global_throttle_stats s in
     distinct (get_throttled_wallets s) \<and> set (get_throttled_wallets s) = {a. \<exists>x. th_wallet s a = Some x \<and> wt_is_throttled x}
   \<and> gs_total_violations g = length (filter is_triggered (th_events s))
   \<and> gs_total_transactions_checked g = length (filter is_allowed (th_events s)) + length (filter is_triggered (th_events s))
   \<and> (\<forall>a. case th_wallet s a of None \<Rightarrow> a \<notin> set (get_throttled_wallets s)
        | Some x \<Rightarrow> wt_violation_count x = (if a \<in> set (get_throttled_wallets s) then 1 else 0))"
proof -
  have "throttle_inv (run throttle_exec cs throttle_fresh)"
    by (rule throttle_machine.run_inv) (simp_all add: throttle_inv_fresh)
  then show ?thesis
    by (simp add: throttle_inv_def Let_def violations_of_def checked_of_def count_events_def blocked_def split: option.split)
qed

section \<open>Witnesses\<close>

definition throttle_demo_config :: throttle_config where
  "throttle_demo_config = \<lparr>tc_max_transactions_per_window = 2, tc_window_size_seconds = 60, tc_block_duration_seconds = 30,
     tc_cleanup_interval_seconds = 300, tc_enabled = True, tc_exempt_addresses = []\<rparr>"

definition throttle_demo_start :: throttle_state where
  "throttle_demo_start = throttle_fresh\<lparr>th_admin := Some (Addr 1), th_config := Some throttle_demo_config,
     th_throttled := Some [], th_stats := Some (no_stats 100)\<rparr>"

definition throttle_demo_calls :: "(env \<times> throttle_call) list" where
  "throttle_demo_calls = map (\<lambda>t. (signed_env [] 1 t (Addr 8), CCheck (Addr 2))) [110, 115, 116, 146, 147, 148, 179]"

lemma throttle_demo_times: "admissions (Addr 2) throttle_demo_calls throttle_demo_start = [110, 115, 146, 147, 179]"
proof -
  have "allowed_times (Addr 2) (run throttle_exec throttle_demo_calls throttle_demo_start) = [110, 115, 146, 147, 179]"
    by (simp add: throttle_demo_calls_def throttle_demo_start_def throttle_demo_config_def throttle_fresh_def no_stats_def
        check_transaction_throttle_def get_throttle_config_def maybe_cleanup_old_data_def get_global_throttle_stats_def
        get_wallet_throttle_state_def no_wallet_state_def check_window_def allow_transaction_def trigger_throttle_def lifted_def
        update_global_stats_def add_to_throttled_wallets_def remove_from_throttled_wallets_def get_throttled_wallets_def
        save_wallet_throttle_state_def emit_def allowed_times_def Let_def arith_defs)
  then show ?thesis by (simp add: run_admits) (simp add: allowed_times_def throttle_demo_start_def throttle_fresh_def)
qed

theorem throttle_rate_witness:
  "initialize_throttle_contract (signed_env [] 1 100 (Addr 8)) (Addr 1) throttle_demo_config throttle_fresh = Inr ((), throttle_demo_start)
   \<and> admissions (Addr 2) throttle_demo_calls throttle_demo_start ! 0 + 30 \<le> admissions (Addr 2) throttle_demo_calls throttle_demo_start ! 4"
proof -
  have init: "initialize_throttle_contract (signed_env [] 1 100 (Addr 8)) (Addr 1) throttle_demo_config throttle_fresh
      = Inr ((), throttle_demo_start)"
    by (simp add: initialize_throttle_contract_def validate_config_def throttle_demo_config_def throttle_demo_start_def throttle_fresh_def)
  have clock: "clock_from (env_timestamp (signed_env [] 1 100 (Addr 8))) throttle_demo_calls" by (simp add: throttle_demo_calls_def)
  have calm: "\<And>e k. (e, k) \<in> set throttle_demo_calls \<Longrightarrow> calm throttle_demo_config (Addr 2) k"
    by (auto simp: throttle_demo_calls_def calm_def)
  from throttle_rate [OF init clock calm] init show ?thesis
    by (simp add: throttle_demo_times throttle_demo_config_def Let_def)
qed

end
