(* ===== verification/Overdraft.thy ===== *)
theory Overdraft
  imports Soroban_Map "HOL-Library.List_Lexorder" "HOL-Library.Char_ord"
begin

text \<open>
  \<open>contracts/overdraft.rs\<close>: budgets per user and category; \<open>validate_transaction\<close> books a spending or refuses it when
  it exceeds what is left.  The categories of a user are a \<open>soroban_sdk::Map\<close>, so \<open>reset_spending\<close> walks them in the
  order of their keys.  The file is declared by no crate; its tests are in \<open>tests/overdraft_tests.rs\<close>.
\<close>

section \<open>Data\<close>

datatype overdraft_error =
    NotInitialized | Unauthorized | InvalidAmount | OverdraftLimitExceeded | CategoryNotFound | BudgetNotFound
  | InvalidCategory

record category_budget =
  cb_name :: symbol
  cb_limit :: int
  cb_spent :: int

record user_budget =
  ub_user :: address
  ub_categories :: "(symbol \<times> category_budget) list"
  ub_last_updated :: nat

record transaction_check_result =
  tx_allowed :: bool
  tx_remaining :: int
  tx_exceeded_by :: int

datatype overdraft_event =
    OverdraftAttempted address symbol int int
  | TransactionValidated address symbol int int
  | BudgetUpdated address symbol int

record overdraft_state =
  od_admin :: "address option"
  od_budget :: "address \<rightharpoonup> user_budget"
  od_attempts :: "nat option"
  od_events :: "overdraft_event list"

definition overdraft_fresh :: overdraft_state where
  "overdraft_fresh = \<lparr>od_admin = None, od_budget = Map.empty, od_attempts = None, od_events = []\<rparr>"

type_synonym 'a overdraft_outcome = "(overdraft_state, overdraft_error, 'a) outcome"

definition emit :: "overdraft_event \<Rightarrow> overdraft_state \<Rightarrow> overdraft_state" where
  "emit ev s = s\<lparr>od_events := od_events s @ [ev]\<rparr>"

definition save_budget :: "address \<Rightarrow> user_budget \<Rightarrow> overdraft_state \<Rightarrow> overdraft_state" where
  "save_budget u b s = s\<lparr>od_budget := (od_budget s)(u \<mapsto> b)\<rparr>"

section \<open>Administration\<close>

definition initialize :: "address \<Rightarrow> overdraft_state \<Rightarrow> unit overdraft_outcome" where
  "initialize admin s =
    (if od_admin s \<noteq> None then Inl PanicTrap else Inr ((), s\<lparr>od_admin := Some admin, od_attempts := Some 0\<rparr>))"

definition get_admin :: "overdraft_state \<Rightarrow> overdraft_error trap + address" where
  "get_admin s = (case od_admin s of None \<Rightarrow> Inl PanicTrap | Some a \<Rightarrow> Inr a)"

definition require_admin :: "env \<Rightarrow> address \<Rightarrow> overdraft_state \<Rightarrow> overdraft_error trap + unit" where
  "require_admin e caller s =
    (if \<not> env_auth e caller then Inl AuthTrap else
     case get_admin s of Inl t \<Rightarrow> Inl t | Inr admin \<Rightarrow>
     if caller \<noteq> admin then Inl (ContractError Unauthorized) else Inr ())"

definition add_category :: "category_budget \<Rightarrow> (symbol \<times> category_budget) list
    \<Rightarrow> overdraft_error trap + (symbol \<times> category_budget) list" where
  "add_category c m = (if cb_limit c < 0 then Inl (ContractError InvalidAmount) else Inr (map_set (cb_name c) c m))"

definition set_user_budget :: "env \<Rightarrow> address \<Rightarrow> address \<Rightarrow> category_budget list \<Rightarrow> overdraft_state \<Rightarrow> unit overdraft_outcome" where
  "set_user_budget e admin u categories s =
    (case require_admin e admin s of Inl t \<Rightarrow> Inl t | Inr _ \<Rightarrow>
     case fold_trap add_category categories [] of Inl t \<Rightarrow> Inl t | Inr m \<Rightarrow>
     Inr ((), save_budget u \<lparr>ub_user = u, ub_categories = m, ub_last_updated = env_timestamp e\<rparr> s))"

definition set_category_budget :: "env \<Rightarrow> address \<Rightarrow> address \<Rightarrow> symbol \<Rightarrow> int \<Rightarrow> overdraft_state \<Rightarrow> unit overdraft_outcome" where
  "set_category_budget e admin u category limit s =
    (case require_admin e admin s of Inl t \<Rightarrow> Inl t | Inr _ \<Rightarrow>
     if limit < 0 then Inl (ContractError InvalidAmount) else
     let b = unwrap_or (od_budget s u) \<lparr>ub_user = u, ub_categories = [], ub_last_updated = env_timestamp e\<rparr>;
         b1 = b\<lparr>ub_categories := map_set category \<lparr>cb_name = category, cb_limit = limit, cb_spent = 0\<rparr> (ub_categories b),
                ub_last_updated := env_timestamp e\<rparr> in
     Inr ((), emit (BudgetUpdated u category limit) (save_budget u b1 s)))"

section \<open>Transactions\<close>

text \<open>The two lookups all the spending functions start with.\<close>

definition find_category :: "address \<Rightarrow> symbol \<Rightarrow> overdraft_state \<Rightarrow> overdraft_error trap + (user_budget \<times> category_budget)" where
  "find_category u category s =
    (case od_budget s u of None \<Rightarrow> Inl (ContractError BudgetNotFound) | Some b \<Rightarrow>
     case map_of (ub_categories b) category of None \<Rightarrow> Inl (ContractError CategoryNotFound) | Some c \<Rightarrow> Inr (b, c))"

definition check_transaction :: "address \<Rightarrow> symbol \<Rightarrow> int \<Rightarrow> overdraft_state \<Rightarrow> overdraft_error trap + transaction_check_result" where
  "check_transaction u category amount s =
    (if amount \<le> 0 then Inr \<lparr>tx_allowed = False, tx_remaining = 0, tx_exceeded_by = 0\<rparr> else
     case find_category u category s of Inl t \<Rightarrow> Inl t | Inr (b, c) \<Rightarrow>
     case checked_sub (cb_limit c) (cb_spent c) of None \<Rightarrow> Inl ArithTrap | Some remaining \<Rightarrow>
     let allowed = (amount \<le> remaining) in
     case (if allowed then Some 0 else checked_sub amount remaining) of None \<Rightarrow> Inl ArithTrap | Some exceeded_by \<Rightarrow>
     Inr \<lparr>tx_allowed = allowed, tx_remaining = remaining, tx_exceeded_by = exceeded_by\<rparr>)"

definition book :: "nat \<Rightarrow> address \<Rightarrow> symbol \<Rightarrow> user_budget \<Rightarrow> category_budget \<Rightarrow> overdraft_state \<Rightarrow> overdraft_state" where
  "book now u category b c s =
     save_budget u (b\<lparr>ub_categories := map_set category c (ub_categories b), ub_last_updated := now\<rparr>) s"

text \<open>A refused transaction raises the attempt counter and emits \<open>OverdraftAttempted\<close>, but the panic that follows rolls
  both back; only an overflow of the counter could change the trap.\<close>

definition validate_transaction :: "env \<Rightarrow> address \<Rightarrow> symbol \<Rightarrow> int \<Rightarrow> overdraft_state \<Rightarrow> bool overdraft_outcome" where
  "validate_transaction e u category amount s =
    (if \<not> env_auth e u then Inl AuthTrap else
     if amount \<le> 0 then Inl (ContractError InvalidAmount) else
     case find_category u category s of Inl t \<Rightarrow> Inl t | Inr (b, c) \<Rightarrow>
     case checked_sub (cb_limit c) (cb_spent c) of None \<Rightarrow> Inl ArithTrap | Some remaining \<Rightarrow>
     if remaining < amount then
       (case u64_add (unwrap_or (od_attempts s) 0) 1 of None \<Rightarrow> Inl ArithTrap
        | Some attempts \<Rightarrow> Inl (ContractError OverdraftLimitExceeded))
     else
     case checked_add (cb_spent c) amount of None \<Rightarrow> Inl ArithTrap | Some spent \<Rightarrow>
     let c1 = c\<lparr>cb_spent := spent\<rparr>; s1 = book (env_timestamp e) u category b c1 s in
     case checked_sub (cb_limit c1) (cb_spent c1) of None \<Rightarrow> Inl ArithTrap | Some new_remaining \<Rightarrow>
     Inr (True, emit (TransactionValidated u category amount new_remaining) s1))"

definition record_spending :: "env \<Rightarrow> address \<Rightarrow> address \<Rightarrow> symbol \<Rightarrow> int \<Rightarrow> overdraft_state \<Rightarrow> unit overdraft_outcome" where
  "record_spending e admin u category amount s =
    (case require_admin e admin s of Inl t \<Rightarrow> Inl t | Inr _ \<Rightarrow>
     if amount \<le> 0 then Inl (ContractError InvalidAmount) else
     case find_category u category s of Inl t \<Rightarrow> Inl t | Inr (b, c) \<Rightarrow>
     case checked_add (cb_spent c) amount of None \<Rightarrow> Inl ArithTrap | Some spent \<Rightarrow>
     Inr ((), book (env_timestamp e) u category b (c\<lparr>cb_spent := spent\<rparr>) s))"

definition reset_category :: "category_budget \<Rightarrow> (symbol \<times> category_budget) list \<Rightarrow> (symbol \<times> category_budget) list" where
  "reset_category c m = map_set (cb_name c) \<lparr>cb_name = cb_name c, cb_limit = cb_limit c, cb_spent = 0\<rparr> m"

definition reset_spending :: "env \<Rightarrow> address \<Rightarrow> address \<Rightarrow> overdraft_state \<Rightarrow> unit overdraft_outcome" where
  "reset_spending e admin u s =
    (case require_admin e admin s of Inl t \<Rightarrow> Inl t | Inr _ \<Rightarrow>
     case od_budget s u of None \<Rightarrow> Inl (ContractError BudgetNotFound) | Some b \<Rightarrow>
     let new_categories = fold reset_category (map snd (ub_categories b)) [] in
     Inr ((), save_budget u (b\<lparr>ub_categories := new_categories, ub_last_updated := env_timestamp e\<rparr>) s))"

section \<open>Queries\<close>

definition get_user_budget :: "address \<Rightarrow> overdraft_state \<Rightarrow> user_budget option" where
  "get_user_budget u s = od_budget s u"

definition get_category_budget :: "address \<Rightarrow> symbol \<Rightarrow> overdraft_state \<Rightarrow> category_budget option" where
  "get_category_budget u category s =
    (case od_budget s u of None \<Rightarrow> None | Some b \<Rightarrow> map_of (ub_categories b) category)"

definition get_total_overdraft_attempts :: "overdraft_state \<Rightarrow> nat" where
  "get_total_overdraft_attempts s = unwrap_or (od_attempts s) 0"

datatype overdraft_call =
    CInitialize address
  | CSetUser address address "category_budget list"
  | CSetCategory address address symbol int
  | CValidate address symbol int
  | CRecord address address symbol int
  | CReset address address

fun overdraft_exec :: "env \<times> overdraft_call \<Rightarrow> overdraft_state \<Rightarrow> overdraft_error trap + overdraft_state" where
  "overdraft_exec (e, CInitialize a) s = final (initialize a s)"
| "overdraft_exec (e, CSetUser a u cs) s = final (set_user_budget e a u cs s)"
| "overdraft_exec (e, CSetCategory a u c n) s = final (set_category_budget e a u c n s)"
| "overdraft_exec (e, CValidate u c n) s = final (validate_transaction e u c n s)"
| "overdraft_exec (e, CRecord a u c n) s = final (record_spending e a u c n s)"
| "overdraft_exec (e, CReset a u) s = final (reset_spending e a u s)"


section \<open>Lemmas\<close>

lemma overdraft_frame [simp]:
  "od_budget (emit ev s) = od_budget s" "od_attempts (emit ev s) = od_attempts s" "od_admin (emit ev s) = od_admin s"
  "od_events (emit ev s) = od_events s @ [ev]" "od_budget (save_budget u b s) = (od_budget s)(u \<mapsto> b)"
  "od_attempts (save_budget u b s) = od_attempts s" "od_events (save_budget u b s) = od_events s"
  "od_admin (save_budget u b s) = od_admin s"
  by (simp_all add: emit_def save_budget_def)

lemma overdraft_require_admin_Inr [simp]: "require_admin e a s = Inr u \<longleftrightarrow> env_auth e a \<and> od_admin s = Some a"
  by (auto simp: require_admin_def get_admin_def split: option.splits)

lemma find_category_Inr [simp]:
  "find_category u k s = Inr (b, c) \<longleftrightarrow> od_budget s u = Some b \<and> map_of (ub_categories b) k = Some c"
  by (auto simp: find_category_def split: option.splits)

text \<open>\<open>named P m\<close>: the entries of \<open>m\<close> are in the order of their keys, carry their key as name, and satisfy \<open>P\<close>.\<close>

definition named :: "(category_budget \<Rightarrow> bool) \<Rightarrow> (symbol \<times> category_budget) list \<Rightarrow> bool" where
  "named P m \<longleftrightarrow> map_ok m \<and> (\<forall>k c. map_of m k = Some c \<longrightarrow> cb_name c = k \<and> P c)"

lemma named_set: "named P m \<Longrightarrow> cb_name c = k \<Longrightarrow> P c \<Longrightarrow> named P (map_set k c m)"
  by (simp add: named_def map_ok_set map_of_set)

lemma named_empty [simp]: "named P []"
  by (simp add: named_def)

lemma add_categories_named:
  assumes "fold_trap add_category cs m = Inr m'" and "named P m" and "\<forall>c\<in>set cs. 0 \<le> cb_limit c \<longrightarrow> P c"
  shows "named P m'"
  by (rule fold_trap_inv [OF assms(1), of "named P", OF assms(2)]) (use assms(3) in \<open>auto simp: add_category_def intro: named_set split: if_splits\<close>)

lemma map_of_reset: "map_of (reset_category c m) = (map_of m)(cb_name c \<mapsto> c\<lparr>cb_spent := 0\<rparr>)"
  by (cases c) (simp add: reset_category_def map_of_set)

lemma reset_categories:
  assumes "\<forall>(k, c)\<in>set m. cb_name c = k" and "distinct (map fst m)" and "named P acc"
    and "\<And>c. c \<in> snd ` set m \<Longrightarrow> P (c\<lparr>cb_spent := 0\<rparr>)"
  shows "named P (fold reset_category (map snd m) acc)
    \<and> map_of (fold reset_category (map snd m) acc) k
        = (case map_of m k of None \<Rightarrow> map_of acc k | Some c \<Rightarrow> Some (c\<lparr>cb_spent := 0\<rparr>))"
  using assms
proof (induction m arbitrary: acc)
  case (Cons kc m)
  obtain j c where kc: "kc = (j, c)" by (cases kc)
  have c: "\<lparr>cb_name = cb_name c, cb_limit = cb_limit c, cb_spent = 0\<rparr> = c\<lparr>cb_spent := 0\<rparr>" by simp
  have j: "cb_name c = j" using Cons.prems(1) kc by simp
  have "named P (reset_category c acc)"
    unfolding reset_category_def c by (rule named_set [OF Cons.prems(3)]) (use Cons.prems(4) kc in simp_all)
  from Cons.IH [OF _ _ this] Cons.prems kc
  have "named P (fold reset_category (map snd m) (reset_category c acc))
    \<and> map_of (fold reset_category (map snd m) (reset_category c acc)) k
        = (case map_of m k of None \<Rightarrow> map_of (reset_category c acc) k | Some c \<Rightarrow> Some (c\<lparr>cb_spent := 0\<rparr>))" by auto
  moreover have "map_of m j = None" using Cons.prems(2) kc by (simp add: map_of_eq_None_iff)
  ultimately show ?case using j kc by (auto simp: map_of_reset split: option.split)
qed simp

text \<open>The budgets of every user satisfy \<open>P\<close>.\<close>

definition all_budgets :: "(category_budget \<Rightarrow> bool) \<Rightarrow> overdraft_state \<Rightarrow> bool" where
  "all_budgets P s \<longleftrightarrow> (\<forall>u b. od_budget s u = Some b \<longrightarrow> named P (ub_categories b))"

lemma all_budgets_save: "all_budgets P s \<Longrightarrow> named P (ub_categories b) \<Longrightarrow> all_budgets P (save_budget u b s)"
  by (simp add: all_budgets_def)

lemma all_budgets_emit [simp]: "all_budgets P (emit ev s) = all_budgets P s"
  by (simp add: all_budgets_def)

lemma named_values:
  assumes "named P m"
  shows "\<forall>(k, c)\<in>set m. cb_name c = k" and "c \<in> snd ` set m \<Longrightarrow> P c"
  using assms by (auto simp: named_def map_ok_distinct)

lemma overdraft_reset_Inr:
  assumes run: "reset_spending e a u s = Inr (x, s')" and inv: "all_budgets P s"
    and P: "\<And>c. P c \<Longrightarrow> P (c\<lparr>cb_spent := 0\<rparr>)"
  shows "all_budgets P s' \<and> (\<forall>v k. get_category_budget v k s' = (if v = u
      then map_option (\<lambda>c. c\<lparr>cb_spent := 0\<rparr>) (get_category_budget v k s) else get_category_budget v k s))
    \<and> od_attempts s' = od_attempts s \<and> od_events s' = od_events s"
proof -
  from run obtain b where b: "od_budget s u = Some b" and s': "s' = save_budget u (b\<lparr>ub_categories :=
      fold reset_category (map snd (ub_categories b)) [], ub_last_updated := env_timestamp e\<rparr>) s"
    by (auto simp: reset_spending_def Let_def split: sum.splits option.splits)
  have n: "named P (ub_categories b)" using inv b by (simp add: all_budgets_def)
  then have "distinct (map fst (ub_categories b))" by (simp add: named_def map_ok_distinct)
  note r = reset_categories [OF named_values(1) [OF n] this named_empty, of P] named_values(2) [OF n] P
  show ?thesis
    using r inv b by (auto simp: s' get_category_budget_def all_budgets_save split: option.split)
qed

lemma overdraft_validate_Inr:
  assumes "validate_transaction e u k n s = Inr (x, s')"
  shows "\<exists>b c. x \<and> env_auth e u \<and> 0 < n \<and> od_budget s u = Some b \<and> map_of (ub_categories b) k = Some c
    \<and> cb_spent c + n \<le> cb_limit c
    \<and> s' = emit (TransactionValidated u k n (cb_limit c - (cb_spent c + n))) (book (env_timestamp e) u k b (c\<lparr>cb_spent := cb_spent c + n\<rparr>) s)"
  using assms by (auto simp: validate_transaction_def Let_def not_le not_less split: if_splits sum.splits option.splits)

text \<open>What the calls must spare for \<open>P\<close> to hold of every budget.\<close>

fun spares :: "(category_budget \<Rightarrow> bool) \<Rightarrow> overdraft_call \<Rightarrow> bool" where
  "spares P (CSetUser a u cs) \<longleftrightarrow> (\<forall>c\<in>set cs. 0 \<le> cb_limit c \<longrightarrow> P c)"
| "spares P (CRecord a u k n) \<longleftrightarrow> (\<forall>c. P c \<and> 0 < n \<longrightarrow> P (c\<lparr>cb_spent := cb_spent c + n\<rparr>))"
| "spares P _ \<longleftrightarrow> True"

lemma overdraft_exec_budgets:
  assumes run: "overdraft_exec (e, k) s = Inr s'" and inv: "all_budgets P s" and call: "spares P k"
    and fresh: "\<And>m n. 0 \<le> n \<Longrightarrow> P \<lparr>cb_name = m, cb_limit = n, cb_spent = 0\<rparr>"
    and reset: "\<And>c. P c \<Longrightarrow> P (c\<lparr>cb_spent := 0\<rparr>)"
    and spend: "\<And>c n. P c \<Longrightarrow> 0 < n \<Longrightarrow> cb_spent c + n \<le> cb_limit c \<Longrightarrow> P (c\<lparr>cb_spent := cb_spent c + n\<rparr>)"
  shows "all_budgets P s'"
proof (cases k)
  case (CInitialize a)
  with run inv show ?thesis by (auto simp: initialize_def all_budgets_def split: if_splits)
next
  case (CSetUser a u cs)
  with run obtain m where m: "fold_trap add_category cs [] = Inr m"
    and s': "s' = save_budget u \<lparr>ub_user = u, ub_categories = m, ub_last_updated = env_timestamp e\<rparr> s"
    by (auto simp: set_user_budget_def split: sum.splits)
  have "named P m" by (rule add_categories_named [OF m named_empty]) (use call CSetUser in simp)
  then show ?thesis by (simp add: s' all_budgets_save [OF inv])
next
  case (CSetCategory a u c n)
  have "named P (ub_categories (unwrap_or (od_budget s u) \<lparr>ub_user = u, ub_categories = [], ub_last_updated = t\<rparr>))" for t
    using inv by (auto simp: unwrap_or_def all_budgets_def split: option.split)
  with CSetCategory run inv fresh show ?thesis
    by (auto simp: set_category_budget_def Let_def not_less split: sum.splits if_splits intro!: all_budgets_save named_set)
next
  case (CValidate u c n)
  with run obtain x where "validate_transaction e u c n s = Inr (x, s')" by auto
  from overdraft_validate_Inr [OF this] inv spend show ?thesis
    by (fastforce simp: book_def all_budgets_def named_def map_ok_set map_of_set)
next
  case (CRecord a u c n)
  with run obtain b d where "od_budget s u = Some b" "map_of (ub_categories b) c = Some d" "0 < n"
    "s' = book (env_timestamp e) u c b (d\<lparr>cb_spent := cb_spent d + n\<rparr>) s"
    by (auto simp: record_spending_def split: sum.splits option.splits if_splits)
  with inv call CRecord show ?thesis
    by (fastforce simp: book_def all_budgets_def named_def map_ok_set map_of_set)
next
  case (CReset a u)
  with run inv reset overdraft_reset_Inr [of e a u s _ s' P] show ?thesis by auto
qed


section \<open>Properties\<close>

text \<open>A disciplined admin records no spending and sets no budget that is already overspent.\<close>

fun disciplined :: "overdraft_call \<Rightarrow> bool" where
  "disciplined (CSetUser a u cs) \<longleftrightarrow> (\<forall>c\<in>set cs. cb_spent c \<le> cb_limit c)"
| "disciplined (CRecord a u k n) \<longleftrightarrow> False"
| "disciplined _ \<longleftrightarrow> True"

definition within_limit :: "category_budget \<Rightarrow> bool" where
  "within_limit c \<longleftrightarrow> 0 \<le> cb_limit c \<and> cb_spent c \<le> cb_limit c"

lemma disciplined_spares: "disciplined k \<Longrightarrow> spares within_limit k"
  by (cases k) (auto simp: within_limit_def)

interpretation overdraft_machine:
  contract_invariant overdraft_exec "all_budgets within_limit" "\<lambda>(e, k). disciplined k"
proof unfold_locales
  fix s s' and ek :: "env \<times> overdraft_call"
  obtain e k where ek: "ek = (e, k)" by (cases ek)
  assume I: "all_budgets within_limit s" and d: "case ek of (e, k) \<Rightarrow> disciplined k"
    and run: "overdraft_exec ek s = Inr s'"
  show "all_budgets within_limit s'"
    by (rule overdraft_exec_budgets [OF run [unfolded ek] I]) (use d in \<open>simp_all add: ek disciplined_spares within_limit_def\<close>)
qed

text \<open>C10: No category is overdrawn.  While the admin neither records spending past the check nor sets a budget that
  is already overspent, no sequence of calls takes the spending of any category above its limit.\<close>

theorem overdraft_within_limit:
  assumes "\<And>e k. (e, k) \<in> set cs \<Longrightarrow> disciplined k"
    and "get_category_budget u k (run overdraft_exec cs overdraft_fresh) = Some c"
  shows "cb_spent c \<le> cb_limit c \<and> cb_name c = k"
proof -
  have "all_budgets within_limit (run overdraft_exec cs overdraft_fresh)"
    by (rule overdraft_machine.run_inv) (use assms(1) in \<open>auto simp: all_budgets_def overdraft_fresh_def\<close>)
  with assms(2) show ?thesis by (auto simp: all_budgets_def named_def within_limit_def get_category_budget_def split: option.splits)
qed

fun is_attempt :: "overdraft_event \<Rightarrow> bool" where
  "is_attempt (OverdraftAttempted u k n m) \<longleftrightarrow> True"
| "is_attempt _ \<longleftrightarrow> False"

text \<open>Refused transactions leave no trace.  \<open>validate_transaction\<close> raises the attempt counter and emits an event and
  then panics, which undoes both: after any calls, refused ones included, the total of overdraft attempts is 0 and
  no attempt has been announced.\<close>

theorem overdraft_attempts_lost:
  "let s = run overdraft_exec cs overdraft_fresh in
     get_total_overdraft_attempts s = 0 \<and> filter is_attempt (od_events s) = []"
proof -
  let ?I = "\<lambda>s. unwrap_or (od_attempts s) 0 = 0 \<and> filter is_attempt (od_events s) = []"
  have step: "?I s'" if "overdraft_exec ek s = Inr s'" "?I s" for ek s s'
  proof -
    obtain e k where "ek = (e, k)" by (cases ek)
    with that show ?thesis
      by (cases k)
        (auto simp: initialize_def set_user_budget_def set_category_budget_def record_spending_def reset_spending_def book_def Let_def
          dest!: overdraft_validate_Inr split: sum.splits option.splits if_splits)
  qed
  have "contract_invariant overdraft_exec ?I (\<lambda>_. True)" by unfold_locales (rule step)
  then have "?I (run overdraft_exec cs overdraft_fresh)"
    by (rule contract_invariant.run_inv) (simp_all add: overdraft_fresh_def)
  then show ?thesis by (simp add: get_total_overdraft_attempts_def Let_def)
qed

section \<open>Witnesses\<close>

definition overdraft_demo :: "(env \<times> overdraft_call) list" where
  "overdraft_demo =
     [(signed_env [] 1 5 (Addr 8), CInitialize (Addr 1)),
      (signed_env [Addr 1] 1 5 (Addr 8), CSetCategory (Addr 1) (Addr 2) ''food'' 100),
      (signed_env [Addr 2] 1 6 (Addr 8), CValidate (Addr 2) ''food'' 60),
      (signed_env [Addr 2] 1 7 (Addr 8), CValidate (Addr 2) ''food'' 60)]"

lemma overdraft_demo_value:
  "get_category_budget (Addr 2) ''food'' (run overdraft_exec overdraft_demo overdraft_fresh)
     = Some \<lparr>cb_name = ''food'', cb_limit = 100, cb_spent = 60\<rparr>"
  by (simp add: overdraft_demo_def overdraft_fresh_def initialize_def set_category_budget_def require_admin_def get_admin_def
      validate_transaction_def find_category_def book_def save_budget_def emit_def get_category_budget_def Let_def arith_defs)

theorem overdraft_within_limit_witness:
  "\<exists>c. get_category_budget (Addr 2) ''food'' (run overdraft_exec overdraft_demo overdraft_fresh) = Some c
     \<and> cb_spent c \<le> cb_limit c \<and> 0 < cb_spent c"
  using overdraft_within_limit [OF _ overdraft_demo_value] overdraft_demo_value by (auto simp: overdraft_demo_def)

end
