(* ===== verification/Cross_Contract.thy ===== *)
theory Cross_Contract
  imports Host
begin

text \<open>
  \<open>contracts/cross-contract/src\<close> (\<open>lib.rs\<close>, \<open>types.rs\<close>, \<open>validation.rs\<close>): the admin calls other contracts through this
  one, one at a time or in batches.  The called contracts are the parameter \<open>ivk\<close>: \<open>ivk e c f args w\<close> is what
  \<open>try_invoke_contract\<close> returns and the world after it, or \<open>None\<close> when the call fails, which the host undoes.  The
  crate is no member of the workspace.
\<close>

section \<open>Data (types.rs)\<close>

definition MAX_BATCH_CALLS :: nat where "MAX_BATCH_CALLS = 50"

type_synonym bytes = "nat list"

type_synonym 'w invoker = "env \<Rightarrow> address \<Rightarrow> symbol \<Rightarrow> bytes list \<Rightarrow> 'w \<Rightarrow> (bytes \<times> 'w) option"

record cross_call =
  cc_contract_address :: address
  cc_function_name :: symbol
  cc_args :: "bytes list"
  cc_continue_on_failure :: bool

record call_result =
  cr_success :: bool
  cr_return_data :: "bytes option"
  cr_error_message :: "symbol option"

record batch_call_result =
  bc_total_calls :: nat
  bc_successful_calls :: nat
  bc_failed_calls :: nat
  bc_results :: "call_result list"

datatype cross_error =
    NotInitialized | Unauthorized | InvalidContractAddress | InvalidFunctionName | ContractNotWhitelisted | EmptyBatch
  | BatchTooLarge | CallFailed

datatype cross_event =
    CallInitiated address address symbol
  | CallSucceeded address symbol
  | CallFailedEvent address symbol symbol
  | BatchCompleted nat nat nat
  | ContractWhitelisted address
  | ContractRemoved address

record cross_state =
  xc_admin :: "address option"
  xc_total_calls :: "nat option"
  xc_successful_calls :: "nat option"
  xc_failed_calls :: "nat option"
  xc_whitelist :: "address \<rightharpoonup> bool"
  xc_events :: "cross_event list"

definition cross_fresh :: cross_state where
  "cross_fresh = \<lparr>xc_admin = None, xc_total_calls = None, xc_successful_calls = None, xc_failed_calls = None,
     xc_whitelist = Map.empty, xc_events = []\<rparr>"

type_synonym ('w, 'a) cross_outcome = "(cross_state \<times> 'w, cross_error, 'a) outcome"

definition emit :: "cross_event \<Rightarrow> cross_state \<Rightarrow> cross_state" where
  "emit ev s = s\<lparr>xc_events := xc_events s @ [ev]\<rparr>"

section \<open>Validation (validation.rs)\<close>

text \<open>The text form of an address is a strkey of 56 characters.\<close>

definition strkey_length :: "address \<Rightarrow> nat" where "strkey_length a = 56"

definition validate_contract_address :: "address \<Rightarrow> cross_error + unit" where
  "validate_contract_address a = (if strkey_length a = 0 then Inl InvalidContractAddress else Inr ())"

definition validate_function_name :: "symbol \<Rightarrow> cross_error + unit" where
  "validate_function_name f = (if length f = 0 then Inl InvalidFunctionName else Inr ())"

definition is_whitelisted :: "address \<Rightarrow> cross_state \<Rightarrow> bool" where
  "is_whitelisted a s = unwrap_or (xc_whitelist s a) False"

definition validate_call_request :: "cross_state \<Rightarrow> bool \<Rightarrow> cross_call \<Rightarrow> cross_error + unit" where
  "validate_call_request s require_whitelist call =
    (case validate_contract_address (cc_contract_address call) of Inl x \<Rightarrow> Inl x | Inr _ \<Rightarrow>
     case validate_function_name (cc_function_name call) of Inl x \<Rightarrow> Inl x | Inr _ \<Rightarrow>
     if require_whitelist \<and> \<not> is_whitelisted (cc_contract_address call) s then Inl ContractNotWhitelisted else Inr ())"

fun validate_calls :: "cross_state \<Rightarrow> bool \<Rightarrow> cross_call list \<Rightarrow> cross_error + unit" where
  "validate_calls s require_whitelist [] = Inr ()"
| "validate_calls s require_whitelist (c # cs) =
    (case validate_call_request s require_whitelist c of Inl x \<Rightarrow> Inl x | Inr _ \<Rightarrow> validate_calls s require_whitelist cs)"

definition validate_batch_calls :: "cross_state \<Rightarrow> bool \<Rightarrow> cross_call list \<Rightarrow> cross_error + unit" where
  "validate_batch_calls s require_whitelist calls =
    (if length calls = 0 then Inl EmptyBatch else
     if MAX_BATCH_CALLS < length calls then Inl BatchTooLarge else validate_calls s require_whitelist calls)"

section \<open>Private helpers (lib.rs)\<close>

definition require_admin :: "env \<Rightarrow> address \<Rightarrow> cross_state \<Rightarrow> cross_error trap + unit" where
  "require_admin e caller s =
    (if \<not> env_auth e caller then Inl AuthTrap else
     case xc_admin s of None \<Rightarrow> Inl (ContractError NotInitialized) | Some admin \<Rightarrow>
     if caller \<noteq> admin then Inl (ContractError Unauthorized) else Inr ())"

definition invoke_contract :: "'w invoker \<Rightarrow> env \<Rightarrow> cross_call \<Rightarrow> 'w \<Rightarrow> call_result \<times> 'w" where
  "invoke_contract ivk e call w =
    (case ivk e (cc_contract_address call) (cc_function_name call) (cc_args call) w of
       Some (d, w1) \<Rightarrow> (\<lparr>cr_success = True, cr_return_data = Some d, cr_error_message = None\<rparr>, w1)
     | None \<Rightarrow> (\<lparr>cr_success = False, cr_return_data = None, cr_error_message = Some ''call_failed''\<rparr>, w))"

definition update_call_stats :: "bool \<Rightarrow> cross_state \<Rightarrow> cross_error trap + cross_state" where
  "update_call_stats success s =
    (case u64_add (unwrap_or (xc_total_calls s) 0) 1 of None \<Rightarrow> Inl ArithTrap | Some total_calls \<Rightarrow>
     let s1 = s\<lparr>xc_total_calls := Some total_calls\<rparr> in
     if success then
       (case u64_add (unwrap_or (xc_successful_calls s1) 0) 1 of None \<Rightarrow> Inl ArithTrap | Some n \<Rightarrow>
        Inr (s1\<lparr>xc_successful_calls := Some n\<rparr>))
     else
       (case u64_add (unwrap_or (xc_failed_calls s1) 0) 1 of None \<Rightarrow> Inl ArithTrap | Some n \<Rightarrow>
        Inr (s1\<lparr>xc_failed_calls := Some n\<rparr>)))"

definition update_batch_stats :: "nat \<Rightarrow> nat \<Rightarrow> cross_state \<Rightarrow> cross_error trap + cross_state" where
  "update_batch_stats successful failed s =
    (case u64_add (unwrap_or (xc_total_calls s) 0) successful of None \<Rightarrow> Inl ArithTrap | Some t1 \<Rightarrow>
     case u64_add t1 failed of None \<Rightarrow> Inl ArithTrap | Some t2 \<Rightarrow>
     case u64_add (unwrap_or (xc_successful_calls s) 0) successful of None \<Rightarrow> Inl ArithTrap | Some n \<Rightarrow>
     case u64_add (unwrap_or (xc_failed_calls s) 0) failed of None \<Rightarrow> Inl ArithTrap | Some m \<Rightarrow>
     Inr (s\<lparr>xc_total_calls := Some t2, xc_successful_calls := Some n, xc_failed_calls := Some m\<rparr>))"

definition announce :: "cross_call \<Rightarrow> call_result \<Rightarrow> cross_state \<Rightarrow> cross_state" where
  "announce call r s =
    (if cr_success r then emit (CallSucceeded (cc_contract_address call) (cc_function_name call)) s
     else emit (CallFailedEvent (cc_contract_address call) (cc_function_name call)
            (unwrap_or (cr_error_message r) ''unknown'')) s)"

section \<open>Entry points\<close>

definition initialize :: "address \<Rightarrow> cross_state \<times> 'w \<Rightarrow> ('w, unit) cross_outcome" where
  "initialize admin sw = (case sw of (s, w) \<Rightarrow>
     if xc_admin s \<noteq> None then Inl PanicTrap else
     Inr ((), s\<lparr>xc_admin := Some admin, xc_total_calls := Some 0, xc_successful_calls := Some 0, xc_failed_calls := Some 0\<rparr>, w))"

definition execute_call :: "'w invoker \<Rightarrow> env \<Rightarrow> address \<Rightarrow> cross_call \<Rightarrow> bool \<Rightarrow> cross_state \<times> 'w \<Rightarrow> ('w, call_result) cross_outcome" where
  "execute_call ivk e caller call require_whitelist sw = (case sw of (s, w) \<Rightarrow>
     case require_admin e caller s of Inl t \<Rightarrow> Inl t | Inr _ \<Rightarrow>
     case validate_call_request s require_whitelist call of Inl x \<Rightarrow> Inl (ContractError x) | Inr _ \<Rightarrow>
     let s1 = emit (CallInitiated caller (cc_contract_address call) (cc_function_name call)) s in
     case invoke_contract ivk e call w of (r, w1) \<Rightarrow>
     case update_call_stats (cr_success r) s1 of Inl t \<Rightarrow> Inl t | Inr s2 \<Rightarrow>
     Inr (r, announce call r s2, w1))"

text \<open>The loop of \<open>execute_batch\<close>: it ends after the first failing call that does not ask to continue.  The counters
  are at most the 50 calls of a batch.\<close>

fun batch_loop :: "'w invoker \<Rightarrow> env \<Rightarrow> address \<Rightarrow> cross_call list \<Rightarrow> nat \<times> nat \<times> call_result list \<times> cross_state \<times> 'w
    \<Rightarrow> nat \<times> nat \<times> call_result list \<times> cross_state \<times> 'w" where
  "batch_loop ivk e caller [] u = u"
| "batch_loop ivk e caller (c # cs) (ok, failed, results, s, w) =
    (let s1 = emit (CallInitiated caller (cc_contract_address c) (cc_function_name c)) s in
     case invoke_contract ivk e c w of (r, w1) \<Rightarrow>
     let s2 = announce c r s1 in
     if cr_success r then batch_loop ivk e caller cs (ok + 1, failed, results @ [r], s2, w1)
     else if \<not> cc_continue_on_failure c then (ok, failed + 1, results @ [r], s2, w1)
     else batch_loop ivk e caller cs (ok, failed + 1, results @ [r], s2, w1))"

definition execute_batch ::
  "'w invoker \<Rightarrow> env \<Rightarrow> address \<Rightarrow> cross_call list \<Rightarrow> bool \<Rightarrow> cross_state \<times> 'w \<Rightarrow> ('w, batch_call_result) cross_outcome" where
  "execute_batch ivk e caller calls require_whitelist sw = (case sw of (s, w) \<Rightarrow>
     case require_admin e caller s of Inl t \<Rightarrow> Inl t | Inr _ \<Rightarrow>
     case validate_batch_calls s require_whitelist calls of Inl x \<Rightarrow> Inl (ContractError x) | Inr _ \<Rightarrow>
     case batch_loop ivk e caller calls (0, 0, [], s, w) of (ok, failed, results, s1, w1) \<Rightarrow>
     case update_batch_stats ok failed s1 of Inl t \<Rightarrow> Inl t | Inr s2 \<Rightarrow>
     Inr (\<lparr>bc_total_calls = length calls, bc_successful_calls = ok, bc_failed_calls = failed, bc_results = results\<rparr>,
          emit (BatchCompleted (length calls) ok failed) s2, w1))"

definition whitelist_contract :: "env \<Rightarrow> address \<Rightarrow> address \<Rightarrow> cross_state \<times> 'w \<Rightarrow> ('w, unit) cross_outcome" where
  "whitelist_contract e caller c sw = (case sw of (s, w) \<Rightarrow>
     case require_admin e caller s of Inl t \<Rightarrow> Inl t | Inr _ \<Rightarrow>
     Inr ((), emit (ContractWhitelisted c) (s\<lparr>xc_whitelist := (xc_whitelist s)(c \<mapsto> True)\<rparr>), w))"

definition remove_from_whitelist :: "env \<Rightarrow> address \<Rightarrow> address \<Rightarrow> cross_state \<times> 'w \<Rightarrow> ('w, unit) cross_outcome" where
  "remove_from_whitelist e caller c sw = (case sw of (s, w) \<Rightarrow>
     case require_admin e caller s of Inl t \<Rightarrow> Inl t | Inr _ \<Rightarrow>
     Inr ((), emit (ContractRemoved c) (s\<lparr>xc_whitelist := (xc_whitelist s)(c := None)\<rparr>), w))"

definition get_admin :: "cross_state \<Rightarrow> cross_error trap + address" where
  "get_admin s = (case xc_admin s of None \<Rightarrow> Inl (ContractError NotInitialized) | Some a \<Rightarrow> Inr a)"

definition set_admin :: "env \<Rightarrow> address \<Rightarrow> address \<Rightarrow> cross_state \<times> 'w \<Rightarrow> ('w, unit) cross_outcome" where
  "set_admin e current_admin new_admin sw = (case sw of (s, w) \<Rightarrow>
     case require_admin e current_admin s of Inl t \<Rightarrow> Inl t | Inr _ \<Rightarrow> Inr ((), s\<lparr>xc_admin := Some new_admin\<rparr>, w))"

definition get_total_calls :: "cross_state \<Rightarrow> nat" where
  "get_total_calls s = unwrap_or (xc_total_calls s) 0"

definition get_successful_calls :: "cross_state \<Rightarrow> nat" where
  "get_successful_calls s = unwrap_or (xc_successful_calls s) 0"

definition get_failed_calls :: "cross_state \<Rightarrow> nat" where
  "get_failed_calls s = unwrap_or (xc_failed_calls s) 0"

datatype cross_op =
    CInitialize address
  | CCall address cross_call bool
  | CBatch address "cross_call list" bool
  | CWhitelist address address
  | CUnlist address address
  | CSetAdmin address address

fun cross_exec :: "'w invoker \<Rightarrow> env \<times> cross_op \<Rightarrow> cross_state \<times> 'w \<Rightarrow> cross_error trap + (cross_state \<times> 'w)" where
  "cross_exec ivk (e, CInitialize a) w = final (initialize a w)"
| "cross_exec ivk (e, CCall a c b) w = final (execute_call ivk e a c b w)"
| "cross_exec ivk (e, CBatch a cs b) w = final (execute_batch ivk e a cs b w)"
| "cross_exec ivk (e, CWhitelist a c) w = final (whitelist_contract e a c w)"
| "cross_exec ivk (e, CUnlist a c) w = final (remove_from_whitelist e a c w)"
| "cross_exec ivk (e, CSetAdmin a b) w = final (set_admin e a b w)"


section \<open>Lemmas\<close>

lemma cross_emit_frame [simp]:
  "xc_admin (emit ev s) = xc_admin s" "xc_total_calls (emit ev s) = xc_total_calls s"
  "xc_successful_calls (emit ev s) = xc_successful_calls s" "xc_failed_calls (emit ev s) = xc_failed_calls s"
  "xc_whitelist (emit ev s) = xc_whitelist s" "xc_events (emit ev s) = xc_events s @ [ev]"
  by (simp_all add: emit_def)

lemma announce_frame [simp]:
  "xc_admin (announce c r s) = xc_admin s" "xc_total_calls (announce c r s) = xc_total_calls s"
  "xc_successful_calls (announce c r s) = xc_successful_calls s" "xc_failed_calls (announce c r s) = xc_failed_calls s"
  "xc_whitelist (announce c r s) = xc_whitelist s"
  "xc_events (announce c r s) = xc_events s @ [if cr_success r then CallSucceeded (cc_contract_address c) (cc_function_name c)
     else CallFailedEvent (cc_contract_address c) (cc_function_name c) (unwrap_or (cr_error_message r) ''unknown'')]"
  by (simp_all add: announce_def)

lemma cross_require_admin_Inr [simp]: "require_admin e a s = Inr u \<longleftrightarrow> env_auth e a \<and> xc_admin s = Some a"
  by (auto simp: require_admin_def split: option.splits)

definition admissible_call :: "cross_state \<Rightarrow> bool \<Rightarrow> cross_call \<Rightarrow> bool" where
  "admissible_call s require_whitelist c \<longleftrightarrow> cc_function_name c \<noteq> [] \<and> (require_whitelist \<longrightarrow> is_whitelisted (cc_contract_address c) s)"

lemma validate_call_Inr [simp]: "validate_call_request s b c = Inr u \<longleftrightarrow> admissible_call s b c"
  by (auto simp: validate_call_request_def validate_contract_address_def strkey_length_def validate_function_name_def admissible_call_def)

lemma validate_calls_Inr [simp]: "validate_calls s b cs = Inr u \<longleftrightarrow> list_all (admissible_call s b) cs"
proof (induction cs)
  case (Cons c cs)
  then show ?case by (cases "validate_call_request s b c") (use validate_call_Inr [of s b c] in \<open>auto simp del: validate_call_Inr\<close>)
qed simp

text \<open>The reference run of a batch: the calls up to and with the first that fails and does not ask to continue.\<close>

fun attempted :: "'w invoker \<Rightarrow> env \<Rightarrow> cross_call list \<Rightarrow> 'w \<Rightarrow> (cross_call \<times> call_result) list" where
  "attempted ivk e [] w = []"
| "attempted ivk e (c # cs) w = (case invoke_contract ivk e c w of (r, w1) \<Rightarrow>
     (c, r) # (if cr_success r \<or> cc_continue_on_failure c then attempted ivk e cs w1 else []))"

fun world_after :: "'w invoker \<Rightarrow> env \<Rightarrow> cross_call list \<Rightarrow> 'w \<Rightarrow> 'w" where
  "world_after ivk e [] w = w"
| "world_after ivk e (c # cs) w = (case invoke_contract ivk e c w of (r, w1) \<Rightarrow>
     if cr_success r \<or> cc_continue_on_failure c then world_after ivk e cs w1 else w1)"

definition wins :: "(cross_call \<times> call_result) list \<Rightarrow> nat" where
  "wins xs = length (filter (\<lambda>x. cr_success (snd x)) xs)"

lemma wins_simps [simp]: "wins [] = 0" "wins (x # xs) = (if cr_success (snd x) then 1 else 0) + wins xs"
  by (simp_all add: wins_def)

lemma wins_le: "wins xs \<le> length xs"
  by (simp add: wins_def)

text \<open>The calls announced in a log.\<close>

fun outcome_of :: "cross_event \<Rightarrow> bool list" where
  "outcome_of (CallSucceeded a f) = [True]"
| "outcome_of (CallFailedEvent a f m) = [False]"
| "outcome_of _ = []"

definition outcomes :: "cross_state \<Rightarrow> bool list" where
  "outcomes s = concat (map outcome_of (xc_events s))"

lemma outcomes_simps [simp]:
  "outcomes (emit ev s) = outcomes s @ outcome_of ev" "outcomes (announce c r s) = outcomes s @ [cr_success r]"
  by (simp_all add: outcomes_def)

lemma batch_loop_value:
  "batch_loop ivk e a cs (ok, failed, rs, s, w) = (ok', failed', rs', s', w') \<Longrightarrow>
     (let xs = attempted ivk e cs w in
       ok' = ok + wins xs \<and> failed' = failed + (length xs - wins xs) \<and> rs' = rs @ map snd xs \<and> w' = world_after ivk e cs w
     \<and> outcomes s' = outcomes s @ map (\<lambda>x. cr_success (snd x)) xs)
   \<and> xc_admin s' = xc_admin s \<and> xc_total_calls s' = xc_total_calls s \<and> xc_successful_calls s' = xc_successful_calls s
   \<and> xc_failed_calls s' = xc_failed_calls s \<and> xc_whitelist s' = xc_whitelist s"
proof (induction cs arbitrary: ok failed rs s w)
  case (Cons c cs)
  obtain r w1 where r: "invoke_contract ivk e c w = (r, w1)" by (cases "invoke_contract ivk e c w")
  have wins: "wins (attempted ivk e cs w1) \<le> length (attempted ivk e cs w1)" by (rule wins_le)
  consider "cr_success r" | "\<not> cr_success r" "cc_continue_on_failure c" | "\<not> cr_success r" "\<not> cc_continue_on_failure c" by blast
  then show ?case
  proof cases
    case 1
    with Cons.prems r have "batch_loop ivk e a cs (ok + 1, failed, rs @ [r],
        announce c r (emit (CallInitiated a (cc_contract_address c) (cc_function_name c)) s), w1) = (ok', failed', rs', s', w')"
      by (simp add: Let_def)
    from Cons.IH [OF this] 1 r show ?thesis by (simp add: Let_def)
  next
    case 2
    with Cons.prems r have "batch_loop ivk e a cs (ok, failed + 1, rs @ [r],
        announce c r (emit (CallInitiated a (cc_contract_address c) (cc_function_name c)) s), w1) = (ok', failed', rs', s', w')"
      by (simp add: Let_def)
    from Cons.IH [OF this] 2 r wins show ?thesis by (simp add: Let_def Suc_diff_le)
  next
    case 3
    with Cons.prems r show ?thesis by (auto simp: Let_def)
  qed
qed (auto simp: Let_def)

lemma call_stats_Inr:
  assumes "update_call_stats b s = Inr s'"
  shows "get_total_calls s' = get_total_calls s + 1 \<and> get_successful_calls s' = get_successful_calls s + (if b then 1 else 0)
    \<and> get_failed_calls s' = get_failed_calls s + (if b then 0 else 1) \<and> outcomes s' = outcomes s
    \<and> xc_admin s' = xc_admin s \<and> xc_whitelist s' = xc_whitelist s"
  using assms
  by (auto simp: update_call_stats_def Let_def get_total_calls_def get_successful_calls_def get_failed_calls_def outcomes_def
      split: option.splits if_splits)

lemma batch_stats_Inr:
  assumes "update_batch_stats m n s = Inr s'"
  shows "get_total_calls s' = get_total_calls s + m + n \<and> get_successful_calls s' = get_successful_calls s + m
    \<and> get_failed_calls s' = get_failed_calls s + n \<and> outcomes s' = outcomes s
    \<and> xc_admin s' = xc_admin s \<and> xc_whitelist s' = xc_whitelist s"
  using assms
  by (auto simp: update_batch_stats_def get_total_calls_def get_successful_calls_def get_failed_calls_def outcomes_def
      split: option.splits)

lemma execute_call_Inr:
  assumes "execute_call ivk e a c b (s, w) = Inr (r, s', w')"
  shows "env_auth e a \<and> xc_admin s = Some a \<and> admissible_call s b c \<and> invoke_contract ivk e c w = (r, w')
    \<and> get_total_calls s' = get_total_calls s + 1 \<and> get_successful_calls s' = get_successful_calls s + (if cr_success r then 1 else 0)
    \<and> get_failed_calls s' = get_failed_calls s + (if cr_success r then 0 else 1) \<and> outcomes s' = outcomes s @ [cr_success r]
    \<and> xc_admin s' = xc_admin s \<and> xc_whitelist s' = xc_whitelist s"
proof -
  from assms obtain s2 where s2: "update_call_stats (cr_success r) (emit (CallInitiated a (cc_contract_address c) (cc_function_name c)) s) = Inr s2"
    and rest: "env_auth e a" "xc_admin s = Some a" "admissible_call s b c" "invoke_contract ivk e c w = (r, w')" "s' = announce c r s2"
    by (auto simp: execute_call_def Let_def split: sum.splits prod.splits)
  from call_stats_Inr [OF s2] rest show ?thesis
    by (simp add: get_total_calls_def get_successful_calls_def get_failed_calls_def)
qed

lemma execute_batch_Inr:
  assumes "execute_batch ivk e a cs b (s, w) = Inr (r, s', w')"
  shows "let xs = attempted ivk e cs w in
      env_auth e a \<and> xc_admin s = Some a \<and> cs \<noteq> [] \<and> length cs \<le> MAX_BATCH_CALLS \<and> list_all (admissible_call s b) cs
    \<and> r = \<lparr>bc_total_calls = length cs, bc_successful_calls = wins xs, bc_failed_calls = length xs - wins xs, bc_results = map snd xs\<rparr>
    \<and> w' = world_after ivk e cs w
    \<and> get_total_calls s' = get_total_calls s + length xs \<and> get_successful_calls s' = get_successful_calls s + wins xs
    \<and> get_failed_calls s' = get_failed_calls s + (length xs - wins xs)
    \<and> outcomes s' = outcomes s @ map (\<lambda>x. cr_success (snd x)) xs
    \<and> xc_admin s' = xc_admin s \<and> xc_whitelist s' = xc_whitelist s"
proof -
  from assms obtain ok failed rs s1 s2 where loop: "batch_loop ivk e a cs (0, 0, [], s, w) = (ok, failed, rs, s1, w')"
    and stats: "update_batch_stats ok failed s1 = Inr s2"
    and rest: "env_auth e a" "xc_admin s = Some a" "cs \<noteq> []" "length cs \<le> MAX_BATCH_CALLS" "list_all (admissible_call s b) cs"
      "r = \<lparr>bc_total_calls = length cs, bc_successful_calls = ok, bc_failed_calls = failed, bc_results = rs\<rparr>"
      "s' = emit (BatchCompleted (length cs) ok failed) s2"
    by (auto simp: execute_batch_def validate_batch_calls_def split: sum.splits prod.splits if_splits)
  from batch_stats_Inr [OF stats] batch_loop_value [OF loop] rest wins_le [of "attempted ivk e cs w"] show ?thesis
    by (simp add: Let_def get_total_calls_def get_successful_calls_def get_failed_calls_def)
qed

text \<open>Where a batch stops.\<close>

lemma attempted_prefix: "map fst (attempted ivk e cs w) = take (length (attempted ivk e cs w)) cs"
  by (induction cs arbitrary: w) (auto split: prod.split)

lemma attempted_stops:
  "length (attempted ivk e cs w) < length cs \<Longrightarrow>
     (case last (attempted ivk e cs w) of (c, r) \<Rightarrow> \<not> cr_success r \<and> \<not> cc_continue_on_failure c)"
proof (induction cs arbitrary: w)
  case (Cons c cs)
  obtain r w1 where r: "invoke_contract ivk e c w = (r, w1)" by (cases "invoke_contract ivk e c w")
  show ?case
  proof (cases "cr_success r \<or> cc_continue_on_failure c")
    case True
    with Cons.prems r have short: "length (attempted ivk e cs w1) < length cs" by simp
    moreover have "attempted ivk e cs w1 \<noteq> []" using short by (cases cs) (auto split: prod.splits)
    ultimately show ?thesis using True r Cons.IH [OF short] by simp
  qed (use r in simp)
qed simp

lemma attempted_goes_on:
  "(c, r) \<in> set (butlast (attempted ivk e cs w)) \<Longrightarrow> cr_success r \<or> cc_continue_on_failure c"
  by (induction cs arbitrary: w) (auto split: prod.splits if_splits)

definition cross_inv :: "cross_state \<Rightarrow> bool" where
  "cross_inv s \<longleftrightarrow> get_total_calls s = get_successful_calls s + get_failed_calls s
     \<and> get_successful_calls s = length (filter id (outcomes s)) \<and> get_total_calls s = length (outcomes s)
     \<and> (xc_admin s = None \<longrightarrow> xc_events s = [])"


lemma cross_inv_fresh: "cross_inv cross_fresh"
  by (simp add: cross_inv_def cross_fresh_def get_total_calls_def get_successful_calls_def get_failed_calls_def outcomes_def)

lemma cross_inv_add:
  assumes "cross_inv s" and "outcomes s' = outcomes s @ bs" and "get_total_calls s' = get_total_calls s + length bs"
    and "get_successful_calls s' = get_successful_calls s + length (filter id bs)"
    and "get_failed_calls s' = get_failed_calls s + (length bs - length (filter id bs))" and "xc_admin s' \<noteq> None"
  shows "cross_inv s'"
proof -
  obtain k where "length bs = length (filter id bs) + k" using le_Suc_ex [OF length_filter_le [of id bs]] by blast
  with assms show ?thesis by (auto simp: cross_inv_def)
qed

lemma cross_exec_inv:
  assumes run: "cross_exec ivk k sw = Inr sw'" and I: "cross_inv (fst sw)"
  shows "cross_inv (fst sw')"
proof -
  obtain e c s w s' w' where eq: "k = (e, c)" "sw = (s, w)" "sw' = (s', w')" by (cases k; cases sw; cases sw')
  have "cross_inv s'"
  proof (cases c)
    case (CInitialize a)
    with run I show ?thesis
      by (auto simp: eq initialize_def cross_inv_def outcomes_def get_total_calls_def get_successful_calls_def get_failed_calls_def split: if_splits)
  next
    case (CCall a d b)
    with run obtain r where "execute_call ivk e a d b (s, w) = Inr (r, s', w')" by (auto simp: eq)
    note B = execute_call_Inr [OF this]
    have I: "cross_inv s" using I by (simp add: eq)
    show ?thesis by (rule cross_inv_add [where s = s and bs = "[cr_success r]", OF I]) (use B in simp_all)
  next
    case (CBatch a ds b)
    with run obtain r where "execute_batch ivk e a ds b (s, w) = Inr (r, s', w')" by (auto simp: eq)
    note B = execute_batch_Inr [OF this, unfolded Let_def]
    have wins: "length (filter (\<lambda>x. cr_success (snd x)) (attempted ivk e ds w)) = wins (attempted ivk e ds w)"
      by (simp add: wins_def)
    have le: "wins (attempted ivk e ds w) \<le> length (attempted ivk e ds w)" by (rule wins_le)
    have I: "cross_inv s" using I by (simp add: eq)
    show ?thesis
      by (rule cross_inv_add [where s = s and bs = "map (\<lambda>x. cr_success (snd x)) (attempted ivk e ds w)", OF I])
        (use B le in \<open>simp_all add: filter_map comp_def wins\<close>)
  qed (use run I in \<open>auto simp: eq whitelist_contract_def remove_from_whitelist_def set_admin_def cross_inv_def outcomes_def
      get_total_calls_def get_successful_calls_def get_failed_calls_def split: sum.splits\<close>)
  then show ?thesis by (simp add: eq)
qed

interpretation cross_machine: contract_invariant "cross_exec ivk" "\<lambda>sw. cross_inv (fst sw)" "\<lambda>_. True" for ivk
  by unfold_locales (rule cross_exec_inv)

interpretation cross_whitelist: admin_gated "\<lambda>sw. xc_admin (fst sw)" "\<lambda>e a. whitelist_contract e a c" for c
  by unfold_locales (auto simp: whitelist_contract_def split: prod.splits sum.splits)

interpretation cross_call_gate: admin_gated "\<lambda>sw. xc_admin (fst sw)" "\<lambda>e a. execute_call ivk e a c b" for ivk c b
  by unfold_locales (auto dest: execute_call_Inr)

section \<open>Properties\<close>

text \<open>The statistics of the cross-contract calls.  After any calls, whatever the called contracts do, the counters
  are exact: as many successes and failures as were announced, and the total is their sum.\<close>

theorem cross_statistics:
  "let s = fst (run (cross_exec ivk) cs (cross_fresh, w)) in
     get_successful_calls s = length (filter id (outcomes s)) \<and> get_total_calls s = length (outcomes s)
   \<and> get_total_calls s = get_successful_calls s + get_failed_calls s"
proof -
  have "cross_inv (fst (run (cross_exec ivk) cs (cross_fresh, w)))"
    by (rule cross_machine.run_inv) (simp_all add: cross_inv_fresh)
  then show ?thesis by (simp add: cross_inv_def Let_def)
qed

text \<open>How far a batch runs.  A batch that returns was sent by the admin and has between 1 and 50 calls, each with a
  function name and, when asked for, to a whitelisted contract.  It makes the calls in order up to the first one that
  fails without asking to continue; it reports one result per call made, and its total is the number of calls
  requested even when it stopped early.\<close>

theorem cross_batch_spec:
  assumes "execute_batch ivk e a cs b (s, w) = Inr (r, s', w')"
  shows "env_auth e a \<and> xc_admin s = Some a \<and> cs \<noteq> [] \<and> length cs \<le> MAX_BATCH_CALLS \<and> list_all (admissible_call s b) cs
    \<and> bc_total_calls r = length cs \<and> length (bc_results r) = bc_successful_calls r + bc_failed_calls r
    \<and> length (bc_results r) \<le> length cs
    \<and> (\<forall>i < length (bc_results r). Suc i < length (bc_results r) \<longrightarrow> cr_success (bc_results r ! i) \<or> cc_continue_on_failure (cs ! i))
    \<and> (length (bc_results r) < length cs \<longrightarrow>
         bc_results r \<noteq> [] \<and> \<not> cr_success (last (bc_results r)) \<and> \<not> cc_continue_on_failure (cs ! (length (bc_results r) - 1)))"
proof -
  let ?xs = "attempted ivk e cs w"
  note B = execute_batch_Inr [OF assms, unfolded Let_def]
  have results: "bc_results r = map snd ?xs" using B by simp
  have calls: "fst (?xs ! i) = cs ! i" if "i < length ?xs" for i
    using attempted_prefix [of ivk e cs w] that by (metis length_map length_take min_less_iff_conj nth_map nth_take)
  have len: "length ?xs \<le> length cs" by (metis attempted_prefix length_map length_take min.cobounded1)
  have "cr_success (snd (?xs ! i)) \<or> cc_continue_on_failure (cs ! i)" if "Suc i < length ?xs" for i
  proof -
    have "?xs ! i \<in> set (butlast ?xs)" using that by (metis Suc_lessE diff_Suc_1 in_set_conv_nth length_butlast nth_butlast)
    then have "(fst (?xs ! i), snd (?xs ! i)) \<in> set (butlast ?xs)" by simp
    from attempted_goes_on [OF this] calls [of i] that show ?thesis by simp
  qed
  moreover have "?xs \<noteq> [] \<and> \<not> cr_success (last (map snd ?xs)) \<and> \<not> cc_continue_on_failure (cs ! (length ?xs - 1))"
    if short: "length ?xs < length cs"
  proof -
    have ne: "?xs \<noteq> []" using short by (cases cs) (auto split: prod.splits)
    have l: "last ?xs = ?xs ! (length ?xs - 1)" by (rule last_conv_nth [OF ne])
    have "fst (last ?xs) = cs ! (length ?xs - 1)" unfolding l by (rule calls) (use ne in simp)
    with attempted_stops [OF short] ne show ?thesis by (auto simp: last_map split: prod.splits)
  qed
  ultimately show ?thesis using B len wins_le [of ?xs] by (simp add: results)
qed

section \<open>Witness\<close>

text \<open>A called contract that answers at one address and fails at every other.\<close>

definition demo_invoker :: "unit invoker" where
  "demo_invoker e c f args w = (if c = Addr 5 then Some ([1], w) else None)"

definition demo_batch :: "cross_call list" where
  "demo_batch = [\<lparr>cc_contract_address = Addr 5, cc_function_name = ''ping'', cc_args = [], cc_continue_on_failure = False\<rparr>,
     \<lparr>cc_contract_address = Addr 6, cc_function_name = ''ping'', cc_args = [], cc_continue_on_failure = False\<rparr>,
     \<lparr>cc_contract_address = Addr 5, cc_function_name = ''ping'', cc_args = [], cc_continue_on_failure = False\<rparr>]"

theorem cross_batch_spec_witness:
  "\<exists>r sw. execute_batch demo_invoker (signed_env [Addr 1] 1 1 (Addr 8)) (Addr 1) demo_batch False (cross_fresh\<lparr>xc_admin := Some (Addr 1)\<rparr>, ())
       = Inr (r, sw) \<and> bc_total_calls r = 3 \<and> bc_successful_calls r = 1 \<and> bc_failed_calls r = 1
     \<and> length (bc_results r) = bc_successful_calls r + bc_failed_calls r"
proof -
  obtain r s' w' where go: "execute_batch demo_invoker (signed_env [Addr 1] 1 1 (Addr 8)) (Addr 1) demo_batch False
      (cross_fresh\<lparr>xc_admin := Some (Addr 1)\<rparr>, ()) = Inr (r, s', w')" and "bc_successful_calls r = 1" "bc_failed_calls r = 1"
    by (simp add: execute_batch_def demo_batch_def demo_invoker_def require_admin_def validate_batch_calls_def MAX_BATCH_CALLS_def
        validate_call_request_def validate_contract_address_def strkey_length_def validate_function_name_def invoke_contract_def
        update_batch_stats_def cross_fresh_def announce_def emit_def Let_def arith_defs)
  from cross_batch_spec [OF go] go this(2,3) show ?thesis by (auto simp: demo_batch_def)
qed

end
