(* ===== verification/Governance.thy ===== *)
theory Governance
  imports Host
begin

text \<open>
  \<open>contracts/governance.rs\<close>: proposals to set a configuration value, approved by votes before a deadline and then
  executed by anybody.  The free functions and the entry points that only forward to them are one definition each.
  The file is declared by no crate; its tests are in \<open>tests/governance_tests.rs\<close>.
\<close>

section \<open>Data\<close>

definition MAX_CONFIG_STRING_LENGTH :: nat where "MAX_CONFIG_STRING_LENGTH = 256"

record proposal =
  pr_id :: nat
  pr_proposer :: address
  pr_config_key :: string
  pr_config_value :: string
  pr_approvals :: nat
  pr_executed :: bool
  pr_deadline :: nat

datatype governance_error =
    NotInitialized | AlreadyInitialized | Unauthorized | ProposalNotFound | AlreadyVoted | ProposalExpired
  | AlreadyExecuted | NotEnoughApprovals | Overflow | InvalidInput

datatype governance_event =
    AdminUpdated address address nat
  | ProposalCreated nat address string string nat
  | Voted nat address nat
  | ProposalExecuted nat string string nat

record governance_state =
  gov_admin :: "address option"
  gov_required_approvals :: "nat option"
  gov_proposal_count :: "nat option"
  gov_proposal :: "nat \<rightharpoonup> proposal"
  gov_user_vote :: "nat \<times> address \<rightharpoonup> bool"
  gov_config_value :: "string \<rightharpoonup> string"
  gov_events :: "governance_event list"

definition governance_fresh :: governance_state where
  "governance_fresh = \<lparr>gov_admin = None, gov_required_approvals = None, gov_proposal_count = None, gov_proposal = Map.empty,
     gov_user_vote = Map.empty, gov_config_value = Map.empty, gov_events = []\<rparr>"

type_synonym 'a governance_outcome = "(governance_state, governance_error, 'a) outcome"

definition emit :: "governance_event \<Rightarrow> governance_state \<Rightarrow> governance_state" where
  "emit ev s = s\<lparr>gov_events := gov_events s @ [ev]\<rparr>"

section \<open>Administration\<close>

definition initialize_governance :: "address \<Rightarrow> nat \<Rightarrow> governance_state \<Rightarrow> unit governance_outcome" where
  "initialize_governance admin required_approvals s =
    (if gov_admin s \<noteq> None then Inl (ContractError AlreadyInitialized) else
     Inr ((), s\<lparr>gov_admin := Some admin, gov_required_approvals := Some required_approvals, gov_proposal_count := Some 0\<rparr>))"

definition get_admin :: "governance_state \<Rightarrow> governance_error trap + address" where
  "get_admin s = (case gov_admin s of None \<Rightarrow> Inl (ContractError NotInitialized) | Some a \<Rightarrow> Inr a)"

definition require_admin :: "env \<Rightarrow> address \<Rightarrow> governance_state \<Rightarrow> governance_error trap + unit" where
  "require_admin e caller s =
    (if \<not> env_auth e caller then Inl AuthTrap else
     case get_admin s of Inl t \<Rightarrow> Inl t | Inr admin \<Rightarrow>
     if admin \<noteq> caller then Inl (ContractError Unauthorized) else Inr ())"

definition update_admin :: "env \<Rightarrow> address \<Rightarrow> address \<Rightarrow> governance_state \<Rightarrow> unit governance_outcome" where
  "update_admin e current_admin new_admin s =
    (case require_admin e current_admin s of Inl t \<Rightarrow> Inl t | Inr _ \<Rightarrow>
     Inr ((), emit (AdminUpdated current_admin new_admin (env_timestamp e)) (s\<lparr>gov_admin := Some new_admin\<rparr>)))"

section \<open>Proposals\<close>

definition create_proposal :: "env \<Rightarrow> address \<Rightarrow> string \<Rightarrow> string \<Rightarrow> nat \<Rightarrow> governance_state \<Rightarrow> nat governance_outcome" where
  "create_proposal e proposer config_key config_value duration_seconds s =
    (if \<not> env_auth e proposer then Inl AuthTrap else
     if MAX_CONFIG_STRING_LENGTH < length config_key \<or> length config_key = 0 then Inl (ContractError InvalidInput) else
     if MAX_CONFIG_STRING_LENGTH < length config_value then Inl (ContractError InvalidInput) else
     if duration_seconds = 0 then Inl (ContractError InvalidInput) else
     case gov_proposal_count s of None \<Rightarrow> Inl (ContractError NotInitialized) | Some count \<Rightarrow>
     case u32_add count 1 of None \<Rightarrow> Inl (ContractError Overflow) | Some new_id \<Rightarrow>
     case u64_add (env_timestamp e) duration_seconds of None \<Rightarrow> Inl (ContractError Overflow) | Some deadline \<Rightarrow>
     let p = \<lparr>pr_id = new_id, pr_proposer = proposer, pr_config_key = config_key, pr_config_value = config_value,
              pr_approvals = 0, pr_executed = False, pr_deadline = deadline\<rparr> in
     Inr (new_id, emit (ProposalCreated new_id proposer config_key config_value (env_timestamp e))
       (s\<lparr>gov_proposal := (gov_proposal s)(new_id \<mapsto> p), gov_proposal_count := Some new_id\<rparr>)))"

definition vote_proposal :: "env \<Rightarrow> address \<Rightarrow> nat \<Rightarrow> governance_state \<Rightarrow> unit governance_outcome" where
  "vote_proposal e voter i s =
    (if \<not> env_auth e voter then Inl AuthTrap else
     case gov_proposal s i of None \<Rightarrow> Inl (ContractError ProposalNotFound) | Some p \<Rightarrow>
     if pr_executed p then Inl (ContractError AlreadyExecuted) else
     if pr_deadline p < env_timestamp e then Inl (ContractError ProposalExpired) else
     if unwrap_or (gov_user_vote s (i, voter)) False then Inl (ContractError AlreadyVoted) else
     case u32_add (pr_approvals p) 1 of None \<Rightarrow> Inl (ContractError Overflow) | Some approvals \<Rightarrow>
     Inr ((), emit (Voted i voter (env_timestamp e))
       (s\<lparr>gov_user_vote := (gov_user_vote s)((i, voter) \<mapsto> True),
          gov_proposal := (gov_proposal s)(i \<mapsto> p\<lparr>pr_approvals := approvals\<rparr>)\<rparr>)))"

definition execute_proposal :: "env \<Rightarrow> address \<Rightarrow> nat \<Rightarrow> governance_state \<Rightarrow> unit governance_outcome" where
  "execute_proposal e caller i s =
    (if \<not> env_auth e caller then Inl AuthTrap else
     case gov_proposal s i of None \<Rightarrow> Inl (ContractError ProposalNotFound) | Some p \<Rightarrow>
     if pr_executed p then Inl (ContractError AlreadyExecuted) else
     if pr_deadline p < env_timestamp e then Inl (ContractError ProposalExpired) else
     case gov_required_approvals s of None \<Rightarrow> Inl (ContractError NotInitialized) | Some required_approvals \<Rightarrow>
     if pr_approvals p < required_approvals then Inl (ContractError NotEnoughApprovals) else
     Inr ((), emit (ProposalExecuted i (pr_config_key p) (pr_config_value p) (env_timestamp e))
       (s\<lparr>gov_config_value := (gov_config_value s)(pr_config_key p \<mapsto> pr_config_value p),
          gov_proposal := (gov_proposal s)(i \<mapsto> p\<lparr>pr_executed := True\<rparr>)\<rparr>)))"

definition get_proposal :: "nat \<Rightarrow> governance_state \<Rightarrow> proposal option" where
  "get_proposal i s = gov_proposal s i"

definition get_config :: "string \<Rightarrow> governance_state \<Rightarrow> string option" where
  "get_config k s = gov_config_value s k"

datatype governance_call =
    CInitialize address nat
  | CUpdateAdmin address address
  | CCreate address string string nat
  | CVote address nat
  | CExecute address nat

fun governance_exec :: "env \<times> governance_call \<Rightarrow> governance_state \<Rightarrow> governance_error trap + governance_state" where
  "governance_exec (e, CInitialize a n) s = final (initialize_governance a n s)"
| "governance_exec (e, CUpdateAdmin a b) s = final (update_admin e a b s)"
| "governance_exec (e, CCreate a k v d) s = final (create_proposal e a k v d s)"
| "governance_exec (e, CVote a i) s = final (vote_proposal e a i s)"
| "governance_exec (e, CExecute a i) s = final (execute_proposal e a i s)"

section \<open>The invariant\<close>

lemma governance_emit_frame [simp]:
  "gov_admin (emit ev s) = gov_admin s" "gov_required_approvals (emit ev s) = gov_required_approvals s"
  "gov_proposal_count (emit ev s) = gov_proposal_count s" "gov_proposal (emit ev s) = gov_proposal s"
  "gov_user_vote (emit ev s) = gov_user_vote s" "gov_config_value (emit ev s) = gov_config_value s"
  "gov_events (emit ev s) = gov_events s @ [ev]"
  by (simp_all add: emit_def)

definition voters :: "nat \<Rightarrow> governance_state \<Rightarrow> address set" where
  "voters i s = {a. unwrap_or (gov_user_vote s (i, a)) False}"

text \<open>What the log says was executed, and the configuration that results from it.\<close>

fun executed_id :: "governance_event \<Rightarrow> nat list" where
  "executed_id (ProposalExecuted i k v t) = [i]"
| "executed_id _ = []"

fun apply_event :: "governance_event \<Rightarrow> (string \<rightharpoonup> string) \<Rightarrow> (string \<rightharpoonup> string)" where
  "apply_event (ProposalExecuted i k v t) m = m(k \<mapsto> v)"
| "apply_event _ m = m"

definition executed_ids :: "governance_state \<Rightarrow> nat list" where
  "executed_ids s = concat (map executed_id (gov_events s))"

definition replayed_config :: "governance_state \<Rightarrow> (string \<rightharpoonup> string)" where
  "replayed_config s = fold apply_event (gov_events s) Map.empty"

lemma governance_log_simps [simp]:
  "executed_ids (emit ev s) = executed_ids s @ executed_id ev" "replayed_config (emit ev s) = apply_event ev (replayed_config s)"
  by (simp_all add: executed_ids_def replayed_config_def)

definition proposal_sound :: "governance_state \<Rightarrow> nat \<Rightarrow> proposal \<Rightarrow> bool" where
  "proposal_sound s i p \<longleftrightarrow> finite (voters i s) \<and> pr_approvals p = card (voters i s) \<and> pr_id p = i
     \<and> (pr_executed p \<longrightarrow> (\<exists>n. gov_required_approvals s = Some n \<and> n \<le> pr_approvals p))"

definition executed_set :: "governance_state \<Rightarrow> nat set" where
  "executed_set s = {i. \<exists>p. gov_proposal s i = Some p \<and> pr_executed p}"

definition governance_inv :: "governance_state \<Rightarrow> bool" where
  "governance_inv s \<longleftrightarrow> dom (gov_proposal s) = {1..unwrap_or (gov_proposal_count s) 0}
     \<and> (gov_admin s = None \<longleftrightarrow> gov_proposal_count s = None) \<and> (gov_admin s = None \<longrightarrow> gov_events s = [])
     \<and> (gov_admin s \<noteq> None \<longrightarrow> gov_required_approvals s \<noteq> None)
     \<and> (\<forall>i p. gov_proposal s i = Some p \<longrightarrow> proposal_sound s i p)
     \<and> (\<forall>i. gov_proposal s i = None \<longrightarrow> voters i s = {})
     \<and> distinct (executed_ids s) \<and> set (executed_ids s) = executed_set s
     \<and> gov_config_value s = replayed_config s"

lemma governance_inv_fresh: "governance_inv governance_fresh"
  by (simp add: governance_inv_def governance_fresh_def voters_def executed_ids_def replayed_config_def executed_set_def)

lemma vote_Inr:
  "vote_proposal e a i s = Inr (u, s') \<longleftrightarrow> (\<exists>p. env_auth e a \<and> gov_proposal s i = Some p \<and> \<not> pr_executed p
     \<and> env_timestamp e \<le> pr_deadline p \<and> a \<notin> voters i s \<and> in_u32 (Suc (pr_approvals p))
     \<and> s' = emit (Voted i a (env_timestamp e)) (s\<lparr>gov_user_vote := (gov_user_vote s)((i, a) \<mapsto> True),
          gov_proposal := (gov_proposal s)(i \<mapsto> p\<lparr>pr_approvals := Suc (pr_approvals p)\<rparr>)\<rparr>))"
  by (auto simp: vote_proposal_def voters_def u32_add_def not_less split: option.splits if_splits)

lemma execute_proposal_Inr:
  "execute_proposal e a i s = Inr (u, s') \<longleftrightarrow> (\<exists>p n. env_auth e a \<and> gov_proposal s i = Some p \<and> \<not> pr_executed p
     \<and> env_timestamp e \<le> pr_deadline p \<and> gov_required_approvals s = Some n \<and> n \<le> pr_approvals p
     \<and> s' = emit (ProposalExecuted i (pr_config_key p) (pr_config_value p) (env_timestamp e))
          (s\<lparr>gov_config_value := (gov_config_value s)(pr_config_key p \<mapsto> pr_config_value p),
             gov_proposal := (gov_proposal s)(i \<mapsto> p\<lparr>pr_executed := True\<rparr>)\<rparr>))"
  by (auto simp: execute_proposal_def not_less split: option.splits if_splits)

lemma governance_proposal: "governance_inv s \<Longrightarrow> gov_proposal s i = Some p \<Longrightarrow> proposal_sound s i p"
  unfolding governance_inv_def by blast

lemma governance_no_votes: "governance_inv s \<Longrightarrow> gov_proposal s i = None \<Longrightarrow> voters i s = {}"
  unfolding governance_inv_def by blast

lemma governance_books:
  assumes "governance_inv s"
  shows "dom (gov_proposal s) = {1..unwrap_or (gov_proposal_count s) 0}" "distinct (executed_ids s)"
    "set (executed_ids s) = executed_set s" "gov_config_value s = replayed_config s"
    "gov_admin s = None \<longleftrightarrow> gov_proposal_count s = None"
  using assms unfolding governance_inv_def by blast+

lemma governance_ready: "governance_inv s \<Longrightarrow> gov_proposal s i = Some p \<Longrightarrow> gov_admin s \<noteq> None"
  using governance_books(1,5) [of s] by (cases "gov_proposal_count s") (auto simp: dom_def)

text \<open>Proving the invariant again after a call that changes proposals.\<close>

lemma governance_inv_again:
  assumes "governance_inv s" and "gov_admin s \<noteq> None" and "gov_admin s' = gov_admin s" and "gov_proposal_count s' \<noteq> None"
    and "gov_required_approvals s' = gov_required_approvals s" and "dom (gov_proposal s') = {1..unwrap_or (gov_proposal_count s') 0}"
    and "\<And>j q. gov_proposal s' j = Some q \<Longrightarrow> proposal_sound s' j q"
    and "\<And>j. gov_proposal s' j = None \<Longrightarrow> voters j s' = {}"
    and "distinct (executed_ids s')" and "set (executed_ids s') = executed_set s'"
    and "gov_config_value s' = replayed_config s'"
  shows "governance_inv s'"
proof -
  have "gov_required_approvals s' \<noteq> None" using assms(1,2,5) unfolding governance_inv_def by metis
  with assms(2-11) show ?thesis unfolding governance_inv_def by auto
qed

lemma create_proposal_Inr:
  assumes "create_proposal e a k v d s = Inr (i, s')"
  shows "\<exists>n. gov_proposal_count s = Some n \<and> i = Suc n \<and> env_auth e a \<and> k \<noteq> [] \<and> 0 < d
    \<and> s' = emit (ProposalCreated i a k v (env_timestamp e))
       (s\<lparr>gov_proposal := (gov_proposal s)(i \<mapsto> \<lparr>pr_id = i, pr_proposer = a, pr_config_key = k, pr_config_value = v,
          pr_approvals = 0, pr_executed = False, pr_deadline = env_timestamp e + d\<rparr>), gov_proposal_count := Some i\<rparr>)"
  using assms by (auto simp: create_proposal_def Let_def u32_add_def split: option.splits if_splits)

lemma create_proposal_inv:
  assumes run: "create_proposal e a k v d s = Inr (i, s')" and inv: "governance_inv s"
  shows "governance_inv s'"
proof -
  let ?p = "\<lparr>pr_id = i, pr_proposer = a, pr_config_key = k, pr_config_value = v, pr_approvals = 0, pr_executed = False,
    pr_deadline = env_timestamp e + d\<rparr>"
  from create_proposal_Inr [OF run] obtain n where n: "gov_proposal_count s = Some n" "i = Suc n"
    and s': "gov_proposal s' = (gov_proposal s)(i \<mapsto> ?p)" "gov_proposal_count s' = Some i" "gov_user_vote s' = gov_user_vote s"
      "gov_admin s' = gov_admin s" "gov_required_approvals s' = gov_required_approvals s" "gov_config_value s' = gov_config_value s"
      "executed_ids s' = executed_ids s" "replayed_config s' = replayed_config s"
    by (auto simp: executed_ids_def replayed_config_def)
  have dom: "dom (gov_proposal s) = {1..n}" using governance_books(1) [OF inv] n by simp
  then have free: "gov_proposal s i = None" using n(2) by (metis Suc_n_not_le_n atLeastAtMost_iff domIff)
  have voters: "voters j s' = voters j s" for j by (simp add: voters_def s')
  show ?thesis
  proof (rule governance_inv_again [OF inv])
    show "gov_admin s \<noteq> None" using governance_books(5) [OF inv] n by simp
    show "dom (gov_proposal s') = {1..unwrap_or (gov_proposal_count s') 0}" using dom n(2) by (auto simp: s'(1,2))
    show "proposal_sound s' j q" if "gov_proposal s' j = Some q" for j q
      using that governance_proposal [OF inv, of j q] governance_no_votes [OF inv free]
      by (cases "j = i") (auto simp: s'(1,5) proposal_sound_def voters)
    show "set (executed_ids s') = executed_set s'" using governance_books(3) [OF inv] free by (auto simp: s'(1,7) executed_set_def)
    show "voters j s' = {}" if "gov_proposal s' j = None" for j
      using that governance_no_votes [OF inv, of j] by (simp add: s'(1) voters split: if_splits)
  qed (simp_all add: s'(2,4-8) governance_books(2,4) [OF inv])
qed

lemma vote_inv:
  assumes run: "vote_proposal e a i s = Inr (u, s')" and inv: "governance_inv s"
  shows "governance_inv s'"
proof -
  from run obtain p where p: "gov_proposal s i = Some p" "\<not> pr_executed p" "a \<notin> voters i s"
    and s': "gov_proposal s' = (gov_proposal s)(i \<mapsto> p\<lparr>pr_approvals := Suc (pr_approvals p)\<rparr>)" "gov_proposal_count s' = gov_proposal_count s"
      "gov_user_vote s' = (gov_user_vote s)((i, a) \<mapsto> True)"
      "gov_admin s' = gov_admin s" "gov_required_approvals s' = gov_required_approvals s" "gov_config_value s' = gov_config_value s"
      "executed_ids s' = executed_ids s" "replayed_config s' = replayed_config s"
    by (auto simp: vote_Inr executed_ids_def replayed_config_def)
  have voters: "voters j s' = (if j = i then insert a (voters j s) else voters j s)" for j by (auto simp: voters_def s'(3))
  have dom: "dom (gov_proposal s') = dom (gov_proposal s)" using p by (auto simp: s'(1))
  show ?thesis
  proof (rule governance_inv_again [OF inv])
    show ready: "gov_admin s \<noteq> None" by (rule governance_ready [OF inv p(1)])
    then show "gov_proposal_count s' \<noteq> None" using governance_books(5) [OF inv] by (simp add: s'(2))
    show "proposal_sound s' j q" if "gov_proposal s' j = Some q" for j q
      using that governance_proposal [OF inv, of j q] governance_proposal [OF inv p(1)] p
      by (cases "j = i") (auto simp: s'(1,5) proposal_sound_def voters)
    show "set (executed_ids s') = executed_set s'" using governance_books(3) [OF inv] p by (auto simp: s'(1,7) executed_set_def)
    show "voters j s' = {}" if "gov_proposal s' j = None" for j
      using that governance_no_votes [OF inv, of j] by (simp add: s'(1) voters split: if_splits)
  qed (simp_all add: dom s'(2,4-8) governance_books(1,2,4) [OF inv])
qed

lemma execute_inv:
  assumes run: "execute_proposal e a i s = Inr (u, s')" and inv: "governance_inv s"
  shows "governance_inv s'"
proof -
  from run obtain p n where p: "gov_proposal s i = Some p" "\<not> pr_executed p" "gov_required_approvals s = Some n" "n \<le> pr_approvals p"
    and s': "gov_proposal s' = (gov_proposal s)(i \<mapsto> p\<lparr>pr_executed := True\<rparr>)" "gov_proposal_count s' = gov_proposal_count s"
      "gov_user_vote s' = gov_user_vote s" "gov_admin s' = gov_admin s" "gov_required_approvals s' = gov_required_approvals s"
      "gov_config_value s' = (gov_config_value s)(pr_config_key p \<mapsto> pr_config_value p)" "executed_ids s' = executed_ids s @ [i]"
      "replayed_config s' = (replayed_config s)(pr_config_key p \<mapsto> pr_config_value p)"
    by (auto simp: execute_proposal_Inr executed_ids_def replayed_config_def)
  have voters: "voters j s' = voters j s" for j by (simp add: voters_def s'(3))
  have dom: "dom (gov_proposal s') = dom (gov_proposal s)" using p by (auto simp: s'(1))
  have new: "i \<notin> executed_set s" using p by (simp add: executed_set_def)
  show ?thesis
  proof (rule governance_inv_again [OF inv])
    show ready: "gov_admin s \<noteq> None" by (rule governance_ready [OF inv p(1)])
    then show "gov_proposal_count s' \<noteq> None" using governance_books(5) [OF inv] by (simp add: s'(2))
    show "proposal_sound s' j q" if "gov_proposal s' j = Some q" for j q
      using that governance_proposal [OF inv, of j q] governance_proposal [OF inv p(1)] p
      by (cases "j = i") (auto simp: s'(1,5) proposal_sound_def voters)
    show "set (executed_ids s') = executed_set s'" using governance_books(3) [OF inv] by (auto simp: s'(1,7) executed_set_def)
    show "voters j s' = {}" if "gov_proposal s' j = None" for j
      using that governance_no_votes [OF inv, of j] by (simp add: s'(1) voters split: if_splits)
    show "distinct (executed_ids s')" using governance_books(2,3) [OF inv] new by (simp add: s'(7))
  qed (simp_all add: dom s'(2,4-8) governance_books(1,4) [OF inv])
qed

lemma governance_exec_inv:
  assumes run: "governance_exec k s = Inr s'" and inv: "governance_inv s"
  shows "governance_inv s'"
proof -
  obtain e c where k: "k = (e, c)" by (cases k)
  show ?thesis
  proof (cases c)
    case (CInitialize a n)
    with run k have none: "gov_admin s = None" and s': "s' = s\<lparr>gov_admin := Some a, gov_required_approvals := Some n, gov_proposal_count := Some 0\<rparr>"
      by (auto simp: initialize_governance_def split: if_splits)
    have "dom (gov_proposal s) = {}" using governance_books(1,5) [OF inv] none by simp
    with inv none show ?thesis
      by (simp add: s' governance_inv_def proposal_sound_def executed_set_def voters_def executed_ids_def replayed_config_def)
  next
    case (CUpdateAdmin a b)
    with run k have ready: "gov_admin s = Some a" and s': "gov_admin s' = Some b" "gov_proposal s' = gov_proposal s"
        "gov_proposal_count s' = gov_proposal_count s" "gov_user_vote s' = gov_user_vote s"
        "gov_required_approvals s' = gov_required_approvals s" "gov_config_value s' = gov_config_value s"
        "executed_ids s' = executed_ids s" "replayed_config s' = replayed_config s"
      by (auto simp: update_admin_def require_admin_def get_admin_def executed_ids_def replayed_config_def
          split: sum.splits option.splits if_splits)
    have same: "voters j s' = voters j s" "proposal_sound s' = proposal_sound s" "executed_set s' = executed_set s" for j
      by (simp_all add: s' voters_def proposal_sound_def executed_set_def fun_eq_iff)
    from inv ready show ?thesis unfolding governance_inv_def same s' by simp
  next
    case (CCreate a key v d)
    with run inv k show ?thesis by (auto intro: create_proposal_inv)
  next
    case (CVote a i)
    with run inv k show ?thesis by (auto intro: vote_inv)
  next
    case (CExecute a i)
    with run inv k show ?thesis by (auto intro: execute_inv)
  qed
qed

interpretation governance_machine: contract_invariant governance_exec governance_inv "\<lambda>_. True"
  by unfold_locales (rule governance_exec_inv)

section \<open>Properties\<close>

text \<open>C18: Governance follows its votes.  After any calls, proposals are numbered from 1, the approvals of each are the
  number of different accounts that voted for it, each is executed at most once, only with the required approvals, and
  every configuration value is the one of the last executed proposal for its key.\<close>

theorem governance_follows_votes:
  "let s = run governance_exec cs governance_fresh in
     {i. get_proposal i s \<noteq> None} = {1..unwrap_or (gov_proposal_count s) 0}
   \<and> (\<forall>i. case get_proposal i s of None \<Rightarrow> voters i s = {}
        | Some p \<Rightarrow> pr_approvals p = card (voters i s) \<and> (i \<in> set (executed_ids s) \<longleftrightarrow> pr_executed p)
            \<and> (pr_executed p \<longrightarrow> the (gov_required_approvals s) \<le> card (voters i s)))
   \<and> distinct (executed_ids s) \<and> (\<forall>k. get_config k s = replayed_config s k)"
proof -
  let ?s = "run governance_exec cs governance_fresh"
  have inv: "governance_inv ?s" by (rule governance_machine.run_inv) (simp_all add: governance_inv_fresh)
  have "case get_proposal i ?s of None \<Rightarrow> voters i ?s = {}
        | Some p \<Rightarrow> pr_approvals p = card (voters i ?s) \<and> (i \<in> set (executed_ids ?s) \<longleftrightarrow> pr_executed p)
            \<and> (pr_executed p \<longrightarrow> the (gov_required_approvals ?s) \<le> card (voters i ?s))" for i
    using governance_proposal [OF inv, of i] governance_no_votes [OF inv, of i] governance_books(3) [OF inv]
    by (auto simp: get_proposal_def proposal_sound_def executed_set_def split: option.split)
  moreover have "{i. get_proposal i ?s \<noteq> None} = {1..unwrap_or (gov_proposal_count ?s) 0}"
    using governance_books(1) [OF inv] by (simp add: get_proposal_def dom_def)
  ultimately show ?thesis
    using governance_books(2,4) [OF inv] by (simp add: Let_def get_config_def)
qed

text \<open>There is no electorate: every account may vote, so whoever controls as many fresh accounts as there are required
  approvals carries any proposal alone.\<close>

lemma governance_open_vote:
  assumes "gov_proposal s i = Some p" and "\<not> pr_executed p" and "env_timestamp e \<le> pr_deadline p" and "env_auth e a"
    and "a \<notin> voters i s" and "in_u32 (Suc (pr_approvals p))"
  shows "\<exists>s'. vote_proposal e a i s = Inr ((), s')"
  using assms by (simp add: vote_Inr)

section \<open>Witness\<close>

definition governance_demo :: "(env \<times> governance_call) list" where
  "governance_demo =
     [(signed_env [] 1 5 (Addr 8), CInitialize (Addr 1) 1),
      (signed_env [Addr 2] 1 5 (Addr 8), CCreate (Addr 2) ''fee'' ''7'' 100),
      (signed_env [Addr 3] 1 6 (Addr 8), CVote (Addr 3) 1),
      (signed_env [Addr 3] 1 6 (Addr 8), CVote (Addr 3) 1),
      (signed_env [Addr 4] 1 7 (Addr 8), CExecute (Addr 4) 1)]"

theorem governance_follows_votes_witness:
  "get_config ''fee'' (run governance_exec governance_demo governance_fresh) = Some ''7''
   \<and> (\<exists>p. get_proposal 1 (run governance_exec governance_demo governance_fresh) = Some p
        \<and> pr_approvals p = card (voters 1 (run governance_exec governance_demo governance_fresh)) \<and> pr_approvals p = 1)"
proof -
  have "get_config ''fee'' (run governance_exec governance_demo governance_fresh) = Some ''7''"
    and p: "get_proposal 1 (run governance_exec governance_demo governance_fresh) = Some \<lparr>pr_id = 1, pr_proposer = Addr 2,
      pr_config_key = ''fee'', pr_config_value = ''7'', pr_approvals = 1, pr_executed = True, pr_deadline = 105\<rparr>"
    by (simp_all add: governance_demo_def governance_fresh_def initialize_governance_def create_proposal_def vote_proposal_def
        execute_proposal_def get_config_def get_proposal_def MAX_CONFIG_STRING_LENGTH_def emit_def Let_def arith_defs)
  with governance_follows_votes [of governance_demo] show ?thesis by (auto simp: Let_def split: option.splits dest!: spec [of _ 1])
qed

end
