(* ===== verification/Treasury.thy ===== *)
theory Treasury
  imports Host
begin

text \<open>
  \<open>contracts/treasury/src/lib.rs\<close>: the totals of the penalties, fees and rewards credited to the treasury.  The crate has
  no test of the caller in its credit functions and moves no token.  The locale \<open>treasury_client\<close> is what the fees
  contract (theory \<open>Fees\<close>) relies on when it calls \<open>credit_fee\<close>; the model of the treasury provides it at the end.
\<close>

datatype treasury_error = AlreadyInitialized | Unauthorized | InvalidAmount

datatype treasury_event =
    PenaltyReceived int nat
  | FeeReceived int nat
  | RewardReceived int nat

record treasury_state =
  tr_admin :: "address option"
  tr_penalties :: "int option"
  tr_fees :: "int option"
  tr_rewards :: "int option"
  tr_events :: "treasury_event list"

definition treasury_fresh :: treasury_state where
  "treasury_fresh = \<lparr>tr_admin = None, tr_penalties = None, tr_fees = None, tr_rewards = None, tr_events = []\<rparr>"

type_synonym 'a treasury_outcome = "(treasury_state, treasury_error, 'a) outcome"

definition initialize :: "env \<Rightarrow> address \<Rightarrow> treasury_state \<Rightarrow> unit treasury_outcome" where
  "initialize e admin s =
    (if tr_admin s \<noteq> None then Inl (ContractError AlreadyInitialized) else
     if \<not> env_auth e admin then Inl AuthTrap else
     Inr ((), s\<lparr>tr_admin := Some admin, tr_penalties := Some 0, tr_fees := Some 0, tr_rewards := Some 0\<rparr>))"

definition credit_penalty :: "env \<Rightarrow> int \<Rightarrow> treasury_state \<Rightarrow> unit treasury_outcome" where
  "credit_penalty e amount s =
    (if amount \<le> 0 then Inl (ContractError InvalidAmount) else
     case checked_add (unwrap_or (tr_penalties s) 0) amount of None \<Rightarrow> Inl (ContractError InvalidAmount) | Some total_sum \<Rightarrow>
     Inr ((), s\<lparr>tr_penalties := Some total_sum, tr_events := tr_events s @ [PenaltyReceived amount (env_timestamp e)]\<rparr>))"

definition credit_fee :: "env \<Rightarrow> int \<Rightarrow> treasury_state \<Rightarrow> unit treasury_outcome" where
  "credit_fee e amount s =
    (if amount \<le> 0 then Inl (ContractError InvalidAmount) else
     case checked_add (unwrap_or (tr_fees s) 0) amount of None \<Rightarrow> Inl (ContractError InvalidAmount) | Some total_sum \<Rightarrow>
     Inr ((), s\<lparr>tr_fees := Some total_sum, tr_events := tr_events s @ [FeeReceived amount (env_timestamp e)]\<rparr>))"

definition credit_reward :: "env \<Rightarrow> int \<Rightarrow> treasury_state \<Rightarrow> unit treasury_outcome" where
  "credit_reward e amount s =
    (if amount \<le> 0 then Inl (ContractError InvalidAmount) else
     case checked_add (unwrap_or (tr_rewards s) 0) amount of None \<Rightarrow> Inl (ContractError InvalidAmount) | Some total_sum \<Rightarrow>
     Inr ((), s\<lparr>tr_rewards := Some total_sum, tr_events := tr_events s @ [RewardReceived amount (env_timestamp e)]\<rparr>))"

definition get_total_penalties :: "treasury_state \<Rightarrow> int" where
  "get_total_penalties s = unwrap_or (tr_penalties s) 0"

definition get_total_fees :: "treasury_state \<Rightarrow> int" where
  "get_total_fees s = unwrap_or (tr_fees s) 0"

definition get_total_rewards :: "treasury_state \<Rightarrow> int" where
  "get_total_rewards s = unwrap_or (tr_rewards s) 0"

definition get_total_reserve :: "treasury_state \<Rightarrow> int" where
  "get_total_reserve s =
     unwrap_or (checked_add (unwrap_or (checked_add (get_total_penalties s) (get_total_fees s)) 0) (get_total_rewards s)) 0"

datatype treasury_call =
    CInitialize address
  | CPenalty int
  | CFee int
  | CReward int

fun treasury_exec :: "env \<times> treasury_call \<Rightarrow> treasury_state \<Rightarrow> treasury_error trap + treasury_state" where
  "treasury_exec (e, CInitialize a) s = final (initialize e a s)"
| "treasury_exec (e, CPenalty n) s = final (credit_penalty e n s)"
| "treasury_exec (e, CFee n) s = final (credit_fee e n s)"
| "treasury_exec (e, CReward n) s = final (credit_reward e n s)"

lemma treasury_fees_grow:
  assumes "treasury_exec k s = Inr s'" and "tr_admin s \<noteq> None"
  shows "tr_admin s' \<noteq> None \<and> get_total_fees s \<le> get_total_fees s'"
proof -
  obtain e c where k: "k = (e, c)" by (cases k)
  from assms show ?thesis unfolding k
    by (cases c) (auto simp: initialize_def credit_penalty_def credit_fee_def credit_reward_def get_total_fees_def
        split: if_splits option.splits)
qed

text \<open>The reserve is the exact sum of the totals unless one of its two additions leaves the type, when the getter falls
  back to zero.\<close>

lemma reserve_exact:
  assumes "in_i128 (get_total_penalties s + get_total_fees s)"
    and "in_i128 (get_total_penalties s + get_total_fees s + get_total_rewards s)"
  shows "get_total_reserve s = get_total_penalties s + get_total_fees s + get_total_rewards s"
  using assms by (simp add: get_total_reserve_def checked_add_def)

section \<open>The interface of a treasury\<close>

text \<open>\<open>credit e t n w\<close> is the world after the call \<open>credit_fee(n)\<close> of the treasury at \<open>t\<close>, or \<open>None\<close> when it traps;
  \<open>total_fees w t\<close> is what that treasury has booked.\<close>

type_synonym 'w crediting = "env \<Rightarrow> address \<Rightarrow> int \<Rightarrow> 'w \<Rightarrow> 'w option"

locale treasury_client =
  fixes credit :: "'w crediting"
    and total_fees :: "'w \<Rightarrow> address \<Rightarrow> int"
  assumes credit_books: "credit e t n w = Some w' \<Longrightarrow> total_fees w' t = total_fees w t + n"
    and credit_frame: "credit e t n w = Some w' \<Longrightarrow> t1 \<noteq> t \<Longrightarrow> total_fees w' t1 = total_fees w t1"
begin

lemma credit_total:
  "credit e t n w = Some w' \<Longrightarrow> total_fees w' t1 = total_fees w t1 + (if t1 = t then n else 0)"
  by (cases "t1 = t") (simp_all add: credit_books credit_frame)

end

text \<open>A world of treasuries, each a contract of this file at its address.\<close>

type_synonym treasuries = "address \<rightharpoonup> treasury_state"

definition credit_at :: "treasuries crediting" where
  "credit_at e t n w = (case w t of None \<Rightarrow> None | Some s \<Rightarrow>
     case credit_fee e n s of Inl _ \<Rightarrow> None | Inr (_, s') \<Rightarrow> Some (w(t \<mapsto> s')))"

definition total_fees_at :: "treasuries \<Rightarrow> address \<Rightarrow> int" where
  "total_fees_at w t = (case w t of None \<Rightarrow> 0 | Some s \<Rightarrow> get_total_fees s)"

interpretation treasuries: treasury_client credit_at total_fees_at
  by unfold_locales
    (auto simp: credit_at_def total_fees_at_def credit_fee_def get_total_fees_def split: option.splits sum.splits if_splits)

end
