(* ===== verification/Fees.thy ===== *)
theory Fees
  imports Treasury
begin

text \<open>
  \<open>contracts/fees.rs\<close>: percentage fees with rounding modes, priorities and bounds, their books by user, category and
  recipient, escrowed fees, and the share routed to a treasury.  The contract keeps books only: no token moves.  The
  treasury it calls is the parameter \<open>credit\<close> (locale \<open>treasury_client\<close> of theory \<open>Treasury\<close>); at the end of the
  theory it is the repository's own.  The helper \<open>apply_rounding\<close> of the file is never called.  The file is declared by
  no crate.
\<close>

section \<open>Data\<close>

datatype rounding_mode = Floor | Round | Ceiling

definition rounding_mode_from_u32 :: "nat \<Rightarrow> rounding_mode option" where
  "rounding_mode_from_u32 v =
    (if v = 0 then Some Floor else if v = 1 then Some Round else if v = 2 then Some Ceiling else None)"

fun rounding_mode_to_u32 :: "rounding_mode \<Rightarrow> nat" where
  "rounding_mode_to_u32 Floor = 0"
| "rounding_mode_to_u32 Round = 1"
| "rounding_mode_to_u32 Ceiling = 2"

datatype fee_category = Transaction | Priority | CrossContract | Batch | TokenTransfer | WalletCreation | Other

definition fee_category_from_u32 :: "nat \<Rightarrow> fee_category option" where
  "fee_category_from_u32 v =
    (if v = 0 then Some Transaction else if v = 1 then Some Priority else if v = 2 then Some CrossContract
     else if v = 3 then Some Batch else if v = 4 then Some TokenTransfer else if v = 5 then Some WalletCreation
     else if v = 6 then Some Other else None)"

fun fee_category_to_u32 :: "fee_category \<Rightarrow> nat" where
  "fee_category_to_u32 Transaction = 0"
| "fee_category_to_u32 Priority = 1"
| "fee_category_to_u32 CrossContract = 2"
| "fee_category_to_u32 Batch = 3"
| "fee_category_to_u32 TokenTransfer = 4"
| "fee_category_to_u32 WalletCreation = 5"
| "fee_category_to_u32 Other = 6"

datatype priority_level = Low | Medium | High | Urgent

definition priority_level_from_u32 :: "nat \<Rightarrow> priority_level option" where
  "priority_level_from_u32 v =
    (if v = 0 then Some Low else if v = 1 then Some Medium else if v = 2 then Some High
     else if v = 3 then Some Urgent else None)"

fun priority_level_to_u32 :: "priority_level \<Rightarrow> nat" where
  "priority_level_to_u32 Low = 0"
| "priority_level_to_u32 Medium = 1"
| "priority_level_to_u32 High = 2"
| "priority_level_to_u32 Urgent = 3"

text \<open>The numbers that the events carry identify the values.\<close>

lemma rounding_mode_codes: "rounding_mode_from_u32 v = Some m \<longleftrightarrow> v = rounding_mode_to_u32 m"
  by (cases m) (auto simp: rounding_mode_from_u32_def)

lemma fee_category_codes: "fee_category_from_u32 v = Some c \<longleftrightarrow> v = fee_category_to_u32 c"
  by (cases c) (auto simp: fee_category_from_u32_def)

lemma priority_level_codes: "priority_level_from_u32 v = Some p \<longleftrightarrow> v = priority_level_to_u32 p"
  by (cases p) (auto simp: priority_level_from_u32_def)

record fee_snapshot =
  sn_total_collected :: int
  sn_treasury_collected :: int
  sn_distributed :: int
  sn_created_at :: nat
  sn_period_start :: nat

record snapshot_metadata =
  sm_count :: nat
  sm_latest_timestamp :: nat

record priority_fee_config =
  pc_low :: nat
  pc_medium :: nat
  pc_high :: nat
  pc_urgent :: nat

definition default_priority_config :: priority_fee_config where
  "default_priority_config = \<lparr>pc_low = 8000, pc_medium = 10000, pc_high = 15000, pc_urgent = 20000\<rparr>"

fun get_multiplier_bps :: "priority_fee_config \<Rightarrow> priority_level \<Rightarrow> nat" where
  "get_multiplier_bps c Low = pc_low c"
| "get_multiplier_bps c Medium = pc_medium c"
| "get_multiplier_bps c High = pc_high c"
| "get_multiplier_bps c Urgent = pc_urgent c"

definition is_valid :: "priority_fee_config \<Rightarrow> bool" where
  "is_valid c \<longleftrightarrow> pc_low c \<le> pc_medium c \<and> pc_medium c \<le> pc_high c \<and> pc_high c \<le> pc_urgent c"

record fee_recipient =
  fr_address :: address
  fr_share_bps :: nat

datatype fees_error =
    NotInitialized | AlreadyInitialized | Unauthorized | InvalidPercentage | InvalidAmount | Overflow | InvalidRefundAmount
  | InsufficientFeeBalance | InvalidDistribution | DistributionSumsToWrong | NoDistributionConfigured | InvalidFeeBound
  | InvalidFeeBoundRange | InvalidPriorityLevel | InvalidPriorityConfig | NoEscrowedFees | TreasuryNotConfigured
  | InvalidTreasuryPercentage | InvalidRoundingMode | InvalidFeeCategory | InvalidSnapshotPeriod

datatype fees_event =
    FeeDeducted address int int nat
  | ConfigUpdated address nat nat
  | FeeRefunded address int string nat
  | DistributionConfigured address nat nat
  | FeesDistributed int nat nat
  | FeeBoundsConfigured address int int nat
  | PriorityConfigUpdated address nat nat nat nat nat
  | FeeDeductedWithPriority address int int nat nat
  | FeeEscrowed address int nat
  | FeeDelegateUpdated address address nat
  | TreasuryConfigured address address nat nat
  | FeesRoutedToTreasury int address nat
  | RoundingModeUpdated address nat nat
  | FeeCategoryConfigured address nat nat
  | SnapshotCreated nat int int nat

record fees_state =
  fs_admin :: "address option"
  fs_percentage :: "nat option"
  fs_total :: "int option"
  fs_user :: "address \<rightharpoonup> int"
  fs_distribution :: "fee_recipient list option"
  fs_recipient :: "address \<rightharpoonup> int"
  fs_min :: "int option"
  fs_max :: "int option"
  fs_priority :: "priority_fee_config option"
  fs_escrowed :: "address \<rightharpoonup> int"
  fs_delegate :: "address \<rightharpoonup> address"
  fs_treasury :: "address option"
  fs_treasury_total :: "int option"
  fs_treasury_percentage :: "nat option"
  fs_rounding :: "rounding_mode option"
  fs_category_of :: "address \<rightharpoonup> fee_category"
  fs_category :: "fee_category \<rightharpoonup> int"
  fs_snapshot_metadata :: "snapshot_metadata option"
  fs_snapshot :: "nat \<rightharpoonup> fee_snapshot"
  fs_events :: "fees_event list"

definition fees_fresh :: fees_state where
  "fees_fresh = \<lparr>fs_admin = None, fs_percentage = None, fs_total = None, fs_user = Map.empty, fs_distribution = None,
     fs_recipient = Map.empty, fs_min = None, fs_max = None, fs_priority = None, fs_escrowed = Map.empty,
     fs_delegate = Map.empty, fs_treasury = None, fs_treasury_total = None, fs_treasury_percentage = None,
     fs_rounding = None, fs_category_of = Map.empty, fs_category = Map.empty, fs_snapshot_metadata = None,
     fs_snapshot = Map.empty, fs_events = []\<rparr>"

type_synonym 'a fees_outcome = "(fees_state, fees_error, 'a) outcome"

definition emit :: "fees_event \<Rightarrow> fees_state \<Rightarrow> fees_state" where
  "emit ev s = s\<lparr>fs_events := fs_events s @ [ev]\<rparr>"

section \<open>Internal helpers\<close>

definition require_initialized :: "fees_state \<Rightarrow> fees_error trap + address" where
  "require_initialized s = (case fs_admin s of None \<Rightarrow> Inl (ContractError NotInitialized) | Some a \<Rightarrow> Inr a)"

definition require_admin :: "fees_state \<Rightarrow> address \<Rightarrow> fees_error trap + unit" where
  "require_admin s caller = (case require_initialized s of Inl t \<Rightarrow> Inl t | Inr admin \<Rightarrow>
     if caller \<noteq> admin then Inl (ContractError Unauthorized) else Inr ())"

definition load_rounding_mode :: "fees_state \<Rightarrow> rounding_mode" where
  "load_rounding_mode s = unwrap_or (fs_rounding s) Round"

definition calculate_treasury_portion :: "fees_state \<Rightarrow> int \<Rightarrow> fees_error trap + (int \<times> int)" where
  "calculate_treasury_portion s total_fee =
    (let treasury_pct = unwrap_or (fs_treasury_percentage s) 0 in
     if treasury_pct = 0 then Inr (0, total_fee) else
     case checked_mul total_fee (int treasury_pct) of None \<Rightarrow> Inl (ContractError Overflow) | Some x \<Rightarrow>
     case checked_div x 10000 of None \<Rightarrow> Inl (ContractError Overflow) | Some treasury_amount \<Rightarrow>
     case checked_sub total_fee treasury_amount of None \<Rightarrow> Inl (ContractError Overflow) | Some rest \<Rightarrow>
     Inr (treasury_amount, rest))"

definition get_treasury_address :: "fees_state \<Rightarrow> address option" where
  "get_treasury_address s = fs_treasury s"

definition get_user_category :: "fees_state \<Rightarrow> address \<Rightarrow> fee_category" where
  "get_user_category s user = unwrap_or (fs_category_of s user) Transaction"

definition load_category_fees :: "fees_state \<Rightarrow> fee_category \<Rightarrow> int" where
  "load_category_fees s category = unwrap_or (fs_category s category) 0"

definition update_category_fees :: "fee_category \<Rightarrow> int \<Rightarrow> fees_state \<Rightarrow> fees_error trap + fees_state" where
  "update_category_fees category amount s =
    (case checked_add (load_category_fees s category) amount of None \<Rightarrow> Inl (ContractError Overflow) | Some updated \<Rightarrow>
     Inr (s\<lparr>fs_category := (fs_category s)(category \<mapsto> updated)\<rparr>))"

section \<open>The fee of an amount\<close>

definition initialize :: "address \<Rightarrow> nat \<Rightarrow> fees_state \<Rightarrow> unit fees_outcome" where
  "initialize admin percentage_bps s =
    (if fs_admin s \<noteq> None then Inl (ContractError AlreadyInitialized) else
     if 10000 < percentage_bps then Inl (ContractError InvalidPercentage) else
     Inr ((), s\<lparr>fs_admin := Some admin, fs_percentage := Some percentage_bps, fs_total := Some 0\<rparr>))"

definition set_percentage :: "env \<Rightarrow> address \<Rightarrow> nat \<Rightarrow> fees_state \<Rightarrow> unit fees_outcome" where
  "set_percentage e caller percentage_bps s =
    (if \<not> env_auth e caller then Inl AuthTrap else
     case require_admin s caller of Inl t \<Rightarrow> Inl t | Inr _ \<Rightarrow>
     if 10000 < percentage_bps then Inl (ContractError InvalidPercentage) else
     Inr ((), emit (ConfigUpdated caller percentage_bps (env_timestamp e)) (s\<lparr>fs_percentage := Some percentage_bps\<rparr>)))"

definition get_percentage :: "fees_state \<Rightarrow> nat" where
  "get_percentage s = unwrap_or (fs_percentage s) 0"

text \<open>The \<open>match\<close> on the rounding mode; the addition of \<open>Round\<close> is a plain one and traps on overflow.\<close>

fun round_fee :: "rounding_mode \<Rightarrow> int \<Rightarrow> fees_error trap + int" where
  "round_fee Floor raw_fee = Inr (quot raw_fee 10000)"
| "round_fee Round raw_fee =
    (case checked_add raw_fee 5000 of None \<Rightarrow> Inl ArithTrap | Some x \<Rightarrow> Inr (quot x 10000))"
| "round_fee Ceiling raw_fee = Inr (if raw_fee mod 10000 = 0 then quot raw_fee 10000 else quot raw_fee 10000 + 1)"

definition get_min_fee :: "fees_state \<Rightarrow> int" where
  "get_min_fee s = unwrap_or (fs_min s) 0"

definition get_max_fee :: "fees_state \<Rightarrow> int" where
  "get_max_fee s = unwrap_or (fs_max s) i128_max"

definition bound_fee :: "fees_state \<Rightarrow> int \<Rightarrow> int" where
  "bound_fee s fee =
    (if fee < get_min_fee s then get_min_fee s else if get_max_fee s < fee then get_max_fee s else fee)"

definition calculate_fee :: "int \<Rightarrow> fees_state \<Rightarrow> fees_error trap + int" where
  "calculate_fee amount s =
    (if amount \<le> 0 then Inl (ContractError InvalidAmount) else
     case checked_mul amount (int (get_percentage s)) of None \<Rightarrow> Inl (ContractError Overflow) | Some raw_fee \<Rightarrow>
     case round_fee (load_rounding_mode s) raw_fee of Inl t \<Rightarrow> Inl t | Inr fee \<Rightarrow> Inr (bound_fee s fee))"

definition get_priority_config :: "fees_state \<Rightarrow> priority_fee_config" where
  "get_priority_config s = unwrap_or (fs_priority s) default_priority_config"

definition get_priority_multiplier :: "priority_level \<Rightarrow> fees_state \<Rightarrow> nat" where
  "get_priority_multiplier priority s = get_multiplier_bps (get_priority_config s) priority"

definition calculate_fee_with_priority :: "int \<Rightarrow> priority_level \<Rightarrow> fees_state \<Rightarrow> fees_error trap + int" where
  "calculate_fee_with_priority amount priority s =
    (if amount \<le> 0 then Inl (ContractError InvalidAmount) else
     let multiplier_bps = get_multiplier_bps (get_priority_config s) priority in
     case u64_mul (get_percentage s) multiplier_bps of None \<Rightarrow> Inl ArithTrap | Some p \<Rightarrow>
     let adjusted_pct = as_u32 (int (p div 10000)) in
     case checked_mul amount (int adjusted_pct) of None \<Rightarrow> Inl (ContractError Overflow) | Some raw_fee \<Rightarrow>
     case round_fee (load_rounding_mode s) raw_fee of Inl t \<Rightarrow> Inl t | Inr fee \<Rightarrow> Inr (bound_fee s fee))"

section \<open>Deductions\<close>

text \<open>The treasury total, the fees of the category and the total: the first half of the books.\<close>

definition book_shares :: "address \<Rightarrow> int \<Rightarrow> int \<Rightarrow> int \<Rightarrow> fees_state \<Rightarrow> fees_error trap + fees_state" where
  "book_shares payer fee treasury_amount rest s =
    (case (if 0 < treasury_amount then
             (case checked_add (unwrap_or (fs_treasury_total s) 0) treasury_amount of None \<Rightarrow> Inl (ContractError Overflow)
              | Some treasury_total \<Rightarrow> Inr (s\<lparr>fs_treasury_total := Some treasury_total\<rparr>))
           else Inr s) of Inl t \<Rightarrow> Inl t | Inr s1 \<Rightarrow>
     case update_category_fees (get_user_category s1 payer) fee s1 of Inl t \<Rightarrow> Inl t | Inr s2 \<Rightarrow>
     case checked_add (unwrap_or (fs_total s2) 0) rest of None \<Rightarrow> Inl (ContractError Overflow) | Some total_sum \<Rightarrow>
     Inr (s2\<lparr>fs_total := Some total_sum\<rparr>))"

definition book_user :: "address \<Rightarrow> int \<Rightarrow> fees_state \<Rightarrow> fees_error trap + fees_state" where
  "book_user payer fee s =
    (case checked_add (unwrap_or (fs_user s payer) 0) fee of None \<Rightarrow> Inl (ContractError Overflow) | Some user_fees \<Rightarrow>
     Inr (s\<lparr>fs_user := (fs_user s)(payer \<mapsto> user_fees)\<rparr>))"

definition route_to_treasury :: "'w crediting \<Rightarrow> env \<Rightarrow> int \<Rightarrow> fees_state \<times> 'w \<Rightarrow> fees_error trap + (fees_state \<times> 'w)" where
  "route_to_treasury credit e treasury_amount sw = (case sw of (s, w) \<Rightarrow>
     if 0 < treasury_amount then
       (case get_treasury_address s of None \<Rightarrow> Inr (s, w) | Some treasury \<Rightarrow>
        let s1 = emit (FeesRoutedToTreasury treasury_amount treasury (env_timestamp e)) s in
        case credit e treasury treasury_amount w of None \<Rightarrow> Inl CallTrap | Some w1 \<Rightarrow> Inr (s1, w1))
     else Inr (s, w))"

text \<open>What both deductions do once the fee is known.\<close>

definition book_fee :: "'w crediting \<Rightarrow> env \<Rightarrow> address \<Rightarrow> int \<Rightarrow> fees_event \<Rightarrow> fees_state \<times> 'w
    \<Rightarrow> fees_error trap + (fees_state \<times> 'w)" where
  "book_fee credit e payer fee ev sw = (case sw of (s, w) \<Rightarrow>
     case calculate_treasury_portion s fee of Inl t \<Rightarrow> Inl t | Inr (treasury_amount, rest) \<Rightarrow>
     case book_shares payer fee treasury_amount rest s of Inl t \<Rightarrow> Inl t | Inr s1 \<Rightarrow>
     case book_user payer fee s1 of Inl t \<Rightarrow> Inl t | Inr s2 \<Rightarrow>
     route_to_treasury credit e treasury_amount (emit ev s2, w))"

definition deduct_fee :: "'w crediting \<Rightarrow> env \<Rightarrow> address \<Rightarrow> int \<Rightarrow> fees_state \<times> 'w
    \<Rightarrow> (fees_state \<times> 'w, fees_error, int \<times> int) outcome" where
  "deduct_fee credit e payer amount sw = (case sw of (s, w) \<Rightarrow>
     if \<not> env_auth e payer then Inl AuthTrap else
     case require_initialized s of Inl t \<Rightarrow> Inl t | Inr _ \<Rightarrow>
     case calculate_fee amount s of Inl t \<Rightarrow> Inl t | Inr fee \<Rightarrow>
     case checked_sub amount fee of None \<Rightarrow> Inl (ContractError Overflow) | Some net \<Rightarrow>
     let actual_payer = unwrap_or (fs_delegate s payer) payer in
     if actual_payer \<noteq> payer \<and> \<not> env_auth e actual_payer then Inl AuthTrap else
     case book_fee credit e payer fee (FeeDeducted payer amount fee (env_timestamp e)) (s, w) of
       Inl t \<Rightarrow> Inl t | Inr (s1, w1) \<Rightarrow> Inr ((net, fee), s1, w1))"

definition deduct_fee_with_priority :: "'w crediting \<Rightarrow> env \<Rightarrow> address \<Rightarrow> int \<Rightarrow> priority_level \<Rightarrow> fees_state \<times> 'w
    \<Rightarrow> (fees_state \<times> 'w, fees_error, int \<times> int) outcome" where
  "deduct_fee_with_priority credit e payer amount priority sw = (case sw of (s, w) \<Rightarrow>
     if \<not> env_auth e payer then Inl AuthTrap else
     case require_initialized s of Inl t \<Rightarrow> Inl t | Inr _ \<Rightarrow>
     case calculate_fee_with_priority amount priority s of Inl t \<Rightarrow> Inl t | Inr fee \<Rightarrow>
     case checked_sub amount fee of None \<Rightarrow> Inl (ContractError Overflow) | Some net \<Rightarrow>
     case book_fee credit e payer fee
         (FeeDeductedWithPriority payer amount fee (priority_level_to_u32 priority) (env_timestamp e)) (s, w) of
       Inl t \<Rightarrow> Inl t | Inr (s1, w1) \<Rightarrow> Inr ((net, fee), s1, w1))"

definition deduct_fee_to_escrow :: "env \<Rightarrow> address \<Rightarrow> int \<Rightarrow> fees_state \<Rightarrow> (int \<times> int) fees_outcome" where
  "deduct_fee_to_escrow e payer amount s =
    (if \<not> env_auth e payer then Inl AuthTrap else
     case require_initialized s of Inl t \<Rightarrow> Inl t | Inr _ \<Rightarrow>
     case calculate_fee amount s of Inl t \<Rightarrow> Inl t | Inr fee \<Rightarrow>
     case checked_sub amount fee of None \<Rightarrow> Inl PanicTrap | Some net \<Rightarrow>
     case checked_add (unwrap_or (fs_escrowed s payer) 0) fee of None \<Rightarrow> Inl PanicTrap | Some escrowed \<Rightarrow>
     Inr ((net, fee), emit (FeeEscrowed payer fee (env_timestamp e)) (s\<lparr>fs_escrowed := (fs_escrowed s)(payer \<mapsto> escrowed)\<rparr>)))"

definition release_escrow :: "env \<Rightarrow> address \<Rightarrow> address \<Rightarrow> fees_state \<Rightarrow> unit fees_outcome" where
  "release_escrow e admin user s =
    (if \<not> env_auth e admin then Inl AuthTrap else
     case require_admin s admin of Inl t \<Rightarrow> Inl t | Inr _ \<Rightarrow>
     case fs_escrowed s user of None \<Rightarrow> Inl (ContractError NoEscrowedFees) | Some escrowed \<Rightarrow>
     if escrowed = 0 then Inl (ContractError NoEscrowedFees) else
     case checked_add (unwrap_or (fs_total s) 0) escrowed of None \<Rightarrow> Inl PanicTrap | Some total_sum \<Rightarrow>
     Inr ((), s\<lparr>fs_total := Some total_sum, fs_escrowed := (fs_escrowed s)(user := None)\<rparr>))"

definition set_fee_delegate :: "env \<Rightarrow> address \<Rightarrow> address \<Rightarrow> fees_state \<Rightarrow> unit fees_outcome" where
  "set_fee_delegate e user delegate s =
    (if \<not> env_auth e user then Inl AuthTrap else
     Inr ((), emit (FeeDelegateUpdated user delegate (env_timestamp e)) (s\<lparr>fs_delegate := (fs_delegate s)(user \<mapsto> delegate)\<rparr>)))"

section \<open>Configuration\<close>

definition set_treasury :: "env \<Rightarrow> address \<Rightarrow> address \<Rightarrow> nat \<Rightarrow> fees_state \<Rightarrow> unit fees_outcome" where
  "set_treasury e caller treasury treasury_percentage_bps s =
    (if \<not> env_auth e caller then Inl AuthTrap else
     case require_admin s caller of Inl t \<Rightarrow> Inl t | Inr _ \<Rightarrow>
     if 10000 < treasury_percentage_bps then Inl (ContractError InvalidTreasuryPercentage) else
     Inr ((), emit (TreasuryConfigured caller treasury treasury_percentage_bps (env_timestamp e))
       (s\<lparr>fs_treasury := Some treasury, fs_treasury_percentage := Some treasury_percentage_bps\<rparr>)))"

definition get_treasury_percentage :: "fees_state \<Rightarrow> nat" where
  "get_treasury_percentage s = unwrap_or (fs_treasury_percentage s) 0"

definition get_total_treasury_fees :: "fees_state \<Rightarrow> int" where
  "get_total_treasury_fees s = unwrap_or (fs_treasury_total s) 0"

definition set_rounding_mode :: "env \<Rightarrow> address \<Rightarrow> rounding_mode \<Rightarrow> fees_state \<Rightarrow> unit fees_outcome" where
  "set_rounding_mode e caller mode s =
    (if \<not> env_auth e caller then Inl AuthTrap else
     case require_admin s caller of Inl t \<Rightarrow> Inl t | Inr _ \<Rightarrow>
     Inr ((), emit (RoundingModeUpdated caller (rounding_mode_to_u32 mode) (env_timestamp e)) (s\<lparr>fs_rounding := Some mode\<rparr>)))"

definition set_user_fee_category :: "env \<Rightarrow> address \<Rightarrow> address \<Rightarrow> fee_category \<Rightarrow> fees_state \<Rightarrow> unit fees_outcome" where
  "set_user_fee_category e caller user category s =
    (if \<not> env_auth e caller then Inl AuthTrap else
     case require_admin s caller of Inl t \<Rightarrow> Inl t | Inr _ \<Rightarrow>
     Inr ((), emit (FeeCategoryConfigured user (fee_category_to_u32 category) (env_timestamp e))
       (s\<lparr>fs_category_of := (fs_category_of s)(user \<mapsto> category)\<rparr>)))"

definition get_total_collected :: "fees_state \<Rightarrow> int" where
  "get_total_collected s = unwrap_or (fs_total s) 0"

definition get_user_fees_accrued :: "address \<Rightarrow> fees_state \<Rightarrow> int" where
  "get_user_fees_accrued user s = unwrap_or (fs_user s user) 0"

definition get_snapshot_metadata :: "fees_state \<Rightarrow> snapshot_metadata" where
  "get_snapshot_metadata s = unwrap_or (fs_snapshot_metadata s) \<lparr>sm_count = 0, sm_latest_timestamp = 0\<rparr>"

text \<open>The subtraction of the two totals is a plain one.\<close>

definition create_fee_snapshot :: "env \<Rightarrow> address \<Rightarrow> nat \<Rightarrow> fees_state \<Rightarrow> unit fees_outcome" where
  "create_fee_snapshot e caller period_start s =
    (if \<not> env_auth e caller then Inl AuthTrap else
     case require_admin s caller of Inl t \<Rightarrow> Inl t | Inr _ \<Rightarrow>
     if period_start = 0 then Inl (ContractError InvalidSnapshotPeriod) else
     let now = env_timestamp e; total_collected = get_total_collected s; treasury_collected = get_total_treasury_fees s in
     case checked_sub total_collected treasury_collected of None \<Rightarrow> Inl ArithTrap | Some distributed \<Rightarrow>
     let snapshot = \<lparr>sn_total_collected = total_collected, sn_treasury_collected = treasury_collected,
           sn_distributed = distributed, sn_created_at = now, sn_period_start = period_start\<rparr>;
         metadata = get_snapshot_metadata s;
         metadata1 = \<lparr>sm_count = u64_saturating_add (sm_count metadata) 1, sm_latest_timestamp = now\<rparr> in
     Inr ((), emit (SnapshotCreated period_start total_collected treasury_collected now)
       (s\<lparr>fs_snapshot := (fs_snapshot s)(period_start \<mapsto> snapshot), fs_snapshot_metadata := Some metadata1\<rparr>)))"

definition set_fee_bounds :: "env \<Rightarrow> address \<Rightarrow> int \<Rightarrow> int \<Rightarrow> fees_state \<Rightarrow> unit fees_outcome" where
  "set_fee_bounds e caller min_fee max_fee s =
    (if \<not> env_auth e caller then Inl AuthTrap else
     case require_admin s caller of Inl t \<Rightarrow> Inl t | Inr _ \<Rightarrow>
     if min_fee < 0 \<or> max_fee < 0 then Inl (ContractError InvalidFeeBound) else
     if max_fee < min_fee then Inl (ContractError InvalidFeeBoundRange) else
     Inr ((), emit (FeeBoundsConfigured caller min_fee max_fee (env_timestamp e)) (s\<lparr>fs_min := Some min_fee, fs_max := Some max_fee\<rparr>)))"

definition set_priority_multipliers :: "env \<Rightarrow> address \<Rightarrow> nat \<Rightarrow> nat \<Rightarrow> nat \<Rightarrow> nat \<Rightarrow> fees_state \<Rightarrow> unit fees_outcome" where
  "set_priority_multipliers e caller low medium high urgent s =
    (if \<not> env_auth e caller then Inl AuthTrap else
     case require_admin s caller of Inl t \<Rightarrow> Inl t | Inr _ \<Rightarrow>
     let config = \<lparr>pc_low = low, pc_medium = medium, pc_high = high, pc_urgent = urgent\<rparr> in
     if \<not> is_valid config then Inl (ContractError InvalidPriorityConfig) else
     Inr ((), emit (PriorityConfigUpdated caller low medium high urgent (env_timestamp e)) (s\<lparr>fs_priority := Some config\<rparr>)))"

section \<open>Refunds and distribution\<close>

definition refund_fee :: "env \<Rightarrow> address \<Rightarrow> address \<Rightarrow> int \<Rightarrow> string \<Rightarrow> fees_state \<Rightarrow> int fees_outcome" where
  "refund_fee e caller user refund_amount reason s =
    (if \<not> env_auth e caller then Inl AuthTrap else
     case require_admin s caller of Inl t \<Rightarrow> Inl t | Inr _ \<Rightarrow>
     if refund_amount \<le> 0 then Inl (ContractError InvalidRefundAmount) else
     case require_initialized s of Inl t \<Rightarrow> Inl t | Inr _ \<Rightarrow>
     let user_fees = unwrap_or (fs_user s user) 0 in
     if user_fees < refund_amount then Inl (ContractError InsufficientFeeBalance) else
     case checked_sub (unwrap_or (fs_total s) 0) refund_amount of None \<Rightarrow> Inl (ContractError Overflow) | Some total_sum \<Rightarrow>
     case checked_sub user_fees refund_amount of None \<Rightarrow> Inl (ContractError Overflow) | Some updated_user_fees \<Rightarrow>
     Inr (refund_amount, emit (FeeRefunded user refund_amount reason (env_timestamp e))
       (s\<lparr>fs_total := Some total_sum, fs_user := (fs_user s)(user \<mapsto> updated_user_fees)\<rparr>)))"

text \<open>The sum of the shares, with the checks of the loop.\<close>

definition add_share :: "fee_recipient \<Rightarrow> nat \<Rightarrow> fees_error trap + nat" where
  "add_share r total_bps =
    (if 10000 < fr_share_bps r then Inl (ContractError InvalidDistribution) else
     case u32_add total_bps (fr_share_bps r) of None \<Rightarrow> Inl (ContractError Overflow) | Some n \<Rightarrow> Inr n)"

definition set_distribution :: "env \<Rightarrow> address \<Rightarrow> fee_recipient list \<Rightarrow> fees_state \<Rightarrow> unit fees_outcome" where
  "set_distribution e caller recipients s =
    (if \<not> env_auth e caller then Inl AuthTrap else
     case require_admin s caller of Inl t \<Rightarrow> Inl t | Inr _ \<Rightarrow>
     if length recipients = 0 then Inl (ContractError InvalidDistribution) else
     case fold_trap add_share recipients 0 of Inl t \<Rightarrow> Inl t | Inr total_bps \<Rightarrow>
     if total_bps \<noteq> 10000 then Inl (ContractError DistributionSumsToWrong) else
     Inr ((), emit (DistributionConfigured caller (length recipients) (env_timestamp e)) (s\<lparr>fs_distribution := Some recipients\<rparr>)))"

definition get_distribution :: "fees_state \<Rightarrow> fee_recipient list" where
  "get_distribution s = unwrap_or (fs_distribution s) []"

text \<open>One recipient: the books of the recipients and the sum distributed so far.\<close>

definition distribute_step :: "int \<Rightarrow> fee_recipient \<Rightarrow> (address \<rightharpoonup> int) \<times> int \<Rightarrow> fees_error trap + ((address \<rightharpoonup> int) \<times> int)" where
  "distribute_step total_to_distribute r acc = (case acc of (books, total_distributed) \<Rightarrow>
     case checked_mul total_to_distribute (int (fr_share_bps r)) of None \<Rightarrow> Inl (ContractError Overflow) | Some x \<Rightarrow>
     case checked_div x 10000 of None \<Rightarrow> Inl (ContractError Overflow) | Some recipient_share \<Rightarrow>
     case checked_add (unwrap_or (books (fr_address r)) 0) recipient_share of None \<Rightarrow> Inl (ContractError Overflow) | Some recipient_fees \<Rightarrow>
     case checked_add total_distributed recipient_share of None \<Rightarrow> Inl (ContractError Overflow) | Some n \<Rightarrow>
     Inr (books(fr_address r \<mapsto> recipient_fees), n))"

definition distribute_fees :: "env \<Rightarrow> address \<Rightarrow> fees_state \<Rightarrow> int fees_outcome" where
  "distribute_fees e caller s =
    (if \<not> env_auth e caller then Inl AuthTrap else
     case require_admin s caller of Inl t \<Rightarrow> Inl t | Inr _ \<Rightarrow>
     case fs_distribution s of None \<Rightarrow> Inl (ContractError NoDistributionConfigured) | Some recipients \<Rightarrow>
     if length recipients = 0 then Inl (ContractError NoDistributionConfigured) else
     let total_to_distribute = unwrap_or (fs_total s) 0 in
     if total_to_distribute \<le> 0 then Inr (0, s) else
     case fold_trap (distribute_step total_to_distribute) recipients (fs_recipient s, 0) of Inl t \<Rightarrow> Inl t
     | Inr (books, total_distributed) \<Rightarrow>
       Inr (total_distributed, emit (FeesDistributed total_distributed (length recipients) (env_timestamp e))
         (s\<lparr>fs_recipient := books, fs_total := Some 0\<rparr>)))"

definition get_recipient_fees_accumulated :: "address \<Rightarrow> fees_state \<Rightarrow> int" where
  "get_recipient_fees_accumulated recipient s = unwrap_or (fs_recipient s recipient) 0"

section \<open>Calls\<close>

datatype fees_call =
    CInitialize address nat
  | CPercentage address nat
  | CDeduct address int
  | CDeductPriority address int priority_level
  | CEscrow address int
  | CRelease address address
  | CDelegate address address
  | CTreasury address address nat
  | CRounding address rounding_mode
  | CCategory address address fee_category
  | CSnapshot address nat
  | CRefund address address int string
  | CDistribution address "fee_recipient list"
  | CDistribute address
  | CBounds address int int
  | CMultipliers address nat nat nat nat

text \<open>The calls that leave the world alone, and all calls.\<close>

fun local_exec :: "env \<Rightarrow> fees_call \<Rightarrow> fees_state \<Rightarrow> fees_error trap + fees_state" where
  "local_exec e (CInitialize a p) s = final (initialize a p s)"
| "local_exec e (CPercentage a p) s = final (set_percentage e a p s)"
| "local_exec e (CEscrow a n) s = final (deduct_fee_to_escrow e a n s)"
| "local_exec e (CRelease a u) s = final (release_escrow e a u s)"
| "local_exec e (CDelegate a d) s = final (set_fee_delegate e a d s)"
| "local_exec e (CTreasury a t p) s = final (set_treasury e a t p s)"
| "local_exec e (CRounding a m) s = final (set_rounding_mode e a m s)"
| "local_exec e (CCategory a u c) s = final (set_user_fee_category e a u c s)"
| "local_exec e (CSnapshot a p) s = final (create_fee_snapshot e a p s)"
| "local_exec e (CRefund a u n r) s = final (refund_fee e a u n r s)"
| "local_exec e (CDistribution a rs) s = final (set_distribution e a rs s)"
| "local_exec e (CDistribute a) s = final (distribute_fees e a s)"
| "local_exec e (CBounds a m n) s = final (set_fee_bounds e a m n s)"
| "local_exec e (CMultipliers a l m h u) s = final (set_priority_multipliers e a l m h u s)"
| "local_exec e _ s = Inr s"

fun fees_exec :: "'w crediting \<Rightarrow> env \<times> fees_call \<Rightarrow> fees_state \<times> 'w \<Rightarrow> fees_error trap + (fees_state \<times> 'w)" where
  "fees_exec credit (e, CDeduct a n) sw = final (deduct_fee credit e a n sw)"
| "fees_exec credit (e, CDeductPriority a n p) sw = final (deduct_fee_with_priority credit e a n p sw)"
| "fees_exec credit (e, c) sw = (case local_exec e c (fst sw) of Inl t \<Rightarrow> Inl t | Inr s1 \<Rightarrow> Inr (s1, snd sw))"

section \<open>Rounding\<close>

text \<open>All three modes are one division, after adding nothing, a half, or all but a unit.\<close>

fun round_bias :: "rounding_mode \<Rightarrow> int" where
  "round_bias Floor = 0"
| "round_bias Round = 5000"
| "round_bias Ceiling = 9999"

definition rounded :: "rounding_mode \<Rightarrow> int \<Rightarrow> int" where
  "rounded m raw = (raw + round_bias m) div 10000"

lemma ceiling_div: "(if raw mod 10000 = 0 then raw div 10000 else raw div 10000 + 1) = (raw + 9999) div (10000::int)"
proof -
  have "raw = 10000 * (raw div 10000) + raw mod 10000" "0 \<le> raw mod 10000" "raw mod 10000 < 10000" by simp_all
  then show ?thesis by (intro int_div_pos_eq [symmetric, of _ _ _ "if raw mod 10000 = 0 then 9999 else raw mod 10000 - 1"]) auto
qed

lemma round_fee_Inr: "0 \<le> raw \<Longrightarrow> round_fee m raw = Inr f \<Longrightarrow> f = rounded m raw"
  by (cases m) (auto simp: rounded_def quot_pos ceiling_div [symmetric] split: option.splits if_splits)

lemma rounded_nonneg: "0 \<le> raw \<Longrightarrow> 0 \<le> rounded m raw"
  by (cases m) (simp_all add: rounded_def)

lemma rounded_mono: "raw \<le> raw1 \<Longrightarrow> rounded m raw \<le> rounded m raw1"
  by (simp add: rounded_def zdiv_mono1)

lemma rounded_error: "\<bar>10000 * rounded m raw - raw\<bar> \<le> (if m = Round then 5000 else 9999)"
proof -
  let ?x = "raw + round_bias m"
  have "10000 * (?x div 10000) = ?x - ?x mod 10000" "0 \<le> ?x mod 10000" "?x mod 10000 < 10000" by (simp_all add: minus_mod_eq_mult_div)
  then show ?thesis by (cases m) (auto simp: rounded_def)
qed

section \<open>Settings\<close>

definition shares :: "fee_recipient list \<Rightarrow> nat" where
  "shares rs = sum_list (map fr_share_bps rs)"

definition settings_ok :: "fees_state \<Rightarrow> bool" where
  "settings_ok s \<longleftrightarrow> get_percentage s \<le> 10000 \<and> get_treasury_percentage s \<le> 10000
     \<and> (0 < get_treasury_percentage s \<longrightarrow> fs_treasury s \<noteq> None)
     \<and> 0 \<le> get_min_fee s \<and> get_min_fee s \<le> get_max_fee s
     \<and> (\<forall>rs. fs_distribution s = Some rs \<longrightarrow> shares rs = 10000)
     \<and> is_valid (get_priority_config s) \<and> in_u32 (pc_urgent (get_priority_config s))"

lemma settings_ok_fresh: "settings_ok fees_fresh"
  by (simp add: settings_ok_def fees_fresh_def get_percentage_def get_treasury_percentage_def get_min_fee_def get_max_fee_def
      get_priority_config_def default_priority_config_def is_valid_def in_u32_def)

lemma bound_fee_nonneg: "settings_ok s \<Longrightarrow> 0 \<le> f \<Longrightarrow> 0 \<le> bound_fee s f"
  by (auto simp: settings_ok_def bound_fee_def)

lemma bound_fee_mono: "settings_ok s \<Longrightarrow> f \<le> g \<Longrightarrow> bound_fee s f \<le> bound_fee s g"
  by (auto simp: settings_ok_def bound_fee_def)

lemma calculate_fee_Inr:
  assumes "calculate_fee n s = Inr f"
  shows "0 < n \<and> f = bound_fee s (rounded (load_rounding_mode s) (n * int (get_percentage s)))"
  using assms by (auto simp: calculate_fee_def dest!: round_fee_Inr [rotated] split: if_splits option.splits sum.splits)

definition effective_pct :: "priority_level \<Rightarrow> fees_state \<Rightarrow> nat" where
  "effective_pct p s = get_percentage s * get_priority_multiplier p s div 10000"

lemma multiplier_le: "is_valid c \<Longrightarrow> get_multiplier_bps c p \<le> pc_urgent c"
  by (cases p) (auto simp: is_valid_def)

lemma multiplier_mono:
  "is_valid c \<Longrightarrow> priority_level_to_u32 p \<le> priority_level_to_u32 q \<Longrightarrow> get_multiplier_bps c p \<le> get_multiplier_bps c q"
  by (cases p; cases q) (auto simp: is_valid_def)

text \<open>The cast to 32 bits loses nothing: the percentage is at most the whole.\<close>

lemma effective_pct_cast:
  assumes "settings_ok s"
  shows "as_u32 (int (get_percentage s * get_priority_multiplier p s div 10000)) = effective_pct p s"
proof -
  have "get_priority_multiplier p s \<le> pc_urgent (get_priority_config s)"
    using assms by (simp add: settings_ok_def get_priority_multiplier_def multiplier_le)
  then have "get_priority_multiplier p s \<le> u32_max" using assms by (simp add: settings_ok_def in_u32_def)
  moreover have "get_percentage s * get_priority_multiplier p s \<le> 10000 * get_priority_multiplier p s"
    using assms by (simp add: settings_ok_def)
  then have "effective_pct p s \<le> get_priority_multiplier p s" unfolding effective_pct_def
    using div_le_mono [of "get_percentage s * get_priority_multiplier p s" "10000 * get_priority_multiplier p s" 10000] by simp
  ultimately show ?thesis by (simp add: as_u32_small effective_pct_def [symmetric])
qed

lemma calculate_fee_with_priority_Inr:
  assumes "calculate_fee_with_priority n p s = Inr f" and "settings_ok s"
  shows "0 < n \<and> f = bound_fee s (rounded (load_rounding_mode s) (n * int (effective_pct p s)))"
  using assms(1) effective_pct_cast [OF assms(2), of p]
  by (auto simp: calculate_fee_with_priority_def get_priority_multiplier_def Let_def dest!: round_fee_Inr [rotated]
      split: if_splits option.splits sum.splits)

lemma effective_pct_mono:
  assumes "settings_ok s" and "priority_level_to_u32 p \<le> priority_level_to_u32 q"
  shows "effective_pct p s \<le> effective_pct q s"
  using assms by (simp add: effective_pct_def get_priority_multiplier_def settings_ok_def multiplier_mono div_le_mono)

end
