(* ===== verification/Fees_Books.thy ===== *)
theory Fees_Books
  imports Fees
begin

text \<open>
  The books of \<open>contracts/fees.rs\<close> (theory \<open>Fees\<close>): what the stored totals say of the published events, that no fee is
  counted twice, and that higher priorities and larger amounts never pay less.
\<close>

section \<open>What the events say\<close>

fun fee_of :: "fees_event \<Rightarrow> int" where
  "fee_of (FeeDeducted p n f t) = f"
| "fee_of (FeeDeductedWithPriority p n f k t) = f"
| "fee_of _ = 0"

fun paid_by :: "address \<Rightarrow> fees_event \<Rightarrow> int" where
  "paid_by u (FeeDeducted p n f t) = (if p = u then f else 0)"
| "paid_by u (FeeDeductedWithPriority p n f k t) = (if p = u then f else 0)"
| "paid_by u _ = 0"

fun refunded_to :: "address \<Rightarrow> fees_event \<Rightarrow> int" where
  "refunded_to u (FeeRefunded p n r t) = (if p = u then n else 0)"
| "refunded_to u _ = 0"

fun put_in_escrow :: "fees_event \<Rightarrow> int" where
  "put_in_escrow (FeeEscrowed p n t) = n"
| "put_in_escrow _ = 0"

fun routed :: "fees_event \<Rightarrow> int" where
  "routed (FeesRoutedToTreasury n t now) = n"
| "routed _ = 0"

fun routed_to :: "address \<Rightarrow> fees_event \<Rightarrow> int" where
  "routed_to t (FeesRoutedToTreasury n t1 now) = (if t1 = t then n else 0)"
| "routed_to t _ = 0"

fun recipients_in :: "fees_event \<Rightarrow> int" where
  "recipients_in (FeesDistributed n k t) = int k"
| "recipients_in _ = 0"

definition over :: "(fees_event \<Rightarrow> int) \<Rightarrow> fees_state \<Rightarrow> int" where
  "over f s = sum_list (map f (fs_events s))"

lemma over_emit [simp]: "over f (emit ev s) = over f s + f ev"
  by (simp add: over_def emit_def)

text \<open>What the recipients have, what is put aside, and what the rounding of the distributions has left to nobody.\<close>

definition dust :: "fees_state \<Rightarrow> int" where
  "dust s = (total_over (\<lambda>x. x) (fs_user s) + over put_in_escrow s)
     - (get_total_collected s + get_total_treasury_fees s + total_over (\<lambda>x. x) (fs_recipient s) + total_over (\<lambda>x. x) (fs_escrowed s))"

definition books_ok :: "fees_state \<Rightarrow> bool" where
  "books_ok s \<longleftrightarrow>
     finite (dom (fs_user s)) \<and> finite (dom (fs_recipient s)) \<and> finite (dom (fs_escrowed s)) \<and> finite (dom (fs_category s))
   \<and> (\<forall>u. get_user_fees_accrued u s = over (paid_by u) s - over (refunded_to u) s \<and> over (refunded_to u) s \<le> over (paid_by u) s)
   \<and> total_over (\<lambda>x. x) (fs_category s) = over fee_of s
   \<and> get_total_treasury_fees s = over routed s
   \<and> 0 \<le> dust s \<and> dust s \<le> over recipients_in s
   \<and> (fs_admin s = None \<longrightarrow> get_total_collected s = 0)"

definition fees_inv :: "fees_state \<Rightarrow> bool" where
  "fees_inv s \<longleftrightarrow> settings_ok s \<and> books_ok s"

lemma fees_inv_fresh: "fees_inv fees_fresh"
  unfolding fees_inv_def
  by (intro conjI settings_ok_fresh)
    (simp add: books_ok_def fees_fresh_def over_def dust_def get_user_fees_accrued_def get_total_collected_def
      get_total_treasury_fees_def)

lemma opt_weight_unwrap: "opt_weight (\<lambda>x. x) x = unwrap_or x 0"
  by (cases x) simp_all

lemmas fees_fields = over_def dust_def get_user_fees_accrued_def get_total_collected_def get_total_treasury_fees_def
  total_over_update total_over_delete opt_weight_unwrap emit_def

section \<open>Deductions\<close>

lemma treasury_portion_Inr:
  assumes "calculate_treasury_portion s fee = Inr (t, rest)" and "settings_ok s" and "0 \<le> fee"
  shows "rest = fee - t \<and> 0 \<le> t \<and> t \<le> fee \<and> (0 < t \<longrightarrow> fs_treasury s \<noteq> None)"
proof (cases "get_treasury_percentage s = 0")
  case True
  with assms show ?thesis by (auto simp: calculate_treasury_portion_def get_treasury_percentage_def)
next
  case False
  define p where "p = int (get_treasury_percentage s)"
  have p: "0 < p" "p \<le> 10000" using assms(2) False by (auto simp: settings_ok_def p_def)
  from assms False have "t = quot (fee * p) 10000" "rest = fee - t"
    by (auto simp: calculate_treasury_portion_def get_treasury_percentage_def p_def checked_div_def Let_def
        split: option.splits if_splits)
  moreover have "quot (fee * p) 10000 = fee * p div 10000" by (rule quot_pos) (use assms(3) p in simp_all)
  moreover have "fee * p div 10000 \<le> fee * 10000 div 10000"
    by (rule zdiv_mono1) (use assms(3) p in \<open>auto intro: mult_left_mono\<close>)
  moreover have "0 \<le> fee * p div 10000" using assms(3) p by (intro pos_imp_zdiv_nonneg_iff [THEN iffD2]) simp_all
  ultimately show ?thesis using assms(2) False by (simp add: settings_ok_def)
qed

text \<open>A booked fee, as one update of the state.\<close>

definition booked :: "address \<Rightarrow> int \<Rightarrow> int \<Rightarrow> fees_event list \<Rightarrow> fees_state \<Rightarrow> fees_state" where
  "booked p f t evs s = s\<lparr>
     fs_user := (fs_user s)(p \<mapsto> get_user_fees_accrued p s + f),
     fs_category := (fs_category s)(get_user_category s p \<mapsto> load_category_fees s (get_user_category s p) + f),
     fs_total := Some (get_total_collected s + (f - t)),
     fs_treasury_total := (if 0 < t then Some (get_total_treasury_fees s + t) else fs_treasury_total s),
     fs_events := fs_events s @ evs\<rparr>"

lemma book_shares_Inr:
  assumes "book_shares p f t rest s = Inr s'"
  shows "s' = s\<lparr>fs_category := (fs_category s)(get_user_category s p \<mapsto> load_category_fees s (get_user_category s p) + f),
     fs_total := Some (get_total_collected s + rest),
     fs_treasury_total := (if 0 < t then Some (get_total_treasury_fees s + t) else fs_treasury_total s)\<rparr>"
  using assms
  by (cases "0 < t") (auto simp: book_shares_def update_category_fees_def load_category_fees_def get_user_category_def
      get_total_collected_def get_total_treasury_fees_def split: option.splits sum.splits)

lemma book_fee_Inr:
  assumes run: "book_fee credit e p f ev (s, w) = Inr (s', w')" and ok: "settings_ok s" and f: "0 \<le> f"
  shows "\<exists>t. 0 \<le> t \<and> t \<le> f \<and> (if 0 < t
      then \<exists>a. fs_treasury s = Some a \<and> credit e a t w = Some w'
         \<and> s' = booked p f t [ev, FeesRoutedToTreasury t a (env_timestamp e)] s
      else w' = w \<and> s' = booked p f t [ev] s)"
proof -
  from run obtain t rest s1 s2 where t: "calculate_treasury_portion s f = Inr (t, rest)"
    and s1: "book_shares p f t rest s = Inr s1" and s2: "book_user p f s1 = Inr s2"
    and route: "route_to_treasury credit e t (emit ev s2, w) = Inr (s', w')"
    by (auto simp: book_fee_def split: sum.splits)
  note t = treasury_portion_Inr [OF t ok f]
  have s2: "s2 = booked p f t [] s"
    using s2 t by (auto simp: book_user_def booked_def get_user_fees_accrued_def book_shares_Inr [OF s1] split: option.splits)
  have "get_treasury_address (emit ev s2) = fs_treasury s" by (simp add: s2 get_treasury_address_def booked_def emit_def)
  with route t show ?thesis
    by (intro exI [of _ t])
      (auto simp: route_to_treasury_def Let_def s2 booked_def emit_def split: option.splits if_splits)
qed

text \<open>Both deductions book a fee that is not negative, with the event that says so.\<close>

definition deduction :: "env \<Rightarrow> fees_call \<Rightarrow> address \<Rightarrow> int \<Rightarrow> fees_event \<Rightarrow> bool" where
  "deduction e c p f ev \<longleftrightarrow> (\<exists>n. c = CDeduct p n \<and> ev = FeeDeducted p n f (env_timestamp e))
    \<or> (\<exists>n k. c = CDeductPriority p n k \<and> ev = FeeDeductedWithPriority p n f (priority_level_to_u32 k) (env_timestamp e))"

lemma bounded_rounded_nonneg: "settings_ok s \<Longrightarrow> 0 < n \<Longrightarrow> 0 \<le> bound_fee s (rounded m (n * int k))"
  by (intro bound_fee_nonneg rounded_nonneg) simp_all

lemma fees_exec_cases:
  assumes run: "fees_exec credit (e, c) (s, w) = Inr (s', w')" and ok: "settings_ok s"
  obtains (deduct) p f ev where "deduction e c p f ev" "0 \<le> f" "fs_admin s \<noteq> None" "book_fee credit e p f ev (s, w) = Inr (s', w')"
    | (local) "local_exec e c s = Inr s'" "w' = w"
proof (cases c)
  case (CDeduct p n)
  with run obtain f where f: "calculate_fee n s = Inr f"
    and book: "book_fee credit e p f (FeeDeducted p n f (env_timestamp e)) (s, w) = Inr (s', w')"
    by (auto simp: deduct_fee_def Let_def split: sum.splits option.splits if_splits)
  have "0 \<le> f" using calculate_fee_Inr [OF f] bounded_rounded_nonneg [OF ok] by simp
  moreover have "fs_admin s \<noteq> None" using run CDeduct by (auto simp: deduct_fee_def require_initialized_def split: if_splits option.splits)
  ultimately show ?thesis using book CDeduct by (intro deduct) (auto simp: deduction_def)
next
  case (CDeductPriority p n k)
  with run obtain f where f: "calculate_fee_with_priority n k s = Inr f"
    and book: "book_fee credit e p f (FeeDeductedWithPriority p n f (priority_level_to_u32 k) (env_timestamp e)) (s, w) = Inr (s', w')"
    by (auto simp: deduct_fee_with_priority_def Let_def split: sum.splits option.splits if_splits)
  have "0 \<le> f" using calculate_fee_with_priority_Inr [OF f ok] bounded_rounded_nonneg [OF ok] by simp
  moreover have "fs_admin s \<noteq> None"
    using run CDeductPriority by (auto simp: deduct_fee_with_priority_def require_initialized_def split: if_splits option.splits)
  ultimately show ?thesis using book CDeductPriority by (intro deduct) (auto simp: deduction_def)
qed (use run local in \<open>auto split: sum.splits\<close>)

lemma deduction_event:
  assumes "deduction e c p f ev"
  shows "fee_of ev = f" "paid_by u ev = (if u = p then f else 0)" "refunded_to u ev = 0" "put_in_escrow ev = 0" "routed ev = 0"
    "routed_to t ev = 0" "recipients_in ev = 0"
  using assms by (auto simp: deduction_def)

lemma booked_inv:
  assumes inv: "fees_inv s" and dd: "deduction e c p f ev" and t: "0 \<le> t" "t \<le> f" and adm: "fs_admin s \<noteq> None"
    and evs: "evs = (if 0 < t then [ev, FeesRoutedToTreasury t a now] else [ev])"
  shows "fees_inv (booked p f t evs s)"
proof -
  note dd = deduction_event [OF dd]
  have over: "over g (booked p f t evs s) = over g s + g ev + (if 0 < t then g (FeesRoutedToTreasury t a now) else 0)" for g
    by (simp add: booked_def over_def evs)
  have b: "books_ok s" using inv by (simp add: fees_inv_def)
  have set: "settings_ok (booked p f t evs s)"
    using inv by (simp add: fees_inv_def settings_ok_def booked_def get_percentage_def get_treasury_percentage_def get_min_fee_def
        get_max_fee_def get_priority_config_def)
  have fin: "finite (dom (fs_user s))" "finite (dom (fs_category s))" using b by (simp_all add: books_ok_def)
  have user: "get_user_fees_accrued u (booked p f t evs s) = get_user_fees_accrued u s + (if u = p then f else 0)" for u
    by (simp add: booked_def get_user_fees_accrued_def)
  have cat: "total_over (\<lambda>x. x) (fs_category (booked p f t evs s)) = total_over (\<lambda>x. x) (fs_category s) + f"
    using fin by (simp add: booked_def total_over_update opt_weight_unwrap load_category_fees_def)
  have tre: "get_total_treasury_fees (booked p f t evs s) = get_total_treasury_fees s + t"
    using t by (simp add: booked_def get_total_treasury_fees_def)
  have dust: "dust (booked p f t evs s) = dust s"
    using fin t by (simp add: dust_def over dd tre)
      (simp add: booked_def get_total_collected_def total_over_update opt_weight_unwrap get_user_fees_accrued_def)
  have "books_ok (booked p f t evs s)"
  proof -
    obtain adm where "fs_admin s = Some adm" using adm by auto
    moreover have "over (refunded_to u) s \<le> over (paid_by u) s + f" for u
      using b t unfolding books_ok_def by (meson add_increasing2 order_trans)
    moreover have "finite (dom (fs_user (booked p f t evs s)))" "finite (dom (fs_recipient (booked p f t evs s)))"
        "finite (dom (fs_escrowed (booked p f t evs s)))" "finite (dom (fs_category (booked p f t evs s)))"
      using b by (simp_all add: books_ok_def booked_def)
    moreover have "fs_admin (booked p f n es s) = fs_admin s" for n es by (simp add: booked_def)
    ultimately show ?thesis using b t unfolding books_ok_def user cat tre dust over dd by simp
  qed
  with set show ?thesis by (simp add: fees_inv_def)
qed

section \<open>The other calls\<close>

lemma fold_add_share: "fold_trap add_share rs n = Inr m \<Longrightarrow> m = n + shares rs"
proof (induction rs arbitrary: n)
  case (Cons r rs)
  then obtain k where k: "add_share r n = Inr k" and rest: "fold_trap add_share rs k = Inr m" by (auto split: sum.splits)
  have "k = n + fr_share_bps r" using k by (auto simp: add_share_def u32_add_def split: if_splits)
  with Cons.IH [OF rest] show ?case by (simp add: shares_def)
qed (simp add: shares_def)

lemma distribute_step_Inr:
  assumes "distribute_step T r (m, d) = Inr (m1, d1)" and "0 \<le> T"
  shows "d1 - d = T * int (fr_share_bps r) div 10000 \<and> m1 = m(fr_address r \<mapsto> unwrap_or (m (fr_address r)) 0 + (d1 - d))"
  using assms by (auto simp: distribute_step_def checked_div_def quot_pos split: option.splits if_splits)

text \<open>The books of the recipients grow by what is distributed, and rounding loses less than one unit for each of them.\<close>

lemma fold_distribute:
  assumes "fold_trap (distribute_step T) rs (m, d) = Inr (m', d')" and "0 \<le> T" and "finite (dom m)"
  shows "finite (dom m') \<and> total_over (\<lambda>x. x) m' = total_over (\<lambda>x. x) m + (d' - d)
    \<and> 10000 * (d' - d) \<le> T * int (shares rs) \<and> T * int (shares rs) \<le> 10000 * (d' - d + int (length rs))"
  using assms
proof (induction rs arbitrary: m d)
  case Nil
  then show ?case by (simp add: shares_def)
next
  case (Cons r rs)
  then obtain m1 d1 where step: "distribute_step T r (m, d) = Inr (m1, d1)"
    and rest: "fold_trap (distribute_step T) rs (m1, d1) = Inr (m', d')"
    by (auto split: sum.splits)
  note one = distribute_step_Inr [OF step Cons.prems(2)]
  have fin: "finite (dom m1)" using one Cons.prems(3) by simp
  have m1: "total_over (\<lambda>x. x) m1 = total_over (\<lambda>x. x) m + (d1 - d)"
    using one Cons.prems(3) by (simp add: total_over_update opt_weight_unwrap)
  let ?x = "T * int (fr_share_bps r)"
  have "10000 * (?x div 10000) = ?x - ?x mod 10000" "0 \<le> ?x mod 10000" "?x mod 10000 < 10000"
    by (simp_all add: minus_mod_eq_mult_div)
  with one have "10000 * (d1 - d) \<le> ?x" "?x \<le> 10000 * (d1 - d + 1)" by simp_all
  with Cons.IH [OF rest Cons.prems(2) fin] m1 show ?case by (simp add: shares_def algebra_simps)
qed

lemma distribute_fees_Inr:
  assumes "distribute_fees e a s = Inr (d, s')" and "settings_ok s" and "finite (dom (fs_recipient s))"
  shows "s' = s \<or> (\<exists>m k. finite (dom m) \<and> total_over (\<lambda>x. x) m = total_over (\<lambda>x. x) (fs_recipient s) + d
    \<and> d \<le> get_total_collected s \<and> get_total_collected s \<le> d + int k
    \<and> s' = emit (FeesDistributed d k (env_timestamp e)) (s\<lparr>fs_recipient := m, fs_total := Some 0\<rparr>))"
proof (cases "get_total_collected s \<le> 0")
  case True
  with assms(1) show ?thesis by (auto simp: distribute_fees_def get_total_collected_def Let_def split: sum.splits option.splits if_splits)
next
  case False
  with assms(1) obtain rs m where rs: "fs_distribution s = Some rs"
    and fold: "fold_trap (distribute_step (get_total_collected s)) rs (fs_recipient s, 0) = Inr (m, d)"
    and s': "s' = emit (FeesDistributed d (length rs) (env_timestamp e)) (s\<lparr>fs_recipient := m, fs_total := Some 0\<rparr>)"
    by (auto simp: distribute_fees_def get_total_collected_def Let_def split: sum.splits option.splits if_splits)
  have "shares rs = 10000" using rs assms(2) by (simp add: settings_ok_def)
  with fold_distribute [OF fold _ assms(3)] False s' show ?thesis by (intro disjI2 exI [of _ m] exI [of _ "length rs"]) auto
qed

text \<open>A call that changes settings, and publishes an event of settings, leaves the books as they are.\<close>

fun settings_event :: "fees_event \<Rightarrow> bool" where
  "settings_event (FeeDeducted p n f t) = False"
| "settings_event (FeeDeductedWithPriority p n f k t) = False"
| "settings_event (FeeRefunded p n r t) = False"
| "settings_event (FeesDistributed n k t) = False"
| "settings_event (FeeEscrowed p n t) = False"
| "settings_event (FeesRoutedToTreasury n a t) = False"
| "settings_event _ = True"

definition same_books :: "fees_state \<Rightarrow> fees_state \<Rightarrow> bool" where
  "same_books s s' \<longleftrightarrow> fs_user s' = fs_user s \<and> fs_recipient s' = fs_recipient s \<and> fs_escrowed s' = fs_escrowed s
     \<and> fs_category s' = fs_category s \<and> get_total_collected s' = get_total_collected s
     \<and> fs_treasury_total s' = fs_treasury_total s \<and> (fs_admin s' = None \<longrightarrow> fs_admin s = None)
     \<and> (\<exists>evs. fs_events s' = fs_events s @ evs \<and> list_all settings_event evs)"

lemma settings_event_silent:
  assumes "settings_event ev"
  shows "fee_of ev = 0" "paid_by u ev = 0" "refunded_to u ev = 0" "put_in_escrow ev = 0" "routed ev = 0" "routed_to a ev = 0"
    "recipients_in ev = 0"
  using assms by (cases ev; simp)+

lemma sum_list_silent: "list_all P xs \<Longrightarrow> (\<And>x. P x \<Longrightarrow> f x = 0) \<Longrightarrow> sum_list (map f xs) = (0::int)"
  by (induction xs) auto

lemma same_books_over:
  assumes "same_books s s'" and "\<And>ev. settings_event ev \<Longrightarrow> f ev = 0"
  shows "over f s' = over f s"
proof -
  from assms(1) obtain evs where "fs_events s' = fs_events s @ evs" "list_all settings_event evs" by (auto simp: same_books_def)
  with sum_list_silent [of settings_event evs f, OF _ assms(2)] show ?thesis by (simp add: over_def)
qed

lemma same_books_ok:
  assumes "same_books s s'" and "books_ok s"
  shows "books_ok s'"
proof -
  note over = same_books_over [OF assms(1)]
  have "get_user_fees_accrued u s' = get_user_fees_accrued u s" for u
    using assms(1) by (simp add: same_books_def get_user_fees_accrued_def)
  moreover have "get_total_treasury_fees s' = get_total_treasury_fees s"
    using assms(1) by (simp add: same_books_def get_total_treasury_fees_def)
  moreover have "dust s' = dust s" unfolding dust_def
    using assms(1) over [of put_in_escrow] settings_event_silent(4) calculation(2) by (simp add: same_books_def)
  ultimately show ?thesis using assms
    by (simp add: books_ok_def over settings_event_silent same_books_def)
qed

text \<open>The calls that change settings only.\<close>

definition typed :: "env \<times> fees_call \<Rightarrow> bool" where
  "typed k \<longleftrightarrow> (case snd k of CMultipliers a l m h u \<Rightarrow> in_u32 u | _ \<Rightarrow> True)"

lemma fees_require_admin_ok: "require_admin s a = Inr u \<longleftrightarrow> fs_admin s = Some a"
  by (auto simp: require_admin_def require_initialized_def split: option.splits)

lemmas setting_defs = initialize_def set_percentage_def set_fee_delegate_def set_treasury_def set_rounding_mode_def
  set_user_fee_category_def create_fee_snapshot_def set_distribution_def set_fee_bounds_def set_priority_multipliers_def

lemma setting_call:
  assumes "local_exec e c s = Inr s'" and "fees_inv s" and "typed (e, c)"
    and "case c of CEscrow _ _ \<Rightarrow> False | CRelease _ _ \<Rightarrow> False | CRefund _ _ _ _ \<Rightarrow> False | CDistribute _ \<Rightarrow> False | _ \<Rightarrow> True"
  shows "same_books s s' \<and> settings_ok s'"
proof -
  have ok: "settings_ok s" and zero: "fs_admin s = None \<longrightarrow> get_total_collected s = 0"
    using assms(2) by (simp_all add: fees_inv_def books_ok_def)
  show ?thesis
    using assms(1,3,4) ok zero
    by (cases c)
      (auto simp: setting_defs same_books_def emit_def settings_ok_def get_percentage_def get_treasury_percentage_def
        get_min_fee_def get_max_fee_def get_priority_config_def get_total_collected_def typed_def is_valid_def fees_require_admin_ok
        Let_def dest!: fold_add_share split: if_splits sum.splits option.splits)
qed

text \<open>The calls that move what the books hold.\<close>

lemma escrow_inv:
  assumes "deduct_fee_to_escrow e p n s = Inr (x, s')" and inv: "fees_inv s"
  shows "fees_inv s'"
proof -
  from assms(1) obtain f where f: "calculate_fee n s = Inr f"
    and s': "s' = emit (FeeEscrowed p f (env_timestamp e)) (s\<lparr>fs_escrowed := (fs_escrowed s)(p \<mapsto> unwrap_or (fs_escrowed s p) 0 + f)\<rparr>)"
    by (auto simp: deduct_fee_to_escrow_def split: sum.splits option.splits if_splits)
  have b: "books_ok s" using inv by (simp add: fees_inv_def)
  then have fin: "finite (dom (fs_escrowed s))" by (simp add: books_ok_def)
  have "dust s' = dust s" using fin
    by (simp add: s' dust_def) (simp add: emit_def over_def get_total_collected_def get_total_treasury_fees_def total_over_update opt_weight_unwrap)
  moreover have "settings_ok s'"
    using inv by (simp add: s' emit_def fees_inv_def settings_ok_def get_percentage_def get_treasury_percentage_def get_min_fee_def
        get_max_fee_def get_priority_config_def)
  ultimately show ?thesis using b
    by (simp add: fees_inv_def books_ok_def s' over_def emit_def get_user_fees_accrued_def get_total_collected_def
        get_total_treasury_fees_def)
qed

lemma release_inv:
  assumes "release_escrow e a u s = Inr (x, s')" and inv: "fees_inv s"
  shows "fees_inv s'"
proof -
  from assms(1) obtain n where n: "fs_escrowed s u = Some n" and adm: "fs_admin s = Some a"
    and s': "s' = s\<lparr>fs_total := Some (get_total_collected s + n), fs_escrowed := (fs_escrowed s)(u := None)\<rparr>"
    by (auto simp: release_escrow_def fees_require_admin_ok get_total_collected_def split: sum.splits option.splits if_splits)
  have b: "books_ok s" using inv by (simp add: fees_inv_def)
  then have fin: "finite (dom (fs_escrowed s))" by (simp add: books_ok_def)
  have "dust s' = dust s" using fin n
    by (simp add: s' dust_def over_def get_total_collected_def get_total_treasury_fees_def total_over_delete)
  moreover have "settings_ok s'"
    using inv by (simp add: s' fees_inv_def settings_ok_def get_percentage_def get_treasury_percentage_def get_min_fee_def
        get_max_fee_def get_priority_config_def)
  ultimately show ?thesis using b adm
    by (simp add: fees_inv_def books_ok_def s' over_def get_user_fees_accrued_def get_total_treasury_fees_def)
qed

lemma refund_inv:
  assumes "refund_fee e a u n r s = Inr (x, s')" and inv: "fees_inv s"
  shows "fees_inv s'"
proof -
  from assms(1) have adm: "fs_admin s = Some a" and n: "0 < n" "n \<le> get_user_fees_accrued u s"
    and s': "s' = emit (FeeRefunded u n r (env_timestamp e))
      (s\<lparr>fs_total := Some (get_total_collected s - n), fs_user := (fs_user s)(u \<mapsto> get_user_fees_accrued u s - n)\<rparr>)"
    by (auto simp: refund_fee_def fees_require_admin_ok get_total_collected_def get_user_fees_accrued_def Let_def
        split: sum.splits option.splits if_splits)
  have b: "books_ok s" using inv by (simp add: fees_inv_def)
  then have fin: "finite (dom (fs_user s))" by (simp add: books_ok_def)
  have over: "over g s' = over g s + g (FeeRefunded u n r (env_timestamp e))" for g
    by (simp add: s' over_def emit_def)
  have user: "get_user_fees_accrued v s' = get_user_fees_accrued v s - (if v = u then n else 0)" for v
    by (simp add: s' get_user_fees_accrued_def emit_def)
  have acc: "get_user_fees_accrued v s = over (paid_by v) s - over (refunded_to v) s" "over (refunded_to v) s \<le> over (paid_by v) s" for v
    using b unfolding books_ok_def by blast+
  have "dust s' = dust s" using fin
    by (simp add: dust_def over)
      (simp add: s' emit_def get_user_fees_accrued_def get_total_collected_def get_total_treasury_fees_def total_over_update opt_weight_unwrap)
  moreover have "settings_ok s'"
    using inv by (simp add: s' emit_def fees_inv_def settings_ok_def get_percentage_def get_treasury_percentage_def get_min_fee_def
        get_max_fee_def get_priority_config_def)
  moreover have "get_total_treasury_fees s' = get_total_treasury_fees s" "fs_admin s' = Some a" "fs_category s' = fs_category s"
      "finite (dom (fs_user s'))" "fs_recipient s' = fs_recipient s" "fs_escrowed s' = fs_escrowed s"
    using fin adm by (simp_all add: s' emit_def get_total_treasury_fees_def)
  ultimately show ?thesis using b n acc unfolding fees_inv_def books_ok_def user over by simp
qed

lemma distribution_inv:
  assumes "distribute_fees e a s = Inr (d, s')" and inv: "fees_inv s"
  shows "fees_inv s'"
proof -
  have ok: "settings_ok s" and b: "books_ok s" using inv by (simp_all add: fees_inv_def)
  have fin: "finite (dom (fs_recipient s))" using b by (simp add: books_ok_def)
  from distribute_fees_Inr [OF assms(1) ok fin] show ?thesis
  proof
    assume "\<exists>m k. finite (dom m) \<and> total_over (\<lambda>x. x) m = total_over (\<lambda>x. x) (fs_recipient s) + d
      \<and> d \<le> get_total_collected s \<and> get_total_collected s \<le> d + int k
      \<and> s' = emit (FeesDistributed d k (env_timestamp e)) (s\<lparr>fs_recipient := m, fs_total := Some 0\<rparr>)"
    then obtain m k where m: "finite (dom m)" "total_over (\<lambda>x. x) m = total_over (\<lambda>x. x) (fs_recipient s) + d"
        "d \<le> get_total_collected s" "get_total_collected s \<le> d + int k"
      and s': "s' = emit (FeesDistributed d k (env_timestamp e)) (s\<lparr>fs_recipient := m, fs_total := Some 0\<rparr>)" by blast
    have over: "over g s' = over g s + g (FeesDistributed d k (env_timestamp e))" for g
      by (simp add: s' over_def emit_def)
    have dust: "dust s' = dust s + (get_total_collected s - d)" using m(2)
      by (simp add: dust_def over) (simp add: s' emit_def get_total_collected_def get_total_treasury_fees_def)
    have "settings_ok s'"
      using ok by (simp add: s' emit_def settings_ok_def get_percentage_def get_treasury_percentage_def get_min_fee_def
          get_max_fee_def get_priority_config_def)
    moreover have "books_ok s'"
      using b m unfolding books_ok_def dust over
      by (simp add: s' emit_def get_user_fees_accrued_def get_total_treasury_fees_def get_total_collected_def)
    ultimately show ?thesis by (simp add: fees_inv_def)
  qed (use inv in simp)
qed

lemma fees_step_inv:
  assumes run: "fees_exec credit k sw = Inr sw'" and inv: "fees_inv (fst sw)" and typed: "typed k"
  shows "fees_inv (fst sw')"
proof -
  obtain e c s w s' w' where eq: "k = (e, c)" "sw = (s, w)" "sw' = (s', w')" by (cases k; cases sw; cases sw')
  have inv: "fees_inv s" using inv by (simp add: eq)
  then have ok: "settings_ok s" by (simp add: fees_inv_def)
  from run [unfolded eq] ok have "fees_inv s'"
  proof (cases rule: fees_exec_cases)
    case (deduct p f ev)
    from book_fee_Inr [OF deduct(4) ok deduct(2)] obtain t where t: "0 \<le> t" "t \<le> f"
      and s': "if 0 < t
        then \<exists>a. fs_treasury s = Some a \<and> credit e a t w = Some w' \<and> s' = booked p f t [ev, FeesRoutedToTreasury t a (env_timestamp e)] s
        else w' = w \<and> s' = booked p f t [ev] s" by blast
    show ?thesis
    proof (cases "0 < t")
      case True
      with s' obtain a where s': "s' = booked p f t [ev, FeesRoutedToTreasury t a (env_timestamp e)] s" by auto
      show ?thesis unfolding s' by (rule booked_inv [OF inv deduct(1) t deduct(3), of _ a "env_timestamp e"]) (simp add: True)
    next
      case False
      with s' show ?thesis using booked_inv [OF inv deduct(1) t deduct(3), of "[ev]"] by simp
    qed
  next
    case local
    show ?thesis
    proof (cases "case c of CEscrow _ _ \<Rightarrow> False | CRelease _ _ \<Rightarrow> False | CRefund _ _ _ _ \<Rightarrow> False | CDistribute _ \<Rightarrow> False | _ \<Rightarrow> True")
      case True
      from setting_call [OF local(1) inv typed [unfolded eq] True] have "same_books s s'" "settings_ok s'" by simp_all
      moreover have "books_ok s" using inv by (simp add: fees_inv_def)
      ultimately show ?thesis by (simp add: fees_inv_def same_books_ok)
    next
      case False
      with local(1) inv show ?thesis
        by (cases c) (auto intro: escrow_inv release_inv refund_inv distribution_inv)
    qed
  qed
  then show ?thesis by (simp add: eq)
qed

interpretation fee_books: contract_invariant "fees_exec credit" "\<lambda>sw. fees_inv (fst sw)" typed for credit
  by unfold_locales (rule fees_step_inv)

section \<open>Properties\<close>

text \<open>C14: No fee is counted twice and none is lost but for rounding.  After any calls, whatever the treasury answers, the
  fees collected, the treasury's share, the books of the recipients and the fees in escrow come to what the users have
  accrued and put in escrow, less at most one unit for each recipient of each distribution.  Every user has accrued what
  the user paid less the refunds, and is never refunded more than was paid; the categories add up to the fees paid; the
  treasury total is what was routed.\<close>

theorem fees_conserved:
  assumes "fst (run (fees_exec credit) ks (fees_fresh, w)) = s" and "\<And>k. k \<in> set ks \<Longrightarrow> typed k"
    and "get_total_collected s + get_total_treasury_fees s + total_over (\<lambda>x. x) (fs_recipient s)
       + total_over (\<lambda>x. x) (fs_escrowed s) = held"
    and "total_over (\<lambda>x. x) (fs_user s) + over put_in_escrow s = owed"
  shows "held \<le> owed \<and> owed \<le> held + over recipients_in s
    \<and> get_user_fees_accrued u s = over (paid_by u) s - over (refunded_to u) s \<and> over (refunded_to u) s \<le> over (paid_by u) s
    \<and> total_over (\<lambda>x. x) (fs_category s) = over fee_of s
    \<and> get_total_treasury_fees s = over routed s"
proof -
  have "fees_inv (fst (run (fees_exec credit) ks (fees_fresh, w)))"
    by (rule fee_books.run_inv) (simp_all add: fees_inv_fresh assms(2))
  then have b: "books_ok s" using assms(1) by (simp add: fees_inv_def)
  then have "get_user_fees_accrued u s = over (paid_by u) s - over (refunded_to u) s" "over (refunded_to u) s \<le> over (paid_by u) s"
    unfolding books_ok_def by blast+
  with b assms(3,4) show ?thesis by (simp add: books_ok_def dust_def)
qed

text \<open>C31: Paying more never costs less.  After any calls, of two deductions under the same settings the one with the larger
  amount and the higher priority has the larger fee, or the same; both fees lie between the bounds.\<close>

theorem fees_priority_monotone:
  assumes "fst (run (fees_exec credit) ks (fees_fresh, w)) = s" and "\<And>k. k \<in> set ks \<Longrightarrow> typed k"
    and "calculate_fee_with_priority n p s = Inr f" and "calculate_fee_with_priority m q s = Inr g"
    and "n \<le> m" and "priority_level_to_u32 p \<le> priority_level_to_u32 q"
  shows "get_min_fee s \<le> f \<and> f \<le> g \<and> g \<le> get_max_fee s"
proof -
  have "fees_inv (fst (run (fees_exec credit) ks (fees_fresh, w)))"
    by (rule fee_books.run_inv) (simp_all add: fees_inv_fresh assms(2))
  then have ok: "settings_ok s" using assms(1) by (simp add: fees_inv_def)
  note f = calculate_fee_with_priority_Inr [OF assms(3) ok] and g = calculate_fee_with_priority_Inr [OF assms(4) ok]
  have "n * int (effective_pct p s) \<le> m * int (effective_pct q s)"
    using effective_pct_mono [OF ok assms(6)] assms(5) f by (intro mult_mono) auto
  then have "f \<le> g" using f g bound_fee_mono [OF ok rounded_mono] by simp
  moreover have "get_min_fee s \<le> bound_fee s x \<and> bound_fee s x \<le> get_max_fee s" for x
    using ok by (auto simp: settings_ok_def bound_fee_def)
  ultimately show ?thesis using f g by simp
qed

text \<open>Rounding is what its mode says.  Before the bounds, the fee differs from the exact share of the amount by at most
  half a unit (\<open>Round\<close>), or by less than one, never above it (\<open>Floor\<close>) or never below it (\<open>Ceiling\<close>).\<close>

theorem fees_rounding:
  assumes "calculate_fee n s = Inr f" and "n * int (get_percentage s) = exact_share"
  shows "\<exists>r. f = bound_fee s r \<and> (case load_rounding_mode s of
      Floor \<Rightarrow> exact_share - 10000 < 10000 * r \<and> 10000 * r \<le> exact_share
    | Round \<Rightarrow> exact_share - 5000 < 10000 * r \<and> 10000 * r \<le> exact_share + 5000
    | Ceiling \<Rightarrow> exact_share \<le> 10000 * r \<and> 10000 * r < exact_share + 10000)"
proof -
  let ?m = "load_rounding_mode s" and ?x = "exact_share + round_bias (load_rounding_mode s)"
  have f: "f = bound_fee s (rounded ?m exact_share)" using calculate_fee_Inr [OF assms(1)] assms(2) by simp
  define y where "y = ?x mod 10000"
  have "10000 * rounded ?m exact_share = ?x - y" "0 \<le> y" "y < 10000"
    by (simp_all add: y_def rounded_def minus_mod_eq_mult_div)
  then show ?thesis unfolding f
    by (intro exI [of _ "rounded ?m exact_share"] conjI refl) (cases ?m; simp)
qed

section \<open>Witnesses\<close>

definition demo_credit :: "int crediting" where
  "demo_credit e t n w = (if 0 < n then Some (w + n) else None)"

definition demo_fees :: "(env \<times> fees_call) list" where
  "demo_fees =
     [(signed_env [] 1 10 (Addr 9), CInitialize (Addr 1) 250),
      (signed_env [Addr 1] 1 11 (Addr 9), CTreasury (Addr 1) (Addr 8) 3000),
      (signed_env [Addr 1] 1 12 (Addr 9),
         CDistribution (Addr 1) [\<lparr>fr_address = Addr 4, fr_share_bps = 3333\<rparr>, \<lparr>fr_address = Addr 5, fr_share_bps = 6667\<rparr>]),
      (signed_env [Addr 2] 1 13 (Addr 9), CDeduct (Addr 2) 10001),
      (signed_env [Addr 3] 1 14 (Addr 9), CEscrow (Addr 3) 4000),
      (signed_env [Addr 1] 1 15 (Addr 9), CRelease (Addr 1) (Addr 3)),
      (signed_env [Addr 1] 1 16 (Addr 9), CDistribute (Addr 1)),
      (signed_env [Addr 1] 1 17 (Addr 9), CRefund (Addr 1) (Addr 2) 50 ''r'')]"

lemmas fees_eval = fees_fresh_def setting_defs deduct_fee_def deduct_fee_to_escrow_def release_escrow_def refund_fee_def
  distribute_fees_def distribute_step_def add_share_def calculate_fee_def calculate_fee_with_priority_def get_percentage_def
  load_rounding_mode_def bound_fee_def get_min_fee_def get_max_fee_def get_priority_config_def default_priority_config_def
  get_treasury_percentage_def
  book_fee_def calculate_treasury_portion_def book_shares_def book_user_def update_category_fees_def load_category_fees_def
  get_user_category_def route_to_treasury_def get_treasury_address_def require_initialized_def require_admin_def
  emit_def Let_def arith_defs

definition demo_final :: fees_state where
  "demo_final = fst (run (fees_exec demo_credit) demo_fees (fees_fresh, 0))"

lemma demo_fees_run: "run (fees_exec demo_credit) demo_fees (fees_fresh, 0) = (\<lparr>fs_admin = Some (Addr 1), fs_percentage = Some 250, fs_total = Some (- 50),
     fs_user = [Addr 2 \<mapsto> 200],
     fs_distribution = Some [\<lparr>fr_address = Addr 4, fr_share_bps = 3333\<rparr>, \<lparr>fr_address = Addr 5, fr_share_bps = 6667\<rparr>],
     fs_recipient = [Addr 4 \<mapsto> 91, Addr 5 \<mapsto> 183], fs_min = None, fs_max = None, fs_priority = None, fs_escrowed = Map.empty,
     fs_delegate = Map.empty, fs_treasury = Some (Addr 8), fs_treasury_total = Some 75, fs_treasury_percentage = Some 3000,
     fs_rounding = None, fs_category_of = Map.empty, fs_category = [Transaction \<mapsto> 250], fs_snapshot_metadata = None,
     fs_snapshot = Map.empty,
     fs_events = [TreasuryConfigured (Addr 1) (Addr 8) 3000 11, DistributionConfigured (Addr 1) 2 12,
       FeeDeducted (Addr 2) 10001 250 13, FeesRoutedToTreasury 75 (Addr 8) 13, FeeEscrowed (Addr 3) 100 14,
       FeesDistributed 274 2 16, FeeRefunded (Addr 2) 50 ''r'' 17]\<rparr>, 75)"
  unfolding demo_fees_def
  by ((rule run_Inr, simp add: fees_eval demo_credit_def)+, simp)

lemmas demo_final_eq = demo_final_def [unfolded demo_fees_run fst_conv]

lemma demo_fees_typed: "k \<in> set demo_fees \<Longrightarrow> typed k"
  by (auto simp: demo_fees_def typed_def)

theorem fees_conserved_witness:
  "get_user_fees_accrued (Addr 2) demo_final = 250 - 50 \<and> get_total_treasury_fees demo_final = 75
    \<and> get_total_collected demo_final = - 50"
  using fees_conserved [OF demo_final_def [symmetric] demo_fees_typed refl refl, of "Addr 2"]
  by (simp add: demo_final_eq over_def get_total_collected_def)

theorem fees_priority_monotone_witness:
  "calculate_fee_with_priority 1000 Low demo_final = Inr 20 \<and> calculate_fee_with_priority 2000 Urgent demo_final = Inr 100
    \<and> (20::int) \<le> 100"
proof -
  have "calculate_fee_with_priority 1000 Low demo_final = Inr 20" "calculate_fee_with_priority 2000 Urgent demo_final = Inr 100"
    by (simp_all add: demo_final_eq fees_eval as_u32_def)
  from fees_priority_monotone [OF demo_final_def [symmetric] demo_fees_typed this] this show ?thesis by simp
qed

theorem fees_rounding_witness: "\<exists>r. 25 = bound_fee demo_final r \<and> \<bar>10000 * r - 250500\<bar> \<le> 5000"
proof -
  have fee: "calculate_fee 1002 demo_final = Inr 25" by (simp add: demo_final_eq fees_eval)
  have "load_rounding_mode demo_final = Round" "1002 * int (get_percentage demo_final) = 250500"
    by (simp_all add: demo_final_eq load_rounding_mode_def get_percentage_def)
  with fees_rounding [OF fee, of 250500] show ?thesis by force
qed

end
