(* ===== verification/Fee_Routing.thy ===== *)
theory Fee_Routing
  imports Fees_Books
begin

text \<open>
  The fees contract (\<open>contracts/fees.rs\<close>, theories \<open>Fees\<close> and \<open>Fees_Books\<close>) calling the treasury
  (\<open>contracts/treasury\<close>, theory \<open>Treasury\<close>): what is routed arrives in the treasury's books, and what else may.
\<close>

section \<open>The treasury's side\<close>

lemma local_routes_nothing:
  assumes "local_exec e c s = Inr s'"
  shows "over (routed_to t) s' = over (routed_to t) s"
  using assms
  by (cases c) (auto simp: setting_defs deduct_fee_to_escrow_def release_escrow_def refund_fee_def distribute_fees_def over_def
      emit_def Let_def split: sum.splits option.splits if_splits)

lemma over_booked: "over g (booked p f t evs s) = over g s + sum_list (map g evs)"
  by (simp add: over_def booked_def)

context treasury_client
begin

text \<open>Every call of the fees contract raises the total of every treasury by what its events route there.\<close>

lemma call_routes:
  assumes run: "fees_exec credit k sw = Inr sw'" and inv: "fees_inv (fst sw)"
  shows "total_fees (snd sw') t = total_fees (snd sw) t + (over (routed_to t) (fst sw') - over (routed_to t) (fst sw))"
proof -
  obtain e c s w s' w' where eq: "k = (e, c)" "sw = (s, w)" "sw' = (s', w')" by (cases k; cases sw; cases sw')
  have ok: "settings_ok s" using inv by (simp add: eq fees_inv_def)
  from run [unfolded eq] ok have "total_fees w' t = total_fees w t + (over (routed_to t) s' - over (routed_to t) s)"
  proof (cases rule: fees_exec_cases)
    case (deduct p f ev)
    note ev = deduction_event [OF deduct(1)]
    from book_fee_Inr [OF deduct(4) ok deduct(2)] obtain n where
      n: "if 0 < n
        then \<exists>a. fs_treasury s = Some a \<and> credit e a n w = Some w' \<and> s' = booked p f n [ev, FeesRoutedToTreasury n a (env_timestamp e)] s
        else w' = w \<and> s' = booked p f n [ev] s" by blast
    show ?thesis
    proof (cases "0 < n")
      case True
      with n obtain a where "credit e a n w = Some w'" "s' = booked p f n [ev, FeesRoutedToTreasury n a (env_timestamp e)] s" by auto
      then show ?thesis using credit_total [of e a n w w' t] by (simp add: over_booked ev)
    next
      case False
      with n show ?thesis by (simp add: over_booked ev)
    qed
  next
    case local
    then show ?thesis using local_routes_nothing [OF local(1), of t] by simp
  qed
  then show ?thesis by (simp add: eq)
qed

end

text \<open>The fees contract and a world of treasuries that anybody may also call.\<close>

datatype routing_call = ToFees fees_call | ToTreasury address treasury_call

fun routing_exec :: "env \<times> routing_call \<Rightarrow> fees_state \<times> treasuries \<Rightarrow> fees_error trap + (fees_state \<times> treasuries)" where
  "routing_exec (e, ToFees c) sw = fees_exec credit_at (e, c) sw"
| "routing_exec (e, ToTreasury t c) sw = (case snd sw t of None \<Rightarrow> Inl CallTrap | Some x \<Rightarrow>
     case treasury_exec (e, c) x of Inl _ \<Rightarrow> Inl CallTrap | Inr x1 \<Rightarrow> Inr (fst sw, (snd sw)(t \<mapsto> x1)))"

definition well_typed :: "env \<times> routing_call \<Rightarrow> bool" where
  "well_typed k \<longleftrightarrow> (case snd k of ToFees c \<Rightarrow> typed (fst k, c) | ToTreasury t c \<Rightarrow> True)"

definition claims_fee :: "address \<Rightarrow> env \<times> routing_call \<Rightarrow> bool" where
  "claims_fee t k \<longleftrightarrow> (case snd k of ToTreasury t1 (CFee n) \<Rightarrow> t1 = t | _ \<Rightarrow> False)"

text \<open>An initialised treasury has booked at least what was routed to it, on top of \<open>n\<close>; \<open>exact\<close> says that it has
  booked nothing else.\<close>

definition treasury_ready :: "address \<Rightarrow> treasuries \<Rightarrow> bool" where
  "treasury_ready t w \<longleftrightarrow> (case w t of None \<Rightarrow> False | Some x \<Rightarrow> tr_admin x \<noteq> None)"

definition arrived :: "bool \<Rightarrow> address \<Rightarrow> int \<Rightarrow> fees_state \<times> treasuries \<Rightarrow> bool" where
  "arrived exact t n sw \<longleftrightarrow> fees_inv (fst sw) \<and> treasury_ready t (snd sw)
     \<and> n + over (routed_to t) (fst sw) \<le> total_fees_at (snd sw) t
     \<and> (exact \<longrightarrow> total_fees_at (snd sw) t = n + over (routed_to t) (fst sw))"

lemma credit_keeps_ready: "credit_at e a n w = Some w' \<Longrightarrow> treasury_ready t w' = treasury_ready t w"
  by (auto simp: credit_at_def credit_fee_def treasury_ready_def split: option.splits sum.splits if_splits)

lemma fees_keep_ready:
  assumes run: "fees_exec credit_at k sw = Inr sw'" and inv: "fees_inv (fst sw)"
  shows "treasury_ready t (snd sw') = treasury_ready t (snd sw)"
proof -
  obtain e c s w s' w' where eq: "k = (e, c)" "sw = (s, w)" "sw' = (s', w')" by (cases k; cases sw; cases sw')
  have ok: "settings_ok s" using inv by (simp add: eq fees_inv_def)
  from run [unfolded eq] ok have "treasury_ready t w' = treasury_ready t w"
  proof (cases rule: fees_exec_cases)
    case (deduct p f ev)
    from book_fee_Inr [OF deduct(4) ok deduct(2)] show ?thesis by (auto simp: credit_keeps_ready split: if_splits)
  qed simp
  then show ?thesis by (simp add: eq)
qed

lemma routing_step:
  assumes run: "routing_exec k sw = Inr sw'" and inv: "arrived exact t n sw" and typed: "well_typed k"
    and claims: "exact \<longrightarrow> \<not> claims_fee t k"
  shows "arrived exact t n sw'"
proof -
  obtain e c where k: "k = (e, c)" by (cases k)
  have inv': "fees_inv (fst sw)" using inv by (simp add: arrived_def)
  show ?thesis
  proof (cases c)
    case (ToFees d)
    with run k have run: "fees_exec credit_at (e, d) sw = Inr sw'" by simp
    have "fees_inv (fst sw')"
      by (rule fees_step_inv [OF run inv']) (use typed in \<open>simp add: k ToFees well_typed_def\<close>)
    then show ?thesis
      using inv treasuries.call_routes [OF run inv', of t] fees_keep_ready [OF run inv', of t] by (auto simp: arrived_def)
  next
    case (ToTreasury a d)
    with run k obtain x x1 where x: "snd sw a = Some x" "treasury_exec (e, d) x = Inr x1" "sw' = (fst sw, (snd sw)(a \<mapsto> x1))"
      by (auto split: option.splits sum.splits)
    show ?thesis
    proof (cases "a = t")
      case True
      with inv x have adm: "tr_admin x \<noteq> None" by (simp add: arrived_def treasury_ready_def)
      have same: "exact \<longrightarrow> get_total_fees x1 = get_total_fees x"
        using claims x(2) adm True
        by (cases d) (auto simp: k ToTreasury claims_fee_def Treasury.initialize_def credit_penalty_def credit_reward_def
            get_total_fees_def split: if_splits option.splits)
      from treasury_fees_grow [OF x(2) adm] same inv True x show ?thesis
        by (auto simp: arrived_def treasury_ready_def total_fees_at_def)
    next
      case False
      with inv x show ?thesis by (simp add: arrived_def treasury_ready_def total_fees_at_def)
    qed
  qed
qed

interpretation routing: contract_invariant routing_exec "arrived exact t n" "\<lambda>k. well_typed k \<and> (exact \<longrightarrow> \<not> claims_fee t k)" for exact t n
  by unfold_locales (use routing_step in blast)

section \<open>Properties\<close>

text \<open>C15: What is routed arrives.  Whatever is called on the fees contract and on the treasuries, an initialised treasury has
  booked every fee that the fees contract says it routed there.  It has booked nothing else unless somebody calls its
  \<open>credit_fee\<close> directly, which anybody may.\<close>

theorem fees_reach_treasury:
  assumes "run routing_exec ks (fees_fresh, w) = (s, w')" and "\<And>k. k \<in> set ks \<Longrightarrow> well_typed k"
    and "treasury_ready t w"
  shows "total_fees_at w t + over (routed_to t) s \<le> total_fees_at w' t
    \<and> (list_all (\<lambda>k. \<not> claims_fee t k) ks \<longrightarrow> total_fees_at w' t = total_fees_at w t + over (routed_to t) s)"
proof -
  have start: "arrived exact t (total_fees_at w t) (fees_fresh, w)" for exact
    using assms(3) by (simp add: arrived_def fees_inv_fresh) (simp add: over_def fees_fresh_def)
  have "arrived False t (total_fees_at w t) (s, w')"
    using routing.run_inv [OF start, of ks False] assms(1,2) by simp
  moreover have "arrived True t (total_fees_at w t) (s, w')" if "list_all (\<lambda>k. \<not> claims_fee t k) ks"
    using routing.run_inv [OF start, of ks True] assms(1,2) that by (simp add: list_all_iff)
  ultimately show ?thesis by (auto simp: arrived_def)
qed

text \<open>One deduction routed, and one claim by a stranger.\<close>

definition demo_routing :: "(env \<times> routing_call) list" where
  "demo_routing =
     [(signed_env [] 1 10 (Addr 9), ToFees (Fees.CInitialize (Addr 1) 250)),
      (signed_env [Addr 1] 1 11 (Addr 9), ToFees (CTreasury (Addr 1) (Addr 8) 3000)),
      (signed_env [Addr 2] 1 13 (Addr 9), ToFees (CDeduct (Addr 2) 10001)),
      (signed_env [Addr 7] 1 14 (Addr 9), ToTreasury (Addr 8) (CPenalty 5))]"

definition demo_world :: treasuries where
  "demo_world = [Addr 8 \<mapsto> treasury_fresh\<lparr>tr_admin := Some (Addr 1), tr_fees := Some 0\<rparr>]"

lemma demo_routing_run: "over (routed_to (Addr 8)) (fst (run routing_exec demo_routing (fees_fresh, demo_world))) = 75"
  by (simp add: demo_routing_def fees_eval demo_world_def treasury_fresh_def credit_at_def credit_fee_def credit_penalty_def
      over_def)

theorem fees_reach_treasury_witness:
  "total_fees_at (snd (run routing_exec demo_routing (fees_fresh, demo_world))) (Addr 8) = 75"
proof -
  have typed: "k \<in> set demo_routing \<Longrightarrow> well_typed k" for k by (auto simp: demo_routing_def well_typed_def typed_def)
  have "treasury_ready (Addr 8) demo_world" "total_fees_at demo_world (Addr 8) = 0"
    by (simp_all add: demo_world_def treasury_ready_def total_fees_at_def get_total_fees_def)
  moreover have "list_all (\<lambda>k. \<not> claims_fee (Addr 8) k) demo_routing" by (simp add: demo_routing_def claims_fee_def)
  moreover obtain s w' where run: "run routing_exec demo_routing (fees_fresh, demo_world) = (s, w')" by (cases "run routing_exec demo_routing (fees_fresh, demo_world)")
  ultimately show ?thesis using fees_reach_treasury [OF run typed, of "Addr 8"] demo_routing_run by simp
qed

end
