(* ===== verification/Upgrade_V1.thy ===== *)
theory Upgrade_V1
  imports Host
begin

text \<open>
  \<open>contracts/contract-upgrade/old_contract\<close>: a contract whose code is replaced by a proposal that enough signers have
  approved and that has waited for a delay.

  The operations are stated over \<open>'m upgrade_state_scheme\<close>: the second version of the contract (\<open>Upgrade_V2\<close>) extends the
  storage by one key and keeps what is there.  A code hash is the number its 32 bytes encode.  Which code is installed
  is the host's record \<open>up_wasm\<close>; replacing it traps unless the new code has been uploaded, which the
  parameter \<open>uploaded\<close> says.
\<close>

section \<open>Data\<close>

definition DEFAULT_TIMELOCK_DELAY :: nat where "DEFAULT_TIMELOCK_DELAY = 48 * 60 * 60"

record pending_upgrade =
  pu_wasm_hash :: nat
  pu_new_version :: nat
  pu_proposer :: address
  pu_scheduled_at :: nat
  pu_execute_at :: nat
  pu_approvals :: "address list"

datatype upgrade_error =
    NotAuthorized | InvalidVersion | InvalidThreshold | DuplicateSigner | NoPendingUpgrade | PendingUpgradeExists
  | AlreadyApproved | ThresholdNotMet | TimelockNotElapsed | AdminMissing | EmptySigners

datatype upgrade_event =
    UpgCfg nat nat
  | UpgTl nat
  | UpgSched address nat nat nat
  | UpgApprv address nat nat
  | UpgCncl address
  | Upgrade nat nat nat

record upgrade_state =
  up_admin :: "address option"
  up_version :: "nat option"
  up_signers :: "address list option"
  up_threshold :: "nat option"
  up_timelock_delay :: "nat option"
  up_pending :: "pending_upgrade option"
  up_wasm :: nat
  up_events :: "upgrade_event list"

type_synonym ('m, 'a) upgrade_outcome = "('m upgrade_state_scheme, upgrade_error, 'a) outcome"

definition emit :: "upgrade_event \<Rightarrow> 'm upgrade_state_scheme \<Rightarrow> 'm upgrade_state_scheme" where
  "emit ev s = s\<lparr>up_events := up_events s @ [ev]\<rparr>"

text \<open>\<open>__constructor\<close> runs once, on empty storage, when the code \<open>wasm\<close> is deployed.\<close>

definition constructor :: "nat \<Rightarrow> address \<Rightarrow> upgrade_state" where
  "constructor wasm admin =
     \<lparr>up_admin = Some admin, up_version = Some 1, up_signers = Some [admin], up_threshold = Some 1,
      up_timelock_delay = Some DEFAULT_TIMELOCK_DELAY, up_pending = None, up_wasm = wasm, up_events = []\<rparr>"

section \<open>Queries and checks\<close>

definition version :: "'m upgrade_state_scheme \<Rightarrow> nat" where
  "version s = unwrap_or (up_version s) 0"

definition get_signers :: "'m upgrade_state_scheme \<Rightarrow> address list" where
  "get_signers s = unwrap_or (up_signers s) []"

definition get_threshold :: "'m upgrade_state_scheme \<Rightarrow> nat" where
  "get_threshold s = unwrap_or (up_threshold s) 0"

definition get_timelock_delay :: "'m upgrade_state_scheme \<Rightarrow> nat" where
  "get_timelock_delay s = unwrap_or (up_timelock_delay s) 0"

definition upgrade_approval_count :: "'m upgrade_state_scheme \<Rightarrow> nat" where
  "upgrade_approval_count s = (case up_pending s of Some p \<Rightarrow> length (pu_approvals p) | None \<Rightarrow> 0)"

definition is_upgrade_ready :: "env \<Rightarrow> 'm upgrade_state_scheme \<Rightarrow> bool" where
  "is_upgrade_ready e s = (case up_pending s of
     Some p \<Rightarrow> get_threshold s \<le> length (pu_approvals p) \<and> pu_execute_at p \<le> env_timestamp e | None \<Rightarrow> False)"

definition get_admin :: "'m upgrade_state_scheme \<Rightarrow> upgrade_error trap + address" where
  "get_admin s = (case up_admin s of None \<Rightarrow> Inl (ContractError AdminMissing) | Some a \<Rightarrow> Inr a)"

definition require_admin :: "env \<Rightarrow> 'm upgrade_state_scheme \<Rightarrow> upgrade_error trap + unit" where
  "require_admin e s =
    (case get_admin s of Inl t \<Rightarrow> Inl t | Inr admin \<Rightarrow> if env_auth e admin then Inr () else Inl AuthTrap)"

definition is_signer :: "'m upgrade_state_scheme \<Rightarrow> address \<Rightarrow> bool" where
  "is_signer s who = list_ex (\<lambda>a. a = who) (get_signers s)"

definition require_signer :: "'m upgrade_state_scheme \<Rightarrow> address \<Rightarrow> upgrade_error trap + unit" where
  "require_signer s who = (if is_signer s who then Inr () else Inl (ContractError NotAuthorized))"

fun has_duplicate :: "address list \<Rightarrow> bool" where
  "has_duplicate [] = False"
| "has_duplicate (a # rest) = (list_ex (\<lambda>b. a = b) rest \<or> has_duplicate rest)"

definition validate_signer_config :: "address list \<Rightarrow> nat \<Rightarrow> upgrade_error trap + unit" where
  "validate_signer_config signers threshold =
    (if length signers = 0 then Inl (ContractError EmptySigners) else
     if threshold = 0 \<or> length signers < threshold then Inl (ContractError InvalidThreshold) else
     if has_duplicate signers then Inl (ContractError DuplicateSigner) else Inr ())"

section \<open>Configuration\<close>

definition set_upgrade_signers :: "env \<Rightarrow> address list \<Rightarrow> nat \<Rightarrow> 'm upgrade_state_scheme \<Rightarrow> ('m, unit) upgrade_outcome" where
  "set_upgrade_signers e signers threshold s =
    (case require_admin e s of Inl t \<Rightarrow> Inl t | Inr _ \<Rightarrow>
     case validate_signer_config signers threshold of Inl t \<Rightarrow> Inl t | Inr _ \<Rightarrow>
     Inr ((), emit (UpgCfg (length signers) threshold) (s\<lparr>up_signers := Some signers, up_threshold := Some threshold\<rparr>)))"

definition set_timelock_delay :: "env \<Rightarrow> nat \<Rightarrow> 'm upgrade_state_scheme \<Rightarrow> ('m, unit) upgrade_outcome" where
  "set_timelock_delay e delay s =
    (case require_admin e s of Inl t \<Rightarrow> Inl t | Inr _ \<Rightarrow>
     Inr ((), emit (UpgTl delay) (s\<lparr>up_timelock_delay := Some delay\<rparr>)))"

section \<open>The life cycle of a proposal\<close>

definition new_proposal :: "env \<Rightarrow> address \<Rightarrow> nat \<Rightarrow> nat \<Rightarrow> nat \<Rightarrow> pending_upgrade" where
  "new_proposal e signer new_wasm_hash new_version delay =
     \<lparr>pu_wasm_hash = new_wasm_hash, pu_new_version = new_version, pu_proposer = signer, pu_scheduled_at = env_timestamp e,
      pu_execute_at = u64_saturating_add (env_timestamp e) delay, pu_approvals = [signer]\<rparr>"

definition schedule_upgrade :: "env \<Rightarrow> address \<Rightarrow> nat \<Rightarrow> nat \<Rightarrow> 'm upgrade_state_scheme \<Rightarrow> ('m, unit) upgrade_outcome" where
  "schedule_upgrade e signer new_wasm_hash new_version s =
    (if \<not> env_auth e signer then Inl AuthTrap else
     case require_signer s signer of Inl t \<Rightarrow> Inl t | Inr _ \<Rightarrow>
     if up_pending s \<noteq> None then Inl (ContractError PendingUpgradeExists) else
     if new_version \<le> version s then Inl (ContractError InvalidVersion) else
     if up_admin s = None then Inl (ContractError AdminMissing) else
     let p = new_proposal e signer new_wasm_hash new_version (get_timelock_delay s) in
     Inr ((), emit (UpgSched signer new_wasm_hash new_version (pu_execute_at p)) (s\<lparr>up_pending := Some p\<rparr>)))"

definition approve_upgrade :: "env \<Rightarrow> address \<Rightarrow> 'm upgrade_state_scheme \<Rightarrow> ('m, unit) upgrade_outcome" where
  "approve_upgrade e signer s =
    (if \<not> env_auth e signer then Inl AuthTrap else
     case require_signer s signer of Inl t \<Rightarrow> Inl t | Inr _ \<Rightarrow>
     case up_pending s of None \<Rightarrow> Inl (ContractError NoPendingUpgrade) | Some p \<Rightarrow>
     if list_ex (\<lambda>a. a = signer) (pu_approvals p) then Inl (ContractError AlreadyApproved) else
     let p1 = p\<lparr>pu_approvals := pu_approvals p @ [signer]\<rparr> in
     Inr ((), emit (UpgApprv signer (length (pu_approvals p1)) (get_threshold s)) (s\<lparr>up_pending := Some p1\<rparr>)))"

definition cancel_upgrade :: "env \<Rightarrow> address \<Rightarrow> 'm upgrade_state_scheme \<Rightarrow> ('m, unit) upgrade_outcome" where
  "cancel_upgrade e signer s =
    (if \<not> env_auth e signer then Inl AuthTrap else
     case (if is_signer s signer then Inr () else
           case get_admin s of Inl t \<Rightarrow> Inl t | Inr admin \<Rightarrow>
           if signer \<noteq> admin then Inl (ContractError NotAuthorized) else Inr ()) of Inl t \<Rightarrow> Inl t | Inr _ \<Rightarrow>
     if up_pending s = None then Inl (ContractError NoPendingUpgrade) else
     Inr ((), emit (UpgCncl signer) (s\<lparr>up_pending := None\<rparr>)))"

text \<open>\<open>update_current_contract_wasm\<close> of the host.\<close>

definition install :: "(nat \<Rightarrow> bool) \<Rightarrow> nat \<Rightarrow> 'm upgrade_state_scheme \<Rightarrow> upgrade_error trap + 'm upgrade_state_scheme" where
  "install uploaded wasm s = (if uploaded wasm then Inr (s\<lparr>up_wasm := wasm\<rparr>) else Inl CallTrap)"

definition execute_upgrade :: "(nat \<Rightarrow> bool) \<Rightarrow> env \<Rightarrow> address \<Rightarrow> 'm upgrade_state_scheme \<Rightarrow> ('m, unit) upgrade_outcome" where
  "execute_upgrade uploaded e executor s =
    (if \<not> env_auth e executor then Inl AuthTrap else
     case require_signer s executor of Inl t \<Rightarrow> Inl t | Inr _ \<Rightarrow>
     case up_pending s of None \<Rightarrow> Inl (ContractError NoPendingUpgrade) | Some p \<Rightarrow>
     if length (pu_approvals p) < get_threshold s then Inl (ContractError ThresholdNotMet) else
     if env_timestamp e < pu_execute_at p then Inl (ContractError TimelockNotElapsed) else
     if pu_new_version p \<le> version s then Inl (ContractError InvalidVersion) else
     if up_admin s = None then Inl (ContractError AdminMissing) else
     case install uploaded (pu_wasm_hash p) (s\<lparr>up_version := Some (pu_new_version p)\<rparr>) of Inl t \<Rightarrow> Inl t | Inr s1 \<Rightarrow>
     Inr ((), emit (Upgrade (version s) (pu_new_version p) (pu_wasm_hash p)) (s1\<lparr>up_pending := None\<rparr>)))"

section \<open>What the checks say\<close>

lemma has_duplicate_iff [simp]: "has_duplicate xs \<longleftrightarrow> \<not> distinct xs"
  by (induction xs) (auto simp: list_ex_iff)

lemma is_signer_iff [simp]: "is_signer s a \<longleftrightarrow> a \<in> set (get_signers s)"
  by (auto simp: is_signer_def list_ex_iff)

lemma require_signer_Inr [simp]: "require_signer s a = Inr u \<longleftrightarrow> a \<in> set (get_signers s)"
  by (simp add: require_signer_def)

lemma upgrade_require_admin_Inr [simp]: "require_admin e s = Inr u \<longleftrightarrow> (\<exists>a. up_admin s = Some a \<and> env_auth e a)"
  by (auto simp: require_admin_def get_admin_def split: option.splits)

lemma validate_signer_config_Inr [simp]:
  "validate_signer_config signers n = Inr u \<longleftrightarrow> distinct signers \<and> 1 \<le> n \<and> n \<le> length signers"
  by (auto simp: validate_signer_config_def)

lemma upgrade_emit_fields [simp]:
  "up_admin (emit ev s) = up_admin s" "up_version (emit ev s) = up_version s" "up_signers (emit ev s) = up_signers s"
  "up_threshold (emit ev s) = up_threshold s" "up_timelock_delay (emit ev s) = up_timelock_delay s"
  "up_pending (emit ev s) = up_pending s" "up_wasm (emit ev s) = up_wasm s" "up_events (emit ev s) = up_events s @ [ev]"
  "more (emit ev s) = more s"
  by (simp_all add: emit_def)

text \<open>When each operation succeeds and what it leaves.\<close>

lemma set_upgrade_signers_Inr:
  "set_upgrade_signers e signers n s = Inr (u, s') \<longleftrightarrow>
     (\<exists>a. up_admin s = Some a \<and> env_auth e a) \<and> distinct signers \<and> 1 \<le> n \<and> n \<le> length signers
     \<and> s' = emit (UpgCfg (length signers) n) (s\<lparr>up_signers := Some signers, up_threshold := Some n\<rparr>)"
  by (auto simp: set_upgrade_signers_def require_admin_def get_admin_def validate_signer_config_def split: option.splits)

lemma set_timelock_delay_Inr:
  "set_timelock_delay e d s = Inr (u, s') \<longleftrightarrow>
     (\<exists>a. up_admin s = Some a \<and> env_auth e a) \<and> s' = emit (UpgTl d) (s\<lparr>up_timelock_delay := Some d\<rparr>)"
  by (auto simp: set_timelock_delay_def require_admin_def get_admin_def split: option.splits)

lemma schedule_upgrade_Inr:
  "schedule_upgrade e a h v s = Inr (u, s') \<longleftrightarrow>
     env_auth e a \<and> a \<in> set (get_signers s) \<and> up_pending s = None \<and> version s < v \<and> up_admin s \<noteq> None
     \<and> s' = emit (UpgSched a h v (u64_saturating_add (env_timestamp e) (get_timelock_delay s)))
         (s\<lparr>up_pending := Some (new_proposal e a h v (get_timelock_delay s))\<rparr>)"
  by (auto simp: schedule_upgrade_def require_signer_def Let_def new_proposal_def)

lemma approve_upgrade_Inr:
  "approve_upgrade e a s = Inr (u, s') \<longleftrightarrow>
     env_auth e a \<and> a \<in> set (get_signers s) \<and> (\<exists>p. up_pending s = Some p \<and> a \<notin> set (pu_approvals p)
     \<and> s' = emit (UpgApprv a (Suc (length (pu_approvals p))) (get_threshold s))
         (s\<lparr>up_pending := Some (p\<lparr>pu_approvals := pu_approvals p @ [a]\<rparr>)\<rparr>))"
  by (auto simp: approve_upgrade_def require_signer_def Let_def list_ex_iff split: option.splits)

lemma cancel_upgrade_Inr:
  "cancel_upgrade e a s = Inr (u, s') \<longleftrightarrow>
     env_auth e a \<and> (a \<in> set (get_signers s) \<or> up_admin s = Some a) \<and> up_pending s \<noteq> None
     \<and> s' = emit (UpgCncl a) (s\<lparr>up_pending := None\<rparr>)"
  by (auto simp: cancel_upgrade_def get_admin_def split: option.splits if_splits)

lemma execute_upgrade_Inr:
  "execute_upgrade uploaded e a s = Inr (u, s') \<longleftrightarrow>
     env_auth e a \<and> a \<in> set (get_signers s) \<and> up_admin s \<noteq> None \<and> (\<exists>p. up_pending s = Some p
     \<and> get_threshold s \<le> length (pu_approvals p) \<and> pu_execute_at p \<le> env_timestamp e \<and> version s < pu_new_version p
     \<and> uploaded (pu_wasm_hash p)
     \<and> s' = emit (Upgrade (version s) (pu_new_version p) (pu_wasm_hash p))
         (s\<lparr>up_version := Some (pu_new_version p), up_wasm := pu_wasm_hash p, up_pending := None\<rparr>))"
  by (auto simp: execute_upgrade_def require_signer_def install_def split: option.splits if_splits)

lemmas upgrade_v1_Inr = set_upgrade_signers_Inr set_timelock_delay_Inr schedule_upgrade_Inr approve_upgrade_Inr
  cancel_upgrade_Inr execute_upgrade_Inr

end
