(* ===== verification/Upgrade_V2.thy ===== *)
theory Upgrade_V2
  imports Upgrade_V1
begin

text \<open>
  \<open>contracts/contract-upgrade/new_contract\<close>, the second version of the upgradeable contract, and the life of a contract
  across its upgrades.

  The new code adds a storage key, here a field that extends the record of \<open>Upgrade_V1\<close>, and \<open>handle_upgrade\<close>, which
  fills it.  What it repeats word for word of the old code (the queries on signers, threshold, delay and proposal, the
  checks of a signer and of a configuration, \<open>approve_upgrade\<close>) is not defined again.

  \<open>lifecycle_exec\<close> runs each call with the code that is installed when it is made: \<open>programs\<close> says which hash is which
  of the two programs.  A call to any other code traps, so a history is followed for as long as the contract runs one of
  the two.
\<close>

record upgrade_state_v2 = upgrade_state +
  up_new_admin :: "address option"

type_synonym 'a upgrade_v2_outcome = "(upgrade_state_v2, upgrade_error, 'a) outcome"

section \<open>The new code\<close>

definition constructor :: "nat \<Rightarrow> address \<Rightarrow> upgrade_state_v2" where
  "constructor wasm admin =
     \<lparr>up_admin = Some admin, up_version = Some 2, up_signers = Some [admin], up_threshold = Some 1,
      up_timelock_delay = Some DEFAULT_TIMELOCK_DELAY, up_pending = None, up_wasm = wasm, up_events = [],
      up_new_admin = Some admin\<rparr>"

definition handle_upgrade :: "env \<Rightarrow> upgrade_state_v2 \<Rightarrow> unit upgrade_v2_outcome" where
  "handle_upgrade e s =
    (case up_admin s of None \<Rightarrow> Inl (ContractError AdminMissing) | Some admin \<Rightarrow>
     if \<not> env_auth e admin then Inl AuthTrap else
     let s1 = (if up_new_admin s = None then s\<lparr>up_new_admin := Some admin\<rparr> else s);
         s2 = (if up_signers s1 = None then s1\<lparr>up_signers := Some [admin], up_threshold := Some 1\<rparr> else s1);
         s3 = (if up_timelock_delay s2 = None then s2\<lparr>up_timelock_delay := Some DEFAULT_TIMELOCK_DELAY\<rparr> else s2) in
     Inr ((), s3\<lparr>up_version := Some 2\<rparr>))"

definition version :: "upgrade_state_v2 \<Rightarrow> nat" where
  "version s = unwrap_or (up_version s) 2"

definition get_admin :: "upgrade_state_v2 \<Rightarrow> upgrade_error trap + address" where
  "get_admin s = (case up_new_admin s of Some a \<Rightarrow> Inr a | None \<Rightarrow>
     case up_admin s of None \<Rightarrow> Inl (ContractError AdminMissing) | Some a \<Rightarrow> Inr a)"

definition require_admin :: "env \<Rightarrow> upgrade_state_v2 \<Rightarrow> upgrade_error trap + unit" where
  "require_admin e s =
    (case get_admin s of Inl t \<Rightarrow> Inl t | Inr admin \<Rightarrow> if env_auth e admin then Inr () else Inl AuthTrap)"

definition set_upgrade_signers :: "env \<Rightarrow> address list \<Rightarrow> nat \<Rightarrow> upgrade_state_v2 \<Rightarrow> unit upgrade_v2_outcome" where
  "set_upgrade_signers e signers threshold s =
    (case require_admin e s of Inl t \<Rightarrow> Inl t | Inr _ \<Rightarrow>
     case validate_signer_config signers threshold of Inl t \<Rightarrow> Inl t | Inr _ \<Rightarrow>
     Inr ((), emit (UpgCfg (length signers) threshold) (s\<lparr>up_signers := Some signers, up_threshold := Some threshold\<rparr>)))"

definition set_timelock_delay :: "env \<Rightarrow> nat \<Rightarrow> upgrade_state_v2 \<Rightarrow> unit upgrade_v2_outcome" where
  "set_timelock_delay e delay s =
    (case require_admin e s of Inl t \<Rightarrow> Inl t | Inr _ \<Rightarrow>
     Inr ((), emit (UpgTl delay) (s\<lparr>up_timelock_delay := Some delay\<rparr>)))"

definition schedule_upgrade :: "env \<Rightarrow> address \<Rightarrow> nat \<Rightarrow> nat \<Rightarrow> upgrade_state_v2 \<Rightarrow> unit upgrade_v2_outcome" where
  "schedule_upgrade e signer new_wasm_hash new_version s =
    (if \<not> env_auth e signer then Inl AuthTrap else
     case require_signer s signer of Inl t \<Rightarrow> Inl t | Inr _ \<Rightarrow>
     if up_pending s \<noteq> None then Inl (ContractError PendingUpgradeExists) else
     if new_version \<le> version s then Inl (ContractError InvalidVersion) else
     if up_admin s = None then Inl (ContractError AdminMissing) else
     if up_new_admin s = None then Inl (ContractError AdminMissing) else
     let p = new_proposal e signer new_wasm_hash new_version (get_timelock_delay s) in
     Inr ((), emit (UpgSched signer new_wasm_hash new_version (pu_execute_at p)) (s\<lparr>up_pending := Some p\<rparr>)))"

definition cancel_upgrade :: "env \<Rightarrow> address \<Rightarrow> upgrade_state_v2 \<Rightarrow> unit upgrade_v2_outcome" where
  "cancel_upgrade e signer s =
    (if \<not> env_auth e signer then Inl AuthTrap else
     case (if is_signer s signer then Inr () else
           case get_admin s of Inl t \<Rightarrow> Inl t | Inr admin \<Rightarrow>
           if signer \<noteq> admin then Inl (ContractError NotAuthorized) else Inr ()) of Inl t \<Rightarrow> Inl t | Inr _ \<Rightarrow>
     if up_pending s = None then Inl (ContractError NoPendingUpgrade) else
     Inr ((), emit (UpgCncl signer) (s\<lparr>up_pending := None\<rparr>)))"

definition execute_upgrade :: "(nat \<Rightarrow> bool) \<Rightarrow> env \<Rightarrow> address \<Rightarrow> upgrade_state_v2 \<Rightarrow> unit upgrade_v2_outcome" where
  "execute_upgrade uploaded e executor s =
    (if \<not> env_auth e executor then Inl AuthTrap else
     case require_signer s executor of Inl t \<Rightarrow> Inl t | Inr _ \<Rightarrow>
     case up_pending s of None \<Rightarrow> Inl (ContractError NoPendingUpgrade) | Some p \<Rightarrow>
     if length (pu_approvals p) < get_threshold s then Inl (ContractError ThresholdNotMet) else
     if env_timestamp e < pu_execute_at p then Inl (ContractError TimelockNotElapsed) else
     if pu_new_version p \<le> version s then Inl (ContractError InvalidVersion) else
     if up_admin s = None then Inl (ContractError AdminMissing) else
     if up_new_admin s = None then Inl (ContractError AdminMissing) else
     case install uploaded (pu_wasm_hash p) (s\<lparr>up_version := Some (pu_new_version p)\<rparr>) of Inl t \<Rightarrow> Inl t | Inr s1 \<Rightarrow>
     Inr ((), emit (Upgrade (version s) (pu_new_version p) (pu_wasm_hash p)) (s1\<lparr>up_pending := None\<rparr>)))"

section \<open>A contract across its upgrades\<close>

datatype upgrade_call =
    CSetSigners "address list" nat
  | CSetDelay nat
  | CSchedule address nat nat
  | CApprove address
  | CCancel address
  | CExecute address
  | CHandleUpgrade

fun v1_exec :: "(nat \<Rightarrow> bool) \<Rightarrow> env \<times> upgrade_call \<Rightarrow> 'm upgrade_state_scheme \<Rightarrow> upgrade_error trap + 'm upgrade_state_scheme" where
  "v1_exec uploaded (e, CSetSigners signers n) s = final (Upgrade_V1.set_upgrade_signers e signers n s)"
| "v1_exec uploaded (e, CSetDelay d) s = final (Upgrade_V1.set_timelock_delay e d s)"
| "v1_exec uploaded (e, CSchedule a h v) s = final (Upgrade_V1.schedule_upgrade e a h v s)"
| "v1_exec uploaded (e, CApprove a) s = final (approve_upgrade e a s)"
| "v1_exec uploaded (e, CCancel a) s = final (Upgrade_V1.cancel_upgrade e a s)"
| "v1_exec uploaded (e, CExecute a) s = final (Upgrade_V1.execute_upgrade uploaded e a s)"
| "v1_exec uploaded (e, CHandleUpgrade) s = Inl CallTrap"

fun v2_exec :: "(nat \<Rightarrow> bool) \<Rightarrow> env \<times> upgrade_call \<Rightarrow> upgrade_state_v2 \<Rightarrow> upgrade_error trap + upgrade_state_v2" where
  "v2_exec uploaded (e, CSetSigners signers n) s = final (set_upgrade_signers e signers n s)"
| "v2_exec uploaded (e, CSetDelay d) s = final (set_timelock_delay e d s)"
| "v2_exec uploaded (e, CSchedule a h v) s = final (schedule_upgrade e a h v s)"
| "v2_exec uploaded (e, CApprove a) s = final (approve_upgrade e a s)"
| "v2_exec uploaded (e, CCancel a) s = final (cancel_upgrade e a s)"
| "v2_exec uploaded (e, CExecute a) s = final (execute_upgrade uploaded e a s)"
| "v2_exec uploaded (e, CHandleUpgrade) s = final (handle_upgrade e s)"

datatype program = Old | New

definition lifecycle_exec :: "(nat \<rightharpoonup> program) \<Rightarrow> (nat \<Rightarrow> bool) \<Rightarrow> env \<times> upgrade_call \<Rightarrow> upgrade_state_v2
    \<Rightarrow> upgrade_error trap + upgrade_state_v2" where
  "lifecycle_exec programs uploaded k s = (case programs (up_wasm s) of None \<Rightarrow> Inl CallTrap
     | Some Old \<Rightarrow> v1_exec uploaded k s | Some New \<Rightarrow> v2_exec uploaded k s)"

text \<open>A contract deployed with the old code: the new key is absent.\<close>

definition deployed_v1 :: "nat \<Rightarrow> address \<Rightarrow> upgrade_state_v2" where
  "deployed_v1 wasm admin = upgrade_state.extend (Upgrade_V1.constructor wasm admin) \<lparr>up_new_admin = None\<rparr>"

section \<open>The new code repeats the old\<close>

lemma new_admin_same [simp]:
  "up_new_admin (emit ev s) = up_new_admin s"
  by (simp add: emit_def)

text \<open>Once the new admin is the admin, the entry points of the two files agree.\<close>

lemma upgrade_v2_agrees:
  assumes "up_new_admin s = up_admin s" and "up_admin s \<noteq> None" and "up_version s \<noteq> None" and "c \<noteq> CHandleUpgrade"
  shows "v2_exec uploaded (e, c) s = v1_exec uploaded (e, c) s"
proof -
  have admin: "get_admin s = Upgrade_V1.get_admin s" using assms(1,2) by (auto simp: get_admin_def Upgrade_V1.get_admin_def)
  then have require: "require_admin e s = Upgrade_V1.require_admin e s"
    by (simp add: require_admin_def Upgrade_V1.require_admin_def)
  have ver: "version s = Upgrade_V1.version s" using assms(3) by (auto simp: version_def Upgrade_V1.version_def)
  show ?thesis
    using assms(1,2,4)
    by (cases c) (simp_all add: admin require ver set_upgrade_signers_def Upgrade_V1.set_upgrade_signers_def
        set_timelock_delay_def Upgrade_V1.set_timelock_delay_def schedule_upgrade_def Upgrade_V1.schedule_upgrade_def
        cancel_upgrade_def Upgrade_V1.cancel_upgrade_def execute_upgrade_def Upgrade_V1.execute_upgrade_def
        cong: option.case_cong sum.case_cong if_cong)
qed

section \<open>The proposal, read off the events\<close>

text \<open>What an observer of the events knows: the delay and the threshold in force, and of the proposal its code, version,
  time of execution, the delay in force when it was made, and who approved it.\<close>

record upgrade_plan =
  pl_delay :: nat
  pl_threshold :: nat
  pl_proposal :: "(nat \<times> nat \<times> nat \<times> nat \<times> address list) option"

fun observe :: "upgrade_event \<Rightarrow> upgrade_plan \<Rightarrow> upgrade_plan" where
  "observe (UpgCfg n t) pl = pl\<lparr>pl_threshold := t\<rparr>"
| "observe (UpgTl d) pl = pl\<lparr>pl_delay := d\<rparr>"
| "observe (UpgSched a h v x) pl = pl\<lparr>pl_proposal := Some (h, v, x, pl_delay pl, [a])\<rparr>"
| "observe (UpgApprv a n t) pl =
     pl\<lparr>pl_proposal := (case pl_proposal pl of None \<Rightarrow> None | Some (h, v, x, d, as) \<Rightarrow> Some (h, v, x, d, as @ [a]))\<rparr>"
| "observe (UpgCncl a) pl = pl\<lparr>pl_proposal := None\<rparr>"
| "observe (Upgrade v v1 h) pl = pl\<lparr>pl_proposal := None\<rparr>"

definition observed :: "upgrade_event list \<Rightarrow> upgrade_plan" where
  "observed evs = fold observe evs \<lparr>pl_delay = DEFAULT_TIMELOCK_DELAY, pl_threshold = 1, pl_proposal = None\<rparr>"

lemma observed_snoc [simp]: "observed (evs @ [ev]) = observe ev (observed evs)"
  by (simp add: observed_def)

definition proposal_sound :: "nat \<Rightarrow> upgrade_event list \<Rightarrow> pending_upgrade \<Rightarrow> bool" where
  "proposal_sound v evs p \<longleftrightarrow>
     (\<exists>d. pl_proposal (observed evs) = Some (pu_wasm_hash p, pu_new_version p, pu_execute_at p, d, pu_approvals p)
        \<and> pu_execute_at p = u64_saturating_add (pu_scheduled_at p) d)
     \<and> distinct (pu_approvals p) \<and> v < pu_new_version p"

definition lifecycle_inv :: "(nat \<rightharpoonup> program) \<Rightarrow> address \<Rightarrow> upgrade_state_v2 \<Rightarrow> bool" where
  "lifecycle_inv programs admin s \<longleftrightarrow>
     up_admin s = Some admin \<and> up_new_admin s \<in> {None, Some admin}
   \<and> (\<exists>v. up_version s = Some v \<and> 1 \<le> v \<and> (programs (up_wasm s) = Some New \<longrightarrow> 2 \<le> v)
        \<and> (case up_pending s of None \<Rightarrow> pl_proposal (observed (up_events s)) = None
           | Some p \<Rightarrow> proposal_sound v (up_events s) p \<and> (programs (up_wasm s) = Some New \<longrightarrow> up_new_admin s \<noteq> None)))
   \<and> (\<exists>sg n. up_signers s = Some sg \<and> up_threshold s = Some n \<and> distinct sg \<and> 1 \<le> n \<and> n \<le> length sg
        \<and> pl_threshold (observed (up_events s)) = n)
   \<and> up_timelock_delay s = Some (pl_delay (observed (up_events s)))"

lemma no_proposal [simp]: "(\<forall>h v x d as. pl \<noteq> Some (h, v, x, d, as)) \<longleftrightarrow> pl = None"
  by (cases pl) auto

lemma lifecycle_inv_deployed: "lifecycle_inv programs admin (deployed_v1 wasm admin) \<longleftrightarrow> programs wasm \<noteq> Some New"
  by (auto simp: lifecycle_inv_def deployed_v1_def Upgrade_V1.constructor_def upgrade_state.extend_def observed_def)

lemma lifecycle_version:
  "lifecycle_inv programs admin s \<Longrightarrow> up_version s = Some (version s) \<and> Upgrade_V1.version s = version s"
  by (auto simp: lifecycle_inv_def version_def Upgrade_V1.version_def)

text \<open>The calls of the old program, which are those of the new one once the new admin is set.\<close>

lemma v1_step_inv:
  assumes "lifecycle_inv programs admin s" and "v1_exec uploaded (e, c) s = Inr s'"
    and "\<And>a h v. programs (up_wasm s) = Some New \<Longrightarrow> c = CSchedule a h v \<Longrightarrow> up_new_admin s \<noteq> None"
  shows "lifecycle_inv programs admin s'"
proof (cases c)
  case (CSetSigners signers n)
  with assms show ?thesis
    by (auto simp: set_upgrade_signers_Inr lifecycle_inv_def proposal_sound_def split: option.splits)
next
  case (CSetDelay d)
  with assms show ?thesis
    by (auto simp: set_timelock_delay_Inr lifecycle_inv_def proposal_sound_def split: option.splits)
next
  case (CSchedule a h v)
  with assms show ?thesis
    by (auto simp: schedule_upgrade_Inr lifecycle_inv_def proposal_sound_def new_proposal_def get_timelock_delay_def
        Upgrade_V1.version_def)
next
  case (CApprove a)
  with assms show ?thesis
    by (auto simp: approve_upgrade_Inr lifecycle_inv_def proposal_sound_def)
next
  case (CCancel a)
  with assms show ?thesis
    by (auto simp: cancel_upgrade_Inr lifecycle_inv_def)
next
  case (CExecute a)
  with assms show ?thesis
    by (auto simp: execute_upgrade_Inr lifecycle_inv_def Upgrade_V1.version_def)
next
  case CHandleUpgrade
  with assms show ?thesis by simp
qed


lemma v2_step_v1:
  assumes "v2_exec uploaded (e, c) s = Inr s'" and "up_new_admin s \<in> {None, up_admin s}" and "up_version s \<noteq> None"
    and "c \<noteq> CHandleUpgrade"
  shows "v1_exec uploaded (e, c) s = Inr s' \<and> (\<forall>a h v. c = CSchedule a h v \<longrightarrow> up_new_admin s \<noteq> None)"
proof -
  have admin: "get_admin s = Upgrade_V1.get_admin s"
    using assms(2) by (auto simp: get_admin_def Upgrade_V1.get_admin_def split: option.split)
  then have require: "require_admin e s = Upgrade_V1.require_admin e s"
    by (simp add: require_admin_def Upgrade_V1.require_admin_def)
  have ver: "version s = Upgrade_V1.version s" using assms(3) by (auto simp: version_def Upgrade_V1.version_def)
  show ?thesis
  proof (cases "\<exists>a. c = CExecute a")
    case True
    with assms(1) ver show ?thesis
      by (auto simp: execute_upgrade_def Upgrade_V1.execute_upgrade_def require_signer_def install_def split: if_splits option.splits)
  next
    case False
    with assms(1,4) show ?thesis
      by (cases c) (auto simp: admin require ver set_upgrade_signers_def Upgrade_V1.set_upgrade_signers_def
          set_timelock_delay_def Upgrade_V1.set_timelock_delay_def schedule_upgrade_def Upgrade_V1.schedule_upgrade_def
          cancel_upgrade_def Upgrade_V1.cancel_upgrade_def split: if_splits sum.splits cong: if_cong)
  qed
qed

text \<open>What the migration does on a contract whose configuration is complete.\<close>

lemma handle_upgrade_eq:
  assumes "lifecycle_inv programs admin s"
  shows "handle_upgrade e s =
    (if env_auth e admin then Inr ((), s\<lparr>up_new_admin := Some admin, up_version := Some 2\<rparr>) else Inl AuthTrap)"
  using assms by (auto simp: handle_upgrade_def lifecycle_inv_def)

lemma handle_upgrade_inv:
  assumes "lifecycle_inv programs admin s" and "handle_upgrade e s = Inr (u, s')" and "programs (up_wasm s) = Some New"
  shows "lifecycle_inv programs admin s'"
  using assms(1,3) assms(2) [unfolded handle_upgrade_eq [OF assms(1)]]
  by (auto simp: lifecycle_inv_def proposal_sound_def split: if_splits option.splits)

lemma lifecycle_step:
  assumes "lifecycle_exec programs uploaded k s = Inr s'" and inv: "lifecycle_inv programs admin s"
  shows "(\<exists>e. k = (e, CHandleUpgrade) \<and> programs (up_wasm s) = Some New \<and> handle_upgrade e s = Inr ((), s'))
    \<or> v1_exec uploaded k s = Inr s' \<and> (programs (up_wasm s) = Some New \<longrightarrow>
        (\<forall>a h v. snd k = CSchedule a h v \<longrightarrow> up_new_admin s \<noteq> None))"
proof -
  obtain e c where k: "k = (e, c)" by (cases k)
  have "up_new_admin s \<in> {None, up_admin s}" "up_version s \<noteq> None" using inv by (auto simp: lifecycle_inv_def)
  then show ?thesis
    using assms(1) k v2_step_v1 [of uploaded e c s s']
    by (cases "c = CHandleUpgrade") (auto simp: lifecycle_exec_def split: option.splits program.splits)
qed

lemma lifecycle_step_inv:
  assumes "lifecycle_exec programs uploaded k s = Inr s'" and inv: "lifecycle_inv programs admin s"
  shows "lifecycle_inv programs admin s'"
  using lifecycle_step [OF assms]
proof
  assume "\<exists>e. k = (e, CHandleUpgrade) \<and> programs (up_wasm s) = Some New \<and> handle_upgrade e s = Inr ((), s')"
  then show ?thesis using handle_upgrade_inv [OF inv] by blast
next
  assume "v1_exec uploaded k s = Inr s' \<and> (programs (up_wasm s) = Some New \<longrightarrow>
    (\<forall>a h v. snd k = CSchedule a h v \<longrightarrow> up_new_admin s \<noteq> None))"
  then show ?thesis by (cases k) (auto intro: v1_step_inv [OF inv])
qed

interpretation lifecycle: contract_invariant "lifecycle_exec programs uploaded" "lifecycle_inv programs admin" "\<lambda>_. True"
  for programs uploaded admin
  by unfold_locales (rule lifecycle_step_inv)

lemma lifecycle_reachable:
  "programs wasm \<noteq> Some New \<Longrightarrow> lifecycle_inv programs admin (run (lifecycle_exec programs uploaded) calls (deployed_v1 wasm admin))"
  by (rule lifecycle.run_inv) (simp_all add: lifecycle_inv_deployed)

section \<open>Properties\<close>

text \<open>C2: No upgrade without a quorum and a wait.  Whatever was called before, on a contract deployed with the old code:
  the installed code changes only in an execution by a current signer, of the proposal the published events show, with
  at least as many different approvals as the threshold, which is positive, at a time not before the time of the proposal
  plus the delay then in force, and to a greater version.  (The approvals are those of accounts that were signers when
  they approved: the admin may have replaced them since, and they still count.)\<close>

theorem upgrade_needs_quorum:
  assumes "run (lifecycle_exec programs uploaded) calls (deployed_v1 wasm admin) = s" and "programs wasm = Some Old"
    and "lifecycle_exec programs uploaded (e, c) s = Inr s'" and "up_wasm s' \<noteq> up_wasm s"
  shows "\<exists>a at d approvals p. c = CExecute a \<and> env_auth e a \<and> a \<in> set (get_signers s)
    \<and> pl_proposal (observed (up_events s)) = Some (up_wasm s', version s', at, d, approvals)
    \<and> distinct approvals \<and> 1 \<le> get_threshold s \<and> get_threshold s \<le> length approvals
    \<and> up_pending s = Some p \<and> at = u64_saturating_add (pu_scheduled_at p) d \<and> at \<le> env_timestamp e
    \<and> version s < version s'"
proof -
  have inv: "lifecycle_inv programs admin s" using lifecycle_reachable [of programs wasm] assms(1,2) by force
  have ver: "Upgrade_V1.version s = version s" using lifecycle_version [OF inv] by simp
  have v1: "v1_exec uploaded (e, c) s = Inr s'"
    using lifecycle_step [OF assms(3) inv] assms(4) by (auto simp: handle_upgrade_eq [OF inv] split: if_splits)
  then obtain a where c: "c = CExecute a"
    using assms(4) by (cases c) (auto simp: upgrade_v1_Inr)
  with v1 obtain p where p: "up_pending s = Some p" "env_auth e a" "a \<in> set (get_signers s)" "get_threshold s \<le> length (pu_approvals p)"
      "pu_execute_at p \<le> env_timestamp e" "version s < pu_new_version p" "version s' = pu_new_version p" "up_wasm s' = pu_wasm_hash p"
    by (auto simp: execute_upgrade_Inr ver version_def [of s'])
  then obtain d where "pl_proposal (observed (up_events s)) = Some (up_wasm s', version s', pu_execute_at p, d, pu_approvals p)"
      "pu_execute_at p = u64_saturating_add (pu_scheduled_at p) d" "distinct (pu_approvals p)"
    using inv by (auto simp: lifecycle_inv_def proposal_sound_def)
  moreover have "1 \<le> get_threshold s" using inv by (auto simp: lifecycle_inv_def get_threshold_def)
  ultimately show ?thesis using c p by metis
qed

text \<open>Readiness is exact.  For a signer, an execution succeeds exactly when \<open>is_upgrade_ready\<close> says so and the new
  code has been uploaded: no other condition of the code can stand in the way, before or after the migration.\<close>

theorem upgrade_ready_exact:
  assumes "run (lifecycle_exec programs uploaded) calls (deployed_v1 wasm admin) = s" and "programs wasm = Some Old"
    and "programs (up_wasm s) \<noteq> None" and "env_auth e a" and "a \<in> set (get_signers s)"
  shows "(\<exists>s'. lifecycle_exec programs uploaded (e, CExecute a) s = Inr s') \<longleftrightarrow>
    is_upgrade_ready e s \<and> uploaded (pu_wasm_hash (the (up_pending s)))"
proof -
  have inv: "lifecycle_inv programs admin s" using lifecycle_reachable [of programs wasm] assms(1,2) by force
  show ?thesis
  proof (cases "up_pending s")
    case None
    with assms(3-5) show ?thesis
      by (auto simp: is_upgrade_ready_def lifecycle_exec_def execute_upgrade_def Upgrade_V1.execute_upgrade_def require_signer_def
          split: program.splits)
  next
    case (Some p)
    then have newer: "version s < pu_new_version p" "Upgrade_V1.version s < pu_new_version p"
        and new: "programs (up_wasm s) = Some New \<Longrightarrow> up_new_admin s \<noteq> None" and admin: "up_admin s \<noteq> None"
      using inv by (auto simp: lifecycle_inv_def proposal_sound_def version_def Upgrade_V1.version_def)
    show ?thesis
    proof (cases "programs (up_wasm s)")
      case (Some pr)
      with \<open>up_pending s = Some p\<close> newer new admin assms(4,5) show ?thesis
        by (cases pr) (auto simp: is_upgrade_ready_def lifecycle_exec_def execute_upgrade_def Upgrade_V1.execute_upgrade_def
            require_signer_def install_def split: if_splits)
    qed (use assms(3) in simp)
  qed
qed

text \<open>The migration.  Once the new code runs, \<open>handle_upgrade\<close>, signed by the admin, keeps signers, threshold, delay,
  proposal and admin of the old contract, makes the admin the new admin, and after it the new code behaves as the old.
  It also sets the version to 2, whatever version the upgrade had announced, so that versions that were passed can be
  proposed again.\<close>

theorem upgrade_migration:
  assumes "run (lifecycle_exec programs uploaded) calls (deployed_v1 wasm admin) = s" and "programs wasm = Some Old"
    and "programs (up_wasm s) = Some New" and "env_auth e admin"
  shows "2 \<le> version s
    \<and> lifecycle_exec programs uploaded (e, CHandleUpgrade) s = Inr (s\<lparr>up_new_admin := Some admin, up_version := Some 2\<rparr>)
    \<and> (c \<noteq> CHandleUpgrade \<longrightarrow>
        v2_exec uploaded (e1, c) (s\<lparr>up_new_admin := Some admin, up_version := Some 2\<rparr>) =
        v1_exec uploaded (e1, c) (s\<lparr>up_new_admin := Some admin, up_version := Some 2\<rparr>))"
proof -
  have inv: "lifecycle_inv programs admin s" using lifecycle_reachable [of programs wasm] assms(1,2) by force
  then have "2 \<le> version s" "up_admin s = Some admin" using assms(3) by (auto simp: lifecycle_inv_def version_def)
  then show ?thesis using assms(3,4) upgrade_v2_agrees [of "s\<lparr>up_new_admin := Some admin, up_version := Some 2\<rparr>" c]
    by (simp add: lifecycle_exec_def handle_upgrade_eq [OF inv])
qed

section \<open>Witnesses\<close>

text \<open>The admin installs two signers of three and a delay of 100; two approve an upgrade to version 5, which is executed
  after the wait.  Code 1 is the old one, code 2 the new one.\<close>

definition demo_programs :: "nat \<rightharpoonup> program" where
  "demo_programs = [1 \<mapsto> Old, 2 \<mapsto> New]"

definition demo_signed :: "address \<Rightarrow> nat \<Rightarrow> env" where
  "demo_signed a t = signed_env [a] 1 t (Addr 9)"

definition demo_upgrade :: "(env \<times> upgrade_call) list" where
  "demo_upgrade =
     [(demo_signed (Addr 1) 10, CSetSigners [Addr 1, Addr 2, Addr 3] 2),
      (demo_signed (Addr 1) 10, CSetDelay 100),
      (demo_signed (Addr 2) 20, CSchedule (Addr 2) 2 5),
      (demo_signed (Addr 2) 30, CApprove (Addr 2)),
      (demo_signed (Addr 2) 120, CExecute (Addr 2)),
      (demo_signed (Addr 3) 40, CApprove (Addr 3)),
      (demo_signed (Addr 2) 119, CExecute (Addr 2))]"

definition demo_state :: upgrade_state_v2 where
  "demo_state = run (lifecycle_exec demo_programs (\<lambda>h. h < 5)) demo_upgrade (deployed_v1 1 (Addr 1))"

lemma demo_upgrade_eq: "demo_state =
  \<lparr>up_admin = Some (Addr 1), up_version = Some 1, up_signers = Some [Addr 1, Addr 2, Addr 3], up_threshold = Some 2,
   up_timelock_delay = Some 100,
   up_pending = Some \<lparr>pu_wasm_hash = 2, pu_new_version = 5, pu_proposer = Addr 2, pu_scheduled_at = 20, pu_execute_at = 120,
     pu_approvals = [Addr 2, Addr 3]\<rparr>, up_wasm = 1,
   up_events = [UpgCfg 3 2, UpgTl 100, UpgSched (Addr 2) 2 5 120, UpgApprv (Addr 3) 2 2], up_new_admin = None\<rparr>"
  by (simp add: demo_state_def demo_upgrade_def demo_signed_def demo_programs_def lifecycle_exec_def deployed_v1_def
      Upgrade_V1.constructor_def upgrade_state.extend_def Upgrade_V1.set_upgrade_signers_def Upgrade_V1.require_admin_def
      Upgrade_V1.get_admin_def validate_signer_config_def Upgrade_V1.set_timelock_delay_def Upgrade_V1.schedule_upgrade_def
      require_signer_def get_signers_def Upgrade_V1.version_def new_proposal_def get_timelock_delay_def
      approve_upgrade_def get_threshold_def Upgrade_V1.execute_upgrade_def emit_def Let_def arith_defs)

lemma demo_execute:
  "lifecycle_exec demo_programs (\<lambda>h. h < 5) (demo_signed (Addr 2) 120, CExecute (Addr 2)) demo_state =
     Inr (emit (Upgrade 1 5 2) (demo_state\<lparr>up_version := Some 5, up_wasm := 2, up_pending := None\<rparr>))"
  by (simp add: demo_upgrade_eq lifecycle_exec_def demo_programs_def demo_signed_def Upgrade_V1.execute_upgrade_def
      require_signer_def get_signers_def get_threshold_def Upgrade_V1.version_def install_def)

theorem upgrade_needs_quorum_witness:
  "\<exists>at d approvals. pl_proposal (observed (up_events demo_state)) = Some (2, 5, at, d, approvals)
     \<and> distinct approvals \<and> 2 \<le> length approvals \<and> at \<le> 120"
  using upgrade_needs_quorum [OF demo_state_def [symmetric] _ demo_execute]
  by (auto simp: demo_programs_def demo_upgrade_eq version_def get_threshold_def demo_signed_def)

theorem upgrade_ready_exact_witness:
  "is_upgrade_ready (demo_signed (Addr 2) 120) demo_state
   \<and> \<not> (\<exists>s'. lifecycle_exec demo_programs (\<lambda>h. h < 5) (demo_signed (Addr 2) 119, CExecute (Addr 2)) demo_state = Inr s')"
proof -
  note ready = upgrade_ready_exact [OF demo_state_def [symmetric], of "demo_signed (Addr 2) t" "Addr 2" for t]
  have old: "demo_programs 1 = Some Old" "demo_programs (up_wasm demo_state) \<noteq> None" "Addr 2 \<in> set (get_signers demo_state)"
      "env_auth (demo_signed (Addr 2) t) (Addr 2)" for t
    by (simp_all add: demo_programs_def demo_upgrade_eq get_signers_def demo_signed_def)
  have "\<not> is_upgrade_ready (demo_signed (Addr 2) 119) demo_state"
    by (simp add: is_upgrade_ready_def demo_upgrade_eq get_threshold_def demo_signed_def)
  then show ?thesis using ready [of 120, OF old(1,2,4,3)] ready [of 119, OF old(1,2,4,3)] demo_execute by blast
qed

theorem upgrade_migration_witness:
  "\<exists>s. s = run (lifecycle_exec demo_programs (\<lambda>h. h < 5))
         (demo_upgrade @ [(demo_signed (Addr 2) 120, CExecute (Addr 2))]) (deployed_v1 1 (Addr 1))
     \<and> version s = 5 \<and> lifecycle_exec demo_programs (\<lambda>h. h < 5) (demo_signed (Addr 1) 200, CHandleUpgrade) s =
         Inr (s\<lparr>up_new_admin := Some (Addr 1), up_version := Some 2\<rparr>)"
proof -
  let ?s = "run (lifecycle_exec demo_programs (\<lambda>h. h < 5))
         (demo_upgrade @ [(demo_signed (Addr 2) 120, CExecute (Addr 2))]) (deployed_v1 1 (Addr 1))"
  have s: "?s = emit (Upgrade 1 5 2) (demo_state\<lparr>up_version := Some 5, up_wasm := 2, up_pending := None\<rparr>)"
    unfolding run_append demo_state_def [symmetric] by (simp add: demo_execute del: One_nat_def)
  then have "version ?s = 5" "demo_programs (up_wasm ?s) = Some New" "demo_programs 1 = Some Old"
      "env_auth (demo_signed (Addr 1) 200) (Addr 1)"
    by (simp_all add: version_def demo_programs_def demo_signed_def)
  with upgrade_migration [OF refl, of demo_programs 1 "\<lambda>h. h < 5" "demo_upgrade @ [(demo_signed (Addr 2) 120, CExecute (Addr 2))]"
      "Addr 1" "demo_signed (Addr 1) 200"]
  show ?thesis by blast
qed

end
