(* ===== verification/Streak_Rewards.thy ===== *)
theory Streak_Rewards
  imports Token_Interface
begin

text \<open>
  \<open>contracts/streak_reward.rs\<close>: a bonus for depositing on consecutive days.  The file is declared by no crate.

  Two things outside the file are parameters: the reward token (\<open>xfer\<close>) and what the host does when the lifetime of a
  storage entry that does not exist is extended.  The file extends it on every read, also of a user that has no record
  yet; \<open>strict\<close> says that this traps, as the host documents (the other contracts of the repository extend an
  entry only when it is there).  Otherwise lifetimes are not modelled.
\<close>

section \<open>Data\<close>

definition SECONDS_PER_DAY :: nat where "SECONDS_PER_DAY = 86400"
definition STREAK_TIER_WEEK :: nat where "STREAK_TIER_WEEK = 7"
definition STREAK_TIER_MONTH :: nat where "STREAK_TIER_MONTH = 30"
definition STREAK_TIER_CENTURY :: nat where "STREAK_TIER_CENTURY = 100"

lemmas tier_defs = STREAK_TIER_WEEK_def STREAK_TIER_MONTH_def STREAK_TIER_CENTURY_def

record streak_config =
  sk_admin :: address
  sk_reward_token :: address
  sk_reward_week :: int
  sk_reward_month :: int
  sk_reward_century :: int

record streak_record =
  sr_streak_days :: nat
  sr_last_deposit_day :: nat
  sr_total_deposits :: nat
  sr_total_rewards_claimed :: int

datatype streak_error =
    NotInitialized | AlreadyInitialized | Unauthorized | AlreadyDepositedToday | NoRewardAvailable | AlreadyClaimed
  | InvalidRewardAmount | Overflow

datatype streak_event =
    DepositRecorded address nat nat nat
  | StreakBroken address nat nat
  | RewardClaimed address nat nat int nat
  | ConfigUpdated address int int int nat

record streak_state =
  sk_config :: "streak_config option"
  sk_user_streak :: "address \<rightharpoonup> streak_record"
  sk_claim_stamp :: "address \<times> nat \<times> nat \<rightharpoonup> bool"
  sk_events :: "streak_event list"

definition streak_fresh :: streak_state where
  "streak_fresh = \<lparr>sk_config = None, sk_user_streak = Map.empty, sk_claim_stamp = Map.empty, sk_events = []\<rparr>"

type_synonym 'a streak_outcome = "(streak_state, streak_error, 'a) outcome"

section \<open>Internal helpers\<close>

definition emit :: "streak_event \<Rightarrow> streak_state \<Rightarrow> streak_state" where
  "emit ev s = s\<lparr>sk_events := sk_events s @ [ev]\<rparr>"

definition load_config :: "streak_state \<Rightarrow> streak_error trap + streak_config" where
  "load_config s = (case sk_config s of None \<Rightarrow> Inl (ContractError NotInitialized) | Some c \<Rightarrow> Inr c)"

definition require_admin :: "address \<Rightarrow> streak_state \<Rightarrow> streak_error trap + unit" where
  "require_admin caller s = (case load_config s of Inl t \<Rightarrow> Inl t | Inr config \<Rightarrow>
     if caller \<noteq> sk_admin config then Inl (ContractError Unauthorized) else Inr ())"

definition day_number :: "nat \<Rightarrow> nat" where
  "day_number timestamp = timestamp div SECONDS_PER_DAY"

definition milestone_epoch :: "nat \<Rightarrow> nat \<Rightarrow> nat" where
  "milestone_epoch streak_days tier = streak_days div tier"

definition new_record :: streak_record where
  "new_record = \<lparr>sr_streak_days = 0, sr_last_deposit_day = 0, sr_total_deposits = 0, sr_total_rewards_claimed = 0\<rparr>"

definition load_or_default_streak :: "bool \<Rightarrow> address \<Rightarrow> streak_state \<Rightarrow> streak_error trap + streak_record" where
  "load_or_default_streak strict user s = (case sk_user_streak s user of
     None \<Rightarrow> if strict then Inl PanicTrap else Inr new_record | Some r \<Rightarrow> Inr r)"

definition save_streak :: "address \<Rightarrow> streak_record \<Rightarrow> streak_state \<Rightarrow> streak_state" where
  "save_streak user r s = s\<lparr>sk_user_streak := (sk_user_streak s)(user \<mapsto> r)\<rparr>"

definition reward_for_tier :: "streak_config \<Rightarrow> nat \<Rightarrow> int option" where
  "reward_for_tier config tier =
    (if tier = STREAK_TIER_WEEK then Some (sk_reward_week config)
     else if tier = STREAK_TIER_MONTH then Some (sk_reward_month config)
     else if tier = STREAK_TIER_CENTURY then Some (sk_reward_century config) else None)"

section \<open>Entry points\<close>

definition initialize :: "address \<Rightarrow> address \<Rightarrow> int \<Rightarrow> int \<Rightarrow> int \<Rightarrow> streak_state \<Rightarrow> unit streak_outcome" where
  "initialize admin reward_token reward_week reward_month reward_century s =
    (if sk_config s \<noteq> None then Inl (ContractError AlreadyInitialized) else
     if reward_week \<le> 0 \<or> reward_month \<le> 0 \<or> reward_century \<le> 0 then Inl (ContractError InvalidRewardAmount) else
     Inr ((), s\<lparr>sk_config := Some \<lparr>sk_admin = admin, sk_reward_token = reward_token, sk_reward_week = reward_week,
       sk_reward_month = reward_month, sk_reward_century = reward_century\<rparr>\<rparr>))"

definition update_rewards :: "env \<Rightarrow> address \<Rightarrow> int \<Rightarrow> int \<Rightarrow> int \<Rightarrow> streak_state \<Rightarrow> unit streak_outcome" where
  "update_rewards e caller reward_week reward_month reward_century s =
    (if \<not> env_auth e caller then Inl AuthTrap else
     case require_admin caller s of Inl t \<Rightarrow> Inl t | Inr _ \<Rightarrow>
     if reward_week \<le> 0 \<or> reward_month \<le> 0 \<or> reward_century \<le> 0 then Inl (ContractError InvalidRewardAmount) else
     case load_config s of Inl t \<Rightarrow> Inl t | Inr config \<Rightarrow>
     let config1 = config\<lparr>sk_reward_week := reward_week, sk_reward_month := reward_month, sk_reward_century := reward_century\<rparr> in
     Inr ((), emit (ConfigUpdated caller reward_week reward_month reward_century (env_timestamp e))
       (s\<lparr>sk_config := Some config1\<rparr>)))"

text \<open>The new streak, and the event of a broken one.\<close>

definition advance_streak :: "env \<Rightarrow> address \<Rightarrow> nat \<Rightarrow> streak_record \<Rightarrow> streak_state \<Rightarrow> nat streak_outcome" where
  "advance_streak e user today r s =
    (if sr_streak_days r = 0 then Inr (1, s) else
     let days_since_last = today - sr_last_deposit_day r in
     if days_since_last = 1 then
       (case u32_add (sr_streak_days r) 1 of None \<Rightarrow> Inl (ContractError Overflow) | Some n \<Rightarrow> Inr (n, s))
     else if days_since_last = 0 then Inl (ContractError AlreadyDepositedToday)
     else Inr (1, emit (StreakBroken user (sr_streak_days r) (env_timestamp e)) s))"

definition record_deposit :: "bool \<Rightarrow> env \<Rightarrow> address \<Rightarrow> streak_state \<Rightarrow> nat streak_outcome" where
  "record_deposit strict e user s =
    (if \<not> env_auth e user then Inl AuthTrap else
     case load_config s of Inl t \<Rightarrow> Inl t | Inr _ \<Rightarrow>
     let today = day_number (env_timestamp e) in
     case load_or_default_streak strict user s of Inl t \<Rightarrow> Inl t | Inr r \<Rightarrow>
     if sr_last_deposit_day r = today \<and> 0 < sr_streak_days r then Inl (ContractError AlreadyDepositedToday) else
     case advance_streak e user today r s of Inl t \<Rightarrow> Inl t | Inr (streak_days, s1) \<Rightarrow>
     case u32_add (sr_total_deposits r) 1 of None \<Rightarrow> Inl (ContractError Overflow) | Some total_sum \<Rightarrow>
     let r1 = r\<lparr>sr_streak_days := streak_days, sr_last_deposit_day := today, sr_total_deposits := total_sum\<rparr> in
     Inr (streak_days, emit (DepositRecorded user streak_days today (env_timestamp e)) (save_streak user r1 s1)))"

definition claim_reward :: "'led xfer \<Rightarrow> bool \<Rightarrow> env \<Rightarrow> address \<Rightarrow> nat \<Rightarrow> streak_state \<times> 'led
    \<Rightarrow> (streak_state \<times> 'led, streak_error, int) outcome" where
  "claim_reward xfer strict e user tier w = (case w of (s, l) \<Rightarrow>
     if \<not> env_auth e user then Inl AuthTrap else
     case load_config s of Inl t \<Rightarrow> Inl t | Inr config \<Rightarrow>
     case reward_for_tier config tier of None \<Rightarrow> Inl (ContractError NoRewardAvailable) | Some reward_amount \<Rightarrow>
     case load_or_default_streak strict user s of Inl t \<Rightarrow> Inl t | Inr r \<Rightarrow>
     if sr_streak_days r = 0 \<or> sr_streak_days r mod tier \<noteq> 0 then Inl (ContractError NoRewardAvailable) else
     let epoch = milestone_epoch (sr_streak_days r) tier in
     if sk_claim_stamp s (user, tier, epoch) \<noteq> None then Inl (ContractError AlreadyClaimed) else
     let s1 = s\<lparr>sk_claim_stamp := (sk_claim_stamp s)((user, tier, epoch) \<mapsto> True)\<rparr> in
     case checked_add (sr_total_rewards_claimed r) reward_amount of None \<Rightarrow> Inl (ContractError Overflow) | Some total_sum \<Rightarrow>
     let s2 = save_streak user (r\<lparr>sr_total_rewards_claimed := total_sum\<rparr>) s1 in
     case xfer e (sk_reward_token config) (env_self e) user reward_amount l of None \<Rightarrow> Inl CallTrap | Some l1 \<Rightarrow>
     Inr (reward_amount, emit (RewardClaimed user tier epoch reward_amount (env_timestamp e)) s2, l1))"

definition get_streak :: "bool \<Rightarrow> address \<Rightarrow> streak_state \<Rightarrow> streak_error trap + streak_record" where
  "get_streak strict user s = load_or_default_streak strict user s"

definition is_claimed :: "bool \<Rightarrow> address \<Rightarrow> nat \<Rightarrow> streak_state \<Rightarrow> streak_error trap + bool" where
  "is_claimed strict user tier s =
    (case load_or_default_streak strict user s of Inl t \<Rightarrow> Inl t | Inr r \<Rightarrow>
     if sr_streak_days r = 0 then Inr False else
     if tier = 0 then Inl ArithTrap else
     if sr_streak_days r mod tier \<noteq> 0 then Inr False else
     Inr (sk_claim_stamp s (user, tier, milestone_epoch (sr_streak_days r) tier) \<noteq> None))"

datatype streak_call =
    CInitialize address address int int int
  | CUpdate address int int int
  | CDeposit address
  | CClaim address nat

definition keep_ledger :: "'led \<Rightarrow> 'a streak_outcome \<Rightarrow> streak_error trap + (streak_state \<times> 'led)" where
  "keep_ledger l r = (case r of Inl t \<Rightarrow> Inl t | Inr (_, s) \<Rightarrow> Inr (s, l))"

fun streak_exec :: "'led xfer \<Rightarrow> bool \<Rightarrow> env \<times> streak_call \<Rightarrow> streak_state \<times> 'led \<Rightarrow> streak_error trap + (streak_state \<times> 'led)" where
  "streak_exec xfer strict (e, CInitialize a t w m c) (s, l) = keep_ledger l (initialize a t w m c s)"
| "streak_exec xfer strict (e, CUpdate a w m c) (s, l) = keep_ledger l (update_rewards e a w m c s)"
| "streak_exec xfer strict (e, CDeposit u) (s, l) = keep_ledger l (record_deposit strict e u s)"
| "streak_exec xfer strict (e, CClaim u t) (s, l) = final (claim_reward xfer strict e u t (s, l))"

section \<open>The streak, from the days of the deposits\<close>

definition deposit_days :: "address \<Rightarrow> streak_event list \<Rightarrow> nat list" where
  "deposit_days u evs = rev (concat (map (\<lambda>ev. case ev of DepositRecorded v n d t \<Rightarrow> if v = u then [d] else [] | _ \<Rightarrow> []) evs))"

definition claims :: "address \<Rightarrow> streak_event list \<Rightarrow> (nat \<times> nat \<times> int) list" where
  "claims u evs = concat (map (\<lambda>ev. case ev of RewardClaimed v t n x now \<Rightarrow> if v = u then [(t, n, x)] else [] | _ \<Rightarrow> []) evs)"

text \<open>How many days in a row end with the last one; the list is latest first.\<close>

fun days_in_a_row :: "nat list \<Rightarrow> nat" where
  "days_in_a_row [] = 0"
| "days_in_a_row [d] = 1"
| "days_in_a_row (d # d1 # ds) = (if d = d1 + 1 then days_in_a_row (d1 # ds) + 1 else 1)"

lemma deposit_days_simps [simp]:
  "deposit_days u [] = []"
  "deposit_days u (ev # evs) = deposit_days u evs @ (case ev of DepositRecorded v n d t \<Rightarrow> if v = u then [d] else [] | _ \<Rightarrow> [])"
  "deposit_days u (xs @ ys) = deposit_days u ys @ deposit_days u xs"
  by (simp_all add: deposit_days_def split: streak_event.split)

lemma claims_simps [simp]:
  "claims u [] = []"
  "claims u (ev # evs) = (case ev of RewardClaimed v t n x now \<Rightarrow> if v = u then [(t, n, x)] else [] | _ \<Rightarrow> []) @ claims u evs"
  "claims u (xs @ ys) = claims u xs @ claims u ys"
  by (simp_all add: claims_def split: streak_event.split)

lemma days_in_a_row_pos: "ds \<noteq> [] \<Longrightarrow> 0 < days_in_a_row ds"
  by (cases ds rule: days_in_a_row.cases) auto

definition record_of :: "streak_state \<Rightarrow> address \<Rightarrow> streak_record" where
  "record_of s u = unwrap_or (sk_user_streak s u) new_record"

lemma days_in_a_row_le: "days_in_a_row ds \<le> length ds"
  by (induction ds rule: days_in_a_row.induct) auto

text \<open>What the entry points leave of the state, when they succeed.\<close>

lemma record_deposit_Inr:
  assumes "record_deposit False e u s = Inr (n, s')"
  shows "let r = record_of s u; today = day_number (env_timestamp e) in
      env_auth e u \<and> sk_config s \<noteq> None
    \<and> n = (if sr_streak_days r \<noteq> 0 \<and> today = sr_last_deposit_day r + 1 then sr_streak_days r + 1 else 1)
    \<and> (sr_streak_days r \<noteq> 0 \<longrightarrow> sr_last_deposit_day r < today)
    \<and> sk_user_streak s' = (sk_user_streak s)(u \<mapsto> r\<lparr>sr_streak_days := n, sr_last_deposit_day := today,
          sr_total_deposits := sr_total_deposits r + 1\<rparr>)
    \<and> sk_claim_stamp s' = sk_claim_stamp s \<and> sk_config s' = sk_config s
    \<and> deposit_days v (sk_events s') = (if v = u then today # deposit_days v (sk_events s) else deposit_days v (sk_events s))
    \<and> claims v (sk_events s') = claims v (sk_events s)"
  using assms
  by (auto simp: record_deposit_def load_config_def load_or_default_streak_def advance_streak_def record_of_def save_streak_def
      emit_def Let_def u32_add_def new_record_def split: option.splits if_splits)

lemma claim_reward_Inr:
  assumes "claim_reward xfer strict e u t (s, l) = Inr (x, s', l')"
  shows "\<exists>n r. sk_user_streak s u = (if strict then Some r else sk_user_streak s u) \<and> r = record_of s u
    \<and> env_auth e u \<and> t \<in> {7, 30, 100} \<and> 0 < n \<and> sr_streak_days r = t * n \<and> sk_claim_stamp s (u, t, n) = None
    \<and> sk_user_streak s' = (sk_user_streak s)(u \<mapsto> r\<lparr>sr_total_rewards_claimed := sr_total_rewards_claimed r + x\<rparr>)
    \<and> sk_claim_stamp s' = (sk_claim_stamp s)((u, t, n) \<mapsto> True) \<and> sk_config s' = sk_config s
    \<and> sk_events s' = sk_events s @ [RewardClaimed u t n x (env_timestamp e)]"
proof -
  from assms obtain config r where r: "load_or_default_streak strict u s = Inr r" "reward_for_tier config t = Some x"
      "sr_streak_days r \<noteq> 0" "sr_streak_days r mod t = 0" "env_auth e u" "sk_claim_stamp s (u, t, sr_streak_days r div t) = None"
      "sk_user_streak s' = (sk_user_streak s)(u \<mapsto> r\<lparr>sr_total_rewards_claimed := sr_total_rewards_claimed r + x\<rparr>)"
      "sk_claim_stamp s' = (sk_claim_stamp s)((u, t, sr_streak_days r div t) \<mapsto> True)" "sk_config s' = sk_config s"
      "sk_events s' = sk_events s @ [RewardClaimed u t (sr_streak_days r div t) x (env_timestamp e)]"
    by (auto simp: claim_reward_def milestone_epoch_def save_streak_def emit_def Let_def
        split: option.splits sum.splits if_splits)
  from r(2) have t: "t \<in> {7, 30, 100}" by (auto simp: reward_for_tier_def tier_defs split: if_splits)
  from r(3,4) obtain n where n: "sr_streak_days r = t * n" "0 < n" by (metis gr0I mod_0_imp_dvd dvdE mult_0_right)
  have "sr_streak_days r div t = n" using n t by auto
  moreover have "r = record_of s u" "strict \<Longrightarrow> sk_user_streak s u = Some r"
    using r(1) by (auto simp: load_or_default_streak_def record_of_def split: option.splits if_splits)
  ultimately show ?thesis using r n t by auto
qed

text \<open>The invariant, user by user.\<close>

definition user_sound :: "streak_record \<Rightarrow> nat list \<Rightarrow> (nat \<times> nat \<times> int) list \<Rightarrow> (nat \<Rightarrow> nat \<Rightarrow> bool) \<Rightarrow> bool" where
  "user_sound r ds cs stamped \<longleftrightarrow>
       sr_streak_days r = days_in_a_row ds \<and> sr_total_deposits r = length ds
     \<and> (ds \<noteq> [] \<longrightarrow> sr_last_deposit_day r = hd ds) \<and> sorted_wrt (>) ds
     \<and> sr_total_rewards_claimed r = sum_list (map (\<lambda>(t, n, x). x) cs)
     \<and> distinct (map (\<lambda>(t, n, x). (t, n)) cs)
     \<and> (\<forall>t n. stamped t n \<longleftrightarrow> (t, n) \<in> (\<lambda>(t, n, x). (t, n)) ` set cs)
     \<and> (\<forall>(t, n, x) \<in> set cs. 0 < n \<and> t * n \<le> length ds)"

lemma user_sound_deposit:
  assumes "user_sound r ds cs st" and "sr_streak_days r \<noteq> 0 \<longrightarrow> sr_last_deposit_day r < d"
    and "n = (if sr_streak_days r \<noteq> 0 \<and> d = sr_last_deposit_day r + 1 then sr_streak_days r + 1 else 1)"
  shows "user_sound (r\<lparr>sr_streak_days := n, sr_last_deposit_day := d, sr_total_deposits := sr_total_deposits r + 1\<rparr>) (d # ds) cs st"
proof -
  have latest: "\<forall>x \<in> set ds. x < d" if "ds \<noteq> []"
  proof -
    from that assms(1) have "sr_streak_days r \<noteq> 0" "sr_last_deposit_day r = hd ds" "sorted_wrt (>) ds"
      using days_in_a_row_pos [of ds] by (auto simp: user_sound_def)
    with that assms(2) show ?thesis by (cases ds) auto
  qed
  have "n = days_in_a_row (d # ds)"
    using assms(1,3) days_in_a_row_pos [of ds] by (cases ds) (auto simp: user_sound_def)
  with assms(1) latest show ?thesis by (cases "ds = []") (auto simp: user_sound_def intro: le_SucI)
qed

lemma user_sound_claim:
  assumes "user_sound r ds cs st" and "sr_streak_days r = t * n" and "0 < n" and "\<not> st t n"
  shows "user_sound (r\<lparr>sr_total_rewards_claimed := sr_total_rewards_claimed r + x\<rparr>) ds (cs @ [(t, n, x)])
    (\<lambda>t1 n1. t1 = t \<and> n1 = n \<or> st t1 n1)"
  using assms days_in_a_row_le [of ds] by (auto simp: user_sound_def)

definition streak_inv :: "streak_state \<Rightarrow> bool" where
  "streak_inv s \<longleftrightarrow> (\<forall>u. user_sound (record_of s u) (deposit_days u (sk_events s)) (claims u (sk_events s))
     (\<lambda>t n. sk_claim_stamp s (u, t, n) \<noteq> None))"

lemma streak_inv_fresh: "streak_inv streak_fresh"
  by (simp add: streak_inv_def streak_fresh_def record_of_def new_record_def deposit_days_def claims_def user_sound_def)

lemma record_of_update: "sk_user_streak s' = (sk_user_streak s)(u \<mapsto> r) \<Longrightarrow> record_of s' v = (if v = u then r else record_of s v)"
  by (simp add: record_of_def)

lemma streak_step_inv:
  assumes run: "streak_exec xfer False k w = Inr w'" and inv: "streak_inv (fst w)"
  shows "streak_inv (fst w')"
proof -
  obtain e c where k: "k = (e, c)" by (cases k)
  obtain s l where w: "w = (s, l)" by (cases w)
  obtain s' l' where w': "w' = (s', l')" by (cases w')
  have sound: "user_sound (record_of s v) (deposit_days v (sk_events s)) (claims v (sk_events s))
      (\<lambda>t n. sk_claim_stamp s (v, t, n) \<noteq> None)" for v
    using inv by (simp add: w streak_inv_def)
  show ?thesis
  proof (cases c)
    case (CInitialize a t x m y)
    with run inv show ?thesis
      by (auto simp: k w w' keep_ledger_def initialize_def streak_inv_def record_of_def split: if_splits)
  next
    case (CUpdate a x m y)
    with run inv show ?thesis
      by (auto simp: k w w' keep_ledger_def update_rewards_def streak_inv_def record_of_def emit_def Let_def
          split: if_splits sum.splits)
  next
    case (CDeposit u)
    with run obtain n where "record_deposit False e u s = Inr (n, s')"
      by (auto simp: k w w' keep_ledger_def split: sum.splits)
    note r = record_deposit_Inr [OF this, unfolded Let_def]
    have "user_sound (record_of s' v) (deposit_days v (sk_events s')) (claims v (sk_events s'))
        (\<lambda>t n. sk_claim_stamp s' (v, t, n) \<noteq> None)" for v
      using r [of v] sound [of v] user_sound_deposit [OF sound [of u], of "day_number (env_timestamp e)" n]
      by (cases "v = u") (auto simp: record_of_def)
    then show ?thesis by (simp add: w' streak_inv_def)
  next
    case (CClaim u t)
    with run obtain x where "claim_reward xfer False e u t (s, l) = Inr (x, s', l')"
      by (auto simp: k w w')
    from claim_reward_Inr [OF this] obtain n where r: "0 < n" "sr_streak_days (record_of s u) = t * n" "sk_claim_stamp s (u, t, n) = None"
        "sk_user_streak s' = (sk_user_streak s)(u \<mapsto> (record_of s u)\<lparr>sr_total_rewards_claimed := sr_total_rewards_claimed (record_of s u) + x\<rparr>)"
        "sk_claim_stamp s' = (sk_claim_stamp s)((u, t, n) \<mapsto> True)"
        "sk_events s' = sk_events s @ [RewardClaimed u t n x (env_timestamp e)]"
      by auto
    have "user_sound (record_of s' v) (deposit_days v (sk_events s')) (claims v (sk_events s'))
        (\<lambda>t n. sk_claim_stamp s' (v, t, n) \<noteq> None)" for v
      using r sound [of v] user_sound_claim [OF sound [of u] r(2,1), of x]
      by (cases "v = u") (auto simp: record_of_update [OF r(4)] elim!: back_subst [of "user_sound _ _ _"])
    then show ?thesis by (simp add: w' streak_inv_def)
  qed
qed

interpretation streaks: contract_invariant "streak_exec xfer False" "\<lambda>w. streak_inv (fst w)" "\<lambda>_. True" for xfer
  by unfold_locales (rule streak_step_inv)

lemma strict_step:
  assumes run: "streak_exec xfer True k w = Inr w'" and none: "sk_user_streak (fst w) = Map.empty \<and> snd w = l"
  shows "sk_user_streak (fst w') = Map.empty \<and> snd w' = l"
proof -
  obtain e c where k: "k = (e, c)" by (cases k)
  obtain s l1 where w: "w = (s, l1)" by (cases w)
  from assms show ?thesis
    by (cases c) (auto simp: k w keep_ledger_def initialize_def update_rewards_def emit_def Let_def record_deposit_def
        claim_reward_def load_or_default_streak_def split: if_splits sum.splits option.splits)
qed

interpretation strict_streaks: contract_invariant "streak_exec xfer True" "\<lambda>w. sk_user_streak (fst w) = Map.empty \<and> snd w = l" "\<lambda>_. True"
  for xfer l
  by unfold_locales (rule strict_step)

section \<open>Properties\<close>

text \<open>Streaks and rewards are what the deposits earned, if extending the lifetime of a missing entry were harmless.
  After any calls, a user's record shows how many days in a row the recorded deposits end with, their number (no two on
  one day), and the sum of the rewards paid; each reward is paid once, for a positive multiple of its tier, and never for
  more days than there are deposits.\<close>

theorem streaks_follow_deposits:
  "let s = fst (run (streak_exec xfer False) cs (streak_fresh, l)); ds = deposit_days u (sk_events s);
       paid = claims u (sk_events s) in
     \<exists>r. get_streak False u s = Inr r \<and> sr_streak_days r = days_in_a_row ds \<and> sr_total_deposits r = length ds
       \<and> sorted_wrt (>) ds \<and> sr_total_rewards_claimed r = sum_list (map (\<lambda>(t, n, x). x) paid)
       \<and> distinct (map (\<lambda>(t, n, x). (t, n)) paid) \<and> list_all (\<lambda>(t, n, x). 0 < n \<and> t * n \<le> length ds) paid"
proof -
  let ?s = "fst (run (streak_exec xfer False) cs (streak_fresh, l))"
  have "streak_inv ?s" by (rule streaks.run_inv) (simp_all add: streak_inv_fresh)
  moreover have "get_streak False u ?s = Inr (record_of ?s u)"
    by (simp add: get_streak_def load_or_default_streak_def record_of_def split: option.split)
  ultimately show ?thesis
    by (auto simp: streak_inv_def user_sound_def Let_def list_all_iff)
qed

text \<open>On a host that traps, as documented, when the lifetime of a missing entry is extended, no streak ever starts: the
  contract reads the record of a new user that way before it writes it.  Whatever is called, no user gets a record,
  every deposit fails and no reward is paid.\<close>

theorem streaks_never_start:
  "let w = run (streak_exec xfer True) cs (streak_fresh, l) in
     snd w = l \<and> sk_user_streak (fst w) = Map.empty \<and> (\<forall>e u. \<exists>t. record_deposit True e u (fst w) = Inl t)"
proof -
  let ?w = "run (streak_exec xfer True) cs (streak_fresh, l)"
  have "sk_user_streak (fst ?w) = Map.empty \<and> snd ?w = l"
    by (rule strict_streaks.run_inv) (simp_all add: streak_fresh_def)
  moreover from this have "\<exists>t. record_deposit True e u (fst ?w) = Inl t" for e u
    by (cases "load_config (fst ?w)") (simp_all add: record_deposit_def load_or_default_streak_def Let_def)
  ultimately show ?thesis by (simp add: Let_def)
qed

section \<open>A week of deposits\<close>

definition demo_week :: "(env \<times> streak_call) list" where
  "demo_week = (signed_env [] 1 0 (Addr 9), CInitialize (Addr 1) (Addr 7) 10 50 200)
     # map (\<lambda>d. (signed_env [Addr 2] 1 (86400 * d + 5) (Addr 9), CDeposit (Addr 2))) [3, 4, 5, 6, 7, 8, 8, 9]
     @ [(signed_env [Addr 2] 1 (86400 * 9 + 6) (Addr 9), CClaim (Addr 2) 7),
        (signed_env [Addr 2] 1 (86400 * 9 + 7) (Addr 9), CClaim (Addr 2) 7),
        (signed_env [Addr 2] 1 (86400 * 12) (Addr 9), CDeposit (Addr 2))]"

lemma demo_week_record:
  "get_streak False (Addr 2) (fst (run (streak_exec (\<lambda>e t a b n l. Some (l + n)) False) demo_week (streak_fresh, 0))) =
     Inr \<lparr>sr_streak_days = 1, sr_last_deposit_day = 12, sr_total_deposits = 8, sr_total_rewards_claimed = 10\<rparr>"
  by (simp add: demo_week_def streak_fresh_def initialize_def record_deposit_def claim_reward_def load_config_def
      load_or_default_streak_def new_record_def advance_streak_def save_streak_def emit_def keep_ledger_def
      day_number_def SECONDS_PER_DAY_def reward_for_tier_def tier_defs milestone_epoch_def get_streak_def Let_def arith_defs) blast

end
