(* ===== verification/Recurring_Savings.thy ===== *)
theory Recurring_Savings
  imports Token_Interface
begin

text \<open>
  \<open>contracts/recurring_savings.rs\<close>: contributions of a fixed amount to a savings goal at a fixed interval, which anybody
  may execute once they are due.  The token contracts are the parameter \<open>pull\<close>: \<open>transfer_from\<close> with the running contract
  as spender.  The file is declared by no crate.
\<close>

section \<open>Data\<close>

definition MIN_INTERVAL_SECS :: nat where "MIN_INTERVAL_SECS = 3600"

datatype schedule_status = Active | Cancelled | Exhausted

record recurring_schedule =
  rs_owner :: address
  rs_token :: address
  rs_savings_goal :: address
  rs_amount :: int
  rs_interval_secs :: nat
  rs_next_execution_at :: nat
  rs_executions_completed :: nat
  rs_max_executions :: nat
  rs_status :: schedule_status
  rs_created_at :: nat

datatype recurring_error =
    NotInitialized | AlreadyInitialized | Unauthorized | InvalidAmount | InvalidInterval | ScheduleNotFound
  | ScheduleInactive | NotDueYet | Overflow | InvalidGoalAddress

datatype recurring_event =
    ScheduleCreated address nat address int nat nat
  | ContributionMade address nat int nat nat nat
  | ScheduleCancelled address nat nat nat
  | ScheduleExhausted address nat int nat

record recurring_state =
  rc_admin :: "address option"
  rc_next_schedule_id :: "nat option"
  rc_schedule :: "nat \<rightharpoonup> recurring_schedule"
  rc_events :: "recurring_event list"

definition recurring_fresh :: recurring_state where
  "recurring_fresh = \<lparr>rc_admin = None, rc_next_schedule_id = None, rc_schedule = Map.empty, rc_events = []\<rparr>"

type_synonym 'a recurring_outcome = "(recurring_state, recurring_error, 'a) outcome"

section \<open>Internal helpers\<close>

definition emit :: "recurring_event \<Rightarrow> recurring_state \<Rightarrow> recurring_state" where
  "emit ev s = s\<lparr>rc_events := rc_events s @ [ev]\<rparr>"

definition require_initialized :: "recurring_state \<Rightarrow> recurring_error trap + address" where
  "require_initialized s = (case rc_admin s of None \<Rightarrow> Inl (ContractError NotInitialized) | Some a \<Rightarrow> Inr a)"

definition next_schedule_id :: "recurring_state \<Rightarrow> nat recurring_outcome" where
  "next_schedule_id s = (let i = unwrap_or (rc_next_schedule_id s) 0 in
     case u64_add i 1 of None \<Rightarrow> Inl (ContractError Overflow) | Some next \<Rightarrow> Inr (i, s\<lparr>rc_next_schedule_id := Some next\<rparr>))"

definition load_schedule :: "nat \<Rightarrow> recurring_state \<Rightarrow> recurring_error trap + recurring_schedule" where
  "load_schedule i s = (case rc_schedule s i of None \<Rightarrow> Inl (ContractError ScheduleNotFound) | Some r \<Rightarrow> Inr r)"

definition save_schedule :: "nat \<Rightarrow> recurring_schedule \<Rightarrow> recurring_state \<Rightarrow> recurring_state" where
  "save_schedule i r s = s\<lparr>rc_schedule := (rc_schedule s)(i \<mapsto> r)\<rparr>"

section \<open>Entry points\<close>

definition initialize :: "address \<Rightarrow> recurring_state \<Rightarrow> unit recurring_outcome" where
  "initialize admin s =
    (if rc_admin s \<noteq> None then Inl (ContractError AlreadyInitialized) else
     Inr ((), s\<lparr>rc_admin := Some admin, rc_next_schedule_id := Some 0\<rparr>))"

definition create_schedule :: "env \<Rightarrow> address \<Rightarrow> address \<Rightarrow> address \<Rightarrow> int \<Rightarrow> nat \<Rightarrow> nat \<Rightarrow> recurring_state \<Rightarrow> nat recurring_outcome" where
  "create_schedule e own token savings_goal amount interval_secs max_executions s =
    (if \<not> env_auth e own then Inl AuthTrap else
     case require_initialized s of Inl t \<Rightarrow> Inl t | Inr _ \<Rightarrow>
     if amount \<le> 0 then Inl (ContractError InvalidAmount) else
     if interval_secs < MIN_INTERVAL_SECS then Inl (ContractError InvalidInterval) else
     if savings_goal = own then Inl (ContractError InvalidGoalAddress) else
     let now = env_timestamp e in
     case u64_add now interval_secs of None \<Rightarrow> Inl (ContractError Overflow) | Some next_execution_at \<Rightarrow>
     case next_schedule_id s of Inl t \<Rightarrow> Inl t | Inr (schedule_id, s1) \<Rightarrow>
     let r = \<lparr>rs_owner = own, rs_token = token, rs_savings_goal = savings_goal, rs_amount = amount,
           rs_interval_secs = interval_secs, rs_next_execution_at = next_execution_at, rs_executions_completed = 0,
           rs_max_executions = max_executions, rs_status = Active, rs_created_at = now\<rparr> in
     Inr (schedule_id, emit (ScheduleCreated own schedule_id token amount interval_secs now) (save_schedule schedule_id r s1)))"

text \<open>The update of the schedule, made before the transfer.\<close>

definition advance_schedule :: "recurring_schedule \<Rightarrow> recurring_error trap + recurring_schedule" where
  "advance_schedule r =
    (case u32_add (rs_executions_completed r) 1 of None \<Rightarrow> Inl (ContractError Overflow) | Some completed \<Rightarrow>
     case u64_add (rs_next_execution_at r) (rs_interval_secs r) of None \<Rightarrow> Inl (ContractError Overflow) | Some next_at \<Rightarrow>
     let r1 = r\<lparr>rs_executions_completed := completed, rs_next_execution_at := next_at\<rparr> in
     Inr (if 0 < rs_max_executions r \<and> rs_max_executions r \<le> completed then r1\<lparr>rs_status := Exhausted\<rparr> else r1))"

definition announce_exhausted :: "env \<Rightarrow> nat \<Rightarrow> recurring_schedule \<Rightarrow> recurring_state \<Rightarrow> recurring_state" where
  "announce_exhausted e i r s =
    (if 0 < rs_max_executions r \<and> rs_max_executions r \<le> rs_executions_completed r
     then emit (ScheduleExhausted (rs_owner r) i (unwrap_or (checked_mul (rs_amount r) (int (rs_executions_completed r))) i128_max)
        (env_timestamp e)) s
     else s)"

definition execute_contribution :: "'led xfer \<Rightarrow> env \<Rightarrow> nat \<Rightarrow> recurring_state \<times> 'led
    \<Rightarrow> (recurring_state \<times> 'led, recurring_error, int) outcome" where
  "execute_contribution pull e i w = (case w of (s, l) \<Rightarrow>
     case require_initialized s of Inl t \<Rightarrow> Inl t | Inr _ \<Rightarrow>
     case load_schedule i s of Inl t \<Rightarrow> Inl t | Inr r \<Rightarrow>
     if rs_status r \<noteq> Active then Inl (ContractError ScheduleInactive) else
     if env_timestamp e < rs_next_execution_at r then Inl (ContractError NotDueYet) else
     case advance_schedule r of Inl t \<Rightarrow> Inl t | Inr r1 \<Rightarrow>
     let s1 = save_schedule i r1 s in
     case pull e (rs_token r1) (rs_owner r1) (rs_savings_goal r1) (rs_amount r1) l of None \<Rightarrow> Inl CallTrap | Some l1 \<Rightarrow>
     let s2 = emit (ContributionMade (rs_owner r1) i (rs_amount r1) (rs_executions_completed r1) (rs_next_execution_at r1)
           (env_timestamp e)) s1 in
     Inr (rs_amount r1, announce_exhausted e i r1 s2, l1))"

definition cancel_schedule :: "env \<Rightarrow> address \<Rightarrow> nat \<Rightarrow> recurring_state \<Rightarrow> unit recurring_outcome" where
  "cancel_schedule e caller i s =
    (if \<not> env_auth e caller then Inl AuthTrap else
     case require_initialized s of Inl t \<Rightarrow> Inl t | Inr _ \<Rightarrow>
     case load_schedule i s of Inl t \<Rightarrow> Inl t | Inr r \<Rightarrow>
     if caller \<noteq> rs_owner r then Inl (ContractError Unauthorized) else
     if rs_status r \<noteq> Active then Inl (ContractError ScheduleInactive) else
     Inr ((), emit (ScheduleCancelled (rs_owner r) i (rs_executions_completed r) (env_timestamp e))
       (save_schedule i (r\<lparr>rs_status := Cancelled\<rparr>) s)))"

definition get_schedule :: "nat \<Rightarrow> recurring_state \<Rightarrow> recurring_error trap + recurring_schedule" where
  "get_schedule i s = (case require_initialized s of Inl t \<Rightarrow> Inl t | Inr _ \<Rightarrow> load_schedule i s)"

definition is_due :: "env \<Rightarrow> nat \<Rightarrow> recurring_state \<Rightarrow> recurring_error trap + bool" where
  "is_due e i s = (case load_schedule i s of Inl t \<Rightarrow> Inl t | Inr r \<Rightarrow>
     Inr (rs_status r = Active \<and> rs_next_execution_at r \<le> env_timestamp e))"

definition schedule_count :: "recurring_state \<Rightarrow> nat" where
  "schedule_count s = unwrap_or (rc_next_schedule_id s) 0"

datatype recurring_call =
    CInitialize address
  | CCreate address address address int nat nat
  | CExecute nat
  | CCancel address nat

definition keep_ledger :: "'led \<Rightarrow> 'a recurring_outcome \<Rightarrow> recurring_error trap + (recurring_state \<times> 'led)" where
  "keep_ledger l r = (case r of Inl t \<Rightarrow> Inl t | Inr (_, s) \<Rightarrow> Inr (s, l))"

fun recurring_exec :: "'led xfer \<Rightarrow> env \<times> recurring_call \<Rightarrow> recurring_state \<times> 'led
    \<Rightarrow> recurring_error trap + (recurring_state \<times> 'led)" where
  "recurring_exec pull (e, CInitialize a) (s, l) = keep_ledger l (initialize a s)"
| "recurring_exec pull (e, CCreate a t g n d m) (s, l) = keep_ledger l (create_schedule e a t g n d m s)"
| "recurring_exec pull (e, CExecute i) (s, l) = final (execute_contribution pull e i (s, l))"
| "recurring_exec pull (e, CCancel a i) (s, l) = keep_ledger l (cancel_schedule e a i s)"

lemma keep_ledger_Inr [simp]: "keep_ledger l r = Inr (s', l') \<longleftrightarrow> l' = l \<and> (\<exists>a. r = Inr (a, s'))"
  by (auto simp: keep_ledger_def split: sum.splits)

lemma keep_ledger_simps [simp]: "keep_ledger l (Inl t) = Inl t" "keep_ledger l (Inr (a, s)) = Inr (s, l)"
  by (simp_all add: keep_ledger_def)

section \<open>The cadence\<close>

text \<open>The contributions of a schedule in the events: ordinal and time.\<close>

definition contributions :: "nat \<Rightarrow> recurring_event list \<Rightarrow> (nat \<times> nat) list" where
  "contributions i evs = concat (map (\<lambda>ev. case ev of ContributionMade a j n k x t \<Rightarrow> if j = i then [(k, t)] else [] | _ \<Rightarrow> []) evs)"

lemma contributions_simps [simp]:
  "contributions i [] = []"
  "contributions i (ev # evs) =
     (case ev of ContributionMade a j n k x t \<Rightarrow> if j = i then [(k, t)] else [] | _ \<Rightarrow> []) @ contributions i evs"
  "contributions i (xs @ ys) = contributions i xs @ contributions i ys"
  by (simp_all add: contributions_def split: recurring_event.split)

definition schedule_sound :: "(nat \<times> nat) list \<Rightarrow> recurring_schedule \<Rightarrow> bool" where
  "schedule_sound cs r \<longleftrightarrow>
     0 < rs_amount r \<and> MIN_INTERVAL_SECS \<le> rs_interval_secs r \<and> rs_owner r \<noteq> rs_savings_goal r
   \<and> rs_next_execution_at r = rs_created_at r + (rs_executions_completed r + 1) * rs_interval_secs r
   \<and> (rs_max_executions r = 0 \<or> rs_executions_completed r \<le> rs_max_executions r)
   \<and> (rs_status r = Exhausted \<longleftrightarrow> 0 < rs_max_executions r \<and> rs_executions_completed r = rs_max_executions r)
   \<and> map fst cs = [1..<Suc (rs_executions_completed r)]
   \<and> list_all (\<lambda>(k, t). rs_created_at r + k * rs_interval_secs r \<le> t) cs"

definition recurring_inv :: "recurring_state \<Rightarrow> bool" where
  "recurring_inv s \<longleftrightarrow>
     dom (rc_schedule s) = {..<unwrap_or (rc_next_schedule_id s) 0} \<and> (rc_admin s = None \<longrightarrow> rc_schedule s = Map.empty)
   \<and> (\<forall>i. case rc_schedule s i of None \<Rightarrow> contributions i (rc_events s) = []
        | Some r \<Rightarrow> schedule_sound (contributions i (rc_events s)) r)"

lemma recurring_inv_fresh: "recurring_inv recurring_fresh"
  by (simp add: recurring_inv_def recurring_fresh_def)

lemma schedule_sound_advance:
  assumes "schedule_sound cs r" and "advance_schedule r = Inr r1" and "rs_status r = Active" and "rs_next_execution_at r \<le> now"
  shows "schedule_sound (cs @ [(rs_executions_completed r1, now)]) r1"
  using assms by (auto simp: schedule_sound_def advance_schedule_def u32_add_def Let_def split: option.splits if_splits)

lemma recurring_emit_fields [simp]:
  "rc_admin (emit ev s) = rc_admin s" "rc_next_schedule_id (emit ev s) = rc_next_schedule_id s"
  "rc_schedule (emit ev s) = rc_schedule s" "rc_events (emit ev s) = rc_events s @ [ev]"
  by (simp_all add: emit_def)

lemma execute_contribution_Inr:
  assumes "execute_contribution pull e i (s, l) = Inr (x, s', l')"
  shows "\<exists>r r1. rc_admin s \<noteq> None \<and> rc_schedule s i = Some r \<and> rs_status r = Active \<and> rs_next_execution_at r \<le> env_timestamp e
    \<and> advance_schedule r = Inr r1 \<and> x = rs_amount r1 \<and> pull e (rs_token r1) (rs_owner r1) (rs_savings_goal r1) (rs_amount r1) l = Some l'
    \<and> rc_schedule s' = (rc_schedule s)(i \<mapsto> r1) \<and> rc_admin s' = rc_admin s \<and> rc_next_schedule_id s' = rc_next_schedule_id s
    \<and> (\<forall>j. contributions j (rc_events s') = contributions j (rc_events s)
          @ (if j = i then [(rs_executions_completed r1, env_timestamp e)] else []))"
  using assms
  by (auto simp: execute_contribution_def require_initialized_def load_schedule_def save_schedule_def announce_exhausted_def
      Let_def split: option.splits sum.splits if_splits)

lemma create_schedule_Inr:
  assumes "create_schedule e a t g n d m s = Inr (i, s')"
  shows "rc_admin s \<noteq> None \<and> env_auth e a \<and> 0 < n \<and> MIN_INTERVAL_SECS \<le> d \<and> g \<noteq> a \<and> i = unwrap_or (rc_next_schedule_id s) 0
    \<and> rc_schedule s' = (rc_schedule s)(i \<mapsto> \<lparr>rs_owner = a, rs_token = t, rs_savings_goal = g, rs_amount = n,
           rs_interval_secs = d, rs_next_execution_at = env_timestamp e + d, rs_executions_completed = 0,
           rs_max_executions = m, rs_status = Active, rs_created_at = env_timestamp e\<rparr>)
    \<and> rc_admin s' = rc_admin s \<and> rc_next_schedule_id s' = Some (Suc i)
    \<and> contributions j (rc_events s') = contributions j (rc_events s)"
  using assms
  by (auto simp: create_schedule_def require_initialized_def save_schedule_def next_schedule_id_def Let_def
      split: option.splits sum.splits if_splits)

lemma cancel_schedule_Inr:
  assumes "cancel_schedule e a i s = Inr (u, s')"
  shows "\<exists>r. rc_admin s \<noteq> None \<and> rc_schedule s i = Some r \<and> rs_status r = Active \<and> env_auth e a \<and> a = rs_owner r
    \<and> rc_schedule s' = (rc_schedule s)(i \<mapsto> r\<lparr>rs_status := Cancelled\<rparr>) \<and> rc_admin s' = rc_admin s
    \<and> rc_next_schedule_id s' = rc_next_schedule_id s \<and> (\<forall>j. contributions j (rc_events s') = contributions j (rc_events s))"
  using assms
  by (auto simp: cancel_schedule_def require_initialized_def load_schedule_def save_schedule_def
      split: option.splits sum.splits if_splits)

lemma recurring_inv_again:
  assumes "recurring_inv s" and "dom (rc_schedule s') = {..<unwrap_or (rc_next_schedule_id s') 0}" and "rc_admin s' \<noteq> None"
    and "\<And>j. case rc_schedule s' j of None \<Rightarrow> contributions j (rc_events s') = []
        | Some r \<Rightarrow> schedule_sound (contributions j (rc_events s')) r"
  shows "recurring_inv s'"
  using assms by (auto simp: recurring_inv_def)

lemma recurring_step_inv:
  assumes run: "recurring_exec pull k w = Inr w'" and inv: "recurring_inv (fst w)"
  shows "recurring_inv (fst w')"
proof -
  obtain e c where k: "k = (e, c)" by (cases k)
  obtain s l where w: "w = (s, l)" by (cases w)
  obtain s' l' where w': "w' = (s', l')" by (cases w')
  have inv: "recurring_inv s" using inv by (simp add: w)
  then have dom: "dom (rc_schedule s) = {..<unwrap_or (rc_next_schedule_id s) 0}"
    and sound: "case rc_schedule s j of None \<Rightarrow> contributions j (rc_events s) = []
        | Some r \<Rightarrow> schedule_sound (contributions j (rc_events s)) r" for j
    by (auto simp: recurring_inv_def)
  have "recurring_inv s'"
  proof (cases c)
    case (CInitialize a)
    with run inv show ?thesis
      by (auto simp: k w w' initialize_def recurring_inv_def split: if_splits)
  next
    case (CCreate a t g n d m)
    with run obtain i where "create_schedule e a t g n d m s = Inr (i, s')" by (auto simp: k w w')
    note r = create_schedule_Inr [OF this]
    have free: "contributions (unwrap_or (rc_next_schedule_id s) 0) (rc_events s) = []"
      using dom sound [of "unwrap_or (rc_next_schedule_id s) 0"] by (auto split: option.splits)
    show ?thesis
    proof (rule recurring_inv_again [OF inv])
      show "case rc_schedule s' j of None \<Rightarrow> contributions j (rc_events s') = []
        | Some r \<Rightarrow> schedule_sound (contributions j (rc_events s')) r" for j
        using r [of j] sound [of j] free by (auto simp: schedule_sound_def split: option.splits)
    qed (use r dom in auto)
  next
    case (CExecute i)
    with run obtain x where "execute_contribution pull e i (s, l) = Inr (x, s', l')" by (auto simp: k w w')
    from execute_contribution_Inr [OF this] obtain r r1 where r: "rc_admin s \<noteq> None" "rc_schedule s i = Some r" "rs_status r = Active"
        "rs_next_execution_at r \<le> env_timestamp e" "advance_schedule r = Inr r1" "rc_schedule s' = (rc_schedule s)(i \<mapsto> r1)"
        "rc_admin s' = rc_admin s" "rc_next_schedule_id s' = rc_next_schedule_id s"
        "\<And>j. contributions j (rc_events s') = contributions j (rc_events s)
          @ (if j = i then [(rs_executions_completed r1, env_timestamp e)] else [])"
      by auto
    show ?thesis
    proof (rule recurring_inv_again [OF inv])
      show "case rc_schedule s' j of None \<Rightarrow> contributions j (rc_events s') = []
        | Some r \<Rightarrow> schedule_sound (contributions j (rc_events s')) r" for j
        using r sound [of j] schedule_sound_advance [of _ r r1] by (auto split: option.splits)
    qed (use r dom in auto)
  next
    case (CCancel a i)
    with run have "cancel_schedule e a i s = Inr ((), s')" by (auto simp: k w w')
    from cancel_schedule_Inr [OF this] obtain r where r: "rc_admin s \<noteq> None" "rc_schedule s i = Some r" "rs_status r = Active"
        "rc_schedule s' = (rc_schedule s)(i \<mapsto> r\<lparr>rs_status := Cancelled\<rparr>)" "rc_admin s' = rc_admin s"
        "rc_next_schedule_id s' = rc_next_schedule_id s" "\<And>j. contributions j (rc_events s') = contributions j (rc_events s)"
      by auto
    show ?thesis
    proof (rule recurring_inv_again [OF inv])
      show "case rc_schedule s' j of None \<Rightarrow> contributions j (rc_events s') = []
        | Some r \<Rightarrow> schedule_sound (contributions j (rc_events s')) r" for j
        using r sound [of j] by (auto simp: schedule_sound_def split: option.splits)
    qed (use r dom in auto)
  qed
  then show ?thesis by (simp add: w')
qed

interpretation savings: contract_invariant "recurring_exec pull" "\<lambda>w. recurring_inv (fst w)" "\<lambda>_. True" for pull
  by unfold_locales (rule recurring_step_inv)

section \<open>Properties\<close>

text \<open>C27: Contributions keep their cadence.  After any calls, the contributions made for a schedule are numbered without
  gaps, the k-th was not made before k intervals (of at least an hour) since the schedule was created, there are never more
  than the owner allowed, and a schedule is exhausted exactly when that many were made.\<close>

theorem savings_cadence:
  assumes "get_schedule i (fst (run (recurring_exec pull) cs (recurring_fresh, l))) = Inr r"
    and "contributions i (rc_events (fst (run (recurring_exec pull) cs (recurring_fresh, l)))) = made"
  shows "map fst made = [1..<Suc (rs_executions_completed r)]
    \<and> list_all (\<lambda>(k, t). rs_created_at r + k * rs_interval_secs r \<le> t) made \<and> 3600 \<le> rs_interval_secs r
    \<and> rs_next_execution_at r = rs_created_at r + (rs_executions_completed r + 1) * rs_interval_secs r
    \<and> (rs_max_executions r = 0 \<or> rs_executions_completed r \<le> rs_max_executions r)
    \<and> (rs_status r = Exhausted \<longleftrightarrow> 0 < rs_max_executions r \<and> rs_executions_completed r = rs_max_executions r)"
proof -
  have "recurring_inv (fst (run (recurring_exec pull) cs (recurring_fresh, l)))"
    by (rule savings.run_inv) (simp_all add: recurring_inv_fresh)
  then have "schedule_sound made r"
    using assms by (auto simp: recurring_inv_def get_schedule_def load_schedule_def split: sum.splits option.splits dest!: spec [of _ i])
  then show ?thesis by (auto simp: schedule_sound_def MIN_INTERVAL_SECS_def)
qed

text \<open>Due means executable.  A contribution can be executed by anybody exactly when its schedule is due, the token lets
  the contract take the amount from the owner, and the counters can still grow.\<close>

theorem savings_due_exact:
  assumes "rc_admin s \<noteq> None" and "rc_schedule s i = Some r"
  shows "(\<exists>w'. execute_contribution pull e i (s, l) = Inr w') \<longleftrightarrow>
    is_due e i s = Inr True \<and> pull e (rs_token r) (rs_owner r) (rs_savings_goal r) (rs_amount r) l \<noteq> None
    \<and> in_u32 (rs_executions_completed r + 1) \<and> in_u64 (rs_next_execution_at r + rs_interval_secs r)"
  using assms
  by (auto simp: execute_contribution_def require_initialized_def load_schedule_def is_due_def advance_schedule_def u32_add_def
      u64_add_def Let_def split: option.splits)

section \<open>Witnesses\<close>

definition demo_savings :: "(env \<times> recurring_call) list" where
  "demo_savings =
     [(signed_env [] 1 0 (Addr 9), CInitialize (Addr 1)),
      (signed_env [Addr 2] 1 100 (Addr 9), CCreate (Addr 2) (Addr 7) (Addr 3) 50 3600 2),
      (signed_env [] 1 3699 (Addr 9), CExecute 0),
      (signed_env [] 1 9000 (Addr 9), CExecute 0),
      (signed_env [] 1 9001 (Addr 9), CExecute 0),
      (signed_env [] 1 99999 (Addr 9), CExecute 0)]"

definition demo_pull :: "int xfer" where
  "demo_pull e t a b n l = (if n \<le> l then Some (l - n) else None)"

lemma demo_savings_run: "run (recurring_exec demo_pull) demo_savings (recurring_fresh, 120) =
  (\<lparr>rc_admin = Some (Addr 1), rc_next_schedule_id = Some 1,
    rc_schedule = [0 \<mapsto> \<lparr>rs_owner = Addr 2, rs_token = Addr 7, rs_savings_goal = Addr 3, rs_amount = 50, rs_interval_secs = 3600,
       rs_next_execution_at = 10900, rs_executions_completed = 2, rs_max_executions = 2, rs_status = Exhausted, rs_created_at = 100\<rparr>],
    rc_events = [ScheduleCreated (Addr 2) 0 (Addr 7) 50 3600 100, ContributionMade (Addr 2) 0 50 1 7300 9000,
       ContributionMade (Addr 2) 0 50 2 10900 9001, ScheduleExhausted (Addr 2) 0 100 9001]\<rparr>, 20)"
  by (simp add: demo_savings_def recurring_fresh_def initialize_def create_schedule_def require_initialized_def next_schedule_id_def
      save_schedule_def load_schedule_def execute_contribution_def advance_schedule_def announce_exhausted_def demo_pull_def
      MIN_INTERVAL_SECS_def emit_def Let_def arith_defs del: One_nat_def)

theorem savings_cadence_witness:
  "map fst (contributions 0 (rc_events (fst (run (recurring_exec demo_pull) demo_savings (recurring_fresh, 120))))) = [1..<3]"
proof -
  let ?s = "fst (run (recurring_exec demo_pull) demo_savings (recurring_fresh, 120))"
  have "get_schedule 0 ?s = Inr (the (rc_schedule ?s 0))" "rs_executions_completed (the (rc_schedule ?s 0)) = 2"
    unfolding demo_savings_run by (simp_all add: get_schedule_def require_initialized_def load_schedule_def)
  with savings_cadence [OF _ refl, of 0 demo_pull demo_savings 120 "the (rc_schedule ?s 0)"] show ?thesis
    by (simp add: numeral_3_eq_3)
qed

end
