(* ===== verification/Delegation.thy ===== *)
theory Delegation
  imports Host
begin

text \<open>
  \<open>contracts/delegation.rs\<close>: spending limits an owner grants to a delegate.  An \<open>Err\<close> that an entry point returns is a
  contract error for the host, which rolls the call back like a panic; both are \<open>Inl\<close>.  The module is declared by
  \<open>contracts/lib.rs\<close>, which no crate builds.
\<close>

datatype delegation_error = InvalidAddress | InvalidAmount | Unauthorized | AmountTooLarge | Overflow

record delegation =
  dg_limit :: int
  dg_spent :: int

datatype delegation_event =
    Granted address address int
  | Revoked address address
  | Consumed address address int

record delegation_state =
  dg_allowance :: "address \<times> address \<rightharpoonup> delegation"
  dg_events :: "delegation_event list"

definition delegation_fresh :: delegation_state where
  "delegation_fresh = \<lparr>dg_allowance = Map.empty, dg_events = []\<rparr>"

type_synonym 'a delegation_outcome = "(delegation_state, delegation_error, 'a) outcome"

definition set_delegation :: "env \<Rightarrow> address \<Rightarrow> address \<Rightarrow> int \<Rightarrow> delegation_state \<Rightarrow> unit delegation_outcome" where
  "set_delegation e own delegate limit s =
    (if \<not> env_auth e own then Inl AuthTrap else
     if own = delegate then Inl (ContractError InvalidAddress) else
     if limit \<le> 0 then Inl (ContractError InvalidAmount) else
     let d = unwrap_or (dg_allowance s (own, delegate)) \<lparr>dg_limit = 0, dg_spent = 0\<rparr> in
     Inr ((), s\<lparr>dg_allowance := (dg_allowance s)((own, delegate) \<mapsto> d\<lparr>dg_limit := limit\<rparr>),
       dg_events := dg_events s @ [Granted own delegate limit]\<rparr>))"

definition revoke_delegation :: "env \<Rightarrow> address \<Rightarrow> address \<Rightarrow> delegation_state \<Rightarrow> unit delegation_outcome" where
  "revoke_delegation e own delegate s =
    (if \<not> env_auth e own then Inl AuthTrap else
     Inr ((), if dg_allowance s (own, delegate) \<noteq> None
       then s\<lparr>dg_allowance := (dg_allowance s)((own, delegate) := None), dg_events := dg_events s @ [Revoked own delegate]\<rparr>
       else s))"

definition consume_allowance :: "env \<Rightarrow> address \<Rightarrow> address \<Rightarrow> int \<Rightarrow> delegation_state \<Rightarrow> unit delegation_outcome" where
  "consume_allowance e own delegate amount s =
    (if \<not> env_auth e delegate then Inl AuthTrap else
     if amount \<le> 0 then Inl (ContractError InvalidAmount) else
     case dg_allowance s (own, delegate) of None \<Rightarrow> Inl (ContractError Unauthorized) | Some d \<Rightarrow>
     case checked_add (dg_spent d) amount of None \<Rightarrow> Inl (ContractError Overflow) | Some new_spent \<Rightarrow>
     if dg_limit d < new_spent then Inl (ContractError AmountTooLarge) else
     Inr ((), s\<lparr>dg_allowance := (dg_allowance s)((own, delegate) \<mapsto> d\<lparr>dg_spent := new_spent\<rparr>),
       dg_events := dg_events s @ [Consumed own delegate amount]\<rparr>))"

definition get_delegation :: "address \<Rightarrow> address \<Rightarrow> delegation_state \<Rightarrow> delegation option" where
  "get_delegation own delegate s = dg_allowance s (own, delegate)"

datatype delegation_call =
    CSet address address int
  | CRevoke address address
  | CConsume address address int

fun delegation_exec :: "env \<times> delegation_call \<Rightarrow> delegation_state \<Rightarrow> delegation_error trap + delegation_state" where
  "delegation_exec (e, CSet a b n) s = final (set_delegation e a b n s)"
| "delegation_exec (e, CRevoke a b) s = final (revoke_delegation e a b s)"
| "delegation_exec (e, CConsume a b n) s = final (consume_allowance e a b n s)"

section \<open>The contract as a reading of its events\<close>

text \<open>A delegation as its events make it: a grant sets the limit and keeps what was spent, a revocation forgets both.  A
  use is within bounds when it is positive and fits what is left of the limit at that time.\<close>

fun grant_step :: "address \<Rightarrow> address \<Rightarrow> delegation_event \<Rightarrow> delegation option \<Rightarrow> delegation option" where
  "grant_step a b (Granted a1 b1 n) d =
     (if a1 = a \<and> b1 = b then Some \<lparr>dg_limit = n, dg_spent = (case d of None \<Rightarrow> 0 | Some x \<Rightarrow> dg_spent x)\<rparr> else d)"
| "grant_step a b (Revoked a1 b1) d = (if a1 = a \<and> b1 = b then None else d)"
| "grant_step a b (Consumed a1 b1 n) d =
     (if a1 = a \<and> b1 = b then map_option (\<lambda>x. \<lparr>dg_limit = dg_limit x, dg_spent = dg_spent x + n\<rparr>) d else d)"

definition grant_of :: "address \<Rightarrow> address \<Rightarrow> delegation_event list \<Rightarrow> delegation option" where
  "grant_of a b evs = fold (grant_step a b) evs None"

definition use_ok :: "delegation_event list \<Rightarrow> delegation_event \<Rightarrow> bool" where
  "use_ok evs ev = (case ev of Consumed a b n \<Rightarrow>
     0 < n \<and> (case grant_of a b evs of None \<Rightarrow> False | Some d \<Rightarrow> dg_spent d + n \<le> dg_limit d) | _ \<Rightarrow> True)"

fun uses_ok :: "delegation_event list \<Rightarrow> delegation_event list \<Rightarrow> bool" where
  "uses_ok before [] = True"
| "uses_ok before (ev # evs) = (use_ok before ev \<and> uses_ok (before @ [ev]) evs)"

lemma grant_of_snoc [simp]: "grant_of a b (evs @ [ev]) = grant_step a b ev (grant_of a b evs)"
  by (simp add: grant_of_def)

lemma uses_ok_snoc [simp]: "uses_ok before (evs @ [ev]) \<longleftrightarrow> uses_ok before evs \<and> use_ok (before @ evs) ev"
  by (induction evs arbitrary: before) auto

definition delegation_inv :: "delegation_state \<Rightarrow> bool" where
  "delegation_inv s \<longleftrightarrow> (\<forall>a b. dg_allowance s (a, b) = grant_of a b (dg_events s)) \<and> uses_ok [] (dg_events s)"

lemma delegation_step_inv:
  assumes "delegation_exec k s = Inr s'" and "delegation_inv s"
  shows "delegation_inv s'"
proof -
  obtain e c where k: "k = (e, c)" by (cases k)
  from assms show ?thesis unfolding k
    by (cases c)
      (auto simp: set_delegation_def revoke_delegation_def consume_allowance_def delegation_inv_def use_ok_def unwrap_or_def Let_def
        split: if_splits option.splits)
qed

interpretation delegations: contract_invariant delegation_exec delegation_inv "\<lambda>_. True"
  by unfold_locales (rule delegation_step_inv)

text \<open>Delegated spending is bounded.  After any calls, every delegation is what its events make of it (a new grant
  changes the limit and keeps what was spent, only a revocation forgets it), and every use was positive and within what
  was left of the limit then in force.\<close>

theorem delegations_bounded:
  "let s = run delegation_exec cs delegation_fresh in
     get_delegation a b s = grant_of a b (dg_events s) \<and> uses_ok [] (dg_events s)"
proof -
  have "delegation_inv (run delegation_exec cs delegation_fresh)"
    by (rule delegations.run_inv) (simp_all add: delegation_inv_def delegation_fresh_def grant_of_def)
  then show ?thesis by (simp add: delegation_inv_def get_delegation_def Let_def)
qed

end
