(* ===== verification/Wallet_Linking.thy ===== *)
theory Wallet_Linking
  imports Host
begin

text \<open>
  \<open>contracts/wallet.rs\<close>: wallets linked to owners, and their verification.  The free functions and the entry points that
  forward to them are one definition each; a signature is a list of bytes, of which the code looks only at the length.
  An event published by a call that then fails is rolled back with it and not modelled.  The file is declared by no crate.
\<close>

section \<open>Data\<close>

record linked_wallet =
  lw_wallet_address :: address
  lw_owner_address :: address
  lw_verification_timestamp :: nat
  lw_is_verified :: bool
  lw_verification_nonce :: nat

record challenge =
  vc_challenge_id :: nat
  vc_wallet_address :: address
  vc_challenger_address :: address
  vc_nonce :: nat
  vc_created_at :: nat
  vc_expires_at :: nat
  vc_is_completed :: bool

datatype wallet_error =
    NotInitialized | AlreadyInitialized | Unauthorized | WalletNotLinked | WalletAlreadyLinked | VerificationFailed
  | InvalidSignature | ChallengeExpired | ChallengeNotFound | AlreadyVerified | SpoofedCall | InvalidNonce
  | WalletOwnershipMismatch

datatype wallet_event =
    WalletLinked address address nat
  | WalletUnlinked address address nat
  | VerificationStarted nat address address nat
  | VerificationCompleted nat address bool nat
  | OwnershipVerified address address nat nat

record wallet_state =
  wl_admin :: "address option"
  wl_linked :: "address \<rightharpoonup> linked_wallet"
  wl_challenge :: "address \<times> nat \<rightharpoonup> challenge"
  wl_owner :: "address \<rightharpoonup> address"
  wl_status :: "address \<rightharpoonup> bool"
  wl_events :: "wallet_event list"

definition wallet_fresh :: wallet_state where
  "wallet_fresh = \<lparr>wl_admin = None, wl_linked = Map.empty, wl_challenge = Map.empty, wl_owner = Map.empty,
     wl_status = Map.empty, wl_events = []\<rparr>"

type_synonym 'a wallet_outcome = "(wallet_state, wallet_error, 'a) outcome"

definition emit :: "wallet_event \<Rightarrow> wallet_state \<Rightarrow> wallet_state" where
  "emit ev s = s\<lparr>wl_events := wl_events s @ [ev]\<rparr>"

section \<open>Linking\<close>

definition initialize_wallet_contract :: "address \<Rightarrow> wallet_state \<Rightarrow> unit wallet_outcome" where
  "initialize_wallet_contract admin s =
    (if wl_admin s \<noteq> None then Inl (ContractError AlreadyInitialized) else Inr ((), s\<lparr>wl_admin := Some admin\<rparr>))"

definition get_admin :: "wallet_state \<Rightarrow> wallet_error trap + address" where
  "get_admin s = (case wl_admin s of None \<Rightarrow> Inl (ContractError NotInitialized) | Some a \<Rightarrow> Inr a)"

definition require_admin :: "env \<Rightarrow> address \<Rightarrow> wallet_state \<Rightarrow> wallet_error trap + unit" where
  "require_admin e caller s =
    (if \<not> env_auth e caller then Inl AuthTrap else
     case get_admin s of Inl t \<Rightarrow> Inl t | Inr admin \<Rightarrow> if admin \<noteq> caller then Inl (ContractError Unauthorized) else Inr ())"

definition load_wallet :: "address \<Rightarrow> wallet_state \<Rightarrow> wallet_error trap + linked_wallet" where
  "load_wallet wallet s = (case wl_linked s wallet of None \<Rightarrow> Inl (ContractError WalletNotLinked) | Some i \<Rightarrow> Inr i)"

definition link_wallet :: "env \<Rightarrow> address \<Rightarrow> address \<Rightarrow> address \<Rightarrow> wallet_state \<Rightarrow> unit wallet_outcome" where
  "link_wallet e caller wallet own s =
    (if \<not> env_auth e caller then Inl AuthTrap else
     if wallet = own then Inl (ContractError InvalidSignature) else
     case get_admin s of Inl t \<Rightarrow> Inl t | Inr admin \<Rightarrow>
     if caller \<noteq> admin \<and> caller \<noteq> own then Inl (ContractError Unauthorized) else
     if wl_linked s wallet \<noteq> None then Inl (ContractError WalletAlreadyLinked) else
     let info = \<lparr>lw_wallet_address = wallet, lw_owner_address = own, lw_verification_timestamp = 0, lw_is_verified = False,
           lw_verification_nonce = 0\<rparr> in
     Inr ((), emit (WalletLinked wallet own (env_timestamp e))
       (s\<lparr>wl_linked := (wl_linked s)(wallet \<mapsto> info), wl_owner := (wl_owner s)(own \<mapsto> wallet)\<rparr>)))"

definition unlink_wallet :: "env \<Rightarrow> address \<Rightarrow> address \<Rightarrow> wallet_state \<Rightarrow> unit wallet_outcome" where
  "unlink_wallet e caller wallet s =
    (if \<not> env_auth e caller then Inl AuthTrap else
     case load_wallet wallet s of Inl t \<Rightarrow> Inl t | Inr info \<Rightarrow>
     case get_admin s of Inl t \<Rightarrow> Inl t | Inr admin \<Rightarrow>
     if caller \<noteq> lw_owner_address info \<and> caller \<noteq> admin then Inl (ContractError Unauthorized) else
     Inr ((), emit (WalletUnlinked wallet (lw_owner_address info) (env_timestamp e))
       (s\<lparr>wl_linked := (wl_linked s)(wallet := None), wl_owner := (wl_owner s)(lw_owner_address info := None),
          wl_status := (wl_status s)(wallet := None)\<rparr>)))"

section \<open>Verification\<close>

definition verify_wallet_ownership :: "env \<Rightarrow> address \<Rightarrow> address \<Rightarrow> nat list \<Rightarrow> wallet_state \<Rightarrow> bool wallet_outcome" where
  "verify_wallet_ownership e wallet signer signature s =
    (if \<not> env_auth e signer then Inl AuthTrap else
     case load_wallet wallet s of Inl t \<Rightarrow> Inl t | Inr info \<Rightarrow>
     if lw_owner_address info \<noteq> signer then Inl (ContractError WalletOwnershipMismatch) else
     case u64_add (lw_verification_nonce info) 1 of None \<Rightarrow> Inl (ContractError InvalidNonce) | Some current_nonce \<Rightarrow>
     let info1 = info\<lparr>lw_verification_nonce := current_nonce, lw_verification_timestamp := env_timestamp e, lw_is_verified := True\<rparr> in
     Inr (True, emit (OwnershipVerified wallet signer current_nonce (env_timestamp e))
       (s\<lparr>wl_linked := (wl_linked s)(wallet \<mapsto> info1), wl_status := (wl_status s)(wallet \<mapsto> True)\<rparr>)))"

definition create_verification_challenge :: "env \<Rightarrow> address \<Rightarrow> address \<Rightarrow> wallet_state \<Rightarrow> nat wallet_outcome" where
  "create_verification_challenge e challenger wallet s =
    (if \<not> env_auth e challenger then Inl AuthTrap else
     case load_wallet wallet s of Inl t \<Rightarrow> Inl t | Inr _ \<Rightarrow>
     let challenge_id = env_sequence e in
     case u64_add (env_timestamp e) 3600 of None \<Rightarrow> Inl ArithTrap | Some expires_at \<Rightarrow>
     let c = \<lparr>vc_challenge_id = challenge_id, vc_wallet_address = wallet, vc_challenger_address = challenger,
           vc_nonce = env_timestamp e, vc_created_at = env_timestamp e, vc_expires_at = expires_at, vc_is_completed = False\<rparr> in
     Inr (challenge_id, emit (VerificationStarted challenge_id wallet challenger (env_timestamp e))
       (s\<lparr>wl_challenge := (wl_challenge s)((wallet, challenge_id) \<mapsto> c)\<rparr>)))"

definition complete_verification_challenge :: "env \<Rightarrow> address \<Rightarrow> nat \<Rightarrow> nat list \<Rightarrow> wallet_state \<Rightarrow> bool wallet_outcome" where
  "complete_verification_challenge e wallet challenge_id signature s =
    (case wl_challenge s (wallet, challenge_id) of None \<Rightarrow> Inl (ContractError ChallengeNotFound) | Some c \<Rightarrow>
     if vc_expires_at c < env_timestamp e then Inl (ContractError ChallengeExpired) else
     if vc_is_completed c then Inl (ContractError AlreadyVerified) else
     case load_wallet wallet s of Inl t \<Rightarrow> Inl t | Inr info \<Rightarrow>
     if \<not> 0 < length signature then Inl (ContractError InvalidSignature) else
     let info1 = info\<lparr>lw_is_verified := True, lw_verification_timestamp := env_timestamp e\<rparr> in
     Inr (True, emit (VerificationCompleted challenge_id wallet True (env_timestamp e))
       (s\<lparr>wl_challenge := (wl_challenge s)((wallet, challenge_id) \<mapsto> c\<lparr>vc_is_completed := True\<rparr>),
          wl_linked := (wl_linked s)(wallet \<mapsto> info1), wl_status := (wl_status s)(wallet \<mapsto> True)\<rparr>)))"

definition is_wallet_verified :: "address \<Rightarrow> wallet_state \<Rightarrow> bool" where
  "is_wallet_verified wallet s = unwrap_or (wl_status s wallet) False"

definition get_wallet_info :: "address \<Rightarrow> wallet_state \<Rightarrow> linked_wallet option" where
  "get_wallet_info wallet s = wl_linked s wallet"

definition get_wallet_owner :: "address \<Rightarrow> wallet_state \<Rightarrow> address option" where
  "get_wallet_owner wallet s = map_option lw_owner_address (wl_linked s wallet)"

definition require_verified_wallet :: "env \<Rightarrow> address \<Rightarrow> address \<Rightarrow> wallet_state \<Rightarrow> wallet_error trap + unit" where
  "require_verified_wallet e wallet caller s =
    (case load_wallet wallet s of Inl t \<Rightarrow> Inl t | Inr info \<Rightarrow>
     if \<not> lw_is_verified info then Inl (ContractError VerificationFailed) else
     if lw_owner_address info \<noteq> caller then Inl (ContractError SpoofedCall) else
     if \<not> env_auth e caller then Inl AuthTrap else Inr ())"

definition validate_wallet_action :: "address \<Rightarrow> address \<Rightarrow> wallet_state \<Rightarrow> wallet_error + unit" where
  "validate_wallet_action wallet signer s =
    (case wl_linked s wallet of None \<Rightarrow> Inl WalletNotLinked | Some info \<Rightarrow>
     if \<not> lw_is_verified info then Inl VerificationFailed else
     if lw_owner_address info \<noteq> signer then Inl SpoofedCall else Inr ())"

datatype wallet_call =
    CInitialize address
  | CLink address address address
  | CUnlink address address
  | CVerify address address "nat list"
  | CChallenge address address
  | CComplete address nat "nat list"

fun wallet_exec :: "env \<times> wallet_call \<Rightarrow> wallet_state \<Rightarrow> wallet_error trap + wallet_state" where
  "wallet_exec (e, CInitialize a) s = final (initialize_wallet_contract a s)"
| "wallet_exec (e, CLink c w a) s = final (link_wallet e c w a s)"
| "wallet_exec (e, CUnlink c w) s = final (unlink_wallet e c w s)"
| "wallet_exec (e, CVerify w a sig) s = final (verify_wallet_ownership e w a sig s)"
| "wallet_exec (e, CChallenge c w) s = final (create_verification_challenge e c w s)"
| "wallet_exec (e, CComplete w i sig) s = final (complete_verification_challenge e w i sig s)"

section \<open>The invariant\<close>

text \<open>Who linked a wallet last, from the events.\<close>

fun link_step :: "address \<Rightarrow> wallet_event \<Rightarrow> address option \<Rightarrow> address option" where
  "link_step w (WalletLinked v a t) x = (if v = w then Some a else x)"
| "link_step w (WalletUnlinked v a t) x = (if v = w then None else x)"
| "link_step w _ x = x"

definition linked_to :: "address \<Rightarrow> wallet_event list \<Rightarrow> address option" where
  "linked_to w evs = fold (link_step w) evs None"

lemma linked_to_snoc [simp]: "linked_to w (evs @ [ev]) = link_step w ev (linked_to w evs)"
  by (simp add: linked_to_def)

definition wallet_sound :: "address \<Rightarrow> wallet_state \<Rightarrow> bool" where
  "wallet_sound w s \<longleftrightarrow> get_wallet_owner w s = linked_to w (wl_events s)
     \<and> is_wallet_verified w s = (case wl_linked s w of None \<Rightarrow> False | Some i \<Rightarrow> lw_is_verified i)"

lemma wallet_step_inv:
  assumes "wallet_exec k s = Inr s'" and "wallet_sound w s"
  shows "wallet_sound w s'"
proof -
  obtain e c where k: "k = (e, c)" by (cases k)
  from assms show ?thesis unfolding k
    by (cases c)
      (auto simp: initialize_wallet_contract_def link_wallet_def unlink_wallet_def verify_wallet_ownership_def
        create_verification_challenge_def complete_verification_challenge_def load_wallet_def emit_def Let_def
        wallet_sound_def is_wallet_verified_def get_wallet_owner_def split: if_splits option.split_asm sum.split_asm)
qed

interpretation wallets: contract_invariant wallet_exec "wallet_sound w" "\<lambda>_. True" for w
  by unfold_locales (rule wallet_step_inv)

section \<open>Properties\<close>

text \<open>The records of a wallet agree.  After any calls, the owner of a wallet is the one it was last linked to (the link
  and its removal are in the events), the stored status and the record say the same about verification, and a call
  passes the gate for verified wallets exactly when it comes, signed, from the owner of a verified wallet.\<close>

theorem wallet_records_agree:
  "let s = run wallet_exec cs wallet_fresh in
     get_wallet_owner w s = linked_to w (wl_events s)
   \<and> (require_verified_wallet e w a s = Inr () \<longleftrightarrow>
        is_wallet_verified w s \<and> get_wallet_owner w s = Some a \<and> env_auth e a)
   \<and> (validate_wallet_action w a s = Inr () \<longleftrightarrow> is_wallet_verified w s \<and> get_wallet_owner w s = Some a)"
proof -
  have "wallet_sound w (run wallet_exec cs wallet_fresh)"
    by (rule wallets.run_inv)
      (simp_all add: wallet_sound_def wallet_fresh_def get_wallet_owner_def linked_to_def is_wallet_verified_def)
  then show ?thesis
    by (auto simp: wallet_sound_def Let_def require_verified_wallet_def validate_wallet_action_def load_wallet_def
        get_wallet_owner_def split: option.splits)
qed

text \<open>Verification proves nothing.  Whoever wants to, with no signature but its own, makes any linked wallet verified with
  two calls, a challenge and its completion with an arbitrary non-empty list of bytes: neither the owner nor the wallet
  takes part.\<close>

theorem wallet_verified_by_anybody:
  assumes "wl_linked s w = Some info" and "env_auth e a" and "in_u64 (env_timestamp e + 3600)" and "signature \<noteq> []"
  shows "is_wallet_verified w (run wallet_exec [(e, CChallenge a w), (e, CComplete w (env_sequence e) signature)] s)"
  using assms
  by (simp add: create_verification_challenge_def complete_verification_challenge_def load_wallet_def u64_add_def
      is_wallet_verified_def emit_def Let_def)

text \<open>A wallet linked by account 2, verified by account 6.\<close>

theorem wallet_verified_by_anybody_witness:
  "is_wallet_verified (Addr 5)
    (run wallet_exec [(signed_env [Addr 6] 3 100 (Addr 9), CChallenge (Addr 6) (Addr 5)),
        (signed_env [Addr 6] 3 100 (Addr 9), CComplete (Addr 5) 3 [0])]
      (run wallet_exec [(signed_env [] 1 10 (Addr 9), CInitialize (Addr 1)),
        (signed_env [Addr 2] 2 20 (Addr 9), CLink (Addr 2) (Addr 5) (Addr 2))] wallet_fresh))"
proof -
  have "wl_linked (run wallet_exec [(signed_env [] 1 10 (Addr 9), CInitialize (Addr 1)),
        (signed_env [Addr 2] 2 20 (Addr 9), CLink (Addr 2) (Addr 5) (Addr 2))] wallet_fresh) (Addr 5) \<noteq> None"
    by (simp add: wallet_fresh_def initialize_wallet_contract_def link_wallet_def get_admin_def emit_def Let_def)
  then obtain info where "wl_linked (run wallet_exec [(signed_env [] 1 10 (Addr 9), CInitialize (Addr 1)),
        (signed_env [Addr 2] 2 20 (Addr 9), CLink (Addr 2) (Addr 5) (Addr 2))] wallet_fresh) (Addr 5) = Some info" by blast
  from wallet_verified_by_anybody [OF this, of "signed_env [Addr 6] 3 100 (Addr 9)" "Addr 6" "[0]"] show ?thesis
    by (simp add: in_u64_def)
qed

end
