(* ===== verification/Multisig_Withdrawal.thy ===== *)
theory Multisig_Withdrawal
  imports Host
begin

text \<open>
  \<open>contracts/multisig_savings_withdrawal.rs\<close> and \<open>multisig_savings_withdrawal_utils.rs\<close>: withdrawal requests that a quorum of
  approvers carries.  They are library functions over the storage of the contract that calls them; the configuration
  functions leave it to the caller to check for an admin.  The modules are declared by \<open>contracts/lib.rs\<close>, which no crate
  builds.
\<close>

section \<open>Data\<close>

datatype withdrawal_status = Pending | Approved | Executed | Cancelled

record withdrawal_request =
  wq_id :: nat
  wq_requester :: address
  wq_amount :: int
  wq_vault_id :: nat
  wq_created_at :: nat
  wq_approval_count :: nat

datatype withdrawal_error =
    NotInitialized | Unauthorized | InvalidThreshold | InvalidQuorum | WithdrawalNotFound | DuplicateApproval
  | InsufficientApprovals | AlreadyExecuted | InvalidAmount | WithdrawalCancelled | QuorumNotReached
  | UnauthorizedApprover | ThresholdNotInitialized | ApprovalsNotInitialized

datatype withdrawal_event =
    WithdrawalRequested nat address int nat
  | WithdrawalApproved nat address nat nat
  | WithdrawalExecuted nat address int nat

record withdrawal_state =
  wd_threshold :: "int option"
  wd_approvers :: "address list option"
  wd_quorum :: "nat option"
  wd_request :: "nat \<rightharpoonup> withdrawal_request"
  wd_next_id :: "nat option"
  wd_approval :: "nat \<times> address \<rightharpoonup> bool"
  wd_approval_count :: "nat \<rightharpoonup> nat"
  wd_status :: "nat \<rightharpoonup> withdrawal_status"
  wd_events :: "withdrawal_event list"

definition withdrawal_fresh :: withdrawal_state where
  "withdrawal_fresh = \<lparr>wd_threshold = None, wd_approvers = None, wd_quorum = None, wd_request = Map.empty, wd_next_id = None,
     wd_approval = Map.empty, wd_approval_count = Map.empty, wd_status = Map.empty, wd_events = []\<rparr>"

type_synonym 'a withdrawal_outcome = "(withdrawal_state, withdrawal_error, 'a) outcome"

definition emit :: "withdrawal_event \<Rightarrow> withdrawal_state \<Rightarrow> withdrawal_state" where
  "emit ev s = s\<lparr>wd_events := wd_events s @ [ev]\<rparr>"

section \<open>Queries\<close>

definition get_withdrawal_request :: "nat \<Rightarrow> withdrawal_state \<Rightarrow> withdrawal_error trap + withdrawal_request" where
  "get_withdrawal_request i s = (case wd_request s i of None \<Rightarrow> Inl (ContractError WithdrawalNotFound) | Some q \<Rightarrow> Inr q)"

definition get_withdrawal_status :: "nat \<Rightarrow> withdrawal_state \<Rightarrow> withdrawal_status" where
  "get_withdrawal_status i s = unwrap_or (wd_status s i) Pending"

definition get_withdrawal_approval_count :: "nat \<Rightarrow> withdrawal_state \<Rightarrow> nat" where
  "get_withdrawal_approval_count i s = unwrap_or (wd_approval_count s i) 0"

definition has_withdrawal_approval :: "nat \<Rightarrow> address \<Rightarrow> withdrawal_state \<Rightarrow> bool" where
  "has_withdrawal_approval i a s \<longleftrightarrow> wd_approval s (i, a) \<noteq> None"

definition get_withdrawal_threshold :: "withdrawal_state \<Rightarrow> withdrawal_error trap + int" where
  "get_withdrawal_threshold s = (case wd_threshold s of None \<Rightarrow> Inl (ContractError ThresholdNotInitialized) | Some t \<Rightarrow> Inr t)"

definition get_withdrawal_approvers :: "withdrawal_state \<Rightarrow> withdrawal_error trap + address list" where
  "get_withdrawal_approvers s = (case wd_approvers s of None \<Rightarrow> Inl (ContractError ApprovalsNotInitialized) | Some as \<Rightarrow> Inr as)"

definition get_withdrawal_quorum :: "withdrawal_state \<Rightarrow> withdrawal_error trap + nat" where
  "get_withdrawal_quorum s = (case wd_quorum s of None \<Rightarrow> Inl (ContractError InvalidQuorum) | Some q \<Rightarrow> Inr q)"

definition is_withdrawal_approver :: "address \<Rightarrow> withdrawal_state \<Rightarrow> withdrawal_error trap + bool" where
  "is_withdrawal_approver a s = (case get_withdrawal_approvers s of Inl t \<Rightarrow> Inl t | Inr as \<Rightarrow> Inr (list_ex (\<lambda>b. b = a) as))"

definition require_withdrawal_approver :: "address \<Rightarrow> withdrawal_state \<Rightarrow> withdrawal_error trap + unit" where
  "require_withdrawal_approver a s = (case is_withdrawal_approver a s of Inl t \<Rightarrow> Inl t | Inr ok \<Rightarrow>
     if \<not> ok then Inl (ContractError UnauthorizedApprover) else Inr ())"

definition next_withdrawal_id :: "withdrawal_state \<Rightarrow> nat withdrawal_outcome" where
  "next_withdrawal_id s = (case u64_add (unwrap_or (wd_next_id s) 0) 1 of None \<Rightarrow> Inl (ContractError InvalidQuorum)
     | Some next \<Rightarrow> Inr (next, s\<lparr>wd_next_id := Some next\<rparr>))"

definition requires_approval :: "int \<Rightarrow> withdrawal_state \<Rightarrow> withdrawal_error trap + bool" where
  "requires_approval amount s = (case get_withdrawal_threshold s of Inl t \<Rightarrow> Inl t | Inr threshold \<Rightarrow> Inr (threshold \<le> amount))"

section \<open>Configuration\<close>

fun repeats :: "address list \<Rightarrow> bool" where
  "repeats [] = False"
| "repeats (a # rest) = (list_ex (\<lambda>b. a = b) rest \<or> repeats rest)"

definition validate_approver_config :: "address list \<Rightarrow> nat \<Rightarrow> withdrawal_error trap + unit" where
  "validate_approver_config approvers quorum =
    (if length approvers = 0 \<or> quorum = 0 \<or> length approvers < quorum then Inl (ContractError InvalidQuorum) else
     if repeats approvers then Inl (ContractError InvalidThreshold) else Inr ())"

definition initialize_withdrawal_config :: "address list \<Rightarrow> nat \<Rightarrow> int \<Rightarrow> withdrawal_state \<Rightarrow> unit withdrawal_outcome" where
  "initialize_withdrawal_config approvers quorum threshold s =
    (case validate_approver_config approvers quorum of Inl t \<Rightarrow> Inl t | Inr _ \<Rightarrow>
     if threshold < 0 then Inl (ContractError InvalidThreshold) else
     Inr ((), s\<lparr>wd_approvers := Some approvers, wd_quorum := Some quorum, wd_threshold := Some threshold, wd_next_id := Some 0\<rparr>))"

definition set_withdrawal_threshold :: "int \<Rightarrow> withdrawal_state \<Rightarrow> unit withdrawal_outcome" where
  "set_withdrawal_threshold threshold s =
    (if threshold < 0 then Inl (ContractError InvalidThreshold) else Inr ((), s\<lparr>wd_threshold := Some threshold\<rparr>))"

definition set_withdrawal_approvers :: "address list \<Rightarrow> nat \<Rightarrow> withdrawal_state \<Rightarrow> unit withdrawal_outcome" where
  "set_withdrawal_approvers approvers quorum s =
    (case validate_approver_config approvers quorum of Inl t \<Rightarrow> Inl t | Inr _ \<Rightarrow>
     Inr ((), s\<lparr>wd_approvers := Some approvers, wd_quorum := Some quorum\<rparr>))"

section \<open>Requests, approvals, execution\<close>

definition request_withdrawal :: "env \<Rightarrow> address \<Rightarrow> int \<Rightarrow> nat \<Rightarrow> withdrawal_state \<Rightarrow> nat withdrawal_outcome" where
  "request_withdrawal e requester amount vault_id s =
    (if \<not> env_auth e requester then Inl AuthTrap else
     if amount \<le> 0 then Inl (ContractError InvalidAmount) else
     case get_withdrawal_threshold s of Inl t \<Rightarrow> Inl t | Inr threshold \<Rightarrow>
     case next_withdrawal_id s of Inl t \<Rightarrow> Inl t | Inr (i, s1) \<Rightarrow>
     let q = \<lparr>wq_id = i, wq_requester = requester, wq_amount = amount, wq_vault_id = vault_id,
           wq_created_at = env_timestamp e, wq_approval_count = 0\<rparr> in
     Inr (i, emit (WithdrawalRequested i requester amount vault_id)
       (s1\<lparr>wd_request := (wd_request s1)(i \<mapsto> q), wd_status := (wd_status s1)(i \<mapsto> Pending)\<rparr>)))"

definition execute_withdrawal_internal :: "nat \<Rightarrow> withdrawal_request \<Rightarrow> withdrawal_state \<Rightarrow> withdrawal_state" where
  "execute_withdrawal_internal i q s =
     emit (WithdrawalExecuted i (wq_requester q) (wq_amount q) (wq_vault_id q)) (s\<lparr>wd_status := (wd_status s)(i \<mapsto> Executed)\<rparr>)"

definition approve_withdrawal :: "env \<Rightarrow> address \<Rightarrow> nat \<Rightarrow> withdrawal_state \<Rightarrow> unit withdrawal_outcome" where
  "approve_withdrawal e approver i s =
    (if \<not> env_auth e approver then Inl AuthTrap else
     case require_withdrawal_approver approver s of Inl t \<Rightarrow> Inl t | Inr _ \<Rightarrow>
     case get_withdrawal_request i s of Inl t \<Rightarrow> Inl t | Inr q \<Rightarrow>
     if get_withdrawal_status i s \<noteq> Pending then Inl (ContractError WithdrawalCancelled) else
     if has_withdrawal_approval i approver s then Inl (ContractError DuplicateApproval) else
     let s1 = s\<lparr>wd_approval := (wd_approval s)((i, approver) \<mapsto> True)\<rparr> in
     case u32_add (get_withdrawal_approval_count i s1) 1 of None \<Rightarrow> Inl (ContractError InvalidQuorum) | Some next_count \<Rightarrow>
     let s2 = s1\<lparr>wd_approval_count := (wd_approval_count s1)(i \<mapsto> next_count)\<rparr>; q1 = q\<lparr>wq_approval_count := next_count\<rparr> in
     case get_withdrawal_quorum s2 of Inl t \<Rightarrow> Inl t | Inr quorum \<Rightarrow>
     let s3 = emit (WithdrawalApproved i approver next_count quorum) s2 in
     Inr ((), if quorum \<le> next_count then execute_withdrawal_internal i q1 s3 else s3))"

definition execute_withdrawal :: "env \<Rightarrow> address \<Rightarrow> nat \<Rightarrow> withdrawal_state \<Rightarrow> unit withdrawal_outcome" where
  "execute_withdrawal e executor i s =
    (if \<not> env_auth e executor then Inl AuthTrap else
     case get_withdrawal_request i s of Inl t \<Rightarrow> Inl t | Inr q \<Rightarrow>
     if get_withdrawal_status i s = Executed then Inl (ContractError AlreadyExecuted) else
     if get_withdrawal_status i s = Cancelled then Inl (ContractError WithdrawalCancelled) else
     case get_withdrawal_quorum s of Inl t \<Rightarrow> Inl t | Inr quorum \<Rightarrow>
     if get_withdrawal_approval_count i s < quorum then Inl (ContractError QuorumNotReached) else
     Inr ((), execute_withdrawal_internal i q s))"

section \<open>Helpers of the companion file\<close>

definition can_approve :: "nat \<Rightarrow> address \<Rightarrow> withdrawal_state \<Rightarrow> withdrawal_error trap + bool" where
  "can_approve i approver s =
    (if get_withdrawal_status i s \<noteq> Pending then Inr False else
     case is_withdrawal_approver approver s of Inl t \<Rightarrow> Inl t | Inr ok \<Rightarrow>
     if \<not> ok then Inr False else
     if has_withdrawal_approval i approver s then Inr False else Inr True)"

definition can_execute :: "nat \<Rightarrow> withdrawal_state \<Rightarrow> withdrawal_error trap + bool" where
  "can_execute i s =
    (if get_withdrawal_status i s = Executed then Inr False else
     if get_withdrawal_status i s = Cancelled then Inr False else
     case get_withdrawal_quorum s of Inl t \<Rightarrow> Inl t | Inr quorum \<Rightarrow> Inr (quorum \<le> get_withdrawal_approval_count i s))"

definition get_approval_list :: "nat \<Rightarrow> withdrawal_state \<Rightarrow> withdrawal_error trap + address list" where
  "get_approval_list i s = (case get_withdrawal_approvers s of Inl t \<Rightarrow> Inl t | Inr as \<Rightarrow>
     Inr (filter (\<lambda>a. has_withdrawal_approval i a s) as))"

definition check_required_approvals :: "nat \<Rightarrow> address list \<Rightarrow> withdrawal_state \<Rightarrow> bool" where
  "check_required_approvals i required s = list_all (\<lambda>a. has_withdrawal_approval i a s) required"

fun get_pending_for_requester :: "address \<Rightarrow> nat list \<Rightarrow> withdrawal_state \<Rightarrow> withdrawal_error trap + nat list" where
  "get_pending_for_requester requester [] s = Inr []"
| "get_pending_for_requester requester (i # ids) s =
    (case get_withdrawal_request i s of Inl t \<Rightarrow> Inl t | Inr q \<Rightarrow>
     case get_pending_for_requester requester ids s of Inl t \<Rightarrow> Inl t | Inr rest \<Rightarrow>
     Inr (if wq_requester q = requester \<and> get_withdrawal_status i s = Pending then i # rest else rest))"

definition get_pending_for_approver :: "address \<Rightarrow> nat list \<Rightarrow> withdrawal_state \<Rightarrow> withdrawal_error trap + nat list" where
  "get_pending_for_approver approver ids s =
    (case get_withdrawal_approvers s of Inl t \<Rightarrow> Inl t | Inr as \<Rightarrow>
     if \<not> list_ex (\<lambda>b. b = approver) as then Inr [] else
     Inr (filter (\<lambda>i. get_withdrawal_status i s = Pending \<and> \<not> has_withdrawal_approval i approver s) ids))"

record withdrawal_stats =
  ws_total_withdrawals :: nat
  ws_pending_count :: nat
  ws_executed_count :: nat
  ws_cancelled_count :: nat
  ws_total_amount :: int
  ws_pending_amount :: int
  ws_executed_amount :: int
  ws_success_rate :: nat

text \<open>\<open>checked_add(x).unwrap_or(total)\<close>: a sum that does not fit is left as it was.\<close>

definition add_or_keep :: "int \<Rightarrow> int \<Rightarrow> int" where
  "add_or_keep total_sum x = unwrap_or (checked_add total_sum x) total_sum"

definition count_withdrawal :: "withdrawal_request \<Rightarrow> withdrawal_status \<Rightarrow> withdrawal_stats \<Rightarrow> withdrawal_stats" where
  "count_withdrawal q status st =
    (let st1 = st\<lparr>ws_total_withdrawals := ws_total_withdrawals st + 1, ws_total_amount := add_or_keep (ws_total_amount st) (wq_amount q)\<rparr> in
     case status of
       Pending \<Rightarrow> st1\<lparr>ws_pending_count := ws_pending_count st1 + 1, ws_pending_amount := add_or_keep (ws_pending_amount st1) (wq_amount q)\<rparr>
     | Executed \<Rightarrow> st1\<lparr>ws_executed_count := ws_executed_count st1 + 1, ws_executed_amount := add_or_keep (ws_executed_amount st1) (wq_amount q)\<rparr>
     | Cancelled \<Rightarrow> st1\<lparr>ws_cancelled_count := ws_cancelled_count st1 + 1\<rparr>
     | Approved \<Rightarrow> st1)"

definition calculate_stats :: "nat list \<Rightarrow> withdrawal_state \<Rightarrow> withdrawal_error trap + withdrawal_stats" where
  "calculate_stats ids s =
    (case fold_trap (\<lambda>i st. case get_withdrawal_request i s of Inl t \<Rightarrow> Inl t
           | Inr q \<Rightarrow> Inr (count_withdrawal q (get_withdrawal_status i s) st)) ids
         \<lparr>ws_total_withdrawals = 0, ws_pending_count = 0, ws_executed_count = 0, ws_cancelled_count = 0, ws_total_amount = 0,
          ws_pending_amount = 0, ws_executed_amount = 0, ws_success_rate = 0\<rparr> of Inl t \<Rightarrow> Inl t | Inr st \<Rightarrow>
     if 0 < ws_total_withdrawals st then
       (if in_u32 (ws_executed_count st * 100)
        then Inr (st\<lparr>ws_success_rate := ws_executed_count st * 100 div ws_total_withdrawals st\<rparr>) else Inl ArithTrap)
     else Inr st)"

definition get_failure_reason :: "nat \<Rightarrow> address \<Rightarrow> withdrawal_state \<Rightarrow> withdrawal_error trap + string option" where
  "get_failure_reason i approver s = (let status = get_withdrawal_status i s in
     if status = Executed then Inr (Some ''withdrawal_already_executed'') else
     if status = Cancelled then Inr (Some ''withdrawal_cancelled'') else
     if status \<noteq> Pending then Inr (Some ''withdrawal_invalid_status'') else
     case is_withdrawal_approver approver s of Inl t \<Rightarrow> Inl t | Inr ok \<Rightarrow>
     if \<not> ok then Inr (Some ''approver_not_authorized'') else
     if has_withdrawal_approval i approver s then Inr (Some ''duplicate_approval'') else Inr None)"

section \<open>Sequences of calls\<close>

datatype withdrawal_call =
    CConfigure "address list" nat int
  | CThreshold int
  | CApprovers "address list" nat
  | CRequest address int nat
  | CApprove address nat
  | CExecute address nat

fun withdrawal_exec :: "env \<times> withdrawal_call \<Rightarrow> withdrawal_state \<Rightarrow> withdrawal_error trap + withdrawal_state" where
  "withdrawal_exec (e, CConfigure as q t) s = final (initialize_withdrawal_config as q t s)"
| "withdrawal_exec (e, CThreshold t) s = final (set_withdrawal_threshold t s)"
| "withdrawal_exec (e, CApprovers as q) s = final (set_withdrawal_approvers as q s)"
| "withdrawal_exec (e, CRequest a n v) s = final (request_withdrawal e a n v s)"
| "withdrawal_exec (e, CApprove a i) s = final (approve_withdrawal e a i s)"
| "withdrawal_exec (e, CExecute a i) s = final (execute_withdrawal e a i s)"

definition configured_once :: "env \<times> withdrawal_call \<Rightarrow> bool" where
  "configured_once k = (case snd k of CConfigure as q t \<Rightarrow> False | _ \<Rightarrow> True)"

definition approvers_of :: "nat \<Rightarrow> withdrawal_state \<Rightarrow> address set" where
  "approvers_of i s = {a. has_withdrawal_approval i a s}"

definition executed_ids :: "withdrawal_state \<Rightarrow> nat list" where
  "executed_ids s = concat (map (\<lambda>ev. case ev of WithdrawalExecuted i a n v \<Rightarrow> [i] | _ \<Rightarrow> []) (wd_events s))"

definition one_withdrawal :: "nat \<Rightarrow> withdrawal_state \<Rightarrow> bool" where
  "one_withdrawal i s \<longleftrightarrow>
     finite (approvers_of i s) \<and> get_withdrawal_approval_count i s = card (approvers_of i s)
   \<and> count_list (executed_ids s) i = (if get_withdrawal_status i s = Executed then 1 else 0)
   \<and> get_withdrawal_status i s \<in> {Pending, Executed}
   \<and> (case wd_request s i of None \<Rightarrow> approvers_of i s = {} \<and> get_withdrawal_status i s = Pending
      | Some q \<Rightarrow> wq_id q = i \<and> 0 < wq_amount q \<and> wq_approval_count q = 0)"

definition withdrawal_inv :: "withdrawal_state \<Rightarrow> bool" where
  "withdrawal_inv s \<longleftrightarrow> (\<exists>n. wd_next_id s = Some n \<and> dom (wd_request s) = {1..n}) \<and> (\<forall>i. one_withdrawal i s)
     \<and> (\<exists>q. wd_quorum s = Some q \<and> 1 \<le> q)"

lemma repeats_iff [simp]: "repeats as \<longleftrightarrow> \<not> distinct as"
  by (induction as) (auto simp: list_ex_iff)

lemma configure_inv:
  "initialize_withdrawal_config as q t withdrawal_fresh = Inr (u, s) \<Longrightarrow> withdrawal_inv s"
  by (auto simp: initialize_withdrawal_config_def validate_approver_config_def withdrawal_fresh_def withdrawal_inv_def
      one_withdrawal_def approvers_of_def has_withdrawal_approval_def executed_ids_def get_withdrawal_approval_count_def
      get_withdrawal_status_def split: if_splits)

text \<open>What the calls leave.\<close>

lemma executed_ids_emit [simp]:
  "executed_ids (emit ev s) = executed_ids s @ (case ev of WithdrawalExecuted i a n v \<Rightarrow> [i] | _ \<Rightarrow> [])"
  by (simp add: executed_ids_def emit_def split: withdrawal_event.split)

lemma executed_ids_update [simp]:
  "executed_ids (s\<lparr>wd_approval := x1\<rparr>) = executed_ids s" "executed_ids (s\<lparr>wd_approval_count := x2\<rparr>) = executed_ids s"
  "executed_ids (s\<lparr>wd_status := x3\<rparr>) = executed_ids s" "executed_ids (s\<lparr>wd_request := x4\<rparr>) = executed_ids s"
  "executed_ids (s\<lparr>wd_next_id := x5\<rparr>) = executed_ids s" "executed_ids (s\<lparr>wd_threshold := x6\<rparr>) = executed_ids s"
  "executed_ids (s\<lparr>wd_approvers := x7, wd_quorum := x8\<rparr>) = executed_ids s"
  "executed_ids (s\<lparr>wd_request := x4, wd_status := x3\<rparr>) = executed_ids s"
  "executed_ids (s\<lparr>wd_approval := x1, wd_approval_count := x2\<rparr>) = executed_ids s"
  by (simp_all add: executed_ids_def)

lemma withdrawal_emit_fields [simp]:
  "wd_request (emit ev s) = wd_request s" "wd_next_id (emit ev s) = wd_next_id s" "wd_approval (emit ev s) = wd_approval s"
  "wd_approval_count (emit ev s) = wd_approval_count s" "wd_status (emit ev s) = wd_status s" "wd_quorum (emit ev s) = wd_quorum s"
  "wd_approvers (emit ev s) = wd_approvers s" "wd_threshold (emit ev s) = wd_threshold s"
  by (simp_all add: emit_def)

lemma request_withdrawal_Inr:
  assumes "request_withdrawal e a n v s = Inr (i, s')"
  shows "0 < n \<and> i = Suc (unwrap_or (wd_next_id s) 0) \<and> wd_next_id s' = Some i
    \<and> wd_request s' = (wd_request s)(i \<mapsto> \<lparr>wq_id = i, wq_requester = a, wq_amount = n, wq_vault_id = v,
           wq_created_at = env_timestamp e, wq_approval_count = 0\<rparr>)
    \<and> wd_status s' = (wd_status s)(i \<mapsto> Pending) \<and> wd_approval s' = wd_approval s
    \<and> wd_approval_count s' = wd_approval_count s \<and> wd_quorum s' = wd_quorum s \<and> executed_ids s' = executed_ids s"
  using assms
  by (auto simp: request_withdrawal_def next_withdrawal_id_def Let_def split: if_splits sum.splits option.splits)

lemma approve_withdrawal_Inr:
  assumes "approve_withdrawal e a i s = Inr (u, s')"
  shows "\<exists>q. env_auth e a \<and> wd_request s i \<noteq> None \<and> get_withdrawal_status i s = Pending \<and> a \<notin> approvers_of i s
    \<and> wd_quorum s = Some q \<and> wd_next_id s' = wd_next_id s \<and> wd_request s' = wd_request s \<and> wd_quorum s' = Some q
    \<and> wd_approval s' = (wd_approval s)((i, a) \<mapsto> True)
    \<and> wd_approval_count s' = (wd_approval_count s)(i \<mapsto> Suc (get_withdrawal_approval_count i s))
    \<and> wd_status s' = (if q \<le> Suc (get_withdrawal_approval_count i s) then (wd_status s)(i \<mapsto> Executed) else wd_status s)
    \<and> executed_ids s' = executed_ids s @ (if q \<le> Suc (get_withdrawal_approval_count i s) then [i] else [])"
proof -
  let ?n = "Suc (get_withdrawal_approval_count i s)"
  from assms obtain r q where r: "env_auth e a" "wd_request s i = Some r" "get_withdrawal_status i s = Pending" "a \<notin> approvers_of i s"
      "wd_quorum s = Some q"
      "s' = (let s1 = emit (WithdrawalApproved i a ?n q) (s\<lparr>wd_approval := (wd_approval s)((i, a) \<mapsto> True),
               wd_approval_count := (wd_approval_count s)(i \<mapsto> ?n)\<rparr>)
             in if q \<le> ?n then execute_withdrawal_internal i (r\<lparr>wq_approval_count := ?n\<rparr>) s1 else s1)"
    by (simp add: approve_withdrawal_def get_withdrawal_request_def get_withdrawal_quorum_def approvers_of_def
        get_withdrawal_approval_count_def u32_add_def Let_def split: if_split_asm sum.split_asm option.split_asm)
  then show ?thesis by (simp add: Let_def execute_withdrawal_internal_def)
qed

lemma execute_withdrawal_Inr:
  assumes "execute_withdrawal e a i s = Inr (u, s')"
  shows "\<exists>q. env_auth e a \<and> wd_request s i \<noteq> None \<and> get_withdrawal_status i s \<notin> {Executed, Cancelled}
    \<and> wd_quorum s = Some q \<and> q \<le> get_withdrawal_approval_count i s \<and> wd_next_id s' = wd_next_id s \<and> wd_request s' = wd_request s
    \<and> wd_quorum s' = Some q \<and> wd_approval s' = wd_approval s \<and> wd_approval_count s' = wd_approval_count s
    \<and> wd_status s' = (wd_status s)(i \<mapsto> Executed) \<and> executed_ids s' = executed_ids s @ [i]"
  using assms
  by (auto simp: execute_withdrawal_def get_withdrawal_request_def get_withdrawal_quorum_def execute_withdrawal_internal_def
      split: if_splits sum.splits option.splits)

lemma one_withdrawal_cong:
  assumes "wd_request s' i = wd_request s i" and "\<And>a. wd_approval s' (i, a) = wd_approval s (i, a)"
    and "wd_approval_count s' i = wd_approval_count s i" and "wd_status s' i = wd_status s i" and "executed_ids s' = executed_ids s"
  shows "one_withdrawal i s' = one_withdrawal i s"
proof -
  have "approvers_of i s' = approvers_of i s" "get_withdrawal_status i s' = get_withdrawal_status i s"
      "get_withdrawal_approval_count i s' = get_withdrawal_approval_count i s"
    using assms by (simp_all add: approvers_of_def has_withdrawal_approval_def get_withdrawal_approval_count_def get_withdrawal_status_def)
  with assms show ?thesis by (simp add: one_withdrawal_def cong: option.case_cong)
qed

lemma withdrawal_inv_again:
  assumes "withdrawal_inv s" and "\<And>j. one_withdrawal j s \<Longrightarrow> one_withdrawal j s'" and "wd_next_id s' = wd_next_id s"
    and "dom (wd_request s') = dom (wd_request s)" and "\<exists>q. wd_quorum s' = Some q \<and> 1 \<le> q"
  shows "withdrawal_inv s'"
  using assms by (auto simp: withdrawal_inv_def)

lemma withdrawal_step_inv:
  assumes "withdrawal_inv s" and "configured_once k" and "withdrawal_exec k s = Inr s'"
  shows "withdrawal_inv s'"
proof -
  obtain e c where k: "k = (e, c)" by (cases k)
  obtain n q where n: "wd_next_id s = Some n" "dom (wd_request s) = {1..n}" "wd_quorum s = Some q" "1 \<le> q"
    using assms(1) by (auto simp: withdrawal_inv_def)
  have one: "one_withdrawal i s" for i using assms(1) by (simp add: withdrawal_inv_def)
  show ?thesis
  proof (cases c)
    case (CConfigure as q t)
    with assms(2) show ?thesis by (simp add: k configured_once_def)
  next
    case (CThreshold t)
    with assms(3) have s': "s' = s\<lparr>wd_threshold := Some t\<rparr>" by (auto simp: k set_withdrawal_threshold_def split: if_splits)
    then show ?thesis using one_withdrawal_cong [of s' _ s] n
      by (intro withdrawal_inv_again [OF assms(1)]) auto
  next
    case (CApprovers as q1)
    with assms(3) have s': "s' = s\<lparr>wd_approvers := Some as, wd_quorum := Some q1\<rparr>" "1 \<le> q1"
      by (auto simp: k set_withdrawal_approvers_def validate_approver_config_def split: if_splits)
    then show ?thesis using one_withdrawal_cong [of s' _ s]
      by (intro withdrawal_inv_again [OF assms(1)]) auto
  next
    case (CRequest a x v)
    with assms(3) obtain i where "request_withdrawal e a x v s = Inr (i, s')" by (auto simp: k)
    note r = request_withdrawal_Inr [OF this]
    have i: "i = Suc n" using r n by simp
    moreover have "i \<notin> dom (wd_request s)" unfolding n i by simp
    ultimately have i: "i = Suc n" "wd_request s i = None" by auto
    have "one_withdrawal j s'" for j
    proof (cases "j = i")
      case True
      with r i one [of i] show ?thesis
        by (auto simp: one_withdrawal_def approvers_of_def has_withdrawal_approval_def get_withdrawal_approval_count_def
            get_withdrawal_status_def)
    next
      case False
      with r one [of j] one_withdrawal_cong [of s' j s] show ?thesis by simp
    qed
    moreover have "dom (wd_request s') = {1..Suc n}" using r n i by auto
    ultimately show ?thesis using r n i by (simp add: withdrawal_inv_def)
  next
    case (CApprove a i)
    with assms(3) have "approve_withdrawal e a i s = Inr ((), s')" by (auto simp: k)
    from approve_withdrawal_Inr [OF this] obtain q1 where r: "wd_request s i \<noteq> None" "get_withdrawal_status i s = Pending" "a \<notin> approvers_of i s"
      "wd_next_id s' = wd_next_id s" "wd_request s' = wd_request s" "wd_quorum s' = Some q1" "wd_quorum s = Some q1"
      "wd_approval s' = (wd_approval s)((i, a) \<mapsto> True)"
      "wd_approval_count s' = (wd_approval_count s)(i \<mapsto> Suc (get_withdrawal_approval_count i s))"
      "wd_status s' = (if q1 \<le> Suc (get_withdrawal_approval_count i s) then (wd_status s)(i \<mapsto> Executed) else wd_status s)"
      "executed_ids s' = executed_ids s @ (if q1 \<le> Suc (get_withdrawal_approval_count i s) then [i] else [])"
      by blast
    have approvers: "approvers_of j s' = (if j = i then insert a (approvers_of i s) else approvers_of j s)" for j
      by (auto simp: approvers_of_def has_withdrawal_approval_def r(8))
    show ?thesis
    proof (rule withdrawal_inv_again [OF assms(1)])
      show "one_withdrawal j s'" if "one_withdrawal j s" for j
        using that r(1-3,5,9-11) by (auto simp: one_withdrawal_def approvers get_withdrawal_approval_count_def get_withdrawal_status_def
            split: option.splits)
    qed (use r n in auto)
  next
    case (CExecute a i)
    with assms(3) have "execute_withdrawal e a i s = Inr ((), s')" by (auto simp: k)
    from execute_withdrawal_Inr [OF this] obtain q1 where r: "wd_request s i \<noteq> None" "get_withdrawal_status i s \<notin> {Executed, Cancelled}"
      "wd_next_id s' = wd_next_id s" "wd_request s' = wd_request s" "wd_quorum s' = Some q1" "wd_quorum s = Some q1"
      "wd_approval s' = wd_approval s" "wd_approval_count s' = wd_approval_count s" "wd_status s' = (wd_status s)(i \<mapsto> Executed)"
      "executed_ids s' = executed_ids s @ [i]"
      by blast
    have approvers: "approvers_of j s' = approvers_of j s" for j
      by (auto simp: approvers_of_def has_withdrawal_approval_def r(7))
    show ?thesis
    proof (rule withdrawal_inv_again [OF assms(1)])
      show "one_withdrawal j s'" if "one_withdrawal j s" for j
        using that r(1,2,4,8-10) by (auto simp: one_withdrawal_def approvers get_withdrawal_approval_count_def get_withdrawal_status_def
            split: option.splits)
    qed (use r n in auto)
  qed
qed

interpretation withdrawals: contract_invariant withdrawal_exec withdrawal_inv configured_once
  by unfold_locales (rule withdrawal_step_inv)

section \<open>Properties\<close>

text \<open>C9: Withdrawals follow their approvals.  On a storage configured once, after any calls: the approvals of every request
  are as many as the different accounts that gave them, a request is executed at most once, and a call that executes one
  finds a quorum, positive, of such accounts.\<close>

theorem withdrawals_need_quorum:
  assumes "initialize_withdrawal_config as q t withdrawal_fresh = Inr (u, s0)" and "\<And>k. k \<in> set ks \<Longrightarrow> configured_once k"
    and "run withdrawal_exec ks s0 = s"
  shows "get_withdrawal_approval_count i s = card (approvers_of i s)
    \<and> count_list (executed_ids s) i = (if get_withdrawal_status i s = Executed then 1 else 0)
    \<and> (withdrawal_exec k s = Inr s' \<and> configured_once k \<and> get_withdrawal_status i s \<noteq> Executed \<and> get_withdrawal_status i s' = Executed
       \<longrightarrow> (\<exists>q. wd_quorum s = Some q \<and> 1 \<le> q \<and> q \<le> card (approvers_of i s')))"
proof -
  have inv: "withdrawal_inv s"
    using withdrawals.run_inv [OF configure_inv [OF assms(1)], of ks] assms(2,3) by blast
  have "\<exists>q. wd_quorum s = Some q \<and> 1 \<le> q \<and> q \<le> card (approvers_of i s')"
    if run: "withdrawal_exec k s = Inr s'" and once: "configured_once k"
      and new: "get_withdrawal_status i s \<noteq> Executed" "get_withdrawal_status i s' = Executed"
  proof -
    obtain e c where k: "k = (e, c)" by (cases k)
    obtain q where q: "wd_quorum s = Some q" "1 \<le> q" using inv by (auto simp: withdrawal_inv_def)
    have "one_withdrawal i s'" using withdrawal_step_inv [OF inv once run] by (simp add: withdrawal_inv_def)
    then have count: "get_withdrawal_approval_count i s' = card (approvers_of i s')" by (simp add: one_withdrawal_def)
    show ?thesis
    proof (cases c)
      case (CConfigure as q t)
      with once show ?thesis by (simp add: k configured_once_def)
    next
      case (CThreshold t)
      with run new show ?thesis by (auto simp: k set_withdrawal_threshold_def get_withdrawal_status_def split: if_splits)
    next
      case (CApprovers as q)
      with run new show ?thesis by (auto simp: k set_withdrawal_approvers_def get_withdrawal_status_def split: sum.splits)
    next
      case (CRequest a x v)
      with run obtain j where "request_withdrawal e a x v s = Inr (j, s')" by (auto simp: k)
      with new show ?thesis using request_withdrawal_Inr [of e a x v s j s'] by (auto simp: get_withdrawal_status_def split: if_splits)
    next
      case (CApprove a j)
      with run have "approve_withdrawal e a j s = Inr ((), s')" by (auto simp: k)
      from approve_withdrawal_Inr [OF this] new count q show ?thesis
        by (auto simp: get_withdrawal_status_def get_withdrawal_approval_count_def split: if_splits)
    next
      case (CExecute a j)
      with run have "execute_withdrawal e a j s = Inr ((), s')" by (auto simp: k)
      from execute_withdrawal_Inr [OF this] new count q show ?thesis
        by (auto simp: get_withdrawal_status_def get_withdrawal_approval_count_def split: if_splits)
    qed
  qed
  moreover have "one_withdrawal i s" using inv by (simp add: withdrawal_inv_def)
  ultimately show ?thesis by (auto simp: one_withdrawal_def)
qed

text \<open>The helpers of the companion file foresee what the operations do.\<close>

lemma can_approve_exact:
  assumes "env_auth e a" and "wd_request s i \<noteq> None" and "wd_quorum s \<noteq> None" and "in_u32 (get_withdrawal_approval_count i s + 1)"
  shows "(\<exists>s'. approve_withdrawal e a i s = Inr ((), s')) \<longleftrightarrow> can_approve i a s = Inr True"
  using assms
  by (auto simp: approve_withdrawal_def can_approve_def require_withdrawal_approver_def get_withdrawal_request_def
      get_withdrawal_quorum_def get_withdrawal_approval_count_def u32_add_def Let_def split: sum.splits)

lemma can_execute_exact:
  assumes "env_auth e a" and "wd_request s i \<noteq> None"
  shows "(\<exists>s'. execute_withdrawal e a i s = Inr ((), s')) \<longleftrightarrow> can_execute i s = Inr True"
  using assms
  by (auto simp: execute_withdrawal_def can_execute_def get_withdrawal_request_def split: sum.splits)

section \<open>Witness, and what a second configuration does\<close>

definition demo_calls :: "(env \<times> withdrawal_call) list" where
  "demo_calls =
     [(signed_env [Addr 5] 1 10 (Addr 9), CRequest (Addr 5) 900 4),
      (signed_env [Addr 1] 1 11 (Addr 9), CApprove (Addr 1) 1),
      (signed_env [Addr 1] 1 12 (Addr 9), CApprove (Addr 1) 1),
      (signed_env [Addr 5] 1 13 (Addr 9), CExecute (Addr 5) 1)]"

lemmas withdrawal_eval = request_withdrawal_def get_withdrawal_threshold_def next_withdrawal_id_def approve_withdrawal_def
  require_withdrawal_approver_def is_withdrawal_approver_def get_withdrawal_approvers_def get_withdrawal_request_def
  get_withdrawal_status_def has_withdrawal_approval_def get_withdrawal_approval_count_def get_withdrawal_quorum_def
  execute_withdrawal_internal_def execute_withdrawal_def initialize_withdrawal_config_def validate_approver_config_def
  emit_def arith_defs Let_def

definition demo_start :: withdrawal_state where
  "demo_start = withdrawal_fresh\<lparr>wd_approvers := Some [Addr 1, Addr 2, Addr 3], wd_quorum := Some 2, wd_threshold := Some 500,
     wd_next_id := Some 0\<rparr>"

lemma demo_start_eq: "initialize_withdrawal_config [Addr 1, Addr 2, Addr 3] 2 500 withdrawal_fresh = Inr ((), demo_start)"
  by (simp add: withdrawal_eval demo_start_def)

theorem withdrawals_need_quorum_witness:
  "card (approvers_of 1 (run withdrawal_exec demo_calls demo_start)) = 1
   \<and> (\<exists>s'. withdrawal_exec (signed_env [Addr 2] 1 14 (Addr 9), CApprove (Addr 2) 1) (run withdrawal_exec demo_calls demo_start) = Inr s'
        \<and> 2 \<le> card (approvers_of 1 s'))"
proof -
  let ?s = "run withdrawal_exec demo_calls demo_start"
  let ?k = "(signed_env [Addr 2] 1 14 (Addr 9), CApprove (Addr 2) 1)"
  have once: "\<And>k. k \<in> set demo_calls \<Longrightarrow> configured_once k" and k: "configured_once ?k"
    by (auto simp: demo_calls_def configured_once_def)
  have s: "get_withdrawal_approval_count 1 ?s = 1" "get_withdrawal_status 1 ?s = Pending" "wd_quorum ?s = Some 2"
    by (simp_all add: demo_calls_def demo_start_def withdrawal_fresh_def withdrawal_eval)
  obtain s' where s': "withdrawal_exec ?k ?s = Inr s'" "get_withdrawal_status 1 s' = Executed"
    by (simp add: demo_calls_def demo_start_def withdrawal_fresh_def withdrawal_eval)
  show ?thesis
    using withdrawals_need_quorum [where ks = demo_calls and i = 1 and k = ?k and s' = s', OF demo_start_eq once refl] s s' k by auto
qed

text \<open>A second configuration starts the numbers again and keeps the approvals given under them: a new request is executed
  with one approval where two are required.\<close>

lemma second_configuration_keeps_approvals:
  "get_withdrawal_status 1
     (run withdrawal_exec
        (demo_calls @ [(signed_env [] 1 20 (Addr 9), CConfigure [Addr 1, Addr 2, Addr 3] 2 500),
           (signed_env [Addr 6] 1 21 (Addr 9), CRequest (Addr 6) 7000 4),
           (signed_env [Addr 2] 1 22 (Addr 9), CApprove (Addr 2) 1)]) demo_start) = Executed"
  by (simp add: demo_calls_def demo_start_def withdrawal_fresh_def withdrawal_eval)

end
