(* ===== verification/Multisig_Transactions.thy ===== *)
theory Multisig_Transactions
  imports Host
begin

text \<open>
  \<open>contracts/transactions.rs\<close> with its modules \<open>multisig.rs\<close> and \<open>timelock.rs\<close>: transfers between balances the contract keeps
  itself.  A transfer below a threshold is made at once, one above it after enough signers have approved it, and any
  transfer can be scheduled for a later time.  The file is declared by no crate; its tests are \<open>tests/multisig_tests.rs\<close>
  and \<open>tests/timelock_tests.rs\<close>.
\<close>

section \<open>Data\<close>

record pending_tx =
  pt_id :: nat
  pt_from :: address
  pt_to :: address
  pt_amount :: int
  pt_payload :: symbol
  pt_asset :: "address option"
  pt_created_at :: nat
  pt_executed :: bool

record timelocked_tx =
  tl_id :: nat
  tl_from :: address
  tl_to :: address
  tl_amount :: int
  tl_payload :: symbol
  tl_asset :: "address option"
  tl_execute_at :: nat
  tl_created_at :: nat
  tl_executed :: bool
  tl_canceled :: bool
  tl_executed_at :: "nat option"
  tl_canceled_at :: "nat option"

datatype multisig_error =
    NotInitialized | AlreadyInitialized | Unauthorized | InvalidThreshold | DuplicateSigner | InvalidAmount
  | PendingTxNotFound | UnauthorizedSigner | DuplicateApproval | AlreadyExecuted | InsufficientBalance
  | MultisigNotConfigured | Overflow | BlacklistedDestination
  | TimelockNotFound | TimelockAlreadyExecuted | TimelockAlreadyCanceled | EarlyExecution | InvalidScheduleTime

datatype multisig_event =
    PendingCreated nat address address int "address option"
  | ApprovalRecorded nat address nat nat
  | TransactionExecuted nat address address address int "address option"
  | TimelockScheduled nat address address int "address option" nat
  | TimelockExecuted nat address address address int "address option" nat "nat option"
  | TimelockCancelled nat address address address int "address option" nat "nat option"

record multisig_state =
  ms_admin :: "address option"
  ms_signers :: "address list option"
  ms_threshold :: "nat option"
  ms_high_value_threshold :: "int option"
  ms_next_tx_id :: "nat option"
  ms_pending :: "nat \<rightharpoonup> pending_tx"
  ms_approval :: "nat \<times> address \<rightharpoonup> bool"
  ms_approval_count :: "nat \<rightharpoonup> nat"
  ms_balance :: "address \<rightharpoonup> int"
  ms_blacklist :: "address \<times> address \<rightharpoonup> bool"
  ms_next_timelock_id :: "nat option"
  ms_timelocked :: "nat \<rightharpoonup> timelocked_tx"
  ms_events :: "multisig_event list"

definition multisig_fresh :: multisig_state where
  "multisig_fresh = \<lparr>ms_admin = None, ms_signers = None, ms_threshold = None, ms_high_value_threshold = None, ms_next_tx_id = None,
     ms_pending = Map.empty, ms_approval = Map.empty, ms_approval_count = Map.empty, ms_balance = Map.empty,
     ms_blacklist = Map.empty, ms_next_timelock_id = None, ms_timelocked = Map.empty, ms_events = []\<rparr>"

type_synonym 'a multisig_outcome = "(multisig_state, multisig_error, 'a) outcome"

definition emit :: "multisig_event \<Rightarrow> multisig_state \<Rightarrow> multisig_state" where
  "emit ev s = s\<lparr>ms_events := ms_events s @ [ev]\<rparr>"

section \<open>The module multisig\<close>

definition initialize_state :: "address \<Rightarrow> multisig_state \<Rightarrow> unit multisig_outcome" where
  "initialize_state admin s =
    (if ms_admin s \<noteq> None then Inl (ContractError AlreadyInitialized) else
     Inr ((), s\<lparr>ms_admin := Some admin, ms_signers := Some [], ms_threshold := Some 0,
       ms_high_value_threshold := Some i128_max, ms_next_tx_id := Some 0\<rparr>))"

definition get_admin :: "multisig_state \<Rightarrow> multisig_error trap + address" where
  "get_admin s = (case ms_admin s of None \<Rightarrow> Inl (ContractError NotInitialized) | Some a \<Rightarrow> Inr a)"

definition require_admin :: "env \<Rightarrow> address \<Rightarrow> multisig_state \<Rightarrow> multisig_error trap + unit" where
  "require_admin e caller s =
    (if \<not> env_auth e caller then Inl AuthTrap else
     case get_admin s of Inl t \<Rightarrow> Inl t | Inr admin \<Rightarrow> if admin \<noteq> caller then Inl (ContractError Unauthorized) else Inr ())"

fun any_twice :: "address list \<Rightarrow> bool" where
  "any_twice [] = False"
| "any_twice (a # rest) = (list_ex (\<lambda>b. a = b) rest \<or> any_twice rest)"

definition validate_signer_config :: "address list \<Rightarrow> nat \<Rightarrow> multisig_error trap + unit" where
  "validate_signer_config signers threshold =
    (if length signers = 0 \<or> threshold = 0 \<or> length signers < threshold then Inl (ContractError InvalidThreshold) else
     if any_twice signers then Inl (ContractError DuplicateSigner) else Inr ())"

definition set_signers :: "env \<Rightarrow> address \<Rightarrow> address list \<Rightarrow> nat \<Rightarrow> multisig_state \<Rightarrow> unit multisig_outcome" where
  "set_signers e caller signers threshold s =
    (case require_admin e caller s of Inl t \<Rightarrow> Inl t | Inr _ \<Rightarrow>
     case validate_signer_config signers threshold of Inl t \<Rightarrow> Inl t | Inr _ \<Rightarrow>
     Inr ((), s\<lparr>ms_signers := Some signers, ms_threshold := Some threshold\<rparr>))"

definition set_high_value_threshold :: "env \<Rightarrow> address \<Rightarrow> int \<Rightarrow> multisig_state \<Rightarrow> unit multisig_outcome" where
  "set_high_value_threshold e caller amount s =
    (case require_admin e caller s of Inl t \<Rightarrow> Inl t | Inr _ \<Rightarrow>
     if amount < 0 then Inl (ContractError InvalidAmount) else Inr ((), s\<lparr>ms_high_value_threshold := Some amount\<rparr>))"

definition get_signers :: "multisig_state \<Rightarrow> address list" where
  "get_signers s = unwrap_or (ms_signers s) []"

definition get_threshold :: "multisig_state \<Rightarrow> nat" where
  "get_threshold s = unwrap_or (ms_threshold s) 0"

definition get_high_value_threshold :: "multisig_state \<Rightarrow> int" where
  "get_high_value_threshold s = unwrap_or (ms_high_value_threshold s) i128_max"

definition ensure_multisig_configured :: "multisig_state \<Rightarrow> multisig_error trap + unit" where
  "ensure_multisig_configured s =
    (if length (get_signers s) = 0 \<or> get_threshold s = 0 \<or> length (get_signers s) < get_threshold s
     then Inl (ContractError MultisigNotConfigured) else Inr ())"

definition is_signer :: "multisig_state \<Rightarrow> address \<Rightarrow> bool" where
  "is_signer s signer = list_ex (\<lambda>a. a = signer) (get_signers s)"

definition require_signer :: "multisig_state \<Rightarrow> address \<Rightarrow> multisig_error trap + unit" where
  "require_signer s signer = (if \<not> is_signer s signer then Inl (ContractError UnauthorizedSigner) else Inr ())"

definition next_tx_id :: "multisig_state \<Rightarrow> nat multisig_outcome" where
  "next_tx_id s = (case u64_add (unwrap_or (ms_next_tx_id s) 0) 1 of None \<Rightarrow> Inl (ContractError Overflow)
     | Some next \<Rightarrow> Inr (next, s\<lparr>ms_next_tx_id := Some next\<rparr>))"

definition has_approval :: "nat \<Rightarrow> address \<Rightarrow> multisig_state \<Rightarrow> bool" where
  "has_approval i signer s \<longleftrightarrow> ms_approval s (i, signer) \<noteq> None"

definition get_approval_count :: "nat \<Rightarrow> multisig_state \<Rightarrow> nat" where
  "get_approval_count i s = unwrap_or (ms_approval_count s i) 0"

definition record_approval :: "nat \<Rightarrow> address \<Rightarrow> multisig_state \<Rightarrow> nat multisig_outcome" where
  "record_approval i signer s =
    (if has_approval i signer s then Inl (ContractError DuplicateApproval) else
     let s1 = s\<lparr>ms_approval := (ms_approval s)((i, signer) \<mapsto> True)\<rparr> in
     case u32_add (get_approval_count i s1) 1 of None \<Rightarrow> Inl (ContractError Overflow) | Some next \<Rightarrow>
     Inr (next, s1\<lparr>ms_approval_count := (ms_approval_count s1)(i \<mapsto> next)\<rparr>))"

section \<open>The module timelock\<close>

definition next_timelock_id :: "multisig_state \<Rightarrow> nat multisig_outcome" where
  "next_timelock_id s = (case u64_add (unwrap_or (ms_next_timelock_id s) 0) 1 of None \<Rightarrow> Inl (ContractError InvalidScheduleTime)
     | Some next \<Rightarrow> Inr (next, s\<lparr>ms_next_timelock_id := Some next\<rparr>))"

definition save_timelock :: "timelocked_tx \<Rightarrow> multisig_state \<Rightarrow> multisig_state" where
  "save_timelock tx s = s\<lparr>ms_timelocked := (ms_timelocked s)(tl_id tx \<mapsto> tx)\<rparr>"

definition get_timelock :: "nat \<Rightarrow> multisig_state \<Rightarrow> timelocked_tx option" where
  "get_timelock i s = ms_timelocked s i"

definition update_timelock :: "timelocked_tx \<Rightarrow> multisig_state \<Rightarrow> multisig_state" where
  "update_timelock tx s = s\<lparr>ms_timelocked := (ms_timelocked s)(tl_id tx \<mapsto> tx)\<rparr>"

section \<open>Balances\<close>

definition balance_of :: "multisig_state \<Rightarrow> address \<Rightarrow> int" where
  "balance_of s user = unwrap_or (ms_balance s user) 0"

definition execute_transfer :: "address \<Rightarrow> address \<Rightarrow> int \<Rightarrow> multisig_state \<Rightarrow> unit multisig_outcome" where
  "execute_transfer src dst amount s =
    (if balance_of s src < amount then Inl (ContractError InsufficientBalance) else
     case checked_sub (balance_of s src) amount of None \<Rightarrow> Inl (ContractError Overflow) | Some new_from_balance \<Rightarrow>
     case checked_add (balance_of s dst) amount of None \<Rightarrow> Inl (ContractError Overflow) | Some new_to_balance \<Rightarrow>
     Inr ((), s\<lparr>ms_balance := (ms_balance s)(src \<mapsto> new_from_balance, dst \<mapsto> new_to_balance)\<rparr>))"

definition set_balance :: "env \<Rightarrow> address \<Rightarrow> address \<Rightarrow> int \<Rightarrow> multisig_state \<Rightarrow> unit multisig_outcome" where
  "set_balance e caller user amount s =
    (case require_admin e caller s of Inl t \<Rightarrow> Inl t | Inr _ \<Rightarrow>
     if amount < 0 then Inl (ContractError InvalidAmount) else Inr ((), s\<lparr>ms_balance := (ms_balance s)(user \<mapsto> amount)\<rparr>))"

definition is_blocked :: "multisig_state \<Rightarrow> address \<Rightarrow> address \<Rightarrow> bool" where
  "is_blocked s caller destination \<longleftrightarrow> ms_blacklist s (caller, destination) \<noteq> None"

definition block_destination :: "env \<Rightarrow> address \<Rightarrow> address \<Rightarrow> multisig_state \<Rightarrow> unit multisig_outcome" where
  "block_destination e caller destination s =
    (if \<not> env_auth e caller then Inl AuthTrap else
     Inr ((), s\<lparr>ms_blacklist := (ms_blacklist s)((caller, destination) \<mapsto> True)\<rparr>))"

definition unblock_destination :: "env \<Rightarrow> address \<Rightarrow> address \<Rightarrow> multisig_state \<Rightarrow> unit multisig_outcome" where
  "unblock_destination e caller destination s =
    (if \<not> env_auth e caller then Inl AuthTrap else
     Inr ((), s\<lparr>ms_blacklist := (ms_blacklist s)((caller, destination) := None)\<rparr>))"

section \<open>Submitted transactions\<close>

definition submit_transaction :: "env \<Rightarrow> address \<Rightarrow> address \<Rightarrow> int \<Rightarrow> symbol \<Rightarrow> address option \<Rightarrow> multisig_state
    \<Rightarrow> nat option multisig_outcome" where
  "submit_transaction e src dst amount payload asset s =
    (if \<not> env_auth e src then Inl AuthTrap else
     if is_blocked s src dst then Inl (ContractError BlacklistedDestination) else
     if amount \<le> 0 then Inl (ContractError InvalidAmount) else
     if amount < get_high_value_threshold s then
       (case execute_transfer src dst amount s of Inl t \<Rightarrow> Inl t | Inr (_, s1) \<Rightarrow>
        Inr (None, emit (TransactionExecuted 0 src src dst amount asset) s1))
     else
     case ensure_multisig_configured s of Inl t \<Rightarrow> Inl t | Inr _ \<Rightarrow>
     case next_tx_id s of Inl t \<Rightarrow> Inl t | Inr (i, s1) \<Rightarrow>
     let p = \<lparr>pt_id = i, pt_from = src, pt_to = dst, pt_amount = amount, pt_payload = payload, pt_asset = asset,
           pt_created_at = env_timestamp e, pt_executed = False\<rparr> in
     Inr (Some i, emit (PendingCreated i src dst amount asset)
       (s1\<lparr>ms_pending := (ms_pending s1)(i \<mapsto> p), ms_approval_count := (ms_approval_count s1)(i \<mapsto> 0)\<rparr>)))"

definition approve :: "env \<Rightarrow> nat \<Rightarrow> address \<Rightarrow> multisig_state \<Rightarrow> unit multisig_outcome" where
  "approve e i signer s =
    (if \<not> env_auth e signer then Inl AuthTrap else
     case require_signer s signer of Inl t \<Rightarrow> Inl t | Inr _ \<Rightarrow>
     case ms_pending s i of None \<Rightarrow> Inl (ContractError PendingTxNotFound) | Some p \<Rightarrow>
     if pt_executed p then Inl (ContractError AlreadyExecuted) else
     case record_approval i signer s of Inl t \<Rightarrow> Inl t | Inr (approvals, s1) \<Rightarrow>
     let s2 = emit (ApprovalRecorded i signer approvals (get_threshold s1)) s1 in
     if get_threshold s1 \<le> approvals then
       (let s3 = s2\<lparr>ms_pending := (ms_pending s2)(i \<mapsto> p\<lparr>pt_executed := True\<rparr>)\<rparr> in
        case execute_transfer (pt_from p) (pt_to p) (pt_amount p) s3 of Inl t \<Rightarrow> Inl t | Inr (_, s4) \<Rightarrow>
        Inr ((), emit (TransactionExecuted (pt_id p) signer (pt_from p) (pt_to p) (pt_amount p) (pt_asset p)) s4))
     else Inr ((), s2))"

section \<open>Scheduled transactions\<close>

definition schedule_timelocked_transaction :: "env \<Rightarrow> address \<Rightarrow> address \<Rightarrow> int \<Rightarrow> symbol \<Rightarrow> address option \<Rightarrow> nat
    \<Rightarrow> multisig_state \<Rightarrow> timelocked_tx multisig_outcome" where
  "schedule_timelocked_transaction e src dst amount payload asset execute_at s =
    (if \<not> env_auth e src then Inl AuthTrap else
     if is_blocked s src dst then Inl (ContractError BlacklistedDestination) else
     if amount \<le> 0 then Inl (ContractError InvalidAmount) else
     if execute_at \<le> env_timestamp e then Inl (ContractError InvalidScheduleTime) else
     case next_timelock_id s of Inl t \<Rightarrow> Inl t | Inr (i, s1) \<Rightarrow>
     let tx = \<lparr>tl_id = i, tl_from = src, tl_to = dst, tl_amount = amount, tl_payload = payload, tl_asset = asset,
           tl_execute_at = execute_at, tl_created_at = env_timestamp e, tl_executed = False, tl_canceled = False,
           tl_executed_at = None, tl_canceled_at = None\<rparr> in
     Inr (tx, emit (TimelockScheduled i src dst amount asset execute_at) (save_timelock tx s1)))"

definition execute_timelocked_transaction :: "env \<Rightarrow> address \<Rightarrow> nat \<Rightarrow> multisig_state \<Rightarrow> unit multisig_outcome" where
  "execute_timelocked_transaction e caller i s =
    (if \<not> env_auth e caller then Inl AuthTrap else
     case get_timelock i s of None \<Rightarrow> Inl (ContractError TimelockNotFound) | Some tx \<Rightarrow>
     if tl_executed tx then Inl (ContractError TimelockAlreadyExecuted) else
     if tl_canceled tx then Inl (ContractError TimelockAlreadyCanceled) else
     if env_timestamp e < tl_execute_at tx then Inl (ContractError EarlyExecution) else
     case get_admin s of Inl t \<Rightarrow> Inl t | Inr admin \<Rightarrow>
     if caller \<noteq> tl_from tx \<and> caller \<noteq> admin then Inl (ContractError Unauthorized) else
     case execute_transfer (tl_from tx) (tl_to tx) (tl_amount tx) s of Inl t \<Rightarrow> Inl t | Inr (_, s1) \<Rightarrow>
     let tx1 = tx\<lparr>tl_executed := True, tl_executed_at := Some (env_timestamp e)\<rparr> in
     Inr ((), emit (TimelockExecuted (tl_id tx) caller (tl_from tx) (tl_to tx) (tl_amount tx) (tl_asset tx) (tl_execute_at tx)
        (tl_executed_at tx1)) (update_timelock tx1 s1)))"

definition cancel_timelocked_transaction :: "env \<Rightarrow> address \<Rightarrow> nat \<Rightarrow> multisig_state \<Rightarrow> unit multisig_outcome" where
  "cancel_timelocked_transaction e caller i s =
    (if \<not> env_auth e caller then Inl AuthTrap else
     case get_timelock i s of None \<Rightarrow> Inl (ContractError TimelockNotFound) | Some tx \<Rightarrow>
     if tl_executed tx then Inl (ContractError TimelockAlreadyExecuted) else
     if tl_canceled tx then Inl (ContractError TimelockAlreadyCanceled) else
     case get_admin s of Inl t \<Rightarrow> Inl t | Inr admin \<Rightarrow>
     if caller \<noteq> tl_from tx \<and> caller \<noteq> admin then Inl (ContractError Unauthorized) else
     let tx1 = tx\<lparr>tl_canceled := True, tl_canceled_at := Some (env_timestamp e)\<rparr> in
     Inr ((), emit (TimelockCancelled (tl_id tx) caller (tl_from tx) (tl_to tx) (tl_amount tx) (tl_asset tx) (tl_execute_at tx)
        (tl_canceled_at tx1)) (update_timelock tx1 s)))"

datatype multisig_call =
    CInitialize address
  | CSetSigners address "address list" nat
  | CSetHighValue address int
  | CSetBalance address address int
  | CBlock address address
  | CUnblock address address
  | CSubmit address address int symbol "address option"
  | CApprove nat address
  | CSchedule address address int symbol "address option" nat
  | CExecuteTimelock address nat
  | CCancelTimelock address nat

fun multisig_exec :: "env \<times> multisig_call \<Rightarrow> multisig_state \<Rightarrow> multisig_error trap + multisig_state" where
  "multisig_exec (e, CInitialize a) s = final (initialize_state a s)"
| "multisig_exec (e, CSetSigners c as n) s = final (set_signers e c as n s)"
| "multisig_exec (e, CSetHighValue c n) s = final (set_high_value_threshold e c n s)"
| "multisig_exec (e, CSetBalance c u n) s = final (set_balance e c u n s)"
| "multisig_exec (e, CBlock c d) s = final (block_destination e c d s)"
| "multisig_exec (e, CUnblock c d) s = final (unblock_destination e c d s)"
| "multisig_exec (e, CSubmit a b n p t) s = final (submit_transaction e a b n p t s)"
| "multisig_exec (e, CApprove i a) s = final (approve e i a s)"
| "multisig_exec (e, CSchedule a b n p t x) s = final (schedule_timelocked_transaction e a b n p t x s)"
| "multisig_exec (e, CExecuteTimelock c i) s = final (execute_timelocked_transaction e c i s)"
| "multisig_exec (e, CCancelTimelock c i) s = final (cancel_timelocked_transaction e c i s)"

section \<open>What the calls do to balances\<close>

lemma multisig_emit_fields [simp]:
  "ms_balance (emit ev s) = ms_balance s" "ms_pending (emit ev s) = ms_pending s" "ms_timelocked (emit ev s) = ms_timelocked s"
  "ms_events (emit ev s) = ms_events s @ [ev]"
  by (simp_all add: emit_def)

lemma balance_emit [simp]: "balance_of (emit ev s) a = balance_of s a"
  by (simp add: balance_of_def)

definition total_balance :: "multisig_state \<Rightarrow> int" where
  "total_balance s = total_over (\<lambda>n. n) (ms_balance s)"

text \<open>What a published transfer of an account to itself amounts to.\<close>

fun to_itself :: "multisig_event \<Rightarrow> int" where
  "to_itself (TransactionExecuted i x a b n t) = (if a = b then n else 0)"
| "to_itself (TimelockExecuted i x a b n t d y) = (if a = b then n else 0)"
| "to_itself _ = 0"

definition self_moved :: "multisig_state \<Rightarrow> int" where
  "self_moved s = sum_list (map to_itself (ms_events s))"

lemma self_moved_simps [simp]:
  "self_moved (emit ev s) = self_moved s + to_itself ev"
  "self_moved (s\<lparr>ms_balance := x1\<rparr>) = self_moved s" "self_moved (s\<lparr>ms_pending := x2\<rparr>) = self_moved s"
  "self_moved (s\<lparr>ms_next_tx_id := x3\<rparr>) = self_moved s" "self_moved (s\<lparr>ms_timelocked := x4\<rparr>) = self_moved s"
  "self_moved (s\<lparr>ms_next_timelock_id := x7\<rparr>) = self_moved s"
  "self_moved (s\<lparr>ms_approval := x5\<rparr>) = self_moved s" "self_moved (s\<lparr>ms_approval_count := x6\<rparr>) = self_moved s"
  by (simp_all add: self_moved_def emit_def)

lemma execute_transfer_Inr:
  "execute_transfer a b n s = Inr (u, s') \<longleftrightarrow> n \<le> balance_of s a \<and> in_i128 (balance_of s a - n) \<and> in_i128 (balance_of s b + n)
     \<and> s' = s\<lparr>ms_balance := (ms_balance s)(a \<mapsto> balance_of s a - n, b \<mapsto> balance_of s b + n)\<rparr>"
  by (auto simp: execute_transfer_def checked_sub_def checked_add_def)

text \<open>Every call either leaves the balances alone or makes one published transfer.\<close>

definition moves :: "address \<Rightarrow> address \<Rightarrow> int \<Rightarrow> multisig_state \<Rightarrow> multisig_state \<Rightarrow> bool" where
  "moves a b n s s' \<longleftrightarrow> n \<le> balance_of s a
     \<and> ms_balance s' = (ms_balance s)(a \<mapsto> balance_of s a - n, b \<mapsto> balance_of s b + n)
     \<and> self_moved s' = self_moved s + (if a = b then n else 0)"

lemma moves_total:
  assumes "moves a b n s s'" and "finite (dom (ms_balance s))"
  shows "total_balance s' = total_balance s + (if a = b then n else 0) \<and> finite (dom (ms_balance s'))"
proof -
  have weight: "opt_weight (\<lambda>n. n) (ms_balance s c) = balance_of s c" for c by (cases "ms_balance s c") (simp_all add: balance_of_def)
  from assms(1) have s': "ms_balance s' = (ms_balance s)(a \<mapsto> balance_of s a - n, b \<mapsto> balance_of s b + n)"
    by (auto simp: moves_def)
  show ?thesis
  proof (cases "a = b")
    case True
    with assms(2) s' weight [of b] show ?thesis by (simp add: total_balance_def total_over_update)
  next
    case False
    have "finite (dom ((ms_balance s)(a \<mapsto> balance_of s a - n)))" using assms(2) by simp
    from total_over_update [OF this, of "\<lambda>n. n" b "balance_of s b + n"] total_over_update [OF assms(2), of "\<lambda>n. n" a "balance_of s a - n"]
    show ?thesis using assms(2) s' weight [of a] weight [of b] False by (simp add: total_balance_def)
  qed
qed

lemma moves_balance:
  "moves a b n s s' \<Longrightarrow> c \<noteq> a \<Longrightarrow> balance_of s' c = (if c = b then balance_of s c + n else balance_of s c)"
  by (simp add: moves_def balance_of_def)

lemma submit_cases:
  assumes "submit_transaction e a b n p t s = Inr (i, s')"
  shows "moves a b n s s' \<and> ms_pending s' = ms_pending s \<and> ms_timelocked s' = ms_timelocked s \<and> env_auth e a \<and> 0 < n
    \<or> ms_balance s' = ms_balance s \<and> self_moved s' = self_moved s \<and> env_auth e a \<and> ms_timelocked s' = ms_timelocked s
      \<and> (\<forall>j q. ms_pending s' j = Some q \<longrightarrow> ms_pending s j = Some q \<or> pt_from q = a \<and> 0 < pt_amount q)"
proof (cases "n < get_high_value_threshold s")
  case True
  with assms obtain s1 where "execute_transfer a b n s = Inr ((), s1)" "s' = emit (TransactionExecuted 0 a a b n t) s1" "env_auth e a" "0 < n"
    by (auto simp: submit_transaction_def split: if_splits sum.splits)
  then show ?thesis by (auto simp: moves_def execute_transfer_Inr)
next
  case False
  with assms show ?thesis
    by (auto simp: submit_transaction_def next_tx_id_def Let_def split: if_splits sum.splits option.splits)
qed

lemma approve_cases:
  assumes "approve e i a s = Inr (u, s')"
  shows "\<exists>p. ms_pending s i = Some p \<and> ms_timelocked s' = ms_timelocked s \<and>
    (moves (pt_from p) (pt_to p) (pt_amount p) s s' \<and> ms_pending s' = (ms_pending s)(i \<mapsto> p\<lparr>pt_executed := True\<rparr>)
     \<or> ms_balance s' = ms_balance s \<and> self_moved s' = self_moved s \<and> ms_pending s' = ms_pending s)"
proof -
  from assms obtain p n s1 where p: "ms_pending s i = Some p" "record_approval i a s = Inr (n, s1)"
    and rest: "(let s2 = emit (ApprovalRecorded i a n (get_threshold s1)) s1 in
      if get_threshold s1 \<le> n then
       (let s3 = s2\<lparr>ms_pending := (ms_pending s2)(i \<mapsto> p\<lparr>pt_executed := True\<rparr>)\<rparr> in
        case execute_transfer (pt_from p) (pt_to p) (pt_amount p) s3 of Inl t \<Rightarrow> Inl t | Inr (_, s4) \<Rightarrow>
        Inr ((), emit (TransactionExecuted (pt_id p) a (pt_from p) (pt_to p) (pt_amount p) (pt_asset p)) s4))
      else Inr ((), s2)) = Inr (u, s')"
    by (auto simp: approve_def split: if_splits sum.splits option.splits)
  from p(2) have s1: "ms_balance s1 = ms_balance s" "self_moved s1 = self_moved s" "ms_pending s1 = ms_pending s"
      "ms_timelocked s1 = ms_timelocked s"
    by (auto simp: record_approval_def Let_def split: if_splits option.splits)
  show ?thesis
  proof (cases "get_threshold s1 \<le> n")
    case True
    with rest obtain s4 where s4: "execute_transfer (pt_from p) (pt_to p) (pt_amount p)
        (emit (ApprovalRecorded i a n (get_threshold s1)) s1\<lparr>ms_pending := (ms_pending s1)(i \<mapsto> p\<lparr>pt_executed := True\<rparr>)\<rparr>) = Inr ((), s4)"
        "s' = emit (TransactionExecuted (pt_id p) a (pt_from p) (pt_to p) (pt_amount p) (pt_asset p)) s4"
      by (auto simp: Let_def split: sum.splits)
    then have "moves (pt_from p) (pt_to p) (pt_amount p) s s'"
      by (auto simp: moves_def execute_transfer_Inr s1 balance_of_def)
    with s4 p(1) s1 show ?thesis by (auto simp: execute_transfer_Inr)
  next
    case False
    with rest p(1) s1 show ?thesis by (auto simp: Let_def)
  qed
qed

lemma schedule_cases:
  assumes "schedule_timelocked_transaction e a b n p t x s = Inr (tx, s')"
  shows "ms_balance s' = ms_balance s \<and> self_moved s' = self_moved s \<and> ms_pending s' = ms_pending s \<and> env_auth e a
    \<and> (\<exists>j. ms_timelocked s' = (ms_timelocked s)(j \<mapsto> tx)) \<and> tl_from tx = a \<and> 0 < tl_amount tx"
  using assms
  by (auto simp: schedule_timelocked_transaction_def next_timelock_id_def save_timelock_def Let_def
      split: if_splits sum.splits option.splits)

lemma execute_timelock_cases:
  assumes "execute_timelocked_transaction e a i s = Inr (u, s')"
  shows "\<exists>tx tx1. ms_timelocked s i = Some tx \<and> moves (tl_from tx) (tl_to tx) (tl_amount tx) s s' \<and> ms_pending s' = ms_pending s
    \<and> ms_timelocked s' = (ms_timelocked s)(tl_id tx \<mapsto> tx1) \<and> tl_from tx1 = tl_from tx \<and> tl_amount tx1 = tl_amount tx"
proof -
  from assms obtain tx s1 where tx: "ms_timelocked s i = Some tx" "execute_transfer (tl_from tx) (tl_to tx) (tl_amount tx) s = Inr ((), s1)"
    "s' = emit (TimelockExecuted (tl_id tx) a (tl_from tx) (tl_to tx) (tl_amount tx) (tl_asset tx) (tl_execute_at tx) (Some (env_timestamp e)))
        (update_timelock (tx\<lparr>tl_executed := True, tl_executed_at := Some (env_timestamp e)\<rparr>) s1)"
    by (auto simp: execute_timelocked_transaction_def get_timelock_def Let_def split: if_splits sum.splits option.splits)
  then show ?thesis
    by (auto simp: execute_transfer_Inr update_timelock_def moves_def)
qed

lemma cancel_timelock_cases:
  assumes "cancel_timelocked_transaction e a i s = Inr (u, s')"
  shows "\<exists>tx tx1. ms_timelocked s i = Some tx \<and> ms_balance s' = ms_balance s \<and> self_moved s' = self_moved s \<and> ms_pending s' = ms_pending s
    \<and> ms_timelocked s' = (ms_timelocked s)(tl_id tx \<mapsto> tx1) \<and> tl_from tx1 = tl_from tx \<and> tl_amount tx1 = tl_amount tx"
  using assms
  by (auto simp: cancel_timelocked_transaction_def get_timelock_def update_timelock_def Let_def
      split: if_splits sum.splits option.splits)

lemma other_calls:
  assumes "multisig_exec (e, c) s = Inr s'" and "\<forall>a b n p t i x. c \<noteq> CSubmit a b n p t \<and> c \<noteq> CApprove i a \<and> c \<noteq> CSchedule a b n p t x
      \<and> c \<noteq> CExecuteTimelock a i \<and> c \<noteq> CCancelTimelock a i \<and> c \<noteq> CSetBalance a b n"
  shows "ms_balance s' = ms_balance s \<and> self_moved s' = self_moved s \<and> ms_pending s' = ms_pending s \<and> ms_timelocked s' = ms_timelocked s"
  using assms
  by (cases c) (auto simp: initialize_state_def set_signers_def set_high_value_threshold_def block_destination_def
      unblock_destination_def self_moved_def split: if_splits sum.splits)

definition sets_no_balance :: "env \<times> multisig_call \<Rightarrow> bool" where
  "sets_no_balance k = (case snd k of CSetBalance a b n \<Rightarrow> False | _ \<Rightarrow> True)"

text \<open>The balances after a call other than \<open>set_balance\<close>.\<close>

lemma step_balances:
  assumes "multisig_exec (e, c) s = Inr s'" and "sets_no_balance (e, c)"
  shows "(\<exists>a b n. moves a b n s s' \<and> (env_auth e a \<and> 0 < n \<or> (\<exists>i p. ms_pending s i = Some p \<and> pt_from p = a \<and> pt_amount p = n)
        \<or> (\<exists>i tx. ms_timelocked s i = Some tx \<and> tl_from tx = a \<and> tl_amount tx = n)))
    \<or> ms_balance s' = ms_balance s \<and> self_moved s' = self_moved s"
proof (cases c)
  case (CSubmit a b n p t)
  with assms(1) obtain i where "submit_transaction e a b n p t s = Inr (i, s')" by auto
  from submit_cases [OF this] show ?thesis by blast
next
  case (CApprove i a)
  with assms(1) have "approve e i a s = Inr ((), s')" by auto
  from approve_cases [OF this] show ?thesis by blast
next
  case (CSchedule a b n p t x)
  with assms(1) obtain tx where "schedule_timelocked_transaction e a b n p t x s = Inr (tx, s')" by auto
  from schedule_cases [OF this] show ?thesis by blast
next
  case (CExecuteTimelock a i)
  with assms(1) have "execute_timelocked_transaction e a i s = Inr ((), s')" by auto
  from execute_timelock_cases [OF this] show ?thesis by blast
next
  case (CCancelTimelock a i)
  with assms(1) have "cancel_timelocked_transaction e a i s = Inr ((), s')" by auto
  from cancel_timelock_cases [OF this] show ?thesis by blast
next
  case (CSetBalance a b n)
  with assms(2) show ?thesis by (simp add: sets_no_balance_def)
qed (use other_calls [OF assms(1)] in auto)

definition books_at :: "int \<Rightarrow> multisig_state \<Rightarrow> bool" where
  "books_at n s \<longleftrightarrow> finite (dom (ms_balance s)) \<and> total_balance s - self_moved s = n"

lemma books_step:
  assumes "books_at n s" and "sets_no_balance k" and "multisig_exec k s = Inr s'"
  shows "books_at n s'"
proof -
  obtain e c where k: "k = (e, c)" by (cases k)
  from step_balances [OF assms(3,2) [unfolded k]] show ?thesis
  proof
    assume "\<exists>a b n. moves a b n s s' \<and> (env_auth e a \<and> 0 < n \<or> (\<exists>i p. ms_pending s i = Some p \<and> pt_from p = a \<and> pt_amount p = n)
        \<or> (\<exists>i tx. ms_timelocked s i = Some tx \<and> tl_from tx = a \<and> tl_amount tx = n))"
    then obtain a b m where "moves a b m s s'" by blast
    with assms(1) moves_total [OF this] show ?thesis by (simp add: books_at_def moves_def)
  next
    assume "ms_balance s' = ms_balance s \<and> self_moved s' = self_moved s"
    with assms(1) show ?thesis by (simp add: books_at_def total_balance_def)
  qed
qed

interpretation balances: contract_invariant multisig_exec "books_at n" sets_no_balance for n
  by unfold_locales (rule books_step)

text \<open>What is pending after a call was pending before or has just been signed for by its sender.\<close>

definition grows :: "(address \<Rightarrow> bool) \<Rightarrow> ('r \<Rightarrow> address) \<Rightarrow> ('r \<Rightarrow> int) \<Rightarrow> (nat \<rightharpoonup> 'r) \<Rightarrow> (nat \<rightharpoonup> 'r) \<Rightarrow> bool" where
  "grows signed src amt m m' \<longleftrightarrow>
     (\<forall>j q. m' j = Some q \<longrightarrow> signed (src q) \<and> 0 < amt q \<or> (\<exists>i p. m i = Some p \<and> src p = src q \<and> amt p = amt q))"

lemma grows_refl [simp]: "grows signed src amt m m"
  by (auto simp: grows_def)

lemma grows_again: "m i = Some p \<Longrightarrow> src p1 = src p \<Longrightarrow> amt p1 = amt p \<Longrightarrow> grows signed src amt m (m(j \<mapsto> p1))"
  by (fastforce simp: grows_def)

lemma grows_new: "signed (src q) \<Longrightarrow> 0 < amt q \<Longrightarrow> grows signed src amt m (m(j \<mapsto> q))"
  by (auto simp: grows_def)

definition signed_for :: "(address \<Rightarrow> bool) \<Rightarrow> multisig_state \<Rightarrow> multisig_state \<Rightarrow> bool" where
  "signed_for signed s s' \<longleftrightarrow> grows signed pt_from pt_amount (ms_pending s) (ms_pending s')
     \<and> grows signed tl_from tl_amount (ms_timelocked s) (ms_timelocked s')"

lemma step_signed:
  assumes "multisig_exec (e, c) s = Inr s'"
  shows "signed_for (env_auth e) s s'"
proof (cases c)
  case (CSubmit a b n p t)
  with assms obtain i where "submit_transaction e a b n p t s = Inr (i, s')" by auto
  from submit_cases [OF this] have "grows (env_auth e) pt_from pt_amount (ms_pending s) (ms_pending s')"
      "ms_timelocked s' = ms_timelocked s"
    unfolding grows_def by metis+
  then show ?thesis by (simp add: signed_for_def)
next
  case (CApprove i a)
  with assms have "approve e i a s = Inr ((), s')" by auto
  from approve_cases [OF this] show ?thesis by (auto simp: signed_for_def intro!: grows_again)
next
  case (CSchedule a b n p t x)
  with assms obtain tx where "schedule_timelocked_transaction e a b n p t x s = Inr (tx, s')" by auto
  from schedule_cases [OF this] show ?thesis by (auto simp: signed_for_def intro: grows_new)
next
  case (CExecuteTimelock a i)
  with assms have "execute_timelocked_transaction e a i s = Inr ((), s')" by auto
  from execute_timelock_cases [OF this] show ?thesis by (auto simp: signed_for_def intro!: grows_again)
next
  case (CCancelTimelock a i)
  with assms have "cancel_timelocked_transaction e a i s = Inr ((), s')" by auto
  from cancel_timelock_cases [OF this] show ?thesis by (auto simp: signed_for_def intro!: grows_again)
next
  case (CSetBalance a b n)
  with assms show ?thesis by (auto simp: signed_for_def set_balance_def split: sum.splits if_splits)
qed (use other_calls [OF assms] in \<open>auto simp: signed_for_def\<close>)

text \<open>An account that never signs: nothing is pending in its name, and its balance only grows.\<close>

definition no_part :: "address \<Rightarrow> int \<Rightarrow> multisig_state \<Rightarrow> bool" where
  "no_part a n s \<longleftrightarrow> n \<le> balance_of s a
     \<and> (\<forall>i p. ms_pending s i = Some p \<longrightarrow> pt_from p \<noteq> a \<and> 0 < pt_amount p)
     \<and> (\<forall>i tx. ms_timelocked s i = Some tx \<longrightarrow> tl_from tx \<noteq> a \<and> 0 < tl_amount tx)"

definition silent :: "address \<Rightarrow> env \<times> multisig_call \<Rightarrow> bool" where
  "silent a k \<longleftrightarrow> \<not> env_auth (fst k) a"

lemma no_part_records:
  assumes "no_part a n s" and "silent a k" and "multisig_exec k s = Inr s'" and "m \<le> balance_of s' a"
  shows "no_part a m s'"
proof -
  obtain e c where k: "k = (e, c)" by (cases k)
  from assms step_signed [of e c s s'] show ?thesis
    unfolding no_part_def silent_def signed_for_def grows_def k fst_conv by metis
qed

text \<open>The admin does not set the balance of this account.\<close>

definition spares :: "address \<Rightarrow> env \<times> multisig_call \<Rightarrow> bool" where
  "spares a k = (case snd k of CSetBalance c b n \<Rightarrow> b \<noteq> a | _ \<Rightarrow> True)"

lemma no_part_step:
  assumes "no_part a n s" and "silent a k \<and> spares a k" and "multisig_exec k s = Inr s'"
  shows "no_part a n s'"
proof -
  obtain e c where k: "k = (e, c)" by (cases k)
  have quiet: "\<not> env_auth e a" using assms(2) by (simp add: k silent_def)
  have "n \<le> balance_of s' a"
  proof (cases "sets_no_balance (e, c)")
    case True
    from step_balances [OF assms(3) [unfolded k] True] show ?thesis
    proof
      assume "\<exists>a b n. moves a b n s s' \<and> (env_auth e a \<and> 0 < n \<or> (\<exists>i p. ms_pending s i = Some p \<and> pt_from p = a \<and> pt_amount p = n)
          \<or> (\<exists>i tx. ms_timelocked s i = Some tx \<and> tl_from tx = a \<and> tl_amount tx = n))"
      then obtain b c m where m: "moves b c m s s'" "b \<noteq> a" "0 < m"
        using assms(1) quiet unfolding no_part_def by blast
      with moves_balance [OF m(1), of a] assms(1) show ?thesis by (auto simp: no_part_def)
    qed (use assms(1) in \<open>auto simp: no_part_def balance_of_def\<close>)
  next
    case False
    then obtain d b m where c: "c = CSetBalance d b m" by (auto simp: sets_no_balance_def split: multisig_call.splits)
    then have "b \<noteq> a" using assms(2) by (simp add: k spares_def)
    with assms(1,3) show ?thesis
      by (auto simp: k c set_balance_def no_part_def balance_of_def split: if_splits sum.splits)
  qed
  then show ?thesis using no_part_records [OF assms(1) _ assms(3)] assms(2) by blast
qed

interpretation bystander: contract_invariant multisig_exec "no_part a n" "\<lambda>k. silent a k \<and> spares a k" for a n
  by unfold_locales (rule no_part_step)

interpretation stranger: contract_invariant multisig_exec "\<lambda>s. \<exists>n. no_part a n s" "silent a" for a
  by unfold_locales (blast intro: no_part_records [OF _ _ _ order_refl])

section \<open>Properties\<close>

text \<open>Money is made only by moving it to oneself.  After any calls other than the admin's \<open>set_balance\<close>, the sum of all
  balances is what it was, plus every amount that an account has transferred to itself: such a transfer, of either kind,
  credits the amount and debits nothing.\<close>

theorem transfers_create_nothing_else:
  assumes "run multisig_exec ks s = s'" and "finite (dom (ms_balance s))" and "\<And>k. k \<in> set ks \<Longrightarrow> sets_no_balance k"
  shows "total_balance s' = total_balance s + (self_moved s' - self_moved s)"
proof -
  have "books_at (total_balance s - self_moved s) s'"
    using balances.run_inv [of "total_balance s - self_moved s" s ks] assms by (auto simp: books_at_def)
  then show ?thesis by (simp add: books_at_def)
qed

text \<open>C12: Nobody's money moves without a signature.  An account that has signed no call since the contract was deployed keeps
  at least its balance through any calls of others but one, a \<open>set_balance\<close> of the admin on this very account: neither the
  signers nor the admin can take it by an approval, a scheduled transfer or anything else.\<close>

theorem unsigned_accounts_keep_their_balance:
  assumes "run multisig_exec ks multisig_fresh = s" and "\<And>k. k \<in> set ks \<Longrightarrow> silent a k"
    and "run multisig_exec ks' s = s'" and "\<And>k. k \<in> set ks' \<Longrightarrow> silent a k \<and> spares a k"
  shows "balance_of s a \<le> balance_of s' a"
proof -
  have "\<exists>n. no_part a n multisig_fresh" by (auto simp: no_part_def multisig_fresh_def)
  from stranger.run_inv [OF this, of ks] assms(1,2) have "\<exists>n. no_part a n s" by blast
  then have "no_part a (balance_of s a) s" by (auto simp: no_part_def)
  from bystander.run_inv [OF this, of ks'] assms(3,4) show ?thesis by (auto simp: no_part_def)
qed

text \<open>The time lock goes around the signers.  Whatever the threshold for transfers of high value, a sender moves any
  covered amount alone: it schedules the transfer for the next second and executes it then.\<close>

theorem timelock_bypasses_signers:
  assumes "ms_admin s \<noteq> None" and "env_auth e a" and "\<not> is_blocked s a b" and "0 < n" and "n \<le> balance_of s a"
    and "in_i128 (balance_of s a - n)" and "in_i128 (balance_of s b + n)" and "in_u64 (unwrap_or (ms_next_timelock_id s) 0 + 1)"
    and "a \<noteq> b" and "env_timestamp e1 = env_timestamp e + 1" and "env_auth e1 a"
  shows "balance_of (run multisig_exec [(e, CSchedule a b n p t (env_timestamp e + 1)),
      (e1, CExecuteTimelock a (unwrap_or (ms_next_timelock_id s) 0 + 1))] s) b = balance_of s b + n"
  using assms
  by (auto simp: schedule_timelocked_transaction_def next_timelock_id_def save_timelock_def Let_def u64_add_def commit_def
      execute_timelocked_transaction_def get_timelock_def get_admin_def execute_transfer_def checked_sub_def checked_add_def
      balance_of_def update_timelock_def emit_def split: option.splits)

section \<open>Witnesses\<close>

definition demo_calls :: "(env \<times> multisig_call) list" where
  "demo_calls =
     [(signed_env [] 1 10 (Addr 9), CInitialize (Addr 1)),
      (signed_env [Addr 1] 1 11 (Addr 9), CSetSigners (Addr 1) [Addr 5, Addr 6] 2),
      (signed_env [Addr 1] 1 11 (Addr 9), CSetHighValue (Addr 1) 100),
      (signed_env [Addr 1] 1 11 (Addr 9), CSetBalance (Addr 1) (Addr 2) 900),
      (signed_env [Addr 1] 1 11 (Addr 9), CSetBalance (Addr 1) (Addr 3) 70)]"

definition demo_more :: "(env \<times> multisig_call) list" where
  "demo_more =
     [(signed_env [Addr 2] 1 20 (Addr 9), CSubmit (Addr 2) (Addr 3) 500 ''x'' None),
      (signed_env [Addr 5] 1 21 (Addr 9), CApprove 1 (Addr 5)),
      (signed_env [Addr 6] 1 22 (Addr 9), CApprove 1 (Addr 6)),
      (signed_env [Addr 2] 1 23 (Addr 9), CSubmit (Addr 2) (Addr 2) 40 ''y'' None)]"

definition demo_state :: multisig_state where
  "demo_state = run multisig_exec demo_calls multisig_fresh"

lemma demo_multisig_eq: "demo_state =
  \<lparr>ms_admin = Some (Addr 1), ms_signers = Some [Addr 5, Addr 6], ms_threshold = Some 2, ms_high_value_threshold = Some 100,
   ms_next_tx_id = Some 0, ms_pending = Map.empty, ms_approval = Map.empty, ms_approval_count = Map.empty,
   ms_balance = [Addr 2 \<mapsto> 900, Addr 3 \<mapsto> 70], ms_blacklist = Map.empty, ms_next_timelock_id = None,
   ms_timelocked = Map.empty, ms_events = []\<rparr>"
  by (simp add: demo_state_def demo_calls_def multisig_fresh_def initialize_state_def set_signers_def require_admin_def get_admin_def
      validate_signer_config_def set_high_value_threshold_def set_balance_def)

lemma demo_more_balances:
  "ms_balance (run multisig_exec demo_more demo_state) = [Addr 2 \<mapsto> 440, Addr 3 \<mapsto> 570]
   \<and> self_moved (run multisig_exec demo_more demo_state) = 40"
  by (simp add: demo_more_def demo_multisig_eq submit_transaction_def is_blocked_def get_high_value_threshold_def
      ensure_multisig_configured_def get_signers_def get_threshold_def next_tx_id_def approve_def require_signer_def is_signer_def
      record_approval_def has_approval_def get_approval_count_def execute_transfer_def balance_of_def emit_def self_moved_def
      Let_def arith_defs fun_upd_twist)

theorem transfers_create_nothing_else_witness:
  "total_balance (run multisig_exec demo_more demo_state) = total_balance demo_state + 40"
proof -
  have fin: "finite (dom (ms_balance demo_state))" and none: "self_moved demo_state = 0"
    by (simp_all add: demo_multisig_eq self_moved_def)
  have calls: "\<And>k. k \<in> set demo_more \<Longrightarrow> sets_no_balance k" by (auto simp: demo_more_def sets_no_balance_def)
  show ?thesis using transfers_create_nothing_else [OF refl fin calls] demo_more_balances none by simp
qed

theorem unsigned_accounts_keep_their_balance_witness:
  "70 \<le> balance_of (run multisig_exec demo_more demo_state) (Addr 3)"
proof -
  have "\<And>k. k \<in> set demo_calls \<Longrightarrow> silent (Addr 3) k" by (auto simp: demo_calls_def silent_def)
  moreover have "\<And>k. k \<in> set demo_more \<Longrightarrow> silent (Addr 3) k \<and> spares (Addr 3) k"
    by (auto simp: demo_more_def silent_def spares_def)
  ultimately have "balance_of demo_state (Addr 3) \<le> balance_of (run multisig_exec demo_more demo_state) (Addr 3)"
    using unsigned_accounts_keep_their_balance [OF demo_state_def [symmetric], of "Addr 3" demo_more] by blast
  then show ?thesis by (simp add: demo_multisig_eq balance_of_def)
qed

theorem timelock_bypasses_signers_witness:
  "get_high_value_threshold demo_state = 100
   \<and> balance_of (run multisig_exec [(signed_env [Addr 2] 1 30 (Addr 9), CSchedule (Addr 2) (Addr 3) 800 ''z'' None 31),
        (signed_env [Addr 2] 1 31 (Addr 9), CExecuteTimelock (Addr 2) 1)] demo_state) (Addr 3) = 870"
  using timelock_bypasses_signers [of demo_state "signed_env [Addr 2] 1 30 (Addr 9)" "Addr 2" "Addr 3" 800
      "signed_env [Addr 2] 1 31 (Addr 9)" "''z''" None]
  by (simp add: demo_multisig_eq get_high_value_threshold_def is_blocked_def balance_of_def in_i128_def in_u64_def)

end
