(* ===== verification/Preferences.thy ===== *)
theory Preferences
  imports Host "HOL-Library.Word"
begin

text \<open>
  \<open>contracts/preference.rs\<close>: which notifications a user wants on which channel.  A channel keeps one bit for each type of
  event in a \<open>u32\<close>, here a word of 32 bits with the same operations on it.  The file is declared by no crate.
\<close>

unbundle bit_operations_syntax

section \<open>Data\<close>

datatype notification_channel = OnChain | Email | Push | Sms

fun channel_code :: "notification_channel \<Rightarrow> nat" where
  "channel_code OnChain = 0"
| "channel_code Email = 1"
| "channel_code Push = 2"
| "channel_code Sms = 3"

datatype event_type =
    Transfer | Reward | FraudAlert | StreakUpdate | PaymentExecuted | AccountFrozen | RecurringContribution | SystemAlert

fun event_code :: "event_type \<Rightarrow> nat" where
  "event_code Transfer = 0"
| "event_code Reward = 1"
| "event_code FraudAlert = 2"
| "event_code StreakUpdate = 3"
| "event_code PaymentExecuted = 4"
| "event_code AccountFrozen = 5"
| "event_code RecurringContribution = 6"
| "event_code SystemAlert = 7"

record channel_preference =
  cp_enabled :: bool
  cp_event_mask :: "32 word"

definition all_enabled :: channel_preference where
  "all_enabled = \<lparr>cp_enabled = True, cp_event_mask = 0xFF\<rparr>"

definition disabled :: channel_preference where
  "disabled = \<lparr>cp_enabled = False, cp_event_mask = 0\<rparr>"

definition accepts :: "channel_preference \<Rightarrow> event_type \<Rightarrow> bool" where
  "accepts p event_type =
    (if \<not> cp_enabled p then False else cp_event_mask p AND push_bit (event_code event_type) 1 \<noteq> 0)"

definition enable_event :: "event_type \<Rightarrow> channel_preference \<Rightarrow> channel_preference" where
  "enable_event event_type p = p\<lparr>cp_event_mask := cp_event_mask p OR push_bit (event_code event_type) 1\<rparr>"

definition disable_event :: "event_type \<Rightarrow> channel_preference \<Rightarrow> channel_preference" where
  "disable_event event_type p = p\<lparr>cp_event_mask := cp_event_mask p AND NOT (push_bit (event_code event_type) 1)\<rparr>"

record user_preference_record =
  up_on_chain :: channel_preference
  up_email :: channel_preference
  up_push :: channel_preference
  up_sms :: channel_preference
  up_updated_at :: nat
  up_update_count :: nat

definition default_preferences :: user_preference_record where
  "default_preferences = \<lparr>up_on_chain = all_enabled, up_email = disabled, up_push = disabled, up_sms = disabled,
     up_updated_at = 0, up_update_count = 0\<rparr>"

fun channel :: "user_preference_record \<Rightarrow> notification_channel \<Rightarrow> channel_preference" where
  "channel r OnChain = up_on_chain r"
| "channel r Email = up_email r"
| "channel r Push = up_push r"
| "channel r Sms = up_sms r"

text \<open>Writing through the mutable reference of \<open>channel_mut\<close>.\<close>

fun channel_mut :: "notification_channel \<Rightarrow> (channel_preference \<Rightarrow> channel_preference) \<Rightarrow> user_preference_record \<Rightarrow> user_preference_record" where
  "channel_mut OnChain f r = r\<lparr>up_on_chain := f (up_on_chain r)\<rparr>"
| "channel_mut Email f r = r\<lparr>up_email := f (up_email r)\<rparr>"
| "channel_mut Push f r = r\<lparr>up_push := f (up_push r)\<rparr>"
| "channel_mut Sms f r = r\<lparr>up_sms := f (up_sms r)\<rparr>"

datatype preferences_error = NotInitialized | AlreadyInitialized | Unauthorized | Overflow

datatype preference_event =
    PreferencesSet address nat
  | ChannelUpdated address nat bool nat
  | EventTypeUpdated address nat nat bool nat
  | NotificationDispatched address nat nat nat nat

record preferences_state =
  pf_admin :: "address option"
  pf_user :: "address \<rightharpoonup> user_preference_record"
  pf_events :: "preference_event list"

definition preferences_fresh :: preferences_state where
  "preferences_fresh = \<lparr>pf_admin = None, pf_user = Map.empty, pf_events = []\<rparr>"

type_synonym 'a preferences_outcome = "(preferences_state, preferences_error, 'a) outcome"

definition emit :: "preference_event \<Rightarrow> preferences_state \<Rightarrow> preferences_state" where
  "emit ev s = s\<lparr>pf_events := pf_events s @ [ev]\<rparr>"

section \<open>Internal helpers\<close>

definition require_initialized :: "preferences_state \<Rightarrow> preferences_error trap + address" where
  "require_initialized s = (case pf_admin s of None \<Rightarrow> Inl (ContractError NotInitialized) | Some a \<Rightarrow> Inr a)"

definition load_preferences :: "address \<Rightarrow> preferences_state \<Rightarrow> user_preference_record" where
  "load_preferences user s = unwrap_or (pf_user s user) default_preferences"

definition save_preferences :: "address \<Rightarrow> user_preference_record \<Rightarrow> preferences_state \<Rightarrow> preferences_state" where
  "save_preferences user r s = s\<lparr>pf_user := (pf_user s)(user \<mapsto> r)\<rparr>"

definition touch :: "env \<Rightarrow> address \<Rightarrow> user_preference_record \<Rightarrow> preferences_state \<Rightarrow> preferences_error trap + preferences_state" where
  "touch e user r s =
    (case u32_add (up_update_count r) 1 of None \<Rightarrow> Inl (ContractError Overflow) | Some n \<Rightarrow>
     Inr (save_preferences user (r\<lparr>up_updated_at := env_timestamp e, up_update_count := n\<rparr>) s))"

section \<open>Entry points\<close>

definition initialize :: "address \<Rightarrow> preferences_state \<Rightarrow> unit preferences_outcome" where
  "initialize admin s =
    (if pf_admin s \<noteq> None then Inl (ContractError AlreadyInitialized) else Inr ((), s\<lparr>pf_admin := Some admin\<rparr>))"

definition set_preferences :: "env \<Rightarrow> address \<Rightarrow> channel_preference \<Rightarrow> channel_preference \<Rightarrow> channel_preference
    \<Rightarrow> channel_preference \<Rightarrow> preferences_state \<Rightarrow> unit preferences_outcome" where
  "set_preferences e user on_chain email push sms s =
    (if \<not> env_auth e user then Inl AuthTrap else
     case require_initialized s of Inl t \<Rightarrow> Inl t | Inr _ \<Rightarrow>
     let r = (load_preferences user s)\<lparr>up_on_chain := on_chain, up_email := email, up_push := push, up_sms := sms\<rparr> in
     case touch e user r s of Inl t \<Rightarrow> Inl t | Inr s1 \<Rightarrow>
     Inr ((), emit (PreferencesSet user (env_timestamp e)) s1))"

definition update_channel :: "env \<Rightarrow> address \<Rightarrow> notification_channel \<Rightarrow> bool \<Rightarrow> preferences_state \<Rightarrow> unit preferences_outcome" where
  "update_channel e user ch enabled s =
    (if \<not> env_auth e user then Inl AuthTrap else
     case require_initialized s of Inl t \<Rightarrow> Inl t | Inr _ \<Rightarrow>
     let r = channel_mut ch (\<lambda>p. p\<lparr>cp_enabled := enabled\<rparr>) (load_preferences user s) in
     case touch e user r s of Inl t \<Rightarrow> Inl t | Inr s1 \<Rightarrow>
     Inr ((), emit (ChannelUpdated user (channel_code ch) enabled (env_timestamp e)) s1))"

definition update_event_type :: "env \<Rightarrow> address \<Rightarrow> notification_channel \<Rightarrow> event_type \<Rightarrow> bool \<Rightarrow> preferences_state
    \<Rightarrow> unit preferences_outcome" where
  "update_event_type e user ch event_type enabled s =
    (if \<not> env_auth e user then Inl AuthTrap else
     case require_initialized s of Inl t \<Rightarrow> Inl t | Inr _ \<Rightarrow>
     let r = channel_mut ch (if enabled then enable_event event_type else disable_event event_type) (load_preferences user s) in
     case touch e user r s of Inl t \<Rightarrow> Inl t | Inr s1 \<Rightarrow>
     Inr ((), emit (EventTypeUpdated user (channel_code ch) (event_code event_type) enabled (env_timestamp e)) s1))"

definition channels :: "notification_channel list" where
  "channels = [OnChain, Email, Push, Sms]"

definition dispatch_step :: "env \<Rightarrow> address \<Rightarrow> event_type \<Rightarrow> nat \<Rightarrow> user_preference_record \<Rightarrow> notification_channel
    \<Rightarrow> preferences_state \<times> nat \<Rightarrow> preferences_state \<times> nat" where
  "dispatch_step e user event_type payload_ref r ch acc = (case acc of (s, dispatched) \<Rightarrow>
     if accepts (channel r ch) event_type
     then (emit (NotificationDispatched user (channel_code ch) (event_code event_type) payload_ref (env_timestamp e)) s,
       min u32_max (dispatched + 1))
     else (s, dispatched))"

definition dispatch_notification :: "env \<Rightarrow> address \<Rightarrow> event_type \<Rightarrow> nat \<Rightarrow> preferences_state \<Rightarrow> nat preferences_outcome" where
  "dispatch_notification e user event_type payload_ref s =
    (case require_initialized s of Inl t \<Rightarrow> Inl t | Inr _ \<Rightarrow>
     let r = load_preferences user s;
         (s1, dispatched) = fold (dispatch_step e user event_type payload_ref r) channels (s, 0) in
     Inr (dispatched, s1))"

definition get_preferences :: "address \<Rightarrow> preferences_state \<Rightarrow> preferences_error trap + user_preference_record" where
  "get_preferences user s =
    (case require_initialized s of Inl t \<Rightarrow> Inl t | Inr _ \<Rightarrow> Inr (load_preferences user s))"

definition is_enabled :: "address \<Rightarrow> notification_channel \<Rightarrow> event_type \<Rightarrow> preferences_state \<Rightarrow> preferences_error trap + bool" where
  "is_enabled user ch event_type s =
    (case require_initialized s of Inl t \<Rightarrow> Inl t | Inr _ \<Rightarrow> Inr (accepts (channel (load_preferences user s) ch) event_type))"

definition active_channels_for :: "address \<Rightarrow> event_type \<Rightarrow> preferences_state \<Rightarrow> preferences_error trap + nat list" where
  "active_channels_for user event_type s =
    (case require_initialized s of Inl t \<Rightarrow> Inl t | Inr _ \<Rightarrow>
     Inr (map channel_code (filter (\<lambda>ch. accepts (channel (load_preferences user s) ch) event_type) channels)))"

datatype preferences_call =
    CInitialize address
  | CSet address channel_preference channel_preference channel_preference channel_preference
  | CChannel address notification_channel bool
  | CEvent address notification_channel event_type bool
  | CDispatch address event_type nat

fun preferences_exec :: "env \<times> preferences_call \<Rightarrow> preferences_state \<Rightarrow> preferences_error trap + preferences_state" where
  "preferences_exec (e, CInitialize a) s = final (initialize a s)"
| "preferences_exec (e, CSet u a b c d) s = final (set_preferences e u a b c d s)"
| "preferences_exec (e, CChannel u ch b) s = final (update_channel e u ch b s)"
| "preferences_exec (e, CEvent u ch t b) s = final (update_event_type e u ch t b s)"
| "preferences_exec (e, CDispatch u t n) s = final (dispatch_notification e u t n s)"

section \<open>The masks as sets\<close>

definition wanted :: "channel_preference \<Rightarrow> event_type set" where
  "wanted p = {t. bit (cp_event_mask p) (event_code t)}"

lemma event_code_less [simp]: "event_code t < 32"
  by (cases t) simp_all

lemma event_code_inj [simp]: "event_code t = event_code u \<longleftrightarrow> t = u"
  by (cases t; cases u) simp_all

lemma accepts_iff: "accepts p t \<longleftrightarrow> cp_enabled p \<and> t \<in> wanted p"
  by (simp add: accepts_def wanted_def bit_iff_and_push_bit_not_eq_0)

lemma wanted_enable: "wanted (enable_event t p) = insert t (wanted p)"
  by (auto simp: wanted_def enable_event_def bit_simps)

lemma wanted_disable: "wanted (disable_event t p) = wanted p - {t}"
  by (auto simp: wanted_def disable_event_def bit_simps)

lemma enabled_event: "cp_enabled (enable_event t p) = cp_enabled p" "cp_enabled (disable_event t p) = cp_enabled p"
  by (simp_all add: enable_event_def disable_event_def)

lemma wanted_all: "wanted all_enabled = UNIV"
proof -
  have "bit (0xFF :: 32 word) (event_code t)" for t by (cases t) simp_all
  then show ?thesis by (auto simp: wanted_def all_enabled_def)
qed

lemma wanted_none: "wanted disabled = {}"
  by (simp add: wanted_def disabled_def)

section \<open>What the contract promises\<close>

text \<open>The abstract contract: for each user and channel a switch and a set of wanted events, and how often the user has
  changed them, which is bounded.\<close>

record preference_spec =
  sp_ready :: bool
  sp_count :: "address \<Rightarrow> nat"
  sp_table :: "address \<Rightarrow> notification_channel \<Rightarrow> bool \<times> event_type set"

definition table_of :: "user_preference_record \<Rightarrow> notification_channel \<Rightarrow> bool \<times> event_type set" where
  "table_of r = (\<lambda>ch. (cp_enabled (channel r ch), wanted (channel r ch)))"

definition spec_of :: "preferences_state \<Rightarrow> preference_spec" where
  "spec_of s = \<lparr>sp_ready = (pf_admin s \<noteq> None), sp_count = (\<lambda>u. up_update_count (load_preferences u s)),
     sp_table = (\<lambda>u. table_of (load_preferences u s))\<rparr>"

definition spec_fresh :: preference_spec where
  "spec_fresh = \<lparr>sp_ready = False, sp_count = (\<lambda>u. 0), sp_table = (\<lambda>u ch. if ch = OnChain then (True, UNIV) else (False, {}))\<rparr>"

definition change :: "env \<Rightarrow> address \<Rightarrow> (notification_channel \<Rightarrow> bool \<times> event_type set) \<Rightarrow> preference_spec \<Rightarrow> preference_spec" where
  "change e u tab A =
    (if env_auth e u \<and> sp_ready A \<and> in_u32 (sp_count A u + 1)
     then A\<lparr>sp_count := (sp_count A)(u := sp_count A u + 1), sp_table := (sp_table A)(u := tab)\<rparr> else A)"

fun spec_step :: "env \<times> preferences_call \<Rightarrow> preference_spec \<Rightarrow> preference_spec" where
  "spec_step (e, CInitialize a) A = A\<lparr>sp_ready := True\<rparr>"
| "spec_step (e, CSet u a b c d) A = change e u (\<lambda>ch. case ch of
     OnChain \<Rightarrow> (cp_enabled a, wanted a) | Email \<Rightarrow> (cp_enabled b, wanted b)
   | Push \<Rightarrow> (cp_enabled c, wanted c) | Sms \<Rightarrow> (cp_enabled d, wanted d)) A"
| "spec_step (e, CChannel u ch b) A = change e u ((sp_table A u)(ch := (b, snd (sp_table A u ch)))) A"
| "spec_step (e, CEvent u ch t b) A = change e u ((sp_table A u)(ch := (fst (sp_table A u ch),
     if b then insert t (snd (sp_table A u ch)) else snd (sp_table A u ch) - {t}))) A"
| "spec_step (e, CDispatch u t n) A = A"

lemma table_channel_mut: "table_of (channel_mut ch f r) = (table_of r)(ch := (cp_enabled (f (channel r ch)), wanted (f (channel r ch))))"
proof
  fix c
  show "table_of (channel_mut ch f r) c = ((table_of r)(ch := (cp_enabled (f (channel r ch)), wanted (f (channel r ch))))) c"
    by (cases ch; cases c) (simp_all add: table_of_def)
qed

lemma table_at [simp]: "fst (table_of r ch) = cp_enabled (channel r ch)" "snd (table_of r ch) = wanted (channel r ch)"
  by (simp_all add: table_of_def)

lemma wanted_switch [simp]: "wanted (p\<lparr>cp_enabled := b\<rparr>) = wanted p"
  by (simp add: wanted_def)

lemma spec_table [simp]: "sp_table (spec_of s) u = table_of (load_preferences u s)"
  by (simp add: spec_of_def)

lemma channel_mut_count [simp]: "up_update_count (channel_mut ch f r) = up_update_count r"
  by (cases ch) simp_all

lemma table_of_touch [simp]: "table_of (r\<lparr>up_updated_at := t, up_update_count := n\<rparr>) = table_of r"
proof
  fix c
  show "table_of (r\<lparr>up_updated_at := t, up_update_count := n\<rparr>) c = table_of r c" by (cases c) (simp_all add: table_of_def)
qed

lemma load_save [simp]: "load_preferences u (save_preferences v r s) = (if u = v then r else load_preferences u s)"
  by (simp add: load_preferences_def save_preferences_def)

lemma load_emit [simp]: "load_preferences u (emit ev s) = load_preferences u s" "pf_admin (emit ev s) = pf_admin s"
  by (simp_all add: load_preferences_def emit_def)

lemma admin_save [simp]: "pf_admin (save_preferences u r s) = pf_admin s"
  by (simp add: save_preferences_def)

lemma spec_of_emit [simp]: "spec_of (emit ev s) = spec_of s"
  by (simp add: spec_of_def)

text \<open>Every change goes through \<open>touch\<close>: with the signature and an initialised contract it takes effect unless the counter
  is exhausted.\<close>

lemma change_touch:
  assumes "up_update_count r = up_update_count (load_preferences u s)"
  shows "spec_of (commit s (final (if \<not> env_auth e u then Inl AuthTrap else
      case require_initialized s of Inl t \<Rightarrow> Inl t | Inr _ \<Rightarrow>
      case touch e u r s of Inl t \<Rightarrow> Inl t | Inr s1 \<Rightarrow> Inr ((), emit ev s1))))
    = change e u (table_of r) (spec_of s)"
proof (cases "env_auth e u \<and> pf_admin s \<noteq> None \<and> in_u32 (up_update_count r + 1)")
  case True
  then have "touch e u r s = Inr (save_preferences u (r\<lparr>up_updated_at := env_timestamp e, up_update_count := up_update_count r + 1\<rparr>) s)"
    by (simp add: touch_def u32_add_def)
  with True assms show ?thesis
    by (auto simp: require_initialized_def change_def spec_of_def fun_eq_iff)
next
  case False
  then show ?thesis using assms
    by (auto simp: require_initialized_def touch_def u32_add_def change_def spec_of_def split: option.splits)
qed

lemma dispatch_fold:
  "fold (dispatch_step e u t n r) chs (s, k) =
    (let sent = filter (\<lambda>ch. accepts (channel r ch) t) chs in
     (s\<lparr>pf_events := pf_events s @ map (\<lambda>ch. NotificationDispatched u (channel_code ch) (event_code t) n (env_timestamp e)) sent\<rparr>,
      if sent = [] then k else min u32_max (k + length sent)))"
  by (induction chs arbitrary: s k) (auto simp: dispatch_step_def emit_def Let_def min_def)

lemma preferences_step: "spec_of (commit s (preferences_exec k s)) = spec_step k (spec_of s)"
proof -
  obtain e c where k: "k = (e, c)" by (cases k)
  show ?thesis unfolding k
  proof (cases c)
    case (CInitialize a)
    then show "spec_of (commit s (preferences_exec (e, c) s)) = spec_step (e, c) (spec_of s)"
      by (auto simp: initialize_def spec_of_def load_preferences_def)
  next
    case (CSet u a b c' d)
    define r where "r = (load_preferences u s)\<lparr>up_on_chain := a, up_email := b, up_push := c', up_sms := d\<rparr>"
    have "table_of r ch = (case ch of OnChain \<Rightarrow> (cp_enabled a, wanted a) | Email \<Rightarrow> (cp_enabled b, wanted b)
      | Push \<Rightarrow> (cp_enabled c', wanted c') | Sms \<Rightarrow> (cp_enabled d, wanted d))" for ch
      by (cases ch) (simp_all add: table_of_def r_def)
    then have tab: "table_of r = (\<lambda>ch. case ch of OnChain \<Rightarrow> (cp_enabled a, wanted a) | Email \<Rightarrow> (cp_enabled b, wanted b)
      | Push \<Rightarrow> (cp_enabled c', wanted c') | Sms \<Rightarrow> (cp_enabled d, wanted d))" by (rule ext)
    have "up_update_count r = up_update_count (load_preferences u s)" by (simp add: r_def)
    from change_touch [OF this, of e "PreferencesSet u (env_timestamp e)"]
    show "spec_of (commit s (preferences_exec (e, c) s)) = spec_step (e, c) (spec_of s)"
      unfolding CSet preferences_exec.simps spec_step.simps set_preferences_def Let_def tab r_def [symmetric] .
  next
    case (CChannel u ch b)
    show "spec_of (commit s (preferences_exec (e, c) s)) = spec_step (e, c) (spec_of s)"
      unfolding CChannel preferences_exec.simps spec_step.simps update_channel_def Let_def
      by (subst change_touch) (simp_all add: table_channel_mut)
  next
    case (CEvent u ch t b)
    show "spec_of (commit s (preferences_exec (e, c) s)) = spec_step (e, c) (spec_of s)"
      unfolding CEvent preferences_exec.simps spec_step.simps update_event_type_def Let_def
      by (subst change_touch) (simp_all add: table_channel_mut wanted_enable wanted_disable enabled_event)
  next
    case (CDispatch u t n)
    then show "spec_of (commit s (preferences_exec (e, c) s)) = spec_step (e, c) (spec_of s)"
      by (auto simp: dispatch_notification_def dispatch_fold spec_of_def load_preferences_def Let_def split: sum.splits)
  qed
qed

lemma run_spec:
  "spec_of (run preferences_exec ks preferences_fresh) = fold spec_step ks spec_fresh"
proof -
  have "spec_of (run preferences_exec ks s) = fold spec_step ks (spec_of s)" for s
    by (induction ks arbitrary: s) (simp_all add: preferences_step)
  moreover have "spec_of preferences_fresh = spec_fresh"
  proof -
    have "table_of default_preferences ch = (if ch = OnChain then (True, UNIV) else (False, {}))" for ch
      by (cases ch)
        (simp_all add: table_of_def default_preferences_def wanted_all wanted_none, simp_all add: all_enabled_def disabled_def)
    then have "table_of default_preferences = (\<lambda>ch. if ch = OnChain then (True, UNIV) else (False, {}))" by (rule ext)
    then show ?thesis
      by (simp add: spec_of_def preferences_fresh_def spec_fresh_def load_preferences_def)
        (simp add: default_preferences_def)
  qed
  ultimately show ?thesis by simp
qed

section \<open>Properties\<close>

text \<open>C32: The bit masks implement sets of events.  After any calls the contract is the abstract table that the same calls
  make: a switch for each channel and a set of wanted events that the switch does not change, set by the user alone.\<close>

theorem preferences_refine:
  "spec_of (run preferences_exec ks preferences_fresh) = fold spec_step ks spec_fresh"
  by (rule run_spec)

text \<open>A notification goes to the channels that want it.  Dispatching publishes one event for every channel that is
  switched on and wants the event, in the order of the channels, returns their number, and changes nothing else; the
  queries tell the same channels.\<close>

theorem dispatch_reaches_wanting_channels:
  assumes "pf_admin s = Some a" and "filter (\<lambda>ch. fst (sp_table (spec_of s) u ch) \<and> t \<in> snd (sp_table (spec_of s) u ch)) channels = reached"
  shows "dispatch_notification e u t n s = Inr (length reached,
      s\<lparr>pf_events := pf_events s @ map (\<lambda>ch. NotificationDispatched u (channel_code ch) (event_code t) n (env_timestamp e)) reached\<rparr>)
    \<and> active_channels_for u t s = Inr (map channel_code reached)
    \<and> is_enabled u ch t s = Inr (ch \<in> set reached)"
proof -
  have reached: "filter (\<lambda>ch. accepts (channel (load_preferences u s) ch) t) channels = reached"
    using assms(2) by (simp add: accepts_iff)
  have "length reached \<le> 4" unfolding reached [symmetric] by (rule order_trans [OF length_filter_le]) (simp add: channels_def)
  moreover have "ch \<in> set channels" by (cases ch) (simp_all add: channels_def)
  then have "ch \<in> set reached \<longleftrightarrow> accepts (channel (load_preferences u s) ch) t" unfolding reached [symmetric] by simp
  ultimately show ?thesis using assms(1)
    by (simp add: dispatch_notification_def require_initialized_def dispatch_fold reached Let_def active_channels_for_def
        is_enabled_def)
qed

text \<open>The text channel switched on for fraud alerts.\<close>

definition demo_preferences :: "(env \<times> preferences_call) list" where
  "demo_preferences =
     [(signed_env [] 1 10 (Addr 9), CInitialize (Addr 1)),
      (signed_env [Addr 2] 1 11 (Addr 9), CEvent (Addr 2) Sms FraudAlert True),
      (signed_env [Addr 2] 1 12 (Addr 9), CChannel (Addr 2) Sms True)]"

theorem dispatch_reaches_wanting_channels_witness:
  "active_channels_for (Addr 2) FraudAlert (run preferences_exec demo_preferences preferences_fresh) = Inr [0, 3]"
proof -
  let ?s = "run preferences_exec demo_preferences preferences_fresh"
  have spec: "spec_of ?s = fold spec_step demo_preferences spec_fresh" by (rule run_spec)
  have "sp_ready (spec_of ?s)" unfolding spec by (simp add: demo_preferences_def spec_fresh_def change_def in_u32_def)
  then obtain a where "pf_admin ?s = Some a" by (auto simp: spec_of_def)
  moreover have "filter (\<lambda>ch. fst (sp_table (spec_of ?s) (Addr 2) ch) \<and> FraudAlert \<in> snd (sp_table (spec_of ?s) (Addr 2) ch)) channels
      = [OnChain, Sms]"
    unfolding spec by (simp add: demo_preferences_def spec_fresh_def change_def in_u32_def channels_def)
  ultimately show ?thesis
    using dispatch_reaches_wanting_channels [of ?s a "Addr 2" FraudAlert "[OnChain, Sms]"] by simp
qed

end
