(* ===== verification/Account_Status.thy ===== *)
theory Account_Status
  imports Host
begin

text \<open>
  \<open>contracts/account_status.rs\<close>: admins freeze accounts, for a time or until they are unfrozen; other contracts ask
  \<open>assert_not_frozen\<close> before they act.  Lifetimes of entries are not modelled.  The file is declared by no crate.
\<close>

section \<open>Data\<close>

definition MAX_REASON_LEN :: nat where "MAX_REASON_LEN = 256"

record account_status_record =
  ar_frozen :: bool
  ar_frozen_by :: "address option"
  ar_reason :: string
  ar_frozen_at :: nat
  ar_expires_at :: nat
  ar_freeze_count :: nat

datatype account_status_error =
    NotInitialized | AlreadyInitialized | Unauthorized | AlreadyFrozen | NotFrozen | AccountFrozen | CannotFreezeSelf
  | CannotFreezeSuperAdmin | AlreadyAdmin | AdminNotFound | Overflow | ReasonTooLong | InvalidExpiry

datatype account_status_event =
    Frozen address address string nat nat
  | Unfrozen address address nat
  | AdminAdded address address nat
  | AdminRemoved address address nat

record account_state =
  ac_super_admin :: "address option"
  ac_admin_list :: "address list option"
  ac_status :: "address \<rightharpoonup> account_status_record"
  ac_freeze_count :: "nat option"
  ac_events :: "account_status_event list"

definition account_fresh :: account_state where
  "account_fresh = \<lparr>ac_super_admin = None, ac_admin_list = None, ac_status = Map.empty, ac_freeze_count = None, ac_events = []\<rparr>"

type_synonym 'a account_outcome = "(account_state, account_status_error, 'a) outcome"

definition emit :: "account_status_event \<Rightarrow> account_state \<Rightarrow> account_state" where
  "emit ev s = s\<lparr>ac_events := ac_events s @ [ev]\<rparr>"

section \<open>Internal helpers\<close>

definition require_initialized :: "account_state \<Rightarrow> account_status_error trap + address" where
  "require_initialized s = (case ac_super_admin s of None \<Rightarrow> Inl (ContractError NotInitialized) | Some a \<Rightarrow> Inr a)"

definition require_admin :: "account_state \<Rightarrow> address \<Rightarrow> account_status_error trap + unit" where
  "require_admin s caller = (case require_initialized s of Inl t \<Rightarrow> Inl t | Inr super_admin \<Rightarrow>
     if caller = super_admin then Inr () else
     if caller \<notin> set (unwrap_or (ac_admin_list s) []) then Inl (ContractError Unauthorized) else Inr ())"

definition require_super_admin :: "account_state \<Rightarrow> address \<Rightarrow> account_status_error trap + unit" where
  "require_super_admin s caller = (case require_initialized s of Inl t \<Rightarrow> Inl t | Inr super_admin \<Rightarrow>
     if caller \<noteq> super_admin then Inl (ContractError Unauthorized) else Inr ())"

definition never_frozen :: account_status_record where
  "never_frozen = \<lparr>ar_frozen = False, ar_frozen_by = None, ar_reason = '''', ar_frozen_at = 0, ar_expires_at = 0, ar_freeze_count = 0\<rparr>"

definition load_status :: "account_state \<Rightarrow> address \<Rightarrow> account_status_record" where
  "load_status s account = unwrap_or (ac_status s account) never_frozen"

definition save_status :: "address \<Rightarrow> account_status_record \<Rightarrow> account_state \<Rightarrow> account_state" where
  "save_status account r s = s\<lparr>ac_status := (ac_status s)(account \<mapsto> r)\<rparr>"

definition is_currently_frozen :: "env \<Rightarrow> account_status_record \<Rightarrow> bool" where
  "is_currently_frozen e r =
    (if \<not> ar_frozen r then False else if ar_expires_at r = 0 then True else env_timestamp e < ar_expires_at r)"

section \<open>Entry points\<close>

definition initialize :: "address \<Rightarrow> account_state \<Rightarrow> unit account_outcome" where
  "initialize super_admin s =
    (if ac_super_admin s \<noteq> None then Inl (ContractError AlreadyInitialized) else
     Inr ((), s\<lparr>ac_super_admin := Some super_admin, ac_admin_list := Some [], ac_freeze_count := Some 0\<rparr>))"

definition add_admin :: "env \<Rightarrow> address \<Rightarrow> address \<Rightarrow> account_state \<Rightarrow> unit account_outcome" where
  "add_admin e caller new_admin s =
    (if \<not> env_auth e caller then Inl AuthTrap else
     case require_super_admin s caller of Inl t \<Rightarrow> Inl t | Inr _ \<Rightarrow>
     let admins = unwrap_or (ac_admin_list s) [] in
     if new_admin \<in> set admins then Inl (ContractError AlreadyAdmin) else
     Inr ((), emit (AdminAdded caller new_admin (env_timestamp e)) (s\<lparr>ac_admin_list := Some (admins @ [new_admin])\<rparr>)))"

text \<open>The list without one address, and whether it was there.\<close>

fun remove_found :: "address \<Rightarrow> address list \<Rightarrow> address list \<times> bool" where
  "remove_found admin [] = ([], False)"
| "remove_found admin (a # as) = (case remove_found admin as of (rest, found) \<Rightarrow>
     if a = admin then (rest, True) else (a # rest, found))"

definition remove_admin :: "env \<Rightarrow> address \<Rightarrow> address \<Rightarrow> account_state \<Rightarrow> unit account_outcome" where
  "remove_admin e caller admin s =
    (if \<not> env_auth e caller then Inl AuthTrap else
     case require_super_admin s caller of Inl t \<Rightarrow> Inl t | Inr _ \<Rightarrow>
     case remove_found admin (unwrap_or (ac_admin_list s) []) of (new_admins, found) \<Rightarrow>
     if \<not> found then Inl (ContractError AdminNotFound) else
     Inr ((), emit (AdminRemoved caller admin (env_timestamp e)) (s\<lparr>ac_admin_list := Some new_admins\<rparr>)))"

definition freeze_account :: "env \<Rightarrow> address \<Rightarrow> address \<Rightarrow> string \<Rightarrow> nat \<Rightarrow> account_state \<Rightarrow> unit account_outcome" where
  "freeze_account e caller target reason expires_at s =
    (if \<not> env_auth e caller then Inl AuthTrap else
     case require_admin s caller of Inl t \<Rightarrow> Inl t | Inr _ \<Rightarrow>
     if caller = target then Inl (ContractError CannotFreezeSelf) else
     case require_initialized s of Inl t \<Rightarrow> Inl t | Inr super_admin \<Rightarrow>
     if target = super_admin then Inl (ContractError CannotFreezeSuperAdmin) else
     if MAX_REASON_LEN < length reason then Inl (ContractError ReasonTooLong) else
     if expires_at \<noteq> 0 \<and> expires_at \<le> env_timestamp e then Inl (ContractError InvalidExpiry) else
     let r = load_status s target in
     if is_currently_frozen e r then Inl (ContractError AlreadyFrozen) else
     case u32_add (ar_freeze_count r) 1 of None \<Rightarrow> Inl (ContractError Overflow) | Some n \<Rightarrow>
     let r1 = \<lparr>ar_frozen = True, ar_frozen_by = Some caller, ar_reason = reason, ar_frozen_at = env_timestamp e,
           ar_expires_at = expires_at, ar_freeze_count = n\<rparr> in
     case u32_add (unwrap_or (ac_freeze_count s) 0) 1 of None \<Rightarrow> Inl (ContractError Overflow) | Some m \<Rightarrow>
     Inr ((), emit (Frozen caller target reason expires_at (env_timestamp e))
       ((save_status target r1 s)\<lparr>ac_freeze_count := Some m\<rparr>)))"

definition unfreeze_account :: "env \<Rightarrow> address \<Rightarrow> address \<Rightarrow> account_state \<Rightarrow> unit account_outcome" where
  "unfreeze_account e caller target s =
    (if \<not> env_auth e caller then Inl AuthTrap else
     case require_admin s caller of Inl t \<Rightarrow> Inl t | Inr _ \<Rightarrow>
     let r = load_status s target in
     if \<not> is_currently_frozen e r then Inl (ContractError NotFrozen) else
     Inr ((), emit (Unfrozen caller target (env_timestamp e))
       (save_status target (r\<lparr>ar_frozen := False, ar_expires_at := 0\<rparr>) s)))"

definition assert_not_frozen :: "env \<Rightarrow> address \<Rightarrow> account_state \<Rightarrow> account_status_error trap + unit" where
  "assert_not_frozen e account s =
    (case require_initialized s of Inl t \<Rightarrow> Inl t | Inr _ \<Rightarrow>
     if is_currently_frozen e (load_status s account) then Inl (ContractError AccountFrozen) else Inr ())"

definition get_status :: "address \<Rightarrow> account_state \<Rightarrow> account_status_error trap + account_status_record" where
  "get_status account s = (case require_initialized s of Inl t \<Rightarrow> Inl t | Inr _ \<Rightarrow> Inr (load_status s account))"

definition is_frozen :: "env \<Rightarrow> address \<Rightarrow> account_state \<Rightarrow> account_status_error trap + bool" where
  "is_frozen e account s =
    (case require_initialized s of Inl t \<Rightarrow> Inl t | Inr _ \<Rightarrow> Inr (is_currently_frozen e (load_status s account)))"

definition is_admin :: "address \<Rightarrow> account_state \<Rightarrow> bool" where
  "is_admin addr s = (case ac_super_admin s of None \<Rightarrow> False | Some sa \<Rightarrow>
     if addr = sa then True else addr \<in> set (unwrap_or (ac_admin_list s) []))"

definition total_freeze_count :: "account_state \<Rightarrow> nat" where
  "total_freeze_count s = unwrap_or (ac_freeze_count s) 0"

definition get_admins :: "account_state \<Rightarrow> account_status_error trap + address list" where
  "get_admins s = (case require_initialized s of Inl t \<Rightarrow> Inl t | Inr _ \<Rightarrow> Inr (unwrap_or (ac_admin_list s) []))"

datatype account_call =
    CInitialize address
  | CAdd address address
  | CRemove address address
  | CFreeze address address string nat
  | CUnfreeze address address

fun account_exec :: "env \<times> account_call \<Rightarrow> account_state \<Rightarrow> account_status_error trap + account_state" where
  "account_exec (e, CInitialize a) s = final (initialize a s)"
| "account_exec (e, CAdd a b) s = final (add_admin e a b s)"
| "account_exec (e, CRemove a b) s = final (remove_admin e a b s)"
| "account_exec (e, CFreeze a b r x) s = final (freeze_account e a b r x s)"
| "account_exec (e, CUnfreeze a b) s = final (unfreeze_account e a b s)"

section \<open>The contract as a reading of its events\<close>

text \<open>The expiry of the freeze in force, if any, and the admins in force.\<close>

fun freeze_step :: "address \<Rightarrow> account_status_event \<Rightarrow> nat option \<Rightarrow> nat option" where
  "freeze_step a (Frozen b t r x now) f = (if t = a then Some x else f)"
| "freeze_step a (Unfrozen b t now) f = (if t = a then None else f)"
| "freeze_step a _ f = f"

definition last_freeze :: "address \<Rightarrow> account_status_event list \<Rightarrow> nat option" where
  "last_freeze a evs = fold (freeze_step a) evs None"

fun admin_step :: "account_status_event \<Rightarrow> address set \<Rightarrow> address set" where
  "admin_step (AdminAdded b a now) A = insert a A"
| "admin_step (AdminRemoved b a now) A = A - {a}"
| "admin_step _ A = A"

definition admins_of :: "account_status_event list \<Rightarrow> address set" where
  "admins_of evs = fold admin_step evs {}"

fun freezes :: "account_status_event \<Rightarrow> address option" where
  "freezes (Frozen b a r x now) = Some a"
| "freezes _ = None"

text \<open>Every freeze was made by an admin of its time, of somebody else, and never of the super-admin.\<close>

fun freeze_ok :: "address \<Rightarrow> account_status_event list \<Rightarrow> account_status_event \<Rightarrow> bool" where
  "freeze_ok sa evs (Frozen b a r x now) = ((b = sa \<or> b \<in> admins_of evs) \<and> a \<noteq> b \<and> a \<noteq> sa \<and> (x = 0 \<or> now < x))"
| "freeze_ok sa evs (Unfrozen b a now) = (b = sa \<or> b \<in> admins_of evs)"
| "freeze_ok sa evs (AdminAdded b a now) = (b = sa)"
| "freeze_ok sa evs (AdminRemoved b a now) = (b = sa)"

fun all_ok :: "address \<Rightarrow> account_status_event list \<Rightarrow> account_status_event list \<Rightarrow> bool" where
  "all_ok sa before [] = True"
| "all_ok sa before (ev # evs) = (freeze_ok sa before ev \<and> all_ok sa (before @ [ev]) evs)"

lemma snoc_simps [simp]:
  "last_freeze a (evs @ [ev]) = freeze_step a ev (last_freeze a evs)"
  "admins_of (evs @ [ev]) = admin_step ev (admins_of evs)"
  by (simp_all add: last_freeze_def admins_of_def)

lemma all_ok_snoc [simp]: "all_ok sa before (evs @ [ev]) \<longleftrightarrow> all_ok sa before evs \<and> freeze_ok sa (before @ evs) ev"
  by (induction evs arbitrary: before) auto

definition in_force :: "env \<Rightarrow> nat option \<Rightarrow> bool" where
  "in_force e f = (case f of None \<Rightarrow> False | Some x \<Rightarrow> x = 0 \<or> env_timestamp e < x)"

definition account_inv :: "account_state \<Rightarrow> bool" where
  "account_inv s \<longleftrightarrow>
     (\<forall>a. let r = load_status s a in
        last_freeze a (ac_events s) = (if ar_frozen r then Some (ar_expires_at r) else None)
      \<and> ar_freeze_count r = length (filter (\<lambda>ev. freezes ev = Some a) (ac_events s)))
   \<and> total_freeze_count s = length (filter (\<lambda>ev. freezes ev \<noteq> None) (ac_events s))
   \<and> set (unwrap_or (ac_admin_list s) []) = admins_of (ac_events s)
   \<and> (case ac_super_admin s of None \<Rightarrow> ac_events s = [] | Some sa \<Rightarrow> all_ok sa [] (ac_events s))"

lemma remove_found_eq: "remove_found a xs = (filter (\<lambda>x. x \<noteq> a) xs, a \<in> set xs)"
  by (induction xs) auto

lemma load_simps [simp]:
  "load_status (emit ev s) a = load_status s a"
  "load_status (s\<lparr>ac_freeze_count := n\<rparr>) a = load_status s a"
  "load_status (s\<lparr>ac_admin_list := l\<rparr>) a = load_status s a"
  "load_status (save_status b r s) a = (if a = b then r else load_status s a)"
  by (simp_all add: load_status_def emit_def save_status_def)

lemma account_fields [simp]:
  "ac_events (emit ev s) = ac_events s @ [ev]" "ac_super_admin (emit ev s) = ac_super_admin s"
  "ac_admin_list (emit ev s) = ac_admin_list s" "ac_freeze_count (emit ev s) = ac_freeze_count s"
  "ac_events (save_status a r s) = ac_events s" "ac_super_admin (save_status a r s) = ac_super_admin s"
  "ac_admin_list (save_status a r s) = ac_admin_list s" "ac_freeze_count (save_status a r s) = ac_freeze_count s"
  by (simp_all add: emit_def save_status_def)

lemma account_step_inv:
  assumes "account_exec k s = Inr s'" and "account_inv s"
  shows "account_inv s'"
proof -
  obtain e c where k: "k = (e, c)" by (cases k)
  show ?thesis using assms unfolding k
  proof (cases c)
    case (CInitialize a)
    with assms show "account_inv s'" unfolding k
      by (auto simp: initialize_def account_inv_def load_status_def total_freeze_count_def admins_of_def Let_def split: if_splits)
  next
    case (CAdd a b)
    with assms show "account_inv s'" unfolding k
      by (auto simp: add_admin_def require_super_admin_def require_initialized_def account_inv_def load_status_def emit_def
          total_freeze_count_def Let_def split: if_splits sum.splits option.splits)
  next
    case (CRemove a b)
    with assms show "account_inv s'" unfolding k
      by (auto simp: remove_admin_def require_super_admin_def require_initialized_def account_inv_def load_status_def emit_def
          total_freeze_count_def remove_found_eq Let_def split: if_splits sum.splits option.splits)
  next
    case (CFreeze b t r x)
    with assms(1) have run: "freeze_account e b t r x s = Inr ((), s')" unfolding k by auto
    let ?r = "\<lparr>ar_frozen = True, ar_frozen_by = Some b, ar_reason = r, ar_frozen_at = env_timestamp e, ar_expires_at = x,
        ar_freeze_count = ar_freeze_count (load_status s t) + 1\<rparr>"
    from run obtain sa where ok: "ac_super_admin s = Some sa" "b = sa \<or> b \<in> set (unwrap_or (ac_admin_list s) [])" "b \<noteq> t" "t \<noteq> sa"
        "x = 0 \<or> env_timestamp e < x"
      and s': "s' = emit (Frozen b t r x (env_timestamp e)) ((save_status t ?r s)\<lparr>ac_freeze_count := Some (total_freeze_count s + 1)\<rparr>)"
      by (auto simp: freeze_account_def require_admin_def require_initialized_def u32_add_def total_freeze_count_def Let_def
          split: if_splits option.splits)
    show "account_inv s'" using assms(2) ok unfolding s' account_inv_def Let_def by (auto simp: total_freeze_count_def)
  next
    case (CUnfreeze b t)
    with assms(1) have run: "unfreeze_account e b t s = Inr ((), s')" unfolding k by auto
    from run obtain sa where ok: "ac_super_admin s = Some sa" "b = sa \<or> b \<in> set (unwrap_or (ac_admin_list s) [])"
      and s': "s' = emit (Unfrozen b t (env_timestamp e))
          (save_status t ((load_status s t)\<lparr>ar_frozen := False, ar_expires_at := 0\<rparr>) s)"
      by (auto simp: unfreeze_account_def require_admin_def require_initialized_def Let_def split: if_splits option.splits)
    show "account_inv s'" using assms(2) ok unfolding s' account_inv_def Let_def by (auto simp: total_freeze_count_def)
  qed
qed

interpretation accounts: contract_invariant account_exec account_inv "\<lambda>_. True"
  by unfold_locales (rule account_step_inv)

lemma account_inv_fresh: "account_inv account_fresh"
  by (simp add: account_inv_def account_fresh_def load_status_def never_frozen_def last_freeze_def total_freeze_count_def
      admins_of_def)

section \<open>Property\<close>

text \<open>C37: The gate follows the freezes.  After any calls, an account is stopped exactly when it was frozen last without
  being unfrozen and the freeze has not expired; every freeze was made by an admin of its time, never of the admin itself
  and never of the super-admin, who alone changes the admins; and the counters count the freezes.\<close>

theorem frozen_accounts_follow_events:
  assumes "run account_exec ks account_fresh = s" and "ac_super_admin s = Some sa"
  shows "assert_not_frozen e a s
      = (if in_force e (last_freeze a (ac_events s)) then Inl (ContractError AccountFrozen) else Inr ())
    \<and> all_ok sa [] (ac_events s)
    \<and> ar_freeze_count (load_status s a) = length (filter (\<lambda>ev. freezes ev = Some a) (ac_events s))
    \<and> total_freeze_count s = length (filter (\<lambda>ev. freezes ev \<noteq> None) (ac_events s))
    \<and> (is_admin b s \<longleftrightarrow> b = sa \<or> b \<in> admins_of (ac_events s))"
proof -
  have "account_inv s" using accounts.run_inv [OF account_inv_fresh, of ks] assms(1) by simp
  then have inv: "last_freeze a (ac_events s) = (if ar_frozen (load_status s a) then Some (ar_expires_at (load_status s a)) else None)"
    "ar_freeze_count (load_status s a) = length (filter (\<lambda>ev. freezes ev = Some a) (ac_events s))"
    "total_freeze_count s = length (filter (\<lambda>ev. freezes ev \<noteq> None) (ac_events s))"
    "set (unwrap_or (ac_admin_list s) []) = admins_of (ac_events s)" "all_ok sa [] (ac_events s)"
    using assms(2) unfolding account_inv_def Let_def by auto
  then show ?thesis using assms(2)
    by (simp add: assert_not_frozen_def require_initialized_def in_force_def is_currently_frozen_def is_admin_def)
qed

text \<open>A freeze until time 50, before and after.\<close>

theorem frozen_accounts_follow_events_witness:
  "let s = run account_exec
      [(signed_env [] 1 10 (Addr 9), CInitialize (Addr 1)),
       (signed_env [Addr 1] 1 11 (Addr 9), CAdd (Addr 1) (Addr 2)),
       (signed_env [Addr 2] 1 12 (Addr 9), CFreeze (Addr 2) (Addr 3) ''x'' 50)] account_fresh in
     assert_not_frozen (signed_env [] 1 49 (Addr 9)) (Addr 3) s = Inl (ContractError AccountFrozen)
   \<and> assert_not_frozen (signed_env [] 1 50 (Addr 9)) (Addr 3) s = Inr ()"
proof -
  let ?s = "run account_exec
      [(signed_env [] 1 10 (Addr 9), CInitialize (Addr 1)),
       (signed_env [Addr 1] 1 11 (Addr 9), CAdd (Addr 1) (Addr 2)),
       (signed_env [Addr 2] 1 12 (Addr 9), CFreeze (Addr 2) (Addr 3) ''x'' 50)] account_fresh"
  have sa: "ac_super_admin ?s = Some (Addr 1)"
    and evs: "ac_events ?s = [AdminAdded (Addr 1) (Addr 2) 11, Frozen (Addr 2) (Addr 3) ''x'' 50 12]"
    by (simp_all add: account_fresh_def initialize_def add_admin_def freeze_account_def require_super_admin_def require_admin_def
        require_initialized_def load_status_def never_frozen_def is_currently_frozen_def save_status_def emit_def
        MAX_REASON_LEN_def u32_add_def in_u32_def)
  show ?thesis
    using frozen_accounts_follow_events [OF refl sa, of "signed_env [] 1 49 (Addr 9)" "Addr 3"]
      frozen_accounts_follow_events [OF refl sa, of "signed_env [] 1 50 (Addr 9)" "Addr 3"]
    unfolding evs by (simp add: last_freeze_def in_force_def)
qed

end
