(* ===== verification/Refunds.thy ===== *)
theory Refunds
  imports Host
begin

text \<open>
  \<open>contracts/refunds.rs\<close>: requests for refunds of transactions, their approval and payment into balances that the contract
  keeps itself.  The errors are those of \<open>contracts/errors.rs\<close> that the file raises.

  The searches of the file run through the requests from 1 until an id is missing: they are \<open>partial_function (option)\<close>, so
  a search that does not end is \<open>None\<close> (a trap in an entry point, as the host stops it), and that they end on every
  reachable state is proved.  The file is declared by no crate.
\<close>

section \<open>Data\<close>

datatype refund_status = Pending | Approved | Rejected | Processed | Expired

record refund_request =
  rf_id :: nat
  rf_transaction_id :: nat
  rf_requester :: address
  rf_original_recipient :: address
  rf_amount :: int
  rf_reason :: string
  rf_status :: refund_status
  rf_created_at :: nat
  rf_processed_at :: "nat option"
  rf_processed_by :: "address option"

record refund_config =
  rc_refund_window_seconds :: nat
  rc_auto_approve_threshold :: int
  rc_admin_required_threshold :: int
  rc_max_refund_reason_length :: nat
  rc_enabled :: bool

record refund_eligibility =
  re_is_eligible :: bool
  re_reason :: string
  re_requires_admin :: bool

datatype refund_error =
    AlreadyInitialized | NotInitialized | Paused | InvalidAmount | InvalidInput | InvalidTransaction | NotFound | InvalidState
  | AlreadyExists | ExpiredError | Overflow | AdminRequired

datatype refund_event =
    RefundRequested refund_request
  | RefundApproved nat address int address nat
  | RefundRejected nat address int address string nat
  | RefundProcessed nat nat address address int address nat
  | ConfigUpdated refund_config

record refunds_state =
  rd_admin :: "address option"
  rd_config :: "refund_config option"
  rd_next_refund_id :: "nat option"
  rd_request :: "nat \<rightharpoonup> refund_request"
  rd_processed :: "nat \<rightharpoonup> bool"
  rd_balance :: "address \<rightharpoonup> int"
  rd_events :: "refund_event list"

definition refunds_fresh :: refunds_state where
  "refunds_fresh = \<lparr>rd_admin = None, rd_config = None, rd_next_refund_id = None, rd_request = Map.empty,
     rd_processed = Map.empty, rd_balance = Map.empty, rd_events = []\<rparr>"

type_synonym 'a refunds_outcome = "(refunds_state, refund_error, 'a) outcome"

definition emit :: "refund_event \<Rightarrow> refunds_state \<Rightarrow> refunds_state" where
  "emit ev s = s\<lparr>rd_events := rd_events s @ [ev]\<rparr>"

section \<open>Helpers\<close>

definition get_admin :: "refunds_state \<Rightarrow> refund_error trap + address" where
  "get_admin s = (case rd_admin s of None \<Rightarrow> Inl (ContractError NotInitialized) | Some a \<Rightarrow> Inr a)"

definition require_admin :: "env \<Rightarrow> address \<Rightarrow> refunds_state \<Rightarrow> refund_error trap + unit" where
  "require_admin e caller s =
    (if \<not> env_auth e caller then Inl AuthTrap else
     case get_admin s of Inl t \<Rightarrow> Inl t | Inr admin \<Rightarrow> if caller \<noteq> admin then Inl (ContractError AdminRequired) else Inr ())"

definition get_config :: "refunds_state \<Rightarrow> refund_error trap + refund_config" where
  "get_config s = (case rd_config s of None \<Rightarrow> Inl (ContractError NotInitialized) | Some c \<Rightarrow> Inr c)"

definition next_refund_id :: "refunds_state \<Rightarrow> nat refunds_outcome" where
  "next_refund_id s = (let i = unwrap_or (rd_next_refund_id s) 1 in
     case u64_add i 1 of None \<Rightarrow> Inl ArithTrap | Some j \<Rightarrow> Inr (i, s\<lparr>rd_next_refund_id := Some j\<rparr>))"

definition has_refund_been_processed :: "nat \<Rightarrow> refunds_state \<Rightarrow> bool" where
  "has_refund_been_processed i s = unwrap_or (rd_processed s i) False"

partial_function (option) search_from :: "(nat \<rightharpoonup> refund_request) \<Rightarrow> nat \<Rightarrow> nat \<Rightarrow> (refund_error trap + bool) option" where
  "search_from m transaction_id i = (case m i of None \<Rightarrow> Some (Inr False) | Some r \<Rightarrow>
     if rf_transaction_id r = transaction_id \<and> rf_status r = Processed then Some (Inr True) else
     case u64_add i 1 of None \<Rightarrow> Some (Inl ArithTrap) | Some j \<Rightarrow> search_from m transaction_id j)"

definition has_refund_for_transaction :: "nat \<Rightarrow> refunds_state \<Rightarrow> (refund_error trap + bool) option" where
  "has_refund_for_transaction transaction_id s = search_from (rd_request s) transaction_id 1"

definition get_transaction_timestamp :: "env \<Rightarrow> nat \<Rightarrow> nat" where
  "get_transaction_timestamp e transaction_id = env_timestamp e"

definition get_balance :: "address \<Rightarrow> refunds_state \<Rightarrow> int" where
  "get_balance user s = unwrap_or (rd_balance s user) 0"

definition execute_refund :: "refund_request \<Rightarrow> refunds_state \<Rightarrow> refund_error trap + refunds_state" where
  "execute_refund r s =
    (case checked_add (get_balance (rf_requester r) s) (rf_amount r) of None \<Rightarrow> Inl (ContractError Overflow) | Some new_balance \<Rightarrow>
     Inr (s\<lparr>rd_balance := (rd_balance s)(rf_requester r \<mapsto> new_balance)\<rparr>))"

section \<open>Entry points\<close>

definition initialize :: "address \<Rightarrow> refunds_state \<Rightarrow> unit refunds_outcome" where
  "initialize admin s =
    (if rd_admin s \<noteq> None then Inl (ContractError AlreadyInitialized) else
     Inr ((), s\<lparr>rd_admin := Some admin,
       rd_config := Some \<lparr>rc_refund_window_seconds = 86400, rc_auto_approve_threshold = 1000,
         rc_admin_required_threshold = 10000, rc_max_refund_reason_length = 500, rc_enabled = True\<rparr>,
       rd_next_refund_id := Some 1\<rparr>))"

definition set_config :: "env \<Rightarrow> address \<Rightarrow> refund_config \<Rightarrow> refunds_state \<Rightarrow> unit refunds_outcome" where
  "set_config e caller config s =
    (case require_admin e caller s of Inl t \<Rightarrow> Inl t | Inr _ \<Rightarrow>
     Inr ((), emit (ConfigUpdated config) (s\<lparr>rd_config := Some config\<rparr>)))"

definition check_refund_eligibility :: "env \<Rightarrow> nat \<Rightarrow> int \<Rightarrow> refunds_state \<Rightarrow> refund_error trap + refund_eligibility" where
  "check_refund_eligibility e transaction_id amount s =
    (case get_config s of Inl t \<Rightarrow> Inl t | Inr config \<Rightarrow>
     case has_refund_for_transaction transaction_id s of None \<Rightarrow> Inl PanicTrap | Some (Inl t) \<Rightarrow> Inl t | Some (Inr done) \<Rightarrow>
     if done then Inr \<lparr>re_is_eligible = False, re_reason = ''Refund already processed for this transaction'', re_requires_admin = False\<rparr> else
     case u64_add (get_transaction_timestamp e transaction_id) (rc_refund_window_seconds config) of None \<Rightarrow> Inl ArithTrap | Some x \<Rightarrow>
     if x < env_timestamp e then Inr \<lparr>re_is_eligible = False, re_reason = ''Refund window expired'', re_requires_admin = False\<rparr> else
     Inr \<lparr>re_is_eligible = True, re_reason = ''Eligible for refund'',
       re_requires_admin = (rc_admin_required_threshold config < amount)\<rparr>)"

definition initial_status :: "refund_config \<Rightarrow> int \<Rightarrow> refund_status" where
  "initial_status config amount =
    (if amount \<le> rc_auto_approve_threshold config then Approved
     else if rc_admin_required_threshold config < amount then Pending else Approved)"

definition request_refund :: "env \<Rightarrow> address \<Rightarrow> nat \<Rightarrow> address \<Rightarrow> int \<Rightarrow> string \<Rightarrow> refunds_state \<Rightarrow> nat refunds_outcome" where
  "request_refund e caller transaction_id original_recipient amount reason s =
    (if \<not> env_auth e caller then Inl AuthTrap else
     case get_config s of Inl t \<Rightarrow> Inl t | Inr config \<Rightarrow>
     if \<not> rc_enabled config then Inl (ContractError Paused) else
     if amount \<le> 0 then Inl (ContractError InvalidAmount) else
     if rc_max_refund_reason_length config < length reason then Inl (ContractError InvalidInput) else
     case check_refund_eligibility e transaction_id amount s of Inl t \<Rightarrow> Inl t | Inr eligibility \<Rightarrow>
     if \<not> re_is_eligible eligibility then Inl (ContractError InvalidTransaction) else
     case next_refund_id s of Inl t \<Rightarrow> Inl t | Inr (i, s1) \<Rightarrow>
     let r = \<lparr>rf_id = i, rf_transaction_id = transaction_id, rf_requester = caller, rf_original_recipient = original_recipient,
           rf_amount = amount, rf_reason = reason, rf_status = initial_status config amount, rf_created_at = env_timestamp e,
           rf_processed_at = None, rf_processed_by = None\<rparr> in
     Inr (i, emit (RefundRequested r) (s1\<lparr>rd_request := (rd_request s1)(i \<mapsto> r)\<rparr>)))"

definition approve_refund :: "env \<Rightarrow> address \<Rightarrow> nat \<Rightarrow> refunds_state \<Rightarrow> unit refunds_outcome" where
  "approve_refund e caller i s =
    (case require_admin e caller s of Inl t \<Rightarrow> Inl t | Inr _ \<Rightarrow>
     case rd_request s i of None \<Rightarrow> Inl (ContractError NotFound) | Some r \<Rightarrow>
     if rf_status r \<noteq> Pending then Inl (ContractError InvalidState) else
     let r1 = r\<lparr>rf_status := Approved, rf_processed_at := Some (env_timestamp e), rf_processed_by := Some caller\<rparr> in
     Inr ((), emit (RefundApproved (rf_id r1) (rf_requester r1) (rf_amount r1) caller (env_timestamp e))
       (s\<lparr>rd_request := (rd_request s)(i \<mapsto> r1)\<rparr>)))"

definition reject_refund :: "env \<Rightarrow> address \<Rightarrow> nat \<Rightarrow> string \<Rightarrow> refunds_state \<Rightarrow> unit refunds_outcome" where
  "reject_refund e caller i reason s =
    (case require_admin e caller s of Inl t \<Rightarrow> Inl t | Inr _ \<Rightarrow>
     case rd_request s i of None \<Rightarrow> Inl (ContractError NotFound) | Some r \<Rightarrow>
     if rf_status r \<noteq> Pending then Inl (ContractError InvalidState) else
     let r1 = r\<lparr>rf_status := Rejected, rf_processed_at := Some (env_timestamp e), rf_processed_by := Some caller\<rparr> in
     Inr ((), emit (RefundRejected (rf_id r1) (rf_requester r1) (rf_amount r1) caller reason (env_timestamp e))
       (s\<lparr>rd_request := (rd_request s)(i \<mapsto> r1)\<rparr>)))"

text \<open>The status \<open>Expired\<close> is written before a panic, which undoes it.\<close>

definition process_refund :: "env \<Rightarrow> address \<Rightarrow> nat \<Rightarrow> refunds_state \<Rightarrow> unit refunds_outcome" where
  "process_refund e caller i s =
    (if \<not> env_auth e caller then Inl AuthTrap else
     case rd_request s i of None \<Rightarrow> Inl (ContractError NotFound) | Some r \<Rightarrow>
     if rf_status r \<noteq> Approved then Inl (ContractError InvalidState) else
     if has_refund_been_processed i s then Inl (ContractError AlreadyExists) else
     case get_config s of Inl t \<Rightarrow> Inl t | Inr config \<Rightarrow>
     case u64_add (rf_created_at r) (rc_refund_window_seconds config) of None \<Rightarrow> Inl ArithTrap | Some x \<Rightarrow>
     if x < env_timestamp e then Inl (ContractError ExpiredError) else
     case execute_refund r s of Inl t \<Rightarrow> Inl t | Inr s1 \<Rightarrow>
     let r1 = r\<lparr>rf_status := Processed, rf_processed_at := Some (env_timestamp e), rf_processed_by := Some caller\<rparr> in
     Inr ((), emit (RefundProcessed (rf_id r1) (rf_transaction_id r1) (rf_requester r1) (rf_original_recipient r1) (rf_amount r1)
         caller (env_timestamp e))
       (s1\<lparr>rd_request := (rd_request s1)(i \<mapsto> r1), rd_processed := (rd_processed s1)(i \<mapsto> True)\<rparr>)))"

definition get_refund_request :: "nat \<Rightarrow> refunds_state \<Rightarrow> refund_request option" where
  "get_refund_request i s = rd_request s i"

definition get_refund_status :: "nat \<Rightarrow> refunds_state \<Rightarrow> refund_status option" where
  "get_refund_status i s = map_option rf_status (rd_request s i)"

text \<open>The loop of both list queries, with what it keeps.\<close>

partial_function (option) collect_from :: "(refund_request \<Rightarrow> bool) \<Rightarrow> (nat \<rightharpoonup> refund_request) \<Rightarrow> nat \<Rightarrow> refund_request list
    \<Rightarrow> (refund_error trap + refund_request list) option" where
  "collect_from P m i refunds = (case m i of None \<Rightarrow> Some (Inr refunds) | Some r \<Rightarrow>
     let refunds1 = (if P r then refunds @ [r] else refunds) in
     case u64_add i 1 of None \<Rightarrow> Some (Inl ArithTrap) | Some j \<Rightarrow> collect_from P m j refunds1)"

definition get_user_refunds :: "address \<Rightarrow> refunds_state \<Rightarrow> (refund_error trap + refund_request list) option" where
  "get_user_refunds user s = collect_from (\<lambda>r. rf_requester r = user) (rd_request s) 1 []"

definition get_pending_refunds :: "refunds_state \<Rightarrow> (refund_error trap + refund_request list) option" where
  "get_pending_refunds s = collect_from (\<lambda>r. rf_status r = Pending) (rd_request s) 1 []"

datatype refunds_call =
    CInitialize address
  | CConfig address refund_config
  | CRequest address nat address int string
  | CApprove address nat
  | CReject address nat string
  | CProcess address nat

fun refunds_exec :: "env \<times> refunds_call \<Rightarrow> refunds_state \<Rightarrow> refund_error trap + refunds_state" where
  "refunds_exec (e, CInitialize a) s = final (initialize a s)"
| "refunds_exec (e, CConfig a c) s = final (set_config e a c s)"
| "refunds_exec (e, CRequest a t b n r) s = final (request_refund e a t b n r s)"
| "refunds_exec (e, CApprove a i) s = final (approve_refund e a i s)"
| "refunds_exec (e, CReject a i r) s = final (reject_refund e a i r s)"
| "refunds_exec (e, CProcess a i) s = final (process_refund e a i s)"

section \<open>The searches end\<close>

text \<open>The requests that a search from \<open>i\<close> sees, when the ids below \<open>n\<close> are used and \<open>n\<close> is not.\<close>

lemma collect_from_ends:
  assumes "\<And>j. i \<le> j \<Longrightarrow> j < n \<Longrightarrow> m j \<noteq> None" and "m n = None" and "i \<le> n" and "in_u64 n"
  shows "collect_from P m i acc = Some (Inr (acc @ filter P (map (\<lambda>j. the (m j)) [i..<n])))"
  using assms
proof (induction "n - i" arbitrary: i acc)
  case 0
  then show ?case by (subst collect_from.simps) simp
next
  case (Suc k)
  have less: "i < n" using Suc.hyps(2) by simp
  have "m i \<noteq> None" by (rule Suc.prems(1)) (simp_all add: less)
  then obtain r where r: "m i = Some r" by blast
  have i: "Suc i \<le> n" "in_u64 (Suc i)" using less Suc.prems(4) by (auto simp: in_u64_def)
  have "collect_from P m (Suc i) acc1 = Some (Inr (acc1 @ filter P (map (\<lambda>j. the (m j)) [Suc i..<n])))" for acc1
    by (rule Suc.hyps(1)) (use Suc.prems Suc.hyps(2) i in auto)
  moreover have "[i..<n] = i # [Suc i..<n]" using i by (simp add: upt_conv_Cons)
  ultimately show ?case using r i by (subst collect_from.simps) (simp add: Let_def u64_add_def)
qed

lemma search_from_ends:
  assumes "\<And>j. i \<le> j \<Longrightarrow> j < n \<Longrightarrow> m j \<noteq> None" and "m n = None" and "i \<le> n" and "in_u64 n"
  shows "search_from m t i = Some (Inr (\<exists>j r. i \<le> j \<and> j < n \<and> m j = Some r \<and> rf_transaction_id r = t \<and> rf_status r = Processed))"
  using assms
proof (induction "n - i" arbitrary: i)
  case 0
  then show ?case by (subst search_from.simps) auto
next
  case (Suc k)
  have less: "i < n" using Suc.hyps(2) by simp
  have "m i \<noteq> None" by (rule Suc.prems(1)) (simp_all add: less)
  then obtain r where r: "m i = Some r" by blast
  have i: "i < n" "in_u64 (Suc i)" using less Suc.prems(4) by (auto simp: in_u64_def)
  have rec: "search_from m t (Suc i)
    = Some (Inr (\<exists>j r. Suc i \<le> j \<and> j < n \<and> m j = Some r \<and> rf_transaction_id r = t \<and> rf_status r = Processed))"
    by (rule Suc.hyps(1)) (use Suc.prems Suc.hyps(2) i in auto)
  show ?case
  proof (cases "rf_transaction_id r = t \<and> rf_status r = Processed")
    case True
    with r i show ?thesis by (subst search_from.simps) auto
  next
    case False
    have "(\<exists>j r. i \<le> j \<and> j < n \<and> m j = Some r \<and> rf_transaction_id r = t \<and> rf_status r = Processed)
      \<longleftrightarrow> (\<exists>j r. Suc i \<le> j \<and> j < n \<and> m j = Some r \<and> rf_transaction_id r = t \<and> rf_status r = Processed)"
      using r False by (metis Suc_leD Suc_leI le_neq_implies_less option.inject)
    with r i False rec show ?thesis by (subst search_from.simps) (simp add: u64_add_def, blast)
  qed
qed

section \<open>The books\<close>

definition processed_amount :: "address \<Rightarrow> refund_request \<Rightarrow> int" where
  "processed_amount a r = (if rf_requester r = a \<and> rf_status r = Processed then rf_amount r else 0)"

definition refunds_inv :: "refunds_state \<Rightarrow> bool" where
  "refunds_inv s \<longleftrightarrow>
     (\<forall>i. rd_request s i \<noteq> None \<longleftrightarrow> 0 < i \<and> i < unwrap_or (rd_next_refund_id s) 1) \<and> in_u64 (unwrap_or (rd_next_refund_id s) 1)
   \<and> 0 < unwrap_or (rd_next_refund_id s) 1
   \<and> (rd_admin s = None \<longrightarrow> rd_config s = None \<and> unwrap_or (rd_next_refund_id s) 1 = 1)
   \<and> (\<forall>a. get_balance a s = total_over (processed_amount a) (rd_request s))
   \<and> (\<forall>i r. rd_request s i = Some r \<longrightarrow> 0 < rf_amount r \<and> (has_refund_been_processed i s \<longleftrightarrow> rf_status r = Processed))
   \<and> (\<forall>i. rd_request s i = None \<longrightarrow> \<not> has_refund_been_processed i s)"

lemma refunds_inv_fresh: "refunds_inv refunds_fresh"
  by (auto simp: refunds_inv_def refunds_fresh_def get_balance_def in_u64_def has_refund_been_processed_def)

lemma refunds_step_inv:
  assumes run: "refunds_exec k s = Inr s'" and inv: "refunds_inv s"
  shows "refunds_inv s'"
proof -
  obtain e c where k: "k = (e, c)" by (cases k)
  have dom: "rd_request s i \<noteq> None \<longleftrightarrow> 0 < i \<and> i < unwrap_or (rd_next_refund_id s) 1" for i
    using inv unfolding refunds_inv_def by blast
  have "dom (rd_request s) \<subseteq> {..<unwrap_or (rd_next_refund_id s) 1}" using dom by auto
  then have fin: "finite (dom (rd_request s))" by (rule finite_subset) simp
  show ?thesis
  proof (cases c)
    case (CInitialize a)
    with run inv show ?thesis unfolding k
      by (auto simp: initialize_def refunds_inv_def get_balance_def has_refund_been_processed_def in_u64_def split: if_splits)
  next
    case (CConfig a cf)
    with run inv show ?thesis unfolding k
      by (auto simp: set_config_def require_admin_def get_admin_def refunds_inv_def get_balance_def has_refund_been_processed_def
          emit_def split: if_splits sum.splits option.splits)
  next
    case (CRequest a t b n rs)
    with run obtain i where req: "request_refund e a t b n rs s = Inr (i, s')" unfolding k by auto
    let ?r = "\<lambda>cf. \<lparr>rf_id = i, rf_transaction_id = t, rf_requester = a, rf_original_recipient = b, rf_amount = n, rf_reason = rs,
        rf_status = initial_status cf n, rf_created_at = env_timestamp e, rf_processed_at = None, rf_processed_by = None\<rparr>"
    from req obtain cf where cf: "0 < n" "i = unwrap_or (rd_next_refund_id s) 1" "in_u64 (i + 1)" "rd_config s \<noteq> None"
      and s': "s' = emit (RefundRequested (?r cf)) (s\<lparr>rd_next_refund_id := Some (i + 1), rd_request := (rd_request s)(i \<mapsto> ?r cf)\<rparr>)"
      by (auto simp: request_refund_def next_refund_id_def get_config_def Let_def split: if_splits sum.splits option.splits)
    define r where "r = ?r cf"
    have r: "0 < n" "i = unwrap_or (rd_next_refund_id s) 1" "rf_amount r = n" "rf_status r = initial_status cf n" "in_u64 (i + 1)"
        "rd_config s \<noteq> None"
      using cf by (simp_all add: r_def)
    note s' = s' [folded r_def]
    have "rf_status r \<noteq> Processed" using r(4) by (simp add: initial_status_def)
    note r = r this
    have new: "rd_request s i = None" using dom [of i] r(2) by simp
    have "total_over (processed_amount x) (rd_request s') = total_over (processed_amount x) (rd_request s)" for x
      using fin r new by (simp add: s' emit_def total_over_update processed_amount_def)
    moreover have "0 < i" using inv r(2) by (simp add: refunds_inv_def)
    ultimately show ?thesis
      using inv r new by (auto simp: refunds_inv_def s' emit_def get_balance_def has_refund_been_processed_def)
  next
    case (CApprove a i)
    with run obtain r where r: "rd_request s i = Some r" "rf_status r = Pending"
      and s': "s' = emit (RefundApproved (rf_id r) (rf_requester r) (rf_amount r) a (env_timestamp e))
        (s\<lparr>rd_request := (rd_request s)(i \<mapsto> r\<lparr>rf_status := Approved, rf_processed_at := Some (env_timestamp e), rf_processed_by := Some a\<rparr>)\<rparr>)"
      unfolding k by (auto simp: approve_refund_def Let_def split: if_splits sum.splits option.splits)
    have "total_over (processed_amount x) (rd_request s') = total_over (processed_amount x) (rd_request s)" for x
      using fin r by (simp add: s' emit_def total_over_update processed_amount_def)
    then show ?thesis
      using inv r by (auto simp: refunds_inv_def s' emit_def get_balance_def has_refund_been_processed_def)
  next
    case (CReject a i rs)
    with run obtain r where r: "rd_request s i = Some r" "rf_status r = Pending"
      and s': "s' = emit (RefundRejected (rf_id r) (rf_requester r) (rf_amount r) a rs (env_timestamp e))
        (s\<lparr>rd_request := (rd_request s)(i \<mapsto> r\<lparr>rf_status := Rejected, rf_processed_at := Some (env_timestamp e), rf_processed_by := Some a\<rparr>)\<rparr>)"
      unfolding k by (auto simp: reject_refund_def Let_def split: if_splits sum.splits option.splits)
    have "total_over (processed_amount x) (rd_request s') = total_over (processed_amount x) (rd_request s)" for x
      using fin r by (simp add: s' emit_def total_over_update processed_amount_def)
    then show ?thesis
      using inv r by (auto simp: refunds_inv_def s' emit_def get_balance_def has_refund_been_processed_def)
  next
    case (CProcess a i)
    with run obtain r where r: "rd_request s i = Some r" "rf_status r = Approved"
      and s': "s' = emit (RefundProcessed (rf_id r) (rf_transaction_id r) (rf_requester r) (rf_original_recipient r) (rf_amount r) a
          (env_timestamp e))
        (s\<lparr>rd_balance := (rd_balance s)(rf_requester r \<mapsto> get_balance (rf_requester r) s + rf_amount r),
        rd_request := (rd_request s)(i \<mapsto> r\<lparr>rf_status := Processed, rf_processed_at := Some (env_timestamp e), rf_processed_by := Some a\<rparr>),
        rd_processed := (rd_processed s)(i \<mapsto> True)\<rparr>)"
      unfolding k by (auto simp: process_refund_def execute_refund_def Let_def split: if_splits sum.splits option.splits)
    have "total_over (processed_amount x) (rd_request s')
      = total_over (processed_amount x) (rd_request s) + (if x = rf_requester r then rf_amount r else 0)" for x
      using fin r by (simp add: s' emit_def total_over_update processed_amount_def)
    then show ?thesis
      using inv r by (auto simp: refunds_inv_def s' emit_def get_balance_def has_refund_been_processed_def)
  qed
qed

interpretation refunds: contract_invariant refunds_exec refunds_inv "\<lambda>_. True"
  by unfold_locales (rule refunds_step_inv)

section \<open>Properties\<close>

text \<open>Balances are the refunds processed.  After any calls, the balance of an account is the sum of its processed
  requests, each of a positive amount and counted once, and processed is for ever marked as such.\<close>

theorem refunds_books:
  "let s = run refunds_exec ks refunds_fresh in
     get_balance a s = total_over (processed_amount a) (rd_request s)
   \<and> (has_refund_been_processed i s \<longleftrightarrow> get_refund_status i s = Some Processed)"
proof -
  have inv: "refunds_inv (run refunds_exec ks refunds_fresh)" by (rule refunds.run_inv) (simp_all add: refunds_inv_fresh)
  then have "has_refund_been_processed i (run refunds_exec ks refunds_fresh)
    \<longleftrightarrow> get_refund_status i (run refunds_exec ks refunds_fresh) = Some Processed"
    by (cases "rd_request (run refunds_exec ks refunds_fresh) i") (auto simp: refunds_inv_def get_refund_status_def)
  with inv show ?thesis by (simp add: refunds_inv_def Let_def)
qed

text \<open>The searches of a state that keeps the invariant.\<close>

definition refunded :: "nat \<Rightarrow> refunds_state \<Rightarrow> bool" where
  "refunded t s \<longleftrightarrow> (\<exists>i r. get_refund_request i s = Some r \<and> rf_transaction_id r = t \<and> rf_status r = Processed)"

lemma refunds_ids:
  assumes "refunds_inv s"
  defines "n \<equiv> unwrap_or (rd_next_refund_id s) 1"
  shows "1 \<le> j \<Longrightarrow> j < n \<Longrightarrow> rd_request s j \<noteq> None" and "rd_request s n = None" and "1 \<le> n" and "in_u64 n"
    and "rd_request s j = Some r \<Longrightarrow> 1 \<le> j \<and> j < n" and "\<not> has_refund_been_processed n s"
proof -
  have dom: "rd_request s j \<noteq> None \<longleftrightarrow> 0 < j \<and> j < n" for j using assms(1) unfolding refunds_inv_def n_def by blast
  show "1 \<le> j \<Longrightarrow> j < n \<Longrightarrow> rd_request s j \<noteq> None" and new: "rd_request s n = None"
    and "rd_request s j = Some r \<Longrightarrow> 1 \<le> j \<and> j < n" using dom [of j] dom [of n] by auto
  show "1 \<le> n" and "in_u64 n" using assms(1) unfolding refunds_inv_def n_def by auto
  show "\<not> has_refund_been_processed n s" using new assms(1) unfolding refunds_inv_def by blast
qed

lemma search_exact:
  assumes inv: "refunds_inv s"
  shows "has_refund_for_transaction t s = Some (Inr (refunded t s))"
proof -
  note ids = refunds_ids [OF inv]
  let ?n = "unwrap_or (rd_next_refund_id s) 1"
  have "has_refund_for_transaction t s
      = Some (Inr (\<exists>j r. 1 \<le> j \<and> j < ?n \<and> rd_request s j = Some r \<and> rf_transaction_id r = t \<and> rf_status r = Processed))"
    unfolding has_refund_for_transaction_def by (rule search_from_ends [of 1 ?n "rd_request s" t, OF ids(1) ids(2) ids(3) ids(4)])
  moreover have "(\<exists>j r. 1 \<le> j \<and> j < ?n \<and> rd_request s j = Some r \<and> rf_transaction_id r = t \<and> rf_status r = Processed) \<longleftrightarrow> refunded t s"
    unfolding refunded_def get_refund_request_def using ids(5) by blast
  ultimately show ?thesis by simp
qed

lemma collect_exact:
  assumes inv: "refunds_inv s"
  shows "collect_from P (rd_request s) 1 [] = Some (Inr (filter P
    (map (\<lambda>i. the (get_refund_request i s)) [1..<unwrap_or (rd_next_refund_id s) 1])))"
proof -
  note ids = refunds_ids [OF inv]
  show ?thesis
    using collect_from_ends [of 1 "unwrap_or (rd_next_refund_id s) 1" "rd_request s" P "[]", OF ids(1) ids(2) ids(3) ids(4)]
    by (simp add: get_refund_request_def)
qed

text \<open>C23: The searches end and are exact.  After any calls, the search for a refund of a transaction returns, and finds one
  exactly when a processed request names the transaction; the list of a user's requests and the list of the pending
  requests return, each complete and in the order of the ids.\<close>

theorem refund_searches_end:
  "let s = run refunds_exec ks refunds_fresh;
       requests = map (\<lambda>i. the (get_refund_request i s)) [1..<unwrap_or (rd_next_refund_id s) 1] in
     has_refund_for_transaction t s
       = Some (Inr (\<exists>i r. get_refund_request i s = Some r \<and> rf_transaction_id r = t \<and> rf_status r = Processed))
   \<and> get_user_refunds a s = Some (Inr (filter (\<lambda>r. rf_requester r = a) requests))
   \<and> get_pending_refunds s = Some (Inr (filter (\<lambda>r. rf_status r = Pending) requests))
   \<and> (get_refund_request i s \<noteq> None \<longleftrightarrow> 1 \<le> i \<and> i < unwrap_or (rd_next_refund_id s) 1)"
proof -
  have inv: "refunds_inv (run refunds_exec ks refunds_fresh)" by (rule refunds.run_inv) (simp_all add: refunds_inv_fresh)
  have "get_refund_request i (run refunds_exec ks refunds_fresh) \<noteq> None
      \<longleftrightarrow> 1 \<le> i \<and> i < unwrap_or (rd_next_refund_id (run refunds_exec ks refunds_fresh)) 1"
    using refunds_ids(1) [OF inv, of i] refunds_ids(5) [OF inv, of i] unfolding get_refund_request_def by blast
  then show ?thesis
    unfolding Let_def get_user_refunds_def get_pending_refunds_def collect_exact [OF inv] search_exact [OF inv] refunded_def by simp
qed

section \<open>Two refunds of one transaction\<close>

lemma request_refund_ok:
  assumes inv: "refunds_inv s" and "rd_config s = Some c" "rc_enabled c" and "\<not> refunded t s"
    and "env_auth e a" "0 < n" "length rs \<le> rc_max_refund_reason_length c"
    and "in_u64 (env_timestamp e + rc_refund_window_seconds c)" and "unwrap_or (rd_next_refund_id s) 1 = i" and "in_u64 (i + 1)"
  shows "request_refund e a t b n rs s = Inr (i,
    let r = \<lparr>rf_id = i, rf_transaction_id = t, rf_requester = a, rf_original_recipient = b, rf_amount = n, rf_reason = rs,
        rf_status = initial_status c n, rf_created_at = env_timestamp e, rf_processed_at = None, rf_processed_by = None\<rparr> in
    emit (RefundRequested r) (s\<lparr>rd_next_refund_id := Some (i + 1), rd_request := (rd_request s)(i \<mapsto> r)\<rparr>))"
  using assms
  by (simp add: request_refund_def get_config_def check_refund_eligibility_def search_exact get_transaction_timestamp_def
      next_refund_id_def Let_def u64_add_def)

lemma process_refund_ok:
  assumes "rd_request s i = Some r" "rf_status r = Approved" "\<not> has_refund_been_processed i s" and "rd_config s = Some c"
    and "env_auth e p" and "in_u64 (rf_created_at r + rc_refund_window_seconds c)"
    and "env_timestamp e \<le> rf_created_at r + rc_refund_window_seconds c"
    and "in_i128 (get_balance (rf_requester r) s + rf_amount r)"
  obtains s' where "refunds_exec (e, CProcess p i) s = Inr s'"
    and "rd_request s' = (rd_request s)(i \<mapsto> r\<lparr>rf_status := Processed, rf_processed_at := Some (env_timestamp e), rf_processed_by := Some p\<rparr>)"
    and "rd_config s' = rd_config s" and "rd_processed s' = (rd_processed s)(i \<mapsto> True)"
    and "rd_balance s' = (rd_balance s)(rf_requester r \<mapsto> get_balance (rf_requester r) s + rf_amount r)"
proof -
  let ?r = "r\<lparr>rf_status := Processed, rf_processed_at := Some (env_timestamp e), rf_processed_by := Some p\<rparr>"
  let ?s = "emit (RefundProcessed (rf_id r) (rf_transaction_id r) (rf_requester r) (rf_original_recipient r) (rf_amount r) p (env_timestamp e))
      (s\<lparr>rd_balance := (rd_balance s)(rf_requester r \<mapsto> get_balance (rf_requester r) s + rf_amount r),
         rd_request := (rd_request s)(i \<mapsto> ?r), rd_processed := (rd_processed s)(i \<mapsto> True)\<rparr>)"
  have "refunds_exec (e, CProcess p i) s = Inr ?s"
    using assms by (simp add: process_refund_def get_config_def execute_refund_def checked_add_def Let_def u64_add_def)
  from that [OF this] show thesis by (simp add: emit_def)
qed

text \<open>C38: One transaction is refunded again and again.  Eligibility is checked when a refund is requested and not when it is
  paid, and neither the transaction nor the account it belongs to is known.  In any state that the calls reach, with refunds
  enabled and none yet paid for the transaction: two requests made for it one after the other, by any accounts that sign, at
  any times and of amounts that the configuration approves at once, are both paid to their requesters when they are
  processed, by whoever signs, within their windows (sums within range and ids left, that is).\<close>

theorem refund_paid_twice:
  assumes s: "s = run refunds_exec ks refunds_fresh" and c: "rd_config s = Some c" "rc_enabled c"
    and unpaid: "\<not> (\<exists>j r. get_refund_request j s = Some r \<and> rf_transaction_id r = t \<and> rf_status r = Processed)"
    and i: "i = unwrap_or (rd_next_refund_id s) 1" "in_u64 (i + 2)"
    and first: "env_auth e a" "0 < n" "initial_status c n = Approved" "length rs \<le> rc_max_refund_reason_length c"
    and second: "env_auth e' a'" "0 < n'" "initial_status c n' = Approved" "length rs' \<le> rc_max_refund_reason_length c"
    and window: "in_u64 (env_timestamp e + rc_refund_window_seconds c)" "in_u64 (env_timestamp e' + rc_refund_window_seconds c)"
    and signed: "env_auth d p" "env_auth d' p'"
    and timely: "env_timestamp d \<le> env_timestamp e + rc_refund_window_seconds c"
      "env_timestamp d' \<le> env_timestamp e' + rc_refund_window_seconds c"
    and range: "in_i128 (get_balance a s + n)" "in_i128 (get_balance a' s + (if a' = a then n else 0) + n')"
  shows "let s' = run refunds_exec [(e, CRequest a t b n rs), (e', CRequest a' t b' n' rs'), (d, CProcess p i), (d', CProcess p' (i + 1))] s in
      get_balance x s' = get_balance x s + (if x = a then n else 0) + (if x = a' then n' else 0)
    \<and> (\<forall>j\<in>{i, i + 1}. \<exists>r. get_refund_request j s' = Some r \<and> rf_transaction_id r = t \<and> rf_status r = Processed)"
proof -
  have inv: "refunds_inv s" unfolding s by (rule refunds.run_inv) (simp_all add: refunds_inv_fresh)
  have t: "\<not> refunded t s" using unpaid by (simp add: refunded_def)
  have ids: "in_u64 (i + 1)" "rd_request s i = None" "\<not> has_refund_been_processed i s"
    using i refunds_ids [OF inv] by (auto simp: in_u64_def)
  have up: "rd_request s (Suc i) = None" "\<not> has_refund_been_processed (Suc i) s"
    using refunds_ids(5) [OF inv, of "Suc i"] inv i(1) unfolding refunds_inv_def
    by (cases "rd_request s (Suc i)"; auto)+
  define r where "r = \<lparr>rf_id = i, rf_transaction_id = t, rf_requester = a, rf_original_recipient = b, rf_amount = n, rf_reason = rs,
      rf_status = Approved, rf_created_at = env_timestamp e, rf_processed_at = None, rf_processed_by = None\<rparr>"
  define r' where "r' = \<lparr>rf_id = i + 1, rf_transaction_id = t, rf_requester = a', rf_original_recipient = b', rf_amount = n', rf_reason = rs',
      rf_status = Approved, rf_created_at = env_timestamp e', rf_processed_at = None, rf_processed_by = None\<rparr>"
  define s1 where "s1 = emit (RefundRequested r) (s\<lparr>rd_next_refund_id := Some (i + 1), rd_request := (rd_request s)(i \<mapsto> r)\<rparr>)"
  define s2 where "s2 = emit (RefundRequested r') (s1\<lparr>rd_next_refund_id := Some (i + 2), rd_request := (rd_request s1)(i + 1 \<mapsto> r')\<rparr>)"
  have one: "refunds_exec (e, CRequest a t b n rs) s = Inr s1"
    using request_refund_ok [OF inv c t first(1,2,4) window(1) i(1) [symmetric] ids(1)] first(3) by (simp add: s1_def r_def Let_def)
  have inv1: "refunds_inv s1" by (rule refunds_step_inv [OF one inv])
  have t1: "\<not> refunded t s1" using t ids(2) by (auto simp: refunded_def s1_def emit_def get_refund_request_def r_def)
  have "rd_config s1 = Some c" "unwrap_or (rd_next_refund_id s1) 1 = i + 1" using c by (simp_all add: s1_def emit_def)
  from request_refund_ok [OF inv1 this(1) c(2) t1 second(1,2,4) window(2) this(2)] i(2) second(3)
  have two: "refunds_exec (e', CRequest a' t b' n' rs') s1 = Inr s2" by (simp add: s2_def r'_def Let_def)
  have s2: "rd_request s2 i = Some r" "rd_request s2 (i + 1) = Some r'" "rd_config s2 = Some c" "rd_balance s2 = rd_balance s"
    "rd_processed s2 = rd_processed s" using c by (simp_all add: s2_def s1_def emit_def)
  let ?m = "rd_request s2" and ?p = "\<lambda>r e p. r\<lparr>rf_status := Processed, rf_processed_at := Some (env_timestamp e), rf_processed_by := Some p\<rparr>"
  have free: "\<not> has_refund_been_processed i s2" using ids(3) s2(5) by (simp add: has_refund_been_processed_def)
  have "in_u64 (rf_created_at r + rc_refund_window_seconds c)" "env_timestamp d \<le> rf_created_at r + rc_refund_window_seconds c"
    "in_i128 (get_balance (rf_requester r) s2 + rf_amount r)" using window timely range s2(4) by (simp_all add: r_def get_balance_def)
  from process_refund_ok [OF s2(1) _ free s2(3) signed(1) this] obtain s3 where three: "refunds_exec (d, CProcess p i) s2 = Inr s3"
    and s3: "rd_request s3 = ?m(i \<mapsto> ?p r d p)" "rd_config s3 = Some c" "rd_processed s3 = (rd_processed s)(i \<mapsto> True)"
      "rd_balance s3 = (rd_balance s)(a \<mapsto> get_balance a s + n)"
    using s2 by (auto simp: r_def get_balance_def)
  have free: "\<not> has_refund_been_processed (i + 1) s3" using up(2) s3(3) by (simp add: has_refund_been_processed_def)
  have "rd_request s3 (i + 1) = Some r'" using s2(2) s3(1) by simp
  moreover have "in_u64 (rf_created_at r' + rc_refund_window_seconds c)" "env_timestamp d' \<le> rf_created_at r' + rc_refund_window_seconds c"
    "in_i128 (get_balance (rf_requester r') s3 + rf_amount r')"
    using window timely range s3(4) by (auto simp: r'_def get_balance_def)
  ultimately obtain s4 where four: "refunds_exec (d', CProcess p' (i + 1)) s3 = Inr s4"
    and s4: "rd_request s4 = (rd_request s3)(i + 1 \<mapsto> ?p r' d' p')"
      "rd_balance s4 = (rd_balance s3)(a' \<mapsto> get_balance a' s3 + n')"
    by (elim process_refund_ok [OF _ _ free s3(2) signed(2)]) (simp_all add: r'_def)
  have "run refunds_exec [(e, CRequest a t b n rs), (e', CRequest a' t b' n' rs'), (d, CProcess p i), (d', CProcess p' (i + 1))] s = s4"
    by (simp add: one two three four [unfolded Suc_eq_plus1 [symmetric]] del: refunds_exec.simps)
  then show ?thesis
    unfolding Let_def by (auto simp: s3 s4 get_balance_def get_refund_request_def r_def r'_def)
qed

text \<open>Two accounts, a second request a minute after the first, then payments on the order of a third.\<close>

theorem refund_paid_twice_witness:
  "let s = run refunds_exec [(signed_env [Addr 1] 1 10 (Addr 9), CInitialize (Addr 1))] refunds_fresh;
       s' = run refunds_exec
      [(signed_env [Addr 2] 1 20 (Addr 9), CRequest (Addr 2) 77 (Addr 5) 900 []),
       (signed_env [Addr 3] 1 80 (Addr 9), CRequest (Addr 3) 77 (Addr 5) 10000 []),
       (signed_env [Addr 4] 1 90 (Addr 9), CProcess (Addr 4) 1), (signed_env [Addr 4] 1 90 (Addr 9), CProcess (Addr 4) (1 + 1))] s in
     get_balance (Addr 2) s' = get_balance (Addr 2) s + 900
   \<and> (\<forall>j\<in>{1, 1 + 1}. \<exists>r. get_refund_request j s' = Some r \<and> rf_transaction_id r = 77 \<and> rf_status r = Processed)"
proof -
  let ?c = "\<lparr>rc_refund_window_seconds = 86400, rc_auto_approve_threshold = 1000, rc_admin_required_threshold = 10000,
      rc_max_refund_reason_length = 500, rc_enabled = True\<rparr>"
  let ?s = "run refunds_exec [(signed_env [Addr 1] 1 10 (Addr 9), CInitialize (Addr 1))] refunds_fresh"
  have s: "rd_config ?s = Some ?c" "rc_enabled ?c" "\<not> (\<exists>j r. get_refund_request j ?s = Some r \<and> rf_transaction_id r = 77 \<and> rf_status r = Processed)"
    "1 = unwrap_or (rd_next_refund_id ?s) 1" "in_u64 (1 + 2)" "in_i128 (get_balance (Addr 2) ?s + 900)"
    "in_i128 (get_balance (Addr 3) ?s + (if Addr 3 = Addr 2 then 900 else 0) + 10000)"
    by (simp_all add: refunds_fresh_def initialize_def get_refund_request_def get_balance_def in_u64_def in_i128_def)
  note T = refund_paid_twice [OF refl s(1-5), where x = "Addr 2" and a = "Addr 2" and n = 900 and a' = "Addr 3" and n' = 10000
      and e = "signed_env [Addr 2] 1 20 (Addr 9)" and e' = "signed_env [Addr 3] 1 80 (Addr 9)" and p = "Addr 4" and p' = "Addr 4"
      and d = "signed_env [Addr 4] 1 90 (Addr 9)" and d' = "signed_env [Addr 4] 1 90 (Addr 9)"
      and b = "Addr 5" and b' = "Addr 5" and rs = "[]" and rs' = "[]", OF _ _ _ _ _ _ _ _ _ _ _ _ _ _ s(6,7)]
  show ?thesis
    using T unfolding Let_def by (simp add: initial_status_def in_u64_def del: run.simps)
qed

end
