(* ===== verification/History.thy ===== *)
theory History
  imports Host
begin

text \<open>
  \<open>contracts/history.rs\<close>: a log of transactions with an index by user, pages, time ranges and a search.  The free
  functions and the entry points that forward to them are one definition each; \<open>usize\<close> is 32 bits wide, as on the host.
  The file is declared by no crate.
\<close>

section \<open>Data\<close>

datatype transaction_type = Payment | Transfer | Deposit | Withdrawal | Reward | Refund
datatype transaction_status = Pending | Completed | Failed | Reverted
datatype sort_order = Ascending | Descending
datatype time_range = All | Last24Hours | Last7Days | Last30Days | Custom nat nat

record transaction_record =
  hr_id :: nat
  hr_from :: address
  hr_to :: address
  hr_amount :: int
  hr_timestamp :: nat
  hr_description :: string
  hr_transaction_type :: transaction_type
  hr_block_number :: nat
  hr_status :: transaction_status

record paginated_result =
  pr_transactions :: "transaction_record list"
  pr_total_count :: nat
  pr_page_number :: nat
  pr_page_size :: nat
  pr_has_next :: bool
  pr_has_previous :: bool

record user_transaction_summary =
  us_user :: address
  us_total_transactions :: nat
  us_total_sent :: int
  us_total_received :: int
  us_first :: "nat option"
  us_last :: "nat option"

datatype history_error =
    NotInitialized | AlreadyInitialized | Unauthorized | TransactionNotFound | InvalidPageNumber | InvalidPageSize
  | InvalidTimeRange | StorageError | Overflow | InvalidTransactionId

datatype history_event =
    TransactionIndexed nat address nat
  | TransactionStored nat address address
  | PageRetrieved nat nat nat
  | IndexRebuilt nat nat

record history_state =
  hs_admin :: "address option"
  hs_index :: "nat list option"
  hs_record :: "nat \<rightharpoonup> transaction_record"
  hs_user :: "address \<rightharpoonup> nat list"
  hs_by_timestamp :: "nat \<rightharpoonup> nat"
  hs_count :: "nat option"
  hs_events :: "history_event list"

definition history_fresh :: history_state where
  "history_fresh = \<lparr>hs_admin = None, hs_index = None, hs_record = Map.empty, hs_user = Map.empty, hs_by_timestamp = Map.empty,
     hs_count = None, hs_events = []\<rparr>"

type_synonym 'a history_outcome = "(history_state, history_error, 'a) outcome"

definition emit :: "history_event \<Rightarrow> history_state \<Rightarrow> history_state" where
  "emit ev s = s\<lparr>hs_events := hs_events s @ [ev]\<rparr>"

section \<open>Helpers\<close>

fun be_bytes :: "nat \<Rightarrow> nat \<Rightarrow> nat list" where
  "be_bytes 0 x = []"
| "be_bytes (Suc n) x = be_bytes n (x div 256) @ [x mod 256]"

text \<open>\<open>bytes[lo..hi].copy_from_slice(src)\<close> panics unless the slice has the length of the source.\<close>

definition copy_from_slice :: "nat \<Rightarrow> nat \<Rightarrow> nat list \<Rightarrow> nat list \<Rightarrow> history_error trap + nat list" where
  "copy_from_slice lo hi src bytes = (if hi - lo \<noteq> length src then Inl PanicTrap else Inr (take lo bytes @ src @ drop hi bytes))"

definition generate_transaction_id :: "env \<Rightarrow> history_error trap + nat" where
  "generate_transaction_id e =
    (case copy_from_slice 0 8 (be_bytes 8 (env_timestamp e)) (replicate 32 0) of Inl t \<Rightarrow> Inl t | Inr bytes \<Rightarrow>
     case copy_from_slice 8 16 (be_bytes 4 (env_sequence e)) bytes of Inl t \<Rightarrow> Inl t | Inr bytes1 \<Rightarrow>
     Inr (foldl (\<lambda>n b. 256 * n + b) 0 bytes1))"

definition get_transaction_count :: "history_state \<Rightarrow> nat" where
  "get_transaction_count s = unwrap_or (hs_count s) 0"

definition get_global_transaction_index :: "history_state \<Rightarrow> nat list" where
  "get_global_transaction_index s = unwrap_or (hs_index s) []"

definition add_to_global_index :: "nat \<Rightarrow> history_state \<Rightarrow> history_state" where
  "add_to_global_index i s = s\<lparr>hs_index := Some (get_global_transaction_index s @ [i])\<rparr>"

definition get_user_transaction_ids :: "address \<Rightarrow> history_state \<Rightarrow> nat list" where
  "get_user_transaction_ids user s = unwrap_or (hs_user s user) []"

definition add_to_user_index :: "address \<Rightarrow> nat \<Rightarrow> history_state \<Rightarrow> history_state" where
  "add_to_user_index user i s = s\<lparr>hs_user := (hs_user s)(user \<mapsto> get_user_transaction_ids user s @ [i])\<rparr>"

section \<open>Storing\<close>

definition initialize_history_contract :: "address \<Rightarrow> history_state \<Rightarrow> unit history_outcome" where
  "initialize_history_contract admin s =
    (if hs_admin s \<noteq> None then Inl (ContractError AlreadyInitialized) else
     Inr ((), s\<lparr>hs_admin := Some admin, hs_count := Some 0, hs_index := Some []\<rparr>))"

definition get_admin :: "history_state \<Rightarrow> history_error trap + address" where
  "get_admin s = (case hs_admin s of None \<Rightarrow> Inl (ContractError NotInitialized) | Some a \<Rightarrow> Inr a)"

definition require_admin :: "env \<Rightarrow> address \<Rightarrow> history_state \<Rightarrow> history_error trap + unit" where
  "require_admin e caller s =
    (if \<not> env_auth e caller then Inl AuthTrap else
     case get_admin s of Inl t \<Rightarrow> Inl t | Inr admin \<Rightarrow> if admin \<noteq> caller then Inl (ContractError Unauthorized) else Inr ())"

definition store_transaction :: "env \<Rightarrow> address \<Rightarrow> address \<Rightarrow> int \<Rightarrow> string \<Rightarrow> transaction_type \<Rightarrow> history_state
    \<Rightarrow> nat history_outcome" where
  "store_transaction e src dst amount description transaction_type s =
    (case generate_transaction_id e of Inl t \<Rightarrow> Inl t | Inr i \<Rightarrow>
     let r = \<lparr>hr_id = i, hr_from = src, hr_to = dst, hr_amount = amount, hr_timestamp = env_timestamp e,
           hr_description = description, hr_transaction_type = transaction_type, hr_block_number = env_sequence e,
           hr_status = Completed\<rparr>;
         s1 = add_to_global_index i (s\<lparr>hs_record := (hs_record s)(i \<mapsto> r)\<rparr>);
         s2 = add_to_user_index src i s1;
         s3 = (if src \<noteq> dst then add_to_user_index dst i s2 else s2);
         s4 = s3\<lparr>hs_by_timestamp := (hs_by_timestamp s3)(env_timestamp e \<mapsto> i)\<rparr> in
     case u32_add (get_transaction_count s4) 1 of None \<Rightarrow> Inl (ContractError Overflow) | Some n \<Rightarrow>
     Inr (i, emit (TransactionIndexed i src (env_timestamp e)) (emit (TransactionStored i src dst) (s4\<lparr>hs_count := Some n\<rparr>))))"

definition get_transaction :: "nat \<Rightarrow> history_state \<Rightarrow> transaction_record option" where
  "get_transaction i s = hs_record s i"

definition rebuild_index :: "env \<Rightarrow> address \<Rightarrow> history_state \<Rightarrow> unit history_outcome" where
  "rebuild_index e caller s =
    (case require_admin e caller s of Inl t \<Rightarrow> Inl t | Inr _ \<Rightarrow>
     Inr ((), emit (IndexRebuilt 0 (env_timestamp e)) (s\<lparr>hs_index := Some [], hs_count := Some 0\<rparr>)))"

section \<open>Reading\<close>

text \<open>The first index of a page and the index after its last; both sums are plain ones of 32 bits.\<close>

definition page_bounds :: "nat \<Rightarrow> nat \<Rightarrow> nat \<Rightarrow> history_error trap + (nat \<times> nat)" where
  "page_bounds page page_size total_count =
    (if \<not> in_u32 (page * page_size) then Inl ArithTrap else
     case u32_add (page * page_size) page_size of None \<Rightarrow> Inl ArithTrap | Some x \<Rightarrow> Inr (page * page_size, min x total_count))"

definition get_user_transactions_paginated :: "address \<Rightarrow> nat \<Rightarrow> nat \<Rightarrow> sort_order \<Rightarrow> history_state
    \<Rightarrow> paginated_result history_outcome" where
  "get_user_transactions_paginated user page page_size order s =
    (if page_size = 0 \<or> 100 < page_size then Inl (ContractError InvalidPageSize) else
     let ids = get_user_transaction_ids user s; total_count = length ids in
     if total_count = 0 then Inr (\<lparr>pr_transactions = [], pr_total_count = total_count, pr_page_number = page,
         pr_page_size = page_size, pr_has_next = False, pr_has_previous = False\<rparr>, s) else
     case page_bounds page page_size total_count of Inl t \<Rightarrow> Inl t | Inr (start_index, end_index) \<Rightarrow>
     if total_count \<le> start_index then Inl (ContractError InvalidPageNumber) else
     let found = List.map_filter (\<lambda>i. get_transaction (ids ! i) s) [start_index..<end_index];
         transactions = (if order = Descending then rev found else found) in
     Inr (\<lparr>pr_transactions = transactions, pr_total_count = total_count, pr_page_number = page, pr_page_size = page_size,
         pr_has_next = (end_index < total_count), pr_has_previous = (0 < page)\<rparr>, emit (PageRetrieved page page_size total_count) s))"

definition get_latest_transactions :: "nat \<Rightarrow> history_state \<Rightarrow> history_error trap + transaction_record list" where
  "get_latest_transactions limit s =
    (if limit = 0 \<or> 100 < limit then Inl (ContractError InvalidPageSize) else
     let ids = get_global_transaction_index s;
         start_index = (if limit < length ids then length ids - limit else 0) in
     Inr (rev (List.map_filter (\<lambda>i. get_transaction (ids ! i) s) [start_index..<length ids])))"

definition range_bounds :: "env \<Rightarrow> time_range \<Rightarrow> history_error trap + (nat \<times> nat)" where
  "range_bounds e r = (case r of
     All \<Rightarrow> Inr (0, u64_max)
   | Last24Hours \<Rightarrow> Inr (env_timestamp e - 86400, env_timestamp e)
   | Last7Days \<Rightarrow> Inr (env_timestamp e - 604800, env_timestamp e)
   | Last30Days \<Rightarrow> Inr (env_timestamp e - 2592000, env_timestamp e)
   | Custom lo hi \<Rightarrow> if hi < lo then Inl (ContractError InvalidTimeRange) else Inr (lo, hi))"

text \<open>The loop from the newest to the oldest, until \<open>limit\<close> are found.\<close>

fun collect_range :: "history_state \<Rightarrow> nat \<Rightarrow> nat \<Rightarrow> nat \<Rightarrow> nat list \<Rightarrow> transaction_record list" where
  "collect_range s lo hi limit [] = []"
| "collect_range s lo hi limit (i # is) =
    (if limit = 0 then [] else
     case get_transaction i s of None \<Rightarrow> collect_range s lo hi limit is | Some r \<Rightarrow>
     if lo \<le> hr_timestamp r \<and> hr_timestamp r \<le> hi then r # collect_range s lo hi (limit - 1) is
     else collect_range s lo hi limit is)"

definition get_transactions_by_time_range :: "env \<Rightarrow> time_range \<Rightarrow> nat \<Rightarrow> history_state
    \<Rightarrow> history_error trap + transaction_record list" where
  "get_transactions_by_time_range e r limit s =
    (if limit = 0 \<or> 100 < limit then Inl (ContractError InvalidPageSize) else
     case range_bounds e r of Inl t \<Rightarrow> Inl t | Inr (lo, hi) \<Rightarrow>
     Inr (collect_range s lo hi limit (rev (get_global_transaction_index s))))"

text \<open>One transaction of the summary; the sums are plain ones.\<close>

definition summarize :: "history_state \<Rightarrow> nat \<Rightarrow> user_transaction_summary \<Rightarrow> history_error trap + user_transaction_summary" where
  "summarize s i u = (case get_transaction i s of None \<Rightarrow> Inr u | Some r \<Rightarrow>
     case (if hr_from r = us_user u then checked_add (us_total_sent u) (hr_amount r)
           else checked_add (us_total_received u) (hr_amount r)) of None \<Rightarrow> Inl ArithTrap | Some x \<Rightarrow>
     let u1 = (if hr_from r = us_user u then u\<lparr>us_total_sent := x\<rparr> else u\<lparr>us_total_received := x\<rparr>);
         fst_time = (case us_first u1 of None \<Rightarrow> hr_timestamp r | Some f \<Rightarrow> if hr_timestamp r < f then hr_timestamp r else f);
         last_time = (case us_last u1 of None \<Rightarrow> hr_timestamp r | Some l \<Rightarrow> if l < hr_timestamp r then hr_timestamp r else l) in
     Inr (u1\<lparr>us_first := Some fst_time, us_last := Some last_time\<rparr>))"

definition get_user_transaction_summary :: "address \<Rightarrow> history_state \<Rightarrow> history_error trap + user_transaction_summary" where
  "get_user_transaction_summary user s =
    (let ids = get_user_transaction_ids user s in
     fold_trap (summarize s) ids \<lparr>us_user = user, us_total_transactions = length ids, us_total_sent = 0, us_total_received = 0,
       us_first = None, us_last = None\<rparr>)"

fun contains :: "string \<Rightarrow> string \<Rightarrow> bool" where
  "contains q [] = (q = [])"
| "contains q (x # xs) = (take (length q) (x # xs) = q \<or> contains q xs)"

definition search_transactions :: "string \<Rightarrow> nat \<Rightarrow> nat \<Rightarrow> history_state \<Rightarrow> history_error trap + paginated_result" where
  "search_transactions query page page_size s =
    (if page_size = 0 \<or> 100 < page_size then Inl (ContractError InvalidPageSize) else
     let matching = filter (\<lambda>r. contains query (hr_description r))
           (List.map_filter (\<lambda>i. get_transaction i s) (get_global_transaction_index s));
         total_count = length matching in
     case page_bounds page page_size total_count of Inl t \<Rightarrow> Inl t | Inr (start_index, end_index) \<Rightarrow>
     if total_count \<le> start_index then Inr \<lparr>pr_transactions = [], pr_total_count = total_count, pr_page_number = page,
         pr_page_size = page_size, pr_has_next = False, pr_has_previous = False\<rparr> else
     Inr \<lparr>pr_transactions = map (\<lambda>i. matching ! i) [start_index..<end_index], pr_total_count = total_count,
       pr_page_number = page, pr_page_size = page_size, pr_has_next = (end_index < total_count), pr_has_previous = (0 < page)\<rparr>)"

datatype history_call =
    CInitialize address
  | CStore address address int string transaction_type
  | CRebuild address
  | CPage address nat nat sort_order

fun history_exec :: "env \<times> history_call \<Rightarrow> history_state \<Rightarrow> history_error trap + history_state" where
  "history_exec (e, CInitialize a) s = final (initialize_history_contract a s)"
| "history_exec (e, CStore a b n d t) s = final (store_transaction e a b n d t s)"
| "history_exec (e, CRebuild a) s = final (rebuild_index e a s)"
| "history_exec (e, CPage a p n d) s = final (get_user_transactions_paginated a p n d s)"

section \<open>Properties\<close>

lemma length_be_bytes [simp]: "length (be_bytes n x) = n"
  by (induction n arbitrary: x) simp_all

lemma no_id: "generate_transaction_id e = Inl PanicTrap"
  by (simp add: generate_transaction_id_def copy_from_slice_def)

definition empty_history :: "history_state \<Rightarrow> bool" where
  "empty_history s \<longleftrightarrow> hs_record s = Map.empty \<and> hs_user s = Map.empty \<and> get_global_transaction_index s = []
     \<and> get_transaction_count s = 0"

interpretation history: contract_invariant history_exec empty_history "\<lambda>_. True"
proof
  fix k s s'
  assume "empty_history s" and "history_exec k s = Inr s'"
  moreover obtain e c where "k = (e, c)" by (cases k)
  ultimately show "empty_history s'"
    by (cases c) (auto simp: initialize_history_contract_def store_transaction_def no_id rebuild_index_def empty_history_def
        get_user_transactions_paginated_def get_user_transaction_ids_def get_global_transaction_index_def
        get_transaction_count_def emit_def split: if_splits sum.splits)
qed

text \<open>Nothing is ever stored.  The eight bytes reserved for the ledger sequence are filled from four, which panics:
  every call of \<open>store_transaction\<close> traps, and after any calls the history is empty.\<close>

theorem history_never_stores:
  "let s = run history_exec ks history_fresh in
     store_transaction e src dst n d t s = Inl PanicTrap \<and> get_transaction i s = None \<and> get_transaction_count s = 0
   \<and> get_user_transaction_summary u s = Inr \<lparr>us_user = u, us_total_transactions = 0, us_total_sent = 0, us_total_received = 0,
       us_first = None, us_last = None\<rparr>"
proof -
  have "empty_history (run history_exec ks history_fresh)"
    by (rule history.run_inv)
      (simp_all add: empty_history_def history_fresh_def get_global_transaction_index_def get_transaction_count_def)
  then show ?thesis
    by (simp add: empty_history_def store_transaction_def no_id get_transaction_def get_user_transaction_summary_def
        get_user_transaction_ids_def Let_def)
qed

text \<open>Pages are slices.  Where every id of a user's index has its record, a page in range is the slice of the records at
  its place, in the order of the index or reversed within the page, and tells whether there are records after and before.\<close>

theorem history_page_exact:
  assumes "map (\<lambda>i. get_transaction i s) (get_user_transaction_ids u s) = map Some rs"
    and "0 < k" and "k \<le> 100" and "p * k < length rs" and "in_u32 (p * k + k)"
  shows "get_user_transactions_paginated u p k order s = Inr (\<lparr>
      pr_transactions = (if order = Descending then rev else id) (take k (drop (p * k) rs)), pr_total_count = length rs,
      pr_page_number = p, pr_page_size = k, pr_has_next = (p * k + k < length rs), pr_has_previous = (0 < p)\<rparr>,
      emit (PageRetrieved p k (length rs)) s)"
proof -
  let ?ids = "get_user_transaction_ids u s" and ?m = "min (p * k + k) (length rs)"
  have len: "length ?ids = length rs" using assms(1) by (metis length_map)
  have rec: "get_transaction (?ids ! i) s = Some (rs ! i)" if "i < length rs" for i
    using assms(1) len that by (metis nth_map)
  have "List.map_filter (\<lambda>i. get_transaction (?ids ! i) s) [p * k..<?m] = map (\<lambda>i. rs ! i) [p * k..<?m]"
    using rec by (subst map_filter_total) auto
  also have "\<dots> = take k (drop (p * k) rs)"
    by (intro nth_equalityI) (auto simp: min_def split: if_splits)
  finally have page: "List.map_filter (\<lambda>i. get_transaction (?ids ! i) s) [p * k..<?m] = take k (drop (p * k) rs)" .
  have "?ids \<noteq> []" and "in_u32 (p * k)" using assms(4,5) len by (auto simp: in_u32_def)
  then show ?thesis using assms(2-5) page
    by (auto simp: get_user_transactions_paginated_def page_bounds_def u32_add_def len Let_def)
qed

text \<open>The second page of three records.\<close>

theorem history_page_exact_witness:
  "let r = (\<lambda>i. \<lparr>hr_id = i, hr_from = Addr 1, hr_to = Addr 2, hr_amount = 5, hr_timestamp = i, hr_description = [],
         hr_transaction_type = Payment, hr_block_number = i, hr_status = Completed\<rparr>);
       s = history_fresh\<lparr>hs_user := [Addr 1 \<mapsto> [7, 8, 9]], hs_record := [7 \<mapsto> r 7, 8 \<mapsto> r 8, 9 \<mapsto> r 9]\<rparr> in
     map_sum id (\<lambda>x. map hr_id (pr_transactions (fst x))) (get_user_transactions_paginated (Addr 1) 1 2 Ascending s) = Inr [9]"
proof -
  define r where "r = (\<lambda>i. \<lparr>hr_id = i, hr_from = Addr 1, hr_to = Addr 2, hr_amount = 5, hr_timestamp = i, hr_description = [],
         hr_transaction_type = Payment, hr_block_number = i, hr_status = Completed\<rparr>)"
  define s where "s = history_fresh\<lparr>hs_user := [Addr 1 \<mapsto> [7, 8, 9]], hs_record := [7 \<mapsto> r 7, 8 \<mapsto> r 8, 9 \<mapsto> r 9]\<rparr>"
  have "map (\<lambda>i. get_transaction i s) (get_user_transaction_ids (Addr 1) s) = map Some [r 7, r 8, r 9]"
    by (simp add: s_def get_transaction_def get_user_transaction_ids_def)
  from history_page_exact [OF this, of 2 1 Ascending] show ?thesis
    unfolding r_def [symmetric] s_def [symmetric] Let_def by (simp add: in_u32_def) (simp add: r_def)
qed

end
