(* ===== verification/Priority_Queue.thy ===== *)
theory Priority_Queue
  imports Host
begin

text \<open>
  \<open>contracts/priority.rs\<close>: a queue of pending items in three levels, where an item of a lower level that has waited for
  more than a minute is to be served first.  The file is declared by no crate.
\<close>

section \<open>Data\<close>

record pending_item =
  pi_id :: nat
  pi_payload :: symbol
  pi_priority :: nat
  pi_created_at :: nat

datatype priority_error = AlreadyInitialized | NotInitialized | Unauthorized | InvalidPriority | EmptyQueue | Overflow

datatype priority_event = Enqueued pending_item | Dequeued pending_item

record priority_state =
  pq_admin :: "address option"
  pq_next_id :: "nat option"
  pq_item :: "nat \<rightharpoonup> pending_item"
  pq_high :: "nat list option"
  pq_med :: "nat list option"
  pq_low :: "nat list option"
  pq_events :: "priority_event list"

definition priority_fresh :: priority_state where
  "priority_fresh = \<lparr>pq_admin = None, pq_next_id = None, pq_item = Map.empty, pq_high = None, pq_med = None, pq_low = None,
     pq_events = []\<rparr>"

type_synonym 'a priority_outcome = "(priority_state, priority_error, 'a) outcome"

definition STARVATION_THRESHOLD :: nat where "STARVATION_THRESHOLD = 60"

definition emit :: "priority_event \<Rightarrow> priority_state \<Rightarrow> priority_state" where
  "emit ev s = s\<lparr>pq_events := pq_events s @ [ev]\<rparr>"

text \<open>The keys of the three queues.\<close>

datatype queue_key = HighQueue | MedQueue | LowQueue

fun load_queue :: "queue_key \<Rightarrow> priority_state \<Rightarrow> nat list" where
  "load_queue HighQueue s = unwrap_or (pq_high s) []"
| "load_queue MedQueue s = unwrap_or (pq_med s) []"
| "load_queue LowQueue s = unwrap_or (pq_low s) []"

fun save_queue :: "queue_key \<Rightarrow> nat list \<Rightarrow> priority_state \<Rightarrow> priority_state" where
  "save_queue HighQueue q s = s\<lparr>pq_high := Some q\<rparr>"
| "save_queue MedQueue q s = s\<lparr>pq_med := Some q\<rparr>"
| "save_queue LowQueue q s = s\<lparr>pq_low := Some q\<rparr>"

section \<open>Helpers\<close>

definition next_id :: "priority_state \<Rightarrow> nat priority_outcome" where
  "next_id s = (case u64_add (unwrap_or (pq_next_id s) 0) 1 of None \<Rightarrow> Inl (ContractError Overflow) | Some n \<Rightarrow>
     Inr (n, s\<lparr>pq_next_id := Some n\<rparr>))"

definition push_queue :: "queue_key \<Rightarrow> nat \<Rightarrow> priority_state \<Rightarrow> priority_state" where
  "push_queue key i s = save_queue key (load_queue key s @ [i]) s"

definition pop_front :: "queue_key \<Rightarrow> priority_state \<Rightarrow> (nat \<times> priority_state) option" where
  "pop_front key s = (case load_queue key s of [] \<Rightarrow> None | i # q \<Rightarrow> Some (i, save_queue key q s))"

definition pop_by_id :: "nat \<Rightarrow> priority_state \<Rightarrow> pending_item option priority_outcome" where
  "pop_by_id i s = (case pq_item s i of None \<Rightarrow> Inl (ContractError EmptyQueue) | Some it \<Rightarrow>
     Inr (Some it, emit (Dequeued it) (s\<lparr>pq_item := (pq_item s)(i := None)\<rparr>)))"

text \<open>One level of the search for a starved item: its first item only.\<close>

definition starved_in :: "queue_key \<Rightarrow> nat \<Rightarrow> priority_state \<Rightarrow> priority_error trap + nat option" where
  "starved_in key now s = (case load_queue key s of [] \<Rightarrow> Inr None | i # _ \<Rightarrow>
     case pq_item s i of None \<Rightarrow> Inl (ContractError EmptyQueue) | Some it \<Rightarrow>
     if STARVATION_THRESHOLD < now - pi_created_at it then Inr (Some i) else Inr None)"

definition find_starved :: "nat \<Rightarrow> priority_state \<Rightarrow> priority_error trap + nat option" where
  "find_starved now s = (case starved_in MedQueue now s of Inl t \<Rightarrow> Inl t | Inr (Some i) \<Rightarrow> Inr (Some i)
     | Inr None \<Rightarrow> starved_in LowQueue now s)"

section \<open>Entry points\<close>

definition initialize :: "address \<Rightarrow> priority_state \<Rightarrow> unit priority_outcome" where
  "initialize admin s =
    (if pq_admin s \<noteq> None then Inl (ContractError AlreadyInitialized) else
     Inr ((), s\<lparr>pq_admin := Some admin, pq_next_id := Some 0, pq_high := Some [], pq_med := Some [], pq_low := Some []\<rparr>))"

definition get_admin :: "priority_state \<Rightarrow> priority_error trap + address" where
  "get_admin s = (case pq_admin s of None \<Rightarrow> Inl (ContractError NotInitialized) | Some a \<Rightarrow> Inr a)"

definition enqueue :: "env \<Rightarrow> address \<Rightarrow> symbol \<Rightarrow> nat \<Rightarrow> priority_state \<Rightarrow> nat priority_outcome" where
  "enqueue e caller payload priority s =
    (if \<not> env_auth e caller then Inl AuthTrap else
     if 2 < priority then Inl (ContractError InvalidPriority) else
     case next_id s of Inl t \<Rightarrow> Inl t | Inr (i, s1) \<Rightarrow>
     let it = \<lparr>pi_id = i, pi_payload = payload, pi_priority = priority, pi_created_at = env_timestamp e\<rparr>;
         s2 = s1\<lparr>pq_item := (pq_item s1)(i \<mapsto> it)\<rparr>;
         s3 = push_queue (if priority = 0 then LowQueue else if priority = 1 then MedQueue else HighQueue) i s2 in
     Inr (i, emit (Enqueued it) s3))"

definition dequeue :: "env \<Rightarrow> priority_state \<Rightarrow> pending_item option priority_outcome" where
  "dequeue e s =
    (case find_starved (env_timestamp e) s of Inl t \<Rightarrow> Inl t | Inr (Some i) \<Rightarrow> pop_by_id i s | Inr None \<Rightarrow>
     case pop_front HighQueue s of Some (i, s1) \<Rightarrow> pop_by_id i s1 | None \<Rightarrow>
     case pop_front MedQueue s of Some (i, s1) \<Rightarrow> pop_by_id i s1 | None \<Rightarrow>
     case pop_front LowQueue s of Some (i, s1) \<Rightarrow> pop_by_id i s1 | None \<Rightarrow> Inr (None, s))"

datatype priority_call = CInitialize address | CEnqueue address symbol nat | CDequeue

fun priority_exec :: "env \<times> priority_call \<Rightarrow> priority_state \<Rightarrow> priority_error trap + priority_state" where
  "priority_exec (e, CInitialize a) s = final (initialize a s)"
| "priority_exec (e, CEnqueue a p n) s = final (enqueue e a p n s)"
| "priority_exec (e, CDequeue) s = final (dequeue e s)"

section \<open>Queues without starvation\<close>

fun queue_of :: "nat \<Rightarrow> queue_key" where
  "queue_of 0 = LowQueue"
| "queue_of (Suc 0) = MedQueue"
| "queue_of (Suc (Suc n)) = HighQueue"

text \<open>Each level lists the pending items of its priority, oldest first.\<close>

definition priority_inv :: "priority_state \<Rightarrow> bool" where
  "priority_inv s \<longleftrightarrow> pq_admin s \<noteq> None
     \<and> (\<forall>p\<le>2. sorted_wrt (<) (load_queue (queue_of p) s)
          \<and> set (load_queue (queue_of p) s) = {i. \<exists>it. pq_item s i = Some it \<and> pi_priority it = p})
     \<and> (\<forall>i it. pq_item s i = Some it \<longrightarrow> pi_id it = i \<and> pi_priority it \<le> 2 \<and> i \<le> unwrap_or (pq_next_id s) 0)"

text \<open>The states reached from the initialised contract by calls none of which finds a starved item.\<close>

inductive calm :: "priority_state \<Rightarrow> bool" where
  start: "initialize a priority_fresh = Inr ((), s) \<Longrightarrow> calm s"
| step: "calm s \<Longrightarrow> priority_exec (e, c) s = Inr s' \<Longrightarrow> (c = CDequeue \<Longrightarrow> find_starved (env_timestamp e) s = Inr None) \<Longrightarrow> calm s'"

lemma load_save_queue [simp]: "load_queue k (save_queue k' q s) = (if k = k' then q else load_queue k s)"
  by (cases k; cases k') simp_all

lemma save_fields [simp]:
  "pq_admin (save_queue k q s) = pq_admin s" "pq_next_id (save_queue k q s) = pq_next_id s"
  "pq_item (save_queue k q s) = pq_item s" "pq_events (save_queue k q s) = pq_events s"
  by (cases k; simp)+

lemma load_other [simp]:
  "load_queue k (emit ev s) = load_queue k s" "load_queue k (s\<lparr>pq_item := m\<rparr>) = load_queue k s"
  "load_queue k (s\<lparr>pq_next_id := n\<rparr>) = load_queue k s"
  by (cases k; simp add: emit_def)+

lemma priority_emit_fields [simp]:
  "pq_admin (emit ev s) = pq_admin s" "pq_next_id (emit ev s) = pq_next_id s" "pq_item (emit ev s) = pq_item s"
  "pq_events (emit ev s) = pq_events s @ [ev]"
  by (simp_all add: emit_def)

lemma queue_of_inj: "p \<le> 2 \<Longrightarrow> p' \<le> 2 \<Longrightarrow> queue_of p = queue_of p' \<longleftrightarrow> p = p'"
  by (cases p rule: queue_of.cases; cases p' rule: queue_of.cases) auto

lemma queue_of_priority:
  "p \<le> 2 \<Longrightarrow> (if p = 0 then LowQueue else if p = 1 then MedQueue else HighQueue) = queue_of p"
  by (cases p rule: queue_of.cases) auto

lemma pop_inv:
  assumes "priority_inv s" and "p \<le> 2" and q: "load_queue (queue_of p) s = i # q"
  shows "priority_inv (emit ev ((save_queue (queue_of p) q s)\<lparr>pq_item := (pq_item s)(i := None)\<rparr>))"
    and "\<exists>it. pq_item s i = Some it \<and> pi_priority it = p"
proof -
  have srt: "sorted_wrt (<) (i # q)" and st: "set (i # q) = {i. \<exists>it. pq_item s i = Some it \<and> pi_priority it = p}"
    using assms unfolding priority_inv_def by (metis (no_types, lifting))+
  then show it: "\<exists>it. pq_item s i = Some it \<and> pi_priority it = p" by force
  have "set q = set (i # q) - {i}" using srt by auto
  then have "set q = {j. \<exists>it. ((pq_item s)(i := None)) j = Some it \<and> pi_priority it = p}" unfolding st by auto
  moreover have "{j. \<exists>it. ((pq_item s)(i := None)) j = Some it \<and> pi_priority it = p'}
      = {j. \<exists>it. pq_item s j = Some it \<and> pi_priority it = p'}" if "p' \<noteq> p" for p'
    using it that by force
  ultimately show "priority_inv (emit ev ((save_queue (queue_of p) q s)\<lparr>pq_item := (pq_item s)(i := None)\<rparr>))"
    using assms(1,2) srt unfolding priority_inv_def by (auto simp: queue_of_inj)
qed

lemma push_inv:
  assumes "priority_inv s" and "pi_priority it \<le> 2" and "pi_id it = i" and "unwrap_or (pq_next_id s) 0 < i"
  shows "priority_inv (emit ev (push_queue (queue_of (pi_priority it)) i (s\<lparr>pq_next_id := Some i, pq_item := (pq_item s)(i \<mapsto> it)\<rparr>)))"
proof -
  have le: "j < i" if "pq_item s j = Some x" for j x using assms(1,4) that unfolding priority_inv_def by fastforce
  then have new: "pq_item s i = None" by fastforce
  have st: "set (load_queue (queue_of p) s) = {j. \<exists>x. pq_item s j = Some x \<and> pi_priority x = p}"
    and srt: "sorted_wrt (<) (load_queue (queue_of p) s)" if "p \<le> 2" for p
    using assms(1) that unfolding priority_inv_def by (metis (no_types, lifting))+
  have lt: "j < i" if "j \<in> set (load_queue (queue_of p) s)" "p \<le> 2" for j p using that le st by force
  let ?s = "emit ev (push_queue (queue_of (pi_priority it)) i (s\<lparr>pq_next_id := Some i, pq_item := (pq_item s)(i \<mapsto> it)\<rparr>))"
  have q: "load_queue (queue_of p) ?s = load_queue (queue_of p) s @ (if p = pi_priority it then [i] else [])"
    if "p \<le> 2" for p using that assms(2) by (simp add: push_queue_def queue_of_inj)
  have m: "pq_item ?s = (pq_item s)(i \<mapsto> it)" by (simp add: push_queue_def)
  have levels: "sorted_wrt (<) (load_queue (queue_of p) ?s)
      \<and> set (load_queue (queue_of p) ?s) = {j. \<exists>x. pq_item ?s j = Some x \<and> pi_priority x = p}" if p: "p \<le> 2" for p
  proof
    show "sorted_wrt (<) (load_queue (queue_of p) ?s)"
      unfolding q [OF p] using srt [OF p] lt [OF _ p] by (simp add: sorted_wrt_append)
    show "set (load_queue (queue_of p) ?s) = {j. \<exists>x. pq_item ?s j = Some x \<and> pi_priority x = p}"
      unfolding q [OF p] m set_append st [OF p] using new by auto
  qed
  have old: "pi_id x = j \<and> pi_priority x \<le> 2" if "pq_item s j = Some x" for j x
    using assms(1) that unfolding priority_inv_def by blast
  have "pi_id x = j \<and> pi_priority x \<le> 2 \<and> j \<le> unwrap_or (pq_next_id ?s) 0" if x: "pq_item ?s j = Some x" for j x
  proof (cases "j = i")
    case True
    then show ?thesis using x assms(2,3) by (simp add: push_queue_def)
  next
    case False
    then have "pq_item s j = Some x" using x by (simp add: push_queue_def)
    then show ?thesis using old [of j x] le [of j x] by (simp add: push_queue_def)
  qed
  moreover have "pq_admin ?s \<noteq> None" using assms(1) by (simp add: push_queue_def priority_inv_def)
  ultimately show ?thesis using levels unfolding priority_inv_def by blast
qed

lemma enqueue_inv:
  assumes "priority_inv s" and "enqueue e a payload priority s = Inr (i, s')"
  shows "priority_inv s'"
proof -
  from assms(2) have p: "priority \<le> 2" and i: "i = unwrap_or (pq_next_id s) 0 + 1"
    and s': "s' = (let it = \<lparr>pi_id = i, pi_payload = payload, pi_priority = priority, pi_created_at = env_timestamp e\<rparr> in
      emit (Enqueued it) (push_queue (queue_of (pi_priority it)) i (s\<lparr>pq_next_id := Some i, pq_item := (pq_item s)(i \<mapsto> it)\<rparr>)))"
    by (auto simp: enqueue_def next_id_def Let_def simp flip: queue_of_priority split: if_splits option.splits)
  show ?thesis unfolding s' Let_def by (rule push_inv) (simp_all add: assms(1) p i)
qed

text \<open>A dequeue that meets no starved item takes the first of the highest level that is not empty.\<close>

lemma dequeue_calm:
  assumes "priority_inv s" and "find_starved (env_timestamp e) s = Inr None" and "dequeue e s = Inr (r, s')"
  shows "case r of None \<Rightarrow> s' = s \<and> pq_item s = Map.empty
     | Some it \<Rightarrow> priority_inv s' \<and> pq_item s (pi_id it) = Some it \<and> pq_item s' = (pq_item s)(pi_id it := None)
         \<and> (\<forall>j x. pq_item s j = Some x \<longrightarrow> pi_priority x < pi_priority it \<or> pi_priority x = pi_priority it \<and> pi_id it \<le> j)"
proof -
  have st: "set (load_queue (queue_of p) s) = {j. \<exists>x. pq_item s j = Some x \<and> pi_priority x = p}"
    and srt: "sorted_wrt (<) (load_queue (queue_of p) s)" if "p \<le> 2" for p
    using assms(1) that unfolding priority_inv_def by (metis (no_types, lifting))+
  have prio: "pi_priority x \<le> 2" "pi_id x = j" if "pq_item s j = Some x" for j x
    using assms(1) that unfolding priority_inv_def by blast+
  have top: ?thesis if p: "p \<le> 2" and q: "load_queue (queue_of p) s = i # q"
    and above: "\<And>p'. p < p' \<Longrightarrow> p' \<le> 2 \<Longrightarrow> load_queue (queue_of p') s = []"
    and pop: "pop_by_id i (save_queue (queue_of p) q s) = Inr (r, s')" for p i q
  proof -
    obtain it where it: "pq_item s i = Some it" "pi_priority it = p" using pop_inv(2) [OF assms(1) p q] by blast
    have r: "r = Some it" "s' = emit (Dequeued it) ((save_queue (queue_of p) q s)\<lparr>pq_item := (pq_item s)(i := None)\<rparr>)"
      using pop it by (auto simp: pop_by_id_def)
    have "pi_priority x < p \<or> pi_priority x = p \<and> i \<le> j" if x: "pq_item s j = Some x" for j x
    proof (cases "p < pi_priority x")
      case True
      then show ?thesis using above [OF True] st [of "pi_priority x"] prio [OF x] x by force
    next
      case False
      show ?thesis
      proof (cases "pi_priority x = p")
        case True
        then have "j \<in> set (i # q)" using st [OF p] x q by force
        then show ?thesis using srt [OF p] q True by auto
      qed (use False in simp)
    qed
    then show ?thesis using r it prio(2) [OF it(1)] pop_inv(1) [OF assms(1) p q] by simp
  qed
  show ?thesis
  proof (cases "load_queue HighQueue s")
    case (Cons i q)
    show ?thesis
      by (rule top [of 2 i q]) (use Cons assms(2,3) in \<open>auto simp: numeral_2_eq_2 dequeue_def pop_front_def\<close>)
  next
    case high: Nil
    show ?thesis
    proof (cases "load_queue MedQueue s")
      case (Cons i q)
      show ?thesis by (rule top [of 1 i q])
        (use Cons high assms(2,3) in \<open>auto simp: dequeue_def pop_front_def le_Suc_eq numeral_2_eq_2\<close>)
    next
      case med: Nil
      show ?thesis
      proof (cases "load_queue LowQueue s")
        case (Cons i q)
        show ?thesis by (rule top [of 0 i q])
          (use Cons high med assms(2,3) in \<open>auto simp: dequeue_def pop_front_def le_Suc_eq numeral_2_eq_2\<close>)
      next
        case Nil
        then have "r = None" "s' = s" using high med assms(2,3) by (auto simp: dequeue_def pop_front_def)
        moreover have "pq_item s j = None" for j
        proof (cases "pq_item s j")
          case (Some x)
          then have "j \<in> set (load_queue (queue_of (pi_priority x)) s)" using st prio by blast
          then show ?thesis using Nil high med by (cases "pi_priority x" rule: queue_of.cases) auto
        qed simp
        ultimately show ?thesis by auto
      qed
    qed
  qed
qed

lemma calm_inv: "calm s \<Longrightarrow> priority_inv s"
proof (induction rule: calm.induct)
  case (start a s)
  then show ?case by (auto simp: initialize_def priority_fresh_def priority_inv_def le_Suc_eq numeral_2_eq_2)
next
  case (step s e c s')
  then show ?case
  proof (cases c)
    case (CInitialize a)
    then show ?thesis using step unfolding priority_inv_def by (auto simp: initialize_def split: if_splits)
  next
    case (CEnqueue a p n)
    then show ?thesis using step enqueue_inv by auto
  next
    case CDequeue
    with step obtain r where "dequeue e s = Inr (r, s')" by auto
    then show ?thesis using dequeue_calm [of s e r s'] step CDequeue by (auto split: option.splits)
  qed
qed

lemma calm_run: "calm s \<Longrightarrow> CDequeue \<notin> snd ` set ks \<Longrightarrow> calm (run priority_exec ks s)"
proof (induction ks arbitrary: s)
  case (Cons k ks)
  obtain e c where k: "k = (e, c)" by (cases k)
  show ?case
  proof (cases "priority_exec k s")
    case (Inl t)
    then show ?thesis using Cons.IH [OF Cons.prems(1)] Cons.prems(2) by simp
  next
    case (Inr s1)
    have "calm s1" by (rule calm.step [OF Cons.prems(1)]) (use Inr Cons.prems(2) k in auto)
    then show ?thesis using Inr Cons.IH [of s1] Cons.prems(2) by simp
  qed
qed simp

section \<open>After a starved item was served\<close>

text \<open>Serving a starved item removes the item and leaves its id at the head of the queue, where nothing ever removes it.\<close>

definition jammed :: "queue_key \<Rightarrow> priority_state \<Rightarrow> bool" where
  "jammed key s \<longleftrightarrow> pq_admin s \<noteq> None \<and> (\<forall>i it. pq_item s i = Some it \<longrightarrow> i \<le> unwrap_or (pq_next_id s) 0)
     \<and> (\<exists>i q. load_queue key s = i # q \<and> pq_item s i = None \<and> i \<le> unwrap_or (pq_next_id s) 0)"

definition served :: "priority_state \<Rightarrow> nat" where
  "served s = length (filter (\<lambda>ev. case ev of Enqueued _ \<Rightarrow> False | Dequeued _ \<Rightarrow> True) (pq_events s))"

lemma jammed_initialize: "jammed key s \<Longrightarrow> initialize a s = Inl (ContractError AlreadyInitialized)"
  by (simp add: jammed_def initialize_def)

lemma jammed_med_dequeue: "jammed MedQueue s \<Longrightarrow> dequeue e s = Inl (ContractError EmptyQueue)"
  by (auto simp: jammed_def dequeue_def find_starved_def starved_in_def)

lemma enqueue_jammed:
  assumes "jammed key s" and "enqueue e a p n s = Inr (i, s')"
  shows "jammed key s' \<and> served s' = served s"
proof -
  from assms(2) obtain k it where i: "i = unwrap_or (pq_next_id s) 0 + 1"
    and s': "s' = emit (Enqueued it) (push_queue k i (s\<lparr>pq_next_id := Some i, pq_item := (pq_item s)(i \<mapsto> it)\<rparr>))"
    by (auto simp: enqueue_def next_id_def Let_def split: if_splits option.splits)
  obtain j q where "load_queue key s = j # q" "pq_item s j = None" "j \<le> unwrap_or (pq_next_id s) 0"
    using assms(1) unfolding jammed_def by blast
  then have "load_queue key s' = j # (q @ (if key = k then [i] else []))" "pq_item s' j = None" "j \<le> unwrap_or (pq_next_id s') 0"
    using i by (cases "key = k"; simp add: s' push_queue_def)+
  moreover have "served s' = served s" by (simp add: s' served_def push_queue_def)
  moreover have "pq_admin s' \<noteq> None \<and> (\<forall>j it. pq_item s' j = Some it \<longrightarrow> j \<le> unwrap_or (pq_next_id s') 0)"
    using assms(1) i by (auto simp: s' jammed_def push_queue_def intro: le_SucI)
  ultimately show ?thesis unfolding jammed_def by blast
qed

lemma jammed_low_dequeue:
  assumes "jammed LowQueue s" and "dequeue e s = Inr (r, s')"
  shows "jammed MedQueue s' \<and> served s' = served s + 1"
proof -
  have "starved_in LowQueue (env_timestamp e) s = Inl (ContractError EmptyQueue)"
    using assms(1) by (auto simp: jammed_def starved_in_def)
  then obtain i where med: "starved_in MedQueue (env_timestamp e) s = Inr (Some i)" and pop: "pop_by_id i s = Inr (r, s')"
    using assms(2) by (auto simp: dequeue_def find_starved_def split: sum.splits option.splits)
  from pop obtain it where it: "pq_item s i = Some it" "s' = emit (Dequeued it) (s\<lparr>pq_item := (pq_item s)(i := None)\<rparr>)"
    by (cases "pq_item s i") (auto simp: pop_by_id_def)
  from med obtain q where "load_queue MedQueue s = i # q"
    by (auto simp: starved_in_def split: list.splits option.splits if_splits)
  then show ?thesis using assms(1) it(1) unfolding it(2) jammed_def served_def by auto
qed

lemma jammed_step:
  assumes "priority_exec c s = Inr s'"
  shows "jammed MedQueue s \<Longrightarrow> jammed MedQueue s' \<and> served s' = served s"
    and "jammed LowQueue s \<Longrightarrow> jammed LowQueue s' \<and> served s' = served s \<or> jammed MedQueue s' \<and> served s' = served s + 1"
proof -
  obtain e d where c: "c = (e, d)" by (cases c)
  show "jammed MedQueue s \<Longrightarrow> jammed MedQueue s' \<and> served s' = served s"
    using assms jammed_initialize [of MedQueue s] jammed_med_dequeue [of s e] enqueue_jammed [of MedQueue s]
    by (cases d) (auto simp: c)
  show "jammed LowQueue s \<Longrightarrow> jammed LowQueue s' \<and> served s' = served s \<or> jammed MedQueue s' \<and> served s' = served s + 1"
    using assms jammed_initialize [of LowQueue s] jammed_low_dequeue [of s e] enqueue_jammed [of LowQueue s]
    by (cases d) (fastforce simp: c)+
qed

lemma jammed_med_run: "jammed MedQueue s \<Longrightarrow> served (run priority_exec ks s) = served s"
proof (induction ks arbitrary: s)
  case (Cons k ks)
  then show ?case using jammed_step(1) [of k s] by (cases "priority_exec k s") auto
qed simp

lemma jammed_low_run: "jammed LowQueue s \<Longrightarrow> served (run priority_exec ks s) \<le> served s + 1"
proof (induction ks arbitrary: s)
  case (Cons k ks)
  then show ?case using jammed_step(2) [of k s] jammed_med_run [of _ ks] by (cases "priority_exec k s") fastforce+
qed simp

section \<open>Properties\<close>

definition demo_calls :: "(env \<times> priority_call) list" where
  "demo_calls = [(signed_env [Addr 2] 1 11 (Addr 9), CEnqueue (Addr 2) ''a'' 0),
     (signed_env [Addr 2] 1 12 (Addr 9), CEnqueue (Addr 2) ''b'' 1)]"

definition demo_state :: priority_state where
  "demo_state = \<lparr>pq_admin = Some (Addr 1), pq_next_id = Some 2,
     pq_item = [1 \<mapsto> \<lparr>pi_id = 1, pi_payload = ''a'', pi_priority = 0, pi_created_at = 11\<rparr>,
       2 \<mapsto> \<lparr>pi_id = 2, pi_payload = ''b'', pi_priority = 1, pi_created_at = 12\<rparr>],
     pq_high = Some [], pq_med = Some [2], pq_low = Some [1],
     pq_events = [Enqueued \<lparr>pi_id = 1, pi_payload = ''a'', pi_priority = 0, pi_created_at = 11\<rparr>,
       Enqueued \<lparr>pi_id = 2, pi_payload = ''b'', pi_priority = 1, pi_created_at = 12\<rparr>]\<rparr>"

lemma calm_demo: "calm demo_state"
proof -
  let ?s0 = "\<lparr>pq_admin = Some (Addr 1), pq_next_id = Some 0, pq_item = Map.empty, pq_high = Some [], pq_med = Some [],
    pq_low = Some [], pq_events = []\<rparr>"
  have s0: "initialize (Addr 1) priority_fresh = Inr ((), ?s0)" by (simp add: initialize_def priority_fresh_def)
  have "calm (run priority_exec demo_calls ?s0)"
    by (rule calm_run [OF calm.start [OF s0]]) (simp add: demo_calls_def)
  moreover have "run priority_exec demo_calls ?s0 = demo_state"
    by (simp add: demo_calls_def demo_state_def enqueue_def next_id_def push_queue_def emit_def u64_add_def in_u64_def
        Let_def numeral_2_eq_2)
  ultimately show ?thesis by simp
qed



text \<open>Serving a starved item jams the queue.  Its id stays at the head of its queue, and every later search for starved
  items panics there: whatever is enqueued and however often \<open>dequeue\<close> is called, at most one more item is ever served.\<close>

theorem priority_starvation_jams:
  assumes "calm s" and "find_starved (env_timestamp e) s = Inr (Some i)" and "dequeue e s = Inr (r, s')"
  shows "served (run priority_exec ks s') \<le> served s' + 1"
proof -
  obtain it where it: "pq_item s i = Some it" and s': "s' = emit (Dequeued it) (s\<lparr>pq_item := (pq_item s)(i := None)\<rparr>)"
    using assms(2,3) by (auto simp: dequeue_def pop_by_id_def split: option.splits)
  have "\<exists>key q. key \<in> {MedQueue, LowQueue} \<and> load_queue key s = i # q"
    using assms(2) by (auto simp: find_starved_def starved_in_def split: sum.splits option.splits list.splits if_splits)
  then have "jammed MedQueue s' \<or> jammed LowQueue s'"
    using calm_inv [OF assms(1)] it unfolding s' priority_inv_def jammed_def by auto
  then show ?thesis using jammed_med_run [of s' ks] jammed_low_run [of s' ks] by auto
qed

text \<open>An item of the middle level served after 61 seconds.\<close>

theorem priority_starvation_jams_witness:
  "\<exists>s r s'. calm s \<and> dequeue (signed_env [] 1 73 (Addr 9)) s = Inr (r, s') \<and> served s' = 1
     \<and> (\<forall>ks. served (run priority_exec ks s') \<le> 2)"
proof -
  let ?e = "signed_env [] 1 73 (Addr 9)"
  have starved: "find_starved (env_timestamp ?e) demo_state = Inr (Some 2)"
    by (simp add: demo_state_def find_starved_def starved_in_def STARVATION_THRESHOLD_def)
  obtain r s' where d: "dequeue ?e demo_state = Inr (r, s')" "served s' = 1"
    using starved by (simp add: demo_state_def dequeue_def pop_by_id_def emit_def served_def)
  have "served (run priority_exec ks s') \<le> 2" for ks
    using priority_starvation_jams [OF calm_demo starved d(1), of ks] d(2) by simp
  then show ?thesis using calm_demo d by blast
qed

end
