(* ===== verification/Spec2Isabelle.thy ===== *)
theory Spec2Isabelle
  imports Token Escrow Deployment Spending_Limits Shared Fee Access_Control Pausable Savings_Goals Shared_Budgets Recurring_Payment Multi_Currency_Wallet Batch_Transfer Rewards Batch_Rewards Transactions Users Budget_Allocation Batch_Wallet_Creation Batch_Conversion Batch_Token_Mint Budget_Recommendations
    Allowances Audit_Log Activity_Feed Transactional Currency_Conversion Merchant_Tagging Spending_Categories
    Category_Analytics Transaction_Analytics Throttling Overdraft Cross_Contract Governance
    Fee_Routing Upgrade_V2 Streak_Rewards Recurring_Savings Delegation Wallet_Linking Multisig_Withdrawal Multisig_Transactions
    Preferences Account_Status Refunds History Priority_Queue
begin

text \<open>
  A model of the StellarSpend contracts (\<open>src/contracts\<close>), the Soroban smart contracts of the
  repository, with the theorems that make them correct or show where they are not.

  \<^bold>\<open>The program.\<close>  A workspace of Rust crates, one contract each.  A contract keeps its state in
  the storage of its own address, is called by signed invocations, and either returns, committing its
  writes, or traps, which undoes them.  Contracts that move money call a token contract through
  \<open>soroban_sdk::token::Client\<close>; apart from that, the crates hardly call each other (the fees contract calls the
  treasury): they share the library crate \<open>shared\<close> and meet in the token ledger.

  \<^bold>\<open>How code becomes definitions.\<close>
  \<^item> A contract's storage is a record with one field per constructor of its \<open>DataKey\<close>: a value that may be
    absent is an \<open>option\<close>, a key with arguments a map.  Published events are a list in the same record.
  \<^item> An entry point is a function from the invocation (\<open>env\<close>: who signed, ledger number, time, own address),
    the arguments and the state to \<open>outcome\<close>: \<open>Inl\<close> a trap (a contract error, a missing
    authorisation, a panic, an arithmetic trap, a trapping callee) or \<open>Inr\<close> the result and the new state.
    The guards stand in the order of the code.
  \<^item> Integers are \<open>int\<close> and \<open>nat\<close> with the bounds of their Rust type: the workspace is built with
    \<open>overflow-checks = true\<close>, so an operation that leaves its type traps (\<open>checked_add\<close> and its companions in
    \<open>Prelude\<close>), the saturating and wrapping ones are written out, and division truncates towards zero.
  \<^item> A loop over a list is a structural recursion or a fold (\<open>fold_trap\<close> where its body may trap), so it
    terminates by construction.  The search over a graph in savings-goals (\<open>has_dependency_path\<close>) and the searches of
    \<open>Refunds\<close> for the first free id are \<open>partial_function (option)\<close>; that they return on every reachable state is a
    theorem.  No definition uses fuel.
  \<^item> A sequence of invocations is \<open>run exec calls state\<close> (\<open>Host\<close>), where \<open>exec\<close> dispatches one call and a
    trap leaves the state unchanged; an invariant is a statement about every such run.

  \<^bold>\<open>The theories.\<close>
  \<^item> \<open>Prelude\<close>, \<open>Host\<close>: checked arithmetic, sums over maps, lists; addresses, invocations, traps, runs.
    The locales \<open>contract_invariant\<close>, \<open>contract_relation\<close> and \<open>admin_gated\<close> say once what an invariant, a
    monotone history and an admin gate are, and the contracts interpret them.
  \<^item> \<open>Token_Interface\<close>, \<open>Token\<close>: the laws the clients rely on (\<open>token_client\<close>, \<open>burning_token\<close>), and
    \<open>contracts/token.rs\<close>, the repository's token, which provides them.
  \<^item> \<open>Shared\<close> (\<open>contracts/shared\<close>), \<open>Soroban_Map\<close>: the library crate; the SDK's sorted map.
  \<^item> Money held for others: \<open>Escrow\<close>, \<open>Fee\<close>, \<open>Shared_Budgets\<close>, \<open>Conditional_Payment\<close>, and \<open>Deployment\<close>, which runs
    the four side by side over one ledger; money passed on: \<open>Batch_Transfer\<close>, \<open>Batch_Rewards\<close>, \<open>Recurring_Payment\<close> and
    \<open>Allowances\<close>, which share the arithmetic of \<open>Schedule\<close>; and \<open>Recurring_Savings\<close>, \<open>Streak_Rewards\<close>.
  \<^item> Books of balances and fees: \<open>Multisig_Transactions\<close> (\<open>transactions.rs\<close>, \<open>multisig.rs\<close>, \<open>timelock.rs\<close>); \<open>Fees\<close> and
    \<open>Fees_Books\<close> (\<open>fees.rs\<close>), \<open>Treasury\<close>, and \<open>Fee_Routing\<close>, the two of them together.
  \<^item> Limits and plans: \<open>Spending_Limits\<close>, \<open>Throttling\<close>, \<open>Overdraft\<close>, \<open>Goal_Prereqs\<close> and \<open>Savings_Goals\<close>, \<open>Budget_Allocation\<close>,
    \<open>Budget_Recommendations\<close>.
  \<^item> Accounts and records: \<open>Rewards\<close>, \<open>Transactions\<close>, \<open>Users\<close>, \<open>Multi_Currency_Wallet\<close>,
    \<open>Batch_Wallet_Creation\<close>, \<open>Batch_Conversion\<close>, \<open>Batch_Token_Mint\<close>.
  \<^item> Registers and statistics: \<open>Merchant_Tagging\<close>, \<open>Spending_Categories\<close>, \<open>Category_Analytics\<close>, \<open>Activity_Feed\<close>,
    \<open>Transactional\<close>, \<open>Currency_Conversion\<close>, \<open>Audit_Log\<close>, \<open>Preferences\<close>, \<open>Account_Status\<close>, \<open>Refunds\<close>, \<open>History\<close>,
    \<open>Priority_Queue\<close>.
  \<^item> Batch analytics (\<open>contracts/transaction-analytics\<close>, one theory per file): \<open>Analytics_Types\<close>, \<open>Analytics_Fees\<close>,
    \<open>Batch_Analytics\<close>, \<open>Transaction_Analytics\<close>.
  \<^item> Control: \<open>Access_Control\<close>, \<open>Pausable\<close>, \<open>Governance\<close>, \<open>Cross_Contract\<close> (calls to other contracts), \<open>Upgrade_V1\<close> and
    \<open>Upgrade_V2\<close> (\<open>contracts/contract-upgrade\<close>: both contracts, and histories across the upgrade),
    \<open>Multisig_Withdrawal\<close>, \<open>Delegation\<close>, \<open>Wallet_Linking\<close>.
  Each theory names its crate and files at its head and follows their order: data, storage, helpers,
  entry points, the dispatcher, then the lemmas and the properties.

  \<^bold>\<open>What the lemmas show.\<close>
  \<^item> Solvency: \<open>escrow_sound\<close>, \<open>fee_sound\<close>, \<open>budgets_sound\<close> relate a contract's books to its token balance and
    are kept by every call, for escrow up to what its batches paid twice (\<open>repeated\<close>); the locale \<open>custodian\<close> of \<open>Deployment\<close> adds what a contract guarantees the
    others, from which the contracts are solvent together.  The batch passes of escrow share the locales
    \<open>batch_pass\<close> and \<open>settlement\<close>.
  \<^item> Books: the counters, indices and totals a contract stores are those of its records, on every reachable
    state (\<open>token_inv\<close>, \<open>fee_books\<close>, \<open>escrow_wf\<close>, \<open>budgets_wf\<close>, \<open>book_inv\<close>, \<open>transactions_inv\<close>, \<open>users_inv\<close>, and
    others).
  \<^item> Rates and votes: how often a throttled wallet may transact, when a category may be overdrawn, what it takes to
    execute a proposal, a withdrawal or an upgrade, when a conditional payment is paid (once), whose balance a call can
    lower.
  \<^item> Composition: the four custodians over one ledger, and the fees contract with the treasuries it calls, whose books
    receive what it says it routes (\<open>treasury_client\<close>).
  \<^item> History: what later calls can no longer change (released escrows, contribution records, stored balances).
  \<^item> Functional behaviour: exactly when a central operation succeeds and what it does.
  \<^item> Refinement and equivalence: the reward accounts refine a table of points, batch transfers a reference
    settlement, the bubble sort of transactions a stable sort, the merchant register and the frozen accounts a replay of
    their events, the notification masks a table of switches and event sets; the category breakdown of a batch
    partitions it.
  Where the code breaks a promise, the theorem states what it does instead, and the manifest lists the finding.

  \<^bold>\<open>Assumed of the host.\<close>  Authorisation is a predicate on addresses: that a signature covers a call once is
  the host's business.  The host forbids re-entrancy.  Storage entries neither expire nor are archived.  Time
  and ledger number are arguments; no theorem assumes that they grow unless it says so.

  \<^bold>\<open>Not modelled.\<close>
  \<^item> \<open>contracts/budget\<close>: no member of the workspace; \<open>lib.rs\<close> is the remains of merges that do not parse.
  \<^item> \<open>contracts/stellarspend-fee\<close>: an older fee contract without a buildable library.
  \<^item> \<open>approve_allowance\<close>, \<open>set_spending_limit\<close> and \<open>set_expiration\<close> of \<open>contracts/allowances\<close>: a merge has cut their
    bodies into one another.
  \<^item> Small crates with one table or none: transfer, balance, asset_control, user, savings, wallet-profile,
    transaction-memo and others, the batch crates for payments, history, notifications and reminders.
  \<^item> The loose files of \<open>contracts/\<close> are compiled by nothing (\<open>DEAD_CODE_TICKETS.md\<close>); those that are complete programs
    are modelled (\<open>token.rs\<close>, \<open>conditional_payment.rs\<close>, \<open>throttling.rs\<close>, \<open>overdraft.rs\<close>, \<open>governance.rs\<close>, \<open>fees.rs\<close>,
    \<open>streak_reward.rs\<close>, \<open>recurring_savings.rs\<close>, \<open>delegation.rs\<close>, \<open>wallet.rs\<close>, both files of
    \<open>multisig_savings_withdrawal\<close>, \<open>transactions.rs\<close> with its two modules, \<open>history.rs\<close>, \<open>preference.rs\<close>,
    \<open>account_status.rs\<close>, \<open>refunds.rs\<close>, \<open>priority.rs\<close>); the others (error tables, rate limits, fragments of one table) are not.
  \<^item> Events beyond the fact that they are published, tests, benchmarks and circuits.
\<close>

end
